(* ===== verification/Prelude.thy ===== *)
theory Prelude
  imports Main "HOL-Library.Word"
begin

unbundle bit_operations_syntax

text \<open>
  Shared vocabulary of the development: the machine integers of the C code, byte-addressed
  memory with bulk reads and writes, the big-endian (network order) layout of 16, 32 and 64 bit
  values, and the generic lemmas on them.  Component theories collect their rewrite rules in
  the named collections declared here.
\<close>

declare add_2_eq_Suc [simp del] add_2_eq_Suc' [simp del]

named_theorems memory_simps \<open>rewrite rules for reads and writes of memory\<close>
named_theorems layout_simps \<open>sizes and constants of the wire format\<close>
named_theorems msg_defs \<open>the accessors and store operations of message descriptors\<close>

type_synonym u8 = "8 word"
type_synonym u16 = "16 word"
type_synonym u32 = "32 word"
type_synonym u64 = "64 word"

text \<open>Memory is flat: an address is a natural number and every address holds one byte.\<close>

type_synonym memory = "nat \<Rightarrow> u8"

definition write_bytes :: "nat \<Rightarrow> u8 list \<Rightarrow> memory \<Rightarrow> memory" where
  "write_bytes a bs m = (\<lambda>x. if a \<le> x \<and> x < a + length bs then bs ! (x - a) else m x)"

definition read_bytes :: "nat \<Rightarrow> nat \<Rightarrow> memory \<Rightarrow> u8 list" where
  "read_bytes a n m = map m [a..<a + n]"

lemma write_bytes_Nil [memory_simps, simp]: "write_bytes a [] m = m"
  by (rule ext) (auto simp: write_bytes_def)

lemma length_read_bytes [simp]: "length (read_bytes a n m) = n"
  by (simp add: read_bytes_def)

lemma read_bytes_0 [simp]: "read_bytes a 0 m = []"
  by (simp add: read_bytes_def)

lemma read_bytes_split: "read_bytes a (n + k) m = read_bytes a n m @ read_bytes (a + n) k m"
  unfolding read_bytes_def map_append [symmetric]
  using upt_add_eq_append [of a "a + n" k] by (simp add: add.assoc)

lemma read_bytes_cong:
  assumes "\<And>x. a \<le> x \<Longrightarrow> x < a + n \<Longrightarrow> m x = m' x"
  shows "read_bytes a n m = read_bytes a n m'"
  using assms by (simp add: read_bytes_def)

lemma read_write_same: "read_bytes a (length bs) (write_bytes a bs m) = bs"
  by (rule nth_equalityI) (simp_all add: read_bytes_def write_bytes_def)

lemma read_write_same' [memory_simps]:
  "n = length bs \<Longrightarrow> read_bytes a n (write_bytes a bs m) = bs"
  by (simp add: read_write_same)

lemma read_write_at: "a = b \<Longrightarrow> n = length bs \<Longrightarrow> read_bytes a n (write_bytes b bs m) = bs"
  by (simp add: read_write_same)

lemma read_write_disjoint:
  assumes "a + n \<le> b \<or> b + length bs \<le> a"
  shows "read_bytes a n (write_bytes b bs m) = read_bytes a n m"
  using assms by (intro read_bytes_cong) (auto simp: write_bytes_def)

lemma write_bytes_outside:
  "x < a \<or> a + length bs \<le> x \<Longrightarrow> write_bytes a bs m x = m x"
  by (auto simp: write_bytes_def)

lemma write_bytes_at: "i < length bs \<Longrightarrow> write_bytes a bs m (a + i) = bs ! i"
  by (simp add: write_bytes_def)

text \<open>Adjacent writes are one write; a write over zero bytes with a gap is one write too.\<close>

lemma write_bytes_append:
  assumes "b = a + length xs"
  shows "write_bytes b ys (write_bytes a xs m) = write_bytes a (xs @ ys) m"
  using assms by (auto simp: write_bytes_def nth_append fun_eq_iff)

definition zeros :: "nat \<Rightarrow> nat \<Rightarrow> memory \<Rightarrow> bool" where
  "zeros a n m \<longleftrightarrow> (\<forall>x. a \<le> x \<longrightarrow> x < a + n \<longrightarrow> m x = 0)"

lemma zerosD: "zeros a n m \<Longrightarrow> a \<le> x \<Longrightarrow> x < a + n \<Longrightarrow> m x = 0"
  by (simp add: zeros_def)

lemma zeros_sub: "zeros a n m \<Longrightarrow> a \<le> b \<Longrightarrow> b + k \<le> a + n \<Longrightarrow> zeros b k m"
  by (simp add: zeros_def)

lemma zeros_write_disjoint:
  "zeros a n m \<Longrightarrow> a + n \<le> b \<or> b + length bs \<le> a \<Longrightarrow> zeros a n (write_bytes b bs m)"
  by (auto simp: zeros_def write_bytes_def)

lemma zeros_write_0: "zeros a n m \<Longrightarrow> zeros a n (write_bytes b (replicate k 0) m)"
  by (auto simp: zeros_def write_bytes_def)

lemma read_zeros: "zeros a n m \<Longrightarrow> read_bytes a n m = replicate n 0"
  by (rule nth_equalityI) (simp_all add: read_bytes_def zeros_def)

lemma write_bytes_gap:
  assumes "b = a + length xs + k" and "zeros (a + length xs) k m"
  shows "write_bytes b ys (write_bytes a xs m) = write_bytes a (xs @ replicate k 0 @ ys) m"
  using assms by (auto simp: write_bytes_def nth_append fun_eq_iff zeros_def)

text \<open>Network byte order: \<open>*(uint32_t * )p = htonl(v)\<close> stores \<open>be32 v\<close> at \<open>p\<close> on every host.\<close>

definition be16 :: "u16 \<Rightarrow> u8 list" where
  "be16 w = [ucast (drop_bit 8 w), ucast w]"

definition be32 :: "u32 \<Rightarrow> u8 list" where
  "be32 w = [ucast (drop_bit 24 w), ucast (drop_bit 16 w), ucast (drop_bit 8 w), ucast w]"

definition be64 :: "u64 \<Rightarrow> u8 list" where
  "be64 w = [ucast (drop_bit 56 w), ucast (drop_bit 48 w), ucast (drop_bit 40 w),
             ucast (drop_bit 32 w), ucast (drop_bit 24 w), ucast (drop_bit 16 w),
             ucast (drop_bit 8 w), ucast w]"

lemma length_be16 [simp]: "length (be16 w) = 2" by (simp add: be16_def)
lemma length_be32 [simp]: "length (be32 w) = 4" by (simp add: be32_def)
lemma length_be64 [simp]: "length (be64 w) = 8" by (simp add: be64_def)

text \<open>Reading back: the value of a big-endian byte list, as \<open>ntohs\<close>, \<open>ntohl\<close>, \<open>ntohll\<close> give it.\<close>

definition of_be :: "u8 list \<Rightarrow> 'a::len word" where
  "of_be bs = foldl (\<lambda>acc b. push_bit 8 acc OR ucast b) 0 bs"

text \<open>Short runs of padding, spelled out.\<close>

lemma zero_pads:
  "replicate 2 (0::u8) = [0, 0]" "replicate 3 (0::u8) = [0, 0, 0]" "replicate 4 (0::u8) = [0, 0, 0, 0]"
  "replicate 5 (0::u8) = [0, 0, 0, 0, 0]" "replicate 6 (0::u8) = [0, 0, 0, 0, 0, 0]"
  "replicate 7 (0::u8) = [0, 0, 0, 0, 0, 0, 0]"
  by (simp_all add: numeral_eq_Suc)

lemma unat_of_nat_u8 [simp]: "n < 256 \<Longrightarrow> unat (of_nat n :: u8) = n"
  by (simp add: unat_of_nat take_bit_nat_eq_self)

lemma unat_of_nat_u16 [simp]: "n < 65536 \<Longrightarrow> unat (of_nat n :: u16) = n"
  by (simp add: unat_of_nat take_bit_nat_eq_self)

lemma unat_of_nat_u32: "n < 4294967296 \<Longrightarrow> unat (of_nat n :: u32) = n"
  by (simp add: unat_of_nat take_bit_nat_eq_self)

lemma unat_u16_less: "unat (w :: u16) < 65536"
  using unsigned_less [of w] by simp

lemma unat_u8_less: "unat (w :: u8) < 256"
  using unsigned_less [of w] by simp

text \<open>The round trips of the three widths, from two facts about one byte of a word.\<close>

lemma byte_step:
  fixes w :: "'a::len word"
  shows "push_bit 8 (drop_bit (8 + k) w) OR ucast (ucast (drop_bit k w) :: u8) = drop_bit k w"
proof (rule bit_word_eqI)
  fix n assume n: "n < LENGTH('a)"
  show "bit (push_bit 8 (drop_bit (8 + k) w) OR ucast (ucast (drop_bit k w) :: u8)) n
        = bit (drop_bit k w) n"
  proof (cases "n < 8")
    case True
    then show ?thesis using n by (simp add: bit_simps)
  next
    case False
    then obtain j where "n = 8 + j" by (metis le_iff_add not_less)
    then show ?thesis using n by (auto simp: bit_simps ac_simps)
  qed
qed

lemma byte_top:
  "LENGTH('a) \<le> k + 8 \<Longrightarrow> ucast (ucast (drop_bit k w) :: u8) = drop_bit k (w::'a::len word)"
  by (rule bit_word_eqI) (auto simp: bit_simps dest: bit_imp_le_length)

lemma of_be_be16 [simp]: "of_be (be16 w) = w"
  using byte_step [of 0 w] byte_top [of 8 w] by (simp add: of_be_def be16_def)

lemma of_be_be32 [simp]: "of_be (be32 w) = w"
  using byte_step [of 16 w] byte_step [of 8 w] byte_step [of 0 w] byte_top [of 24 w]
  by (simp add: of_be_def be32_def)

lemma of_be_be64 [simp]: "of_be (be64 w) = w"
  using byte_step [of 48 w] byte_step [of 40 w] byte_step [of 32 w] byte_step [of 24 w]
    byte_step [of 16 w] byte_step [of 8 w] byte_step [of 0 w] byte_top [of 56 w]
  by (simp add: of_be_def be64_def)

end
