(* ===== verification/OpenFlow.thy ===== *)
theory OpenFlow
  imports Prelude
begin

text \<open>
  The constants of the OpenFlow 1.3 wire format that the message utilities write: the OXM headers
  of \<open>openflow.h\<close>, the type codes of match, instructions, actions, group buckets and meter bands, and
  the lengths that \<open>of_utilities.h\<close> assigns to them.  A length is a natural number; the values are
  those of the C macros, including the three masked lengths (VLAN, PBB I-SID, tunnel) that are
  smaller than the field they stand for.
\<close>

section \<open>OXM headers\<close>

definition OXM_HEADER_RAW :: "u32 \<Rightarrow> u32 \<Rightarrow> u32 \<Rightarrow> u32 \<Rightarrow> u32" where
  "OXM_HEADER_RAW cls field hasmask len =
     (push_bit 16 cls OR push_bit 9 field OR push_bit 8 hasmask OR len)"

definition OXM_HEADER :: "u32 \<Rightarrow> u32 \<Rightarrow> u32 \<Rightarrow> u32" where
  "OXM_HEADER cls field len = OXM_HEADER_RAW cls field 0 len"

definition OXM_HEADER_W :: "u32 \<Rightarrow> u32 \<Rightarrow> u32 \<Rightarrow> u32" where
  "OXM_HEADER_W cls field len = OXM_HEADER_RAW cls field 1 (len * 2)"

definition OXM_CLASS :: "u32 \<Rightarrow> u32" where
  "OXM_CLASS header = drop_bit 16 header"

definition OXM_FIELD :: "u32 \<Rightarrow> u32" where
  "OXM_FIELD header = drop_bit 9 header AND 0x7f"

definition OXM_HASMASK :: "u32 \<Rightarrow> u32" where
  "OXM_HASMASK header = drop_bit 8 header AND 1"

definition OXM_LENGTH :: "u32 \<Rightarrow> u32" where
  "OXM_LENGTH header = header AND 0xff"

text \<open>The match field numbers, enum \<open>oxm_ofb_match_fields\<close>.\<close>

definition OFPXMT_OFB_IN_PORT :: u32 where [layout_simps]: "OFPXMT_OFB_IN_PORT = 0"
definition OFPXMT_OFB_IN_PHY_PORT :: u32 where [layout_simps]: "OFPXMT_OFB_IN_PHY_PORT = 1"
definition OFPXMT_OFB_METADATA :: u32 where [layout_simps]: "OFPXMT_OFB_METADATA = 2"
definition OFPXMT_OFB_ETH_DST :: u32 where [layout_simps]: "OFPXMT_OFB_ETH_DST = 3"
definition OFPXMT_OFB_ETH_SRC :: u32 where [layout_simps]: "OFPXMT_OFB_ETH_SRC = 4"
definition OFPXMT_OFB_ETH_TYPE :: u32 where [layout_simps]: "OFPXMT_OFB_ETH_TYPE = 5"
definition OFPXMT_OFB_VLAN_VID :: u32 where [layout_simps]: "OFPXMT_OFB_VLAN_VID = 6"
definition OFPXMT_OFB_VLAN_PCP :: u32 where [layout_simps]: "OFPXMT_OFB_VLAN_PCP = 7"
definition OFPXMT_OFB_IP_DSCP :: u32 where [layout_simps]: "OFPXMT_OFB_IP_DSCP = 8"
definition OFPXMT_OFB_IP_ECN :: u32 where [layout_simps]: "OFPXMT_OFB_IP_ECN = 9"
definition OFPXMT_OFB_IP_PROTO :: u32 where [layout_simps]: "OFPXMT_OFB_IP_PROTO = 10"
definition OFPXMT_OFB_IPV4_SRC :: u32 where [layout_simps]: "OFPXMT_OFB_IPV4_SRC = 11"
definition OFPXMT_OFB_IPV4_DST :: u32 where [layout_simps]: "OFPXMT_OFB_IPV4_DST = 12"
definition OFPXMT_OFB_TCP_SRC :: u32 where [layout_simps]: "OFPXMT_OFB_TCP_SRC = 13"
definition OFPXMT_OFB_TCP_DST :: u32 where [layout_simps]: "OFPXMT_OFB_TCP_DST = 14"
definition OFPXMT_OFB_UDP_SRC :: u32 where [layout_simps]: "OFPXMT_OFB_UDP_SRC = 15"
definition OFPXMT_OFB_UDP_DST :: u32 where [layout_simps]: "OFPXMT_OFB_UDP_DST = 16"
definition OFPXMT_OFB_SCTP_SRC :: u32 where [layout_simps]: "OFPXMT_OFB_SCTP_SRC = 17"
definition OFPXMT_OFB_SCTP_DST :: u32 where [layout_simps]: "OFPXMT_OFB_SCTP_DST = 18"
definition OFPXMT_OFB_ICMPV4_TYPE :: u32 where [layout_simps]: "OFPXMT_OFB_ICMPV4_TYPE = 19"
definition OFPXMT_OFB_ICMPV4_CODE :: u32 where [layout_simps]: "OFPXMT_OFB_ICMPV4_CODE = 20"
definition OFPXMT_OFB_ARP_OP :: u32 where [layout_simps]: "OFPXMT_OFB_ARP_OP = 21"
definition OFPXMT_OFB_ARP_SPA :: u32 where [layout_simps]: "OFPXMT_OFB_ARP_SPA = 22"
definition OFPXMT_OFB_ARP_TPA :: u32 where [layout_simps]: "OFPXMT_OFB_ARP_TPA = 23"
definition OFPXMT_OFB_ARP_SHA :: u32 where [layout_simps]: "OFPXMT_OFB_ARP_SHA = 24"
definition OFPXMT_OFB_ARP_THA :: u32 where [layout_simps]: "OFPXMT_OFB_ARP_THA = 25"
definition OFPXMT_OFB_IPV6_SRC :: u32 where [layout_simps]: "OFPXMT_OFB_IPV6_SRC = 26"
definition OFPXMT_OFB_IPV6_DST :: u32 where [layout_simps]: "OFPXMT_OFB_IPV6_DST = 27"
definition OFPXMT_OFB_IPV6_FLABEL :: u32 where [layout_simps]: "OFPXMT_OFB_IPV6_FLABEL = 28"
definition OFPXMT_OFB_ICMPV6_TYPE :: u32 where [layout_simps]: "OFPXMT_OFB_ICMPV6_TYPE = 29"
definition OFPXMT_OFB_ICMPV6_CODE :: u32 where [layout_simps]: "OFPXMT_OFB_ICMPV6_CODE = 30"
definition OFPXMT_OFB_IPV6_ND_TARGET :: u32 where [layout_simps]: "OFPXMT_OFB_IPV6_ND_TARGET = 31"
definition OFPXMT_OFB_IPV6_ND_SLL :: u32 where [layout_simps]: "OFPXMT_OFB_IPV6_ND_SLL = 32"
definition OFPXMT_OFB_IPV6_ND_TLL :: u32 where [layout_simps]: "OFPXMT_OFB_IPV6_ND_TLL = 33"
definition OFPXMT_OFB_MPLS_LABEL :: u32 where [layout_simps]: "OFPXMT_OFB_MPLS_LABEL = 34"
definition OFPXMT_OFB_MPLS_TC :: u32 where [layout_simps]: "OFPXMT_OFB_MPLS_TC = 35"
definition OFPXMT_OFB_MPLS_BOS :: u32 where [layout_simps]: "OFPXMT_OFB_MPLS_BOS = 36"
definition OFPXMT_OFB_PBB_ISID :: u32 where [layout_simps]: "OFPXMT_OFB_PBB_ISID = 37"
definition OFPXMT_OFB_TUNNEL_ID :: u32 where [layout_simps]: "OFPXMT_OFB_TUNNEL_ID = 38"
definition OFPXMT_OFB_IPV6_EXTHDR :: u32 where [layout_simps]: "OFPXMT_OFB_IPV6_EXTHDR = 39"

text \<open>The header of every field the utilities write.\<close>

definition OXM_OF_IN_PORT :: u32 where "OXM_OF_IN_PORT = OXM_HEADER 0x8000 OFPXMT_OFB_IN_PORT 4"
definition OXM_OF_IN_PHY_PORT :: u32 where "OXM_OF_IN_PHY_PORT = OXM_HEADER 0x8000 OFPXMT_OFB_IN_PHY_PORT 4"
definition OXM_OF_METADATA :: u32 where "OXM_OF_METADATA = OXM_HEADER 0x8000 OFPXMT_OFB_METADATA 8"
definition OXM_OF_METADATA_W :: u32 where "OXM_OF_METADATA_W = OXM_HEADER_W 0x8000 OFPXMT_OFB_METADATA 8"
definition OXM_OF_ETH_DST :: u32 where "OXM_OF_ETH_DST = OXM_HEADER 0x8000 OFPXMT_OFB_ETH_DST 6"
definition OXM_OF_ETH_DST_W :: u32 where "OXM_OF_ETH_DST_W = OXM_HEADER_W 0x8000 OFPXMT_OFB_ETH_DST 6"
definition OXM_OF_ETH_SRC :: u32 where "OXM_OF_ETH_SRC = OXM_HEADER 0x8000 OFPXMT_OFB_ETH_SRC 6"
definition OXM_OF_ETH_SRC_W :: u32 where "OXM_OF_ETH_SRC_W = OXM_HEADER_W 0x8000 OFPXMT_OFB_ETH_SRC 6"
definition OXM_OF_ETH_TYPE :: u32 where "OXM_OF_ETH_TYPE = OXM_HEADER 0x8000 OFPXMT_OFB_ETH_TYPE 2"
definition OXM_OF_VLAN_VID :: u32 where "OXM_OF_VLAN_VID = OXM_HEADER 0x8000 OFPXMT_OFB_VLAN_VID 2"
definition OXM_OF_VLAN_VID_W :: u32 where "OXM_OF_VLAN_VID_W = OXM_HEADER_W 0x8000 OFPXMT_OFB_VLAN_VID 2"
definition OXM_OF_VLAN_PCP :: u32 where "OXM_OF_VLAN_PCP = OXM_HEADER 0x8000 OFPXMT_OFB_VLAN_PCP 1"
definition OXM_OF_IP_DSCP :: u32 where "OXM_OF_IP_DSCP = OXM_HEADER 0x8000 OFPXMT_OFB_IP_DSCP 1"
definition OXM_OF_IP_ECN :: u32 where "OXM_OF_IP_ECN = OXM_HEADER 0x8000 OFPXMT_OFB_IP_ECN 1"
definition OXM_OF_IP_PROTO :: u32 where "OXM_OF_IP_PROTO = OXM_HEADER 0x8000 OFPXMT_OFB_IP_PROTO 1"
definition OXM_OF_IPV4_SRC :: u32 where "OXM_OF_IPV4_SRC = OXM_HEADER 0x8000 OFPXMT_OFB_IPV4_SRC 4"
definition OXM_OF_IPV4_SRC_W :: u32 where "OXM_OF_IPV4_SRC_W = OXM_HEADER_W 0x8000 OFPXMT_OFB_IPV4_SRC 4"
definition OXM_OF_IPV4_DST :: u32 where "OXM_OF_IPV4_DST = OXM_HEADER 0x8000 OFPXMT_OFB_IPV4_DST 4"
definition OXM_OF_IPV4_DST_W :: u32 where "OXM_OF_IPV4_DST_W = OXM_HEADER_W 0x8000 OFPXMT_OFB_IPV4_DST 4"
definition OXM_OF_TCP_SRC :: u32 where "OXM_OF_TCP_SRC = OXM_HEADER 0x8000 OFPXMT_OFB_TCP_SRC 2"
definition OXM_OF_TCP_DST :: u32 where "OXM_OF_TCP_DST = OXM_HEADER 0x8000 OFPXMT_OFB_TCP_DST 2"
definition OXM_OF_UDP_SRC :: u32 where "OXM_OF_UDP_SRC = OXM_HEADER 0x8000 OFPXMT_OFB_UDP_SRC 2"
definition OXM_OF_UDP_DST :: u32 where "OXM_OF_UDP_DST = OXM_HEADER 0x8000 OFPXMT_OFB_UDP_DST 2"
definition OXM_OF_SCTP_SRC :: u32 where "OXM_OF_SCTP_SRC = OXM_HEADER 0x8000 OFPXMT_OFB_SCTP_SRC 2"
definition OXM_OF_SCTP_DST :: u32 where "OXM_OF_SCTP_DST = OXM_HEADER 0x8000 OFPXMT_OFB_SCTP_DST 2"
definition OXM_OF_ICMPV4_TYPE :: u32 where "OXM_OF_ICMPV4_TYPE = OXM_HEADER 0x8000 OFPXMT_OFB_ICMPV4_TYPE 1"
definition OXM_OF_ICMPV4_CODE :: u32 where "OXM_OF_ICMPV4_CODE = OXM_HEADER 0x8000 OFPXMT_OFB_ICMPV4_CODE 1"
definition OXM_OF_ARP_OP :: u32 where "OXM_OF_ARP_OP = OXM_HEADER 0x8000 OFPXMT_OFB_ARP_OP 2"
definition OXM_OF_ARP_SPA :: u32 where "OXM_OF_ARP_SPA = OXM_HEADER 0x8000 OFPXMT_OFB_ARP_SPA 4"
definition OXM_OF_ARP_SPA_W :: u32 where "OXM_OF_ARP_SPA_W = OXM_HEADER_W 0x8000 OFPXMT_OFB_ARP_SPA 4"
definition OXM_OF_ARP_TPA :: u32 where "OXM_OF_ARP_TPA = OXM_HEADER 0x8000 OFPXMT_OFB_ARP_TPA 4"
definition OXM_OF_ARP_TPA_W :: u32 where "OXM_OF_ARP_TPA_W = OXM_HEADER_W 0x8000 OFPXMT_OFB_ARP_TPA 4"
definition OXM_OF_ARP_SHA :: u32 where "OXM_OF_ARP_SHA = OXM_HEADER 0x8000 OFPXMT_OFB_ARP_SHA 6"
definition OXM_OF_ARP_SHA_W :: u32 where "OXM_OF_ARP_SHA_W = OXM_HEADER_W 0x8000 OFPXMT_OFB_ARP_SHA 6"
definition OXM_OF_ARP_THA :: u32 where "OXM_OF_ARP_THA = OXM_HEADER 0x8000 OFPXMT_OFB_ARP_THA 6"
definition OXM_OF_ARP_THA_W :: u32 where "OXM_OF_ARP_THA_W = OXM_HEADER_W 0x8000 OFPXMT_OFB_ARP_THA 6"
definition OXM_OF_IPV6_SRC :: u32 where "OXM_OF_IPV6_SRC = OXM_HEADER 0x8000 OFPXMT_OFB_IPV6_SRC 16"
definition OXM_OF_IPV6_SRC_W :: u32 where "OXM_OF_IPV6_SRC_W = OXM_HEADER_W 0x8000 OFPXMT_OFB_IPV6_SRC 16"
definition OXM_OF_IPV6_DST :: u32 where "OXM_OF_IPV6_DST = OXM_HEADER 0x8000 OFPXMT_OFB_IPV6_DST 16"
definition OXM_OF_IPV6_DST_W :: u32 where "OXM_OF_IPV6_DST_W = OXM_HEADER_W 0x8000 OFPXMT_OFB_IPV6_DST 16"
definition OXM_OF_IPV6_FLABEL :: u32 where "OXM_OF_IPV6_FLABEL = OXM_HEADER 0x8000 OFPXMT_OFB_IPV6_FLABEL 4"
definition OXM_OF_IPV6_FLABEL_W :: u32 where "OXM_OF_IPV6_FLABEL_W = OXM_HEADER_W 0x8000 OFPXMT_OFB_IPV6_FLABEL 4"
definition OXM_OF_ICMPV6_TYPE :: u32 where "OXM_OF_ICMPV6_TYPE = OXM_HEADER 0x8000 OFPXMT_OFB_ICMPV6_TYPE 1"
definition OXM_OF_ICMPV6_CODE :: u32 where "OXM_OF_ICMPV6_CODE = OXM_HEADER 0x8000 OFPXMT_OFB_ICMPV6_CODE 1"
definition OXM_OF_IPV6_ND_TARGET :: u32 where "OXM_OF_IPV6_ND_TARGET = OXM_HEADER 0x8000 OFPXMT_OFB_IPV6_ND_TARGET 16"
definition OXM_OF_IPV6_ND_SLL :: u32 where "OXM_OF_IPV6_ND_SLL = OXM_HEADER 0x8000 OFPXMT_OFB_IPV6_ND_SLL 6"
definition OXM_OF_IPV6_ND_TLL :: u32 where "OXM_OF_IPV6_ND_TLL = OXM_HEADER 0x8000 OFPXMT_OFB_IPV6_ND_TLL 6"
definition OXM_OF_MPLS_LABEL :: u32 where "OXM_OF_MPLS_LABEL = OXM_HEADER 0x8000 OFPXMT_OFB_MPLS_LABEL 4"
definition OXM_OF_MPLS_TC :: u32 where "OXM_OF_MPLS_TC = OXM_HEADER 0x8000 OFPXMT_OFB_MPLS_TC 1"
definition OXM_OF_MPLS_BOS :: u32 where "OXM_OF_MPLS_BOS = OXM_HEADER 0x8000 OFPXMT_OFB_MPLS_BOS 1"
definition OXM_OF_PBB_ISID :: u32 where "OXM_OF_PBB_ISID = OXM_HEADER 0x8000 OFPXMT_OFB_PBB_ISID 3"
definition OXM_OF_PBB_ISID_W :: u32 where "OXM_OF_PBB_ISID_W = OXM_HEADER_W 0x8000 OFPXMT_OFB_PBB_ISID 3"
definition OXM_OF_TUNNEL_ID :: u32 where "OXM_OF_TUNNEL_ID = OXM_HEADER 0x8000 OFPXMT_OFB_TUNNEL_ID 8"
definition OXM_OF_TUNNEL_ID_W :: u32 where "OXM_OF_TUNNEL_ID_W = OXM_HEADER_W 0x8000 OFPXMT_OFB_TUNNEL_ID 8"
definition OXM_OF_IPV6_EXTHDR :: u32 where "OXM_OF_IPV6_EXTHDR = OXM_HEADER 0x8000 OFPXMT_OFB_IPV6_EXTHDR 2"
definition OXM_OF_IPV6_EXTHDR_W :: u32 where "OXM_OF_IPV6_EXTHDR_W = OXM_HEADER_W 0x8000 OFPXMT_OFB_IPV6_EXTHDR 2"

text \<open>
  On the wire a header is class, field and mask flag, payload length.  The general law is proved for
  the basic class; each macro is an instance.
\<close>

definition oxm_header_bytes :: "nat \<Rightarrow> bool \<Rightarrow> nat \<Rightarrow> u8 list" where
  "oxm_header_bytes field hasmask len =
     [0x80, 0, of_nat (2 * field + (if hasmask then 1 else 0)), of_nat len]"

lemma be32_OXM [layout_simps]:
  "be32 OXM_OF_IN_PORT = oxm_header_bytes 0 False 4"
  "be32 OXM_OF_IN_PHY_PORT = oxm_header_bytes 1 False 4"
  "be32 OXM_OF_METADATA = oxm_header_bytes 2 False 8"
  "be32 OXM_OF_METADATA_W = oxm_header_bytes 2 True 16"
  "be32 OXM_OF_ETH_DST = oxm_header_bytes 3 False 6"
  "be32 OXM_OF_ETH_DST_W = oxm_header_bytes 3 True 12"
  "be32 OXM_OF_ETH_SRC = oxm_header_bytes 4 False 6"
  "be32 OXM_OF_ETH_SRC_W = oxm_header_bytes 4 True 12"
  "be32 OXM_OF_ETH_TYPE = oxm_header_bytes 5 False 2"
  "be32 OXM_OF_VLAN_VID = oxm_header_bytes 6 False 2"
  "be32 OXM_OF_VLAN_VID_W = oxm_header_bytes 6 True 4"
  "be32 OXM_OF_VLAN_PCP = oxm_header_bytes 7 False 1"
  "be32 OXM_OF_IP_DSCP = oxm_header_bytes 8 False 1"
  "be32 OXM_OF_IP_ECN = oxm_header_bytes 9 False 1"
  "be32 OXM_OF_IP_PROTO = oxm_header_bytes 10 False 1"
  "be32 OXM_OF_IPV4_SRC = oxm_header_bytes 11 False 4"
  "be32 OXM_OF_IPV4_SRC_W = oxm_header_bytes 11 True 8"
  "be32 OXM_OF_IPV4_DST = oxm_header_bytes 12 False 4"
  "be32 OXM_OF_IPV4_DST_W = oxm_header_bytes 12 True 8"
  "be32 OXM_OF_TCP_SRC = oxm_header_bytes 13 False 2"
  "be32 OXM_OF_TCP_DST = oxm_header_bytes 14 False 2"
  "be32 OXM_OF_UDP_SRC = oxm_header_bytes 15 False 2"
  "be32 OXM_OF_UDP_DST = oxm_header_bytes 16 False 2"
  "be32 OXM_OF_SCTP_SRC = oxm_header_bytes 17 False 2"
  "be32 OXM_OF_SCTP_DST = oxm_header_bytes 18 False 2"
  "be32 OXM_OF_ICMPV4_TYPE = oxm_header_bytes 19 False 1"
  "be32 OXM_OF_ICMPV4_CODE = oxm_header_bytes 20 False 1"
  "be32 OXM_OF_ARP_OP = oxm_header_bytes 21 False 2"
  "be32 OXM_OF_ARP_SPA = oxm_header_bytes 22 False 4"
  "be32 OXM_OF_ARP_SPA_W = oxm_header_bytes 22 True 8"
  "be32 OXM_OF_ARP_TPA = oxm_header_bytes 23 False 4"
  "be32 OXM_OF_ARP_TPA_W = oxm_header_bytes 23 True 8"
  "be32 OXM_OF_ARP_SHA = oxm_header_bytes 24 False 6"
  "be32 OXM_OF_ARP_SHA_W = oxm_header_bytes 24 True 12"
  "be32 OXM_OF_ARP_THA = oxm_header_bytes 25 False 6"
  "be32 OXM_OF_ARP_THA_W = oxm_header_bytes 25 True 12"
  "be32 OXM_OF_IPV6_SRC = oxm_header_bytes 26 False 16"
  "be32 OXM_OF_IPV6_SRC_W = oxm_header_bytes 26 True 32"
  "be32 OXM_OF_IPV6_DST = oxm_header_bytes 27 False 16"
  "be32 OXM_OF_IPV6_DST_W = oxm_header_bytes 27 True 32"
  "be32 OXM_OF_IPV6_FLABEL = oxm_header_bytes 28 False 4"
  "be32 OXM_OF_IPV6_FLABEL_W = oxm_header_bytes 28 True 8"
  "be32 OXM_OF_ICMPV6_TYPE = oxm_header_bytes 29 False 1"
  "be32 OXM_OF_ICMPV6_CODE = oxm_header_bytes 30 False 1"
  "be32 OXM_OF_IPV6_ND_TARGET = oxm_header_bytes 31 False 16"
  "be32 OXM_OF_IPV6_ND_SLL = oxm_header_bytes 32 False 6"
  "be32 OXM_OF_IPV6_ND_TLL = oxm_header_bytes 33 False 6"
  "be32 OXM_OF_MPLS_LABEL = oxm_header_bytes 34 False 4"
  "be32 OXM_OF_MPLS_TC = oxm_header_bytes 35 False 1"
  "be32 OXM_OF_MPLS_BOS = oxm_header_bytes 36 False 1"
  "be32 OXM_OF_PBB_ISID = oxm_header_bytes 37 False 3"
  "be32 OXM_OF_PBB_ISID_W = oxm_header_bytes 37 True 6"
  "be32 OXM_OF_TUNNEL_ID = oxm_header_bytes 38 False 8"
  "be32 OXM_OF_TUNNEL_ID_W = oxm_header_bytes 38 True 16"
  "be32 OXM_OF_IPV6_EXTHDR = oxm_header_bytes 39 False 2"
  "be32 OXM_OF_IPV6_EXTHDR_W = oxm_header_bytes 39 True 4"
  by (simp_all add: OXM_HEADER_def OXM_HEADER_W_def OXM_HEADER_RAW_def be32_def oxm_header_bytes_def
    layout_simps OXM_OF_IN_PORT_def OXM_OF_IN_PHY_PORT_def OXM_OF_METADATA_def OXM_OF_METADATA_W_def OXM_OF_ETH_DST_def OXM_OF_ETH_DST_W_def OXM_OF_ETH_SRC_def OXM_OF_ETH_SRC_W_def OXM_OF_ETH_TYPE_def OXM_OF_VLAN_VID_def OXM_OF_VLAN_VID_W_def OXM_OF_VLAN_PCP_def OXM_OF_IP_DSCP_def OXM_OF_IP_ECN_def OXM_OF_IP_PROTO_def OXM_OF_IPV4_SRC_def OXM_OF_IPV4_SRC_W_def OXM_OF_IPV4_DST_def OXM_OF_IPV4_DST_W_def OXM_OF_TCP_SRC_def OXM_OF_TCP_DST_def OXM_OF_UDP_SRC_def OXM_OF_UDP_DST_def OXM_OF_SCTP_SRC_def OXM_OF_SCTP_DST_def OXM_OF_ICMPV4_TYPE_def OXM_OF_ICMPV4_CODE_def OXM_OF_ARP_OP_def OXM_OF_ARP_SPA_def OXM_OF_ARP_SPA_W_def OXM_OF_ARP_TPA_def OXM_OF_ARP_TPA_W_def OXM_OF_ARP_SHA_def OXM_OF_ARP_SHA_W_def OXM_OF_ARP_THA_def OXM_OF_ARP_THA_W_def OXM_OF_IPV6_SRC_def OXM_OF_IPV6_SRC_W_def OXM_OF_IPV6_DST_def OXM_OF_IPV6_DST_W_def OXM_OF_IPV6_FLABEL_def OXM_OF_IPV6_FLABEL_W_def OXM_OF_ICMPV6_TYPE_def OXM_OF_ICMPV6_CODE_def OXM_OF_IPV6_ND_TARGET_def OXM_OF_IPV6_ND_SLL_def OXM_OF_IPV6_ND_TLL_def OXM_OF_MPLS_LABEL_def OXM_OF_MPLS_TC_def OXM_OF_MPLS_BOS_def OXM_OF_PBB_ISID_def OXM_OF_PBB_ISID_W_def OXM_OF_TUNNEL_ID_def OXM_OF_TUNNEL_ID_W_def OXM_OF_IPV6_EXTHDR_def OXM_OF_IPV6_EXTHDR_W_def)

lemma length_oxm_header_bytes [simp]: "length (oxm_header_bytes f m n) = 4"
  by (simp add: oxm_header_bytes_def)

definition OF_OXM_HDR_LEN :: nat where [layout_simps]: "OF_OXM_HDR_LEN = 4"

section \<open>Lengths of match fields\<close>

definition OFU_IN_PORT_FIELD_LEN :: nat where [layout_simps]: "OFU_IN_PORT_FIELD_LEN = 8"
definition OFU_IN_PHY_PORT_FIELD_LEN :: nat where [layout_simps]: "OFU_IN_PHY_PORT_FIELD_LEN = 8"
definition OFU_META_DATA_FIELD_LEN :: nat where [layout_simps]: "OFU_META_DATA_FIELD_LEN = 12"
definition OFU_META_DATA_MASK_LEN :: nat where [layout_simps]: "OFU_META_DATA_MASK_LEN = 20"
definition OFU_ETH_DST_MAC_ADDR_FIELD_LEN :: nat where [layout_simps]: "OFU_ETH_DST_MAC_ADDR_FIELD_LEN = 10"
definition OFU_ETH_DST_MAC_ADDR_MASK_LEN :: nat where [layout_simps]: "OFU_ETH_DST_MAC_ADDR_MASK_LEN = 16"
definition OFU_ETH_SRC_MAC_ADDR_FIELD_LEN :: nat where [layout_simps]: "OFU_ETH_SRC_MAC_ADDR_FIELD_LEN = 10"
definition OFU_ETH_SRC_MAC_ADDR_MASK_LEN :: nat where [layout_simps]: "OFU_ETH_SRC_MAC_ADDR_MASK_LEN = 16"
definition OFU_ETH_TYPE_FIELD_LEN :: nat where [layout_simps]: "OFU_ETH_TYPE_FIELD_LEN = 6"
definition OFU_VLAN_VID_FIELD_LEN :: nat where [layout_simps]: "OFU_VLAN_VID_FIELD_LEN = 6"
definition OFU_VLAN_VID_MASK_LEN :: nat where [layout_simps]: "OFU_VLAN_VID_MASK_LEN = 6"
definition OFU_VLAN_PCP_FIELD_LEN :: nat where [layout_simps]: "OFU_VLAN_PCP_FIELD_LEN = 5"
definition OFU_IP_DSCP_FIELD_LEN :: nat where [layout_simps]: "OFU_IP_DSCP_FIELD_LEN = 5"
definition OFU_IP_ECN_FIELD_LEN :: nat where [layout_simps]: "OFU_IP_ECN_FIELD_LEN = 5"
definition OFU_IP_PROTO_FIELD_LEN :: nat where [layout_simps]: "OFU_IP_PROTO_FIELD_LEN = 5"
definition OFU_IPV4_SRC_FIELD_LEN :: nat where [layout_simps]: "OFU_IPV4_SRC_FIELD_LEN = 8"
definition OFU_IPV4_SRC_MASK_LEN :: nat where [layout_simps]: "OFU_IPV4_SRC_MASK_LEN = 12"
definition OFU_IPV4_DST_FIELD_LEN :: nat where [layout_simps]: "OFU_IPV4_DST_FIELD_LEN = 8"
definition OFU_IPV4_DST_MASK_LEN :: nat where [layout_simps]: "OFU_IPV4_DST_MASK_LEN = 12"
definition OFU_TCP_SRC_FIELD_LEN :: nat where [layout_simps]: "OFU_TCP_SRC_FIELD_LEN = 6"
definition OFU_TCP_DST_FIELD_LEN :: nat where [layout_simps]: "OFU_TCP_DST_FIELD_LEN = 6"
definition OFU_UDP_SRC_FIELD_LEN :: nat where [layout_simps]: "OFU_UDP_SRC_FIELD_LEN = 6"
definition OFU_UDP_DST_FIELD_LEN :: nat where [layout_simps]: "OFU_UDP_DST_FIELD_LEN = 6"
definition OFU_SCTP_SRC_FIELD_LEN :: nat where [layout_simps]: "OFU_SCTP_SRC_FIELD_LEN = 6"
definition OFU_SCTP_DST_FIELD_LEN :: nat where [layout_simps]: "OFU_SCTP_DST_FIELD_LEN = 6"
definition OFU_ICMPV4_TYPE_FIELD_LEN :: nat where [layout_simps]: "OFU_ICMPV4_TYPE_FIELD_LEN = 5"
definition OFU_ICMPV4_CODE_FIELD_LEN :: nat where [layout_simps]: "OFU_ICMPV4_CODE_FIELD_LEN = 5"
definition OFU_ARP_OP_FIELD_LEN :: nat where [layout_simps]: "OFU_ARP_OP_FIELD_LEN = 6"
definition OFU_ARP_SPA_FIELD_LEN :: nat where [layout_simps]: "OFU_ARP_SPA_FIELD_LEN = 8"
definition OFU_ARP_SPA_MASK_LEN :: nat where [layout_simps]: "OFU_ARP_SPA_MASK_LEN = 12"
definition OFU_ARP_TPA_FIELD_LEN :: nat where [layout_simps]: "OFU_ARP_TPA_FIELD_LEN = 8"
definition OFU_ARP_TPA_MASK_LEN :: nat where [layout_simps]: "OFU_ARP_TPA_MASK_LEN = 12"
definition OFU_ARP_SHA_FIELD_LEN :: nat where [layout_simps]: "OFU_ARP_SHA_FIELD_LEN = 10"
definition OFU_ARP_SHA_MASK_LEN :: nat where [layout_simps]: "OFU_ARP_SHA_MASK_LEN = 16"
definition OFU_ARP_DHA_FIELD_LEN :: nat where [layout_simps]: "OFU_ARP_DHA_FIELD_LEN = 10"
definition OFU_ARP_DHA_MASK_LEN :: nat where [layout_simps]: "OFU_ARP_DHA_MASK_LEN = 16"
definition OFU_IPV6_SRC_FIELD_LEN :: nat where [layout_simps]: "OFU_IPV6_SRC_FIELD_LEN = 20"
definition OFU_IPV6_SRC_MASK_LEN :: nat where [layout_simps]: "OFU_IPV6_SRC_MASK_LEN = 36"
definition OFU_IPV6_DST_FIELD_LEN :: nat where [layout_simps]: "OFU_IPV6_DST_FIELD_LEN = 20"
definition OFU_IPV6_DST_MASK_LEN :: nat where [layout_simps]: "OFU_IPV6_DST_MASK_LEN = 36"
definition OFU_IPV6_FLABEL_FIELD_LEN :: nat where [layout_simps]: "OFU_IPV6_FLABEL_FIELD_LEN = 8"
definition OFU_IPV6_FLABEL_MASK_LEN :: nat where [layout_simps]: "OFU_IPV6_FLABEL_MASK_LEN = 12"
definition OFU_ICMPV6_TYPE_FIELD_LEN :: nat where [layout_simps]: "OFU_ICMPV6_TYPE_FIELD_LEN = 5"
definition OFU_ICMPV6_CODE_FIELD_LEN :: nat where [layout_simps]: "OFU_ICMPV6_CODE_FIELD_LEN = 5"
definition OFU_IPV6_ND_TARGET_FIELD_LEN :: nat where [layout_simps]: "OFU_IPV6_ND_TARGET_FIELD_LEN = 20"
definition OFU_IPV6_ND_SLL_FIELD_LEN :: nat where [layout_simps]: "OFU_IPV6_ND_SLL_FIELD_LEN = 10"
definition OFU_IPV6_ND_DLL_FIELD_LEN :: nat where [layout_simps]: "OFU_IPV6_ND_DLL_FIELD_LEN = 10"
definition OFU_MPLS_LABEL_FIELD_LEN :: nat where [layout_simps]: "OFU_MPLS_LABEL_FIELD_LEN = 8"
definition OFU_MPLS_TC_FIELD_LEN :: nat where [layout_simps]: "OFU_MPLS_TC_FIELD_LEN = 5"
definition OFU_MPLS_BOS_FIELD_LEN :: nat where [layout_simps]: "OFU_MPLS_BOS_FIELD_LEN = 5"
definition OFU_PBB_ISID_FIELD_LEN :: nat where [layout_simps]: "OFU_PBB_ISID_FIELD_LEN = 7"
definition OFU_PBB_ISID_MASK_LEN :: nat where [layout_simps]: "OFU_PBB_ISID_MASK_LEN = 7"
definition OFU_TUNNEL_ID_FIELD_LEN :: nat where [layout_simps]: "OFU_TUNNEL_ID_FIELD_LEN = 12"
definition OFU_TUNNEL_ID_MASK_LEN :: nat where [layout_simps]: "OFU_TUNNEL_ID_MASK_LEN = 12"
definition OFU_IPV6_EXTHDR_FIELD_LEN :: nat where [layout_simps]: "OFU_IPV6_EXTHDR_FIELD_LEN = 6"
definition OFU_IPV6_EXTHDR_MASK_LEN :: nat where [layout_simps]: "OFU_IPV6_EXTHDR_MASK_LEN = 8"

section \<open>Type codes\<close>

definition OFPMT_OXM :: u16 where [layout_simps]: "OFPMT_OXM = 1"

definition OFPIT_GOTO_TABLE :: u16 where [layout_simps]: "OFPIT_GOTO_TABLE = 1"
definition OFPIT_WRITE_METADATA :: u16 where [layout_simps]: "OFPIT_WRITE_METADATA = 2"
definition OFPIT_WRITE_ACTIONS :: u16 where [layout_simps]: "OFPIT_WRITE_ACTIONS = 3"
definition OFPIT_APPLY_ACTIONS :: u16 where [layout_simps]: "OFPIT_APPLY_ACTIONS = 4"
definition OFPIT_CLEAR_ACTIONS :: u16 where [layout_simps]: "OFPIT_CLEAR_ACTIONS = 5"
definition OFPIT_METER :: u16 where [layout_simps]: "OFPIT_METER = 6"

definition OFPAT_OUTPUT :: u16 where [layout_simps]: "OFPAT_OUTPUT = 0"
definition OFPAT_COPY_TTL_OUT :: u16 where [layout_simps]: "OFPAT_COPY_TTL_OUT = 11"
definition OFPAT_COPY_TTL_IN :: u16 where [layout_simps]: "OFPAT_COPY_TTL_IN = 12"
definition OFPAT_SET_MPLS_TTL :: u16 where [layout_simps]: "OFPAT_SET_MPLS_TTL = 15"
definition OFPAT_DEC_MPLS_TTL :: u16 where [layout_simps]: "OFPAT_DEC_MPLS_TTL = 16"
definition OFPAT_PUSH_VLAN :: u16 where [layout_simps]: "OFPAT_PUSH_VLAN = 17"
definition OFPAT_POP_VLAN :: u16 where [layout_simps]: "OFPAT_POP_VLAN = 18"
definition OFPAT_PUSH_MPLS :: u16 where [layout_simps]: "OFPAT_PUSH_MPLS = 19"
definition OFPAT_POP_MPLS :: u16 where [layout_simps]: "OFPAT_POP_MPLS = 20"
definition OFPAT_GROUP :: u16 where [layout_simps]: "OFPAT_GROUP = 22"
definition OFPAT_SET_NW_TTL :: u16 where [layout_simps]: "OFPAT_SET_NW_TTL = 23"
definition OFPAT_DEC_NW_TTL :: u16 where [layout_simps]: "OFPAT_DEC_NW_TTL = 24"
definition OFPAT_SET_FIELD :: u16 where [layout_simps]: "OFPAT_SET_FIELD = 25"
definition OFPAT_PUSH_PBB :: u16 where [layout_simps]: "OFPAT_PUSH_PBB = 26"
definition OFPAT_POP_PBB :: u16 where [layout_simps]: "OFPAT_POP_PBB = 27"
definition OFPAT_SET_QUEUE :: u16 where [layout_simps]: "OFPAT_SET_QUEUE = 21"

definition OFPGBPT_WEIGHT :: u16 where [layout_simps]: "OFPGBPT_WEIGHT = 0"
definition OFPGBPT_WATCH_PORT :: u16 where [layout_simps]: "OFPGBPT_WATCH_PORT = 1"
definition OFPGBPT_WATCH_GROUP :: u16 where [layout_simps]: "OFPGBPT_WATCH_GROUP = 2"

definition OFPMBT_DROP :: u16 where [layout_simps]: "OFPMBT_DROP = 1"
definition OFPMBT_DSCP_REMARK :: u16 where [layout_simps]: "OFPMBT_DSCP_REMARK = 2"

definition OFPP_CONTROLLER :: u32 where [layout_simps]: "OFPP_CONTROLLER = 0xfffffffd"

section \<open>Structure sizes\<close>

text \<open>\<open>sizeof\<close> of the packed wire structures, as \<open>OFP_ASSERT\<close> in \<open>openflow.h\<close> fixes them.\<close>

definition sizeof_ofp_header :: nat where [layout_simps]: "sizeof_ofp_header = 8"
definition sizeof_ofp_match :: nat where [layout_simps]: "sizeof_ofp_match = 8"
definition sizeof_ofp_action_header :: nat where [layout_simps]: "sizeof_ofp_action_header = 8"
definition sizeof_ofp_action_output :: nat where [layout_simps]: "sizeof_ofp_action_output = 16"
definition sizeof_ofp_action_mpls_ttl :: nat where [layout_simps]: "sizeof_ofp_action_mpls_ttl = 8"
definition sizeof_ofp_action_push :: nat where [layout_simps]: "sizeof_ofp_action_push = 8"
definition sizeof_ofp_action_pop_mpls :: nat where [layout_simps]: "sizeof_ofp_action_pop_mpls = 8"
definition sizeof_ofp_action_group :: nat where [layout_simps]: "sizeof_ofp_action_group = 8"
definition sizeof_ofp_action_nw_ttl :: nat where [layout_simps]: "sizeof_ofp_action_nw_ttl = 8"
definition sizeof_ofp_action_set_field :: nat where [layout_simps]: "sizeof_ofp_action_set_field = 8"
definition sizeof_ofp_instruction_goto_table :: nat where [layout_simps]: "sizeof_ofp_instruction_goto_table = 8"
definition sizeof_ofp_instruction_write_metadata :: nat where [layout_simps]: "sizeof_ofp_instruction_write_metadata = 24"
definition sizeof_ofp_instruction_actions :: nat where [layout_simps]: "sizeof_ofp_instruction_actions = 8"
definition sizeof_ofp_instruction_meter :: nat where [layout_simps]: "sizeof_ofp_instruction_meter = 8"
definition sizeof_ofp_flow_mod :: nat where [layout_simps]: "sizeof_ofp_flow_mod = 56"
definition sizeof_ofp_group_bucket_prop_weight :: nat where [layout_simps]: "sizeof_ofp_group_bucket_prop_weight = 8"
definition sizeof_ofp_group_bucket_prop_watch :: nat where [layout_simps]: "sizeof_ofp_group_bucket_prop_watch = 8"
definition sizeof_ofp_bucket :: nat where [layout_simps]: "sizeof_ofp_bucket = 8"
definition sizeof_ofp_group_mod :: nat where [layout_simps]: "sizeof_ofp_group_mod = 24"
definition sizeof_ofp_meter_band_drop :: nat where [layout_simps]: "sizeof_ofp_meter_band_drop = 16"
definition sizeof_ofp_meter_band_dscp_remark :: nat where [layout_simps]: "sizeof_ofp_meter_band_dscp_remark = 16"
definition sizeof_ofp_meter_mod :: nat where [layout_simps]: "sizeof_ofp_meter_mod = 16"

section \<open>Lengths of instructions and actions\<close>

definition OFU_GOTO_TABLE_INSTRUCTION_LEN :: nat where [layout_simps]:
  "OFU_GOTO_TABLE_INSTRUCTION_LEN = sizeof_ofp_instruction_goto_table"
definition OFU_WRITE_META_DATA_INSTRUCTION_LEN :: nat where [layout_simps]:
  "OFU_WRITE_META_DATA_INSTRUCTION_LEN = sizeof_ofp_instruction_write_metadata"
definition OFU_CLEAR_ACTION_INSTRUCTION_LEN :: nat where [layout_simps]:
  "OFU_CLEAR_ACTION_INSTRUCTION_LEN = sizeof_ofp_instruction_actions"
definition OFU_APPLY_ACTION_INSTRUCTION_LEN :: nat where [layout_simps]:
  "OFU_APPLY_ACTION_INSTRUCTION_LEN = sizeof_ofp_instruction_actions"
definition OFU_WRITE_ACTION_INSTRUCTION_LEN :: nat where [layout_simps]:
  "OFU_WRITE_ACTION_INSTRUCTION_LEN = sizeof_ofp_instruction_actions"
definition OFU_METER_INSTRUCTION_LEN :: nat where [layout_simps]:
  "OFU_METER_INSTRUCTION_LEN = sizeof_ofp_instruction_meter"
definition OFU_OUTPUT_ACTION_LEN :: nat where [layout_simps]:
  "OFU_OUTPUT_ACTION_LEN = sizeof_ofp_action_output"
definition OFU_GROUP_ACTION_LEN :: nat where [layout_simps]:
  "OFU_GROUP_ACTION_LEN = sizeof_ofp_action_group"
definition OFU_SET_MPLS_TTL_ACTION_LEN :: nat where [layout_simps]:
  "OFU_SET_MPLS_TTL_ACTION_LEN = sizeof_ofp_action_mpls_ttl"
definition OFU_DEC_MPLS_TTL_ACTION_LEN :: nat where [layout_simps]:
  "OFU_DEC_MPLS_TTL_ACTION_LEN = sizeof_ofp_action_header"
definition OFU_SET_IP_TTL_ACTION_LEN :: nat where [layout_simps]:
  "OFU_SET_IP_TTL_ACTION_LEN = sizeof_ofp_action_nw_ttl"
definition OFU_DEC_IP_TTL_ACTION_LEN :: nat where [layout_simps]:
  "OFU_DEC_IP_TTL_ACTION_LEN = sizeof_ofp_action_nw_ttl"
definition OFU_COPY_TTL_OUTWARD_ACTION_LEN :: nat where [layout_simps]:
  "OFU_COPY_TTL_OUTWARD_ACTION_LEN = sizeof_ofp_action_header"
definition OFU_COPY_TTL_INWARD_ACTION_LEN :: nat where [layout_simps]:
  "OFU_COPY_TTL_INWARD_ACTION_LEN = sizeof_ofp_action_header"
definition OFU_PUSH_VLAN_HEADER_ACTION_LEN :: nat where [layout_simps]:
  "OFU_PUSH_VLAN_HEADER_ACTION_LEN = sizeof_ofp_action_push"
definition OFU_POP_VLAN_HEADER_ACTION_LEN :: nat where [layout_simps]:
  "OFU_POP_VLAN_HEADER_ACTION_LEN = sizeof_ofp_action_header"
definition OFU_PUSH_MPLS_HEADER_ACTION_LEN :: nat where [layout_simps]:
  "OFU_PUSH_MPLS_HEADER_ACTION_LEN = sizeof_ofp_action_push"
definition OFU_POP_MPLS_HEADER_ACTION_LEN :: nat where [layout_simps]:
  "OFU_POP_MPLS_HEADER_ACTION_LEN = sizeof_ofp_action_pop_mpls"
definition OFU_PUSH_PBB_HEADER_ACTION_LEN :: nat where [layout_simps]:
  "OFU_PUSH_PBB_HEADER_ACTION_LEN = sizeof_ofp_action_push"
definition OFU_POP_PBB_HEADER_ACTION_LEN :: nat where [layout_simps]:
  "OFU_POP_PBB_HEADER_ACTION_LEN = sizeof_ofp_action_header"
definition OFU_GROUP_ACTION_BUCKET_LEN :: nat where [layout_simps]:
  "OFU_GROUP_ACTION_BUCKET_LEN = sizeof_ofp_bucket"
definition OFU_GROUP_BUCKET_PROP_WEIGHT_LEN :: nat where [layout_simps]:
  "OFU_GROUP_BUCKET_PROP_WEIGHT_LEN = sizeof_ofp_group_bucket_prop_weight"
definition OFU_GROUP_BUCKET_PROP_WATCH_LEN :: nat where [layout_simps]:
  "OFU_GROUP_BUCKET_PROP_WATCH_LEN = sizeof_ofp_group_bucket_prop_watch"
definition OFU_METER_BAND_LEN :: nat where [layout_simps]:
  "OFU_METER_BAND_LEN = sizeof_ofp_meter_band_dscp_remark"

definition OFU_SET_FIELD_WITH_IN_PORT_LABEL_FIELD_ACTION_LEN :: nat where [layout_simps]:
  "OFU_SET_FIELD_WITH_IN_PORT_LABEL_FIELD_ACTION_LEN = sizeof_ofp_action_set_field + 4"
definition OFU_SET_FIELD_WITH_PHY_PORT_LABEL_FIELD_ACTION_LEN :: nat where [layout_simps]:
  "OFU_SET_FIELD_WITH_PHY_PORT_LABEL_FIELD_ACTION_LEN = sizeof_ofp_action_set_field + 4"
definition OFU_SET_FIELD_WITH_TUNNEL_ID_FIELD_ACTION_LEN :: nat where [layout_simps]:
  "OFU_SET_FIELD_WITH_TUNNEL_ID_FIELD_ACTION_LEN = sizeof_ofp_action_set_field + 8"
definition OFU_SET_FIELD_WITH_ETH_SRC_MAC_ACTION_LEN :: nat where [layout_simps]:
  "OFU_SET_FIELD_WITH_ETH_SRC_MAC_ACTION_LEN = sizeof_ofp_action_set_field + 6"
definition OFU_SET_FIELD_WITH_ETH_DST_MAC_ACTION_LEN :: nat where [layout_simps]:
  "OFU_SET_FIELD_WITH_ETH_DST_MAC_ACTION_LEN = sizeof_ofp_action_set_field + 6"
definition OFU_SET_FIELD_WITH_ETH_TYPE_ACTION_LEN :: nat where [layout_simps]:
  "OFU_SET_FIELD_WITH_ETH_TYPE_ACTION_LEN = sizeof_ofp_action_set_field + 2"
definition OFU_SET_FIELD_WITH_VLAN_VID_ACTION_LEN :: nat where [layout_simps]:
  "OFU_SET_FIELD_WITH_VLAN_VID_ACTION_LEN = sizeof_ofp_action_set_field + 2"
definition OFU_SET_FIELD_WITH_VLAN_PCP_ACTION_LEN :: nat where [layout_simps]:
  "OFU_SET_FIELD_WITH_VLAN_PCP_ACTION_LEN = sizeof_ofp_action_set_field + 1"
definition OFU_SET_FIELD_WITH_IP_DSCP_FIELD_ACTION_LEN :: nat where [layout_simps]:
  "OFU_SET_FIELD_WITH_IP_DSCP_FIELD_ACTION_LEN = sizeof_ofp_action_set_field + 1"
definition OFU_SET_FIELD_WITH_IP_ECN_FIELD_ACTION_LEN :: nat where [layout_simps]:
  "OFU_SET_FIELD_WITH_IP_ECN_FIELD_ACTION_LEN = sizeof_ofp_action_set_field + 1"
definition OFU_SET_FIELD_WITH_IP_PROTO_FIELD_ACTION_LEN :: nat where [layout_simps]:
  "OFU_SET_FIELD_WITH_IP_PROTO_FIELD_ACTION_LEN = sizeof_ofp_action_set_field + 1"
definition OFU_SET_FIELD_WITH_IPV4_SRC_FIELD_ACTION_LEN :: nat where [layout_simps]:
  "OFU_SET_FIELD_WITH_IPV4_SRC_FIELD_ACTION_LEN = sizeof_ofp_action_set_field + 4"
definition OFU_SET_FIELD_WITH_IPV4_DST_FIELD_ACTION_LEN :: nat where [layout_simps]:
  "OFU_SET_FIELD_WITH_IPV4_DST_FIELD_ACTION_LEN = sizeof_ofp_action_set_field + 4"
definition OFU_SET_FIELD_WITH_TCP_SRC_PORT_FIELD_ACTION_LEN :: nat where [layout_simps]:
  "OFU_SET_FIELD_WITH_TCP_SRC_PORT_FIELD_ACTION_LEN = sizeof_ofp_action_set_field + 2"
definition OFU_SET_FIELD_WITH_TCP_DST_PORT_FIELD_ACTION_LEN :: nat where [layout_simps]:
  "OFU_SET_FIELD_WITH_TCP_DST_PORT_FIELD_ACTION_LEN = sizeof_ofp_action_set_field + 2"
definition OFU_SET_FIELD_WITH_UDP_SRC_PORT_FIELD_ACTION_LEN :: nat where [layout_simps]:
  "OFU_SET_FIELD_WITH_UDP_SRC_PORT_FIELD_ACTION_LEN = sizeof_ofp_action_set_field + 2"
definition OFU_SET_FIELD_WITH_UDP_DST_PORT_FIELD_ACTION_LEN :: nat where [layout_simps]:
  "OFU_SET_FIELD_WITH_UDP_DST_PORT_FIELD_ACTION_LEN = sizeof_ofp_action_set_field + 2"
definition OFU_SET_FIELD_WITH_SCTP_SRC_FIELD_ACTION_LEN :: nat where [layout_simps]:
  "OFU_SET_FIELD_WITH_SCTP_SRC_FIELD_ACTION_LEN = sizeof_ofp_action_set_field + 2"
definition OFU_SET_FIELD_WITH_SCTP_DST_FIELD_ACTION_LEN :: nat where [layout_simps]:
  "OFU_SET_FIELD_WITH_SCTP_DST_FIELD_ACTION_LEN = sizeof_ofp_action_set_field + 2"
definition OFU_SET_FIELD_WITH_ICPMPV4_TYPE_FIELD_ACTION_LEN :: nat where [layout_simps]:
  "OFU_SET_FIELD_WITH_ICPMPV4_TYPE_FIELD_ACTION_LEN = sizeof_ofp_action_set_field + 1"
definition OFU_SET_FIELD_WITH_ICPMPV4_CODE_FIELD_ACTION_LEN :: nat where [layout_simps]:
  "OFU_SET_FIELD_WITH_ICPMPV4_CODE_FIELD_ACTION_LEN = sizeof_ofp_action_set_field + 1"
definition OFU_SET_FIELD_WITH_ARP_OP_FIELD_ACTION_LEN :: nat where [layout_simps]:
  "OFU_SET_FIELD_WITH_ARP_OP_FIELD_ACTION_LEN = sizeof_ofp_action_set_field + 2"
definition OFU_SET_FIELD_WITH_ARP_SPA_FIELD_ACTION_LEN :: nat where [layout_simps]:
  "OFU_SET_FIELD_WITH_ARP_SPA_FIELD_ACTION_LEN = sizeof_ofp_action_set_field + 4"
definition OFU_SET_FIELD_WITH_ARP_TPA_FIELD_ACTION_LEN :: nat where [layout_simps]:
  "OFU_SET_FIELD_WITH_ARP_TPA_FIELD_ACTION_LEN = sizeof_ofp_action_set_field + 4"
definition OFU_SET_FIELD_WITH_ARP_SHA_FIELD_ACTION_LEN :: nat where [layout_simps]:
  "OFU_SET_FIELD_WITH_ARP_SHA_FIELD_ACTION_LEN = sizeof_ofp_action_set_field + 6"
definition OFU_SET_FIELD_WITH_ARP_DHA_FIELD_ACTION_LEN :: nat where [layout_simps]:
  "OFU_SET_FIELD_WITH_ARP_DHA_FIELD_ACTION_LEN = sizeof_ofp_action_set_field + 6"
definition OFU_SET_FIELD_WITH_IPV6_SRC_FIELD_ACTION_LEN :: nat where [layout_simps]:
  "OFU_SET_FIELD_WITH_IPV6_SRC_FIELD_ACTION_LEN = sizeof_ofp_action_set_field + 16"
definition OFU_SET_FIELD_WITH_IPV6_DST_FIELD_ACTION_LEN :: nat where [layout_simps]:
  "OFU_SET_FIELD_WITH_IPV6_DST_FIELD_ACTION_LEN = sizeof_ofp_action_set_field + 16"
definition OFU_SET_FIELD_WITH_IPV6_FLABEL_FIELD_ACTION_LEN :: nat where [layout_simps]:
  "OFU_SET_FIELD_WITH_IPV6_FLABEL_FIELD_ACTION_LEN = sizeof_ofp_action_set_field + 4"
definition OFU_SET_FIELD_WITH_ICMPV6_TYPE_FIELD_ACTION_LEN :: nat where [layout_simps]:
  "OFU_SET_FIELD_WITH_ICMPV6_TYPE_FIELD_ACTION_LEN = sizeof_ofp_action_set_field + 1"
definition OFU_SET_FIELD_WITH_ICMPV6_CODE_FIELD_ACTION_LEN :: nat where [layout_simps]:
  "OFU_SET_FIELD_WITH_ICMPV6_CODE_FIELD_ACTION_LEN = sizeof_ofp_action_set_field + 1"
definition OFU_SET_FIELD_WITH_IPV6_ND_TARGET_FIELD_ACTION_LEN :: nat where [layout_simps]:
  "OFU_SET_FIELD_WITH_IPV6_ND_TARGET_FIELD_ACTION_LEN = sizeof_ofp_action_set_field + 16"
definition OFU_SET_FIELD_WITH_IPV6_ND_SLL_FIELD_ACTION_LEN :: nat where [layout_simps]:
  "OFU_SET_FIELD_WITH_IPV6_ND_SLL_FIELD_ACTION_LEN = sizeof_ofp_action_set_field + 6"
definition OFU_SET_FIELD_WITH_IPV6_ND_DLL_FIELD_ACTION_LEN :: nat where [layout_simps]:
  "OFU_SET_FIELD_WITH_IPV6_ND_DLL_FIELD_ACTION_LEN = sizeof_ofp_action_set_field + 6"
definition OFU_SET_FIELD_WITH_MPLS_LABEL_FIELD_ACTION_LEN :: nat where [layout_simps]:
  "OFU_SET_FIELD_WITH_MPLS_LABEL_FIELD_ACTION_LEN = sizeof_ofp_action_set_field + 4"
definition OFU_SET_FIELD_WITH_MPLS_TC_FIELD_ACTION_LEN :: nat where [layout_simps]:
  "OFU_SET_FIELD_WITH_MPLS_TC_FIELD_ACTION_LEN = sizeof_ofp_action_set_field + 1"
definition OFU_SET_FIELD_WITH_MPLS_BOS_FIELD_ACTION_LEN :: nat where [layout_simps]:
  "OFU_SET_FIELD_WITH_MPLS_BOS_FIELD_ACTION_LEN = sizeof_ofp_action_set_field + 1"
definition OFU_SET_FIELD_WITH_PBB_ISID_FIELD_ACTION_LEN :: nat where [layout_simps]:
  "OFU_SET_FIELD_WITH_PBB_ISID_FIELD_ACTION_LEN = sizeof_ofp_action_set_field + 3"
definition OFU_SET_FIELD_WITH_IPV6_EXTHDR_FIELD_ACTION_LEN :: nat where [layout_simps]:
  "OFU_SET_FIELD_WITH_IPV6_EXTHDR_FIELD_ACTION_LEN = sizeof_ofp_action_set_field + 2"

section \<open>Messages and connections\<close>

definition OFPT_GROUP_MOD :: u8 where "OFPT_GROUP_MOD = 15"
definition OFPT_METER_MOD :: u8 where "OFPT_METER_MOD = 29"

definition OF_TRNSPRT_MAIN_CONN_ID :: u32 where "OF_TRNSPRT_MAIN_CONN_ID = 0"

section \<open>Alignment\<close>

text \<open>\<open>ROUND_UP\<close> of \<open>controller.h\<close> is the number of padding bytes, not the padded length.\<close>

definition ROUND_UP :: "nat \<Rightarrow> nat" where
  "ROUND_UP len = (len + 7) div 8 * 8 - len"

definition OF_SET_FIELD_ACTION_PADDING_LEN :: "nat \<Rightarrow> nat" where
  "OF_SET_FIELD_ACTION_PADDING_LEN oxm_len = (oxm_len + 7) div 8 * 8 - oxm_len"

lemma round_up_lt: "ROUND_UP n < 8"
  unfolding ROUND_UP_def by linarith

lemma round_up_dvd: "8 dvd n + ROUND_UP n"
proof -
  have "n \<le> (n + 7) div 8 * 8" by linarith
  then show ?thesis by (simp add: ROUND_UP_def)
qed

lemma round_up_0: "8 dvd n \<Longrightarrow> ROUND_UP n = 0"
  by (auto simp: ROUND_UP_def)

lemma aligned_bound: "8 dvd (b::nat) \<Longrightarrow> n \<le> b \<Longrightarrow> n + ROUND_UP n \<le> b"
  unfolding ROUND_UP_def by (auto elim!: dvdE)

lemma set_field_padding: "OF_SET_FIELD_ACTION_PADDING_LEN n = ROUND_UP n"
  by (simp add: OF_SET_FIELD_ACTION_PADDING_LEN_def ROUND_UP_def)

end
