(* ===== verification/Appender.thy ===== *)
theory Appender
  imports Prelude
begin

text \<open>
  The contract every family of message utilities keeps: a call appends the encoding of its argument
  at a write cursor, or is rejected and changes nothing.  The locale states the contract once; what
  a whole sequence of calls leaves in memory is proved inside it, and each family (match fields,
  actions, instructions, bucket properties, meter bands) interprets it on its own definitions.
\<close>

section \<open>Running a sequence of calls\<close>

text \<open>A run yields the calls that were accepted, in order, and the final state.\<close>

fun run_calls :: "('c \<Rightarrow> 's \<Rightarrow> bool \<times> 's) \<Rightarrow> 'c list \<Rightarrow> 's \<Rightarrow> 'c list \<times> 's" where
  "run_calls step [] s = ([], s)"
| "run_calls step (c # cs) s =
     (let (b, s1) = step c s;
          (acc, s2) = run_calls step cs s1
      in (if b then c # acc else acc, s2))"

text \<open>The callers that stop at the first rejected call.\<close>

fun push_all :: "('c \<Rightarrow> 's \<Rightarrow> bool \<times> 's) \<Rightarrow> 'c list \<Rightarrow> 's \<Rightarrow> bool \<times> 's" where
  "push_all step [] s = (True, s)"
| "push_all step (c # cs) s =
     (let (b, s1) = step c s in if b then push_all step cs s1 else (False, s1))"

lemma push_all_run:
  assumes "run_calls step cs s = (cs, s')"
  shows "push_all step cs s = (True, s')"
  using assms
proof (induction cs arbitrary: s)
  case (Cons c cs)
  obtain b s1 where st: "step c s = (b, s1)" by fastforce
  obtain acc where run: "run_calls step cs s1 = (acc, s')" and "(if b then c # acc else acc) = c # cs"
    using Cons.prems st by (auto split: prod.splits)
  moreover have "length acc \<le> length cs"
    using run by (induction cs arbitrary: s1 acc) (fastforce split: prod.splits if_splits)+
  ultimately have "b" and "acc = cs" by (auto split: if_splits)
  then show ?case using Cons.IH run st by simp
qed simp

text \<open>The precondition of every call holds in the state in which it is made.\<close>

fun all_ok :: "('c \<Rightarrow> 's \<Rightarrow> bool \<times> 's) \<Rightarrow> ('c \<Rightarrow> 's \<Rightarrow> bool) \<Rightarrow> 'c list \<Rightarrow> 's \<Rightarrow> bool" where
  "all_ok step ok [] s = True"
| "all_ok step ok (c # cs) s = (ok c s \<and> all_ok step ok cs (snd (step c s)))"

definition encoding :: "('c \<Rightarrow> u8 list) \<Rightarrow> 'c list \<Rightarrow> u8 list" where
  "encoding enc cs = concat (map enc cs)"

lemma encoding_simps [simp]:
  "encoding enc [] = []"
  "encoding enc (c # cs) = enc c @ encoding enc cs"
  by (simp_all add: encoding_def)

lemma encoding_append [simp]: "encoding enc (cs @ ds) = encoding enc cs @ encoding enc ds"
  by (simp add: encoding_def)

lemma all_ok_const: "(\<forall>c \<in> set cs. P c) \<Longrightarrow> all_ok step (\<lambda>c s. P c) cs s"
  by (induction cs arbitrary: s) auto

lemma run_subset: "run_calls step cs s = (acc, s') \<Longrightarrow> set acc \<subseteq> set cs"
  by (induction cs arbitrary: s acc s') (fastforce split: prod.splits if_splits)+

text \<open>What a successful call, or a run, leaves behind, as one predicate.\<close>

definition appended :: "nat \<Rightarrow> nat \<Rightarrow> u8 list \<Rightarrow> memory \<Rightarrow> memory \<Rightarrow> bool" where
  "appended cur lim bs m m' \<longleftrightarrow>
     read_bytes cur (length bs) m' = bs \<and> (\<forall>x. x < cur \<or> lim \<le> x \<longrightarrow> m' x = m x)"

lemma appended_Nil [simp]: "appended cur lim [] m m"
  by (simp add: appended_def)

lemma appended_write:
  "cur + length bs \<le> lim \<Longrightarrow> appended cur lim bs m (write_bytes cur bs m)"
  by (auto simp: appended_def read_write_same write_bytes_outside)

lemma appended_read: "appended cur lim bs m m' \<Longrightarrow> read_bytes cur (length bs) m' = bs"
  by (simp add: appended_def)

lemma appended_frame: "appended cur lim bs m m' \<Longrightarrow> x < cur \<or> lim \<le> x \<Longrightarrow> m' x = m x"
  by (auto simp: appended_def)

lemma appended_trans:
  assumes "appended cur lim xs m m1" and "appended (cur + length xs) lim ys m1 m2"
  shows "appended cur lim (xs @ ys) m m2"
proof -
  have "read_bytes cur (length xs) m2 = read_bytes cur (length xs) m1"
    using assms(2) by (intro read_bytes_cong) (simp add: appended_def)
  with assms show ?thesis by (auto simp: appended_def read_bytes_split)
qed

section \<open>The contract\<close>

locale appender =
  fixes step :: "'c \<Rightarrow> 's \<Rightarrow> bool \<times> 's"
    and cursor :: "'s \<Rightarrow> nat"
    and limit :: "'s \<Rightarrow> nat"
    and cells :: "'s \<Rightarrow> memory"
    and enc :: "'c \<Rightarrow> u8 list"
    and inv :: "'s \<Rightarrow> bool"
    and ok :: "'c \<Rightarrow> 's \<Rightarrow> bool"
  assumes rejected: "inv s \<Longrightarrow> ok c s \<Longrightarrow> step c s = (False, s') \<Longrightarrow> s' = s"
    and accepted_inv: "inv s \<Longrightarrow> ok c s \<Longrightarrow> step c s = (True, s') \<Longrightarrow> inv s'"
    and accepted_cursor:
      "inv s \<Longrightarrow> ok c s \<Longrightarrow> step c s = (True, s') \<Longrightarrow> cursor s' = cursor s + length (enc c)"
    and accepted_limit: "inv s \<Longrightarrow> ok c s \<Longrightarrow> step c s = (True, s') \<Longrightarrow> limit s' = limit s"
    and accepted_cells:
      "inv s \<Longrightarrow> ok c s \<Longrightarrow> step c s = (True, s')
        \<Longrightarrow> appended (cursor s) (limit s) (enc c) (cells s) (cells s')"
    and cursor_le: "inv s \<Longrightarrow> cursor s \<le> limit s"
begin

text \<open>The region a run writes is exactly the encodings of the accepted calls, one after the other.\<close>

lemma run_layout:
  assumes "inv s" and "all_ok step ok cs s" and "run_calls step cs s = (acc, s')"
  shows "inv s' \<and> cursor s' = cursor s + length (encoding enc acc) \<and> limit s' = limit s
         \<and> appended (cursor s) (limit s) (encoding enc acc) (cells s) (cells s')"
  using assms
proof (induction cs arbitrary: s acc)
  case Nil
  then show ?case by simp
next
  case (Cons c cs)
  obtain b s1 where st: "step c s = (b, s1)" by fastforce
  obtain acc1 where run: "run_calls step cs s1 = (acc1, s')"
      and acc: "acc = (if b then c # acc1 else acc1)"
    using Cons.prems(3) st by (auto split: prod.splits)
  have ok: "ok c s" and ok1: "all_ok step ok cs s1" using Cons.prems(2) st by auto
  show ?case
  proof (cases b)
    case True
    with st have st': "step c s = (True, s1)" by simp
    note laws = accepted_inv [OF Cons.prems(1) ok st'] accepted_cursor [OF Cons.prems(1) ok st']
      accepted_limit [OF Cons.prems(1) ok st'] accepted_cells [OF Cons.prems(1) ok st']
    show ?thesis
      using Cons.IH [OF laws(1) ok1 run] laws acc True by (auto intro: appended_trans)
  next
    case False
    then have "s1 = s" using rejected [OF Cons.prems(1) ok] st by simp
    then show ?thesis using Cons.IH [OF Cons.prems(1)] ok1 run acc False by simp
  qed
qed

lemma run_layout_le:
  assumes "inv s" and "all_ok step ok cs s" and "run_calls step cs s = (acc, s')"
  shows "cursor s + length (encoding enc acc) \<le> limit s"
  using run_layout [OF assms] cursor_le [of s'] by simp

end

text \<open>
  Calls that are certain to be accepted while enough of the buffer is left.  Some routines need
  \<open>slack\<close> bytes beyond the encoding.
\<close>

locale bounded_appender = appender +
  fixes wf :: "'a \<Rightarrow> bool" and slack :: nat
  assumes accepts:
    "inv s \<Longrightarrow> wf c \<Longrightarrow> cursor s + length (enc c) + slack \<le> limit s \<Longrightarrow> ok c s \<and> fst (step c s)"
begin

lemma run_all_ok:
  assumes "inv s" and "\<forall>c \<in> set cs. wf c"
    and "cursor s + length (encoding enc cs) + slack \<le> limit s"
  shows "all_ok step ok cs s \<and> fst (run_calls step cs s) = cs"
  using assms
proof (induction cs arbitrary: s)
  case Nil
  then show ?case by simp
next
  case (Cons c cs)
  then have ok: "ok c s" "fst (step c s)" using accepts [of s c] by auto
  then obtain s1 where st: "step c s = (True, s1)" by (cases "step c s") auto
  then have "inv s1" "cursor s1 = cursor s + length (enc c)" "limit s1 = limit s"
    using accepted_inv accepted_cursor accepted_limit ok Cons.prems(1) by blast+
  then show ?case using Cons.IH [of s1] Cons.prems ok st by (auto split: prod.splits)
qed

theorem run_all:
  assumes "inv s" and "\<forall>c \<in> set cs. wf c"
    and "cursor s + length (encoding enc cs) + slack \<le> limit s"
  obtains s' where "run_calls step cs s = (cs, s')" and "inv s'" and "limit s' = limit s"
    and "cursor s' = cursor s + length (encoding enc cs)"
    and "appended (cursor s) (limit s) (encoding enc cs) (cells s) (cells s')"
proof -
  obtain s' where "run_calls step cs s = (cs, s')" and "all_ok step ok cs s"
    using run_all_ok [OF assms] by (cases "run_calls step cs s") auto
  then show thesis using run_layout [OF assms(1)] that by blast
qed

end

end
