(* ===== verification/MsgBuffer.thy ===== *)
theory MsgBuffer
  imports OpenFlow Appender
begin

text \<open>
  The message descriptor of \<open>of_utilities.h\<close> with the memory it points into, the stores the C code
  makes through it, and the result codes of the message utilities.  Pointers are addresses, lengths
  are the 16 bit counters of the C structure, and their updates wrap as \<open>uint16_t\<close> does.  The
  bytes between \<open>start_of_data\<close> and \<open>buf_end\<close> are the message's buffer; everything outside is
  memory of somebody else.
\<close>

section \<open>The descriptor\<close>

record of_msg =
  msg_type :: u8
  buffer_len :: u16
  start_of_buffer :: nat
  start_of_data :: nat
  data_len :: u16
  utils_ptr :: nat
  utils_length :: u16
  ptr1 :: nat
  length1 :: u16
  ptr2 :: nat
  length2 :: u16
  ptr3 :: nat
  length3 :: u16
  mem :: memory

definition buf_end :: "of_msg \<Rightarrow> nat" where
  "buf_end msg = start_of_data msg + unat (buffer_len msg)"

definition pos1 :: "of_msg \<Rightarrow> nat" where "pos1 msg = ptr1 msg + unat (length1 msg)"
definition pos2 :: "of_msg \<Rightarrow> nat" where "pos2 msg = ptr2 msg + unat (length2 msg)"
definition pos3 :: "of_msg \<Rightarrow> nat" where "pos3 msg = ptr3 msg + unat (length3 msg)"

text \<open>The stores: \<open>st32 a v\<close> is \<open>*(uint32_t * )a = htonl(v)\<close>, and so on.\<close>

definition poke :: "nat \<Rightarrow> u8 list \<Rightarrow> of_msg \<Rightarrow> of_msg" where
  "poke a bs msg = msg\<lparr>mem := write_bytes a bs (mem msg)\<rparr>"

definition st8 :: "nat \<Rightarrow> u8 \<Rightarrow> of_msg \<Rightarrow> of_msg" where [msg_defs]: "st8 a v = poke a [v]"
definition st16 :: "nat \<Rightarrow> u16 \<Rightarrow> of_msg \<Rightarrow> of_msg" where [msg_defs]: "st16 a v = poke a (be16 v)"
definition st32 :: "nat \<Rightarrow> u32 \<Rightarrow> of_msg \<Rightarrow> of_msg" where [msg_defs]: "st32 a v = poke a (be32 v)"
definition st64 :: "nat \<Rightarrow> u64 \<Rightarrow> of_msg \<Rightarrow> of_msg" where [msg_defs]: "st64 a v = poke a (be64 v)"

text \<open>\<open>memcpy(a, src, n)\<close> from a source outside the buffer, given by its bytes.\<close>

definition memcpy :: "nat \<Rightarrow> u8 list \<Rightarrow> nat \<Rightarrow> of_msg \<Rightarrow> of_msg" where [msg_defs]:
  "memcpy a src n = poke a (take n src)"

definition memset_0 :: "nat \<Rightarrow> nat \<Rightarrow> of_msg \<Rightarrow> of_msg" where [msg_defs]:
  "memset_0 a n = poke a (replicate n 0)"

text \<open>A store without \<open>htons\<close>: the host (x86, ARM) is little-endian.\<close>

definition st16_host :: "nat \<Rightarrow> u16 \<Rightarrow> of_msg \<Rightarrow> of_msg" where [msg_defs]:
  "st16_host a v = poke a (rev (be16 v))"

definition ld16_host :: "nat \<Rightarrow> of_msg \<Rightarrow> u16" where
  "ld16_host a msg = of_be (rev (read_bytes a 2 (mem msg)))"

definition ld32 :: "nat \<Rightarrow> of_msg \<Rightarrow> u32" where "ld32 a msg = of_be (read_bytes a 4 (mem msg))"
definition ld64 :: "nat \<Rightarrow> of_msg \<Rightarrow> u64" where "ld64 a msg = of_be (read_bytes a 8 (mem msg))"

section \<open>Result codes\<close>

datatype msg_utilities =
    OFU_NO_ROOM_IN_BUFFER
  | OFU_SET_FIELD_SUCCESS
  | OFU_INSTRUCTION_PUSH_SUCCESS
  | OFU_ACTION_PUSH_SUCCESS
  | OFU_UNSUPPORTED_MATCH_FIELDS_TYPE_PASSED
  | OFU_IN_PORT_FIELD_PRESENT
  | OFU_IN_META_DATA_PRESENT
  | OFU_IN_PORT_FIELD_NOT_PRESENT
  | OFU_IN_META_DATA_NOT_PRESENT
  | OFU_APPEND_BUCKET_SUCCESS
  | OFU_APPEND_BAND_SUCCESS

text \<open>A call as the appender contract sees it: was it accepted, and the state it leaves.\<close>

definition accepted :: "msg_utilities \<times> of_msg \<Rightarrow> bool \<times> of_msg" where
  "accepted r = (fst r \<noteq> OFU_NO_ROOM_IN_BUFFER, snd r)"

text \<open>The check \<open>ptr + length + n > start_of_data + buffer_len\<close> that guards the routines.\<close>

definition no_room :: "nat \<Rightarrow> of_msg \<Rightarrow> bool" where
  "no_room a msg = (a > buf_end msg)"

definition advance1 :: "nat \<Rightarrow> of_msg \<Rightarrow> of_msg" where
  "advance1 n msg = msg\<lparr>length1 := length1 msg + of_nat n\<rparr>"

definition advance2 :: "nat \<Rightarrow> of_msg \<Rightarrow> of_msg" where
  "advance2 n msg = msg\<lparr>length2 := length2 msg + of_nat n\<rparr>"

definition advance3 :: "nat \<Rightarrow> of_msg \<Rightarrow> of_msg" where
  "advance3 n msg = msg\<lparr>length3 := length3 msg + of_nat n\<rparr>"

section \<open>Lemmas on stores\<close>

lemma poke_fields [simp]:
  "msg_type (poke a bs msg) = msg_type msg" "buffer_len (poke a bs msg) = buffer_len msg"
  "start_of_buffer (poke a bs msg) = start_of_buffer msg"
  "start_of_data (poke a bs msg) = start_of_data msg" "data_len (poke a bs msg) = data_len msg"
  "utils_ptr (poke a bs msg) = utils_ptr msg" "utils_length (poke a bs msg) = utils_length msg"
  "ptr1 (poke a bs msg) = ptr1 msg" "length1 (poke a bs msg) = length1 msg"
  "ptr2 (poke a bs msg) = ptr2 msg" "length2 (poke a bs msg) = length2 msg"
  "ptr3 (poke a bs msg) = ptr3 msg" "length3 (poke a bs msg) = length3 msg"
  "mem (poke a bs msg) = write_bytes a bs (mem msg)"
  by (simp_all add: poke_def)

lemma poke_append: "b = a + length xs \<Longrightarrow> poke b ys (poke a xs msg) = poke a (xs @ ys) msg"
  by (simp add: poke_def write_bytes_append)

lemma poke_Nil [simp]: "poke a [] msg = msg"
  by (simp add: poke_def)

lemma poke_pos [simp]:
  "pos1 (poke a bs msg) = pos1 msg" "pos2 (poke a bs msg) = pos2 msg"
  "pos3 (poke a bs msg) = pos3 msg" "buf_end (poke a bs msg) = buf_end msg"
  by (simp_all add: pos1_def pos2_def pos3_def buf_end_def)

lemma st_mem:
  "mem (st8 a v8 msg) = write_bytes a [v8] (mem msg)"
  "mem (st16 a v16 msg) = write_bytes a (be16 v16) (mem msg)"
  "mem (st32 a v32 msg) = write_bytes a (be32 v32) (mem msg)"
  "mem (st64 a v64 msg) = write_bytes a (be64 v64) (mem msg)"
  by (simp_all add: msg_defs)

text \<open>A 16 bit counter does not wrap while it counts bytes of one buffer.\<close>

lemma unat_plus_of_nat:
  "unat (w :: u16) + n < 65536 \<Longrightarrow> unat (w + of_nat n) = unat w + n"
  by (simp add: unat_word_ariths(1) take_bit_nat_eq_self unat_of_nat)

lemma ld16_host_st16_host: "ld16_host a (st16_host a v msg) = v"
  by (simp add: ld16_host_def st16_host_def memory_simps)

end
