(* ===== verification/Oxm.thy ===== *)
theory Oxm
  imports OpenFlow Appender
begin

text \<open>
  OXM TLVs as abstract data, their wire encoding, and a strict parser of a TLV sequence that is the
  receiver's side of it.  The parser inverts the encoding, so that a claim about what a message
  builder leaves in memory can be stated as what a receiver reads there.
\<close>

text \<open>An OXM TLV of the basic class: field number, value, optional mask.\<close>

datatype oxm = Oxm (oxm_field: nat) (oxm_value: "u8 list") (oxm_mask: "u8 list option")

fun oxm_bytes :: "oxm \<Rightarrow> u8 list" where
  "oxm_bytes (Oxm f v None) = oxm_header_bytes f False (length v) @ v"
| "oxm_bytes (Oxm f v (Some k)) = oxm_header_bytes f True (length v + length k) @ v @ k"

section \<open>Reading TLVs back\<close>

text \<open>The receiver's side: a strict parser of a TLV sequence of the basic class.\<close>

function oxm_parse :: "u8 list \<Rightarrow> oxm list option" where
  "oxm_parse bs =
     (case bs of
        [] \<Rightarrow> Some []
      | c1 # c2 # fm # len # rest \<Rightarrow>
          if c1 = 0x80 \<and> c2 = 0 \<and> unat len \<le> length rest then
            let body = take (unat len) rest;
                n = unat len div 2;
                tlv = (if odd (unat fm)
                       then Oxm (unat fm div 2) (take n body) (Some (drop n body))
                       else Oxm (unat fm div 2) body None)
            in map_option (\<lambda>tlvs. tlv # tlvs) (oxm_parse (drop (unat len) rest))
          else None
      | _ \<Rightarrow> None)"
  by pat_completeness auto
termination by (relation "measure length") auto

declare oxm_parse.simps [simp del]

fun wf_oxm :: "oxm \<Rightarrow> bool" where
  "wf_oxm (Oxm f v None) \<longleftrightarrow> f < 128 \<and> length v < 256"
| "wf_oxm (Oxm f v (Some k)) \<longleftrightarrow> f < 128 \<and> length k = length v \<and> length v < 128"

lemma oxm_parse_Nil [simp]: "oxm_parse [] = Some []"
  by (subst oxm_parse.simps) simp

lemma oxm_parse_header:
  assumes "f < 128" and "length bd < 256"
  shows "oxm_parse (oxm_header_bytes f b (length bd) @ bd @ rest) =
           map_option (\<lambda>tlvs.
               (if b then Oxm f (take (length bd div 2) bd) (Some (drop (length bd div 2) bd))
                else Oxm f bd None) # tlvs) (oxm_parse rest)"
proof -
  define n where "n = 2 * f + (if b then 1 else 0)"
  have n: "n < 256" "odd n = b" "n div 2 = f" using assms(1) by (simp_all add: n_def)
  have "oxm_header_bytes f b (length bd) = [0x80, 0, of_nat n, of_nat (length bd)]"
    by (simp add: oxm_header_bytes_def n_def)
  then show ?thesis
    using n assms(2) by (subst oxm_parse.simps) (simp add: Let_def)
qed

lemma oxm_parse_bytes:
  "wf_oxm tlv \<Longrightarrow> oxm_parse (oxm_bytes tlv @ rest) = map_option (\<lambda>tlvs. tlv # tlvs) (oxm_parse rest)"
  using oxm_parse_header [of "oxm_field tlv" "oxm_value tlv" False rest]
    oxm_parse_header [of "oxm_field tlv" "oxm_value tlv @ the (oxm_mask tlv)" True rest]
  by (cases tlv rule: wf_oxm.cases) simp_all

lemma oxm_parse_encoding:
  "\<forall>t \<in> set ts. wf_oxm t \<Longrightarrow> oxm_parse (encoding oxm_bytes ts) = Some ts"
  by (induction ts) (simp_all add: oxm_parse_bytes)

lemma oxm_bytes_length: "wf_oxm t \<Longrightarrow> 4 \<le> length (oxm_bytes t) \<and> length (oxm_bytes t) < 260"
  by (cases t rule: wf_oxm.cases) simp_all

end
