(* ===== verification/SetField.thy ===== *)
theory SetField
  imports MsgBuffer Oxm
begin

text \<open>
  The thirty-nine set-field actions of \<open>of_msg_utils.c\<close>, one definition each: an action header and
  an unmasked OXM TLV at \<open>ptr3 + length3\<close>.  The room is checked at \<open>ptr1 + length1\<close>, and the
  \<open>memset\<close> for the padding starts at \<open>field + action length\<close>, four bytes after the end of the TLV,
  because \<open>field\<close> itself is four bytes into the action.
\<close>

section \<open>The actions\<close>

definition ofu_push_set_port_in_set_field_action :: "u32 \<Rightarrow> of_msg \<Rightarrow> msg_utilities \<times> of_msg" where
  "ofu_push_set_port_in_set_field_action in_port_number msg =
     (let padding_bytes = OF_SET_FIELD_ACTION_PADDING_LEN 4 in
      if no_room (pos1 msg + OFU_SET_FIELD_WITH_IN_PORT_LABEL_FIELD_ACTION_LEN) msg then (OFU_NO_ROOM_IN_BUFFER, msg)
      else let
        set_field = pos3 msg;
        field = set_field + 4;
        msg = st16 set_field OFPAT_SET_FIELD msg;
        msg = st16 (set_field + 2) (of_nat (OFU_SET_FIELD_WITH_IN_PORT_LABEL_FIELD_ACTION_LEN + padding_bytes)) msg;
        msg = st32 field OXM_OF_IN_PORT msg;
        msg = st32 (field + OF_OXM_HDR_LEN) in_port_number msg;
        msg = memset_0 (field + OFU_SET_FIELD_WITH_IN_PORT_LABEL_FIELD_ACTION_LEN) padding_bytes msg;
        msg = advance3 (OFU_SET_FIELD_WITH_IN_PORT_LABEL_FIELD_ACTION_LEN + padding_bytes) msg
      in (OFU_ACTION_PUSH_SUCCESS, msg))"

definition ofu_push_set_in_physical_port_in_set_field_action :: "u32 \<Rightarrow> of_msg \<Rightarrow> msg_utilities \<times> of_msg" where
  "ofu_push_set_in_physical_port_in_set_field_action in_phy_port_no msg =
     (let padding_bytes = OF_SET_FIELD_ACTION_PADDING_LEN 4 in
      if no_room (pos1 msg + OFU_SET_FIELD_WITH_PHY_PORT_LABEL_FIELD_ACTION_LEN) msg then (OFU_NO_ROOM_IN_BUFFER, msg)
      else let
        set_field = pos3 msg;
        field = set_field + 4;
        msg = st16 set_field OFPAT_SET_FIELD msg;
        msg = st16 (set_field + 2) (of_nat (OFU_SET_FIELD_WITH_PHY_PORT_LABEL_FIELD_ACTION_LEN + padding_bytes)) msg;
        msg = st32 field OXM_OF_IN_PHY_PORT msg;
        msg = st32 (field + OF_OXM_HDR_LEN) in_phy_port_no msg;
        msg = memset_0 (field + OFU_SET_FIELD_WITH_PHY_PORT_LABEL_FIELD_ACTION_LEN) padding_bytes msg;
        msg = advance3 (OFU_SET_FIELD_WITH_PHY_PORT_LABEL_FIELD_ACTION_LEN + padding_bytes) msg
      in (OFU_ACTION_PUSH_SUCCESS, msg))"

definition ofu_push_set_mpls_label_in_set_field_action :: "u32 \<Rightarrow> of_msg \<Rightarrow> msg_utilities \<times> of_msg" where
  "ofu_push_set_mpls_label_in_set_field_action mpls_label msg =
     (let padding_bytes = OF_SET_FIELD_ACTION_PADDING_LEN 4 in
      if no_room (pos1 msg + OFU_SET_FIELD_WITH_MPLS_LABEL_FIELD_ACTION_LEN) msg then (OFU_NO_ROOM_IN_BUFFER, msg)
      else let
        set_field = pos3 msg;
        field = set_field + 4;
        msg = st16 set_field OFPAT_SET_FIELD msg;
        msg = st16 (set_field + 2) (of_nat (OFU_SET_FIELD_WITH_MPLS_LABEL_FIELD_ACTION_LEN + padding_bytes)) msg;
        msg = st32 field OXM_OF_MPLS_LABEL msg;
        msg = st32 (field + OF_OXM_HDR_LEN) mpls_label msg;
        msg = memset_0 (field + OFU_SET_FIELD_WITH_MPLS_LABEL_FIELD_ACTION_LEN) padding_bytes msg;
        msg = advance3 (OFU_SET_FIELD_WITH_MPLS_LABEL_FIELD_ACTION_LEN + padding_bytes) msg
      in (OFU_ACTION_PUSH_SUCCESS, msg))"

definition ofu_push_set_mpls_tc_in_set_field_action :: "u8 \<Rightarrow> of_msg \<Rightarrow> msg_utilities \<times> of_msg" where
  "ofu_push_set_mpls_tc_in_set_field_action mpls_tc msg =
     (let padding_bytes = OF_SET_FIELD_ACTION_PADDING_LEN 1 in
      if no_room (pos1 msg + OFU_SET_FIELD_WITH_MPLS_TC_FIELD_ACTION_LEN) msg then (OFU_NO_ROOM_IN_BUFFER, msg)
      else let
        set_field = pos3 msg;
        field = set_field + 4;
        msg = st16 set_field OFPAT_SET_FIELD msg;
        msg = st16 (set_field + 2) (of_nat (OFU_SET_FIELD_WITH_MPLS_TC_FIELD_ACTION_LEN + padding_bytes)) msg;
        msg = st32 field OXM_OF_MPLS_TC msg;
        msg = st8 (field + OF_OXM_HDR_LEN) mpls_tc msg;
        msg = memset_0 (field + OFU_SET_FIELD_WITH_MPLS_TC_FIELD_ACTION_LEN) padding_bytes msg;
        msg = advance3 (OFU_SET_FIELD_WITH_MPLS_TC_FIELD_ACTION_LEN + padding_bytes) msg
      in (OFU_ACTION_PUSH_SUCCESS, msg))"

definition ofu_push_set_mpls_bos_bits_in_set_field_action :: "u8 \<Rightarrow> of_msg \<Rightarrow> msg_utilities \<times> of_msg" where
  "ofu_push_set_mpls_bos_bits_in_set_field_action mpls_bos_bits msg =
     (let padding_bytes = OF_SET_FIELD_ACTION_PADDING_LEN 1 in
      if no_room (pos1 msg + OFU_SET_FIELD_WITH_MPLS_BOS_FIELD_ACTION_LEN) msg then (OFU_NO_ROOM_IN_BUFFER, msg)
      else let
        set_field = pos3 msg;
        field = set_field + 4;
        msg = st16 set_field OFPAT_SET_FIELD msg;
        msg = st16 (set_field + 2) (of_nat (OFU_SET_FIELD_WITH_MPLS_BOS_FIELD_ACTION_LEN + padding_bytes)) msg;
        msg = st32 field OXM_OF_MPLS_BOS msg;
        msg = st8 (field + OF_OXM_HDR_LEN) mpls_bos_bits msg;
        msg = memset_0 (field + OFU_SET_FIELD_WITH_MPLS_BOS_FIELD_ACTION_LEN) padding_bytes msg;
        msg = advance3 (OFU_SET_FIELD_WITH_MPLS_BOS_FIELD_ACTION_LEN + padding_bytes) msg
      in (OFU_ACTION_PUSH_SUCCESS, msg))"

definition ofu_push_set_pbb_isid_in_set_field_action :: "u8 \<Rightarrow> of_msg \<Rightarrow> msg_utilities \<times> of_msg" where
  "ofu_push_set_pbb_isid_in_set_field_action pbb_isid msg =
     (let padding_bytes = OF_SET_FIELD_ACTION_PADDING_LEN 1 in
      if no_room (pos1 msg + OFU_SET_FIELD_WITH_PBB_ISID_FIELD_ACTION_LEN) msg then (OFU_NO_ROOM_IN_BUFFER, msg)
      else let
        set_field = pos3 msg;
        field = set_field + 4;
        msg = st16 set_field OFPAT_SET_FIELD msg;
        msg = st16 (set_field + 2) (of_nat (OFU_SET_FIELD_WITH_PBB_ISID_FIELD_ACTION_LEN + padding_bytes)) msg;
        msg = st32 field OXM_OF_PBB_ISID msg;
        msg = st8 (field + OF_OXM_HDR_LEN) pbb_isid msg;
        msg = memset_0 (field + OFU_SET_FIELD_WITH_PBB_ISID_FIELD_ACTION_LEN) padding_bytes msg;
        msg = advance3 (OFU_SET_FIELD_WITH_PBB_ISID_FIELD_ACTION_LEN + padding_bytes) msg
      in (OFU_ACTION_PUSH_SUCCESS, msg))"

definition ofu_push_set_logical_port_meta_data_in_set_field_action :: "u64 \<Rightarrow> of_msg \<Rightarrow> msg_utilities \<times> of_msg" where
  "ofu_push_set_logical_port_meta_data_in_set_field_action tunnel_id msg =
     (let padding_bytes = OF_SET_FIELD_ACTION_PADDING_LEN 8 in
      if no_room (pos1 msg + OFU_SET_FIELD_WITH_TUNNEL_ID_FIELD_ACTION_LEN) msg then (OFU_NO_ROOM_IN_BUFFER, msg)
      else let
        set_field = pos3 msg;
        field = set_field + 4;
        msg = st16 set_field OFPAT_SET_FIELD msg;
        msg = st16 (set_field + 2) (of_nat (OFU_SET_FIELD_WITH_TUNNEL_ID_FIELD_ACTION_LEN + padding_bytes)) msg;
        msg = st32 field OXM_OF_TUNNEL_ID msg;
        msg = st64 (field + OF_OXM_HDR_LEN) tunnel_id msg;
        msg = memset_0 (field + OFU_SET_FIELD_WITH_TUNNEL_ID_FIELD_ACTION_LEN) padding_bytes msg;
        msg = advance3 (OFU_SET_FIELD_WITH_TUNNEL_ID_FIELD_ACTION_LEN + padding_bytes) msg
      in (OFU_ACTION_PUSH_SUCCESS, msg))"

definition ofu_push_set_destination_mac_in_set_field_action :: "u8 list \<Rightarrow> of_msg \<Rightarrow> msg_utilities \<times> of_msg" where
  "ofu_push_set_destination_mac_in_set_field_action dest_mac_addr msg =
     (let padding_bytes = OF_SET_FIELD_ACTION_PADDING_LEN 6 in
      if no_room (pos1 msg + OFU_SET_FIELD_WITH_ETH_DST_MAC_ACTION_LEN) msg then (OFU_NO_ROOM_IN_BUFFER, msg)
      else let
        set_field = pos3 msg;
        field = set_field + 4;
        msg = st16 set_field OFPAT_SET_FIELD msg;
        msg = st16 (set_field + 2) (of_nat (OFU_SET_FIELD_WITH_ETH_DST_MAC_ACTION_LEN + padding_bytes)) msg;
        msg = st32 field OXM_OF_ETH_DST msg;
        msg = memcpy (field + OF_OXM_HDR_LEN) dest_mac_addr 6 msg;
        msg = memset_0 (field + OFU_SET_FIELD_WITH_ETH_DST_MAC_ACTION_LEN) padding_bytes msg;
        msg = advance3 (OFU_SET_FIELD_WITH_ETH_DST_MAC_ACTION_LEN + padding_bytes) msg
      in (OFU_ACTION_PUSH_SUCCESS, msg))"

definition ofu_push_set_source_mac_in_set_field_action :: "u8 list \<Rightarrow> of_msg \<Rightarrow> msg_utilities \<times> of_msg" where
  "ofu_push_set_source_mac_in_set_field_action source_mac_addr msg =
     (let padding_bytes = OF_SET_FIELD_ACTION_PADDING_LEN 6 in
      if no_room (pos1 msg + OFU_SET_FIELD_WITH_ETH_SRC_MAC_ACTION_LEN) msg then (OFU_NO_ROOM_IN_BUFFER, msg)
      else let
        set_field = pos3 msg;
        field = set_field + 4;
        msg = st16 set_field OFPAT_SET_FIELD msg;
        msg = st16 (set_field + 2) (of_nat (OFU_SET_FIELD_WITH_ETH_SRC_MAC_ACTION_LEN + padding_bytes)) msg;
        msg = st32 field OXM_OF_ETH_SRC msg;
        msg = memcpy (field + OF_OXM_HDR_LEN) source_mac_addr 6 msg;
        msg = memset_0 (field + OFU_SET_FIELD_WITH_ETH_SRC_MAC_ACTION_LEN) padding_bytes msg;
        msg = advance3 (OFU_SET_FIELD_WITH_ETH_SRC_MAC_ACTION_LEN + padding_bytes) msg
      in (OFU_ACTION_PUSH_SUCCESS, msg))"

definition ofu_push_set_eth_type_in_set_field_action :: "u16 \<Rightarrow> of_msg \<Rightarrow> msg_utilities \<times> of_msg" where
  "ofu_push_set_eth_type_in_set_field_action eth_frame_type msg =
     (let padding_bytes = OF_SET_FIELD_ACTION_PADDING_LEN 2 in
      if no_room (pos1 msg + OFU_SET_FIELD_WITH_ETH_TYPE_ACTION_LEN) msg then (OFU_NO_ROOM_IN_BUFFER, msg)
      else let
        set_field = pos3 msg;
        field = set_field + 4;
        msg = st16 set_field OFPAT_SET_FIELD msg;
        msg = st16 (set_field + 2) (of_nat (OFU_SET_FIELD_WITH_ETH_TYPE_ACTION_LEN + padding_bytes)) msg;
        msg = st32 field OXM_OF_ETH_TYPE msg;
        msg = st16 (field + OF_OXM_HDR_LEN) eth_frame_type msg;
        msg = memset_0 (field + OFU_SET_FIELD_WITH_ETH_TYPE_ACTION_LEN) padding_bytes msg;
        msg = advance3 (OFU_SET_FIELD_WITH_ETH_TYPE_ACTION_LEN + padding_bytes) msg
      in (OFU_ACTION_PUSH_SUCCESS, msg))"

definition ofu_push_set_vlan_id_in_set_field_action :: "u16 \<Rightarrow> of_msg \<Rightarrow> msg_utilities \<times> of_msg" where
  "ofu_push_set_vlan_id_in_set_field_action vlan_id msg =
     (let padding_bytes = OF_SET_FIELD_ACTION_PADDING_LEN 2 in
      if no_room (pos1 msg + OFU_SET_FIELD_WITH_VLAN_VID_ACTION_LEN) msg then (OFU_NO_ROOM_IN_BUFFER, msg)
      else let
        set_field = pos3 msg;
        field = set_field + 4;
        msg = st16 set_field OFPAT_SET_FIELD msg;
        msg = st16 (set_field + 2) (of_nat (OFU_SET_FIELD_WITH_VLAN_VID_ACTION_LEN + padding_bytes)) msg;
        msg = st32 field OXM_OF_VLAN_VID msg;
        msg = st16 (field + OF_OXM_HDR_LEN) vlan_id msg;
        msg = memset_0 (field + OFU_SET_FIELD_WITH_VLAN_VID_ACTION_LEN) padding_bytes msg;
        msg = advance3 (OFU_SET_FIELD_WITH_VLAN_VID_ACTION_LEN + padding_bytes) msg
      in (OFU_ACTION_PUSH_SUCCESS, msg))"

definition ofu_push_set_vlan_priority_bits_in_set_field_action :: "u8 \<Rightarrow> of_msg \<Rightarrow> msg_utilities \<times> of_msg" where
  "ofu_push_set_vlan_priority_bits_in_set_field_action vlan_priority_bits msg =
     (let padding_bytes = OF_SET_FIELD_ACTION_PADDING_LEN 1 in
      if no_room (pos1 msg + OFU_SET_FIELD_WITH_VLAN_PCP_ACTION_LEN) msg then (OFU_NO_ROOM_IN_BUFFER, msg)
      else let
        set_field = pos3 msg;
        field = set_field + 4;
        msg = st16 set_field OFPAT_SET_FIELD msg;
        msg = st16 (set_field + 2) (of_nat (OFU_SET_FIELD_WITH_VLAN_PCP_ACTION_LEN + padding_bytes)) msg;
        msg = st32 field OXM_OF_VLAN_PCP msg;
        msg = st8 (field + OF_OXM_HDR_LEN) vlan_priority_bits msg;
        msg = memset_0 (field + OFU_SET_FIELD_WITH_VLAN_PCP_ACTION_LEN) padding_bytes msg;
        msg = advance3 (OFU_SET_FIELD_WITH_VLAN_PCP_ACTION_LEN + padding_bytes) msg
      in (OFU_ACTION_PUSH_SUCCESS, msg))"

definition ofu_push_set_ip_dscp_bits_in_set_field_action :: "u8 \<Rightarrow> of_msg \<Rightarrow> msg_utilities \<times> of_msg" where
  "ofu_push_set_ip_dscp_bits_in_set_field_action ip_dscp_bits msg =
     (let padding_bytes = OF_SET_FIELD_ACTION_PADDING_LEN 1 in
      if no_room (pos1 msg + OFU_SET_FIELD_WITH_IP_DSCP_FIELD_ACTION_LEN) msg then (OFU_NO_ROOM_IN_BUFFER, msg)
      else let
        set_field = pos3 msg;
        field = set_field + 4;
        msg = st16 set_field OFPAT_SET_FIELD msg;
        msg = st16 (set_field + 2) (of_nat (OFU_SET_FIELD_WITH_IP_DSCP_FIELD_ACTION_LEN + padding_bytes)) msg;
        msg = st32 field OXM_OF_IP_DSCP msg;
        msg = st8 (field + OF_OXM_HDR_LEN) ip_dscp_bits msg;
        msg = memset_0 (field + OFU_SET_FIELD_WITH_IP_DSCP_FIELD_ACTION_LEN) padding_bytes msg;
        msg = advance3 (OFU_SET_FIELD_WITH_IP_DSCP_FIELD_ACTION_LEN + padding_bytes) msg
      in (OFU_ACTION_PUSH_SUCCESS, msg))"

definition ofu_push_set_ip_ecn_bits_in_set_field_action :: "u8 \<Rightarrow> of_msg \<Rightarrow> msg_utilities \<times> of_msg" where
  "ofu_push_set_ip_ecn_bits_in_set_field_action ip_ecn_bits msg =
     (let padding_bytes = OF_SET_FIELD_ACTION_PADDING_LEN 1 in
      if no_room (pos1 msg + OFU_SET_FIELD_WITH_IP_ECN_FIELD_ACTION_LEN) msg then (OFU_NO_ROOM_IN_BUFFER, msg)
      else let
        set_field = pos3 msg;
        field = set_field + 4;
        msg = st16 set_field OFPAT_SET_FIELD msg;
        msg = st16 (set_field + 2) (of_nat (OFU_SET_FIELD_WITH_IP_ECN_FIELD_ACTION_LEN + padding_bytes)) msg;
        msg = st32 field OXM_OF_IP_ECN msg;
        msg = st8 (field + OF_OXM_HDR_LEN) ip_ecn_bits msg;
        msg = memset_0 (field + OFU_SET_FIELD_WITH_IP_ECN_FIELD_ACTION_LEN) padding_bytes msg;
        msg = advance3 (OFU_SET_FIELD_WITH_IP_ECN_FIELD_ACTION_LEN + padding_bytes) msg
      in (OFU_ACTION_PUSH_SUCCESS, msg))"

definition ofu_push_set_ip_protocol_in_set_field_action :: "u8 \<Rightarrow> of_msg \<Rightarrow> msg_utilities \<times> of_msg" where
  "ofu_push_set_ip_protocol_in_set_field_action ip_protocol msg =
     (let padding_bytes = OF_SET_FIELD_ACTION_PADDING_LEN 1 in
      if no_room (pos1 msg + OFU_SET_FIELD_WITH_IP_PROTO_FIELD_ACTION_LEN) msg then (OFU_NO_ROOM_IN_BUFFER, msg)
      else let
        set_field = pos3 msg;
        field = set_field + 4;
        msg = st16 set_field OFPAT_SET_FIELD msg;
        msg = st16 (set_field + 2) (of_nat (OFU_SET_FIELD_WITH_IP_PROTO_FIELD_ACTION_LEN + padding_bytes)) msg;
        msg = st32 field OXM_OF_IP_PROTO msg;
        msg = st8 (field + OF_OXM_HDR_LEN) ip_protocol msg;
        msg = memset_0 (field + OFU_SET_FIELD_WITH_IP_PROTO_FIELD_ACTION_LEN) padding_bytes msg;
        msg = advance3 (OFU_SET_FIELD_WITH_IP_PROTO_FIELD_ACTION_LEN + padding_bytes) msg
      in (OFU_ACTION_PUSH_SUCCESS, msg))"

definition ofu_push_set_ipv4_src_addr_in_set_field_action :: "u32 \<Rightarrow> of_msg \<Rightarrow> msg_utilities \<times> of_msg" where
  "ofu_push_set_ipv4_src_addr_in_set_field_action ipv4_addr msg =
     (let padding_bytes = OF_SET_FIELD_ACTION_PADDING_LEN 4 in
      if no_room (pos1 msg + OFU_SET_FIELD_WITH_IPV4_SRC_FIELD_ACTION_LEN) msg then (OFU_NO_ROOM_IN_BUFFER, msg)
      else let
        set_field = pos3 msg;
        field = set_field + 4;
        msg = st16 set_field OFPAT_SET_FIELD msg;
        msg = st16 (set_field + 2) (of_nat (OFU_SET_FIELD_WITH_IPV4_SRC_FIELD_ACTION_LEN + padding_bytes)) msg;
        msg = st32 field OXM_OF_IPV4_SRC msg;
        msg = st32 (field + OF_OXM_HDR_LEN) ipv4_addr msg;
        msg = memset_0 (field + OFU_SET_FIELD_WITH_IPV4_SRC_FIELD_ACTION_LEN) padding_bytes msg;
        msg = advance3 (OFU_SET_FIELD_WITH_IPV4_SRC_FIELD_ACTION_LEN + padding_bytes) msg
      in (OFU_ACTION_PUSH_SUCCESS, msg))"

definition ofu_push_set_source_ipv6_addr_in_set_field_action :: "u8 list \<Rightarrow> of_msg \<Rightarrow> msg_utilities \<times> of_msg" where
  "ofu_push_set_source_ipv6_addr_in_set_field_action ipv6_addr msg =
     (let padding_bytes = OF_SET_FIELD_ACTION_PADDING_LEN 16 in
      if no_room (pos1 msg + OFU_SET_FIELD_WITH_IPV6_SRC_FIELD_ACTION_LEN) msg then (OFU_NO_ROOM_IN_BUFFER, msg)
      else let
        set_field = pos3 msg;
        field = set_field + 4;
        msg = st16 set_field OFPAT_SET_FIELD msg;
        msg = st16 (set_field + 2) (of_nat (OFU_SET_FIELD_WITH_IPV6_SRC_FIELD_ACTION_LEN + padding_bytes)) msg;
        msg = st32 field OXM_OF_IPV6_SRC msg;
        msg = memcpy (field + OF_OXM_HDR_LEN) ipv6_addr 16 msg;
        msg = memset_0 (field + OFU_SET_FIELD_WITH_IPV6_SRC_FIELD_ACTION_LEN) padding_bytes msg;
        msg = advance3 (OFU_SET_FIELD_WITH_IPV6_SRC_FIELD_ACTION_LEN + padding_bytes) msg
      in (OFU_ACTION_PUSH_SUCCESS, msg))"

definition ofu_push_set_destination_ipv6_addr_in_set_field_action :: "u8 list \<Rightarrow> of_msg \<Rightarrow> msg_utilities \<times> of_msg" where
  "ofu_push_set_destination_ipv6_addr_in_set_field_action ipv6_addr msg =
     (let padding_bytes = OF_SET_FIELD_ACTION_PADDING_LEN 16 in
      if no_room (pos1 msg + OFU_SET_FIELD_WITH_IPV6_DST_FIELD_ACTION_LEN) msg then (OFU_NO_ROOM_IN_BUFFER, msg)
      else let
        set_field = pos3 msg;
        field = set_field + 4;
        msg = st16 set_field OFPAT_SET_FIELD msg;
        msg = st16 (set_field + 2) (of_nat (OFU_SET_FIELD_WITH_IPV6_DST_FIELD_ACTION_LEN + padding_bytes)) msg;
        msg = st32 field OXM_OF_IPV6_DST msg;
        msg = memcpy (field + OF_OXM_HDR_LEN) ipv6_addr 16 msg;
        msg = memset_0 (field + OFU_SET_FIELD_WITH_IPV6_DST_FIELD_ACTION_LEN) padding_bytes msg;
        msg = advance3 (OFU_SET_FIELD_WITH_IPV6_DST_FIELD_ACTION_LEN + padding_bytes) msg
      in (OFU_ACTION_PUSH_SUCCESS, msg))"

definition ofu_push_set_ipv6_flow_label_in_set_field_action :: "u32 \<Rightarrow> of_msg \<Rightarrow> msg_utilities \<times> of_msg" where
  "ofu_push_set_ipv6_flow_label_in_set_field_action flow_label msg =
     (let padding_bytes = OF_SET_FIELD_ACTION_PADDING_LEN 4 in
      if no_room (pos1 msg + OFU_SET_FIELD_WITH_IPV6_FLABEL_FIELD_ACTION_LEN) msg then (OFU_NO_ROOM_IN_BUFFER, msg)
      else let
        set_field = pos3 msg;
        field = set_field + 4;
        msg = st16 set_field OFPAT_SET_FIELD msg;
        msg = st16 (set_field + 2) (of_nat (OFU_SET_FIELD_WITH_IPV6_FLABEL_FIELD_ACTION_LEN + padding_bytes)) msg;
        msg = st32 field OXM_OF_IPV6_FLABEL msg;
        msg = st32 (field + OF_OXM_HDR_LEN) flow_label msg;
        msg = memset_0 (field + OFU_SET_FIELD_WITH_IPV6_FLABEL_FIELD_ACTION_LEN) padding_bytes msg;
        msg = advance3 (OFU_SET_FIELD_WITH_IPV6_FLABEL_FIELD_ACTION_LEN + padding_bytes) msg
      in (OFU_ACTION_PUSH_SUCCESS, msg))"

definition ofu_push_set_icmpv6_type_in_set_field_action :: "u8 \<Rightarrow> of_msg \<Rightarrow> msg_utilities \<times> of_msg" where
  "ofu_push_set_icmpv6_type_in_set_field_action icmpv6_type msg =
     (let padding_bytes = OF_SET_FIELD_ACTION_PADDING_LEN 1 in
      if no_room (pos1 msg + OFU_SET_FIELD_WITH_ICMPV6_TYPE_FIELD_ACTION_LEN) msg then (OFU_NO_ROOM_IN_BUFFER, msg)
      else let
        set_field = pos3 msg;
        field = set_field + 4;
        msg = st16 set_field OFPAT_SET_FIELD msg;
        msg = st16 (set_field + 2) (of_nat (OFU_SET_FIELD_WITH_ICMPV6_TYPE_FIELD_ACTION_LEN + padding_bytes)) msg;
        msg = st32 field OXM_OF_ICMPV6_TYPE msg;
        msg = st8 (field + OF_OXM_HDR_LEN) icmpv6_type msg;
        msg = memset_0 (field + OFU_SET_FIELD_WITH_ICMPV6_TYPE_FIELD_ACTION_LEN) padding_bytes msg;
        msg = advance3 (OFU_SET_FIELD_WITH_ICMPV6_TYPE_FIELD_ACTION_LEN + padding_bytes) msg
      in (OFU_ACTION_PUSH_SUCCESS, msg))"

definition ofu_push_set_icmpv6_code_in_set_field_action :: "u8 \<Rightarrow> of_msg \<Rightarrow> msg_utilities \<times> of_msg" where
  "ofu_push_set_icmpv6_code_in_set_field_action icmpv6_code msg =
     (let padding_bytes = OF_SET_FIELD_ACTION_PADDING_LEN 1 in
      if no_room (pos1 msg + OFU_SET_FIELD_WITH_ICMPV6_CODE_FIELD_ACTION_LEN) msg then (OFU_NO_ROOM_IN_BUFFER, msg)
      else let
        set_field = pos3 msg;
        field = set_field + 4;
        msg = st16 set_field OFPAT_SET_FIELD msg;
        msg = st16 (set_field + 2) (of_nat (OFU_SET_FIELD_WITH_ICMPV6_CODE_FIELD_ACTION_LEN + padding_bytes)) msg;
        msg = st32 field OXM_OF_ICMPV6_CODE msg;
        msg = st8 (field + OF_OXM_HDR_LEN) icmpv6_code msg;
        msg = memset_0 (field + OFU_SET_FIELD_WITH_ICMPV6_CODE_FIELD_ACTION_LEN) padding_bytes msg;
        msg = advance3 (OFU_SET_FIELD_WITH_ICMPV6_CODE_FIELD_ACTION_LEN + padding_bytes) msg
      in (OFU_ACTION_PUSH_SUCCESS, msg))"

definition ofu_push_set_nd_target_ipv6_addr_in_set_field_action :: "u8 list \<Rightarrow> of_msg \<Rightarrow> msg_utilities \<times> of_msg" where
  "ofu_push_set_nd_target_ipv6_addr_in_set_field_action ipv6_addr msg =
     (let padding_bytes = OF_SET_FIELD_ACTION_PADDING_LEN 16 in
      if no_room (pos1 msg + OFU_SET_FIELD_WITH_IPV6_ND_TARGET_FIELD_ACTION_LEN) msg then (OFU_NO_ROOM_IN_BUFFER, msg)
      else let
        set_field = pos3 msg;
        field = set_field + 4;
        msg = st16 set_field OFPAT_SET_FIELD msg;
        msg = st16 (set_field + 2) (of_nat (OFU_SET_FIELD_WITH_IPV6_ND_TARGET_FIELD_ACTION_LEN + padding_bytes)) msg;
        msg = st32 field OXM_OF_IPV6_ND_TARGET msg;
        msg = memcpy (field + OF_OXM_HDR_LEN) ipv6_addr 16 msg;
        msg = memset_0 (field + OFU_SET_FIELD_WITH_IPV6_ND_TARGET_FIELD_ACTION_LEN) padding_bytes msg;
        msg = advance3 (OFU_SET_FIELD_WITH_IPV6_ND_TARGET_FIELD_ACTION_LEN + padding_bytes) msg
      in (OFU_ACTION_PUSH_SUCCESS, msg))"

definition ofu_push_set_nd_source_link_layer_addr_in_set_field_action :: "u8 list \<Rightarrow> of_msg \<Rightarrow> msg_utilities \<times> of_msg" where
  "ofu_push_set_nd_source_link_layer_addr_in_set_field_action hw_addr msg =
     (let padding_bytes = OF_SET_FIELD_ACTION_PADDING_LEN 6 in
      if no_room (pos1 msg + OFU_SET_FIELD_WITH_IPV6_ND_SLL_FIELD_ACTION_LEN) msg then (OFU_NO_ROOM_IN_BUFFER, msg)
      else let
        set_field = pos3 msg;
        field = set_field + 4;
        msg = st16 set_field OFPAT_SET_FIELD msg;
        msg = st16 (set_field + 2) (of_nat (OFU_SET_FIELD_WITH_IPV6_ND_SLL_FIELD_ACTION_LEN + padding_bytes)) msg;
        msg = st32 field OXM_OF_IPV6_ND_SLL msg;
        msg = memcpy (field + OF_OXM_HDR_LEN) hw_addr 6 msg;
        msg = memset_0 (field + OFU_SET_FIELD_WITH_IPV6_ND_SLL_FIELD_ACTION_LEN) padding_bytes msg;
        msg = advance3 (OFU_SET_FIELD_WITH_IPV6_ND_SLL_FIELD_ACTION_LEN + padding_bytes) msg
      in (OFU_ACTION_PUSH_SUCCESS, msg))"

definition ofu_push_set_nd_target_link_layer_addr_in_set_field_action :: "u8 list \<Rightarrow> of_msg \<Rightarrow> msg_utilities \<times> of_msg" where
  "ofu_push_set_nd_target_link_layer_addr_in_set_field_action hw_addr msg =
     (let padding_bytes = OF_SET_FIELD_ACTION_PADDING_LEN 6 in
      if no_room (pos1 msg + OFU_SET_FIELD_WITH_IPV6_ND_DLL_FIELD_ACTION_LEN) msg then (OFU_NO_ROOM_IN_BUFFER, msg)
      else let
        set_field = pos3 msg;
        field = set_field + 4;
        msg = st16 set_field OFPAT_SET_FIELD msg;
        msg = st16 (set_field + 2) (of_nat (OFU_SET_FIELD_WITH_IPV6_ND_DLL_FIELD_ACTION_LEN + padding_bytes)) msg;
        msg = st32 field OXM_OF_IPV6_ND_TLL msg;
        msg = memcpy (field + OF_OXM_HDR_LEN) hw_addr 6 msg;
        msg = memset_0 (field + OFU_SET_FIELD_WITH_IPV6_ND_DLL_FIELD_ACTION_LEN) padding_bytes msg;
        msg = advance3 (OFU_SET_FIELD_WITH_IPV6_ND_DLL_FIELD_ACTION_LEN + padding_bytes) msg
      in (OFU_ACTION_PUSH_SUCCESS, msg))"

definition ofu_push_set_ipv6_exthdr_field_in_set_field_action :: "u16 \<Rightarrow> of_msg \<Rightarrow> msg_utilities \<times> of_msg" where
  "ofu_push_set_ipv6_exthdr_field_in_set_field_action ipv6_exthdr_pseudo_fields msg =
     (let padding_bytes = OF_SET_FIELD_ACTION_PADDING_LEN 2 in
      if no_room (pos1 msg + OFU_SET_FIELD_WITH_IPV6_EXTHDR_FIELD_ACTION_LEN) msg then (OFU_NO_ROOM_IN_BUFFER, msg)
      else let
        set_field = pos3 msg;
        field = set_field + 4;
        msg = st16 set_field OFPAT_SET_FIELD msg;
        msg = st16 (set_field + 2) (of_nat (OFU_SET_FIELD_WITH_IPV6_EXTHDR_FIELD_ACTION_LEN + padding_bytes)) msg;
        msg = st32 field OXM_OF_IPV6_EXTHDR msg;
        msg = st16 (field + OF_OXM_HDR_LEN) ipv6_exthdr_pseudo_fields msg;
        msg = memset_0 (field + OFU_SET_FIELD_WITH_IPV6_EXTHDR_FIELD_ACTION_LEN) padding_bytes msg;
        msg = advance3 (OFU_SET_FIELD_WITH_IPV6_EXTHDR_FIELD_ACTION_LEN + padding_bytes) msg
      in (OFU_ACTION_PUSH_SUCCESS, msg))"

definition ofu_push_set_ipv4_dst_addr_in_set_field_action :: "u32 \<Rightarrow> of_msg \<Rightarrow> msg_utilities \<times> of_msg" where
  "ofu_push_set_ipv4_dst_addr_in_set_field_action ipv4_addr msg =
     (let padding_bytes = OF_SET_FIELD_ACTION_PADDING_LEN 4 in
      if no_room (pos1 msg + OFU_SET_FIELD_WITH_IPV4_DST_FIELD_ACTION_LEN) msg then (OFU_NO_ROOM_IN_BUFFER, msg)
      else let
        set_field = pos3 msg;
        field = set_field + 4;
        msg = st16 set_field OFPAT_SET_FIELD msg;
        msg = st16 (set_field + 2) (of_nat (OFU_SET_FIELD_WITH_IPV4_DST_FIELD_ACTION_LEN + padding_bytes)) msg;
        msg = st32 field OXM_OF_IPV4_DST msg;
        msg = st32 (field + OF_OXM_HDR_LEN) ipv4_addr msg;
        msg = memset_0 (field + OFU_SET_FIELD_WITH_IPV4_DST_FIELD_ACTION_LEN) padding_bytes msg;
        msg = advance3 (OFU_SET_FIELD_WITH_IPV4_DST_FIELD_ACTION_LEN + padding_bytes) msg
      in (OFU_ACTION_PUSH_SUCCESS, msg))"

definition ofu_push_set_tcp_src_port_in_set_field_action :: "u16 \<Rightarrow> of_msg \<Rightarrow> msg_utilities \<times> of_msg" where
  "ofu_push_set_tcp_src_port_in_set_field_action port_number msg =
     (let padding_bytes = OF_SET_FIELD_ACTION_PADDING_LEN 2 in
      if no_room (pos1 msg + OFU_SET_FIELD_WITH_TCP_SRC_PORT_FIELD_ACTION_LEN) msg then (OFU_NO_ROOM_IN_BUFFER, msg)
      else let
        set_field = pos3 msg;
        field = set_field + 4;
        msg = st16 set_field OFPAT_SET_FIELD msg;
        msg = st16 (set_field + 2) (of_nat (OFU_SET_FIELD_WITH_TCP_SRC_PORT_FIELD_ACTION_LEN + padding_bytes)) msg;
        msg = st32 field OXM_OF_TCP_SRC msg;
        msg = st16 (field + OF_OXM_HDR_LEN) port_number msg;
        msg = memset_0 (field + OFU_SET_FIELD_WITH_TCP_SRC_PORT_FIELD_ACTION_LEN) padding_bytes msg;
        msg = advance3 (OFU_SET_FIELD_WITH_TCP_SRC_PORT_FIELD_ACTION_LEN + padding_bytes) msg
      in (OFU_ACTION_PUSH_SUCCESS, msg))"

definition ofu_push_set_tcp_dst_port_in_set_field_action :: "u16 \<Rightarrow> of_msg \<Rightarrow> msg_utilities \<times> of_msg" where
  "ofu_push_set_tcp_dst_port_in_set_field_action port_number msg =
     (let padding_bytes = OF_SET_FIELD_ACTION_PADDING_LEN 2 in
      if no_room (pos1 msg + OFU_SET_FIELD_WITH_TCP_DST_PORT_FIELD_ACTION_LEN) msg then (OFU_NO_ROOM_IN_BUFFER, msg)
      else let
        set_field = pos3 msg;
        field = set_field + 4;
        msg = st16 set_field OFPAT_SET_FIELD msg;
        msg = st16 (set_field + 2) (of_nat (OFU_SET_FIELD_WITH_TCP_DST_PORT_FIELD_ACTION_LEN + padding_bytes)) msg;
        msg = st32 field OXM_OF_TCP_DST msg;
        msg = st16 (field + OF_OXM_HDR_LEN) port_number msg;
        msg = memset_0 (field + OFU_SET_FIELD_WITH_TCP_DST_PORT_FIELD_ACTION_LEN) padding_bytes msg;
        msg = advance3 (OFU_SET_FIELD_WITH_TCP_DST_PORT_FIELD_ACTION_LEN + padding_bytes) msg
      in (OFU_ACTION_PUSH_SUCCESS, msg))"

definition ofu_push_set_udp_src_port_in_set_field_action :: "u16 \<Rightarrow> of_msg \<Rightarrow> msg_utilities \<times> of_msg" where
  "ofu_push_set_udp_src_port_in_set_field_action port_number msg =
     (let padding_bytes = OF_SET_FIELD_ACTION_PADDING_LEN 2 in
      if no_room (pos1 msg + OFU_SET_FIELD_WITH_UDP_SRC_PORT_FIELD_ACTION_LEN) msg then (OFU_NO_ROOM_IN_BUFFER, msg)
      else let
        set_field = pos3 msg;
        field = set_field + 4;
        msg = st16 set_field OFPAT_SET_FIELD msg;
        msg = st16 (set_field + 2) (of_nat (OFU_SET_FIELD_WITH_UDP_SRC_PORT_FIELD_ACTION_LEN + padding_bytes)) msg;
        msg = st32 field OXM_OF_UDP_SRC msg;
        msg = st16 (field + OF_OXM_HDR_LEN) port_number msg;
        msg = memset_0 (field + OFU_SET_FIELD_WITH_UDP_SRC_PORT_FIELD_ACTION_LEN) padding_bytes msg;
        msg = advance3 (OFU_SET_FIELD_WITH_UDP_SRC_PORT_FIELD_ACTION_LEN + padding_bytes) msg
      in (OFU_ACTION_PUSH_SUCCESS, msg))"

definition ofu_push_set_udp_dst_port_in_set_field_action :: "u16 \<Rightarrow> of_msg \<Rightarrow> msg_utilities \<times> of_msg" where
  "ofu_push_set_udp_dst_port_in_set_field_action port_number msg =
     (let padding_bytes = OF_SET_FIELD_ACTION_PADDING_LEN 2 in
      if no_room (pos1 msg + OFU_SET_FIELD_WITH_UDP_DST_PORT_FIELD_ACTION_LEN) msg then (OFU_NO_ROOM_IN_BUFFER, msg)
      else let
        set_field = pos3 msg;
        field = set_field + 4;
        msg = st16 set_field OFPAT_SET_FIELD msg;
        msg = st16 (set_field + 2) (of_nat (OFU_SET_FIELD_WITH_UDP_DST_PORT_FIELD_ACTION_LEN + padding_bytes)) msg;
        msg = st32 field OXM_OF_UDP_DST msg;
        msg = st16 (field + OF_OXM_HDR_LEN) port_number msg;
        msg = memset_0 (field + OFU_SET_FIELD_WITH_UDP_DST_PORT_FIELD_ACTION_LEN) padding_bytes msg;
        msg = advance3 (OFU_SET_FIELD_WITH_UDP_DST_PORT_FIELD_ACTION_LEN + padding_bytes) msg
      in (OFU_ACTION_PUSH_SUCCESS, msg))"

definition ofu_push_set_sctp_src_port_in_set_field_action :: "u16 \<Rightarrow> of_msg \<Rightarrow> msg_utilities \<times> of_msg" where
  "ofu_push_set_sctp_src_port_in_set_field_action port_number msg =
     (let padding_bytes = OF_SET_FIELD_ACTION_PADDING_LEN 2 in
      if no_room (pos1 msg + OFU_SET_FIELD_WITH_SCTP_SRC_FIELD_ACTION_LEN) msg then (OFU_NO_ROOM_IN_BUFFER, msg)
      else let
        set_field = pos3 msg;
        field = set_field + 4;
        msg = st16 set_field OFPAT_SET_FIELD msg;
        msg = st16 (set_field + 2) (of_nat (OFU_SET_FIELD_WITH_SCTP_SRC_FIELD_ACTION_LEN + padding_bytes)) msg;
        msg = st32 field OXM_OF_SCTP_SRC msg;
        msg = st16 (field + OF_OXM_HDR_LEN) port_number msg;
        msg = memset_0 (field + OFU_SET_FIELD_WITH_SCTP_SRC_FIELD_ACTION_LEN) padding_bytes msg;
        msg = advance3 (OFU_SET_FIELD_WITH_SCTP_SRC_FIELD_ACTION_LEN + padding_bytes) msg
      in (OFU_ACTION_PUSH_SUCCESS, msg))"

definition ofu_push_set_sctp_dst_port_in_set_field_action :: "u16 \<Rightarrow> of_msg \<Rightarrow> msg_utilities \<times> of_msg" where
  "ofu_push_set_sctp_dst_port_in_set_field_action port_number msg =
     (let padding_bytes = OF_SET_FIELD_ACTION_PADDING_LEN 2 in
      if no_room (pos1 msg + OFU_SET_FIELD_WITH_SCTP_DST_FIELD_ACTION_LEN) msg then (OFU_NO_ROOM_IN_BUFFER, msg)
      else let
        set_field = pos3 msg;
        field = set_field + 4;
        msg = st16 set_field OFPAT_SET_FIELD msg;
        msg = st16 (set_field + 2) (of_nat (OFU_SET_FIELD_WITH_SCTP_DST_FIELD_ACTION_LEN + padding_bytes)) msg;
        msg = st32 field OXM_OF_SCTP_DST msg;
        msg = st16 (field + OF_OXM_HDR_LEN) port_number msg;
        msg = memset_0 (field + OFU_SET_FIELD_WITH_SCTP_DST_FIELD_ACTION_LEN) padding_bytes msg;
        msg = advance3 (OFU_SET_FIELD_WITH_SCTP_DST_FIELD_ACTION_LEN + padding_bytes) msg
      in (OFU_ACTION_PUSH_SUCCESS, msg))"

definition ofu_push_set_icmpv4_type_in_set_field_action :: "u8 \<Rightarrow> of_msg \<Rightarrow> msg_utilities \<times> of_msg" where
  "ofu_push_set_icmpv4_type_in_set_field_action icmpv4_type msg =
     (let padding_bytes = OF_SET_FIELD_ACTION_PADDING_LEN 1 in
      if no_room (pos1 msg + OFU_SET_FIELD_WITH_ICPMPV4_TYPE_FIELD_ACTION_LEN) msg then (OFU_NO_ROOM_IN_BUFFER, msg)
      else let
        set_field = pos3 msg;
        field = set_field + 4;
        msg = st16 set_field OFPAT_SET_FIELD msg;
        msg = st16 (set_field + 2) (of_nat (OFU_SET_FIELD_WITH_ICPMPV4_TYPE_FIELD_ACTION_LEN + padding_bytes)) msg;
        msg = st32 field OXM_OF_ICMPV4_TYPE msg;
        msg = st8 (field + OF_OXM_HDR_LEN) icmpv4_type msg;
        msg = memset_0 (field + OFU_SET_FIELD_WITH_ICPMPV4_TYPE_FIELD_ACTION_LEN) padding_bytes msg;
        msg = advance3 (OFU_SET_FIELD_WITH_ICPMPV4_TYPE_FIELD_ACTION_LEN + padding_bytes) msg
      in (OFU_ACTION_PUSH_SUCCESS, msg))"

definition ofu_push_set_icmpv4_code_in_set_field_action :: "u8 \<Rightarrow> of_msg \<Rightarrow> msg_utilities \<times> of_msg" where
  "ofu_push_set_icmpv4_code_in_set_field_action icmpv4_code msg =
     (let padding_bytes = OF_SET_FIELD_ACTION_PADDING_LEN 1 in
      if no_room (pos1 msg + OFU_SET_FIELD_WITH_ICPMPV4_CODE_FIELD_ACTION_LEN) msg then (OFU_NO_ROOM_IN_BUFFER, msg)
      else let
        set_field = pos3 msg;
        field = set_field + 4;
        msg = st16 set_field OFPAT_SET_FIELD msg;
        msg = st16 (set_field + 2) (of_nat (OFU_SET_FIELD_WITH_ICPMPV4_CODE_FIELD_ACTION_LEN + padding_bytes)) msg;
        msg = st32 field OXM_OF_ICMPV4_CODE msg;
        msg = st8 (field + OF_OXM_HDR_LEN) icmpv4_code msg;
        msg = memset_0 (field + OFU_SET_FIELD_WITH_ICPMPV4_CODE_FIELD_ACTION_LEN) padding_bytes msg;
        msg = advance3 (OFU_SET_FIELD_WITH_ICPMPV4_CODE_FIELD_ACTION_LEN + padding_bytes) msg
      in (OFU_ACTION_PUSH_SUCCESS, msg))"

definition ofu_push_set_arp_opcode_in_set_field_action :: "u16 \<Rightarrow> of_msg \<Rightarrow> msg_utilities \<times> of_msg" where
  "ofu_push_set_arp_opcode_in_set_field_action arp_opcode msg =
     (let padding_bytes = OF_SET_FIELD_ACTION_PADDING_LEN 2 in
      if no_room (pos1 msg + OFU_SET_FIELD_WITH_ARP_OP_FIELD_ACTION_LEN) msg then (OFU_NO_ROOM_IN_BUFFER, msg)
      else let
        set_field = pos3 msg;
        field = set_field + 4;
        msg = st16 set_field OFPAT_SET_FIELD msg;
        msg = st16 (set_field + 2) (of_nat (OFU_SET_FIELD_WITH_ARP_OP_FIELD_ACTION_LEN + padding_bytes)) msg;
        msg = st32 field OXM_OF_ARP_OP msg;
        msg = st16 (field + OF_OXM_HDR_LEN) arp_opcode msg;
        msg = memset_0 (field + OFU_SET_FIELD_WITH_ARP_OP_FIELD_ACTION_LEN) padding_bytes msg;
        msg = advance3 (OFU_SET_FIELD_WITH_ARP_OP_FIELD_ACTION_LEN + padding_bytes) msg
      in (OFU_ACTION_PUSH_SUCCESS, msg))"

definition ofu_push_set_arp_source_ipv4_addr_in_set_field_action :: "u32 \<Rightarrow> of_msg \<Rightarrow> msg_utilities \<times> of_msg" where
  "ofu_push_set_arp_source_ipv4_addr_in_set_field_action ipv4_addr msg =
     (let padding_bytes = OF_SET_FIELD_ACTION_PADDING_LEN 4 in
      if no_room (pos1 msg + OFU_SET_FIELD_WITH_ARP_SPA_FIELD_ACTION_LEN) msg then (OFU_NO_ROOM_IN_BUFFER, msg)
      else let
        set_field = pos3 msg;
        field = set_field + 4;
        msg = st16 set_field OFPAT_SET_FIELD msg;
        msg = st16 (set_field + 2) (of_nat (OFU_SET_FIELD_WITH_ARP_SPA_FIELD_ACTION_LEN + padding_bytes)) msg;
        msg = st32 field OXM_OF_ARP_SPA msg;
        msg = st32 (field + OF_OXM_HDR_LEN) ipv4_addr msg;
        msg = memset_0 (field + OFU_SET_FIELD_WITH_ARP_SPA_FIELD_ACTION_LEN) padding_bytes msg;
        msg = advance3 (OFU_SET_FIELD_WITH_ARP_SPA_FIELD_ACTION_LEN + padding_bytes) msg
      in (OFU_ACTION_PUSH_SUCCESS, msg))"

definition ofu_push_set_arp_target_ipv4_addr_in_set_field_action :: "u32 \<Rightarrow> of_msg \<Rightarrow> msg_utilities \<times> of_msg" where
  "ofu_push_set_arp_target_ipv4_addr_in_set_field_action ipv4_addr msg =
     (let padding_bytes = OF_SET_FIELD_ACTION_PADDING_LEN 4 in
      if no_room (pos1 msg + OFU_SET_FIELD_WITH_ARP_TPA_FIELD_ACTION_LEN) msg then (OFU_NO_ROOM_IN_BUFFER, msg)
      else let
        set_field = pos3 msg;
        field = set_field + 4;
        msg = st16 set_field OFPAT_SET_FIELD msg;
        msg = st16 (set_field + 2) (of_nat (OFU_SET_FIELD_WITH_ARP_TPA_FIELD_ACTION_LEN + padding_bytes)) msg;
        msg = st32 field OXM_OF_ARP_TPA msg;
        msg = st32 (field + OF_OXM_HDR_LEN) ipv4_addr msg;
        msg = memset_0 (field + OFU_SET_FIELD_WITH_ARP_TPA_FIELD_ACTION_LEN) padding_bytes msg;
        msg = advance3 (OFU_SET_FIELD_WITH_ARP_TPA_FIELD_ACTION_LEN + padding_bytes) msg
      in (OFU_ACTION_PUSH_SUCCESS, msg))"

definition ofu_push_set_arp_source_hw_addr_in_set_field_action :: "u8 list \<Rightarrow> of_msg \<Rightarrow> msg_utilities \<times> of_msg" where
  "ofu_push_set_arp_source_hw_addr_in_set_field_action hw_addr msg =
     (let padding_bytes = OF_SET_FIELD_ACTION_PADDING_LEN 6 in
      if no_room (pos1 msg + OFU_SET_FIELD_WITH_ARP_SHA_FIELD_ACTION_LEN) msg then (OFU_NO_ROOM_IN_BUFFER, msg)
      else let
        set_field = pos3 msg;
        field = set_field + 4;
        msg = st16 set_field OFPAT_SET_FIELD msg;
        msg = st16 (set_field + 2) (of_nat (OFU_SET_FIELD_WITH_ARP_SHA_FIELD_ACTION_LEN + padding_bytes)) msg;
        msg = st32 field OXM_OF_ARP_SHA msg;
        msg = memcpy (field + OF_OXM_HDR_LEN) hw_addr 6 msg;
        msg = memset_0 (field + OFU_SET_FIELD_WITH_ARP_SHA_FIELD_ACTION_LEN) padding_bytes msg;
        msg = advance3 (OFU_SET_FIELD_WITH_ARP_SHA_FIELD_ACTION_LEN + padding_bytes) msg
      in (OFU_ACTION_PUSH_SUCCESS, msg))"

definition ofu_push_set_arp_target_hw_addr_in_set_field_action :: "u8 list \<Rightarrow> of_msg \<Rightarrow> msg_utilities \<times> of_msg" where
  "ofu_push_set_arp_target_hw_addr_in_set_field_action hw_addr msg =
     (let padding_bytes = OF_SET_FIELD_ACTION_PADDING_LEN 6 in
      if no_room (pos1 msg + OFU_SET_FIELD_WITH_ARP_DHA_FIELD_ACTION_LEN) msg then (OFU_NO_ROOM_IN_BUFFER, msg)
      else let
        set_field = pos3 msg;
        field = set_field + 4;
        msg = st16 set_field OFPAT_SET_FIELD msg;
        msg = st16 (set_field + 2) (of_nat (OFU_SET_FIELD_WITH_ARP_DHA_FIELD_ACTION_LEN + padding_bytes)) msg;
        msg = st32 field OXM_OF_ARP_THA msg;
        msg = memcpy (field + OF_OXM_HDR_LEN) hw_addr 6 msg;
        msg = memset_0 (field + OFU_SET_FIELD_WITH_ARP_DHA_FIELD_ACTION_LEN) padding_bytes msg;
        msg = advance3 (OFU_SET_FIELD_WITH_ARP_DHA_FIELD_ACTION_LEN + padding_bytes) msg
      in (OFU_ACTION_PUSH_SUCCESS, msg))"

section \<open>The calls as data\<close>

datatype (plugins only: code size) set_field_call =
    SF_port u32
  | SF_in_physical_port u32
  | SF_mpls_label u32
  | SF_mpls_tc u8
  | SF_mpls_bos_bits u8
  | SF_pbb_isid u8
  | SF_logical_port_meta_data u64
  | SF_destination_mac "u8 list"
  | SF_source_mac "u8 list"
  | SF_eth_type u16
  | SF_vlan_id u16
  | SF_vlan_priority_bits u8
  | SF_ip_dscp_bits u8
  | SF_ip_ecn_bits u8
  | SF_ip_protocol u8
  | SF_ipv4_src_addr u32
  | SF_source_ipv6_addr "u8 list"
  | SF_destination_ipv6_addr "u8 list"
  | SF_ipv6_flow_label u32
  | SF_icmpv6_type u8
  | SF_icmpv6_code u8
  | SF_nd_target_ipv6_addr "u8 list"
  | SF_nd_source_link_layer_addr "u8 list"
  | SF_nd_target_link_layer_addr "u8 list"
  | SF_ipv6_exthdr_field u16
  | SF_ipv4_dst_addr u32
  | SF_tcp_src_port u16
  | SF_tcp_dst_port u16
  | SF_udp_src_port u16
  | SF_udp_dst_port u16
  | SF_sctp_src_port u16
  | SF_sctp_dst_port u16
  | SF_icmpv4_type u8
  | SF_icmpv4_code u8
  | SF_arp_opcode u16
  | SF_arp_source_ipv4_addr u32
  | SF_arp_target_ipv4_addr u32
  | SF_arp_source_hw_addr "u8 list"
  | SF_arp_target_hw_addr "u8 list"

primrec exec_set_field :: "set_field_call \<Rightarrow> of_msg \<Rightarrow> msg_utilities \<times> of_msg" where
  "exec_set_field (SF_port v) = ofu_push_set_port_in_set_field_action v"
| "exec_set_field (SF_in_physical_port v) = ofu_push_set_in_physical_port_in_set_field_action v"
| "exec_set_field (SF_mpls_label v) = ofu_push_set_mpls_label_in_set_field_action v"
| "exec_set_field (SF_mpls_tc v) = ofu_push_set_mpls_tc_in_set_field_action v"
| "exec_set_field (SF_mpls_bos_bits v) = ofu_push_set_mpls_bos_bits_in_set_field_action v"
| "exec_set_field (SF_pbb_isid v) = ofu_push_set_pbb_isid_in_set_field_action v"
| "exec_set_field (SF_logical_port_meta_data v) = ofu_push_set_logical_port_meta_data_in_set_field_action v"
| "exec_set_field (SF_destination_mac v) = ofu_push_set_destination_mac_in_set_field_action v"
| "exec_set_field (SF_source_mac v) = ofu_push_set_source_mac_in_set_field_action v"
| "exec_set_field (SF_eth_type v) = ofu_push_set_eth_type_in_set_field_action v"
| "exec_set_field (SF_vlan_id v) = ofu_push_set_vlan_id_in_set_field_action v"
| "exec_set_field (SF_vlan_priority_bits v) = ofu_push_set_vlan_priority_bits_in_set_field_action v"
| "exec_set_field (SF_ip_dscp_bits v) = ofu_push_set_ip_dscp_bits_in_set_field_action v"
| "exec_set_field (SF_ip_ecn_bits v) = ofu_push_set_ip_ecn_bits_in_set_field_action v"
| "exec_set_field (SF_ip_protocol v) = ofu_push_set_ip_protocol_in_set_field_action v"
| "exec_set_field (SF_ipv4_src_addr v) = ofu_push_set_ipv4_src_addr_in_set_field_action v"
| "exec_set_field (SF_source_ipv6_addr v) = ofu_push_set_source_ipv6_addr_in_set_field_action v"
| "exec_set_field (SF_destination_ipv6_addr v) = ofu_push_set_destination_ipv6_addr_in_set_field_action v"
| "exec_set_field (SF_ipv6_flow_label v) = ofu_push_set_ipv6_flow_label_in_set_field_action v"
| "exec_set_field (SF_icmpv6_type v) = ofu_push_set_icmpv6_type_in_set_field_action v"
| "exec_set_field (SF_icmpv6_code v) = ofu_push_set_icmpv6_code_in_set_field_action v"
| "exec_set_field (SF_nd_target_ipv6_addr v) = ofu_push_set_nd_target_ipv6_addr_in_set_field_action v"
| "exec_set_field (SF_nd_source_link_layer_addr v) = ofu_push_set_nd_source_link_layer_addr_in_set_field_action v"
| "exec_set_field (SF_nd_target_link_layer_addr v) = ofu_push_set_nd_target_link_layer_addr_in_set_field_action v"
| "exec_set_field (SF_ipv6_exthdr_field v) = ofu_push_set_ipv6_exthdr_field_in_set_field_action v"
| "exec_set_field (SF_ipv4_dst_addr v) = ofu_push_set_ipv4_dst_addr_in_set_field_action v"
| "exec_set_field (SF_tcp_src_port v) = ofu_push_set_tcp_src_port_in_set_field_action v"
| "exec_set_field (SF_tcp_dst_port v) = ofu_push_set_tcp_dst_port_in_set_field_action v"
| "exec_set_field (SF_udp_src_port v) = ofu_push_set_udp_src_port_in_set_field_action v"
| "exec_set_field (SF_udp_dst_port v) = ofu_push_set_udp_dst_port_in_set_field_action v"
| "exec_set_field (SF_sctp_src_port v) = ofu_push_set_sctp_src_port_in_set_field_action v"
| "exec_set_field (SF_sctp_dst_port v) = ofu_push_set_sctp_dst_port_in_set_field_action v"
| "exec_set_field (SF_icmpv4_type v) = ofu_push_set_icmpv4_type_in_set_field_action v"
| "exec_set_field (SF_icmpv4_code v) = ofu_push_set_icmpv4_code_in_set_field_action v"
| "exec_set_field (SF_arp_opcode v) = ofu_push_set_arp_opcode_in_set_field_action v"
| "exec_set_field (SF_arp_source_ipv4_addr v) = ofu_push_set_arp_source_ipv4_addr_in_set_field_action v"
| "exec_set_field (SF_arp_target_ipv4_addr v) = ofu_push_set_arp_target_ipv4_addr_in_set_field_action v"
| "exec_set_field (SF_arp_source_hw_addr v) = ofu_push_set_arp_source_hw_addr_in_set_field_action v"
| "exec_set_field (SF_arp_target_hw_addr v) = ofu_push_set_arp_target_hw_addr_in_set_field_action v"

text \<open>Field number and value on the wire of each call.\<close>

primrec set_field_value :: "set_field_call \<Rightarrow> nat \<times> u8 list" where
  "set_field_value (SF_port v) = (0, be32 v)"
| "set_field_value (SF_in_physical_port v) = (1, be32 v)"
| "set_field_value (SF_mpls_label v) = (34, be32 v)"
| "set_field_value (SF_mpls_tc v) = (35, [v])"
| "set_field_value (SF_mpls_bos_bits v) = (36, [v])"
| "set_field_value (SF_pbb_isid v) = (37, [v])"
| "set_field_value (SF_logical_port_meta_data v) = (38, be64 v)"
| "set_field_value (SF_destination_mac v) = (3, v)"
| "set_field_value (SF_source_mac v) = (4, v)"
| "set_field_value (SF_eth_type v) = (5, be16 v)"
| "set_field_value (SF_vlan_id v) = (6, be16 v)"
| "set_field_value (SF_vlan_priority_bits v) = (7, [v])"
| "set_field_value (SF_ip_dscp_bits v) = (8, [v])"
| "set_field_value (SF_ip_ecn_bits v) = (9, [v])"
| "set_field_value (SF_ip_protocol v) = (10, [v])"
| "set_field_value (SF_ipv4_src_addr v) = (11, be32 v)"
| "set_field_value (SF_source_ipv6_addr v) = (26, v)"
| "set_field_value (SF_destination_ipv6_addr v) = (27, v)"
| "set_field_value (SF_ipv6_flow_label v) = (28, be32 v)"
| "set_field_value (SF_icmpv6_type v) = (29, [v])"
| "set_field_value (SF_icmpv6_code v) = (30, [v])"
| "set_field_value (SF_nd_target_ipv6_addr v) = (31, v)"
| "set_field_value (SF_nd_source_link_layer_addr v) = (32, v)"
| "set_field_value (SF_nd_target_link_layer_addr v) = (33, v)"
| "set_field_value (SF_ipv6_exthdr_field v) = (39, be16 v)"
| "set_field_value (SF_ipv4_dst_addr v) = (12, be32 v)"
| "set_field_value (SF_tcp_src_port v) = (13, be16 v)"
| "set_field_value (SF_tcp_dst_port v) = (14, be16 v)"
| "set_field_value (SF_udp_src_port v) = (15, be16 v)"
| "set_field_value (SF_udp_dst_port v) = (16, be16 v)"
| "set_field_value (SF_sctp_src_port v) = (17, be16 v)"
| "set_field_value (SF_sctp_dst_port v) = (18, be16 v)"
| "set_field_value (SF_icmpv4_type v) = (19, [v])"
| "set_field_value (SF_icmpv4_code v) = (20, [v])"
| "set_field_value (SF_arp_opcode v) = (21, be16 v)"
| "set_field_value (SF_arp_source_ipv4_addr v) = (22, be32 v)"
| "set_field_value (SF_arp_target_ipv4_addr v) = (23, be32 v)"
| "set_field_value (SF_arp_source_hw_addr v) = (24, v)"
| "set_field_value (SF_arp_target_hw_addr v) = (25, v)"

text \<open>Addresses have their length; the PBB I-SID, whose length is wrong, is treated apart.\<close>

definition wf_set_field :: "set_field_call \<Rightarrow> bool" where
  "wf_set_field call \<longleftrightarrow> (case call of
       SF_pbb_isid v \<Rightarrow> False
     | SF_destination_mac v \<Rightarrow> length v = 6
     | SF_source_mac v \<Rightarrow> length v = 6
     | SF_source_ipv6_addr v \<Rightarrow> length v = 16
     | SF_destination_ipv6_addr v \<Rightarrow> length v = 16
     | SF_nd_target_ipv6_addr v \<Rightarrow> length v = 16
     | SF_nd_source_link_layer_addr v \<Rightarrow> length v = 6
     | SF_nd_target_link_layer_addr v \<Rightarrow> length v = 6
     | SF_arp_source_hw_addr v \<Rightarrow> length v = 6
     | SF_arp_target_hw_addr v \<Rightarrow> length v = 6
     | _ \<Rightarrow> True)"

lemmas set_field_defs =
  ofu_push_set_port_in_set_field_action_def ofu_push_set_in_physical_port_in_set_field_action_def
  ofu_push_set_mpls_label_in_set_field_action_def ofu_push_set_mpls_tc_in_set_field_action_def
  ofu_push_set_mpls_bos_bits_in_set_field_action_def ofu_push_set_pbb_isid_in_set_field_action_def
  ofu_push_set_logical_port_meta_data_in_set_field_action_def ofu_push_set_destination_mac_in_set_field_action_def
  ofu_push_set_source_mac_in_set_field_action_def ofu_push_set_eth_type_in_set_field_action_def
  ofu_push_set_vlan_id_in_set_field_action_def ofu_push_set_vlan_priority_bits_in_set_field_action_def
  ofu_push_set_ip_dscp_bits_in_set_field_action_def ofu_push_set_ip_ecn_bits_in_set_field_action_def
  ofu_push_set_ip_protocol_in_set_field_action_def ofu_push_set_ipv4_src_addr_in_set_field_action_def
  ofu_push_set_source_ipv6_addr_in_set_field_action_def ofu_push_set_destination_ipv6_addr_in_set_field_action_def
  ofu_push_set_ipv6_flow_label_in_set_field_action_def ofu_push_set_icmpv6_type_in_set_field_action_def
  ofu_push_set_icmpv6_code_in_set_field_action_def ofu_push_set_nd_target_ipv6_addr_in_set_field_action_def
  ofu_push_set_nd_source_link_layer_addr_in_set_field_action_def ofu_push_set_nd_target_link_layer_addr_in_set_field_action_def
  ofu_push_set_ipv6_exthdr_field_in_set_field_action_def ofu_push_set_ipv4_dst_addr_in_set_field_action_def
  ofu_push_set_tcp_src_port_in_set_field_action_def ofu_push_set_tcp_dst_port_in_set_field_action_def
  ofu_push_set_udp_src_port_in_set_field_action_def ofu_push_set_udp_dst_port_in_set_field_action_def
  ofu_push_set_sctp_src_port_in_set_field_action_def ofu_push_set_sctp_dst_port_in_set_field_action_def
  ofu_push_set_icmpv4_type_in_set_field_action_def ofu_push_set_icmpv4_code_in_set_field_action_def
  ofu_push_set_arp_opcode_in_set_field_action_def ofu_push_set_arp_source_ipv4_addr_in_set_field_action_def
  ofu_push_set_arp_target_ipv4_addr_in_set_field_action_def ofu_push_set_arp_source_hw_addr_in_set_field_action_def
  ofu_push_set_arp_target_hw_addr_in_set_field_action_def

text \<open>The form all of them have, for a value of \<open>n\<close> bytes: \<open>8 + n\<close> bytes and a padding.\<close>

definition set_field_head :: "nat \<Rightarrow> u8 list \<Rightarrow> u8 list" where
  "set_field_head f v =
     be16 OFPAT_SET_FIELD @ be16 (of_nat (8 + length v + ROUND_UP (length v)))
     @ oxm_header_bytes f False (length v) @ v"

definition push_set_field :: "nat \<Rightarrow> u8 list \<Rightarrow> of_msg \<Rightarrow> msg_utilities \<times> of_msg" where
  "push_set_field f v msg =
     (if no_room (pos1 msg + (8 + length v)) msg then (OFU_NO_ROOM_IN_BUFFER, msg)
      else (OFU_ACTION_PUSH_SUCCESS,
            advance3 (8 + length v + ROUND_UP (length v))
              (poke (pos3 msg + (12 + length v)) (replicate (ROUND_UP (length v)) 0)
                (poke (pos3 msg) (set_field_head f v) msg))))"

lemma length_set_field_head [simp]: "length (set_field_head f v) = 8 + length v"
  by (simp add: set_field_head_def)

lemma exec_set_field_push:
  assumes "wf_set_field c"
  shows "exec_set_field c msg
    = push_set_field (fst (set_field_value c)) (snd (set_field_value c)) msg"
  using assms
  by (cases c) (simp_all add: wf_set_field_def set_field_defs push_set_field_def set_field_head_def
      msg_defs layout_simps poke_append ROUND_UP_def OF_SET_FIELD_ACTION_PADDING_LEN_def Let_def
      add.commute)

lemma set_field_value_bound:
  "wf_set_field c \<Longrightarrow> fst (set_field_value c) < 128 \<and> length (snd (set_field_value c)) \<le> 16"
  by (cases c) (simp_all add: wf_set_field_def)

end
