(* ===== verification/Wire.thy ===== *)
theory Wire
  imports Appender
begin

text \<open>
  Actions, instructions, bucket properties and meter bands share one wire format: a 16 bit type, a
  16 bit length that covers the whole element and is a multiple of eight, and a body.  The parser is
  the receiver's side and inverts the encoding.
\<close>

datatype wire_tlv = Wire (wire_type: u16) (wire_body: "u8 list")

fun wire_bytes :: "wire_tlv \<Rightarrow> u8 list" where
  "wire_bytes (Wire t body) = be16 t @ be16 (of_nat (4 + length body)) @ body"

fun wf_wire :: "wire_tlv \<Rightarrow> bool" where
  "wf_wire (Wire t body) \<longleftrightarrow> 8 dvd 4 + length body \<and> 4 + length body < 65536"

function wire_parse :: "u8 list \<Rightarrow> wire_tlv list option" where
  "wire_parse bs =
     (case bs of
        [] \<Rightarrow> Some []
      | t1 # t2 # l1 # l2 # rest \<Rightarrow>
          let len = unat (of_be [l1, l2] :: u16) in
          if 8 \<le> len \<and> 8 dvd len \<and> len - 4 \<le> length rest then
            map_option (\<lambda>ts. Wire (of_be [t1, t2]) (take (len - 4) rest) # ts)
              (wire_parse (drop (len - 4) rest))
          else None
      | _ \<Rightarrow> None)"
  by pat_completeness auto
termination by (relation "measure length") auto

declare wire_parse.simps [simp del]

lemma wire_parse_Nil [simp]: "wire_parse [] = Some []"
  by (subst wire_parse.simps) simp

lemma length_wire_bytes [simp]: "length (wire_bytes t) = 4 + length (wire_body t)"
  by (cases t) simp

lemma be16_Cons: "be16 w = [hd (be16 w), hd (tl (be16 w))]"
  by (simp add: be16_def)

lemma wire_parse_Cons:
  assumes "unat (of_be [l1, l2] :: u16) = 4 + length body" and "8 dvd 4 + length body"
  shows "wire_parse (t1 # t2 # l1 # l2 # body @ rest)
    = map_option (\<lambda>ts. Wire (of_be [t1, t2]) body # ts) (wire_parse rest)"
proof -
  have "8 \<le> 4 + length body" using dvd_imp_le [OF assms(2)] by simp
  then show ?thesis using assms by (subst wire_parse.simps) (simp add: Let_def)
qed

lemma wire_parse_bytes:
  assumes "wf_wire t"
  shows "wire_parse (wire_bytes t @ rest) = map_option (\<lambda>ts. t # ts) (wire_parse rest)"
proof (cases t)
  case (Wire ty body)
  let ?n = "4 + length body"
  obtain t1 t2 where ty: "be16 ty = [t1, t2]" by (metis be16_Cons)
  obtain l1 l2 where l: "be16 (of_nat ?n) = [l1, l2]" by (metis be16_Cons)
  have n: "8 dvd ?n" "?n < 65536" using assms Wire by simp_all
  then have "unat (of_be (be16 (of_nat ?n)) :: u16) = ?n" by (simp del: of_nat_add)
  then have "unat (of_be [l1, l2] :: u16) = ?n" unfolding l .
  moreover have "(of_be [t1, t2] :: u16) = ty" using of_be_be16 [of ty] ty by simp
  moreover have "wire_bytes t @ rest = t1 # t2 # l1 # l2 # body @ rest"
    unfolding Wire wire_bytes.simps ty l by simp
  ultimately show ?thesis
    using wire_parse_Cons [of l1 l2 body t1 t2 rest] n Wire by (metis wire_bytes.simps)
qed

lemma wire_parse_encoding:
  "\<forall>t \<in> set ts. wf_wire t \<Longrightarrow> wire_parse (encoding wire_bytes ts) = Some ts"
  by (induction ts) (simp_all add: wire_parse_bytes)

lemma wire_length: "wf_wire t \<Longrightarrow> 8 dvd length (wire_bytes t) \<and> 8 \<le> length (wire_bytes t)"
  by (cases t) (auto dest: dvd_imp_le)

lemma wire_encoding_aligned:
  "\<forall>t \<in> set ts. wf_wire t \<Longrightarrow> 8 dvd length (encoding wire_bytes ts)"
proof (induction ts)
  case (Cons t ts)
  then have "8 dvd length (wire_bytes t)" "8 dvd length (encoding wire_bytes ts)"
    using wire_length by auto
  then show ?case by (simp only: encoding_simps length_append dvd_add)
qed simp

end
