(* ===== verification/MatchFields.thy ===== *)
theory MatchFields
  imports MsgBuffer Oxm
begin

text \<open>
  The match-field routines of \<open>of_msg_utils.c\<close>: \<open>ofu_start_setting_match_field_values\<close> opens an
  \<open>ofp_match\<close>, forty setters append one OXM TLV each at \<open>ptr1 + length1\<close>, and
  \<open>ofu_end_setting_match_field_values\<close> closes the match and pads it.  Every setter is one definition
  here.  The abstract TLV of theory \<open>Oxm\<close> says what a setter promises; the setters
  refine it, as an interpretation of the appender contract.
\<close>

section \<open>The setters\<close>

definition of_set_in_port :: "u32 \<Rightarrow> of_msg \<Rightarrow> msg_utilities \<times> of_msg" where
  "of_set_in_port in_port_number msg =
     (if no_room (pos1 msg + OFU_IN_PORT_FIELD_LEN) msg then (OFU_NO_ROOM_IN_BUFFER, msg)
      else let
        msg = st32 (pos1 msg) OXM_OF_IN_PORT msg;
        msg = st32 (pos1 msg + OF_OXM_HDR_LEN) in_port_number msg;
        msg = advance1 OFU_IN_PORT_FIELD_LEN msg
      in (OFU_SET_FIELD_SUCCESS, msg))"

definition of_set_in_physical_port :: "u32 \<Rightarrow> of_msg \<Rightarrow> msg_utilities \<times> of_msg" where
  "of_set_in_physical_port in_phy_port_no msg =
     (if no_room (pos1 msg + OFU_IN_PHY_PORT_FIELD_LEN) msg then (OFU_NO_ROOM_IN_BUFFER, msg)
      else let
        msg = st32 (pos1 msg) OXM_OF_IN_PHY_PORT msg;
        msg = st32 (pos1 msg + OF_OXM_HDR_LEN) in_phy_port_no msg;
        msg = advance1 OFU_IN_PHY_PORT_FIELD_LEN msg
      in (OFU_SET_FIELD_SUCCESS, msg))"

definition of_set_protocol :: "u8 \<Rightarrow> of_msg \<Rightarrow> msg_utilities \<times> of_msg" where
  "of_set_protocol ip_protocol msg =
     (if no_room (pos1 msg + OFU_IP_PROTO_FIELD_LEN) msg then (OFU_NO_ROOM_IN_BUFFER, msg)
      else let
        msg = st32 (pos1 msg) OXM_OF_IP_PROTO msg;
        msg = st8 (pos1 msg + OF_OXM_HDR_LEN) ip_protocol msg;
        msg = advance1 OFU_IP_PROTO_FIELD_LEN msg
      in (OFU_SET_FIELD_SUCCESS, msg))"

definition of_set_ip_dscp_bits :: "u8 \<Rightarrow> of_msg \<Rightarrow> msg_utilities \<times> of_msg" where
  "of_set_ip_dscp_bits ip_dscp msg =
     (if no_room (pos1 msg + OFU_IP_DSCP_FIELD_LEN) msg then (OFU_NO_ROOM_IN_BUFFER, msg)
      else let
        msg = st32 (pos1 msg) OXM_OF_IP_DSCP msg;
        msg = st8 (pos1 msg + OF_OXM_HDR_LEN) ip_dscp msg;
        msg = advance1 OFU_IP_DSCP_FIELD_LEN msg
      in (OFU_SET_FIELD_SUCCESS, msg))"

definition of_set_ip_ecn_bits :: "u8 \<Rightarrow> of_msg \<Rightarrow> msg_utilities \<times> of_msg" where
  "of_set_ip_ecn_bits ip_ecn msg =
     (if no_room (pos1 msg + OFU_IP_ECN_FIELD_LEN) msg then (OFU_NO_ROOM_IN_BUFFER, msg)
      else let
        msg = st32 (pos1 msg) OXM_OF_IP_ECN msg;
        msg = st8 (pos1 msg + OF_OXM_HDR_LEN) ip_ecn msg;
        msg = advance1 OFU_IP_ECN_FIELD_LEN msg
      in (OFU_SET_FIELD_SUCCESS, msg))"

definition of_set_ether_type :: "u16 \<Rightarrow> of_msg \<Rightarrow> msg_utilities \<times> of_msg" where
  "of_set_ether_type ether_type msg =
     (if no_room (pos1 msg + OFU_ETH_TYPE_FIELD_LEN) msg then (OFU_NO_ROOM_IN_BUFFER, msg)
      else let
        msg = st32 (pos1 msg) OXM_OF_ETH_TYPE msg;
        msg = st16 (pos1 msg + OF_OXM_HDR_LEN) ether_type msg;
        msg = advance1 OFU_ETH_TYPE_FIELD_LEN msg
      in (OFU_SET_FIELD_SUCCESS, msg))"

definition of_set_arp_op_code :: "u16 \<Rightarrow> of_msg \<Rightarrow> msg_utilities \<times> of_msg" where
  "of_set_arp_op_code arp_op msg =
     (if no_room (pos1 msg + OFU_ARP_OP_FIELD_LEN) msg then (OFU_NO_ROOM_IN_BUFFER, msg)
      else let
        msg = st32 (pos1 msg) OXM_OF_ARP_OP msg;
        msg = st16 (pos1 msg + OF_OXM_HDR_LEN) arp_op msg;
        msg = advance1 OFU_ARP_OP_FIELD_LEN msg
      in (OFU_SET_FIELD_SUCCESS, msg))"

definition of_set_arp_source_ip_addr :: "u32 \<Rightarrow> u8 \<Rightarrow> u32 \<Rightarrow> of_msg \<Rightarrow> msg_utilities \<times> of_msg" where
  "of_set_arp_source_ip_addr ipv4_addr is_mask_set ipv4_addr_mask msg =
     (if is_mask_set \<noteq> 0 then
        if no_room (pos1 msg + OFU_ARP_SPA_MASK_LEN) msg then (OFU_NO_ROOM_IN_BUFFER, msg)
        else let
          msg = st32 (pos1 msg) OXM_OF_ARP_SPA_W msg;
          msg = st32 (pos1 msg + OF_OXM_HDR_LEN) ipv4_addr msg;
          msg = st32 (pos1 msg + 8) ipv4_addr_mask msg;
          msg = advance1 OFU_ARP_SPA_MASK_LEN msg
        in (OFU_SET_FIELD_SUCCESS, msg)
      else
        if no_room (pos1 msg + OFU_ARP_SPA_FIELD_LEN) msg then (OFU_NO_ROOM_IN_BUFFER, msg)
        else let
          msg = st32 (pos1 msg) OXM_OF_ARP_SPA msg;
          msg = st32 (pos1 msg + OF_OXM_HDR_LEN) ipv4_addr msg;
          msg = advance1 OFU_ARP_SPA_FIELD_LEN msg
        in (OFU_SET_FIELD_SUCCESS, msg))"

definition of_set_arp_target_ip_addr :: "u32 \<Rightarrow> u8 \<Rightarrow> u32 \<Rightarrow> of_msg \<Rightarrow> msg_utilities \<times> of_msg" where
  "of_set_arp_target_ip_addr ipv4_addr is_mask_set ipv4_addr_mask msg =
     (if is_mask_set \<noteq> 0 then
        if no_room (pos1 msg + OFU_ARP_TPA_MASK_LEN) msg then (OFU_NO_ROOM_IN_BUFFER, msg)
        else let
          msg = st32 (pos1 msg) OXM_OF_ARP_TPA_W msg;
          msg = st32 (pos1 msg + OF_OXM_HDR_LEN) ipv4_addr msg;
          msg = st32 (pos1 msg + 8) ipv4_addr_mask msg;
          msg = advance1 OFU_ARP_TPA_MASK_LEN msg
        in (OFU_SET_FIELD_SUCCESS, msg)
      else
        if no_room (pos1 msg + OFU_ARP_TPA_FIELD_LEN) msg then (OFU_NO_ROOM_IN_BUFFER, msg)
        else let
          msg = st32 (pos1 msg) OXM_OF_ARP_TPA msg;
          msg = st32 (pos1 msg + OF_OXM_HDR_LEN) ipv4_addr msg;
          msg = advance1 OFU_ARP_TPA_FIELD_LEN msg
        in (OFU_SET_FIELD_SUCCESS, msg))"

definition of_set_arp_source_hw_addr :: "u8 list \<Rightarrow> u8 \<Rightarrow> u8 list \<Rightarrow> of_msg \<Rightarrow> msg_utilities \<times> of_msg" where
  "of_set_arp_source_hw_addr hw_addr is_mask_set hw_addr_mask msg =
     (if is_mask_set \<noteq> 0 then
        if no_room (pos1 msg + OFU_ARP_SHA_MASK_LEN) msg then (OFU_NO_ROOM_IN_BUFFER, msg)
        else let
          msg = st32 (pos1 msg) OXM_OF_ARP_SHA_W msg;
          msg = memcpy (pos1 msg + OF_OXM_HDR_LEN) hw_addr 6 msg;
          msg = memcpy (pos1 msg + 10) hw_addr_mask 6 msg;
          msg = advance1 OFU_ARP_SHA_MASK_LEN msg
        in (OFU_SET_FIELD_SUCCESS, msg)
      else
        if no_room (pos1 msg + OFU_ARP_SHA_FIELD_LEN) msg then (OFU_NO_ROOM_IN_BUFFER, msg)
        else let
          msg = st32 (pos1 msg) OXM_OF_ARP_SHA msg;
          msg = memcpy (pos1 msg + OF_OXM_HDR_LEN) hw_addr 6 msg;
          msg = advance1 OFU_ARP_SHA_FIELD_LEN msg
        in (OFU_SET_FIELD_SUCCESS, msg))"

definition of_set_arp_target_hw_addr :: "u8 list \<Rightarrow> u8 \<Rightarrow> u8 list \<Rightarrow> of_msg \<Rightarrow> msg_utilities \<times> of_msg" where
  "of_set_arp_target_hw_addr hw_addr is_mask_set hw_addr_mask msg =
     (if is_mask_set \<noteq> 0 then
        if no_room (pos1 msg + OFU_ARP_DHA_MASK_LEN) msg then (OFU_NO_ROOM_IN_BUFFER, msg)
        else let
          msg = st32 (pos1 msg) OXM_OF_ARP_THA_W msg;
          msg = memcpy (pos1 msg + OF_OXM_HDR_LEN) hw_addr 6 msg;
          msg = memcpy (pos1 msg + 10) hw_addr_mask 6 msg;
          msg = advance1 OFU_ARP_DHA_MASK_LEN msg
        in (OFU_SET_FIELD_SUCCESS, msg)
      else
        if no_room (pos1 msg + OFU_ARP_DHA_FIELD_LEN) msg then (OFU_NO_ROOM_IN_BUFFER, msg)
        else let
          msg = st32 (pos1 msg) OXM_OF_ARP_THA msg;
          msg = memcpy (pos1 msg + OF_OXM_HDR_LEN) hw_addr 6 msg;
          msg = advance1 OFU_ARP_DHA_FIELD_LEN msg
        in (OFU_SET_FIELD_SUCCESS, msg))"

definition of_set_mpls_label :: "u32 \<Rightarrow> of_msg \<Rightarrow> msg_utilities \<times> of_msg" where
  "of_set_mpls_label mpls_label_val msg =
     (if no_room (pos1 msg + OFU_MPLS_LABEL_FIELD_LEN) msg then (OFU_NO_ROOM_IN_BUFFER, msg)
      else let
        msg = st32 (pos1 msg) OXM_OF_MPLS_LABEL msg;
        msg = st32 (pos1 msg + OF_OXM_HDR_LEN) mpls_label_val msg;
        msg = advance1 OFU_MPLS_LABEL_FIELD_LEN msg
      in (OFU_SET_FIELD_SUCCESS, msg))"

definition of_set_mpls_tc :: "u8 \<Rightarrow> of_msg \<Rightarrow> msg_utilities \<times> of_msg" where
  "of_set_mpls_tc mpls_tc_val msg =
     (if no_room (pos1 msg + OFU_MPLS_TC_FIELD_LEN) msg then (OFU_NO_ROOM_IN_BUFFER, msg)
      else let
        msg = st32 (pos1 msg) OXM_OF_MPLS_TC msg;
        msg = st8 (pos1 msg + OF_OXM_HDR_LEN) mpls_tc_val msg;
        msg = advance1 OFU_MPLS_TC_FIELD_LEN msg
      in (OFU_SET_FIELD_SUCCESS, msg))"

definition of_set_mpls_bos :: "u8 \<Rightarrow> of_msg \<Rightarrow> msg_utilities \<times> of_msg" where
  "of_set_mpls_bos mpls_bos_val msg =
     (if no_room (pos1 msg + OFU_MPLS_BOS_FIELD_LEN) msg then (OFU_NO_ROOM_IN_BUFFER, msg)
      else let
        msg = st32 (pos1 msg) OXM_OF_MPLS_BOS msg;
        msg = st8 (pos1 msg + OF_OXM_HDR_LEN) mpls_bos_val msg;
        msg = advance1 OFU_MPLS_BOS_FIELD_LEN msg
      in (OFU_SET_FIELD_SUCCESS, msg))"

definition of_set_pbb_i_sid :: "u8 \<Rightarrow> u8 \<Rightarrow> u8 \<Rightarrow> of_msg \<Rightarrow> msg_utilities \<times> of_msg" where
  "of_set_pbb_i_sid pbb_i_sid is_mask_set pbb_i_sid_mask msg =
     (if is_mask_set \<noteq> 0 then
        if no_room (pos1 msg + OFU_PBB_ISID_MASK_LEN) msg then (OFU_NO_ROOM_IN_BUFFER, msg)
        else let
          msg = st32 (pos1 msg) OXM_OF_PBB_ISID_W msg;
          msg = st8 (pos1 msg + OF_OXM_HDR_LEN) pbb_i_sid msg;
          msg = st8 (pos1 msg + 7) pbb_i_sid_mask msg;
          msg = advance1 OFU_PBB_ISID_MASK_LEN msg
        in (OFU_SET_FIELD_SUCCESS, msg)
      else
        if no_room (pos1 msg + OFU_PBB_ISID_FIELD_LEN) msg then (OFU_NO_ROOM_IN_BUFFER, msg)
        else let
          msg = st32 (pos1 msg) OXM_OF_PBB_ISID msg;
          msg = st8 (pos1 msg + OF_OXM_HDR_LEN) pbb_i_sid msg;
          msg = advance1 OFU_PBB_ISID_FIELD_LEN msg
        in (OFU_SET_FIELD_SUCCESS, msg))"

definition of_set_logical_port_meta_data :: "u64 \<Rightarrow> u8 \<Rightarrow> u64 \<Rightarrow> of_msg \<Rightarrow> msg_utilities \<times> of_msg" where
  "of_set_logical_port_meta_data tunnel_id is_mask_set tunnel_id_mask msg =
     (if is_mask_set \<noteq> 0 then
        if no_room (pos1 msg + OFU_TUNNEL_ID_MASK_LEN) msg then (OFU_NO_ROOM_IN_BUFFER, msg)
        else let
          msg = st32 (pos1 msg) OXM_OF_TUNNEL_ID_W msg;
          msg = st64 (pos1 msg + OF_OXM_HDR_LEN) tunnel_id msg;
          msg = st64 (pos1 msg + 12) tunnel_id_mask msg;
          msg = advance1 OFU_TUNNEL_ID_MASK_LEN msg
        in (OFU_SET_FIELD_SUCCESS, msg)
      else
        if no_room (pos1 msg + OFU_TUNNEL_ID_FIELD_LEN) msg then (OFU_NO_ROOM_IN_BUFFER, msg)
        else let
          msg = st32 (pos1 msg) OXM_OF_TUNNEL_ID msg;
          msg = st64 (pos1 msg + OF_OXM_HDR_LEN) tunnel_id msg;
          msg = advance1 OFU_TUNNEL_ID_FIELD_LEN msg
        in (OFU_SET_FIELD_SUCCESS, msg))"

definition of_set_vlan_id :: "u16 \<Rightarrow> u8 \<Rightarrow> u16 \<Rightarrow> of_msg \<Rightarrow> msg_utilities \<times> of_msg" where
  "of_set_vlan_id vlan_id is_mask_set vlan_id_mask msg =
     (if is_mask_set \<noteq> 0 then
        if no_room (pos1 msg + OFU_VLAN_VID_MASK_LEN) msg then (OFU_NO_ROOM_IN_BUFFER, msg)
        else let
          msg = st32 (pos1 msg) OXM_OF_VLAN_VID_W msg;
          msg = st16 (pos1 msg + OF_OXM_HDR_LEN) vlan_id msg;
          msg = st16 (pos1 msg + 6) vlan_id_mask msg;
          msg = advance1 OFU_VLAN_VID_MASK_LEN msg
        in (OFU_SET_FIELD_SUCCESS, msg)
      else
        if no_room (pos1 msg + OFU_VLAN_VID_FIELD_LEN) msg then (OFU_NO_ROOM_IN_BUFFER, msg)
        else let
          msg = st32 (pos1 msg) OXM_OF_VLAN_VID msg;
          msg = st16 (pos1 msg + OF_OXM_HDR_LEN) vlan_id msg;
          msg = advance1 OFU_VLAN_VID_FIELD_LEN msg
        in (OFU_SET_FIELD_SUCCESS, msg))"

definition of_set_vlan_priority_bits :: "u8 \<Rightarrow> of_msg \<Rightarrow> msg_utilities \<times> of_msg" where
  "of_set_vlan_priority_bits vlan_pcp msg =
     (if no_room (pos1 msg + OFU_VLAN_PCP_FIELD_LEN) msg then (OFU_NO_ROOM_IN_BUFFER, msg)
      else let
        msg = st32 (pos1 msg) OXM_OF_VLAN_PCP msg;
        msg = st8 (pos1 msg + OF_OXM_HDR_LEN) vlan_pcp msg;
        msg = advance1 OFU_VLAN_PCP_FIELD_LEN msg
      in (OFU_SET_FIELD_SUCCESS, msg))"

definition of_set_ipv4_source :: "u32 \<Rightarrow> u8 \<Rightarrow> u32 \<Rightarrow> of_msg \<Rightarrow> msg_utilities \<times> of_msg" where
  "of_set_ipv4_source ipv4_addr is_mask_set ipv4_addr_mask msg =
     (if is_mask_set \<noteq> 0 then
        if no_room (pos1 msg + OFU_IPV4_SRC_MASK_LEN) msg then (OFU_NO_ROOM_IN_BUFFER, msg)
        else let
          msg = st32 (pos1 msg) OXM_OF_IPV4_SRC_W msg;
          msg = st32 (pos1 msg + OF_OXM_HDR_LEN) ipv4_addr msg;
          msg = st32 (pos1 msg + 8) ipv4_addr_mask msg;
          msg = advance1 OFU_IPV4_SRC_MASK_LEN msg
        in (OFU_SET_FIELD_SUCCESS, msg)
      else
        if no_room (pos1 msg + OFU_IPV4_SRC_FIELD_LEN) msg then (OFU_NO_ROOM_IN_BUFFER, msg)
        else let
          msg = st32 (pos1 msg) OXM_OF_IPV4_SRC msg;
          msg = st32 (pos1 msg + OF_OXM_HDR_LEN) ipv4_addr msg;
          msg = advance1 OFU_IPV4_SRC_FIELD_LEN msg
        in (OFU_SET_FIELD_SUCCESS, msg))"

definition of_set_ipv6_source :: "u8 list \<Rightarrow> u8 \<Rightarrow> u8 list \<Rightarrow> of_msg \<Rightarrow> msg_utilities \<times> of_msg" where
  "of_set_ipv6_source ipv6_addr is_mask_set ipv6_addr_mask msg =
     (if is_mask_set \<noteq> 0 then
        if no_room (pos1 msg + OFU_IPV6_SRC_MASK_LEN) msg then (OFU_NO_ROOM_IN_BUFFER, msg)
        else let
          msg = st32 (pos1 msg) OXM_OF_IPV6_SRC_W msg;
          msg = memcpy (pos1 msg + OF_OXM_HDR_LEN) ipv6_addr 16 msg;
          msg = memcpy (pos1 msg + OFU_IPV6_SRC_FIELD_LEN) ipv6_addr_mask 16 msg;
          msg = advance1 OFU_IPV6_SRC_MASK_LEN msg
        in (OFU_SET_FIELD_SUCCESS, msg)
      else
        if no_room (pos1 msg + OFU_IPV6_SRC_FIELD_LEN) msg then (OFU_NO_ROOM_IN_BUFFER, msg)
        else let
          msg = st32 (pos1 msg) OXM_OF_IPV6_SRC msg;
          msg = memcpy (pos1 msg + OF_OXM_HDR_LEN) ipv6_addr 16 msg;
          msg = advance1 OFU_IPV6_SRC_FIELD_LEN msg
        in (OFU_SET_FIELD_SUCCESS, msg))"

definition of_set_ipv4_destination :: "u32 \<Rightarrow> u8 \<Rightarrow> u32 \<Rightarrow> of_msg \<Rightarrow> msg_utilities \<times> of_msg" where
  "of_set_ipv4_destination ipv4_addr is_mask_set ipv4_addr_mask msg =
     (if is_mask_set \<noteq> 0 then
        if no_room (pos1 msg + OFU_IPV4_DST_MASK_LEN) msg then (OFU_NO_ROOM_IN_BUFFER, msg)
        else let
          msg = st32 (pos1 msg) OXM_OF_IPV4_DST_W msg;
          msg = st32 (pos1 msg + OF_OXM_HDR_LEN) ipv4_addr msg;
          msg = st32 (pos1 msg + 8) ipv4_addr_mask msg;
          msg = advance1 OFU_IPV4_DST_MASK_LEN msg
        in (OFU_SET_FIELD_SUCCESS, msg)
      else
        if no_room (pos1 msg + OFU_IPV4_DST_FIELD_LEN) msg then (OFU_NO_ROOM_IN_BUFFER, msg)
        else let
          msg = st32 (pos1 msg) OXM_OF_IPV4_DST msg;
          msg = st32 (pos1 msg + OF_OXM_HDR_LEN) ipv4_addr msg;
          msg = advance1 OFU_IPV4_DST_FIELD_LEN msg
        in (OFU_SET_FIELD_SUCCESS, msg))"

definition of_set_ipv6_destination :: "u8 list \<Rightarrow> u8 \<Rightarrow> u8 list \<Rightarrow> of_msg \<Rightarrow> msg_utilities \<times> of_msg" where
  "of_set_ipv6_destination ipv6_addr is_mask_set ipv6_addr_mask msg =
     (if is_mask_set \<noteq> 0 then
        if no_room (pos1 msg + OFU_IPV6_DST_MASK_LEN) msg then (OFU_NO_ROOM_IN_BUFFER, msg)
        else let
          msg = st32 (pos1 msg) OXM_OF_IPV6_DST_W msg;
          msg = memcpy (pos1 msg + OF_OXM_HDR_LEN) ipv6_addr 16 msg;
          msg = memcpy (pos1 msg + OFU_IPV6_DST_FIELD_LEN) ipv6_addr_mask 16 msg;
          msg = advance1 OFU_IPV6_DST_MASK_LEN msg
        in (OFU_SET_FIELD_SUCCESS, msg)
      else
        if no_room (pos1 msg + OFU_IPV6_DST_FIELD_LEN) msg then (OFU_NO_ROOM_IN_BUFFER, msg)
        else let
          msg = st32 (pos1 msg) OXM_OF_IPV6_DST msg;
          msg = memcpy (pos1 msg + OF_OXM_HDR_LEN) ipv6_addr 16 msg;
          msg = advance1 OFU_IPV6_DST_FIELD_LEN msg
        in (OFU_SET_FIELD_SUCCESS, msg))"

definition of_set_ipv6_flow_label :: "u32 \<Rightarrow> u8 \<Rightarrow> u32 \<Rightarrow> of_msg \<Rightarrow> msg_utilities \<times> of_msg" where
  "of_set_ipv6_flow_label ipv6_flow_label is_mask_set v6_flow_label_mask msg =
     (if is_mask_set \<noteq> 0 then
        if no_room (pos1 msg + OFU_IPV6_FLABEL_MASK_LEN) msg then (OFU_NO_ROOM_IN_BUFFER, msg)
        else let
          msg = st32 (pos1 msg) OXM_OF_IPV6_FLABEL_W msg;
          msg = st32 (pos1 msg + OF_OXM_HDR_LEN) ipv6_flow_label msg;
          msg = st32 (pos1 msg + OFU_IPV6_FLABEL_FIELD_LEN) v6_flow_label_mask msg;
          msg = advance1 OFU_IPV6_FLABEL_MASK_LEN msg
        in (OFU_SET_FIELD_SUCCESS, msg)
      else
        if no_room (pos1 msg + OFU_IPV6_FLABEL_FIELD_LEN) msg then (OFU_NO_ROOM_IN_BUFFER, msg)
        else let
          msg = st32 (pos1 msg) OXM_OF_IPV6_FLABEL msg;
          msg = st32 (pos1 msg + OF_OXM_HDR_LEN) ipv6_flow_label msg;
          msg = advance1 OFU_IPV6_FLABEL_FIELD_LEN msg
        in (OFU_SET_FIELD_SUCCESS, msg))"

definition of_set_icmpv6_type :: "u8 \<Rightarrow> of_msg \<Rightarrow> msg_utilities \<times> of_msg" where
  "of_set_icmpv6_type icmpv6_type msg =
     (if no_room (pos1 msg + OFU_ICMPV6_TYPE_FIELD_LEN) msg then (OFU_NO_ROOM_IN_BUFFER, msg)
      else let
        msg = st32 (pos1 msg) OXM_OF_ICMPV6_TYPE msg;
        msg = st8 (pos1 msg + OF_OXM_HDR_LEN) icmpv6_type msg;
        msg = advance1 OFU_ICMPV6_TYPE_FIELD_LEN msg
      in (OFU_SET_FIELD_SUCCESS, msg))"

definition of_set_icmpv6_code :: "u8 \<Rightarrow> of_msg \<Rightarrow> msg_utilities \<times> of_msg" where
  "of_set_icmpv6_code icmpv6_code msg =
     (if no_room (pos1 msg + OFU_ICMPV6_CODE_FIELD_LEN) msg then (OFU_NO_ROOM_IN_BUFFER, msg)
      else let
        msg = st32 (pos1 msg) OXM_OF_ICMPV6_CODE msg;
        msg = st8 (pos1 msg + OF_OXM_HDR_LEN) icmpv6_code msg;
        msg = advance1 OFU_ICMPV6_CODE_FIELD_LEN msg
      in (OFU_SET_FIELD_SUCCESS, msg))"

definition of_set_ipv6_nd_target :: "u8 list \<Rightarrow> of_msg \<Rightarrow> msg_utilities \<times> of_msg" where
  "of_set_ipv6_nd_target nd_ipv6_target_addr msg =
     (if no_room (pos1 msg + OFU_IPV6_ND_TARGET_FIELD_LEN) msg then (OFU_NO_ROOM_IN_BUFFER, msg)
      else let
        msg = st32 (pos1 msg) OXM_OF_IPV6_ND_TARGET msg;
        msg = memcpy (pos1 msg + OF_OXM_HDR_LEN) nd_ipv6_target_addr 16 msg;
        msg = advance1 OFU_IPV6_ND_TARGET_FIELD_LEN msg
      in (OFU_SET_FIELD_SUCCESS, msg))"

definition of_set_ipv6_nd_source_hw_addr :: "u8 list \<Rightarrow> of_msg \<Rightarrow> msg_utilities \<times> of_msg" where
  "of_set_ipv6_nd_source_hw_addr hw_addr msg =
     (if no_room (pos1 msg + OFU_IPV6_ND_SLL_FIELD_LEN) msg then (OFU_NO_ROOM_IN_BUFFER, msg)
      else let
        msg = st32 (pos1 msg) OXM_OF_IPV6_ND_SLL msg;
        msg = memcpy (pos1 msg + OF_OXM_HDR_LEN) hw_addr 6 msg;
        msg = advance1 OFU_IPV6_ND_SLL_FIELD_LEN msg
      in (OFU_SET_FIELD_SUCCESS, msg))"

definition of_set_ipv6_nd_target_hw_addr :: "u8 list \<Rightarrow> of_msg \<Rightarrow> msg_utilities \<times> of_msg" where
  "of_set_ipv6_nd_target_hw_addr hw_addr msg =
     (if no_room (pos1 msg + OFU_IPV6_ND_DLL_FIELD_LEN) msg then (OFU_NO_ROOM_IN_BUFFER, msg)
      else let
        msg = st32 (pos1 msg) OXM_OF_IPV6_ND_TLL msg;
        msg = memcpy (pos1 msg + OF_OXM_HDR_LEN) hw_addr 6 msg;
        msg = advance1 OFU_IPV6_ND_DLL_FIELD_LEN msg
      in (OFU_SET_FIELD_SUCCESS, msg))"

definition of_set_source_mac :: "u8 list \<Rightarrow> u8 \<Rightarrow> u8 list \<Rightarrow> of_msg \<Rightarrow> msg_utilities \<times> of_msg" where
  "of_set_source_mac src_mac_addr is_mask_set src_mac_mask msg =
     (if is_mask_set \<noteq> 0 then
        if no_room (pos1 msg + OFU_ETH_SRC_MAC_ADDR_MASK_LEN) msg then (OFU_NO_ROOM_IN_BUFFER, msg)
        else let
          msg = st32 (pos1 msg) OXM_OF_ETH_SRC_W msg;
          msg = memcpy (pos1 msg + OF_OXM_HDR_LEN) src_mac_addr 6 msg;
          msg = memcpy (pos1 msg + 10) src_mac_mask 6 msg;
          msg = advance1 OFU_ETH_SRC_MAC_ADDR_MASK_LEN msg
        in (OFU_SET_FIELD_SUCCESS, msg)
      else
        if no_room (pos1 msg + OFU_ETH_SRC_MAC_ADDR_FIELD_LEN) msg then (OFU_NO_ROOM_IN_BUFFER, msg)
        else let
          msg = st32 (pos1 msg) OXM_OF_ETH_SRC msg;
          msg = memcpy (pos1 msg + OF_OXM_HDR_LEN) src_mac_addr 6 msg;
          msg = advance1 OFU_ETH_SRC_MAC_ADDR_FIELD_LEN msg
        in (OFU_SET_FIELD_SUCCESS, msg))"

definition of_set_destination_mac :: "u8 list \<Rightarrow> u8 \<Rightarrow> u8 list \<Rightarrow> of_msg \<Rightarrow> msg_utilities \<times> of_msg" where
  "of_set_destination_mac dst_mac_addr is_mask_set dst_mac_mask msg =
     (if is_mask_set \<noteq> 0 then
        if no_room (pos1 msg + OFU_ETH_DST_MAC_ADDR_MASK_LEN) msg then (OFU_NO_ROOM_IN_BUFFER, msg)
        else let
          msg = st32 (pos1 msg) OXM_OF_ETH_DST_W msg;
          msg = memcpy (pos1 msg + OF_OXM_HDR_LEN) dst_mac_addr 6 msg;
          msg = memcpy (pos1 msg + 10) dst_mac_mask 6 msg;
          msg = advance1 OFU_ETH_DST_MAC_ADDR_MASK_LEN msg
        in (OFU_SET_FIELD_SUCCESS, msg)
      else
        if no_room (pos1 msg + OFU_ETH_DST_MAC_ADDR_FIELD_LEN) msg then (OFU_NO_ROOM_IN_BUFFER, msg)
        else let
          msg = st32 (pos1 msg) OXM_OF_ETH_DST msg;
          msg = memcpy (pos1 msg + OF_OXM_HDR_LEN) dst_mac_addr 6 msg;
          msg = advance1 OFU_ETH_DST_MAC_ADDR_FIELD_LEN msg
        in (OFU_SET_FIELD_SUCCESS, msg))"

definition of_set_tcp_source_port :: "u16 \<Rightarrow> of_msg \<Rightarrow> msg_utilities \<times> of_msg" where
  "of_set_tcp_source_port port_number msg =
     (if no_room (pos1 msg + OFU_TCP_SRC_FIELD_LEN) msg then (OFU_NO_ROOM_IN_BUFFER, msg)
      else let
        msg = st32 (pos1 msg) OXM_OF_TCP_SRC msg;
        msg = st16 (pos1 msg + OF_OXM_HDR_LEN) port_number msg;
        msg = advance1 OFU_TCP_SRC_FIELD_LEN msg
      in (OFU_SET_FIELD_SUCCESS, msg))"

definition of_set_tcp_destination_port :: "u16 \<Rightarrow> of_msg \<Rightarrow> msg_utilities \<times> of_msg" where
  "of_set_tcp_destination_port port_number msg =
     (if no_room (pos1 msg + OFU_TCP_DST_FIELD_LEN) msg then (OFU_NO_ROOM_IN_BUFFER, msg)
      else let
        msg = st32 (pos1 msg) OXM_OF_TCP_DST msg;
        msg = st16 (pos1 msg + OF_OXM_HDR_LEN) port_number msg;
        msg = advance1 OFU_TCP_DST_FIELD_LEN msg
      in (OFU_SET_FIELD_SUCCESS, msg))"

definition of_set_sctp_source_port :: "u16 \<Rightarrow> of_msg \<Rightarrow> msg_utilities \<times> of_msg" where
  "of_set_sctp_source_port port_number msg =
     (if no_room (pos1 msg + OFU_SCTP_SRC_FIELD_LEN) msg then (OFU_NO_ROOM_IN_BUFFER, msg)
      else let
        msg = st32 (pos1 msg) OXM_OF_SCTP_SRC msg;
        msg = st16 (pos1 msg + OF_OXM_HDR_LEN) port_number msg;
        msg = advance1 OFU_SCTP_SRC_FIELD_LEN msg
      in (OFU_SET_FIELD_SUCCESS, msg))"

definition of_set_sctp_destination_port :: "u16 \<Rightarrow> of_msg \<Rightarrow> msg_utilities \<times> of_msg" where
  "of_set_sctp_destination_port port_number msg =
     (if no_room (pos1 msg + OFU_SCTP_DST_FIELD_LEN) msg then (OFU_NO_ROOM_IN_BUFFER, msg)
      else let
        msg = st32 (pos1 msg) OXM_OF_SCTP_DST msg;
        msg = st16 (pos1 msg + OF_OXM_HDR_LEN) port_number msg;
        msg = advance1 OFU_SCTP_DST_FIELD_LEN msg
      in (OFU_SET_FIELD_SUCCESS, msg))"

definition of_set_udp_source_port :: "u16 \<Rightarrow> of_msg \<Rightarrow> msg_utilities \<times> of_msg" where
  "of_set_udp_source_port port_number msg =
     (if no_room (pos1 msg + OFU_UDP_SRC_FIELD_LEN) msg then (OFU_NO_ROOM_IN_BUFFER, msg)
      else let
        msg = st32 (pos1 msg) OXM_OF_UDP_SRC msg;
        msg = st16 (pos1 msg + OF_OXM_HDR_LEN) port_number msg;
        msg = advance1 OFU_UDP_SRC_FIELD_LEN msg
      in (OFU_SET_FIELD_SUCCESS, msg))"

definition of_set_udp_destination_port :: "u16 \<Rightarrow> of_msg \<Rightarrow> msg_utilities \<times> of_msg" where
  "of_set_udp_destination_port port_number msg =
     (if no_room (pos1 msg + OFU_UDP_DST_FIELD_LEN) msg then (OFU_NO_ROOM_IN_BUFFER, msg)
      else let
        msg = st32 (pos1 msg) OXM_OF_UDP_DST msg;
        msg = st16 (pos1 msg + OF_OXM_HDR_LEN) port_number msg;
        msg = advance1 OFU_UDP_DST_FIELD_LEN msg
      in (OFU_SET_FIELD_SUCCESS, msg))"

definition of_set_icmpv4_type :: "u8 \<Rightarrow> of_msg \<Rightarrow> msg_utilities \<times> of_msg" where
  "of_set_icmpv4_type icmpv4_type msg =
     (if no_room (pos1 msg + OFU_ICMPV4_TYPE_FIELD_LEN) msg then (OFU_NO_ROOM_IN_BUFFER, msg)
      else let
        msg = st32 (pos1 msg) OXM_OF_ICMPV4_TYPE msg;
        msg = st8 (pos1 msg + OF_OXM_HDR_LEN) icmpv4_type msg;
        msg = advance1 OFU_ICMPV4_TYPE_FIELD_LEN msg
      in (OFU_SET_FIELD_SUCCESS, msg))"

definition of_set_icmpv4_code :: "u8 \<Rightarrow> of_msg \<Rightarrow> msg_utilities \<times> of_msg" where
  "of_set_icmpv4_code icmpv4_code msg =
     (if no_room (pos1 msg + OFU_ICMPV4_CODE_FIELD_LEN) msg then (OFU_NO_ROOM_IN_BUFFER, msg)
      else let
        msg = st32 (pos1 msg) OXM_OF_ICMPV4_CODE msg;
        msg = st8 (pos1 msg + OF_OXM_HDR_LEN) icmpv4_code msg;
        msg = advance1 OFU_ICMPV4_CODE_FIELD_LEN msg
      in (OFU_SET_FIELD_SUCCESS, msg))"

definition of_set_meta_data :: "u64 \<Rightarrow> u8 \<Rightarrow> u64 \<Rightarrow> of_msg \<Rightarrow> msg_utilities \<times> of_msg" where
  "of_set_meta_data meta_data is_mask_set meta_data_mask msg =
     (if is_mask_set \<noteq> 0 then
        if no_room (pos1 msg + OFU_META_DATA_MASK_LEN) msg then (OFU_NO_ROOM_IN_BUFFER, msg)
        else let
          msg = st32 (pos1 msg) OXM_OF_METADATA_W msg;
          msg = st64 (pos1 msg + OF_OXM_HDR_LEN) meta_data msg;
          msg = st64 (pos1 msg + 12) meta_data_mask msg;
          msg = advance1 OFU_META_DATA_MASK_LEN msg
        in (OFU_SET_FIELD_SUCCESS, msg)
      else
        if no_room (pos1 msg + OFU_META_DATA_FIELD_LEN) msg then (OFU_NO_ROOM_IN_BUFFER, msg)
        else let
          msg = st32 (pos1 msg) OXM_OF_METADATA msg;
          msg = st64 (pos1 msg + OF_OXM_HDR_LEN) meta_data msg;
          msg = advance1 OFU_META_DATA_FIELD_LEN msg
        in (OFU_SET_FIELD_SUCCESS, msg))"

definition of_set_ipv6_extension_hdr :: "u16 \<Rightarrow> u8 \<Rightarrow> u16 \<Rightarrow> of_msg \<Rightarrow> msg_utilities \<times> of_msg" where
  "of_set_ipv6_extension_hdr ipv6_ext_hdr_pseudo_fd is_mask_set ipv6_ext_hdr_pseudo_fd_mask msg =
     (if is_mask_set \<noteq> 0 then
        if no_room (pos1 msg + OFU_IPV6_EXTHDR_MASK_LEN) msg then (OFU_NO_ROOM_IN_BUFFER, msg)
        else let
          msg = st32 (pos1 msg) OXM_OF_IPV6_EXTHDR_W msg;
          msg = st16 (pos1 msg + OF_OXM_HDR_LEN) ipv6_ext_hdr_pseudo_fd msg;
          msg = st16 (pos1 msg + OFU_IPV6_EXTHDR_FIELD_LEN) ipv6_ext_hdr_pseudo_fd_mask msg;
          msg = advance1 OFU_IPV6_EXTHDR_MASK_LEN msg
        in (OFU_SET_FIELD_SUCCESS, msg)
      else
        if no_room (pos1 msg + OFU_IPV6_EXTHDR_FIELD_LEN) msg then (OFU_NO_ROOM_IN_BUFFER, msg)
        else let
          msg = st32 (pos1 msg) OXM_OF_IPV6_EXTHDR msg;
          msg = st16 (pos1 msg + OF_OXM_HDR_LEN) ipv6_ext_hdr_pseudo_fd msg;
          msg = advance1 OFU_IPV6_EXTHDR_FIELD_LEN msg
        in (OFU_SET_FIELD_SUCCESS, msg))"

section \<open>The calls as data\<close>

datatype (plugins only: code size) match_call =
    In_port u32
  | In_physical_port u32
  | Protocol u8
  | Ip_dscp_bits u8
  | Ip_ecn_bits u8
  | Ether_type u16
  | Arp_op_code u16
  | Arp_source_ip_addr u32 u8 u32
  | Arp_target_ip_addr u32 u8 u32
  | Arp_source_hw_addr "u8 list" u8 "u8 list"
  | Arp_target_hw_addr "u8 list" u8 "u8 list"
  | Mpls_label u32
  | Mpls_tc u8
  | Mpls_bos u8
  | Pbb_i_sid u8 u8 u8
  | Logical_port_meta_data u64 u8 u64
  | Vlan_id u16 u8 u16
  | Vlan_priority_bits u8
  | Ipv4_source u32 u8 u32
  | Ipv6_source "u8 list" u8 "u8 list"
  | Ipv4_destination u32 u8 u32
  | Ipv6_destination "u8 list" u8 "u8 list"
  | Ipv6_flow_label u32 u8 u32
  | Icmpv6_type u8
  | Icmpv6_code u8
  | Ipv6_nd_target "u8 list"
  | Ipv6_nd_source_hw_addr "u8 list"
  | Ipv6_nd_target_hw_addr "u8 list"
  | Source_mac "u8 list" u8 "u8 list"
  | Destination_mac "u8 list" u8 "u8 list"
  | Tcp_source_port u16
  | Tcp_destination_port u16
  | Sctp_source_port u16
  | Sctp_destination_port u16
  | Udp_source_port u16
  | Udp_destination_port u16
  | Icmpv4_type u8
  | Icmpv4_code u8
  | Meta_data u64 u8 u64
  | Ipv6_extension_hdr u16 u8 u16

primrec exec_match :: "match_call \<Rightarrow> of_msg \<Rightarrow> msg_utilities \<times> of_msg" where
  "exec_match (In_port v) = of_set_in_port v"
| "exec_match (In_physical_port v) = of_set_in_physical_port v"
| "exec_match (Protocol v) = of_set_protocol v"
| "exec_match (Ip_dscp_bits v) = of_set_ip_dscp_bits v"
| "exec_match (Ip_ecn_bits v) = of_set_ip_ecn_bits v"
| "exec_match (Ether_type v) = of_set_ether_type v"
| "exec_match (Arp_op_code v) = of_set_arp_op_code v"
| "exec_match (Arp_source_ip_addr v m k) = of_set_arp_source_ip_addr v m k"
| "exec_match (Arp_target_ip_addr v m k) = of_set_arp_target_ip_addr v m k"
| "exec_match (Arp_source_hw_addr v m k) = of_set_arp_source_hw_addr v m k"
| "exec_match (Arp_target_hw_addr v m k) = of_set_arp_target_hw_addr v m k"
| "exec_match (Mpls_label v) = of_set_mpls_label v"
| "exec_match (Mpls_tc v) = of_set_mpls_tc v"
| "exec_match (Mpls_bos v) = of_set_mpls_bos v"
| "exec_match (Pbb_i_sid v m k) = of_set_pbb_i_sid v m k"
| "exec_match (Logical_port_meta_data v m k) = of_set_logical_port_meta_data v m k"
| "exec_match (Vlan_id v m k) = of_set_vlan_id v m k"
| "exec_match (Vlan_priority_bits v) = of_set_vlan_priority_bits v"
| "exec_match (Ipv4_source v m k) = of_set_ipv4_source v m k"
| "exec_match (Ipv6_source v m k) = of_set_ipv6_source v m k"
| "exec_match (Ipv4_destination v m k) = of_set_ipv4_destination v m k"
| "exec_match (Ipv6_destination v m k) = of_set_ipv6_destination v m k"
| "exec_match (Ipv6_flow_label v m k) = of_set_ipv6_flow_label v m k"
| "exec_match (Icmpv6_type v) = of_set_icmpv6_type v"
| "exec_match (Icmpv6_code v) = of_set_icmpv6_code v"
| "exec_match (Ipv6_nd_target v) = of_set_ipv6_nd_target v"
| "exec_match (Ipv6_nd_source_hw_addr v) = of_set_ipv6_nd_source_hw_addr v"
| "exec_match (Ipv6_nd_target_hw_addr v) = of_set_ipv6_nd_target_hw_addr v"
| "exec_match (Source_mac v m k) = of_set_source_mac v m k"
| "exec_match (Destination_mac v m k) = of_set_destination_mac v m k"
| "exec_match (Tcp_source_port v) = of_set_tcp_source_port v"
| "exec_match (Tcp_destination_port v) = of_set_tcp_destination_port v"
| "exec_match (Sctp_source_port v) = of_set_sctp_source_port v"
| "exec_match (Sctp_destination_port v) = of_set_sctp_destination_port v"
| "exec_match (Udp_source_port v) = of_set_udp_source_port v"
| "exec_match (Udp_destination_port v) = of_set_udp_destination_port v"
| "exec_match (Icmpv4_type v) = of_set_icmpv4_type v"
| "exec_match (Icmpv4_code v) = of_set_icmpv4_code v"
| "exec_match (Meta_data v m k) = of_set_meta_data v m k"
| "exec_match (Ipv6_extension_hdr v m k) = of_set_ipv6_extension_hdr v m k"

section \<open>What the calls promise\<close>

text \<open>A nonzero \<open>is_mask_set\<close> adds the mask.\<close>

primrec match_oxm :: "match_call \<Rightarrow> oxm" where
  "match_oxm (In_port v) =
     Oxm 0 (be32 v) None"
| "match_oxm (In_physical_port v) =
     Oxm 1 (be32 v) None"
| "match_oxm (Protocol v) =
     Oxm 10 [v] None"
| "match_oxm (Ip_dscp_bits v) =
     Oxm 8 [v] None"
| "match_oxm (Ip_ecn_bits v) =
     Oxm 9 [v] None"
| "match_oxm (Ether_type v) =
     Oxm 5 (be16 v) None"
| "match_oxm (Arp_op_code v) =
     Oxm 21 (be16 v) None"
| "match_oxm (Arp_source_ip_addr v m k) =
     Oxm 22 (be32 v) (if m \<noteq> 0 then Some (be32 k) else None)"
| "match_oxm (Arp_target_ip_addr v m k) =
     Oxm 23 (be32 v) (if m \<noteq> 0 then Some (be32 k) else None)"
| "match_oxm (Arp_source_hw_addr v m k) =
     Oxm 24 v (if m \<noteq> 0 then Some k else None)"
| "match_oxm (Arp_target_hw_addr v m k) =
     Oxm 25 v (if m \<noteq> 0 then Some k else None)"
| "match_oxm (Mpls_label v) =
     Oxm 34 (be32 v) None"
| "match_oxm (Mpls_tc v) =
     Oxm 35 [v] None"
| "match_oxm (Mpls_bos v) =
     Oxm 36 [v] None"
| "match_oxm (Pbb_i_sid v m k) =
     Oxm 37 [v] (if m \<noteq> 0 then Some [k] else None)"
| "match_oxm (Logical_port_meta_data v m k) =
     Oxm 38 (be64 v) (if m \<noteq> 0 then Some (be64 k) else None)"
| "match_oxm (Vlan_id v m k) =
     Oxm 6 (be16 v) (if m \<noteq> 0 then Some (be16 k) else None)"
| "match_oxm (Vlan_priority_bits v) =
     Oxm 7 [v] None"
| "match_oxm (Ipv4_source v m k) =
     Oxm 11 (be32 v) (if m \<noteq> 0 then Some (be32 k) else None)"
| "match_oxm (Ipv6_source v m k) =
     Oxm 26 v (if m \<noteq> 0 then Some k else None)"
| "match_oxm (Ipv4_destination v m k) =
     Oxm 12 (be32 v) (if m \<noteq> 0 then Some (be32 k) else None)"
| "match_oxm (Ipv6_destination v m k) =
     Oxm 27 v (if m \<noteq> 0 then Some k else None)"
| "match_oxm (Ipv6_flow_label v m k) =
     Oxm 28 (be32 v) (if m \<noteq> 0 then Some (be32 k) else None)"
| "match_oxm (Icmpv6_type v) =
     Oxm 29 [v] None"
| "match_oxm (Icmpv6_code v) =
     Oxm 30 [v] None"
| "match_oxm (Ipv6_nd_target v) =
     Oxm 31 v None"
| "match_oxm (Ipv6_nd_source_hw_addr v) =
     Oxm 32 v None"
| "match_oxm (Ipv6_nd_target_hw_addr v) =
     Oxm 33 v None"
| "match_oxm (Source_mac v m k) =
     Oxm 4 v (if m \<noteq> 0 then Some k else None)"
| "match_oxm (Destination_mac v m k) =
     Oxm 3 v (if m \<noteq> 0 then Some k else None)"
| "match_oxm (Tcp_source_port v) =
     Oxm 13 (be16 v) None"
| "match_oxm (Tcp_destination_port v) =
     Oxm 14 (be16 v) None"
| "match_oxm (Sctp_source_port v) =
     Oxm 17 (be16 v) None"
| "match_oxm (Sctp_destination_port v) =
     Oxm 18 (be16 v) None"
| "match_oxm (Udp_source_port v) =
     Oxm 15 (be16 v) None"
| "match_oxm (Udp_destination_port v) =
     Oxm 16 (be16 v) None"
| "match_oxm (Icmpv4_type v) =
     Oxm 19 [v] None"
| "match_oxm (Icmpv4_code v) =
     Oxm 20 [v] None"
| "match_oxm (Meta_data v m k) =
     Oxm 2 (be64 v) (if m \<noteq> 0 then Some (be64 k) else None)"
| "match_oxm (Ipv6_extension_hdr v m k) =
     Oxm 39 (be16 v) (if m \<noteq> 0 then Some (be16 k) else None)"

text \<open>
  The calls whose encoding the code gets right: the addresses have their length (6 and 16 bytes,
  also the mask when there is one), and the call is not one of the three the code gets wrong, the
  masked VLAN id, the masked tunnel id and the PBB I-SID.
\<close>

definition wf_match :: "match_call \<Rightarrow> bool" where
  "wf_match call \<longleftrightarrow> (case call of
       Arp_source_hw_addr v m k \<Rightarrow> length v = 6 \<and> (m \<noteq> 0 \<longrightarrow> length k = 6)
     | Arp_target_hw_addr v m k \<Rightarrow> length v = 6 \<and> (m \<noteq> 0 \<longrightarrow> length k = 6)
     | Pbb_i_sid v m k \<Rightarrow> False
     | Logical_port_meta_data v m k \<Rightarrow> m = 0
     | Vlan_id v m k \<Rightarrow> m = 0
     | Ipv6_source v m k \<Rightarrow> length v = 16 \<and> (m \<noteq> 0 \<longrightarrow> length k = 16)
     | Ipv6_destination v m k \<Rightarrow> length v = 16 \<and> (m \<noteq> 0 \<longrightarrow> length k = 16)
     | Ipv6_nd_target v \<Rightarrow> length v = 16
     | Ipv6_nd_source_hw_addr v \<Rightarrow> length v = 6
     | Ipv6_nd_target_hw_addr v \<Rightarrow> length v = 6
     | Source_mac v m k \<Rightarrow> length v = 6 \<and> (m \<noteq> 0 \<longrightarrow> length k = 6)
     | Destination_mac v m k \<Rightarrow> length v = 6 \<and> (m \<noteq> 0 \<longrightarrow> length k = 6)
     | _ \<Rightarrow> True)"

text \<open>The form every setter has: check the room, write at the cursor, advance.\<close>

definition append_field :: "u8 list \<Rightarrow> of_msg \<Rightarrow> msg_utilities \<times> of_msg" where
  "append_field bs msg =
     (if no_room (pos1 msg + length bs) msg then (OFU_NO_ROOM_IN_BUFFER, msg)
      else (OFU_SET_FIELD_SUCCESS, advance1 (length bs) (poke (pos1 msg) bs msg)))"

lemmas setter_defs =
  of_set_in_port_def of_set_in_physical_port_def of_set_protocol_def
  of_set_ip_dscp_bits_def of_set_ip_ecn_bits_def of_set_ether_type_def
  of_set_arp_op_code_def of_set_arp_source_ip_addr_def of_set_arp_target_ip_addr_def
  of_set_arp_source_hw_addr_def of_set_arp_target_hw_addr_def of_set_mpls_label_def
  of_set_mpls_tc_def of_set_mpls_bos_def of_set_pbb_i_sid_def
  of_set_logical_port_meta_data_def of_set_vlan_id_def of_set_vlan_priority_bits_def
  of_set_ipv4_source_def of_set_ipv6_source_def of_set_ipv4_destination_def
  of_set_ipv6_destination_def of_set_ipv6_flow_label_def of_set_icmpv6_type_def
  of_set_icmpv6_code_def of_set_ipv6_nd_target_def of_set_ipv6_nd_source_hw_addr_def
  of_set_ipv6_nd_target_hw_addr_def of_set_source_mac_def of_set_destination_mac_def
  of_set_tcp_source_port_def of_set_tcp_destination_port_def of_set_sctp_source_port_def
  of_set_sctp_destination_port_def of_set_udp_source_port_def of_set_udp_destination_port_def
  of_set_icmpv4_type_def of_set_icmpv4_code_def of_set_meta_data_def
  of_set_ipv6_extension_hdr_def

lemma exec_match_append:
  assumes "wf_match c"
  shows "exec_match c msg = append_field (oxm_bytes (match_oxm c)) msg"
  using assms
  by (cases c) (simp_all add: wf_match_def setter_defs append_field_def msg_defs layout_simps poke_append)
section \<open>Opening and closing the match\<close>

definition ofu_start_setting_match_field_values :: "of_msg \<Rightarrow> of_msg" where
  "ofu_start_setting_match_field_values msg =
     (let match = utils_ptr msg;
          msg = st16 match OFPMT_OXM msg;
          msg = st16_host (match + 2) 4 msg;
          msg = msg\<lparr>ptr1 := match + 4\<rparr>;
          msg = msg\<lparr>length1 := 0\<rparr>
      in msg\<lparr>utils_length := ld16_host (match + 2) msg\<rparr>)"

definition ofu_end_setting_match_field_values :: "of_msg \<Rightarrow> u16 \<times> of_msg" where
  "ofu_end_setting_match_field_values msg =
     (let match = utils_ptr msg;
          msg = msg\<lparr>utils_length := utils_length msg + (length1 msg + 4)\<rparr>;
          match_len = length1 msg + ld16_host (match + 2) msg;
          msg = st16 (match + 2) match_len msg;
          roundup_bytes = ROUND_UP (unat match_len);
          msg = memset_0 (match + 4 + unat (length1 msg)) roundup_bytes msg;
          msg = advance1 roundup_bytes msg;
          msg = msg\<lparr>data_len := data_len msg + length1 msg\<rparr>
      in (length1 msg, msg))"

lemma wf_match_oxm: "wf_match c \<Longrightarrow> wf_oxm (match_oxm c)"
  by (cases c) (simp_all add: wf_match_def)

section \<open>The setters keep the appender contract\<close>

definition match_step :: "match_call \<Rightarrow> of_msg \<Rightarrow> bool \<times> of_msg" where
  "match_step c msg = accepted (exec_match c msg)"

definition match_enc :: "match_call \<Rightarrow> u8 list" where
  "match_enc c = oxm_bytes (match_oxm c)"

text \<open>
  Setters leave everything but \<open>length1\<close> and the memory alone, stay inside the buffer, and touch no
  byte ahead of the write position.
\<close>

definition same_but1 :: "of_msg \<Rightarrow> of_msg \<Rightarrow> bool" where
  "same_but1 s0 msg \<longleftrightarrow> msg = s0\<lparr>length1 := length1 msg, mem := mem msg\<rparr>"

definition match_inv :: "of_msg \<Rightarrow> of_msg \<Rightarrow> bool" where
  "match_inv s0 msg \<longleftrightarrow> start_of_data msg \<le> ptr1 msg \<and> pos1 msg \<le> buf_end msg
     \<and> (\<forall>x. pos1 msg \<le> x \<longrightarrow> mem msg x = mem s0 x) \<and> same_but1 s0 msg"

lemma match_inv_refl [intro]:
  "start_of_data msg \<le> ptr1 msg \<Longrightarrow> pos1 msg \<le> buf_end msg \<Longrightarrow> match_inv msg msg"
  by (simp add: match_inv_def same_but1_def)

lemma same_but1_fields:
  assumes "same_but1 s0 msg"
  shows "utils_ptr msg = utils_ptr s0" "ptr1 msg = ptr1 s0" "buf_end msg = buf_end s0"
    "start_of_data msg = start_of_data s0" "data_len msg = data_len s0"
    "utils_length msg = utils_length s0" "ptr2 msg = ptr2 s0" "length2 msg = length2 s0"
    "ptr3 msg = ptr3 s0" "length3 msg = length3 s0"
  using assms unfolding same_but1_def buf_end_def by (cases msg, cases s0, simp)+

lemma same_but1_step:
  assumes "same_but1 s0 msg"
  shows "same_but1 s0 (advance1 n (poke a bs msg))"
  using assms unfolding same_but1_def by (cases msg, cases s0) (simp add: advance1_def poke_def)

lemma advance1_fields [simp]:
  "mem (advance1 n msg) = mem msg" "ptr1 (advance1 n msg) = ptr1 msg"
  "start_of_data (advance1 n msg) = start_of_data msg" "buf_end (advance1 n msg) = buf_end msg"
  "length1 (advance1 n msg) = length1 msg + of_nat n"
  by (simp_all add: advance1_def buf_end_def)

lemma pos1_advance1:
  assumes "start_of_data msg \<le> ptr1 msg" and "pos1 msg + n \<le> buf_end msg"
  shows "pos1 (advance1 n msg) = pos1 msg + n"
proof -
  have "unat (length1 msg) + n \<le> unat (buffer_len msg)"
    using assms by (simp add: pos1_def buf_end_def)
  then have "unat (length1 msg) + n < 65536" using unat_u16_less [of "buffer_len msg"] by simp
  then show ?thesis using unat_plus_of_nat [of "length1 msg" n] by (simp add: pos1_def)
qed

lemma match_step_append:
  assumes "wf_match c"
  shows "match_step c msg =
    (if pos1 msg + length (match_enc c) \<le> buf_end msg
     then (True, advance1 (length (match_enc c)) (poke (pos1 msg) (match_enc c) msg))
     else (False, msg))"
  using exec_match_append [OF assms, of msg]
  by (auto simp: match_step_def match_enc_def accepted_def append_field_def no_room_def)

lemma match_inv_step:
  assumes "match_inv s0 msg" and "pos1 msg + length bs \<le> buf_end msg"
  shows "match_inv s0 (advance1 (length bs) (poke (pos1 msg) bs msg))"
  using assms pos1_advance1 [of "poke (pos1 msg) bs msg" "length bs"]
  by (simp add: match_inv_def same_but1_step write_bytes_outside)

interpretation mf: bounded_appender match_step pos1 buf_end mem match_enc "match_inv s0"
  "\<lambda>c s. wf_match c" wf_match 0 for s0
proof
  fix s c s'
  assume inv: "match_inv s0 s" and wf: "wf_match c" and st: "match_step c s = (True, s')"
  then have fits: "pos1 s + length (match_enc c) \<le> buf_end s"
    and s': "s' = advance1 (length (match_enc c)) (poke (pos1 s) (match_enc c) s)"
    by (simp_all add: match_step_append split: if_splits)
  show "match_inv s0 s'" using match_inv_step [OF inv fits] s' by simp
  show "pos1 s' = pos1 s + length (match_enc c)"
    using pos1_advance1 [of "poke (pos1 s) (match_enc c) s"] inv fits s' by (simp add: match_inv_def)
  show "buf_end s' = buf_end s" using s' by simp
  show "appended (pos1 s) (buf_end s) (match_enc c) (mem s) (mem s')"
    using s' fits by (simp add: appended_write)
qed (auto simp: match_step_append match_inv_def split: if_splits)

section \<open>Properties of the setters\<close>

lemma match_encoding: "encoding match_enc cs = encoding oxm_bytes (map match_oxm cs)"
  by (induction cs) (simp_all add: match_enc_def)

lemma match_encoding_parse:
  "\<forall>c \<in> set cs. wf_match c \<Longrightarrow> oxm_parse (encoding match_enc cs) = Some (map match_oxm cs)"
  unfolding match_encoding by (rule oxm_parse_encoding) (auto intro: wf_match_oxm)

lemma match_run_layout:
  assumes "start_of_data msg \<le> ptr1 msg" and "pos1 msg \<le> buf_end msg"
    and "\<forall>c \<in> set cs. wf_match c" and "run_calls match_step cs msg = (acc, msg')"
  shows "match_inv msg msg'" and "pos1 msg' = pos1 msg + length (encoding match_enc acc)"
    and "appended (pos1 msg) (buf_end msg) (encoding match_enc acc) (mem msg) (mem msg')"
    and "\<forall>c \<in> set acc. wf_match c"
  using mf.run_layout [OF match_inv_refl [OF assms(1,2)] all_ok_const [OF assms(3)] assms(4)]
    run_subset [OF assms(4)] assms(3) by auto

text \<open>
  C4. A sequence of setter calls that are well formed (\<open>wf_match\<close>: addresses of the right length,
  no PBB I-SID, and no mask for a VLAN id or a tunnel id) writes exactly the TLVs of the calls that were
  accepted: what a receiver parses between the old and the new write position is their list, in call
  order, the write position stays inside the buffer, no other byte of memory is changed, and no field of
  the descriptor but \<open>length1\<close> is.  The three calls left out are encoded wrongly (theorems
  \<open>pbb_isid_one_byte\<close>, \<open>masked_vlan_truncated\<close>, \<open>masked_tunnel_overflow\<close>).
\<close>

theorem match_calls_parse:
  assumes "start_of_data msg \<le> ptr1 msg" and "pos1 msg \<le> buf_end msg"
    and "\<forall>c \<in> set cs. wf_match c" and "run_calls match_step cs msg = (acc, msg')"
  shows "oxm_parse (read_bytes (pos1 msg) (pos1 msg' - pos1 msg) (mem msg')) = Some (map match_oxm acc)
    \<and> pos1 msg' \<le> buf_end msg
    \<and> (\<forall>x. x < pos1 msg \<or> pos1 msg' \<le> x \<longrightarrow> mem msg' x = mem msg x)
    \<and> same_but1 msg msg'"
proof -
  note run = match_run_layout [OF assms]
  have "buf_end msg' = buf_end msg"
    using run(1) by (simp add: match_inv_def same_but1_fields)
  then show ?thesis
    using run match_encoding_parse [OF run(4)] by (auto simp: appended_def match_inv_def)
qed

definition sample_msg :: of_msg where
  "sample_msg = \<lparr>msg_type = 14, buffer_len = 128, start_of_buffer = 1000, start_of_data = 1000,
     data_len = 52, utils_ptr = 1048, utils_length = 0, ptr1 = 1052, length1 = 0, ptr2 = 0,
     length2 = 0, ptr3 = 0, length3 = 0, mem = (\<lambda>_. 0)\<rparr>"

definition sample_calls :: "match_call list" where
  "sample_calls = [In_port 7, Ipv4_source 0x0a000001 1 0xffffff00, Ip_ecn_bits 2]"

lemma sample_calls_wf: "\<forall>c \<in> set sample_calls. wf_match c"
  by (simp add: sample_calls_def wf_match_def)

lemma sample_msg_simps [simp]:
  "start_of_data sample_msg = 1000" "ptr1 sample_msg = 1052" "pos1 sample_msg = 1052"
  "buf_end sample_msg = 1128" "utils_ptr sample_msg = 1048"
  by (simp_all add: sample_msg_def pos1_def buf_end_def)

lemma sample_run: 
  "fst (run_calls match_step sample_calls sample_msg) = sample_calls"
  "length (encoding match_enc sample_calls) = 25"
proof -
  show len: "length (encoding match_enc sample_calls) = 25"
    by (simp add: sample_calls_def match_enc_def)
  show "fst (run_calls match_step sample_calls sample_msg) = sample_calls"
    using mf.run_all_ok [of sample_msg sample_msg sample_calls] sample_calls_wf len by (simp add: match_inv_refl)
qed

lemma match_calls_parse_witness:
  "oxm_parse (read_bytes 1052 25 (mem (snd (run_calls match_step sample_calls sample_msg))))
     = Some [Oxm 0 [0, 0, 0, 7] None, Oxm 11 [10, 0, 0, 1] (Some [255, 255, 255, 0]), Oxm 9 [2] None]"
proof -
  let ?r = "run_calls match_step sample_calls sample_msg"
  have run: "run_calls match_step sample_calls sample_msg = (sample_calls, snd ?r)"
    using sample_run(1) by (cases ?r) simp
  have "pos1 (snd ?r) = 1077"
    using match_run_layout(2) [OF _ _ sample_calls_wf run] sample_run(2) by simp
  moreover have "map match_oxm sample_calls = [Oxm 0 [0, 0, 0, 7] None,
      Oxm 11 [10, 0, 0, 1] (Some [255, 255, 255, 0]), Oxm 9 [2] None]"
    by (simp add: sample_calls_def be32_def)
  ultimately show ?thesis
    using match_calls_parse [OF _ _ sample_calls_wf run] by simp
qed

text \<open>
  A setter call is rejected exactly when its TLV does not fit between the
  write position and the end of the buffer; a rejected call changes nothing, an accepted one moves
  the write position past its TLV.
\<close>

theorem match_call_rejected:
  assumes "wf_match c" and "start_of_data msg \<le> ptr1 msg"
  shows "if pos1 msg + length (match_enc c) \<le> buf_end msg
    then fst (exec_match c msg) = OFU_SET_FIELD_SUCCESS
         \<and> pos1 (snd (exec_match c msg)) = pos1 msg + length (match_enc c)
    else exec_match c msg = (OFU_NO_ROOM_IN_BUFFER, msg)"
  using exec_match_append [OF assms(1), of msg] assms(2)
    pos1_advance1 [of "poke (pos1 msg) (match_enc c) msg" "length (match_enc c)"]
  by (simp add: append_field_def no_room_def match_enc_def)

lemma match_call_rejected_witness:
  "exec_match (Ipv6_source (replicate 16 1) 0 []) (sample_msg\<lparr>length1 := 70\<rparr>)
     = (OFU_NO_ROOM_IN_BUFFER, sample_msg\<lparr>length1 := 70\<rparr>)"
  using match_call_rejected [of "Ipv6_source (replicate 16 1) 0 []" "sample_msg\<lparr>length1 := 70\<rparr>"]
  by (simp add: wf_match_def match_enc_def sample_msg_def buf_end_def pos1_def)

section \<open>The closed match\<close>

text \<open>
  The receiver's reading of an \<open>ofp_match\<close>: type, length without the padding, the TLVs, and zero
  bytes up to a multiple of eight.
\<close>

definition ofp_match_parse :: "u8 list \<Rightarrow> oxm list option" where
  "ofp_match_parse bs =
     (let len = unat (of_be (take 2 (drop 2 bs)) :: u16) in
      if take 2 bs = be16 OFPMT_OXM \<and> 4 \<le> len \<and> length bs = len + ROUND_UP len
         \<and> drop len bs = replicate (ROUND_UP len) 0
      then oxm_parse (drop 4 (take len bs))
      else None)"

lemma ofp_match_parse_bytes:
  assumes "length tlvs + 4 < 65536"
  shows "ofp_match_parse (be16 OFPMT_OXM @ be16 (of_nat (length tlvs + 4)) @ tlvs
           @ replicate (ROUND_UP (length tlvs + 4)) 0) = oxm_parse tlvs"
  using assms by (simp add: ofp_match_parse_def del: of_nat_add) 

lemma end_setting_match:
  assumes "ld16_host (utils_ptr msg + 2) msg = 4" and "unat (length1 msg) + 4 < 65536"
  defines "n \<equiv> unat (length1 msg)" and "r \<equiv> ROUND_UP (unat (length1 msg) + 4)"
  shows "ofu_end_setting_match_field_values msg =
    (of_nat (n + r),
     msg\<lparr>utils_length := utils_length msg + of_nat (n + 4), length1 := of_nat (n + r),
         data_len := data_len msg + of_nat (n + r),
         mem := write_bytes (utils_ptr msg + 4 + n) (replicate r 0)
                  (write_bytes (utils_ptr msg + 2) (be16 (of_nat (n + 4))) (mem msg))\<rparr>)"
proof -
  have ml: "length1 msg + 4 = of_nat (n + 4)" by (simp add: n_def)
  have "unat (length1 msg + 4) = n + 4"
    unfolding ml using assms(2) by (simp add: n_def del: of_nat_add)
  then show ?thesis
    unfolding ofu_end_setting_match_field_values_def
    by (simp add: assms(1) [unfolded ld16_host_def] msg_defs poke_def advance1_def ld16_host_def
        Let_def n_def r_def)
qed

lemma start_setting_match:
  "start_of_data (ofu_start_setting_match_field_values msg) = start_of_data msg"
  "ptr1 (ofu_start_setting_match_field_values msg) = utils_ptr msg + 4"
  "length1 (ofu_start_setting_match_field_values msg) = 0"
  "pos1 (ofu_start_setting_match_field_values msg) = utils_ptr msg + 4"
  "buf_end (ofu_start_setting_match_field_values msg) = buf_end msg"
  "utils_ptr (ofu_start_setting_match_field_values msg) = utils_ptr msg"
  "data_len (ofu_start_setting_match_field_values msg) = data_len msg"
  "mem (ofu_start_setting_match_field_values msg)
     = write_bytes (utils_ptr msg) (be16 OFPMT_OXM @ rev (be16 4)) (mem msg)"
  by (simp_all add: ofu_start_setting_match_field_values_def Let_def msg_defs poke_def
      buf_end_def pos1_def write_bytes_append)

lemma match_header_read:
  assumes "\<And>x. x < u + 4 \<Longrightarrow> m x = write_bytes u (be16 OFPMT_OXM @ rev (be16 4)) m0 x"
  shows "read_bytes u 2 m = be16 OFPMT_OXM" and "read_bytes (u + 2) 2 m = rev (be16 4)"
proof -
  have "read_bytes u (2 + 2) m = be16 OFPMT_OXM @ rev (be16 4)"
    using read_bytes_cong [of u 4 m "write_bytes u (be16 OFPMT_OXM @ rev (be16 4)) m0"] assms
    by (simp add: read_write_same')
  then show "read_bytes u 2 m = be16 OFPMT_OXM" "read_bytes (u + 2) 2 m = rev (be16 4)"
    unfolding read_bytes_split by simp_all
qed

text \<open>The bytes of a match after its length and its padding are written.\<close>

lemma closed_match_read:
  assumes "read_bytes u 2 m = be16 OFPMT_OXM" and "read_bytes (u + 4) n m = e" and "n = length e"
  shows "read_bytes u (4 + (n + r)) (write_bytes (u + 4 + n) (replicate r 0) (write_bytes (u + 2) (be16 l) m))
    = be16 OFPMT_OXM @ be16 l @ e @ replicate r 0"
proof -
  have "read_bytes u (2 + (2 + (n + r)))
      (write_bytes (u + 4 + n) (replicate r 0) (write_bytes (u + 2) (be16 l) m))
    = be16 OFPMT_OXM @ be16 l @ e @ replicate r 0"
    unfolding read_bytes_split using assms
    by (simp add: read_write_disjoint read_write_same' add.assoc)
  then show ?thesis by simp
qed

text \<open>The closed match, as the lemma on which the properties of messages rest.\<close>

lemma ofp_match_built:
  assumes "start_of_data msg \<le> utils_ptr msg" and "utils_ptr msg + 8 \<le> buf_end msg"
    and "8 dvd buf_end msg - utils_ptr msg" and "\<forall>c \<in> set cs. wf_match c"
    and "run_calls match_step cs (ofu_start_setting_match_field_values msg) = (acc, m1)"
    and "ofu_end_setting_match_field_values m1 = (len, m2)"
  shows "ofp_match_parse (read_bytes (utils_ptr msg) (4 + unat len) (mem m2)) = Some (map match_oxm acc)
    \<and> 8 dvd 4 + unat len
    \<and> utils_ptr msg + 4 + unat len \<le> buf_end msg
    \<and> pos1 m2 = utils_ptr msg + 4 + unat len
    \<and> data_len m2 = data_len msg + len
    \<and> (\<forall>x. x < utils_ptr msg \<or> utils_ptr msg + 4 + unat len \<le> x \<longrightarrow> mem m2 x = mem msg x)
    \<and> ptr1 m2 = utils_ptr msg + 4 \<and> buf_end m2 = buf_end msg
    \<and> start_of_data m2 = start_of_data msg"
    and "unat len = length (encoding match_enc acc) + ROUND_UP (length (encoding match_enc acc) + 4)"
proof -
  let ?u = "utils_ptr msg" and ?m0 = "ofu_start_setting_match_field_values msg"
  let ?e = "encoding match_enc acc"
  note m0 = start_setting_match [of msg] and pos0 = start_setting_match(4) [of msg]
  have pre: "start_of_data ?m0 \<le> ptr1 ?m0" "pos1 ?m0 \<le> buf_end ?m0"
    using assms(1,2) m0 pos0 by simp_all
  note run = match_run_layout [OF pre assms(4,5)]
  have same: "same_but1 ?m0 m1" and bound: "pos1 m1 \<le> buf_end m1" using run(1) by (simp_all add: match_inv_def)
  note m1 = same_but1_fields [OF same]
  define n where "n = unat (length1 m1)"
  define r where "r = ROUND_UP (n + 4)"
  have n: "n = length ?e" using run(2) pos0 m1 m0 by (simp add: pos1_def n_def)
  have "?u + (4 + n) \<le> buf_end msg" using bound m1 m0 by (simp add: pos1_def n_def)
  then have fits: "4 + n + r \<le> buf_end msg - ?u"
    using aligned_bound [OF assms(3), of "4 + n"] by (simp add: r_def add.commute)
  then have small: "4 + n + r < 65536" and inb: "?u + (4 + n + r) \<le> buf_end msg"
    using assms(1,2) unat_u16_less [of "buffer_len msg"] by (simp_all add: buf_end_def)
  have fr: "mem m1 x = mem ?m0 x" if "x < ?u + 4 \<or> ?u + 4 + n \<le> x" for x
    using appended_frame [OF run(3)] run(1) that pos0 m0 m1
    by (auto simp: match_inv_def pos1_def n_def)
  have hd: "read_bytes ?u 2 (mem m1) = be16 OFPMT_OXM" "read_bytes (?u + 2) 2 (mem m1) = rev (be16 4)"
    using match_header_read [of ?u "mem m1" "mem msg"] fr m0(8) by simp_all
  then have l4: "ld16_host (utils_ptr m1 + 2) m1 = 4" using m1 m0 by (simp add: ld16_host_def)
  have e: "ofu_end_setting_match_field_values m1 = (of_nat (n + r),
     m1\<lparr>utils_length := utils_length m1 + of_nat (n + 4), length1 := of_nat (n + r),
         data_len := data_len m1 + of_nat (n + r),
         mem := write_bytes (?u + 4 + n) (replicate r 0)
                  (write_bytes (?u + 2) (be16 (of_nat (n + 4))) (mem m1))\<rparr>)"
    using end_setting_match [OF l4] small m1 m0 round_up_lt [of "n + 4"] by (simp add: n_def r_def)
  have len: "len = of_nat (n + r)" and mem2: "mem m2 = write_bytes (?u + 4 + n) (replicate r 0)
                  (write_bytes (?u + 2) (be16 (of_nat (n + 4))) (mem m1))"
    using e assms(6) by simp_all
  have ul: "unat len = n + r" unfolding len using small by (simp del: of_nat_add)
  have rd: "read_bytes (?u + 4) n (mem m1) = ?e"
    using appended_read [OF run(3)] n pos0 by simp
  have "ofp_match_parse (read_bytes ?u (4 + unat len) (mem m2)) = Some (map match_oxm acc)"
    using ofp_match_parse_bytes [of ?e] small n match_encoding_parse [OF run(4)]
      closed_match_read [OF hd(1) rd n, of r]
    by (simp add: ul r_def mem2)
  moreover have "8 dvd 4 + unat len"
    using round_up_dvd [of "n + 4"] by (simp add: ul r_def ac_simps)
  moreover have "mem m2 x = mem msg x" if "x < ?u \<or> ?u + 4 + unat len \<le> x" for x
    using that fr [of x] inb m0(8) ul by (auto simp: mem2 write_bytes_outside)
  moreover have "pos1 m2 = ?u + 4 + unat len" "data_len m2 = data_len msg + len"
    "ptr1 m2 = ?u + 4" "buf_end m2 = buf_end msg" "start_of_data m2 = start_of_data msg"
    using e assms(6) m1 m0 ul len by (auto simp: pos1_def buf_end_def)
  ultimately show "ofp_match_parse (read_bytes ?u (4 + unat len) (mem m2)) = Some (map match_oxm acc)
    \<and> 8 dvd 4 + unat len \<and> ?u + 4 + unat len \<le> buf_end msg \<and> pos1 m2 = ?u + 4 + unat len
    \<and> data_len m2 = data_len msg + len
    \<and> (\<forall>x. x < ?u \<or> ?u + 4 + unat len \<le> x \<longrightarrow> mem m2 x = mem msg x)
    \<and> ptr1 m2 = ?u + 4 \<and> buf_end m2 = buf_end msg \<and> start_of_data m2 = start_of_data msg"
    using inb ul by simp
  show "unat len = length ?e + ROUND_UP (length ?e + 4)" using ul n by (simp add: r_def)
qed

text \<open>
  C5. Opening a match in a buffer with room for an empty one and a multiple of eight bytes
  left, well-formed setter calls (\<open>wf_match\<close>: addresses of the right length, no PBB I-SID, and no mask for
  a VLAN id or a tunnel id, which the setters encode wrongly), and closing it leaves at
  \<open>utils_ptr\<close> an \<open>ofp_match\<close> a receiver reads as the accepted TLVs: correct type, length and zero
  padding to a multiple of eight.  \<open>data_len\<close> grows by the reported length (the four header bytes
  are the caller's), and no byte outside the match changes.
\<close>

theorem ofp_match_build:
  assumes "start_of_data msg \<le> utils_ptr msg" and "utils_ptr msg + 8 \<le> buf_end msg"
    and "8 dvd buf_end msg - utils_ptr msg" and "\<forall>c \<in> set cs. wf_match c"
    and "run_calls match_step cs (ofu_start_setting_match_field_values msg) = (acc, m1)"
    and "ofu_end_setting_match_field_values m1 = (len, m2)"
  shows "ofp_match_parse (read_bytes (utils_ptr msg) (4 + unat len) (mem m2)) = Some (map match_oxm acc)
    \<and> 8 dvd 4 + unat len
    \<and> utils_ptr msg + 4 + unat len \<le> buf_end msg
    \<and> pos1 m2 = utils_ptr msg + 4 + unat len
    \<and> data_len m2 = data_len msg + len
    \<and> (\<forall>x. x < utils_ptr msg \<or> utils_ptr msg + 4 + unat len \<le> x \<longrightarrow> mem m2 x = mem msg x)
    \<and> ptr1 m2 = utils_ptr msg + 4 \<and> buf_end m2 = buf_end msg
    \<and> start_of_data m2 = start_of_data msg"
  using assms by (rule ofp_match_built(1))

lemma ofp_match_build_witness:
  "let m0 = ofu_start_setting_match_field_values sample_msg;
       m1 = snd (run_calls match_step sample_calls m0);
       (len, m2) = ofu_end_setting_match_field_values m1
   in ofp_match_parse (read_bytes 1048 (4 + unat len) (mem m2)) = Some (map match_oxm sample_calls)"
proof -
  let ?m0 = "ofu_start_setting_match_field_values sample_msg"
  let ?r = "run_calls match_step sample_calls ?m0"
  have m0: "start_of_data ?m0 = 1000" "ptr1 ?m0 = 1052" "pos1 ?m0 = 1052" "buf_end ?m0 = 1128"
    by (simp_all add: ofu_start_setting_match_field_values_def Let_def msg_defs poke_def
        buf_end_def pos1_def) (simp_all add: sample_msg_def)
  then have "fst ?r = sample_calls"
    using mf.run_all_ok [of ?m0 ?m0 sample_calls] sample_calls_wf sample_run(2)
    by (simp add: match_inv_refl)
  then have run: "?r = (sample_calls, snd ?r)" by (cases ?r) simp
  obtain len m2 where e: "ofu_end_setting_match_field_values (snd ?r) = (len, m2)"
    by fastforce
  show ?thesis
    using ofp_match_build [OF _ _ _ sample_calls_wf run e] by (simp add: e)
qed

section \<open>The three setters that break the format\<close>

lemma oxm_parse_short:
  assumes "length bd < unat l"
  shows "oxm_parse ([0x80, 0, fm, l] @ bd) = None"
  using assms by (subst oxm_parse.simps) simp

lemma read_prefix: "n \<le> k \<Longrightarrow> read_bytes a n m = take n (read_bytes a k m)"
  by (simp add: read_bytes_def take_map)

text \<open>
  A masked VLAN id is written as a correct eight byte TLV but counted as
  six (\<open>OFU_VLAN_VID_MASK_LEN\<close>): the mask lies beyond the counted bytes, where the next field
  overwrites it, and what is counted does not parse.
\<close>

theorem masked_vlan_truncated:
  assumes "start_of_data msg \<le> ptr1 msg" and "pos1 msg + 6 \<le> buf_end msg" and "m \<noteq> 0"
    and "of_set_vlan_id v m k msg = (rc, msg')"
  shows "rc = OFU_SET_FIELD_SUCCESS
    \<and> read_bytes (pos1 msg) 8 (mem msg') = oxm_bytes (Oxm 6 (be16 v) (Some (be16 k)))
    \<and> pos1 msg' = pos1 msg + 6
    \<and> oxm_parse (read_bytes (pos1 msg) (pos1 msg' - pos1 msg) (mem msg')) = None"
proof -
  let ?bs = "oxm_bytes (Oxm 6 (be16 v) (Some (be16 k)))"
  have eq: "rc = OFU_SET_FIELD_SUCCESS" "msg' = advance1 6 (poke (pos1 msg) ?bs msg)"
    using assms by (simp_all add: of_set_vlan_id_def no_room_def msg_defs layout_simps poke_append
        split: if_splits)
  then have rd: "read_bytes (pos1 msg) 8 (mem msg') = ?bs" by (simp add: read_write_same')
  have "pos1 msg' = pos1 msg + 6"
    using eq assms pos1_advance1 [of "poke (pos1 msg) ?bs msg" 6] by simp
  moreover have "oxm_parse (read_bytes (pos1 msg) 6 (mem msg')) = None"
    using oxm_parse_short [of "be16 v" 4 13] read_prefix [of 6 8 "pos1 msg" "mem msg'"] rd
    by (simp add: oxm_header_bytes_def be16_def)
  ultimately show ?thesis using eq rd by simp
qed

lemma masked_vlan_truncated_witness:
  "oxm_parse (read_bytes 1052 6 (mem (snd (of_set_vlan_id 5 1 0xfff sample_msg)))) = None"
  using masked_vlan_truncated [of sample_msg 1 5 "0xfff"] 
  by (cases "of_set_vlan_id 5 1 0xfff sample_msg") auto

text \<open>
  A masked tunnel id is checked and counted as twelve bytes but twenty
  are written: with between twelve and nineteen bytes left the call succeeds and its mask goes to
  the memory behind the buffer.
\<close>

theorem masked_tunnel_overflow:
  assumes "start_of_data msg \<le> ptr1 msg" and "pos1 msg + 12 \<le> buf_end msg" and "m \<noteq> 0"
    and "of_set_logical_port_meta_data v m k msg = (rc, msg')"
  shows "rc = OFU_SET_FIELD_SUCCESS
    \<and> pos1 msg' = pos1 msg + 12
    \<and> read_bytes (pos1 msg) 20 (mem msg') = oxm_bytes (Oxm 38 (be64 v) (Some (be64 k)))
    \<and> (\<forall>i < 8. mem msg' (pos1 msg + 12 + i) = be64 k ! i)"
proof -
  let ?bs = "oxm_bytes (Oxm 38 (be64 v) (Some (be64 k)))"
  have eq: "rc = OFU_SET_FIELD_SUCCESS" "msg' = advance1 12 (poke (pos1 msg) ?bs msg)"
    using assms by (simp_all add: of_set_logical_port_meta_data_def no_room_def msg_defs layout_simps
        poke_append split: if_splits)
  have "mem msg' (pos1 msg + 12 + i) = be64 k ! i" if "i < 8" for i
    using that write_bytes_at [of "12 + i" ?bs "pos1 msg" "mem msg"] eq
    by (simp add: nth_append add.assoc)
  moreover have "pos1 msg' = pos1 msg + 12"
    using eq assms pos1_advance1 [of "poke (pos1 msg) ?bs msg" 12] by simp
  ultimately show ?thesis using eq by (simp add: read_write_same')
qed

text \<open>At the last twelve bytes of the sample buffer: the byte behind it is overwritten.\<close>

lemma masked_tunnel_overflow_witness:
  "let msg = sample_msg\<lparr>length1 := 64\<rparr>
   in buf_end msg = 1128 \<and> mem msg 1135 = 0
      \<and> mem (snd (of_set_logical_port_meta_data 1 1 0xff msg)) 1135 = 0xff"
proof -
  let ?m = "sample_msg\<lparr>length1 := 64\<rparr>"
  have "pos1 ?m = 1116" "buf_end ?m = 1128" "start_of_data ?m \<le> ptr1 ?m" "mem ?m 1135 = 0"
    by (simp_all add: pos1_def buf_end_def sample_msg_def)
  moreover obtain rc msg' where e: "of_set_logical_port_meta_data 1 1 0xff ?m = (rc, msg')"
    by fastforce
  ultimately have "\<forall>i < 8. mem msg' (1116 + 12 + i) = be64 0xff ! i"
    using masked_tunnel_overflow [OF _ _ _ e] by simp
  then have "mem msg' (1116 + 12 + 7) = be64 0xff ! 7" by (rule allE [of _ 7]) simp
  then show ?thesis using e by (simp add: be64_def sample_msg_def buf_end_def)
qed

text \<open>
  The PBB I-SID setter takes one byte of the 24 bit identifier: the counted
  seven bytes keep two bytes of whatever the buffer held, and with a mask they do not parse at all.
\<close>

theorem pbb_isid_one_byte:
  assumes "start_of_data msg \<le> ptr1 msg" and "pos1 msg + 7 \<le> buf_end msg"
    and "of_set_pbb_i_sid v m k msg = (rc, msg')"
  shows "rc = OFU_SET_FIELD_SUCCESS \<and> pos1 msg' = pos1 msg + 7
    \<and> (if m = 0
       then oxm_parse (read_bytes (pos1 msg) 7 (mem msg'))
              = Some [Oxm 37 [v, mem msg (pos1 msg + 5), mem msg (pos1 msg + 6)] None]
       else oxm_parse (read_bytes (pos1 msg) 7 (mem msg')) = None)"
proof -
  let ?p = "pos1 msg" and ?h = "oxm_header_bytes 37 (m \<noteq> 0) (if m \<noteq> 0 then 6 else 3)"
  let ?m1 = "poke ?p (?h @ [v]) msg"
  have eq: "rc = OFU_SET_FIELD_SUCCESS"
    "msg' = advance1 7 (if m \<noteq> 0 then poke (?p + 7) [k] ?m1 else ?m1)"
    using assms by (auto simp: of_set_pbb_i_sid_def no_room_def msg_defs layout_simps
        poke_append Let_def split: if_splits)
  have "read_bytes ?p 7 (mem msg') = read_bytes ?p 7 (write_bytes ?p (?h @ [v]) (mem msg))"
    using eq by (auto intro!: read_bytes_cong simp: write_bytes_outside)
  also have "... = ?h @ [v, mem msg (?p + 5), mem msg (?p + 6)]"
    using read_bytes_split [of ?p 5 2 "write_bytes ?p (?h @ [v]) (mem msg)"]
    by (simp add: read_write_same' read_write_disjoint) (simp add: read_bytes_def upt_rec add_ac)
  finally have rd: "read_bytes ?p 7 (mem msg') = ?h @ [v, mem msg (?p + 5), mem msg (?p + 6)]" .
  have "pos1 msg' = ?p + 7"
    unfolding eq(2) using assms(1,2) by (subst pos1_advance1) simp_all
  then show ?thesis
    using eq(1) rd oxm_parse_header [of 37 "[v, mem msg (?p + 5), mem msg (?p + 6)]" False "[]"]
      oxm_parse_short [of "[v, mem msg (?p + 5), mem msg (?p + 6)]" 6 75]
    by (simp add: oxm_header_bytes_def)
qed

lemma pbb_isid_one_byte_witness:
  "oxm_parse (read_bytes 1052 7 (mem (snd (of_set_pbb_i_sid 0xab 0 0 (sample_msg\<lparr>mem := \<lambda>_. 9\<rparr>)))))
     = Some [Oxm 37 [0xab, 9, 9] None]"
  using pbb_isid_one_byte [of "sample_msg\<lparr>mem := \<lambda>_. 9\<rparr>" "0xab" 0 0]
  by (cases "of_set_pbb_i_sid 0xab 0 0 (sample_msg\<lparr>mem := \<lambda>_. 9\<rparr>)")
    (simp add: sample_msg_def pos1_def buf_end_def)

end
