(* ===== verification/Actions.thy ===== *)
theory Actions
  imports SetField Wire MatchFields
begin

text \<open>
  The action routines of \<open>of_msg_utils.c\<close>.  \<open>ofu_start_pushing_actions\<close> places \<open>ptr3\<close> at the write
  position of the enclosing instruction or bucket; every action is written at \<open>ptr3 + length3\<close>, and
  \<open>ofu_end_pushing_actions\<close> adds the actions to the enclosing length.  The room checks of the code
  look at \<open>ptr1 + length1\<close>, not at the position written to.
\<close>

section \<open>The routines\<close>

definition ofu_start_pushing_actions :: "of_msg \<Rightarrow> of_msg" where
  "ofu_start_pushing_actions msg =
     (let msg = (if ptr2 msg = ptr3 msg then msg\<lparr>ptr2 := ptr1 msg + unat (length1 msg)\<rparr> else msg);
          msg = msg\<lparr>ptr3 := ptr2 msg + unat (length2 msg)\<rparr>
      in msg\<lparr>length3 := 0\<rparr>)"

definition ofu_end_pushing_actions :: "of_msg \<Rightarrow> u16 \<times> of_msg" where
  "ofu_end_pushing_actions msg =
     (let msg = msg\<lparr>length2 := length2 msg + length3 msg\<rparr>;
          length_of_actions = length2 msg;
          msg = msg\<lparr>data_len := data_len msg + length2 msg\<rparr>
      in (length_of_actions, msg))"

definition ofu_push_output_action :: "u32 \<Rightarrow> u16 \<Rightarrow> of_msg \<Rightarrow> msg_utilities \<times> of_msg" where
  "ofu_push_output_action port_no max_len msg =
     (let max_len = (if max_len = 0 then 128 else max_len) in
      if no_room (pos1 msg + OFU_OUTPUT_ACTION_LEN) msg then (OFU_NO_ROOM_IN_BUFFER, msg)
      else let
        action = pos3 msg;
        msg = st16 action OFPAT_OUTPUT msg;
        msg = st16 (action + 2) (of_nat sizeof_ofp_action_output) msg;
        msg = st32 (action + 4) port_no msg;
        msg = st16 (action + 8) max_len msg;
        msg = advance3 OFU_OUTPUT_ACTION_LEN msg
      in (OFU_ACTION_PUSH_SUCCESS, msg))"

text \<open>The set-queue action is not implemented: the routine checks the room and reports success.\<close>

definition ofu_push_set_queue_action :: "u32 \<Rightarrow> of_msg \<Rightarrow> msg_utilities \<times> of_msg" where
  "ofu_push_set_queue_action queue_id msg =
     (if no_room (pos1 msg + OFU_OUTPUT_ACTION_LEN) msg then (OFU_NO_ROOM_IN_BUFFER, msg)
      else (OFU_ACTION_PUSH_SUCCESS, msg))"

definition ofu_push_group_action :: "u32 \<Rightarrow> of_msg \<Rightarrow> msg_utilities \<times> of_msg" where
  "ofu_push_group_action group_id msg =
     (if no_room (pos1 msg + OFU_OUTPUT_ACTION_LEN) msg then (OFU_NO_ROOM_IN_BUFFER, msg)
      else let
        action = pos3 msg;
        msg = st16 action OFPAT_GROUP msg;
        msg = st16 (action + 2) (of_nat sizeof_ofp_action_group) msg;
        msg = st32 (action + 4) group_id msg;
        msg = advance3 OFU_GROUP_ACTION_LEN msg
      in (OFU_ACTION_PUSH_SUCCESS, msg))"

definition ofu_push_set_mpls_ttl_action :: "u8 \<Rightarrow> of_msg \<Rightarrow> msg_utilities \<times> of_msg" where
  "ofu_push_set_mpls_ttl_action mpls_ttl msg =
     (if no_room (pos1 msg + OFU_OUTPUT_ACTION_LEN) msg then (OFU_NO_ROOM_IN_BUFFER, msg)
      else let
        action = pos3 msg;
        msg = st16 action OFPAT_SET_MPLS_TTL msg;
        msg = st16 (action + 2) (of_nat sizeof_ofp_action_mpls_ttl) msg;
        msg = st8 (action + 4) mpls_ttl msg;
        msg = advance3 OFU_SET_MPLS_TTL_ACTION_LEN msg
      in (OFU_ACTION_PUSH_SUCCESS, msg))"

definition ofu_push_dec_mpls_ttl_action :: "of_msg \<Rightarrow> msg_utilities \<times> of_msg" where
  "ofu_push_dec_mpls_ttl_action msg =
     (if no_room (pos1 msg + OFU_OUTPUT_ACTION_LEN) msg then (OFU_NO_ROOM_IN_BUFFER, msg)
      else let
        action = pos3 msg;
        msg = st16 action OFPAT_DEC_MPLS_TTL msg;
        msg = st16 (action + 2) (of_nat sizeof_ofp_action_mpls_ttl) msg;
        msg = advance1 OFU_DEC_MPLS_TTL_ACTION_LEN msg
      in (OFU_ACTION_PUSH_SUCCESS, msg))"

definition ofu_push_set_ipv4_ttl_action :: "u8 \<Rightarrow> of_msg \<Rightarrow> msg_utilities \<times> of_msg" where
  "ofu_push_set_ipv4_ttl_action ipv4_ttl msg =
     (if no_room (pos1 msg + OFU_OUTPUT_ACTION_LEN) msg then (OFU_NO_ROOM_IN_BUFFER, msg)
      else let
        action = pos3 msg;
        msg = st16 action OFPAT_SET_NW_TTL msg;
        msg = st16 (action + 2) (of_nat sizeof_ofp_action_nw_ttl) msg;
        msg = st8 (action + 4) ipv4_ttl msg;
        msg = advance3 OFU_SET_IP_TTL_ACTION_LEN msg
      in (OFU_ACTION_PUSH_SUCCESS, msg))"

definition ofu_push_dec_ipv4_ttl_action :: "of_msg \<Rightarrow> msg_utilities \<times> of_msg" where
  "ofu_push_dec_ipv4_ttl_action msg =
     (if no_room (pos1 msg + OFU_DEC_IP_TTL_ACTION_LEN) msg then (OFU_NO_ROOM_IN_BUFFER, msg)
      else let
        action = pos3 msg;
        msg = st16 action OFPAT_DEC_NW_TTL msg;
        msg = st16 (action + 2) (of_nat OFU_DEC_IP_TTL_ACTION_LEN) msg;
        msg = advance3 OFU_DEC_IP_TTL_ACTION_LEN msg
      in (OFU_ACTION_PUSH_SUCCESS, msg))"

definition ofu_push_push_pbb_header_action :: "u16 \<Rightarrow> of_msg \<Rightarrow> msg_utilities \<times> of_msg" where
  "ofu_push_push_pbb_header_action ether_type msg =
     (if no_room (pos1 msg + OFU_OUTPUT_ACTION_LEN) msg then (OFU_NO_ROOM_IN_BUFFER, msg)
      else let
        action = pos3 msg;
        msg = st16 action OFPAT_PUSH_PBB msg;
        msg = st16 (action + 2) (of_nat sizeof_ofp_action_push) msg;
        msg = st16 (action + 4) ether_type msg;
        msg = advance3 OFU_PUSH_PBB_HEADER_ACTION_LEN msg
      in (OFU_ACTION_PUSH_SUCCESS, msg))"

definition ofu_push_pop_pbb_header_action :: "of_msg \<Rightarrow> msg_utilities \<times> of_msg" where
  "ofu_push_pop_pbb_header_action msg =
     (if no_room (pos1 msg + OFU_OUTPUT_ACTION_LEN) msg then (OFU_NO_ROOM_IN_BUFFER, msg)
      else let
        action = pos3 msg;
        msg = st16 action OFPAT_POP_PBB msg;
        msg = st16 (action + 2) (of_nat sizeof_ofp_action_header) msg;
        msg = advance3 OFU_POP_PBB_HEADER_ACTION_LEN msg
      in (OFU_ACTION_PUSH_SUCCESS, msg))"

definition ofu_push_push_mpls_header_action :: "u16 \<Rightarrow> of_msg \<Rightarrow> msg_utilities \<times> of_msg" where
  "ofu_push_push_mpls_header_action ether_type msg =
     (if no_room (pos1 msg + OFU_OUTPUT_ACTION_LEN) msg then (OFU_NO_ROOM_IN_BUFFER, msg)
      else let
        action = pos3 msg;
        msg = st16 action OFPAT_PUSH_MPLS msg;
        msg = st16 (action + 2) (of_nat sizeof_ofp_action_push) msg;
        msg = st16 (action + 4) ether_type msg;
        msg = advance3 OFU_PUSH_MPLS_HEADER_ACTION_LEN msg
      in (OFU_ACTION_PUSH_SUCCESS, msg))"

definition ofu_push_pop_mpls_header_action :: "u16 \<Rightarrow> of_msg \<Rightarrow> msg_utilities \<times> of_msg" where
  "ofu_push_pop_mpls_header_action ether_type msg =
     (if no_room (pos1 msg + OFU_OUTPUT_ACTION_LEN) msg then (OFU_NO_ROOM_IN_BUFFER, msg)
      else let
        action = pos3 msg;
        msg = st16 action OFPAT_POP_MPLS msg;
        msg = st16 (action + 2) (of_nat sizeof_ofp_action_pop_mpls) msg;
        msg = st16 (action + 4) ether_type msg;
        msg = advance3 OFU_POP_MPLS_HEADER_ACTION_LEN msg
      in (OFU_ACTION_PUSH_SUCCESS, msg))"

definition ofu_push_push_vlan_header_action :: "u16 \<Rightarrow> of_msg \<Rightarrow> msg_utilities \<times> of_msg" where
  "ofu_push_push_vlan_header_action ether_type msg =
     (if no_room (pos1 msg + OFU_OUTPUT_ACTION_LEN) msg then (OFU_NO_ROOM_IN_BUFFER, msg)
      else let
        action = pos3 msg;
        msg = st16 action OFPAT_PUSH_VLAN msg;
        msg = st16 (action + 2) (of_nat sizeof_ofp_action_push) msg;
        msg = st16 (action + 4) ether_type msg;
        msg = advance3 OFU_PUSH_VLAN_HEADER_ACTION_LEN msg
      in (OFU_ACTION_PUSH_SUCCESS, msg))"

definition ofu_push_pop_vlan_header_action :: "of_msg \<Rightarrow> msg_utilities \<times> of_msg" where
  "ofu_push_pop_vlan_header_action msg =
     (if no_room (pos1 msg + OFU_OUTPUT_ACTION_LEN) msg then (OFU_NO_ROOM_IN_BUFFER, msg)
      else let
        action = pos3 msg;
        msg = st16 action OFPAT_POP_VLAN msg;
        msg = st16 (action + 2) (of_nat sizeof_ofp_action_header) msg;
        msg = advance3 OFU_POP_VLAN_HEADER_ACTION_LEN msg
      in (OFU_ACTION_PUSH_SUCCESS, msg))"

definition ofu_push_copy_ttl_inward_action :: "of_msg \<Rightarrow> msg_utilities \<times> of_msg" where
  "ofu_push_copy_ttl_inward_action msg =
     (if no_room (pos1 msg + OFU_OUTPUT_ACTION_LEN) msg then (OFU_NO_ROOM_IN_BUFFER, msg)
      else let
        action = pos3 msg;
        msg = st16 action OFPAT_COPY_TTL_IN msg;
        msg = st16 (action + 2) (of_nat sizeof_ofp_action_header) msg;
        msg = msg\<lparr>length3 := of_nat OFU_COPY_TTL_OUTWARD_ACTION_LEN\<rparr>
      in (OFU_ACTION_PUSH_SUCCESS, msg))"

definition ofu_push_copy_ttl_outward_action :: "of_msg \<Rightarrow> msg_utilities \<times> of_msg" where
  "ofu_push_copy_ttl_outward_action msg =
     (if no_room (pos1 msg + OFU_OUTPUT_ACTION_LEN) msg then (OFU_NO_ROOM_IN_BUFFER, msg)
      else let
        action = pos3 msg;
        msg = st16 action OFPAT_COPY_TTL_OUT msg;
        msg = st16 (action + 2) (of_nat sizeof_ofp_action_header) msg;
        msg = advance3 OFU_COPY_TTL_OUTWARD_ACTION_LEN msg
      in (OFU_ACTION_PUSH_SUCCESS, msg))"

section \<open>The calls as data\<close>

datatype action_call =
    Output u32 u16
  | Group u32
  | Set_queue u32
  | Set_mpls_ttl u8
  | Dec_mpls_ttl
  | Set_ipv4_ttl u8
  | Dec_ipv4_ttl
  | Push_pbb u16
  | Pop_pbb
  | Push_mpls u16
  | Pop_mpls u16
  | Push_vlan u16
  | Pop_vlan
  | Copy_ttl_inward
  | Copy_ttl_outward
  | Set_field set_field_call

primrec exec_action :: "action_call \<Rightarrow> of_msg \<Rightarrow> msg_utilities \<times> of_msg" where
  "exec_action (Output p n) = ofu_push_output_action p n"
| "exec_action (Group g) = ofu_push_group_action g"
| "exec_action (Set_queue q) = ofu_push_set_queue_action q"
| "exec_action (Set_mpls_ttl t) = ofu_push_set_mpls_ttl_action t"
| "exec_action Dec_mpls_ttl = ofu_push_dec_mpls_ttl_action"
| "exec_action (Set_ipv4_ttl t) = ofu_push_set_ipv4_ttl_action t"
| "exec_action Dec_ipv4_ttl = ofu_push_dec_ipv4_ttl_action"
| "exec_action (Push_pbb e) = ofu_push_push_pbb_header_action e"
| "exec_action Pop_pbb = ofu_push_pop_pbb_header_action"
| "exec_action (Push_mpls e) = ofu_push_push_mpls_header_action e"
| "exec_action (Pop_mpls e) = ofu_push_pop_mpls_header_action e"
| "exec_action (Push_vlan e) = ofu_push_push_vlan_header_action e"
| "exec_action Pop_vlan = ofu_push_pop_vlan_header_action"
| "exec_action Copy_ttl_inward = ofu_push_copy_ttl_inward_action"
| "exec_action Copy_ttl_outward = ofu_push_copy_ttl_outward_action"
| "exec_action (Set_field c) = exec_set_field c"

section \<open>What the calls promise\<close>

primrec action_wire :: "action_call \<Rightarrow> wire_tlv" where
  "action_wire (Output p n) = Wire 0 (be32 p @ be16 (if n = 0 then 128 else n) @ replicate 6 0)"
| "action_wire (Group g) = Wire 22 (be32 g)"
| "action_wire (Set_queue q) = Wire 21 (be32 q)"
| "action_wire (Set_mpls_ttl t) = Wire 15 (t # replicate 3 0)"
| "action_wire Dec_mpls_ttl = Wire 16 (replicate 4 0)"
| "action_wire (Set_ipv4_ttl t) = Wire 23 (t # replicate 3 0)"
| "action_wire Dec_ipv4_ttl = Wire 24 (replicate 4 0)"
| "action_wire (Push_pbb e) = Wire 26 (be16 e @ replicate 2 0)"
| "action_wire Pop_pbb = Wire 27 (replicate 4 0)"
| "action_wire (Push_mpls e) = Wire 19 (be16 e @ replicate 2 0)"
| "action_wire (Pop_mpls e) = Wire 20 (be16 e @ replicate 2 0)"
| "action_wire (Push_vlan e) = Wire 17 (be16 e @ replicate 2 0)"
| "action_wire Pop_vlan = Wire 18 (replicate 4 0)"
| "action_wire Copy_ttl_inward = Wire 12 (replicate 4 0)"
| "action_wire Copy_ttl_outward = Wire 11 (replicate 4 0)"
| "action_wire (Set_field c) =
     Wire 25 (oxm_bytes (Oxm (fst (set_field_value c)) (snd (set_field_value c)) None)
              @ replicate (ROUND_UP (length (snd (set_field_value c)))) 0)"

text \<open>
  The calls the code carries out as promised.  Set-queue writes nothing, decrementing the MPLS TTL
  advances the wrong counter, and copying the TTL inwards resets the counter.
\<close>

definition wf_action :: "action_call \<Rightarrow> bool" where
  "wf_action call \<longleftrightarrow> (case call of
       Set_queue q \<Rightarrow> False
     | Dec_mpls_ttl \<Rightarrow> False
     | Copy_ttl_inward \<Rightarrow> False
     | Set_field c \<Rightarrow> wf_set_field c
     | _ \<Rightarrow> True)"

definition action_enc :: "action_call \<Rightarrow> u8 list" where
  "action_enc c = wire_bytes (action_wire c)"

text \<open>The bytes a routine stores, the trailing bytes it leaves to the zeroed buffer, and its check.\<close>

definition action_tail :: "action_call \<Rightarrow> nat" where
  "action_tail c = (case c of
       Output p n \<Rightarrow> 6 | Group g \<Rightarrow> 0 | Set_mpls_ttl t \<Rightarrow> 3 | Set_ipv4_ttl t \<Rightarrow> 3
     | Push_pbb e \<Rightarrow> 2 | Push_mpls e \<Rightarrow> 2 | Pop_mpls e \<Rightarrow> 2 | Push_vlan e \<Rightarrow> 2
     | Set_field s \<Rightarrow> ROUND_UP (length (snd (set_field_value s))) | _ \<Rightarrow> 4)"

definition action_check :: "action_call \<Rightarrow> nat" where
  "action_check c = (case c of
       Dec_ipv4_ttl \<Rightarrow> 8
     | Set_field s \<Rightarrow> 8 + length (snd (set_field_value s))
     | _ \<Rightarrow> 16)"

definition action_head :: "action_call \<Rightarrow> u8 list" where
  "action_head c = take (length (action_enc c) - action_tail c) (action_enc c)"

text \<open>Where the routine clears memory: set-field only, four bytes behind its TLV.\<close>

definition action_cleared :: "action_call \<Rightarrow> nat" where
  "action_cleared c = (case c of Set_field s \<Rightarrow> action_tail c | _ \<Rightarrow> 0)"

lemmas action_defs =
  ofu_push_output_action_def ofu_push_group_action_def ofu_push_set_mpls_ttl_action_def
  ofu_push_set_ipv4_ttl_action_def ofu_push_dec_ipv4_ttl_action_def
  ofu_push_push_pbb_header_action_def ofu_push_pop_pbb_header_action_def
  ofu_push_push_mpls_header_action_def ofu_push_pop_mpls_header_action_def
  ofu_push_push_vlan_header_action_def ofu_push_pop_vlan_header_action_def
  ofu_push_copy_ttl_outward_action_def

lemmas action_views = action_enc_def action_tail_def action_check_def action_head_def action_cleared_def

lemma exec_action_push:
  assumes "wf_action c"
  shows "exec_action c msg =
    (if no_room (pos1 msg + action_check c) msg then (OFU_NO_ROOM_IN_BUFFER, msg)
     else (OFU_ACTION_PUSH_SUCCESS,
           advance3 (length (action_enc c))
             (poke (pos3 msg + length (action_head c) + 4) (replicate (action_cleared c) 0)
               (poke (pos3 msg) (action_head c) msg))))"
proof (cases "\<exists>s. c = Set_field s")
  case True
  then obtain s where s: "c = Set_field s" by blast
  then have "wf_set_field s" using assms by (simp add: wf_action_def)
  from exec_set_field_push [OF this] show ?thesis
    by (simp add: s push_set_field_def set_field_head_def action_views layout_simps add_ac)
next
  case False
  then show ?thesis
    using assms
    by (cases c) (simp_all add: wf_action_def action_defs action_views msg_defs layout_simps
        poke_append Let_def)
qed

section \<open>The actions keep the appender contract\<close>

definition action_step :: "action_call \<Rightarrow> of_msg \<Rightarrow> bool \<times> of_msg" where
  "action_step c msg = accepted (exec_action c msg)"

definition same_but3 :: "of_msg \<Rightarrow> of_msg \<Rightarrow> bool" where
  "same_but3 s0 msg \<longleftrightarrow> msg = s0\<lparr>length3 := length3 msg, mem := mem msg\<rparr>"

text \<open>
  The rest of the buffer is zero, as the message pool hands it out: the structures' padding is never
  written.  \<open>ptr1 + length1\<close>, where the code checks the room, lies at least one header below.
\<close>

definition action_inv :: "of_msg \<Rightarrow> of_msg \<Rightarrow> bool" where
  "action_inv s0 msg \<longleftrightarrow> start_of_data msg \<le> ptr3 msg \<and> pos3 msg \<le> buf_end msg
     \<and> pos1 msg + 8 \<le> pos3 msg \<and> zeros (pos3 msg) (buf_end msg - pos3 msg) (mem msg)
     \<and> same_but3 s0 msg"

definition action_ok :: "action_call \<Rightarrow> of_msg \<Rightarrow> bool" where
  "action_ok c msg \<longleftrightarrow> wf_action c \<and> pos3 msg + length (action_enc c) + 4 \<le> buf_end msg"

lemma same_but3_fields:
  assumes "same_but3 s0 msg"
  shows "utils_ptr msg = utils_ptr s0" "ptr1 msg = ptr1 s0" "length1 msg = length1 s0"
    "buf_end msg = buf_end s0" "start_of_data msg = start_of_data s0" "data_len msg = data_len s0"
    "ptr2 msg = ptr2 s0" "length2 msg = length2 s0" "ptr3 msg = ptr3 s0" "msg_type msg = msg_type s0"
  using assms unfolding same_but3_def buf_end_def by (cases msg, cases s0, simp)+

lemma advance3_fields [simp]:
  "mem (advance3 n msg) = mem msg" "ptr3 (advance3 n msg) = ptr3 msg" "pos1 (advance3 n msg) = pos1 msg"
  "start_of_data (advance3 n msg) = start_of_data msg" "buf_end (advance3 n msg) = buf_end msg"
  "length3 (advance3 n msg) = length3 msg + of_nat n"
  by (simp_all add: advance3_def buf_end_def pos1_def)

lemma same_but3_step:
  assumes "same_but3 s0 msg"
  shows "same_but3 s0 (advance3 n (poke a bs msg))"
  using assms unfolding same_but3_def by (cases msg, cases s0) (simp add: advance3_def poke_def)

lemma poke_poke_same_but3: "same_but3 s0 msg \<Longrightarrow> same_but3 s0 (poke a bs msg)"
  unfolding same_but3_def by (cases msg, cases s0) (simp add: poke_def)

lemma pos3_advance3:
  assumes "start_of_data msg \<le> ptr3 msg" and "pos3 msg + n \<le> buf_end msg"
  shows "pos3 (advance3 n msg) = pos3 msg + n"
proof -
  have "unat (length3 msg) + n < 65536"
    using assms unat_u16_less [of "buffer_len msg"] by (simp add: pos3_def buf_end_def)
  then show ?thesis using unat_plus_of_nat [of "length3 msg" n] by (simp add: pos3_def)
qed

lemma action_enc_split:
  assumes "wf_action c"
  shows "action_enc c = action_head c @ replicate (action_tail c) 0"
  using assms by (cases c) (simp_all add: action_views wf_action_def layout_simps)

lemma action_sizes:
  assumes "wf_action c"
  shows "length (action_enc c) = length (action_head c) + action_tail c"
    and "action_check c \<le> length (action_enc c) + 8"
    and "action_cleared c \<le> action_tail c"
    and "wf_wire (action_wire c)"
proof -
  show "length (action_enc c) = length (action_head c) + action_tail c"
    using action_enc_split [OF assms] by (metis length_append length_replicate)
  show "action_check c \<le> length (action_enc c) + 8"
    using assms by (cases c) (simp_all add: action_views wf_action_def)
  show "action_cleared c \<le> action_tail c" by (cases c) (simp_all add: action_views)
  show "wf_wire (action_wire c)"
  proof (cases "\<exists>s. c = Set_field s")
    case True
    then obtain s where s: "c = Set_field s" by blast
    let ?n = "length (snd (set_field_value s))"
    have "?n \<le> 16" using set_field_value_bound [of s] assms s by (simp add: wf_action_def)
    moreover have "8 dvd 8 + (?n + ROUND_UP ?n)" using round_up_dvd [of ?n] by simp
    ultimately show ?thesis using s round_up_lt [of ?n] by (simp add: add.assoc [symmetric])
  next
    case False
    then show ?thesis using assms by (cases c) (simp_all add: wf_action_def)
  qed
qed

text \<open>Writing the head, clearing behind it, and relying on zero for the rest appends the encoding.\<close>

lemma appended_zero_tail:
  assumes "zeros a (lim - a) m" and "a + length xs + t + 4 \<le> lim" and "k \<le> t"
  defines "m' \<equiv> write_bytes (a + length xs + 4) (replicate k 0) (write_bytes a xs m)"
  shows "appended a lim (xs @ replicate t 0) m m'"
    and "zeros (a + (length xs + t)) (lim - (a + (length xs + t))) m'"
proof -
  let ?b = "a + length xs"
  have z: "zeros ?b (lim - ?b) m'"
    unfolding m'_def using assms(1,2)
    by (intro zeros_write_0 zeros_write_disjoint) (auto intro: zeros_sub)
  have "read_bytes a (length xs) m' = xs"
    unfolding m'_def by (simp add: read_write_disjoint read_write_same')
  moreover have "read_bytes ?b t m' = replicate t 0"
    using z assms(2) by (intro read_zeros) (auto intro: zeros_sub)
  moreover have "m' x = m x" if "x < a \<or> lim \<le> x" for x
    using that assms(2,3) unfolding m'_def by (auto simp: write_bytes_outside)
  ultimately show "appended a lim (xs @ replicate t 0) m m'"
    by (simp add: appended_def read_bytes_split)
  show "zeros (a + (length xs + t)) (lim - (a + (length xs + t))) m'"
    using z assms(2) by (auto intro: zeros_sub)
qed

lemma action_step_accepts:
  assumes "action_inv s0 msg" and "action_ok c msg"
  shows "action_step c msg = (True, advance3 (length (action_enc c))
      (poke (pos3 msg + length (action_head c) + 4) (replicate (action_cleared c) 0)
        (poke (pos3 msg) (action_head c) msg)))"
proof -
  have wf: "wf_action c" and fits: "pos3 msg + length (action_enc c) + 4 \<le> buf_end msg"
    using assms(2) by (simp_all add: action_ok_def)
  then have "\<not> no_room (pos1 msg + action_check c) msg"
    using assms(1) action_sizes(2) [OF wf] by (simp add: no_room_def action_inv_def)
  then show ?thesis by (simp add: action_step_def accepted_def exec_action_push [OF wf])
qed

interpretation act: bounded_appender action_step pos3 buf_end mem action_enc "action_inv s0"
  action_ok wf_action 4 for s0
proof
  fix s c s'
  assume inv: "action_inv s0 s" and ok: "action_ok c s" and st: "action_step c s = (True, s')"
  have wf: "wf_action c" and fits: "pos3 s + length (action_enc c) + 4 \<le> buf_end s"
    using ok by (simp_all add: action_ok_def)
  note len = action_sizes(1) [OF wf] and enc = action_enc_split [OF wf]
  have s': "s' = advance3 (length (action_enc c))
      (poke (pos3 s + length (action_head c) + 4) (replicate (action_cleared c) 0)
        (poke (pos3 s) (action_head c) s))" (is "_ = advance3 _ ?p")
    using action_step_accepts [OF inv ok] st by simp
  have pos: "pos3 s' = pos3 s + length (action_enc c)"
    unfolding s' using inv fits by (subst pos3_advance3) (simp_all add: action_inv_def)
  have "zeros (pos3 s) (buf_end s - pos3 s) (mem s)" using inv by (simp add: action_inv_def)
  note tail = appended_zero_tail [OF this _ action_sizes(3) [OF wf]]
  show "appended (pos3 s) (buf_end s) (action_enc c) (mem s) (mem s')"
    using tail(1) fits len enc by (simp add: s')
  show "buf_end s' = buf_end s" by (simp add: s')
  show "pos3 s' = pos3 s + length (action_enc c)" by (rule pos)
  have "same_but3 s0 s'"
    unfolding s' using inv by (intro same_but3_step poke_poke_same_but3) (simp add: action_inv_def)
  then show "action_inv s0 s'"
    using inv fits pos tail(2) len by (simp add: action_inv_def s')
qed (auto simp: action_step_accepts action_ok_def action_inv_def)

section \<open>Properties of the actions\<close>

lemma action_encoding: "encoding action_enc cs = encoding wire_bytes (map action_wire cs)"
  by (induction cs) (simp_all add: action_enc_def)

lemma action_encoding_parse:
  assumes "\<forall>c \<in> set cs. wf_action c"
  shows "wire_parse (encoding action_enc cs) = Some (map action_wire cs)"
    and "8 dvd length (encoding action_enc cs)"
proof -
  have "\<forall>t \<in> set (map action_wire cs). wf_wire t" using assms action_sizes(4) by auto
  then show "wire_parse (encoding action_enc cs) = Some (map action_wire cs)"
    "8 dvd length (encoding action_enc cs)"
    unfolding action_encoding by (rule wire_parse_encoding, rule wire_encoding_aligned)
qed

lemma action_inv_refl:
  assumes "start_of_data msg \<le> ptr3 msg" and "pos3 msg \<le> buf_end msg" and "pos1 msg + 8 \<le> pos3 msg"
    and "zeros (pos3 msg) (buf_end msg - pos3 msg) (mem msg)"
  shows "action_inv msg msg"
  using assms by (simp add: action_inv_def same_but3_def)

text \<open>
  C6. Pushing well-formed actions (\<open>wf_action\<close>: no set-queue, decrement of the MPLS TTL, copy of the
  TTL inwards or set-field of a PBB I-SID, and set-field addresses of the right length) into a zeroed
  buffer with room for them and four bytes more accepts every action and leaves a list a receiver parses as exactly those actions, in order, each
  with its type, its length a multiple of eight, its arguments, and zero padding.  No byte before the
  write position or behind the buffer changes.  The actions left out the code drops, overwrites, truncates or
  misaligns (theorems \<open>dec_mpls_ttl_overwritten\<close>, \<open>copy_ttl_inward_truncates\<close>, \<open>set_field_pbb_unaligned\<close>).
\<close>

theorem actions_parse:
  assumes "start_of_data msg \<le> ptr3 msg" and "pos1 msg + 8 \<le> pos3 msg"
    and "zeros (pos3 msg) (buf_end msg - pos3 msg) (mem msg)"
    and "\<forall>c \<in> set cs. wf_action c"
    and "pos3 msg + length (encoding action_enc cs) + 4 \<le> buf_end msg"
    and "run_calls action_step cs msg = (acc, msg')"
  shows "acc = cs
    \<and> wire_parse (read_bytes (pos3 msg) (pos3 msg' - pos3 msg) (mem msg')) = Some (map action_wire cs)
    \<and> 8 dvd pos3 msg' - pos3 msg
    \<and> pos3 msg' \<le> buf_end msg
    \<and> (\<forall>x. x < pos3 msg \<or> buf_end msg \<le> x \<longrightarrow> mem msg' x = mem msg x)"
proof -
  have inv: "action_inv msg msg" using assms(1,2,3,5) by (intro action_inv_refl) simp_all
  obtain s' where run: "run_calls action_step cs msg = (cs, s')"
    and pos: "pos3 s' = pos3 msg + length (encoding action_enc cs)"
    and app: "appended (pos3 msg) (buf_end msg) (encoding action_enc cs) (mem msg) (mem s')"
    by (rule act.run_all [OF inv assms(4,5)])
  have "acc = cs" and "msg' = s'" using run assms(6) by simp_all
  then show ?thesis
    using pos appended_read [OF app] appended_frame [OF app] assms(5)
      action_encoding_parse [OF assms(4)] by simp
qed

definition sample_actions :: "action_call list" where
  "sample_actions = [Set_field (SF_ip_dscp_bits 12), Push_vlan 0x8100, Output 3 0]"

text \<open>The state inside an apply-actions instruction whose header is at 1072.\<close>

definition sample_apply :: of_msg where
  "sample_apply = sample_msg\<lparr>length1 := 20, ptr2 := 1072, length2 := 8, ptr3 := 1080\<rparr>"

lemma sample_apply_simps [simp]:
  "start_of_data sample_apply = 1000" "ptr3 sample_apply = 1080" "pos1 sample_apply = 1072"
  "pos3 sample_apply = 1080" "buf_end sample_apply = 1128" "zeros a n (mem sample_apply)"
  by (simp_all add: sample_apply_def sample_msg_def pos1_def pos3_def buf_end_def zeros_def)

lemma sample_actions_wf:
  "\<forall>c \<in> set sample_actions. wf_action c" "length (encoding action_enc sample_actions) = 40"
  by (simp_all add: sample_actions_def wf_action_def wf_set_field_def action_enc_def ROUND_UP_def)

lemma actions_parse_witness:
  "wire_parse (read_bytes 1080 40 (mem (snd (run_calls action_step sample_actions sample_apply))))
     = Some [Wire 25 [0x80, 0, 16, 1, 12, 0, 0, 0, 0, 0, 0, 0], Wire 17 [0x81, 0, 0, 0],
             Wire 0 [0, 0, 0, 3, 0, 128, 0, 0, 0, 0, 0, 0]]"
proof -
  obtain acc msg' where run: "run_calls action_step sample_actions sample_apply = (acc, msg')"
    by fastforce
  have pre: "start_of_data sample_apply \<le> ptr3 sample_apply"
    "pos1 sample_apply + 8 \<le> pos3 sample_apply"
    "zeros (pos3 sample_apply) (buf_end sample_apply - pos3 sample_apply) (mem sample_apply)"
    "pos3 sample_apply + length (encoding action_enc sample_actions) + 4 \<le> buf_end sample_apply"
    by (simp_all add: sample_actions_wf(2))
  have "action_inv sample_apply sample_apply" by (intro action_inv_refl) simp_all
  from act.run_all [OF this sample_actions_wf(1) pre(4)] have "pos3 msg' = 1120"
    using run sample_actions_wf(2) by auto
  moreover have "map action_wire sample_actions
      = [Wire 25 [0x80, 0, 16, 1, 12, 0, 0, 0, 0, 0, 0, 0], Wire 17 [0x81, 0, 0, 0],
         Wire 0 [0, 0, 0, 3, 0, 128, 0, 0, 0, 0, 0, 0]]"
    by (simp add: sample_actions_def be32_def be16_def oxm_header_bytes_def ROUND_UP_def
        zero_pads)
  ultimately show ?thesis
    using actions_parse [OF pre(1,2,3) sample_actions_wf(1) pre(4) run] run by simp
qed

section \<open>Where the actions go wrong\<close>

text \<open>
  The room check looks at \<open>ptr1 + length1\<close>: whenever that position has
  room, an action is accepted and its bytes are stored at \<open>ptr3 + length3\<close>, however far that is
  behind the end of the buffer.
\<close>

theorem action_room_unchecked:
  assumes "wf_action c" and "pos1 msg + action_check c \<le> buf_end msg"
    and "exec_action c msg = (rc, msg')"
  shows "rc = OFU_ACTION_PUSH_SUCCESS
    \<and> read_bytes (pos3 msg) (length (action_head c)) (mem msg') = action_head c"
  using exec_action_push [OF assms(1), of msg] assms(2,3)
  by (auto simp: no_room_def read_write_disjoint read_write_same')

lemma action_room_unchecked_witness:
  "let msg = sample_apply\<lparr>length3 := 48\<rparr>
   in pos3 msg = buf_end msg
      \<and> read_bytes 1128 8 (mem (snd (exec_action (Group 5) msg))) = [0, 22, 0, 8, 0, 0, 0, 5]"
proof -
  let ?m = "sample_apply\<lparr>length3 := 48\<rparr>"
  have "pos1 ?m = 1072" "buf_end ?m = 1128" "pos3 ?m = 1128"
    by (simp_all add: sample_apply_def sample_msg_def pos1_def pos3_def buf_end_def)
  moreover have "action_head (Group 5) = [0, 22, 0, 8, 0, 0, 0, 5]"
    and len: "length (action_head (Group 5)) = 8"
    by (simp_all add: action_views be16_def be32_def)
  moreover have "wf_action (Group 5)" "action_check (Group 5) = 16"
    by (simp_all add: wf_action_def action_views)
  ultimately show ?thesis
    using action_room_unchecked [of "Group 5" ?m, unfolded len]
    by (cases "exec_action (Group 5) ?m") (simp del: exec_action.simps)
qed

text \<open>
  The decrement-MPLS-TTL action is stored at the write position but
  \<open>length1\<close> is advanced in place of \<open>length3\<close>: the next action overwrites it, and the match length
  grows by eight.
\<close>

theorem dec_mpls_ttl_overwritten:
  assumes "start_of_data msg \<le> ptr1 msg" and "pos1 msg + 16 \<le> buf_end msg"
    and "ofu_push_dec_mpls_ttl_action msg = (rc, msg1)"
    and "wf_action c" and "pos1 msg1 + action_check c \<le> buf_end msg"
    and "exec_action c msg1 = (rc2, msg2)"
  shows "rc = OFU_ACTION_PUSH_SUCCESS
    \<and> read_bytes (pos3 msg) 4 (mem msg1) = [0, 16, 0, 8]
    \<and> pos3 msg1 = pos3 msg \<and> pos1 msg1 = pos1 msg + 8
    \<and> read_bytes (pos3 msg) (length (action_head c)) (mem msg2) = action_head c"
proof -
  have m1: "rc = OFU_ACTION_PUSH_SUCCESS" "msg1 = advance1 8 (poke (pos3 msg) [0, 16, 0, 8] msg)"
    using assms(2,3) by (simp_all add: ofu_push_dec_mpls_ttl_action_def no_room_def msg_defs
        layout_simps poke_append be16_def Let_def)
  have "pos3 msg1 = pos3 msg" "buf_end msg1 = buf_end msg"
    by (simp_all add: m1(2) advance1_def poke_def pos3_def buf_end_def)
  moreover have "pos1 msg1 = pos1 msg + 8"
    unfolding m1(2) using assms(1,2) by (subst pos1_advance1) simp_all
  ultimately show ?thesis
    using m1 exec_action_push [OF assms(4), of msg1] assms(5,6)
    by (auto simp: no_room_def read_write_disjoint read_write_same' advance1_def)
qed

lemma dec_mpls_ttl_overwritten_witness:
  "read_bytes 1080 4 (mem (snd (exec_action Pop_vlan (snd (ofu_push_dec_mpls_ttl_action sample_apply)))))
     = [0, 18, 0, 8]"
proof -
  obtain rc m1 where m1: "ofu_push_dec_mpls_ttl_action sample_apply = (rc, m1)" by fastforce
  obtain rc2 m2 where m2: "exec_action Pop_vlan m1 = (rc2, m2)" by fastforce
  have st: "start_of_data sample_apply \<le> ptr1 sample_apply"
    by (simp add: sample_apply_def sample_msg_def)
  have "pos1 m1 = 1080"
    using dec_mpls_ttl_overwritten [OF st _ m1, of Pop_vlan] m1 st
    by (auto simp: ofu_push_dec_mpls_ttl_action_def no_room_def msg_defs layout_simps pos1_advance1
        Let_def)
  moreover have "action_head Pop_vlan = [0, 18, 0, 8]" and len: "length (action_head Pop_vlan) = 4"
    by (simp_all add: action_views be16_def)
  moreover have "wf_action Pop_vlan" "action_check Pop_vlan = 16"
    by (simp_all add: wf_action_def action_views)
  ultimately show ?thesis
    using dec_mpls_ttl_overwritten [OF st _ m1 _ _ m2, unfolded len] m1 m2
    by (simp del: exec_action.simps)
qed

text \<open>
  Copying the TTL inwards sets \<open>length3\<close> to eight in place of adding
  eight: of the actions pushed before it only the first eight bytes are still counted, and the copy
  action itself is not.
\<close>

theorem copy_ttl_inward_truncates:
  assumes "pos1 msg + 16 \<le> buf_end msg" and "8 \<le> unat (length3 msg)"
    and "ofu_push_copy_ttl_inward_action msg = (rc, msg')"
  shows "rc = OFU_ACTION_PUSH_SUCCESS
    \<and> read_bytes (pos3 msg) 4 (mem msg') = [0, 12, 0, 8]
    \<and> pos3 msg' = ptr3 msg + 8 \<and> pos3 msg' \<le> pos3 msg
    \<and> read_bytes (ptr3 msg) (unat (length3 msg')) (mem msg') = read_bytes (ptr3 msg) 8 (mem msg)"
proof -
  have m: "rc = OFU_ACTION_PUSH_SUCCESS" "msg' = (poke (pos3 msg) [0, 12, 0, 8] msg)\<lparr>length3 := 8\<rparr>"
    using assms(1,3) by (simp_all add: ofu_push_copy_ttl_inward_action_def no_room_def msg_defs
        layout_simps poke_append be16_def Let_def)
  have "pos3 msg' = ptr3 msg + 8" by (simp add: m(2) pos3_def)
  then show ?thesis
    using m assms(2) by (simp add: pos3_def read_write_same' read_write_disjoint)
qed

lemma copy_ttl_inward_truncates_witness:
  "pos3 (snd (ofu_push_copy_ttl_inward_action (sample_apply\<lparr>length3 := 32\<rparr>))) = 1088"
proof -
  let ?m = "sample_apply\<lparr>length3 := 32\<rparr>"
  have "pos1 ?m = 1072" "buf_end ?m = 1128" "ptr3 ?m = 1080"
    by (simp_all add: sample_apply_def sample_msg_def pos1_def buf_end_def)
  then show ?thesis
    using copy_ttl_inward_truncates [of ?m] by (cases "ofu_push_copy_ttl_inward_action ?m") simp
qed

text \<open>
  A set-field action clears its padding four bytes too late: the
  four bytes behind the TLV keep what the buffer held, and the clearing runs over the end of the
  action into the bytes that follow it.
\<close>

theorem set_field_padding_misplaced:
  assumes "wf_set_field c" and "pos1 msg + (8 + length (snd (set_field_value c))) \<le> buf_end msg"
    and "start_of_data msg \<le> ptr3 msg" and "pos3 msg + 32 \<le> buf_end msg"
    and "exec_set_field c msg = (rc, msg')"
  defines "n \<equiv> length (snd (set_field_value c))"
  defines "e \<equiv> pos3 msg + 8 + n"
  shows "pos3 msg' = e + ROUND_UP n
    \<and> (\<forall>x. e \<le> x \<and> x < e + 4 \<longrightarrow> mem msg' x = mem msg x)
    \<and> (\<forall>x. e + 4 \<le> x \<and> x < e + 4 + ROUND_UP n \<longrightarrow> mem msg' x = 0)"
proof -
  let ?h = "set_field_head (fst (set_field_value c)) (snd (set_field_value c))"
  let ?p = "poke (e + 4) (replicate (ROUND_UP n) 0) (poke (pos3 msg) ?h msg)"
  have m: "msg' = advance3 (8 + n + ROUND_UP n) ?p"
    using exec_set_field_push [OF assms(1), of msg] assms(2,5)
    by (simp add: push_set_field_def no_room_def n_def e_def add_ac)
  have "n \<le> 16" and "ROUND_UP n < 8"
    using set_field_value_bound [OF assms(1)] round_up_lt by (simp_all add: n_def)
  then have "pos3 msg' = e + ROUND_UP n"
    unfolding m using assms(3,4) by (subst pos3_advance3) (simp_all add: e_def)
  moreover have "mem msg' x = mem msg x" if "e \<le> x" "x < e + 4" for x
    using that by (simp add: m write_bytes_outside e_def n_def)
  moreover have "mem msg' x = 0" if "e + 4 \<le> x" "x < e + 4 + ROUND_UP n" for x
    using that by (simp add: m write_bytes_def)
  ultimately show ?thesis by blast
qed

lemma set_field_padding_misplaced_witness:
  "let msg' = snd (exec_set_field (SF_tcp_src_port 80) (sample_apply\<lparr>mem := \<lambda>_. 9\<rparr>))
   in pos3 msg' = 1096 \<and> mem msg' 1090 = 9 \<and> mem msg' 1099 = 0"
proof -
  let ?m = "sample_apply\<lparr>mem := \<lambda>_. 9\<rparr>"
  have "pos1 ?m = 1072" "buf_end ?m = 1128" "pos3 ?m = 1080" "start_of_data ?m \<le> ptr3 ?m"
    by (simp_all add: sample_apply_def sample_msg_def pos1_def pos3_def buf_end_def)
  moreover have "wf_set_field (SF_tcp_src_port 80)"
    and n: "length (snd (set_field_value (SF_tcp_src_port 80))) = 2" and r: "ROUND_UP 2 = 6"
    by (simp_all add: wf_set_field_def ROUND_UP_def)
  moreover obtain rc msg' where e: "exec_set_field (SF_tcp_src_port 80) ?m = (rc, msg')"
    by fastforce
  ultimately have "pos3 msg' = 1096
    \<and> (\<forall>x. 1090 \<le> x \<and> x < 1094 \<longrightarrow> mem msg' x = mem ?m x)
    \<and> (\<forall>x. 1094 \<le> x \<and> x < 1100 \<longrightarrow> mem msg' x = 0)"
    using set_field_padding_misplaced [OF _ _ _ _ e, unfolded n r] by simp
  then show ?thesis using spec [of _ 1090] spec [of _ 1099] e by (auto simp del: exec_set_field.simps)
qed

lemma wire_parse_unaligned:
  assumes "\<not> 8 dvd unat (of_be [l1, l2] :: u16)"
  shows "wire_parse (t1 # t2 # l1 # l2 # rest) = None"
  using assms by (subst wire_parse.simps) (simp add: Let_def)

text \<open>
  The set-field action for a PBB I-SID has length eighteen (eleven bytes
  padded as if its payload were one byte): not a multiple of eight, so no receiver accepts it.
\<close>

theorem set_field_pbb_unaligned:
  assumes "pos1 msg + 11 \<le> buf_end msg" and "start_of_data msg \<le> ptr3 msg"
    and "pos3 msg + 18 \<le> buf_end msg"
    and "ofu_push_set_pbb_isid_in_set_field_action v msg = (rc, msg')"
  shows "rc = OFU_ACTION_PUSH_SUCCESS \<and> pos3 msg' = pos3 msg + 18
    \<and> wire_parse (read_bytes (pos3 msg) (pos3 msg' - pos3 msg) (mem msg')) = None"
proof -
  let ?h = "[0, 25, 0, 18, 0x80, 0, 74, 3, v]"
  have m: "rc = OFU_ACTION_PUSH_SUCCESS"
    "msg' = advance3 18 (poke (pos3 msg + 15) (replicate 7 0) (poke (pos3 msg) ?h msg))"
    using assms(1,4) by (simp_all add: ofu_push_set_pbb_isid_in_set_field_action_def no_room_def
        msg_defs layout_simps poke_append be16_def oxm_header_bytes_def
        OF_SET_FIELD_ACTION_PADDING_LEN_def Let_def add.commute)
  have pos: "pos3 msg' = pos3 msg + 18"
    unfolding m using assms(2,3) by (subst pos3_advance3) simp_all
  have "read_bytes (pos3 msg) (9 + 9) (mem msg') = ?h @ read_bytes (pos3 msg + 9) 9 (mem msg')"
    unfolding read_bytes_split by (simp add: m read_write_disjoint read_write_same')
  moreover have "unat (of_be [0, 18] :: u16) = 18" by (simp add: of_be_def)
  ultimately show ?thesis using m(1) pos by (simp add: wire_parse_unaligned)
qed

lemma set_field_pbb_unaligned_witness:
  "wire_parse (read_bytes 1080 18 (mem (snd (ofu_push_set_pbb_isid_in_set_field_action 1 sample_apply))))
     = None"
  using set_field_pbb_unaligned [of sample_apply 1]
  by (cases "ofu_push_set_pbb_isid_in_set_field_action 1 sample_apply") auto

end
