(* ===== verification/Instructions.thy ===== *)
theory Instructions
  imports Actions
begin

text \<open>
  The instruction routines of \<open>of_msg_utils.c\<close>.  An instruction starts at \<open>ptr2 + length2\<close>, moves
  \<open>ptr2\<close> there and counts itself in \<open>length2\<close> and \<open>data_len\<close>; an apply-actions or write-actions
  instruction is opened, filled through the action routines, and closed by writing its length.
\<close>

section \<open>The routines\<close>

definition ofu_start_pushing_instructions :: "u16 \<Rightarrow> of_msg \<Rightarrow> of_msg" where
  "ofu_start_pushing_instructions length_of_match_fields msg =
     msg\<lparr>ptr2 := ptr1 msg + unat length_of_match_fields, length2 := 0\<rparr>"

definition ofu_start_pushing_apply_action_instruction :: "of_msg \<Rightarrow> msg_utilities \<times> of_msg" where
  "ofu_start_pushing_apply_action_instruction msg =
     (if no_room (pos2 msg + OFU_APPLY_ACTION_INSTRUCTION_LEN) msg then (OFU_NO_ROOM_IN_BUFFER, msg)
      else let
        msg = msg\<lparr>ptr2 := pos2 msg\<rparr>;
        msg = msg\<lparr>length2 := 0\<rparr>;
        action_instruction = pos2 msg;
        msg = st16 action_instruction OFPIT_APPLY_ACTIONS msg;
        msg = st16 (action_instruction + 2) 0 msg;
        msg = advance2 OFU_APPLY_ACTION_INSTRUCTION_LEN msg;
        msg = msg\<lparr>length3 := 0\<rparr>;
        msg = msg\<lparr>ptr3 := action_instruction + 8\<rparr>
      in (OFU_INSTRUCTION_PUSH_SUCCESS, msg))"

definition ofu_start_pushing_write_action_instruction :: "of_msg \<Rightarrow> msg_utilities \<times> of_msg" where
  "ofu_start_pushing_write_action_instruction msg =
     (if no_room (pos2 msg + OFU_WRITE_ACTION_INSTRUCTION_LEN) msg then (OFU_NO_ROOM_IN_BUFFER, msg)
      else let
        msg = msg\<lparr>ptr2 := pos2 msg\<rparr>;
        msg = msg\<lparr>length2 := 0\<rparr>;
        action_instruction = pos2 msg;
        msg = st16 action_instruction OFPIT_WRITE_ACTIONS msg;
        msg = st16 (action_instruction + 2) 0 msg;
        msg = advance2 OFU_WRITE_ACTION_INSTRUCTION_LEN msg;
        msg = msg\<lparr>length3 := 0\<rparr>;
        msg = msg\<lparr>ptr3 := action_instruction + 8\<rparr>
      in (OFU_INSTRUCTION_PUSH_SUCCESS, msg))"

definition ofu_push_write_meta_data_instruction ::
  "u64 \<Rightarrow> u64 \<Rightarrow> of_msg \<Rightarrow> msg_utilities \<times> of_msg" where
  "ofu_push_write_meta_data_instruction meta_data meta_data_mask msg =
     (if no_room (pos2 msg + OFU_WRITE_META_DATA_INSTRUCTION_LEN) msg then (OFU_NO_ROOM_IN_BUFFER, msg)
      else let
        msg = msg\<lparr>ptr2 := pos2 msg\<rparr>;
        msg = msg\<lparr>length2 := 0\<rparr>;
        metadata_instrctn = ptr2 msg;
        msg = st16 metadata_instrctn OFPIT_WRITE_METADATA msg;
        msg = st16 (metadata_instrctn + 2) (of_nat OFU_WRITE_META_DATA_INSTRUCTION_LEN) msg;
        msg = st64 (metadata_instrctn + 8) meta_data msg;
        msg = st64 (metadata_instrctn + 16) meta_data_mask msg;
        msg = advance2 OFU_WRITE_META_DATA_INSTRUCTION_LEN msg;
        msg = msg\<lparr>data_len := data_len msg + length2 msg\<rparr>
      in (OFU_INSTRUCTION_PUSH_SUCCESS, msg))"

definition ofu_push_go_to_table_instruction :: "u8 \<Rightarrow> of_msg \<Rightarrow> msg_utilities \<times> of_msg" where
  "ofu_push_go_to_table_instruction table_id msg =
     (if no_room (pos2 msg + OFU_GOTO_TABLE_INSTRUCTION_LEN) msg then (OFU_NO_ROOM_IN_BUFFER, msg)
      else let
        msg = msg\<lparr>ptr2 := pos2 msg\<rparr>;
        msg = msg\<lparr>length2 := 0\<rparr>;
        gototable_instrctn = pos2 msg;
        msg = st16 gototable_instrctn OFPIT_GOTO_TABLE msg;
        msg = st16 (gototable_instrctn + 2) (of_nat OFU_GOTO_TABLE_INSTRUCTION_LEN) msg;
        msg = st8 (gototable_instrctn + 4) table_id msg;
        msg = advance2 OFU_GOTO_TABLE_INSTRUCTION_LEN msg;
        msg = msg\<lparr>data_len := data_len msg + length2 msg\<rparr>
      in (OFU_INSTRUCTION_PUSH_SUCCESS, msg))"

definition ofu_push_clear_action_instruction :: "of_msg \<Rightarrow> msg_utilities \<times> of_msg" where
  "ofu_push_clear_action_instruction msg =
     (if no_room (pos2 msg + OFU_CLEAR_ACTION_INSTRUCTION_LEN) msg then (OFU_NO_ROOM_IN_BUFFER, msg)
      else let
        msg = msg\<lparr>ptr2 := pos2 msg\<rparr>;
        msg = msg\<lparr>length2 := 0\<rparr>;
        clear_action_instrctn = pos2 msg;
        msg = st16 clear_action_instrctn OFPIT_CLEAR_ACTIONS msg;
        msg = st16 (clear_action_instrctn + 2) 8 msg;
        msg = advance2 OFU_CLEAR_ACTION_INSTRUCTION_LEN msg;
        msg = msg\<lparr>data_len := data_len msg + length2 msg\<rparr>
      in (OFU_INSTRUCTION_PUSH_SUCCESS, msg))"

definition ofu_push_meter_instruction :: "u32 \<Rightarrow> of_msg \<Rightarrow> msg_utilities \<times> of_msg" where
  "ofu_push_meter_instruction meter_id msg =
     (if no_room (pos2 msg + OFU_METER_INSTRUCTION_LEN) msg then (OFU_NO_ROOM_IN_BUFFER, msg)
      else let
        msg = msg\<lparr>ptr2 := pos2 msg\<rparr>;
        msg = msg\<lparr>length2 := 0\<rparr>;
        meter_instrctn = pos2 msg;
        msg = st16 meter_instrctn OFPIT_METER msg;
        msg = st16 (meter_instrctn + 2) 8 msg;
        msg = st32 (meter_instrctn + 4) meter_id msg;
        msg = advance2 OFU_METER_INSTRUCTION_LEN msg;
        msg = msg\<lparr>data_len := data_len msg + length2 msg\<rparr>
      in (OFU_INSTRUCTION_PUSH_SUCCESS, msg))"

definition ofu_end_pushing_apply_action_instruction :: "u16 \<Rightarrow> of_msg \<Rightarrow> of_msg" where
  "ofu_end_pushing_apply_action_instruction length_of_actions msg =
     st16 (ptr2 msg + 2) length_of_actions msg"

definition ofu_end_pushing_instructions :: "of_msg \<Rightarrow> u16" where
  "ofu_end_pushing_instructions msg = length2 msg"

section \<open>The calls as data\<close>

datatype instr_call =
    Goto_table u8
  | Write_metadata u64 u64
  | Apply_actions "action_call list"
  | Write_actions "action_call list"
  | Clear_actions
  | Meter u32

text \<open>
  An action instruction as its callers build it: open, start the actions, push them up to the first
  failure, end the actions, and write the length.
\<close>

definition fill_action_instruction :: "action_call list \<Rightarrow> of_msg \<Rightarrow> bool \<times> of_msg" where
  "fill_action_instruction acts msg =
     (let msg = ofu_start_pushing_actions msg;
          (ok, msg) = push_all action_step acts msg;
          (length_of_actions, msg) = ofu_end_pushing_actions msg
      in (ok, ofu_end_pushing_apply_action_instruction length_of_actions msg))"

definition push_action_instruction ::
  "(of_msg \<Rightarrow> msg_utilities \<times> of_msg) \<Rightarrow> action_call list \<Rightarrow> of_msg \<Rightarrow> bool \<times> of_msg" where
  "push_action_instruction start acts msg =
     (let (rc, msg) = start msg in
      if rc \<noteq> OFU_INSTRUCTION_PUSH_SUCCESS then (False, msg) else fill_action_instruction acts msg)"

primrec instr_step :: "instr_call \<Rightarrow> of_msg \<Rightarrow> bool \<times> of_msg" where
  "instr_step (Goto_table t) msg = accepted (ofu_push_go_to_table_instruction t msg)"
| "instr_step (Write_metadata v k) msg = accepted (ofu_push_write_meta_data_instruction v k msg)"
| "instr_step (Apply_actions acts) msg =
     push_action_instruction ofu_start_pushing_apply_action_instruction acts msg"
| "instr_step (Write_actions acts) msg =
     push_action_instruction ofu_start_pushing_write_action_instruction acts msg"
| "instr_step Clear_actions msg = accepted (ofu_push_clear_action_instruction msg)"
| "instr_step (Meter m) msg = accepted (ofu_push_meter_instruction m msg)"

section \<open>What the calls promise\<close>

primrec instr_wire :: "instr_call \<Rightarrow> wire_tlv" where
  "instr_wire (Goto_table t) = Wire 1 (t # replicate 3 0)"
| "instr_wire (Write_metadata v k) = Wire 2 (replicate 4 0 @ be64 v @ be64 k)"
| "instr_wire (Apply_actions acts) = Wire 4 (replicate 4 0 @ encoding action_enc acts)"
| "instr_wire (Write_actions acts) = Wire 3 (replicate 4 0 @ encoding action_enc acts)"
| "instr_wire Clear_actions = Wire 5 (replicate 4 0)"
| "instr_wire (Meter m) = Wire 6 (be32 m)"

definition instr_enc :: "instr_call \<Rightarrow> u8 list" where
  "instr_enc c = wire_bytes (instr_wire c)"

definition wf_instr :: "instr_call \<Rightarrow> bool" where
  "wf_instr c \<longleftrightarrow> (case c of
       Apply_actions acts \<Rightarrow> \<forall>a \<in> set acts. wf_action a
     | Write_actions acts \<Rightarrow> \<forall>a \<in> set acts. wf_action a
     | _ \<Rightarrow> True)"

text \<open>
  The fields instructions leave alone, and the invariant: the rest of the buffer is zero, and
  \<open>data_len\<close> has grown by what was written.
\<close>

definition same_but2 :: "of_msg \<Rightarrow> of_msg \<Rightarrow> bool" where
  "same_but2 s0 msg \<longleftrightarrow> msg = s0\<lparr>ptr2 := ptr2 msg, length2 := length2 msg, ptr3 := ptr3 msg,
     length3 := length3 msg, data_len := data_len msg, mem := mem msg\<rparr>"

definition instr_inv :: "of_msg \<Rightarrow> of_msg \<Rightarrow> bool" where
  "instr_inv s0 msg \<longleftrightarrow> start_of_data msg \<le> ptr2 msg \<and> pos2 msg \<le> buf_end msg
     \<and> pos1 msg \<le> pos2 msg \<and> zeros (pos2 msg) (buf_end msg - pos2 msg) (mem msg)
     \<and> pos2 s0 \<le> pos2 msg \<and> data_len msg = data_len s0 + of_nat (pos2 msg - pos2 s0)
     \<and> same_but2 s0 msg"

definition instr_ok :: "instr_call \<Rightarrow> of_msg \<Rightarrow> bool" where
  "instr_ok c msg \<longleftrightarrow> wf_instr c \<and> pos2 msg + length (instr_enc c) + 4 \<le> buf_end msg"

lemma same_but2_fields:
  assumes "same_but2 s0 msg"
  shows "utils_ptr msg = utils_ptr s0" "ptr1 msg = ptr1 s0" "length1 msg = length1 s0"
    "pos1 msg = pos1 s0" "buf_end msg = buf_end s0" "start_of_data msg = start_of_data s0"
    "buffer_len msg = buffer_len s0" "msg_type msg = msg_type s0"
  using assms unfolding same_but2_def buf_end_def pos1_def by (cases msg, cases s0, simp)+

lemma same_but2_refl [simp]: "same_but2 s s"
  by (simp add: same_but2_def)

text \<open>
  What every accepted instruction does to the state, whatever it wrote: the new element starts at
  the old position and is counted in \<open>length2\<close> and \<open>data_len\<close>.
\<close>

definition instr_effect :: "u8 list \<Rightarrow> of_msg \<Rightarrow> of_msg \<Rightarrow> bool" where
  "instr_effect bs s s' \<longleftrightarrow> same_but2 s s' \<and> ptr2 s' = pos2 s \<and> length2 s' = of_nat (length bs)
     \<and> data_len s' = data_len s + of_nat (length bs)
     \<and> appended (pos2 s) (buf_end s) bs (mem s) (mem s')
     \<and> zeros (pos2 s + length bs) (buf_end s - (pos2 s + length bs)) (mem s')"

lemma same_but2_trans: "same_but2 a b \<Longrightarrow> same_but2 b c \<Longrightarrow> same_but2 a c"
  unfolding same_but2_def by (cases a, cases b, cases c) simp

lemma instr_effect_inv:
  assumes "instr_inv s0 s" and "instr_effect bs s s'" and "pos2 s + length bs \<le> buf_end s"
  shows "instr_inv s0 s' \<and> pos2 s' = pos2 s + length bs \<and> buf_end s' = buf_end s"
proof -
  have same: "same_but2 s s'" using assms(2) by (simp add: instr_effect_def)
  note f = same_but2_fields [OF same]
  have "length bs < 65536"
    using assms(1,3) unat_u16_less [of "buffer_len s"] by (simp add: instr_inv_def pos2_def buf_end_def)
  then have pos: "pos2 s' = pos2 s + length bs"
    using assms(2) by (simp add: instr_effect_def pos2_def)
  have "of_nat (pos2 s + length bs - pos2 s0) = (of_nat (pos2 s - pos2 s0) + of_nat (length bs) :: u16)"
    using assms(1) by (simp add: instr_inv_def flip: of_nat_add)
  then have "data_len s' = data_len s0 + of_nat (pos2 s' - pos2 s0)"
    using assms(1,2) pos by (simp add: instr_inv_def instr_effect_def)
  then show ?thesis
    using assms pos f same_but2_trans [OF _ same]
    by (simp add: instr_inv_def instr_effect_def pos2_def)
qed

section \<open>The instructions keep the appender contract\<close>

lemma instr_effectI:
  assumes "zeros (pos2 s) (buf_end s - pos2 s) (mem s)" and "pos2 s + length xs + t + 4 \<le> buf_end s"
    and "s' = s\<lparr>ptr2 := pos2 s, mem := write_bytes (pos2 s) xs (mem s),
                length2 := of_nat (length xs + t), data_len := data_len s + of_nat (length xs + t)\<rparr>"
  shows "instr_effect (xs @ replicate t 0) s s'"
  using appended_zero_tail [OF assms(1,2), of 0]
  by (simp add: assms(3) instr_effect_def same_but2_def)

lemma plain_instr_effect:
  assumes "instr_inv s0 s" and "pos2 s + length (instr_enc c) + 4 \<le> buf_end s"
    and "\<And>acts. c \<noteq> Apply_actions acts \<and> c \<noteq> Write_actions acts"
  shows "\<exists>s'. instr_step c s = (True, s') \<and> instr_effect (instr_enc c) s s'"
proof -
  have z: "zeros (pos2 s) (buf_end s - pos2 s) (mem s)" using assms(1) by (simp add: instr_inv_def)
  note ex = instr_effectI [OF z] 
  show ?thesis
  proof (cases c)
    case (Goto_table t)
    show ?thesis
      using ex [of "be16 1 @ be16 8 @ [t]" 3] assms(2) Goto_table
      by (simp add: instr_enc_def accepted_def ofu_push_go_to_table_instruction_def no_room_def msg_defs
          layout_simps poke_def advance2_def write_bytes_append pos2_def Let_def)
  next
    case (Write_metadata v k)
    have "write_bytes (pos2 s + 8) (be64 v @ be64 k) (write_bytes (pos2 s) (be16 2 @ be16 24) (mem s))
        = write_bytes (pos2 s) ((be16 2 @ be16 24) @ replicate 4 0 @ be64 v @ be64 k) (mem s)"
      using z assms(2) Write_metadata by (intro write_bytes_gap) (auto simp: instr_enc_def intro: zeros_sub)
    then show ?thesis
      using ex [of "be16 2 @ be16 24 @ replicate 4 0 @ be64 v @ be64 k" 0] assms(2) Write_metadata
      by (simp add: instr_enc_def accepted_def ofu_push_write_meta_data_instruction_def no_room_def
          msg_defs layout_simps poke_def advance2_def write_bytes_append pos2_def Let_def)
  next
    case Clear_actions
    show ?thesis
      using ex [of "be16 5 @ be16 8" 4] assms(2) Clear_actions
      by (simp add: instr_enc_def accepted_def ofu_push_clear_action_instruction_def no_room_def msg_defs
          layout_simps poke_def advance2_def write_bytes_append pos2_def Let_def)
  next
    case (Meter m)
    show ?thesis
      using ex [of "be16 6 @ be16 8 @ be32 m" 0] assms(2) Meter
      by (simp add: instr_enc_def accepted_def ofu_push_meter_instruction_def no_room_def msg_defs
          layout_simps poke_def advance2_def write_bytes_append pos2_def Let_def)
  qed (use assms(3) in auto)
qed

text \<open>Opening an action instruction: the header is written, \<open>ptr3\<close> points behind it.\<close>

definition opened :: "u16 \<Rightarrow> of_msg \<Rightarrow> of_msg" where
  "opened ty s = s\<lparr>ptr2 := pos2 s, length2 := 8, ptr3 := pos2 s + 8, length3 := 0,
     mem := write_bytes (pos2 s) (be16 ty @ be16 0) (mem s)\<rparr>"

lemma start_action_instruction:
  assumes "pos2 s + 8 \<le> buf_end s"
  shows "ofu_start_pushing_apply_action_instruction s = (OFU_INSTRUCTION_PUSH_SUCCESS, opened 4 s)"
    and "ofu_start_pushing_write_action_instruction s = (OFU_INSTRUCTION_PUSH_SUCCESS, opened 3 s)"
  using assms
  by (simp_all add: ofu_start_pushing_apply_action_instruction_def opened_def
      ofu_start_pushing_write_action_instruction_def no_room_def msg_defs layout_simps
      poke_def advance2_def write_bytes_append pos2_def Let_def)

lemma start_actions_opened: "ofu_start_pushing_actions (opened ty s) = opened ty s"
  by (simp add: ofu_start_pushing_actions_def opened_def)

lemma opened_fields [simp]:
  "pos3 (opened ty s) = pos2 s + 8" "pos1 (opened ty s) = pos1 s" "buf_end (opened ty s) = buf_end s"
  "start_of_data (opened ty s) = start_of_data s" "ptr3 (opened ty s) = pos2 s + 8"
  "ptr2 (opened ty s) = pos2 s" "length2 (opened ty s) = 8" "data_len (opened ty s) = data_len s"
  "mem (opened ty s) = write_bytes (pos2 s) (be16 ty @ be16 0) (mem s)"
  by (simp_all add: opened_def pos3_def pos1_def buf_end_def)

lemma opened_same_but2: "same_but3 (opened ty s) s1 \<Longrightarrow>
  s' = s1\<lparr>length2 := l, data_len := d, mem := m\<rparr> \<Longrightarrow> same_but2 s s'"
  unfolding same_but3_def same_but2_def opened_def by (cases s, cases s1) simp

text \<open>The memory of a closed action instruction.\<close>

lemma closed_instruction_layout:
  assumes z: "zeros p (lim - p) m" and n: "n = length e" and fits: "p + 8 + n + 4 \<le> lim"
    and app: "appended (p + 8) lim e (write_bytes p (be16 ty @ be16 0) m) m1"
    and z1: "zeros (p + 8 + n) (lim - (p + 8 + n)) m1"
    and m2_def: "m2 = write_bytes (p + 2) (be16 l) m1"
  shows "appended p lim (be16 ty @ be16 l @ replicate 4 0 @ e) m m2"
    and "zeros (p + (8 + n)) (lim - (p + (8 + n))) m2"
proof -
  have low: "m1 x = write_bytes p (be16 ty @ be16 0) m x" if "x < p + 8 \<or> lim \<le> x" for x
    using appended_frame [OF app] that by blast
  have "read_bytes p (2 + 2) m1 = be16 ty @ be16 0"
    using read_bytes_cong [of p 4 m1 "write_bytes p (be16 ty @ be16 0) m"] low
    by (simp add: read_write_same')
  then have ty: "read_bytes p 2 m1 = be16 ty" unfolding read_bytes_split by simp
  have "read_bytes (p + 4) 4 m1 = read_bytes (p + 4) 4 m"
    using low by (intro read_bytes_cong) (simp add: write_bytes_outside)
  also have "... = replicate 4 0" using z fits by (intro read_zeros) (auto intro: zeros_sub)
  finally have pad: "read_bytes (p + 4) 4 m1 = replicate 4 0" .
  have e: "read_bytes (p + 8) n m1 = e" using appended_read [OF app] n by simp
  have "read_bytes p (2 + (2 + (4 + n))) m2 = be16 ty @ be16 l @ replicate 4 0 @ e"
    unfolding read_bytes_split m2_def using ty pad e
    by (simp add: read_write_disjoint read_write_same' add.assoc)
  moreover have "m2 x = m x" if "x < p \<or> lim \<le> x" for x
    using that low [of x] fits unfolding m2_def by (auto simp: write_bytes_outside)
  ultimately show "appended p lim (be16 ty @ be16 l @ replicate 4 0 @ e) m m2"
    using n by (simp add: appended_def add.assoc [symmetric])
  show "zeros (p + (8 + n)) (lim - (p + (8 + n))) m2"
    using z1 unfolding m2_def by (intro zeros_write_disjoint) (simp_all add: add.assoc)
qed

lemma fill_action_instruction_effect:
  assumes inv: "instr_inv s0 s" and wf: "\<forall>a \<in> set acts. wf_action a"
    and fits: "pos2 s + (8 + length (encoding action_enc acts)) + 4 \<le> buf_end s"
  shows "\<exists>s'. fill_action_instruction acts (opened ty s) = (True, s')
    \<and> instr_effect (wire_bytes (Wire ty (replicate 4 0 @ encoding action_enc acts))) s s'"
proof -
  let ?o = "opened ty s" and ?e = "encoding action_enc acts"
  let ?n = "length ?e" and ?p = "pos2 s"
  have z: "zeros ?p (buf_end s - ?p) (mem s)" using inv by (simp add: instr_inv_def)
  have zo: "zeros (?p + 8) (buf_end s - (?p + 8)) (mem ?o)"
    using z fits by (auto intro!: zeros_write_disjoint intro: zeros_sub)
  have "action_inv ?o ?o"
    using inv fits zo by (intro action_inv_refl) (simp_all add: instr_inv_def pos2_def)
  from act.run_all [OF this wf] fits obtain s1 where
    run: "run_calls action_step acts ?o = (acts, s1)" and inv1: "action_inv ?o s1"
    and pos: "pos3 s1 = ?p + 8 + ?n"
    and app: "appended (?p + 8) (buf_end s) ?e (mem ?o) (mem s1)" by auto
  have same: "same_but3 ?o s1" using inv1 by (simp add: action_inv_def)
  note f = same_but3_fields [OF same]
  have "unat (length3 s1) = ?n" using pos f(9) by (simp add: pos3_def)
  moreover have "length3 s1 = of_nat (unat (length3 s1))" by simp
  ultimately have l3: "length3 s1 = of_nat ?n" by simp
  define s' where "s' = s1\<lparr>length2 := of_nat (8 + ?n), data_len := data_len s + of_nat (8 + ?n),
      mem := write_bytes (?p + 2) (be16 (of_nat (8 + ?n))) (mem s1)\<rparr>"
  have "fill_action_instruction acts ?o = (True, s')"
    using push_all_run [OF run] f l3
    by (simp add: fill_action_instruction_def start_actions_opened ofu_end_pushing_actions_def
        ofu_end_pushing_apply_action_instruction_def msg_defs poke_def s'_def Let_def)
  moreover have "zeros (?p + 8 + ?n) (buf_end s - (?p + 8 + ?n)) (mem s1)"
    using inv1 pos f by (simp add: action_inv_def)
  note lay = closed_instruction_layout [OF z refl _ app [simplified] this refl, of "of_nat (8 + ?n)"]
  have "instr_effect (wire_bytes (Wire ty (replicate 4 0 @ ?e))) s s'"
    unfolding instr_effect_def using lay fits f opened_same_but2 [OF same s'_def]
    by (simp add: s'_def)
  ultimately show ?thesis by blast
qed

lemma instr_step_effect:
  assumes "instr_inv s0 s" and "instr_ok c s"
  shows "\<exists>s'. instr_step c s = (True, s') \<and> instr_effect (instr_enc c) s s'"
proof (cases "\<exists>acts. c = Apply_actions acts \<or> c = Write_actions acts")
  case True
  then obtain acts where c: "c = Apply_actions acts \<or> c = Write_actions acts" by blast
  then have wf: "\<forall>a \<in> set acts. wf_action a"
    and fits: "pos2 s + (8 + length (encoding action_enc acts)) + 4 \<le> buf_end s"
    using assms(2) by (auto simp: instr_ok_def wf_instr_def instr_enc_def)
  show ?thesis
    using c fill_action_instruction_effect [OF assms(1) wf fits] start_action_instruction [of s] fits
    by (auto simp: push_action_instruction_def instr_enc_def)
next
  case False
  then show ?thesis using plain_instr_effect [OF assms(1)] assms(2) by (simp add: instr_ok_def)
qed

interpretation ins: bounded_appender instr_step pos2 buf_end mem instr_enc "instr_inv s0"
  instr_ok wf_instr 4 for s0
proof
  fix s c s'
  assume inv: "instr_inv s0 s" and ok: "instr_ok c s" and st: "instr_step c s = (True, s')"
  have eff: "instr_effect (instr_enc c) s s'" using instr_step_effect [OF inv ok] st by auto
  have "pos2 s + length (instr_enc c) \<le> buf_end s" using ok by (simp add: instr_ok_def)
  note * = instr_effect_inv [OF inv eff this]
  show "instr_inv s0 s'" "pos2 s' = pos2 s + length (instr_enc c)" "buf_end s' = buf_end s"
    using * by simp_all
  show "appended (pos2 s) (buf_end s) (instr_enc c) (mem s) (mem s')"
    using eff by (simp add: instr_effect_def)
next
  fix s c s'
  assume "instr_inv s0 s" and "instr_ok c s" and "instr_step c s = (False, s')"
  then show "s' = s" using instr_step_effect by fastforce
next
  fix s c
  assume "instr_inv s0 s" and "wf_instr c" and "pos2 s + length (instr_enc c) + 4 \<le> buf_end s"
  then show "instr_ok c s \<and> fst (instr_step c s)"
    using instr_step_effect [of s0 s c] by (auto simp: instr_ok_def)
qed (simp add: instr_inv_def)

section \<open>What a list of instructions leaves in the buffer\<close>

lemma instr_encoding: "encoding instr_enc cs = encoding wire_bytes (map instr_wire cs)"
  by (induction cs) (simp_all add: instr_enc_def)

lemma encoding_element: "c \<in> set cs \<Longrightarrow> length (enc c) \<le> length (encoding enc cs)"
  by (induction cs) auto

lemma wf_instr_wire:
  assumes "wf_instr c" and "length (instr_enc c) < 65536"
  shows "wf_wire (instr_wire c)"
  using assms action_encoding_parse(2)
  by (cases c) (auto simp: wf_instr_def instr_enc_def dvd_add_right_iff)

lemma instr_encoding_parse:
  assumes "\<forall>c \<in> set cs. wf_instr c" and "length (encoding instr_enc cs) < 65536"
  shows "wire_parse (encoding instr_enc cs) = Some (map instr_wire cs)"
    and "8 dvd length (encoding instr_enc cs)"
proof -
  have "\<forall>t \<in> set (map instr_wire cs). wf_wire t"
    using assms encoding_element [of _ cs instr_enc] wf_instr_wire by fastforce
  then show "wire_parse (encoding instr_enc cs) = Some (map instr_wire cs)"
    "8 dvd length (encoding instr_enc cs)"
    unfolding instr_encoding by (rule wire_parse_encoding, rule wire_encoding_aligned)
qed

lemma instr_inv_refl:
  assumes "start_of_data msg \<le> ptr2 msg" and "pos2 msg \<le> buf_end msg" and "pos1 msg \<le> pos2 msg"
    and "zeros (pos2 msg) (buf_end msg - pos2 msg) (mem msg)"
  shows "instr_inv msg msg"
  using assms by (simp add: instr_inv_def)

lemma instr_run:
  assumes "start_of_data msg \<le> ptr2 msg" and "pos1 msg \<le> pos2 msg"
    and "zeros (pos2 msg) (buf_end msg - pos2 msg) (mem msg)"
    and "\<forall>c \<in> set cs. wf_instr c"
    and "pos2 msg + length (encoding instr_enc cs) + 4 \<le> buf_end msg"
  obtains msg' where "run_calls instr_step cs msg = (cs, msg')" and "instr_inv msg msg'"
    and "pos2 msg' = pos2 msg + length (encoding instr_enc cs)"
    and "appended (pos2 msg) (buf_end msg) (encoding instr_enc cs) (mem msg) (mem msg')"
    and "wire_parse (encoding instr_enc cs) = Some (map instr_wire cs)"
    and "8 dvd length (encoding instr_enc cs)"
proof -
  have inv: "instr_inv msg msg" using assms by (intro instr_inv_refl) simp_all
  have "length (encoding instr_enc cs) < 65536"
    using assms(1,5) unat_u16_less [of "buffer_len msg"] by (simp add: pos2_def buf_end_def)
  then show thesis
    using ins.run_all [OF inv assms(4,5)] instr_encoding_parse [OF assms(4)] that by blast
qed

text \<open>The actions inside an action instruction, behind its four bytes of padding.\<close>

definition nested_actions :: "wire_tlv \<Rightarrow> wire_tlv list option" where
  "nested_actions w = (if wire_type w = 3 \<or> wire_type w = 4 then wire_parse (drop 4 (wire_body w)) else None)"

primrec instr_actions :: "instr_call \<Rightarrow> action_call list option" where
  "instr_actions (Goto_table t) = None"
| "instr_actions (Write_metadata v k) = None"
| "instr_actions (Apply_actions acts) = Some acts"
| "instr_actions (Write_actions acts) = Some acts"
| "instr_actions Clear_actions = None"
| "instr_actions (Meter m) = None"

lemma nested_actions_instr:
  "wf_instr c \<Longrightarrow> nested_actions (instr_wire c) = map_option (map action_wire) (instr_actions c)"
  by (cases c) (simp_all add: nested_actions_def wf_instr_def action_encoding_parse)

text \<open>
  C7. Pushing well-formed instructions (\<open>wf_instr\<close>: among their actions no set-queue, decrement
  of the MPLS TTL, copy of the TTL inwards or set-field of a PBB I-SID, which the code does not encode
  as it should) into a zeroed buffer with room for them and four bytes more accepts every one and leaves a list a receiver parses as exactly those instructions, in order; the action
  instructions contain exactly their actions; \<open>data_len\<close> grows by the bytes written; and memory in
  front of the write position and behind the buffer is unchanged.
\<close>

theorem instructions_parse:
  assumes "start_of_data msg \<le> ptr2 msg" and "pos1 msg \<le> pos2 msg"
    and "zeros (pos2 msg) (buf_end msg - pos2 msg) (mem msg)"
    and "\<forall>c \<in> set cs. wf_instr c"
    and "pos2 msg + length (encoding instr_enc cs) + 4 \<le> buf_end msg"
    and "run_calls instr_step cs msg = (acc, msg')"
  shows "acc = cs
    \<and> wire_parse (read_bytes (pos2 msg) (pos2 msg' - pos2 msg) (mem msg')) = Some (map instr_wire cs)
    \<and> map nested_actions (map instr_wire cs)
        = map (\<lambda>c. map_option (map action_wire) (instr_actions c)) cs
    \<and> data_len msg' = data_len msg + of_nat (pos2 msg' - pos2 msg)
    \<and> (\<forall>x. x < pos2 msg \<or> buf_end msg \<le> x \<longrightarrow> mem msg' x = mem msg x)"
proof -
  obtain s' where run: "run_calls instr_step cs msg = (cs, s')" and inv: "instr_inv msg s'"
    and pos: "pos2 s' = pos2 msg + length (encoding instr_enc cs)"
    and app: "appended (pos2 msg) (buf_end msg) (encoding instr_enc cs) (mem msg) (mem s')"
    and parse: "wire_parse (encoding instr_enc cs) = Some (map instr_wire cs)"
    by (rule instr_run [OF assms(1-5)])
  have "acc = cs" and "msg' = s'" using run assms(6) by simp_all
  then show ?thesis
    using inv pos parse appended_read [OF app] appended_frame [OF app] nested_actions_instr assms(4)
    by (simp add: instr_inv_def)
qed

definition sample_instrs :: "instr_call list" where
  "sample_instrs = [Apply_actions [Push_vlan 0x8100], Goto_table 2]"

definition sample_table :: of_msg where
  "sample_table = sample_msg\<lparr>length1 := 20, ptr2 := 1072, length2 := 0\<rparr>"

lemma sample_table_simps [simp]:
  "start_of_data sample_table = 1000" "ptr2 sample_table = 1072" "pos1 sample_table = 1072"
  "pos2 sample_table = 1072" "buf_end sample_table = 1128" "zeros a n (mem sample_table)"
  by (simp_all add: sample_table_def sample_msg_def pos1_def pos2_def buf_end_def zeros_def)

lemma sample_instrs_wf:
  "\<forall>c \<in> set sample_instrs. wf_instr c" "length (encoding instr_enc sample_instrs) = 24"
  by (simp_all add: sample_instrs_def wf_instr_def wf_action_def instr_enc_def action_enc_def)

lemma instructions_parse_witness:
  "wire_parse (read_bytes 1072 24 (mem (snd (run_calls instr_step sample_instrs sample_table))))
     = Some [Wire 4 [0, 0, 0, 0, 0, 17, 0, 8, 0x81, 0, 0, 0], Wire 1 [2, 0, 0, 0]]"
proof -
  obtain acc msg' where run: "run_calls instr_step sample_instrs sample_table = (acc, msg')"
    by fastforce
  have pre: "start_of_data sample_table \<le> ptr2 sample_table"
    "pos1 sample_table \<le> pos2 sample_table"
    "zeros (pos2 sample_table) (buf_end sample_table - pos2 sample_table) (mem sample_table)"
    "pos2 sample_table + length (encoding instr_enc sample_instrs) + 4 \<le> buf_end sample_table"
    by (simp_all add: sample_instrs_wf(2))
  have "pos2 msg' = 1096"
    using instr_run [OF pre(1,2,3) sample_instrs_wf(1) pre(4)] run sample_instrs_wf(2) by auto
  moreover have "map instr_wire sample_instrs
      = [Wire 4 [0, 0, 0, 0, 0, 17, 0, 8, 0x81, 0, 0, 0], Wire 1 [2, 0, 0, 0]]"
    by (simp add: sample_instrs_def action_enc_def be16_def zero_pads)
  ultimately show ?thesis
    using instructions_parse [OF pre(1,2,3) sample_instrs_wf(1) pre(4) run] run by simp
qed

end
