(* ===== verification/FlowMod.thy ===== *)
theory FlowMod
  imports Instructions
begin

text \<open>
  The flow-mod message: \<open>of_create_add_flow_entry_msg\<close> of \<open>of_cntlr_2_sw_msgapi.c\<close> fills the fixed
  part and points \<open>utils_ptr\<close> at the match.  The datapath lookup of the DPRM is an argument; what the
  message code uses of a datapath entry is whether it has a main connection and which.  The last
  theorem follows a message through creation, match fields and instructions.
\<close>

section \<open>Creating the message\<close>

record datapath_entry =
  is_main_conn_present :: bool
  main_channel :: "nat option"

datatype flow_status =
    OFU_ADD_FLOW_ENTRY_TO_TABLE_SUCCESS
  | DPRM_INVALID_DATAPATH_HANDLE
  | FLOW_OF_FAILURE

definition OFP_VERSION :: u8 where [layout_simps]: "OFP_VERSION = 0x04"
definition OFPT_FLOW_MOD :: u8 where [layout_simps]: "OFPT_FLOW_MOD = 14"
definition OFPP_ANY :: u32 where [layout_simps]: "OFPP_ANY = 0xffffffff"
definition OFPG_ANY :: u32 where [layout_simps]: "OFPG_ANY = 0xffffffff"

definition OFU_ADD_OR_MODIFY_OR_DELETE_FLOW_ENTRY_MESSAGE_LEN :: nat where [layout_simps]:
  "OFU_ADD_OR_MODIFY_OR_DELETE_FLOW_ENTRY_MESSAGE_LEN = sizeof_ofp_flow_mod"

record flow_mod_args =
  fm_table_id :: u8
  fm_priority :: u16
  fm_command :: u8
  fm_cookie :: u64
  fm_cookie_mask :: u64
  fm_buffer_id :: u32
  fm_flags :: u16
  fm_hard_timeout :: u16
  fm_idle_timeout :: u16

text \<open>
  The stores, in the order of the code.  The two wildcards are stored without \<open>htonl\<close>; all their
  bytes are equal.
\<close>

definition fill_flow_mod :: "flow_mod_args \<Rightarrow> of_msg \<Rightarrow> of_msg" where
  "fill_flow_mod a msg =
     (let flow_mod = start_of_data msg;
          msg = st8 flow_mod OFP_VERSION msg;
          msg = st8 (flow_mod + 1) OFPT_FLOW_MOD msg;
          msg = st32 (flow_mod + 4) 0 msg;
          msg = st64 (flow_mod + 8) (fm_cookie a) msg;
          msg = st64 (flow_mod + 16) (fm_cookie_mask a) msg;
          msg = st8 (flow_mod + 24) (fm_table_id a) msg;
          msg = st16 (flow_mod + 30) (fm_priority a) msg;
          msg = st8 (flow_mod + 25) (fm_command a) msg;
          msg = st32 (flow_mod + 32) (fm_buffer_id a) msg;
          msg = st16 (flow_mod + 28) (fm_hard_timeout a) msg;
          msg = st16 (flow_mod + 26) (fm_idle_timeout a) msg;
          msg = st32 (flow_mod + 36) OFPP_ANY msg;
          msg = st32 (flow_mod + 40) OFPG_ANY msg;
          msg = st16 (flow_mod + 44) (fm_flags a) msg;
          msg = msg\<lparr>data_len := data_len msg
                   + of_nat (OFU_ADD_OR_MODIFY_OR_DELETE_FLOW_ENTRY_MESSAGE_LEN - 4)\<rparr>
      in msg\<lparr>utils_ptr := start_of_data msg + 48\<rparr>)"

definition of_create_add_flow_entry_msg ::
  "(u64 \<Rightarrow> datapath_entry option) \<Rightarrow> u64 \<Rightarrow> flow_mod_args \<Rightarrow> of_msg
    \<Rightarrow> flow_status \<times> nat option \<times> of_msg" where
  "of_create_add_flow_entry_msg get_datapath_byhandle datapath_handle a msg =
     (case get_datapath_byhandle datapath_handle of
        None \<Rightarrow> (DPRM_INVALID_DATAPATH_HANDLE, None, msg)
      | Some datapath \<Rightarrow>
          let msg = fill_flow_mod a msg in
          if is_main_conn_present datapath then
            (case main_channel datapath of
               None \<Rightarrow> (FLOW_OF_FAILURE, None, msg)
             | Some conn_info \<Rightarrow> (OFU_ADD_FLOW_ENTRY_TO_TABLE_SUCCESS, Some conn_info, msg))
          else (FLOW_OF_FAILURE, None, msg))"

section \<open>The fixed part on the wire\<close>

definition flow_mod_fixed :: "flow_mod_args \<Rightarrow> u8 list" where
  "flow_mod_fixed a =
     [4, 14, 0, 0, 0, 0, 0, 0] @ be64 (fm_cookie a) @ be64 (fm_cookie_mask a)
     @ [fm_table_id a, fm_command a] @ be16 (fm_idle_timeout a) @ be16 (fm_hard_timeout a)
     @ be16 (fm_priority a) @ be32 (fm_buffer_id a) @ be32 0xffffffff @ be32 0xffffffff
     @ be16 (fm_flags a) @ [0, 0]"

lemma length_flow_mod_fixed [simp]: "length (flow_mod_fixed a) = 48"
  by (simp add: flow_mod_fixed_def)

lemma fill_flow_mod_fields [simp]:
  "start_of_data (fill_flow_mod a msg) = start_of_data msg"
  "buf_end (fill_flow_mod a msg) = buf_end msg"
  "buffer_len (fill_flow_mod a msg) = buffer_len msg"
  "utils_ptr (fill_flow_mod a msg) = start_of_data msg + 48"
  "data_len (fill_flow_mod a msg) = data_len msg + 52"
  by (simp_all add: fill_flow_mod_def msg_defs layout_simps Let_def buf_end_def)

lemma fill_flow_mod_outside:
  "x < start_of_data msg \<or> start_of_data msg + 48 \<le> x \<Longrightarrow> mem (fill_flow_mod a msg) x = mem msg x"
  by (auto simp: fill_flow_mod_def msg_defs layout_simps Let_def write_bytes_outside)

lemma fill_flow_mod_bytes:
  assumes "zeros (start_of_data msg) 48 (mem msg)"
  shows "read_bytes (start_of_data msg) 48 (mem (fill_flow_mod a msg)) = flow_mod_fixed a"
proof -
  let ?s = "start_of_data msg" and ?m = "mem (fill_flow_mod a msg)"
  have z: "read_bytes x 2 (mem msg) = [0, 0]" if "x = ?s + 2 \<or> x = ?s + 46" for x
    using that read_zeros [OF zeros_sub [OF assms], of x 2] by (auto simp: numeral_eq_Suc)
  have "be32 0 = [0, 0, 0, 0]" by (simp add: be32_def)
  then have "read_bytes ?s
      (1 + (1 + (2 + (4 + (8 + (8 + (1 + (1 + (2 + (2 + (2 + (4 + (4 + (4 + (2 + 2))))))))))))))) ?m
    = flow_mod_fixed a"
    unfolding read_bytes_split
    by (simp add: fill_flow_mod_def msg_defs layout_simps Let_def read_write_disjoint read_write_at
        z flow_mod_fixed_def)
  then show ?thesis by simp
qed

section \<open>A whole flow-mod\<close>

text \<open>The state in which the instructions start: behind the closed match, the rest still zero.\<close>

lemma flow_mod_opened:
  assumes "data_len msg = 0" and "8 dvd unat (buffer_len msg)" and "56 \<le> unat (buffer_len msg)"
    and "zeros (start_of_data msg) (unat (buffer_len msg)) (mem msg)"
    and "m0 = fill_flow_mod a msg"
    and "\<forall>c \<in> set mfs. wf_match c"
    and "run_calls match_step mfs (ofu_start_setting_match_field_values m0) = (acc, m1)"
    and "ofu_end_setting_match_field_values m1 = (len, m2)"
  defines "i \<equiv> ofu_start_pushing_instructions len m2"
    and "p \<equiv> start_of_data msg + 52 + unat len"
  shows "pos2 i = p" "ptr2 i = p" "pos1 i = p" "buf_end i = buf_end msg"
    "start_of_data i = start_of_data msg" "mem i = mem m2" "data_len i = 52 + len"
    "zeros (pos2 i) (buf_end i - pos2 i) (mem i)"
proof -
  have pre: "start_of_data m0 \<le> utils_ptr m0" "utils_ptr m0 + 8 \<le> buf_end m0"
    "8 dvd buf_end m0 - utils_ptr m0"
    using assms(2,3) by (simp_all add: assms(5) dvd_diff_nat) (simp_all add: buf_end_def dvd_diff_nat)
  note mb = ofp_match_built(1) [OF pre assms(6,7,8)]
  show i: "pos2 i = p" "ptr2 i = p" "pos1 i = p" "buf_end i = buf_end msg"
    "start_of_data i = start_of_data msg" "mem i = mem m2" "data_len i = 52 + len"
    using mb by (simp_all add: ofu_start_pushing_instructions_def pos2_def pos1_def buf_end_def
        assms(5) assms(1) i_def p_def)
  have ahead: "mem m2 x = mem msg x" if "p \<le> x" for x
    using mb that fill_flow_mod_outside [of x msg a] by (simp add: assms(5) p_def)
  show "zeros (pos2 i) (buf_end i - pos2 i) (mem i)"
    unfolding i(1,4,6) using assms(4) ahead by (auto simp: zeros_def p_def buf_end_def)
qed

text \<open>The message as a lemma, for the property below and for the flow entries built on it.\<close>

lemma flow_mod_built:
  assumes "data_len msg = 0" and "8 dvd unat (buffer_len msg)" and "56 \<le> unat (buffer_len msg)"
    and "zeros (start_of_data msg) (unat (buffer_len msg)) (mem msg)"
    and "of_create_add_flow_entry_msg get h a msg
           = (OFU_ADD_FLOW_ENTRY_TO_TABLE_SUCCESS, conn, m0)"
    and "\<forall>c \<in> set mfs. wf_match c" and "\<forall>i \<in> set instrs. wf_instr i"
    and "run_calls match_step mfs (ofu_start_setting_match_field_values m0) = (acc, m1)"
    and "ofu_end_setting_match_field_values m1 = (len, m2)"
    and "52 + unat len + length (encoding instr_enc instrs) + 4 \<le> unat (buffer_len msg)"
    and "run_calls instr_step instrs (ofu_start_pushing_instructions len m2) = (instrs', m3)"
  defines "s \<equiv> start_of_data msg" and "n \<equiv> unat (data_len m3)"
  shows "instrs' = instrs
    \<and> n = 52 + unat len + length (encoding instr_enc instrs) \<and> 8 dvd n \<and> n \<le> unat (buffer_len msg)
    \<and> start_of_data m3 = s
    \<and> read_bytes s 48 (mem m3) = flow_mod_fixed a
    \<and> ofp_match_parse (read_bytes (s + 48) (4 + unat len) (mem m3)) = Some (map match_oxm acc)
    \<and> wire_parse (read_bytes (s + 52 + unat len) (n - (52 + unat len)) (mem m3))
        = Some (map instr_wire instrs)
    \<and> (\<forall>x. x < s \<or> s + n \<le> x \<longrightarrow> mem m3 x = mem msg x)"
proof -
  let ?e = "encoding instr_enc instrs" and ?p = "start_of_data msg + 52 + unat len"
  let ?i = "ofu_start_pushing_instructions len m2"
  have m0: "m0 = fill_flow_mod a msg"
    using assms(5) by (auto simp: of_create_add_flow_entry_msg_def Let_def
        split: option.splits if_splits)
  have be: "buf_end msg = s + unat (buffer_len msg)" by (simp add: buf_end_def s_def)
  have pre: "start_of_data m0 \<le> utils_ptr m0" "utils_ptr m0 + 8 \<le> buf_end m0"
    "8 dvd buf_end m0 - utils_ptr m0"
    using assms(2,3) by (simp_all add: m0 be s_def dvd_diff_nat)
  note mb = ofp_match_built(1) [OF pre assms(6,8,9)]
  note i = flow_mod_opened(1-7) [OF assms(1-4) m0 assms(6,8,9)]
    and z = flow_mod_opened(8) [OF assms(1-4) m0 assms(6,8,9)]
  obtain m where run: "run_calls instr_step instrs ?i = (instrs, m)" and inv: "instr_inv ?i m"
    and pos: "pos2 m = ?p + length ?e"
    and app: "appended ?p (buf_end msg) ?e (mem m2) (mem m)"
    and parse: "wire_parse ?e = Some (map instr_wire instrs)" and al: "8 dvd length ?e"
    using instr_run [of ?i instrs] assms(7,10) z i be by (simp add: s_def) blast
  have m3: "instrs' = instrs" "m3 = m" using run assms(11) by simp_all
  have "data_len m = of_nat (52 + unat len + length ?e)"
    using inv i pos by (simp add: instr_inv_def add.assoc)
  then have n: "n = 52 + unat len + length ?e"
    using assms(10) unat_u16_less [of "buffer_len msg"] by (simp add: n_def m3 del: of_nat_add)
  have low: "mem m x = mem m2 x" if "x < ?p" for x using appended_frame [OF app] that by simp
  have "read_bytes s 48 (mem m) = read_bytes s 48 (mem m0)"
    using mb low by (intro read_bytes_cong) (simp add: m0 s_def)
  then have fixed: "read_bytes s 48 (mem m) = flow_mod_fixed a"
    using fill_flow_mod_bytes [of msg a] assms(3,4) by (simp add: m0 s_def zeros_def)
  have "read_bytes (s + 48) (4 + unat len) (mem m) = read_bytes (s + 48) (4 + unat len) (mem m2)"
    using low by (intro read_bytes_cong) (simp add: s_def)
  then have match: "ofp_match_parse (read_bytes (s + 48) (4 + unat len) (mem m)) = Some (map match_oxm acc)"
    using mb by (simp add: m0 s_def)
  have "mem m x = mem msg x" if "x < s \<or> s + n \<le> x" for x
  proof (cases "s + n \<le> x \<and> x < buf_end msg")
    case True
    have zm: "zeros (pos2 m) (buf_end m - pos2 m) (mem m)" and "buf_end m = buf_end msg"
      using inv i same_but2_fields(5) [of ?i m] by (simp_all add: instr_inv_def)
    then have "mem m x = 0" using True pos n by (intro zerosD [OF zm]) (simp_all add: s_def)
    moreover have "mem msg x = 0" using zerosD [OF assms(4)] True be by (simp add: s_def)
    ultimately show ?thesis by simp
  next
    case False
    then have "mem m x = mem m2 x" using that appended_frame [OF app, of x] n by (auto simp: s_def)
    also have "... = mem msg x"
      using mb that False be n fill_flow_mod_outside [of x msg a] assms(10) by (auto simp: m0 s_def)
    finally show ?thesis .
  qed
  moreover have "8 dvd 4 + unat len" using mb by simp
  then have "8 dvd n" using al n by presburger
  moreover have "read_bytes (s + 52 + unat len) (n - (52 + unat len)) (mem m) = ?e"
    using appended_read [OF app] n by (simp add: s_def)
  moreover have "start_of_data m = s"
    using inv i(5) same_but2_fields(6) [of ?i m] by (simp add: instr_inv_def s_def)
  ultimately show ?thesis using m3 n fixed match parse assms(10) by simp
qed

text \<open>
  C3. In a zeroed buffer of at least 56 bytes and a multiple of eight, creating an add-flow
  message, building its match from well-formed setter calls (\<open>wf_match\<close>: no PBB I-SID, no mask for a VLAN id
  or a tunnel id), and pushing well-formed instructions (\<open>wf_instr\<close>: among their actions no set-queue,
  decrement of the MPLS TTL, copy of the TTL inwards or set-field of a PBB I-SID) that fit with four bytes
  to spare leaves in the buffer the fixed part with the caller's values, a match that parses as the
  accepted TLVs, and behind it a list that parses as the instructions.  What is left out the code encodes
  wrongly.  \<open>data_len\<close> is the number of bytes from \<open>start_of_data\<close> to the end of the message,
  a multiple of eight within the buffer, and nothing behind it or in front of it changes.
\<close>

theorem flow_mod_build:
  assumes "data_len msg = 0" and "8 dvd unat (buffer_len msg)" and "56 \<le> unat (buffer_len msg)"
    and "zeros (start_of_data msg) (unat (buffer_len msg)) (mem msg)"
    and "of_create_add_flow_entry_msg get h a msg
           = (OFU_ADD_FLOW_ENTRY_TO_TABLE_SUCCESS, conn, m0)"
    and "\<forall>c \<in> set mfs. wf_match c" and "\<forall>i \<in> set instrs. wf_instr i"
    and "run_calls match_step mfs (ofu_start_setting_match_field_values m0) = (acc, m1)"
    and "ofu_end_setting_match_field_values m1 = (len, m2)"
    and "52 + unat len + length (encoding instr_enc instrs) + 4 \<le> unat (buffer_len msg)"
    and "run_calls instr_step instrs (ofu_start_pushing_instructions len m2) = (instrs', m3)"
  defines "s \<equiv> start_of_data msg" and "n \<equiv> unat (data_len m3)"
  shows "instrs' = instrs
    \<and> n = 52 + unat len + length (encoding instr_enc instrs) \<and> 8 dvd n \<and> n \<le> unat (buffer_len msg)
    \<and> start_of_data m3 = s
    \<and> read_bytes s 48 (mem m3) = flow_mod_fixed a
    \<and> ofp_match_parse (read_bytes (s + 48) (4 + unat len) (mem m3)) = Some (map match_oxm acc)
    \<and> wire_parse (read_bytes (s + 52 + unat len) (n - (52 + unat len)) (mem m3))
        = Some (map instr_wire instrs)
    \<and> (\<forall>x. x < s \<or> s + n \<le> x \<longrightarrow> mem m3 x = mem msg x)"
  using assms(1-11) unfolding s_def n_def by (rule flow_mod_built)

text \<open>The add-flow message of the sample fields and instructions.\<close>

definition sample_args :: flow_mod_args where
  "sample_args = \<lparr>fm_table_id = 1, fm_priority = 5, fm_command = 0, fm_cookie = 9,
     fm_cookie_mask = 0, fm_buffer_id = 0xffffffff, fm_flags = 4, fm_hard_timeout = 0,
     fm_idle_timeout = 60\<rparr>"

definition sample_lookup :: "u64 \<Rightarrow> datapath_entry option" where
  "sample_lookup h = (if h = 3 then Some \<lparr>is_main_conn_present = True, main_channel = Some 1\<rparr> else None)"

lemma flow_mod_build_witness:
  "let msg = sample_msg\<lparr>data_len := 0\<rparr>;
       (rc, conn, m0) = of_create_add_flow_entry_msg sample_lookup 3 sample_args msg;
       m1 = snd (run_calls match_step sample_calls (ofu_start_setting_match_field_values m0));
       (len, m2) = ofu_end_setting_match_field_values m1;
       m3 = snd (run_calls instr_step sample_instrs (ofu_start_pushing_instructions len m2))
   in data_len m3 = 104
      \<and> wire_parse (read_bytes 1080 24 (mem m3)) = Some (map instr_wire sample_instrs)"
proof -
  let ?msg = "sample_msg\<lparr>data_len := 0\<rparr>"
  let ?m0 = "fill_flow_mod sample_args ?msg"
  let ?s0 = "ofu_start_setting_match_field_values ?m0"
  have msg: "start_of_data ?msg = 1000" "buffer_len ?msg = 128" "buf_end ?msg = 1128"
    "data_len ?msg = 0" "zeros 1000 n (mem ?msg)" for n
    by (simp_all add: sample_msg_def buf_end_def zeros_def)
  have cr: "of_create_add_flow_entry_msg sample_lookup 3 sample_args ?msg
      = (OFU_ADD_FLOW_ENTRY_TO_TABLE_SUCCESS, Some 1, ?m0)"
    by (simp add: of_create_add_flow_entry_msg_def sample_lookup_def)
  have s0: "start_of_data ?s0 = 1000" "ptr1 ?s0 = 1052" "pos1 ?s0 = 1052" "buf_end ?s0 = 1128"
    by (simp_all add: start_setting_match msg)
  have "match_inv ?s0 ?s0" by (rule match_inv_refl) (simp_all add: s0)
  then have acc: "fst (run_calls match_step sample_calls ?s0) = sample_calls"
    using mf.run_all_ok [of ?s0 ?s0 sample_calls] sample_calls_wf sample_run(2) s0 by simp
  obtain m1 where run: "run_calls match_step sample_calls ?s0 = (sample_calls, m1)"
    using acc by (cases "run_calls match_step sample_calls ?s0") simp
  obtain len m2 where e: "ofu_end_setting_match_field_values m1 = (len, m2)" by fastforce
  obtain acc3 m3 where run3: "run_calls instr_step sample_instrs (ofu_start_pushing_instructions len m2)
      = (acc3, m3)" by fastforce
  have pre: "start_of_data ?m0 \<le> utils_ptr ?m0" "utils_ptr ?m0 + 8 \<le> buf_end ?m0"
    "8 dvd buf_end ?m0 - utils_ptr ?m0" by (simp_all add: msg)
  have "unat len = 28"
    using ofp_match_built(2) [OF pre sample_calls_wf run e] sample_run(2) by (simp add: ROUND_UP_def)
  then have "unat (data_len m3) = 104
      \<and> wire_parse (read_bytes 1080 24 (mem m3)) = Some (map instr_wire sample_instrs)"
    using flow_mod_build [OF _ _ _ _ cr sample_calls_wf sample_instrs_wf(1) run e _ run3] msg
      sample_instrs_wf(2) by auto
  moreover from this have "data_len m3 = 104"
    by (metis of_nat_numeral of_nat_unat ucast_id)
  ultimately show ?thesis by (simp add: cr run e run3)
qed

end
