(* ===== verification/Flow.thy ===== *)
theory Flow
  imports FlowMod
begin

text \<open>
  The flow-entry layer, \<open>of_flow.c\<close>: entries of the northbound interface, kept as generic records
  with one slot per data width, are turned into calls of the message utilities by switches over the
  field, action and instruction type.  A switch is one definition per run of arms; \<open>None\<close> means
  that no arm matched.  Pointers into a mask array read it in host byte order.
\<close>

section \<open>Entries\<close>

record ofi_flow_match_fields =
  mf_field_id :: u16
  mf_field_type :: u8
  mf_ui8_data :: u8
  mf_ui16_data :: u16
  mf_ui32_data :: u32
  mf_ui64_data :: u64
  mf_ui8_data_array :: "u8 list"
  mf_ipv6_addr :: "u8 list"
  mf_is_mask_set :: u8
  mf_mask :: "u8 list"

record ofi_flow_action =
  fa_action_id :: u16
  fa_action_type :: u8
  fa_port_no :: u32
  fa_ttl :: u8
  fa_ether_type :: u16
  fa_queue_id :: u32
  fa_group_id :: u32
  fa_setfield_type :: u8
  fa_ui8_data :: u8
  fa_ui16_data :: u16
  fa_ui32_data :: u32
  fa_ui64_data :: u64
  fa_ui8_data_array :: "u8 list"
  fa_ipv6_addr :: "u8 list"

record ofi_flow_instruction =
  fi_inst_id :: u16
  fi_instruction_type :: u8
  fi_ui8_data :: u8
  fi_ui32_data :: u32
  fi_ui64_data :: u64
  fi_mask :: "u8 list"
  fi_action_list :: "ofi_flow_action list"

record ofi_flow_mod_info =
  fe_flow_id :: u32
  fe_table_id :: u8
  fe_priority :: u16
  fe_command :: u8
  fe_idle_timeout :: u16
  fe_hard_timeout :: u16
  fe_cookie :: u64
  fe_cookie_mask :: u64
  fe_flow_flags :: u8
  fe_match_field_list :: "ofi_flow_match_fields list"
  fe_instruction_list :: "ofi_flow_instruction list"
  fe_action_list :: "ofi_flow_action list"

definition OFPCML_NO_BUFFER :: u16 where [layout_simps]: "OFPCML_NO_BUFFER = 0xffff"

definition host16 :: "u8 list \<Rightarrow> u16" where "host16 bs = of_be (rev (take 2 bs))"
definition host32 :: "u8 list \<Rightarrow> u32" where "host32 bs = of_be (rev (take 4 bs))"
definition host64 :: "u8 list \<Rightarrow> u64" where "host64 bs = of_be (rev (take 8 bs))"

datatype of_status =
    OF_SUCCESS
  | OF_FAILURE
  | OF_FLOWMOD_ERROR_INVALID_MISSENTRY
  | OF_FLOWMOD_GOTOTABLE_INVALID

text \<open>
  The three ways an arm treats a result: report the code or a failure (\<open>None\<close>), set the status, or
  leave the status alone.
\<close>

definition checked :: "msg_utilities \<Rightarrow> msg_utilities \<times> of_msg \<Rightarrow> msg_utilities option \<times> of_msg" where
  "checked expected r = (if fst r \<noteq> expected then None else Some (fst r), snd r)"

definition failing :: "msg_utilities \<Rightarrow> msg_utilities \<times> of_msg \<Rightarrow> of_status \<times> of_msg" where
  "failing expected r = (if fst r \<noteq> expected then OF_FAILURE else OF_SUCCESS, snd r)"

definition unnoticed :: "msg_utilities \<times> of_msg \<Rightarrow> of_status \<times> of_msg" where
  "unnoticed r = (OF_SUCCESS, snd r)"


section \<open>Set-field actions\<close>

definition setfield_arms1 :: "ofi_flow_action \<Rightarrow> of_msg \<Rightarrow> (msg_utilities option \<times> of_msg) option" where
  "setfield_arms1 f msg =
     (let ty = scast (fa_setfield_type f) in
      if ty = OFPXMT_OFB_IN_PORT then
        Some (checked OFU_ACTION_PUSH_SUCCESS (ofu_push_set_port_in_set_field_action (fa_ui32_data f) msg)) else
      if ty = OFPXMT_OFB_IN_PHY_PORT then
        Some (checked OFU_ACTION_PUSH_SUCCESS (ofu_push_set_in_physical_port_in_set_field_action (fa_ui32_data f) msg)) else
      if ty = OFPXMT_OFB_ETH_DST then
        Some (checked OFU_ACTION_PUSH_SUCCESS (ofu_push_set_destination_mac_in_set_field_action (fa_ui8_data_array f) msg)) else
      if ty = OFPXMT_OFB_ETH_SRC then
        Some (checked OFU_ACTION_PUSH_SUCCESS (ofu_push_set_source_mac_in_set_field_action (fa_ui8_data_array f) msg)) else
      if ty = OFPXMT_OFB_ETH_TYPE then
        Some (checked OFU_ACTION_PUSH_SUCCESS (ofu_push_set_eth_type_in_set_field_action (fa_ui16_data f) msg)) else
      if ty = OFPXMT_OFB_VLAN_VID then
        Some (checked OFU_ACTION_PUSH_SUCCESS (ofu_push_set_vlan_id_in_set_field_action (fa_ui16_data f) msg)) else
      if ty = OFPXMT_OFB_IP_PROTO then
        Some (checked OFU_ACTION_PUSH_SUCCESS (ofu_push_set_ip_protocol_in_set_field_action (fa_ui8_data f) msg)) else
      if ty = OFPXMT_OFB_IPV4_SRC then
        Some (checked OFU_ACTION_PUSH_SUCCESS (ofu_push_set_ipv4_src_addr_in_set_field_action (fa_ui32_data f) msg)) else
      if ty = OFPXMT_OFB_IPV4_DST then
        Some (checked OFU_ACTION_PUSH_SUCCESS (ofu_push_set_ipv4_dst_addr_in_set_field_action (fa_ui32_data f) msg)) else
      if ty = OFPXMT_OFB_TCP_SRC then
        Some (checked OFU_ACTION_PUSH_SUCCESS (ofu_push_set_tcp_src_port_in_set_field_action (fa_ui16_data f) msg)) else
      if ty = OFPXMT_OFB_TCP_DST then
        Some (checked OFU_ACTION_PUSH_SUCCESS (ofu_push_set_tcp_dst_port_in_set_field_action (fa_ui16_data f) msg)) else
      None)"

definition setfield_arms2 :: "ofi_flow_action \<Rightarrow> of_msg \<Rightarrow> (msg_utilities option \<times> of_msg) option" where
  "setfield_arms2 f msg =
     (let ty = scast (fa_setfield_type f) in
      if ty = OFPXMT_OFB_UDP_SRC then
        Some (checked OFU_ACTION_PUSH_SUCCESS (ofu_push_set_udp_src_port_in_set_field_action (fa_ui16_data f) msg)) else
      if ty = OFPXMT_OFB_UDP_DST then
        Some (checked OFU_ACTION_PUSH_SUCCESS (ofu_push_set_udp_dst_port_in_set_field_action (fa_ui16_data f) msg)) else
      if ty = OFPXMT_OFB_SCTP_SRC then
        Some (checked OFU_ACTION_PUSH_SUCCESS (ofu_push_set_sctp_src_port_in_set_field_action (fa_ui16_data f) msg)) else
      if ty = OFPXMT_OFB_SCTP_DST then
        Some (checked OFU_ACTION_PUSH_SUCCESS (ofu_push_set_sctp_dst_port_in_set_field_action (fa_ui16_data f) msg)) else
      if ty = OFPXMT_OFB_ICMPV4_TYPE then
        Some (checked OFU_ACTION_PUSH_SUCCESS (ofu_push_set_icmpv4_type_in_set_field_action (fa_ui8_data f) msg)) else
      if ty = OFPXMT_OFB_ICMPV4_CODE then
        Some (checked OFU_ACTION_PUSH_SUCCESS (ofu_push_set_icmpv4_code_in_set_field_action (fa_ui8_data f) msg)) else
      if ty = OFPXMT_OFB_ARP_OP then
        Some (checked OFU_ACTION_PUSH_SUCCESS (ofu_push_set_arp_opcode_in_set_field_action (fa_ui16_data f) msg)) else
      if ty = OFPXMT_OFB_MPLS_LABEL then
        Some (checked OFU_ACTION_PUSH_SUCCESS (ofu_push_set_mpls_label_in_set_field_action (fa_ui32_data f) msg)) else
      if ty = OFPXMT_OFB_MPLS_TC then
        Some (checked OFU_ACTION_PUSH_SUCCESS (ofu_push_set_mpls_tc_in_set_field_action (fa_ui8_data f) msg)) else
      if ty = OFPXMT_OFB_MPLS_BOS then
        Some (checked OFU_ACTION_PUSH_SUCCESS (ofu_push_set_mpls_bos_bits_in_set_field_action (fa_ui8_data f) msg)) else
      if ty = OFPXMT_OFB_PBB_ISID then
        Some (checked OFU_ACTION_PUSH_SUCCESS (ofu_push_set_pbb_isid_in_set_field_action (fa_ui8_data f) msg)) else
      if ty = OFPXMT_OFB_TUNNEL_ID then
        Some (checked OFU_ACTION_PUSH_SUCCESS (ofu_push_set_logical_port_meta_data_in_set_field_action (fa_ui64_data f) msg)) else
      None)"

definition setfield_arms3 :: "ofi_flow_action \<Rightarrow> of_msg \<Rightarrow> (msg_utilities option \<times> of_msg) option" where
  "setfield_arms3 f msg =
     (let ty = scast (fa_setfield_type f) in
      if ty = OFPXMT_OFB_VLAN_PCP then
        Some (checked OFU_ACTION_PUSH_SUCCESS (ofu_push_set_vlan_priority_bits_in_set_field_action (ucast (fa_ui64_data f)) msg)) else
      if ty = OFPXMT_OFB_ARP_SPA then
        Some (checked OFU_SET_FIELD_SUCCESS (ofu_push_set_arp_source_ipv4_addr_in_set_field_action (fa_ui32_data f) msg)) else
      if ty = OFPXMT_OFB_ARP_TPA then
        Some (checked OFU_SET_FIELD_SUCCESS (ofu_push_set_arp_target_ipv4_addr_in_set_field_action (fa_ui32_data f) msg)) else
      if ty = OFPXMT_OFB_ARP_SHA then
        Some (checked OFU_SET_FIELD_SUCCESS (ofu_push_set_arp_source_hw_addr_in_set_field_action (fa_ui8_data_array f) msg)) else
      if ty = OFPXMT_OFB_ARP_THA then
        Some (checked OFU_SET_FIELD_SUCCESS (ofu_push_set_arp_target_hw_addr_in_set_field_action (fa_ui8_data_array f) msg)) else
      if ty = OFPXMT_OFB_IP_DSCP then
        Some (checked OFU_SET_FIELD_SUCCESS (ofu_push_set_ip_dscp_bits_in_set_field_action (fa_ui8_data f) msg)) else
      if ty = OFPXMT_OFB_IP_ECN then
        Some (checked OFU_SET_FIELD_SUCCESS (ofu_push_set_ip_ecn_bits_in_set_field_action (fa_ui8_data f) msg)) else
      if ty = OFPXMT_OFB_IPV6_SRC then
        Some (checked OFU_ACTION_PUSH_SUCCESS (ofu_push_set_source_ipv6_addr_in_set_field_action (fa_ipv6_addr f) msg)) else
      if ty = OFPXMT_OFB_IPV6_DST then
        Some (checked OFU_ACTION_PUSH_SUCCESS (ofu_push_set_destination_ipv6_addr_in_set_field_action (fa_ipv6_addr f) msg)) else
      if ty = OFPXMT_OFB_IPV6_FLABEL then
        Some (checked OFU_ACTION_PUSH_SUCCESS (ofu_push_set_ipv6_flow_label_in_set_field_action (fa_ui32_data f) msg)) else
      if ty = OFPXMT_OFB_ICMPV6_TYPE then
        Some (checked OFU_ACTION_PUSH_SUCCESS (ofu_push_set_icmpv6_type_in_set_field_action (fa_ui8_data f) msg)) else
      if ty = OFPXMT_OFB_ICMPV6_CODE then
        Some (checked OFU_ACTION_PUSH_SUCCESS (ofu_push_set_icmpv6_code_in_set_field_action (fa_ui8_data f) msg)) else
      None)"

definition setfield_arms4 :: "ofi_flow_action \<Rightarrow> of_msg \<Rightarrow> (msg_utilities option \<times> of_msg) option" where
  "setfield_arms4 f msg =
     (let ty = scast (fa_setfield_type f) in
      if ty = OFPXMT_OFB_IPV6_ND_TARGET then
        Some (checked OFU_ACTION_PUSH_SUCCESS (ofu_push_set_nd_target_ipv6_addr_in_set_field_action (fa_ipv6_addr f) msg)) else
      if ty = OFPXMT_OFB_IPV6_ND_SLL then
        Some (checked OFU_ACTION_PUSH_SUCCESS (ofu_push_set_nd_source_link_layer_addr_in_set_field_action (fa_ui8_data_array f) msg)) else
      if ty = OFPXMT_OFB_IPV6_ND_TLL then
        Some (checked OFU_ACTION_PUSH_SUCCESS (ofu_push_set_nd_target_link_layer_addr_in_set_field_action (fa_ui8_data_array f) msg)) else
      if ty = OFPXMT_OFB_IPV6_EXTHDR then
        Some (checked OFU_ACTION_PUSH_SUCCESS (ofu_push_set_ipv6_exthdr_field_in_set_field_action (fa_ui16_data f) msg)) else
      None)"

definition of_flow_set_action_setfield :: "ofi_flow_action \<Rightarrow> of_msg \<Rightarrow> msg_utilities option \<times> of_msg" where
  "of_flow_set_action_setfield f msg =
     (case setfield_arms1 f msg of Some r \<Rightarrow> r | None \<Rightarrow>
     (case setfield_arms2 f msg of Some r \<Rightarrow> r | None \<Rightarrow>
     (case setfield_arms3 f msg of Some r \<Rightarrow> r | None \<Rightarrow>
     (case setfield_arms4 f msg of Some r \<Rightarrow> r | None \<Rightarrow>
     (None, msg)))))"

text \<open>The call an action record stands for, and the field types whose success the code misses.\<close>

definition setfield_call :: "ofi_flow_action \<Rightarrow> set_field_call option" where
  "setfield_call f =
     (let ty = scast (fa_setfield_type f) in
      if ty = OFPXMT_OFB_IN_PORT then Some (SF_port (fa_ui32_data f)) else
      if ty = OFPXMT_OFB_IN_PHY_PORT then Some (SF_in_physical_port (fa_ui32_data f)) else
      if ty = OFPXMT_OFB_ETH_DST then Some (SF_destination_mac (fa_ui8_data_array f)) else
      if ty = OFPXMT_OFB_ETH_SRC then Some (SF_source_mac (fa_ui8_data_array f)) else
      if ty = OFPXMT_OFB_ETH_TYPE then Some (SF_eth_type (fa_ui16_data f)) else
      if ty = OFPXMT_OFB_VLAN_VID then Some (SF_vlan_id (fa_ui16_data f)) else
      if ty = OFPXMT_OFB_IP_PROTO then Some (SF_ip_protocol (fa_ui8_data f)) else
      if ty = OFPXMT_OFB_IPV4_SRC then Some (SF_ipv4_src_addr (fa_ui32_data f)) else
      if ty = OFPXMT_OFB_IPV4_DST then Some (SF_ipv4_dst_addr (fa_ui32_data f)) else
      if ty = OFPXMT_OFB_TCP_SRC then Some (SF_tcp_src_port (fa_ui16_data f)) else
      if ty = OFPXMT_OFB_TCP_DST then Some (SF_tcp_dst_port (fa_ui16_data f)) else
      if ty = OFPXMT_OFB_UDP_SRC then Some (SF_udp_src_port (fa_ui16_data f)) else
      if ty = OFPXMT_OFB_UDP_DST then Some (SF_udp_dst_port (fa_ui16_data f)) else
      if ty = OFPXMT_OFB_SCTP_SRC then Some (SF_sctp_src_port (fa_ui16_data f)) else
      if ty = OFPXMT_OFB_SCTP_DST then Some (SF_sctp_dst_port (fa_ui16_data f)) else
      if ty = OFPXMT_OFB_ICMPV4_TYPE then Some (SF_icmpv4_type (fa_ui8_data f)) else
      if ty = OFPXMT_OFB_ICMPV4_CODE then Some (SF_icmpv4_code (fa_ui8_data f)) else
      if ty = OFPXMT_OFB_ARP_OP then Some (SF_arp_opcode (fa_ui16_data f)) else
      if ty = OFPXMT_OFB_MPLS_LABEL then Some (SF_mpls_label (fa_ui32_data f)) else
      if ty = OFPXMT_OFB_MPLS_TC then Some (SF_mpls_tc (fa_ui8_data f)) else
      if ty = OFPXMT_OFB_MPLS_BOS then Some (SF_mpls_bos_bits (fa_ui8_data f)) else
      if ty = OFPXMT_OFB_PBB_ISID then Some (SF_pbb_isid (fa_ui8_data f)) else
      if ty = OFPXMT_OFB_TUNNEL_ID then Some (SF_logical_port_meta_data (fa_ui64_data f)) else
      if ty = OFPXMT_OFB_VLAN_PCP then Some (SF_vlan_priority_bits (ucast (fa_ui64_data f))) else
      if ty = OFPXMT_OFB_ARP_SPA then Some (SF_arp_source_ipv4_addr (fa_ui32_data f)) else
      if ty = OFPXMT_OFB_ARP_TPA then Some (SF_arp_target_ipv4_addr (fa_ui32_data f)) else
      if ty = OFPXMT_OFB_ARP_SHA then Some (SF_arp_source_hw_addr (fa_ui8_data_array f)) else
      if ty = OFPXMT_OFB_ARP_THA then Some (SF_arp_target_hw_addr (fa_ui8_data_array f)) else
      if ty = OFPXMT_OFB_IP_DSCP then Some (SF_ip_dscp_bits (fa_ui8_data f)) else
      if ty = OFPXMT_OFB_IP_ECN then Some (SF_ip_ecn_bits (fa_ui8_data f)) else
      if ty = OFPXMT_OFB_IPV6_SRC then Some (SF_source_ipv6_addr (fa_ipv6_addr f)) else
      if ty = OFPXMT_OFB_IPV6_DST then Some (SF_destination_ipv6_addr (fa_ipv6_addr f)) else
      if ty = OFPXMT_OFB_IPV6_FLABEL then Some (SF_ipv6_flow_label (fa_ui32_data f)) else
      if ty = OFPXMT_OFB_ICMPV6_TYPE then Some (SF_icmpv6_type (fa_ui8_data f)) else
      if ty = OFPXMT_OFB_ICMPV6_CODE then Some (SF_icmpv6_code (fa_ui8_data f)) else
      if ty = OFPXMT_OFB_IPV6_ND_TARGET then Some (SF_nd_target_ipv6_addr (fa_ipv6_addr f)) else
      if ty = OFPXMT_OFB_IPV6_ND_SLL then Some (SF_nd_source_link_layer_addr (fa_ui8_data_array f)) else
      if ty = OFPXMT_OFB_IPV6_ND_TLL then Some (SF_nd_target_link_layer_addr (fa_ui8_data_array f)) else
      if ty = OFPXMT_OFB_IPV6_EXTHDR then Some (SF_ipv6_exthdr_field (fa_ui16_data f)) else
      None)"

definition setfield_misread :: "ofi_flow_action \<Rightarrow> bool" where
  "setfield_misread f \<longleftrightarrow> scast (fa_setfield_type f) \<in> {OFPXMT_OFB_ARP_SPA, OFPXMT_OFB_ARP_TPA, OFPXMT_OFB_ARP_SHA, OFPXMT_OFB_ARP_THA, OFPXMT_OFB_IP_DSCP, OFPXMT_OFB_IP_ECN}"

section \<open>Actions\<close>

definition of_flow_push_action :: "ofi_flow_action \<Rightarrow> of_msg \<Rightarrow> of_status \<times> of_msg" where
  "of_flow_push_action f msg =
     (let ty = ucast (fa_action_type f) in
      if ty = OFPAT_OUTPUT then failing OFU_ACTION_PUSH_SUCCESS (ofu_push_output_action (fa_port_no f) OFPCML_NO_BUFFER msg) else
      if ty = OFPAT_COPY_TTL_OUT then failing OFU_ACTION_PUSH_SUCCESS (ofu_push_copy_ttl_outward_action msg) else
      if ty = OFPAT_COPY_TTL_IN then failing OFU_ACTION_PUSH_SUCCESS (ofu_push_copy_ttl_inward_action msg) else
      if ty = OFPAT_SET_MPLS_TTL then failing OFU_ACTION_PUSH_SUCCESS (ofu_push_set_mpls_ttl_action (fa_ttl f) msg) else
      if ty = OFPAT_DEC_MPLS_TTL then failing OFU_ACTION_PUSH_SUCCESS (ofu_push_dec_mpls_ttl_action msg) else
      if ty = OFPAT_PUSH_VLAN then failing OFU_ACTION_PUSH_SUCCESS (ofu_push_push_vlan_header_action (fa_ether_type f) msg) else
      if ty = OFPAT_POP_VLAN then failing OFU_ACTION_PUSH_SUCCESS (ofu_push_pop_vlan_header_action msg) else
      if ty = OFPAT_PUSH_MPLS then failing OFU_ACTION_PUSH_SUCCESS (ofu_push_push_mpls_header_action (fa_ether_type f) msg) else
      if ty = OFPAT_POP_MPLS then failing OFU_ACTION_PUSH_SUCCESS (ofu_push_pop_mpls_header_action (fa_ether_type f) msg) else
      if ty = OFPAT_SET_QUEUE then failing OFU_ACTION_PUSH_SUCCESS (ofu_push_set_queue_action (fa_queue_id f) msg) else
      if ty = OFPAT_GROUP then failing OFU_ACTION_PUSH_SUCCESS (ofu_push_group_action (fa_group_id f) msg) else
      if ty = OFPAT_SET_NW_TTL then failing OFU_ACTION_PUSH_SUCCESS (ofu_push_set_ipv4_ttl_action (fa_ttl f) msg) else
      if ty = OFPAT_DEC_NW_TTL then failing OFU_ACTION_PUSH_SUCCESS (ofu_push_dec_ipv4_ttl_action msg) else
      if ty = OFPAT_SET_FIELD then
        (case of_flow_set_action_setfield f msg of
           (retval, msg) \<Rightarrow>
             (if retval \<noteq> Some OFU_ACTION_PUSH_SUCCESS then OF_FAILURE else OF_SUCCESS, msg)) else
      if ty = OFPAT_PUSH_PBB then failing OFU_ACTION_PUSH_SUCCESS (ofu_push_push_pbb_header_action (fa_ether_type f) msg) else
      if ty = OFPAT_POP_PBB then failing OFU_ACTION_PUSH_SUCCESS (ofu_push_pop_pbb_header_action msg) else
      (OF_SUCCESS, msg))"

definition flow_action_call :: "ofi_flow_action \<Rightarrow> action_call option" where
  "flow_action_call f =
     (let ty = ucast (fa_action_type f) in
      if ty = OFPAT_OUTPUT then Some (Output (fa_port_no f) OFPCML_NO_BUFFER) else
      if ty = OFPAT_COPY_TTL_OUT then Some (Copy_ttl_outward) else
      if ty = OFPAT_COPY_TTL_IN then Some (Copy_ttl_inward) else
      if ty = OFPAT_SET_MPLS_TTL then Some (Set_mpls_ttl (fa_ttl f)) else
      if ty = OFPAT_DEC_MPLS_TTL then Some (Dec_mpls_ttl) else
      if ty = OFPAT_PUSH_VLAN then Some (Push_vlan (fa_ether_type f)) else
      if ty = OFPAT_POP_VLAN then Some (Pop_vlan) else
      if ty = OFPAT_PUSH_MPLS then Some (Push_mpls (fa_ether_type f)) else
      if ty = OFPAT_POP_MPLS then Some (Pop_mpls (fa_ether_type f)) else
      if ty = OFPAT_SET_QUEUE then Some (Set_queue (fa_queue_id f)) else
      if ty = OFPAT_GROUP then Some (Group (fa_group_id f)) else
      if ty = OFPAT_SET_NW_TTL then Some (Set_ipv4_ttl (fa_ttl f)) else
      if ty = OFPAT_DEC_NW_TTL then Some (Dec_ipv4_ttl) else
      if ty = OFPAT_SET_FIELD then map_option Set_field (setfield_call f) else
      if ty = OFPAT_PUSH_PBB then Some (Push_pbb (fa_ether_type f)) else
      if ty = OFPAT_POP_PBB then Some (Pop_pbb) else
      None)"

section \<open>Match fields\<close>

definition match_arms1 :: "ofi_flow_match_fields \<Rightarrow> of_msg \<Rightarrow> (of_status \<times> of_msg) option" where
  "match_arms1 f msg =
     (let ty = ucast (mf_field_type f) in
      if ty = OFPXMT_OFB_IN_PORT then
        Some (failing OFU_SET_FIELD_SUCCESS (of_set_in_port (mf_ui32_data f) msg)) else
      if ty = OFPXMT_OFB_IN_PHY_PORT then
        Some (failing OFU_SET_FIELD_SUCCESS (of_set_in_physical_port (mf_ui32_data f) msg)) else
      if ty = OFPXMT_OFB_METADATA then
        Some (failing OFU_SET_FIELD_SUCCESS (of_set_meta_data (mf_ui64_data f) (mf_is_mask_set f) (host64 (mf_mask f)) msg)) else
      if ty = OFPXMT_OFB_ETH_DST then
        Some (unnoticed (of_set_destination_mac (mf_ui8_data_array f) (mf_is_mask_set f) (take 6 (mf_mask f)) msg)) else
      if ty = OFPXMT_OFB_ETH_SRC then
        Some (failing OFU_SET_FIELD_SUCCESS (of_set_source_mac (mf_ui8_data_array f) (mf_is_mask_set f) (take 6 (mf_mask f)) msg)) else
      if ty = OFPXMT_OFB_ETH_TYPE then
        Some (failing OFU_SET_FIELD_SUCCESS (of_set_ether_type (mf_ui16_data f) msg)) else
      if ty = OFPXMT_OFB_VLAN_VID then
        Some (failing OFU_SET_FIELD_SUCCESS (of_set_vlan_id (mf_ui16_data f) 0 0 msg)) else
      if ty = OFPXMT_OFB_IP_PROTO then
        Some (failing OFU_SET_FIELD_SUCCESS (of_set_protocol (mf_ui8_data f) msg)) else
      if ty = OFPXMT_OFB_IPV4_SRC then
        Some (failing OFU_SET_FIELD_SUCCESS (of_set_ipv4_source (mf_ui32_data f) (mf_is_mask_set f) (host32 (mf_mask f)) msg)) else
      if ty = OFPXMT_OFB_IPV4_DST then
        Some (failing OFU_SET_FIELD_SUCCESS (of_set_ipv4_destination (mf_ui32_data f) (mf_is_mask_set f) (host32 (mf_mask f)) msg)) else
      if ty = OFPXMT_OFB_TCP_SRC then
        Some (failing OFU_SET_FIELD_SUCCESS (of_set_tcp_source_port (mf_ui16_data f) msg)) else
      None)"

definition match_arms2 :: "ofi_flow_match_fields \<Rightarrow> of_msg \<Rightarrow> (of_status \<times> of_msg) option" where
  "match_arms2 f msg =
     (let ty = ucast (mf_field_type f) in
      if ty = OFPXMT_OFB_TCP_DST then
        Some (failing OFU_SET_FIELD_SUCCESS (of_set_tcp_destination_port (mf_ui16_data f) msg)) else
      if ty = OFPXMT_OFB_UDP_SRC then
        Some (failing OFU_SET_FIELD_SUCCESS (of_set_udp_source_port (mf_ui16_data f) msg)) else
      if ty = OFPXMT_OFB_UDP_DST then
        Some (failing OFU_SET_FIELD_SUCCESS (of_set_udp_destination_port (mf_ui16_data f) msg)) else
      if ty = OFPXMT_OFB_SCTP_SRC then
        Some (failing OFU_SET_FIELD_SUCCESS (of_set_sctp_source_port (mf_ui16_data f) msg)) else
      if ty = OFPXMT_OFB_SCTP_DST then
        Some (failing OFU_SET_FIELD_SUCCESS (of_set_sctp_destination_port (mf_ui16_data f) msg)) else
      if ty = OFPXMT_OFB_ICMPV4_TYPE then
        Some (failing OFU_SET_FIELD_SUCCESS (of_set_icmpv4_type (mf_ui8_data f) msg)) else
      if ty = OFPXMT_OFB_ICMPV4_CODE then
        Some (failing OFU_SET_FIELD_SUCCESS (of_set_icmpv4_code (mf_ui8_data f) msg)) else
      if ty = OFPXMT_OFB_ARP_OP then
        Some (failing OFU_SET_FIELD_SUCCESS (of_set_arp_op_code (mf_ui16_data f) msg)) else
      if ty = OFPXMT_OFB_MPLS_LABEL then
        Some (failing OFU_SET_FIELD_SUCCESS (of_set_mpls_label (mf_ui32_data f) msg)) else
      if ty = OFPXMT_OFB_MPLS_TC then
        Some (failing OFU_SET_FIELD_SUCCESS (of_set_mpls_tc (mf_ui8_data f) msg)) else
      if ty = OFPXMT_OFB_MPLS_BOS then
        Some (failing OFU_SET_FIELD_SUCCESS (of_set_mpls_bos (mf_ui8_data f) msg)) else
      None)"

definition match_arms3 :: "ofi_flow_match_fields \<Rightarrow> of_msg \<Rightarrow> (of_status \<times> of_msg) option" where
  "match_arms3 f msg =
     (let ty = ucast (mf_field_type f) in
      if ty = OFPXMT_OFB_PBB_ISID then
        Some (failing OFU_SET_FIELD_SUCCESS (of_set_pbb_i_sid (mf_ui8_data f) (mf_is_mask_set f) (hd (mf_mask f)) msg)) else
      if ty = OFPXMT_OFB_TUNNEL_ID then
        Some (failing OFU_SET_FIELD_SUCCESS (of_set_logical_port_meta_data (mf_ui64_data f) (mf_is_mask_set f) (host64 (mf_mask f)) msg)) else
      if ty = OFPXMT_OFB_VLAN_PCP then
        Some (failing OFU_SET_FIELD_SUCCESS (of_set_vlan_priority_bits (mf_ui8_data f) msg)) else
      if ty = OFPXMT_OFB_ARP_SPA then
        Some (failing OFU_SET_FIELD_SUCCESS (of_set_arp_source_ip_addr (mf_ui32_data f) (mf_is_mask_set f) (host32 (mf_mask f)) msg)) else
      if ty = OFPXMT_OFB_ARP_TPA then
        Some (failing OFU_SET_FIELD_SUCCESS (of_set_arp_target_ip_addr (mf_ui32_data f) (mf_is_mask_set f) (host32 (mf_mask f)) msg)) else
      if ty = OFPXMT_OFB_ARP_SHA then
        Some (unnoticed (of_set_arp_source_hw_addr (mf_ui8_data_array f) (mf_is_mask_set f) (take 6 (mf_mask f)) msg)) else
      if ty = OFPXMT_OFB_ARP_THA then
        Some (unnoticed (of_set_arp_target_hw_addr (mf_ui8_data_array f) (mf_is_mask_set f) (take 6 (mf_mask f)) msg)) else
      if ty = OFPXMT_OFB_IP_DSCP then
        Some (failing OFU_SET_FIELD_SUCCESS (of_set_ip_dscp_bits (mf_ui8_data f) msg)) else
      None)"

definition match_arms4 :: "ofi_flow_match_fields \<Rightarrow> of_msg \<Rightarrow> (of_status \<times> of_msg) option" where
  "match_arms4 f msg =
     (let ty = ucast (mf_field_type f) in
      if ty = OFPXMT_OFB_IP_ECN then
        Some (failing OFU_SET_FIELD_SUCCESS (of_set_ip_ecn_bits (mf_ui8_data f) msg)) else
      if ty = OFPXMT_OFB_IPV6_SRC then
        Some (failing OFU_SET_FIELD_SUCCESS (of_set_ipv6_source (mf_ipv6_addr f) (mf_is_mask_set f) (take 16 (mf_mask f)) msg)) else
      if ty = OFPXMT_OFB_IPV6_DST then
        Some (failing OFU_SET_FIELD_SUCCESS (of_set_ipv6_destination (mf_ipv6_addr f) (mf_is_mask_set f) (take 16 (mf_mask f)) msg)) else
      if ty = OFPXMT_OFB_IPV6_FLABEL then
        Some (unnoticed (of_set_ipv6_flow_label (mf_ui32_data f) (mf_is_mask_set f) (host32 (mf_mask f)) msg)) else
      if ty = OFPXMT_OFB_ICMPV6_TYPE then
        Some (failing OFU_SET_FIELD_SUCCESS (of_set_icmpv6_type (mf_ui8_data f) msg)) else
      if ty = OFPXMT_OFB_ICMPV6_CODE then
        Some (failing OFU_SET_FIELD_SUCCESS (of_set_icmpv6_code (mf_ui8_data f) msg)) else
      if ty = OFPXMT_OFB_IPV6_ND_TARGET then
        Some (failing OFU_SET_FIELD_SUCCESS (of_set_ipv6_nd_target (mf_ipv6_addr f) msg)) else
      if ty = OFPXMT_OFB_IPV6_ND_SLL then
        Some (unnoticed (of_set_ipv6_nd_source_hw_addr (mf_ui8_data_array f) msg)) else
      if ty = OFPXMT_OFB_IPV6_ND_TLL then
        Some (failing OFU_SET_FIELD_SUCCESS (of_set_ipv6_nd_target_hw_addr (mf_ui8_data_array f) msg)) else
      None)"

definition match_arms5 :: "ofi_flow_match_fields \<Rightarrow> of_msg \<Rightarrow> (of_status \<times> of_msg) option" where
  "match_arms5 f msg =
     (let ty = ucast (mf_field_type f) in
      if ty = OFPXMT_OFB_IPV6_EXTHDR then
        Some (failing OFU_SET_FIELD_SUCCESS (of_set_ipv6_extension_hdr (mf_ui16_data f) (mf_is_mask_set f) (host16 (mf_mask f)) msg)) else
      None)"

definition of_flow_set_match_field :: "ofi_flow_match_fields \<Rightarrow> of_msg \<Rightarrow> of_status \<times> of_msg" where
  "of_flow_set_match_field f msg =
     (case match_arms1 f msg of Some r \<Rightarrow> r | None \<Rightarrow>
     (case match_arms2 f msg of Some r \<Rightarrow> r | None \<Rightarrow>
     (case match_arms3 f msg of Some r \<Rightarrow> r | None \<Rightarrow>
     (case match_arms4 f msg of Some r \<Rightarrow> r | None \<Rightarrow>
     (case match_arms5 f msg of Some r \<Rightarrow> r | None \<Rightarrow>
     (OF_FAILURE, msg))))))"

definition flow_match_call :: "ofi_flow_match_fields \<Rightarrow> match_call option" where
  "flow_match_call f =
     (let ty = ucast (mf_field_type f) in
      if ty = OFPXMT_OFB_IN_PORT then Some (In_port (mf_ui32_data f)) else
      if ty = OFPXMT_OFB_IN_PHY_PORT then Some (In_physical_port (mf_ui32_data f)) else
      if ty = OFPXMT_OFB_METADATA then Some (Meta_data (mf_ui64_data f) (mf_is_mask_set f) (host64 (mf_mask f))) else
      if ty = OFPXMT_OFB_ETH_DST then Some (Destination_mac (mf_ui8_data_array f) (mf_is_mask_set f) (take 6 (mf_mask f))) else
      if ty = OFPXMT_OFB_ETH_SRC then Some (Source_mac (mf_ui8_data_array f) (mf_is_mask_set f) (take 6 (mf_mask f))) else
      if ty = OFPXMT_OFB_ETH_TYPE then Some (Ether_type (mf_ui16_data f)) else
      if ty = OFPXMT_OFB_VLAN_VID then Some (Vlan_id (mf_ui16_data f) 0 0) else
      if ty = OFPXMT_OFB_IP_PROTO then Some (Protocol (mf_ui8_data f)) else
      if ty = OFPXMT_OFB_IPV4_SRC then Some (Ipv4_source (mf_ui32_data f) (mf_is_mask_set f) (host32 (mf_mask f))) else
      if ty = OFPXMT_OFB_IPV4_DST then Some (Ipv4_destination (mf_ui32_data f) (mf_is_mask_set f) (host32 (mf_mask f))) else
      if ty = OFPXMT_OFB_TCP_SRC then Some (Tcp_source_port (mf_ui16_data f)) else
      if ty = OFPXMT_OFB_TCP_DST then Some (Tcp_destination_port (mf_ui16_data f)) else
      if ty = OFPXMT_OFB_UDP_SRC then Some (Udp_source_port (mf_ui16_data f)) else
      if ty = OFPXMT_OFB_UDP_DST then Some (Udp_destination_port (mf_ui16_data f)) else
      if ty = OFPXMT_OFB_SCTP_SRC then Some (Sctp_source_port (mf_ui16_data f)) else
      if ty = OFPXMT_OFB_SCTP_DST then Some (Sctp_destination_port (mf_ui16_data f)) else
      if ty = OFPXMT_OFB_ICMPV4_TYPE then Some (Icmpv4_type (mf_ui8_data f)) else
      if ty = OFPXMT_OFB_ICMPV4_CODE then Some (Icmpv4_code (mf_ui8_data f)) else
      if ty = OFPXMT_OFB_ARP_OP then Some (Arp_op_code (mf_ui16_data f)) else
      if ty = OFPXMT_OFB_MPLS_LABEL then Some (Mpls_label (mf_ui32_data f)) else
      if ty = OFPXMT_OFB_MPLS_TC then Some (Mpls_tc (mf_ui8_data f)) else
      if ty = OFPXMT_OFB_MPLS_BOS then Some (Mpls_bos (mf_ui8_data f)) else
      if ty = OFPXMT_OFB_PBB_ISID then Some (Pbb_i_sid (mf_ui8_data f) (mf_is_mask_set f) (hd (mf_mask f))) else
      if ty = OFPXMT_OFB_TUNNEL_ID then Some (Logical_port_meta_data (mf_ui64_data f) (mf_is_mask_set f) (host64 (mf_mask f))) else
      if ty = OFPXMT_OFB_VLAN_PCP then Some (Vlan_priority_bits (mf_ui8_data f)) else
      if ty = OFPXMT_OFB_ARP_SPA then Some (Arp_source_ip_addr (mf_ui32_data f) (mf_is_mask_set f) (host32 (mf_mask f))) else
      if ty = OFPXMT_OFB_ARP_TPA then Some (Arp_target_ip_addr (mf_ui32_data f) (mf_is_mask_set f) (host32 (mf_mask f))) else
      if ty = OFPXMT_OFB_ARP_SHA then Some (Arp_source_hw_addr (mf_ui8_data_array f) (mf_is_mask_set f) (take 6 (mf_mask f))) else
      if ty = OFPXMT_OFB_ARP_THA then Some (Arp_target_hw_addr (mf_ui8_data_array f) (mf_is_mask_set f) (take 6 (mf_mask f))) else
      if ty = OFPXMT_OFB_IP_DSCP then Some (Ip_dscp_bits (mf_ui8_data f)) else
      if ty = OFPXMT_OFB_IP_ECN then Some (Ip_ecn_bits (mf_ui8_data f)) else
      if ty = OFPXMT_OFB_IPV6_SRC then Some (Ipv6_source (mf_ipv6_addr f) (mf_is_mask_set f) (take 16 (mf_mask f))) else
      if ty = OFPXMT_OFB_IPV6_DST then Some (Ipv6_destination (mf_ipv6_addr f) (mf_is_mask_set f) (take 16 (mf_mask f))) else
      if ty = OFPXMT_OFB_IPV6_FLABEL then Some (Ipv6_flow_label (mf_ui32_data f) (mf_is_mask_set f) (host32 (mf_mask f))) else
      if ty = OFPXMT_OFB_ICMPV6_TYPE then Some (Icmpv6_type (mf_ui8_data f)) else
      if ty = OFPXMT_OFB_ICMPV6_CODE then Some (Icmpv6_code (mf_ui8_data f)) else
      if ty = OFPXMT_OFB_IPV6_ND_TARGET then Some (Ipv6_nd_target (mf_ipv6_addr f)) else
      if ty = OFPXMT_OFB_IPV6_ND_SLL then Some (Ipv6_nd_source_hw_addr (mf_ui8_data_array f)) else
      if ty = OFPXMT_OFB_IPV6_ND_TLL then Some (Ipv6_nd_target_hw_addr (mf_ui8_data_array f)) else
      if ty = OFPXMT_OFB_IPV6_EXTHDR then Some (Ipv6_extension_hdr (mf_ui16_data f) (mf_is_mask_set f) (host16 (mf_mask f))) else
      None)"

definition match_unnoticed :: "ofi_flow_match_fields \<Rightarrow> bool" where
  "match_unnoticed f \<longleftrightarrow> ucast (mf_field_type f) \<in> {OFPXMT_OFB_ETH_DST, OFPXMT_OFB_ARP_SHA, OFPXMT_OFB_ARP_THA, OFPXMT_OFB_IPV6_FLABEL, OFPXMT_OFB_IPV6_ND_SLL}"

section \<open>Instructions and whole entries\<close>

definition push_flow_action :: "ofi_flow_action \<Rightarrow> of_msg \<Rightarrow> bool \<times> of_msg" where
  "push_flow_action f msg =
     (case of_flow_push_action f msg of (retval, msg) \<Rightarrow> (retval = OF_SUCCESS, msg))"

text \<open>The loop over the actions stops at the first failure; the instruction is closed in any case.\<close>

definition fill_flow_actions :: "ofi_flow_action list \<Rightarrow> of_status \<Rightarrow> of_msg \<Rightarrow> of_status \<times> of_msg" where
  "fill_flow_actions action_list status msg =
     (let msg = ofu_start_pushing_actions msg;
          (ok, msg) = push_all push_flow_action action_list msg;
          (length_of_actions, msg) = ofu_end_pushing_actions msg;
          msg = st16 (ptr2 msg + 2) length_of_actions msg
      in (if ok then status else OF_FAILURE, msg))"

definition of_flow_push_instruction :: "ofi_flow_instruction \<Rightarrow> of_msg \<Rightarrow> of_status \<times> of_msg" where
  "of_flow_push_instruction f msg =
     (let ty = ucast (fi_instruction_type f) in
      if ty = OFPIT_GOTO_TABLE then
        failing OFU_INSTRUCTION_PUSH_SUCCESS (ofu_push_go_to_table_instruction (fi_ui8_data f) msg) else
      if ty = OFPIT_WRITE_METADATA then
        failing OFU_INSTRUCTION_PUSH_SUCCESS
          (ofu_push_write_meta_data_instruction (fi_ui64_data f) (host64 (fi_mask f)) msg) else
      if ty = OFPIT_APPLY_ACTIONS then
        (case ofu_start_pushing_apply_action_instruction msg of
           (retval, msg) \<Rightarrow>
             if retval \<noteq> OFU_INSTRUCTION_PUSH_SUCCESS then (OF_FAILURE, msg)
             else fill_flow_actions (fi_action_list f) OF_SUCCESS msg) else
      if ty = OFPIT_WRITE_ACTIONS then
        (case ofu_start_pushing_write_action_instruction msg of
           (retval, msg) \<Rightarrow>
             fill_flow_actions (fi_action_list f)
               (if retval \<noteq> OFU_INSTRUCTION_PUSH_SUCCESS then OF_FAILURE else OF_SUCCESS) msg) else
      if ty = OFPIT_CLEAR_ACTIONS then
        failing OFU_INSTRUCTION_PUSH_SUCCESS (ofu_push_clear_action_instruction msg) else
      if ty = OFPIT_METER then
        failing OFU_INSTRUCTION_PUSH_SUCCESS (ofu_push_meter_instruction (fi_ui32_data f) msg) else
      (OF_FAILURE, msg))"

datatype flow_command = ADD_FLOW | DEL_FLOW | MODIFY_FLOW

definition OFPFC_ADD :: u8 where [layout_simps]: "OFPFC_ADD = 0"

text \<open>A failing match field is recorded and the loop goes on.\<close>

fun set_flow_match_fields ::
  "ofi_flow_match_fields list \<Rightarrow> of_status \<Rightarrow> of_msg \<Rightarrow> of_status \<times> of_msg" where
  "set_flow_match_fields [] status msg = (status, msg)"
| "set_flow_match_fields (f # fs) status msg =
     (case of_flow_set_match_field f msg of
        (retval, msg) \<Rightarrow>
          set_flow_match_fields fs (if retval \<noteq> OF_SUCCESS then OF_FAILURE else status) msg)"

text \<open>A goto-table must lead forward; a failing instruction is recorded and the loop goes on.\<close>

fun push_flow_instructions ::
  "u8 \<Rightarrow> ofi_flow_instruction list \<Rightarrow> of_status \<Rightarrow> of_msg \<Rightarrow> of_status \<times> of_msg" where
  "push_flow_instructions table_id [] status msg = (status, msg)"
| "push_flow_instructions table_id (f # fs) status msg =
     (if ucast (fi_instruction_type f) = OFPIT_GOTO_TABLE \<and> fi_ui8_data f \<le> table_id
      then (OF_FLOWMOD_GOTOTABLE_INVALID, msg)
      else case of_flow_push_instruction f msg of
        (retval, msg) \<Rightarrow>
          push_flow_instructions table_id fs (if retval \<noteq> OF_SUCCESS then OF_FAILURE else status) msg)"

definition of_flow_frame_message ::
  "flow_command \<Rightarrow> u16 \<Rightarrow> ofi_flow_mod_info \<Rightarrow> of_msg \<Rightarrow> of_status \<times> of_msg" where
  "of_flow_frame_message command priority flow_entry msg =
     (let msg = ofu_start_setting_match_field_values msg in
      if \<not> (command = DEL_FLOW \<and> priority = 0)
         \<and> fe_command flow_entry = OFPFC_ADD \<and> 1 \<le> length (fe_match_field_list flow_entry)
         \<and> fe_priority flow_entry = 0
      then (OF_FLOWMOD_ERROR_INVALID_MISSENTRY, msg)
      else let
        (status, match_field_len, msg) =
          (if command = DEL_FLOW \<and> priority = 0 then
             case ofu_end_setting_match_field_values msg of (_, msg) \<Rightarrow> (OF_SUCCESS, 0, msg)
           else
             case set_flow_match_fields (fe_match_field_list flow_entry) OF_SUCCESS msg of
               (status, msg) \<Rightarrow>
                 case ofu_end_setting_match_field_values msg of (len, msg) \<Rightarrow> (status, len, msg));
        msg = ofu_start_pushing_instructions match_field_len msg
      in if command = MODIFY_FLOW \<or> command = ADD_FLOW then
           push_flow_instructions (fe_table_id flow_entry) (fe_instruction_list flow_entry) status msg
         else (status, msg))"

section \<open>What the switches do\<close>

lemma of_flow_set_action_setfield_call:
  "of_flow_set_action_setfield f msg =
     (case setfield_call f of
        None \<Rightarrow> (None, msg)
      | Some c \<Rightarrow> checked (if setfield_misread f then OFU_SET_FIELD_SUCCESS else OFU_ACTION_PUSH_SUCCESS)
                    (exec_set_field c msg))"
  by (simp add: of_flow_set_action_setfield_def setfield_call_def setfield_misread_def layout_simps
      setfield_arms1_def setfield_arms2_def setfield_arms3_def setfield_arms4_def Let_def)

lemma of_flow_set_match_field_call:
  "of_flow_set_match_field f msg =
     (case flow_match_call f of
        None \<Rightarrow> (OF_FAILURE, msg)
      | Some c \<Rightarrow> if match_unnoticed f then unnoticed (exec_match c msg)
                  else failing OFU_SET_FIELD_SUCCESS (exec_match c msg))"
  by (simp add: of_flow_set_match_field_def flow_match_call_def match_unnoticed_def layout_simps
      match_arms1_def match_arms2_def match_arms3_def match_arms4_def match_arms5_def Let_def)

text \<open>The result codes the routines can return.\<close>

lemma exec_set_field_codes:
  "fst (exec_set_field c msg) = OFU_NO_ROOM_IN_BUFFER \<or> fst (exec_set_field c msg) = OFU_ACTION_PUSH_SUCCESS"
  by (cases c) (simp_all add: set_field_defs Let_def)

lemma exec_action_codes:
  "fst (exec_action c msg) = OFU_NO_ROOM_IN_BUFFER \<or> fst (exec_action c msg) = OFU_ACTION_PUSH_SUCCESS"
proof (cases "\<exists>s. c = Set_field s")
  case True
  then obtain s where "c = Set_field s" by blast
  then show ?thesis using exec_set_field_codes [of s msg] by simp
next
  case False
  then show ?thesis
    by (cases c) (simp_all add: action_defs ofu_push_set_queue_action_def
        ofu_push_dec_mpls_ttl_action_def ofu_push_copy_ttl_inward_action_def Let_def)
qed

lemma exec_match_codes:
  "fst (exec_match c msg) = OFU_NO_ROOM_IN_BUFFER \<or> fst (exec_match c msg) = OFU_SET_FIELD_SUCCESS"
  by (cases c) (simp_all add: setter_defs Let_def)

definition is_misread :: "ofi_flow_action \<Rightarrow> bool" where
  "is_misread f \<longleftrightarrow> ucast (fa_action_type f) = OFPAT_SET_FIELD \<and> setfield_misread f"

lemma of_flow_push_setfield:
  assumes "ucast (fa_action_type f) = OFPAT_SET_FIELD" and "setfield_call f = Some c"
  shows "of_flow_push_action f msg =
    (if setfield_misread f then (OF_FAILURE, snd (exec_set_field c msg))
     else failing OFU_ACTION_PUSH_SUCCESS (exec_set_field c msg))"
  using assms exec_set_field_codes [of c msg]
  by (simp add: of_flow_push_action_def layout_simps of_flow_set_action_setfield_call checked_def
      failing_def Let_def split: prod.splits)

lemma of_flow_push_action_call:
  assumes "flow_action_call f = Some c" and "\<not> is_misread f"
  shows "of_flow_push_action f msg = failing OFU_ACTION_PUSH_SUCCESS (exec_action c msg)"
proof (cases "ucast (fa_action_type f) = OFPAT_SET_FIELD")
  case True
  then obtain s where "setfield_call f = Some s" and "c = Set_field s"
    using assms(1) by (auto simp: flow_action_call_def layout_simps Let_def)
  then show ?thesis using of_flow_push_setfield [OF True] assms(2) True by (simp add: is_misread_def)
next
  case False
  then show ?thesis
    using assms(1)
    by (simp add: of_flow_push_action_def flow_action_call_def layout_simps Let_def
        split: if_splits) (auto simp: layout_simps)
qed


end
