(* ===== verification/FlowEntry.thy ===== *)
theory FlowEntry
  imports Flow
begin

text \<open>
  What the flow-entry layer does with whole entries: an entry as the calls it stands for, framing as
  a run of those calls, and the cases in which the layer loses or invents a result.
\<close>

section \<open>Entries as calls\<close>

text \<open>An entry whose fields, actions and instructions the layer turns into calls without a misread result.\<close>

definition flow_actions_call :: "ofi_flow_action list \<Rightarrow> action_call list option" where
  "flow_actions_call fs =
     (if list_ex is_misread fs then None else those (map flow_action_call fs))"

definition flow_instr_call :: "ofi_flow_instruction \<Rightarrow> instr_call option" where
  "flow_instr_call f =
     (let ty = ucast (fi_instruction_type f) in
      if ty = OFPIT_GOTO_TABLE then Some (Goto_table (fi_ui8_data f)) else
      if ty = OFPIT_WRITE_METADATA then Some (Write_metadata (fi_ui64_data f) (host64 (fi_mask f))) else
      if ty = OFPIT_APPLY_ACTIONS then map_option Apply_actions (flow_actions_call (fi_action_list f)) else
      if ty = OFPIT_WRITE_ACTIONS then map_option Write_actions (flow_actions_call (fi_action_list f)) else
      if ty = OFPIT_CLEAR_ACTIONS then Some Clear_actions else
      if ty = OFPIT_METER then Some (Meter (fi_ui32_data f)) else
      None)"

definition backward_goto :: "u8 \<Rightarrow> ofi_flow_instruction \<Rightarrow> bool" where
  "backward_goto table_id f \<longleftrightarrow> ucast (fi_instruction_type f) = OFPIT_GOTO_TABLE \<and> fi_ui8_data f \<le> table_id"

lemma those_map_Cons:
  "those (map g (x # xs)) = Some ys \<longleftrightarrow> (\<exists>y zs. ys = y # zs \<and> g x = Some y \<and> those (map g xs) = Some zs)"
  by (auto split: option.splits)

lemma push_flow_action_step:
  assumes "flow_action_call f = Some c" and "\<not> is_misread f"
  shows "push_flow_action f msg = action_step c msg"
  using exec_action_codes [of c msg]
  by (auto simp: push_flow_action_def of_flow_push_action_call [OF assms] failing_def action_step_def
      accepted_def split: prod.splits)

lemma push_all_flow_actions:
  "flow_actions_call fs = Some cs \<Longrightarrow> push_all push_flow_action fs msg = push_all action_step cs msg"
proof (induction fs arbitrary: cs msg)
  case (Cons f fs)
  then have n: "\<not> is_misread f" "\<not> list_ex is_misread fs" "those (map flow_action_call (f # fs)) = Some cs"
    by (simp_all add: flow_actions_call_def split: if_splits)
  then obtain c ds where "cs = c # ds" "flow_action_call f = Some c"
    and ds: "those (map flow_action_call fs) = Some ds"
    unfolding those_map_Cons by blast
  moreover have "flow_actions_call fs = Some ds" using n ds by (simp add: flow_actions_call_def)
  ultimately show ?case
    using Cons.IH push_flow_action_step [OF _ n(1)] by (simp split: prod.splits)
qed (simp add: flow_actions_call_def)

lemma fill_flow_actions_fill:
  assumes "flow_actions_call fs = Some cs"
  shows "fill_flow_actions fs status msg
    = (if fst (fill_action_instruction cs msg) then status else OF_FAILURE,
       snd (fill_action_instruction cs msg))"
  by (simp add: fill_flow_actions_def fill_action_instruction_def push_all_flow_actions [OF assms]
      ofu_end_pushing_apply_action_instruction_def Let_def split: prod.splits)

lemma plain_instruction_codes:
  "fst (ofu_push_go_to_table_instruction t msg) \<in> {OFU_NO_ROOM_IN_BUFFER, OFU_INSTRUCTION_PUSH_SUCCESS}"
  "fst (ofu_push_write_meta_data_instruction v k msg) \<in> {OFU_NO_ROOM_IN_BUFFER, OFU_INSTRUCTION_PUSH_SUCCESS}"
  "fst (ofu_push_clear_action_instruction msg) \<in> {OFU_NO_ROOM_IN_BUFFER, OFU_INSTRUCTION_PUSH_SUCCESS}"
  "fst (ofu_push_meter_instruction n msg) \<in> {OFU_NO_ROOM_IN_BUFFER, OFU_INSTRUCTION_PUSH_SUCCESS}"
  by (simp_all add: ofu_push_go_to_table_instruction_def ofu_push_write_meta_data_instruction_def
      ofu_push_clear_action_instruction_def ofu_push_meter_instruction_def Let_def)

lemma failing_accepted:
  "fst r \<in> {OFU_NO_ROOM_IN_BUFFER, code} \<Longrightarrow> code \<noteq> OFU_NO_ROOM_IN_BUFFER \<Longrightarrow>
     failing code r = (if fst (accepted r) then OF_SUCCESS else OF_FAILURE, snd (accepted r))"
  by (auto simp: failing_def accepted_def)

lemma of_flow_push_instruction_step:
  assumes "flow_instr_call f = Some c" and "pos2 msg + 8 \<le> buf_end msg"
  shows "of_flow_push_instruction f msg
    = (if fst (instr_step c msg) then OF_SUCCESS else OF_FAILURE, snd (instr_step c msg))"
proof (cases "flow_actions_call (fi_action_list f)")
  case None
  then show ?thesis
    using assms(1)
    by (auto simp: of_flow_push_instruction_def flow_instr_call_def layout_simps Let_def
        failing_accepted plain_instruction_codes simp del: insert_iff split: if_splits)
next
  case (Some acts)
  then show ?thesis
    using assms(1) start_action_instruction [OF assms(2)]
    by (auto simp: of_flow_push_instruction_def flow_instr_call_def layout_simps Let_def
        failing_accepted plain_instruction_codes push_action_instruction_def
        fill_flow_actions_fill simp del: insert_iff split: if_splits)
qed

lemma length_instr_enc: "8 \<le> length (instr_enc c)"
  by (cases c) (simp_all add: instr_enc_def)

lemma push_flow_instructions_run:
  assumes "those (map flow_instr_call fs) = Some cs" and "\<not> list_ex (backward_goto table_id) fs"
    and "instr_inv s0 msg" and "\<forall>c \<in> set cs. wf_instr c"
    and "pos2 msg + length (encoding instr_enc cs) + 4 \<le> buf_end msg"
  shows "push_flow_instructions table_id fs status msg = (status, snd (run_calls instr_step cs msg))"
  using assms
proof (induction fs arbitrary: cs msg)
  case (Cons f fs)
  then obtain c ds where cs: "cs = c # ds" and c: "flow_instr_call f = Some c"
    and ds: "those (map flow_instr_call fs) = Some ds"
    unfolding those_map_Cons by blast
  have "instr_ok c msg" using Cons.prems cs by (simp add: instr_ok_def)
  then obtain s' where st: "instr_step c msg = (True, s')" and eff: "instr_effect (instr_enc c) msg s'"
    using instr_step_effect [OF Cons.prems(3)] by blast
  have "pos2 msg + length (instr_enc c) \<le> buf_end msg" using Cons.prems(5) cs by simp
  note next_state = instr_effect_inv [OF Cons.prems(3) eff this]
  have "of_flow_push_instruction f msg = (OF_SUCCESS, s')"
    using of_flow_push_instruction_step [OF c] st Cons.prems(5) length_instr_enc [of c] cs by simp
  then show ?case
    using Cons.IH [OF ds, of s'] Cons.prems next_state cs st
    by (auto simp: backward_goto_def split: prod.splits)
qed simp

lemma of_flow_set_match_field_step:
  assumes "flow_match_call f = Some c"
  shows "of_flow_set_match_field f msg
    = (if match_unnoticed f \<or> fst (match_step c msg) then OF_SUCCESS else OF_FAILURE,
       snd (match_step c msg))"
  using exec_match_codes [of c msg]
  by (auto simp: of_flow_set_match_field_call assms unnoticed_def failing_def match_step_def accepted_def)

text \<open>The fields of an entry are the calls they stand for; the status is lost for some of them.\<close>

lemma set_flow_match_fields_run:
  assumes "those (map flow_match_call fs) = Some cs"
    and "run_calls match_step cs msg = (acc, msg')"
  shows "snd (set_flow_match_fields fs status msg) = msg'"
    and "acc = cs \<or> (\<forall>f \<in> set fs. match_unnoticed f) \<Longrightarrow> fst (set_flow_match_fields fs status msg) = status"
  using assms
proof (induction fs arbitrary: cs acc msg status)
  case (Cons f fs)
  {
    case 1
    then show ?case using Cons.IH(1) unfolding those_map_Cons
      by (auto simp: of_flow_set_match_field_step split: prod.splits)
  next
    case 2
    then obtain c ds where cs: "cs = c # ds" and c: "flow_match_call f = Some c"
      and ds: "those (map flow_match_call fs) = Some ds"
      unfolding those_map_Cons by blast
    obtain b s1 where st: "match_step c msg = (b, s1)" by fastforce
    obtain acc1 where run: "run_calls match_step ds s1 = (acc1, msg')"
      and acc: "acc = (if b then c # acc1 else acc1)"
      using 2(3) cs st by (auto split: prod.splits)
    have "length acc1 \<le> length ds"
      using run by (induction ds arbitrary: s1 acc1) (fastforce split: prod.splits if_splits)+
    then have "b \<and> acc1 = ds \<or> (\<forall>g \<in> set (f # fs). match_unnoticed g)"
      using 2(1) acc cs by (auto split: if_splits)
    then show ?case
      using Cons.IH(2) [OF _ ds run] st of_flow_set_match_field_step [OF c, of msg] by auto
  }
qed simp_all
section \<open>Properties of flow entries\<close>

text \<open>The framed entry, as the lemma on which the properties of sending rest.\<close>

lemma entry_framed:
  assumes "data_len msg = 0" and "8 dvd unat (buffer_len msg)"
    and "zeros (start_of_data msg) (unat (buffer_len msg)) (mem msg)"
    and "of_create_add_flow_entry_msg get h a msg
           = (OFU_ADD_FLOW_ENTRY_TO_TABLE_SUCCESS, conn, m0)"
    and "those (map flow_match_call (fe_match_field_list e)) = Some mfs"
    and "those (map flow_instr_call (fe_instruction_list e)) = Some instrs"
    and "\<forall>c \<in> set mfs. wf_match c" and "\<forall>i \<in> set instrs. wf_instr i"
    and "\<not> list_ex (backward_goto (fe_table_id e)) (fe_instruction_list e)"
    and "fe_match_field_list e = [] \<or> fe_command e \<noteq> OFPFC_ADD \<or> fe_priority e \<noteq> 0"
    and "52 + length (encoding match_enc mfs) + ROUND_UP (length (encoding match_enc mfs) + 4)
           + length (encoding instr_enc instrs) + 4 \<le> unat (buffer_len msg)"
    and "of_flow_frame_message ADD_FLOW priority e m0 = (status, m3)"
  defines "s \<equiv> start_of_data msg" and "n \<equiv> unat (data_len m3)"
    and "l \<equiv> length (encoding match_enc mfs) + ROUND_UP (length (encoding match_enc mfs) + 4)"
  shows "status = OF_SUCCESS
    \<and> n = 52 + l + length (encoding instr_enc instrs) \<and> 8 dvd n
    \<and> start_of_data m3 = s
    \<and> read_bytes s 48 (mem m3) = flow_mod_fixed a
    \<and> ofp_match_parse (read_bytes (s + 48) (4 + l) (mem m3)) = Some (map match_oxm mfs)
    \<and> wire_parse (read_bytes (s + 52 + l) (n - (52 + l)) (mem m3)) = Some (map instr_wire instrs)
    \<and> (\<forall>x. x < s \<or> s + n \<le> x \<longrightarrow> mem m3 x = mem msg x)"
proof -
  let ?s0 = "ofu_start_setting_match_field_values m0"
  have m0: "m0 = fill_flow_mod a msg"
    using assms(4) by (auto simp: of_create_add_flow_entry_msg_def Let_def
        split: option.splits if_splits)
  have s0: "start_of_data ?s0 = s" "ptr1 ?s0 = s + 52" "pos1 ?s0 = s + 52"
    "buf_end ?s0 = s + unat (buffer_len msg)"
    by (simp_all add: start_setting_match m0 s_def) (simp add: buf_end_def)
  have b: "56 \<le> unat (buffer_len msg)" using assms(11) by simp
  have "match_inv ?s0 ?s0" by (rule match_inv_refl) (use b s0 in simp_all)
  from mf.run_all [OF this assms(7)] obtain m1 where
    run: "run_calls match_step mfs ?s0 = (mfs, m1)" using assms(11) s0 by auto
  obtain len m2 where close: "ofu_end_setting_match_field_values m1 = (len, m2)" by fastforce
  let ?i = "ofu_start_pushing_instructions len m2"
  have "8 dvd buf_end m0 - utils_ptr m0" using assms(2) b by (simp add: m0 buf_end_def dvd_diff_nat)
  note built = ofp_match_built [OF _ _ this assms(7) run close]
  have l: "unat len = l" using built(2) b by (simp add: m0 buf_end_def l_def)
  have flds: "set_flow_match_fields (fe_match_field_list e) OF_SUCCESS ?s0 = (OF_SUCCESS, m1)"
    using set_flow_match_fields_run [OF assms(5) run, of OF_SUCCESS] by (metis prod.collapse)
  obtain acc m3' where run3: "run_calls instr_step instrs ?i = (acc, m3')" by fastforce
  have fit: "52 + unat len + length (encoding instr_enc instrs) + 4 \<le> unat (buffer_len msg)"
    using assms(11) l by (simp add: l_def)
  note fm = flow_mod_built [OF assms(1,2) b assms(3,4,7,8) run close fit run3]
  note i = flow_mod_opened [OF assms(1,2) b assms(3) m0 assms(7) run close]
  have ib: "buf_end ?i = s + unat (buffer_len msg)" using i(4) by (simp add: s_def buf_end_def)
  have "instr_inv ?i ?i"
    by (rule instr_inv_refl) (use i ib fit in \<open>simp_all add: s_def\<close>)
  then have "push_flow_instructions (fe_table_id e) (fe_instruction_list e) OF_SUCCESS ?i = (OF_SUCCESS, m3')"
    using push_flow_instructions_run [OF assms(6,9) _ assms(8), of ?i ?i OF_SUCCESS] fit run3 i(1) ib
    by (simp add: s_def)
  then have "status = OF_SUCCESS \<and> m3 = m3'"
    using assms(10,12) flds close by (auto simp: of_flow_frame_message_def Let_def)
  then show ?thesis using fm unfolding l s_def n_def by (elim conjE) simp
qed

definition sample_field :: ofi_flow_match_fields where
  "sample_field = \<lparr>mf_field_id = 1, mf_field_type = 0, mf_ui8_data = 0, mf_ui16_data = 0x0800, mf_ui32_data = 7,
     mf_ui64_data = 0, mf_ui8_data_array = [1, 2, 3, 4, 5, 6], mf_ipv6_addr = [], mf_is_mask_set = 0,
     mf_mask = [1]\<rparr>"

definition sample_action :: ofi_flow_action where
  "sample_action = \<lparr>fa_action_id = 1, fa_action_type = 0, fa_port_no = 3, fa_ttl = 0, fa_ether_type = 0,
     fa_queue_id = 0, fa_group_id = 0, fa_setfield_type = 22, fa_ui8_data = 0, fa_ui16_data = 0,
     fa_ui32_data = 0x0a000001, fa_ui64_data = 0, fa_ui8_data_array = [], fa_ipv6_addr = []\<rparr>"

definition sample_instruction :: ofi_flow_instruction where
  "sample_instruction = \<lparr>fi_inst_id = 1, fi_instruction_type = 4, fi_ui8_data = 2, fi_ui32_data = 0, fi_ui64_data = 0,
     fi_mask = [], fi_action_list = [sample_action]\<rparr>"

definition sample_entry :: ofi_flow_mod_info where
  "sample_entry = \<lparr>fe_flow_id = 9, fe_table_id = 1, fe_priority = 5, fe_command = 0,
     fe_idle_timeout = 60, fe_hard_timeout = 0, fe_cookie = 9, fe_cookie_mask = 0, fe_flow_flags = 0,
     fe_match_field_list = [sample_field, sample_field\<lparr>mf_field_type := 5\<rparr>],
     fe_instruction_list = [sample_instruction, sample_instruction\<lparr>fi_inst_id := 2, fi_instruction_type := 1\<rparr>],
     fe_action_list = []\<rparr>"

lemma sample_entry_calls:
  "those (map flow_match_call (fe_match_field_list sample_entry)) = Some [In_port 7, Ether_type 0x0800]"
  "those (map flow_instr_call (fe_instruction_list sample_entry))
     = Some [Apply_actions [Output 3 0xffff], Goto_table 2]"
  "\<not> list_ex (backward_goto (fe_table_id sample_entry)) (fe_instruction_list sample_entry)"
  by code_simp+

text \<open>
  C2. An add-flow message framed from an entry whose fields and instructions are
  well formed, whose goto-tables lead forward and which fits the buffer succeeds and contains exactly
  the entry: the fixed part, a match that parses as all its fields, and a list that parses as all its
  instructions, with \<open>data_len\<close> the length of the whole.
\<close>

theorem flow_entry_framed:
  assumes "data_len msg = 0" and "8 dvd unat (buffer_len msg)"
    and "zeros (start_of_data msg) (unat (buffer_len msg)) (mem msg)"
    and "of_create_add_flow_entry_msg get h a msg
           = (OFU_ADD_FLOW_ENTRY_TO_TABLE_SUCCESS, conn, m0)"
    and "those (map flow_match_call (fe_match_field_list e)) = Some mfs"
    and "those (map flow_instr_call (fe_instruction_list e)) = Some instrs"
    and "\<forall>c \<in> set mfs. wf_match c" and "\<forall>i \<in> set instrs. wf_instr i"
    and "\<not> list_ex (backward_goto (fe_table_id e)) (fe_instruction_list e)"
    and "fe_match_field_list e = [] \<or> fe_command e \<noteq> OFPFC_ADD \<or> fe_priority e \<noteq> 0"
    and "52 + length (encoding match_enc mfs) + ROUND_UP (length (encoding match_enc mfs) + 4)
           + length (encoding instr_enc instrs) + 4 \<le> unat (buffer_len msg)"
    and "of_flow_frame_message ADD_FLOW priority e m0 = (status, m3)"
  defines "s \<equiv> start_of_data msg" and "n \<equiv> unat (data_len m3)"
    and "l \<equiv> length (encoding match_enc mfs) + ROUND_UP (length (encoding match_enc mfs) + 4)"
  shows "status = OF_SUCCESS
    \<and> n = 52 + l + length (encoding instr_enc instrs) \<and> 8 dvd n
    \<and> start_of_data m3 = s
    \<and> read_bytes s 48 (mem m3) = flow_mod_fixed a
    \<and> ofp_match_parse (read_bytes (s + 48) (4 + l) (mem m3)) = Some (map match_oxm mfs)
    \<and> wire_parse (read_bytes (s + 52 + l) (n - (52 + l)) (mem m3)) = Some (map instr_wire instrs)
    \<and> (\<forall>x. x < s \<or> s + n \<le> x \<longrightarrow> mem m3 x = mem msg x)"
  using assms(1-12) unfolding s_def n_def l_def by (rule entry_framed)

lemma flow_entry_framed_witness:
  "let msg = sample_msg\<lparr>data_len := 0\<rparr>;
       (rc, conn, m0) = of_create_add_flow_entry_msg sample_lookup 3 sample_args msg;
       (status, m3) = of_flow_frame_message ADD_FLOW 5 sample_entry m0
   in status = OF_SUCCESS
      \<and> ofp_match_parse (read_bytes 1048 24 (mem m3)) = Some [Oxm 0 [0, 0, 0, 7] None, Oxm 5 [8, 0] None]"
proof -
  let ?msg = "sample_msg\<lparr>data_len := 0\<rparr>"
  have msg: "start_of_data ?msg = 1000" "buffer_len ?msg = 128" "data_len ?msg = 0"
    "zeros 1000 n (mem ?msg)" for n
    by (simp_all add: sample_msg_def zeros_def)
  obtain rc conn m0 where cr: "of_create_add_flow_entry_msg sample_lookup 3 sample_args ?msg
      = (rc, conn, m0)" by (metis prod_cases3)
  then have ok: "rc = OFU_ADD_FLOW_ENTRY_TO_TABLE_SUCCESS"
    by (auto simp: of_create_add_flow_entry_msg_def sample_lookup_def)
  obtain status m3 where fr: "of_flow_frame_message ADD_FLOW 5 sample_entry m0 = (status, m3)"
    by fastforce
  let ?mfs = "[In_port 7, Ether_type 0x0800]"
  let ?is = "[Apply_actions [Output 3 0xffff], Goto_table 2]"
  have wf: "\<forall>c \<in> set ?mfs. wf_match c" "\<forall>i \<in> set ?is. wf_instr i"
    by (simp_all add: wf_match_def wf_instr_def wf_action_def)
  have len: "length (encoding match_enc ?mfs) = 14" "length (encoding instr_enc ?is) = 32"
    by (simp_all add: match_enc_def instr_enc_def action_enc_def)
  have r: "ROUND_UP 18 = 6" by (simp add: ROUND_UP_def)
  have "fe_priority sample_entry \<noteq> 0" by (simp add: sample_entry_def)
  then have "status = OF_SUCCESS
      \<and> ofp_match_parse (read_bytes 1048 24 (mem m3)) = Some (map match_oxm ?mfs)"
    using flow_entry_framed [OF _ _ _ cr [unfolded ok] sample_entry_calls(1,2) wf sample_entry_calls(3) _ _ fr]
      msg len r by simp
  then show ?thesis by (simp add: cr fr be32_def be16_def)
qed

lemma set_flow_match_fields_status:
  "fst (set_flow_match_fields fs status msg) \<in> {status, OF_FAILURE}"
  by (induction fs arbitrary: status msg) (auto split: prod.splits)

lemma push_flow_instructions_status:
  "fst (push_flow_instructions table_id fs status msg)
     \<in> (if list_ex (backward_goto table_id) fs then {OF_FLOWMOD_GOTOTABLE_INVALID} else {status, OF_FAILURE})"
proof (induction fs arbitrary: status msg)
  case (Cons f fs)
  obtain retval m where p: "of_flow_push_instruction f msg = (retval, m)" by fastforce
  show ?case
    using Cons.IH [of "if retval \<noteq> OF_SUCCESS then OF_FAILURE else status" m]
    by (auto simp: p backward_goto_def split: if_splits)
qed simp

definition missentry :: "flow_command \<Rightarrow> u16 \<Rightarrow> ofi_flow_mod_info \<Rightarrow> bool" where
  "missentry command priority e \<longleftrightarrow> \<not> (command = DEL_FLOW \<and> priority = 0)
     \<and> fe_command e = OFPFC_ADD \<and> fe_match_field_list e \<noteq> [] \<and> fe_priority e = 0"

lemma frame_message_status:
  "fst (of_flow_frame_message command priority e msg) \<in>
     (if missentry command priority e then {OF_FLOWMOD_ERROR_INVALID_MISSENTRY}
      else if command \<noteq> DEL_FLOW \<and> list_ex (backward_goto (fe_table_id e)) (fe_instruction_list e)
      then {OF_FLOWMOD_GOTOTABLE_INVALID} else {OF_SUCCESS, OF_FAILURE})"
proof -
  let ?s0 = "ofu_start_setting_match_field_values msg" and ?fs = "fe_instruction_list e"
  obtain st m1 where f: "set_flow_match_fields (fe_match_field_list e) OF_SUCCESS ?s0 = (st, m1)"
    by fastforce
  have st: "st \<in> {OF_SUCCESS, OF_FAILURE}"
    using set_flow_match_fields_status [of "fe_match_field_list e" OF_SUCCESS ?s0] f by simp
  obtain len m2 where e1: "ofu_end_setting_match_field_values m1 = (len, m2)" by fastforce
  obtain len0 m20 where e0: "ofu_end_setting_match_field_values ?s0 = (len0, m20)" by fastforce
  have p: "fst (push_flow_instructions (fe_table_id e) ?fs st i)
     \<in> (if list_ex (backward_goto (fe_table_id e)) ?fs then {OF_FLOWMOD_GOTOTABLE_INVALID}
         else {OF_SUCCESS, OF_FAILURE})" for i
    using push_flow_instructions_status [of "fe_table_id e" ?fs st i] st by (auto split: if_splits)
  show ?thesis
    using st p [of "ofu_start_pushing_instructions len m2"]
    by (cases command) (simp_all add: of_flow_frame_message_def missentry_def Let_def
        Suc_le_eq f e1 e0 split: if_splits)
qed



text \<open>
  An unconditional delete of any entry is the fixed part followed by an empty
  match and nothing else: 56 bytes, whatever fields and instructions the entry has.
\<close>

theorem delete_all_flows:
  assumes "data_len msg = 0" and "8 dvd unat (buffer_len msg)" and "56 \<le> unat (buffer_len msg)"
    and "zeros (start_of_data msg) (unat (buffer_len msg)) (mem msg)"
    and "of_create_add_flow_entry_msg get h a msg
           = (OFU_ADD_FLOW_ENTRY_TO_TABLE_SUCCESS, conn, m0)"
    and "of_flow_frame_message DEL_FLOW 0 e m0 = (status, m3)"
  shows "status = OF_SUCCESS \<and> data_len m3 = 56
    \<and> read_bytes (start_of_data msg) 56 (mem m3) = flow_mod_fixed a @ [0, 1, 0, 4, 0, 0, 0, 0]
    \<and> (\<forall>x. x < start_of_data msg \<or> start_of_data msg + 56 \<le> x \<longrightarrow> mem m3 x = mem msg x)"
proof -
  let ?m = "ofu_start_setting_match_field_values m0" and ?s = "start_of_data msg"
  have m0: "m0 = fill_flow_mod a msg"
    using assms(5) by (auto simp: of_create_add_flow_entry_msg_def Let_def
        split: option.splits if_splits)
  obtain len m2 where close: "ofu_end_setting_match_field_values ?m = (len, m2)" by fastforce
  have m3: "status = OF_SUCCESS" "m3 = ofu_start_pushing_instructions 0 m2"
    using assms(6) close by (simp_all add: of_flow_frame_message_def Let_def)
  have "8 dvd buf_end m0 - utils_ptr m0" using assms(2,3) by (simp add: m0 buf_end_def dvd_diff_nat)
  note built = ofp_match_built [OF _ _ this _ _ close, of "[]" "[]"]
  have len: "unat len = 4" using built(2) assms(3) by (simp add: m0 buf_end_def ROUND_UP_def)
  then have l: "len = 4" by (metis of_nat_numeral of_nat_unat ucast_id)
  have b: "data_len m2 = 52 + len" "\<And>x. x < ?s + 48 \<or> ?s + 56 \<le> x \<Longrightarrow> mem m2 x = mem m0 x"
    using built(1) len assms(1,3) by (auto simp: m0 buf_end_def add.commute)
  have "ld16_host (utils_ptr ?m + 2) ?m = 4"
    using match_header_read [of "utils_ptr m0" "mem ?m" "mem m0"]
    by (simp add: ld16_host_def start_setting_match)
  from end_setting_match [OF this] have m2: "mem m2 = write_bytes (?s + 52) (replicate 4 0)
      (write_bytes (?s + 50) (be16 4) (mem ?m))"
    using close by (auto simp: start_setting_match(1-7) m0 ROUND_UP_def add.commute)
  have "read_bytes (?s + 48) 2 (mem ?m) = be16 OFPMT_OXM"
    using match_header_read(1) [of "?s + 48" "mem ?m" "mem m0"] by (simp add: start_setting_match(8) m0)
  from closed_match_read [OF this, of 0 "[]" 4 4]
  have "read_bytes (?s + 48) 8 (mem m2) = be16 OFPMT_OXM @ be16 4 @ replicate 4 0"
    by (simp add: m2 add.commute)
  then have tail: "read_bytes (?s + 48) 8 (mem m2) = [0, 1, 0, 4, 0, 0, 0, 0]"
    by (simp add: be16_def layout_simps zero_pads)
  have "read_bytes ?s 48 (mem m2) = read_bytes ?s 48 (mem m0)"
    using b(2) by (intro read_bytes_cong) simp
  then have "read_bytes ?s (48 + 8) (mem m2) = flow_mod_fixed a @ [0, 1, 0, 4, 0, 0, 0, 0]"
    unfolding read_bytes_split tail using fill_flow_mod_bytes [of msg a] assms(3,4)
    by (simp add: m0 zeros_def)
  then show ?thesis
    using m3 b l fill_flow_mod_outside [of _ msg a] by (simp add: ofu_start_pushing_instructions_def m0)
qed

lemma delete_all_flows_witness:
  "let (rc, conn, m0) = of_create_add_flow_entry_msg sample_lookup 3 sample_args (sample_msg\<lparr>data_len := 0\<rparr>)
   in data_len (snd (of_flow_frame_message DEL_FLOW 0 sample_entry m0)) = 56"
proof -
  let ?msg = "sample_msg\<lparr>data_len := 0\<rparr>"
  obtain rc conn m0 where cr: "of_create_add_flow_entry_msg sample_lookup 3 sample_args ?msg
      = (rc, conn, m0)" by (metis prod_cases3)
  then have ok: "rc = OFU_ADD_FLOW_ENTRY_TO_TABLE_SUCCESS"
    by (auto simp: of_create_add_flow_entry_msg_def sample_lookup_def)
  obtain status m3 where fr: "of_flow_frame_message DEL_FLOW 0 sample_entry m0 = (status, m3)"
    by fastforce
  have "buffer_len ?msg = 128" "data_len ?msg = 0" "zeros (start_of_data ?msg) 128 (mem ?msg)"
    by (simp_all add: sample_msg_def zeros_def)
  then show ?thesis
    using delete_all_flows [OF _ _ _ _ cr [unfolded ok] fr] by (simp add: cr fr)
qed

text \<open>
  A match field that does not fit leaves the message as it is; the caller is
  told so except for five field types (destination MAC, the two ARP hardware addresses, IPv6 flow
  label and ND source), whose arms leave the status alone: such an entry is framed without the field
  and reported as a success, matching more traffic than it says.
\<close>

theorem match_field_no_room:
  assumes "flow_match_call f = Some c" and "wf_match c"
    and "buf_end msg < pos1 msg + length (match_enc c)"
  shows "of_flow_set_match_field f msg = (if match_unnoticed f then OF_SUCCESS else OF_FAILURE, msg)"
proof -
  have "match_step c msg = (False, msg)"
    using match_step_append [OF assms(2)] assms(3) by simp
  then show ?thesis using of_flow_set_match_field_step [OF assms(1), of msg] by simp
qed

lemma match_field_no_room_witness:
  "of_flow_set_match_field (sample_field\<lparr>mf_field_type := 3\<rparr>) (sample_msg\<lparr>length1 := 70\<rparr>)
     = (OF_SUCCESS, sample_msg\<lparr>length1 := 70\<rparr>)"
proof -
  let ?f = "sample_field\<lparr>mf_field_type := 3\<rparr>" and ?c = "Destination_mac [1, 2, 3, 4, 5, 6] 0 [1]"
  have "flow_match_call ?f = Some ?c" "match_unnoticed ?f" by code_simp+
  moreover have "wf_match ?c" "length (match_enc ?c) = 10"
    by (simp_all add: wf_match_def match_enc_def)
  moreover have "pos1 (sample_msg\<lparr>length1 := 70\<rparr>) = 1122" "buf_end (sample_msg\<lparr>length1 := 70\<rparr>) = 1128"
    by (simp_all add: sample_msg_def pos1_def buf_end_def)
  ultimately show ?thesis using match_field_no_room [of ?f ?c] by simp
qed

text \<open>
  A VLAN match is always sent without its mask: an entry that asks for some
  bits of the VLAN id is framed exactly as one that asks for all of them.
\<close>

theorem vlan_mask_ignored:
  assumes "mf_field_type f = 6"
  shows "of_flow_set_match_field f msg = failing OFU_SET_FIELD_SUCCESS (of_set_vlan_id (mf_ui16_data f) 0 0 msg)
    \<and> of_flow_set_match_field (f\<lparr>mf_is_mask_set := m, mf_mask := k\<rparr>) msg = of_flow_set_match_field f msg"
proof -
  have "flow_match_call f = Some (Vlan_id (mf_ui16_data f) 0 0)"
    "flow_match_call (f\<lparr>mf_is_mask_set := m, mf_mask := k\<rparr>) = Some (Vlan_id (mf_ui16_data f) 0 0)"
    "\<not> match_unnoticed f" "\<not> match_unnoticed (f\<lparr>mf_is_mask_set := m, mf_mask := k\<rparr>)"
    using assms by (simp_all add: flow_match_call_def match_unnoticed_def layout_simps Let_def)
  then show ?thesis by (simp add: of_flow_set_match_field_call)
qed

lemma vlan_mask_ignored_witness:
  "of_flow_set_match_field (sample_field\<lparr>mf_field_type := 6, mf_is_mask_set := 1, mf_mask := [0xf, 0]\<rparr>) sample_msg
     = of_flow_set_match_field (sample_field\<lparr>mf_field_type := 6\<rparr>) sample_msg"
  using vlan_mask_ignored [where f = "sample_field\<lparr>mf_field_type := 6\<rparr>" and m = 1 and k = "[0xf, 0]"]
  by simp

text \<open>
  Set-field actions for the ARP addresses, DSCP and ECN compare the result with the success code of
  the match setters.
\<close>

lemma of_flow_push_misread:
  assumes "is_misread f" and "setfield_call f = Some c"
  shows "push_flow_action f msg = (False, snd (action_step (Set_field c) msg))"
  using assms of_flow_push_setfield [OF _ assms(2), of msg]
  by (simp add: push_flow_action_def is_misread_def action_step_def accepted_def)

lemma push_all_append:
  "push_all step (xs @ ys) s = (let (b, s1) = push_all step xs s in if b then push_all step ys s1 else (False, s1))"
  by (induction xs arbitrary: s) (simp_all split: prod.splits)

text \<open>
  Setting an ARP address, the DSCP or the ECN bits in an action list fails
  although it is done: the action is written and counted like any other, but the layer reports a
  failure and drops every action behind it.
\<close>

theorem misread_set_field:
  assumes "is_misread f" and "setfield_call f = Some c" and "flow_actions_call pre = Some cs"
    and "fst (push_all action_step cs (ofu_start_pushing_actions msg))"
  shows "fill_flow_actions (pre @ f # post) status msg
    = (OF_FAILURE, snd (fill_action_instruction (cs @ [Set_field c]) msg))"
proof -
  let ?s = "ofu_start_pushing_actions msg"
  obtain s1 where s1: "push_all action_step cs ?s = (True, s1)"
    using assms(4) by (cases "push_all action_step cs ?s") simp
  have "push_all push_flow_action (pre @ f # post) ?s = (False, snd (action_step (Set_field c) s1))"
    using s1 push_all_flow_actions [OF assms(3)] of_flow_push_misread [OF assms(1,2)]
    by (simp add: push_all_append)
  moreover have "snd (push_all action_step (cs @ [Set_field c]) ?s) = snd (action_step (Set_field c) s1)"
    using s1 by (simp add: push_all_append split: prod.splits)
  ultimately show ?thesis
    by (cases "push_all action_step (cs @ [Set_field c]) ?s")
      (simp add: fill_flow_actions_def fill_action_instruction_def Let_def
        ofu_end_pushing_apply_action_instruction_def split: prod.splits)
qed

text \<open>An ARP source address between two output actions.\<close>

lemma misread_set_field_witness:
  "fill_flow_actions [sample_action, sample_action\<lparr>fa_action_type := 25\<rparr>, sample_action] OF_SUCCESS sample_apply
     = (OF_FAILURE, snd (fill_action_instruction
          [Output 3 0xffff, Set_field (SF_arp_source_ipv4_addr 0x0a000001)] sample_apply))"
proof -
  let ?f = "sample_action\<lparr>fa_action_type := 25\<rparr>"
  have "is_misread ?f" "setfield_call ?f = Some (SF_arp_source_ipv4_addr 0x0a000001)"
    "flow_actions_call [sample_action] = Some [Output 3 0xffff]" by code_simp+
  moreover have "fst (push_all action_step [Output 3 0xffff] (ofu_start_pushing_actions sample_apply))"
    by (simp add: action_step_def accepted_def action_defs ofu_start_pushing_actions_def sample_apply_def
        sample_msg_def msg_defs no_room_def pos1_def buf_end_def layout_simps poke_def Let_def)
  ultimately show ?thesis using misread_set_field [of ?f _ "[sample_action]"] by simp
qed

text \<open>
  A write-actions instruction that does not fit is reported but not
  skipped: the layer goes on to close the instruction before it a second time, so with no actions
  the bytes of that instruction are counted twice in \<open>data_len\<close> and its length field is rewritten.
\<close>

theorem write_actions_no_room:
  assumes "ucast (fi_instruction_type f) = OFPIT_WRITE_ACTIONS" and "fi_action_list f = []"
    and "buf_end msg < pos2 msg + 8" and "ptr2 msg \<noteq> ptr3 msg"
    and "of_flow_push_instruction f msg = (status, msg')"
  shows "status = OF_FAILURE
    \<and> data_len msg' = data_len msg + length2 msg \<and> length2 msg' = length2 msg
    \<and> read_bytes (ptr2 msg + 2) 2 (mem msg') = be16 (length2 msg)"
proof -
  have "ofu_start_pushing_write_action_instruction msg = (OFU_NO_ROOM_IN_BUFFER, msg)"
    using assms(3) by (simp add: ofu_start_pushing_write_action_instruction_def no_room_def layout_simps)
  then show ?thesis
    using assms(1,2,4,5)
    by (auto simp: of_flow_push_instruction_def layout_simps Let_def fill_flow_actions_def
        ofu_start_pushing_actions_def ofu_end_pushing_actions_def msg_defs poke_def read_write_same')
qed

lemma write_actions_no_room_witness:
  "let msg = sample_apply\<lparr>ptr2 := 1104, length2 := 24, ptr3 := 1112, data_len := 128\<rparr>
   in data_len (snd (of_flow_push_instruction
        (sample_instruction\<lparr>fi_instruction_type := 3, fi_action_list := []\<rparr>) msg)) = 152"
proof -
  let ?m = "sample_apply\<lparr>ptr2 := 1104, length2 := 24, ptr3 := 1112, data_len := 128\<rparr>"
  let ?f = "sample_instruction\<lparr>fi_instruction_type := 3, fi_action_list := []\<rparr>"
  have "ucast (fi_instruction_type ?f) = OFPIT_WRITE_ACTIONS" by code_simp
  moreover have "buf_end ?m < pos2 ?m + 8" "ptr2 ?m \<noteq> ptr3 ?m" "data_len ?m = 128" "length2 ?m = 24"
    by (simp_all add: pos2_def buf_end_def sample_apply_def sample_msg_def)
  ultimately show ?thesis
    using write_actions_no_room [of ?f ?m]
    by (cases "of_flow_push_instruction ?f ?m") simp
qed

end
