(* ===== verification/MsgPool.thy ===== *)
theory MsgPool
  imports MsgBuffer
begin

text \<open>
  The message pools: \<open>of_cntlr_msg_init\<close> and \<open>ofu_alloc_message\<close> of \<open>of_cntlr_msg.c\<close> and the block
  handling of \<open>utils/msgpool.c\<close>, in the configuration with support for long messages.  The memory
  pool library is an argument: whether a pool has a block to give, and which; the blocks it gets back are
  recorded.  A block is named by a number; its contents are zero when it is given out.
\<close>

section \<open>The pools\<close>

definition cntlr_app_msg_pools :: "nat list" where
  "cntlr_app_msg_pools = [300, 1500, 300, 300, 300, 20, 20, 10, 10, 10, 10,
     5, 5, 5, 5, 5, 5, 5, 5, 5, 5, 5, 3, 3, 3, 3, 3, 3, 3, 3, 3, 3, 3]"

definition cntlr_mem_pool_grp_granularity :: "nat list" where
  "cntlr_mem_pool_grp_granularity = [128, 512, 2048]"

definition OF_TOTAL_NO_OF_CTRLR_APP_MSG_POOLS :: nat where "OF_TOTAL_NO_OF_CTRLR_APP_MSG_POOLS = 33"
definition OF_TOTAL_NO_OF_CTRLR_MSG_MEM_POOL_GRPS :: nat where "OF_TOTAL_NO_OF_CTRLR_MSG_MEM_POOL_GRPS = 3"

definition number_of_apps_per_pool :: nat where
  "number_of_apps_per_pool = OF_TOTAL_NO_OF_CTRLR_APP_MSG_POOLS div OF_TOTAL_NO_OF_CTRLR_MSG_MEM_POOL_GRPS"

record pool_grp =
  granularity :: nat
  start_block :: nat

record pool_entry =
  block_size :: nat
  number_of_blocks :: nat

record msg_pools =
  pool_grps :: "pool_grp list"
  pool_entries :: "pool_entry list"

text \<open>One round of the loop over the groups; the groups before it are in \<open>grps\<close>.\<close>

definition init_block_size :: "pool_grp list \<Rightarrow> nat \<Rightarrow> nat \<Rightarrow> nat \<Rightarrow> nat" where
  "init_block_size grps pool gran ii =
     (if pool = 0 then (ii + 1) * gran
      else let jj = (ii + 1) mod number_of_apps_per_pool;
               jj = (if jj = 0 then number_of_apps_per_pool else jj)
           in jj * gran + (start_block (grps ! (pool - 1))
                + cntlr_mem_pool_grp_granularity ! (pool - 1) * number_of_apps_per_pool))"

definition init_pool_grp :: "nat \<Rightarrow> msg_pools \<Rightarrow> msg_pools" where
  "init_pool_grp pool p =
     (let start = (if pool \<noteq> 0
             then start_block (pool_grps p ! (pool - 1))
                    + cntlr_mem_pool_grp_granularity ! (pool - 1) * number_of_apps_per_pool
             else 0);
          gran = cntlr_mem_pool_grp_granularity ! pool;
          pool_index = pool * number_of_apps_per_pool;
          total = length (pool_entries p) + number_of_apps_per_pool;
          entries = map (\<lambda>ii. \<lparr>block_size = init_block_size (pool_grps p) pool gran ii,
                              number_of_blocks = cntlr_app_msg_pools ! ii\<rparr>) [pool_index..<total]
      in \<lparr>pool_grps = pool_grps p @ [\<lparr>granularity = gran, start_block = start\<rparr>],
          pool_entries = pool_entries p @ entries\<rparr>)"

definition of_cntlr_msg_init :: msg_pools where
  "of_cntlr_msg_init = fold init_pool_grp [0..<OF_TOTAL_NO_OF_CTRLR_MSG_MEM_POOL_GRPS]
     \<lparr>pool_grps = [], pool_entries = []\<rparr>"

section \<open>Choosing a pool\<close>

text \<open>The loop from the last group down; the groups all start at or above zero, so one is found.\<close>

fun find_pool_grp :: "pool_grp list \<Rightarrow> nat \<Rightarrow> nat \<Rightarrow> nat" where
  "find_pool_grp grps 0 sz = 0"
| "find_pool_grp grps (Suc pool) sz =
     (if start_block (grps ! Suc pool) \<le> sz then Suc pool else find_pool_grp grps pool sz)"

definition padded :: "u16 \<Rightarrow> u16" where
  "padded sz = sz + of_nat (ROUND_UP (unat sz))"

definition choose_pool :: "msg_pools \<Rightarrow> u16 \<Rightarrow> u8" where
  "choose_pool p sz =
     (let pool = find_pool_grp (pool_grps p) (OF_TOTAL_NO_OF_CTRLR_MSG_MEM_POOL_GRPS - 1) (unat sz);
          grp = pool_grps p ! pool;
          new_size = unat sz - start_block grp;
          pool_index = of_nat (new_size div granularity grp);
          pool_index = pool_index + of_nat (pool *
            (OF_TOTAL_NO_OF_CTRLR_APP_MSG_POOLS div OF_TOTAL_NO_OF_CTRLR_MSG_MEM_POOL_GRPS))
      in if new_size mod granularity grp = 0 then pool_index - 1 else pool_index)"

section \<open>Blocks\<close>

text \<open>
  The private part of a block, which is memory of the program whether the block is in use or not; the
  library is taken to leave it as it is until it gives the block out again.  \<open>returned\<close> lists the calls
  of \<open>mempool_release_mem_block\<close>, in their order.  The counters are the cells from the start of the
  arrays \<open>allocated_count\<close> and \<open>released_count\<close> on; ten cells belong to each.
\<close>

record block =
  ref_cnt :: u32
  is_heap :: bool
  pool_index :: u8
  buf_len :: u16

record pool_state =
  pvt_info :: "nat \<Rightarrow> block"
  returned :: "nat list"
  allocated_count :: "nat \<Rightarrow> u32"
  released_count :: "nat \<Rightarrow> u32"

definition counter_cells :: nat where "counter_cells = 10"

definition of_msg_alloc ::
  "(nat \<Rightarrow> (nat \<times> bool) option) \<Rightarrow> msg_pools \<Rightarrow> u8 \<Rightarrow> pool_state \<Rightarrow> nat option \<times> pool_state" where
  "of_msg_alloc get_mem_block p pi st =
     (case get_mem_block (unat pi) of
        None \<Rightarrow> (None, st)
      | Some (msg, heap) \<Rightarrow>
          let pvt = \<lparr>ref_cnt = 1, is_heap = heap, pool_index = pi,
                     buf_len = of_nat (block_size (pool_entries p ! unat pi))\<rparr>;
              st = st\<lparr>pvt_info := (pvt_info st)(msg := pvt)\<rparr>
          in (Some msg, st\<lparr>allocated_count :=
                (allocated_count st)(unat pi := allocated_count st (unat pi) + 1)\<rparr>))"

text \<open>A message in its block: the descriptor the allocation leaves, its buffer at \<open>data\<close>.\<close>

definition init_msg :: "u8 \<Rightarrow> u16 \<Rightarrow> nat \<Rightarrow> memory \<Rightarrow> of_msg" where
  "init_msg ty sz data m =
     \<lparr>msg_type = ty, buffer_len = sz + of_nat (ROUND_UP (unat sz)), start_of_buffer = data,
      start_of_data = data, data_len = 0, utils_ptr = 0, utils_length = 0, ptr1 = 0, length1 = 0,
      ptr2 = 0, length2 = 0, ptr3 = 0, length3 = 0, mem = m\<rparr>"

definition ofu_alloc_message ::
  "(nat \<Rightarrow> (nat \<times> bool) option) \<Rightarrow> msg_pools \<Rightarrow> u8 \<Rightarrow> u16 \<Rightarrow> pool_state
    \<Rightarrow> (nat \<times> (nat \<Rightarrow> memory \<Rightarrow> of_msg)) option \<times> pool_state" where
  "ofu_alloc_message get_mem_block p ty sz st =
     (let sz = padded sz;
          pi = choose_pool p sz
      in if OF_TOTAL_NO_OF_CTRLR_APP_MSG_POOLS \<le> unat pi then (None, st)
         else case of_msg_alloc get_mem_block p pi st of
             (None, st) \<Rightarrow> (None, st)
           | (Some msg, st) \<Rightarrow> (Some (msg, init_msg ty sz), st))"

definition of_msg_dup :: "nat \<Rightarrow> pool_state \<Rightarrow> pool_state" where
  "of_msg_dup msg st =
     (let b = pvt_info st msg in st\<lparr>pvt_info := (pvt_info st)(msg := b\<lparr>ref_cnt := ref_cnt b + 1\<rparr>)\<rparr>)"

definition of_msg_release :: "nat \<Rightarrow> pool_state \<Rightarrow> pool_state" where
  "of_msg_release msg st =
     (let b = pvt_info st msg;
          b = b\<lparr>ref_cnt := ref_cnt b - 1\<rparr>;
          st = st\<lparr>pvt_info := (pvt_info st)(msg := b)\<rparr>
      in if ref_cnt b = 0
         then let pi = unat (pool_index b);
                  st = st\<lparr>released_count := (released_count st)(pi := released_count st pi + 1)\<rparr>
              in st\<lparr>returned := returned st @ [msg]\<rparr>
         else st)"

definition ofu_free_message :: "nat option \<Rightarrow> pool_state \<Rightarrow> pool_state" where
  "ofu_free_message msg st = (case msg of None \<Rightarrow> st | Some m \<Rightarrow> of_msg_release m st)"

section \<open>The table of pools\<close>

definition pool_block_sizes :: "nat list" where
  "pool_block_sizes = map (\<lambda>i. (i + 1) * 128) [0..<11] @ map (\<lambda>i. (i + 1) * 512 + 1408) [0..<11]
     @ map (\<lambda>i. (i + 1) * 2048 + 7040) [0..<11]"

lemma msg_pools_table:
  "map block_size (pool_entries of_cntlr_msg_init) = pool_block_sizes"
  "pool_grps of_cntlr_msg_init
     = [\<lparr>granularity = 128, start_block = 0\<rparr>, \<lparr>granularity = 512, start_block = 1408\<rparr>,
        \<lparr>granularity = 2048, start_block = 7040\<rparr>]"
  by (simp_all add: of_cntlr_msg_init_def init_pool_grp_def init_block_size_def
      OF_TOTAL_NO_OF_CTRLR_APP_MSG_POOLS_def OF_TOTAL_NO_OF_CTRLR_MSG_MEM_POOL_GRPS_def
      number_of_apps_per_pool_def cntlr_mem_pool_grp_granularity_def pool_block_sizes_def
      cntlr_app_msg_pools_def Let_def upt_rec)

definition pool_of :: "nat \<Rightarrow> nat" where
  "pool_of n = (if n < 1409 then (n - 1) div 128 else if n < 7041 then (n - 1409) div 512 + 11
     else (n - 7041) div 2048 + 22)"

lemma block_size_at:
  assumes "i < 33"
  shows "block_size (pool_entries of_cntlr_msg_init ! i)
    = (if i < 11 then (i + 1) * 128 else if i < 22 then (i - 10) * 512 + 1408 else (i - 21) * 2048 + 7040)"
proof -
  have len: "length (pool_entries of_cntlr_msg_init) = 33"
    using arg_cong [OF msg_pools_table(1), of length] by (simp add: pool_block_sizes_def)
  have "block_size (pool_entries of_cntlr_msg_init ! i) = map block_size (pool_entries of_cntlr_msg_init) ! i"
    using assms len by simp
  then show ?thesis
    using assms unfolding msg_pools_table(1) pool_block_sizes_def
    by (auto simp: nth_append algebra_simps)
qed

lemma find_pool_grp_table:
  "find_pool_grp (pool_grps of_cntlr_msg_init) 2 n = (if 7040 \<le> n then 2 else if 1408 \<le> n then 1 else 0)"
  by (simp add: msg_pools_table(2) numeral_2_eq_2)

lemma div_exact_less: "0 < (g :: nat) \<Longrightarrow> 0 < m \<Longrightarrow>
    (if m mod g = 0 then m div g - 1 else m div g) = (m - 1) div g"
  by (cases m) (auto simp: div_Suc mod_Suc split: if_splits)

lemma choose_pool_of:
  assumes "0 < unat s"
  shows "unat (choose_pool of_cntlr_msg_init s) = pool_of (unat s)"
proof -
  define n where "n = unat s"
  define g where "g = (if 7040 \<le> n then 2 else if 1408 \<le> n then 1 else (0 :: nat))"
  define m where "m = n - start_block (pool_grps of_cntlr_msg_init ! g)"
  define gr where "gr = granularity (pool_grps of_cntlr_msg_init ! g)"
  have tab: "m = n - [0, 1408, 7040] ! g" "gr = [128, 512, 2048] ! g"
    by (auto simp: m_def gr_def msg_pools_table(2) g_def)
  have n: "0 < n" "n < 65536" using assms unat_u16_less [of s] by (simp_all add: n_def)
  have "0 < gr" by (auto simp: tab g_def)
  have le: "m div gr + g * 11 < 256" using n by (auto simp: tab g_def)
  have pos: "m mod gr = 0 \<Longrightarrow> 0 < m div gr + g * 11" using n by (auto simp: tab g_def)
  have "choose_pool of_cntlr_msg_init s
      = (if m mod gr = 0 then of_nat (m div gr + g * 11) - 1 else of_nat (m div gr + g * 11))"
    by (simp add: choose_pool_def find_pool_grp_table n_def [symmetric] g_def [symmetric] m_def [symmetric]
        gr_def [symmetric] OF_TOTAL_NO_OF_CTRLR_MSG_MEM_POOL_GRPS_def OF_TOTAL_NO_OF_CTRLR_APP_MSG_POOLS_def
        Let_def numeral_2_eq_2 [symmetric])
  also have "... = of_nat (if m mod gr = 0 then m div gr + g * 11 - 1 else m div gr + g * 11)"
    using pos by (auto simp: of_nat_diff Suc_le_eq simp del: of_nat_add)
  finally have "unat (choose_pool of_cntlr_msg_init s)
      = (if m mod gr = 0 then m div gr + g * 11 - 1 else m div gr + g * 11)"
    using le by (simp add: unat_of_nat del: of_nat_add)
  also have "... = pool_of n"
  proof (cases "m = 0")
    case True
    then have "n = 1408 \<or> n = 7040" using n by (auto simp: tab g_def split: if_splits)
    then show ?thesis using True by (auto simp: pool_of_def g_def)
  next
    case False
    then have "(if m mod gr = 0 then m div gr + g * 11 - 1 else m div gr + g * 11) = (m - 1) div gr + g * 11"
      using div_exact_less [of gr m] \<open>0 < gr\<close> by (auto simp: div_greater_zero_iff dvd_imp_le)
    then show ?thesis using False by (auto simp: pool_of_def tab g_def)
  qed
  finally show ?thesis by (simp add: n_def)
qed

lemma choose_pool_zero: "choose_pool of_cntlr_msg_init 0 = 255"
  using find_pool_grp_table [of 0]
  by (simp add: choose_pool_def msg_pools_table(2) OF_TOTAL_NO_OF_CTRLR_MSG_MEM_POOL_GRPS_def Let_def
      numeral_2_eq_2 [symmetric])

lemma pool_of_fits:
  assumes "0 < n"
  shows "pool_of n < 33 \<longleftrightarrow> n \<le> 29568"
    and "n \<le> 29568 \<Longrightarrow> n \<le> block_size (pool_entries of_cntlr_msg_init ! pool_of n)"
    and "n \<le> 29568 \<Longrightarrow> 0 < pool_of n \<Longrightarrow> block_size (pool_entries of_cntlr_msg_init ! (pool_of n - 1)) < n"
proof -
  show b: "pool_of n < 33 \<longleftrightarrow> n \<le> 29568" using assms by (auto simp: pool_of_def)
  have i: "pool_of n < 11 \<longleftrightarrow> n < 1409" "pool_of n < 22 \<longleftrightarrow> n < 7041"
    using assms by (auto simp: pool_of_def)
  show "n \<le> block_size (pool_entries of_cntlr_msg_init ! pool_of n)" if "n \<le> 29568"
    using b that i assms by (auto simp: block_size_at) (auto simp: pool_of_def)
  show "block_size (pool_entries of_cntlr_msg_init ! (pool_of n - 1)) < n" if "n \<le> 29568" "0 < pool_of n"
  proof -
    have "pool_of n - 1 < 33" using b that by simp
    then show ?thesis using that assms by (auto simp: block_size_at) (auto simp: pool_of_def split: if_splits)
  qed
qed

lemma padded_unat:
  "unat (padded sz) = (if unat sz \<le> 65528 then unat sz + ROUND_UP (unat sz) else 0)"
proof -
  have eq: "padded sz = of_nat (unat sz + ROUND_UP (unat sz))" by (simp add: padded_def)
  show ?thesis
  proof (cases "unat sz \<le> 65528")
    case True
    then have "unat sz + ROUND_UP (unat sz) < 65536" by (auto simp: ROUND_UP_def)
    then show ?thesis unfolding eq using True by (simp add: unat_of_nat del: of_nat_add)
  next
    case False
    then have "unat sz + ROUND_UP (unat sz) = 65536"
      using unat_u16_less [of sz] by (auto simp: ROUND_UP_def)
    then show ?thesis unfolding eq using False by (simp add: unat_of_nat del: of_nat_add)
  qed
qed

section \<open>Properties of the pools\<close>

lemma pool_fit:
  "let n = unat (padded sz); i = unat (choose_pool of_cntlr_msg_init (padded sz))
   in (i < OF_TOTAL_NO_OF_CTRLR_APP_MSG_POOLS \<longleftrightarrow> 0 < unat sz \<and> unat sz \<le> 29568)
      \<and> (0 < unat sz \<and> unat sz \<le> 29568 \<longrightarrow>
           unat sz \<le> n \<and> n < unat sz + 8 \<and> 8 dvd n
           \<and> n \<le> block_size (pool_entries of_cntlr_msg_init ! i)
           \<and> (0 < i \<longrightarrow> block_size (pool_entries of_cntlr_msg_init ! (i - 1)) < n))"
proof -
  define n where "n = unat (padded sz)"
  have n: "n = (if unat sz \<le> 65528 then unat sz + ROUND_UP (unat sz) else 0)"
    by (simp add: n_def padded_unat)
  have le: "n \<le> 29568 \<longleftrightarrow> unat sz \<le> 29568 \<or> 65528 < unat sz" using n by (auto simp: ROUND_UP_def)
  show ?thesis
  proof (cases "n = 0")
    case True
    then have "padded sz = 0" by (simp add: n_def unat_eq_zero)
    then show ?thesis
      using n True le by (auto simp: Let_def choose_pool_zero OF_TOTAL_NO_OF_CTRLR_APP_MSG_POOLS_def split: if_splits)
  next
    case False
    then have c: "unat (choose_pool of_cntlr_msg_init (padded sz)) = pool_of n" and pos: "0 < n"
      using choose_pool_of [of "padded sz"] by (simp_all add: n_def)
    have "unat sz \<le> 65528" "n = unat sz + ROUND_UP (unat sz)" using False n by (auto split: if_splits)
    then show ?thesis
      unfolding Let_def c n_def [symmetric]
      using pool_of_fits [OF pos] le False round_up_lt [of "unat sz"] round_up_dvd [of "unat sz"]
      by (auto simp: OF_TOTAL_NO_OF_CTRLR_APP_MSG_POOLS_def ROUND_UP_def)
  qed
qed

text \<open>
  C18. A request for 1 to 29568 bytes is rounded up to a multiple of eight and served from
  the pool with the smallest blocks that hold it: those of the pool before are too small.  A request for
  no bytes is refused.  Nothing is claimed here of larger requests: although a comment of the
  configuration speaks of packets up to 64k, no pool has larger blocks (lemma \<open>large_refused\<close>).
\<close>

theorem pool_best_fit:
  assumes "unat sz \<le> 29568"
  shows "let n = unat (padded sz); i = unat (choose_pool of_cntlr_msg_init (padded sz))
   in (i < OF_TOTAL_NO_OF_CTRLR_APP_MSG_POOLS \<longleftrightarrow> 0 < unat sz)
      \<and> (0 < unat sz \<longrightarrow>
           unat sz \<le> n \<and> n < unat sz + 8 \<and> 8 dvd n
           \<and> n \<le> block_size (pool_entries of_cntlr_msg_init ! i)
           \<and> (0 < i \<longrightarrow> block_size (pool_entries of_cntlr_msg_init ! (i - 1)) < n))"
  using pool_fit [of sz] assms by (simp add: Let_def)

lemma pool_best_fit_witness:
  "let i = unat (choose_pool of_cntlr_msg_init (padded 1500))
   in 0 < i \<and> 1504 \<le> block_size (pool_entries of_cntlr_msg_init ! i)
     \<and> block_size (pool_entries of_cntlr_msg_init ! (i - 1)) < 1504"
proof -
  have n: "unat (padded 1500) = 1504" by (simp add: padded_unat ROUND_UP_def)
  have "unat (choose_pool of_cntlr_msg_init (padded 1500)) \<noteq> 0"
    using choose_pool_of [of "padded 1500"] n by (simp add: pool_of_def)
  then show ?thesis using pool_best_fit [of 1500] n by (simp add: Let_def)
qed

lemma large_refused:
  "29568 < unat sz \<Longrightarrow> OF_TOTAL_NO_OF_CTRLR_APP_MSG_POOLS \<le> unat (choose_pool of_cntlr_msg_init (padded sz))"
  using pool_fit [of sz] by (simp add: Let_def not_less [symmetric] del: not_less)

text \<open>
  C16. A message that is allocated can hold the requested size: its buffer has the
  size rounded up to a multiple of eight, no more than the block behind it; it is empty and has one
  owner.
\<close>

theorem alloc_message_fits:
  assumes "ofu_alloc_message get of_cntlr_msg_init ty sz st = (Some (msg, mk), st')"
  shows "let m = mk data cells in
    unat sz \<le> unat (buffer_len m) \<and> 8 dvd unat (buffer_len m) \<and> data_len m = 0
    \<and> start_of_data m = data \<and> buf_end m = data + unat (buffer_len m)
    \<and> ref_cnt (pvt_info st' msg) = 1 \<and> unat (buffer_len m) \<le> unat (buf_len (pvt_info st' msg))"
proof -
  let ?n = "padded sz" and ?p = "of_cntlr_msg_init"
  let ?i = "choose_pool ?p ?n"
  have i: "unat ?i < 33" and mk: "mk = init_msg ty ?n"
    and al: "of_msg_alloc get ?p ?i st = (Some msg, st')"
    using assms(1) by (auto simp: ofu_alloc_message_def Let_def OF_TOTAL_NO_OF_CTRLR_APP_MSG_POOLS_def
        split: if_splits prod.splits option.splits)
  note fit = pool_fit [of sz, unfolded Let_def]
  have sz: "0 < unat sz \<and> unat sz \<le> 29568"
    using fit i by (simp add: OF_TOTAL_NO_OF_CTRLR_APP_MSG_POOLS_def)
  then have n: "unat sz \<le> unat ?n" "8 dvd unat ?n"
    "unat ?n \<le> block_size (pool_entries ?p ! unat ?i)" using fit by simp_all
  have "ROUND_UP (unat ?n) = 0" using n(2) by (rule round_up_0)
  then have b: "buffer_len (mk data cells) = ?n" "data_len (mk data cells) = 0"
    "start_of_data (mk data cells) = data" by (simp_all add: mk init_msg_def)
  have "block_size (pool_entries ?p ! unat ?i) < 65536"
    using i by (auto simp: block_size_at)
  then have "unat (of_nat (block_size (pool_entries ?p ! unat ?i)) :: u16)
      = block_size (pool_entries ?p ! unat ?i)" by (simp add: unat_of_nat)
  then show ?thesis
    using al n b by (auto simp: of_msg_alloc_def buf_end_def Let_def split: option.splits prod.splits)
qed

definition sample_pool :: pool_state where
  "sample_pool = \<lparr>pvt_info = (\<lambda>_. \<lparr>ref_cnt = 0, is_heap = False, pool_index = 0, buf_len = 0\<rparr>), returned = [],
     allocated_count = (\<lambda>_. 0), released_count = (\<lambda>_. 0)\<rparr>"

text \<open>A library that always has block 4 to give.\<close>

definition sample_get :: "nat \<Rightarrow> (nat \<times> bool) option" where "sample_get i = Some (4, False)"

lemma sample_choose: "0 < unat sz \<Longrightarrow> unat sz \<le> 29568 \<Longrightarrow>
    unat (choose_pool of_cntlr_msg_init (padded sz)) < 33"
  using pool_fit [of sz] by (simp add: Let_def OF_TOTAL_NO_OF_CTRLR_APP_MSG_POOLS_def)

lemma sample_alloc:
  assumes "0 < unat sz" and "unat sz \<le> 29568"
  obtains mk st where "ofu_alloc_message sample_get of_cntlr_msg_init ty sz sample_pool = (Some (4, mk), st)"
  using sample_choose [OF assms] that
  by (auto simp: ofu_alloc_message_def of_msg_alloc_def sample_get_def Let_def
      OF_TOTAL_NO_OF_CTRLR_APP_MSG_POOLS_def)

lemma alloc_message_fits_witness:
  "case ofu_alloc_message sample_get of_cntlr_msg_init 14 300 sample_pool of
     (Some (msg, mk), st) \<Rightarrow> 300 \<le> unat (buffer_len (mk 1000 (\<lambda>_. 0))) | _ \<Rightarrow> False"
proof -
  obtain mk st where a: "ofu_alloc_message sample_get of_cntlr_msg_init 14 300 sample_pool = (Some (4, mk), st)"
    by (rule sample_alloc [of 300 14]) simp_all
  show ?thesis using alloc_message_fits [OF a, of 1000 "\<lambda>_. 0"] by (simp add: a Let_def)
qed

text \<open>
  The statistics of the pools are arrays of ten counters, but there are
  thirty-three pools: allocating a message of more than 1280 bytes increments a cell behind the array.
\<close>

theorem alloc_count_overrun:
  assumes "1280 < unat sz" and "ofu_alloc_message get of_cntlr_msg_init ty sz st = (Some (msg, mk), st')"
  shows "\<exists>i. counter_cells \<le> i
    \<and> allocated_count st' = (allocated_count st)(i := allocated_count st i + 1)"
proof -
  let ?i = "unat (choose_pool of_cntlr_msg_init (padded sz))"
  have i: "?i < 33" and al: "of_msg_alloc get of_cntlr_msg_init
      (choose_pool of_cntlr_msg_init (padded sz)) st = (Some msg, st')"
    using assms(2) by (auto simp: ofu_alloc_message_def Let_def OF_TOTAL_NO_OF_CTRLR_APP_MSG_POOLS_def
        split: if_splits prod.splits option.splits)
  have "unat sz \<le> unat (padded sz)" "unat (padded sz) \<le> block_size (pool_entries of_cntlr_msg_init ! ?i)"
    using pool_fit [of sz] i by (simp_all add: Let_def OF_TOTAL_NO_OF_CTRLR_APP_MSG_POOLS_def)
  then have "10 \<le> ?i" using assms(1) i by (auto simp: block_size_at split: if_splits)
  then show ?thesis
    using al by (auto simp: of_msg_alloc_def counter_cells_def Let_def split: option.splits prod.splits)
qed

lemma alloc_count_overrun_witness:
  "\<exists>i \<ge> 10. allocated_count (snd (ofu_alloc_message sample_get of_cntlr_msg_init 10 1500 sample_pool)) i = 1"
proof -
  obtain mk st where a: "ofu_alloc_message sample_get of_cntlr_msg_init 10 1500 sample_pool = (Some (4, mk), st)"
    by (rule sample_alloc [of 1500 10]) simp_all
  obtain i where i: "counter_cells \<le> i"
    "allocated_count st = (allocated_count sample_pool)(i := allocated_count sample_pool i + 1)"
    using alloc_count_overrun [OF _ a] by auto
  then have "10 \<le> i" "allocated_count st i = 1" by (simp_all add: counter_cells_def sample_pool_def)
  then show ?thesis unfolding a by auto
qed

text \<open>What allocating does to the blocks; nothing is given back.\<close>

lemma alloc_pool:
  assumes "ofu_alloc_message get p ty sz st = (r, st')"
  shows "returned st' = returned st" and "r = Some (msg, mk) \<Longrightarrow> ref_cnt (pvt_info st' msg) = 1"
    and "r = None \<Longrightarrow> st' = st" and "r = Some (msg, mk) \<Longrightarrow> other \<noteq> msg \<Longrightarrow> pvt_info st' other = pvt_info st other"
  using assms by (auto simp: ofu_alloc_message_def of_msg_alloc_def Let_def split: if_splits option.splits prod.splits)

text \<open>A message with one owner goes back; released again, its count wraps around and it does not go back twice.\<close>

lemma release_last:
  assumes "ref_cnt (pvt_info st msg) = 1"
  shows "returned (of_msg_release msg st) = returned st @ [msg]"
    and "ref_cnt (pvt_info (of_msg_release msg st) msg) = 0"
    and "returned (of_msg_release msg (of_msg_release msg st)) = returned st @ [msg]"
    and "ref_cnt (pvt_info (of_msg_release msg (of_msg_release msg st)) msg) = -1"
  using assms by (simp_all add: of_msg_release_def Let_def)

lemma release_other: "other \<noteq> msg \<Longrightarrow> pvt_info (of_msg_release msg st) other = pvt_info st other"
  by (simp add: of_msg_release_def Let_def)

text \<open>Owners of a block: taking a copy adds one, releasing drops one.\<close>

datatype share_op = Dup | Release

fun run_share :: "nat \<Rightarrow> share_op list \<Rightarrow> pool_state \<Rightarrow> pool_state" where
  "run_share msg [] st = st"
| "run_share msg (Dup # ops) st = run_share msg ops (of_msg_dup msg st)"
| "run_share msg (Release # ops) st = run_share msg ops (of_msg_release msg st)"

text \<open>The owners after some operations; nobody who owns nothing copies or releases.\<close>

fun owners :: "share_op list \<Rightarrow> nat \<Rightarrow> nat option" where
  "owners [] h = Some h"
| "owners (op # ops) 0 = None"
| "owners (Dup # ops) (Suc h) = owners ops (Suc (Suc h))"
| "owners (Release # ops) (Suc h) = owners ops h"

lemma owners_zero: "owners ops 0 = Some h \<Longrightarrow> ops = [] \<and> h = 0"
  by (cases ops) auto

text \<open>
  C17. While only owners of a block in use copy and release it, its reference count is
  the number of its owners, and it goes back to its pool once, with the release of the last owner, and not
  before.  A release by somebody who owns nothing is excluded: the code does not notice it, and it makes
  the count wrap around (lemma \<open>release_last\<close>).
\<close>

theorem block_returned_once:
  assumes "ref_cnt (pvt_info st msg) = of_nat h" and "0 < h" and "h + length ops < 2 ^ 32"
    and "owners ops h = Some h'"
  shows "ref_cnt (pvt_info (run_share msg ops st) msg) = of_nat h'
    \<and> returned (run_share msg ops st) = returned st @ (if h' = 0 then [msg] else [])"
  using assms
proof (induction ops arbitrary: st h)
  case (Cons op ops)
  obtain k where k: "h = Suc k" using Cons.prems(2) by (cases h) auto
  show ?case
  proof (cases op)
    case Dup
    have "ref_cnt (pvt_info (of_msg_dup msg st) msg) = of_nat (Suc h)"
      "returned (of_msg_dup msg st) = returned st"
      using Cons.prems(1) by (simp_all add: of_msg_dup_def Let_def)
    then show ?thesis using Cons.IH [of "of_msg_dup msg st" "Suc h"] Cons.prems Dup k by simp
  next
    case Release
    have c: "ref_cnt (pvt_info (of_msg_release msg st) msg) = of_nat k"
      using Cons.prems(1) k by (simp add: of_msg_release_def Let_def)
    have z: "(of_nat k :: u32) = 0 \<longleftrightarrow> k = 0"
      using Cons.prems(3) k by (auto simp: word_of_nat_eq_0_iff dest: dvd_imp_le)
    have r: "returned (of_msg_release msg st) = returned st @ (if k = 0 then [msg] else [])"
      using Cons.prems(1) k z by (simp add: of_msg_release_def Let_def)
    show ?thesis
    proof (cases "k = 0")
      case True
      then have "ops = []" "h' = 0" using Cons.prems(4) Release k owners_zero by auto
      then show ?thesis using c r True Release by simp
    next
      case False
      then show ?thesis using Cons.IH [of "of_msg_release msg st" k] Cons.prems c r Release k by simp
    qed
  qed
qed simp

definition sample_block :: block where
  "sample_block = \<lparr>ref_cnt = 1, is_heap = False, pool_index = 2, buf_len = 384\<rparr>"

definition sample_shares :: "share_op list" where
  "sample_shares = [Dup, Release, Dup, Release, Release]"

lemma block_returned_once_witness:
  "returned (run_share 4 sample_shares (sample_pool\<lparr>pvt_info := \<lambda>_. sample_block\<rparr>)) = [4]"
proof -
  let ?st = "sample_pool\<lparr>pvt_info := \<lambda>_. sample_block\<rparr>"
  have "ref_cnt (pvt_info ?st 4) = of_nat 1" "length sample_shares = 5" "owners sample_shares 1 = Some 0"
    "returned ?st = []"
    by (simp_all add: sample_block_def sample_shares_def sample_pool_def)
  then show ?thesis using block_returned_once [of ?st 4 1 sample_shares 0] by simp
qed

end
