(* ===== verification/FlowSend.thy ===== *)
theory FlowSend
  imports FlowEntry MsgPool
begin

text \<open>
  Sending a flow entry: \<open>of_flow_mod_frame_and_send_message\<close> of \<open>of_flow.c\<close> with
  \<open>of_cntrlr_send_request_message\<close> of \<open>of_cntlr_2_sw_msgapi.c\<close>.  The message comes from the pools
  of theory \<open>MsgPool\<close>; the datapath lookup, the delivery to a channel, the place of a block in
  memory and the memory itself are arguments.  The outcome records the status, the read locks that
  are still held, what was handed to delivery, the pools, and the flow entries of the datapath, of
  which the routine changes the one it sends.
\<close>

section \<open>The routine\<close>

definition OFPFF_RESET_COUNTS :: u8 where [layout_simps]: "OFPFF_RESET_COUNTS = 4"
definition OFP_NO_BUFFER :: u32 where [layout_simps]: "OFP_NO_BUFFER = 0xffffffff"

record flow_datapath = datapath_entry +
  flow_table :: "ofi_flow_mod_info list"

record flow_outcome =
  fo_status :: of_status
  fo_read_locks :: int
  fo_sent :: "(nat option \<times> of_msg) list"
  fo_pool :: pool_state
  fo_flow_table :: "ofi_flow_mod_info list option"

text \<open>
  What the transport does with a message (\<open>trnsprt_core.c\<close>): it takes it; it refuses it and leaves it to
  the caller, when the channel is gone or a queue is full; or it refuses it because the socket failed, and
  then it has released it (\<open>cntlr_tnsprt_try_2_send_msg_on_line\<close>).
\<close>

datatype delivery = Accepted | Refused | Refused_and_released

definition transport_release :: "delivery \<Rightarrow> nat \<Rightarrow> pool_state \<Rightarrow> pool_state" where
  "transport_release d blk st = (if d = Refused_and_released then of_msg_release blk st else st)"

text \<open>Fields of the stored entry that are zero get the defaults, which are zero as well.\<close>

definition default_fields :: "ofi_flow_mod_info \<Rightarrow> ofi_flow_mod_info" where
  "default_fields e =
     (let cookie = 0; cookie_mask = 0; flags = 0;
          e = (if fe_cookie e = 0 then e\<lparr>fe_cookie := cookie\<rparr> else e);
          e = (if fe_cookie_mask e = 0 then e\<lparr>fe_cookie_mask := cookie_mask\<rparr> else e)
      in if fe_flow_flags e = 0 then e\<lparr>fe_flow_flags := flags\<rparr> else e)"

definition flow_args :: "ofi_flow_mod_info \<Rightarrow> flow_mod_args" where
  "flow_args e = \<lparr>fm_table_id = fe_table_id e, fm_priority = fe_priority e, fm_command = fe_command e,
     fm_cookie = fe_cookie e, fm_cookie_mask = fe_cookie_mask e, fm_buffer_id = OFP_NO_BUFFER,
     fm_flags = ucast (fe_flow_flags e), fm_hard_timeout = fe_hard_timeout e,
     fm_idle_timeout = fe_idle_timeout e\<rparr>"

definition of_cntrlr_send_request_message ::
  "(u64 \<Rightarrow> 'd option) \<Rightarrow> (nat option \<Rightarrow> of_msg \<Rightarrow> delivery) \<Rightarrow> u64 \<Rightarrow> nat option \<Rightarrow> of_msg
    \<Rightarrow> delivery \<times> (nat option \<times> of_msg) list" where
  "of_cntrlr_send_request_message get_datapath_byhandle deliver datapath_handle conn_info msg =
     (let msg = st16 (start_of_data msg + 2) (data_len msg) msg in
      case get_datapath_byhandle datapath_handle of
        None \<Rightarrow> (Refused, [])
      | Some datapath \<Rightarrow> (deliver conn_info msg, [(conn_info, msg)]))"

text \<open>The entry is changed where it is: the first with its number.\<close>

fun store_entry :: "u32 \<Rightarrow> ofi_flow_mod_info \<Rightarrow> ofi_flow_mod_info list \<Rightarrow> ofi_flow_mod_info list" where
  "store_entry k e [] = []"
| "store_entry k e (x # xs) = (if fe_flow_id x = k then e # xs else x # store_entry k e xs)"

text \<open>
  A result of \<open>of_create_add_flow_entry_msg\<close> other than success is only logged.  The two early exits
  under the read lock leave by \<open>break\<close>, past the release.
\<close>

definition of_flow_mod_frame_and_send_message ::
  "(nat \<Rightarrow> (nat \<times> bool) option) \<Rightarrow> (nat \<Rightarrow> nat) \<Rightarrow> memory \<Rightarrow> (u64 \<Rightarrow> flow_datapath option)
    \<Rightarrow> (nat option \<Rightarrow> of_msg \<Rightarrow> delivery) \<Rightarrow> u64 \<Rightarrow> u32 \<Rightarrow> u16 \<Rightarrow> flow_command \<Rightarrow> pool_state \<Rightarrow> flow_outcome" where
  "of_flow_mod_frame_and_send_message get_mem_block data_of cells get_datapath_byhandle deliver
     datapath_handle flow_id priority command st =
     (case ofu_alloc_message get_mem_block of_cntlr_msg_init OFPT_FLOW_MOD 300 st of
        (None, st) \<Rightarrow> \<lparr>fo_status = OF_FAILURE, fo_read_locks = 0, fo_sent = [], fo_pool = st,
           fo_flow_table = map_option flow_table (get_datapath_byhandle datapath_handle)\<rparr>
      | (Some (blk, mk), st) \<Rightarrow>
          (case get_datapath_byhandle datapath_handle of
             None \<Rightarrow> \<lparr>fo_status = OF_FAILURE, fo_read_locks = 1, fo_sent = [], fo_pool = st, fo_flow_table = None\<rparr>
           | Some datapath \<Rightarrow>
               (case find (\<lambda>e. fe_flow_id e = flow_id) (flow_table datapath) of
                  None \<Rightarrow> \<lparr>fo_status = OF_FAILURE, fo_read_locks = 1, fo_sent = [], fo_pool = st,
                    fo_flow_table = Some (flow_table datapath)\<rparr>
                | Some e \<Rightarrow>
                    let msg = mk (data_of blk) cells;
                        e = default_fields e;
                        (status, conn_info, e, msg) =
                          (if command = ADD_FLOW then
                             let e = e\<lparr>fe_flow_flags := fe_flow_flags e OR OFPFF_RESET_COUNTS\<rparr>;
                                 (retval, conn_info, msg) =
                                   of_create_add_flow_entry_msg
                                     (\<lambda>h. map_option datapath_entry.truncate (get_datapath_byhandle h))
                                     datapath_handle (flow_args e) msg
                             in (OF_SUCCESS, conn_info, e, msg)
                           else (OF_FAILURE, None, e, msg));
                        entries = Some (store_entry flow_id e (flow_table datapath));
                        (retval, msg) = of_flow_frame_message command priority e msg
                    in if retval \<noteq> OF_SUCCESS then
                         \<lparr>fo_status = retval, fo_read_locks = 1, fo_sent = [], fo_pool = st, fo_flow_table = entries\<rparr>
                       else let
                         (taken, sent) = of_cntrlr_send_request_message get_datapath_byhandle deliver
                           datapath_handle conn_info msg
                       in \<lparr>fo_status = (if taken = Accepted then status else OF_FAILURE), fo_read_locks = 0,
                           fo_sent = sent, fo_pool = transport_release taken blk st, fo_flow_table = entries\<rparr>)))"

section \<open>What is sent\<close>

lemma default_fields_id [simp]: "default_fields e = e"
  by (simp add: default_fields_def Let_def)

text \<open>The fixed part with the length in its header.\<close>

definition flow_mod_wire :: "flow_mod_args \<Rightarrow> nat \<Rightarrow> u8 list" where
  "flow_mod_wire a n = [4, 14] @ be16 (of_nat n) @ drop 4 (flow_mod_fixed a)"

lemma read_header_length:
  assumes "read_bytes s 48 (mem m) = flow_mod_fixed a" and "start_of_data m = s"
  shows "read_bytes s 48 (mem (st16 (s + 2) l m)) = [4, 14] @ be16 l @ drop 4 (flow_mod_fixed a)"
proof -
  have "read_bytes s (2 + (2 + 44)) (mem m) = flow_mod_fixed a" using assms(1) by simp
  then have "read_bytes s 2 (mem m) @ read_bytes (s + 2) 2 (mem m) @ read_bytes (s + 4) 44 (mem m)
      = flow_mod_fixed a" unfolding read_bytes_split by (simp add: add.assoc)
  from arg_cong [OF this, of "take 2"] arg_cong [OF this, of "drop 4"]
  have r: "read_bytes s 2 (mem m) = take 2 (flow_mod_fixed a)"
    "read_bytes (s + 4) 44 (mem m) = drop 4 (flow_mod_fixed a)" by simp_all
  have "read_bytes s (2 + (2 + 44)) (mem (st16 (s + 2) l m))
      = take 2 (flow_mod_fixed a) @ be16 l @ drop 4 (flow_mod_fixed a)"
    unfolding read_bytes_split
    by (simp add: msg_defs poke_def read_write_disjoint read_write_same' add.assoc r)
  then show ?thesis by (simp add: flow_mod_fixed_def)
qed

lemma alloc_flow_message:
  assumes "ofu_alloc_message get of_cntlr_msg_init ty 300 st = (Some (blk, mk), st')"
  shows "mk = init_msg ty 304" and "buffer_len (mk data cells) = 304" and "data_len (mk data cells) = 0"
    and "start_of_data (mk data cells) = data" and "mem (mk data cells) = cells"
proof -
  have "padded 300 = 304" by (simp add: padded_def ROUND_UP_def)
  then show mk: "mk = init_msg ty 304"
    using assms by (auto simp: ofu_alloc_message_def Let_def split: if_splits prod.splits option.splits)
  show "buffer_len (mk data cells) = 304" "data_len (mk data cells) = 0"
    "start_of_data (mk data cells) = data" "mem (mk data cells) = cells"
    by (simp_all add: mk init_msg_def ROUND_UP_def)
qed

text \<open>The arguments with which an entry is created.\<close>

definition sent_args :: "ofi_flow_mod_info \<Rightarrow> flow_mod_args" where
  "sent_args e = flow_args (e\<lparr>fe_flow_flags := fe_flow_flags e OR OFPFF_RESET_COUNTS\<rparr>)"

text \<open>
  The fixed part of an entry's message, with the length in its header: the timeouts, flags and
  cookies of the entry, no buffer, and any port and group.
\<close>

definition entry_wire :: "ofi_flow_mod_info \<Rightarrow> nat \<Rightarrow> u8 list" where
  "entry_wire e n =
     [4, 14] @ be16 (of_nat n) @ [0, 0, 0, 0] @ be64 (fe_cookie e) @ be64 (fe_cookie_mask e)
     @ [fe_table_id e, fe_command e] @ be16 (fe_idle_timeout e) @ be16 (fe_hard_timeout e)
     @ be16 (fe_priority e) @ be32 0xffffffff @ be32 0xffffffff @ be32 0xffffffff
     @ be16 (ucast (fe_flow_flags e OR 4)) @ [0, 0]"

lemma flow_mod_wire_entry: "flow_mod_wire (sent_args e) n = entry_wire e n"
  by (simp add: flow_mod_wire_def entry_wire_def flow_mod_fixed_def sent_args_def flow_args_def
      OFPFF_RESET_COUNTS_def OFP_NO_BUFFER_def)

lemma frame_with_flags:
  "of_flow_frame_message c p (e\<lparr>fe_flow_flags := x\<rparr>) msg = of_flow_frame_message c p e msg"
proof -
  let ?e = "e\<lparr>fe_flow_flags := x\<rparr>"
  have f: "fe_command ?e = fe_command e" "fe_match_field_list ?e = fe_match_field_list e"
    "fe_priority ?e = fe_priority e" "fe_table_id ?e = fe_table_id e"
    "fe_instruction_list ?e = fe_instruction_list e" by simp_all
  show ?thesis unfolding of_flow_frame_message_def f ..
qed

lemma create_for_datapath:
  assumes "get h = Some dp" and "is_main_conn_present dp" and "main_channel dp = Some ch"
  shows "of_create_add_flow_entry_msg (\<lambda>h. map_option datapath_entry.truncate (get h)) h a msg
    = (OFU_ADD_FLOW_ENTRY_TO_TABLE_SUCCESS, Some ch, fill_flow_mod a msg)"
  using assms by (simp add: of_create_add_flow_entry_msg_def datapath_entry.truncate_def)

lemma flow_message_sent:
  assumes "ofu_alloc_message gb of_cntlr_msg_init OFPT_FLOW_MOD 300 st = (Some (blk, mk), st')"
    and "zeros (data_of blk) 304 cells"
    and "get h = Some dp" and "is_main_conn_present dp" and "main_channel dp = Some ch"
    and "find (\<lambda>e. fe_flow_id e = flow_id) (flow_table dp) = Some e"
    and "those (map flow_match_call (fe_match_field_list e)) = Some mfs"
    and "those (map flow_instr_call (fe_instruction_list e)) = Some instrs"
    and "\<forall>c \<in> set mfs. wf_match c" and "\<forall>i \<in> set instrs. wf_instr i"
    and "\<not> list_ex (backward_goto (fe_table_id e)) (fe_instruction_list e)"
    and "fe_match_field_list e = [] \<or> fe_command e \<noteq> OFPFC_ADD \<or> fe_priority e \<noteq> 0"
    and "length (encoding match_enc mfs) + ROUND_UP (length (encoding match_enc mfs) + 4)
           + length (encoding instr_enc instrs) \<le> 248"
    and "of_flow_mod_frame_and_send_message gb data_of cells get deliver h flow_id priority ADD_FLOW st = r"
  defines "s \<equiv> data_of blk"
    and "l \<equiv> length (encoding match_enc mfs) + ROUND_UP (length (encoding match_enc mfs) + 4)"
    and "n \<equiv> 52 + length (encoding match_enc mfs) + ROUND_UP (length (encoding match_enc mfs) + 4)
           + length (encoding instr_enc instrs)"
  shows "\<exists>m. fo_sent r = [(Some ch, m)] \<and> fo_read_locks r = 0
    \<and> fo_status r = (if deliver (Some ch) m = Accepted then OF_SUCCESS else OF_FAILURE)
    \<and> fo_pool r = transport_release (deliver (Some ch) m) blk st'
    \<and> fo_flow_table r = Some (store_entry flow_id (e\<lparr>fe_flow_flags := fe_flow_flags e OR OFPFF_RESET_COUNTS\<rparr>) (flow_table dp))
    \<and> read_bytes s 48 (mem m) = entry_wire e n
    \<and> ofp_match_parse (read_bytes (s + 48) (4 + l) (mem m)) = Some (map match_oxm mfs)
    \<and> wire_parse (read_bytes (s + 52 + l) (n - (52 + l)) (mem m)) = Some (map instr_wire instrs)"
proof -
  let ?get = "\<lambda>h. map_option datapath_entry.truncate (get h)"
  let ?e = "e\<lparr>fe_flow_flags := fe_flow_flags e OR OFPFF_RESET_COUNTS\<rparr>"
  note al = alloc_flow_message(2-5) [OF assms(1), of s cells]
  obtain m0 where cr: "of_create_add_flow_entry_msg ?get h (sent_args e) (mk s cells)
      = (OFU_ADD_FLOW_ENTRY_TO_TABLE_SUCCESS, Some ch, m0)"
    using create_for_datapath [where get = get, OF assms(3-5)] by blast
  obtain status m3 where fr: "of_flow_frame_message ADD_FLOW priority e m0 = (status, m3)" by fastforce
  have fit: "52 + length (encoding match_enc mfs) + ROUND_UP (length (encoding match_enc mfs) + 4)
      + length (encoding instr_enc instrs) + 4 \<le> unat (buffer_len (mk s cells))"
    using assms(13) al(1) by simp
  note framed = entry_framed [OF al(2) _ _ cr assms(7-12) fit fr]
  have f: "status = OF_SUCCESS" "unat (data_len m3) = n"
    "read_bytes s 48 (mem m3) = flow_mod_fixed (sent_args e)"
    "ofp_match_parse (read_bytes (s + 48) (4 + l) (mem m3)) = Some (map match_oxm mfs)"
    "wire_parse (read_bytes (s + 52 + l) (n - (52 + l)) (mem m3)) = Some (map instr_wire instrs)"
    and sd: "start_of_data m3 = s"
    using framed al assms(2) by (auto simp: s_def n_def l_def)
  let ?m = "st16 (s + 2) (data_len m3) m3"
  have "data_len m3 = of_nat n" using f(2) by (metis of_nat_unat ucast_id)
  then have "read_bytes s 48 (mem ?m) = entry_wire e n"
    using read_header_length [OF f(3) sd] by (simp add: flow_mod_wire_def flip: flow_mod_wire_entry)
  moreover have "read_bytes (s + 48) k (mem ?m) = read_bytes (s + 48) k (mem m3)"
    "read_bytes (s + 52 + l) k (mem ?m) = read_bytes (s + 52 + l) k (mem m3)" for k
    by (simp_all add: msg_defs poke_def read_write_disjoint)
  moreover have "r = \<lparr>fo_status = (if deliver (Some ch) ?m = Accepted then OF_SUCCESS else OF_FAILURE),
      fo_read_locks = 0, fo_sent = [(Some ch, ?m)], fo_pool = transport_release (deliver (Some ch) ?m) blk st',
      fo_flow_table = Some (store_entry flow_id ?e (flow_table dp))\<rparr>"
    using assms(1,3,6,14) cr fr f(1) sd
    by (simp add: of_flow_mod_frame_and_send_message_def sent_args_def frame_with_flags
        of_cntrlr_send_request_message_def s_def Let_def)
  ultimately show ?thesis using f by simp
qed


definition sample_datapath :: flow_datapath where
  "sample_datapath = \<lparr>is_main_conn_present = True, main_channel = Some 1, flow_table = [sample_entry]\<rparr>"

definition sample_datapaths :: "u64 \<Rightarrow> flow_datapath option" where
  "sample_datapaths h = (if h = 3 then Some sample_datapath else None)"


text \<open>The entries framing refuses.\<close>

definition frame_refused :: "flow_command \<Rightarrow> u16 \<Rightarrow> ofi_flow_mod_info \<Rightarrow> bool" where
  "frame_refused command priority e \<longleftrightarrow> missentry command priority e
     \<or> command \<noteq> DEL_FLOW \<and> list_ex (backward_goto (fe_table_id e)) (fe_instruction_list e)"

lemma refused_outcome:
  assumes "ofu_alloc_message gb of_cntlr_msg_init OFPT_FLOW_MOD 300 st = (Some (blk, mk), st')"
    and "get h = Some dp" and "find (\<lambda>e. fe_flow_id e = flow_id) (flow_table dp) = Some e"
    and "frame_refused command priority e"
    and "of_flow_mod_frame_and_send_message gb data_of cells get deliver h flow_id priority command st = r"
  shows "fo_status r \<noteq> OF_SUCCESS \<and> fo_read_locks r = 1 \<and> fo_sent r = [] \<and> fo_pool r = st'"
proof -
  have "of_flow_frame_message command priority e m \<noteq> (OF_SUCCESS, m')" for m m'
    using frame_message_status [of command priority e m] assms(4) by (auto simp: frame_refused_def split: if_splits)
  then show ?thesis
    using assms(1,2,3,5)
    by (auto simp: of_flow_mod_frame_and_send_message_def frame_with_flags Let_def split: prod.splits if_splits)
qed

text \<open>
  When the datapath or the flow is unknown, or framing reports an error, the
  routine fails with the read lock still held and with the message neither sent nor released: its
  block does not go back.
\<close>

theorem read_lock_leaked:
  assumes "ofu_alloc_message gb of_cntlr_msg_init OFPT_FLOW_MOD 300 st = (Some (blk, mk), st')"
    and "get h = None
      \<or> (\<exists>dp. get h = Some dp \<and> find (\<lambda>e. fe_flow_id e = flow_id) (flow_table dp) = None)
      \<or> (\<exists>dp e. get h = Some dp \<and> find (\<lambda>e. fe_flow_id e = flow_id) (flow_table dp) = Some e
           \<and> frame_refused command priority e)"
    and "of_flow_mod_frame_and_send_message gb data_of cells get deliver h flow_id priority command st = r"
  shows "fo_status r \<noteq> OF_SUCCESS \<and> fo_read_locks r = 1 \<and> fo_sent r = []
    \<and> returned (fo_pool r) = returned st"
proof -
  have used: "returned st' = returned st" by (rule alloc_pool [OF assms(1)])
  from assms(2) show ?thesis
  proof (elim disjE exE conjE)
    fix dp e
    assume "get h = Some dp" "find (\<lambda>e. fe_flow_id e = flow_id) (flow_table dp) = Some e"
      "frame_refused command priority e"
    from refused_outcome [where get = get, OF assms(1) this assms(3)] used show ?thesis by simp
  qed (use assms(1,3) used in \<open>auto simp: of_flow_mod_frame_and_send_message_def\<close>)
qed

lemma read_lock_leaked_witness:
  "fo_read_locks (of_flow_mod_frame_and_send_message sample_get (\<lambda>_. 5000) (\<lambda>_. 0) sample_datapaths
     (\<lambda>_ _. Accepted) 3 8 5 ADD_FLOW sample_pool) = 1"
proof -
  obtain mk st where al: "ofu_alloc_message sample_get of_cntlr_msg_init OFPT_FLOW_MOD 300 sample_pool = (Some (4, mk), st)"
    by (rule sample_alloc [of 300 OFPT_FLOW_MOD]) simp_all
  have "\<exists>dp. sample_datapaths 3 = Some dp \<and> find (\<lambda>e. fe_flow_id e = 8) (flow_table dp) = None"
    by (simp add: sample_datapaths_def sample_datapath_def sample_entry_def)
  then show ?thesis using read_lock_leaked [OF al _ refl, of sample_datapaths 3 8 ADD_FLOW 5] by simp
qed

text \<open>
  A datapath that has lost its main connection is noticed only by a log
  line: the message is framed and handed to delivery all the same, with a connection that was never
  set, and if delivery accepts it the caller is told the flow was added.
\<close>

theorem sent_without_connection:
  assumes "ofu_alloc_message gb of_cntlr_msg_init OFPT_FLOW_MOD 300 st = (Some (blk, mk), st')"
    and "get h = Some dp" and "\<not> is_main_conn_present dp \<or> main_channel dp = None"
    and "find (\<lambda>e. fe_flow_id e = flow_id) (flow_table dp) = Some e"
    and "fst (of_flow_frame_message ADD_FLOW priority e (fill_flow_mod (sent_args e) (mk (data_of blk) cells)))
           = OF_SUCCESS"
    and "of_flow_mod_frame_and_send_message gb data_of cells get deliver h flow_id priority ADD_FLOW st = r"
  shows "\<exists>m. fo_sent r = [(None, m)] \<and> fo_status r = (if deliver None m = Accepted then OF_SUCCESS else OF_FAILURE)"
proof -
  have "of_create_add_flow_entry_msg (\<lambda>h. map_option datapath_entry.truncate (get h)) h (sent_args e) msg
      = (FLOW_OF_FAILURE, None, fill_flow_mod (sent_args e) msg)" for msg
    using assms(2,3) by (auto simp: of_create_add_flow_entry_msg_def datapath_entry.truncate_def Let_def)
  then show ?thesis
    using assms(1,2,4,5,6)
    by (auto simp: of_flow_mod_frame_and_send_message_def frame_with_flags sent_args_def
        of_cntrlr_send_request_message_def Let_def split: prod.splits)
qed

lemma sent_without_connection_witness:
  "let dp = sample_datapath\<lparr>is_main_conn_present := False,
               flow_table := [sample_entry\<lparr>fe_match_field_list := [], fe_instruction_list := []\<rparr>]\<rparr>
   in map fst (fo_sent (of_flow_mod_frame_and_send_message sample_get (\<lambda>_. 5000) (\<lambda>_. 0) [3 \<mapsto> dp]
        (\<lambda>_ _. Accepted) 3 9 5 ADD_FLOW sample_pool)) = [None]"
proof -
  let ?e = "sample_entry\<lparr>fe_match_field_list := [], fe_instruction_list := []\<rparr>"
  let ?dp = "sample_datapath\<lparr>is_main_conn_present := False, flow_table := [?e]\<rparr>"
  obtain mk st where al: "ofu_alloc_message sample_get of_cntlr_msg_init OFPT_FLOW_MOD 300 sample_pool = (Some (4, mk), st)"
    by (rule sample_alloc [of 300 OFPT_FLOW_MOD]) simp_all
  have fr: "fst (of_flow_frame_message ADD_FLOW 5 ?e m) = OF_SUCCESS" for m
    by (simp add: of_flow_frame_message_def Let_def split: prod.splits)
  have "fe_flow_id sample_entry = 9" by (simp add: sample_entry_def)
  then have "find (\<lambda>e. fe_flow_id e = 9) (flow_table ?dp) = Some ?e" by simp
  then have "\<exists>m. fo_sent (of_flow_mod_frame_and_send_message sample_get (\<lambda>_. 5000) (\<lambda>_. 0) [3 \<mapsto> ?dp]
        (\<lambda>_ _. Accepted) 3 9 5 ADD_FLOW sample_pool) = [(None, m)]"
    using sent_without_connection [where get = "[3 \<mapsto> ?dp]" and h = 3 and dp = ?dp and flow_id = 9
        and data_of = "\<lambda>_. 5000" and cells = "\<lambda>_. 0" and deliver = "\<lambda>_ _. Accepted", OF al _ _ _ fr refl]
    by auto
  then show ?thesis by auto
qed

end
