(* ===== verification/Simulation.thy ===== *)
theory Simulation
  imports Prelude
begin

text \<open>
  Runs of a state machine over a list of operations, and the contract of a refinement: every
  operation of the code does to the abstraction of its state what the specification does, with the
  same observable result.  The locale proves once that whole runs then agree.
\<close>

fun run :: "('op \<Rightarrow> 's \<Rightarrow> 'r \<times> 's) \<Rightarrow> 'op list \<Rightarrow> 's \<Rightarrow> 'r list \<times> 's" where
  "run f [] s = ([], s)"
| "run f (x # xs) s = (let (r, s) = f x s; (rs, s) = run f xs s in (r # rs, s))"

text \<open>Each operation of a run may be called in the state it meets.\<close>

fun run_ok :: "('op \<Rightarrow> 's \<Rightarrow> 'r \<times> 's) \<Rightarrow> ('op \<Rightarrow> 's \<Rightarrow> bool) \<Rightarrow> 'op list \<Rightarrow> 's \<Rightarrow> bool" where
  "run_ok f ok [] s \<longleftrightarrow> True"
| "run_ok f ok (x # xs) s \<longleftrightarrow> ok x s \<and> run_ok f ok xs (snd (f x s))"

lemma run_append:
  "run f (xs @ ys) s = (let (rs, s) = run f xs s; (rs', s) = run f ys s in (rs @ rs', s))"
  by (induction xs arbitrary: s) (simp_all add: Let_def split: prod.splits)

lemma run_length [simp]: "length (fst (run f xs s)) = length xs"
  by (induction xs arbitrary: s) (simp_all add: Let_def split_beta)

lemma run_snd_append: "snd (run f (xs @ ys) s) = snd (run f ys (snd (run f xs s)))"
  by (simp add: run_append split_beta Let_def)

lemma run_ok_append: "run_ok f ok (xs @ ys) s \<longleftrightarrow> run_ok f ok xs s \<and> run_ok f ok ys (snd (run f xs s))"
  by (induction xs arbitrary: s) (simp_all add: Let_def split_beta)

lemma run_result: "fst (run f (xs @ y # ys) s) ! length xs = fst (f y (snd (run f xs s)))"
  by (simp add: run_append split_beta Let_def nth_append)

locale simulation =
  fixes exec :: "'op \<Rightarrow> 's \<Rightarrow> 'r \<times> 's" and spec :: "'op \<Rightarrow> 'a \<Rightarrow> 'q \<times> 'a"
    and ok :: "'op \<Rightarrow> 'a \<Rightarrow> bool" and rel :: "'s \<Rightarrow> 'a \<Rightarrow> bool" and obs :: "'r \<Rightarrow> 'q"
  assumes step: "rel s a \<Longrightarrow> ok x a \<Longrightarrow>
    obs (fst (exec x s)) = fst (spec x a) \<and> rel (snd (exec x s)) (snd (spec x a))"
begin

lemma run_refines:
  assumes "rel s a" and "run_ok spec ok xs a"
  shows "map obs (fst (run exec xs s)) = fst (run spec xs a) \<and> rel (snd (run exec xs s)) (snd (run spec xs a))"
  using assms
proof (induction xs arbitrary: s a)
  case Nil
  then show ?case by simp
next
  case (Cons x xs)
  then have "obs (fst (exec x s)) = fst (spec x a)" "rel (snd (exec x s)) (snd (spec x a))"
    using step [of s a x] by simp_all
  then show ?case using Cons by (simp add: Let_def split_beta)
qed

text \<open>A property of the code's state that every step keeps is kept by a run.\<close>

lemma run_keeps:
  assumes "rel s a" and "run_ok spec ok xs a" and "P s"
    and "\<And>x s a. rel s a \<Longrightarrow> ok x a \<Longrightarrow> P s \<Longrightarrow> x \<in> set xs \<Longrightarrow> P (snd (exec x s))"
  shows "P (snd (run exec xs s))"
  using assms
proof (induction xs arbitrary: s a)
  case Nil
  then show ?case by simp
next
  case (Cons x xs)
  have "rel (snd (exec x s)) (snd (spec x a))" "P (snd (exec x s))"
    using step [of s a x] Cons.prems(1,2,3) Cons.prems(4) [of s a x] by simp_all
  then have "P (snd (run exec xs (snd (exec x s))))"
    using Cons.prems(2,4) by (intro Cons.IH) auto
  then show ?case by (simp add: Let_def split_beta)
qed

end

end
