(* ===== verification/OfList.thy ===== *)
theory OfList
  imports Simulation
begin

text \<open>
  The linked lists of \<open>ofproto/src/include/cntlr_list.h\<close>: nodes are linked through a member at a fixed
  offset in the object, and the list keeps its first and last node and a count.  The macros are
  translated on addresses; the list that a table of links represents is defined beside them.  An
  access at an address up to the offset is one through a null object and is \<open>None\<close>.
\<close>

section \<open>The macros\<close>

type_synonym addr = nat

record of_list_t =
  head :: addr
  tail :: addr
  list_count :: u32

text \<open>A list and the \<open>pNext\<close> member at every address.\<close>

type_synonym list_state = "of_list_t \<times> (addr \<Rightarrow> addr)"

definition OF_LIST_INIT :: "(addr \<Rightarrow> addr) \<Rightarrow> list_state" where
  "OF_LIST_INIT links = (\<lparr>head = 0, tail = 0, list_count = 0\<rparr>, links)"

definition OF_APPEND_NODE_TO_LIST :: "addr \<Rightarrow> addr \<Rightarrow> list_state \<Rightarrow> list_state option" where
  "OF_APPEND_NODE_TO_LIST offset node = (\<lambda>(l, links).
     let node_p = node + offset;
         counted = (\<lambda>l. l\<lparr>tail := node_p, list_count := list_count l + 1\<rparr>)
     in if head l = 0 then Some (counted (l\<lparr>head := node_p\<rparr>), links)
        else if tail l \<le> offset then None
        else Some (counted l, links(tail l := node_p)))"

text \<open>The two assignments of \<open>OF_LIST_INSERT_NODE\<close>, which readers of the list can come between.\<close>

definition insert_link_prev :: "addr \<Rightarrow> addr \<Rightarrow> addr \<Rightarrow> list_state \<Rightarrow> list_state" where
  "insert_link_prev offset prev node = (\<lambda>(l, links).
     if prev = 0 then (l\<lparr>head := node + offset\<rparr>, links) else (l, links(prev + offset := node + offset)))"

definition insert_link_next :: "addr \<Rightarrow> addr \<Rightarrow> addr \<Rightarrow> list_state \<Rightarrow> list_state" where
  "insert_link_next offset node next_node = (\<lambda>(l, links).
     if next_node = 0 then (l\<lparr>tail := node + offset\<rparr>, links)
     else (l, links(node + offset := next_node + offset)))"

definition OF_LIST_INSERT_NODE :: "addr \<Rightarrow> addr \<Rightarrow> addr \<Rightarrow> addr \<Rightarrow> list_state \<Rightarrow> list_state" where
  "OF_LIST_INSERT_NODE offset prev node next_node s =
     insert_link_next offset node next_node (insert_link_prev offset prev node s)"

definition OF_REMOVE_NODE_FROM_LIST :: "addr \<Rightarrow> addr \<Rightarrow> addr \<Rightarrow> list_state \<Rightarrow> list_state option" where
  "OF_REMOVE_NODE_FROM_LIST offset node prev = (\<lambda>(l, links).
     let node_p = node + offset;
         done = (\<lambda>(l, links). (l\<lparr>list_count := list_count l - 1\<rparr>, links));
         retail = (\<lambda>(l, links). (if node_p = tail l then l\<lparr>tail := prev + offset\<rparr> else l, links))
     in if list_count l = 1 then Some (done (l\<lparr>head := 0, tail := 0\<rparr>, links))
        else if node_p = head l then
          (if head l \<le> offset then None else Some (done (retail (l\<lparr>head := links (head l)\<rparr>, links))))
        else if node = 0 \<or> prev = 0 then None
        else Some (done (retail (l, links(prev + offset := links node_p)))))"

text \<open>
  \<open>OF_LIST_SCAN\<close> up to the first node with a property, with the node before it; \<open>0\<close> for the node when
  there is none.  It ends at a null link and at a null object.  \<open>None\<close> is a scan that does not end.
\<close>

partial_function (option) OF_LIST_SCAN ::
  "(addr \<Rightarrow> bool) \<Rightarrow> addr \<Rightarrow> (addr \<Rightarrow> addr) \<Rightarrow> addr \<Rightarrow> addr \<Rightarrow> (addr \<times> addr) option" where
  "OF_LIST_SCAN P offset links p prev =
     (if p = 0 then Some (0, prev)
      else let node = p - offset
           in if node = 0 then Some (0, prev) else if P node then Some (node, prev) else OF_LIST_SCAN P offset links (links p) node)"

declare OF_LIST_SCAN.simps [simp del]

text \<open>Removes and frees the nodes from the first to the last; the freed nodes, in this order.\<close>

partial_function (option) OF_LIST_REMOVE_HEAD_AND_SCAN ::
  "addr \<Rightarrow> list_state \<Rightarrow> addr list \<Rightarrow> (addr list \<times> list_state) option" where
  "OF_LIST_REMOVE_HEAD_AND_SCAN offset s freed =
     (if head (fst s) = 0 \<or> head (fst s) - offset = 0 then Some (freed, s)
      else let l = fst s; node_p = head l; l = l\<lparr>head := snd s node_p\<rparr>;
               l = (if node_p = tail l then l\<lparr>tail := 0\<rparr> else l)
           in OF_LIST_REMOVE_HEAD_AND_SCAN offset (l\<lparr>list_count := list_count l - 1\<rparr>, snd s)
                (freed @ [node_p - offset]))"

declare OF_LIST_REMOVE_HEAD_AND_SCAN.simps [simp del]

section \<open>The list that is represented\<close>

fun chain :: "addr \<Rightarrow> (addr \<Rightarrow> addr) \<Rightarrow> addr \<Rightarrow> addr list \<Rightarrow> addr \<Rightarrow> bool" where
  "chain offset links p [] q \<longleftrightarrow> p = q"
| "chain offset links p (x # xs) q \<longleftrightarrow> 0 < x \<and> p = x + offset \<and> chain offset links (links p) xs q"

definition linked :: "addr \<Rightarrow> list_state \<Rightarrow> addr list \<Rightarrow> bool" where
  "linked offset s xs \<longleftrightarrow> chain offset (snd s) (head (fst s)) xs 0 \<and> distinct xs
     \<and> tail (fst s) = (if xs = [] then 0 else last xs + offset)"

definition counted :: "addr \<Rightarrow> list_state \<Rightarrow> addr list \<Rightarrow> bool" where
  "counted offset s xs \<longleftrightarrow> linked offset s xs \<and> list_count (fst s) = of_nat (length xs) \<and> length xs < 2 ^ 32"

lemma chain_append [simp]:
  "chain offset links p (xs @ ys) q \<longleftrightarrow> (\<exists>r. chain offset links p xs r \<and> chain offset links r ys q)"
  by (induction xs arbitrary: p) auto

lemma chain_upd [simp]:
  "x \<notin> set xs \<Longrightarrow> chain offset (links(x + offset := v)) p xs q = chain offset links p xs q"
  by (induction xs arbitrary: p) auto

lemma chain_pos: "chain offset links p xs q \<Longrightarrow> x \<in> set xs \<Longrightarrow> 0 < x"
  by (induction xs arbitrary: p) auto

lemma chain_zero: "chain offset links 0 xs q \<Longrightarrow> xs = []"
  by (cases xs) auto

lemma chain_relink:
  "chain offset links p xs q \<Longrightarrow> xs \<noteq> [] \<Longrightarrow> distinct xs \<Longrightarrow> chain offset (links(last xs + offset := r)) p xs r"
  by (induction xs arbitrary: p) (auto split: if_splits simp: chain_upd)

text \<open>Every scan of a represented list ends, with the first node that has the property.\<close>

fun find_prev :: "(addr \<Rightarrow> bool) \<Rightarrow> addr \<Rightarrow> addr list \<Rightarrow> addr \<times> addr" where
  "find_prev P prev [] = (0, prev)"
| "find_prev P prev (x # xs) = (if P x then (x, prev) else find_prev P x xs)"

lemma scan_chain:
  "chain offset links p xs 0 \<Longrightarrow> OF_LIST_SCAN P offset links p prev = Some (find_prev P prev xs)"
  by (induction xs arbitrary: p prev) (auto simp: OF_LIST_SCAN.simps)

lemma find_prev_none: "\<not> (\<exists>x \<in> set xs. P x) \<Longrightarrow> find_prev P prev xs = (0, if xs = [] then prev else last xs)"
  by (induction xs arbitrary: prev) auto

lemma find_prev_some:
  assumes "\<exists>x \<in> set xs. P x"
  shows "\<exists>ys x zs. xs = ys @ x # zs \<and> P x \<and> (\<forall>y \<in> set ys. \<not> P y)
    \<and> find_prev P prev xs = (x, if ys = [] then prev else last ys)"
  using assms
proof (induction xs arbitrary: prev)
  case (Cons a xs)
  show ?case
  proof (cases "P a")
    case True
    then show ?thesis by (intro exI [of _ "[]"] exI [of _ a] exI [of _ xs]) auto
  next
    case False
    then have "\<exists>x \<in> set xs. P x" using Cons.prems by simp
    from Cons.IH [OF this, of a] obtain ys x zs where "xs = ys @ x # zs" "P x" "\<forall>y \<in> set ys. \<not> P y"
      "find_prev P a xs = (x, if ys = [] then a else last ys)" by blast
    then show ?thesis using False by (intro exI [of _ "a # ys"] exI [of _ x] exI [of _ zs]) auto
  qed
qed simp

section \<open>What the macros do to it\<close>

lemma init_counted: "counted offset (OF_LIST_INIT links) []"
  by (simp add: counted_def linked_def OF_LIST_INIT_def)

lemma append_linked:
  assumes "linked offset s xs" and "n \<notin> set xs" and "0 < n" and "snd s (n + offset) = 0"
  shows "\<exists>s'. OF_APPEND_NODE_TO_LIST offset n s = Some s' \<and> linked offset s' (xs @ [n])
    \<and> list_count (fst s') = list_count (fst s) + 1"
proof (cases "xs = []")
  case True
  then show ?thesis
    using assms by (auto simp: linked_def OF_APPEND_NODE_TO_LIST_def Let_def split: prod.splits)
next
  case False
  obtain l links where s: "s = (l, links)" by fastforce
  have c: "chain offset links (head l) xs 0" "distinct xs" "tail l = last xs + offset"
    using assms(1) False by (simp_all add: linked_def s)
  have h: "head l \<noteq> 0" using c(1) False chain_zero by metis
  have p: "offset < tail l" using c(1,3) False chain_pos last_in_set by fastforce
  have "chain offset (links(last xs + offset := n + offset)) (head l) xs (n + offset)"
    using chain_relink [OF c(1) False c(2)] .
  moreover have "n \<noteq> last xs" using assms(2) False last_in_set by metis
  ultimately show ?thesis
    using assms(2-4) h p c(2,3) False by (auto simp: s OF_APPEND_NODE_TO_LIST_def Let_def linked_def)
qed

text \<open>A node is removed, given the node before it; the count decides whether the others are kept.\<close>

lemma remove_linked:
  assumes "linked offset s (ys @ x # zs)" and "prev = (if ys = [] then 0 else last ys)"
    and "list_count (fst s) = 1 \<longleftrightarrow> ys = [] \<and> zs = []"
  shows "\<exists>s'. OF_REMOVE_NODE_FROM_LIST offset x prev s = Some s' \<and> linked offset s' (ys @ zs)
    \<and> list_count (fst s') = list_count (fst s) - 1"
proof -
  obtain l links where s: "s = (l, links)" by fastforce
  have c: "chain offset links (head l) ys (x + offset)" "0 < x" "chain offset links (links (x + offset)) zs 0"
    "distinct (ys @ x # zs)" "tail l = last (ys @ x # zs) + offset"
    using assms(1) by (auto simp: linked_def s)
  show ?thesis
  proof (cases "list_count l = 1")
    case True
    then show ?thesis using assms(3) by (simp add: s OF_REMOVE_NODE_FROM_LIST_def linked_def Let_def)
  next
    case False
    show ?thesis
    proof (cases "ys = []")
      case True
      then have h: "head l = x + offset" using c(1) by simp
      have "zs \<noteq> [] \<Longrightarrow> last zs \<noteq> x" using c(4) by auto
      then show ?thesis
        using True False h c assms(2,3)
        by (cases zs) (auto simp: s OF_REMOVE_NODE_FROM_LIST_def linked_def Let_def)
    next
      case ne: False
      have h: "head l \<noteq> x + offset" using c(1,4) ne by (cases ys) auto
      have p: "prev = last ys" "0 < prev" using assms(2) ne chain_pos [OF c(1)] by auto
      have r: "chain offset (links(last ys + offset := links (x + offset))) (head l) ys (links (x + offset))"
        using chain_relink [OF c(1) ne] c(4) by simp
      have n: "last ys \<notin> set zs" using c(4) last_in_set [OF ne] by (auto simp del: last_in_set)
      have "zs \<noteq> [] \<Longrightarrow> last zs \<noteq> x" using c(4) by auto
      then show ?thesis
        using False ne h p r n c by (auto simp: s OF_REMOVE_NODE_FROM_LIST_def linked_def Let_def)
    qed
  qed
qed

lemma insert_linked:
  assumes "linked offset s (ys @ y # zs)" and "prev = (if ys = [] then 0 else last ys)"
    and "n \<notin> set (ys @ y # zs)" and "0 < n"
  shows "linked offset (OF_LIST_INSERT_NODE offset prev n y s) (ys @ n # y # zs)"
    and "list_count (fst (OF_LIST_INSERT_NODE offset prev n y s)) = list_count (fst s)"
proof -
  obtain l links where s: "s = (l, links)" by fastforce
  have c: "chain offset links (head l) ys (y + offset)" "0 < y" "chain offset links (links (y + offset)) zs 0"
    "distinct (ys @ y # zs)" "tail l = last (y # zs) + offset"
    using assms(1) by (auto simp: linked_def s)
  show "linked offset (OF_LIST_INSERT_NODE offset prev n y s) (ys @ n # y # zs)"
  proof (cases "ys = []")
    case True
    then show ?thesis
      using assms(2-4) c by (auto simp: s OF_LIST_INSERT_NODE_def insert_link_prev_def insert_link_next_def linked_def)
  next
    case False
    have p: "prev = last ys" "0 < prev" "last ys \<notin> set zs" "last ys \<noteq> y" "last ys \<noteq> n"
      using assms(2,3) False chain_pos [OF c(1)] c(4) last_in_set [OF False] by (auto simp del: last_in_set)
    have "chain offset (links(last ys + offset := n + offset)) (head l) ys (n + offset)"
      using chain_relink [OF c(1) False] c(4) by simp
    then show ?thesis
      using False p assms(3,4) c
      by (auto simp: s OF_LIST_INSERT_NODE_def insert_link_prev_def insert_link_next_def linked_def)
  qed
  show "list_count (fst (OF_LIST_INSERT_NODE offset prev n y s)) = list_count (fst s)"
    using c(2) by (simp add: s OF_LIST_INSERT_NODE_def insert_link_prev_def insert_link_next_def)
qed

lemma remove_all_linked:
  "linked offset s xs \<Longrightarrow> \<exists>s'. OF_LIST_REMOVE_HEAD_AND_SCAN offset s freed = Some (freed @ xs, s')
    \<and> linked offset s' [] \<and> list_count (fst s') = list_count (fst s) - of_nat (length xs)"
proof (induction xs arbitrary: s freed)
  case Nil
  then show ?case by (subst OF_LIST_REMOVE_HEAD_AND_SCAN.simps) (simp add: linked_def)
next
  case (Cons x xs)
  obtain l links where s: "s = (l, links)" by fastforce
  have c: "head l = x + offset" "0 < x" "chain offset links (links (x + offset)) xs 0" "distinct (x # xs)"
    "tail l = last (x # xs) + offset"
    using Cons.prems by (auto simp: linked_def s)
  define l' where "l' = (let l' = l\<lparr>head := links (x + offset)\<rparr>; l' = (if x + offset = tail l' then l'\<lparr>tail := 0\<rparr> else l')
      in l'\<lparr>list_count := list_count l' - 1\<rparr>)"
  have "xs \<noteq> [] \<Longrightarrow> last xs \<noteq> x" using c(4) by auto
  then have l: "linked offset (l', links) xs" "list_count l' = list_count l - 1"
    using c by (auto simp: linked_def l'_def Let_def)
  have e: "OF_LIST_REMOVE_HEAD_AND_SCAN offset s freed = OF_LIST_REMOVE_HEAD_AND_SCAN offset (l', links) (freed @ [x])"
    using c(1,2) by (subst OF_LIST_REMOVE_HEAD_AND_SCAN.simps) (simp add: s l'_def Let_def)
  from Cons.IH [OF l(1), of "freed @ [x]"] l(2) e show ?case by (auto simp: s)
qed

text \<open>A scan that found nothing leaves a null node, and the removal is called with it all the same.\<close>

lemma remove_null:
  assumes "linked offset s xs"
  shows "list_count (fst s) = 1 \<Longrightarrow> \<exists>s'. OF_REMOVE_NODE_FROM_LIST offset 0 prev s = Some s' \<and> counted offset s' []"
    and "list_count (fst s) \<noteq> 1 \<Longrightarrow> OF_REMOVE_NODE_FROM_LIST offset 0 prev s = None"
proof -
  obtain l links where s: "s = (l, links)" by fastforce
  show "list_count (fst s) = 1 \<Longrightarrow> \<exists>s'. OF_REMOVE_NODE_FROM_LIST offset 0 prev s = Some s' \<and> counted offset s' []"
    by (simp add: s OF_REMOVE_NODE_FROM_LIST_def counted_def linked_def Let_def)
  assume "list_count (fst s) \<noteq> 1"
  then show "OF_REMOVE_NODE_FROM_LIST offset 0 prev s = None"
    by (auto simp: s OF_REMOVE_NODE_FROM_LIST_def Let_def)
qed

lemma count_one: "counted offset s xs \<Longrightarrow> list_count (fst s) = 1 \<longleftrightarrow> length xs = 1"
  by (simp add: counted_def word_unat_eq_iff unat_of_nat take_bit_nat_eq_self)

section \<open>Runs of the callers' operations\<close>

text \<open>
  What the callers do with a list: append an object that \<open>calloc\<close> has given them; look for an object;
  look for an object and remove it, with the object that the scan saw before it; free all objects.
  The result is the object, or the freed objects.
\<close>

datatype list_op = Append addr | Find "addr \<Rightarrow> bool" | Remove "addr \<Rightarrow> bool" | Remove_All

fun of_list_exec :: "addr \<Rightarrow> list_op \<Rightarrow> list_state option \<Rightarrow> addr list \<times> list_state option" where
  "of_list_exec offset op None = ([], None)"
| "of_list_exec offset (Append n) (Some s) =
     ([], OF_APPEND_NODE_TO_LIST offset n (apsnd (\<lambda>links. links(n + offset := 0)) s))"
| "of_list_exec offset (Find P) (Some s) =
     (case OF_LIST_SCAN P offset (snd s) (head (fst s)) 0 of None \<Rightarrow> ([], None) | Some (n, _) \<Rightarrow> ([n], Some s))"
| "of_list_exec offset (Remove P) (Some s) =
     (case OF_LIST_SCAN P offset (snd s) (head (fst s)) 0 of
        None \<Rightarrow> ([], None) | Some (n, prev) \<Rightarrow> ([n], OF_REMOVE_NODE_FROM_LIST offset n prev s))"
| "of_list_exec offset Remove_All (Some s) =
     (case OF_LIST_REMOVE_HEAD_AND_SCAN offset s [] of None \<Rightarrow> ([], None) | Some (ns, s) \<Rightarrow> (ns, Some s))"

fun remove_first :: "('a \<Rightarrow> bool) \<Rightarrow> 'a list \<Rightarrow> 'a list" where
  "remove_first P [] = []"
| "remove_first P (x # xs) = (if P x then xs else x # remove_first P xs)"

lemma remove_first_split: "\<forall>y \<in> set ys. \<not> P y \<Longrightarrow> P x \<Longrightarrow> remove_first P (ys @ x # zs) = ys @ zs"
  by (induction ys) auto

lemma remove_first_none: "\<forall>y \<in> set ys. \<not> P y \<Longrightarrow> remove_first P ys = ys"
  by (induction ys) auto

lemma remove_first_set: "set (remove_first P xs) \<subseteq> set xs"
  by (induction xs) auto

fun list_spec :: "list_op \<Rightarrow> addr list \<Rightarrow> addr list \<times> addr list" where
  "list_spec (Append n) xs = ([], xs @ [n])"
| "list_spec (Find P) xs = ([case find P xs of None \<Rightarrow> 0 | Some x \<Rightarrow> x], xs)"
| "list_spec (Remove P) xs =
     (case find P xs of None \<Rightarrow> ([0], xs) | Some x \<Rightarrow> ([x], remove_first P xs))"
| "list_spec Remove_All xs = (xs, [])"

text \<open>An object is not appended twice, and a removal finds something.\<close>

fun list_op_ok :: "list_op \<Rightarrow> addr list \<Rightarrow> bool" where
  "list_op_ok (Append n) xs \<longleftrightarrow> n \<notin> set xs \<and> 0 < n \<and> length xs + 1 < 2 ^ 32"
| "list_op_ok (Find P) xs \<longleftrightarrow> True"
| "list_op_ok (Remove P) xs \<longleftrightarrow> (\<exists>x \<in> set xs. P x)"
| "list_op_ok Remove_All xs \<longleftrightarrow> True"

definition of_list_rel :: "addr \<Rightarrow> list_state option \<Rightarrow> addr list \<Rightarrow> bool" where
  "of_list_rel offset st xs \<longleftrightarrow> (\<exists>s. st = Some s \<and> counted offset s xs)"

lemma find_split: "\<forall>y \<in> set ys. \<not> P y \<Longrightarrow> P x \<Longrightarrow> find P (ys @ x # zs) = Some x"
  by (induction ys) auto

lemma find_none: "\<not> (\<exists>x \<in> set xs. P x) \<Longrightarrow> find P xs = None"
  by (simp add: find_None_iff)

lemma of_list_step:
  assumes "of_list_rel offset st xs" and "list_op_ok op xs"
  shows "fst (of_list_exec offset op st) = fst (list_spec op xs)
    \<and> of_list_rel offset (snd (of_list_exec offset op st)) (snd (list_spec op xs))"
proof -
  obtain s where st: "st = Some s" "counted offset s xs" using assms(1) by (auto simp: of_list_rel_def)
  have l: "linked offset s xs" "list_count (fst s) = of_nat (length xs)" "length xs < 2 ^ 32"
    using st(2) by (simp_all add: counted_def)
  have scan: "OF_LIST_SCAN P offset (snd s) (head (fst s)) 0 = Some (find_prev P 0 xs)" for P
    using l(1) scan_chain by (simp add: linked_def)
  show ?thesis
  proof (cases op)
    case (Append n)
    let ?s = "apsnd (\<lambda>links. links(n + offset := 0)) s"
    have "n \<notin> set xs" "0 < n" "length xs + 1 < 2 ^ 32" using assms(2) Append by simp_all
    moreover from this have "linked offset ?s xs" using l(1) by (cases s) (auto simp: linked_def)
    ultimately obtain s' where s': "OF_APPEND_NODE_TO_LIST offset n ?s = Some s'" "linked offset s' (xs @ [n])"
      "list_count (fst s') = list_count (fst ?s) + 1"
      using append_linked [of offset ?s xs n] by auto
    then have "counted offset s' (xs @ [n])"
      using l(2) \<open>length xs + 1 < 2 ^ 32\<close> by (simp add: counted_def add.commute)
    then show ?thesis using Append st(1) s'(1) by (simp add: of_list_rel_def)
  next
    case (Find P)
    show ?thesis
    proof (cases "\<exists>x \<in> set xs. P x")
      case True
      from find_prev_some [OF True, of 0] obtain ys x zs where x: "xs = ys @ x # zs" "P x" "\<forall>y \<in> set ys. \<not> P y"
        "find_prev P 0 xs = (x, if ys = [] then 0 else last ys)" by blast
      then show ?thesis using Find st scan find_split [OF x(3,2)] by (simp add: of_list_rel_def)
    next
      case False
      then show ?thesis using Find st scan find_prev_none [OF False, of 0] find_none [OF False] by (auto simp: of_list_rel_def)
    qed
  next
    case (Remove P)
    have True: "\<exists>x \<in> set xs. P x" using assms(2) Remove by simp
    from find_prev_some [OF True, of 0] obtain ys x zs where x: "xs = ys @ x # zs" "P x" "\<forall>y \<in> set ys. \<not> P y"
      "find_prev P 0 xs = (x, if ys = [] then 0 else last ys)" by blast
    have c1: "list_count (fst s) = 1 \<longleftrightarrow> ys = [] \<and> zs = []" using count_one [OF st(2)] x(1) by auto
    obtain s' where s': "OF_REMOVE_NODE_FROM_LIST offset x (if ys = [] then 0 else last ys) s = Some s'"
      "linked offset s' (ys @ zs)" "list_count (fst s') = list_count (fst s) - 1"
      using remove_linked [OF l(1) [unfolded x(1)] refl c1] by blast
    have "counted offset s' (ys @ zs)" using s'(2,3) l(2,3) x(1) by (simp add: counted_def)
    then show ?thesis
      using Remove st(1) scan x s'(1) find_split [OF x(3,2)] remove_first_split [OF x(3,2)] by (simp add: of_list_rel_def)
  next
    case Remove_All
    from remove_all_linked [OF l(1), of "[]"] obtain s' where
      "OF_LIST_REMOVE_HEAD_AND_SCAN offset s [] = Some (xs, s')" "linked offset s' []"
      "list_count (fst s') = list_count (fst s) - of_nat (length xs)" by auto
    then show ?thesis using Remove_All st l(2) by (simp add: of_list_rel_def counted_def)
  qed
qed

interpretation ofl: simulation "of_list_exec offset" list_spec list_op_ok "of_list_rel offset" "\<lambda>r. r" for offset
  by unfold_locales (rule of_list_step)

text \<open>
  C19.  From an initialised list on, every run of the callers' operations does what it does
  on a list of objects: appending puts an object at the end, a search returns the first object that
  has the property, a removal takes out the object it finds, and emptying the list frees all objects in
  order.  No null object is used and every scan ends.  The runs append no object twice, keep the list below
  \<open>2 ^ 32\<close> objects, and remove only what is there: a removal that finds nothing loses the only object of a
  list of one, and otherwise uses a null object (lemma \<open>remove_null\<close>).
\<close>

theorem list_refines:
  assumes "run_ok list_spec list_op_ok ops []"
  shows "fst (run (of_list_exec offset) ops (Some (OF_LIST_INIT links))) = fst (run list_spec ops [])
    \<and> (\<exists>s. snd (run (of_list_exec offset) ops (Some (OF_LIST_INIT links))) = Some s
         \<and> counted offset s (snd (run list_spec ops [])))"
proof -
  have "of_list_rel offset (Some (OF_LIST_INIT links)) []" by (simp add: of_list_rel_def init_counted)
  from ofl.run_refines [OF this assms] show ?thesis by (simp add: of_list_rel_def)
qed

text \<open>Three objects; the middle one and the first are removed, one is not found, and the last is freed.\<close>

lemma list_refines_witness:
  "fst (run (of_list_exec 4) [Append 100, Append 200, Append 300, Remove (\<lambda>n. n = 200), Find (\<lambda>n. 150 < n),
      Remove (\<lambda>n. n = 100), Find (\<lambda>n. n = 7), Remove_All, Find (\<lambda>n. True)] (Some (OF_LIST_INIT (\<lambda>_. 0))))
    = [[], [], [], [200], [300], [100], [0], [300], [0]]"
proof -
  let ?ops = "[Append 100, Append 200, Append 300, Remove (\<lambda>n. n = 200), Find (\<lambda>n. 150 < n),
      Remove (\<lambda>n. n = 100), Find (\<lambda>n. n = 7), Remove_All, Find (\<lambda>n. True)]"
  have "run_ok list_spec list_op_ok ?ops []" by simp
  from list_refines [OF this, of 4 "\<lambda>_. 0"] show ?thesis by simp
qed

end
