(* ===== verification/FlowTable.thy ===== *)
theory FlowTable
  imports FlowSend OfList
begin

text \<open>
  The flow table of a datapath: the functions of \<open>ofproto/src/messages/of_flow.c\<close> with which the command
  line adds, changes and removes flow entries and the match fields, instructions and actions in them.
  A table is a list of entries; what the list macros do to it is shown in \<open>OfList\<close>, down to the removal
  of a node that was not found.  \<open>None\<close> is a use of a null pointer.
\<close>

section \<open>The operations\<close>

type_synonym datapaths = "u64 \<Rightarrow> flow_datapath option"

type_synonym flow_result = "(of_status \<times> datapaths) option"

definition set_flow_table :: "u64 \<Rightarrow> flow_datapath \<Rightarrow> ofi_flow_mod_info list \<Rightarrow> datapaths \<Rightarrow> datapaths" where
  "set_flow_table h dp es dps = dps(h := Some (dp\<lparr>flow_table := es\<rparr>))"

fun update_first :: "('a \<Rightarrow> bool) \<Rightarrow> ('a \<Rightarrow> 'a) \<Rightarrow> 'a list \<Rightarrow> 'a list" where
  "update_first P f [] = []"
| "update_first P f (x # xs) = (if P x then f x # xs else x # update_first P f xs)"

text \<open>\<open>OF_REMOVE_NODE_FROM_LIST\<close> with the node a scan has found, or with the null node it has left.\<close>

definition remove_scanned :: "('a \<Rightarrow> bool) \<Rightarrow> 'a list \<Rightarrow> 'a list option" where
  "remove_scanned P xs =
     (if \<exists>x \<in> set xs. P x then Some (remove_first P xs) else if length xs = 1 then Some [] else None)"

abbreviation is_flow :: "u32 \<Rightarrow> ofi_flow_mod_info \<Rightarrow> bool" where
  "is_flow flow_id e \<equiv> fe_flow_id e = flow_id"

definition blank_flow :: "ofi_flow_mod_info \<Rightarrow> ofi_flow_mod_info" where
  "blank_flow e = e\<lparr>fe_cookie := 0, fe_cookie_mask := 0, fe_command := 0, fe_priority := 0, fe_idle_timeout := 0,
     fe_hard_timeout := 0, fe_table_id := 0xff, fe_match_field_list := [], fe_instruction_list := [],
     fe_action_list := []\<rparr>"

definition of_datapath_add_static_flow :: "u64 \<Rightarrow> ofi_flow_mod_info option \<Rightarrow> datapaths \<Rightarrow> flow_result" where
  "of_datapath_add_static_flow h flow_entry dps =
     (case flow_entry of None \<Rightarrow> Some (OF_FAILURE, dps)
      | Some e \<Rightarrow> (case dps h of None \<Rightarrow> Some (OF_FAILURE, dps)
         | Some dp \<Rightarrow> Some (OF_SUCCESS, set_flow_table h dp (flow_table dp @ [blank_flow e]) dps)))"

definition copy_flow :: "ofi_flow_mod_info \<Rightarrow> ofi_flow_mod_info \<Rightarrow> ofi_flow_mod_info" where
  "copy_flow info e = e\<lparr>fe_table_id := fe_table_id info, fe_priority := fe_priority info, fe_command := fe_command info,
     fe_flow_flags := fe_flow_flags info, fe_cookie := fe_cookie info, fe_cookie_mask := fe_cookie_mask info,
     fe_idle_timeout := fe_idle_timeout info, fe_hard_timeout := fe_hard_timeout info\<rparr>"

definition of_datapath_update_flow :: "u64 \<Rightarrow> ofi_flow_mod_info option \<Rightarrow> datapaths \<Rightarrow> flow_result" where
  "of_datapath_update_flow h flow_info dps =
     (case flow_info of None \<Rightarrow> Some (OF_FAILURE, dps)
      | Some info \<Rightarrow> (case dps h of None \<Rightarrow> Some (OF_FAILURE, dps)
         | Some dp \<Rightarrow>
             if \<exists>e \<in> set (flow_table dp). is_flow (fe_flow_id info) e
             then Some (OF_SUCCESS, set_flow_table h dp
                    (update_first (is_flow (fe_flow_id info)) (copy_flow info) (flow_table dp)) dps)
             else Some (OF_FAILURE, dps)))"

text \<open>
  An item is appended to one of the lists of the entry.  Without the datapath the status is success
  still, and the entry that has not been looked for is used.
\<close>

definition add_to_flow ::
  "('a \<Rightarrow> ofi_flow_mod_info \<Rightarrow> ofi_flow_mod_info) \<Rightarrow> u64 \<Rightarrow> 'a option \<Rightarrow> u32 \<Rightarrow> datapaths \<Rightarrow> flow_result" where
  "add_to_flow put h item flow_id dps =
     (case item of None \<Rightarrow> Some (OF_FAILURE, dps)
      | Some item \<Rightarrow> (case dps h of None \<Rightarrow> None
         | Some dp \<Rightarrow>
             if \<exists>e \<in> set (flow_table dp). is_flow flow_id e
             then Some (OF_SUCCESS, set_flow_table h dp (update_first (is_flow flow_id) (put item) (flow_table dp)) dps)
             else Some (OF_FAILURE, dps)))"

definition append_field :: "ofi_flow_match_fields \<Rightarrow> ofi_flow_mod_info \<Rightarrow> ofi_flow_mod_info" where
  "append_field m e = e\<lparr>fe_match_field_list := fe_match_field_list e @ [m]\<rparr>"
definition append_action :: "ofi_flow_action \<Rightarrow> ofi_flow_mod_info \<Rightarrow> ofi_flow_mod_info" where
  "append_action a e = e\<lparr>fe_action_list := fe_action_list e @ [a]\<rparr>"
definition append_instruction :: "ofi_flow_instruction \<Rightarrow> ofi_flow_mod_info \<Rightarrow> ofi_flow_mod_info" where
  "append_instruction i e = e\<lparr>fe_instruction_list := fe_instruction_list e @ [i]\<rparr>"

definition of_flow_add_match_field_to_list :: "u64 \<Rightarrow> ofi_flow_match_fields option \<Rightarrow> u32 \<Rightarrow> datapaths \<Rightarrow> flow_result" where
  "of_flow_add_match_field_to_list = add_to_flow append_field"
definition of_flow_add_action_to_list :: "u64 \<Rightarrow> ofi_flow_action option \<Rightarrow> u32 \<Rightarrow> datapaths \<Rightarrow> flow_result" where
  "of_flow_add_action_to_list = add_to_flow append_action"
definition of_flow_add_instruction_to_list :: "u64 \<Rightarrow> ofi_flow_instruction option \<Rightarrow> u32 \<Rightarrow> datapaths \<Rightarrow> flow_result" where
  "of_flow_add_instruction_to_list = add_to_flow append_instruction"

text \<open>The action goes to the first entry of this number that has the instruction.\<close>

definition append_inst_action :: "u16 \<Rightarrow> ofi_flow_action \<Rightarrow> ofi_flow_mod_info \<Rightarrow> ofi_flow_mod_info" where
  "append_inst_action instruction_id a e = e\<lparr>fe_instruction_list :=
     update_first (\<lambda>i. fi_inst_id i = instruction_id) (\<lambda>i. i\<lparr>fi_action_list := fi_action_list i @ [a]\<rparr>) (fe_instruction_list e)\<rparr>"

definition of_flow_instruction_add_action_to_list ::
  "u64 \<Rightarrow> ofi_flow_action option \<Rightarrow> u32 \<Rightarrow> u16 \<Rightarrow> datapaths \<Rightarrow> flow_result" where
  "of_flow_instruction_add_action_to_list h action_info flow_id instruction_id dps =
     (case action_info of None \<Rightarrow> Some (OF_FAILURE, dps)
      | Some a \<Rightarrow> (case dps h of None \<Rightarrow> Some (OF_FAILURE, dps)
         | Some dp \<Rightarrow>
             let P = (\<lambda>e. is_flow flow_id e \<and> (\<exists>i \<in> set (fe_instruction_list e). fi_inst_id i = instruction_id))
             in if \<exists>e \<in> set (flow_table dp). P e
                then Some (OF_SUCCESS, set_flow_table h dp
                       (update_first P (append_inst_action instruction_id a) (flow_table dp)) dps)
                else Some (OF_FAILURE, dps)))"

text \<open>
  A list of an entry is searched in every entry of this number until an item is found and removed.
  The numbers are cut to eight bits on the way in.
\<close>

definition remove_from_flow ::
  "(ofi_flow_mod_info \<Rightarrow> 'a list) \<Rightarrow> ('a list \<Rightarrow> ofi_flow_mod_info \<Rightarrow> ofi_flow_mod_info) \<Rightarrow> ('a \<Rightarrow> bool)
    \<Rightarrow> u64 \<Rightarrow> u32 \<Rightarrow> datapaths \<Rightarrow> flow_result" where
  "remove_from_flow items set_items P h flow_id dps =
     (case dps h of None \<Rightarrow> Some (OF_FAILURE, dps)
      | Some dp \<Rightarrow>
          let Q = (\<lambda>e. is_flow flow_id e \<and> (\<exists>x \<in> set (items e). P x))
          in if \<exists>e \<in> set (flow_table dp). Q e
             then Some (OF_SUCCESS, set_flow_table h dp
                    (update_first Q (\<lambda>e. set_items (remove_first P (items e)) e) (flow_table dp)) dps)
             else Some (OF_FAILURE, dps))"

definition of_flow_remove_match_field_from_list :: "u64 \<Rightarrow> u32 \<Rightarrow> u8 \<Rightarrow> datapaths \<Rightarrow> flow_result" where
  "of_flow_remove_match_field_from_list h flow_id match_field_id =
     remove_from_flow fe_match_field_list (\<lambda>ms. fe_match_field_list_update (\<lambda>_. ms))
       (\<lambda>m. mf_field_id m = ucast match_field_id) h flow_id"
definition of_flow_remove_action_from_list :: "u64 \<Rightarrow> u32 \<Rightarrow> u8 \<Rightarrow> datapaths \<Rightarrow> flow_result" where
  "of_flow_remove_action_from_list h flow_id action_id =
     remove_from_flow fe_action_list (\<lambda>as. fe_action_list_update (\<lambda>_. as))
       (\<lambda>a. fa_action_id a = ucast action_id) h flow_id"
definition of_flow_remove_instruction_from_list :: "u64 \<Rightarrow> u32 \<Rightarrow> u8 \<Rightarrow> datapaths \<Rightarrow> flow_result" where
  "of_flow_remove_instruction_from_list h flow_id instruction_id =
     remove_from_flow fe_instruction_list (\<lambda>is. fe_instruction_list_update (\<lambda>_. is))
       (\<lambda>i. fi_inst_id i = ucast instruction_id) h flow_id"

text \<open>
  The instruction of an entry is searched for the action; without the instruction the search ends,
  without the action it goes on with the next entry of this number.
\<close>

fun remove_inst_action ::
  "u16 \<Rightarrow> u32 \<Rightarrow> u8 \<Rightarrow> ofi_flow_mod_info list \<Rightarrow> ofi_flow_mod_info list option" where
  "remove_inst_action action_id flow_id instruction_id [] = None"
| "remove_inst_action action_id flow_id instruction_id (e # es) =
     (if \<not> is_flow flow_id e then map_option ((#) e) (remove_inst_action action_id flow_id instruction_id es)
      else case find (\<lambda>i. fi_inst_id i = ucast instruction_id) (fe_instruction_list e) of
          None \<Rightarrow> None
        | Some i \<Rightarrow>
            if \<exists>a \<in> set (fi_action_list i). fa_action_id a = action_id
            then Some (e\<lparr>fe_instruction_list := update_first (\<lambda>i. fi_inst_id i = ucast instruction_id)
                   (\<lambda>i. i\<lparr>fi_action_list := remove_first (\<lambda>a. fa_action_id a = action_id) (fi_action_list i)\<rparr>)
                   (fe_instruction_list e)\<rparr> # es)
            else map_option ((#) e) (remove_inst_action action_id flow_id instruction_id es))"

definition of_flow_instruction_remove_action_from_list ::
  "u64 \<Rightarrow> ofi_flow_action option \<Rightarrow> u32 \<Rightarrow> u8 \<Rightarrow> datapaths \<Rightarrow> flow_result" where
  "of_flow_instruction_remove_action_from_list h action_info flow_id instruction_id dps =
     (case action_info of None \<Rightarrow> Some (OF_FAILURE, dps)
      | Some a \<Rightarrow> (case dps h of None \<Rightarrow> Some (OF_FAILURE, dps)
         | Some dp \<Rightarrow> (case remove_inst_action (fa_action_id a) flow_id instruction_id (flow_table dp) of
               None \<Rightarrow> Some (OF_FAILURE, dps)
             | Some es \<Rightarrow> Some (OF_SUCCESS, set_flow_table h dp es dps))))"

text \<open>The status is success from the start, and the removal is done whether or not the flow was found.\<close>

definition of_datapath_remove_static_flow :: "u64 \<Rightarrow> u32 \<Rightarrow> datapaths \<Rightarrow> flow_result" where
  "of_datapath_remove_static_flow h flow_id dps =
     (case dps h of None \<Rightarrow> None
      | Some dp \<Rightarrow> map_option (\<lambda>es. (OF_SUCCESS, set_flow_table h dp es dps))
          (remove_scanned (is_flow flow_id) (flow_table dp)))"

section \<open>A table is a map from flow numbers to entries\<close>

datatype flow_op =
    Add_Flow u64 ofi_flow_mod_info | Update_Flow u64 ofi_flow_mod_info | Remove_Flow u64 u32
  | Add_Field u64 ofi_flow_match_fields u32 | Add_Action u64 ofi_flow_action u32
  | Add_Instruction u64 ofi_flow_instruction u32 | Add_Inst_Action u64 ofi_flow_action u32 u16
  | Remove_Field u64 u32 u8 | Remove_Action u64 u32 u8 | Remove_Instruction u64 u32 u8
  | Remove_Inst_Action u64 ofi_flow_action u32 u8

fun flow_call :: "flow_op \<Rightarrow> datapaths \<Rightarrow> flow_result" where
  "flow_call (Add_Flow h e) dps = of_datapath_add_static_flow h (Some e) dps"
| "flow_call (Update_Flow h e) dps = of_datapath_update_flow h (Some e) dps"
| "flow_call (Remove_Flow h k) dps = of_datapath_remove_static_flow h k dps"
| "flow_call (Add_Field h m k) dps = of_flow_add_match_field_to_list h (Some m) k dps"
| "flow_call (Add_Action h a k) dps = of_flow_add_action_to_list h (Some a) k dps"
| "flow_call (Add_Instruction h i k) dps = of_flow_add_instruction_to_list h (Some i) k dps"
| "flow_call (Add_Inst_Action h a k n) dps = of_flow_instruction_add_action_to_list h (Some a) k n dps"
| "flow_call (Remove_Field h k n) dps = of_flow_remove_match_field_from_list h k n dps"
| "flow_call (Remove_Action h k n) dps = of_flow_remove_action_from_list h k n dps"
| "flow_call (Remove_Instruction h k n) dps = of_flow_remove_instruction_from_list h k n dps"
| "flow_call (Remove_Inst_Action h a k n) dps = of_flow_instruction_remove_action_from_list h (Some a) k n dps"

definition flow_exec :: "flow_op \<Rightarrow> datapaths option \<Rightarrow> of_status option \<times> datapaths option" where
  "flow_exec op st =
     (case st of None \<Rightarrow> (None, None)
      | Some dps \<Rightarrow> (case flow_call op dps of None \<Rightarrow> (None, None) | Some (s, dps) \<Rightarrow> (Some s, Some dps)))"

text \<open>What an operation does to the entry it is about; \<open>None\<close> if the entry does not have the item.\<close>

definition removed_inst_action :: "u16 \<Rightarrow> u8 \<Rightarrow> ofi_flow_mod_info \<Rightarrow> ofi_flow_mod_info option" where
  "removed_inst_action action_id n e =
     (case find (\<lambda>i. fi_inst_id i = ucast n) (fe_instruction_list e) of None \<Rightarrow> None
      | Some i \<Rightarrow>
          if \<exists>a \<in> set (fi_action_list i). fa_action_id a = action_id
          then Some (e\<lparr>fe_instruction_list := update_first (\<lambda>i. fi_inst_id i = ucast n)
                 (\<lambda>i. i\<lparr>fi_action_list := remove_first (\<lambda>a. fa_action_id a = action_id) (fi_action_list i)\<rparr>)
                 (fe_instruction_list e)\<rparr>)
          else None)"

definition removed_item ::
  "(ofi_flow_mod_info \<Rightarrow> 'a list) \<Rightarrow> ('a list \<Rightarrow> ofi_flow_mod_info \<Rightarrow> ofi_flow_mod_info) \<Rightarrow> ('a \<Rightarrow> bool)
    \<Rightarrow> ofi_flow_mod_info \<Rightarrow> ofi_flow_mod_info option" where
  "removed_item items set_items P e =
     (if \<exists>x \<in> set (items e). P x then Some (set_items (remove_first P (items e)) e) else None)"

fun flow_change :: "flow_op \<Rightarrow> (u64 \<times> u32 \<times> (ofi_flow_mod_info \<Rightarrow> ofi_flow_mod_info option)) option" where
  "flow_change (Add_Flow h e) = None"
| "flow_change (Remove_Flow h k) = None"
| "flow_change (Update_Flow h info) = Some (h, fe_flow_id info, Some \<circ> copy_flow info)"
| "flow_change (Add_Field h m k) = Some (h, k, Some \<circ> append_field m)"
| "flow_change (Add_Action h a k) = Some (h, k, Some \<circ> append_action a)"
| "flow_change (Add_Instruction h i k) = Some (h, k, Some \<circ> append_instruction i)"
| "flow_change (Add_Inst_Action h a k n) = Some (h, k, \<lambda>e.
     if \<exists>i \<in> set (fe_instruction_list e). fi_inst_id i = n then Some (append_inst_action n a e) else None)"
| "flow_change (Remove_Field h k n) = Some (h, k, removed_item fe_match_field_list
     (\<lambda>ms. fe_match_field_list_update (\<lambda>_. ms)) (\<lambda>m. mf_field_id m = ucast n))"
| "flow_change (Remove_Action h k n) = Some (h, k, removed_item fe_action_list
     (\<lambda>as. fe_action_list_update (\<lambda>_. as)) (\<lambda>a. fa_action_id a = ucast n))"
| "flow_change (Remove_Instruction h k n) = Some (h, k, removed_item fe_instruction_list
     (\<lambda>is. fe_instruction_list_update (\<lambda>_. is)) (\<lambda>i. fi_inst_id i = ucast n))"
| "flow_change (Remove_Inst_Action h a k n) = Some (h, k, removed_inst_action (fa_action_id a) n)"

type_synonym flow_store = "u64 \<Rightarrow> (u32 \<Rightarrow> ofi_flow_mod_info option) option"

definition flow_spec :: "flow_op \<Rightarrow> flow_store \<Rightarrow> of_status option \<times> flow_store" where
  "flow_spec op s =
     (case flow_change op of
        Some (h, k, change) \<Rightarrow>
          (case s h of None \<Rightarrow> (Some OF_FAILURE, s)
           | Some m \<Rightarrow> (case Option.bind (m k) change of None \<Rightarrow> (Some OF_FAILURE, s)
              | Some e \<Rightarrow> (Some OF_SUCCESS, s(h \<mapsto> m(k \<mapsto> e)))))
      | None \<Rightarrow>
          (case op of
             Add_Flow h e \<Rightarrow> (case s h of None \<Rightarrow> (Some OF_FAILURE, s)
               | Some m \<Rightarrow> (Some OF_SUCCESS, s(h \<mapsto> m(fe_flow_id e \<mapsto> blank_flow e))))
           | Remove_Flow h k \<Rightarrow> (case s h of None \<Rightarrow> (Some OF_FAILURE, s)
               | Some m \<Rightarrow> (Some OF_SUCCESS, s(h \<mapsto> m(k := None))))
           | _ \<Rightarrow> (None, s)))"

text \<open>
  The caller's part: a flow number is added once, only what is there is removed, and items are added
  for datapaths that are known.
\<close>

fun flow_op_ok :: "flow_op \<Rightarrow> flow_store \<Rightarrow> bool" where
  "flow_op_ok (Add_Flow h e) s \<longleftrightarrow> (\<forall>m. s h = Some m \<longrightarrow> m (fe_flow_id e) = None)"
| "flow_op_ok (Remove_Flow h k) s \<longleftrightarrow> (\<exists>m. s h = Some m \<and> m k \<noteq> None)"
| "flow_op_ok (Add_Field h _ _) s \<longleftrightarrow> s h \<noteq> None"
| "flow_op_ok (Add_Action h _ _) s \<longleftrightarrow> s h \<noteq> None"
| "flow_op_ok (Add_Instruction h _ _) s \<longleftrightarrow> s h \<noteq> None"
| "flow_op_ok _ s \<longleftrightarrow> True"

definition table_rel :: "ofi_flow_mod_info list \<Rightarrow> (u32 \<Rightarrow> ofi_flow_mod_info option) \<Rightarrow> bool" where
  "table_rel es m \<longleftrightarrow> distinct (map fe_flow_id es) \<and> (\<forall>k. find (is_flow k) es = m k)"

text \<open>The connections of the datapaths, \<open>base\<close>, stay as they are.\<close>

definition flow_rel :: "(u64 \<Rightarrow> datapath_entry option) \<Rightarrow> datapaths option \<Rightarrow> flow_store \<Rightarrow> bool" where
  "flow_rel base st s \<longleftrightarrow> (\<exists>dps. st = Some dps \<and> (\<forall>h. map_option datapath_entry.truncate (dps h) = base h
     \<and> rel_option (\<lambda>dp m. table_rel (flow_table dp) m) (dps h) (s h)))"

section \<open>The operations change one entry\<close>

definition change_table ::
  "u32 \<Rightarrow> (ofi_flow_mod_info \<Rightarrow> ofi_flow_mod_info option) \<Rightarrow> ofi_flow_mod_info list \<Rightarrow> ofi_flow_mod_info list option" where
  "change_table k change es =
     map_option (\<lambda>e'. update_first (is_flow k) (\<lambda>_. e') es) (Option.bind (find (is_flow k) es) change)"

lemma table_rel_find: "table_rel es m \<Longrightarrow> find (is_flow k) es = m k"
  unfolding table_rel_def by blast

lemma find_is_flow: "find (is_flow k) es = Some e \<Longrightarrow> fe_flow_id e = k \<and> e \<in> set es"
  by (auto simp: find_Some_iff)

lemma change_table_rel:
  assumes "table_rel es m" and "\<And>e e'. change e = Some e' \<Longrightarrow> fe_flow_id e' = fe_flow_id e"
  shows "case change_table k change es of None \<Rightarrow> Option.bind (m k) change = None
    | Some es' \<Rightarrow> \<exists>e. Option.bind (m k) change = Some e \<and> table_rel es' (m(k \<mapsto> e))"
proof -
  have d: "distinct (map fe_flow_id es)" and f: "find (is_flow k) es = m k" for k
    using assms(1) by (simp_all add: table_rel_def)
  show ?thesis
  proof (cases "Option.bind (m k) change")
    case None
    then show ?thesis by (simp add: change_table_def f)
  next
    case (Some e)
    then obtain e0 where e0: "m k = Some e0" "change e0 = Some e" by (cases "m k") auto
    have k: "fe_flow_id e = k" using assms(2) [OF e0(2)] find_is_flow [of k es e0] e0(1) f by simp
    have "map fe_flow_id (update_first (is_flow k) (\<lambda>_. e) es) = map fe_flow_id es"
      using k by (induction es) auto
    moreover have "find (is_flow j) (update_first (is_flow k) (\<lambda>_. e) es) = (if j = k then Some e else find (is_flow j) es)"
      for j using k f [of k] e0(1) by (induction es) (auto split: if_splits)
    ultimately show ?thesis using Some d f by (auto simp: change_table_def table_rel_def)
  qed
qed

lemma distinct_key: "distinct (map g (x # xs)) \<Longrightarrow> y \<in> set xs \<Longrightarrow> g y \<noteq> g x"
  by (metis distinct.simps(2) image_eqI list.set_map list.simps(9))

text \<open>With distinct numbers the entry that is changed is the one with the number.\<close>

lemma update_is_change:
  assumes "distinct (map fe_flow_id es)"
  shows "(if \<exists>e \<in> set es. is_flow k e \<and> Q e then Some (update_first (\<lambda>e. is_flow k e \<and> Q e) f es) else None)
    = change_table k (\<lambda>e. if Q e then Some (f e) else None) es"
  using assms
proof (induction es)
  case (Cons e es)
  show ?case
  proof (cases "is_flow k e")
    case True
    then have "\<forall>x \<in> set es. \<not> is_flow k x" using distinct_key [of fe_flow_id e es, OF Cons.prems] by simp
    then show ?thesis using True by (auto simp: change_table_def)
  next
    case False
    have "change_table k c (e # es) = map_option ((#) e) (change_table k c es)" for c
      using False by (simp add: change_table_def option.map_comp o_def)
    moreover have "(if \<exists>e \<in> set es. is_flow k e \<and> Q e then Some (update_first (\<lambda>e. is_flow k e \<and> Q e) f es) else None)
      = change_table k (\<lambda>e. if Q e then Some (f e) else None) es"
      using Cons by simp
    then have "change_table k (\<lambda>e. if Q e then Some (f e) else None) es
      = (if \<exists>e \<in> set es. is_flow k e \<and> Q e then Some (update_first (\<lambda>e. is_flow k e \<and> Q e) f es) else None)" by (rule sym)
    ultimately show ?thesis using False by simp
  qed
qed (simp add: change_table_def)

lemma remove_inst_action_is_change:
  "distinct (map fe_flow_id es) \<Longrightarrow> remove_inst_action a k n es = change_table k (removed_inst_action a n) es"
proof (induction es)
  case (Cons e es)
  show ?case
  proof (cases "is_flow k e")
    case True
    then have "\<forall>x \<in> set es. \<not> is_flow k x" using distinct_key [of fe_flow_id e es, OF Cons.prems] by simp
    then have "find (is_flow k) es = None" by (simp add: find_None_iff)
    then have "remove_inst_action a k n es = None" using Cons by (simp add: change_table_def)
    then show ?thesis using True by (auto simp: change_table_def removed_inst_action_def split: option.splits)
  next
    case False
    have "change_table k c (e # es) = map_option ((#) e) (change_table k c es)" for c
      using False by (simp add: change_table_def option.map_comp o_def)
    then show ?thesis using False Cons by simp
  qed
qed (simp add: change_table_def)

text \<open>The status and the table with which the operations that change an entry return.\<close>

definition changed :: "u64 \<Rightarrow> flow_datapath \<Rightarrow> datapaths \<Rightarrow> ofi_flow_mod_info list option \<Rightarrow> flow_result" where
  "changed h dp dps r = Some (case r of None \<Rightarrow> (OF_FAILURE, dps) | Some es \<Rightarrow> (OF_SUCCESS, set_flow_table h dp es dps))"

lemma changed_if:
  assumes "distinct (map fe_flow_id (flow_table dp))"
  shows "(if \<exists>e \<in> set (flow_table dp). is_flow k e \<and> Q e
      then Some (OF_SUCCESS, set_flow_table h dp (update_first (\<lambda>e. is_flow k e \<and> Q e) f (flow_table dp)) dps)
      else Some (OF_FAILURE, dps))
    = changed h dp dps (change_table k (\<lambda>e. if Q e then Some (f e) else None) (flow_table dp))"
  unfolding update_is_change [OF assms, symmetric] by (simp add: changed_def)

lemma changed_add:
  assumes "distinct (map fe_flow_id (flow_table dp))"
  shows "(if \<exists>e \<in> set (flow_table dp). is_flow k e
      then Some (OF_SUCCESS, set_flow_table h dp (update_first (is_flow k) f (flow_table dp)) dps)
      else Some (OF_FAILURE, dps))
    = changed h dp dps (change_table k (Some \<circ> f) (flow_table dp))"
  using changed_if [OF assms, of k "\<lambda>_. True" h f dps] unfolding simp_thms if_True o_def .

lemma flow_call_change:
  assumes c: "flow_change op = Some (h, k, change)" and dp: "dps h = Some dp" and d: "distinct (map fe_flow_id (flow_table dp))"
  shows "flow_call op dps = changed h dp dps (change_table k change (flow_table dp))"
proof -
  note rem = remove_from_flow_def changed_if [OF d] Let_def removed_item_def [abs_def]
  show ?thesis
  proof (cases op)
    case (Remove_Inst_Action h' a k' n)
    then have "h' = h" "k' = k" "change = removed_inst_action (fa_action_id a) n" using c by simp_all
    then show ?thesis
      using Remove_Inst_Action dp remove_inst_action_is_change [OF d]
      by (auto simp: of_flow_instruction_remove_action_from_list_def changed_def split: option.split)
  next
    case (Add_Inst_Action h' a k' n)
    then show ?thesis
      using c dp by (simp add: of_flow_instruction_add_action_to_list_def Let_def changed_if [OF d])
  next
    case (Update_Flow h' info)
    then have k: "h' = h" "fe_flow_id info = k" "change = Some \<circ> copy_flow info" using c by auto
    show ?thesis
      unfolding Update_Flow flow_call.simps of_datapath_update_flow_def option.case k dp changed_add [OF d] ..
  qed (use c dp in \<open>auto simp: of_flow_add_match_field_to_list_def of_flow_add_action_to_list_def
        of_flow_add_instruction_to_list_def add_to_flow_def changed_add [OF d]
        of_flow_remove_match_field_from_list_def of_flow_remove_action_from_list_def
        of_flow_remove_instruction_from_list_def rem\<close>)
qed

lemma flow_change_id:
  "flow_change op = Some (h, k, change) \<Longrightarrow> change e = Some e' \<Longrightarrow> fe_flow_id e' = fe_flow_id e"
  by (cases op) (auto simp: copy_flow_def append_field_def append_action_def append_instruction_def append_inst_action_def
      removed_item_def removed_inst_action_def split: if_splits option.splits)

lemma flow_rel_update:
  assumes "flow_rel base (Some dps) s" and "dps h = Some dp" and "table_rel es m"
  shows "flow_rel base (Some (set_flow_table h dp es dps)) (s(h \<mapsto> m))"
  unfolding flow_rel_def set_flow_table_def
proof (intro exI [of _ "dps(h \<mapsto> dp\<lparr>flow_table := es\<rparr>)"] conjI allI refl)
  fix h'
  have r: "map_option datapath_entry.truncate (dps h') = base h'"
    "rel_option (\<lambda>dp m. table_rel (flow_table dp) m) (dps h') (s h')" for h'
    using assms(1) by (auto simp: flow_rel_def)
  show "map_option datapath_entry.truncate ((dps(h \<mapsto> dp\<lparr>flow_table := es\<rparr>)) h') = base h'"
    using r(1) [of h'] assms(2) by (auto simp: datapath_entry.truncate_def)
  show "rel_option (\<lambda>dp m. table_rel (flow_table dp) m) ((dps(h \<mapsto> dp\<lparr>flow_table := es\<rparr>)) h') ((s(h \<mapsto> m)) h')"
    using r(2) [of h'] assms(3) by simp
qed

lemma flow_step:
  assumes "flow_rel base st s" and "flow_op_ok op s"
  shows "fst (flow_exec op st) = fst (flow_spec op s) \<and> flow_rel base (snd (flow_exec op st)) (snd (flow_spec op s))"
proof -
  obtain dps where st: "st = Some dps" using assms(1) by (auto simp: flow_rel_def)
  have rel: "rel_option (\<lambda>dp m. table_rel (flow_table dp) m) (dps h) (s h)" for h
    using assms(1) st by (auto simp: flow_rel_def)
  have known: "\<exists>m. s h = Some m \<and> table_rel (flow_table dp) m" if "dps h = Some dp" for h dp
    using rel [of h] that by (cases "s h") auto
  have unknown: "dps h = None \<longleftrightarrow> s h = None" for h using rel [of h] by (auto simp: option_rel_Some1)
  note upd = flow_rel_update [OF assms(1) [unfolded st]]
  show ?thesis
  proof (cases "flow_change op")
    case (Some c)
    then obtain h k change where c: "flow_change op = Some (h, k, change)" by (cases c) auto
    show ?thesis
    proof (cases "dps h")
      case None
      have "flow_call op dps = Some (OF_FAILURE, dps)"
        using c None assms(2) unknown [of h]
        by (cases op) (auto simp: of_datapath_update_flow_def of_flow_instruction_add_action_to_list_def
            of_flow_remove_match_field_from_list_def of_flow_remove_action_from_list_def
            of_flow_remove_instruction_from_list_def remove_from_flow_def of_flow_instruction_remove_action_from_list_def)
      then show ?thesis using c None unknown assms(1) st by (simp add: flow_exec_def flow_spec_def)
    next
      case (Some dp)
      obtain m where m: "s h = Some m" "table_rel (flow_table dp) m" using known [OF Some] by blast
      then have "distinct (map fe_flow_id (flow_table dp))" by (simp add: table_rel_def)
      note call = flow_call_change [of op h k change dps dp, OF c Some this]
      show ?thesis
        using change_table_rel [OF m(2), of change k] flow_change_id [OF c] call c m(1) assms(1) upd [OF Some]
        by (cases "change_table k change (flow_table dp)") (auto simp: flow_exec_def flow_spec_def changed_def st)
    qed
  next
    case None
    then consider (add) h e where "op = Add_Flow h e" | (remove) h k where "op = Remove_Flow h k" by (cases op) auto
    then show ?thesis
    proof cases
      case add
      show ?thesis
      proof (cases "dps h")
        case n: None
        then have "s h = None" using unknown [of h] by simp
        then show ?thesis
          using add n assms(1) st by (simp add: flow_exec_def flow_spec_def of_datapath_add_static_flow_def)
      next
        case (Some dp)
        obtain m where m: "s h = Some m" "table_rel (flow_table dp) m" using known [OF Some] by blast
        have new: "m (fe_flow_id e) = None" using assms(2) add m(1) by simp
        note f = table_rel_find [OF m(2)]
        have "table_rel (flow_table dp @ [blank_flow e]) (m(fe_flow_id e \<mapsto> blank_flow e))"
        proof -
          have "\<not> (\<exists>x \<in> set (flow_table dp). is_flow (fe_flow_id e) x)"
            using f [of "fe_flow_id e"] new by (auto simp: find_None_iff)
          then have "distinct (map fe_flow_id (flow_table dp @ [blank_flow e]))"
            using m(2) by (auto simp: table_rel_def blank_flow_def)
          moreover have "find (is_flow k) (flow_table dp @ [blank_flow e]) = (m(fe_flow_id e \<mapsto> blank_flow e)) k" for k
          proof -
            have "find P (xs @ [x]) = (case find P xs of None \<Rightarrow> if P x then Some x else None | Some y \<Rightarrow> Some y)"
              for P :: "ofi_flow_mod_info \<Rightarrow> bool" and xs x by (induction xs) auto
            then show ?thesis using f [of k] new by (auto simp: blank_flow_def split: option.splits)
          qed
          ultimately show ?thesis by (simp add: table_rel_def)
        qed
        then show ?thesis
          using add Some m(1) upd [OF Some] by (simp add: flow_exec_def flow_spec_def of_datapath_add_static_flow_def st)
      qed
    next
      case remove
      then obtain m e where m: "s h = Some m" "m k = Some e" using assms(2) by auto
      then obtain dp where dp: "dps h = Some dp" using unknown [of h] by auto
      then have t: "table_rel (flow_table dp) m" using known [OF dp] m(1) by auto
      note f = table_rel_find [OF t]
      have ex: "\<exists>x \<in> set (flow_table dp). is_flow k x" using find_is_flow [OF trans [OF f m(2)]] by blast
      have "table_rel (remove_first (is_flow k) (flow_table dp)) (m(k := None))"
      proof -
        have "distinct (map fe_flow_id es) \<Longrightarrow> distinct (map fe_flow_id (remove_first (is_flow k) es))
          \<and> (\<forall>j. find (is_flow j) (remove_first (is_flow k) es) = (if j = k then None else find (is_flow j) es))" for es
        proof (induction es)
          case (Cons a es)
          have "\<forall>x \<in> set es. \<not> is_flow (fe_flow_id a) x" using distinct_key [of fe_flow_id a es, OF Cons.prems] by simp
          then have "find (is_flow (fe_flow_id a)) es = None" by (simp add: find_None_iff)
          moreover have "fe_flow_id a \<notin> fe_flow_id ` set (remove_first (is_flow k) es)"
            using Cons.prems remove_first_set [of "is_flow k" es] by auto
          ultimately show ?case using Cons by auto
        qed simp
        then show ?thesis using t by (simp add: table_rel_def)
      qed
      then show ?thesis
        using remove dp m(1) ex upd [OF dp]
        by (simp add: flow_exec_def flow_spec_def of_datapath_remove_static_flow_def remove_scanned_def st)
    qed
  qed
qed

interpretation flows: simulation flow_exec flow_spec flow_op_ok "flow_rel base" "\<lambda>r. r" for base
  by unfold_locales (rule flow_step)

section \<open>What the operations make of the tables\<close>

text \<open>
  C11.  From any tables with distinct flow numbers on, every run of the operations on
  flows, match fields, instructions and actions that respects the caller's part returns the statuses and
  leaves the entries of one map from flow numbers to entries per datapath: adding starts an entry with its
  lists empty, the other operations change the entry with the number and nothing else, and fail if there is
  none or it does not have the item (items are found by the low eight bits of their number).  No null pointer
  is used.  The caller's part (\<open>flow_op_ok\<close>): a flow is added under a number that is not in use, only
  flows that are there are removed, and fields, actions and instructions are added for known datapaths
  only.  Removing an unknown flow loses another one or uses a null pointer (lemma \<open>remove_unknown_flow\<close>).
\<close>

theorem flow_table_refines:
  assumes "flow_rel base (Some dps) s" and "run_ok flow_spec flow_op_ok ops s"
  shows "fst (run flow_exec ops (Some dps)) = fst (run flow_spec ops s)
    \<and> (\<exists>dps'. snd (run flow_exec ops (Some dps)) = Some dps' \<and> flow_rel base (Some dps') (snd (run flow_spec ops s)))"
  using flows.run_refines [OF assms] by (simp add: flow_rel_def)

lemma one_datapath_rel:
  "flow_rel (\<lambda>h. if h = 3 then Some b else None)
     (Some (\<lambda>h. if h = 3 then Some (datapath_entry.extend b (flow_datapath.fields [])) else None))
     (\<lambda>h. if h = 3 then Some Map.empty else None)"
  by (auto simp: flow_rel_def table_rel_def datapath_entry.defs flow_datapath.defs)

definition sample_flow :: "u32 \<Rightarrow> u16 \<Rightarrow> ofi_flow_mod_info" where
  "sample_flow k priority = sample_entry\<lparr>fe_flow_id := k, fe_priority := priority\<rparr>"

text \<open>
  Two flows are added, one gets a priority and the other is removed; changing the removed one, removing
  a field that is not there and adding to an unknown datapath fail.
\<close>

lemma flow_table_refines_witness:
  "fst (run flow_exec [Add_Flow 3 (sample_flow 8 0), Add_Flow 3 (sample_flow 9 0), Update_Flow 3 (sample_flow 9 70),
      Remove_Flow 3 8, Update_Flow 3 (sample_flow 8 5), Remove_Field 3 9 1, Add_Flow 4 (sample_flow 1 0)]
      (Some (\<lambda>h. if h = 3 then Some (datapath_entry.extend (datapath_entry.make True (Some 1)) (flow_datapath.fields []))
         else None)))
    = map Some [OF_SUCCESS, OF_SUCCESS, OF_SUCCESS, OF_SUCCESS, OF_FAILURE, OF_FAILURE, OF_FAILURE]"
proof -
  let ?ops = "[Add_Flow 3 (sample_flow 8 0), Add_Flow 3 (sample_flow 9 0), Update_Flow 3 (sample_flow 9 70),
      Remove_Flow 3 8, Update_Flow 3 (sample_flow 8 5), Remove_Field 3 9 1, Add_Flow 4 (sample_flow 1 0)]"
  note ev = flow_spec_def sample_flow_def blank_flow_def copy_flow_def removed_item_def
  have "run_ok flow_spec flow_op_ok ?ops (\<lambda>h. if h = 3 then Some Map.empty else None)"
    by (simp add: ev)
  from flow_table_refines [OF one_datapath_rel this, THEN conjunct1]
  show ?thesis by (simp add: ev)
qed

text \<open>Sending changes an entry as the operations do.\<close>

lemma store_entry_table:
  assumes "table_rel es m" and "m k = Some e" and "fe_flow_id e' = k"
  shows "table_rel (store_entry k e' es) (m(k \<mapsto> e'))"
proof -
  have "find (is_flow k) es = Some e" using table_rel_find [OF assms(1)] assms(2) by simp
  then have "map fe_flow_id (store_entry k e' es) = map fe_flow_id es
    \<and> (\<forall>j. find (is_flow j) (store_entry k e' es) = (if j = k then Some e' else find (is_flow j) es))"
    using assms(3) by (induction es) (auto split: if_splits)
  then show ?thesis using assms(1) by (simp add: table_rel_def)
qed

text \<open>
  After any run of configuration operations that respects the caller's part, adding
  a flow hands one message to the main channel of the datapath, and what the message says is the entry of the
  specification's map: its numbers in the fixed part, its match fields and its instructions.  Afterwards the
  datapath has the map's entries still, the flag for resetting the counts set in the one that was sent.
  This holds if the main channel is there, a message is allocated from zeroed memory, and the entry of
  the map is well formed and fits the message (as for \<open>flow_sent\<close>).
\<close>

theorem configured_flow_sent:
  assumes "flow_rel base (Some dps) s" and "run_ok flow_spec flow_op_ok ops s"
    and "snd (run flow_exec ops (Some dps)) = Some dps'"
    and "snd (run flow_spec ops s) h = Some tab" and "tab k = Some e"
    and "base h = Some b" and "is_main_conn_present b" and "main_channel b = Some ch"
    and "ofu_alloc_message gb of_cntlr_msg_init OFPT_FLOW_MOD 300 st = (Some (blk, mk), st')"
    and "zeros (data_of blk) 304 cells"
    and "those (map flow_match_call (fe_match_field_list e)) = Some mfs"
    and "those (map flow_instr_call (fe_instruction_list e)) = Some instrs"
    and "\<forall>c \<in> set mfs. wf_match c" and "\<forall>i \<in> set instrs. wf_instr i"
    and "\<not> list_ex (backward_goto (fe_table_id e)) (fe_instruction_list e)"
    and "fe_match_field_list e = [] \<or> fe_command e \<noteq> OFPFC_ADD \<or> fe_priority e \<noteq> 0"
    and "length (encoding match_enc mfs) + ROUND_UP (length (encoding match_enc mfs) + 4)
           + length (encoding instr_enc instrs) \<le> 248"
    and "of_flow_mod_frame_and_send_message gb data_of cells dps' deliver h k priority ADD_FLOW st = r"
  defines "a \<equiv> data_of blk"
    and "l \<equiv> length (encoding match_enc mfs) + ROUND_UP (length (encoding match_enc mfs) + 4)"
    and "n \<equiv> 52 + length (encoding match_enc mfs) + ROUND_UP (length (encoding match_enc mfs) + 4)
           + length (encoding instr_enc instrs)"
  shows "(\<exists>m. fo_sent r = [(Some ch, m)]
      \<and> read_bytes a 48 (mem m) = entry_wire e n
      \<and> ofp_match_parse (read_bytes (a + 48) (4 + l) (mem m)) = Some (map match_oxm mfs)
      \<and> wire_parse (read_bytes (a + 52 + l) (n - (52 + l)) (mem m)) = Some (map instr_wire instrs))
    \<and> (\<exists>es. fo_flow_table r = Some es
      \<and> table_rel es (tab(k \<mapsto> e\<lparr>fe_flow_flags := fe_flow_flags e OR OFPFF_RESET_COUNTS\<rparr>)))"
proof -
  have "flow_rel base (Some dps') (snd (run flow_spec ops s))"
    using flows.run_refines [OF assms(1,2)] assms(3) by simp
  then have "map_option datapath_entry.truncate (dps' h) = base h"
    "rel_option (\<lambda>dp m. table_rel (flow_table dp) m) (dps' h) (Some tab)"
    using assms(4) by (auto simp: flow_rel_def simp del: option_rel_Some2 dest!: spec [of _ h])
  then obtain dp where dp: "dps' h = Some dp" "datapath_entry.truncate dp = b" "table_rel (flow_table dp) tab"
    using assms(6) by (cases "dps' h") auto
  have "is_main_conn_present dp" "main_channel dp = Some ch" using dp(2) assms(7,8) by (auto simp: datapath_entry.defs)
  moreover have f: "find (\<lambda>e. fe_flow_id e = k) (flow_table dp) = Some e"
    using table_rel_find [OF dp(3)] assms(5) by simp
  ultimately obtain m where m: "fo_sent r = [(Some ch, m)]"
    "fo_flow_table r = Some (store_entry k (e\<lparr>fe_flow_flags := fe_flow_flags e OR OFPFF_RESET_COUNTS\<rparr>) (flow_table dp))"
    "read_bytes a 48 (mem m) = entry_wire e n"
    "ofp_match_parse (read_bytes (a + 48) (4 + l) (mem m)) = Some (map match_oxm mfs)"
    "wire_parse (read_bytes (a + 52 + l) (n - (52 + l)) (mem m)) = Some (map instr_wire instrs)"
    using flow_message_sent [OF assms(9,10) dp(1) _ _ f assms(11-17,18)] unfolding a_def l_def n_def by blast
  have "fe_flow_id e = k" using find_is_flow [OF f] by simp
  then have "table_rel (store_entry k (e\<lparr>fe_flow_flags := fe_flow_flags e OR OFPFF_RESET_COUNTS\<rparr>) (flow_table dp))
      (tab(k \<mapsto> e\<lparr>fe_flow_flags := fe_flow_flags e OR OFPFF_RESET_COUNTS\<rparr>))"
    by (intro store_entry_table [OF dp(3) assms(5)]) simp
  then show ?thesis using m by blast
qed

lemma distinct_all_same:
  assumes "distinct xs" and "xs \<noteq> []" and "\<And>x. x \<in> set xs \<Longrightarrow> x = y"
  shows "xs = [y]"
proof -
  obtain x ys where xs: "xs = x # ys" using assms(2) by (cases xs) auto
  have "ys = []" using assms(1,3) unfolding xs by (cases ys) auto
  then show ?thesis using assms(3) [of x] by (simp add: xs)
qed

text \<open>Flow 9 is configured beside flow 8, which is removed; what is sent is the updated entry.\<close>

lemma configured_flow_sent_witness:
  "\<exists>dps' m es. snd (run flow_exec [Add_Flow 3 (sample_flow 8 0), Add_Flow 3 (sample_flow 9 0), Update_Flow 3 (sample_flow 9 70),
        Remove_Flow 3 8] (Some (\<lambda>h. if h = 3 then Some (datapath_entry.extend (datapath_entry.make True (Some 1))
          (flow_datapath.fields [])) else None))) = Some dps'
    \<and> fo_sent (of_flow_mod_frame_and_send_message sample_get (\<lambda>_. 5000) (\<lambda>_. 0) dps' (\<lambda>_ _. Accepted) 3 9 0 ADD_FLOW sample_pool)
      = [(Some 1, m)] \<and> read_bytes 5030 2 (mem m) = [0, 70]
    \<and> fo_flow_table (of_flow_mod_frame_and_send_message sample_get (\<lambda>_. 5000) (\<lambda>_. 0) dps' (\<lambda>_ _. Accepted) 3 9 0 ADD_FLOW sample_pool)
      = Some es \<and> map fe_flow_flags es = [4]"
proof -
  let ?b = "datapath_entry.make True (Some 1)"
  let ?base = "\<lambda>h::u64. if h = 3 then Some ?b else None" and ?s = "\<lambda>h::u64. if h = 3 then Some Map.empty else None"
  let ?dps = "\<lambda>h::u64. if h = 3 then Some (datapath_entry.extend ?b (flow_datapath.fields [])) else None"
  let ?ops = "[Add_Flow 3 (sample_flow 8 0), Add_Flow 3 (sample_flow 9 0), Update_Flow 3 (sample_flow 9 70), Remove_Flow 3 8]"
  let ?e = "copy_flow (sample_flow 9 70) (blank_flow (sample_flow 9 0))"
  note ev = flow_spec_def sample_flow_def blank_flow_def copy_flow_def
  have ok: "run_ok flow_spec flow_op_ok ?ops ?s" by (simp add: ev)
  have "flow_rel ?base (snd (run flow_exec ?ops (Some ?dps))) (snd (run flow_spec ?ops ?s))"
    using flows.run_refines [OF one_datapath_rel ok] by blast
  then obtain dps' where d: "snd (run flow_exec ?ops (Some ?dps)) = Some dps'" unfolding flow_rel_def by blast
  have tab: "snd (run flow_spec ?ops ?s) 3 = Some [9 \<mapsto> ?e]" "[9 \<mapsto> ?e] 9 = Some ?e"
    by (simp_all add: ev fun_eq_iff)
  have base: "?base 3 = Some ?b" "is_main_conn_present ?b" "main_channel ?b = Some 1" by (simp_all add: datapath_entry.defs)
  obtain mk st where al: "ofu_alloc_message sample_get of_cntlr_msg_init OFPT_FLOW_MOD 300 sample_pool = (Some (4, mk), st)"
    by (rule sample_alloc [of 300 OFPT_FLOW_MOD]) simp_all
  have z: "zeros ((\<lambda>_. 5000) (4 :: nat)) 304 (\<lambda>_. 0)" by (simp add: zeros_def)
  have e: "fe_match_field_list ?e = []" "fe_instruction_list ?e = []" "fe_priority ?e = 70" "fe_flow_flags ?e = 0"
    by (simp_all add: copy_flow_def blank_flow_def sample_flow_def sample_entry_def)
  let ?r = "of_flow_mod_frame_and_send_message sample_get (\<lambda>_. 5000) (\<lambda>_. 0) dps' (\<lambda>_ _. Accepted) 3 9 0 ADD_FLOW sample_pool"
  have "(\<exists>m. fo_sent ?r = [(Some 1, m)] \<and> read_bytes 5000 48 (mem m) = entry_wire ?e (52 + ROUND_UP 4)) \<and> (\<exists>es. fo_flow_table ?r = Some es
      \<and> table_rel es ([9 \<mapsto> ?e](9 \<mapsto> ?e\<lparr>fe_flow_flags := fe_flow_flags ?e OR OFPFF_RESET_COUNTS\<rparr>)))"
    using configured_flow_sent [where data_of = "\<lambda>_. 5000" and deliver = "\<lambda>_ _. Accepted" and priority = 0,
        OF one_datapath_rel ok d tab base al z, of "[]" "[]"] e by (auto simp: ROUND_UP_def fun_upd_def)
  then obtain m es where m: "fo_sent ?r = [(Some 1, m)]" "read_bytes 5000 48 (mem m) = entry_wire ?e (52 + ROUND_UP 4)"
    "fo_flow_table ?r = Some es" "table_rel es ([9 \<mapsto> ?e](9 \<mapsto> ?e\<lparr>fe_flow_flags := fe_flow_flags ?e OR OFPFF_RESET_COUNTS\<rparr>))"
    by blast
  have "read_bytes 5000 (30 + (2 + 16)) (mem m) = entry_wire ?e (52 + ROUND_UP 4)" using m(2) by simp
  then have "read_bytes 5000 30 (mem m) @ read_bytes (5000 + 30) 2 (mem m) @ read_bytes (5000 + 30 + 2) 16 (mem m)
      = entry_wire ?e (52 + ROUND_UP 4)" unfolding read_bytes_split .
  from arg_cong [OF this, of "take 2 \<circ> drop 30"] have "read_bytes 5030 2 (mem m) = be16 70"
    using e by (simp add: entry_wire_def)
  then have p: "read_bytes 5030 2 (mem m) = [0, 70]" by (simp add: be16_def)
  have "map fe_flow_flags es = [4]"
  proof -
    note f = table_rel_find [OF m(4)]
    have all: "x = ?e\<lparr>fe_flow_flags := fe_flow_flags ?e OR OFPFF_RESET_COUNTS\<rparr>" if "x \<in> set es" for x
    proof -
      have "find (is_flow (fe_flow_id x)) es \<noteq> None" using that by (auto simp: find_None_iff)
      then have k: "fe_flow_id x = 9" using f [of "fe_flow_id x"] by (auto split: if_splits)
      obtain y where y: "find (is_flow 9) es = Some y" "y = ?e\<lparr>fe_flow_flags := fe_flow_flags ?e OR OFPFF_RESET_COUNTS\<rparr>"
        using f [of 9] by simp
      have "x = y" using find_is_flow [OF y(1)] k that m(4) by (auto simp: table_rel_def distinct_map inj_on_def)
      then show ?thesis using y(2) by simp
    qed
    have "es \<noteq> []" using f [of 9] by auto
    moreover have "distinct es" using m(4) by (simp add: table_rel_def distinct_map)
    ultimately have "es = [?e\<lparr>fe_flow_flags := fe_flow_flags ?e OR OFPFF_RESET_COUNTS\<rparr>]"
      using all by (intro distinct_all_same)
    then show ?thesis using e(4) by (simp add: OFPFF_RESET_COUNTS_def)
  qed
  with d m(1,3) p show ?thesis by (intro exI conjI)
qed

text \<open>
  Removing a flow that the datapath does not have reports success and loses
  the only flow of a table that has one; with any other number of flows it uses a null pointer.
\<close>

theorem remove_unknown_flow:
  assumes "flow_rel base (Some dps) s" and "s h = Some m" and "m k = None"
  shows "if card (dom m) = 1
    then \<exists>dps'. of_datapath_remove_static_flow h k dps = Some (OF_SUCCESS, dps') \<and> flow_rel base (Some dps') (s(h \<mapsto> Map.empty))
    else of_datapath_remove_static_flow h k dps = None"
proof -
  obtain dp where dp: "dps h = Some dp" "table_rel (flow_table dp) m"
    using assms(1,2) unfolding flow_rel_def by (metis option.rel_cases option.sel option.distinct(1))
  note f = table_rel_find [OF dp(2)]
  have no: "\<not> (\<exists>x \<in> set (flow_table dp). is_flow k x)" using f [of k] assms(3) by (simp add: find_None_iff)
  have "dom m = fe_flow_id ` set (flow_table dp)"
    unfolding dom_def f [symmetric] by (auto simp: find_None_iff)
  moreover have "distinct (map fe_flow_id (flow_table dp))" using dp(2) by (simp add: table_rel_def)
  ultimately have card: "card (dom m) = length (flow_table dp)"
    using distinct_card [of "map fe_flow_id (flow_table dp)"] by simp
  have "table_rel [] Map.empty" by (simp add: table_rel_def)
  from flow_rel_update [OF assms(1) dp(1) this] show ?thesis
    unfolding card of_datapath_remove_static_flow_def dp(1) remove_scanned_def using no by auto
qed

text \<open>Flow 8 is asked for, and flow 9, the only one, is gone.\<close>

lemma remove_unknown_flow_witness:
  "\<exists>dps'. of_datapath_remove_static_flow 3 8 (\<lambda>h. if h = 3 then Some (datapath_entry.extend (datapath_entry.make True (Some 1))
        (flow_datapath.fields [blank_flow (sample_flow 9 0)])) else None) = Some (OF_SUCCESS, dps')
    \<and> map_option flow_table (dps' 3) = Some []"
proof -
  let ?b = "datapath_entry.make True (Some 1)"
  let ?dps = "\<lambda>h::u64. if h = 3 then Some (datapath_entry.extend ?b (flow_datapath.fields [blank_flow (sample_flow 9 0)])) else None"
  let ?m = "[9::u32 \<mapsto> blank_flow (sample_flow 9 0)]"
  have "flow_rel (\<lambda>h. if h = 3 then Some ?b else None) (Some ?dps) (\<lambda>h. if h = 3 then Some ?m else None)"
    by (auto simp: flow_rel_def table_rel_def datapath_entry.defs flow_datapath.defs blank_flow_def sample_flow_def)
  moreover have "?m 8 = None" and one: "card (dom ?m) = 1" by simp_all
  ultimately have "if card (dom ?m) = 1 then \<exists>dps'. of_datapath_remove_static_flow 3 8 ?dps = Some (OF_SUCCESS, dps')
      \<and> flow_rel (\<lambda>h. if h = 3 then Some ?b else None) (Some dps') ((\<lambda>h. if h = 3 then Some ?m else None)(3 \<mapsto> Map.empty))
    else of_datapath_remove_static_flow 3 8 ?dps = None"
    by (intro remove_unknown_flow [where m = ?m]) simp_all
  then obtain dps' where
    r: "of_datapath_remove_static_flow 3 8 ?dps = Some (OF_SUCCESS, dps')"
      "flow_rel (\<lambda>h. if h = 3 then Some ?b else None) (Some dps') ((\<lambda>h. if h = 3 then Some ?m else None)(3 \<mapsto> Map.empty))"
    unfolding one by (simp only: refl if_True) blast
  from r(2) have "rel_option (\<lambda>dp m. table_rel (flow_table dp) m) (dps' 3) (Some Map.empty)"
    unfolding flow_rel_def option.inject by (elim exE conjE allE [of _ 3]) (simp del: option_rel_Some2)
  then obtain dp where dp: "dps' 3 = Some dp" "table_rel (flow_table dp) Map.empty" by (cases "dps' 3") auto
  have "flow_table dp = []"
    using table_rel_find [OF dp(2), of "fe_flow_id (hd (flow_table dp))"] by (cases "flow_table dp") auto
  then show ?thesis using r(1) dp(1) by auto
qed

end
