(* ===== verification/MsgQueue.thy ===== *)
theory MsgQueue
  imports Main "HOL-Library.Signed_Division"
begin

text \<open>
  The message queue of \<open>utils/queue.c\<close>: a ring of 64 slots with a linked list for what does not
  fit.  The indices are \<open>int32_t\<close>, kept as \<open>int\<close>; where the code compares them with the unsigned
  next index they are converted by \<open>uint32\<close>.  Whether the pool of list entries has a block is an
  argument.  \<open>lock_depth\<close> counts lock minus unlock operations.  The contract of a bounded queue is a
  locale, interpreted on the ring.
\<close>

section \<open>The queue\<close>

definition OF_MAX_MSGS_IN_RING :: nat where "OF_MAX_MSGS_IN_RING = 64"

record 'm msg_queue =
  ulWriteIndx :: int
  ulReadIndx :: int
  pMsgData :: "'m option list"
  MsgList :: "'m list"
  lock_depth :: int

text \<open>As \<open>of_MsgQBoxCreate\<close> leaves each queue.\<close>

definition new_queue :: "'m msg_queue" where
  "new_queue = \<lparr>ulWriteIndx = -1, ulReadIndx = -1,
     pMsgData = replicate OF_MAX_MSGS_IN_RING None, MsgList = [], lock_depth = 0\<rparr>"

definition uint32 :: "int \<Rightarrow> int" where "uint32 i = i mod 2 ^ 32"

definition lock :: "'m msg_queue \<Rightarrow> 'm msg_queue" where
  "lock q = q\<lparr>lock_depth := lock_depth q + 1\<rparr>"

definition unlock :: "'m msg_queue \<Rightarrow> 'm msg_queue" where
  "unlock q = q\<lparr>lock_depth := lock_depth q - 1\<rparr>"

text \<open>
  The next index is read before the lock is taken; the rest of the routine is the second step.
\<close>

definition next_write_index :: "'m msg_queue \<Rightarrow> int" where
  "next_write_index q = uint32 (ulWriteIndx q + 1)"

definition enqueue_at :: "bool \<Rightarrow> bool \<Rightarrow> int \<Rightarrow> 'm \<Rightarrow> 'm msg_queue \<Rightarrow> bool \<times> 'm msg_queue" where
  "enqueue_at has_block try_lock_less ulNextWriteIndex msg q =
     (let q = (if try_lock_less then q else lock q);
          ring = int OF_MAX_MSGS_IN_RING;
          i = (if ulNextWriteIndex \<ge> ring \<and> uint32 (ulReadIndx q) > ulNextWriteIndex mod ring
               then ulNextWriteIndex mod ring else ulNextWriteIndex)
      in if i \<noteq> uint32 (ulReadIndx q) \<and> i < ring then
           let q = q\<lparr>pMsgData := (pMsgData q)[nat i := Some msg]\<rparr>;
               q = q\<lparr>ulWriteIndx := i\<rparr>
           in (True, if try_lock_less then q else unlock q)
         else if \<not> has_block then (False, if try_lock_less then q else unlock q)
         else let q = (if try_lock_less then lock q else q);
                  q = q\<lparr>MsgList := MsgList q @ [msg]\<rparr>
              in (True, unlock q))"

definition of_MsgEnqueue :: "bool \<Rightarrow> bool \<Rightarrow> 'm \<Rightarrow> 'm msg_queue \<Rightarrow> bool \<times> 'm msg_queue" where
  "of_MsgEnqueue has_block try_lock_less msg q =
     enqueue_at has_block try_lock_less (next_write_index q) msg q"

text \<open>\<open>None\<close> is \<open>OF_FAILURE\<close>; a slot may hold a null pointer.\<close>

definition of_MsgDequeue :: "bool \<Rightarrow> 'm msg_queue \<Rightarrow> 'm option option \<times> 'm msg_queue" where
  "of_MsgDequeue try_lock_less q =
     (let ring = int OF_MAX_MSGS_IN_RING in
      if ulWriteIndx q < ring \<and> ulWriteIndx q = ulReadIndx q then (None, q)
      else if ulWriteIndx q < ring then
        let q = (if try_lock_less then q else lock q);
            q = q\<lparr>ulReadIndx := ulReadIndx q + 1\<rparr>;
            q = q\<lparr>ulReadIndx := ulReadIndx q smod ring\<rparr>;
            msg = pMsgData q ! nat (ulReadIndx q);
            q = q\<lparr>pMsgData := (pMsgData q)[nat (ulReadIndx q) := None]\<rparr>
        in (Some msg, if try_lock_less then q else unlock q)
      else
        let q = lock q in
        (case MsgList q of
           [] \<Rightarrow> (None, q)
         | m # ms \<Rightarrow> (Some (Some m), unlock (q\<lparr>MsgList := ms\<rparr>))))"

section \<open>A bounded queue\<close>

text \<open>The operations of a producer and a consumer, and what they return.\<close>

datatype 'm queue_op = Enq 'm | Deq

datatype 'm queue_result = Queued bool | Got "'m option"

fun run_ops :: "('m \<Rightarrow> 's \<Rightarrow> bool \<times> 's) \<Rightarrow> ('s \<Rightarrow> 'm option \<times> 's) \<Rightarrow> 'm queue_op list \<Rightarrow> 's
    \<Rightarrow> 'm queue_result list \<times> 's" where
  "run_ops enq deq [] s = ([], s)"
| "run_ops enq deq (Enq m # ops) s =
     (let (b, s) = enq m s; (rs, s) = run_ops enq deq ops s in (Queued b # rs, s))"
| "run_ops enq deq (Deq # ops) s =
     (let (m, s) = deq s; (rs, s) = run_ops enq deq ops s in (Got m # rs, s))"

text \<open>The reference: a list, with an insertion at its end.\<close>

definition list_enq :: "'m \<Rightarrow> 'm list \<Rightarrow> bool \<times> 'm list" where "list_enq m ms = (True, ms @ [m])"

fun list_deq :: "'m list \<Rightarrow> 'm option \<times> 'm list" where
  "list_deq [] = (None, [])"
| "list_deq (m # ms) = (Some m, ms)"

text \<open>The list never holds more than \<open>n\<close> messages while the operations run.\<close>

fun within :: "nat \<Rightarrow> 'm queue_op list \<Rightarrow> 'm list \<Rightarrow> bool" where
  "within n [] ms = True"
| "within n (Enq m # ops) ms = (length ms < n \<and> within n ops (ms @ [m]))"
| "within n (Deq # ops) ms = within n ops (tl ms)"

locale bounded_queue =
  fixes enq :: "'m \<Rightarrow> 's \<Rightarrow> bool \<times> 's"
    and deq :: "'s \<Rightarrow> 'm option \<times> 's"
    and pending :: "'s \<Rightarrow> 'm list"
    and inv :: "'s \<Rightarrow> bool"
    and capacity :: nat
  assumes enq_pending: "inv s \<Longrightarrow> length (pending s) < capacity \<Longrightarrow> enq m s = (b, s')
      \<Longrightarrow> b \<and> inv s' \<and> pending s' = pending s @ [m]"
    and deq_pending: "inv s \<Longrightarrow> deq s = (r, s') \<Longrightarrow> inv s' \<and> (r, pending s') = list_deq (pending s)"
begin

lemma run_is_list_run:
  assumes "inv s" and "within capacity ops (pending s)" and "run_ops enq deq ops s = (rs, s')"
  shows "inv s' \<and> run_ops list_enq list_deq ops (pending s) = (rs, pending s')"
  using assms
proof (induction ops arbitrary: s rs)
  case (Cons op ops)
  show ?case
  proof (cases op)
    case (Enq m)
    obtain b s1 where e: "enq m s = (b, s1)" by fastforce
    obtain rs1 where r: "run_ops enq deq ops s1 = (rs1, s')" and rs: "rs = Queued b # rs1"
      using Cons.prems(3) e Enq by (auto split: prod.splits)
    have s1: "b" "inv s1" "pending s1 = pending s @ [m]"
      using enq_pending [OF Cons.prems(1) _ e] Cons.prems(2) Enq by simp_all
    show ?thesis
      using Cons.IH [OF s1(2) _ r] Cons.prems(2) s1 rs Enq by (simp add: list_enq_def)
  next
    case Deq
    obtain x s1 where e: "deq s = (x, s1)" by fastforce
    obtain rs1 where r: "run_ops enq deq ops s1 = (rs1, s')" and rs: "rs = Got x # rs1"
      using Cons.prems(3) e Deq by (auto split: prod.splits)
    have s1: "inv s1" "list_deq (pending s) = (x, pending s1)"
      using deq_pending [OF Cons.prems(1) e] by simp_all
    then have "pending s1 = tl (pending s)" by (cases "pending s") auto
    then show ?thesis
      using Cons.IH [OF s1(1) _ r] Cons.prems(2) s1 rs Deq by simp
  qed
qed simp

end

section \<open>The ring is a bounded queue\<close>

text \<open>The pending messages, oldest first, and the states in which the indices are meaningful.\<close>

definition ring_count :: "'m msg_queue \<Rightarrow> nat" where
  "ring_count q = (if ulReadIndx q = -1 then nat (ulWriteIndx q + 1)
     else nat ((ulWriteIndx q - ulReadIndx q) mod int OF_MAX_MSGS_IN_RING))"

definition ring_slot :: "'m msg_queue \<Rightarrow> nat \<Rightarrow> nat" where
  "ring_slot q i = nat ((ulReadIndx q + 1 + int i) mod int OF_MAX_MSGS_IN_RING)"

definition ring_pending :: "'m msg_queue \<Rightarrow> 'm list" where
  "ring_pending q = map (\<lambda>i. the (pMsgData q ! ring_slot q i)) [0..<ring_count q]"

lemma length_ring_pending [simp]: "length (ring_pending q) = ring_count q"
  by (simp add: ring_pending_def)

definition ring_inv :: "'m msg_queue \<Rightarrow> bool" where
  "ring_inv q \<longleftrightarrow> length (pMsgData q) = OF_MAX_MSGS_IN_RING \<and> -1 \<le> ulReadIndx q \<and> ulReadIndx q < 64
     \<and> -1 \<le> ulWriteIndx q \<and> ulWriteIndx q < 64 \<and> (ulReadIndx q = -1 \<or> ulWriteIndx q \<noteq> -1)
     \<and> (ulReadIndx q = -1 \<longrightarrow> ulWriteIndx q < 63)
     \<and> (\<forall>i < ring_count q. pMsgData q ! ring_slot q i \<noteq> None)"

definition ring_deq :: "bool \<Rightarrow> 'm msg_queue \<Rightarrow> 'm option \<times> 'm msg_queue" where
  "ring_deq try_lock_less q = (case of_MsgDequeue try_lock_less q of (r, q) \<Rightarrow> (map_option the r, q))"

text \<open>What the operations leave alone.\<close>

definition same_rest :: "'m msg_queue \<Rightarrow> 'm msg_queue \<Rightarrow> bool" where
  "same_rest q q' \<longleftrightarrow> MsgList q' = MsgList q \<and> lock_depth q' = lock_depth q"

lemma ring_count_mod:
  assumes "ring_inv q"
  shows "int (ring_count q) = (ulWriteIndx q - ulReadIndx q) mod 64"
  using assms by (auto simp: ring_inv_def ring_count_def OF_MAX_MSGS_IN_RING_def mod_pos_pos_trivial)

lemma ring_count_bound: "ring_inv q \<Longrightarrow> ring_count q < 64"
  using ring_count_mod [of q] pos_mod_bound [of 64 "ulWriteIndx q - ulReadIndx q"] by linarith

lemma mod_64_cases:
  assumes "-64 < x" and "x < (64 :: int)"
  shows "x mod 64 = (if x < 0 then x + 64 else x)"
proof (cases "x < 0")
  case True
  then have "(x + 64) mod 64 = x + 64" using assms by (intro mod_pos_pos_trivial) simp_all
  then show ?thesis using True by simp
qed (use assms in simp)

lemma ring_slots_distinct:
  assumes "i < 64" and "j < 64" and "i \<noteq> j"
  shows "ring_slot q i \<noteq> ring_slot q j"
proof
  assume "ring_slot q i = ring_slot q j"
  then have "(ulReadIndx q + 1 + int i) mod 64 = (ulReadIndx q + 1 + int j) mod 64"
    by (simp add: ring_slot_def OF_MAX_MSGS_IN_RING_def)
  then have "int i mod 64 = int j mod 64" by (simp add: mod_eq_dvd_iff)
  then show False using assms by simp
qed

lemma ring_slot_bound: "ring_slot q i < 64"
  by (simp add: ring_slot_def OF_MAX_MSGS_IN_RING_def nat_less_iff)

lemma uint32_small: "0 \<le> i \<Longrightarrow> i < 2 ^ 32 \<Longrightarrow> uint32 i = i"
  by (simp add: uint32_def)

lemma ring_enqueue:
  assumes "ring_inv q" and "ring_count q < 63"
  defines "n \<equiv> ring_slot q (ring_count q)"
  shows "\<exists>q'. of_MsgEnqueue b t m q = (True, q') \<and> same_rest q q'
    \<and> ulReadIndx q' = ulReadIndx q \<and> ulWriteIndx q' = int n
    \<and> pMsgData q' = (pMsgData q)[n := Some m]"
proof -
  let ?w = "ulWriteIndx q" and ?r = "ulReadIndx q"
  have b: "-1 \<le> ?r" "?r < 64" "-1 \<le> ?w" "?w < 64" using assms(1) by (simp_all add: ring_inv_def)
  have c: "int (ring_count q) = (?w - ?r) mod 64" by (rule ring_count_mod [OF assms(1)])
  have n: "int n = (?w + 1) mod 64"
    by (simp add: n_def ring_slot_def OF_MAX_MSGS_IN_RING_def c mod_add_right_eq add.commute)
  have nw: "next_write_index q = ?w + 1" using b by (simp add: next_write_index_def uint32_small)
  have full: "(?w - ?r) mod 64 \<noteq> 63" using assms(2) c by linarith
  show ?thesis
  proof (cases "?w = 63")
    case True
    have "?r \<noteq> -1" using assms(1) True by (auto simp: ring_inv_def)
    moreover have "?r \<noteq> 0" using full True by auto
    ultimately have r: "0 < ?r" using b by linarith
    then have "uint32 ?r = ?r" using b by (simp add: uint32_small)
    then show ?thesis
      using True r n nw by (simp add: of_MsgEnqueue_def enqueue_at_def OF_MAX_MSGS_IN_RING_def
          lock_def unlock_def same_rest_def)
  next
    case False
    have "?w + 1 \<noteq> ?r"
    proof
      assume "?w + 1 = ?r"
      then have "?w - ?r = -1" by linarith
      then show False using full by simp
    qed
    then have "?w + 1 \<noteq> uint32 ?r"
      using b by (cases "?r = -1") (simp_all add: uint32_small, simp add: uint32_def)
    moreover have "int n = ?w + 1" using n False b by simp
    moreover from this have "nat (?w + 1) = n" by linarith
    ultimately show ?thesis
      using False b nw by (auto simp: of_MsgEnqueue_def enqueue_at_def OF_MAX_MSGS_IN_RING_def
          lock_def unlock_def same_rest_def Let_def)
  qed
qed


lemma ring_dequeue_empty:
  assumes "ring_inv q" and "ring_count q = 0"
  shows "of_MsgDequeue t q = (None, q)"
proof -
  let ?w = "ulWriteIndx q" and ?r = "ulReadIndx q"
  have "(?w - ?r) mod 64 = 0" using ring_count_mod [OF assms(1)] assms(2) by simp
  moreover have "-64 < ?w - ?r" "?w - ?r < 64" using assms(1) by (auto simp: ring_inv_def)
  ultimately have "?w = ?r" using mod_64_cases [of "?w - ?r"] by (auto split: if_splits)
  then show ?thesis using assms(1) by (simp add: of_MsgDequeue_def ring_inv_def OF_MAX_MSGS_IN_RING_def)
qed

lemma ring_dequeue:
  assumes "ring_inv q" and "0 < ring_count q"
  defines "n \<equiv> ring_slot q 0"
  shows "\<exists>q'. of_MsgDequeue t q = (Some (pMsgData q ! n), q') \<and> same_rest q q'
    \<and> ulWriteIndx q' = ulWriteIndx q \<and> ulReadIndx q' = int n
    \<and> pMsgData q' = (pMsgData q)[n := None]"
proof -
  let ?w = "ulWriteIndx q" and ?r = "ulReadIndx q"
  have b: "-1 \<le> ?r" "?r < 64" "-1 \<le> ?w" "?w < 64" using assms(1) by (simp_all add: ring_inv_def)
  have "?w \<noteq> ?r" using assms by (auto simp: ring_count_def split: if_splits)
  moreover have "(?r + 1) smod 64 = int n"
    using b by (simp add: n_def ring_slot_def OF_MAX_MSGS_IN_RING_def smod_int_alt_def sgn_if)
  ultimately show ?thesis
    using b by (auto simp: of_MsgDequeue_def OF_MAX_MSGS_IN_RING_def lock_def unlock_def
        same_rest_def Let_def)
qed

text \<open>The count and the slots after one operation.\<close>

lemma ring_slot_shift: "ulReadIndx q' = ulReadIndx q \<Longrightarrow> ring_slot q' i = ring_slot q i"
  by (simp add: ring_slot_def)

lemma ring_count_after_enqueue:
  assumes "ring_inv q" and "ring_count q < 63" and "ulReadIndx q' = ulReadIndx q"
    and "ulWriteIndx q' = int (ring_slot q (ring_count q))"
  shows "ring_count q' = Suc (ring_count q)" and "ulReadIndx q' = -1 \<Longrightarrow> ulWriteIndx q' < 63"
proof -
  let ?w = "ulWriteIndx q" and ?r = "ulReadIndx q"
  have c: "int (ring_count q) = (?w - ?r) mod 64" by (rule ring_count_mod [OF assms(1)])
  have w': "ulWriteIndx q' = (?w + 1) mod 64"
    by (simp add: assms(4) ring_slot_def OF_MAX_MSGS_IN_RING_def c mod_add_right_eq add.commute)
  have fresh: "ring_count q = nat (?w + 1) \<and> (?w + 1) mod 64 = ?w + 1 \<and> -1 \<le> ?w \<and> ?w < 62"
    if "?r = -1"
    using assms(1,2) that by (auto simp: ring_inv_def ring_count_def)
  then show "ulReadIndx q' = -1 \<Longrightarrow> ulWriteIndx q' < 63" using w' assms(3) by simp
  show "ring_count q' = Suc (ring_count q)"
  proof (cases "?r = -1")
    case True
    then show ?thesis using fresh w' assms(3) by (simp add: ring_count_def) linarith
  next
    case False
    have "((?w + 1) mod 64 - ?r) mod 64 = ((?w - ?r) mod 64 + 1) mod 64"
      by (simp add: mod_diff_left_eq mod_add_left_eq) (simp add: algebra_simps)
    also have "... = int (ring_count q) + 1" using c assms(2) by simp
    finally show ?thesis using False w' assms(3) by (simp add: ring_count_def OF_MAX_MSGS_IN_RING_def)
  qed
qed


lemma ring_count_after_dequeue:
  assumes "ring_inv q" and "0 < ring_count q" and "ulWriteIndx q' = ulWriteIndx q"
    and "ulReadIndx q' = int (ring_slot q 0)"
  shows "ring_count q' = ring_count q - 1" and "ring_slot q' i = ring_slot q (Suc i)"
proof -
  let ?w = "ulWriteIndx q" and ?r = "ulReadIndx q"
  have c: "int (ring_count q) = (?w - ?r) mod 64" by (rule ring_count_mod [OF assms(1)])
  have r': "ulReadIndx q' = (?r + 1) mod 64"
    by (simp add: assms(4) ring_slot_def OF_MAX_MSGS_IN_RING_def)
  have "(?w - (?r + 1) mod 64) mod 64 = ((?w - ?r) mod 64 - 1) mod 64"
    by (simp add: mod_diff_right_eq mod_diff_left_eq) (simp add: algebra_simps)
  also have "... = int (ring_count q) - 1"
    using c assms(2) ring_count_bound [OF assms(1)] by simp
  finally have "(?w - (?r + 1) mod 64) mod 64 = int (ring_count q) - 1" .
  moreover have "0 \<le> (?r + 1) mod 64" by simp
  then have "(?r + 1) mod 64 \<noteq> -1" by linarith
  ultimately show "ring_count q' = ring_count q - 1"
    using r' assms(2,3) by (simp add: ring_count_def OF_MAX_MSGS_IN_RING_def nat_diff_distrib)
  have "((?r + 1) mod 64 + 1 + int i) mod 64 = (?r + 1 + (1 + int i)) mod 64"
    by (simp add: mod_add_left_eq add.assoc)
  then show "ring_slot q' i = ring_slot q (Suc i)"
    by (simp add: ring_slot_def OF_MAX_MSGS_IN_RING_def r' add.assoc)
qed

lemma ring_enqueue_pending:
  assumes inv: "ring_inv q" and room: "ring_count q < 63" and e: "of_MsgEnqueue b t m q = (ok, q')"
  shows "ok \<and> ring_inv q' \<and> ring_pending q' = ring_pending q @ [m] \<and> same_rest q q'
    \<and> ring_count q' = Suc (ring_count q)"
proof -
  let ?n = "ring_slot q (ring_count q)"
  have ok: "ok" and same: "same_rest q q'" and r: "ulReadIndx q' = ulReadIndx q"
    and w: "ulWriteIndx q' = int ?n" and d: "pMsgData q' = (pMsgData q)[?n := Some m]"
    using ring_enqueue [OF inv room, of b t m] e by auto
  note c = ring_count_after_enqueue [OF inv room r w]
  have len: "length (pMsgData q) = 64" using inv by (simp add: ring_inv_def OF_MAX_MSGS_IN_RING_def)
  have old: "pMsgData q' ! ring_slot q' i = pMsgData q ! ring_slot q i" if "i < ring_count q" for i
    using that room ring_slots_distinct [of i "ring_count q" q] by (simp add: d ring_slot_shift [OF r])
  have new: "pMsgData q' ! ring_slot q' (ring_count q) = Some m"
    using len ring_slot_bound [of q] by (simp add: d ring_slot_shift [OF r])
  have "ring_pending q' = ring_pending q @ [m]"
    using old new by (simp add: ring_pending_def c(1))
  moreover have "ring_inv q'"
    using inv c r w d ring_slot_bound [of q "ring_count q"] old new
    by (auto simp: ring_inv_def less_Suc_eq)
  ultimately show ?thesis using ok same c(1) by simp
qed

lemma ring_dequeue_pending:
  assumes inv: "ring_inv q" and e: "ring_deq t q = (r, q')"
  shows "ring_inv q' \<and> list_deq (ring_pending q) = (r, ring_pending q') \<and> same_rest q q'"
proof (cases "ring_count q = 0")
  case True
  then show ?thesis
    using ring_dequeue_empty [OF inv True, of t] e inv
    by (auto simp: ring_deq_def ring_pending_def same_rest_def)
next
  case False
  let ?n = "ring_slot q 0"
  have pos: "0 < ring_count q" using False by simp
  have r: "r = Some (the (pMsgData q ! ?n))" and same: "same_rest q q'"
    and w: "ulWriteIndx q' = ulWriteIndx q" and ri: "ulReadIndx q' = int ?n"
    and d: "pMsgData q' = (pMsgData q)[?n := None]"
    using ring_dequeue [OF inv pos, of t] e by (auto simp: ring_deq_def)
  note c = ring_count_after_dequeue [OF inv pos w ri]
  have old: "pMsgData q' ! ring_slot q' i = pMsgData q ! ring_slot q (Suc i)"
    if "Suc i < ring_count q" for i
    using that ring_count_bound [OF inv] ring_slots_distinct [of 0 "Suc i" q] by (simp add: d c(2))
  have "ring_pending q = the (pMsgData q ! ?n) # ring_pending q'"
    using pos old by (intro nth_equalityI)
      (auto simp: ring_pending_def c(1) nth_Cons split: nat.split)
  moreover have "ring_inv q'"
    using inv c w ri d ring_slot_bound [of q 0] old pos by (auto simp: ring_inv_def ring_count_def)
  ultimately show ?thesis using same r by simp
qed

interpretation ring: bounded_queue "of_MsgEnqueue b t" "ring_deq t" ring_pending ring_inv 63 for b t
proof
  fix s :: "'a msg_queue" and m ok s'
  assume "ring_inv s" and "length (ring_pending s) < 63" and "of_MsgEnqueue b t m s = (ok, s')"
  then show "ok \<and> ring_inv s' \<and> ring_pending s' = ring_pending s @ [m]"
    using ring_enqueue_pending [of s b t m ok s'] by simp
next
  fix s :: "'a msg_queue" and r s'
  assume "ring_inv s" and "ring_deq t s = (r, s')"
  then show "ring_inv s' \<and> (r, ring_pending s') = list_deq (ring_pending s)"
    using ring_dequeue_pending [of s t r s'] by simp
qed

lemma new_queue_inv: "ring_inv new_queue" "ring_pending new_queue = []"
  by (simp_all add: new_queue_def ring_inv_def ring_pending_def ring_count_def OF_MAX_MSGS_IN_RING_def)


section \<open>Properties of the queue\<close>

text \<open>
  C15. As long as no more than 63 messages are pending, a queue behaves as a list: every
  enqueue succeeds and every dequeue returns the oldest pending message or reports an empty queue,
  for any sequence of operations on a new queue.
\<close>

theorem queue_is_fifo:
  assumes "within 63 ops []" and "run_ops (of_MsgEnqueue b t) (ring_deq t) ops new_queue = (rs, q)"
  shows "run_ops list_enq list_deq ops [] = (rs, ring_pending q)"
  using ring.run_is_list_run [OF new_queue_inv(1), of ops b t rs q] assms
  by (simp add: new_queue_inv(2))

lemma queue_is_fifo_witness:
  "run_ops list_enq list_deq [Enq (1::nat), Enq 2, Deq, Deq, Deq] []
     = (fst (run_ops (of_MsgEnqueue True False) (ring_deq False) [Enq 1, Enq 2, Deq, Deq, Deq] new_queue), [])
   \<and> fst (run_ops (of_MsgEnqueue True False) (ring_deq False) [Enq (1::nat), Enq 2, Deq, Deq, Deq] new_queue)
     = [Queued True, Queued True, Got (Some 1), Got (Some 2), Got None]"
proof -
  let ?ops = "[Enq (1::nat), Enq 2, Deq, Deq, Deq]"
  obtain rs q where r: "run_ops (of_MsgEnqueue True False) (ring_deq False) ?ops new_queue = (rs, q)"
    by fastforce
  have "run_ops list_enq list_deq ?ops [] = (rs, ring_pending q)"
    by (rule queue_is_fifo [OF _ r]) simp
  then show ?thesis unfolding r by (auto simp: list_enq_def)
qed

text \<open>Every operation keeps the write index below the size of the ring, the lock and the list.\<close>

lemma enqueue_grows:
  assumes "ulWriteIndx q < 64" and "of_MsgEnqueue b t m q = (ok, q')"
  shows "ulWriteIndx q' < 64 \<and> lock_depth q' = lock_depth q
    \<and> (MsgList q' = MsgList q \<or> MsgList q' = MsgList q @ [m])"
  using assms by (auto simp: of_MsgEnqueue_def enqueue_at_def lock_def unlock_def Let_def
      OF_MAX_MSGS_IN_RING_def split: if_splits)

lemma dequeue_keeps_list:
  assumes "ulWriteIndx q < 64" and "ring_deq t q = (r, q')"
  shows "ulWriteIndx q' = ulWriteIndx q \<and> lock_depth q' = lock_depth q \<and> MsgList q' = MsgList q"
  using assms by (auto simp: ring_deq_def of_MsgDequeue_def lock_def unlock_def Let_def
      OF_MAX_MSGS_IN_RING_def split: if_splits)

text \<open>
  A message that goes to the linked list because the ring is full never
  leaves it: whatever is enqueued and dequeued afterwards, the list only grows, since the branch of
  the dequeue that reads it needs a write index the ring never has.  The lock is left as it was found.
\<close>

theorem overflow_never_drained:
  assumes "ulWriteIndx q < 64" and "run_ops (of_MsgEnqueue b t) (ring_deq t) ops q = (rs, q')"
  shows "take (length (MsgList q)) (MsgList q') = MsgList q \<and> lock_depth q' = lock_depth q"
proof -
  have "\<exists>ms. MsgList q' = MsgList q @ ms \<and> lock_depth q' = lock_depth q"
    using assms
  proof (induction ops arbitrary: q rs)
    case (Cons op ops)
    show ?case
    proof (cases op)
      case (Enq m)
      obtain ok q1 where e: "of_MsgEnqueue b t m q = (ok, q1)" by fastforce
      obtain rs1 where "run_ops (of_MsgEnqueue b t) (ring_deq t) ops q1 = (rs1, q')"
        using Cons.prems(2) e Enq by (auto split: prod.splits)
      then show ?thesis using Cons.IH enqueue_grows [OF Cons.prems(1) e] by fastforce
    next
      case Deq
      obtain r q1 where e: "ring_deq t q = (r, q1)" by fastforce
      obtain rs1 where "run_ops (of_MsgEnqueue b t) (ring_deq t) ops q1 = (rs1, q')"
        using Cons.prems(2) e Deq by (auto split: prod.splits)
      then show ?thesis using Cons.IH dequeue_keeps_list [OF Cons.prems(1) e] Cons.prems(1) by metis
    qed
  qed simp
  then show ?thesis by auto
qed

definition full_queue :: "nat msg_queue" where
  "full_queue = new_queue\<lparr>ulWriteIndx := 63, ulReadIndx := 0, MsgList := [7]\<rparr>"

lemma overflow_never_drained_witness:
  "take 1 (MsgList (snd (run_ops (of_MsgEnqueue True False) (ring_deq False) (replicate 100 Deq) full_queue)))
     = [7]"
proof -
  have "ulWriteIndx full_queue < 64" "MsgList full_queue = [7]" by (simp_all add: full_queue_def)
  then show ?thesis
    using overflow_never_drained [of full_queue True False "replicate 100 Deq"]
    by (cases "run_ops (of_MsgEnqueue True False) (ring_deq False) (replicate 100 Deq) full_queue")
      simp
qed


text \<open>The first lap, before anything is dequeued: the ring fills from slot zero.\<close>

definition first_lap :: "'m list \<Rightarrow> 'm msg_queue" where
  "first_lap ms = \<lparr>ulWriteIndx = int (length ms) - 1, ulReadIndx = -1,
     pMsgData = map Some ms @ replicate (64 - length ms) None, MsgList = [], lock_depth = 0\<rparr>"

lemma first_lap_enqueue:
  assumes "length ms < 64"
  shows "of_MsgEnqueue b t m (first_lap ms) = (True, first_lap (ms @ [m]))"
proof -
  have "64 - length ms = Suc (63 - length ms)" using assms by simp
  then have "(map Some ms @ replicate (64 - length ms) None)[length ms := Some m]
      = map Some (ms @ [m]) @ replicate (64 - length (ms @ [m])) None"
    by (simp add: list_update_append)
  then show ?thesis
    using assms by (simp add: of_MsgEnqueue_def enqueue_at_def next_write_index_def first_lap_def
        uint32_def OF_MAX_MSGS_IN_RING_def lock_def unlock_def Let_def)
qed

lemma first_lap_run:
  "length (ms @ ns) \<le> 64 \<Longrightarrow>
     run_ops (of_MsgEnqueue b t) (ring_deq t) (map Enq ns) (first_lap ms)
       = (replicate (length ns) (Queued True), first_lap (ms @ ns))"
proof (induction ns arbitrary: ms)
  case (Cons n ns)
  then show ?case using Cons.IH [of "ms @ [n]"] first_lap_enqueue [of ms b t n] by simp
qed simp

lemma run_ops_append:
  "run_ops enq deq (xs @ ys) s =
     (let (rs, s) = run_ops enq deq xs s; (rs', s) = run_ops enq deq ys s in (rs @ rs', s))"
proof (induction xs arbitrary: s)
  case (Cons x xs)
  then show ?case by (cases x) (simp_all split: prod.splits)
qed simp

text \<open>
  If the first dequeue comes after 65 messages, the queue has reported every
  enqueue as a success, but delivers only the last message and is then empty: with the read index
  still \<open>-1\<close>, which compares as \<open>0xffffffff\<close>, the full ring is taken to have room and is wrapped.
\<close>

theorem first_lap_lost:
  fixes ms :: "'m list"
  assumes "length ms = 64"
  shows "fst (run_ops (of_MsgEnqueue b t) (ring_deq t) (map Enq ms @ [Enq m, Deq, Deq]) new_queue)
    = replicate 65 (Queued True) @ [Got (Some m), Got None]"
proof -
  let ?q = "first_lap ms"
  have "new_queue = first_lap (take 0 ms)" by (simp add: new_queue_def first_lap_def OF_MAX_MSGS_IN_RING_def)
  then have run: "run_ops (of_MsgEnqueue b t) (ring_deq t) (map Enq ms) new_queue
      = (replicate 64 (Queued True), ?q)"
    using first_lap_run [of "take 0 ms" ms b t] assms by simp
  let ?q1 = "?q\<lparr>pMsgData := (pMsgData ?q)[0 := Some m], ulWriteIndx := 0\<rparr>"
  have enq: "of_MsgEnqueue b t m ?q = (True, ?q1)"
    using assms by (simp add: of_MsgEnqueue_def enqueue_at_def next_write_index_def first_lap_def
        uint32_def OF_MAX_MSGS_IN_RING_def lock_def unlock_def Let_def)
  have len: "0 < length (pMsgData ?q)" using assms by (simp add: first_lap_def)
  obtain q2 where deq: "ring_deq t ?q1 = (Some m, q2)" and q2: "ulWriteIndx q2 = 0" "ulReadIndx q2 = 0"
    using len by (simp add: ring_deq_def of_MsgDequeue_def first_lap_def OF_MAX_MSGS_IN_RING_def
        lock_def unlock_def smod_int_alt_def Let_def)
  have "ring_deq t q2 = (None, q2)"
    using q2 by (simp add: ring_deq_def of_MsgDequeue_def OF_MAX_MSGS_IN_RING_def)
  moreover have "replicate 65 (Queued True) = replicate 64 (Queued True) @ [Queued True :: 'm queue_result]"
    using replicate_Suc [of 64 "Queued True :: 'm queue_result"] by (simp add: replicate_append_same)
  ultimately show ?thesis by (simp add: run_ops_append run enq deq)
qed

lemma first_lap_lost_witness:
  "fst (run_ops (of_MsgEnqueue True False) (ring_deq False) (map Enq [0..<64] @ [Enq 64, Deq, Deq]) new_queue)
    = replicate 65 (Queued True) @ [Got (Some (64 :: nat)), Got None]"
  by (rule first_lap_lost) simp

text \<open>
  The next index is computed before the lock is taken: when a second producer
  computes it before the first has stored, both report success and the first message is gone, even
  though each stores under the lock.
\<close>

theorem enqueue_race:
  assumes "ring_inv q" and "ring_count q < 63"
    and "enqueue_at b False (next_write_index q) m1 q = (ok1, q1)"
    and "enqueue_at b False (next_write_index q) m2 q1 = (ok2, q2)"
  shows "ok1 \<and> ok2 \<and> ring_pending q2 = ring_pending q @ [m2]"
proof -
  have e1: "of_MsgEnqueue b False m1 q = (ok1, q1)" using assms(3) by (simp add: of_MsgEnqueue_def)
  obtain ok q' where e2: "of_MsgEnqueue b False m2 q = (ok, q')" by fastforce
  note 1 = ring_enqueue_pending [OF assms(1,2) e1] and 2 = ring_enqueue_pending [OF assms(1,2) e2]
  have "MsgList q1 = MsgList q" using 1 by (simp add: same_rest_def)
  moreover have "ulReadIndx q1 = ulReadIndx q" using ring_enqueue [OF assms(1,2), of b False m1] e1 by auto
  ultimately have "(ok2, q2) = (ok, q')"
    using assms(3,4) e2
    by (auto simp: of_MsgEnqueue_def enqueue_at_def lock_def unlock_def Let_def split: if_splits)
  then show ?thesis using 1 2 by simp
qed


definition sample_queue :: "nat msg_queue" where "sample_queue = new_queue"

lemma sample_queue_inv: "ring_inv sample_queue" "ring_pending sample_queue = []"
  by (simp_all add: sample_queue_def new_queue_inv)

lemma enqueue_race_witness:
  "let q1 = snd (enqueue_at True False (next_write_index sample_queue) (3 :: nat) sample_queue);
       q2 = snd (enqueue_at True False (next_write_index sample_queue) (2 :: nat) q1)
   in ring_pending q2 = [2]"
proof -
  obtain ok1 q1 where e1: "enqueue_at True False (next_write_index sample_queue) (3 :: nat) sample_queue = (ok1, q1)"
    by fastforce
  obtain ok2 q2 where e2: "enqueue_at True False (next_write_index sample_queue) (2 :: nat) q1 = (ok2, q2)"
    by fastforce
  have "ring_count sample_queue < 63"
    by (simp add: sample_queue_def new_queue_def ring_count_def)
  then show ?thesis
    using enqueue_race [OF sample_queue_inv(1) _ e1 e2] by (simp add: e1 e2 sample_queue_inv(2))
qed

end
