(* ===== verification/MatchParse.thy ===== *)
theory MatchParse
  imports MsgBuffer Oxm
begin

text \<open>
  The routines that look for one field in the match of a received message: \<open>ofu_get_in_port_field\<close>,
  \<open>ofu_set_in_port_field_as_controller\<close> and \<open>ofu_get_metadata_field\<close> of \<open>of_msg_utils.c\<close>.  They scan
  memory with a 16 bit count of the bytes that are left; a scan that need not end is a partial
  function, whose result \<open>None\<close> means that it does not return.
\<close>

section \<open>The routines\<close>

definition oxm_header_at :: "memory \<Rightarrow> nat \<Rightarrow> u32" where
  "oxm_header_at m ptr = of_be (read_bytes ptr 4 m)"

definition parsed_data_len :: "memory \<Rightarrow> nat \<Rightarrow> nat" where
  "parsed_data_len m ptr = OF_OXM_HDR_LEN + unat (OXM_LENGTH (oxm_header_at m ptr))"

text \<open>The count that is decremented here is another, unused variable.\<close>

partial_function (option) ofu_get_in_port_field ::
  "memory \<Rightarrow> nat \<Rightarrow> u16 \<Rightarrow> (msg_utilities \<times> u32 option) option" where
  "ofu_get_in_port_field m ptr match_fields_len =
     (if match_fields_len = 0 then Some (OFU_IN_PORT_FIELD_NOT_PRESENT, None)
      else if OXM_FIELD (oxm_header_at m ptr) = OFPXMT_OFB_IN_PORT
      then Some (OFU_IN_PORT_FIELD_PRESENT, Some (of_be (read_bytes (ptr + OF_OXM_HDR_LEN) 4 m)))
      else ofu_get_in_port_field m (ptr + parsed_data_len m ptr) match_fields_len)"

partial_function (option) ofu_set_in_port_field_as_controller ::
  "memory \<Rightarrow> nat \<Rightarrow> u16 \<Rightarrow> (msg_utilities \<times> memory) option" where
  "ofu_set_in_port_field_as_controller m ptr match_field_len =
     (if match_field_len = 0 then Some (OFU_IN_PORT_FIELD_NOT_PRESENT, m)
      else if OXM_FIELD (oxm_header_at m ptr) = OFPXMT_OFB_IN_PORT
      then Some (OFU_SET_FIELD_SUCCESS, write_bytes (ptr + OF_OXM_HDR_LEN) (be32 OFPP_CONTROLLER) m)
      else ofu_set_in_port_field_as_controller m (ptr + parsed_data_len m ptr)
             (match_field_len - of_nat (parsed_data_len m ptr)))"

partial_function (option) ofu_get_metadata_field ::
  "memory \<Rightarrow> nat \<Rightarrow> u16 \<Rightarrow> (msg_utilities \<times> u64 option) option" where
  "ofu_get_metadata_field m ptr match_fields_len =
     (if match_fields_len = 0 then Some (OFU_IN_META_DATA_NOT_PRESENT, None)
      else if OXM_FIELD (oxm_header_at m ptr) = OFPXMT_OFB_METADATA
      then Some (OFU_IN_META_DATA_PRESENT, Some (of_be (read_bytes (ptr + OF_OXM_HDR_LEN) 8 m)))
      else ofu_get_metadata_field m (ptr + parsed_data_len m ptr)
             (match_fields_len - of_nat (parsed_data_len m ptr)))"

section \<open>One TLV in memory\<close>

lemma oxm_header_fields:
  "OXM_FIELD (of_be [0x80, 0, x, y]) = ucast (drop_bit 1 x)"
  "OXM_LENGTH (of_be [0x80, 0, x, y]) = ucast y"
proof -
  have m: "(0x7f :: u32) = mask 7" "(0xff :: u32) = mask 8" by (simp_all add: mask_eq_exp_minus_1)
  show "OXM_FIELD (of_be [0x80, 0, x, y]) = ucast (drop_bit 1 x)"
    unfolding OXM_FIELD_def m of_be_def
    by (rule bit_word_eqI) (auto simp: bit_simps dest: bit_imp_le_length,
      auto simp: less_Suc_eq numeral_eq_Suc)
  show "OXM_LENGTH (of_be [0x80, 0, x, y]) = ucast y"
    unfolding OXM_LENGTH_def m of_be_def
    by (rule bit_word_eqI) (auto simp: bit_simps dest: bit_imp_le_length,
      auto simp: less_Suc_eq numeral_eq_Suc)
qed

definition holds :: "memory \<Rightarrow> nat \<Rightarrow> u8 list \<Rightarrow> bool" where
  "holds m p bs \<longleftrightarrow> read_bytes p (length bs) m = bs"

lemma holds_written [simp]: "holds (write_bytes p bs m) p bs"
  by (simp add: holds_def read_write_same)

lemma holds_append: "holds m p (xs @ ys) \<longleftrightarrow> holds m p xs \<and> holds m (p + length xs) ys"
  by (auto simp: holds_def read_bytes_split)

lemma holds_oxm:
  assumes "holds m p (oxm_bytes t)" and "wf_oxm t"
  shows "OXM_FIELD (oxm_header_at m p) = of_nat (oxm_field t)"
    and "parsed_data_len m p = length (oxm_bytes t)"
    and "holds m (p + 4) (oxm_value t)"
proof -
  obtain f b n bd where bytes: "oxm_bytes t = oxm_header_bytes f b n @ bd"
    and f: "f = oxm_field t" "f < 128" "n = length bd" "n < 256" "\<exists>k. bd = oxm_value t @ k"
    using assms(2) by (cases t rule: wf_oxm.cases) auto
  define x where "x = (of_nat (2 * f + (if b then 1 else 0)) :: u8)"
  have x: "unat x = 2 * f + (if b then 1 else 0)" unfolding x_def using f(2) by (subst unat_of_nat_u8) auto
  have hd: "oxm_header_bytes f b n = [0x80, 0, x, of_nat n]" by (simp add: oxm_header_bytes_def x_def)
  have h: "holds m p (oxm_header_bytes f b n)" "holds m (p + 4) bd"
    using assms(1) unfolding bytes by (simp_all add: holds_append)
  have at: "oxm_header_at m p = of_be [0x80, 0, x, of_nat n]"
    using h(1) by (simp add: oxm_header_at_def holds_def) (simp add: hd)
  have "unat (drop_bit 1 x) = f" unfolding unat_drop_bit_eq by (simp add: x drop_bit_eq_div)
  then have "ucast (drop_bit 1 x) = (of_nat f :: u32)" by (metis of_nat_unat)
  then show "OXM_FIELD (oxm_header_at m p) = of_nat (oxm_field t)"
    by (simp add: at oxm_header_fields f(1))
  have "unat (ucast (of_nat n :: u8) :: u32) = n" using f(4) by (simp add: unsigned_ucast_eq take_bit_nat_eq_self)
  then show "parsed_data_len m p = length (oxm_bytes t)"
    by (simp add: parsed_data_len_def at oxm_header_fields OF_OXM_HDR_LEN_def bytes f(3))
  show "holds m (p + 4) (oxm_value t)" using h(2) f(5) by (auto simp: holds_append)
qed

text \<open>A write next to known bytes is a write of those bytes too.\<close>

lemma holds_nth: "holds m p bs \<Longrightarrow> p \<le> x \<Longrightarrow> x < p + length bs \<Longrightarrow> m x = bs ! (x - p)"
  unfolding holds_def read_bytes_def by (metis add_diff_inverse_nat add_less_cancel_left length_map
      length_upt nth_map nth_upt not_less)

lemma holds_prepend: "holds m p as \<Longrightarrow> write_bytes (p + length as) bs m = write_bytes p (as @ bs) m"
  using holds_nth [of m p as] by (auto simp: write_bytes_def nth_append fun_eq_iff)

lemma holds_extend:
  assumes "holds m (p + length bs) cs"
  shows "write_bytes p bs m = write_bytes p (bs @ cs) m"
  using holds_nth [OF assms] by (auto simp: write_bytes_def nth_append fun_eq_iff)

text \<open>The fields the three routines look for, in a match given as data.\<close>

definition find_field :: "nat \<Rightarrow> oxm list \<Rightarrow> oxm option" where
  "find_field f ts = List.find (\<lambda>t. oxm_field t = f) ts"

lemma find_field_simps [simp]:
  "find_field f [] = None"
  "find_field f (t # ts) = (if oxm_field t = f then Some t else find_field f ts)"
  by (simp_all add: find_field_def)

lemma field_number:
  assumes "wf_oxm t"
  shows "(of_nat (oxm_field t) :: u32) = OFPXMT_OFB_IN_PORT \<longleftrightarrow> oxm_field t = 0"
    and "(of_nat (oxm_field t) :: u32) = OFPXMT_OFB_METADATA \<longleftrightarrow> oxm_field t = 2"
proof -
  have "unat (of_nat (oxm_field t) :: u32) = oxm_field t"
    using assms by (cases t rule: wf_oxm.cases) (simp_all add: unat_of_nat take_bit_nat_eq_self)
  then show "(of_nat (oxm_field t) :: u32) = OFPXMT_OFB_IN_PORT \<longleftrightarrow> oxm_field t = 0"
    "(of_nat (oxm_field t) :: u32) = OFPXMT_OFB_METADATA \<longleftrightarrow> oxm_field t = 2"
    by (auto simp: OFPXMT_OFB_IN_PORT_def OFPXMT_OFB_METADATA_def unsigned_word_eqI)
qed

lemma holds_encoding_step:
  assumes "holds m p (encoding oxm_bytes (t # ts))" and "wf_oxm t"
  shows "holds m (p + 4) (oxm_value t)"
    and "holds m (p + parsed_data_len m p) (encoding oxm_bytes ts)"
    and "OXM_FIELD (oxm_header_at m p) = of_nat (oxm_field t)"
    and "parsed_data_len m p = length (oxm_bytes t)"
  using assms holds_oxm [of m p t] by (simp_all add: holds_append)

section \<open>What the routines find in a match\<close>

text \<open>
  The metadata search run on a match in memory, with the length of the match,
  returns; it gives the value of the first metadata field, and reports the field as missing exactly
  when the match has none.
\<close>

theorem metadata_found:
  assumes "holds m p (encoding oxm_bytes ts)" and "\<forall>t \<in> set ts. wf_oxm t"
    and "\<forall>t \<in> set ts. oxm_field t = 2 \<longrightarrow> length (oxm_value t) = 8"
    and "length (encoding oxm_bytes ts) < 65536"
  shows "ofu_get_metadata_field m p (of_nat (length (encoding oxm_bytes ts))) =
           Some (case find_field 2 ts of
                   None \<Rightarrow> (OFU_IN_META_DATA_NOT_PRESENT, None)
                 | Some t \<Rightarrow> (OFU_IN_META_DATA_PRESENT, Some (of_be (oxm_value t))))"
  using assms
proof (induction ts arbitrary: p)
  case Nil
  then show ?case by (simp add: ofu_get_metadata_field.simps)
next
  case (Cons t ts)
  note step = holds_encoding_step [OF Cons.prems(1)]
  have wf: "wf_oxm t" using Cons.prems(2) by simp
  let ?n = "of_nat (length (encoding oxm_bytes (t # ts))) :: u16"
  have n: "unat ?n = length (oxm_bytes t) + length (encoding oxm_bytes ts)"
    using Cons.prems(4) by (subst unat_of_nat_u16) auto
  then have "?n \<noteq> 0" using oxm_bytes_length [OF wf] by (metis add_is_0 not_numeral_le_zero unsigned_0)
  moreover have "?n - of_nat (parsed_data_len m p) = of_nat (length (encoding oxm_bytes ts))"
    by (simp add: step(4) [OF wf])
  moreover have "read_bytes (p + OF_OXM_HDR_LEN) 8 m = oxm_value t" if "oxm_field t = 2"
    using step(1) [OF wf] Cons.prems(3) that by (simp add: holds_def OF_OXM_HDR_LEN_def)
  ultimately show ?case
    using Cons.IH [OF step(2) [OF wf]] Cons.prems(2-4)
    by (subst ofu_get_metadata_field.simps) (simp add: step(3) [OF wf] field_number(2) [OF wf])
qed

definition sample_match :: "oxm list" where
  "sample_match = [Oxm 5 [8, 0] None, Oxm 2 [0, 0, 0, 0, 0, 0, 0, 7] None]"

lemma sample_match [simp]:
  "length (encoding oxm_bytes sample_match) = 18" "\<forall>t \<in> set sample_match. wf_oxm t"
  "\<forall>t \<in> set sample_match. oxm_field t = 2 \<longrightarrow> length (oxm_value t) = 8"
  "find_field 2 sample_match = Some (Oxm 2 [0, 0, 0, 0, 0, 0, 0, 7] None)"
  "find_field 0 sample_match = None"
  by (simp_all add: sample_match_def)

lemma metadata_found_witness:
  "ofu_get_metadata_field (write_bytes 100 (encoding oxm_bytes sample_match) (\<lambda>_. 0)) 100 18 =
     Some (OFU_IN_META_DATA_PRESENT, Some (of_be [0, 0, 0, 0, 0, 0, 0, 7]))"
  using metadata_found [of "write_bytes 100 (encoding oxm_bytes sample_match) (\<lambda>_. 0)" 100 sample_match]
  by simp

lemma in_port_step:
  assumes "holds m p (encoding oxm_bytes (t # ts))" and "wf_oxm t" and "n \<noteq> 0"
  shows "ofu_get_in_port_field m p n =
           (if oxm_field t = 0
            then Some (OFU_IN_PORT_FIELD_PRESENT, Some (of_be (read_bytes (p + 4) 4 m)))
            else ofu_get_in_port_field m (p + parsed_data_len m p) n)"
  using assms holds_encoding_step(3) [OF assms(1,2)]
  by (subst ofu_get_in_port_field.simps) (simp add: field_number(1) OF_OXM_HDR_LEN_def)

lemma in_port_scan:
  assumes "holds m p (encoding oxm_bytes ts)" and "\<forall>t \<in> set ts. wf_oxm t" and "n \<noteq> 0"
    and "\<forall>t \<in> set ts. oxm_field t = 0 \<longrightarrow> length (oxm_value t) = 4"
  shows "ofu_get_in_port_field m p n =
           (case find_field 0 ts of
              None \<Rightarrow> ofu_get_in_port_field m (p + length (encoding oxm_bytes ts)) n
            | Some t \<Rightarrow> Some (OFU_IN_PORT_FIELD_PRESENT, Some (of_be (oxm_value t))))"
  using assms(1,2,4)
proof (induction ts arbitrary: p)
  case (Cons t ts)
  note step = holds_encoding_step [OF Cons.prems(1)]
  have wf: "wf_oxm t" using Cons.prems(2) by simp
  have "read_bytes (p + 4) 4 m = oxm_value t" if "oxm_field t = 0"
    using step(1) [OF wf] Cons.prems(3) that by (simp add: holds_def)
  then show ?case
    using Cons.IH [OF step(2) [OF wf]] Cons.prems(2,3)
    by (simp add: in_port_step [OF Cons.prems(1) wf assms(3)] step(4) [OF wf] add.assoc
        split: option.splits)
qed simp

text \<open>
  When the match of a message has an ingress port, the search for it returns
  the value of the first such field, whatever length other than 0 it is called with.
\<close>

theorem in_port_found:
  assumes "holds m p (encoding oxm_bytes ts)" and "\<forall>t \<in> set ts. wf_oxm t" and "n \<noteq> 0"
    and "\<forall>t \<in> set ts. oxm_field t = 0 \<longrightarrow> length (oxm_value t) = 4"
    and "find_field 0 ts = Some t"
  shows "ofu_get_in_port_field m p n = Some (OFU_IN_PORT_FIELD_PRESENT, Some (of_be (oxm_value t)))"
  using in_port_scan [OF assms(1-4)] assms(5) by simp

definition port_match :: "oxm list" where
  "port_match = [Oxm 5 [8, 0] None, Oxm 0 (be32 9) None]"

lemma port_match_length: "length (encoding oxm_bytes port_match) = 14"
  by (simp add: port_match_def)

lemma in_port_found_witness:
  "ofu_get_in_port_field (write_bytes 100 (encoding oxm_bytes port_match) (\<lambda>_. 0)) 100 14 =
     Some (OFU_IN_PORT_FIELD_PRESENT, Some 9)"
  using in_port_found [of "write_bytes 100 (encoding oxm_bytes port_match) (\<lambda>_. 0)" 100 port_match 14
      "Oxm 0 (be32 9) None"]
  by (simp only: holds_written) (simp add: port_match_def)

text \<open>
  The search never decrements the count of bytes that are left.  In a match
  without an ingress port it goes on behind the match, it never reports the field as missing, and
  when the bytes behind the match are zero it takes them for the header of an ingress port and
  returns the four bytes after them as the port.
\<close>

theorem in_port_past_match:
  assumes "holds m p (encoding oxm_bytes ts)" and "\<forall>t \<in> set ts. wf_oxm t" and "n \<noteq> 0"
    and "find_field 0 ts = None" and "zeros (p + length (encoding oxm_bytes ts)) 4 m"
  shows "ofu_get_in_port_field m p n =
           Some (OFU_IN_PORT_FIELD_PRESENT,
                 Some (of_be (read_bytes (p + length (encoding oxm_bytes ts) + 4) 4 m)))"
proof -
  have absent: "\<forall>t \<in> set ts. oxm_field t \<noteq> 0"
    using assms(4) by (simp add: find_field_def find_None_iff)
  let ?q = "p + length (encoding oxm_bytes ts)"
  have "oxm_header_at m ?q = of_be [0, 0, 0, 0]"
    using read_zeros [OF assms(5)] by (simp add: oxm_header_at_def zero_pads)
  then have "OXM_FIELD (oxm_header_at m ?q) = OFPXMT_OFB_IN_PORT"
    by (simp add: OXM_FIELD_def of_be_def OFPXMT_OFB_IN_PORT_def)
  moreover have "ofu_get_in_port_field m p n = ofu_get_in_port_field m ?q n"
    using in_port_scan [OF assms(1-3)] absent assms(4) by simp
  ultimately show ?thesis
    using assms(3) ofu_get_in_port_field.simps [of m ?q n] by (simp add: OF_OXM_HDR_LEN_def)
qed

lemma in_port_past_match_witness:
  "ofu_get_in_port_field (write_bytes 100 (encoding oxm_bytes sample_match) (\<lambda>_. 0)) 100 18 =
     Some (OFU_IN_PORT_FIELD_PRESENT, Some 0)"
proof -
  let ?m = "write_bytes 100 (encoding oxm_bytes sample_match) (\<lambda>_. 0)"
  have "zeros (100 + length (encoding oxm_bytes sample_match)) 4 ?m"
    by (simp add: zeros_def write_bytes_def)
  moreover have "read_bytes 122 4 ?m = replicate 4 0"
    by (rule read_zeros) (simp add: zeros_def write_bytes_def)
  then have "of_be (read_bytes 122 4 ?m) = (0 :: u32)" by (simp add: zero_pads of_be_def)
  ultimately show ?thesis
    using in_port_past_match [of ?m 100 sample_match 18] by simp
qed

text \<open>A count other than zero is never exhausted, so a missing port is never reported.\<close>

lemma in_port_never_missing:
  assumes "ofu_get_in_port_field m p n = Some (r, v)" and "n \<noteq> 0"
  shows "r = OFU_IN_PORT_FIELD_PRESENT"
proof -
  have "n \<noteq> 0 \<longrightarrow> fst (r, v) = OFU_IN_PORT_FIELD_PRESENT"
    by (rule ofu_get_in_port_field.raw_induct [OF _ assms(1)]) (auto split: if_splits)
  then show ?thesis using assms(2) by simp
qed

section \<open>Redirecting a packet to the controller\<close>

text \<open>
  When the match has an ingress port without a mask, the routine that points
  it at the controller returns, and leaves in memory the same match with the first ingress port
  replaced; no byte outside the four of its value changes.
\<close>

theorem in_port_replaced:
  assumes "holds m p (encoding oxm_bytes (pre @ Oxm 0 v None # post))"
    and "\<forall>t \<in> set pre. wf_oxm t \<and> oxm_field t \<noteq> 0" and "length v = 4"
    and "length (encoding oxm_bytes (pre @ Oxm 0 v None # post)) < 65536"
  shows "ofu_set_in_port_field_as_controller m p
             (of_nat (length (encoding oxm_bytes (pre @ Oxm 0 v None # post)))) =
           Some (OFU_SET_FIELD_SUCCESS,
             write_bytes p (encoding oxm_bytes (pre @ Oxm 0 (be32 OFPP_CONTROLLER) None # post)) m)"
  using assms(1,2,4)
proof (induction pre arbitrary: p)
  case Nil
  let ?e = "encoding oxm_bytes post" and ?c = "be32 OFPP_CONTROLLER"
  have wf: "wf_oxm (Oxm 0 v None)" using assms(3) by simp
  have h: "holds m p (oxm_header_bytes 0 False 4)" "holds m (p + 4 + length ?c) ?e"
    using Nil.prems(1) assms(3) by (simp_all add: holds_append add.assoc)
  have "write_bytes (p + 4) ?c m = write_bytes p (oxm_header_bytes 0 False 4 @ ?c @ ?e) m"
    using holds_prepend [OF h(1), of "?c @ ?e"] holds_extend [OF h(2)] by simp
  moreover have "(of_nat (8 + length ?e) :: u16) \<noteq> 0"
    using Nil.prems(3) assms(3) unat_of_nat_u16 [of "8 + length ?e"] by force
  ultimately show ?case
    using holds_encoding_step(3) [OF Nil.prems(1) [simplified append_Nil] wf] assms(3)
    by (subst ofu_set_in_port_field_as_controller.simps)
      (simp add: OFPXMT_OFB_IN_PORT_def OF_OXM_HDR_LEN_def)
next
  case (Cons t pre)
  have wf: "wf_oxm t" and f: "oxm_field t \<noteq> 0" using Cons.prems(2) by simp_all
  note step = holds_encoding_step [OF Cons.prems(1) [simplified append_Cons] wf]
  let ?ts = "pre @ Oxm 0 v None # post"
  let ?n = "of_nat (length (encoding oxm_bytes (t # ?ts))) :: u16"
  have "unat ?n = length (oxm_bytes t) + length (encoding oxm_bytes ?ts)"
    using Cons.prems(3) by (subst unat_of_nat_u16) auto
  then have n: "?n \<noteq> 0" using oxm_bytes_length [OF wf] by (metis add_is_0 not_numeral_le_zero unsigned_0)
  have "?n - of_nat (parsed_data_len m p) = of_nat (length (encoding oxm_bytes ?ts))"
    by (simp add: step(4))
  then have "ofu_set_in_port_field_as_controller m p ?n =
      ofu_set_in_port_field_as_controller m (p + length (oxm_bytes t))
        (of_nat (length (encoding oxm_bytes ?ts)))"
    using n step(3) f field_number(1) [OF wf] step(4)
    by (subst ofu_set_in_port_field_as_controller.simps) simp
  moreover have "holds m p (oxm_bytes t)" using Cons.prems(1) by (simp add: holds_append)
  ultimately show ?case
    using Cons.IH [OF step(2)] Cons.prems(2,3) by (simp add: step(4) holds_prepend)
qed

lemma in_port_replaced_witness:
  "ofu_set_in_port_field_as_controller (write_bytes 100 (encoding oxm_bytes port_match) (\<lambda>_. 0)) 100 14 =
     Some (OFU_SET_FIELD_SUCCESS,
       write_bytes 100 (encoding oxm_bytes [Oxm 5 [8, 0] None, Oxm 0 (be32 OFPP_CONTROLLER) None])
         (write_bytes 100 (encoding oxm_bytes port_match) (\<lambda>_. 0)))"
proof -
  let ?m = "write_bytes 100 (encoding oxm_bytes port_match) (\<lambda>_. 0)"
  have "port_match = [Oxm 5 [8, 0] None] @ Oxm 0 (be32 9) None # []" by (simp add: port_match_def)
  then show ?thesis
    using in_port_replaced [of ?m 100 "[Oxm 5 [8, 0] None]" "be32 9" "[]"] port_match_length
    by simp
qed

end
