(* ===== verification/Mchash.thy ===== *)
theory Mchash
  imports Prelude
begin

text \<open>
  The hash table with safe references: \<open>utils/mchash.c\<close> and the macros of \<open>include/mchash.h\<close>.  A
  bucket is a doubly linked list through the nodes of the application; an array of entries maps a
  safe reference, an index and a magic number, to a node; the free entries form a queue.  An
  application node and the link in it have one name, a number, and the store of links is part of
  the state, since the macros update the links of neighbouring nodes in place.
\<close>

section \<open>The table\<close>

text \<open>\<open>Head k\<close> is the address of the list head in bucket \<open>k\<close>, \<open>Link n\<close> that of the link in node \<open>n\<close>.\<close>

datatype dll_ptr = Null | Head nat | Link nat

record table_link =
  lk_prev :: dll_ptr
  lk_next :: dll_ptr
  lk_index :: nat
  lk_key :: nat

record indirect_entry =
  en_prev :: "nat option"
  en_next :: "nat option"
  en_magic :: u32
  en_node :: "nat option"

record bucket =
  bk_prev :: dll_ptr
  bk_next :: dll_ptr
  bk_count :: u32
  bk_prefetch :: "dll_ptr list"

record table =
  links :: "nat \<Rightarrow> table_link"
  bucket_list :: "bucket list"
  indirection :: "indirect_entry list"
  free_prev :: "nat option"
  free_next :: "nat option"
  active_nodes :: u32
  magic_no :: u32
  rcu_freed :: "nat list"

definition MCHASH_MAX_HASHBUCKET_CACHE_NODES :: nat where "MCHASH_MAX_HASHBUCKET_CACHE_NODES = 10"

definition mchash_table_create :: "nat \<Rightarrow> nat \<Rightarrow> (nat \<Rightarrow> table_link) \<Rightarrow> table" where
  "mchash_table_create buckets max_nodes L =
     \<lparr>links = L,
      bucket_list = replicate buckets \<lparr>bk_prev = Null, bk_next = Null, bk_count = 0,
        bk_prefetch = replicate MCHASH_MAX_HASHBUCKET_CACHE_NODES Null\<rparr>,
      indirection = map (\<lambda>ii. \<lparr>en_prev = (if ii \<noteq> 0 then Some (ii - 1) else None),
        en_next = (if ii \<noteq> max_nodes - 1 then Some (ii + 1) else None),
        en_magic = 0, en_node = None\<rparr>) [0..<max_nodes],
      free_prev = Some (max_nodes - 1), free_next = Some 0,
      active_nodes = 0, magic_no = 1, rcu_freed = []\<rparr>"

text \<open>Deletion is refused while nodes are active.\<close>

definition mchash_table_delete :: "table \<Rightarrow> bool" where
  "mchash_table_delete t \<longleftrightarrow> active_nodes t = 0"

section \<open>Links\<close>

definition upd_bucket :: "nat \<Rightarrow> (bucket \<Rightarrow> bucket) \<Rightarrow> table \<Rightarrow> table" where
  "upd_bucket k f t = t\<lparr>bucket_list := (bucket_list t)[k := f (bucket_list t ! k)]\<rparr>"

definition upd_link :: "nat \<Rightarrow> (table_link \<Rightarrow> table_link) \<Rightarrow> table \<Rightarrow> table" where
  "upd_link n f t = t\<lparr>links := (links t)(n := f (links t n))\<rparr>"

definition upd_entry :: "nat \<Rightarrow> (indirect_entry \<Rightarrow> indirect_entry) \<Rightarrow> table \<Rightarrow> table" where
  "upd_entry i f t = t\<lparr>indirection := (indirection t)[i := f (indirection t ! i)]\<rparr>"

fun set_next :: "dll_ptr \<Rightarrow> dll_ptr \<Rightarrow> table \<Rightarrow> table" where
  "set_next Null q t = t"
| "set_next (Head k) q t = upd_bucket k (\<lambda>b. b\<lparr>bk_next := q\<rparr>) t"
| "set_next (Link n) q t = upd_link n (\<lambda>l. l\<lparr>lk_next := q\<rparr>) t"

fun set_prev :: "dll_ptr \<Rightarrow> dll_ptr \<Rightarrow> table \<Rightarrow> table" where
  "set_prev Null q t = t"
| "set_prev (Head k) q t = upd_bucket k (\<lambda>b. b\<lparr>bk_prev := q\<rparr>) t"
| "set_prev (Link n) q t = upd_link n (\<lambda>l. l\<lparr>lk_prev := q\<rparr>) t"

fun follow :: "table \<Rightarrow> dll_ptr \<Rightarrow> dll_ptr" where
  "follow t Null = Null"
| "follow t (Head k) = bk_next (bucket_list t ! k)"
| "follow t (Link n) = lk_next (links t n)"

fun prefetch_from :: "table \<Rightarrow> nat \<Rightarrow> dll_ptr \<Rightarrow> dll_ptr list" where
  "prefetch_from t 0 p = []"
| "prefetch_from t (Suc ii) p =
     (if p \<noteq> Null then p # prefetch_from t ii (follow t p) else replicate (Suc ii) Null)"

definition mchash_update_prefetch_nodes :: "nat \<Rightarrow> table \<Rightarrow> table" where
  "mchash_update_prefetch_nodes k t =
     upd_bucket k (\<lambda>b. b\<lparr>bk_prefetch :=
       prefetch_from t MCHASH_MAX_HASHBUCKET_CACHE_NODES (bk_next b)\<rparr>) t"

definition mchash_insert_node_in_middle :: "nat \<Rightarrow> dll_ptr \<Rightarrow> nat \<Rightarrow> dll_ptr \<Rightarrow> table \<Rightarrow> table" where
  "mchash_insert_node_in_middle k prev_p n next_p t =
     (let t = upd_link n (\<lambda>l. l\<lparr>lk_next := next_p, lk_prev := prev_p\<rparr>) t;
          t = set_next (if prev_p = Null then Head k else prev_p) (Link n) t;
          t = set_prev (if next_p = Null then Head k else next_p) (Link n) t;
          t = mchash_update_prefetch_nodes k t
      in upd_bucket k (\<lambda>b. b\<lparr>bk_count := bk_count b + 1\<rparr>) t)"

section \<open>Adding a node\<close>

text \<open>The part the three macros share: an entry leaves the free queue and gets the next magic number.\<close>

definition next_magic :: "u32 \<Rightarrow> u32" where
  "next_magic m = (if m + 1 = 0 then 1 else m + 1)"

definition take_entry :: "nat \<Rightarrow> nat \<Rightarrow> table \<Rightarrow> (nat \<times> u32) \<times> table" where
  "take_entry i n t =
     (let t = t\<lparr>free_next := en_next (indirection t ! i)\<rparr>;
          t = (case free_next t of
                 None \<Rightarrow> t\<lparr>free_prev := None\<rparr>
               | Some j \<Rightarrow> upd_entry j (\<lambda>e. e\<lparr>en_prev := None\<rparr>) t);
          magic = magic_no t;
          t = upd_entry i (\<lambda>e. e\<lparr>en_magic := magic\<rparr>) t;
          t = t\<lparr>magic_no := next_magic magic\<rparr>;
          t = t\<lparr>active_nodes := active_nodes t + 1\<rparr>;
          t = upd_entry i (\<lambda>e. e\<lparr>en_node := Some n\<rparr>) t;
          t = upd_link n (\<lambda>l. l\<lparr>lk_index := i\<rparr>) t
      in ((i, magic), t))"

text \<open>The append counts the node in the bucket once more than the insertion it calls.\<close>

definition MCHASH_APPEND_NODE :: "nat \<Rightarrow> nat \<Rightarrow> table \<Rightarrow> (nat \<times> u32) option \<times> table" where
  "MCHASH_APPEND_NODE keys n t =
     (case free_next t of
        None \<Rightarrow> (None, t)
      | Some i \<Rightarrow>
          let (noderef, t) = take_entry i n t;
              t = mchash_insert_node_in_middle keys (bk_prev (bucket_list t ! keys)) n Null t;
              t = upd_link n (\<lambda>l. l\<lparr>lk_key := keys\<rparr>) t
          in (Some noderef, upd_bucket keys (\<lambda>b. b\<lparr>bk_count := bk_count b + 1\<rparr>) t))"

definition MCHASH_INSERT_NODE_AFTER :: "nat \<Rightarrow> nat \<Rightarrow> nat \<Rightarrow> table \<Rightarrow> (nat \<times> u32) option \<times> table" where
  "MCHASH_INSERT_NODE_AFTER node keys n t =
     (case free_next t of
        None \<Rightarrow> (None, t)
      | Some i \<Rightarrow>
          let (noderef, t) = take_entry i n t;
              t = mchash_insert_node_in_middle keys (Link node) n (lk_next (links t node)) t
          in (Some noderef, upd_link n (\<lambda>l. l\<lparr>lk_key := keys\<rparr>) t))"

definition MCHASH_INSERT_NODE_BEFORE :: "nat \<Rightarrow> nat \<Rightarrow> nat \<Rightarrow> table \<Rightarrow> (nat \<times> u32) option \<times> table" where
  "MCHASH_INSERT_NODE_BEFORE node keys n t =
     (case free_next t of
        None \<Rightarrow> (None, t)
      | Some i \<Rightarrow>
          let (noderef, t) = take_entry i n t;
              t = mchash_insert_node_in_middle keys (lk_prev (links t node)) n (Link node) t
          in (Some noderef, upd_link n (\<lambda>l. l\<lparr>lk_key := keys\<rparr>) t))"

section \<open>Finding a node\<close>

text \<open>The status and, with it, the node pointer.\<close>

definition MCHASH_ACCESS_NODE :: "nat \<Rightarrow> u32 \<Rightarrow> table \<Rightarrow> bool \<times> nat option" where
  "MCHASH_ACCESS_NODE noderef_index noderef_magic t =
     (let noderef_p = indirection t ! noderef_index
      in if noderef_magic = en_magic noderef_p then (True, en_node noderef_p) else (False, None))"

text \<open>With the hash value of the node; \<open>None\<close> when the macro reads it through a null pointer.\<close>

definition MCHASH_ACCESS_NODE_AND_HASHKEY :: "nat \<Rightarrow> u32 \<Rightarrow> table \<Rightarrow> (bool \<times> (nat \<times> nat) option) option" where
  "MCHASH_ACCESS_NODE_AND_HASHKEY noderef_index noderef_magic t =
     (let noderef_p = indirection t ! noderef_index
      in if noderef_magic = en_magic noderef_p then
           (case en_node noderef_p of
              None \<Rightarrow> None
            | Some n \<Rightarrow> Some (True, Some (n, lk_key (links t n))))
         else Some (False, None))"

definition MCHASH_BUCKET_GET_HEAD_NODE :: "nat \<Rightarrow> table \<Rightarrow> nat option" where
  "MCHASH_BUCKET_GET_HEAD_NODE key t =
     (case bk_next (bucket_list t ! key) of Link n \<Rightarrow> Some n | _ \<Rightarrow> None)"

text \<open>A bucket scan visits the nodes from the head on; \<open>fuel\<close> bounds the walk.\<close>

fun scan_from :: "table \<Rightarrow> nat \<Rightarrow> dll_ptr \<Rightarrow> nat list" where
  "scan_from t 0 p = []"
| "scan_from t (Suc fuel) (Link n) = n # scan_from t fuel (lk_next (links t n))"
| "scan_from t (Suc fuel) p = []"

definition MCHASH_BUCKET_SCAN :: "nat \<Rightarrow> nat \<Rightarrow> table \<Rightarrow> nat list" where
  "MCHASH_BUCKET_SCAN fuel key t = scan_from t fuel (bk_next (bucket_list t ! key))"

definition MCHASH_BUCKET_NODE_COUNT :: "nat \<Rightarrow> table \<Rightarrow> u32" where
  "MCHASH_BUCKET_NODE_COUNT keys t = bk_count (bucket_list t ! keys)"

section \<open>Deleting a node\<close>

definition unlink :: "nat \<Rightarrow> nat \<Rightarrow> table \<Rightarrow> table" where
  "unlink k n t =
     (let next_p = lk_next (links t n);
          prev_p = (if lk_prev (links t n) = Null then Head k else lk_prev (links t n));
          t = set_next prev_p next_p t
      in set_prev (if next_p = Null then Head k else next_p) prev_p t)"

definition return_entry :: "nat \<Rightarrow> table \<Rightarrow> table" where
  "return_entry i t =
     (let t = upd_entry i (\<lambda>e. e\<lparr>en_next := None\<rparr>) t;
          t = t\<lparr>active_nodes := active_nodes t - 1\<rparr>
      in case free_prev t of
           Some j \<Rightarrow>
             let t = upd_entry i (\<lambda>e. e\<lparr>en_prev := Some j\<rparr>) t;
                 t = upd_entry j (\<lambda>e. e\<lparr>en_next := Some i\<rparr>) t
             in t\<lparr>free_prev := Some i\<rparr>
         | None \<Rightarrow>
             (upd_entry i (\<lambda>e. e\<lparr>en_prev := None\<rparr>) t)\<lparr>free_prev := Some i, free_next := Some i\<rparr>)"

definition MCHASH_DELETE_NODE :: "nat \<Rightarrow> table \<Rightarrow> bool \<times> table" where
  "MCHASH_DELETE_NODE n t =
     (let k = lk_key (links t n);
          i = lk_index (links t n)
      in if en_node (indirection t ! i) = Some n then
           let t = upd_entry i (\<lambda>e. e\<lparr>en_magic := 0, en_node := None\<rparr>) t;
               t = unlink k n t;
               t = upd_bucket k (\<lambda>b. b\<lparr>bk_count := bk_count b - 1\<rparr>) t;
               t = mchash_update_prefetch_nodes k t;
               t = return_entry i t
           in (True, t\<lparr>rcu_freed := n # rcu_freed t\<rparr>)
         else (False, t))"

text \<open>
  Deletion by reference compares the magic number and finds the bucket before it takes the lock of
  the bucket, and afterwards only asks whether the magic number is zero: two steps, between which
  another thread may run.  The first step gives the node of the entry and its bucket; \<open>None\<close> is a
  mismatch.
\<close>

definition delete_by_ref_check :: "nat \<Rightarrow> u32 \<Rightarrow> table \<Rightarrow> (nat \<times> nat) option option" where
  "delete_by_ref_check i magic t =
     (if magic = en_magic (indirection t ! i)
      then Some (map_option (\<lambda>n. (n, lk_key (links t n))) (en_node (indirection t ! i)))
      else None)"

definition delete_by_ref_locked :: "nat \<Rightarrow> nat \<Rightarrow> nat \<Rightarrow> table \<Rightarrow> bool \<times> table" where
  "delete_by_ref_locked i n k t =
     (if en_magic (indirection t ! i) \<noteq> 0 then
        let t = upd_entry i (\<lambda>e. e\<lparr>en_magic := 0\<rparr>) t;
            t = unlink k n t;
            t = t\<lparr>rcu_freed := n # rcu_freed t\<rparr>;
            t = upd_entry i (\<lambda>e. e\<lparr>en_node := None\<rparr>) t;
            t = upd_bucket k (\<lambda>b. b\<lparr>bk_count := bk_count b - 1\<rparr>) t;
            t = mchash_update_prefetch_nodes k t
        in (True, return_entry i t)
      else (False, t))"

text \<open>Run without interference; \<open>None\<close> when the macro follows the null pointer of a free entry.\<close>

definition MCHASH_DELETE_NODE_BY_REF :: "nat \<Rightarrow> u32 \<Rightarrow> table \<Rightarrow> (bool \<times> table) option" where
  "MCHASH_DELETE_NODE_BY_REF i magic t =
     (case delete_by_ref_check i magic t of
        None \<Rightarrow> Some (False, t)
      | Some None \<Rightarrow> None
      | Some (Some (n, k)) \<Rightarrow> Some (delete_by_ref_locked i n k t))"

section \<open>Doubly linked lists\<close>

text \<open>
  \<open>dll L Q p xs q\<close>: from \<open>p\<close> the next pointers run through \<open>xs\<close> to \<open>q\<close>, and the previous pointer
  of each node is the node before, for the first one a pointer in \<open>Q\<close>.  An empty bucket has been
  seen with both \<open>NULL\<close> and its own head as the previous pointer.
\<close>

fun dll :: "(nat \<Rightarrow> table_link) \<Rightarrow> dll_ptr set \<Rightarrow> dll_ptr \<Rightarrow> nat list \<Rightarrow> dll_ptr \<Rightarrow> bool" where
  "dll L Q p [] q \<longleftrightarrow> p = q"
| "dll L Q p (x # xs) q \<longleftrightarrow>
     p = Link x \<and> lk_prev (L x) \<in> Q \<and> dll L {Link x} (lk_next (L x)) xs q"

definition last_ptr :: "nat \<Rightarrow> nat list \<Rightarrow> dll_ptr set" where
  "last_ptr k xs = (if xs = [] then {Null, Head k} else {Link (last xs)})"

definition first_ptr :: "nat list \<Rightarrow> dll_ptr" where
  "first_ptr xs = (case xs of [] \<Rightarrow> Null | x # _ \<Rightarrow> Link x)"

lemma dll_append:
  "dll L Q p (xs @ ys) q \<longleftrightarrow>
     (\<exists>m. dll L Q p xs m \<and> dll L (if xs = [] then Q else {Link (last xs)}) m ys q)"
  by (induction xs arbitrary: Q p) auto

lemma dll_cong:
  assumes "\<And>x. x \<in> set xs \<Longrightarrow> lk_prev (L' x) = lk_prev (L x) \<and> lk_next (L' x) = lk_next (L x)"
  shows "dll L' Q p xs q = dll L Q p xs q"
  using assms by (induction xs arbitrary: Q p) auto

lemma dll_first: "dll L Q p xs Null \<Longrightarrow> p = first_ptr xs"
  by (cases xs) (auto simp: first_ptr_def)

text \<open>The last node of a segment can be pointed elsewhere, the first one given another predecessor.\<close>

lemma dll_upd_other [simp]: "n \<notin> set xs \<Longrightarrow> dll (L(n := v)) Q p xs q = dll L Q p xs q"
  by (rule dll_cong) auto

lemma dll_upd_last:
  "dll L Q p (xs @ [x]) q \<Longrightarrow> x \<notin> set xs \<Longrightarrow> dll (L(x := (L x)\<lparr>lk_next := r\<rparr>)) Q p (xs @ [x]) r"
  by (simp add: dll_append)

lemma dll_upd_first:
  "dll L Q p (y # ys) q \<Longrightarrow> y \<notin> set ys \<Longrightarrow> r \<in> R \<Longrightarrow> dll (L(y := (L y)\<lparr>lk_prev := r\<rparr>)) R p (y # ys) q"
  by simp

definition bk_ok :: "table \<Rightarrow> nat \<Rightarrow> nat list \<Rightarrow> bool" where
  "bk_ok t k xs \<longleftrightarrow> dll (links t) {Null, Head k} (bk_next (bucket_list t ! k)) xs Null
     \<and> bk_prev (bucket_list t ! k) \<in> last_ptr k xs"

lemmas store_defs = upd_bucket_def upd_link_def upd_entry_def

lemma prefetch_links [simp]:
  "links (mchash_update_prefetch_nodes k t) = links t"
  "k < length (bucket_list t) \<Longrightarrow>
    bk_next (bucket_list (mchash_update_prefetch_nodes k t) ! j) = bk_next (bucket_list t ! j)"
  "k < length (bucket_list t) \<Longrightarrow>
    bk_prev (bucket_list (mchash_update_prefetch_nodes k t) ! j) = bk_prev (bucket_list t ! j)"
  "length (bucket_list (mchash_update_prefetch_nodes k t)) = length (bucket_list t)"
  by (cases "j = k"; simp add: mchash_update_prefetch_nodes_def store_defs)+

lemma insert_bucket:
  assumes "k < length (bucket_list t)" and "bk_ok t k (xs @ ys)" and "distinct (xs @ ys)"
    and "n \<notin> set (xs @ ys)" and "prev_p \<in> last_ptr k xs" and "next_p = first_ptr ys"
  shows "bk_ok (mchash_insert_node_in_middle k prev_p n next_p t) k (xs @ n # ys)"
proof (cases xs rule: rev_cases)
  case Nil
  then show ?thesis
  proof (cases ys)
    case Nil
    then show ?thesis using assms \<open>xs = []\<close>
      by (auto simp: bk_ok_def mchash_insert_node_in_middle_def last_ptr_def first_ptr_def store_defs Let_def)
  next
    case (Cons y ys')
    then show ?thesis using assms \<open>xs = []\<close>
      by (auto simp: bk_ok_def mchash_insert_node_in_middle_def last_ptr_def first_ptr_def store_defs Let_def)
  qed
next
  case (snoc xs' x)
  then show ?thesis
  proof (cases ys)
    case Nil
    then show ?thesis using assms snoc
      by (auto simp: bk_ok_def mchash_insert_node_in_middle_def last_ptr_def first_ptr_def store_defs Let_def
          dll_append)
  next
    case (Cons y ys')
    then show ?thesis using assms snoc
      by (auto simp: bk_ok_def mchash_insert_node_in_middle_def last_ptr_def first_ptr_def store_defs Let_def
          dll_append)
  qed
qed

lemma unlink_bucket:
  assumes "k < length (bucket_list t)" and "bk_ok t k (xs @ n # ys)" and "distinct (xs @ n # ys)"
  shows "bk_ok (unlink k n t) k (xs @ ys)"
proof (cases xs rule: rev_cases)
  case Nil
  then show ?thesis using assms
    by (cases ys) (auto simp: bk_ok_def unlink_def last_ptr_def store_defs Let_def)
next
  case (snoc xs' x)
  then show ?thesis using assms
    by (cases ys) (auto simp: bk_ok_def unlink_def last_ptr_def store_defs Let_def dll_append)
qed

text \<open>What the list operations leave alone.\<close>

lemma upd_bucket_frame:
  "links (upd_bucket k f t) = links t" "indirection (upd_bucket k f t) = indirection t"
  "free_next (upd_bucket k f t) = free_next t" "free_prev (upd_bucket k f t) = free_prev t"
  "active_nodes (upd_bucket k f t) = active_nodes t" "magic_no (upd_bucket k f t) = magic_no t"
  "rcu_freed (upd_bucket k f t) = rcu_freed t"
  "length (bucket_list (upd_bucket k f t)) = length (bucket_list t)"
  "j \<noteq> k \<Longrightarrow> bucket_list (upd_bucket k f t) ! j = bucket_list t ! j"
  "k < length (bucket_list t) \<Longrightarrow> bucket_list (upd_bucket k f t) ! k = f (bucket_list t ! k)"
  "(\<And>b. bk_count (f b) = bk_count b) \<Longrightarrow>
    bk_count (bucket_list (upd_bucket k f t) ! j) = bk_count (bucket_list t ! j)"
  by (cases "j = k \<and> k < length (bucket_list t)"; auto simp: store_defs nth_list_update list_update_beyond)+

lemma upd_link_frame:
  "bucket_list (upd_link n f t) = bucket_list t" "indirection (upd_link n f t) = indirection t"
  "free_next (upd_link n f t) = free_next t" "free_prev (upd_link n f t) = free_prev t"
  "active_nodes (upd_link n f t) = active_nodes t" "magic_no (upd_link n f t) = magic_no t"
  "rcu_freed (upd_link n f t) = rcu_freed t"
  "links (upd_link n f t) x = (if x = n then f (links t n) else links t x)"
  by (simp_all add: store_defs)

lemma upd_entry_frame:
  "bucket_list (upd_entry i g t) = bucket_list t" "links (upd_entry i g t) = links t"
  "free_next (upd_entry i g t) = free_next t" "free_prev (upd_entry i g t) = free_prev t"
  "active_nodes (upd_entry i g t) = active_nodes t" "magic_no (upd_entry i g t) = magic_no t"
  "rcu_freed (upd_entry i g t) = rcu_freed t"
  "length (indirection (upd_entry i g t)) = length (indirection t)"
  "j \<noteq> i \<Longrightarrow> indirection (upd_entry i g t) ! j = indirection t ! j"
  "i < length (indirection t) \<Longrightarrow> indirection (upd_entry i g t) ! i = g (indirection t ! i)"
  by (simp_all add: store_defs)

lemmas upd_frame [simp] = upd_bucket_frame upd_link_frame upd_entry_frame

lemma set_ptr_frame [simp]:
  "indirection (set_next p q t) = indirection t" "indirection (set_prev p q t) = indirection t"
  "free_next (set_next p q t) = free_next t" "free_next (set_prev p q t) = free_next t"
  "free_prev (set_next p q t) = free_prev t" "free_prev (set_prev p q t) = free_prev t"
  "active_nodes (set_next p q t) = active_nodes t" "active_nodes (set_prev p q t) = active_nodes t"
  "magic_no (set_next p q t) = magic_no t" "magic_no (set_prev p q t) = magic_no t"
  "rcu_freed (set_next p q t) = rcu_freed t" "rcu_freed (set_prev p q t) = rcu_freed t"
  "length (bucket_list (set_next p q t)) = length (bucket_list t)"
  "length (bucket_list (set_prev p q t)) = length (bucket_list t)"
  "lk_index (links (set_next p q t) x) = lk_index (links t x)"
  "lk_index (links (set_prev p q t) x) = lk_index (links t x)"
  "lk_key (links (set_next p q t) x) = lk_key (links t x)"
  "lk_key (links (set_prev p q t) x) = lk_key (links t x)"
  "bk_count (bucket_list (set_next p q t) ! j) = bk_count (bucket_list t ! j)"
  "bk_count (bucket_list (set_prev p q t) ! j) = bk_count (bucket_list t ! j)"
  by (cases p; simp)+

lemma set_ptr_other:
  "p \<noteq> Link x \<Longrightarrow> links (set_next p q t) x = links t x"
  "p \<noteq> Link x \<Longrightarrow> links (set_prev p q t) x = links t x"
  "p \<noteq> Head j \<Longrightarrow> bucket_list (set_next p q t) ! j = bucket_list t ! j"
  "p \<noteq> Head j \<Longrightarrow> bucket_list (set_prev p q t) ! j = bucket_list t ! j"
  by (cases p; auto)+

lemma prefetch_frame [simp]:
  "indirection (mchash_update_prefetch_nodes k t) = indirection t"
  "free_next (mchash_update_prefetch_nodes k t) = free_next t"
  "free_prev (mchash_update_prefetch_nodes k t) = free_prev t"
  "active_nodes (mchash_update_prefetch_nodes k t) = active_nodes t"
  "magic_no (mchash_update_prefetch_nodes k t) = magic_no t"
  "rcu_freed (mchash_update_prefetch_nodes k t) = rcu_freed t"
  "j \<noteq> k \<Longrightarrow> bucket_list (mchash_update_prefetch_nodes k t) ! j = bucket_list t ! j"
  "bk_count (bucket_list (mchash_update_prefetch_nodes k t) ! j) = bk_count (bucket_list t ! j)"
  by (simp_all add: mchash_update_prefetch_nodes_def)

text \<open>
  The two list operations touch one bucket, and in the links only the pointers of its nodes:
  \<open>list_step k N t t'\<close>, where \<open>N\<close> are the nodes whose links may change.
\<close>

definition list_step :: "nat \<Rightarrow> nat set \<Rightarrow> table \<Rightarrow> table \<Rightarrow> bool" where
  "list_step k N t t' \<longleftrightarrow>
     (\<forall>x. x \<notin> N \<longrightarrow> links t' x = links t x) \<and> (\<forall>j. j \<noteq> k \<longrightarrow> bucket_list t' ! j = bucket_list t ! j)
     \<and> (\<forall>x. lk_index (links t' x) = lk_index (links t x)) \<and> (\<forall>x. lk_key (links t' x) = lk_key (links t x))
     \<and> length (bucket_list t') = length (bucket_list t) \<and> indirection t' = indirection t
     \<and> free_next t' = free_next t \<and> free_prev t' = free_prev t
     \<and> active_nodes t' = active_nodes t \<and> magic_no t' = magic_no t \<and> rcu_freed t' = rcu_freed t"

lemma list_step_trans: "list_step k N t t' \<Longrightarrow> list_step k N t' t'' \<Longrightarrow> list_step k N t t''"
  by (simp add: list_step_def)

definition in_bucket :: "nat \<Rightarrow> nat set \<Rightarrow> dll_ptr \<Rightarrow> bool" where
  "in_bucket k N p \<longleftrightarrow> (case p of Null \<Rightarrow> True | Head j \<Rightarrow> j = k | Link x \<Rightarrow> x \<in> N)"

lemma list_step_basic:
  "in_bucket k N p \<Longrightarrow> list_step k N t (set_next p q t)"
  "in_bucket k N p \<Longrightarrow> list_step k N t (set_prev p q t)"
  "list_step k N t (mchash_update_prefetch_nodes k t)"
  "list_step k N t (upd_bucket k f t)"
  "n \<in> N \<Longrightarrow> (\<And>l. lk_index (g l) = lk_index l \<and> lk_key (g l) = lk_key l) \<Longrightarrow> list_step k N t (upd_link n g t)"
  by (auto simp: list_step_def in_bucket_def intro!: set_ptr_other split: dll_ptr.splits)

lemma in_bucket_ptrs:
  "q \<in> last_ptr k xs \<Longrightarrow> set xs \<subseteq> N \<Longrightarrow> in_bucket k N q"
  "set xs \<subseteq> N \<Longrightarrow> in_bucket k N (first_ptr xs)"
  "in_bucket k N (Head k)"
  by (auto simp: in_bucket_def last_ptr_def first_ptr_def split: if_splits list.splits)

lemma unlink_step:
  assumes "bk_ok t k (xs @ n # ys)"
  shows "list_step k (set (xs @ ys)) t (unlink k n t)"
proof -
  have "lk_prev (links t n) \<in> last_ptr k xs" "lk_next (links t n) = first_ptr ys"
    using assms by (auto simp: bk_ok_def dll_append last_ptr_def first_ptr_def dest: dll_first split: if_splits)
  then have "in_bucket k (set (xs @ ys)) (lk_prev (links t n))" "in_bucket k (set (xs @ ys)) (lk_next (links t n))"
    by (auto intro: in_bucket_ptrs)
  then show ?thesis
    unfolding unlink_def Let_def
    by - (rule list_step_trans [OF list_step_basic(1) list_step_basic(2)], simp_all add: in_bucket_ptrs(3))
qed

lemma insert_step:
  assumes "prev_p \<in> last_ptr k xs" and "next_p = first_ptr ys"
  shows "list_step k (set (xs @ n # ys)) t (mchash_insert_node_in_middle k prev_p n next_p t)"
proof -
  have "in_bucket k (set (xs @ n # ys)) prev_p" "in_bucket k (set (xs @ n # ys)) next_p"
    using assms by (auto intro: in_bucket_ptrs)
  then show ?thesis
    unfolding mchash_insert_node_in_middle_def Let_def
    by - (rule list_step_trans [OF list_step_basic(5) list_step_trans [OF list_step_basic(1)
          list_step_trans [OF list_step_basic(2) list_step_trans [OF list_step_basic(3) list_step_basic(4)]]]],
      simp_all add: in_bucket_ptrs(3))
qed

lemma count_insert:
  "k < length (bucket_list t) \<Longrightarrow>
    bk_count (bucket_list (mchash_insert_node_in_middle k p n q t) ! j) =
      bk_count (bucket_list t ! j) + (if j = k then 1 else 0)"
  by (cases "j = k") (simp_all add: mchash_insert_node_in_middle_def Let_def)

lemma count_unlink: "bk_count (bucket_list (unlink k n t) ! j) = bk_count (bucket_list t ! j)"
  by (simp add: unlink_def Let_def)

section \<open>Entries\<close>

fun free_chain :: "indirect_entry list \<Rightarrow> nat option \<Rightarrow> nat list \<Rightarrow> bool" where
  "free_chain E p [] \<longleftrightarrow> p = None"
| "free_chain E p (i # is) \<longleftrightarrow> p = Some i \<and> free_chain E (en_next (E ! i)) is"

lemma free_chain_cong:
  assumes "\<And>i. i \<in> set is \<Longrightarrow> en_next (E' ! i) = en_next (E ! i)"
  shows "free_chain E' p is = free_chain E p is"
  using assms by (induction "is" arbitrary: p) auto

definition entries_ok :: "table \<Rightarrow> nat set \<Rightarrow> nat list \<Rightarrow> bool" where
  "entries_ok t N fq \<longleftrightarrow>
     free_chain (indirection t) (free_next t) fq
     \<and> free_prev t = (if fq = [] then None else Some (last fq)) \<and> distinct fq
     \<and> (\<forall>i \<in> set fq. i < length (indirection t) \<and> en_magic (indirection t ! i) = 0
           \<and> en_node (indirection t ! i) = None)
     \<and> (\<forall>i < length (indirection t). i \<notin> set fq \<longrightarrow>
           (\<exists>n \<in> N. en_node (indirection t ! i) = Some n) \<and> en_magic (indirection t ! i) \<noteq> 0)
     \<and> (\<forall>n \<in> N. lk_index (links t n) < length (indirection t)
           \<and> en_node (indirection t ! lk_index (links t n)) = Some n)
     \<and> (\<forall>i < length (indirection t). \<forall>n. en_node (indirection t ! i) = Some n \<longrightarrow> lk_index (links t n) = i)
     \<and> magic_no t \<noteq> 0"

lemma next_magic_nonzero [simp]: "next_magic m \<noteq> 0"
  by (simp add: next_magic_def)

text \<open>The entry that leaves the queue, and the one that becomes its head.\<close>

definition entries_after :: "nat \<Rightarrow> nat \<Rightarrow> table \<Rightarrow> indirect_entry list" where
  "entries_after i n t =
     (let E = (case en_next (indirection t ! i) of
                 None \<Rightarrow> indirection t
               | Some j \<Rightarrow> (indirection t)[j := (indirection t ! j)\<lparr>en_prev := None\<rparr>])
      in E[i := (E ! i)\<lparr>en_magic := magic_no t, en_node := Some n\<rparr>])"

lemma take_entry_shape:
  assumes "i < length (indirection t)"
  shows "take_entry i n t =
    ((i, magic_no t),
     t\<lparr>free_next := en_next (indirection t ! i),
       free_prev := (if en_next (indirection t ! i) = None then None else free_prev t),
       indirection := entries_after i n t, magic_no := next_magic (magic_no t),
       active_nodes := active_nodes t + 1, links := (links t)(n := (links t n)\<lparr>lk_index := i\<rparr>)\<rparr>)"
  using assms by (simp add: take_entry_def entries_after_def store_defs Let_def split: option.splits)

lemma entries_after_nth:
  assumes "i < length (indirection t)"
  shows "length (entries_after i n t) = length (indirection t)"
    and "en_magic (entries_after i n t ! j) = (if j = i then magic_no t else en_magic (indirection t ! j))"
    and "en_node (entries_after i n t ! j) = (if j = i then Some n else en_node (indirection t ! j))"
    and "en_next (entries_after i n t ! j) = en_next (indirection t ! j)"
proof -
  have n: "en_magic (E[k := (E ! k)\<lparr>en_prev := p\<rparr>] ! j) = en_magic (E ! j)"
    "en_node (E[k := (E ! k)\<lparr>en_prev := p\<rparr>] ! j) = en_node (E ! j)"
    "en_next (E[k := (E ! k)\<lparr>en_prev := p\<rparr>] ! j) = en_next (E ! j)" for E k j p
    by (cases "k = j"; cases "k < length E"; simp add: list_update_beyond)+
  show "length (entries_after i n t) = length (indirection t)"
    by (simp add: entries_after_def Let_def split: option.splits)
  show "en_magic (entries_after i n t ! j) = (if j = i then magic_no t else en_magic (indirection t ! j))"
    using assms by (simp add: entries_after_def Let_def n split: option.splits)
  show "en_node (entries_after i n t ! j) = (if j = i then Some n else en_node (indirection t ! j))"
    using assms by (simp add: entries_after_def Let_def n split: option.splits)
  show "en_next (entries_after i n t ! j) = en_next (indirection t ! j)"
    using assms by (cases "j = i") (simp_all add: entries_after_def Let_def n split: option.splits)
qed

lemma entries_okD:
  assumes "entries_ok t N fq"
  shows "free_chain (indirection t) (free_next t) fq"
    and "free_prev t = (if fq = [] then None else Some (last fq))" and "distinct fq"
    and "i \<in> set fq \<Longrightarrow> i < length (indirection t) \<and> en_magic (indirection t ! i) = 0
           \<and> en_node (indirection t ! i) = None"
    and "i < length (indirection t) \<Longrightarrow> i \<notin> set fq \<Longrightarrow>
           (\<exists>n \<in> N. en_node (indirection t ! i) = Some n) \<and> en_magic (indirection t ! i) \<noteq> 0"
    and "n \<in> N \<Longrightarrow> lk_index (links t n) < length (indirection t)
           \<and> en_node (indirection t ! lk_index (links t n)) = Some n"
    and "magic_no t \<noteq> 0"
  using assms unfolding entries_ok_def by blast+

lemma entries_node:
  assumes "entries_ok t N fq" and "j < length (indirection t)" and "en_node (indirection t ! j) = Some n"
  shows "n \<in> N \<and> lk_index (links t n) = j \<and> j \<notin> set fq"
proof -
  have j: "j \<notin> set fq" using entries_okD(4) [OF assms(1)] assms(3) by fastforce
  then have "n \<in> N" using entries_okD(5) [OF assms(1,2)] assms(3) by auto
  then show ?thesis using assms j unfolding entries_ok_def by blast
qed

lemma index_used: "entries_ok t N fq \<Longrightarrow> n \<in> N \<Longrightarrow> lk_index (links t n) \<notin> set fq"
  by (metis entries_okD(6) entries_node)

lemma take_entry_ok:
  assumes "entries_ok t N (i # fq)" and "n \<notin> N" and "take_entry i n t = (noderef, t')"
  shows "entries_ok t' (insert n N) fq" and "i < length (indirection t)" and "free_next t = Some i"
proof -
  note ok = entries_okD [OF assms(1)]
  show "free_next t = Some i" using ok(1) by simp
  have e: "free_chain (indirection t) (en_next (indirection t ! i)) fq" "i \<notin> set fq" "distinct fq"
    using ok(1,3) by auto
  show i: "i < length (indirection t)" using ok(4) by simp
  have "free_chain (entries_after i n t) (en_next (indirection t ! i)) fq"
    using e(1) by (subst free_chain_cong) (simp_all add: entries_after_nth [OF i])
  moreover have "(if en_next (indirection t ! i) = None then None else free_prev t)
      = (if fq = [] then None else Some (last fq))"
    using e(1) ok(2) by (cases fq) auto
  moreover have "\<forall>j \<in> set fq. j < length (indirection t) \<and> en_magic (entries_after i n t ! j) = 0
      \<and> en_node (entries_after i n t ! j) = None"
    using ok(4) e(2) by (auto simp: entries_after_nth [OF i])
  moreover have "\<forall>j < length (indirection t). j \<notin> set fq \<longrightarrow>
      (\<exists>m \<in> insert n N. en_node (entries_after i n t ! j) = Some m) \<and> en_magic (entries_after i n t ! j) \<noteq> 0"
    using ok(5,7) by (auto simp: entries_after_nth [OF i])
  moreover have N: "lk_index (links t m) \<noteq> i" if "m \<in> N" for m
    using ok(6) [OF that] ok(4) [of i] by auto
  then have "\<forall>m \<in> insert n N. lk_index (((links t)(n := (links t n)\<lparr>lk_index := i\<rparr>)) m) < length (indirection t)
      \<and> en_node (entries_after i n t ! lk_index (((links t)(n := (links t n)\<lparr>lk_index := i\<rparr>)) m)) = Some m"
    using ok(6) i assms(2) by (simp add: entries_after_nth [OF i])
  moreover have "\<forall>j < length (indirection t). \<forall>m. en_node (entries_after i n t ! j) = Some m \<longrightarrow>
      lk_index (((links t)(n := (links t n)\<lparr>lk_index := i\<rparr>)) m) = j"
    using entries_node [OF assms(1)] assms(2) by (simp add: entries_after_nth [OF i]) blast
  ultimately have "entries_ok (snd (take_entry i n t)) (insert n N) fq"
    using e(3) unfolding take_entry_shape [OF i] entries_ok_def
    by (simp add: entries_after_nth(1) [OF i])
  then show "entries_ok t' (insert n N) fq" using assms(3) by simp
qed

definition entries_returned :: "nat \<Rightarrow> table \<Rightarrow> indirect_entry list" where
  "entries_returned i t =
     (case free_prev t of
        None \<Rightarrow> (indirection t)[i := (indirection t ! i)\<lparr>en_next := None, en_prev := None\<rparr>]
      | Some j \<Rightarrow> (let E = (indirection t)[i := (indirection t ! i)\<lparr>en_next := None, en_prev := Some j\<rparr>]
                   in E[j := (E ! j)\<lparr>en_next := Some i\<rparr>]))"

lemma return_entry_shape:
  assumes "i < length (indirection t)"
  shows "return_entry i t =
    t\<lparr>indirection := entries_returned i t, free_prev := Some i,
      free_next := (if free_prev t = None then Some i else free_next t),
      active_nodes := active_nodes t - 1\<rparr>"
  using assms by (simp add: return_entry_def entries_returned_def store_defs Let_def split: option.splits)

lemma entries_returned_nth:
  assumes "i < length (indirection t)" and "\<And>j. free_prev t = Some j \<Longrightarrow> j < length (indirection t) \<and> j \<noteq> i"
  shows "length (entries_returned i t) = length (indirection t)"
    and "en_magic (entries_returned i t ! j) = en_magic (indirection t ! j)"
    and "en_node (entries_returned i t ! j) = en_node (indirection t ! j)"
    and "en_next (entries_returned i t ! j) =
           (if free_prev t = Some j then Some i else if j = i then None else en_next (indirection t ! j))"
proof -
  show "length (entries_returned i t) = length (indirection t)"
    by (simp add: entries_returned_def Let_def split: option.splits)
  show "en_magic (entries_returned i t ! j) = en_magic (indirection t ! j)"
    "en_node (entries_returned i t ! j) = en_node (indirection t ! j)"
    "en_next (entries_returned i t ! j) =
           (if free_prev t = Some j then Some i else if j = i then None else en_next (indirection t ! j))"
    using assms by (cases "j = i"; cases "free_prev t = Some j";
        simp add: entries_returned_def Let_def nth_list_update split: option.splits)+
qed

lemma return_entry_length:
  "i < length (indirection t) \<Longrightarrow> length (indirection (return_entry i t)) = length (indirection t)"
  by (simp add: return_entry_shape) (simp add: entries_returned_def Let_def split: option.splits)

lemma free_chain_append:
  assumes "free_chain E p fq" and "distinct (fq @ [i])"
    and "\<And>j. j \<noteq> i \<Longrightarrow> fq = [] \<or> j \<noteq> last fq \<Longrightarrow> en_next (E' ! j) = en_next (E ! j)"
    and "fq \<noteq> [] \<Longrightarrow> en_next (E' ! last fq) = Some i" and "en_next (E' ! i) = None"
  shows "free_chain E' (if fq = [] then Some i else p) (fq @ [i])"
  using assms(1,2,3,4)
proof (induction fq arbitrary: p)
  case Nil
  then show ?case using assms(5) by simp
next
  case (Cons j fq)
  show ?case
  proof (cases "fq = []")
    case True
    then show ?thesis using Cons.prems assms(5) by simp
  next
    case False
    then have "j \<noteq> last fq" using Cons.prems(2) by auto
    then have "en_next (E' ! j) = en_next (E ! j)"
      using Cons.prems(2,3) False by auto
    then show ?thesis using Cons False by auto
  qed
qed

lemma return_entry_ok:
  assumes "entries_ok t N fq" and "n \<in> N" and "i = lk_index (links t n)"
    and "indirection t' = (indirection t)[i := (indirection t ! i)\<lparr>en_magic := 0, en_node := None\<rparr>]"
    and "free_next t' = free_next t" and "free_prev t' = free_prev t" and "magic_no t' = magic_no t"
    and "\<And>x. lk_index (links t' x) = lk_index (links t x)"
  shows "entries_ok (return_entry i t') (N - {n}) (fq @ [i])"
proof -
  note ok = entries_okD [OF assms(1)]
  have i: "i < length (indirection t)" "en_node (indirection t ! i) = Some n" "i \<notin> set fq"
    using ok(6) [OF assms(2)] index_used [OF assms(1,2)] assms(3) by auto
  have len: "length (indirection t') = length (indirection t)" using assms(4) by simp
  have fp: "j < length (indirection t') \<and> j \<noteq> i" if "free_prev t' = Some j" for j
  proof -
    have "j \<in> set fq" using that assms(6) ok(2) by (auto split: if_splits)
    then show ?thesis using ok(4) i(3) len by auto
  qed
  have i': "i < length (indirection t')" using i(1) len by simp
  note r = entries_returned_nth [OF i' fp]
  let ?E = "entries_returned i t'"
  have m: "en_magic (?E ! j) = (if j = i then 0 else en_magic (indirection t ! j))"
    "en_node (?E ! j) = (if j = i then None else en_node (indirection t ! j))" for j
    using r(2,3) [of j] assms(4) i(1) by (simp_all add: nth_list_update)
  have "free_chain ?E (if fq = [] then Some i else free_next t) (fq @ [i])"
  proof (rule free_chain_append [OF ok(1)])
    show "distinct (fq @ [i])" using ok(3) i(3) by simp
    show "en_next (?E ! j) = en_next (indirection t ! j)" if "j \<noteq> i" "fq = [] \<or> j \<noteq> last fq" for j
      using that r(4) [of j] assms(4,6) ok(2) by auto
    show "en_next (?E ! last fq) = Some i" if "fq \<noteq> []" using that r(4) assms(6) ok(2) by simp
    show "en_next (?E ! i) = None" using r(4) [of i] fp by auto
  qed
  moreover have "\<forall>j \<in> set (fq @ [i]). j < length ?E \<and> en_magic (?E ! j) = 0 \<and> en_node (?E ! j) = None"
    using ok(4) i(1) by (auto simp: m r(1) len)
  moreover have "(\<exists>m \<in> N - {n}. en_node (?E ! j) = Some m) \<and> en_magic (?E ! j) \<noteq> 0"
    if j: "j < length ?E" "j \<notin> set (fq @ [i])" for j
  proof -
    obtain k where k: "k \<in> N" "en_node (indirection t ! j) = Some k" "en_magic (indirection t ! j) \<noteq> 0"
      using ok(5) [of j] j r(1) len by auto
    then have "k \<noteq> n" using entries_node [OF assms(1), of j k] j r(1) len assms(3) by auto
    then show ?thesis using k j by (auto simp: m)
  qed
  moreover have "lk_index (links t m) \<noteq> i" if "m \<in> N - {n}" for m
    using ok(6) [of m] that i(2) by auto
  then have "\<forall>m \<in> N - {n}. lk_index (links t m) < length ?E \<and> en_node (?E ! lk_index (links t m)) = Some m"
    using ok(6) by (simp add: m r(1) len)
  moreover have "\<forall>j < length ?E. \<forall>m. en_node (?E ! j) = Some m \<longrightarrow> lk_index (links t m) = j"
    using entries_node [OF assms(1)] by (simp add: m r(1) len)
  ultimately show ?thesis
    using ok(2,3,7) i(3) assms(5-8) unfolding return_entry_shape [OF i'] entries_ok_def
    by (cases "fq = []") simp_all
qed

section \<open>The invariant of the table\<close>

text \<open>
  \<open>table_ok t bs fq\<close>: bucket \<open>k\<close> is a doubly linked list of the nodes \<open>bs ! k\<close>, each node knows its
  bucket and its entry, the entries that are not in the free queue \<open>fq\<close> belong to one node each, and
  the number of active nodes is right.  No node is in two buckets, since a node has one key.
\<close>

definition table_ok :: "table \<Rightarrow> nat list list \<Rightarrow> nat list \<Rightarrow> bool" where
  "table_ok t bs fq \<longleftrightarrow>
     length (bucket_list t) = length bs
     \<and> (\<forall>k < length bs. bk_ok t k (bs ! k) \<and> distinct (bs ! k) \<and> (\<forall>n \<in> set (bs ! k). lk_key (links t n) = k))
     \<and> entries_ok t (set (concat bs)) fq
     \<and> length fq + sum_list (map length bs) = length (indirection t)
     \<and> active_nodes t = of_nat (sum_list (map length bs))"

lemma set_concat_nth: "set (concat bs) = (\<Union>k < length bs. set (bs ! k))"
proof -
  have "set bs = (!) bs ` {..<length bs}" by (auto simp: set_conv_nth)
  then show ?thesis by simp
qed

lemma split_bucket: "k < length bs \<Longrightarrow> bs ! k = zs \<Longrightarrow> bs = take k bs @ zs # drop (Suc k) bs"
  using id_take_nth_drop [of k bs] by simp

lemma set_concat_insert:
  assumes "k < length bs" and "bs ! k = xs @ ys"
  shows "set (concat (bs[k := xs @ n # ys])) = insert n (set (concat bs))"
  using arg_cong [OF split_bucket [OF assms], of "\<lambda>l. set (concat l)"] assms(1)
  by (auto simp: upd_conv_take_nth_drop)

lemma sum_length_insert:
  "k < length bs \<Longrightarrow> bs ! k = xs @ ys \<Longrightarrow>
    sum_list (map length (bs[k := xs @ n # ys])) = Suc (sum_list (map length bs))"
  using member_le_sum_list [of "length (bs ! k)" "map length bs"]
  by (simp add: map_update sum_list_update)

lemma bk_ok_cong:
  assumes "\<And>x. x \<in> set xs \<Longrightarrow> lk_prev (links t' x) = lk_prev (links t x) \<and> lk_next (links t' x) = lk_next (links t x)"
    and "bk_next (bucket_list t' ! k) = bk_next (bucket_list t ! k)"
    and "bk_prev (bucket_list t' ! k) = bk_prev (bucket_list t ! k)"
  shows "bk_ok t' k xs = bk_ok t k xs"
  using dll_cong [of xs "links t'" "links t"] assms by (simp add: bk_ok_def)

lemma entries_ok_cong:
  assumes "indirection t' = indirection t" and "free_next t' = free_next t" and "free_prev t' = free_prev t"
    and "magic_no t' = magic_no t" and "\<And>x. lk_index (links t' x) = lk_index (links t x)"
  shows "entries_ok t' N fq = entries_ok t N fq"
  using assms by (simp add: entries_ok_def)

lemma table_okD:
  assumes "table_ok t bs fq" and "k < length bs"
  shows "bk_ok t k (bs ! k)" and "distinct (bs ! k)" and "n \<in> set (bs ! k) \<Longrightarrow> lk_key (links t n) = k"
    and "k < length (bucket_list t)" and "set (bs ! k) \<subseteq> set (concat bs)"
  using assms unfolding table_ok_def set_concat_nth by auto

lemma table_ok_count:
  assumes "\<And>b. bk_next (f b) = bk_next b \<and> bk_prev (f b) = bk_prev b" and "k < length (bucket_list t)"
  shows "table_ok (upd_bucket k f t) bs fq = table_ok t bs fq"
proof -
  have "bk_ok (upd_bucket k f t) j xs = bk_ok t j xs" for j xs
    using assms by (cases "j = k") (simp_all add: bk_ok_def)
  moreover have "entries_ok (upd_bucket k f t) N fq = entries_ok t N fq" for N
    by (rule entries_ok_cong) simp_all
  ultimately show ?thesis by (simp add: table_ok_def)
qed

lemma insert_table:
  assumes ok: "table_ok t bs (i # fq)" and k: "k < length bs" "bs ! k = xs @ ys"
    and n: "n \<notin> set (concat bs)" and t1: "take_entry i n t = (r, t1)"
    and p: "prev_p \<in> last_ptr k xs" "next_p = first_ptr ys"
    and t2: "t2 = mchash_insert_node_in_middle k prev_p n next_p t1"
    and t3: "t3 = upd_link n (\<lambda>l. l\<lparr>lk_key := k\<rparr>) t2"
  shows "table_ok t3 (bs[k := xs @ n # ys]) fq"
proof -
  have E: "entries_ok t (set (concat bs)) (i # fq)" and len: "length (bucket_list t) = length bs"
    and act: "active_nodes t = of_nat (sum_list (map length bs))"
    using ok by (auto simp: table_ok_def)
  note e1 = take_entry_ok [OF E n t1]
  have s1: "links t1 = (links t)(n := (links t n)\<lparr>lk_index := i\<rparr>)" "bucket_list t1 = bucket_list t"
    "active_nodes t1 = active_nodes t + 1"
    using t1 take_entry_shape [OF e1(2), of n] by auto
  have step: "list_step k (set (xs @ n # ys)) t1 t2" unfolding t2 by (rule insert_step [OF p])
  have nk: "n \<notin> set (bs ! j)" if "j < length bs" for j using n table_okD(5) [OF ok that] by auto
  have b1: "bk_ok t1 j (bs ! j)" if "j < length bs" for j
    using table_okD(1) [OF ok that] by (subst bk_ok_cong [of _ _ t]) (simp_all add: s1)
  have "bk_ok t2 k (xs @ n # ys)"
    unfolding t2 using b1 [OF k(1)] nk [OF k(1)] table_okD(2) [OF ok k(1)] k len p
    by (intro insert_bucket) (simp_all add: s1)
  then have bk: "bk_ok t3 k (xs @ n # ys)"
    by (subst bk_ok_cong [of _ _ t2]) (simp_all add: t3)
  have other: "bk_ok t3 j (bs ! j)" if j: "j < length bs" "j \<noteq> k" for j
  proof -
    have "x \<notin> set (xs @ n # ys)" if "x \<in> set (bs ! j)" for x
      using table_okD(3) [OF ok j(1) that] table_okD(3) [OF ok k(1), of x] nk [OF j(1)] that j(2) k(2) by auto
    then have "bk_ok t3 j (bs ! j) = bk_ok t1 j (bs ! j)"
      using step j(2) by (intro bk_ok_cong) (auto simp: t3 list_step_def)
    then show ?thesis using b1 [OF j(1)] by simp
  qed
  have key: "lk_key (links t3 x) = j" if "j < length bs" "x \<in> set ((bs[k := xs @ n # ys]) ! j)" for j x
    using that table_okD(3) [OF ok, of j x] step k nk [of j]
    by (auto simp: t3 s1 list_step_def nth_list_update split: if_splits)
  have "entries_ok t3 (insert n (set (concat bs))) fq"
    using e1(1) step by (subst entries_ok_cong [of _ t1]) (auto simp: t3 list_step_def)
  moreover have "distinct (xs @ n # ys)"
    using table_okD(2) [OF ok k(1)] nk [OF k(1)] k(2) by auto
  moreover have "length (bucket_list t3) = length bs" "active_nodes t3 = active_nodes t + 1"
    using step len by (simp_all add: t3 list_step_def s1)
  moreover have "bk_ok t3 j ((bs[k := xs @ n # ys]) ! j) \<and> distinct ((bs[k := xs @ n # ys]) ! j)"
    if "j < length bs" for j
    using that bk other table_okD(2) [OF ok that] \<open>distinct (xs @ n # ys)\<close> k(1) by (cases "j = k") simp_all
  moreover have "length fq + Suc (sum_list (map length bs)) = length (indirection t3)"
    using ok step t1 take_entry_shape [OF e1(2), of n] entries_after_nth(1) [OF e1(2)]
    by (auto simp: table_ok_def t3 list_step_def)
  ultimately show ?thesis
    using key act unfolding table_ok_def set_concat_insert [OF k] sum_length_insert [OF k] by simp
qed

lemma update_same: "bs ! k = zs \<Longrightarrow> bs[k := zs] = bs"
  by auto

lemma set_concat_delete:
  assumes "k < length bs" and "bs ! k = xs @ n # ys" and "n \<notin> set (xs @ ys)"
    and "\<And>j. j < length bs \<Longrightarrow> j \<noteq> k \<Longrightarrow> n \<notin> set (bs ! j)"
  shows "set (concat (bs[k := xs @ ys])) = set (concat bs) - {n}"
proof -
  have "set (concat bs) = insert n (set (concat (bs[k := xs @ ys])))"
    using set_concat_insert [of k "bs[k := xs @ ys]" xs ys n] assms(1) update_same [OF assms(2)] by simp
  moreover have "n \<notin> set (concat (bs[k := xs @ ys]))"
    using assms unfolding set_concat_nth by (auto simp: nth_list_update split: if_splits)
  ultimately show ?thesis by auto
qed

lemma sum_length_delete:
  "k < length bs \<Longrightarrow> bs ! k = xs @ n # ys \<Longrightarrow>
    sum_list (map length bs) = Suc (sum_list (map length (bs[k := xs @ ys])))"
  using sum_length_insert [of k "bs[k := xs @ ys]" xs ys n] update_same [of bs k] by simp

text \<open>Both deletions do this, in a slightly different order.\<close>

definition delete_node :: "nat \<Rightarrow> nat \<Rightarrow> nat \<Rightarrow> table \<Rightarrow> table" where
  "delete_node i n k t =
     return_entry i (mchash_update_prefetch_nodes k (upd_bucket k (\<lambda>b. b\<lparr>bk_count := bk_count b - 1\<rparr>)
       (unlink k n (upd_entry i (\<lambda>e. e\<lparr>en_magic := 0, en_node := None\<rparr>) t))))"

lemma delete_table:
  assumes ok: "table_ok t bs fq" and k: "k < length bs" "bs ! k = xs @ n # ys"
    and i: "i = lk_index (links t n)"
  shows "table_ok (delete_node i n k t) (bs[k := xs @ ys]) (fq @ [i])"
proof -
  define t1 where "t1 = upd_entry i (\<lambda>e. e\<lparr>en_magic := 0, en_node := None\<rparr>) t"
  define t2 where "t2 = unlink k n t1"
  define t3 where "t3 = mchash_update_prefetch_nodes k (upd_bucket k (\<lambda>b. b\<lparr>bk_count := bk_count b - 1\<rparr>) t2)"
  have E: "entries_ok t (set (concat bs)) fq" and len: "length (bucket_list t) = length bs"
    and act: "active_nodes t = of_nat (sum_list (map length bs))"
    using ok by (auto simp: table_ok_def)
  have d: "distinct (xs @ n # ys)" using table_okD(2) [OF ok k(1)] k(2) by simp
  have nk: "n \<notin> set (bs ! j)" if "j < length bs" "j \<noteq> k" for j
    using table_okD(3) [OF ok that(1), of n] table_okD(3) [OF ok k(1), of n] that(2) k(2) by auto
  have nN: "n \<in> set (concat bs)" using table_okD(5) [OF ok k(1)] k(2) by auto
  have il: "i < length (indirection t)" using entries_okD(6) [OF E nN] i by simp
  have b1: "bk_ok t1 j (bs ! j)" if "j < length bs" for j
    using table_okD(1) [OF ok that] by (subst bk_ok_cong [of _ _ t]) (simp_all add: t1_def)
  have step: "list_step k (set (xs @ ys)) t1 t2"
    unfolding t2_def using b1 [OF k(1)] k(2) by (intro unlink_step) simp
  have s3: "list_step k (set (xs @ ys)) t1 t3" unfolding t3_def
    by (rule list_step_trans [OF step list_step_trans [OF list_step_basic(4) list_step_basic(3)]])
  have "bk_ok t2 k (xs @ ys)"
    unfolding t2_def using b1 [OF k(1)] k len d by (intro unlink_bucket) (simp_all add: t1_def)
  then have bk: "bk_ok t3 k (xs @ ys)"
    using k len step by (subst bk_ok_cong [of _ _ t2]) (simp_all add: t3_def list_step_def t1_def)
  have other: "bk_ok t3 j (bs ! j)" if j: "j < length bs" "j \<noteq> k" for j
  proof -
    have "x \<notin> set (xs @ ys)" if "x \<in> set (bs ! j)" for x
      using table_okD(3) [OF ok j(1) that] table_okD(3) [OF ok k(1), of x] j(2) k(2) by auto
    then have "bk_ok t3 j (bs ! j) = bk_ok t1 j (bs ! j)"
      using s3 j(2) by (intro bk_ok_cong) (auto simp: list_step_def)
    then show ?thesis using b1 [OF j(1)] by simp
  qed
  have key: "lk_key (links t3 x) = j" if "j < length bs" "x \<in> set ((bs[k := xs @ ys]) ! j)" for j x
    using that table_okD(3) [OF ok, of j x] s3 k
    by (auto simp: t1_def list_step_def nth_list_update split: if_splits)
  have e: "entries_ok (return_entry i t3) (set (concat bs) - {n}) (fq @ [i])"
    using s3 by (intro return_entry_ok [OF E nN i]) (auto simp: list_step_def t1_def store_defs)
  have il3: "i < length (indirection t3)" using il s3 by (simp add: list_step_def t1_def)
  have r: "links (return_entry i t3) = links t3" "bucket_list (return_entry i t3) = bucket_list t3"
    "active_nodes (return_entry i t3) = active_nodes t - 1"
    using s3 by (simp_all add: return_entry_shape [OF il3] list_step_def t1_def)
  have "bk_ok (return_entry i t3) j ((bs[k := xs @ ys]) ! j) \<and> distinct ((bs[k := xs @ ys]) ! j)"
    if "j < length bs" for j
    using that bk other table_okD(2) [OF ok that] d k(1) bk_ok_cong [of _ "return_entry i t3" t3 j] r
    by (cases "j = k") simp_all
  moreover have cnt: "length (indirection (return_entry i t3)) = length fq + sum_list (map length bs)"
    using ok s3 return_entry_length [OF il3] by (simp add: table_ok_def list_step_def t1_def)
  ultimately have "table_ok (return_entry i t3) (bs[k := xs @ ys]) (fq @ [i])"
    using key e act r len s3 set_concat_delete [OF k] nk d sum_length_delete [OF k] il3 cnt
    unfolding table_ok_def by (simp add: list_step_def t1_def)
  then show ?thesis by (simp add: delete_node_def t1_def t2_def t3_def)
qed

section \<open>The operations\<close>

text \<open>What the three macros that add a node have in common.\<close>

definition add_between :: "nat \<Rightarrow> nat \<Rightarrow> dll_ptr \<Rightarrow> nat \<Rightarrow> dll_ptr \<Rightarrow> table \<Rightarrow> table" where
  "add_between i k p n q t =
     upd_link n (\<lambda>l. l\<lparr>lk_key := k\<rparr>) (mchash_insert_node_in_middle k p n q (snd (take_entry i n t)))"

lemma add_between_table:
  assumes ok: "table_ok t bs (i # fq)" and k: "k < length bs" "bs ! k = xs @ ys"
    and n: "n \<notin> set (concat bs)" and p: "p \<in> last_ptr k xs" "q = first_ptr ys"
  shows "table_ok (add_between i k p n q t) (bs[k := xs @ n # ys]) fq"
    and "take_entry i n t = ((i, magic_no t), snd (take_entry i n t))"
    and "indirection (add_between i k p n q t) = entries_after i n t"
    and "magic_no (add_between i k p n q t) = next_magic (magic_no t)"
    and "rcu_freed (add_between i k p n q t) = rcu_freed t"
    and "i < length (indirection t)" and "free_next t = Some i"
    and "length (bucket_list (add_between i k p n q t)) = length (bucket_list t)"
    and "bk_count (bucket_list (add_between i k p n q t) ! j)
           = bk_count (bucket_list t ! j) + (if j = k then 1 else 0)"
    and "fst (take_entry i n t) = (i, magic_no t)"
    and "lk_index (links (add_between i k p n q t) x) = (if x = n then i else lk_index (links t x))"
proof -
  let ?t1 = "snd (take_entry i n t)"
  have E: "entries_ok t (set (concat bs)) (i # fq)" using ok by (simp add: table_ok_def)
  note e = take_entry_ok [OF E n prod.collapse [symmetric]]
  show t1: "take_entry i n t = ((i, magic_no t), ?t1)" by (simp add: take_entry_shape [OF e(2)])
  show "fst (take_entry i n t) = (i, magic_no t)" by (simp add: take_entry_shape [OF e(2)])
  have l1: "lk_index (links ?t1 x) = (if x = n then i else lk_index (links t x))"
    by (simp add: take_entry_shape [OF e(2)])
  have s1: "bucket_list ?t1 = bucket_list t" "indirection ?t1 = entries_after i n t"
    "magic_no ?t1 = next_magic (magic_no t)" "rcu_freed ?t1 = rcu_freed t"
    by (simp_all add: take_entry_shape [OF e(2)])
  have kl: "k < length (bucket_list t)" using table_okD(4) [OF ok k(1)] .
  have st: "list_step k (set (xs @ n # ys)) ?t1 (mchash_insert_node_in_middle k p n q ?t1)"
    by (rule insert_step [OF p])
  show "table_ok (add_between i k p n q t) (bs[k := xs @ n # ys]) fq"
    by (rule insert_table [OF ok k n t1 p refl]) (simp add: add_between_def)
  show "indirection (add_between i k p n q t) = entries_after i n t"
    "magic_no (add_between i k p n q t) = next_magic (magic_no t)"
    "rcu_freed (add_between i k p n q t) = rcu_freed t"
    "length (bucket_list (add_between i k p n q t)) = length (bucket_list t)"
    using st s1 by (simp_all add: add_between_def list_step_def)
  show "i < length (indirection t)" "free_next t = Some i" by (rule e(2), rule e(3))
  show "bk_count (bucket_list (add_between i k p n q t) ! j)
           = bk_count (bucket_list t ! j) + (if j = k then 1 else 0)"
    using kl s1(1) by (simp add: add_between_def count_insert)
  show "lk_index (links (add_between i k p n q t) x) = (if x = n then i else lk_index (links t x))"
    using st l1 by (cases "x = n") (simp_all add: add_between_def list_step_def)
qed

lemma append_table:
  assumes ok: "table_ok t bs (i # fq)" and k: "k < length bs" and n: "n \<notin> set (concat bs)"
  obtains t' where "MCHASH_APPEND_NODE k n t = (Some (i, magic_no t), t')"
    and "table_ok t' (bs[k := bs ! k @ [n]]) fq"
    and "indirection t' = entries_after i n t" and "magic_no t' = next_magic (magic_no t)"
    and "i < length (indirection t)" and "rcu_freed t' = rcu_freed t"
    and "\<And>j. bk_count (bucket_list t' ! j) = bk_count (bucket_list t ! j) + (if j = k then 2 else 0)"
    and "\<And>x. lk_index (links t' x) = (if x = n then i else lk_index (links t x))"
proof -
  let ?p = "bk_prev (bucket_list t ! k)"
  let ?t' = "upd_bucket k (\<lambda>b. b\<lparr>bk_count := bk_count b + 1\<rparr>) (add_between i k ?p n Null t)"
  have p: "?p \<in> last_ptr k (bs ! k)" using table_okD(1) [OF ok k] by (simp add: bk_ok_def)
  have nul: "Null = first_ptr []" by (simp add: first_ptr_def)
  have bk: "bs ! k = bs ! k @ []" by simp
  note a = add_between_table [OF ok k bk n p nul]
  have b: "bucket_list (snd (take_entry i n t)) = bucket_list t" by (simp add: take_entry_shape [OF a(6)])
  have kl: "k < length (bucket_list (add_between i k ?p n Null t))" using a(8) table_okD(4) [OF ok k] by simp
  have "table_ok ?t' (bs[k := bs ! k @ [n]]) fq"
    using a(1) by (subst table_ok_count) (simp_all add: kl)
  moreover have "MCHASH_APPEND_NODE k n t = (Some (i, magic_no t), ?t')"
    using a(7,10) b by (simp add: MCHASH_APPEND_NODE_def add_between_def Let_def case_prod_beta)
  moreover have "bk_count (bucket_list ?t' ! j) = bk_count (bucket_list t ! j) + (if j = k then 2 else 0)" for j
    using kl a(9) [of j] by (cases "j = k") simp_all
  ultimately show thesis using that a(3-6,11) by simp
qed

lemma insert_after_table:
  assumes ok: "table_ok t bs (i # fq)" and k: "k < length bs" "bs ! k = xs @ x # ys"
    and n: "n \<notin> set (concat bs)"
  obtains t' where "MCHASH_INSERT_NODE_AFTER x k n t = (Some (i, magic_no t), t')"
    and "table_ok t' (bs[k := xs @ x # n # ys]) fq"
    and "indirection t' = entries_after i n t" and "magic_no t' = next_magic (magic_no t)"
    and "i < length (indirection t)" and "rcu_freed t' = rcu_freed t"
    and "\<And>j. bk_count (bucket_list t' ! j) = bk_count (bucket_list t ! j) + (if j = k then 1 else 0)"
    and "\<And>x. lk_index (links t' x) = (if x = n then i else lk_index (links t x))"
proof -
  have p: "Link x \<in> last_ptr k (xs @ [x])" by (simp add: last_ptr_def)
  have q: "lk_next (links t x) = first_ptr ys"
    using table_okD(1) [OF ok k(1)] k(2) by (auto simp: bk_ok_def dll_append dest: dll_first)
  have bk: "bs ! k = (xs @ [x]) @ ys" using k(2) by simp
  note a = add_between_table [OF ok k(1) bk n p q]
  have "x \<noteq> n" using table_okD(5) [OF ok k(1)] k(2) n by auto
  then have "links (snd (take_entry i n t)) x = links t x" by (simp add: take_entry_shape [OF a(6)])
  then have "MCHASH_INSERT_NODE_AFTER x k n t
      = (Some (i, magic_no t), add_between i k (Link x) n (lk_next (links t x)) t)"
    using a(7,10) by (simp add: MCHASH_INSERT_NODE_AFTER_def add_between_def Let_def case_prod_beta)
  then show thesis using that a by simp
qed

lemma insert_before_table:
  assumes ok: "table_ok t bs (i # fq)" and k: "k < length bs" "bs ! k = xs @ x # ys"
    and n: "n \<notin> set (concat bs)"
  obtains t' where "MCHASH_INSERT_NODE_BEFORE x k n t = (Some (i, magic_no t), t')"
    and "table_ok t' (bs[k := xs @ n # x # ys]) fq"
    and "indirection t' = entries_after i n t" and "magic_no t' = next_magic (magic_no t)"
    and "i < length (indirection t)" and "rcu_freed t' = rcu_freed t"
    and "\<And>j. bk_count (bucket_list t' ! j) = bk_count (bucket_list t ! j) + (if j = k then 1 else 0)"
    and "\<And>x. lk_index (links t' x) = (if x = n then i else lk_index (links t x))"
proof -
  have p: "lk_prev (links t x) \<in> last_ptr k xs"
    using table_okD(1) [OF ok k(1)] k(2) by (auto simp: bk_ok_def dll_append last_ptr_def split: if_splits)
  have q: "Link x = first_ptr (x # ys)" by (simp add: first_ptr_def)
  note a = add_between_table [OF ok k n p q]
  have "x \<noteq> n" using table_okD(5) [OF ok k(1)] k(2) n by auto
  then have "links (snd (take_entry i n t)) x = links t x" by (simp add: take_entry_shape [OF a(6)])
  then have "MCHASH_INSERT_NODE_BEFORE x k n t
      = (Some (i, magic_no t), add_between i k (lk_prev (links t x)) n (Link x) t)"
    using a(7,10) by (simp add: MCHASH_INSERT_NODE_BEFORE_def add_between_def Let_def case_prod_beta)
  then show thesis using that a by simp
qed

text \<open>With an empty free queue nothing is added.\<close>

lemma full_table:
  assumes "table_ok t bs []"
  shows "MCHASH_APPEND_NODE k n t = (None, t)" and "MCHASH_INSERT_NODE_AFTER x k n t = (None, t)"
    and "MCHASH_INSERT_NODE_BEFORE x k n t = (None, t)"
  using assms
  by (simp_all add: table_ok_def entries_ok_def MCHASH_APPEND_NODE_def MCHASH_INSERT_NODE_AFTER_def
      MCHASH_INSERT_NODE_BEFORE_def)

end
