(* ===== verification/MchashTable.thy ===== *)
theory MchashTable
  imports Mchash Simulation
begin

text \<open>
  The hash table as its users see it: lists of nodes per hash value, and references that stay valid
  exactly as long as their node is in the table.  The operations of \<open>Mchash\<close> refine the lists; the
  references are safe until the magic numbers wrap around; and the cases outside the contract, a
  reference of zeros, two deletions by reference that overlap and the node count of a bucket.
\<close>

section \<open>Deletion\<close>

lemma rcu_table [simp]: "table_ok (t\<lparr>rcu_freed := r\<rparr>) bs fq = table_ok t bs fq"
  by (simp add: table_ok_def entries_ok_def bk_ok_def)

lemma table_node:
  assumes "table_ok t bs fq" and "n \<in> set (concat bs)"
  shows "lk_key (links t n) < length bs" and "n \<in> set (bs ! lk_key (links t n))"
    and "lk_index (links t n) < length (indirection t)"
    and "en_node (indirection t ! lk_index (links t n)) = Some n"
    and "en_magic (indirection t ! lk_index (links t n)) \<noteq> 0"
proof -
  obtain k where k: "k < length bs" "n \<in> set (bs ! k)" using assms(2) unfolding set_concat_nth by auto
  then have "lk_key (links t n) = k" using table_okD(3) [OF assms(1)] by simp
  then show "lk_key (links t n) < length bs" "n \<in> set (bs ! lk_key (links t n))" using k by simp_all
  have E: "entries_ok t (set (concat bs)) fq" using assms(1) by (simp add: table_ok_def)
  show i: "lk_index (links t n) < length (indirection t)"
    "en_node (indirection t ! lk_index (links t n)) = Some n"
    using entries_okD(6) [OF E assms(2)] by simp_all
  show "en_magic (indirection t ! lk_index (links t n)) \<noteq> 0"
    using entries_okD(5) [OF E i(1)] index_used [OF E assms(2)] by simp
qed

lemma table_entry:
  assumes "table_ok t bs fq" and "i < length (indirection t)"
  shows "en_node (indirection t ! i) = Some n \<Longrightarrow> n \<in> set (concat bs) \<and> lk_index (links t n) = i"
    and "en_magic (indirection t ! i) = 0 \<longleftrightarrow> i \<in> set fq"
    and "en_node (indirection t ! i) = None \<longleftrightarrow> i \<in> set fq"
proof -
  have E: "entries_ok t (set (concat bs)) fq" using assms(1) by (simp add: table_ok_def)
  show "en_node (indirection t ! i) = Some n \<Longrightarrow> n \<in> set (concat bs) \<and> lk_index (links t n) = i"
    using entries_node [OF E assms(2)] by blast
  show "en_magic (indirection t ! i) = 0 \<longleftrightarrow> i \<in> set fq"
    using entries_okD(4,5) [OF E] assms(2) by blast
  show "en_node (indirection t ! i) = None \<longleftrightarrow> i \<in> set fq"
    using entries_okD(4,5) [OF E] assms(2) by fastforce
qed

lemma delete_frame:
  assumes ok: "table_ok t bs fq" and n: "n \<in> set (concat bs)"
    and k: "k = lk_key (links t n)" and i: "i = lk_index (links t n)"
  shows "rcu_freed (delete_node i n k t) = rcu_freed t" and "magic_no (delete_node i n k t) = magic_no t"
    and "length (indirection (delete_node i n k t)) = length (indirection t)"
    and "lk_index (links (delete_node i n k t) x) = lk_index (links t x)"
    and "en_magic (indirection (delete_node i n k t) ! j) = (if j = i then 0 else en_magic (indirection t ! j))"
    and "en_node (indirection (delete_node i n k t) ! j) = (if j = i then None else en_node (indirection t ! j))"
    and "bk_count (bucket_list (delete_node i n k t) ! l)
           = bk_count (bucket_list t ! l) - (if l = k then 1 else 0)"
proof -
  define t1 where "t1 = upd_entry i (\<lambda>e. e\<lparr>en_magic := 0, en_node := None\<rparr>) t"
  define t2 where "t2 = unlink k n t1"
  define t3 where "t3 = mchash_update_prefetch_nodes k (upd_bucket k (\<lambda>b. b\<lparr>bk_count := bk_count b - 1\<rparr>) t2)"
  have d: "delete_node i n k t = return_entry i t3" by (simp add: delete_node_def t1_def t2_def t3_def)
  have kl: "k < length bs" "n \<in> set (bs ! k)" using table_node [OF ok n] k by auto
  then obtain xs ys where b: "bs ! k = xs @ n # ys" by (meson split_list)
  have "bk_ok t1 k (bs ! k)"
    using table_okD(1) [OF ok kl(1)] by (subst bk_ok_cong [of _ _ t]) (simp_all add: t1_def)
  then have s2: "list_step k (set (xs @ ys)) t1 t2" unfolding t2_def using b by (intro unlink_step) simp
  have s3: "list_step k (set (xs @ ys)) t1 t3" unfolding t3_def
    by (rule list_step_trans [OF s2 list_step_trans [OF list_step_basic(4) list_step_basic(3)]])
  have il: "i < length (indirection t)" using table_node(3) [OF ok n] i by simp
  have E: "entries_ok t (set (concat bs)) fq" using ok by (simp add: table_ok_def)
  have il3: "i < length (indirection t3)" using s3 il by (simp add: list_step_def t1_def)
  have fp: "j < length (indirection t3) \<and> j \<noteq> i" if "free_prev t3 = Some j" for j
  proof -
    have "j \<in> set fq" using that s3 entries_okD(2) [OF E] by (auto simp: list_step_def t1_def split: if_splits)
    then show ?thesis
      using entries_okD(4) [OF E] index_used [OF E n] s3 i by (auto simp: list_step_def t1_def)
  qed
  note r = entries_returned_nth [OF il3 fp]
  show "rcu_freed (delete_node i n k t) = rcu_freed t" "magic_no (delete_node i n k t) = magic_no t"
    "length (indirection (delete_node i n k t)) = length (indirection t)"
    "lk_index (links (delete_node i n k t) x) = lk_index (links t x)"
    using s3 r(1) by (simp_all add: d return_entry_shape [OF il3] list_step_def t1_def)
  show "en_magic (indirection (delete_node i n k t) ! j) = (if j = i then 0 else en_magic (indirection t ! j))"
    "en_node (indirection (delete_node i n k t) ! j) = (if j = i then None else en_node (indirection t ! j))"
    using s3 r(2,3) [of j] il
    by (cases "j = i"; simp add: d return_entry_shape [OF il3] list_step_def t1_def)+
  have "k < length (bucket_list t2)" using s2 table_okD(4) [OF ok kl(1)] by (simp add: list_step_def t1_def)
  then have "bk_count (bucket_list t3 ! l) = bk_count (bucket_list t2 ! l) - (if l = k then 1 else 0)"
    by (cases "l = k") (simp_all add: t3_def)
  then show "bk_count (bucket_list (delete_node i n k t) ! l)
      = bk_count (bucket_list t ! l) - (if l = k then 1 else 0)"
    by (simp add: d return_entry_shape [OF il3] t2_def t1_def count_unlink)
qed

text \<open>A node of the table is removed and handed to the deferred release; any other is refused.\<close>

lemma delete_op:
  assumes ok: "table_ok t bs fq" and n: "n \<in> set (concat bs)"
  shows "MCHASH_DELETE_NODE n t =
    (True, (delete_node (lk_index (links t n)) n (lk_key (links t n)) t)\<lparr>rcu_freed := n # rcu_freed t\<rparr>)"
  using table_node(4) [OF ok n] delete_frame(1) [OF ok n refl refl]
  unfolding MCHASH_DELETE_NODE_def Let_def by (simp add: delete_node_def)

lemma delete_absent:
  assumes "table_ok t bs fq" and "n \<notin> set (concat bs)" and "lk_index (links t n) < length (indirection t)"
  shows "MCHASH_DELETE_NODE n t = (False, t)"
  using table_entry(1) [OF assms(1,3), of n] assms(2) by (auto simp: MCHASH_DELETE_NODE_def Let_def)

text \<open>Removing a node from the abstract lists.\<close>

lemma removeAll_bucket:
  assumes "table_ok t bs fq" and "k < length bs" and "bs ! k = xs @ n # ys"
  shows "map (removeAll n) bs = bs[k := xs @ ys]"
proof (rule nth_equalityI)
  fix j assume "j < length (map (removeAll n) bs)"
  then have j: "j < length bs" by simp
  show "map (removeAll n) bs ! j = bs[k := xs @ ys] ! j"
  proof (cases "j = k")
    case True
    then show ?thesis using j assms(3) table_okD(2) [OF assms(1,2)] by (simp add: removeAll_id)
  next
    case False
    then have "n \<notin> set (bs ! j)"
      using table_okD(3) [OF assms(1) j, of n] table_okD(3) [OF assms(1,2), of n] assms(3) by auto
    then show ?thesis using j False by (simp add: removeAll_id)
  qed
qed simp

lemma delete_node_table:
  assumes ok: "table_ok t bs fq" and n: "n \<in> set (concat bs)"
  shows "table_ok (snd (MCHASH_DELETE_NODE n t)) (map (removeAll n) bs) (fq @ [lk_index (links t n)])"
proof -
  obtain xs ys where b: "bs ! lk_key (links t n) = xs @ n # ys" by (meson split_list table_node(2) [OF ok n])
  show ?thesis
    unfolding delete_op [OF ok n] removeAll_bucket [OF ok table_node(1) [OF ok n] b]
    using delete_table [OF ok table_node(1) [OF ok n] b refl] by simp
qed

section \<open>Operations and their specification\<close>

datatype mchash_op =
    Append (op_key: nat) (op_node: nat)
  | Insert_After (op_at: nat) (op_key: nat) (op_node: nat)
  | Insert_Before (op_at: nat) (op_key: nat) (op_node: nat)
  | Delete (op_node: nat)

datatype mchash_result = Added "(nat \<times> u32) option" | Deleted bool

fun mchash_exec :: "mchash_op \<Rightarrow> table \<Rightarrow> mchash_result \<times> table" where
  "mchash_exec (Append k n) t = map_prod Added id (MCHASH_APPEND_NODE k n t)"
| "mchash_exec (Insert_After x k n) t = map_prod Added id (MCHASH_INSERT_NODE_AFTER x k n t)"
| "mchash_exec (Insert_Before x k n) t = map_prod Added id (MCHASH_INSERT_NODE_BEFORE x k n t)"
| "mchash_exec (Delete n) t = map_prod Deleted id (MCHASH_DELETE_NODE n t)"

text \<open>Success is all of a result that the specification fixes.\<close>

fun success :: "mchash_result \<Rightarrow> bool" where
  "success (Added r) \<longleftrightarrow> r \<noteq> None"
| "success (Deleted b) \<longleftrightarrow> b"

fun insert_after :: "'a \<Rightarrow> 'a \<Rightarrow> 'a list \<Rightarrow> 'a list" where
  "insert_after x n [] = []"
| "insert_after x n (y # ys) = (if y = x then y # n # ys else y # insert_after x n ys)"

fun insert_before :: "'a \<Rightarrow> 'a \<Rightarrow> 'a list \<Rightarrow> 'a list" where
  "insert_before x n [] = []"
| "insert_before x n (y # ys) = (if y = x then n # y # ys else y # insert_before x n ys)"

text \<open>The specification: one list of nodes per hash value, and room for \<open>m\<close> nodes in all.\<close>

definition list_add :: "nat \<Rightarrow> nat \<Rightarrow> (nat list \<Rightarrow> nat list) \<Rightarrow> nat list list \<Rightarrow> bool \<times> nat list list" where
  "list_add m k f bs =
     (if sum_list (map length bs) < m then (True, bs[k := f (bs ! k)]) else (False, bs))"

fun list_exec :: "nat \<Rightarrow> mchash_op \<Rightarrow> nat list list \<Rightarrow> bool \<times> nat list list" where
  "list_exec m (Append k n) bs = list_add m k (\<lambda>xs. xs @ [n]) bs"
| "list_exec m (Insert_After x k n) bs = list_add m k (insert_after x n) bs"
| "list_exec m (Insert_Before x k n) bs = list_add m k (insert_before x n) bs"
| "list_exec m (Delete n) bs = (n \<in> set (concat bs), map (removeAll n) bs)"

text \<open>
  The caller's side: hash values are in range, a node is not added while it is in the table, and the
  neighbour of an insertion is in the bucket.  Any node may be deleted.
\<close>

fun op_valid :: "mchash_op \<Rightarrow> nat list list \<Rightarrow> bool" where
  "op_valid (Append k n) bs \<longleftrightarrow> k < length bs \<and> n \<notin> set (concat bs)"
| "op_valid (Insert_After x k n) bs \<longleftrightarrow> k < length bs \<and> n \<notin> set (concat bs) \<and> x \<in> set (bs ! k)"
| "op_valid (Insert_Before x k n) bs \<longleftrightarrow> k < length bs \<and> n \<notin> set (concat bs) \<and> x \<in> set (bs ! k)"
| "op_valid (Delete n) bs \<longleftrightarrow> True"

definition lists_of :: "nat \<Rightarrow> table \<Rightarrow> nat list list \<Rightarrow> bool" where
  "lists_of m t bs \<longleftrightarrow>
     (\<exists>fq. table_ok t bs fq) \<and> length (indirection t) = m \<and> (\<forall>x. lk_index (links t x) < m)"

lemma insert_after_split: "x \<notin> set xs \<Longrightarrow> insert_after x n (xs @ x # ys) = xs @ x # n # ys"
  by (induction xs) auto

lemma insert_before_split: "x \<notin> set xs \<Longrightarrow> insert_before x n (xs @ x # ys) = xs @ n # x # ys"
  by (induction xs) auto

fun adds :: "mchash_op \<Rightarrow> bool" where
  "adds (Delete n) \<longleftrightarrow> False"
| "adds _ \<longleftrightarrow> True"

definition count_step :: "mchash_op \<Rightarrow> nat" where
  "count_step op = (case op of Append _ _ \<Rightarrow> 2 | Delete _ \<Rightarrow> 0 | _ \<Rightarrow> 1)"

text \<open>An operation that adds a node finds the table full, or takes an entry from the free queue.\<close>

lemma add_step:
  assumes ok: "table_ok t bs (i # fq)" and v: "op_valid op bs" "adds op"
  obtains t' where "mchash_exec op t = (Added (Some (i, magic_no t)), t')"
    and "table_ok t' (snd (list_exec (length (indirection t)) op bs)) fq"
    and "fst (list_exec (length (indirection t)) op bs)"
    and "indirection t' = entries_after i (op_node op) t" and "magic_no t' = next_magic (magic_no t)"
    and "i < length (indirection t)" and "rcu_freed t' = rcu_freed t"
    and "\<And>j. bk_count (bucket_list t' ! j)
           = bk_count (bucket_list t ! j) + (if j = op_key op then of_nat (count_step op) else 0)"
    and "\<And>x. lk_index (links t' x) = (if x = op_node op then i else lk_index (links t x))"
proof -
  have room: "sum_list (map length bs) < length (indirection t)"
    using ok by (simp add: table_ok_def)
  show thesis
  proof (cases op)
    case (Append k n)
    then have a: "k < length bs" "n \<notin> set (concat bs)" using v by auto
    show ?thesis
      by (rule append_table [OF ok a], rule_tac t' = t' in that)
        (simp_all add: Append list_add_def room count_step_def)
  next
    case (Insert_After x k n)
    then have a: "k < length bs" "n \<notin> set (concat bs)" "x \<in> set (bs ! k)" using v by auto
    then obtain xs ys where b: "bs ! k = xs @ x # ys" by (meson split_list)
    have x: "x \<notin> set xs" using table_okD(2) [OF ok a(1)] b by simp
    show ?thesis
      by (rule insert_after_table [OF ok a(1) b a(2)], rule_tac t' = t' in that)
        (simp_all add: Insert_After list_add_def room count_step_def b insert_after_split [OF x])
  next
    case (Insert_Before x k n)
    then have a: "k < length bs" "n \<notin> set (concat bs)" "x \<in> set (bs ! k)" using v by auto
    then obtain xs ys where b: "bs ! k = xs @ x # ys" by (meson split_list)
    have x: "x \<notin> set xs" using table_okD(2) [OF ok a(1)] b by simp
    show ?thesis
      by (rule insert_before_table [OF ok a(1) b a(2)], rule_tac t' = t' in that)
        (simp_all add: Insert_Before list_add_def room count_step_def b insert_before_split [OF x])
  next
    case (Delete n)
    then show ?thesis using v by simp
  qed
qed

lemma add_full:
  assumes ok: "table_ok t bs []" and v: "adds op"
  shows "mchash_exec op t = (Added None, t)" and "list_exec (length (indirection t)) op bs = (False, bs)"
proof -
  have full: "sum_list (map length bs) = length (indirection t)" using ok by (simp add: table_ok_def)
  show "mchash_exec op t = (Added None, t)" using v by (cases op) (simp_all add: full_table [OF ok])
  show "list_exec (length (indirection t)) op bs = (False, bs)"
    using v full by (cases op) (simp_all add: list_add_def)
qed

lemma exec_refines:
  assumes rel: "lists_of m t bs" and v: "op_valid op bs"
  shows "success (fst (mchash_exec op t)) = fst (list_exec m op bs)
    \<and> lists_of m (snd (mchash_exec op t)) (snd (list_exec m op bs))"
proof -
  obtain fq where ok: "table_ok t bs fq" and m: "length (indirection t) = m"
    and ix: "\<And>x. lk_index (links t x) < m"
    using rel by (auto simp: lists_of_def)
  show ?thesis
  proof (cases "adds op")
    case True
    show ?thesis
    proof (cases fq)
      case Nil
      then have "table_ok t bs []" using ok by simp
      from add_full [OF this True] show ?thesis using rel m by simp
    next
      case (Cons i fq')
      then have ok': "table_ok t bs (i # fq')" using ok by simp
      show ?thesis
        using ix by (rule_tac add_step [OF ok' v True]) (auto simp: lists_of_def m entries_after_nth)
    qed
  next
    case False
    then obtain n where op: "op = Delete n" by (cases op) auto
    show ?thesis
    proof (cases "n \<in> set (concat bs)")
      case True
      have "lists_of m (snd (MCHASH_DELETE_NODE n t)) (map (removeAll n) bs)"
        using delete_node_table [OF ok True] delete_frame [OF ok True refl refl] ix m
        by (auto simp: lists_of_def delete_op [OF ok True])
      then show ?thesis using True by (simp add: op delete_op [OF ok True])
    next
      case False
      have "map (removeAll n) bs = bs" using False by (intro map_idI) (auto simp: removeAll_id)
      then show ?thesis using False rel delete_absent [OF ok False] ix m by (simp add: op)
    qed
  qed
qed

interpretation mch: simulation mchash_exec "list_exec m" op_valid "lists_of m" success for m
  by unfold_locales (rule exec_refines)

lemmas table_defs = mchash_table_create_def MCHASH_APPEND_NODE_def take_entry_def mchash_insert_node_in_middle_def
  mchash_update_prefetch_nodes_def MCHASH_MAX_HASHBUCKET_CACHE_NODES_def store_defs MCHASH_DELETE_NODE_def
  unlink_def return_entry_def next_magic_def Let_def

section \<open>The table refines lists\<close>

lemma new_entry:
  "k < m \<Longrightarrow> indirection (mchash_table_create b m L) ! k =
     \<lparr>en_prev = (if k \<noteq> 0 then Some (k - 1) else None), en_next = (if Suc k < m then Some (Suc k) else None),
      en_magic = 0, en_node = None\<rparr>"
  by (auto simp: mchash_table_create_def)

lemma new_table_chain:
  "k \<le> m \<Longrightarrow> free_chain (indirection (mchash_table_create b m L)) (if k < m then Some k else None) [k..<m]"
proof (induction "m - k" arbitrary: k)
  case 0
  then show ?case by simp
next
  case (Suc d)
  then have "free_chain (indirection (mchash_table_create b m L)) (if Suc k < m then Some (Suc k) else None) [Suc k..<m]"
    by (intro Suc.hyps(1)) auto
  moreover have "[k..<m] = k # [Suc k..<m]" "k < m" using Suc by (simp_all add: upt_conv_Cons)
  ultimately show ?case by (simp add: new_entry)
qed

lemma new_table:
  assumes "0 < m" and "\<And>x. lk_index (L x) < m"
  shows "lists_of m (mchash_table_create b m L) (replicate b [])"
proof -
  let ?t = "mchash_table_create b m L"
  have "free_chain (indirection ?t) (free_next ?t) [0..<m]"
    using new_table_chain [of 0 m b L] assms(1) by (simp add: mchash_table_create_def)
  moreover have "last [0..<m] = m - 1" using assms(1) by (cases m) simp_all
  ultimately have "entries_ok ?t {} [0..<m]"
    using assms(1) by (simp add: entries_ok_def mchash_table_create_def)
  moreover have "set (concat (replicate b ([] :: nat list))) = {}" by auto
  ultimately have "table_ok ?t (replicate b []) [0..<m]"
    unfolding table_ok_def by (simp add: mchash_table_create_def bk_ok_def last_ptr_def sum_list_replicate)
  then show ?thesis using assms(2) by (auto simp: lists_of_def mchash_table_create_def)
qed

lemma scan_dll: "dll (links t) Q p xs Null \<Longrightarrow> length xs < fuel \<Longrightarrow> scan_from t fuel p = xs"
proof (induction xs arbitrary: Q p fuel)
  case Nil
  then show ?case by (cases fuel) simp_all
next
  case (Cons x xs)
  then show ?case by (cases fuel) auto
qed

lemma scan_list:
  assumes "lists_of m t bs" and "k < length bs" and "length (bs ! k) < fuel"
  shows "MCHASH_BUCKET_SCAN fuel k t = bs ! k"
proof -
  obtain fq where "table_ok t bs fq" using assms(1) by (auto simp: lists_of_def)
  from table_okD(1) [OF this assms(2)] show ?thesis
    using assms(3) by (auto simp: MCHASH_BUCKET_SCAN_def bk_ok_def intro: scan_dll)
qed

lemma head_node:
  assumes "lists_of m t bs" and "k < length bs"
  shows "MCHASH_BUCKET_GET_HEAD_NODE k t = (case bs ! k of [] \<Rightarrow> None | n # _ \<Rightarrow> Some n)"
proof -
  obtain fq where "table_ok t bs fq" using assms(1) by (auto simp: lists_of_def)
  from table_okD(1) [OF this assms(2)] show ?thesis
    by (cases "bs ! k") (auto simp: MCHASH_BUCKET_GET_HEAD_NODE_def bk_ok_def)
qed

lemma sum_list_eq_0: "sum_list (map length bs) = 0 \<longleftrightarrow> (\<forall>xs \<in> set bs. xs = [])"
  by (induction bs) auto

lemma bucket_room: "lists_of m t bs \<Longrightarrow> sum_list (map length bs) \<le> m"
  by (auto simp: lists_of_def table_ok_def)

lemma bucket_length: "lists_of m t bs \<Longrightarrow> k < length bs \<Longrightarrow> length (bs ! k) \<le> m"
  using bucket_room [of m t bs] elem_le_sum_list [of k "map length bs"] by simp

lemma of_nat_u32_zero: "n < 2 ^ 32 \<Longrightarrow> (of_nat n :: u32) = 0 \<longleftrightarrow> n = 0"
  by (auto simp: word_of_nat_eq_0_iff dest: dvd_imp_le)

lemma active_zero:
  assumes "lists_of m t bs" and "m < 2 ^ 32"
  shows "mchash_table_delete t \<longleftrightarrow> (\<forall>xs \<in> set bs. xs = [])"
proof -
  have "active_nodes t = of_nat (sum_list (map length bs))"
    using assms(1) by (auto simp: lists_of_def table_ok_def)
  moreover have "sum_list (map length bs) < 2 ^ 32" using bucket_room [OF assms(1)] assms(2) by simp
  ultimately have "active_nodes t = 0 \<longleftrightarrow> sum_list (map length bs) = 0"
    by (simp only: of_nat_u32_zero)
  then show ?thesis by (simp add: mchash_table_delete_def sum_list_eq_0)
qed

text \<open>
  C20.  A new table with room for \<open>m\<close> nodes is, for every sequence of operations its
  callers may run, a list of nodes per hash value: an addition succeeds unless \<open>m\<close> nodes are in the
  table and puts the node where it was asked to, a deletion succeeds exactly for the nodes in the
  table, a scan of a bucket ends and visits its list in order, and the table can be deleted exactly
  when all lists are empty.
\<close>

theorem table_refines:
  assumes "0 < m" and "m < 2 ^ 32" and "\<And>x. lk_index (L x) < m"
    and "run_ok (list_exec m) op_valid ops (replicate b [])"
    and "run mchash_exec ops (mchash_table_create b m L) = (rs, t)"
    and "run (list_exec m) ops (replicate b []) = (qs, bs)"
  shows "map success rs = qs
    \<and> (\<forall>k < length bs. MCHASH_BUCKET_SCAN (m + 1) k t = bs ! k)
    \<and> (mchash_table_delete t \<longleftrightarrow> (\<forall>xs \<in> set bs. xs = []))"
proof -
  have new: "lists_of m (mchash_table_create b m L) (replicate b [])" by (rule new_table [OF assms(1,3)])
  have r: "map success rs = qs" "lists_of m t bs"
    using mch.run_refines [OF new assms(4)] assms(5,6) by simp_all
  show ?thesis
    using r scan_list [OF r(2)] bucket_length [OF r(2)] active_zero [OF r(2) assms(2)]
    by (simp add: less_Suc_eq_le)
qed

abbreviation blank_links :: "nat \<Rightarrow> table_link" where
  "blank_links \<equiv> \<lambda>_. \<lparr>lk_prev = Null, lk_next = Null, lk_index = 0, lk_key = 0\<rparr>"

abbreviation sample_ops :: "mchash_op list" where
  "sample_ops \<equiv> [Append 1 7, Insert_Before 7 1 8, Append 0 9, Append 0 5, Delete 7, Insert_After 8 1 5, Delete 7]"

text \<open>The table of the witness is full once: the fourth operation is refused.\<close>

lemma table_refines_witness:
  "map success (fst (run mchash_exec sample_ops (mchash_table_create 2 3 blank_links)))
     = [True, True, True, False, True, True, False]
   \<and> MCHASH_BUCKET_SCAN 4 1 (snd (run mchash_exec sample_ops (mchash_table_create 2 3 blank_links))) = [8, 5]"
proof -
  obtain rs t where r: "run mchash_exec sample_ops (mchash_table_create 2 3 blank_links) = (rs, t)"
    by (cases "run mchash_exec sample_ops (mchash_table_create 2 3 blank_links)")
  have l: "run (list_exec 3) sample_ops (replicate 2 [])
      = ([True, True, True, False, True, True, False], [[9], [8, 5]])"
    and v: "run_ok (list_exec 3) op_valid sample_ops (replicate 2 [])"
    by (simp_all add: list_add_def numeral_2_eq_2 eval_nat_numeral)
  show ?thesis using table_refines [OF _ _ _ v r l] r by simp
qed

section \<open>Magic numbers\<close>

text \<open>They run through all words but zero.\<close>

lemma unat_u32_less: "unat (w :: u32) < 4294967296"
  using unsigned_less [of w] by simp

lemma unat_u32_max: "unat (- 1 :: u32) = 4294967295"
  by (simp add: unsigned_minus_1_eq_mask mask_eq_exp_minus_1)

lemma next_magic_unat: "m \<noteq> 0 \<Longrightarrow> unat (next_magic m) = unat m mod (2 ^ 32 - 1) + 1"
proof (cases "m + 1 = 0")
  case True
  then have "m = - 1" by (simp add: eq_neg_iff_add_eq_0)
  then show ?thesis by (simp add: next_magic_def unat_u32_max)
next
  case False
  then have "unat (1 + m) = Suc (unat m)" by (intro unatSuc) (simp add: add.commute)
  moreover from this have "unat m < 2 ^ 32 - 1" using unat_u32_less [of "1 + m"] by simp
  ultimately show ?thesis using False by (simp add: next_magic_def add.commute)
qed

lemma magic_cycle:
  assumes "g \<noteq> (0 :: u32)"
  shows "unat ((next_magic ^^ c) g) = (unat g - 1 + c) mod (2 ^ 32 - 1) + 1"
proof (induction c)
  case 0
  have "unat g - 1 < 2 ^ 32 - 1" using unat_u32_less [of g] by simp
  moreover have "0 < unat g" using assms by (simp add: unat_gt_0)
  ultimately show ?case by simp
next
  case (Suc c)
  have "(next_magic ^^ c) g \<noteq> 0" using assms by (cases c) simp_all
  then show ?case using Suc by (simp add: next_magic_unat mod_Suc_eq)
qed

lemma magic_fresh:
  assumes "g \<noteq> (0 :: u32)" and "0 < c" and "c < 2 ^ 32 - 1"
  shows "(next_magic ^^ c) g \<noteq> g"
proof
  assume eq: "(next_magic ^^ c) g = g"
  obtain x where x: "unat g = Suc x" using assms(1) by (metis not0_implies_Suc unat_eq_zero)
  then have "(x + c) mod 4294967295 = x" using magic_cycle [OF assms(1), of c] eq by simp
  moreover have "x < 4294967295" using unat_u32_less [of g] x by simp
  ultimately show False using assms(2,3) by (auto simp: mod_if split: if_splits)
qed

section \<open>References\<close>

text \<open>What one operation does to an entry of the indirection array and to the next magic number.\<close>

definition issued :: "mchash_result \<Rightarrow> nat" where
  "issued r = (case r of Added (Some _) \<Rightarrow> 1 | _ \<Rightarrow> 0)"

lemma exec_entry:
  assumes rel: "lists_of m t bs" and v: "op_valid op bs" and e: "mchash_exec op t = (r, t')" and i: "i < m"
  shows "magic_no t' = (next_magic ^^ issued r) (magic_no t)"
    and "(en_magic (indirection t' ! i) = en_magic (indirection t ! i)
            \<and> en_node (indirection t' ! i) = en_node (indirection t ! i)
            \<and> (\<forall>n. op = Delete n \<longrightarrow> en_node (indirection t ! i) \<noteq> Some n))
       \<or> (issued r = 1 \<and> en_magic (indirection t' ! i) = magic_no t \<and> en_magic (indirection t ! i) = 0)
       \<or> (issued r = 0 \<and> en_magic (indirection t' ! i) = 0
            \<and> (\<exists>n. op = Delete n \<and> en_node (indirection t ! i) = Some n))" (is ?B)
    and "r = Added (Some (j, g)) \<Longrightarrow>
       j < m \<and> g = magic_no t \<and> en_magic (indirection t' ! j) = g
       \<and> en_node (indirection t' ! j) = Some (op_node op) \<and> g \<noteq> 0" (is "_ \<Longrightarrow> ?C")
proof -
  obtain fq where ok: "table_ok t bs fq" and m: "length (indirection t) = m"
    and ix: "\<And>x. lk_index (links t x) < m"
    using rel by (auto simp: lists_of_def)
  have E: "entries_ok t (set (concat bs)) fq" using ok by (simp add: table_ok_def)
  have il: "i < length (indirection t)" using i m by simp
  have "magic_no t' = (next_magic ^^ issued r) (magic_no t) \<and> ?B \<and> (r = Added (Some (j, g)) \<longrightarrow> ?C)"
  proof (cases "adds op")
    case True
    then have nd: "op \<noteq> Delete n" for n by auto
    show ?thesis
    proof (cases fq)
      case Nil
      then have ok0: "table_ok t bs []" using ok by simp
      show ?thesis using add_full [OF ok0 True] e nd by (auto simp: issued_def)
    next
      case (Cons k fq')
      then have ok': "table_ok t bs (k # fq')" using ok by simp
      obtain t1 where t1: "mchash_exec op t = (Added (Some (k, magic_no t)), t1)"
        and s: "indirection t1 = entries_after k (op_node op) t" "magic_no t1 = next_magic (magic_no t)"
          "k < length (indirection t)"
        by (rule add_step [OF ok' v True])
      have r: "r = Added (Some (k, magic_no t))" "t' = t1" using e t1 by simp_all
      have "en_magic (indirection t ! k) = 0" using table_entry(2) [OF ok s(3)] Cons by simp
      moreover have "en_magic (indirection t1 ! l) = (if l = k then magic_no t else en_magic (indirection t ! l))"
        "en_node (indirection t1 ! l) = (if l = k then Some (op_node op) else en_node (indirection t ! l))" for l
        using s(1) by (simp_all add: entries_after_nth [OF s(3)])
      ultimately show ?thesis
        using s(2,3) m entries_okD(7) [OF E] nd by (simp add: r issued_def) blast
    qed
  next
    case False
    then obtain n where op: "op = Delete n" by (cases op) auto
    show ?thesis
    proof (cases "n \<in> set (concat bs)")
      case True
      note f = delete_frame [OF ok True refl refl]
      have "en_node (indirection t ! i) = Some n \<longleftrightarrow> i = lk_index (links t n)"
        using table_entry(1) [OF ok il, of n] table_node(4) [OF ok True] by auto
      then show ?thesis
        using e f(2,5,6) by (auto simp: op delete_op [OF ok True] issued_def)
    next
      case False
      have "en_node (indirection t ! i) \<noteq> Some n" using table_entry(1) [OF ok il, of n] False by auto
      then show ?thesis
        using e delete_absent [OF ok False] ix m by (auto simp: op issued_def)
    qed
  qed
  then show "magic_no t' = (next_magic ^^ issued r) (magic_no t)" ?B "r = Added (Some (j, g)) \<Longrightarrow> ?C"
    by blast+
qed

text \<open>
  A reference with magic number \<open>g\<close>, after \<open>c\<close> numbers have been issued from \<open>g\<close> on: either it still
  leads to its node, or its entry is free or has a later number.
\<close>

definition ref_live :: "nat \<Rightarrow> u32 \<Rightarrow> nat \<Rightarrow> nat \<Rightarrow> table \<Rightarrow> bool" where
  "ref_live i g n c t \<longleftrightarrow> magic_no t = (next_magic ^^ c) g \<and> 0 < c
     \<and> en_magic (indirection t ! i) = g \<and> en_node (indirection t ! i) = Some n"

definition ref_dead :: "nat \<Rightarrow> u32 \<Rightarrow> nat \<Rightarrow> table \<Rightarrow> bool" where
  "ref_dead i g c t \<longleftrightarrow> magic_no t = (next_magic ^^ c) g \<and> 0 < c
     \<and> (en_magic (indirection t ! i) = 0
         \<or> (\<exists>j. 0 < j \<and> j < c \<and> en_magic (indirection t ! i) = (next_magic ^^ j) g))"

lemma ref_step:
  assumes "lists_of m t bs" and "op_valid op bs" and "mchash_exec op t = (r, t')" and "i < m" and "g \<noteq> 0"
  shows "ref_live i g n c t \<Longrightarrow> op \<noteq> Delete n \<Longrightarrow> ref_live i g n (issued r + c) t'"
    and "ref_live i g n c t \<Longrightarrow> op = Delete n \<Longrightarrow> ref_dead i g (issued r + c) t'"
    and "ref_dead i g c t \<Longrightarrow> ref_dead i g (issued r + c) t'"
proof -
  note x = exec_entry(1,2) [OF assms(1-4)]
  have mg: "magic_no t' = (next_magic ^^ (issued r + c)) g" if "magic_no t = (next_magic ^^ c) g"
    using x(1) that by (simp add: funpow_add)
  show "ref_live i g n c t \<Longrightarrow> op \<noteq> Delete n \<Longrightarrow> ref_live i g n (issued r + c) t'"
    "ref_live i g n c t \<Longrightarrow> op = Delete n \<Longrightarrow> ref_dead i g (issued r + c) t'"
    using x(2) mg assms(5) by (auto simp: ref_live_def ref_dead_def)
  assume d: "ref_dead i g c t"
  then have c: "magic_no t' = (next_magic ^^ (issued r + c)) g" "0 < c" using mg by (simp_all add: ref_dead_def)
  have "en_magic (indirection t' ! i) = 0
      \<or> (\<exists>j. 0 < j \<and> j < issued r + c \<and> en_magic (indirection t' ! i) = (next_magic ^^ j) g)"
    using x(2)
  proof (elim disjE conjE)
    assume "en_magic (indirection t' ! i) = en_magic (indirection t ! i)"
    then show ?thesis using d by (auto simp: ref_dead_def intro: less_le_trans)
  next
    assume "issued r = 1" "en_magic (indirection t' ! i) = magic_no t"
    then show ?thesis using d by (auto simp: ref_dead_def)
  qed simp
  then show "ref_dead i g (issued r + c) t'" using c by (simp add: ref_dead_def)
qed

lemma ref_run:
  assumes "lists_of m t bs" and "run_ok (list_exec m) op_valid ops bs"
    and "run mchash_exec ops t = (rs, t')" and "i < m" and "g \<noteq> 0"
  shows "ref_dead i g c t \<Longrightarrow> ref_dead i g (sum_list (map issued rs) + c) t'"
    and "ref_live i g n c t \<Longrightarrow> Delete n \<notin> set ops \<Longrightarrow> ref_live i g n (sum_list (map issued rs) + c) t'"
    and "ref_live i g n c t \<Longrightarrow> Delete n \<in> set ops \<Longrightarrow> ref_dead i g (sum_list (map issued rs) + c) t'"
  using assms(1-3)
proof (induction ops arbitrary: t bs c rs)
  case Nil
  { case 1 then show ?case by simp }
  { case 2 then show ?case by simp }
  { case 3 then show ?case by simp }
next
  case (Cons op ops)
  have split: "\<exists>r t1 rs1. rs = r # rs1 \<and> mchash_exec op t = (r, t1) \<and> run mchash_exec ops t1 = (rs1, t')
      \<and> lists_of m t1 (snd (list_exec m op bs)) \<and> run_ok (list_exec m) op_valid ops (snd (list_exec m op bs))"
    if "lists_of m t bs" "run_ok (list_exec m) op_valid (op # ops) bs" "run mchash_exec (op # ops) t = (rs, t')"
    for rs t bs
    using that mch.step [of m t bs op]
    by (cases "mchash_exec op t"; cases "run mchash_exec ops (snd (mchash_exec op t))") auto
  { case 1
    obtain r t1 rs1 where s: "rs = r # rs1" "mchash_exec op t = (r, t1)" "run mchash_exec ops t1 = (rs1, t')"
        "lists_of m t1 (snd (list_exec m op bs))" "run_ok (list_exec m) op_valid ops (snd (list_exec m op bs))"
      using split [OF 1(2-4)] by blast
    have "ref_dead i g (issued r + c) t1" using ref_step(3) [OF 1(2) _ s(2) assms(4,5) 1(1)] 1(3) by simp
    from Cons.IH(1) [OF this s(4,5,3)] show ?case using s(1) by (simp add: ac_simps) }
  { case 2
    obtain r t1 rs1 where s: "rs = r # rs1" "mchash_exec op t = (r, t1)" "run mchash_exec ops t1 = (rs1, t')"
        "lists_of m t1 (snd (list_exec m op bs))" "run_ok (list_exec m) op_valid ops (snd (list_exec m op bs))"
      using split [OF 2(3-5)] by blast
    have "ref_live i g n (issued r + c) t1"
      using ref_step(1) [OF 2(3) _ s(2) assms(4,5) 2(1)] 2(2,4) by auto
    from Cons.IH(2) [OF this _ s(4,5,3)] show ?case using 2(2) s(1) by (simp add: ac_simps) }
  { case 3
    obtain r t1 rs1 where s: "rs = r # rs1" "mchash_exec op t = (r, t1)" "run mchash_exec ops t1 = (rs1, t')"
        "lists_of m t1 (snd (list_exec m op bs))" "run_ok (list_exec m) op_valid ops (snd (list_exec m op bs))"
      using split [OF 3(3-5)] by blast
    show ?case
    proof (cases "op = Delete n")
      case True
      have "ref_dead i g (issued r + c) t1"
        using ref_step(2) [OF 3(3) _ s(2) assms(4,5) 3(1) True] 3(4) by simp
      from Cons.IH(1) [OF this s(4,5,3)] show ?thesis using s(1) by (simp add: ac_simps)
    next
      case False
      have "ref_live i g n (issued r + c) t1"
        using ref_step(1) [OF 3(3) _ s(2) assms(4,5) 3(1) False] 3(4) by simp
      from Cons.IH(3) [OF this _ s(4,5,3)] show ?thesis using False 3(2) s(1) by (simp add: ac_simps)
    qed }
qed

text \<open>
  C21.  The reference that a successful addition hands out leads to its node exactly as
  long as the node has not been deleted, whatever else is added and deleted in between, entries
  reused included, and is refused afterwards; until \<open>2 ^ 32 - 1\<close> further nodes have been added,
  when the magic numbers come round again.
\<close>

theorem safe_reference:
  assumes "0 < m" and "\<And>x. lk_index (L x) < m"
    and "run_ok (list_exec m) op_valid (ops @ op # ops') (replicate b [])"
    and "run mchash_exec (ops @ op # ops') (mchash_table_create b m L) = (rs, t)"
    and "rs ! length ops = Added (Some (i, g))"
    and "sum_list (map issued (drop (Suc (length ops)) rs)) < 2 ^ 32 - 1"
  shows "MCHASH_ACCESS_NODE i g t = (if Delete (op_node op) \<in> set ops' then (False, None) else (True, Some (op_node op)))"
proof -
  have new: "lists_of m (mchash_table_create b m L) (replicate b [])" by (rule new_table [OF assms(1,2)])
  obtain rs0 t0 where r0: "run mchash_exec ops (mchash_table_create b m L) = (rs0, t0)"
    by (cases "run mchash_exec ops (mchash_table_create b m L)")
  define bs where "bs = snd (run (list_exec m) ops (replicate b []))"
  have v: "run_ok (list_exec m) op_valid ops (replicate b [])" "op_valid op bs"
    "run_ok (list_exec m) op_valid ops' (snd (list_exec m op bs))"
    using assms(3) by (simp_all add: run_ok_append bs_def)
  have rel: "lists_of m t0 bs" using mch.run_refines [OF new v(1)] r0 by (simp add: bs_def)
  obtain t1 where e: "mchash_exec op t0 = (Added (Some (i, g)), t1)"
    using run_result [of mchash_exec ops op ops' "mchash_table_create b m L"] assms(4,5) r0
    by (cases "mchash_exec op t0") simp
  obtain rs2 where r2: "run mchash_exec ops' t1 = (rs2, t)" "drop (Suc (length ops)) rs = rs2"
    using assms(4) r0 e run_length [of mchash_exec ops "mchash_table_create b m L"]
    by (auto simp: run_append Let_def split: prod.splits)
  have rel1: "lists_of m t1 (snd (list_exec m op bs))" using mch.step [OF rel v(2)] e by simp
  note x = exec_entry(3) [OF rel v(2) e assms(1) refl]
  then have i: "i < m" and g: "g \<noteq> 0" "g = magic_no t0" by blast+
  have "ref_live i g (op_node op) 1 t1"
    using x exec_entry(1) [OF rel v(2) e i] by (simp add: ref_live_def issued_def)
  note live = ref_run(2) [OF rel1 v(3) r2(1) i g(1) this] and dead = ref_run(3) [OF rel1 v(3) r2(1) i g(1) this]
  show ?thesis
  proof (cases "Delete (op_node op) \<in> set ops'")
    case True
    have "en_magic (indirection t ! i) \<noteq> g"
    proof
      assume "en_magic (indirection t ! i) = g"
      then obtain j where j: "0 < j" "j < sum_list (map issued rs2) + 1" "g = (next_magic ^^ j) g"
        using dead [OF True] g(1) by (auto simp: ref_dead_def)
      then show False using magic_fresh [OF g(1), of j] assms(6) r2(2) by simp
    qed
    then show ?thesis using True by (auto simp: MCHASH_ACCESS_NODE_def)
  next
    case False
    then show ?thesis using live by (simp add: MCHASH_ACCESS_NODE_def ref_live_def)
  qed
qed

text \<open>In a table with one entry the reference of the first node is refused once a second one has the entry.\<close>

lemma safe_reference_witness:
  "MCHASH_ACCESS_NODE 0 1 (snd (run mchash_exec [Append 0 7, Delete 7, Append 0 8]
     (mchash_table_create 1 1 blank_links))) = (False, None)"
proof -
  let ?run = "run mchash_exec ([] @ Append 0 7 # [Delete 7, Append 0 8]) (mchash_table_create 1 1 blank_links)"
  obtain rs t where r: "?run = (rs, t)" by (cases ?run)
  have "fst ?run = [Added (Some (0, 1)), Deleted True, Added (Some (0, 2))]"
    by (simp add: table_defs)
  then have "rs = [Added (Some (0, 1)), Deleted True, Added (Some (0, 2))]" using r by simp
  then have "MCHASH_ACCESS_NODE 0 1 t = (False, None)"
    using safe_reference [OF _ _ _ r, of 0 1] by (simp add: list_add_def issued_def)
  then show ?thesis using r by simp
qed

section \<open>Deletion by reference\<close>

text \<open>The operations on the lists do not look at the entries, so the order of the two does not matter.\<close>

definition with_entries :: "indirect_entry list \<Rightarrow> nat list \<Rightarrow> table \<Rightarrow> table" where
  "with_entries E r t = t\<lparr>indirection := E, rcu_freed := r\<rparr>"

lemma entries_ptr:
  "set_next p q (with_entries E r t) = with_entries E r (set_next p q t)"
  "set_prev p q (with_entries E r t) = with_entries E r (set_prev p q t)"
  "upd_bucket k f (with_entries E r t) = with_entries E r (upd_bucket k f t)"
  "links (with_entries E r t) = links t" "follow (with_entries E r t) p = follow t p"
  by (cases p; simp add: with_entries_def store_defs)+

lemma entries_prefetch_from: "prefetch_from (with_entries E r t) ii p = prefetch_from t ii p"
  by (induction ii arbitrary: p) (simp_all add: entries_ptr)

lemma entries_commute:
  "unlink k n (with_entries E r t) = with_entries E r (unlink k n t)"
  "mchash_update_prefetch_nodes k (with_entries E r t) = with_entries E r (mchash_update_prefetch_nodes k t)"
  by (simp_all add: unlink_def Let_def entries_ptr mchash_update_prefetch_nodes_def entries_prefetch_from)

lemma with_entries_same: "with_entries (indirection t) (rcu_freed t) t = t"
  by (simp add: with_entries_def)

lemma unlink_frame [simp]:
  "indirection (unlink k n t) = indirection t" "rcu_freed (unlink k n t) = rcu_freed t"
  "free_prev (unlink k n t) = free_prev t"
  by (simp_all add: unlink_def Let_def)

lemma locked_steps:
  assumes "i < length (indirection t)" and "en_magic (indirection t ! i) \<noteq> 0"
  shows "delete_by_ref_locked i n k t =
    (True, (delete_node i n k t)\<lparr>rcu_freed := n # rcu_freed t\<rparr>)"
proof -
  let ?e = "(indirection t ! i)\<lparr>en_magic := 0, en_node := None\<rparr>"
  define d where "d = mchash_update_prefetch_nodes k (upd_bucket k (\<lambda>b. b\<lparr>bk_count := bk_count b - 1\<rparr>) (unlink k n t))"
  have 1: "upd_entry i (\<lambda>e. e\<lparr>en_magic := 0\<rparr>) t
      = with_entries ((indirection t)[i := (indirection t ! i)\<lparr>en_magic := 0\<rparr>]) (rcu_freed t) t"
    by (simp add: with_entries_def upd_entry_def)
  have 2: "upd_entry i (\<lambda>e. e\<lparr>en_node := None\<rparr>)
      ((with_entries ((indirection t)[i := (indirection t ! i)\<lparr>en_magic := 0\<rparr>]) r s)\<lparr>rcu_freed := r'\<rparr>)
      = with_entries ((indirection t)[i := ?e]) r' s" for r r' s
    using assms(1) by (simp add: with_entries_def upd_entry_def)
  have 3: "upd_entry i (\<lambda>e. e\<lparr>en_magic := 0, en_node := None\<rparr>) t
      = with_entries ((indirection t)[i := ?e]) (rcu_freed t) t"
    by (simp add: with_entries_def upd_entry_def)
  have r: "return_entry i (with_entries E r s) = (return_entry i (with_entries E r' s))\<lparr>rcu_freed := r\<rparr>" for E r r' s
    by (simp add: return_entry_def with_entries_def upd_entry_def Let_def split: option.splits)
  have f: "rcu_freed ((with_entries E r s)) = r" for E r s by (simp add: with_entries_def)
  show ?thesis
    using assms(2) r [of "(indirection t)[i := ?e]" "n # rcu_freed t" d "rcu_freed t"]
    by (simp add: delete_by_ref_locked_def Let_def 1 entries_commute 2 entries_ptr delete_node_def 3 f d_def)
qed

text \<open>
  Run without interference, deletion by a reference that leads to a node
  and deletion of that node end in the same state, down to the links, counts and cached pointers,
  although one hands the node to the deferred release before it has left the entry and the other
  after the entry is back in the free queue.
\<close>

theorem delete_by_ref_is_delete:
  assumes "lists_of m t bs" and "i < m" and "MCHASH_ACCESS_NODE i g t = (True, Some n)"
  shows "MCHASH_DELETE_NODE_BY_REF i g t = Some (MCHASH_DELETE_NODE n t)"
proof -
  obtain fq where ok: "table_ok t bs fq" and m: "length (indirection t) = m"
    using assms(1) by (auto simp: lists_of_def)
  have il: "i < length (indirection t)" using assms(2) m by simp
  have g: "en_magic (indirection t ! i) = g" "en_node (indirection t ! i) = Some n"
    using assms(3) by (simp_all add: MCHASH_ACCESS_NODE_def Let_def split: if_splits)
  then have n: "n \<in> set (concat bs)" "lk_index (links t n) = i" using table_entry(1) [OF ok il] by auto
  have g0: "en_magic (indirection t ! i) \<noteq> 0" using table_node(5) [OF ok n(1)] n(2) by simp
  show ?thesis
    using g n(2) locked_steps [OF il g0]
    by (simp add: MCHASH_DELETE_NODE_BY_REF_def delete_by_ref_check_def delete_op [OF ok n(1)])
qed

lemma delete_by_ref_is_delete_witness:
  "MCHASH_DELETE_NODE_BY_REF 0 1 (snd (mchash_exec (Append 0 7) (mchash_table_create 1 2 blank_links)))
     = Some (MCHASH_DELETE_NODE 7 (snd (mchash_exec (Append 0 7) (mchash_table_create 1 2 blank_links))))"
proof -
  have l: "lists_of 2 (snd (mchash_exec (Append 0 7) (mchash_table_create 1 2 blank_links))) [[7]]"
    using exec_refines [OF new_table [of 2 blank_links 1], of "Append 0 7"] by (simp add: list_add_def)
  have a: "MCHASH_ACCESS_NODE 0 1 (snd (mchash_exec (Append 0 7) (mchash_table_create 1 2 blank_links)))
      = (True, Some 7)" by code_simp
  show ?thesis by (rule delete_by_ref_is_delete [OF l _ a]) simp
qed

section \<open>Outside the contract\<close>

text \<open>
  Free entries have magic number zero, and so has a reference of zeros, such as the handle of an
  object that was never registered: it is accepted, with a null node, and deletion by it follows the
  null pointer.
\<close>

lemma null_reference:
  assumes "lists_of m t bs" and "sum_list (map length bs) < m"
  shows "\<exists>i < m. MCHASH_ACCESS_NODE i 0 t = (True, None) \<and> MCHASH_DELETE_NODE_BY_REF i 0 t = None"
proof -
  obtain fq where ok: "table_ok t bs fq" and m: "length (indirection t) = m"
    using assms(1) by (auto simp: lists_of_def)
  then obtain i where i: "i \<in> set fq" using assms(2) by (cases fq) (auto simp: table_ok_def)
  have E: "entries_ok t (set (concat bs)) fq" using ok by (simp add: table_ok_def)
  show ?thesis
    using entries_okD(4) [OF E i] m
    by (auto simp: MCHASH_ACCESS_NODE_def MCHASH_DELETE_NODE_BY_REF_def delete_by_ref_check_def)
qed

text \<open>The append raises the node count of its bucket by two for one node.\<close>

lemma append_counts_twice:
  assumes "table_ok t bs (i # fq)" and "k < length bs" and "n \<notin> set (concat bs)"
  shows "MCHASH_BUCKET_NODE_COUNT k (snd (MCHASH_APPEND_NODE k n t)) = MCHASH_BUCKET_NODE_COUNT k t + 2"
  by (rule append_table [OF assms]) (simp add: MCHASH_BUCKET_NODE_COUNT_def)

lemma upd_entry_magic:
  "(\<And>e. en_magic (f e) = en_magic e) \<Longrightarrow>
    en_magic (indirection (upd_entry i f t) ! l) = en_magic (indirection t ! l)"
  by (cases "i = l"; cases "i < length (indirection t)"; simp add: upd_entry_def list_update_beyond)

lemma delete_node_magic:
  assumes "i < length (indirection t)"
  shows "en_magic (indirection (delete_node i n k t) ! i) = 0"
proof -
  have r: "en_magic (indirection (return_entry i s) ! i) = en_magic (indirection s ! i)" for s
    by (simp add: return_entry_def Let_def upd_entry_magic split: option.splits)
  show ?thesis using assms by (simp add: delete_node_def r)
qed

text \<open>
  Two threads delete the same node by reference in a full table.  Both pass the
  comparison of the magic number; the second takes the lock of the bucket after the first is done and
  after a new node \<open>n'\<close> has been given the entry.  Its second test only asks whether the magic number
  is zero, which it no longer is: the old node is handed to the deferred release twice, the new node
  loses its entry, and the reference just returned for it is refused although it is still listed.
\<close>

theorem delete_race:
  assumes "table_ok t bs []" and "n \<in> set (concat bs)" and "k' < length bs" and "n' \<notin> set (concat bs)"
    and "i < length (indirection t)" and "delete_by_ref_check i g t = Some (Some (n, k))" and "g \<noteq> 0"
    and "MCHASH_DELETE_NODE_BY_REF i g t = Some (True, t1)"
    and "MCHASH_APPEND_NODE k' n' t1 = (Some (i', g'), t2)"
    and "delete_by_ref_locked i n k t2 = (b, t3)"
  shows "b \<and> i' = i \<and> rcu_freed t3 = n # n # rcu_freed t \<and> MCHASH_ACCESS_NODE i' g' t3 = (False, None)
    \<and> MCHASH_ACCESS_NODE i' g' t2 = (True, Some n')"
proof -
  have node: "en_node (indirection t ! i) = Some n" "en_magic (indirection t ! i) = g" "k = lk_key (links t n)"
    using assms(6) by (auto simp: delete_by_ref_check_def split: if_splits)
  have nn: "n \<in> set (concat bs)" "lk_index (links t n) = i" using table_entry(1) [OF assms(1,5) node(1)] by auto
  have d: "delete_by_ref_locked i n k t = (True, (delete_node i n k t)\<lparr>rcu_freed := n # rcu_freed t\<rparr>)"
    using assms(5,7) node(2) by (intro locked_steps) simp_all
  have t1: "t1 = (delete_node i n k t)\<lparr>rcu_freed := n # rcu_freed t\<rparr>"
    using assms(6,8) d by (simp add: MCHASH_DELETE_NODE_BY_REF_def)
  have ok1: "table_ok t1 (map (removeAll n) bs) [i]"
    using delete_node_table [OF assms(1) nn(1)] nn(2) by (simp add: delete_op [OF assms(1) nn(1)] t1 node(3))
  obtain t2' where a: "MCHASH_APPEND_NODE k' n' t1 = (Some (i, magic_no t1), t2')"
      "indirection t2' = entries_after i n' t1" "rcu_freed t2' = rcu_freed t1" "i < length (indirection t1)"
    by (rule append_table [OF ok1, of k' n']) (use assms(3,4) in auto)
  have t2: "t2' = t2" "i' = i" "g' = magic_no t1" using a(1) assms(9) by simp_all
  have E1: "entries_ok t1 (set (concat (map (removeAll n) bs))) [i]" using ok1 by (simp add: table_ok_def)
  have e2: "i < length (indirection t2)" "en_magic (indirection t2 ! i) = g'" "en_node (indirection t2 ! i) = Some n'"
    and g': "g' \<noteq> 0"
    using a(2,4) entries_okD(7) [OF E1] unfolding t2 by (simp_all add: entries_after_nth [OF a(4)])
  have l: "delete_by_ref_locked i n k t2 = (True, (delete_node i n k t2)\<lparr>rcu_freed := n # rcu_freed t2\<rparr>)"
    using e2 g' by (intro locked_steps) simp_all
  have t3: "b" "t3 = (delete_node i n k t2)\<lparr>rcu_freed := n # rcu_freed t2\<rparr>" using l assms(10) by simp_all
  have "MCHASH_ACCESS_NODE i g' t3 = (False, None)" "MCHASH_ACCESS_NODE i g' t2 = (True, Some n')"
    using delete_node_magic [OF e2(1), of n k] g' e2 by (simp_all add: MCHASH_ACCESS_NODE_def t3(2))
  then show ?thesis using t3 a(3) by (simp add: t2 t1)
qed

text \<open>A table of one entry and one bucket, node 7 deleted twice and node 8 added in between.\<close>

lemma delete_race_witness:
  "rcu_freed (snd (delete_by_ref_locked 0 7 0
     (snd (MCHASH_APPEND_NODE 0 8 (snd (MCHASH_DELETE_NODE 7
       (snd (MCHASH_APPEND_NODE 0 7 (mchash_table_create 1 1 blank_links))))))))) = [7, 7]"
proof -
  define t where "t = snd (MCHASH_APPEND_NODE 0 7 (mchash_table_create 1 1 blank_links))"
  define t1 where "t1 = snd (MCHASH_DELETE_NODE 7 t)"
  define t2 where "t2 = snd (MCHASH_APPEND_NODE 0 8 t1)"
  have new: "lists_of 1 (mchash_table_create 1 1 blank_links) [[]]" using new_table [of 1 blank_links 1] by simp
  then have "lists_of 1 t [[7]]"
    using exec_refines [OF new, of "Append 0 7"] by (simp add: list_add_def t_def)
  then have ok: "table_ok t [[7]] []" and il: "length (indirection t) = 1"
    by (auto simp: lists_of_def table_ok_def)
  have r: "rcu_freed t = []" by (simp add: t_def table_defs)
  have c: "delete_by_ref_check 0 1 t = Some (Some (7, 0))"
    by (simp add: t_def table_defs delete_by_ref_check_def)
  have e: "en_magic (indirection t ! 0) \<noteq> 0" "lk_index (links t 7) = 0" "lk_key (links t 7) = 0"
    by (simp_all add: t_def table_defs)
  have d: "MCHASH_DELETE_NODE_BY_REF 0 1 t = Some (True, t1)"
    using c e il locked_steps [of 0 t 7 0] delete_op [OF ok, of 7]
    by (simp add: MCHASH_DELETE_NODE_BY_REF_def t1_def)
  have a: "MCHASH_APPEND_NODE 0 8 t1 = (Some (0, 2), t2)"
    by (simp add: t2_def t1_def t_def table_defs)
  obtain b t3 where l: "delete_by_ref_locked 0 7 0 t2 = (b, t3)" by (cases "delete_by_ref_locked 0 7 0 t2")
  have "rcu_freed t3 = [7, 7]"
    using delete_race [OF ok _ _ _ _ c _ d a l] il r by simp
  then show ?thesis using l by (simp add: t2_def t1_def t_def)
qed

end
