(* ===== verification/Channel.thy ===== *)
theory Channel
  imports MsgBuffer
begin

text \<open>
  The transport channel of \<open>transport/base/channel_fsm.c\<close>: the table of handlers per state and event,
  learning, detaching and closing, the read from the socket (\<open>tcp_api.c\<close>) and the discarding of the
  rest of a message that could not be read.  A call through a \<open>NULL\<close> entry of the table is \<open>None\<close>.
  The message assembly is in \<open>ChannelRead\<close>.
\<close>

section \<open>States, events and handlers\<close>

datatype xprt_proto_channel_state_e = INIT | WAIT_FOR_HANDSHAKE | BOUND_TO_DP | CLOSE_CONN

datatype xprt_proto_channel_event_e =
    LEARN_EVENT | DP_DETACH_EVENT | READ_EVENT | WRITE_EVENT
  | READ_FAIL_EVENT | WRITE_FAIL_EVENT | ERROR_EVENT | CLOSE_EVENT

datatype fsm_function =
    channel_learn | channel_learn_dp | channel_detach_dp | channel_read | channel_write
  | channel_read_error | channel_write_error | channel_error | channel_close

fun cntlr_xprt_proto_channel_fsm_handler ::
  "xprt_proto_channel_state_e \<Rightarrow> xprt_proto_channel_event_e \<Rightarrow> fsm_function option" where
  "cntlr_xprt_proto_channel_fsm_handler INIT e = (if e = LEARN_EVENT then Some channel_learn else None)"
| "cntlr_xprt_proto_channel_fsm_handler CLOSE_CONN e = Some channel_error"
| "cntlr_xprt_proto_channel_fsm_handler s LEARN_EVENT =
     (if s = WAIT_FOR_HANDSHAKE then Some channel_learn_dp else None)"
| "cntlr_xprt_proto_channel_fsm_handler s DP_DETACH_EVENT = Some channel_detach_dp"
| "cntlr_xprt_proto_channel_fsm_handler s READ_EVENT = Some channel_read"
| "cntlr_xprt_proto_channel_fsm_handler s WRITE_EVENT = Some channel_write"
| "cntlr_xprt_proto_channel_fsm_handler s READ_FAIL_EVENT = Some channel_read_error"
| "cntlr_xprt_proto_channel_fsm_handler s WRITE_FAIL_EVENT = Some channel_write_error"
| "cntlr_xprt_proto_channel_fsm_handler s ERROR_EVENT = Some channel_error"
| "cntlr_xprt_proto_channel_fsm_handler s CLOSE_EVENT = Some channel_close"

datatype chn_state =
    CONN_INPROGRESS | REQ_HANDSHAKE_WITH_DP | CONN_ESTBD | HANDSHAKE_WITH_DP_DONE
  | CLOSE_INITIATED | CONN_TIMEDOUT | CONN_CLOSED | SENT_HELLO_TO_DP

datatype chn_msg_state =
    WAITING_FOR_NEW_MSG | WAITING_FOR_MSG_HEADER | START_READING_MSG
  | WAITING_FOR_COMPLETE_MSG | RCVD_COMPLETE_MSG | DRAIN_OUT_COMPLETE_MSG

section \<open>The socket\<close>

text \<open>
  Bytes that have arrived, and how the stream ends after them.  \<open>s_again\<close>: the last failing call of
  the thread left \<open>errno\<close> at \<open>EAGAIN\<close>; \<open>recv\<close> leaves \<open>errno\<close> alone when it reports the end of the stream.
  \<open>Conn_reset\<close> stands for \<open>ENOTCONN\<close>, \<open>ETIMEDOUT\<close> and \<open>ECONNRESET\<close>; \<open>Bad_fd\<close> is what is left of the socket
  after the descriptor has been closed.
\<close>

datatype stream_end = Peer_closed | Conn_reset | Bad_fd

record socket =
  s_data :: "u8 list"
  s_end :: "stream_end option"
  s_again :: bool

datatype read_status = CONN_READ_SUCCESS | CONN_READ_ERROR | CONN_NO_DATA

text \<open>The status, the bytes read, and \<open>peer_closed_conn\<close>.\<close>

definition tcp_transport_read_data :: "u16 \<Rightarrow> socket \<Rightarrow> (read_status \<times> u8 list \<times> bool) \<times> socket" where
  "tcp_transport_read_data len s =
     (if len = 0 then ((CONN_READ_SUCCESS, [], False), s)
      else if s_data s \<noteq> [] then
        ((CONN_READ_SUCCESS, take (unat len) (s_data s), False), s\<lparr>s_data := drop (unat len) (s_data s)\<rparr>)
      else case s_end s of
          None \<Rightarrow> ((CONN_NO_DATA, [], False), s\<lparr>s_again := True\<rparr>)
        | Some Peer_closed \<Rightarrow>
            if s_again s then ((CONN_NO_DATA, [], False), s) else ((CONN_READ_ERROR, [], True), s)
        | Some Conn_reset \<Rightarrow> ((CONN_READ_ERROR, [], True), s\<lparr>s_again := False\<rparr>)
        | Some Bad_fd \<Rightarrow> ((CONN_READ_ERROR, [], False), s\<lparr>s_again := False\<rparr>))"

section \<open>The channel\<close>

text \<open>
  \<open>main_conn_present\<close> is the flag of the datapath that the channel is bound to, \<open>invalid_states\<close> the
  global counter \<open>invalid_channel_state_g\<close>; \<open>closes\<close> counts the calls that close the descriptor and
  \<open>delivered\<close> holds what has been handed to the applications, the last one first.
\<close>

record cntlr_channel_info_t =
  auxiliary_id :: u32
  trnsprt_fd :: int
  state :: chn_state
  fsm_state :: xprt_proto_channel_state_e
  fsm_event :: xprt_proto_channel_event_e
  msg_state :: chn_msg_state
  msg_hdr :: "u8 list"
  hdr_len_read :: u8
  msg_len_read :: u8
  msg_buf :: "of_msg option"
  is_chn_added_to_dp :: bool
  is_chn_added_2_hash_tbl :: bool
  dp_handle :: u64
  datapath :: bool
  recv_bytes :: u64
  drain_out_bytes :: u32
  sock :: socket
  main_conn_present :: bool
  invalid_states :: u32
  closes :: nat
  delivered :: "u8 list list"

text \<open>
  What the code finds around the channel: the byte order of the host, the allocation of a message for
  a type and a size, whether the descriptor is polled, and whether polling and closing it succeed.
\<close>

record trnsprt_env =
  be_host :: bool
  alloc_message :: "u8 \<Rightarrow> u16 \<Rightarrow> of_msg option"
  fd_dedicated :: bool
  epoll_ok :: bool
  close_ok :: bool

section \<open>Learning, detaching, closing\<close>

definition fsm_xprt_proto_channel_learn_dp ::
  "trnsprt_env \<Rightarrow> cntlr_channel_info_t \<Rightarrow> bool \<times> cntlr_channel_info_t" where
  "fsm_xprt_proto_channel_learn_dp env channel =
     (let channel = channel\<lparr>is_chn_added_to_dp := True, fsm_state := BOUND_TO_DP\<rparr>
      in (fd_dedicated env \<longrightarrow> epoll_ok env, channel))"

definition fsm_xprt_proto_channel_detach_dp ::
  "trnsprt_env \<Rightarrow> cntlr_channel_info_t \<Rightarrow> bool \<times> cntlr_channel_info_t" where
  "fsm_xprt_proto_channel_detach_dp env channel =
     (if \<not> is_chn_added_to_dp channel then (True, channel)
      else if fd_dedicated env \<and> 0 < trnsprt_fd channel \<and> \<not> epoll_ok env then (False, channel)
      else (True, channel\<lparr>main_conn_present := False, state := CONN_CLOSED, datapath := False, dp_handle := 0,
              is_chn_added_to_dp := False, fsm_state := WAIT_FOR_HANDSHAKE\<rparr>))"

definition xprt_proto_channel_close ::
  "trnsprt_env \<Rightarrow> cntlr_channel_info_t \<Rightarrow> (bool \<times> cntlr_channel_info_t) option" where
  "xprt_proto_channel_close env channel =
     (let channel = channel\<lparr>fsm_event := DP_DETACH_EVENT\<rparr>
      in case cntlr_xprt_proto_channel_fsm_handler (fsm_state channel) DP_DETACH_EVENT of
           None \<Rightarrow> None
         | Some h \<Rightarrow>
             let channel = (if h = channel_detach_dp then snd (fsm_xprt_proto_channel_detach_dp env channel)
                            else channel);
                 channel = channel\<lparr>closes := closes channel + 1\<rparr>
             in if \<not> close_ok env then Some (False, channel)
                else let channel = channel\<lparr>sock := (sock channel)\<lparr>s_data := [], s_end := Some Bad_fd\<rparr>, fsm_state := CLOSE_CONN\<rparr>
                     in if state channel \<noteq> CLOSE_INITIATED \<and> is_chn_added_2_hash_tbl channel
                        then Some (True, channel\<lparr>is_chn_added_2_hash_tbl := False, state := CLOSE_INITIATED\<rparr>)
                        else Some (True, channel))"

text \<open>
  What closing does to the channel itself.  Closing a main channel closes the auxiliary channels of its datapath
  first; that part of the function is \<open>close_with_aux\<close> in \<open>DpChannels\<close>.
\<close>

definition fsm_xprt_proto_channel_close ::
  "trnsprt_env \<Rightarrow> cntlr_channel_info_t \<Rightarrow> (bool \<times> cntlr_channel_info_t) option" where
  "fsm_xprt_proto_channel_close = xprt_proto_channel_close"

section \<open>Reading, and discarding the rest of a message\<close>

text \<open>\<open>channel->msg_hdr.length\<close> as the code reads it, and through \<open>ntohs\<close>.\<close>

definition hdr_length_host :: "bool \<Rightarrow> u8 list \<Rightarrow> u16" where
  "hdr_length_host be h = of_be (if be then [h ! 2, h ! 3] else [h ! 3, h ! 2])"

definition hdr_length :: "u8 list \<Rightarrow> u16" where
  "hdr_length h = of_be [h ! 2, h ! 3]"

text \<open>\<open>dispatch\<close> calls the handler for the event that the failure has set.\<close>

definition fsm_xprt_proto_channel_read_msg_from_dp ::
  "(cntlr_channel_info_t \<Rightarrow> cntlr_channel_info_t option) \<Rightarrow> trnsprt_env \<Rightarrow> u16
    \<Rightarrow> cntlr_channel_info_t \<Rightarrow> ((bool \<times> u8 list) \<times> cntlr_channel_info_t) option" where
  "fsm_xprt_proto_channel_read_msg_from_dp dispatch env len channel =
     (case tcp_transport_read_data len (sock channel) of
        ((status, bytes, peer_closed_conn), s) \<Rightarrow>
          let channel = channel\<lparr>sock := s\<rparr>
          in if status \<noteq> CONN_READ_SUCCESS then
               let channel = channel\<lparr>msg_state := DRAIN_OUT_COMPLETE_MSG\<rparr>
               in if \<not> peer_closed_conn \<and> fsm_event channel = READ_FAIL_EVENT then Some ((False, []), channel)
                  else let channel = channel\<lparr>fsm_event := (if peer_closed_conn then CLOSE_EVENT else READ_FAIL_EVENT),
                             drain_out_bytes := ucast (hdr_length_host (be_host env) (msg_hdr channel))
                               - of_nat sizeof_ofp_header\<rparr>
                       in map_option (\<lambda>channel. ((False, []), channel)) (dispatch channel)
             else Some ((True, bytes), channel\<lparr>recv_bytes := recv_bytes channel + of_nat (length bytes)\<rparr>))"

definition OF_SOCKET_BUFFER_READ_LENGTH_FOR_DRAIN_OUT :: nat where
  "OF_SOCKET_BUFFER_READ_LENGTH_FOR_DRAIN_OUT = 256"

lemma tcp_read_some:
  "tcp_transport_read_data len s = ((CONN_READ_SUCCESS, bytes, p), s') \<Longrightarrow> len \<noteq> 0 \<Longrightarrow>
    bytes \<noteq> [] \<and> length bytes \<le> unat len"
  by (auto simp: tcp_transport_read_data_def unat_eq_zero split: if_splits option.splits stream_end.splits)

lemma read_msg_some:
  "fsm_xprt_proto_channel_read_msg_from_dp dispatch env len channel = Some ((True, bytes), channel') \<Longrightarrow>
    len \<noteq> 0 \<Longrightarrow> bytes \<noteq> [] \<and> length bytes \<le> unat len"
  by (auto simp: fsm_xprt_proto_channel_read_msg_from_dp_def Let_def dest: tcp_read_some
      split: prod.splits if_splits option.splits)

lemma drain_size: "0 < n \<Longrightarrow> (of_nat (min n OF_SOCKET_BUFFER_READ_LENGTH_FOR_DRAIN_OUT) :: u16) \<noteq> 0
    \<and> unat (of_nat (min n OF_SOCKET_BUFFER_READ_LENGTH_FOR_DRAIN_OUT) :: u16) \<le> n"
  by (simp add: OF_SOCKET_BUFFER_READ_LENGTH_FOR_DRAIN_OUT_def unat_of_nat take_bit_nat_eq_self word_of_nat_eq_0_iff nat_dvd_not_less)

text \<open>Each round reads at least one byte, so the loop ends.\<close>

function drain_loop ::
  "(cntlr_channel_info_t \<Rightarrow> cntlr_channel_info_t option) \<Rightarrow> trnsprt_env \<Rightarrow> nat
    \<Rightarrow> cntlr_channel_info_t \<Rightarrow> (bool \<times> cntlr_channel_info_t) option" where
  "drain_loop dispatch env bytes_to_read channel =
     (if bytes_to_read = 0 then Some (True, channel)
      else case fsm_xprt_proto_channel_read_msg_from_dp dispatch env
                  (of_nat (min bytes_to_read OF_SOCKET_BUFFER_READ_LENGTH_FOR_DRAIN_OUT)) channel of
          None \<Rightarrow> None
        | Some ((False, _), channel) \<Rightarrow>
            Some (False, channel\<lparr>msg_state := WAITING_FOR_NEW_MSG, drain_out_bytes := 0\<rparr>)
        | Some ((True, bytes), channel) \<Rightarrow>
            let bytes_to_read = bytes_to_read - length bytes;
                channel = (if bytes_to_read = 0
                           then channel\<lparr>msg_state := WAITING_FOR_NEW_MSG, drain_out_bytes := 0\<rparr> else channel)
            in drain_loop dispatch env bytes_to_read channel)"
  by pat_completeness auto
termination
proof (relation "measure (\<lambda>(_, _, n, _). n)", goal_cases)
  case 1
  show ?case by simp
next
  case 2
  then show ?case using drain_size by (fastforce dest!: read_msg_some)
qed

declare drain_loop.simps [simp del]

definition of_drain_out_socket_buf ::
  "(cntlr_channel_info_t \<Rightarrow> cntlr_channel_info_t option) \<Rightarrow> trnsprt_env \<Rightarrow> u16
    \<Rightarrow> cntlr_channel_info_t \<Rightarrow> (bool \<times> cntlr_channel_info_t) option" where
  "of_drain_out_socket_buf dispatch env len = drain_loop dispatch env (unat len)"

text \<open>
  The handlers a failed read can reach: while the rest of a message is discarded only the close
  handler, since the event is the read failure already.
\<close>

definition dispatch_close :: "trnsprt_env \<Rightarrow> cntlr_channel_info_t \<Rightarrow> cntlr_channel_info_t option" where
  "dispatch_close env channel =
     (case cntlr_xprt_proto_channel_fsm_handler (fsm_state channel) CLOSE_EVENT of
        None \<Rightarrow> None
      | Some h \<Rightarrow> if h = channel_close then map_option snd (fsm_xprt_proto_channel_close env channel)
                  else Some channel)"

definition fsm_xprt_proto_channel_read_error ::
  "trnsprt_env \<Rightarrow> cntlr_channel_info_t \<Rightarrow> (bool \<times> cntlr_channel_info_t) option" where
  "fsm_xprt_proto_channel_read_error env channel =
     (if msg_state channel \<noteq> DRAIN_OUT_COMPLETE_MSG then Some (True, channel)
      else of_drain_out_socket_buf (dispatch_close env) env (ucast (drain_out_bytes channel)) channel)"

text \<open>The handler for a failed read, for any of the events that a failure sets.\<close>

definition dispatch_fail :: "trnsprt_env \<Rightarrow> cntlr_channel_info_t \<Rightarrow> cntlr_channel_info_t option" where
  "dispatch_fail env channel =
     (case cntlr_xprt_proto_channel_fsm_handler (fsm_state channel) (fsm_event channel) of
        None \<Rightarrow> None
      | Some h \<Rightarrow>
          if h = channel_read_error then map_option snd (fsm_xprt_proto_channel_read_error env channel)
          else if h = channel_close then map_option snd (fsm_xprt_proto_channel_close env channel)
          else if h = channel_detach_dp then Some (snd (fsm_xprt_proto_channel_detach_dp env channel))
          else Some channel)"

section \<open>Events from outside\<close>

text \<open>Learning dereferences the connection properties, which are \<open>NULL\<close> here: \<open>None\<close> as well.\<close>

definition fsm_send_channel_event ::
  "trnsprt_env \<Rightarrow> (cntlr_channel_info_t \<Rightarrow> cntlr_channel_info_t option) \<Rightarrow> xprt_proto_channel_event_e
    \<Rightarrow> cntlr_channel_info_t \<Rightarrow> cntlr_channel_info_t option" where
  "fsm_send_channel_event env read_handler e channel =
     (let channel = channel\<lparr>fsm_event := e\<rparr>
      in case cntlr_xprt_proto_channel_fsm_handler (fsm_state channel) e of
           None \<Rightarrow> None
         | Some channel_learn \<Rightarrow> None
         | Some channel_learn_dp \<Rightarrow> Some (snd (fsm_xprt_proto_channel_learn_dp env channel))
         | Some channel_read \<Rightarrow> read_handler channel
         | Some _ \<Rightarrow>
             map_option (\<lambda>channel. if e = DP_DETACH_EVENT then channel\<lparr>fsm_state := WAIT_FOR_HANDSHAKE\<rparr> else channel)
               (dispatch_fail env channel))"

definition fsm_update_channel_state ::
  "trnsprt_env \<Rightarrow> (cntlr_channel_info_t \<Rightarrow> cntlr_channel_info_t option) \<Rightarrow> xprt_proto_channel_state_e
    \<Rightarrow> cntlr_channel_info_t \<Rightarrow> cntlr_channel_info_t option" where
  "fsm_update_channel_state env read_handler st channel =
     (let channel = channel\<lparr>fsm_state := st\<rparr>
      in case st of
           BOUND_TO_DP \<Rightarrow>
             let channel = channel\<lparr>fsm_event := LEARN_EVENT\<rparr>
             in (case cntlr_xprt_proto_channel_fsm_handler (fsm_state channel) (fsm_event channel) of
                   None \<Rightarrow> None
                 | Some _ \<Rightarrow> dispatch_fail env channel)
         | CLOSE_CONN \<Rightarrow>
             let channel = channel\<lparr>fsm_event := CLOSE_EVENT\<rparr>
             in map_option (\<lambda>channel. channel\<lparr>fsm_state := CLOSE_CONN\<rparr>) (dispatch_fail env channel)
         | _ \<Rightarrow> Some channel)"

end
