(* ===== verification/ChannelRead.thy ===== *)
theory ChannelRead
  imports Channel MsgPool
begin

text \<open>
  Messages from the socket: \<open>fsm_xprt_proto_channel_read\<close>, which reads headers and the rest of split
  messages (\<open>transport/base/channel_fsm.c\<close>), the allocation of a message and the reading of its body by
  the handlers (\<open>messages/of_cntlr_msg.c\<close>), and \<open>of_read_and_process_msg_from_dp\<close>
  (\<open>transport/base/trnsprt_epoll.c\<close>), which the event loop calls while there are bytes to read.  The
  reading is compared with cutting the stream of bytes into messages.
\<close>

section \<open>Reading headers, and the rest of split messages\<close>

text \<open>A failed read of a header: detach and close if the peer has closed, the read failure otherwise.\<close>

definition header_read_failed :: "trnsprt_env \<Rightarrow> bool \<Rightarrow> cntlr_channel_info_t \<Rightarrow> cntlr_channel_info_t option" where
  "header_read_failed env peer_closed_conn channel =
     (if peer_closed_conn then
        (case dispatch_fail env (channel\<lparr>fsm_event := DP_DETACH_EVENT\<rparr>) of
           None \<Rightarrow> None
         | Some channel \<Rightarrow> dispatch_fail env (channel\<lparr>fsm_event := CLOSE_EVENT\<rparr>))
      else dispatch_fail env (channel\<lparr>fsm_event := READ_FAIL_EVENT\<rparr>))"

text \<open>
  A state the reader should not be in is counted.  When there have been too many, the identity of the
  datapath is logged, which dereferences the datapath, and the channel is closed.
\<close>

definition invalid_state :: "trnsprt_env \<Rightarrow> u32 \<Rightarrow> cntlr_channel_info_t \<Rightarrow> (bool \<times> cntlr_channel_info_t) option" where
  "invalid_state env limit channel =
     (let channel = channel\<lparr>invalid_states := invalid_states channel + 1\<rparr>
      in if limit \<le> invalid_states channel
         then if \<not> datapath channel then None else map_option (\<lambda>channel. (True, channel)) (fsm_send_channel_event env Some CLOSE_EVENT channel)
         else Some (True, channel))"

definition fsm_xprt_proto_channel_read ::
  "trnsprt_env \<Rightarrow> cntlr_channel_info_t \<Rightarrow> (bool \<times> cntlr_channel_info_t) option" where
  "fsm_xprt_proto_channel_read env channel =
     (case msg_state channel of
        WAITING_FOR_NEW_MSG \<Rightarrow>
          (case tcp_transport_read_data (of_nat sizeof_ofp_header) (sock channel) of
             ((status, bytes, peer_closed_conn), s) \<Rightarrow>
               let channel = channel\<lparr>sock := s\<rparr>
               in if status \<noteq> CONN_READ_SUCCESS then
                    map_option (\<lambda>channel. (False, channel)) (header_read_failed env peer_closed_conn channel)
                  else
                    let channel = channel\<lparr>msg_hdr := bytes @ drop (length bytes) (msg_hdr channel)\<rparr>;
                        channel = channel\<lparr>msg_len_read := 0\<rparr>
                    in if length bytes = sizeof_ofp_header
                       then Some (True, channel\<lparr>msg_state := START_READING_MSG,
                              hdr_len_read := of_nat (length bytes), msg_buf := None\<rparr>)
                       else Some (True, channel\<lparr>hdr_len_read := of_nat (length bytes),
                              msg_state := WAITING_FOR_MSG_HEADER\<rparr>))
      | WAITING_FOR_MSG_HEADER \<Rightarrow>
          (case tcp_transport_read_data (of_nat (sizeof_ofp_header - unat (hdr_len_read channel))) (sock channel) of
             ((status, bytes, peer_closed_conn), s) \<Rightarrow>
               let channel = channel\<lparr>sock := s\<rparr>
               in if status \<noteq> CONN_READ_SUCCESS then
                    map_option (\<lambda>channel. (False, channel)) (header_read_failed env peer_closed_conn channel)
                  else
                    let n = unat (hdr_len_read channel);
                        channel = channel\<lparr>msg_hdr := take n (msg_hdr channel) @ bytes
                          @ drop (n + length bytes) (msg_hdr channel)\<rparr>;
                        channel = channel\<lparr>hdr_len_read := hdr_len_read channel + of_nat (length bytes)\<rparr>
                    in if n + length bytes = sizeof_ofp_header
                       then Some (True, channel\<lparr>msg_state := START_READING_MSG, msg_buf := None\<rparr>)
                       else Some (True, channel))
      | WAITING_FOR_COMPLETE_MSG \<Rightarrow>
          (case msg_buf channel of
             None \<Rightarrow> None
           | Some buf \<Rightarrow>
               let len = hdr_length_host (be_host env) (msg_hdr channel);
                   len_2_read = ucast len - ucast (length1 buf) :: u32
               in if len = 0 \<or> msg_len_read channel = 0 then invalid_state env 10 channel
                  else if len_2_read = 0 then Some (True, channel\<lparr>msg_state := RCVD_COMPLETE_MSG\<rparr>)
                  else case tcp_transport_read_data (ucast len_2_read) (sock channel) of
                    ((status, bytes, peer_closed_conn), s) \<Rightarrow>
                      let channel = channel\<lparr>sock := s\<rparr>
                      in if status \<noteq> CONN_READ_SUCCESS then
                           let channel = channel\<lparr>msg_state := DRAIN_OUT_COMPLETE_MSG,
                                 fsm_event := (if peer_closed_conn then CLOSE_EVENT else READ_FAIL_EVENT),
                                 drain_out_bytes := ucast len - of_nat sizeof_ofp_header\<rparr>
                           in map_option (\<lambda>channel. (False, channel\<lparr>msg_buf := None\<rparr>)) (dispatch_fail env channel)
                         else
                           let buf = poke (ptr1 buf + unat (msg_len_read channel)) bytes buf
                           in if of_nat (length bytes) = len_2_read
                              then Some (True, channel\<lparr>msg_state := RCVD_COMPLETE_MSG,
                                     msg_buf := Some (buf\<lparr>data_len := length1 buf + of_nat (length bytes)\<rparr>)\<rparr>)
                              else Some (True, channel\<lparr>msg_len_read := msg_len_read channel + of_nat (length bytes),
                                     msg_buf := Some (buf\<lparr>length1 := length1 buf + of_nat (length bytes)\<rparr>)\<rparr>))
      | _ \<Rightarrow> invalid_state env 5 channel)"

section \<open>Reading the body of a message\<close>

definition OF_TRNSPRT_CHN_RESET_2_READ_NEW_MSG :: "cntlr_channel_info_t \<Rightarrow> cntlr_channel_info_t" where
  "OF_TRNSPRT_CHN_RESET_2_READ_NEW_MSG channel =
     channel\<lparr>msg_buf := None, msg_state := WAITING_FOR_NEW_MSG, hdr_len_read := 0\<rparr>"

text \<open>The allocated message with the header copied in.\<close>

definition start_message :: "u8 list \<Rightarrow> of_msg \<Rightarrow> of_msg" where
  "start_message h buf =
     (let buf = poke (start_of_data buf) (take sizeof_ofp_header h) buf
      in buf\<lparr>length1 := of_nat sizeof_ofp_header, data_len := of_nat sizeof_ofp_header,
             ptr1 := start_of_data buf + sizeof_ofp_header\<rparr>)"

text \<open>No memory primitive is configured for the message type, so the message comes from the pools.\<close>

definition of_alloc_and_read_async_message ::
  "trnsprt_env \<Rightarrow> cntlr_channel_info_t \<Rightarrow> (bool \<times> cntlr_channel_info_t) option" where
  "of_alloc_and_read_async_message env channel =
     (let h = msg_hdr channel
      in if msg_state channel = START_READING_MSG then
           (case alloc_message env (h ! 1) (hdr_length h) of
              None \<Rightarrow>
                map_option (\<lambda>(_, channel). (False, channel\<lparr>msg_buf := None\<rparr>))
                  (of_drain_out_socket_buf (dispatch_fail env) env (hdr_length h - of_nat sizeof_ofp_header)
                    (channel\<lparr>msg_buf := None\<rparr>))
            | Some buf \<Rightarrow>
                let buf = start_message h buf;
                    channel = channel\<lparr>msg_buf := Some buf, msg_state := WAITING_FOR_COMPLETE_MSG\<rparr>;
                    len_of_bytes_2_read = hdr_length h - length1 buf
                in if len_of_bytes_2_read = 0 then Some (True, channel\<lparr>msg_state := RCVD_COMPLETE_MSG\<rparr>)
                   else case fsm_xprt_proto_channel_read_msg_from_dp (dispatch_fail env) env len_of_bytes_2_read channel of
                     None \<Rightarrow> None
                   | Some ((False, _), channel) \<Rightarrow> Some (False, channel\<lparr>msg_buf := None\<rparr>)
                   | Some ((True, bytes), channel) \<Rightarrow>
                       let buf = poke (ptr1 buf) bytes buf;
                           len_recvd = of_nat (length bytes)
                       in if len_recvd = len_of_bytes_2_read
                          then Some (True, channel\<lparr>msg_state := RCVD_COMPLETE_MSG,
                                 msg_buf := Some (buf\<lparr>data_len := length1 buf + len_recvd\<rparr>)\<rparr>)
                          else Some (True, channel\<lparr>msg_buf := Some (buf\<lparr>length1 := length1 buf + len_recvd\<rparr>),
                                 msg_len_read := ucast len_recvd\<rparr>))
         else if msg_state channel = WAITING_FOR_COMPLETE_MSG \<or> msg_state channel = WAITING_FOR_MSG_HEADER then
           (case msg_buf channel of
              None \<Rightarrow> None
            | Some buf \<Rightarrow>
                let len_of_bytes_2_read = hdr_length h - length1 buf
                in case fsm_xprt_proto_channel_read_msg_from_dp (dispatch_fail env) env len_of_bytes_2_read channel of
                     None \<Rightarrow> None
                   | Some ((False, _), channel) \<Rightarrow> Some (False, channel\<lparr>msg_buf := None\<rparr>)
                   | Some ((True, bytes), channel) \<Rightarrow>
                       let buf = poke (ptr1 buf) bytes buf;
                           len_recvd = of_nat (length bytes)
                       in if len_recvd = len_of_bytes_2_read
                          then Some (True, channel\<lparr>msg_state := RCVD_COMPLETE_MSG,
                                 msg_buf := Some (buf\<lparr>data_len := length1 buf + len_recvd\<rparr>)\<rparr>)
                          else Some (True, channel\<lparr>msg_buf := Some (buf\<lparr>ptr1 := ptr1 buf + length bytes,
                                 length1 := length1 buf + len_recvd\<rparr>)\<rparr>))
         else Some (True, channel))"

definition of_alloc_and_read_message_from_dp ::
  "trnsprt_env \<Rightarrow> cntlr_channel_info_t \<Rightarrow> (bool \<times> cntlr_channel_info_t) option" where
  "of_alloc_and_read_message_from_dp env channel =
     (let h = msg_hdr channel;
          body = (\<lambda>buf channel.
            let len_of_bytes_2_read = hdr_length h - length1 buf
            in case fsm_xprt_proto_channel_read_msg_from_dp (dispatch_fail env) env len_of_bytes_2_read channel of
                 None \<Rightarrow> None
               | Some ((False, _), channel) \<Rightarrow> Some (False, channel)
               | Some ((True, bytes), channel) \<Rightarrow>
                   let buf = poke (ptr1 buf) bytes buf;
                       len_recvd = of_nat (length bytes)
                   in if len_recvd = len_of_bytes_2_read
                      then Some (True, channel\<lparr>msg_state := RCVD_COMPLETE_MSG,
                             msg_buf := Some (buf\<lparr>data_len := length1 buf + len_recvd\<rparr>)\<rparr>)
                      else Some (True, channel\<lparr>msg_state := WAITING_FOR_COMPLETE_MSG,
                             msg_buf := Some (buf\<lparr>ptr1 := ptr1 buf + length bytes, length1 := length1 buf + len_recvd\<rparr>)\<rparr>))
      in if msg_state channel = START_READING_MSG then
           (case alloc_message env (h ! 1) (hdr_length h) of
              None \<Rightarrow>
                map_option (\<lambda>(_, channel). (False, channel))
                  (of_drain_out_socket_buf (dispatch_fail env) env (hdr_length h - of_nat sizeof_ofp_header) channel)
            | Some buf \<Rightarrow>
                let buf = start_message h buf;
                    channel = channel\<lparr>msg_buf := Some buf\<rparr>
                in if hdr_length h - length1 buf = 0 then Some (True, channel\<lparr>msg_state := RCVD_COMPLETE_MSG\<rparr>)
                   else map_option (\<lambda>(status, channel). (status, if status then channel else channel\<lparr>msg_buf := None\<rparr>))
                          (body buf channel))
         else if msg_state channel = WAITING_FOR_COMPLETE_MSG then
           (case msg_buf channel of None \<Rightarrow> None | Some buf \<Rightarrow> body buf channel)
         else Some (True, channel))"

section \<open>The handlers\<close>

datatype msg_cbk =
    of_handle_hello_message | of_handle_error_msg_event | of_echo_req_handler | of_echo_reply_handler
  | of_handle_experimenter_event | of_handle_feature_reply_message | of_cfg_reply_handler
  | of_handle_pkt_in_msg | of_handle_flow_removed_event | of_handle_port_status_msg_event
  | of_process_multipart_replymsg | of_process_barrier_replymsg | of_msg_not_supported
  | of_process_role_replymsg | of_process_async_replymsg

definition cntlr_cbk :: "msg_cbk option list" where
  "cntlr_cbk =
    [Some of_handle_hello_message, Some of_handle_error_msg_event, Some of_echo_req_handler,
     Some of_echo_reply_handler, Some of_handle_experimenter_event, None, Some of_handle_feature_reply_message,
     None, Some of_cfg_reply_handler, None, Some of_handle_pkt_in_msg, Some of_handle_flow_removed_event,
     Some of_handle_port_status_msg_event, None, None, None, None, None, None,
     Some of_process_multipart_replymsg, None, Some of_process_barrier_replymsg, None,
     Some of_msg_not_supported, None, Some of_process_role_replymsg, None,
     Some of_process_async_replymsg, None, None]"

text \<open>Whether the handler goes on with a complete message.\<close>

definition OF_READ_ASYNC_MSG ::
  "trnsprt_env \<Rightarrow> cntlr_channel_info_t \<Rightarrow> (bool \<times> cntlr_channel_info_t) option" where
  "OF_READ_ASYNC_MSG env channel =
     (if msg_state channel \<noteq> RCVD_COMPLETE_MSG then
        (case of_alloc_and_read_async_message env channel of
           None \<Rightarrow> None
         | Some (status, channel) \<Rightarrow> Some (status \<and> msg_state channel \<noteq> WAITING_FOR_COMPLETE_MSG, channel))
      else Some (True, channel))"

definition OF_READ_COMPLETE_MSG ::
  "trnsprt_env \<Rightarrow> cntlr_channel_info_t \<Rightarrow> (bool \<times> cntlr_channel_info_t) option" where
  "OF_READ_COMPLETE_MSG env channel =
     (if msg_state channel \<noteq> RCVD_COMPLETE_MSG then
        (case of_alloc_and_read_message_from_dp env channel of
           None \<Rightarrow> None
         | Some (status, channel) \<Rightarrow> Some (status \<and> msg_state channel \<noteq> WAITING_FOR_COMPLETE_MSG, channel))
      else Some (True, channel))"

text \<open>The message buffer goes to the applications, which read the bytes it counts.\<close>

definition deliver :: "cntlr_channel_info_t \<Rightarrow> cntlr_channel_info_t option" where
  "deliver channel =
     map_option (\<lambda>buf. channel\<lparr>delivered :=
         read_bytes (start_of_data buf) (unat (data_len buf)) (mem buf) # delivered channel\<rparr>) (msg_buf channel)"

definition reset_if_complete :: "cntlr_channel_info_t \<Rightarrow> cntlr_channel_info_t" where
  "reset_if_complete channel =
     (if msg_state channel = RCVD_COMPLETE_MSG then OF_TRNSPRT_CHN_RESET_2_READ_NEW_MSG channel else channel)"

text \<open>
  Experimenter and port status messages; \<open>inform_event_to_app\<close> passes them on.  The handlers begin by
  dereferencing the datapath of the channel.
\<close>

definition handle_event :: "trnsprt_env \<Rightarrow> cntlr_channel_info_t \<Rightarrow> cntlr_channel_info_t option" where
  "handle_event env channel =
     (if \<not> datapath channel then None else case OF_READ_ASYNC_MSG env channel of
        None \<Rightarrow> None
      | Some (go_on, channel) \<Rightarrow>
          map_option reset_if_complete (if go_on then deliver channel else Some channel))"

definition echo_req_handler :: "trnsprt_env \<Rightarrow> cntlr_channel_info_t \<Rightarrow> cntlr_channel_info_t option" where
  "echo_req_handler env channel =
     (if \<not> datapath channel then None else case OF_READ_COMPLETE_MSG env channel of
        None \<Rightarrow> None
      | Some (go_on, channel) \<Rightarrow>
          if go_on then map_option OF_TRNSPRT_CHN_RESET_2_READ_NEW_MSG (deliver channel) else Some channel)"

text \<open>\<open>other\<close> stands for the handlers that are not modelled.\<close>

definition of_process_dp_message ::
  "trnsprt_env \<Rightarrow> (msg_cbk \<Rightarrow> cntlr_channel_info_t \<Rightarrow> cntlr_channel_info_t option)
    \<Rightarrow> cntlr_channel_info_t \<Rightarrow> (bool \<times> cntlr_channel_info_t) option" where
  "of_process_dp_message env other channel =
     (let ty = unat (msg_hdr channel ! 1)
      in if ty < length cntlr_cbk then
           (case cntlr_cbk ! ty of
              None \<Rightarrow> Some (True, channel)
            | Some h \<Rightarrow> map_option (\<lambda>channel. (True, channel))
                (if h = of_handle_experimenter_event \<or> h = of_handle_port_status_msg_event then handle_event env channel
                 else if h = of_echo_req_handler then echo_req_handler env channel
                 else other h channel))
         else Some (False, OF_TRNSPRT_CHN_RESET_2_READ_NEW_MSG channel))"

definition OFPT_EXPERIMENTER :: u8 where "OFPT_EXPERIMENTER = 4"
definition FSLX_VERSION :: u8 where "FSLX_VERSION = 0x81"
definition version_1_3 :: u8 where "version_1_3 = 4"

definition of_read_and_process_msg_from_dp ::
  "trnsprt_env \<Rightarrow> (msg_cbk \<Rightarrow> cntlr_channel_info_t \<Rightarrow> cntlr_channel_info_t option)
    \<Rightarrow> cntlr_channel_info_t \<Rightarrow> cntlr_channel_info_t option" where
  "of_read_and_process_msg_from_dp env other channel =
     (let channel = channel\<lparr>fsm_event := READ_EVENT\<rparr>
      in if fsm_state channel = CLOSE_CONN then Some channel
         else case cntlr_xprt_proto_channel_fsm_handler (fsm_state channel) READ_EVENT of
             None \<Rightarrow> None
           | Some _ \<Rightarrow>
               (case fsm_xprt_proto_channel_read env channel of
                  None \<Rightarrow> None
                | Some (False, channel) \<Rightarrow> Some channel
                | Some (True, channel) \<Rightarrow>
                    let version = msg_hdr channel ! 0;
                        len = hdr_length_host (be_host env) (msg_hdr channel)
                    in if version \<noteq> version_1_3 \<and> version \<noteq> FSLX_VERSION
                       then Some (OF_TRNSPRT_CHN_RESET_2_READ_NEW_MSG channel)
                       else if msg_hdr channel ! 1 \<noteq> OFPT_EXPERIMENTER \<and> version = FSLX_VERSION then
                         map_option OF_TRNSPRT_CHN_RESET_2_READ_NEW_MSG
                           (if len \<noteq> 0 \<and> unat len \<noteq> sizeof_ofp_header
                            then map_option snd (of_drain_out_socket_buf (dispatch_fail env) env
                                   (len - of_nat sizeof_ofp_header) channel)
                            else Some channel)
                       else if msg_state channel = START_READING_MSG \<or> msg_state channel = RCVD_COMPLETE_MSG
                       then map_option snd (of_process_dp_message env other channel)
                       else Some channel))"

section \<open>The event loop\<close>

text \<open>The loop calls the reader while there are bytes; \<open>rounds\<close> bounds the calls.\<close>

fun serve :: "nat \<Rightarrow> (cntlr_channel_info_t \<Rightarrow> cntlr_channel_info_t option) \<Rightarrow> cntlr_channel_info_t \<Rightarrow> cntlr_channel_info_t option" where
  "serve 0 poll channel = Some channel"
| "serve (Suc rounds) poll channel =
     (if s_data (sock channel) = [] then Some channel
      else case poll channel of None \<Rightarrow> None | Some channel \<Rightarrow> serve rounds poll channel)"

definition arrive :: "u8 list \<Rightarrow> cntlr_channel_info_t \<Rightarrow> cntlr_channel_info_t" where
  "arrive bs channel = channel\<lparr>sock := (sock channel)\<lparr>s_data := s_data (sock channel) @ bs\<rparr>\<rparr>"

fun serve_all :: "(cntlr_channel_info_t \<Rightarrow> cntlr_channel_info_t option) \<Rightarrow> u8 list list \<Rightarrow> cntlr_channel_info_t \<Rightarrow> cntlr_channel_info_t option" where
  "serve_all poll [] channel = Some channel"
| "serve_all poll (bs # bss) channel =
     (case serve (length bs) poll (arrive bs channel) of
        None \<Rightarrow> None | Some channel \<Rightarrow> serve_all poll bss channel)"

section \<open>One call of the reader\<close>

text \<open>A message of a kind that is passed on as it is: version 1.3, an event, a length field that is true.\<close>

definition event_msg :: "u8 list \<Rightarrow> bool" where
  "event_msg m \<longleftrightarrow> sizeof_ofp_header \<le> length m \<and> length m < 65536 \<and> hdr_length m = of_nat (length m)
     \<and> m ! 0 = version_1_3 \<and> (m ! 1 = 4 \<or> m ! 1 = 12)"

text \<open>
  The channel after \<open>p\<close> bytes of message \<open>m\<close> have been taken from the socket.  Exactly the header is
  not among the positions it can rest at.  A body can wait for its rest on a big-endian host only, as the
  length in the header is used in the order of the host, and with less than 256 bytes, since that is all
  \<open>msg_len_read\<close> can count.
\<close>

definition rest_pos :: "bool \<Rightarrow> nat \<Rightarrow> bool" where
  "rest_pos be p \<longleftrightarrow> p < 8 \<or> (be \<and> 8 < p \<and> p < 264)"

definition at_pos :: "u8 list \<Rightarrow> nat \<Rightarrow> cntlr_channel_info_t \<Rightarrow> bool" where
  "at_pos m p channel \<longleftrightarrow> fsm_state channel = BOUND_TO_DP \<and> datapath channel \<and> length (msg_hdr channel) = 8 \<and>
     (if p = 0 then msg_state channel = WAITING_FOR_NEW_MSG
      else if p < 8 then msg_state channel = WAITING_FOR_MSG_HEADER \<and> unat (hdr_len_read channel) = p
        \<and> take p (msg_hdr channel) = take p m \<and> msg_len_read channel = 0
      else 8 < p \<and> p < 264 \<and> p < length m \<and> msg_state channel = WAITING_FOR_COMPLETE_MSG
        \<and> msg_hdr channel = take 8 m \<and> unat (msg_len_read channel) = p - 8
        \<and> (\<exists>buf. msg_buf channel = Some buf \<and> unat (length1 buf) = p \<and> ptr1 buf = start_of_data buf + 8
              \<and> read_bytes (start_of_data buf) p (mem buf) = take p m))"

text \<open>The socket after \<open>n\<close> bytes have been read from it.\<close>

definition after :: "nat \<Rightarrow> cntlr_channel_info_t \<Rightarrow> socket" where
  "after n channel = (sock channel)\<lparr>s_data := drop n (s_data (sock channel))\<rparr>"

lemma tcp_read:
  "s_data s \<noteq> [] \<Longrightarrow> len \<noteq> 0 \<Longrightarrow> tcp_transport_read_data len s =
     ((CONN_READ_SUCCESS, take (unat len) (s_data s), False), s\<lparr>s_data := drop (unat len) (s_data s)\<rparr>)"
  by (simp add: tcp_transport_read_data_def)

lemma read_ok:
  "s_data (sock c) \<noteq> [] \<Longrightarrow> len \<noteq> 0 \<Longrightarrow> fsm_xprt_proto_channel_read_msg_from_dp d env len c =
     Some ((True, take (unat len) (s_data (sock c))),
       c\<lparr>sock := after (unat len) c, recv_bytes := recv_bytes c + of_nat (min (unat len) (length (s_data (sock c))))\<rparr>)"
  by (simp add: fsm_xprt_proto_channel_read_msg_from_dp_def tcp_read Let_def after_def min.commute)

lemma hdr_take: "8 \<le> length m \<Longrightarrow> hdr_length (take 8 m) = hdr_length m \<and> take 8 m ! 0 = m ! 0 \<and> take 8 m ! 1 = m ! 1
    \<and> hdr_length_host True (take 8 m) = hdr_length m"
  by (simp add: hdr_length_def hdr_length_host_def)

lemma unat_ucast_16_32: "unat (ucast (w :: u16) :: u32) = unat w"
  using unat_u16_less [of w] by (simp add: unsigned_ucast_eq take_bit_nat_eq_self)

lemma unat_ucast_16_8: "unat (w :: u16) < 256 \<Longrightarrow> unat (ucast w :: u8) = unat w"
  by (simp add: unsigned_ucast_eq take_bit_nat_eq_self)

definition frame :: "cntlr_channel_info_t \<Rightarrow> cntlr_channel_info_t \<Rightarrow> bool" where
  "frame c c' \<longleftrightarrow> fsm_state c' = fsm_state c \<and> datapath c' = datapath c \<and> delivered c' = delivered c"

lemma header_incomplete:
  assumes "at_pos m p c" and "p < 8" and "s_data (sock c) \<noteq> []" and "p + length (s_data (sock c)) < 8"
    and "s_data (sock c) = take (length (s_data (sock c))) (drop p m)"
  shows "\<exists>c'. fsm_xprt_proto_channel_read env c = Some (True, c') \<and> at_pos m (p + length (s_data (sock c))) c'
    \<and> sock c' = after (length (s_data (sock c))) c \<and> frame c c'
    \<and> take 1 (msg_hdr c') = take 1 m \<and> (msg_state c' = WAITING_FOR_MSG_HEADER)"
proof -
  let ?s = "s_data (sock c)"
  have n: "0 < length ?s" using assms(3) by simp
  have take: "take (p + length ?s) m = take p m @ ?s" using assms(5) by (metis take_add)
  show ?thesis
  proof (cases "p = 0")
    case True
    then have "msg_state c = WAITING_FOR_NEW_MSG" using assms(1) by (simp add: at_pos_def)
    moreover have "take (Suc 0) ?s = take (Suc 0) m" "Suc 0 \<le> length ?s"
      using assms(5) True n by (metis Suc_leI drop0 min.absorb1 take_take, linarith)
    ultimately show ?thesis
      using True assms n take
      by (auto simp: fsm_xprt_proto_channel_read_def tcp_read sizeof_ofp_header_def Let_def at_pos_def after_def
          frame_def unat_of_nat take_bit_nat_eq_self Suc_le_eq)
  next
    case False
    then have c: "msg_state c = WAITING_FOR_MSG_HEADER" "unat (hdr_len_read c) = p" "take p (msg_hdr c) = take p m"
      "length (msg_hdr c) = 8" "fsm_state c = BOUND_TO_DP \<and> datapath c" "msg_len_read c = 0"
      using assms(1,2) by (simp_all add: at_pos_def)
    have u: "unat (of_nat (8 - p) :: u16) = 8 - p" by (simp add: unat_of_nat take_bit_nat_eq_self)
    have z: "(of_nat (8 - p) :: u16) \<noteq> 0" using u assms(2) by (metis unat_0 zero_less_diff less_numeral_extra(3))
    have rd: "tcp_transport_read_data (of_nat (sizeof_ofp_header - unat (hdr_len_read c))) (sock c)
        = ((CONN_READ_SUCCESS, take (8 - p) ?s, False), after (8 - p) c)"
      using tcp_read [OF assms(3) z] u c(2) by (simp add: sizeof_ofp_header_def after_def)
    have l: "take (8 - p) ?s = ?s" "drop (8 - p) ?s = []" using assms(4) by simp_all
    have h: "unat (hdr_len_read c + of_nat (length ?s)) = p + length ?s"
      using c(2) assms(4) by (simp add: unat_word_ariths(1) unat_of_nat take_bit_nat_eq_self)
    have pm: "p \<le> length m" using arg_cong [OF c(3), of length] c(4) assms(2) by simp
    have t1: "take (Suc 0) (take p m @ ?s) = take (Suc 0) m"
      using take by (metis Suc_leI n trans_less_add2 take_take min.absorb1 take_add add_gr_0)
    show ?thesis
      unfolding fsm_xprt_proto_channel_read_def c(1) chn_msg_state.case rd
      using False assms(2,4) c n l h take t1 pm
      by (auto simp: sizeof_ofp_header_def Let_def at_pos_def after_def frame_def)
  qed
qed

lemma header_complete:
  assumes "at_pos m p c" and "p < 8" and "8 \<le> p + length (s_data (sock c))"
    and "take (8 - p) (s_data (sock c)) = take (8 - p) (drop p m)"
  shows "\<exists>c'. fsm_xprt_proto_channel_read env c = Some (True, c') \<and> msg_state c' = START_READING_MSG
    \<and> msg_hdr c' = take 8 m \<and> msg_len_read c' = 0 \<and> sock c' = after (8 - p) c \<and> frame c c'"
proof -
  let ?s = "s_data (sock c)"
  have n: "?s \<noteq> []" using assms(2,3) by auto
  have take: "take 8 m = take p m @ take (8 - p) ?s"
    using assms(2,4) by (metis le_add_diff_inverse less_imp_le take_add)
  show ?thesis
  proof (cases "p = 0")
    case True
    then have "msg_state c = WAITING_FOR_NEW_MSG" "length (msg_hdr c) = 8" using assms(1) by (simp_all add: at_pos_def)
    then show ?thesis
      using True assms n take
      by (auto simp: fsm_xprt_proto_channel_read_def tcp_read sizeof_ofp_header_def Let_def after_def frame_def min_def)
  next
    case False
    then have c: "msg_state c = WAITING_FOR_MSG_HEADER" "unat (hdr_len_read c) = p" "take p (msg_hdr c) = take p m"
      "length (msg_hdr c) = 8" "msg_len_read c = 0"
      using assms(1,2) by (simp_all add: at_pos_def)
    have u: "unat (of_nat (8 - p) :: u16) = 8 - p" by (simp add: unat_of_nat take_bit_nat_eq_self)
    have z: "(of_nat (8 - p) :: u16) \<noteq> 0" using u assms(2) by (metis unat_0 zero_less_diff less_numeral_extra(3))
    have rd: "tcp_transport_read_data (of_nat (sizeof_ofp_header - unat (hdr_len_read c))) (sock c)
        = ((CONN_READ_SUCCESS, take (8 - p) ?s, False), after (8 - p) c)"
      using tcp_read [OF n z] u c(2) by (simp add: sizeof_ofp_header_def after_def)
    have l: "length (take (8 - p) ?s) = 8 - p" using assms(3) by simp
    show ?thesis
      unfolding fsm_xprt_proto_channel_read_def c(1) chn_msg_state.case rd
      using False assms(2) c l take
      by (auto simp: sizeof_ofp_header_def Let_def after_def frame_def)
  qed
qed

text \<open>A whole message in the buffer is delivered, and the channel waits for the next.\<close>

definition holds :: "u8 list \<Rightarrow> cntlr_channel_info_t \<Rightarrow> bool" where
  "holds m c \<longleftrightarrow> msg_state c = RCVD_COMPLETE_MSG \<and> length (msg_hdr c) = 8
     \<and> (\<exists>buf. msg_buf c = Some buf \<and> read_bytes (start_of_data buf) (unat (data_len buf)) (mem buf) = m)"

lemma holds_delivered:
  assumes "holds m c"
  shows "\<exists>c'. map_option reset_if_complete (deliver c) = Some c' \<and> msg_state c' = WAITING_FOR_NEW_MSG
    \<and> length (msg_hdr c') = 8 \<and> fsm_state c' = fsm_state c \<and> datapath c' = datapath c
    \<and> delivered c' = m # delivered c \<and> sock c' = sock c"
proof -
  have "deliver c = Some (c\<lparr>delivered := m # delivered c\<rparr>)" using assms by (auto simp: holds_def deliver_def)
  then show ?thesis
    using assms by (simp add: holds_def reset_if_complete_def OF_TRNSPRT_CHN_RESET_2_READ_NEW_MSG_def)
qed

lemma event_msg_length:
  assumes "event_msg m"
  shows "unat (hdr_length m) = length m" and "8 \<le> length m"
    and "unat (hdr_length m - 8) = length m - 8" and "hdr_length m - 8 = 0 \<longleftrightarrow> length m = 8"
proof -
  have l: "8 \<le> length m" "length m < 65536" "hdr_length m = of_nat (length m)"
    using assms by (simp_all add: event_msg_def sizeof_ofp_header_def)
  show u: "unat (hdr_length m) = length m" "8 \<le> length m" using l by simp_all
  show s: "unat (hdr_length m - 8) = length m - 8" using u by (subst unat_sub) (simp_all add: word_le_nat_alt)
  show "hdr_length m - 8 = 0 \<longleftrightarrow> length m = 8" using s u(2) unat_eq_0 [of "hdr_length m - 8"] by linarith
qed

lemma read_bytes_append:
  "read_bytes a p m = xs \<Longrightarrow> length xs = p \<Longrightarrow> read_bytes a (p + length bs) (write_bytes (a + p) bs m) = xs @ bs"
  by (simp add: read_bytes_split read_write_same read_write_disjoint)

lemma body_complete:
  assumes m: "event_msg m" and c: "msg_state c = START_READING_MSG" "msg_hdr c = take 8 m"
    and env: "\<And>ty sz. alloc_message env ty sz \<noteq> None"
    and s: "length m - 8 \<le> length (s_data (sock c))" "take (length m - 8) (s_data (sock c)) = drop 8 m"
  shows "\<exists>c'. OF_READ_ASYNC_MSG env c = Some (True, c') \<and> holds m c'
    \<and> sock c' = after (length m - 8) c \<and> frame c c'"
proof -
  note l = event_msg_length [OF m]
  note h = hdr_take [OF l(2)]
  obtain buf where a: "alloc_message env (m ! 1) (hdr_length m) = Some buf" using env by fastforce
  have rb: "read_bytes (start_of_data buf) 8 (write_bytes (start_of_data buf) (take 8 m) M) = take 8 m" for M
    using l(2) by (simp add: read_write_same')
  show ?thesis
  proof (cases "length m = 8")
    case True
    then show ?thesis
      using c h a l rb
      by (auto simp: OF_READ_ASYNC_MSG_def of_alloc_and_read_async_message_def Let_def start_message_def
          sizeof_ofp_header_def holds_def after_def frame_def)
  next
    case False
    then have n: "s_data (sock c) \<noteq> []" "hdr_length m - 8 \<noteq> 0" using s(1) l by auto
    have mm: "take 8 m @ drop 8 m = m" by simp
    have bytes: "read_bytes (start_of_data buf) (length m)
        (write_bytes (start_of_data buf + 8) (drop 8 m) (write_bytes (start_of_data buf) (take 8 m) M)) = m" for M
      using read_bytes_append [OF rb, of "drop 8 m" M] l(2) by simp
    have lm: "(of_nat (length (drop 8 m)) :: u16) = hdr_length m - 8"
      using l(3) by (metis length_drop of_nat_unat ucast_id)
    have "8 + (hdr_length m - 8) = hdr_length m" by simp
    then show ?thesis
      using c h a l n s bytes lm
      by (auto simp: OF_READ_ASYNC_MSG_def of_alloc_and_read_async_message_def Let_def start_message_def
          sizeof_ofp_header_def holds_def after_def frame_def read_ok)
  qed
qed

text \<open>Part of the body, but not all of it.\<close>

lemma body_partial:
  assumes m: "event_msg m" and c: "msg_state c = START_READING_MSG" "msg_hdr c = take 8 m"
    and env: "\<And>ty sz. alloc_message env ty sz \<noteq> None"
    and s: "s_data (sock c) \<noteq> []" "length (s_data (sock c)) < length m - 8"
    and d: "s_data (sock c) = take (length (s_data (sock c))) (drop 8 m)"
  shows "\<exists>c' buf. OF_READ_ASYNC_MSG env c = Some (False, c') \<and> msg_buf c' = Some buf
    \<and> unat (length1 buf) = 8 + length (s_data (sock c)) \<and> ptr1 buf = start_of_data buf + 8
    \<and> read_bytes (start_of_data buf) (8 + length (s_data (sock c))) (mem buf) = take (8 + length (s_data (sock c))) m
    \<and> unat (msg_len_read c') = length (s_data (sock c)) mod 256 \<and> msg_hdr c' = take 8 m
    \<and> sock c' = after (length (s_data (sock c))) c \<and> frame c c' \<and> msg_state c' = WAITING_FOR_COMPLETE_MSG"
proof -
  let ?s = "s_data (sock c)"
  note l = event_msg_length [OF m]
  note h = hdr_take [OF l(2)]
  have s3: "length ?s < 65528" using s(2) m unfolding event_msg_def by linarith
  obtain buf where a: "alloc_message env (m ! 1) (hdr_length m) = Some buf" using env by fastforce
  have rb: "read_bytes (start_of_data buf) 8 (write_bytes (start_of_data buf) (take 8 m) M) = take 8 m" for M
    using l(2) by (simp add: read_write_same')
  have n: "hdr_length m - 8 \<noteq> 0" using s l by auto
  have u: "unat (of_nat (length ?s) :: u16) = length ?s" using s3 by simp
  have ne: "(of_nat (length ?s) :: u16) \<noteq> hdr_length m - 8" using u l(3) s(2) by (metis less_irrefl)
  have t: "take (unat (hdr_length m - 8)) ?s = ?s" using l(3) s(2) by simp
  have u8: "unat (8 + of_nat (length ?s) :: u16) = 8 + length ?s"
    using s3 by (simp add: unat_word_ariths(1) unat_of_nat take_bit_nat_eq_self)
  have uc: "unat (ucast (of_nat (length ?s) :: u16) :: u8) = length ?s mod 256"
    by (simp add: unsigned_ucast_eq u take_bit_eq_mod)
  have tk: "take (8 + length ?s) m = take 8 m @ ?s" using d by (metis take_add)
  have bytes: "read_bytes (start_of_data buf) (8 + length ?s)
      (write_bytes (start_of_data buf + 8) ?s (write_bytes (start_of_data buf) (take 8 m) M)) = take (8 + length ?s) m" for M
    unfolding tk by (rule read_bytes_append [OF rb]) (use l(2) in simp)
  show ?thesis
    using c h a l(2) n s u ne t uc u8 bytes
    by (auto simp: OF_READ_ASYNC_MSG_def of_alloc_and_read_async_message_def Let_def start_message_def
        sizeof_ofp_header_def after_def frame_def read_ok)
qed

lemma body_incomplete:
  assumes m: "event_msg m" and c: "msg_state c = START_READING_MSG" "msg_hdr c = take 8 m"
    and f: "fsm_state c = BOUND_TO_DP \<and> datapath c"
    and env: "\<And>ty sz. alloc_message env ty sz \<noteq> None"
    and s: "s_data (sock c) \<noteq> []" "length (s_data (sock c)) < length m - 8" "length (s_data (sock c)) < 256"
    and d: "s_data (sock c) = take (length (s_data (sock c))) (drop 8 m)"
  shows "\<exists>c'. OF_READ_ASYNC_MSG env c = Some (False, c') \<and> at_pos m (8 + length (s_data (sock c))) c'
    \<and> sock c' = after (length (s_data (sock c))) c \<and> frame c c' \<and> msg_state c' = WAITING_FOR_COMPLETE_MSG"
proof -
  have "length m \<ge> 8" using event_msg_length(2) [OF m] .
  then show ?thesis using body_partial [OF m c env s(1,2) d] f s by (fastforce simp: at_pos_def frame_def)
qed

text \<open>
  The rest of a body that was split, read by the state machine: as many bytes as the length field, as
  the host reads it, says are missing, to the place that \<open>msg_len_read\<close> counts.
\<close>

lemma rest_unfold:
  assumes st: "msg_state c = WAITING_FOR_COMPLETE_MSG" and b: "msg_buf c = Some buf" "unat (length1 buf) = p"
    and N: "unat (hdr_length_host (be_host env) (msg_hdr c)) = N" "p < N" and l: "msg_len_read c \<noteq> 0"
    and s: "s_data (sock c) \<noteq> []"
  shows "fsm_xprt_proto_channel_read env c =
      (let bytes = take (N - p) (s_data (sock c));
           buf' = poke (ptr1 buf + unat (msg_len_read c)) bytes buf;
           c' = c\<lparr>sock := after (N - p) c\<rparr>
       in if length bytes = N - p
          then Some (True, c'\<lparr>msg_state := RCVD_COMPLETE_MSG,
                 msg_buf := Some (buf'\<lparr>data_len := length1 buf + of_nat (length bytes)\<rparr>)\<rparr>)
          else Some (True, c'\<lparr>msg_len_read := msg_len_read c + of_nat (length bytes),
                 msg_buf := Some (buf'\<lparr>length1 := length1 buf + of_nat (length bytes)\<rparr>)\<rparr>))"
proof -
  let ?s = "s_data (sock c)" and ?len = "hdr_length_host (be_host env) (msg_hdr c)"
  let ?n = "ucast ?len - ucast (length1 buf) :: u32"
  have lN: "N < 65536" using N(1) unat_u16_less by blast
  have n: "unat ?n = N - p"
    using N b(2) by (subst unat_sub) (simp_all add: word_le_nat_alt unat_ucast_16_32)
  have n0: "?n \<noteq> 0" using n N(2) by (metis unat_0 zero_less_diff less_irrefl)
  have nu: "unat (ucast ?n :: u16) = N - p" using n lN by (simp add: unsigned_ucast_eq take_bit_nat_eq_self)
  have nu0: "(ucast ?n :: u16) \<noteq> 0" using nu N(2) by (metis unat_0 zero_less_diff less_irrefl)
  have rd: "tcp_transport_read_data (ucast ?n) (sock c)
      = ((CONN_READ_SUCCESS, take (N - p) ?s, False), after (N - p) c)"
    using tcp_read [OF s nu0] nu by (simp add: after_def)
  have l0: "?len \<noteq> 0" using N by (metis unat_0 not_less_zero)
  have e: "((of_nat (length (take (N - p) ?s)) :: u32) = ?n) = (length (take (N - p) ?s) = N - p)"
  proof
    assume "(of_nat (length (take (N - p) ?s)) :: u32) = ?n"
    then have "unat (of_nat (length (take (N - p) ?s)) :: u32) = N - p" using n by simp
    moreover have "length (take (N - p) ?s) < 4294967296" using lN by simp
    ultimately show "length (take (N - p) ?s) = N - p" by (simp add: unat_of_nat take_bit_nat_eq_self)
  next
    assume "length (take (N - p) ?s) = N - p"
    then have "length (take (N - p) ?s) = unat ?n" using n by simp
    then show "(of_nat (length (take (N - p) ?s)) :: u32) = ?n" by (metis of_nat_unat ucast_id)
  qed
  show ?thesis
    unfolding fsm_xprt_proto_channel_read_def st chn_msg_state.case b(1) option.case Let_def
    using l n0 l0 rd e by (simp add: Let_def)
qed

lemma rest_read:
  assumes m: "event_msg m" and c: "at_pos m p c" "8 < p" and be: "be_host env"
    and s: "s_data (sock c) \<noteq> []"
  shows "length m \<le> p + length (s_data (sock c)) \<Longrightarrow> take (length m - p) (s_data (sock c)) = drop p m \<Longrightarrow>
      \<exists>c'. fsm_xprt_proto_channel_read env c = Some (True, c') \<and> holds m c' \<and> msg_hdr c' = take 8 m
        \<and> sock c' = after (length m - p) c \<and> frame c c'"
    and "p + length (s_data (sock c)) < length m \<Longrightarrow> p + length (s_data (sock c)) < 264 \<Longrightarrow>
      s_data (sock c) = take (length (s_data (sock c))) (drop p m) \<Longrightarrow>
      \<exists>c'. fsm_xprt_proto_channel_read env c = Some (True, c') \<and> at_pos m (p + length (s_data (sock c))) c'
        \<and> msg_state c' = WAITING_FOR_COMPLETE_MSG \<and> msg_hdr c' = take 8 m
        \<and> sock c' = after (length (s_data (sock c))) c \<and> frame c c'"
proof -
  let ?s = "s_data (sock c)"
  note l = event_msg_length [OF m]
  note h = hdr_take [OF l(2)]
  obtain buf where b: "msg_buf c = Some buf" "unat (length1 buf) = p" "ptr1 buf = start_of_data buf + 8"
      "read_bytes (start_of_data buf) p (mem buf) = take p m"
    and st: "msg_state c = WAITING_FOR_COMPLETE_MSG" "msg_hdr c = take 8 m" "unat (msg_len_read c) = p - 8"
      "p < length m" "p < 264" "fsm_state c = BOUND_TO_DP \<and> datapath c"
    using c by (auto simp: at_pos_def)
  have lm: "length m < 65536" using m by (simp add: event_msg_def)
  have N: "unat (hdr_length_host (be_host env) (msg_hdr c)) = length m" using h be l(1) st(2) by simp
  have m0: "msg_len_read c \<noteq> 0" using st(3) c(2) by (auto simp: unat_eq_0 [symmetric])
  have at: "ptr1 buf + unat (msg_len_read c) = start_of_data buf + p" using b(3) st(3) c(2) by simp
  have lp: "length (take p m) = p" using st(4) by simp
  note unf = rest_unfold [OF st(1) b(1,2) N st(4) m0 s, unfolded at]
  { assume g: "length m \<le> p + length ?s" "take (length m - p) ?s = drop p m"
    have e: "length (take (length m - p) ?s) = length m - p" using g by simp
    have dl: "unat (length1 buf + of_nat (length m - p)) = length m"
      using b(2) st(4) lm unat_plus_of_nat [of "length1 buf" "length m - p"] by simp
    have rb: "read_bytes (start_of_data buf) (length m) (write_bytes (start_of_data buf + p) (drop p m) (mem buf)) = m"
      using read_bytes_append [OF b(4) lp, of "drop p m"] st(4) by simp
    show "\<exists>c'. fsm_xprt_proto_channel_read env c = Some (True, c') \<and> holds m c' \<and> msg_hdr c' = take 8 m
        \<and> sock c' = after (length m - p) c \<and> frame c c'"
      unfolding unf Let_def if_P [OF e] using g dl rb st(2) l(2)
      by (auto simp: holds_def frame_def) }
  { assume g: "p + length ?s < length m" "p + length ?s < 264" "?s = take (length ?s) (drop p m)"
    have t: "take (length m - p) ?s = ?s" using g(1) by simp
    have e: "length ?s \<noteq> length m - p" using g(1) by simp
    have l1: "unat (length1 buf + of_nat (length ?s)) = p + length ?s"
      using b(2) g(2) by (simp add: unat_word_ariths(1) unat_of_nat take_bit_nat_eq_self)
    have l2: "unat (msg_len_read c + of_nat (length ?s)) = p + length ?s - 8"
      using st(3) g(2) c(2) by (simp add: unat_word_ariths(1) unat_of_nat take_bit_nat_eq_self)
    have tk: "take (p + length ?s) m = take p m @ ?s" using g(3) by (metis take_add)
    have rb: "read_bytes (start_of_data buf) (p + length ?s) (write_bytes (start_of_data buf + p) ?s (mem buf))
        = take (p + length ?s) m"
      unfolding tk by (rule read_bytes_append [OF b(4) lp])
    have af: "after (length m - p) c = after (length ?s) c" using g(1) by (simp add: after_def)
    show "\<exists>c'. fsm_xprt_proto_channel_read env c = Some (True, c') \<and> at_pos m (p + length ?s) c'
        \<and> msg_state c' = WAITING_FOR_COMPLETE_MSG \<and> msg_hdr c' = take 8 m
        \<and> sock c' = after (length ?s) c \<and> frame c c'"
      unfolding unf Let_def t if_not_P [OF e] using g(1,2) c(2) l1 l2 rb st b(3) l(2) af
      by (auto simp: at_pos_def frame_def) }
qed

text \<open>Around the reader: the version is checked and the event handler called.\<close>

lemma at_pos_event: "at_pos m p (c\<lparr>fsm_event := e\<rparr>) = at_pos m p c"
  by (simp add: at_pos_def)

lemma reader_case:
  assumes "fsm_state c = BOUND_TO_DP \<and> datapath c" and "fsm_xprt_proto_channel_read env (c\<lparr>fsm_event := READ_EVENT\<rparr>) = Some (True, c1)"
    and "msg_hdr c1 ! 0 = version_1_3"
  shows "of_read_and_process_msg_from_dp env other c =
    (if msg_state c1 = START_READING_MSG \<or> msg_state c1 = RCVD_COMPLETE_MSG
     then map_option snd (of_process_dp_message env other c1) else Some c1)"
proof -
  have "version_1_3 \<noteq> FSLX_VERSION" by (simp add: version_1_3_def FSLX_VERSION_def)
  then show ?thesis using assms by (simp add: of_read_and_process_msg_from_dp_def Let_def)
qed

lemma dispatch_event:
  assumes "event_msg m" and "msg_hdr c = take 8 m"
  shows "map_option snd (of_process_dp_message env other c) = handle_event env c"
proof -
  have h: "msg_hdr c ! 1 = m ! 1" using assms hdr_take [of m] by (simp add: event_msg_def sizeof_ofp_header_def)
  have u: "unat (4 :: u8) = 4" "unat (12 :: u8) = 12" by simp_all
  have "unat (msg_hdr c ! 1) < length cntlr_cbk \<and> (cntlr_cbk ! unat (msg_hdr c ! 1) = Some of_handle_experimenter_event
      \<or> cntlr_cbk ! unat (msg_hdr c ! 1) = Some of_handle_port_status_msg_event)"
    using assms(1) unfolding h event_msg_def by (auto simp: cntlr_cbk_def u nth_Cons' )
  then show ?thesis
    by (auto simp: of_process_dp_message_def Let_def option.map_comp o_def option.map_ident)
qed

lemma poll_message:
  assumes m: "event_msg m" and c: "at_pos m p c" "p < length m" and be: "rest_pos (be_host env) p"
    and env: "\<And>ty sz. alloc_message env ty sz \<noteq> None" and s: "s_data (sock c) = drop p m @ rest"
  shows "\<exists>c'. of_read_and_process_msg_from_dp env other c = Some c' \<and> at_pos m' 0 c'
    \<and> delivered c' = m # delivered c \<and> s_data (sock c') = rest"
proof -
  define c0 where "c0 = c\<lparr>fsm_event := READ_EVENT\<rparr>"
  have a0: "at_pos m p c0" and s0: "s_data (sock c0) = drop p m @ rest" and f0: "fsm_state c = BOUND_TO_DP \<and> datapath c"
    using c(1) s by (simp_all add: c0_def at_pos_event) (simp add: at_pos_def)
  note l = event_msg_length [OF m]
  have v: "take 8 m ! 0 = version_1_3" using m hdr_take [OF l(2)] by (simp add: event_msg_def)
  have d0: "delivered c0 = delivered c" "fsm_state c0 = fsm_state c" "datapath c0 = datapath c" by (simp_all add: c0_def)
  have fin: "\<exists>c'. map_option reset_if_complete (deliver c2) = Some c' \<and> at_pos m' 0 c'
      \<and> delivered c' = m # delivered c \<and> s_data (sock c') = rest"
    if "holds m c2" "frame c0 c2" "s_data (sock c2) = rest" for c2
    using holds_delivered [OF that(1)] that(2,3) d0 f0 by (auto simp: at_pos_def frame_def)
  show ?thesis
  proof (cases "p < 8")
    case True
    have "8 \<le> p + length (s_data (sock c0))" "take (8 - p) (s_data (sock c0)) = take (8 - p) (drop p m)"
      using s0 True l(2) by simp_all
    from header_complete [OF a0 True this, of env] obtain c1 where c1:
      "fsm_xprt_proto_channel_read env c0 = Some (True, c1)" "msg_state c1 = START_READING_MSG"
      "msg_hdr c1 = take 8 m" "sock c1 = after (8 - p) c0" "frame c0 c1" by blast
    have s1: "s_data (sock c1) = drop 8 m @ rest"
      using c1(4) s0 True l(2) by (simp add: after_def)
    then have "length m - 8 \<le> length (s_data (sock c1))" "take (length m - 8) (s_data (sock c1)) = drop 8 m"
      by simp_all
    from body_complete [OF m c1(2,3) env this] obtain c2 where c2:
      "OF_READ_ASYNC_MSG env c1 = Some (True, c2)" "holds m c2" "sock c2 = after (length m - 8) c1" "frame c1 c2"
      by blast
    have "s_data (sock c2) = rest" "frame c0 c2" using c2(3,4) c1(5) s1 by (simp_all add: after_def frame_def)
    moreover have "datapath c1" using c1(5) d0 f0 by (simp add: frame_def)
    ultimately show ?thesis
      using fin [OF c2(2)] reader_case [OF f0 c1(1) [unfolded c0_def]] c1(2,3) v dispatch_event [OF m c1(3)] c2(1)
      by (simp add: handle_event_def)
  next
    case False
    then have p: "8 < p" using c(1) by (auto simp: at_pos_def split: if_splits)
    have ne: "s_data (sock c0) \<noteq> []" and sl: "length m \<le> p + length (s_data (sock c0))"
      and st: "take (length m - p) (s_data (sock c0)) = drop p m"
      using s0 c(2) by simp_all
    have "be_host env" using be p by (simp add: rest_pos_def)
    from rest_read(1) [OF m a0 p this ne sl st] obtain c1 where c1:
      "fsm_xprt_proto_channel_read env c0 = Some (True, c1)" "holds m c1" "msg_hdr c1 = take 8 m"
      "sock c1 = after (length m - p) c0" "frame c0 c1" by blast
    have "s_data (sock c1) = rest" using c1(4) s0 by (simp add: after_def)
    moreover have "msg_state c1 = RCVD_COMPLETE_MSG" using c1(2) by (simp add: holds_def)
    moreover have "datapath c1" using c1(5) d0 f0 by (simp add: frame_def)
    ultimately show ?thesis
      using fin [OF c1(2,5)] reader_case [OF f0 c1(1) [unfolded c0_def]] v dispatch_event [OF m c1(3)] c1(3)
      by (simp add: handle_event_def OF_READ_ASYNC_MSG_def)
  qed
qed

lemma poll_part:
  assumes m: "event_msg m" and c: "at_pos m p c"
    and env: "\<And>ty sz. alloc_message env ty sz \<noteq> None" and s: "s_data (sock c) \<noteq> []"
    and d: "s_data (sock c) = take (length (s_data (sock c))) (drop p m)"
    and q: "p + length (s_data (sock c)) < length m" "rest_pos (be_host env) (p + length (s_data (sock c)))"
  shows "\<exists>c'. of_read_and_process_msg_from_dp env other c = Some c'
    \<and> at_pos m (p + length (s_data (sock c))) c' \<and> delivered c' = delivered c \<and> s_data (sock c') = []"
proof -
  let ?s = "s_data (sock c)"
  define c0 where "c0 = c\<lparr>fsm_event := READ_EVENT\<rparr>"
  have a0: "at_pos m p c0" and s0: "s_data (sock c0) = ?s" and f0: "fsm_state c = BOUND_TO_DP \<and> datapath c"
    using c by (simp_all add: c0_def at_pos_event) (simp add: at_pos_def)
  have d0: "delivered c0 = delivered c" "fsm_state c0 = fsm_state c" "datapath c0 = datapath c" by (simp_all add: c0_def)
  note l = event_msg_length [OF m]
  have v: "take 8 m ! 0 = version_1_3" "m ! 0 = version_1_3"
    using m hdr_take [OF l(2)] by (simp_all add: event_msg_def)
  consider (h) "p + length ?s < 8" | (b) "p < 8" "8 < p + length ?s" | (r) "8 < p"
    using q(2) c s by (auto simp: rest_pos_def at_pos_def split: if_splits)
  then show ?thesis
  proof cases
    case h
    then have p: "p < 8" by simp
    from header_incomplete [OF a0 p, unfolded s0, OF s h d, of env] obtain c1 where c1:
      "fsm_xprt_proto_channel_read env c0 = Some (True, c1)" "at_pos m (p + length ?s) c1"
      "sock c1 = after (length ?s) c0" "frame c0 c1" "take 1 (msg_hdr c1) = take 1 m" "msg_state c1 = WAITING_FOR_MSG_HEADER"
      by blast
    have "length (msg_hdr c1) = 8" using c1(2) by (simp add: at_pos_def)
    then have "msg_hdr c1 ! 0 = version_1_3" using c1(5) v(2) l(2) by (cases "msg_hdr c1"; cases m) simp_all
    then show ?thesis
      using reader_case [OF f0 c1(1) [unfolded c0_def]] c1 s0 d0 by (simp add: frame_def after_def)
  next
    case b
    have "take (8 - p) ?s = take (8 - p) (take (length ?s) (drop p m))" using arg_cong [OF d] .
    also have "\<dots> = take (8 - p) (drop p m)" using b by (simp add: min_def)
    finally have "8 \<le> p + length (s_data (sock c0))" "take (8 - p) (s_data (sock c0)) = take (8 - p) (drop p m)"
      using b s0 by simp_all
    from header_complete [OF a0 b(1) this, of env] obtain c1 where c1:
      "fsm_xprt_proto_channel_read env c0 = Some (True, c1)" "msg_state c1 = START_READING_MSG"
      "msg_hdr c1 = take 8 m" "sock c1 = after (8 - p) c0" "frame c0 c1" by blast
    have s1: "s_data (sock c1) = drop (8 - p) ?s" using c1(4) s0 by (simp add: after_def)
    have ls: "length (s_data (sock c1)) = p + length ?s - 8" using s1 b by simp
    have s1d: "s_data (sock c1) = take (length (s_data (sock c1))) (drop 8 m)"
    proof -
      have "drop (8 - p) ?s = drop (8 - p) (take (length ?s) (drop p m))" using arg_cong [OF d] .
      also have "\<dots> = take (length ?s - (8 - p)) (drop 8 m)" using b(1) by (simp add: drop_take)
      finally have "s_data (sock c1) = take (length ?s - (8 - p)) (drop 8 m)" using s1 by simp
      moreover have "length (s_data (sock c1)) = length ?s - (8 - p)" using s1 by simp
      ultimately show ?thesis by metis
    qed
    have x: "s_data (sock c1) \<noteq> []" "length (s_data (sock c1)) < length m - 8" "length (s_data (sock c1)) < 256"
      "fsm_state c1 = BOUND_TO_DP \<and> datapath c1"
      using ls b q c1(5) f0 d0 by (auto simp: rest_pos_def frame_def)
    from body_incomplete [OF m c1(2,3) x(4) env x(1-3) s1d] obtain c2 where c2:
      "OF_READ_ASYNC_MSG env c1 = Some (False, c2)" "at_pos m (8 + length (s_data (sock c1))) c2"
      "sock c2 = after (length (s_data (sock c1))) c1" "frame c1 c2" "msg_state c2 = WAITING_FOR_COMPLETE_MSG" by blast
    show ?thesis
      using reader_case [OF f0 c1(1) [unfolded c0_def]] c1 v dispatch_event [OF m c1(3)] c2 ls b d0 x(4)
      by (simp add: handle_event_def reset_if_complete_def frame_def after_def)
  next
    case r
    have q2: "p + length ?s < 264" and be: "be_host env" using q(2) r by (simp_all add: rest_pos_def)
    from rest_read(2) [OF m a0 r be, unfolded s0, OF s q(1) q2 d] obtain c1 where c1:
      "fsm_xprt_proto_channel_read env c0 = Some (True, c1)" "at_pos m (p + length ?s) c1"
      "msg_state c1 = WAITING_FOR_COMPLETE_MSG" "msg_hdr c1 = take 8 m" "sock c1 = after (length ?s) c0" "frame c0 c1"
      by blast
    then show ?thesis
      using reader_case [OF f0 c1(1) [unfolded c0_def]] v s0 d0 by (simp add: frame_def after_def)
  qed
qed

section \<open>The stream is cut into its messages\<close>

text \<open>Where a position of the stream lies in its message.\<close>

fun offset :: "u8 list list \<Rightarrow> nat \<Rightarrow> nat" where
  "offset [] n = 0"
| "offset (m # ms) n = (if n < length m then n else offset ms (n - length m))"

lemma offset_append: "offset (ds @ ms) (length (concat ds) + n) = offset ms n"
  by (induction ds) simp_all

lemma serve_empty: "s_data (sock c) = [] \<Longrightarrow> serve rounds poll c = Some c"
  by (cases rounds) simp_all

lemma serve_chunk:
  assumes env: "\<And>ty sz. alloc_message env ty sz \<noteq> None"
    and "\<And>m. m \<in> set ms \<Longrightarrow> event_msg m" and "at_pos (hd ms) p c" and "if ms = [] then p = 0 else p < length (hd ms)"
    and "drop p (concat ms) = s_data (sock c) @ tail" and "length (s_data (sock c)) \<le> rounds"
    and "rest_pos (be_host env) (offset ms (p + length (s_data (sock c))))" and "rest_pos (be_host env) p"
  shows "\<exists>c' ds rest q. serve rounds (of_read_and_process_msg_from_dp env other) c = Some c'
    \<and> ms = ds @ rest \<and> delivered c' = rev ds @ delivered c \<and> s_data (sock c') = []
    \<and> length (concat ds) + q = p + length (s_data (sock c))
    \<and> (if rest = [] then q = 0 else q < length (hd rest)) \<and> at_pos (hd rest) q c' \<and> rest_pos (be_host env) q"
  using assms(2-8)
proof (induction ms arbitrary: p c rounds)
  case Nil
  then have "s_data (sock c) = []" by simp
  then show ?case using Nil by (intro exI [of _ c] exI [of _ "[]"] exI [of _ p]) (simp add: serve_empty)
next
  case (Cons m ms)
  let ?s = "s_data (sock c)"
  have m: "event_msg m" and at: "at_pos m p c" and p: "p < length m" using Cons.prems by simp_all
  show ?case
  proof (cases "?s = []")
    case True
    then show ?thesis
      using Cons.prems by (intro exI [of _ c] exI [of _ "[]"] exI [of _ "m # ms"] exI [of _ p]) (simp add: serve_empty)
  next
    case False
    then obtain r where r: "rounds = Suc r" using Cons.prems(5) by (cases rounds) simp_all
    have str: "drop p m @ concat ms = ?s @ tail" using Cons.prems(4) p by simp
    show ?thesis
    proof (cases "p + length ?s < length m")
      case True
      have d: "?s = take (length ?s) (drop p m)"
        using arg_cong [OF str, of "take (length ?s)"] True by simp
      have q: "rest_pos (be_host env) (p + length ?s)" using Cons.prems(6) True by simp
      from poll_part [OF m at env False d True q, of other] obtain c1 where c1:
        "of_read_and_process_msg_from_dp env other c = Some c1" "at_pos m (p + length ?s) c1"
        "delivered c1 = delivered c" "s_data (sock c1) = []" by blast
      show ?thesis
        using c1 True False r q
        by (intro exI [of _ c1] exI [of _ "[]"] exI [of _ "m # ms"] exI [of _ "p + length ?s"]) (simp add: serve_empty)
    next
      case big: False
      define s' where "s' = drop (length m - p) ?s"
      have sp: "take (length m - p) ?s = drop p m"
        using arg_cong [OF str, of "take (length m - p)"] big by simp
      then have s: "?s = drop p m @ s'" by (metis append_take_drop_id s'_def)
      then have str': "concat ms = s' @ tail" using str by simp
      from poll_message [OF m at p Cons.prems(7) env s, of other "hd ms"] obtain c1 where c1:
        "of_read_and_process_msg_from_dp env other c = Some c1" "at_pos (hd ms) 0 c1"
        "delivered c1 = m # delivered c" "s_data (sock c1) = s'" by blast
      have ls: "length ?s = length m - p + length s'" using s by simp
      have ne: "if ms = [] then (0::nat) = 0 else 0 < length (hd ms)"
        using Cons.prems(1) event_msg_length(2) by (cases ms) fastforce+
      have o: "rest_pos (be_host env) (offset ms (0 + length (s_data (sock c1))))"
        using Cons.prems(6) big ls p c1(4) by (simp add: add.commute)
      have rr: "length (s_data (sock c1)) \<le> r" using Cons.prems(5) ls p r c1(4) by simp
      have st: "drop 0 (concat ms) = s_data (sock c1) @ tail" using str' c1(4) by simp
      obtain c' ds rest q where fin:
        "serve r (of_read_and_process_msg_from_dp env other) c1 = Some c'" "ms = ds @ rest"
        "delivered c' = rev ds @ delivered c1" "s_data (sock c') = []"
        "length (concat ds) + q = 0 + length (s_data (sock c1))"
        "if rest = [] then q = 0 else q < length (hd rest)" "at_pos (hd rest) q c'" "rest_pos (be_host env) q"
        using Cons.IH [OF _ c1(2) ne st rr o] Cons.prems(1) by (auto simp: rest_pos_def)
      show ?thesis
        using fin c1 False r ls p
        by (intro exI [of _ c'] exI [of _ "m # ds"] exI [of _ rest] exI [of _ q]) simp
    qed
  qed
qed

lemma arrive_fields [simp]:
  "s_data (sock (arrive bs c)) = s_data (sock c) @ bs" "delivered (arrive bs c) = delivered c"
  "at_pos m p (arrive bs c) = at_pos m p c"
  by (simp_all add: arrive_def at_pos_def)

lemma serve_chunks:
  assumes env: "\<And>ty sz. alloc_message env ty sz \<noteq> None"
    and ev: "\<And>m. m \<in> set (ds @ rest) \<Longrightarrow> event_msg m" and "at_pos (hd rest) q c"
    and "if rest = [] then q = 0 else q < length (hd rest)" and "s_data (sock c) = []"
    and "drop q (concat rest) = concat chunks"
    and "\<And>i. i \<le> length chunks \<Longrightarrow> rest_pos (be_host env)
      (offset (ds @ rest) (length (concat ds) + q + length (concat (take i chunks))))"
    and "rest_pos (be_host env) q"
  shows "\<exists>c'. serve_all (of_read_and_process_msg_from_dp env other) chunks c = Some c'
    \<and> delivered c' = rev rest @ delivered c \<and> at_pos [] 0 c' \<and> s_data (sock c') = []"
  using assms(2-8)
proof (induction chunks arbitrary: ds rest q c)
  case Nil
  have "rest = []"
  proof (rule ccontr)
    assume "rest \<noteq> []"
    then show False using Nil.prems(3,5) by (cases rest) auto
  qed
  then show ?case using Nil.prems by (simp add: at_pos_def)
next
  case (Cons bs chunks)
  let ?c = "arrive bs c"
  have s: "s_data (sock ?c) = bs" using Cons.prems(4) by simp
  have o: "rest_pos (be_host env) (offset rest (q + length (s_data (sock ?c))))"
    using Cons.prems(6) [of 1] offset_append [of ds rest "q + length bs"] s by (simp add: add.assoc)
  have str: "drop q (concat rest) = s_data (sock ?c) @ concat chunks" using Cons.prems(5) s by simp
  have rd: "length (s_data (sock ?c)) \<le> length bs" using s by simp
  obtain c1 ds1 rest1 q1 where c1:
    "serve (length bs) (of_read_and_process_msg_from_dp env other) ?c = Some c1" "rest = ds1 @ rest1"
    "delivered c1 = rev ds1 @ delivered c" "s_data (sock c1) = []" "length (concat ds1) + q1 = q + length bs"
    "if rest1 = [] then q1 = 0 else q1 < length (hd rest1)" "at_pos (hd rest1) q1 c1"
    "rest_pos (be_host env) q1"
    using serve_chunk [OF env _ _ Cons.prems(3) str rd o Cons.prems(7), of other] Cons.prems(1,2) s by auto
  have "drop q1 (concat rest1) = drop (length (concat ds1) + q1) (concat rest)" using c1(2) by simp
  also have "\<dots> = drop (length bs) (drop q (concat rest))" using c1(5) by (simp add: add.commute)
  also have "\<dots> = concat chunks" using str s by simp
  finally have str1: "drop q1 (concat rest1) = concat chunks" .
  have ok: "rest_pos (be_host env) (offset ((ds @ ds1) @ rest1) (length (concat (ds @ ds1)) + q1 + length (concat (take i chunks))))"
    if "i \<le> length chunks" for i
  proof -
    have e: "length (concat (ds @ ds1)) + q1 + length (concat (take i chunks))
        = length (concat ds) + q + length (concat (take (Suc i) (bs # chunks)))" using c1(5) by simp
    have r: "(ds @ ds1) @ rest1 = ds @ rest" using c1(2) by simp
    show ?thesis unfolding e r by (rule Cons.prems(6)) (use that in simp)
  qed
  obtain c2 where c2: "serve_all (of_read_and_process_msg_from_dp env other) chunks c1 = Some c2"
    "delivered c2 = rev rest1 @ delivered c1" "at_pos [] 0 c2" "s_data (sock c2) = []"
    using Cons.IH [OF _ c1(7,6,4) str1 ok c1(8)] Cons.prems(1) c1(2) by auto
  show ?case using c1 c2 by simp
qed

text \<open>
  C29.  While the pools have messages to give: when a stream of event messages arrives in pieces,
  the applications get exactly these messages, in order and unchanged, and the channel is ready for the next
  one, provided that each piece ends where the reader can wait.  On every host that is at the end of a
  message or inside a header; on a big-endian host it is also inside a body of which fewer than 256 bytes
  have arrived.  Pieces that end exactly behind a header (theorem \<open>header_alone_lost\<close>), behind more of a body
  (theorem \<open>long_split_corrupted\<close>), or on a little-endian host inside a body are not covered: the reader
  loses or spoils such messages.
\<close>

theorem reassembly:
  assumes "\<And>ty sz. alloc_message env ty sz \<noteq> None"
    and "\<And>m. m \<in> set ms \<Longrightarrow> event_msg m" and "concat chunks = concat ms"
    and "\<And>i. i \<le> length chunks \<Longrightarrow> rest_pos (be_host env) (offset ms (length (concat (take i chunks))))"
    and "fsm_state c = BOUND_TO_DP \<and> datapath c" and "msg_state c = WAITING_FOR_NEW_MSG" and "length (msg_hdr c) = 8"
    and "s_data (sock c) = []"
  shows "\<exists>c'. serve_all (of_read_and_process_msg_from_dp env other) chunks c = Some c'
    \<and> delivered c' = rev ms @ delivered c \<and> fsm_state c' = BOUND_TO_DP
    \<and> msg_state c' = WAITING_FOR_NEW_MSG \<and> s_data (sock c') = []"
proof -
  have at: "at_pos (hd ms) 0 c" using assms(5-7) by (simp add: at_pos_def)
  have h: "if ms = [] then (0::nat) = 0 else 0 < length (hd ms)"
    using assms(2) event_msg_length(2) by (cases ms) fastforce+
  have st: "drop 0 (concat ms) = concat chunks" using assms(3) by simp
  obtain c' where "serve_all (of_read_and_process_msg_from_dp env other) chunks c = Some c'"
    "delivered c' = rev ms @ delivered c" "at_pos [] 0 c'" "s_data (sock c') = []"
    using serve_chunks [OF assms(1) _ at h assms(8) st, of "[]" other] assms(2,4) by (auto simp: rest_pos_def)
  then show ?thesis by (auto simp: at_pos_def)
qed

text \<open>Two messages in three pieces on a little-endian host.\<close>

definition sample_env :: trnsprt_env where
  "sample_env = \<lparr>be_host = True, alloc_message = (\<lambda>ty sz. Some (init_msg ty (padded sz) 4096 (\<lambda>_. 0))),
     fd_dedicated = True, epoll_ok = True, close_ok = True\<rparr>"

definition sample_channel :: cntlr_channel_info_t where
  "sample_channel = \<lparr>auxiliary_id = 0, trnsprt_fd = 5, state = HANDSHAKE_WITH_DP_DONE, fsm_state = BOUND_TO_DP,
     fsm_event = READ_EVENT, msg_state = WAITING_FOR_NEW_MSG, msg_hdr = replicate 8 0, hdr_len_read = 0,
     msg_len_read = 0, msg_buf = None, is_chn_added_to_dp = True, is_chn_added_2_hash_tbl = True, dp_handle = 1,
     datapath = True, recv_bytes = 0, drain_out_bytes = 0, sock = \<lparr>s_data = [], s_end = None, s_again = False\<rparr>,
     main_conn_present = True, invalid_states = 0, closes = 0, delivered = []\<rparr>"

lemma reassembly_witness:
  "\<exists>c'. serve_all (of_read_and_process_msg_from_dp (sample_env\<lparr>be_host := False\<rparr>) (\<lambda>_ c. Some c))
      [[4, 12, 0], [12, 0, 0, 0, 1, 1, 2, 3, 4, 4, 4], [0, 8, 0, 0, 0, 2]] sample_channel = Some c'
    \<and> delivered c' = [[4, 4, 0, 8, 0, 0, 0, 2], [4, 12, 0, 12, 0, 0, 0, 1, 1, 2, 3, 4]]"
proof -
  let ?ms = "[[4, 12, 0, 12, 0, 0, 0, 1, 1, 2, 3, 4], [4, 4, 0, 8, 0, 0, 0, 2]] :: u8 list list"
  let ?chunks = "[[4, 12, 0], [12, 0, 0, 0, 1, 1, 2, 3, 4, 4, 4], [0, 8, 0, 0, 0, 2]] :: u8 list list"
  let ?env = "sample_env\<lparr>be_host := False\<rparr>"
  have ev: "event_msg m" if "m \<in> set ?ms" for m
    using that by (auto simp: event_msg_def sizeof_ofp_header_def hdr_length_def of_be_def version_1_3_def)
  have sp: "rest_pos (be_host ?env) (offset ?ms (length (concat (take i ?chunks))))" if "i \<le> length ?chunks" for i
  proof -
    have "i = 0 \<or> i = 1 \<or> i = 2 \<or> i = 3" using that by (simp add: numeral_eq_Suc le_Suc_eq)
    then show ?thesis by (elim disjE) (simp_all add: rest_pos_def numeral_eq_Suc)
  qed
  have al: "alloc_message ?env ty sz \<noteq> None" for ty sz by (simp add: sample_env_def)
  have c: "concat ?chunks = concat ?ms" "fsm_state sample_channel = BOUND_TO_DP \<and> datapath sample_channel"
    "msg_state sample_channel = WAITING_FOR_NEW_MSG" "length (msg_hdr sample_channel) = 8"
    "s_data (sock sample_channel) = []" "delivered sample_channel = []"
    by (simp_all add: sample_channel_def)
  from reassembly [OF al ev c(1) sp c(2-5), of "\<lambda>_ c. Some c"] c(6)
  show ?thesis by auto
qed

section \<open>Discarding\<close>

lemma drain_loop_exact:
  assumes "n \<le> length (s_data (sock c))"
  shows "\<exists>c'. drain_loop d env n c = Some (True, c') \<and> s_data (sock c') = drop n (s_data (sock c))
    \<and> frame c c' \<and> msg_state c' = (if n = 0 then msg_state c else WAITING_FOR_NEW_MSG)"
  using assms
proof (induction n arbitrary: c rule: less_induct)
  case (less n)
  show ?case
  proof (cases "n = 0")
    case True
    then show ?thesis by (subst drain_loop.simps) (simp add: frame_def)
  next
    case False
    let ?k = "min n 256" and ?s = "s_data (sock c)"
    have k: "(of_nat ?k :: u16) \<noteq> 0" "unat (of_nat ?k :: u16) = ?k"
      using False drain_size [of n] by (simp_all add: OF_SOCKET_BUFFER_READ_LENGTH_FOR_DRAIN_OUT_def)
    have s: "?s \<noteq> []" "?k \<le> length ?s" using less.prems False by auto
    obtain c1 where r: "fsm_xprt_proto_channel_read_msg_from_dp d env (of_nat ?k) c = Some ((True, take ?k ?s), c1)"
      and c1: "sock c1 = after ?k c" "frame c c1" "msg_state c1 = msg_state c"
      using read_ok [OF s(1) k(1), of d env] k(2) by (auto simp: frame_def)
    have l: "length (take ?k ?s) = ?k" using s(2) by simp
    define c2 where "c2 = (if n - ?k = 0 then c1\<lparr>msg_state := WAITING_FOR_NEW_MSG, drain_out_bytes := 0\<rparr> else c1)"
    have step: "drain_loop d env n c = drain_loop d env (n - ?k) c2"
      unfolding c2_def using False r l
      by (subst drain_loop.simps) (simp add: OF_SOCKET_BUFFER_READ_LENGTH_FOR_DRAIN_OUT_def Let_def)
    have c2: "s_data (sock c2) = drop ?k ?s" "frame c c2"
      using c1 by (simp_all add: c2_def after_def frame_def)
    have "n - ?k < n" "n - ?k \<le> length (s_data (sock c2))" using False less.prems c2(1) by auto
    from less.IH [OF this] obtain c3 where c3: "drain_loop d env (n - ?k) c2 = Some (True, c3)"
      "s_data (sock c3) = drop (n - ?k) (s_data (sock c2))" "frame c2 c3"
      "msg_state c3 = (if n - ?k = 0 then msg_state c2 else WAITING_FOR_NEW_MSG)" by blast
    have "drop (n - ?k) (drop ?k ?s) = drop n ?s" by simp
    then show ?thesis using step c3 c2 False by (auto simp: frame_def c2_def)
  qed
qed

lemma drain_loop_short:
  assumes "length (s_data (sock c)) < n" and "\<And>c. fsm_state c \<noteq> INIT \<Longrightarrow> d c \<noteq> None" and "fsm_state c \<noteq> INIT"
  shows "\<exists>c'. drain_loop d env n c = Some (False, c') \<and> msg_state c' = WAITING_FOR_NEW_MSG"
  using assms(1,3)
proof (induction n arbitrary: c rule: less_induct)
  case (less n)
  let ?s = "s_data (sock c)" and ?k = "min n 256"
  have k: "(of_nat ?k :: u16) \<noteq> 0" "unat (of_nat ?k :: u16) = ?k"
    using less.prems drain_size [of n] by (simp_all add: OF_SOCKET_BUFFER_READ_LENGTH_FOR_DRAIN_OUT_def)
  show ?case
  proof (cases "?s = []")
    case True
    have "\<exists>c1. fsm_xprt_proto_channel_read_msg_from_dp d env (of_nat ?k) c = Some ((False, []), c1)"
      using True k(1) less.prems(2) assms(2)
      by (auto simp: fsm_xprt_proto_channel_read_msg_from_dp_def tcp_transport_read_data_def Let_def
          split: option.splits stream_end.splits)
    then obtain c1 where r: "fsm_xprt_proto_channel_read_msg_from_dp d env (of_nat ?k) c = Some ((False, []), c1)"
      by blast
    show ?thesis
      using r less.prems(1) by (subst drain_loop.simps) (simp add: OF_SOCKET_BUFFER_READ_LENGTH_FOR_DRAIN_OUT_def)
  next
    case False
    let ?j = "min (length ?s) ?k"
    obtain c1 where r: "fsm_xprt_proto_channel_read_msg_from_dp d env (of_nat ?k) c = Some ((True, take ?k ?s), c1)"
      and c1: "sock c1 = after ?k c" "fsm_state c1 = fsm_state c"
      using read_ok [OF False k(1), of d env] k(2) by auto
    have step: "drain_loop d env n c = drain_loop d env (n - ?j) c1"
      using r less.prems(1) by (subst drain_loop.simps)
        (auto simp: OF_SOCKET_BUFFER_READ_LENGTH_FOR_DRAIN_OUT_def Let_def)
    have "n - ?j < n" "length (s_data (sock c1)) < n - ?j" "fsm_state c1 \<noteq> INIT"
      using False less.prems c1 by (auto simp: after_def min_def)
    from less.IH [OF this] show ?thesis using step by simp
  qed
qed

lemma dispatch_close_some: "fsm_state c \<noteq> INIT \<Longrightarrow> dispatch_close env c \<noteq> None"
  by (cases "fsm_state c")
    (auto simp: dispatch_close_def fsm_xprt_proto_channel_close_def xprt_proto_channel_close_def Let_def)

text \<open>
  C34.  Discarding the rest of a message ends for every length and every state of the socket.
  It succeeds exactly when that many bytes have arrived, and then drops these bytes and nothing else;
  otherwise it gives up.  Unless the length is zero, the next byte is taken for the start of a message.
\<close>

theorem drain_ends:
  assumes "fsm_state channel \<noteq> INIT"
  shows "\<exists>st c. of_drain_out_socket_buf (dispatch_close env) env len channel = Some (st, c)
    \<and> (st \<longleftrightarrow> unat len \<le> length (s_data (sock channel)))
    \<and> (st \<longrightarrow> s_data (sock c) = drop (unat len) (s_data (sock channel)) \<and> delivered c = delivered channel)
    \<and> (len \<noteq> 0 \<longrightarrow> msg_state c = WAITING_FOR_NEW_MSG)"
proof (cases "unat len \<le> length (s_data (sock channel))")
  case True
  then show ?thesis
    using drain_loop_exact [OF True, of "dispatch_close env" env]
    by (auto simp: of_drain_out_socket_buf_def frame_def unat_eq_zero)
next
  case False
  then have "length (s_data (sock channel)) < unat len" by simp
  then show ?thesis
    using drain_loop_short [of channel "unat len" "dispatch_close env" env] dispatch_close_some assms
    by (auto simp: of_drain_out_socket_buf_def)
qed

lemma drain_ends_witness:
  "\<exists>st c. of_drain_out_socket_buf (dispatch_close sample_env) sample_env 300 (arrive (replicate 301 1) sample_channel) = Some (st, c)
    \<and> st \<and> s_data (sock c) = [1]"
  using drain_ends [of "arrive (replicate 301 1) sample_channel" sample_env 300]
  by (auto simp: sample_channel_def arrive_def)

section \<open>Where the stream is lost\<close>

text \<open>Nothing has arrived and the peer has not closed: the read fails and the message is given up.\<close>

lemma read_nothing:
  assumes "s_data (sock c) = []" and "s_end (sock c) = None" and "fsm_state c = BOUND_TO_DP \<and> datapath c"
    and "fsm_event c = READ_EVENT" and "len \<noteq> 0"
    and "(ucast (ucast (hdr_length_host (be_host env) (msg_hdr c)) - 8 :: u32) :: u16) \<noteq> 0"
  shows "\<exists>c'. fsm_xprt_proto_channel_read_msg_from_dp (dispatch_fail env) env len c = Some ((False, []), c')
    \<and> msg_state c' = WAITING_FOR_NEW_MSG \<and> frame c c' \<and> s_data (sock c') = [] \<and> s_end (sock c') = None
    \<and> s_again (sock c') \<and> msg_hdr c' = msg_hdr c"
proof -
  let ?len = "ucast (hdr_length_host (be_host env) (msg_hdr c)) - 8 :: u32"
  define c1 where "c1 = c\<lparr>sock := (sock c)\<lparr>s_again := True\<rparr>, msg_state := DRAIN_OUT_COMPLETE_MSG,
      fsm_event := READ_FAIL_EVENT, drain_out_bytes := ?len\<rparr>"
  have r0: "tcp_transport_read_data k (sock c) = ((CONN_NO_DATA, [], False), (sock c)\<lparr>s_again := True\<rparr>)"
    if "k \<noteq> 0" for k using assms(1,2) that by (simp add: tcp_transport_read_data_def)
  have r1: "tcp_transport_read_data k (sock c1) = ((CONN_NO_DATA, [], False), (sock c)\<lparr>s_again := True\<rparr>)"
    if "k \<noteq> 0" for k using assms(1,2) that by (simp add: tcp_transport_read_data_def c1_def)
  have n: "0 < unat (ucast ?len :: u16)" using assms(6) by (simp add: unat_gt_0)
  then have k: "(of_nat (min (unat (ucast ?len :: u16)) 256) :: u16) \<noteq> 0"
    using drain_size [of "unat (ucast ?len :: u16)"] by (simp add: OF_SOCKET_BUFFER_READ_LENGTH_FOR_DRAIN_OUT_def)
  have e: "fsm_event c1 = READ_FAIL_EVENT" "fsm_state c1 = BOUND_TO_DP \<and> datapath c1" "msg_state c1 = DRAIN_OUT_COMPLETE_MSG"
    "drain_out_bytes c1 = ?len" using assms(3) by (simp_all add: c1_def)
  have rd: "fsm_xprt_proto_channel_read_msg_from_dp d env (of_nat (min (unat (ucast ?len :: u16)) 256)) c1
      = Some ((False, []), c1)" for d
    using r1 [OF k] e(1) by (simp add: fsm_xprt_proto_channel_read_msg_from_dp_def Let_def) (simp add: c1_def)
  have "drain_loop (dispatch_close env) env (unat (ucast ?len :: u16)) c1
      = Some (False, c1\<lparr>msg_state := WAITING_FOR_NEW_MSG, drain_out_bytes := 0\<rparr>)"
    using n rd by (subst drain_loop.simps) (simp add: OF_SOCKET_BUFFER_READ_LENGTH_FOR_DRAIN_OUT_def)
  then have "dispatch_fail env c1 = Some (c1\<lparr>msg_state := WAITING_FOR_NEW_MSG, drain_out_bytes := 0\<rparr>)"
    using e by (simp add: dispatch_fail_def fsm_xprt_proto_channel_read_error_def of_drain_out_socket_buf_def)
  then have "fsm_xprt_proto_channel_read_msg_from_dp (dispatch_fail env) env len c
      = Some ((False, []), c1\<lparr>msg_state := WAITING_FOR_NEW_MSG, drain_out_bytes := 0\<rparr>)"
    using r0 [OF assms(5)] assms(4)
    by (simp add: fsm_xprt_proto_channel_read_msg_from_dp_def Let_def c1_def sizeof_ofp_header_def)
  then show ?thesis using assms(1,2) by (simp add: frame_def c1_def)
qed

lemma header_alone:
  assumes be: "be_host env" and env: "\<And>ty sz. alloc_message env ty sz \<noteq> None" and m: "event_msg m" "8 < length m"
    and c: "at_pos [] 0 c" "s_data (sock c) = take 8 m" "s_end (sock c) = None"
  shows "\<exists>c'. of_read_and_process_msg_from_dp env other c = Some c' \<and> at_pos [] 0 c' \<and> delivered c' = delivered c
    \<and> s_data (sock c') = [] \<and> s_end (sock c') = None \<and> s_again (sock c')"
proof -
  define c0 where "c0 = c\<lparr>fsm_event := READ_EVENT\<rparr>"
  have a0: "at_pos m 0 c0" and s0: "s_data (sock c0) = take 8 m" and f0: "fsm_state c = BOUND_TO_DP \<and> datapath c"
    using c(1,2) by (simp_all add: c0_def at_pos_event) (simp_all add: at_pos_def)
  note l = event_msg_length [OF m(1)]
  note h = hdr_take [OF l(2)]
  have x: "8 \<le> 0 + length (s_data (sock c0))" "take (8 - 0) (s_data (sock c0)) = take (8 - 0) (drop 0 m)"
    using s0 l(2) by simp_all
  obtain c1 where c1: "fsm_xprt_proto_channel_read env c0 = Some (True, c1)" "msg_state c1 = START_READING_MSG"
    "msg_hdr c1 = take 8 m" "sock c1 = after (8 - 0) c0" "frame c0 c1" "fsm_event c1 = READ_EVENT"
  proof -
    from header_complete [OF a0 _ x, of env] obtain c1 where c1:
      "fsm_xprt_proto_channel_read env c0 = Some (True, c1)" "msg_state c1 = START_READING_MSG"
      "msg_hdr c1 = take 8 m" "sock c1 = after (8 - 0) c0" "frame c0 c1" by auto
    moreover have "fsm_event c1 = READ_EVENT"
      using c1(1) a0 s0 l(2) by (auto simp: fsm_xprt_proto_channel_read_def at_pos_def tcp_transport_read_data_def
          sizeof_ofp_header_def Let_def c0_def split: if_splits)
    ultimately show thesis by (rule that)
  qed
  obtain buf where a: "alloc_message env (m ! 1) (hdr_length m) = Some buf" using env by fastforce
  define c2 where "c2 = c1\<lparr>msg_buf := Some (start_message (take 8 m) buf), msg_state := WAITING_FOR_COMPLETE_MSG\<rparr>"
  have d: "(ucast (ucast (hdr_length_host (be_host env) (msg_hdr c2)) - 8 :: u32) :: u16) \<noteq> 0"
  proof -
    have "unat (ucast (hdr_length m) - 8 :: u32) = length m - 8"
      using l by (subst unat_sub) (simp_all add: word_le_nat_alt unat_ucast_16_32)
    moreover have "length m < 65536" using m(1) by (simp add: event_msg_def)
    ultimately have "unat (ucast (ucast (hdr_length m) - 8 :: u32) :: u16) = length m - 8"
      by (simp add: unsigned_ucast_eq take_bit_nat_eq_self)
    then show ?thesis using h be m(2) c1(3) by (auto simp: c2_def)
  qed
  have n: "hdr_length m - 8 \<noteq> 0" using l m(2) by simp
  have "s_data (sock c2) = []" "s_end (sock c2) = None" "fsm_state c2 = BOUND_TO_DP \<and> datapath c2" "fsm_event c2 = READ_EVENT"
    using c1(4,5,6) s0 c(3) f0 by (simp_all add: c2_def after_def frame_def c0_def)
  from read_nothing [OF this n d] obtain c3 where c3:
    "fsm_xprt_proto_channel_read_msg_from_dp (dispatch_fail env) env (hdr_length m - 8) c2 = Some ((False, []), c3)"
    "msg_state c3 = WAITING_FOR_NEW_MSG" "frame c2 c3" "s_data (sock c3) = []" "s_end (sock c3) = None"
    "s_again (sock c3)" "msg_hdr c3 = msg_hdr c2" by blast
  have "OF_READ_ASYNC_MSG env c1 = Some (False, c3\<lparr>msg_buf := None\<rparr>)"
    using c1(2,3) h a n c3(1)
    by (simp add: OF_READ_ASYNC_MSG_def of_alloc_and_read_async_message_def Let_def c2_def start_message_def
        sizeof_ofp_header_def)
  moreover have "take 8 m ! 0 = version_1_3" using m(1) h by (simp add: event_msg_def)
  moreover have "datapath c1" using c1(5) f0 by (simp add: frame_def c0_def)
  ultimately show ?thesis
    using reader_case [OF f0 c1(1) [unfolded c0_def]] c1(2,3) dispatch_event [OF m(1) c1(3)] c3 c1(5) f0 l(2)
    by (simp add: handle_event_def reset_if_complete_def at_pos_def frame_def c2_def c0_def)
qed

lemma serve_once:
  assumes "s_data (sock c) \<noteq> []" and "0 < rounds" and "poll c = Some c'" and "s_data (sock c') = []"
  shows "serve rounds poll c = Some c'"
  using assms by (cases rounds) (simp_all add: serve_empty)

text \<open>
  When exactly the header of a message has arrived, the reader allocates the
  message, finds no body, discards the message and waits for a new one.  The body, when it comes, is
  taken for the start of the stream: if it looks like a message, it is delivered as one.
\<close>

theorem header_alone_lost:
  assumes "be_host env" and "\<And>ty sz. alloc_message env ty sz \<noteq> None" and "event_msg m" and "event_msg (drop 8 m)"
    and "fsm_state c = BOUND_TO_DP \<and> datapath c" and "msg_state c = WAITING_FOR_NEW_MSG" and "length (msg_hdr c) = 8"
    and "s_data (sock c) = []" and "s_end (sock c) = None"
  shows "\<exists>c'. serve_all (of_read_and_process_msg_from_dp env other) [take 8 m, drop 8 m] c = Some c'
    \<and> delivered c' = drop 8 m # delivered c"
proof -
  let ?poll = "of_read_and_process_msg_from_dp env other"
  have l: "8 < length m" "8 \<le> length (drop 8 m)" using event_msg_length(2) [OF assms(4)] by simp_all
  have "at_pos [] 0 c" using assms(5-7) by (simp add: at_pos_def)
  then have at: "at_pos [] 0 (arrive bs c)" for bs by simp
  have se: "s_end (sock (arrive (take 8 m) c)) = None" using assms(9) by (simp add: arrive_def)
  obtain c1 where c1: "?poll (arrive (take 8 m) c) = Some c1" "at_pos [] 0 c1" "delivered c1 = delivered c"
    "s_data (sock c1) = []"
    using header_alone [OF assms(1-3) l(1) at _ se, of other] assms(8) by auto
  have s1: "serve (length (take 8 m)) ?poll (arrive (take 8 m) c) = Some c1"
    using c1 l(1) assms(8) by (intro serve_once) auto
  have "at_pos (drop 8 m) 0 c1" using c1(2) by (simp add: at_pos_def)
  then have at1: "at_pos (drop 8 m) 0 (arrive (drop 8 m) c1)" by simp
  have sd: "s_data (sock (arrive (drop 8 m) c1)) = drop 0 (drop 8 m) @ []" using c1(4) by simp
  have lp: "0 < length (drop 8 m)" using l by simp
  obtain c2 where c2: "?poll (arrive (drop 8 m) c1) = Some c2" "delivered c2 = drop 8 m # delivered c1" "s_data (sock c2) = []"
    using poll_message [OF assms(4) at1 lp _ assms(2) sd, of other "[]"] by (auto simp: rest_pos_def)
  have s2: "serve (length (drop 8 m)) ?poll (arrive (drop 8 m) c1) = Some c2"
    using c1(4) c2 l lp by (intro serve_once) auto
  show ?thesis using s1 s2 c1(3) c2(2) by simp
qed

text \<open>An experimenter message whose content is a port status message.\<close>

lemma header_alone_lost_witness:
  "\<exists>c'. serve_all (of_read_and_process_msg_from_dp sample_env (\<lambda>_ c. Some c))
      [[4, 4, 0, 17, 0, 0, 0, 1], [4, 12, 0, 9, 0, 0, 0, 9, 7]] sample_channel = Some c'
    \<and> delivered c' = [[4, 12, 0, 9, 0, 0, 0, 9, 7]]"
proof -
  let ?m = "[4, 4, 0, 17, 0, 0, 0, 1, 4, 12, 0, 9, 0, 0, 0, 9, 7] :: u8 list"
  have ev: "event_msg ?m" "event_msg (drop 8 ?m)"
    by (simp_all add: event_msg_def sizeof_ofp_header_def hdr_length_def of_be_def version_1_3_def)
  have al: "alloc_message sample_env ty sz \<noteq> None" "be_host sample_env" for ty sz by (simp_all add: sample_env_def)
  have c: "fsm_state sample_channel = BOUND_TO_DP \<and> datapath sample_channel" "msg_state sample_channel = WAITING_FOR_NEW_MSG"
    "length (msg_hdr sample_channel) = 8" "s_data (sock sample_channel) = []" "s_end (sock sample_channel) = None"
    "delivered sample_channel = []"
    by (simp_all add: sample_channel_def)
  have t: "take 8 ?m = [4, 4, 0, 17, 0, 0, 0, 1]" "drop 8 ?m = [4, 12, 0, 9, 0, 0, 0, 9, 7]" by simp_all
  from header_alone_lost [OF al(2,1) ev c(1-5), of "\<lambda>_ c. Some c"] show ?thesis unfolding t c(6) .
qed

text \<open>
  \<open>msg_len_read\<close> has eight bits.  When \<open>k \<ge> 256\<close> bytes of a body arrive first,
  the rest is stored as if \<open>k mod 256\<close> had: over bytes already received, and the message is delivered
  with the right length and what was in the buffer before at its end.
\<close>

theorem long_split_corrupted:
  assumes "be_host env" and "\<And>ty sz. alloc_message env ty sz \<noteq> None" and "event_msg m"
    and "256 \<le> k" and "8 + k < length m" and "k mod 256 \<noteq> 0"
    and "fsm_state c = BOUND_TO_DP \<and> datapath c" and "msg_state c = WAITING_FOR_NEW_MSG" and "length (msg_hdr c) = 8"
    and "s_data (sock c) = []"
  shows "\<exists>c' d. serve_all (of_read_and_process_msg_from_dp env other) [take (8 + k) m, drop (8 + k) m] c = Some c'
    \<and> delivered c' = d # delivered c \<and> length d = length m
    \<and> take (length m - (8 + k)) (drop (8 + k mod 256) d) = drop (8 + k) m"
proof -
  let ?poll = "of_read_and_process_msg_from_dp env other"
  note l = event_msg_length [OF assms(3)]
  have v: "take 8 m ! 0 = version_1_3" using assms(3) hdr_take [OF l(2)] by (simp add: event_msg_def)
  let ?c = "arrive (take (8 + k) m) c"
  define c0 where "c0 = ?c\<lparr>fsm_event := READ_EVENT\<rparr>"
  have a0: "at_pos m 0 c0" and s0: "s_data (sock c0) = take (8 + k) m" and f0: "fsm_state ?c = BOUND_TO_DP \<and> datapath ?c"
    using assms(7-10) by (simp_all add: c0_def at_pos_event) (simp_all add: at_pos_def arrive_def)
  have x: "8 \<le> 0 + length (s_data (sock c0))" "take (8 - 0) (s_data (sock c0)) = take (8 - 0) (drop 0 m)"
    using s0 assms(5) by (simp_all add: min_def)
  from header_complete [OF a0 _ x, of env] obtain c1 where c1:
    "fsm_xprt_proto_channel_read env c0 = Some (True, c1)" "msg_state c1 = START_READING_MSG"
    "msg_hdr c1 = take 8 m" "sock c1 = after (8 - 0) c0" "frame c0 c1" by auto
  have s1: "s_data (sock c1) = take k (drop 8 m)" using c1(4) s0 by (simp add: after_def drop_take)
  have k: "length (s_data (sock c1)) = k" using s1 assms(5) by simp
  have y: "s_data (sock c1) \<noteq> []" "length (s_data (sock c1)) < length m - 8"
    "s_data (sock c1) = take (length (s_data (sock c1))) (drop 8 m)"
    using k s1 assms(4,5) by (auto simp: list_eq_iff_nth_eq)
  from body_partial [OF assms(3) c1(2,3) assms(2) y, unfolded k] obtain c2 buf where c2:
    "OF_READ_ASYNC_MSG env c1 = Some (False, c2)" "msg_buf c2 = Some buf" "unat (length1 buf) = 8 + k"
    "ptr1 buf = start_of_data buf + 8" "unat (msg_len_read c2) = k mod 256" "msg_hdr c2 = take 8 m"
    "sock c2 = after k c1" "frame c1 c2" "msg_state c2 = WAITING_FOR_COMPLETE_MSG" by blast
  have "datapath c1" using c1(5) f0 by (simp add: frame_def c0_def)
  then have p1: "?poll ?c = Some c2"
    using reader_case [OF f0 c1(1) [unfolded c0_def]] c1(2,3) v dispatch_event [OF assms(3) c1(3)] c2(1,9)
    by (simp add: handle_event_def reset_if_complete_def)
  have e2: "s_data (sock c2) = []" using c2(7) k by (simp add: after_def)
  have d2: "delivered c2 = delivered c" "fsm_state c2 = BOUND_TO_DP \<and> datapath c2"
    using c1(5) c2(8) f0 by (simp_all add: frame_def c0_def)
  have sv1: "serve (length (take (8 + k) m)) ?poll ?c = Some c2"
    using p1 e2 assms(5,10) by (intro serve_once) auto
  let ?r = "drop (8 + k) m"
  define c3 where "c3 = (arrive ?r c2)\<lparr>fsm_event := READ_EVENT\<rparr>"
  have c3: "msg_state c3 = WAITING_FOR_COMPLETE_MSG" "msg_buf c3 = Some buf" "msg_len_read c3 \<noteq> 0"
    "s_data (sock c3) = ?r" "unat (hdr_length_host (be_host env) (msg_hdr c3)) = length m" "?r \<noteq> []"
    "delivered c3 = delivered c" "fsm_state (arrive ?r c2) = BOUND_TO_DP \<and> datapath (arrive ?r c2)" "msg_hdr c3 = take 8 m"
    "unat (msg_len_read c3) = k mod 256"
    using c2 e2 d2 assms(1,5,6) hdr_take [OF l(2)] l(1)
    by (auto simp: c3_def arrive_def unat_eq_0 [symmetric])
  let ?w = "start_of_data buf + 8 + k mod 256"
  let ?buf = "(poke ?w ?r buf)\<lparr>data_len := length1 buf + of_nat (length ?r)\<rparr>"
  define c4 where "c4 = c3\<lparr>sock := after (length m - (8 + k)) c3, msg_state := RCVD_COMPLETE_MSG, msg_buf := Some ?buf\<rparr>"
  have t: "take (length m - (8 + k)) ?r = ?r" "length ?r = length m - (8 + k)" by simp_all
  have ne: "s_data (sock c3) \<noteq> []" using c3(4,6) by simp
  have r4: "fsm_xprt_proto_channel_read env c3 = Some (True, c4)"
    unfolding rest_unfold [OF c3(1,2) c2(3) c3(5) assms(5) c3(3) ne] Let_def c3(4) t(1)
      c3(10) c2(4) if_P [OF t(2)]
    by (simp add: c4_def add.assoc)
  have c4: "fsm_xprt_proto_channel_read env c3 = Some (True, c4)" "msg_state c4 = RCVD_COMPLETE_MSG"
    "msg_buf c4 = Some ?buf" "msg_hdr c4 = take 8 m" "delivered c4 = delivered c" "s_data (sock c4) = []"
    using r4 c3 t by (simp_all add: c4_def after_def)
  have dl: "unat (data_len ?buf) = length m"
    using unat_plus_of_nat [of "length1 buf" "length ?r"] c2(3) assms(3,5) by (simp add: event_msg_def)
  define d where "d = read_bytes (start_of_data buf) (length m) (write_bytes ?w ?r (mem buf))"
  have "datapath c4" using d2(2) by (simp add: c4_def c3_def arrive_def)
  then have p2: "\<exists>c5. ?poll (arrive ?r c2) = Some c5 \<and> delivered c5 = d # delivered c \<and> s_data (sock c5) = []"
    using reader_case [OF c3(8) c4(1) [unfolded c3_def]] c4 v dispatch_event [OF assms(3) c4(4)] dl
    by (simp add: handle_event_def OF_READ_ASYNC_MSG_def deliver_def reset_if_complete_def
        OF_TRNSPRT_CHN_RESET_2_READ_NEW_MSG_def d_def)
  then obtain c5 where c5: "?poll (arrive ?r c2) = Some c5" "delivered c5 = d # delivered c" "s_data (sock c5) = []"
    by blast
  have sv2: "serve (length ?r) ?poll (arrive ?r c2) = Some c5" using c5 c3(6) e2 by (intro serve_once) auto
  have "take (length m - (8 + k)) (drop (8 + k mod 256) d) = ?r"
  proof (rule nth_equalityI)
    have kk: "k mod 256 \<le> k" by simp
    show "length (take (length m - (8 + k)) (drop (8 + k mod 256) d)) = length ?r"
      using assms(5) kk by (simp add: d_def)
    fix i assume "i < length (take (length m - (8 + k)) (drop (8 + k mod 256) d))"
    then have i: "i < length m - (8 + k)" by simp
    then show "take (length m - (8 + k)) (drop (8 + k mod 256) d) ! i = ?r ! i"
      using kk assms(5) write_bytes_at [of i ?r ?w "mem buf"] by (simp add: d_def read_bytes_def add.assoc)
  qed
  then show ?thesis using sv1 sv2 c5(2) by (auto simp: d_def)
qed

text \<open>266 bytes, of which 265 come first: the last byte is put where the body's second byte was.\<close>

lemma long_split_corrupted_witness:
  "\<exists>c' d. serve_all (of_read_and_process_msg_from_dp sample_env (\<lambda>_ c. Some c))
      [[4, 4, 1, 10, 0, 0, 0, 1] @ replicate 257 0, [7]] sample_channel = Some c'
    \<and> delivered c' = [d] \<and> length d = 266 \<and> take 1 (drop 9 d) = [7]"
proof -
  let ?m = "[4, 4, 1, 10, 0, 0, 0, 1] @ replicate 257 0 @ [7] :: u8 list"
  have ev: "event_msg ?m"
    by (simp add: event_msg_def sizeof_ofp_header_def hdr_length_def of_be_def version_1_3_def)
  have al: "alloc_message sample_env ty sz \<noteq> None" "be_host sample_env" for ty sz by (simp_all add: sample_env_def)
  have c: "fsm_state sample_channel = BOUND_TO_DP \<and> datapath sample_channel" "msg_state sample_channel = WAITING_FOR_NEW_MSG"
    "length (msg_hdr sample_channel) = 8" "s_data (sock sample_channel) = []" "delivered sample_channel = []"
    by (simp_all add: sample_channel_def)
  have k: "256 \<le> (257 :: nat)" "8 + 257 < length ?m" "(257 :: nat) mod 256 \<noteq> 0" by simp_all
  have t: "take (8 + 257) ?m = [4, 4, 1, 10, 0, 0, 0, 1] @ replicate 257 0" "drop (8 + 257) ?m = [7]"
    "length ?m = 266" "266 - (8 + 257) = (1 :: nat)" "8 + 257 mod 256 = (9 :: nat)"
    by simp_all
  from long_split_corrupted [OF al(2,1) ev k c(1-4), of "\<lambda>_ c. Some c"]
  show ?thesis unfolding t c(5) .
qed

end
