(* ===== verification/ChannelFsm.thy ===== *)
theory ChannelFsm
  imports ChannelRead
begin

text \<open>
  The channel as a state machine: what can happen to a channel that has been accepted, in any order, and
  what no order can bring about while it is read only as long as it is bound: a call through a \<open>NULL\<close>
  entry of the table of handlers, a use of a datapath that is not there, a second close of the descriptor,
  a closed channel that is still in the hash table.
\<close>

named_theorems keeps "what an operation keeps of the channel's invariant"

section \<open>The invariant\<close>

definition conn_ok :: "cntlr_channel_info_t \<Rightarrow> bool" where
  "conn_ok c \<longleftrightarrow> fsm_state c \<noteq> INIT \<and> closes c = (if fsm_state c = CLOSE_CONN then 1 else 0)
     \<and> (fsm_state c = BOUND_TO_DP \<longrightarrow> datapath c)
     \<and> (is_chn_added_2_hash_tbl c \<longrightarrow> state c \<noteq> CLOSE_INITIATED \<and> fsm_state c \<noteq> CLOSE_CONN)
     \<and> (fsm_state c = CLOSE_CONN \<longrightarrow> s_data (sock c) = [] \<and> s_end (sock c) = Some Bad_fd)"

definition msg_ok :: "cntlr_channel_info_t \<Rightarrow> bool" where
  "msg_ok c \<longleftrightarrow> length (msg_hdr c) = sizeof_ofp_header
     \<and> (msg_state c = WAITING_FOR_MSG_HEADER \<longrightarrow> unat (hdr_len_read c) < sizeof_ofp_header)
     \<and> (msg_state c = WAITING_FOR_COMPLETE_MSG \<or> msg_state c = RCVD_COMPLETE_MSG \<longrightarrow> msg_buf c \<noteq> None)"

definition channel_ok :: "cntlr_channel_info_t \<Rightarrow> bool" where
  "channel_ok c \<longleftrightarrow> conn_ok c \<and> msg_ok c"

text \<open>What the handlers for failures do to the message being read: at most, give it up.\<close>

definition quiet :: "cntlr_channel_info_t \<Rightarrow> cntlr_channel_info_t \<Rightarrow> bool" where
  "quiet c c' \<longleftrightarrow> msg_hdr c' = msg_hdr c \<and> hdr_len_read c' = hdr_len_read c \<and> msg_buf c' = msg_buf c
     \<and> (msg_state c' = msg_state c \<or> msg_state c' = DRAIN_OUT_COMPLETE_MSG \<or> msg_state c' = WAITING_FOR_NEW_MSG)"

lemma quiet_trans: "quiet a b \<Longrightarrow> quiet b c \<Longrightarrow> quiet a c"
  by (auto simp: quiet_def)

lemma quiet_msg_ok: "quiet a b \<Longrightarrow> msg_ok a \<Longrightarrow> msg_ok b"
  by (auto simp: quiet_def msg_ok_def)

text \<open>\<open>safe f\<close>: \<open>f\<close>, called for a failure, calls no handler through \<open>NULL\<close>, keeps the connection's state and is quiet.\<close>

definition safe :: "(cntlr_channel_info_t \<Rightarrow> cntlr_channel_info_t option) \<Rightarrow> bool" where
  "safe f \<longleftrightarrow> (\<forall>c. conn_ok c \<longrightarrow> fsm_event c \<noteq> LEARN_EVENT \<longrightarrow> (\<exists>c'. f c = Some c' \<and> conn_ok c' \<and> quiet c c'))"

lemma safeD: "safe f \<Longrightarrow> conn_ok c \<Longrightarrow> fsm_event c \<noteq> LEARN_EVENT \<Longrightarrow> \<exists>c'. f c = Some c' \<and> conn_ok c' \<and> quiet c c'"
  by (simp add: safe_def)

lemma conn_ok_fields [simp]:
  "conn_ok (c\<lparr>fsm_event := e\<rparr>) = conn_ok c" "conn_ok (c\<lparr>msg_state := st\<rparr>) = conn_ok c"
  "conn_ok (c\<lparr>msg_hdr := h\<rparr>) = conn_ok c" "conn_ok (c\<lparr>hdr_len_read := n\<rparr>) = conn_ok c"
  "conn_ok (c\<lparr>msg_len_read := n\<rparr>) = conn_ok c" "conn_ok (c\<lparr>msg_buf := b\<rparr>) = conn_ok c"
  "conn_ok (c\<lparr>recv_bytes := r\<rparr>) = conn_ok c" "conn_ok (c\<lparr>drain_out_bytes := w\<rparr>) = conn_ok c"
  "conn_ok (c\<lparr>invalid_states := w\<rparr>) = conn_ok c" "conn_ok (c\<lparr>delivered := d\<rparr>) = conn_ok c"
  by (simp_all add: conn_ok_def)

lemma conn_ok_read [keeps]:
  "tcp_transport_read_data len (sock c) = (r, s) \<Longrightarrow> conn_ok c \<Longrightarrow> conn_ok (c\<lparr>sock := s\<rparr>)"
  by (auto simp: conn_ok_def tcp_transport_read_data_def split: if_splits option.splits stream_end.splits)

lemma read_length:
  "tcp_transport_read_data len s = ((CONN_READ_SUCCESS, bytes, p), s') \<Longrightarrow> length bytes \<le> unat len"
  by (auto simp: tcp_transport_read_data_def split: if_splits option.splits stream_end.splits)

section \<open>Closing and discarding keep it\<close>

lemma close_conn [keeps]:
  assumes "close_ok env" and "conn_ok c" and "fsm_state c \<noteq> CLOSE_CONN"
  shows "\<exists>c'. xprt_proto_channel_close env c = Some (True, c') \<and> conn_ok c' \<and> quiet c c' \<and> fsm_state c' = CLOSE_CONN"
  using assms
  by (cases "fsm_state c")
    (auto simp: xprt_proto_channel_close_def fsm_xprt_proto_channel_detach_dp_def conn_ok_def quiet_def Let_def)

lemma detach_conn [keeps]:
  assumes "conn_ok c" and "fsm_state c \<noteq> CLOSE_CONN"
  shows "conn_ok (snd (fsm_xprt_proto_channel_detach_dp env c))" and "quiet c (snd (fsm_xprt_proto_channel_detach_dp env c))"
    and "fsm_state (snd (fsm_xprt_proto_channel_detach_dp env c)) \<noteq> CLOSE_CONN"
  using assms by (auto simp: fsm_xprt_proto_channel_detach_dp_def conn_ok_def quiet_def)

lemma dispatch_close_safe [keeps]: "close_ok env \<Longrightarrow> safe (dispatch_close env)"
  unfolding safe_def
proof (intro allI impI)
  fix c assume a: "close_ok env" "conn_ok c"
  show "\<exists>c'. dispatch_close env c = Some c' \<and> conn_ok c' \<and> quiet c c'"
    using a close_conn [OF a]
    by (cases "fsm_state c")
      (auto simp: dispatch_close_def fsm_xprt_proto_channel_close_def conn_ok_def [of c] quiet_def [of c c])
qed

lemma read_msg_safe [keeps]:
  assumes "safe d" and "conn_ok c"
  shows "\<exists>st bytes c'. fsm_xprt_proto_channel_read_msg_from_dp d env len c = Some ((st, bytes), c') \<and> conn_ok c'
    \<and> quiet c c' \<and> (st \<longrightarrow> msg_state c' = msg_state c \<and> length bytes \<le> unat len)
    \<and> (\<not> st \<longrightarrow> msg_state c' = DRAIN_OUT_COMPLETE_MSG \<or> msg_state c' = WAITING_FOR_NEW_MSG)"
proof -
  obtain status bytes p s where r: "tcp_transport_read_data len (sock c) = ((status, bytes, p), s)"
    by (metis prod_cases3 prod.exhaust)
  have k: "conn_ok (c\<lparr>sock := s\<rparr>)" using conn_ok_read [OF r assms(2)] .
  show ?thesis
  proof (cases "status = CONN_READ_SUCCESS")
    case True
    let ?c = "c\<lparr>sock := s, recv_bytes := recv_bytes c + of_nat (length bytes)\<rparr>"
    have "fsm_xprt_proto_channel_read_msg_from_dp d env len c = Some ((True, bytes), ?c)"
      using r True by (simp add: fsm_xprt_proto_channel_read_msg_from_dp_def Let_def)
    moreover have "conn_ok ?c" "quiet c ?c" using k by (simp_all add: quiet_def)
    moreover have "length bytes \<le> unat len" using r True read_length by blast
    ultimately show ?thesis by fastforce
  next
    case False
    let ?drained = "c\<lparr>sock := s, msg_state := DRAIN_OUT_COMPLETE_MSG\<rparr>"
    let ?c = "?drained\<lparr>fsm_event := (if p then CLOSE_EVENT else READ_FAIL_EVENT),
      drain_out_bytes := ucast (hdr_length_host (be_host env) (msg_hdr c)) - of_nat sizeof_ofp_header\<rparr>"
    have q: "conn_ok ?c" "conn_ok ?drained" "quiet c ?drained" using k by (simp_all add: quiet_def)
    have l: "fsm_event ?c \<noteq> LEARN_EVENT" by simp
    obtain c' where c': "d ?c = Some c'" "conn_ok c'" "quiet ?c c'" using safeD [OF assms(1) q(1) l] by blast
    have q': "quiet c c'" "msg_state c' = DRAIN_OUT_COMPLETE_MSG \<or> msg_state c' = WAITING_FOR_NEW_MSG"
      using c'(3) by (auto simp: quiet_def)
    show ?thesis
    proof (cases "\<not> p \<and> fsm_event c = READ_FAIL_EVENT")
      case True
      then have "fsm_xprt_proto_channel_read_msg_from_dp d env len c = Some ((False, []), ?drained)"
        using r False by (simp add: fsm_xprt_proto_channel_read_msg_from_dp_def Let_def)
      then show ?thesis using q by auto
    next
      case f: False
      have "fsm_xprt_proto_channel_read_msg_from_dp d env len c = Some ((False, []), c')"
        using r False c'(1) unfolding fsm_xprt_proto_channel_read_msg_from_dp_def Let_def
        by (simp add: f if_not_P [OF f])
      then show ?thesis using q' c'(2) by auto
    qed
  qed
qed

lemma drain_loop_safe [keeps]:
  assumes "safe d" and "conn_ok c"
  shows "\<exists>st c'. drain_loop d env n c = Some (st, c') \<and> conn_ok c' \<and> quiet c c'"
  using assms(2)
proof (induction n arbitrary: c rule: less_induct)
  case (less n)
  let ?k = "of_nat (min n OF_SOCKET_BUFFER_READ_LENGTH_FOR_DRAIN_OUT) :: u16"
  show ?case
  proof (cases "n = 0")
    case True
    then have "drain_loop d env n c = Some (True, c)" by (subst drain_loop.simps) simp
    then show ?thesis using less.prems by (auto simp: quiet_def)
  next
    case False
    obtain st bytes c1 where r: "fsm_xprt_proto_channel_read_msg_from_dp d env ?k c = Some ((st, bytes), c1)"
      and c1: "conn_ok c1" "quiet c c1" using read_msg_safe [OF assms(1) less.prems] by blast
    show ?thesis
    proof (cases st)
      case True
      have b: "bytes \<noteq> []" using r True drain_size [of n] False by (simp add: read_msg_some)
      let ?m = "n - length bytes"
      define c2 where "c2 = (if ?m = 0 then c1\<lparr>msg_state := WAITING_FOR_NEW_MSG, drain_out_bytes := 0\<rparr> else c1)"
      have q: "conn_ok c2" "quiet c c2" using c1 by (auto simp: c2_def quiet_def)
      have s: "drain_loop d env n c = drain_loop d env ?m c2"
        using r True False by (subst drain_loop.simps) (simp add: Let_def c2_def)
      have "?m < n" using b False by (cases bytes) auto
      from less.IH [OF this q(1)] q(2) s show ?thesis by (metis quiet_trans)
    next
      case f: False
      have "drain_loop d env n c = Some (False, c1\<lparr>msg_state := WAITING_FOR_NEW_MSG, drain_out_bytes := 0\<rparr>)"
        using r f False by (subst drain_loop.simps) simp
      then show ?thesis using c1 by (auto simp: quiet_def)
    qed
  qed
qed

lemma dispatch_fail_safe [keeps]: "close_ok env \<Longrightarrow> safe (dispatch_fail env)"
  unfolding safe_def
proof (intro allI impI)
  fix c assume a: "close_ok env" "conn_ok c" and l: "fsm_event c \<noteq> LEARN_EVENT"
  have e: "\<exists>st c'. fsm_xprt_proto_channel_read_error env c = Some (st, c') \<and> conn_ok c' \<and> quiet c c'"
    using drain_loop_safe [OF dispatch_close_safe [OF a(1)] a(2)] a(2)
    by (auto simp: fsm_xprt_proto_channel_read_error_def of_drain_out_socket_buf_def quiet_def [of c c])
  show "\<exists>c'. dispatch_fail env c = Some c' \<and> conn_ok c' \<and> quiet c c'"
    using a close_conn [OF a] detach_conn [OF a(2)] e l
    by (cases "fsm_state c"; cases "fsm_event c")
      (auto simp: dispatch_fail_def fsm_xprt_proto_channel_close_def quiet_def [of c c] conn_ok_def [of c])
qed

section \<open>Reading keeps it\<close>

text \<open>\<open>kept r\<close>: the call returned, and the channel is as it should be.\<close>

definition kept :: "('a \<times> cntlr_channel_info_t) option \<Rightarrow> bool" where
  "kept r \<longleftrightarrow> (\<exists>x c. r = Some (x, c) \<and> channel_ok c)"

definition kept1 :: "cntlr_channel_info_t option \<Rightarrow> bool" where
  "kept1 r \<longleftrightarrow> (\<exists>c. r = Some c \<and> channel_ok c)"

lemma kept_Some [simp]: "kept (Some (x, c)) = channel_ok c" "kept1 (Some c) = channel_ok c"
  by (auto simp: kept_def kept1_def)

lemma kept_map: "kept1 r \<Longrightarrow> kept (map_option (\<lambda>c. (x, c)) r)" "kept r' \<Longrightarrow> kept1 (map_option snd r')"
  by (auto simp: kept_def kept1_def)

lemma safe_kept1:
  assumes "safe f" and "channel_ok c" and "fsm_event c \<noteq> LEARN_EVENT"
  shows "kept1 (f c)"
  using safeD [OF assms(1) _ assms(3)] assms(2) by (auto simp: kept1_def channel_ok_def dest: quiet_msg_ok)

lemma drain_kept:
  assumes "close_ok env" and "channel_ok c"
  shows "kept (of_drain_out_socket_buf (dispatch_fail env) env len c)"
  using drain_loop_safe [OF dispatch_fail_safe [OF assms(1)], of c env "unat len"] assms(2)
  by (auto simp: kept_def of_drain_out_socket_buf_def channel_ok_def dest: quiet_msg_ok)

lemma header_failed_kept:
  assumes "close_ok env" and "channel_ok c"
  shows "kept1 (header_read_failed env p c)"
proof -
  note s = safe_kept1 [OF dispatch_fail_safe [OF assms(1)]]
  have e: "channel_ok (c\<lparr>fsm_event := e\<rparr>) = channel_ok c" for c e by (simp add: channel_ok_def msg_ok_def)
  have 1: "kept1 (dispatch_fail env (c\<lparr>fsm_event := e\<rparr>))" if "channel_ok c" "e \<noteq> LEARN_EVENT" for c e
    using s [of "c\<lparr>fsm_event := e\<rparr>"] that e by simp
  show ?thesis
    using 1 [OF assms(2), of DP_DETACH_EVENT] 1 [OF assms(2), of READ_FAIL_EVENT] 1 [of _ CLOSE_EVENT]
    by (auto simp: header_read_failed_def kept1_def)
qed

lemma invalid_state_kept:
  assumes "close_ok env" and "channel_ok c" and "fsm_state c = BOUND_TO_DP"
  shows "kept (invalid_state env limit c)"
proof -
  let ?c = "c\<lparr>invalid_states := invalid_states c + 1, fsm_event := CLOSE_EVENT\<rparr>"
  have c: "channel_ok ?c" "channel_ok (c\<lparr>invalid_states := invalid_states c + 1\<rparr>)" "fsm_state ?c \<noteq> INIT" "datapath c"
    using assms(2,3) by (simp_all add: channel_ok_def msg_ok_def conn_ok_def)
  have k: "kept1 (dispatch_fail env ?c)" using safe_kept1 [OF dispatch_fail_safe [OF assms(1)] c(1)] by simp
  have "fsm_send_channel_event env Some CLOSE_EVENT (c\<lparr>invalid_states := invalid_states c + 1\<rparr>) = dispatch_fail env ?c"
    using c(3) by (cases "fsm_state c") (auto simp: fsm_send_channel_event_def Let_def option.map_ident)
  then show ?thesis using k c(2,4) kept_map(1) [OF k] by (auto simp: invalid_state_def Let_def)
qed

lemma channel_read_kept:
  assumes "close_ok env" and "channel_ok c" and "fsm_state c = BOUND_TO_DP"
  shows "kept (fsm_xprt_proto_channel_read env c)"
proof -
  obtain len where len: "len = (case msg_state c of
      WAITING_FOR_NEW_MSG \<Rightarrow> of_nat sizeof_ofp_header
    | WAITING_FOR_MSG_HEADER \<Rightarrow> of_nat (sizeof_ofp_header - unat (hdr_len_read c))
    | _ \<Rightarrow> (ucast (ucast (hdr_length_host (be_host env) (msg_hdr c)) - ucast (length1 (the (msg_buf c))) :: u32) :: u16))"
    by simp
  obtain status bytes p s where r: "tcp_transport_read_data len (sock c) = ((status, bytes, p), s)"
    by (metis prod_cases3 prod.exhaust)
  have k: "conn_ok (c\<lparr>sock := s\<rparr>)" using conn_ok_read [OF r] assms(2) by (simp add: channel_ok_def)
  have ks: "channel_ok (c\<lparr>sock := s\<rparr>)" using k assms(2) by (simp add: channel_ok_def msg_ok_def)
  have m: "msg_ok c" using assms(2) by (simp add: channel_ok_def)
  note failed = kept_map(1) [OF header_failed_kept [OF assms(1) ks]]
  note inv = invalid_state_kept [OF assms]
  show ?thesis
  proof (cases "msg_state c")
    case WAITING_FOR_NEW_MSG
    then have "unat len = 8" using len by (simp add: sizeof_ofp_header_def)
    then have l: "status = CONN_READ_SUCCESS \<Longrightarrow> length bytes \<le> 8" using read_length r by fastforce
    show ?thesis
      using WAITING_FOR_NEW_MSG r len k m failed l
      by (cases "status = CONN_READ_SUCCESS")
        (auto simp: fsm_xprt_proto_channel_read_def Let_def channel_ok_def msg_ok_def sizeof_ofp_header_def
          unat_of_nat take_bit_nat_eq_self)
  next
    case WAITING_FOR_MSG_HEADER
    then have n: "unat (hdr_len_read c) < 8" "length (msg_hdr c) = 8" using m by (simp_all add: msg_ok_def sizeof_ofp_header_def)
    have "len = of_nat (8 - unat (hdr_len_read c))"
      using len WAITING_FOR_MSG_HEADER by (simp add: sizeof_ofp_header_def del: of_nat_diff)
    then have "unat len = 8 - unat (hdr_len_read c)"
      by (simp add: unat_of_nat take_bit_nat_eq_self del: of_nat_diff)
    then have l: "status = CONN_READ_SUCCESS \<Longrightarrow> length bytes \<le> 8 - unat (hdr_len_read c)"
      using read_length r by fastforce
    have u: "length bytes \<le> 8 \<Longrightarrow> unat (hdr_len_read c + of_nat (length bytes)) = unat (hdr_len_read c) + length bytes"
      using n by (simp add: unat_word_ariths(1) unat_of_nat take_bit_nat_eq_self)
    show ?thesis
      using WAITING_FOR_MSG_HEADER r len k failed l n u
      by (cases "status = CONN_READ_SUCCESS")
        (auto simp: fsm_xprt_proto_channel_read_def Let_def channel_ok_def msg_ok_def sizeof_ofp_header_def)
  next
    case WAITING_FOR_COMPLETE_MSG
    then obtain buf where b: "msg_buf c = Some buf" using m by (auto simp: msg_ok_def)
    let ?d = "c\<lparr>sock := s, msg_state := DRAIN_OUT_COMPLETE_MSG, fsm_event := (if p then CLOSE_EVENT else READ_FAIL_EVENT),
        drain_out_bytes := ucast (hdr_length_host (be_host env) (msg_hdr c)) - of_nat sizeof_ofp_header\<rparr>"
    have d: "conn_ok ?d" "fsm_event ?d \<noteq> LEARN_EVENT" using k by simp_all
    obtain c' where c': "dispatch_fail env ?d = Some c'" "conn_ok c'" "quiet ?d c'"
      using safeD [OF dispatch_fail_safe [OF assms(1)] d] by blast
    then have "channel_ok (c'\<lparr>msg_buf := None\<rparr>)" using m by (auto simp: channel_ok_def msg_ok_def quiet_def)
    then show ?thesis
      using WAITING_FOR_COMPLETE_MSG b r len k m inv c'(1) assms(2)
      by (auto simp: fsm_xprt_proto_channel_read_def Let_def channel_ok_def msg_ok_def)
  qed (use inv in \<open>simp_all add: fsm_xprt_proto_channel_read_def\<close>)
qed

section \<open>The handlers keep it\<close>

lemma msg_ok_fields [simp]:
  "msg_ok (c\<lparr>fsm_event := e\<rparr>) = msg_ok c" "msg_ok (c\<lparr>msg_len_read := n\<rparr>) = msg_ok c"
  "msg_ok (c\<lparr>delivered := d\<rparr>) = msg_ok c"
  by (simp_all add: msg_ok_def)

text \<open>A read of the body: what comes back is given up, or has the channel as it was but for the socket.\<close>

lemma read_msg_cases:
  assumes "close_ok env" and "channel_ok c"
  obtains (some) bytes c' where "fsm_xprt_proto_channel_read_msg_from_dp (dispatch_fail env) env len c = Some ((True, bytes), c')"
      "channel_ok c'" "quiet c c'" "msg_state c' = msg_state c"
    | (none) bytes c' where "fsm_xprt_proto_channel_read_msg_from_dp (dispatch_fail env) env len c = Some ((False, bytes), c')"
      "channel_ok c'" "quiet c c'" "msg_state c' = DRAIN_OUT_COMPLETE_MSG \<or> msg_state c' = WAITING_FOR_NEW_MSG"
proof -
  obtain st bytes c' where r: "fsm_xprt_proto_channel_read_msg_from_dp (dispatch_fail env) env len c = Some ((st, bytes), c')"
    "conn_ok c'" "quiet c c'" "st \<longrightarrow> msg_state c' = msg_state c"
    "\<not> st \<longrightarrow> msg_state c' = DRAIN_OUT_COMPLETE_MSG \<or> msg_state c' = WAITING_FOR_NEW_MSG"
    using read_msg_safe [OF dispatch_fail_safe [OF assms(1)], of c env len] assms(2)
    by (auto simp: channel_ok_def)
  then have "channel_ok c'" using assms(2) quiet_msg_ok by (auto simp: channel_ok_def)
  then show thesis using r some none by (cases st) auto
qed

text \<open>\<open>ready r\<close>: when the call succeeds and no more is to come, the message is complete.\<close>

definition ready :: "(bool \<times> cntlr_channel_info_t) option \<Rightarrow> bool" where
  "ready r \<longleftrightarrow> (\<exists>st c. r = Some (st, c) \<and> channel_ok c \<and> (st \<longrightarrow> msg_buf c \<noteq> None))"

lemma ready_Some [simp]: "ready (Some (st, c)) = (channel_ok c \<and> (st \<longrightarrow> msg_buf c \<noteq> None))"
  by (auto simp: ready_def)

lemma async_ready:
  assumes "close_ok env" and "channel_ok c" and "msg_state c = START_READING_MSG \<or> msg_state c = WAITING_FOR_COMPLETE_MSG"
  shows "ready (of_alloc_and_read_async_message env c)"
proof (cases "msg_state c = START_READING_MSG")
  case True
  have m: "msg_ok c" "conn_ok c" using assms(2) by (simp_all add: channel_ok_def)
  have n: "channel_ok (c\<lparr>msg_buf := None\<rparr>)" using m True by (simp add: channel_ok_def msg_ok_def)
  show ?thesis
  proof (cases "alloc_message env (msg_hdr c ! 1) (hdr_length (msg_hdr c))")
    case None
    obtain st c1 where d: "drain_loop (dispatch_fail env) env (unat (hdr_length (msg_hdr c) - of_nat sizeof_ofp_header))
        (c\<lparr>msg_buf := None\<rparr>) = Some (st, c1)" "conn_ok c1" "quiet (c\<lparr>msg_buf := None\<rparr>) c1"
      using drain_loop_safe [OF dispatch_fail_safe [OF assms(1)]] n unfolding channel_ok_def by blast
    then have "channel_ok (c1\<lparr>msg_buf := None\<rparr>)" using m True by (auto simp: channel_ok_def msg_ok_def quiet_def)
    then show ?thesis
      using True None d(1)
      by (auto simp: of_alloc_and_read_async_message_def of_drain_out_socket_buf_def Let_def)
  next
    case (Some buf)
    define b where "b = start_message (msg_hdr c) buf"
    define start where "start = c\<lparr>msg_buf := Some b, msg_state := WAITING_FOR_COMPLETE_MSG\<rparr>"
    define len where "len = hdr_length (msg_hdr c) - length1 b"
    note unf = of_alloc_and_read_async_message_def Let_def if_P [OF True] Some option.case b_def [symmetric]
      start_def [symmetric] len_def [symmetric]
    have k: "channel_ok start" using m by (simp add: channel_ok_def msg_ok_def start_def)
    show ?thesis
    proof (cases "len = 0")
      case True
      have "channel_ok (start\<lparr>msg_state := RCVD_COMPLETE_MSG\<rparr>)" "msg_buf start \<noteq> None"
        using k by (simp_all add: channel_ok_def msg_ok_def start_def)
      then show ?thesis unfolding unf if_P [OF True] by simp
    next
      case False
      note unf = unf if_not_P [OF False]
      show ?thesis
      proof (cases rule: read_msg_cases [OF assms(1) k, of len, case_names some none])
        case (some bytes c')
        then show ?thesis unfolding unf by (simp add: channel_ok_def msg_ok_def start_def)
      next
        case (none bytes c')
        then show ?thesis unfolding unf by (auto simp: channel_ok_def msg_ok_def)
      qed
    qed
  qed
next
  case False
  then obtain buf where b: "msg_buf c = Some buf" "msg_state c = WAITING_FOR_COMPLETE_MSG"
    using assms(2,3) by (auto simp: channel_ok_def msg_ok_def)
  show ?thesis
  proof (cases rule: read_msg_cases [OF assms(1,2), of "hdr_length (msg_hdr c) - length1 buf", case_names some none])
    case (some bytes c')
    then show ?thesis
      unfolding of_alloc_and_read_async_message_def Let_def if_not_P [OF False] using b
      by (simp add: channel_ok_def msg_ok_def)
  next
    case (none bytes c')
    then show ?thesis
      unfolding of_alloc_and_read_async_message_def Let_def if_not_P [OF False] using b
      by (auto simp: channel_ok_def msg_ok_def)
  qed
qed

lemma complete_ready:
  assumes "close_ok env" and "channel_ok c" and "msg_state c = START_READING_MSG \<or> msg_state c = WAITING_FOR_COMPLETE_MSG"
  shows "ready (of_alloc_and_read_message_from_dp env c)"
proof (cases "msg_state c = START_READING_MSG")
  case True
  have m: "msg_ok c" "conn_ok c" using assms(2) by (simp_all add: channel_ok_def)
  show ?thesis
  proof (cases "alloc_message env (msg_hdr c ! 1) (hdr_length (msg_hdr c))")
    case None
    then show ?thesis
      using True drain_kept [OF assms(1,2), of "hdr_length (msg_hdr c) - of_nat sizeof_ofp_header"]
      by (auto simp: of_alloc_and_read_message_from_dp_def Let_def kept_def)
  next
    case (Some buf)
    define b where "b = start_message (msg_hdr c) buf"
    define start where "start = c\<lparr>msg_buf := Some b\<rparr>"
    define len where "len = hdr_length (msg_hdr c) - length1 b"
    note unf = of_alloc_and_read_message_from_dp_def Let_def if_P [OF True] Some option.case b_def [symmetric]
      start_def [symmetric] len_def [symmetric]
    have k: "channel_ok start" "msg_state start = START_READING_MSG"
      using m True by (simp_all add: channel_ok_def msg_ok_def start_def)
    show ?thesis
    proof (cases "len = 0")
      case True
      have "channel_ok (start\<lparr>msg_state := RCVD_COMPLETE_MSG\<rparr>)" "msg_buf start \<noteq> None"
        using k by (simp_all add: channel_ok_def msg_ok_def start_def)
      then show ?thesis unfolding unf if_P [OF True] by simp
    next
      case False
      note unf = unf if_not_P [OF False]
      show ?thesis
      proof (cases rule: read_msg_cases [OF assms(1) k(1), of len, case_names some none])
        case (some bytes c')
        then show ?thesis unfolding unf using k by (simp add: channel_ok_def msg_ok_def)
      next
        case (none bytes c')
        then show ?thesis unfolding unf by (auto simp: channel_ok_def msg_ok_def)
      qed
    qed
  qed
next
  case False
  then obtain buf where b: "msg_buf c = Some buf" "msg_state c = WAITING_FOR_COMPLETE_MSG"
    using assms(2,3) by (auto simp: channel_ok_def msg_ok_def)
  show ?thesis
  proof (cases rule: read_msg_cases [OF assms(1,2), of "hdr_length (msg_hdr c) - length1 buf", case_names some none])
    case (some bytes c')
    then show ?thesis
      unfolding of_alloc_and_read_message_from_dp_def Let_def if_not_P [OF False] using b
      by (simp add: channel_ok_def msg_ok_def)
  next
    case (none bytes c')
    then show ?thesis
      unfolding of_alloc_and_read_message_from_dp_def Let_def if_not_P [OF False] using b
      by (auto simp: channel_ok_def msg_ok_def)
  qed
qed

lemma channel_ok_reset: "channel_ok c \<Longrightarrow> channel_ok (OF_TRNSPRT_CHN_RESET_2_READ_NEW_MSG c)"
  by (simp add: OF_TRNSPRT_CHN_RESET_2_READ_NEW_MSG_def channel_ok_def msg_ok_def conn_ok_def)

lemma channel_ok_deliver:
  "channel_ok c \<Longrightarrow> msg_buf c \<noteq> None \<Longrightarrow> \<exists>c'. deliver c = Some c' \<and> channel_ok c'"
  by (auto simp: deliver_def channel_ok_def)

lemma read_macro_ready:
  assumes "close_ok env" and "channel_ok c" and "msg_state c = START_READING_MSG \<or> msg_state c = RCVD_COMPLETE_MSG"
  shows "ready (OF_READ_ASYNC_MSG env c)" and "ready (OF_READ_COMPLETE_MSG env c)"
proof -
  have "ready (OF_READ_ASYNC_MSG env c) \<and> ready (OF_READ_COMPLETE_MSG env c)"
  proof (cases "msg_state c = RCVD_COMPLETE_MSG")
    case True
    then show ?thesis
      using assms(2) by (simp add: OF_READ_ASYNC_MSG_def OF_READ_COMPLETE_MSG_def channel_ok_def msg_ok_def)
  next
    case False
    then have s: "msg_state c = START_READING_MSG \<or> msg_state c = WAITING_FOR_COMPLETE_MSG" using assms(3) by simp
    obtain st c1 st' c2 where "of_alloc_and_read_async_message env c = Some (st, c1)" "channel_ok c1" "st \<longrightarrow> msg_buf c1 \<noteq> None"
      "of_alloc_and_read_message_from_dp env c = Some (st', c2)" "channel_ok c2" "st' \<longrightarrow> msg_buf c2 \<noteq> None"
      using async_ready [OF assms(1,2) s] complete_ready [OF assms(1,2) s] unfolding ready_def by blast
    then show ?thesis using False by (simp add: OF_READ_ASYNC_MSG_def OF_READ_COMPLETE_MSG_def)
  qed
  then show "ready (OF_READ_ASYNC_MSG env c)" and "ready (OF_READ_COMPLETE_MSG env c)" by simp_all
qed

lemma ready_handled:
  assumes "ready r" and "\<And>c. channel_ok c \<Longrightarrow> channel_ok (f c)" and "\<And>c. channel_ok c \<Longrightarrow> channel_ok (g c)"
  shows "kept1 (case r of None \<Rightarrow> None | Some (go_on, c) \<Rightarrow> if go_on then map_option f (deliver c) else Some (g c))"
proof -
  obtain st c where r: "r = Some (st, c)" "channel_ok c" "st \<longrightarrow> msg_buf c \<noteq> None" using assms(1) by (auto simp: ready_def)
  show ?thesis
  proof (cases st)
    case True
    then obtain c' where "deliver c = Some c'" "channel_ok c'" using channel_ok_deliver [OF r(2)] r(3) by auto
    then show ?thesis using r True assms(2) by simp
  qed (use r assms(3) in simp)
qed

lemma handled_kept:
  assumes "close_ok env" and "channel_ok c" and "fsm_state c = BOUND_TO_DP"
    and "msg_state c = START_READING_MSG \<or> msg_state c = RCVD_COMPLETE_MSG"
  shows "kept1 (handle_event env c)" and "kept1 (echo_req_handler env c)"
    and "kept1 (map_option snd (OF_READ_ASYNC_MSG env c))" and "kept1 (map_option snd (OF_READ_COMPLETE_MSG env c))"
proof -
  note r = read_macro_ready [OF assms(1,2,4)]
  have d: "datapath c" using assms(2,3) by (simp add: channel_ok_def conn_ok_def)
  have reset: "channel_ok c \<Longrightarrow> channel_ok (reset_if_complete c)" for c
    by (simp add: reset_if_complete_def channel_ok_reset)
  have "handle_event env c = (case OF_READ_ASYNC_MSG env c of None \<Rightarrow> None
      | Some (go_on, c) \<Rightarrow> if go_on then map_option reset_if_complete (deliver c) else Some (reset_if_complete c))"
    using d by (simp add: handle_event_def split: option.split prod.split)
  then show "kept1 (handle_event env c)" using ready_handled [OF r(1) reset reset] by simp
  show "kept1 (echo_req_handler env c)"
    using ready_handled [OF r(2) channel_ok_reset, of "\<lambda>c. c"] d by (simp add: echo_req_handler_def)
  show "kept1 (map_option snd (OF_READ_ASYNC_MSG env c))" "kept1 (map_option snd (OF_READ_COMPLETE_MSG env c))"
    using r by (auto simp: ready_def)
qed

section \<open>What can happen to a channel\<close>

text \<open>
  Bytes arrive, the stream ends, the peer or an application closes the connection, and the datapath is
  bound or detached.  While the channel is bound, the reader takes a header or the rest of a message, and
  a handler takes the body of a message that has begun, hands it on, discards the rest of it, or resets
  the channel.  The datapath is bound once per handshake, by \<open>of_add_channel_to_dp\<close>, which has set it; it is
  detached through the reference to the channel in the hash table, which a closed channel is no longer in.
  What is not a step: the reading of the handshake, and the call of a handler that
  \<open>of_read_and_process_msg_from_dp\<close> makes after its own reader has closed the channel.  A step to \<open>None\<close> is
  a call through \<open>NULL\<close>, or a use of a datapath or of a message buffer that is not there.
\<close>

inductive channel_step :: "trnsprt_env \<Rightarrow> cntlr_channel_info_t \<Rightarrow> cntlr_channel_info_t option \<Rightarrow> bool" for env where
  arrives: "fsm_state c \<noteq> CLOSE_CONN \<Longrightarrow> s_end (sock c) = None \<Longrightarrow> channel_step env c (Some (arrive bs c))"
| ends: "fsm_state c \<noteq> CLOSE_CONN \<Longrightarrow> channel_step env c (Some (c\<lparr>sock := (sock c)\<lparr>s_end := Some e\<rparr>\<rparr>))"
| reads: "fsm_state c = BOUND_TO_DP \<Longrightarrow>
    channel_step env c (map_option snd (fsm_xprt_proto_channel_read env (c\<lparr>fsm_event := READ_EVENT\<rparr>)))"
| handles: "fsm_state c = BOUND_TO_DP \<Longrightarrow> msg_state c = START_READING_MSG \<or> msg_state c = RCVD_COMPLETE_MSG \<Longrightarrow>
    f \<in> {handle_event, echo_req_handler, \<lambda>env c. map_option snd (OF_READ_ASYNC_MSG env c),
      \<lambda>env c. map_option snd (OF_READ_COMPLETE_MSG env c)} \<Longrightarrow> channel_step env c (f env c)"
| drops: "fsm_state c = BOUND_TO_DP \<Longrightarrow>
    channel_step env c (map_option snd (of_drain_out_socket_buf (dispatch_fail env) env len c))"
| resets: "channel_step env c (Some (OF_TRNSPRT_CHN_RESET_2_READ_NEW_MSG c))"
| bound: "fsm_state c = WAIT_FOR_HANDSHAKE \<Longrightarrow>
    channel_step env c (fsm_send_channel_event env Some LEARN_EVENT (c\<lparr>datapath := True\<rparr>))"
| detached: "is_chn_added_2_hash_tbl c \<Longrightarrow> channel_step env c (fsm_send_channel_event env Some DP_DETACH_EVENT c)"
| event: "e \<notin> {LEARN_EVENT, DP_DETACH_EVENT, READ_EVENT} \<Longrightarrow> channel_step env c (fsm_send_channel_event env Some e c)"

inductive_simps step_fails: "channel_step env c None"

inductive channel_run :: "trnsprt_env \<Rightarrow> cntlr_channel_info_t \<Rightarrow> cntlr_channel_info_t option \<Rightarrow> bool" for env c where
  run_start: "channel_run env c (Some c)"
| run_step: "channel_run env c (Some c') \<Longrightarrow> channel_step env c' r \<Longrightarrow> channel_run env c r"

lemma bound_kept:
  assumes "channel_ok c" and "fsm_state c = WAIT_FOR_HANDSHAKE"
  shows "kept1 (fsm_send_channel_event env Some LEARN_EVENT (c\<lparr>datapath := True\<rparr>))"
  using assms by (auto simp: fsm_send_channel_event_def fsm_xprt_proto_channel_learn_dp_def Let_def
      channel_ok_def conn_ok_def msg_ok_def)

lemma detached_kept:
  assumes "channel_ok c" and "is_chn_added_2_hash_tbl c"
  shows "kept1 (fsm_send_channel_event env Some DP_DETACH_EVENT c)"
proof -
  let ?c = "c\<lparr>fsm_event := DP_DETACH_EVENT\<rparr>"
  have c: "conn_ok ?c" "fsm_state ?c \<noteq> CLOSE_CONN" "fsm_state ?c \<noteq> INIT" "msg_ok ?c"
    using assms by (auto simp: channel_ok_def conn_ok_def)
  let ?d = "snd (fsm_xprt_proto_channel_detach_dp env ?c)"
  note d = detach_conn [OF c(1,2), of env]
  have "conn_ok (?d\<lparr>fsm_state := WAIT_FOR_HANDSHAKE\<rparr>)" using d(1,3) by (simp add: conn_ok_def)
  moreover have "msg_ok (?d\<lparr>fsm_state := WAIT_FOR_HANDSHAKE\<rparr>)"
    using quiet_msg_ok [OF d(2) c(4)] by (simp add: msg_ok_def)
  ultimately show ?thesis
    using c(2,3) by (cases "fsm_state c") (auto simp: fsm_send_channel_event_def dispatch_fail_def Let_def channel_ok_def)
qed

lemma event_kept:
  assumes "close_ok env" and "channel_ok c" and "e \<notin> {LEARN_EVENT, DP_DETACH_EVENT, READ_EVENT}"
  shows "kept1 (fsm_send_channel_event env Some e c)"
proof -
  let ?c = "c\<lparr>fsm_event := e\<rparr>"
  have c: "channel_ok ?c" "fsm_state c \<noteq> INIT" using assms(2) by (simp_all add: channel_ok_def conn_ok_def)
  have "kept1 (dispatch_fail env ?c)" using safe_kept1 [OF dispatch_fail_safe [OF assms(1)] c(1)] assms(3) by simp
  moreover have "fsm_send_channel_event env Some e c = dispatch_fail env ?c"
    using c(2) assms(3)
    by (cases "fsm_state c"; cases e) (auto simp: fsm_send_channel_event_def Let_def option.map_ident)
  ultimately show ?thesis by simp
qed

lemma step_kept:
  assumes "close_ok env" and "channel_ok c" and "channel_step env c r"
  shows "kept1 r"
  using assms(3)
proof cases
  case reads
  have "channel_ok (c\<lparr>fsm_event := READ_EVENT\<rparr>)" using assms(2) by (simp add: channel_ok_def)
  then show ?thesis using channel_read_kept [OF assms(1)] reads by (auto intro: kept_map)
next
  case (handles f)
  then show ?thesis using handled_kept [OF assms(1,2)] by blast
next
  case (drops len)
  then show ?thesis using drain_kept [OF assms(1,2)] by (auto intro: kept_map)
qed (use assms bound_kept detached_kept event_kept channel_ok_reset in
    \<open>auto simp: channel_ok_def conn_ok_def msg_ok_def arrive_def\<close>)

lemma run_kept: "channel_run env c r \<Longrightarrow> close_ok env \<Longrightarrow> channel_ok c \<Longrightarrow> kept1 r"
  by (induction rule: channel_run.induct) (use step_kept in auto)



section \<open>A message that has no handler\<close>

text \<open>A channel that has taken the header \<open>h\<close>, whose type has a \<open>NULL\<close> handler, from the socket.\<close>

definition unhandled :: "u8 list \<Rightarrow> bool" where
  "unhandled h \<longleftrightarrow> h ! 0 = version_1_3 \<and> unat (h ! 1) < length cntlr_cbk \<and> cntlr_cbk ! unat (h ! 1) = None"

definition stuck :: "u8 list \<Rightarrow> cntlr_channel_info_t \<Rightarrow> cntlr_channel_info_t \<Rightarrow> bool" where
  "stuck h c c' \<longleftrightarrow> fsm_state c' = BOUND_TO_DP \<and> datapath c' \<and> msg_state c' = START_READING_MSG \<and> msg_hdr c' = h
     \<and> s_data (sock c') \<noteq> [] \<and> delivered c' = delivered c"

lemma close_bound:
  assumes "close_ok env" and "fsm_state c = BOUND_TO_DP"
  shows "\<exists>c'. fsm_send_channel_event env Some CLOSE_EVENT c = Some c' \<and> fsm_state c' = CLOSE_CONN \<and> s_data (sock c') = []
    \<and> delivered c' = delivered c \<and> msg_hdr c' = msg_hdr c \<and> msg_state c' = msg_state c"
  using assms by (auto simp: fsm_send_channel_event_def dispatch_fail_def fsm_xprt_proto_channel_close_def
      xprt_proto_channel_close_def fsm_xprt_proto_channel_detach_dp_def Let_def)

lemma unhandled_skipped:
  "unhandled (msg_hdr c) \<Longrightarrow> of_process_dp_message env other c = Some (True, c)"
  by (simp add: unhandled_def of_process_dp_message_def)

lemma stuck_poll:
  assumes "close_ok env" and "unhandled h" and "stuck h c d"
  shows "\<exists>d'. of_read_and_process_msg_from_dp env other d = Some d' \<and> delivered d' = delivered c \<and>
    (if 5 \<le> invalid_states d + 1 then fsm_state d' = CLOSE_CONN \<and> s_data (sock d') = []
     else stuck h c d' \<and> invalid_states d' = invalid_states d + 1)"
proof -
  let ?e = "d\<lparr>fsm_event := READ_EVENT\<rparr>"
  let ?f = "?e\<lparr>invalid_states := invalid_states d + 1\<rparr>"
  have d: "fsm_state d = BOUND_TO_DP \<and> datapath d" "msg_state d = START_READING_MSG" "msg_hdr d = h" "s_data (sock d) \<noteq> []"
    "delivered d = delivered c" using assms(3) by (simp_all add: stuck_def)
  have v: "h ! 0 = version_1_3" using assms(2) by (simp add: unhandled_def)
  have r: "fsm_xprt_proto_channel_read env ?e = invalid_state env 5 ?e"
    using d(2) by (simp add: fsm_xprt_proto_channel_read_def)
  show ?thesis
  proof (cases "5 \<le> invalid_states d + 1")
    case True
    obtain g where g: "fsm_send_channel_event env Some CLOSE_EVENT ?f = Some g" "fsm_state g = CLOSE_CONN"
      "s_data (sock g) = []" "delivered g = delivered c" "msg_hdr g = h" "msg_state g = START_READING_MSG"
      using close_bound [OF assms(1), of ?f] d by auto
    then have "fsm_xprt_proto_channel_read env ?e = Some (True, g)" using r True d(1) by (simp add: invalid_state_def Let_def)
    from reader_case [OF d(1) this] show ?thesis
      using g v assms(2) True unhandled_skipped [of g env other] by simp
  next
    case False
    then have "fsm_xprt_proto_channel_read env ?e = Some (True, ?f)" using r by (simp add: invalid_state_def Let_def)
    from reader_case [OF d(1) this] show ?thesis
      using v d assms(2) False unhandled_skipped [of ?f env other] by (simp add: stuck_def)
  qed
qed

lemma stuck_serve:
  assumes "close_ok env" and "unhandled h" and "stuck h c d" and "0 < k" and "5 \<le> unat (invalid_states d) + k"
    and "invalid_states d + 1 \<noteq> 0"
  shows "\<exists>d'. serve k (of_read_and_process_msg_from_dp env other) d = Some d' \<and> delivered d' = delivered c
    \<and> fsm_state d' = CLOSE_CONN"
  using assms(3-6)
proof (induction k arbitrary: d)
  case (Suc k)
  have u: "unat (invalid_states d + 1) = unat (invalid_states d) + 1" using Suc.prems(4) unatSuc [of "invalid_states d"] by (simp add: add.commute)
  have ne: "s_data (sock d) \<noteq> []" using Suc.prems(1) by (simp add: stuck_def)
  obtain e where e: "of_read_and_process_msg_from_dp env other d = Some e" "delivered e = delivered c"
    "if 5 \<le> invalid_states d + 1 then fsm_state e = CLOSE_CONN \<and> s_data (sock e) = []
     else stuck h c e \<and> invalid_states e = invalid_states d + 1"
    using stuck_poll [OF assms(1,2) Suc.prems(1), of other] by blast
  have five: "5 \<le> invalid_states d + 1 \<longleftrightarrow> 5 \<le> unat (invalid_states d) + 1" by (simp add: word_le_nat_alt u)
  show ?case
  proof (cases "5 \<le> invalid_states d + 1")
    case True
    then show ?thesis using e ne by (simp add: serve_empty)
  next
    case False
    have i: "stuck h c e" "invalid_states e = invalid_states d + 1" using e(3) False by simp_all
    have "0 < k" "5 \<le> unat (invalid_states e) + k" using False Suc.prems(3) i(2) u five by auto
    moreover have "invalid_states e + 1 \<noteq> 0"
    proof
      assume "invalid_states e + 1 = 0"
      then have "invalid_states e = -1" by (simp only: eq_neg_iff_add_eq_0)
      moreover have "(5 :: u32) \<le> -1" by simp
      ultimately show False using False unfolding i(2) [symmetric] by simp
    qed
    ultimately show ?thesis using Suc.IH [OF i(1)] e(1) ne by simp
  qed
qed simp

text \<open>
  A message of a type whose handler is \<open>NULL\<close> takes the channel down: its header
  is read, the rest of the stream is never read, and after at most six more calls of the reader, each of
  which finds bytes waiting, the channel has been closed and nothing has been delivered.
\<close>

theorem unhandled_closes:
  assumes "close_ok env" and "unhandled h" and "length h = 8" and "rest \<noteq> []"
    and "fsm_state c = BOUND_TO_DP \<and> datapath c" and "msg_state c = WAITING_FOR_NEW_MSG" and "length (msg_hdr c) = 8"
    and "s_data (sock c) = []"
  shows "\<exists>c'. serve 7 (of_read_and_process_msg_from_dp env other) (arrive (h @ rest) c) = Some c'
    \<and> fsm_state c' = CLOSE_CONN \<and> delivered c' = delivered c"
proof -
  let ?poll = "of_read_and_process_msg_from_dp env other"
  let ?c = "arrive (h @ rest) c"
  let ?e = "?c\<lparr>fsm_event := READ_EVENT\<rparr>"
  have a: "at_pos (h @ rest) 0 c" using assms(5-7) by (simp add: at_pos_def)
  have at: "at_pos (h @ rest) 0 ?e" unfolding at_pos_event using a by simp
  have x: "8 \<le> 0 + length (s_data (sock ?e))" "take (8 - 0) (s_data (sock ?e)) = take (8 - 0) (drop 0 (h @ rest))"
    using assms(3,8) by simp_all
  obtain d where d: "fsm_xprt_proto_channel_read env ?e = Some (True, d)" "msg_state d = START_READING_MSG"
    "msg_hdr d = h" "sock d = after 8 ?e" "frame ?e d"
    using header_complete [OF at _ x, of env] assms(3) by auto
  have sd: "s_data (sock d) = rest" using d(4) assms(3,8) by (simp add: after_def)
  have f: "fsm_state ?c = BOUND_TO_DP \<and> datapath ?c" using assms(5) by (simp add: arrive_def)
  have st: "stuck h c d" using d sd assms(4) f by (simp add: stuck_def frame_def)
  have p: "?poll ?c = Some d"
    using reader_case [OF f d(1)] d(2,3) assms(2) unhandled_skipped [of d env other] by (simp add: unhandled_def)
  have ne: "s_data (sock ?c) \<noteq> []" using assms(4) by simp
  have "\<exists>d'. serve 6 ?poll d = Some d' \<and> delivered d' = delivered c \<and> fsm_state d' = CLOSE_CONN"
  proof (cases "invalid_states d + 1 = 0")
    case True
    obtain e where e: "?poll d = Some e" "stuck h c e" "invalid_states e = 0"
      using stuck_poll [OF assms(1,2) st, of other] True by auto
    have n: "0 < (5 :: nat)" "5 \<le> unat (invalid_states e) + 5" "invalid_states e + 1 \<noteq> 0" using e(3) by simp_all
    have "serve 6 ?poll d = serve 5 ?poll e" using e(1) sd assms(4) by (simp add: eval_nat_numeral)
    then show ?thesis using stuck_serve [OF assms(1,2) e(2) n, of other] by simp
  next
    case False
    then show ?thesis using stuck_serve [OF assms(1,2) st _ _ False, of 6 other] by simp
  qed
  moreover have "serve (Suc 6) ?poll ?c = serve 6 ?poll d" unfolding serve.simps(2) if_not_P [OF ne] p by simp
  ultimately show ?thesis by auto
qed

text \<open>A features request, which a switch should not send, and a port status message after it.\<close>

lemma unhandled_closes_witness:
  "\<exists>c'. serve 7 (of_read_and_process_msg_from_dp sample_env (\<lambda>_ c. Some c))
      (arrive ([4, 5, 0, 8, 0, 0, 0, 1] @ [4, 12, 0, 9, 0, 0, 0, 9, 7]) sample_channel) = Some c'
    \<and> fsm_state c' = CLOSE_CONN \<and> delivered c' = []"
proof -
  have h: "unhandled [4, 5, 0, 8, 0, 0, 0, 1]" by (simp add: unhandled_def version_1_3_def cntlr_cbk_def)
  have c: "close_ok sample_env" "fsm_state sample_channel = BOUND_TO_DP \<and> datapath sample_channel" "msg_state sample_channel = WAITING_FOR_NEW_MSG"
    "length (msg_hdr sample_channel) = 8" "s_data (sock sample_channel) = []" "delivered sample_channel = []"
    by (simp_all add: sample_env_def sample_channel_def)
  from unhandled_closes [OF c(1) h _ _ c(2-5), of "[4, 12, 0, 9, 0, 0, 0, 9, 7]" "\<lambda>_ c. Some c"] c(6)
  show ?thesis by simp
qed

end
