(* ===== verification/DpChannels.thy ===== *)
theory DpChannels
  imports ChannelFsm Simulation
begin

text \<open>
  The channels of a datapath: its main channel, and its auxiliary channels in a circular list with a
  tail (\<open>of_add_channel_to_dp\<close> in \<open>transport/base/trnsprt_channel.c\<close>; finding, walking and removing in
  \<open>dprm/dprm.c\<close>), and the closing of a main channel, which closes the auxiliary ones first
  (\<open>transport/base/channel_fsm.c\<close>).  \<open>None\<close> is a use of a null pointer or of memory that was freed.
\<close>

section \<open>Entries and their list\<close>

record dprm_dp_channel_entry =
  dc_next :: "nat option"
  dc_prev :: "nat option"
  dc_auxiliary_id :: u32
  dc_dp_handle :: u64
  dc_datapath :: bool
  dc_conn_table :: nat
  dc_safe_ref :: "u32 \<times> u32"

definition blank_entry :: dprm_dp_channel_entry where
  "blank_entry = \<lparr>dc_next = None, dc_prev = None, dc_auxiliary_id = 0, dc_dp_handle = 0, dc_datapath = False,
     dc_conn_table = 0, dc_safe_ref = (0, 0)\<rparr>"

text \<open>What a datapath keeps of its channels; \<open>dpc_nodes\<close> holds the entries that are allocated.\<close>

record datapath_channels =
  dpc_is_main_conn_present :: bool
  dpc_main_channel :: dprm_dp_channel_entry
  dpc_curr_no_of_aux_chanels :: u8
  dpc_aux_channels :: "nat option"
  dpc_aux_chn_tail :: "nat option"
  dpc_curr_chn_used_2_q_msg :: "nat option"
  dpc_no_of_buffers :: u32
  dpc_no_of_tables :: u8
  dpc_capabilities :: u32
  dpc_tables :: "nat option"
  dpc_nodes :: "nat \<Rightarrow> dprm_dp_channel_entry option"

definition OF_TRNSPRT_MAIN_CONN_ID :: u32 where "OF_TRNSPRT_MAIN_CONN_ID = 0"

definition cntlr_datapath_init :: "datapath_channels \<Rightarrow> datapath_channels" where
  "cntlr_datapath_init dp = dp\<lparr>dpc_is_main_conn_present := False, dpc_curr_no_of_aux_chanels := 0,
     dpc_aux_channels := None, dpc_aux_chn_tail := None\<rparr>"

definition on_node ::
  "nat option \<Rightarrow> (dprm_dp_channel_entry \<Rightarrow> dprm_dp_channel_entry) \<Rightarrow> datapath_channels \<Rightarrow> datapath_channels option" where
  "on_node p f dp =
     (case p of
        None \<Rightarrow> None
      | Some a \<Rightarrow> map_option (\<lambda>e. dp\<lparr>dpc_nodes := (dpc_nodes dp)(a \<mapsto> f e)\<rparr>) (dpc_nodes dp a))"

section \<open>Adding a channel\<close>

text \<open>The reply that tells the features of a switch, in the byte order of the host.\<close>

record ofp_switch_features =
  sf_datapath_id :: u64
  sf_n_buffers :: u32
  sf_n_tables :: u8
  sf_auxiliary_id :: u8
  sf_capabilities :: u32

text \<open>
  The datapath with a given id, whether there is any datapath, whether a handle is good, and what the
  allocations of an entry and of the tables give.
\<close>

record dprm_env =
  pe_datapath_handle :: "u64 \<Rightarrow> u64 option"
  pe_any_datapath :: bool
  pe_byhandle :: "u64 \<Rightarrow> bool"
  pe_node :: "nat option"
  pe_tables :: "nat option"

datatype add_status = Added u64 | Add_failure | Add_dp_invalid

definition link_aux_channel :: "nat \<Rightarrow> datapath_channels \<Rightarrow> datapath_channels option" where
  "link_aux_channel n dp =
     (let dp = dp\<lparr>dpc_nodes := (dpc_nodes dp)(n \<mapsto> blank_entry)\<rparr>;
          linked = (if dpc_aux_channels dp = None
            then let dp = dp\<lparr>dpc_aux_channels := Some n, dpc_curr_chn_used_2_q_msg := Some n\<rparr>
                 in on_node (Some n) (\<lambda>e. e\<lparr>dc_prev := dpc_aux_channels dp\<rparr>) dp
            else Option.bind (on_node (dpc_aux_chn_tail dp) (\<lambda>e. e\<lparr>dc_next := Some n\<rparr>) dp)
              (on_node (Some n) (\<lambda>e. e\<lparr>dc_prev := dpc_aux_chn_tail dp\<rparr>)))
      in Option.bind linked (\<lambda>dp.
           let dp = dp\<lparr>dpc_aux_chn_tail := Some n\<rparr>
           in map_option (\<lambda>dp. dp\<lparr>dpc_curr_no_of_aux_chanels := dpc_curr_no_of_aux_chanels dp + 1\<rparr>)
                (on_node (dpc_aux_chn_tail dp) (\<lambda>e. e\<lparr>dc_next := dpc_aux_channels dp\<rparr>) dp)))"

definition remember_connection ::
  "nat \<Rightarrow> u32 \<times> u32 \<Rightarrow> u64 \<Rightarrow> dprm_dp_channel_entry \<Rightarrow> dprm_dp_channel_entry" where
  "remember_connection conn_table conn_safe_ref handle e =
     e\<lparr>dc_conn_table := conn_table, dc_dp_handle := handle, dc_datapath := True, dc_safe_ref := conn_safe_ref\<rparr>"

definition of_add_channel_to_dp ::
  "dprm_env \<Rightarrow> nat \<Rightarrow> u32 \<times> u32 \<Rightarrow> ofp_switch_features \<Rightarrow> datapath_channels
    \<Rightarrow> (add_status \<times> datapath_channels) option" where
  "of_add_channel_to_dp env conn_table conn_safe_ref sf dp =
     (case pe_datapath_handle env (sf_datapath_id sf) of
        None \<Rightarrow> Some (if pe_any_datapath env then Add_failure else Add_dp_invalid, dp)
      | Some handle \<Rightarrow>
          let remember = remember_connection conn_table conn_safe_ref handle;
              is_main_conn = (\<not> dpc_is_main_conn_present dp)
          in if \<not> pe_byhandle env handle \<or> sf_auxiliary_id sf \<noteq> 0 \<and> is_main_conn then Some (Add_failure, dp)
             else if \<not> is_main_conn then
               (case pe_node env of
                  None \<Rightarrow> Some (Add_failure, dp)
                | Some n \<Rightarrow> map_option (\<lambda>dp. (Added handle, dp))
                    (Option.bind (link_aux_channel n dp)
                      (on_node (Some n) (\<lambda>e. remember (e\<lparr>dc_auxiliary_id := ucast (sf_auxiliary_id sf)\<rparr>)))))
             else
               (case pe_tables env of
                  None \<Rightarrow> Some (Add_failure, dp)
                | Some t \<Rightarrow> Some (Added handle, dp\<lparr>dpc_tables := Some t, dpc_no_of_buffers := sf_n_buffers sf,
                    dpc_no_of_tables := sf_n_tables sf, dpc_capabilities := sf_capabilities sf,
                    dpc_main_channel := remember ((dpc_main_channel dp)\<lparr>dc_auxiliary_id := OF_TRNSPRT_MAIN_CONN_ID\<rparr>),
                    dpc_is_main_conn_present := True\<rparr>)))"

section \<open>Finding channels\<close>

text \<open>
  The loop over the circular list, which is entered without a look whether there is a list.  The functions
  begin with the look-up of the datapath by its handle; here the handle has led to \<open>dp\<close>.
\<close>

partial_function (option) scan_channels ::
  "datapath_channels \<Rightarrow> (dprm_dp_channel_entry \<Rightarrow> bool) \<Rightarrow> nat option \<Rightarrow> nat option option" where
  "scan_channels dp wanted p =
     (case p of
        None \<Rightarrow> None
      | Some a \<Rightarrow>
          (case dpc_nodes dp a of
             None \<Rightarrow> None
           | Some e \<Rightarrow> if wanted e then Some (Some a)
               else if dc_next e = dpc_aux_channels dp then Some None
               else scan_channels dp wanted (dc_next e)))"

datatype dp_channel_ref = Main_channel | Aux_channel nat

definition of_get_dp_channel :: "datapath_channels \<Rightarrow> u32 \<Rightarrow> dp_channel_ref option option" where
  "of_get_dp_channel dp aux_id =
     (if aux_id = OF_TRNSPRT_MAIN_CONN_ID then Some (Some Main_channel)
      else map_option (map_option Aux_channel)
        (scan_channels dp (\<lambda>e. dc_auxiliary_id e = aux_id) (dpc_aux_channels dp)))"

definition of_get_first_aux_channel :: "datapath_channels \<Rightarrow> nat option" where
  "of_get_first_aux_channel dp = dpc_aux_channels dp"

definition of_get_next_aux_channel :: "datapath_channels \<Rightarrow> nat \<Rightarrow> nat option option" where
  "of_get_next_aux_channel dp a =
     map_option (\<lambda>e. if dc_next e = dpc_aux_channels dp then None else dc_next e) (dpc_nodes dp a)"

section \<open>Removing a channel\<close>

text \<open>
  The tail and the channel used for queueing are left as they are; so is the pointer to the tables of the
  datapath, which the removal of the main channel frees.
\<close>

definition of_remove_aux_channel :: "nat \<Rightarrow> datapath_channels \<Rightarrow> datapath_channels option" where
  "of_remove_aux_channel a dp =
     Option.bind (dpc_nodes dp a) (\<lambda>e.
     Option.bind (on_node (dc_prev e) (\<lambda>p. p\<lparr>dc_next := dc_next e\<rparr>) dp) (\<lambda>dp.
     Option.bind (dpc_nodes dp a) (\<lambda>e.
     Option.bind (on_node (dc_next e) (\<lambda>n. n\<lparr>dc_prev := dc_prev e\<rparr>) dp) (\<lambda>dp.
       let dp = dp\<lparr>dpc_curr_no_of_aux_chanels := dpc_curr_no_of_aux_chanels dp - 1\<rparr>
       in map_option (\<lambda>dp. dp\<lparr>dpc_nodes := (dpc_nodes dp)(a := None)\<rparr>)
            (if dpc_curr_no_of_aux_chanels dp = 0 then Some (dp\<lparr>dpc_aux_channels := None\<rparr>)
             else if dpc_aux_channels dp = Some a
             then map_option (\<lambda>e. dp\<lparr>dpc_aux_channels := dc_next e\<rparr>) (dpc_nodes dp a)
             else Some dp)))))"

definition of_remove_main_channel :: "datapath_channels \<Rightarrow> datapath_channels" where
  "of_remove_main_channel dp =
     (if dc_datapath (dpc_main_channel dp)
      then dp\<lparr>dpc_is_main_conn_present := False, dpc_no_of_buffers := 0, dpc_no_of_tables := 0,
             dpc_capabilities := 0, dpc_main_channel := blank_entry\<rparr>
      else if dc_conn_table (dpc_main_channel dp) \<noteq> 0
      then dp\<lparr>dpc_main_channel := (dpc_main_channel dp)\<lparr>dc_safe_ref := (0, 0), dc_conn_table := 0\<rparr>\<rparr>
      else dp)"

text \<open>The handle of the entry found, rather than the one asked for, is looked up for the datapath.\<close>

definition of_remove_channel_from_dp :: "dprm_env \<Rightarrow> u32 \<Rightarrow> datapath_channels \<Rightarrow> (bool \<times> datapath_channels) option" where
  "of_remove_channel_from_dp env aux_id dp =
     (case of_get_dp_channel dp aux_id of
        None \<Rightarrow> None
      | Some None \<Rightarrow> Some (False, dp)
      | Some (Some Main_channel) \<Rightarrow>
          if pe_byhandle env (dc_dp_handle (dpc_main_channel dp)) then Some (True, of_remove_main_channel dp) else Some (False, dp)
      | Some (Some (Aux_channel a)) \<Rightarrow>
          Option.bind (dpc_nodes dp a) (\<lambda>e.
            if pe_byhandle env (dc_dp_handle e) then map_option (\<lambda>dp. (True, dp)) (of_remove_aux_channel a dp)
            else Some (False, dp)))"

section \<open>The list as it is meant\<close>

text \<open>
  The entries in the order in which they were added.  The first one has itself as the one before it, not
  the last one: the list is circular in one direction.
\<close>

definition circle :: "datapath_channels \<Rightarrow> nat list \<Rightarrow> bool" where
  "circle dp as \<longleftrightarrow> distinct as \<and> dom (dpc_nodes dp) = set as \<and> unat (dpc_curr_no_of_aux_chanels dp) = length as
     \<and> dpc_aux_channels dp = (if as = [] then None else Some (hd as))
     \<and> dpc_aux_chn_tail dp = (if as = [] then None else Some (last as))
     \<and> (\<forall>i<length as. \<exists>e. dpc_nodes dp (as ! i) = Some e \<and> dc_next e = Some (as ! (Suc i mod length as))
          \<and> dc_prev e = Some (as ! (i - 1)))"

lemma circle_entry:
  "circle dp as \<Longrightarrow> i < length as \<Longrightarrow> \<exists>e. dpc_nodes dp (as ! i) = Some e \<and> dc_next e = Some (as ! (Suc i mod length as))
    \<and> dc_prev e = Some (as ! (i - 1))"
  by (simp add: circle_def)

lemma on_node_some: "dpc_nodes dp a = Some e \<Longrightarrow> on_node (Some a) f dp = Some (dp\<lparr>dpc_nodes := (dpc_nodes dp)(a \<mapsto> f e)\<rparr>)"
  by (simp add: on_node_def)

lemma circle_link:
  assumes "circle dp as" and "n \<notin> set as" and "length as < 255"
  obtains dp' where "link_aux_channel n dp = Some dp'" and "circle dp' (as @ [n])"
    and "\<And>a e. dpc_nodes dp a = Some e \<Longrightarrow> \<exists>e'. dpc_nodes dp' a = Some e' \<and> dc_auxiliary_id e' = dc_auxiliary_id e
      \<and> dc_conn_table e' = dc_conn_table e \<and> dc_safe_ref e' = dc_safe_ref e"
    and "dpc_is_main_conn_present dp' = dpc_is_main_conn_present dp" "dpc_main_channel dp' = dpc_main_channel dp"
proof (cases "as = []")
  case True
  let ?e = "blank_entry\<lparr>dc_prev := Some n, dc_next := Some n\<rparr>"
  let ?dp = "dp\<lparr>dpc_nodes := (dpc_nodes dp)(n \<mapsto> ?e), dpc_aux_channels := Some n, dpc_curr_chn_used_2_q_msg := Some n,
    dpc_aux_chn_tail := Some n, dpc_curr_no_of_aux_chanels := dpc_curr_no_of_aux_chanels dp + 1\<rparr>"
  have c: "dpc_nodes dp = Map.empty" "dpc_curr_no_of_aux_chanels dp = 0" "dpc_aux_channels dp = None"
    using assms(1) True by (auto simp: circle_def unat_eq_zero)
  have "link_aux_channel n dp = Some ?dp"
    using c by (simp add: link_aux_channel_def on_node_def Let_def)
  moreover have "circle ?dp (as @ [n])" using c True by (simp add: circle_def)
  ultimately show thesis using that c by simp
next
  case False
  obtain l where l: "dpc_nodes dp (last as) = Some l" "dc_prev l = Some (as ! (length as - 1 - 1))"
    using circle_entry [OF assms(1), of "length as - 1"] False by (auto simp: last_conv_nth)
  have c: "dpc_aux_channels dp = Some (hd as)" "dpc_aux_chn_tail dp = Some (last as)"
    "unat (dpc_curr_no_of_aux_chanels dp) = length as" "dom (dpc_nodes dp) = set as" "distinct as"
    using assms(1) False by (simp_all add: circle_def)
  have ln: "last as \<noteq> n" using assms(2) False by (metis last_in_set)
  let ?e = "blank_entry\<lparr>dc_prev := Some (last as), dc_next := Some (hd as)\<rparr>"
  let ?nodes = "(dpc_nodes dp)(last as \<mapsto> l\<lparr>dc_next := Some n\<rparr>, n \<mapsto> ?e)"
  let ?dp = "dp\<lparr>dpc_nodes := ?nodes, dpc_aux_chn_tail := Some n, dpc_curr_no_of_aux_chanels := dpc_curr_no_of_aux_chanels dp + 1\<rparr>"
  have "link_aux_channel n dp = Some ?dp"
    using c l ln by (simp add: link_aux_channel_def on_node_def Let_def fun_upd_twist)
  moreover have "circle ?dp (as @ [n])"
  proof -
    have "unat (dpc_curr_no_of_aux_chanels dp + 1) = Suc (length as)" using c(3) assms(3) by (simp add: unat_word_ariths(1))
    moreover have "\<exists>e. ?nodes ((as @ [n]) ! i) = Some e \<and> dc_next e = Some ((as @ [n]) ! (Suc i mod Suc (length as)))
        \<and> dc_prev e = Some ((as @ [n]) ! (i - 1))" if i: "i < Suc (length as)" for i
    proof -
      consider "i = length as" | "Suc i = length as" | "Suc i < length as" using i by linarith
      then show ?thesis
      proof cases
        case 1
        then show ?thesis using False by (simp add: nth_append last_conv_nth hd_conv_nth)
      next
        case 2
        then have "as ! i = last as" using False by (metis diff_Suc_1 last_conv_nth)
        moreover have "dc_prev l = Some (as ! (i - 1))" using l(2) by (metis 2 diff_Suc_1)
        moreover have "i - 1 < length as" using 2 by arith
        ultimately show ?thesis using 2 ln by (simp add: nth_append)
      next
        case 3
        then have "as ! i \<noteq> last as" "as ! i \<noteq> n"
          using c(5) assms(2) False by (auto simp: last_conv_nth nth_eq_iff_index_eq)
        then show ?thesis using 3 circle_entry [OF assms(1), of i] by (auto simp: nth_append)
      qed
    qed
    ultimately show ?thesis
      using c False assms(2) last_in_set [OF False] by (auto simp: circle_def)
  qed
  moreover have "\<exists>e'. dpc_nodes ?dp a = Some e' \<and> dc_auxiliary_id e' = dc_auxiliary_id e
      \<and> dc_conn_table e' = dc_conn_table e \<and> dc_safe_ref e' = dc_safe_ref e" if "dpc_nodes dp a = Some e" for a e
    using that c(4) assms(2) l(1) by auto
  ultimately show thesis using that by simp
qed

lemma scan_circle:
  assumes "circle dp as" and "i < length as"
  shows "scan_channels dp P (Some (as ! i)) = Some (find (\<lambda>a. P (the (dpc_nodes dp a))) (drop i as))"
  using assms(2)
proof (induction "length as - i" arbitrary: i)
  case 0
  then show ?case by simp
next
  case (Suc k)
  obtain e where e: "dpc_nodes dp (as ! i) = Some e" "dc_next e = Some (as ! (Suc i mod length as))"
    using circle_entry [OF assms(1) Suc.prems] by blast
  have d: "drop i as = as ! i # drop (Suc i) as" using Suc.prems by (simp add: Cons_nth_drop_Suc)
  have h: "dpc_aux_channels dp = Some (as ! 0)" "distinct as"
    using assms(1) Suc.prems by (auto simp: circle_def hd_conv_nth)
  show ?case
  proof (cases "Suc i = length as")
    case True
    then show ?thesis using e d h by (subst scan_channels.simps) simp
  next
    case False
    then have n: "Suc i < length as" using Suc.prems by simp
    then have "as ! Suc i \<noteq> as ! 0" using nth_eq_iff_index_eq [OF h(2), of "Suc i" 0] by (cases as) auto
    moreover have "scan_channels dp P (Some (as ! Suc i)) = Some (find (\<lambda>a. P (the (dpc_nodes dp a))) (drop (Suc i) as))"
      using Suc.hyps n by simp
    ultimately show ?thesis using e d h n by (subst scan_channels.simps) simp
  qed
qed

section \<open>Channels of a datapath as a list\<close>

type_synonym conn_key = "nat \<times> u32 \<times> u32"

definition entry_key :: "dprm_dp_channel_entry \<Rightarrow> conn_key" where
  "entry_key e = (dc_conn_table e, dc_safe_ref e)"

text \<open>The auxiliary channels with the addresses of their entries, in the order they were added.\<close>

record channels =
  main_conn :: "conn_key option"
  aux_conns :: "(nat \<times> u32 \<times> conn_key) list"

datatype channel_op = Attach dprm_env nat "u32 \<times> u32" ofp_switch_features | Find_channel u32 | List_channels

datatype channel_result =
    Attached add_status | Found "conn_key option" | Listed "(u32 \<times> conn_key) list" | Crashed

text \<open>The first channel and the ones that follow; \<open>n\<close> bounds their number.\<close>

fun walk_channels :: "nat \<Rightarrow> datapath_channels \<Rightarrow> nat option \<Rightarrow> nat list option" where
  "walk_channels n dp None = Some []"
| "walk_channels 0 dp (Some a) = None"
| "walk_channels (Suc n) dp (Some a) =
     (case of_get_next_aux_channel dp a of None \<Rightarrow> None | Some p \<Rightarrow> map_option ((#) a) (walk_channels n dp p))"

definition found_key :: "datapath_channels \<Rightarrow> dp_channel_ref \<Rightarrow> conn_key" where
  "found_key dp r = entry_key (case r of Main_channel \<Rightarrow> dpc_main_channel dp | Aux_channel a \<Rightarrow> the (dpc_nodes dp a))"

definition listed :: "datapath_channels \<Rightarrow> nat \<Rightarrow> u32 \<times> conn_key" where
  "listed dp a = (let e = the (dpc_nodes dp a) in (dc_auxiliary_id e, entry_key e))"

fun exec_channels :: "channel_op \<Rightarrow> datapath_channels option \<Rightarrow> channel_result \<times> datapath_channels option" where
  "exec_channels op None = (Crashed, None)"
| "exec_channels (Attach env t r sf) (Some dp) =
     (case of_add_channel_to_dp env t r sf dp of
        None \<Rightarrow> (Crashed, None)
      | Some (status, dp) \<Rightarrow> (Attached status, Some dp))"
| "exec_channels (Find_channel x) (Some dp) =
     (case of_get_dp_channel dp x of
        None \<Rightarrow> (Crashed, None)
      | Some r \<Rightarrow> (Found (map_option (found_key dp) r), Some dp))"
| "exec_channels List_channels (Some dp) =
     (case walk_channels 255 dp (of_get_first_aux_channel dp) of
        None \<Rightarrow> (Crashed, None)
      | Some as \<Rightarrow> (Listed (map (listed dp) as), Some dp))"

fun spec_channels :: "channel_op \<Rightarrow> channels \<Rightarrow> channel_result \<times> channels" where
  "spec_channels (Attach env t r sf) c =
     (case pe_datapath_handle env (sf_datapath_id sf) of
        None \<Rightarrow> (Attached (if pe_any_datapath env then Add_failure else Add_dp_invalid), c)
      | Some h \<Rightarrow>
          if \<not> pe_byhandle env h then (Attached Add_failure, c)
          else case main_conn c of
              None \<Rightarrow> if sf_auxiliary_id sf \<noteq> 0 \<or> pe_tables env = None then (Attached Add_failure, c)
                else (Attached (Added h), c\<lparr>main_conn := Some (t, r)\<rparr>)
            | Some _ \<Rightarrow>
                (case pe_node env of
                   None \<Rightarrow> (Attached Add_failure, c)
                 | Some n \<Rightarrow> (Attached (Added h), c\<lparr>aux_conns := aux_conns c @ [(n, ucast (sf_auxiliary_id sf), t, r)]\<rparr>)))"
| "spec_channels (Find_channel x) c =
     (Found (if x = 0 then main_conn c
             else map_option (\<lambda>(n, x, k). k) (find (\<lambda>(n, y, k). y = x) (aux_conns c))), c)"
| "spec_channels List_channels c = (Listed (map snd (aux_conns c)), c)"

text \<open>
  A new entry is not one in use, and there are at most 255 of them.  A search is made only for a channel
  of a kind that is there.
\<close>

fun channels_ok :: "channel_op \<Rightarrow> channels \<Rightarrow> bool" where
  "channels_ok (Attach env t r sf) c \<longleftrightarrow> length (aux_conns c) < 255 \<and> (\<forall>n. pe_node env = Some n \<longrightarrow> n \<notin> fst ` set (aux_conns c))"
| "channels_ok (Find_channel x) c \<longleftrightarrow> (if x = 0 then main_conn c \<noteq> None else aux_conns c \<noteq> [])"
| "channels_ok List_channels c \<longleftrightarrow> True"

definition channels_rel :: "datapath_channels option \<Rightarrow> channels \<Rightarrow> bool" where
  "channels_rel s c \<longleftrightarrow> (\<exists>dp. s = Some dp \<and> circle dp (map fst (aux_conns c))
     \<and> (\<forall>(n, x, k) \<in> set (aux_conns c). listed dp n = (x, k))
     \<and> main_conn c = (if dpc_is_main_conn_present dp then Some (entry_key (dpc_main_channel dp)) else None))"

lemma channels_rel_Some:
  "channels_rel (Some dp) c \<longleftrightarrow> circle dp (map fst (aux_conns c)) \<and> (\<forall>(n, x, k) \<in> set (aux_conns c). listed dp n = (x, k))
     \<and> main_conn c = (if dpc_is_main_conn_present dp then Some (entry_key (dpc_main_channel dp)) else None)"
  by (simp add: channels_rel_def)

lemma walk_circle:
  assumes "circle dp as" and "i < length as" and "length as - i \<le> n"
  shows "walk_channels n dp (Some (as ! i)) = Some (drop i as)"
  using assms(2,3)
proof (induction n arbitrary: i)
  case 0
  then show ?case by simp
next
  case (Suc n)
  obtain e where e: "dpc_nodes dp (as ! i) = Some e" "dc_next e = Some (as ! (Suc i mod length as))"
    using circle_entry [OF assms(1) Suc.prems(1)] by blast
  have d: "drop i as = as ! i # drop (Suc i) as" using Suc.prems by (simp add: Cons_nth_drop_Suc)
  have h: "dpc_aux_channels dp = Some (as ! 0)" "distinct as"
    using assms(1) Suc.prems by (auto simp: circle_def hd_conv_nth)
  show ?case
  proof (cases "Suc i = length as")
    case True
    then show ?thesis using e d h by (simp add: of_get_next_aux_channel_def)
  next
    case False
    then have n: "Suc i < length as" using Suc.prems by simp
    then have "as ! Suc i \<noteq> as ! 0" using nth_eq_iff_index_eq [OF h(2), of "Suc i" 0] by (cases as) auto
    then show ?thesis using e d h n Suc by (simp add: of_get_next_aux_channel_def)
  qed
qed

lemma circle_fields:
  "circle dp as \<Longrightarrow> circle (dp\<lparr>dpc_tables := t, dpc_no_of_buffers := b, dpc_no_of_tables := k, dpc_capabilities := cp,
     dpc_main_channel := m, dpc_is_main_conn_present := p\<rparr>) as"
  by (simp add: circle_def)

lemma circle_relabel:
  assumes "circle dp as" and "dpc_nodes dp n = Some e" and "dc_next e' = dc_next e" "dc_prev e' = dc_prev e"
  shows "circle (dp\<lparr>dpc_nodes := (dpc_nodes dp)(n \<mapsto> e')\<rparr>) as"
proof -
  have "\<exists>e''. ((dpc_nodes dp)(n \<mapsto> e')) (as ! i) = Some e'' \<and> dc_next e'' = Some (as ! (Suc i mod length as))
      \<and> dc_prev e'' = Some (as ! (i - 1))" if "i < length as" for i
    using circle_entry [OF assms(1) that] assms(2-4) by auto
  moreover have "insert n (dom (dpc_nodes dp)) = dom (dpc_nodes dp)" using assms(2) by auto
  ultimately show ?thesis using assms(1) by (simp add: circle_def)
qed

lemma find_listed:
  assumes "\<forall>(n, x, k) \<in> set cs. listed dp n = (x, k)"
  shows "map_option (found_key dp \<circ> Aux_channel) (find (\<lambda>a. dc_auxiliary_id (the (dpc_nodes dp a)) = x) (map fst cs))
    = map_option (\<lambda>(n, x, k). k) (find (\<lambda>(n, y, k). y = x) cs)"
  using assms by (induction cs) (auto simp: listed_def found_key_def Let_def)

lemma attach_step:
  assumes "channels_rel s c" and "channels_ok (Attach env t r sf) c"
  shows "fst (exec_channels (Attach env t r sf) s) = fst (spec_channels (Attach env t r sf) c)
    \<and> channels_rel (snd (exec_channels (Attach env t r sf) s)) (snd (spec_channels (Attach env t r sf) c))"
proof -
  obtain dp where dp: "s = Some dp" "circle dp (map fst (aux_conns c))" "\<forall>(n, x, k) \<in> set (aux_conns c). listed dp n = (x, k)"
    "main_conn c = (if dpc_is_main_conn_present dp then Some (entry_key (dpc_main_channel dp)) else None)"
    using assms(1) by (auto simp: channels_rel_def)
  show ?thesis
  proof (cases "\<exists>h n. pe_datapath_handle env (sf_datapath_id sf) = Some h \<and> pe_byhandle env h
      \<and> dpc_is_main_conn_present dp \<and> pe_node env = Some n")
    case False
    then show ?thesis
      using dp circle_fields [OF dp(2)]
      by (auto simp: of_add_channel_to_dp_def channels_rel_Some Let_def remember_connection_def entry_key_def listed_def
          OF_TRNSPRT_MAIN_CONN_ID_def split: option.splits)
  next
    case True
    then obtain h n where k: "pe_datapath_handle env (sf_datapath_id sf) = Some h" "pe_byhandle env h"
      "dpc_is_main_conn_present dp" "pe_node env = Some n" by blast
    have fresh: "n \<notin> set (map fst (aux_conns c))" "length (map fst (aux_conns c)) < 255" using assms(2) k(4) by simp_all
    obtain dp' where l: "link_aux_channel n dp = Some dp'" "circle dp' (map fst (aux_conns c) @ [n])"
      and same: "\<And>a e. dpc_nodes dp a = Some e \<Longrightarrow> \<exists>e'. dpc_nodes dp' a = Some e' \<and> dc_auxiliary_id e' = dc_auxiliary_id e
        \<and> dc_conn_table e' = dc_conn_table e \<and> dc_safe_ref e' = dc_safe_ref e"
      and main: "dpc_is_main_conn_present dp' = dpc_is_main_conn_present dp" "dpc_main_channel dp' = dpc_main_channel dp"
      by (rule circle_link [OF dp(2) fresh]) blast
    obtain e where e: "dpc_nodes dp' n = Some e" using l(2) by (fastforce simp: circle_def)
    let ?e = "remember_connection t r h (e\<lparr>dc_auxiliary_id := ucast (sf_auxiliary_id sf)\<rparr>)"
    let ?dp = "dp'\<lparr>dpc_nodes := (dpc_nodes dp')(n \<mapsto> ?e)\<rparr>"
    have x: "of_add_channel_to_dp env t r sf dp = Some (Added h, ?dp)"
      using k l(1) e by (simp add: of_add_channel_to_dp_def Let_def on_node_some)
    have "circle ?dp (map fst (aux_conns c) @ [n])"
      by (rule circle_relabel [OF l(2) e]) (simp_all add: remember_connection_def)
    moreover have "listed ?dp m = (x, k)" if m: "(m, x, k) \<in> set (aux_conns c)" for m x k
    proof -
      have "m \<in> set (map fst (aux_conns c))" "m \<noteq> n" using m fresh(1) by force+
      moreover from this obtain em where "dpc_nodes dp m = Some em" using dp(2) by (auto simp: circle_def)
      ultimately show ?thesis using same [of m em] dp(3) m by (fastforce simp: listed_def entry_key_def Let_def)
    qed
    moreover have "listed ?dp n = (ucast (sf_auxiliary_id sf), t, r)"
      by (simp add: listed_def entry_key_def remember_connection_def Let_def)
    ultimately show ?thesis using dp(1,4) k x main by (auto simp: channels_rel_Some)
  qed
qed

lemma channels_step:
  assumes "channels_rel s c" and "channels_ok op c"
  shows "fst (exec_channels op s) = fst (spec_channels op c) \<and> channels_rel (snd (exec_channels op s)) (snd (spec_channels op c))"
proof (cases op)
  case (Attach env t r sf)
  then show ?thesis using attach_step assms by blast
next
  case (Find_channel x)
  obtain dp where dp: "s = Some dp" "circle dp (map fst (aux_conns c))" "\<forall>(n, x, k) \<in> set (aux_conns c). listed dp n = (x, k)"
    "main_conn c = (if dpc_is_main_conn_present dp then Some (entry_key (dpc_main_channel dp)) else None)"
    using assms(1) by (auto simp: channels_rel_def)
  show ?thesis
  proof (cases "x = 0")
    case True
    then show ?thesis
      using Find_channel dp(1,4) assms by (auto simp: of_get_dp_channel_def OF_TRNSPRT_MAIN_CONN_ID_def found_key_def split: if_splits)
  next
    case False
    then have ne: "map fst (aux_conns c) \<noteq> []" using assms(2) Find_channel by simp
    have "dpc_aux_channels dp = Some (map fst (aux_conns c) ! 0)" using dp(2) ne by (simp add: circle_def hd_conv_nth)
    then have "of_get_dp_channel dp x = Some (map_option Aux_channel (find (\<lambda>a. dc_auxiliary_id (the (dpc_nodes dp a)) = x) (map fst (aux_conns c))))"
      using scan_circle [OF dp(2), of 0] ne False by (simp add: of_get_dp_channel_def OF_TRNSPRT_MAIN_CONN_ID_def)
    then show ?thesis
      using find_listed [OF dp(3), of x] False Find_channel assms(1) dp(1) by (simp add: option.map_comp)
  qed
next
  case List_channels
  obtain dp where dp: "s = Some dp" "circle dp (map fst (aux_conns c))" "\<forall>(n, x, k) \<in> set (aux_conns c). listed dp n = (x, k)"
    using assms(1) by (auto simp: channels_rel_def)
  have "unat (dpc_curr_no_of_aux_chanels dp) = length (aux_conns c)" using dp(2) by (simp add: circle_def)
  moreover have "unat (dpc_curr_no_of_aux_chanels dp) < 2 ^ LENGTH(8)" by (rule unsigned_less)
  ultimately have "length (aux_conns c) \<le> 255" by simp
  then have "walk_channels 255 dp (of_get_first_aux_channel dp) = Some (map fst (aux_conns c))"
    using walk_circle [OF dp(2), of 0 255] dp(2)
    by (cases "aux_conns c") (simp_all add: of_get_first_aux_channel_def circle_def)
  moreover have "map (listed dp) (map fst (aux_conns c)) = map snd (aux_conns c)" using dp(3) by auto
  ultimately show ?thesis using List_channels assms(1) dp(1) by simp
qed

interpretation dpc: simulation exec_channels spec_channels channels_ok channels_rel "\<lambda>r. r"
  by unfold_locales (rule channels_step)

text \<open>
  C32: From an initialised datapath on, a run of attaching, finding and listing channels gives what
  it gives on a main connection and a plain list of auxiliary ones: the first channel becomes the main
  one, whatever comes before it with an auxiliary number is refused, every later channel is kept in the
  order of arrival, and a search for a number finds the first that has it.  In the runs covered at most
  255 auxiliary channels are attached (the counter has a byte), a new entry has an address that is not in
  use, and a search is for a kind of channel that is there: with no auxiliary channel the loop of the
  search starts at a null pointer.  A channel that comes after the main one is taken as an auxiliary one
  whatever its number, zero and repeated numbers included.
\<close>

theorem channels_refine:
  assumes "run_ok spec_channels channels_ok ops \<lparr>main_conn = None, aux_conns = []\<rparr>" and "dpc_nodes dp = Map.empty"
  shows "fst (run exec_channels ops (Some (cntlr_datapath_init dp)))
      = fst (run spec_channels ops \<lparr>main_conn = None, aux_conns = []\<rparr>)
    \<and> channels_rel (snd (run exec_channels ops (Some (cntlr_datapath_init dp))))
        (snd (run spec_channels ops \<lparr>main_conn = None, aux_conns = []\<rparr>))"
proof -
  have "channels_rel (Some (cntlr_datapath_init dp)) \<lparr>main_conn = None, aux_conns = []\<rparr>"
    using assms(2) by (simp add: channels_rel_def circle_def cntlr_datapath_init_def)
  from dpc.run_refines [OF this assms(1)] show ?thesis by simp
qed

section \<open>Closing\<close>

text \<open>
  The datapath with its channels: the channels by their addresses, the connection table, and the table
  and reference each channel knows of itself.
\<close>

record channel_world =
  cw_dp :: datapath_channels
  cw_channels :: "nat \<Rightarrow> cntlr_channel_info_t"
  cw_conn :: "conn_key \<Rightarrow> nat option"
  cw_ref :: "nat \<Rightarrow> conn_key"

text \<open>
  A channel is detached from the datapath and closed.  Whichever channel it is, the datapath loses its
  main channel.
\<close>

definition close_channel :: "trnsprt_env \<Rightarrow> nat \<Rightarrow> channel_world \<Rightarrow> (bool \<times> channel_world) option" where
  "close_channel env a w =
     (let c = (cw_channels w a)\<lparr>main_conn_present := dpc_is_main_conn_present (cw_dp w)\<rparr>
      in map_option (\<lambda>(ok, c').
           let detached = (is_chn_added_to_dp c \<and> \<not> is_chn_added_to_dp c');
               deleted = (is_chn_added_2_hash_tbl c \<and> \<not> is_chn_added_2_hash_tbl c')
           in (ok, w\<lparr>cw_channels := (cw_channels w)(a := c'),
                 cw_conn := (if deleted then (cw_conn w)(cw_ref w a := None) else cw_conn w),
                 cw_dp := (if detached then (cw_dp w)\<lparr>dpc_is_main_conn_present := False, dpc_main_channel := blank_entry\<rparr>
                           else cw_dp w)\<rparr>))
         (xprt_proto_channel_close env c))"

text \<open>The last auxiliary channel goes; the one before it becomes the tail.\<close>

definition drop_aux_tail :: "nat \<Rightarrow> datapath_channels \<Rightarrow> datapath_channels option" where
  "drop_aux_tail dp_channel dp =
     map_option (\<lambda>dp.
         let dp = dp\<lparr>dpc_nodes := (dpc_nodes dp)(dp_channel := None),
                     dpc_curr_no_of_aux_chanels := dpc_curr_no_of_aux_chanels dp - 1\<rparr>
         in if dpc_curr_no_of_aux_chanels dp = 0 then dp\<lparr>dpc_aux_channels := None, dpc_aux_chn_tail := None\<rparr> else dp)
       (if dpc_aux_chn_tail dp \<noteq> dpc_aux_channels dp
        then Option.bind (dpc_nodes dp dp_channel) (\<lambda>e.
          on_node (dc_prev e) (\<lambda>p. p\<lparr>dc_next := dpc_aux_channels dp\<rparr>) (dp\<lparr>dpc_aux_chn_tail := dc_prev e\<rparr>))
        else Some dp)"

lemma drop_aux_count: "drop_aux_tail t dp = Some dp' \<Longrightarrow> dpc_curr_no_of_aux_chanels dp' = dpc_curr_no_of_aux_chanels dp - 1"
  by (auto simp: drop_aux_tail_def on_node_def Let_def bind_eq_Some_conv split: if_splits option.splits)

lemma close_count: "close_channel env a w = Some (ok, w') \<Longrightarrow>
    dpc_curr_no_of_aux_chanels (cw_dp w') = dpc_curr_no_of_aux_chanels (cw_dp w)"
  by (auto simp: close_channel_def Let_def split: if_splits)

text \<open>Each round takes one channel off the count, so the loop ends.\<close>

function close_aux_channels :: "trnsprt_env \<Rightarrow> channel_world \<Rightarrow> (bool \<times> channel_world) option" where
  "close_aux_channels env w =
     (if dpc_curr_no_of_aux_chanels (cw_dp w) = 0 then Some (True, w)
      else case dpc_aux_chn_tail (cw_dp w) of
          None \<Rightarrow> None
        | Some t \<Rightarrow>
            (case dpc_nodes (cw_dp w) t of
               None \<Rightarrow> None
             | Some e \<Rightarrow>
                 (case cw_conn w (entry_key e) of
                    None \<Rightarrow> Some (False, w)
                  | Some a \<Rightarrow>
                      (case close_channel env a w of
                         None \<Rightarrow> None
                       | Some (False, w) \<Rightarrow> Some (False, w)
                       | Some (True, w) \<Rightarrow>
                           (case drop_aux_tail t (cw_dp w) of
                              None \<Rightarrow> None
                            | Some dp \<Rightarrow> close_aux_channels env (w\<lparr>cw_dp := dp\<rparr>))))))"
  by pat_completeness auto
termination
  by (relation "measure (\<lambda>(_, w). unat (dpc_curr_no_of_aux_chanels (cw_dp w)))")
    (auto dest!: drop_aux_count close_count simp: measure_unat)

declare close_aux_channels.simps [simp del]

definition close_with_aux :: "trnsprt_env \<Rightarrow> nat \<Rightarrow> channel_world \<Rightarrow> (bool \<times> channel_world) option" where
  "close_with_aux env a w =
     (let c = cw_channels w a
      in Option.bind (if auxiliary_id c = OF_TRNSPRT_MAIN_CONN_ID \<and> is_chn_added_to_dp c \<and> dpc_aux_channels (cw_dp w) \<noteq> None
                      then close_aux_channels env w else Some (True, w))
           (\<lambda>(status, w). map_option (\<lambda>(ok, w). (status \<and> ok, w)) (close_channel env a w)))"

section \<open>Closing the main channel closes all\<close>

text \<open>The auxiliary channels \<open>cs\<close> are open, in the connection table, and those of the entries \<open>as\<close>.\<close>

definition open_channel :: "channel_world \<Rightarrow> nat \<Rightarrow> bool" where
  "open_channel w c \<longleftrightarrow> (fsm_state (cw_channels w c) = WAIT_FOR_HANDSHAKE \<or> fsm_state (cw_channels w c) = BOUND_TO_DP)
     \<and> is_chn_added_2_hash_tbl (cw_channels w c) \<and> state (cw_channels w c) \<noteq> CLOSE_INITIATED \<and> cw_conn w (cw_ref w c) = Some c"

definition attached :: "channel_world \<Rightarrow> nat list \<Rightarrow> nat list \<Rightarrow> bool" where
  "attached w as cs \<longleftrightarrow> circle (cw_dp w) as \<and> distinct cs
     \<and> map (\<lambda>a. entry_key (the (dpc_nodes (cw_dp w) a))) as = map (cw_ref w) cs \<and> (\<forall>c \<in> set cs. open_channel w c)"

text \<open>The channel \<open>c\<close> has been closed, once, and is in the table no more.\<close>

definition closed_in :: "channel_world \<Rightarrow> channel_world \<Rightarrow> nat \<Rightarrow> bool" where
  "closed_in w w' c \<longleftrightarrow> fsm_state (cw_channels w' c) = CLOSE_CONN \<and> closes (cw_channels w' c) = closes (cw_channels w c) + 1
     \<and> cw_conn w' (cw_ref w c) = None"

lemma close_open_channel:
  assumes "close_ok env" and "fd_dedicated env \<longrightarrow> epoll_ok env" and "fsm_state c = WAIT_FOR_HANDSHAKE \<or> fsm_state c = BOUND_TO_DP"
    and "is_chn_added_2_hash_tbl c" "state c \<noteq> CLOSE_INITIATED"
  shows "\<exists>c'. xprt_proto_channel_close env c = Some (True, c') \<and> fsm_state c' = CLOSE_CONN \<and> closes c' = closes c + 1
    \<and> auxiliary_id c' = auxiliary_id c \<and> \<not> is_chn_added_to_dp c' \<and> \<not> is_chn_added_2_hash_tbl c'"
proof -
  let ?c = "c\<lparr>fsm_event := DP_DETACH_EVENT\<rparr>"
  have h: "cntlr_xprt_proto_channel_fsm_handler (fsm_state c) DP_DETACH_EVENT = Some channel_detach_dp" using assms(3) by auto
  show ?thesis
  proof (cases "is_chn_added_to_dp c")
    case True
    then have "snd (fsm_xprt_proto_channel_detach_dp env ?c) = ?c\<lparr>main_conn_present := False, state := CONN_CLOSED,
        datapath := False, dp_handle := 0, is_chn_added_to_dp := False, fsm_state := WAIT_FOR_HANDSHAKE\<rparr>"
      using assms(2) by (auto simp: fsm_xprt_proto_channel_detach_dp_def)
    then show ?thesis using h assms(1,4) by (simp add: xprt_proto_channel_close_def Let_def)
  next
    case False
    then have "snd (fsm_xprt_proto_channel_detach_dp env ?c) = ?c" by (simp add: fsm_xprt_proto_channel_detach_dp_def)
    then show ?thesis using h False assms(1,4,5) by (simp add: xprt_proto_channel_close_def Let_def)
  qed
qed

lemma close_open:
  assumes "close_ok env" and "fd_dedicated env \<longrightarrow> epoll_ok env" and "open_channel w a"
  obtains c where "close_channel env a w = Some (True, w\<lparr>cw_channels := (cw_channels w)(a := c),
      cw_conn := (cw_conn w)(cw_ref w a := None),
      cw_dp := (if is_chn_added_to_dp (cw_channels w a)
                then (cw_dp w)\<lparr>dpc_is_main_conn_present := False, dpc_main_channel := blank_entry\<rparr> else cw_dp w)\<rparr>)"
    and "fsm_state c = CLOSE_CONN" "closes c = closes (cw_channels w a) + 1" "auxiliary_id c = auxiliary_id (cw_channels w a)"
proof -
  let ?c = "(cw_channels w a)\<lparr>main_conn_present := dpc_is_main_conn_present (cw_dp w)\<rparr>"
  have "fsm_state ?c = WAIT_FOR_HANDSHAKE \<or> fsm_state ?c = BOUND_TO_DP" "is_chn_added_2_hash_tbl ?c" "state ?c \<noteq> CLOSE_INITIATED"
    using assms(3) by (simp_all add: open_channel_def)
  from close_open_channel [OF assms(1,2) this] obtain c' where "xprt_proto_channel_close env ?c = Some (True, c')"
    "fsm_state c' = CLOSE_CONN" "closes c' = closes ?c + 1" "auxiliary_id c' = auxiliary_id ?c"
    "\<not> is_chn_added_to_dp c'" "\<not> is_chn_added_2_hash_tbl c'" by blast
  then show thesis using assms(3) by (intro that [of c']) (auto simp: close_channel_def open_channel_def Let_def)
qed

lemma drop_circle:
  assumes "circle dp (as @ [t])"
  obtains dp' where "drop_aux_tail t dp = Some dp'" and "circle dp' as"
    and "\<And>a. a \<in> set as \<Longrightarrow> entry_key (the (dpc_nodes dp' a)) = entry_key (the (dpc_nodes dp a))"
    and "dpc_is_main_conn_present dp' = dpc_is_main_conn_present dp" "dpc_main_channel dp' = dpc_main_channel dp"
proof (cases "as = []")
  case True
  have "unat (dpc_curr_no_of_aux_chanels dp) = 1" using assms True by (simp add: circle_def)
  then have "dpc_curr_no_of_aux_chanels dp = 1" by (simp add: word_unat_eq_iff)
  then show thesis
    using assms True
    by (intro that [of "dp\<lparr>dpc_nodes := (dpc_nodes dp)(t := None), dpc_curr_no_of_aux_chanels := 0,
            dpc_aux_channels := None, dpc_aux_chn_tail := None\<rparr>"]) (auto simp: circle_def drop_aux_tail_def dom_def)
next
  case False
  have c: "distinct (as @ [t])" "dom (dpc_nodes dp) = set (as @ [t])" "unat (dpc_curr_no_of_aux_chanels dp) = Suc (length as)"
    "dpc_aux_channels dp = Some (hd as)" "dpc_aux_chn_tail dp = Some t"
    using assms False by (simp_all add: circle_def)
  have n: "hd as \<noteq> t" "last as \<noteq> t" using c(1) False by auto
  obtain e where e: "dpc_nodes dp t = Some e" "dc_prev e = Some (last as)"
    using circle_entry [OF assms, of "length as"] False by (auto simp: nth_append last_conv_nth)
  obtain l where l: "dpc_nodes dp (last as) = Some l" "dc_prev l = Some (as ! (length as - 1 - 1))"
    using circle_entry [OF assms, of "length as - 1"] False by (fastforce simp: nth_append last_conv_nth)
  let ?nodes = "(dpc_nodes dp)(last as \<mapsto> l\<lparr>dc_next := Some (hd as)\<rparr>, t := None)"
  let ?dp = "dp\<lparr>dpc_aux_chn_tail := Some (last as), dpc_nodes := ?nodes,
    dpc_curr_no_of_aux_chanels := dpc_curr_no_of_aux_chanels dp - 1\<rparr>"
  have k: "unat (dpc_curr_no_of_aux_chanels dp - 1) = length as" using c(3) by (subst unat_minus_one) auto
  then have "dpc_curr_no_of_aux_chanels dp - 1 \<noteq> 0" using False by auto
  then have "drop_aux_tail t dp = Some ?dp"
    using c n e l by (simp add: drop_aux_tail_def on_node_def Let_def)
  moreover have "circle ?dp as"
  proof -
    have "\<exists>e. ?nodes (as ! i) = Some e \<and> dc_next e = Some (as ! (Suc i mod length as)) \<and> dc_prev e = Some (as ! (i - 1))"
      if i: "i < length as" for i
    proof -
      have t: "as ! i \<noteq> t" using c(1) i by (auto simp: in_set_conv_nth)
      have i1: "i - 1 < length as" using i by simp
      show ?thesis
      proof (cases "Suc i = length as")
        case True
        then have "as ! i = last as" using False by (metis diff_Suc_1 last_conv_nth)
        moreover have "dc_prev l = Some (as ! (i - 1))" using l(2) by (metis True diff_Suc_1)
        ultimately show ?thesis using True n t False by (simp add: hd_conv_nth)
      next
        case f: False
        then have s: "Suc i < length as" using i by simp
        then have "as ! i \<noteq> last as" using c(1) False nth_eq_iff_index_eq [of as i "length as - 1"] by (auto simp: last_conv_nth)
        then show ?thesis using circle_entry [OF assms, of i] i i1 s t by (auto simp: nth_append)
      qed
    qed
    then show ?thesis using c k False n last_in_set [OF False] by (auto simp: circle_def)
  qed
  moreover have "entry_key (the (?nodes a)) = entry_key (the (dpc_nodes dp a))" if "a \<in> set as" for a
    using that c(1) l by (auto simp: entry_key_def)
  ultimately show thesis using that by simp
qed


lemma close_keeps_attached:
  assumes "attached w as (cs @ [c])" and "w' = w\<lparr>cw_channels := (cw_channels w)(c := x), cw_conn := (cw_conn w)(cw_ref w c := None),
      cw_dp := dp\<rparr>" and "circle dp as'" "length as' = length cs"
    and "map (\<lambda>a. entry_key (the (dpc_nodes dp a))) as' = map (cw_ref w) cs"
  shows "attached w' as' cs"
proof -
  have "cw_ref w d \<noteq> cw_ref w c" "d \<noteq> c" if "d \<in> set cs" for d
    using assms(1) that by (fastforce simp: attached_def open_channel_def)+
  then show ?thesis using assms by (auto simp: attached_def open_channel_def)
qed

lemma close_aux_all:
  assumes "close_ok env" and "fd_dedicated env \<longrightarrow> epoll_ok env" and "attached w as cs"
  shows "\<exists>w'. close_aux_channels env w = Some (True, w') \<and> attached w' [] [] \<and> (\<forall>c \<in> set cs. closed_in w w' c)
    \<and> cw_ref w' = cw_ref w \<and> (\<forall>c. c \<notin> set cs \<longrightarrow> cw_channels w' c = cw_channels w c)
    \<and> (\<forall>k. k \<notin> cw_ref w ` set cs \<longrightarrow> cw_conn w' k = cw_conn w k)"
  using assms(3)
proof (induction as arbitrary: w cs rule: rev_induct)
  case Nil
  then have "cs = []" "dpc_curr_no_of_aux_chanels (cw_dp w) = 0" by (auto simp: attached_def circle_def unat_eq_zero)
  then show ?case using Nil by (subst close_aux_channels.simps) simp
next
  case (snoc t as)
  let ?dp = "cw_dp w"
  obtain cs' c where cs: "cs = cs' @ [c]"
    using snoc.prems by (cases cs rule: rev_cases) (auto simp: attached_def)
  have k: "map (\<lambda>a. entry_key (the (dpc_nodes ?dp a))) as = map (cw_ref w) cs'" "entry_key (the (dpc_nodes ?dp t)) = cw_ref w c"
    using snoc.prems cs by (simp_all add: attached_def)
  have ci: "circle ?dp (as @ [t])" using snoc.prems by (simp add: attached_def)
  have o: "open_channel w c" using snoc.prems cs by (simp add: attached_def)
  obtain e where e: "dpc_nodes ?dp t = Some e" using ci by (fastforce simp: circle_def)
  have tl: "dpc_aux_chn_tail ?dp = Some t" "dpc_curr_no_of_aux_chanels ?dp \<noteq> 0" using ci by (auto simp: circle_def)
  obtain x where x: "close_channel env c w = Some (True, w\<lparr>cw_channels := (cw_channels w)(c := x),
      cw_conn := (cw_conn w)(cw_ref w c := None),
      cw_dp := (if is_chn_added_to_dp (cw_channels w c)
                then ?dp\<lparr>dpc_is_main_conn_present := False, dpc_main_channel := blank_entry\<rparr> else ?dp)\<rparr>)"
    and xc: "fsm_state x = CLOSE_CONN" "closes x = closes (cw_channels w c) + 1"
    by (rule close_open [OF assms(1,2) o]) blast
  let ?dp1 = "if is_chn_added_to_dp (cw_channels w c)
    then ?dp\<lparr>dpc_is_main_conn_present := False, dpc_main_channel := blank_entry\<rparr> else ?dp"
  have "circle ?dp1 (as @ [t])" using ci by (simp add: circle_def)
  then obtain dp2 where d: "drop_aux_tail t ?dp1 = Some dp2" "circle dp2 as"
    and dk: "\<And>a. a \<in> set as \<Longrightarrow> entry_key (the (dpc_nodes dp2 a)) = entry_key (the (dpc_nodes ?dp1 a))"
    by (rule drop_circle) blast
  let ?w = "w\<lparr>cw_channels := (cw_channels w)(c := x), cw_conn := (cw_conn w)(cw_ref w c := None), cw_dp := dp2\<rparr>"
  have "map (\<lambda>a. entry_key (the (dpc_nodes dp2 a))) as = map (cw_ref w) cs'" unfolding k(1) [symmetric] by (rule map_cong [OF refl]) (simp add: dk)
  moreover from this have "length as = length cs'" by (metis length_map)
  ultimately have "attached ?w as cs'"
    using close_keeps_attached [OF snoc.prems [unfolded cs] refl d(2)] by simp
  from snoc.IH [OF this] obtain w' where w': "close_aux_channels env ?w = Some (True, w')" "attached w' [] []"
    "\<forall>c \<in> set cs'. closed_in ?w w' c" "cw_ref w' = cw_ref w" "\<forall>d. d \<notin> set cs' \<longrightarrow> cw_channels w' d = cw_channels ?w d"
    "\<forall>k. k \<notin> cw_ref w ` set cs' \<longrightarrow> cw_conn w' k = cw_conn ?w k" by auto
  have "close_aux_channels env w = Some (True, w')"
    using tl e k(2) o x d(1) w'(1) by (subst close_aux_channels.simps) (simp add: open_channel_def)
  moreover have ne: "cw_ref w d \<noteq> cw_ref w c" "d \<noteq> c" if "d \<in> set cs'" for d
    using snoc.prems cs that by (fastforce simp: attached_def open_channel_def)+
  moreover have "closed_in w w' d" if "d \<in> set cs" for d
  proof (cases "d = c")
    case True
    moreover have "c \<notin> set cs'" "cw_ref w c \<notin> cw_ref w ` set cs'" using ne by fastforce+
    moreover from this have "cw_conn w' (cw_ref w c) = cw_conn ?w (cw_ref w c)" using w'(6) by blast
    ultimately show ?thesis using w'(5) xc by (simp add: closed_in_def)
  next
    case False
    then show ?thesis using w'(3) that cs by (auto simp: closed_in_def)
  qed
  ultimately show ?case using w' cs by auto
qed

text \<open>
  C31: When the main channel of a datapath is closed while every auxiliary channel in its list is
  still open and in the connection table, and closing and polling the descriptors succeed, all the
  auxiliary channels are closed as well, each once, they are out of the connection table, their entries
  are released, and the datapath is ready for a new main channel; no other channel is touched.
\<close>

theorem main_close_complete:
  assumes "close_ok env" and "fd_dedicated env \<longrightarrow> epoll_ok env" and "attached w as cs"
    and "open_channel w m" "m \<notin> set cs" "auxiliary_id (cw_channels w m) = 0" "is_chn_added_to_dp (cw_channels w m)"
  shows "\<exists>w'. close_with_aux env m w = Some (True, w') \<and> (\<forall>c \<in> set (m # cs). closed_in w w' c) \<and> attached w' [] []
    \<and> \<not> dpc_is_main_conn_present (cw_dp w') \<and> dpc_nodes (cw_dp w') = Map.empty
    \<and> (\<forall>c. c \<notin> set (m # cs) \<longrightarrow> cw_channels w' c = cw_channels w c)"
proof -
  obtain w1 where w1: "close_aux_channels env w = Some (True, w1)" "attached w1 [] []" "\<forall>c \<in> set cs. closed_in w w1 c"
    "cw_ref w1 = cw_ref w" "\<forall>c. c \<notin> set cs \<longrightarrow> cw_channels w1 c = cw_channels w c"
    "\<forall>k. k \<notin> cw_ref w ` set cs \<longrightarrow> cw_conn w1 k = cw_conn w k"
    using close_aux_all [OF assms(1-3)] by blast
  have r: "cw_ref w m \<notin> cw_ref w ` set cs" using assms(3-5) by (fastforce simp: attached_def open_channel_def)
  have "cw_conn w1 (cw_ref w m) = cw_conn w (cw_ref w m)" using w1(6) r by blast
  then have "open_channel w1 m" using assms(4,5) w1(4,5) by (simp add: open_channel_def)
  then obtain x where x: "close_channel env m w1 = Some (True, w1\<lparr>cw_channels := (cw_channels w1)(m := x),
      cw_conn := (cw_conn w1)(cw_ref w1 m := None),
      cw_dp := (if is_chn_added_to_dp (cw_channels w1 m)
                then (cw_dp w1)\<lparr>dpc_is_main_conn_present := False, dpc_main_channel := blank_entry\<rparr> else cw_dp w1)\<rparr>)"
    and xc: "fsm_state x = CLOSE_CONN" "closes x = closes (cw_channels w1 m) + 1"
    by (rule close_open [OF assms(1,2)]) blast
  have b: "(if auxiliary_id (cw_channels w m) = OF_TRNSPRT_MAIN_CONN_ID \<and> is_chn_added_to_dp (cw_channels w m)
      \<and> dpc_aux_channels (cw_dp w) \<noteq> None then close_aux_channels env w else Some (True, w)) = Some (True, w1)"
  proof (cases "dpc_aux_channels (cw_dp w) = None")
    case True
    then have "dpc_curr_no_of_aux_chanels (cw_dp w) = 0" using assms(3) by (auto simp: attached_def circle_def unat_eq_zero split: if_splits)
    then have "close_aux_channels env w = Some (True, w)" by (subst close_aux_channels.simps) simp
    then show ?thesis using w1(1) True by simp
  qed (use assms(6,7) w1(1) in \<open>simp add: OF_TRNSPRT_MAIN_CONN_ID_def\<close>)
  let ?w = "w1\<lparr>cw_channels := (cw_channels w1)(m := x), cw_conn := (cw_conn w1)(cw_ref w1 m := None),
    cw_dp := (cw_dp w1)\<lparr>dpc_is_main_conn_present := False, dpc_main_channel := blank_entry\<rparr>\<rparr>"
  have "close_with_aux env m w = Some (True, ?w)"
    using b x assms(5,7) w1(5) by (simp add: close_with_aux_def Let_def)
  moreover have "closed_in w ?w c" if "c \<in> set (m # cs)" for c
    using that w1(3-5) assms(5) xc r by (auto simp: closed_in_def)
  moreover have "attached ?w [] []" "dpc_nodes (cw_dp ?w) = Map.empty" using w1(2) by (auto simp: attached_def circle_def)
  ultimately show ?thesis using w1(5) assms(5) by (intro exI [of _ ?w]) simp
qed

text \<open>Three channels: the main one at 1 and two auxiliary ones at 2 and 3, with the entries 20 and 30.\<close>

definition sample_entry :: "nat \<Rightarrow> nat \<Rightarrow> u32 \<Rightarrow> dprm_dp_channel_entry" where
  "sample_entry next prev x = \<lparr>dc_next = Some next, dc_prev = Some prev, dc_auxiliary_id = x, dc_dp_handle = 9, dc_datapath = True,
     dc_conn_table = 70, dc_safe_ref = (x, 5)\<rparr>"

definition sample_dp :: datapath_channels where
  "sample_dp = \<lparr>dpc_is_main_conn_present = True, dpc_main_channel = sample_entry 0 0 0, dpc_curr_no_of_aux_chanels = 2,
     dpc_aux_channels = Some 20, dpc_aux_chn_tail = Some 30, dpc_curr_chn_used_2_q_msg = Some 20, dpc_no_of_buffers = 256,
     dpc_no_of_tables = 4, dpc_capabilities = 0, dpc_tables = Some 500,
     dpc_nodes = [20 \<mapsto> sample_entry 30 20 1, 30 \<mapsto> sample_entry 20 20 2]\<rparr>"

definition sample_world :: channel_world where
  "sample_world = \<lparr>cw_dp = sample_dp,
     cw_channels = (\<lambda>c. ChannelRead.sample_channel\<lparr>auxiliary_id := of_nat (c - 1)\<rparr>),
     cw_conn = [(70, 0, 5) \<mapsto> 1, (70, 1, 5) \<mapsto> 2, (70, 2, 5) \<mapsto> 3], cw_ref = (\<lambda>c. (70, of_nat (c - 1), 5))\<rparr>"

lemma sample_attached: "attached sample_world [20, 30] [2, 3]" "open_channel sample_world 1"
  "auxiliary_id (cw_channels sample_world c) = of_nat (c - 1)" "is_chn_added_to_dp (cw_channels sample_world c)"
proof -
  have "circle sample_dp [20, 30]"
    by (auto simp: circle_def sample_dp_def sample_entry_def less_Suc_eq dom_def split: if_splits)
  then show "attached sample_world [20, 30] [2, 3]" "open_channel sample_world 1"
    by (simp_all add: attached_def open_channel_def sample_world_def sample_dp_def sample_entry_def entry_key_def
        ChannelRead.sample_channel_def)
qed (simp_all add: sample_world_def ChannelRead.sample_channel_def)

lemma main_close_complete_witness:
  "\<exists>w'. close_with_aux ChannelRead.sample_env 1 sample_world = Some (True, w')
    \<and> (\<forall>c \<in> {1, 2, 3}. fsm_state (cw_channels w' c) = CLOSE_CONN \<and> closes (cw_channels w' c) = 1)"
proof -
  have c: "closes (cw_channels sample_world c) = 0" for c by (simp add: sample_world_def ChannelRead.sample_channel_def)
  show ?thesis
    using main_close_complete [OF _ _ sample_attached(1,2), of ChannelRead.sample_env] sample_attached(3,4)
    by (fastforce simp: ChannelRead.sample_env_def closed_in_def c)
qed

text \<open>A first and a second connection, one that comes again with the number of the second, and a switch that is not known.\<close>

definition sample_dprm :: "nat \<Rightarrow> dprm_env" where
  "sample_dprm n = \<lparr>pe_datapath_handle = (\<lambda>x. if x = 77 then Some 9 else None), pe_any_datapath = True, pe_byhandle = (\<lambda>h. h = 9),
     pe_node = Some n, pe_tables = Some 500\<rparr>"

definition sample_features :: "u64 \<Rightarrow> u8 \<Rightarrow> ofp_switch_features" where
  "sample_features x a = \<lparr>sf_datapath_id = x, sf_n_buffers = 256, sf_n_tables = 4, sf_auxiliary_id = a, sf_capabilities = 0\<rparr>"

lemma channels_refine_witness:
  "fst (run exec_channels [Attach (sample_dprm 10) 70 (9, 1) (sample_features 77 1), Attach (sample_dprm 10) 70 (0, 5) (sample_features 77 0),
      Attach (sample_dprm 20) 70 (1, 5) (sample_features 77 1), Attach (sample_dprm 30) 70 (2, 5) (sample_features 77 1),
      Attach (sample_dprm 40) 70 (3, 5) (sample_features 78 0), Find_channel 1, List_channels] (Some (cntlr_datapath_init (sample_dp\<lparr>dpc_nodes := Map.empty\<rparr>))))
    = [Attached Add_failure, Attached (Added 9), Attached (Added 9), Attached (Added 9), Attached Add_failure,
       Found (Some (70, 1, 5)), Listed [(1, 70, 1, 5), (1, 70, 2, 5)]]"
proof -
  let ?ops = "[Attach (sample_dprm 10) 70 (9, 1) (sample_features 77 1), Attach (sample_dprm 10) 70 (0, 5) (sample_features 77 0),
      Attach (sample_dprm 20) 70 (1, 5) (sample_features 77 1), Attach (sample_dprm 30) 70 (2, 5) (sample_features 77 1),
      Attach (sample_dprm 40) 70 (3, 5) (sample_features 78 0), Find_channel 1, List_channels]"
  have "run_ok spec_channels channels_ok ?ops \<lparr>main_conn = None, aux_conns = []\<rparr>"
    by (simp add: sample_dprm_def sample_features_def)
  then have "fst (run exec_channels ?ops (Some (cntlr_datapath_init (sample_dp\<lparr>dpc_nodes := Map.empty\<rparr>))))
      = fst (run spec_channels ?ops \<lparr>main_conn = None, aux_conns = []\<rparr>)"
    by (rule channels_refine [THEN conjunct1]) simp
  also have "\<dots> = [Attached Add_failure, Attached (Added 9), Attached (Added 9), Attached (Added 9), Attached Add_failure,
      Found (Some (70, 1, 5)), Listed [(1, 70, 1, 5), (1, 70, 2, 5)]]"
    by (simp add: sample_dprm_def sample_features_def)
  finally show ?thesis .
qed

section \<open>An auxiliary channel that is closed on its own\<close>

text \<open>
  A defect.  When the newest auxiliary channel is closed on its own, which succeeds, its entry
  stays in the list and the datapath takes itself for not connected, although its main channel is
  untouched; and when the main channel is closed later, the entry that was left behind stops the closing
  of the other auxiliary channels, which stay open, and the close reports a failure.
\<close>

theorem aux_close_strands:
  assumes "close_ok env" and "fd_dedicated env \<longrightarrow> epoll_ok env" and "attached w as (cs @ [c])"
    and "open_channel w m" "m \<notin> set (cs @ [c])" "auxiliary_id (cw_channels w m) = 0"
    and "\<forall>d \<in> {m, c}. is_chn_added_to_dp (cw_channels w d)" and "auxiliary_id (cw_channels w c) \<noteq> 0"
  shows "\<exists>w1 w2. close_with_aux env c w = Some (True, w1) \<and> \<not> dpc_is_main_conn_present (cw_dp w1)
    \<and> cw_channels w1 m = cw_channels w m \<and> close_with_aux env m w1 = Some (False, w2)
    \<and> fsm_state (cw_channels w2 m) = CLOSE_CONN \<and> (\<forall>d \<in> set cs. cw_channels w2 d = cw_channels w d \<and> open_channel w2 d)"
proof -
  have o: "open_channel w c" using assms(3) by (simp add: attached_def)
  obtain x where x: "close_channel env c w = Some (True, w\<lparr>cw_channels := (cw_channels w)(c := x),
      cw_conn := (cw_conn w)(cw_ref w c := None),
      cw_dp := (if is_chn_added_to_dp (cw_channels w c)
                then (cw_dp w)\<lparr>dpc_is_main_conn_present := False, dpc_main_channel := blank_entry\<rparr> else cw_dp w)\<rparr>)"
    by (rule close_open [OF assms(1,2) o]) blast
  let ?dp = "(cw_dp w)\<lparr>dpc_is_main_conn_present := False, dpc_main_channel := blank_entry\<rparr>"
  let ?w1 = "w\<lparr>cw_channels := (cw_channels w)(c := x), cw_conn := (cw_conn w)(cw_ref w c := None), cw_dp := ?dp\<rparr>"
  have 1: "close_with_aux env c w = Some (True, ?w1)"
    using x assms(7,8) by (simp add: close_with_aux_def OF_TRNSPRT_MAIN_CONN_ID_def)
  have refs: "cw_ref w d \<noteq> cw_ref w c" "d \<noteq> c" if "d \<in> insert m (set cs)" for d
    using that assms(3-5) by (fastforce simp: attached_def open_channel_def)+
  obtain as' t where as: "as = as' @ [t]" "entry_key (the (dpc_nodes (cw_dp w) t)) = cw_ref w c"
    using assms(3) by (cases as rule: rev_cases) (auto simp: attached_def)
  have ci: "circle (cw_dp w) (as' @ [t])" using assms(3) as(1) by (simp add: attached_def)
  then obtain e where e: "dpc_nodes (cw_dp w) t = Some e" by (fastforce simp: circle_def)
  have tl: "dpc_aux_chn_tail (cw_dp w) = Some t" "dpc_curr_no_of_aux_chanels (cw_dp w) \<noteq> 0" "dpc_aux_channels (cw_dp w) \<noteq> None"
    using ci by (auto simp: circle_def)
  have 2: "close_aux_channels env ?w1 = Some (False, ?w1)"
    using tl e as(2) by (subst close_aux_channels.simps) simp
  have om: "open_channel ?w1 d" if "d \<in> insert m (set cs)" for d
    using that refs [OF that] assms(3,4) by (auto simp: open_channel_def attached_def)
  obtain y where y: "close_channel env m ?w1 = Some (True, ?w1\<lparr>cw_channels := (cw_channels ?w1)(m := y),
      cw_conn := (cw_conn ?w1)(cw_ref ?w1 m := None),
      cw_dp := (if is_chn_added_to_dp (cw_channels ?w1 m)
                then (cw_dp ?w1)\<lparr>dpc_is_main_conn_present := False, dpc_main_channel := blank_entry\<rparr> else cw_dp ?w1)\<rparr>)"
    and yc: "fsm_state y = CLOSE_CONN"
    by (rule close_open [OF assms(1,2) om, of m]) auto
  let ?w2 = "?w1\<lparr>cw_channels := (cw_channels ?w1)(m := y), cw_conn := (cw_conn ?w1)(cw_ref ?w1 m := None), cw_dp := ?dp\<rparr>"
  have "close_with_aux env m ?w1 = Some (False, ?w2)"
    using 2 y tl(3) assms(6,7) refs [of m] by (simp add: close_with_aux_def OF_TRNSPRT_MAIN_CONN_ID_def)
  moreover have "cw_channels ?w2 d = cw_channels w d \<and> open_channel ?w2 d" if d: "d \<in> set cs" for d
  proof -
    have "d \<noteq> m" "cw_ref w d \<noteq> cw_ref w m" using d assms(3-5) by (fastforce simp: attached_def open_channel_def)+
    then show ?thesis using om [of d] d refs [of d] by (auto simp: open_channel_def)
  qed
  ultimately show ?thesis using 1 refs(2) [of m] yc by (intro exI [of _ ?w1] exI [of _ ?w2]) simp
qed

lemma aux_close_strands_witness:
  "\<exists>w1 w2. close_with_aux ChannelRead.sample_env 3 sample_world = Some (True, w1) \<and> \<not> dpc_is_main_conn_present (cw_dp w1)
    \<and> close_with_aux ChannelRead.sample_env 1 w1 = Some (False, w2) \<and> fsm_state (cw_channels w2 2) = BOUND_TO_DP"
proof -
  have "fsm_state (cw_channels sample_world 2) = BOUND_TO_DP" by (simp add: sample_world_def ChannelRead.sample_channel_def)
  then show ?thesis
    using aux_close_strands [OF _ _ _ sample_attached(2), of ChannelRead.sample_env "[20, 30]" "[2]" 3] sample_attached(1,3,4)
    by (fastforce simp: ChannelRead.sample_env_def)
qed

text \<open>After the first of three auxiliary channels is removed, the last one still leads to its entry, which is gone.\<close>

lemma removed_head_used:
  assumes "circle dp [a, b, c]" and "\<forall>d \<in> {a, b, c}. dc_auxiliary_id (the (dpc_nodes dp d)) \<noteq> x" and "x \<noteq> 0"
  shows "Option.bind (of_remove_aux_channel a dp) (\<lambda>dp. of_get_dp_channel dp x) = None"
proof -
  obtain ea eb ec where e: "dpc_nodes dp a = Some ea" "dc_next ea = Some b" "dc_prev ea = Some a"
    "dpc_nodes dp b = Some eb" "dc_next eb = Some c" "dc_prev eb = Some a"
    "dpc_nodes dp c = Some ec" "dc_next ec = Some a" "dc_prev ec = Some b"
    using circle_entry [OF assms(1), of 0] circle_entry [OF assms(1), of 1] circle_entry [OF assms(1), of 2] by auto
  have d: "distinct [a, b, c]" "dpc_aux_channels dp = Some a" "unat (dpc_curr_no_of_aux_chanels dp) = 3"
    using assms(1) by (simp_all add: circle_def)
  have "unat (dpc_curr_no_of_aux_chanels dp - 1) = 2" using d(3) by (subst unat_minus_one) auto
  then have "dpc_curr_no_of_aux_chanels dp - 1 \<noteq> 0" by auto
  then show ?thesis
    using e d(1,2) assms(2,3)
    by (simp add: of_remove_aux_channel_def on_node_def of_get_dp_channel_def OF_TRNSPRT_MAIN_CONN_ID_def Let_def scan_channels.simps)
qed

end
