(* ===== verification/AppHooks.thy ===== *)
theory AppHooks
  imports OfList
begin

text \<open>
  Applications that register for asynchronous messages, and the messages they are offered:
  \<open>of_register_asynchronous_message_hook\<close> and the functions beside it in
  \<open>ofproto/src/messages/of_async_msgapi.c\<close>.  The hooks of an event are a linked list, kept in descending
  order of their priorities.
\<close>

section \<open>Registration\<close>

text \<open>The two arguments that an application gets back with every call are left out.\<close>

record of_app_hook_info =
  priority :: u8
  call_back :: nat

datatype reg_status =
    REG_SUCCESS | INVALID_EVENT_TYPE | INVALID_APP_PRIORITY | NULL_CALLBACK | INVALID_DOMAIN
  | REG_FAILURE | DUPLICATE_APP_PRIORITY | MEM_ALLOC_ERROR

text \<open>The hooks of each event of a table, and the objects in memory.\<close>

record ttp_table_entry =
  event_info :: "u8 \<Rightarrow> list_state"
  hooks :: "addr \<Rightarrow> of_app_hook_info"

definition OF_FIRST_ASYNC_EVENT :: u8 where "OF_FIRST_ASYNC_EVENT = 1"
definition OF_LAST_ASYNC_EVENT :: u8 where "OF_LAST_ASYNC_EVENT = 4"
definition OF_ASYNC_MSG_APP_MIN_PRIORITY :: int where "OF_ASYNC_MSG_APP_MIN_PRIORITY = 1"
definition OF_ASYNC_MSG_APP_MAX_PRIORITY :: int where "OF_ASYNC_MSG_APP_MAX_PRIORITY = 256"

definition of_async_msg_table_init :: "ttp_table_entry \<Rightarrow> ttp_table_entry" where
  "of_async_msg_table_init table =
     table\<lparr>event_info := (\<lambda>msgno. if OF_FIRST_ASYNC_EVENT \<le> msgno \<and> msgno \<le> OF_LAST_ASYNC_EVENT
        then OF_LIST_INIT (snd (event_info table msgno)) else event_info table msgno)\<rparr>"

definition of_get_async_msg_app_hook :: "addr \<Rightarrow> ttp_table_entry \<Rightarrow> u8 \<Rightarrow> u8 \<Rightarrow> addr option" where
  "of_get_async_msg_app_hook offset table event_type prio =
     map_option fst (OF_LIST_SCAN (\<lambda>n. priority (hooks table n) = prio) offset
       (snd (event_info table event_type)) (head (fst (event_info table event_type))) 0)"

definition of_insert_app_hook_in_a_dscnding_priority ::
  "addr \<Rightarrow> u8 \<Rightarrow> addr \<Rightarrow> ttp_table_entry \<Rightarrow> ttp_table_entry option" where
  "of_insert_app_hook_in_a_dscnding_priority offset event_type app_entry table =
     (let s = event_info table event_type;
          set_list = (\<lambda>s. table\<lparr>event_info := (event_info table)(event_type := s)\<rparr>)
      in case OF_LIST_SCAN (\<lambda>n. priority (hooks table n) < priority (hooks table app_entry)) offset
                (snd s) (head (fst s)) 0 of
           None \<Rightarrow> None
         | Some (curr_app_entry, prev_app_entry) \<Rightarrow>
             if curr_app_entry \<noteq> 0
             then Some (set_list (OF_LIST_INSERT_NODE offset prev_app_entry app_entry curr_app_entry s))
             else map_option set_list (OF_APPEND_NODE_TO_LIST offset app_entry s))"

text \<open>
  The domain and its table are found or not; \<open>calloc\<close> gives an object of zeros or \<open>0\<close>.  The result is
  \<open>None\<close> for a null pointer or a scan without end.
\<close>

definition of_register_asynchronous_message_hook ::
  "addr \<Rightarrow> bool \<Rightarrow> bool \<Rightarrow> addr \<Rightarrow> u8 \<Rightarrow> u8 \<Rightarrow> nat \<Rightarrow> ttp_table_entry \<Rightarrow> (reg_status \<times> ttp_table_entry) option" where
  "of_register_asynchronous_message_hook offset domain_found table_found calloc_result event_type prio call_back_fn table =
     (if event_type < OF_FIRST_ASYNC_EVENT \<or> OF_LAST_ASYNC_EVENT < event_type then Some (INVALID_EVENT_TYPE, table)
      else if uint prio < OF_ASYNC_MSG_APP_MIN_PRIORITY \<or> OF_ASYNC_MSG_APP_MAX_PRIORITY < uint prio
      then Some (INVALID_APP_PRIORITY, table)
      else if call_back_fn = 0 then Some (NULL_CALLBACK, table)
      else if \<not> domain_found then Some (INVALID_DOMAIN, table)
      else if \<not> table_found then Some (REG_FAILURE, table)
      else case of_get_async_msg_app_hook offset table event_type prio of
          None \<Rightarrow> None
        | Some app_entry \<Rightarrow>
            if app_entry \<noteq> 0 then Some (DUPLICATE_APP_PRIORITY, table)
            else if calloc_result = 0 then Some (MEM_ALLOC_ERROR, table)
            else
              let s = event_info table event_type;
                  table = table\<lparr>event_info := (event_info table)
                             (event_type := (fst s, (snd s)(calloc_result + offset := 0))),
                           hooks := (hooks table)(calloc_result := \<lparr>priority = prio, call_back = call_back_fn\<rparr>)\<rparr>
              in map_option (\<lambda>table. (REG_SUCCESS, table))
                   (of_insert_app_hook_in_a_dscnding_priority offset event_type calloc_result table))"

section \<open>Handing over a message\<close>

datatype app_verdict = OF_ASYNC_MSG_CONSUMED | OF_ASYNC_MSG_PASS_TO_NEXT_APP | OF_ASYNC_MSG_DROP | Other_Value

text \<open>The applications that were called, in order, and how often the message was freed.\<close>

partial_function (option) hand_over ::
  "(nat \<Rightarrow> app_verdict) \<Rightarrow> addr \<Rightarrow> (addr \<Rightarrow> of_app_hook_info) \<Rightarrow> (addr \<Rightarrow> addr) \<Rightarrow> addr
    \<Rightarrow> app_verdict \<Rightarrow> nat list \<Rightarrow> nat \<Rightarrow> (app_verdict \<times> nat list \<times> nat) option" where
  "hand_over app offset hk links p retval called freed =
     (if p = 0 then Some (retval, called, freed)
      else let app_entry = p - offset;
               retval = app (call_back (hk app_entry));
               called = called @ [call_back (hk app_entry)]
           in if retval = OF_ASYNC_MSG_CONSUMED then Some (retval, called, freed)
              else if retval = OF_ASYNC_MSG_DROP then Some (retval, called, freed + 1)
              else hand_over app offset hk links (links p) retval called freed)"

declare hand_over.simps [simp del]

definition handover_pkt_in_msg_to_app ::
  "addr \<Rightarrow> (nat \<Rightarrow> app_verdict) \<Rightarrow> bool \<Rightarrow> bool \<Rightarrow> u8 \<Rightarrow> ttp_table_entry \<Rightarrow> (bool \<times> nat list \<times> nat) option" where
  "handover_pkt_in_msg_to_app offset app domain_table_known table_found msg_id table =
     (if OF_LAST_ASYNC_EVENT - OF_FIRST_ASYNC_EVENT + 1 < msg_id then Some (False, [], 0)
      else if \<not> domain_table_known \<or> \<not> table_found then Some (False, [], 0)
      else case hand_over app offset (hooks table) (snd (event_info table msg_id)) (head (fst (event_info table msg_id)))
                  OF_ASYNC_MSG_PASS_TO_NEXT_APP [] 0 of
             None \<Rightarrow> None
           | Some (retval, called, freed) \<Rightarrow>
               Some (True, called, if retval = OF_ASYNC_MSG_PASS_TO_NEXT_APP then freed + 1 else freed))"

definition handover_flow_removed_event_to_app ::
  "addr \<Rightarrow> (nat \<Rightarrow> app_verdict) \<Rightarrow> bool \<Rightarrow> u8 \<Rightarrow> ttp_table_entry \<Rightarrow> (bool \<times> nat list \<times> nat) option" where
  "handover_flow_removed_event_to_app offset app table_found msg_id table =
     handover_pkt_in_msg_to_app offset app True table_found msg_id table"

section \<open>Descending lists\<close>

type_synonym hook = "u8 \<times> nat"

fun insert_desc :: "hook \<Rightarrow> hook list \<Rightarrow> hook list" where
  "insert_desc h [] = [h]"
| "insert_desc h (x # xs) = (if fst x < fst h then h # x # xs else x # insert_desc h xs)"

abbreviation descending :: "hook list \<Rightarrow> bool" where
  "descending hs \<equiv> sorted_wrt (\<lambda>x y. fst y < fst x) hs"

lemma insert_desc_set: "set (insert_desc h hs) = insert h (set hs)"
  by (induction hs) auto

lemma insert_desc_descending:
  "descending hs \<Longrightarrow> \<forall>x \<in> set hs. fst x \<noteq> fst h \<Longrightarrow> descending (insert_desc h hs)"
proof (induction hs)
  case (Cons x hs)
  then show ?case by (cases "fst x < fst h") (force simp: insert_desc_set)+
qed simp

lemma insert_desc_split:
  "\<forall>y \<in> set ys. \<not> fst y < fst h \<Longrightarrow> fst x < fst h \<Longrightarrow> insert_desc h (ys @ x # zs) = ys @ h # x # zs"
  by (induction ys) auto

lemma insert_desc_end: "\<forall>y \<in> set ys. \<not> fst y < fst h \<Longrightarrow> insert_desc h ys = ys @ [h]"
  by (induction ys) auto

text \<open>The hooks that are called for a message: all up to the first that consumes or drops it.\<close>

fun offered :: "(nat \<Rightarrow> app_verdict) \<Rightarrow> hook list \<Rightarrow> hook list" where
  "offered app [] = []"
| "offered app (h # hs) =
     h # (if app (snd h) \<in> {OF_ASYNC_MSG_CONSUMED, OF_ASYNC_MSG_DROP} then [] else offered app hs)"

definition last_verdict :: "(nat \<Rightarrow> app_verdict) \<Rightarrow> hook list \<Rightarrow> app_verdict" where
  "last_verdict app hs =
     (if offered app hs = [] then OF_ASYNC_MSG_PASS_TO_NEXT_APP else app (snd (last (offered app hs))))"

abbreviation hook_of :: "(addr \<Rightarrow> of_app_hook_info) \<Rightarrow> addr \<Rightarrow> hook" where
  "hook_of hk n \<equiv> (priority (hk n), call_back (hk n))"

lemma hand_over_chain:
  assumes "chain offset links p xs 0"
  shows "hand_over app offset hk links p r called freed =
    Some (if xs = [] then r else last_verdict app (map (hook_of hk) xs),
      called @ map snd (offered app (map (hook_of hk) xs)),
      freed + (if xs \<noteq> [] \<and> last_verdict app (map (hook_of hk) xs) = OF_ASYNC_MSG_DROP then 1 else 0))"
  using assms
proof (induction xs arbitrary: p r called)
  case Nil
  then show ?case by (simp add: hand_over.simps)
next
  case (Cons x xs)
  let ?v = "app (call_back (hk x))"
  have c: "0 < x" "p = x + offset" "chain offset links (links p) xs 0" using Cons.prems by auto
  show ?case
  proof (cases "?v \<in> {OF_ASYNC_MSG_CONSUMED, OF_ASYNC_MSG_DROP}")
    case True
    then show ?thesis using c by (subst hand_over.simps) (auto simp: last_verdict_def Let_def)
  next
    case False
    then have "hand_over app offset hk links p r called freed =
        hand_over app offset hk links (links p) ?v (called @ [call_back (hk x)]) freed"
      using c by (subst hand_over.simps) (auto simp: Let_def)
    then show ?thesis
      using Cons.IH [OF c(3), of ?v "called @ [call_back (hk x)]"] False
      by (cases xs) (auto simp: last_verdict_def)
  qed
qed

section \<open>Registration inserts into a descending list\<close>

text \<open>The calls of the applications, with what they meet: domain, table, memory.\<close>

datatype reg_call = Register (rc_domain: bool) (rc_table: bool) (rc_calloc: addr) (rc_event: u8) (rc_priority: u8) (rc_fn: nat)

fun reg_exec :: "addr \<Rightarrow> reg_call \<Rightarrow> ttp_table_entry option \<Rightarrow> reg_status option \<times> ttp_table_entry option" where
  "reg_exec offset call None = (None, None)"
| "reg_exec offset (Register d t a e p f) (Some table) =
     (case of_register_asynchronous_message_hook offset d t a e p f table of
        None \<Rightarrow> (None, None) | Some (st, table) \<Rightarrow> (Some st, Some table))"

text \<open>On lists; the second component is the set of objects in use.\<close>

fun reg_spec :: "reg_call \<Rightarrow> (u8 \<Rightarrow> hook list) \<times> addr set \<Rightarrow> reg_status option \<times> (u8 \<Rightarrow> hook list) \<times> addr set" where
  "reg_spec (Register d t a e p f) (m, used) =
     (if e = 0 \<or> 4 < e then (Some INVALID_EVENT_TYPE, m, used)
      else if p = 0 then (Some INVALID_APP_PRIORITY, m, used)
      else if f = 0 then (Some NULL_CALLBACK, m, used)
      else if \<not> d then (Some INVALID_DOMAIN, m, used)
      else if \<not> t then (Some REG_FAILURE, m, used)
      else if p \<in> fst ` set (m e) then (Some DUPLICATE_APP_PRIORITY, m, used)
      else if a = 0 then (Some MEM_ALLOC_ERROR, m, used)
      else (Some REG_SUCCESS, m(e := insert_desc (p, f) (m e)), insert a used))"

definition reg_ok :: "reg_call \<Rightarrow> (u8 \<Rightarrow> hook list) \<times> addr set \<Rightarrow> bool" where
  "reg_ok call s \<longleftrightarrow> rc_calloc call \<notin> snd s"

definition event_hooks :: "addr \<Rightarrow> ttp_table_entry \<Rightarrow> addr set \<Rightarrow> u8 \<Rightarrow> hook list \<Rightarrow> bool" where
  "event_hooks offset table used e hs \<longleftrightarrow>
     (\<exists>xs. linked offset (event_info table e) xs \<and> set xs \<subseteq> used \<and> map (hook_of (hooks table)) xs = hs)"

definition reg_rel :: "addr \<Rightarrow> ttp_table_entry option \<Rightarrow> (u8 \<Rightarrow> hook list) \<times> addr set \<Rightarrow> bool" where
  "reg_rel offset st = (\<lambda>(m, used). \<exists>table. st = Some table \<and>
     (\<forall>e. 1 \<le> e \<and> e \<le> 4 \<longrightarrow> event_hooks offset table used e (m e) \<and> descending (m e) \<and> 0 \<notin> fst ` set (m e)))"

text \<open>The insertion with fresh memory.\<close>

lemma insert_hook:
  assumes "linked offset (event_info table e) xs" and "map (hook_of (hooks table)) xs = hs" and "a \<notin> set xs" and "0 < a"
    and "snd (event_info table e) (a + offset) = 0"
  shows "\<exists>s xs'. of_insert_app_hook_in_a_dscnding_priority offset e a table
      = Some (table\<lparr>event_info := (event_info table)(e := s)\<rparr>)
    \<and> linked offset s xs' \<and> set xs' = insert a (set xs)
    \<and> map (hook_of (hooks table)) xs' = insert_desc (hook_of (hooks table) a) hs"
proof -
  let ?s = "event_info table e" and ?h = "hook_of (hooks table) a"
  let ?P = "\<lambda>n. priority (hooks table n) < priority (hooks table a)"
  have scan: "OF_LIST_SCAN ?P offset (snd ?s) (head (fst ?s)) 0 = Some (find_prev ?P 0 xs)"
    using assms(1) scan_chain by (simp add: linked_def)
  show ?thesis
  proof (cases "\<exists>x \<in> set xs. ?P x")
    case True
    from find_prev_some [OF True, of 0] obtain ys x zs where x: "xs = ys @ x # zs" "?P x" "\<forall>y \<in> set ys. \<not> ?P y"
      "find_prev ?P 0 xs = (x, if ys = [] then 0 else last ys)" by blast
    have "0 < x" using assms(1) x(1) chain_pos by (fastforce simp: linked_def)
    then have e: "of_insert_app_hook_in_a_dscnding_priority offset e a table = Some (table\<lparr>event_info := (event_info table)
        (e := OF_LIST_INSERT_NODE offset (if ys = [] then 0 else last ys) a x ?s)\<rparr>)"
      using scan x(4) by (simp add: of_insert_app_hook_in_a_dscnding_priority_def Let_def)
    have "linked offset (OF_LIST_INSERT_NODE offset (if ys = [] then 0 else last ys) a x ?s) (ys @ a # x # zs)"
      using insert_linked(1) [OF assms(1) [unfolded x(1)] refl] assms(3,4) x(1) by simp
    moreover have "map (hook_of (hooks table)) (ys @ a # x # zs) = insert_desc ?h hs"
      using x assms(2) insert_desc_split [of "map (hook_of (hooks table)) ys" ?h "hook_of (hooks table) x"]
      by auto
    moreover have "set (ys @ a # x # zs) = insert a (set xs)" using x(1) by auto
    ultimately show ?thesis using e by blast
  next
    case False
    from append_linked [OF assms(1,3,4,5)] obtain s where s: "OF_APPEND_NODE_TO_LIST offset a ?s = Some s"
      "linked offset s (xs @ [a])" by blast
    have e: "of_insert_app_hook_in_a_dscnding_priority offset e a table = Some (table\<lparr>event_info := (event_info table)(e := s)\<rparr>)"
      using scan find_prev_none [OF False, of 0] s(1)
      by (simp add: of_insert_app_hook_in_a_dscnding_priority_def Let_def)
    have "map (hook_of (hooks table)) (xs @ [a]) = insert_desc ?h hs"
      using False assms(2) insert_desc_end [of hs ?h] by auto
    then show ?thesis using e s(2) by (intro exI [of _ s] exI [of _ "xs @ [a]"]) simp
  qed
qed

lemma find_hook:
  assumes "linked offset (event_info table e) xs" and "map (hook_of (hooks table)) xs = hs"
  shows "\<exists>n. of_get_async_msg_app_hook offset table e p = Some n \<and> (n = 0 \<longleftrightarrow> p \<notin> fst ` set hs)"
proof -
  let ?P = "\<lambda>n. priority (hooks table n) = p"
  have "OF_LIST_SCAN ?P offset (snd (event_info table e)) (head (fst (event_info table e))) 0 = Some (find_prev ?P 0 xs)"
    using assms(1) scan_chain by (simp add: linked_def)
  then have s: "of_get_async_msg_app_hook offset table e p = Some (fst (find_prev ?P 0 xs))"
    by (simp add: of_get_async_msg_app_hook_def)
  have i: "p \<in> fst ` set hs \<longleftrightarrow> (\<exists>x \<in> set xs. ?P x)" using assms(2) by force
  show ?thesis
  proof (cases "\<exists>x \<in> set xs. ?P x")
    case True
    from find_prev_some [OF True, of 0] obtain x where "fst (find_prev ?P 0 xs) = x" "x \<in> set xs" by force
    moreover from this have "0 < x" using assms(1) chain_pos by (fastforce simp: linked_def)
    ultimately show ?thesis using s i True by auto
  next
    case False
    then show ?thesis using s i find_prev_none [OF False, of 0] by simp
  qed
qed

lemma reg_step:
  assumes "reg_rel offset st s" and "reg_ok call s"
  shows "fst (reg_exec offset call st) = fst (reg_spec call s)
    \<and> reg_rel offset (snd (reg_exec offset call st)) (snd (reg_spec call s))"
proof -
  obtain m used where s: "s = (m, used)" by fastforce
  obtain d t a e p f where call: "call = Register d t a e p f" by (cases call)
  obtain table where st: "st = Some table" and hk: "\<And>e. 1 \<le> e \<Longrightarrow> e \<le> 4 \<Longrightarrow> event_hooks offset table used e (m e)"
    "\<And>e. 1 \<le> e \<Longrightarrow> e \<le> 4 \<Longrightarrow> descending (m e) \<and> 0 \<notin> fst ` set (m e)"
    using assms(1) by (auto simp: reg_rel_def s)
  have lt: "e < 1 \<longleftrightarrow> e = 0" for e :: u8 by (simp add: word_less_nat_alt unat_eq_0)
  have p1: "uint p < 1 \<longleftrightarrow> p = 0" using unsigned_eq_0_iff [of p, where 'a = int] uint_ge_0 [of p] by linarith
  have p2: "\<not> 256 < uint p" using uint_lt2p [of p] by simp
  note defs = OF_FIRST_ASYNC_EVENT_def OF_LAST_ASYNC_EVENT_def OF_ASYNC_MSG_APP_MIN_PRIORITY_def OF_ASYNC_MSG_APP_MAX_PRIORITY_def
  show ?thesis
  proof (cases "e = 0 \<or> 4 < e \<or> p = 0 \<or> f = 0 \<or> \<not> d \<or> \<not> t")
    case True
    then show ?thesis
      using assms(1) p1 p2 lt by (auto simp: s call st of_register_asynchronous_message_hook_def defs)
  next
    case False
    then have e: "1 \<le> e" "e \<le> 4" "\<not> (e < 1 \<or> 4 < e)" "\<not> (uint p < 1 \<or> 256 < uint p)" using p1 p2 lt [of e] not_less [of e 1] by (auto simp: not_less)
    obtain xs where xs: "linked offset (event_info table e) xs" "set xs \<subseteq> used" "map (hook_of (hooks table)) xs = m e"
      using hk(1) [OF e(1,2)] by (auto simp: event_hooks_def)
    obtain n where n: "of_get_async_msg_app_hook offset table e p = Some n" "n = 0 \<longleftrightarrow> p \<notin> fst ` set (m e)"
      using find_hook [OF xs(1,3), of p] by blast
    show ?thesis
    proof (cases "p \<in> fst ` set (m e) \<or> a = 0")
      case True
      then show ?thesis
        using assms(1) False e n by (auto simp: s call st of_register_asynchronous_message_hook_def defs)
    next
      case new: False
      have a: "a \<notin> used" "0 < a" using assms(2) new by (auto simp: reg_ok_def s call)
      let ?s = "event_info table e"
      let ?t = "table\<lparr>event_info := (event_info table)(e := (fst ?s, (snd ?s)(a + offset := 0))),
          hooks := (hooks table)(a := \<lparr>priority = p, call_back = f\<rparr>)\<rparr>"
      have an: "a \<notin> set xs" using a(1) xs(2) by blast
      then have "map (hook_of (hooks ?t)) xs = map (hook_of (hooks table)) xs" by (intro map_cong) auto
      then have "linked offset (event_info ?t e) xs" "map (hook_of (hooks ?t)) xs = m e"
        using an xs(1,3) by (auto simp: linked_def)
      from insert_hook [OF this an a(2)] obtain s' xs' where
        i: "of_insert_app_hook_in_a_dscnding_priority offset e a ?t = Some (?t\<lparr>event_info := (event_info ?t)(e := s')\<rparr>)"
        "linked offset s' xs'" "set xs' = insert a (set xs)" "map (hook_of (hooks ?t)) xs' = insert_desc (p, f) (m e)"
        by auto
      let ?u = "?t\<lparr>event_info := (event_info ?t)(e := s')\<rparr>"
      have ex: "reg_exec offset call st = (Some REG_SUCCESS, Some ?u)"
        using False e n new i(1) by (simp add: call st of_register_asynchronous_message_hook_def defs Let_def)
      have sp: "reg_spec call s = (Some REG_SUCCESS, m(e := insert_desc (p, f) (m e)), insert a used)"
        using False new by (simp add: call s)
      have "event_hooks offset ?u (insert a used) e' ((m(e := insert_desc (p, f) (m e))) e')"
        if e': "1 \<le> e'" "e' \<le> 4" for e'
      proof (cases "e' = e")
        case True
        then show ?thesis using i(2,3,4) xs(2) by (auto simp: event_hooks_def)
      next
        case False
        obtain ys where ys: "linked offset (event_info table e') ys" "set ys \<subseteq> used" "map (hook_of (hooks table)) ys = m e'"
          using hk(1) [OF e'] by (auto simp: event_hooks_def)
        moreover have "map (hook_of (hooks ?u)) ys = map (hook_of (hooks table)) ys" using ys(2) a(1) by auto
        ultimately show ?thesis using False by (auto simp: event_hooks_def)
      qed
      moreover have "descending ((m(e := insert_desc (p, f) (m e))) e') \<and> 0 \<notin> fst ` set ((m(e := insert_desc (p, f) (m e))) e')"
        if "1 \<le> e'" "e' \<le> 4" for e'
        using hk(2) [OF that] new False insert_desc_descending [of "m e" "(p, f)"]
        by (auto simp: insert_desc_set)
      ultimately show ?thesis unfolding ex sp by (simp add: reg_rel_def)
    qed
  qed
qed

interpretation reg: simulation "reg_exec offset" reg_spec reg_ok "reg_rel offset" "\<lambda>r. r" for offset
  by unfold_locales (rule reg_step)

section \<open>Messages are offered in descending order\<close>

text \<open>A table whose events 1 to 4 have been initialised has no hooks.\<close>

abbreviation no_hooks :: "(u8 \<Rightarrow> hook list) \<times> addr set" where
  "no_hooks \<equiv> (\<lambda>_. [], {})"

lemma init_rel: "reg_rel offset (Some (of_async_msg_table_init table)) no_hooks"
  using init_counted
  by (auto simp: reg_rel_def event_hooks_def of_async_msg_table_init_def OF_FIRST_ASYNC_EVENT_def OF_LAST_ASYNC_EVENT_def counted_def)

lemma handover_hooks:
  assumes "event_hooks offset table used e hs" and "1 \<le> e" and "e \<le> 4"
  shows "handover_pkt_in_msg_to_app offset app True True e table = Some (True, map snd (offered app hs),
    if last_verdict app hs \<in> {OF_ASYNC_MSG_DROP, OF_ASYNC_MSG_PASS_TO_NEXT_APP} then 1 else 0)"
proof -
  obtain xs where xs: "linked offset (event_info table e) xs" "map (hook_of (hooks table)) xs = hs"
    using assms(1) by (auto simp: event_hooks_def)
  have v: "xs = [] \<Longrightarrow> last_verdict app hs = OF_ASYNC_MSG_PASS_TO_NEXT_APP" using xs(2) by (simp add: last_verdict_def)
  have "\<not> 4 < e" using assms(3) by simp
  moreover have "chain offset (snd (event_info table e)) (head (fst (event_info table e))) xs 0"
    using xs(1) by (simp add: linked_def)
  ultimately show ?thesis
    using hand_over_chain [of offset "snd (event_info table e)" "head (fst (event_info table e))" xs app "hooks table"
        OF_ASYNC_MSG_PASS_TO_NEXT_APP "[]" 0] xs(2) v
    by (auto simp: handover_pkt_in_msg_to_app_def OF_FIRST_ASYNC_EVENT_def OF_LAST_ASYNC_EVENT_def)
qed


abbreviation blank_table :: ttp_table_entry where
  "blank_table \<equiv> \<lparr>event_info = (\<lambda>_. (\<lparr>head = 0, tail = 0, list_count = 0\<rparr>, \<lambda>_. 0)),
     hooks = (\<lambda>_. \<lparr>priority = 0, call_back = 0\<rparr>)\<rparr>"


section \<open>A registration while a message is handed over\<close>

text \<open>
  The insertion links the new hook from its predecessor before it links the hook to its
  successor.  A message that is handed over in between, which the read lock does not exclude, is
  offered up to the new hook only: the applications behind it miss it, although they are registered
  before, during and after.
\<close>

theorem insert_race:
  assumes "linked offset s (ys @ y # zs)" and "prev = (if ys = [] then 0 else last ys)"
    and "n \<notin> set (ys @ y # zs)" and "0 < n" and "snd s (n + offset) = 0"
    and "\<And>f. app f = OF_ASYNC_MSG_PASS_TO_NEXT_APP" and "s' = insert_link_prev offset prev n s"
    and "s'' = OF_LIST_INSERT_NODE offset prev n y s"
  shows "map_option (fst \<circ> snd) (hand_over app offset hk (snd s) (head (fst s)) r [] 0)
      = Some (map (call_back \<circ> hk) (ys @ y # zs))
    \<and> map_option (fst \<circ> snd) (hand_over app offset hk (snd s') (head (fst s')) r [] 0)
      = Some (map (call_back \<circ> hk) (ys @ [n]))
    \<and> map_option (fst \<circ> snd) (hand_over app offset hk (snd s'') (head (fst s'')) r [] 0)
      = Some (map (call_back \<circ> hk) (ys @ n # y # zs))"
proof -
  have all: "map snd (offered app (map (hook_of hk) xs)) = map (call_back \<circ> hk) xs" for xs
    using assms(6) by (induction xs) simp_all
  have over: "map_option (fst \<circ> snd) (hand_over app offset hk (snd s) (head (fst s)) r [] 0) = Some (map (call_back \<circ> hk) xs)"
    if "chain offset (snd s) (head (fst s)) xs 0" for s xs
    using hand_over_chain [OF that, of app hk r "[]" 0] all by simp
  obtain l links where s: "s = (l, links)" by fastforce
  have c: "chain offset links (head l) ys (y + offset)" "distinct ys" "last ys \<noteq> n \<or> ys = []"
    using assms(1,3) by (auto simp: linked_def s)
  have "chain offset (snd s') (head (fst s')) (ys @ [n]) 0"
  proof (cases "ys = []")
    case True
    then show ?thesis using assms(2,4,5,7) by (simp add: insert_link_prev_def s)
  next
    case False
    have "0 < last ys" using chain_pos [OF c(1) last_in_set [OF False]] .
    moreover have "chain offset (links(last ys + offset := n + offset)) (head l) ys (n + offset)"
      using chain_relink [OF c(1) False c(2)] .
    ultimately show ?thesis using assms(2,4,5,7) c(3) False by (simp add: insert_link_prev_def s)
  qed
  moreover have "chain offset (snd s) (head (fst s)) (ys @ y # zs) 0"
    using assms(1) unfolding linked_def by (rule conjunct1)
  moreover have "chain offset (snd s'') (head (fst s'')) (ys @ n # y # zs) 0"
    using insert_linked(1) [OF assms(1-4)] unfolding linked_def assms(8) by (rule conjunct1)
  ultimately show ?thesis using over by blast
qed

text \<open>Applications 11 and 12 are registered when 13 comes in between.\<close>

lemma insert_race_witness:
  "map_option (fst \<circ> snd) (hand_over (\<lambda>_. OF_ASYNC_MSG_PASS_TO_NEXT_APP) 4
      ((\<lambda>_. \<lparr>priority = 0, call_back = 0\<rparr>)(10 := \<lparr>priority = 9, call_back = 11\<rparr>, 20 := \<lparr>priority = 5, call_back = 12\<rparr>,
        30 := \<lparr>priority = 7, call_back = 13\<rparr>))
      ((\<lambda>_. 0)(14 := 34)) 14 OF_ASYNC_MSG_PASS_TO_NEXT_APP [] 0) = Some [11, 13]"
proof -
  let ?s = "(\<lparr>head = 14, tail = 24, list_count = 2\<rparr>, (\<lambda>_. 0)(14 := 24)) :: list_state"
  let ?hk = "(\<lambda>_. \<lparr>priority = 0, call_back = 0\<rparr>)(10 := \<lparr>priority = 9, call_back = 11\<rparr>, 20 := \<lparr>priority = 5, call_back = 12\<rparr>,
        30 := \<lparr>priority = 7, call_back = 13\<rparr>)"
  have l: "linked 4 ?s ([10] @ 20 # [])" by (simp add: linked_def)
  have i: "insert_link_prev 4 10 30 ?s = (\<lparr>head = 14, tail = 24, list_count = 2\<rparr>, (\<lambda>_. 0)(14 := 34))"
    by (simp add: insert_link_prev_def)
  have "(10 :: addr) = (if [10 :: addr] = [] then 0 else last [10])" "30 \<notin> set ([10] @ 20 # [] :: addr list)" "0 < (30 :: addr)"
    "snd ?s (30 + 4) = 0" by simp_all
  from insert_race [OF l this _ refl refl, of "\<lambda>_. OF_ASYNC_MSG_PASS_TO_NEXT_APP" ?hk OF_ASYNC_MSG_PASS_TO_NEXT_APP]
  show ?thesis unfolding i by simp
qed

end
