(* ===== verification/Transmit.thy ===== *)
theory Transmit
  imports Channel
begin

text \<open>
  The writing side of a channel (\<open>transport/base/trnsprt_core.c\<close>): a message is offered to the socket at
  once when nothing waits in front of it, and what the socket does not take waits on a list of the
  channel, which is sent when the socket is writable.  What the socket does with each call of \<open>send\<close> is
  an argument.  The record keeps what has been taken (\<open>sent_bytes\<close>), the messages that were released and
  those that were read afterwards; a released block keeps its bytes.  \<open>None\<close> is the use of a handler that
  is \<open>NULL\<close>, of a list node that was freed, or of a variable without a value.
\<close>

section \<open>Messages, the list and the socket\<close>

record out_msg =
  om_id :: nat
  om_bytes :: "u8 list"

definition om_len :: "out_msg \<Rightarrow> u16" where "om_len msg = of_nat (length (om_bytes msg))"

record cntlr_send_msg_buf =
  length_sent :: u16
  sb_msg :: out_msg
  sb_valid :: bool

record writer =
  w_channel :: cntlr_channel_info_t
  send_msg_list :: "cntlr_send_msg_buf list"
  epoll_wr_enabled :: bool
  tx_bytes :: u64
  errno_again :: bool
  sent_bytes :: "u8 list"
  freed :: "nat list"
  freed_reads :: "nat list"

text \<open>\<open>Again\<close> stands for \<open>EAGAIN\<close>, \<open>ENOMEM\<close> and \<open>EINTR\<close>, \<open>Reset\<close> for \<open>ECONNRESET\<close>.\<close>

datatype send_outcome = Taken nat | Again | Reset | Failed

definition tcp_transport_write_data ::
  "send_outcome \<Rightarrow> u8 list \<Rightarrow> writer \<Rightarrow> (bool \<times> u16 \<times> bool) \<times> writer" where
  "tcp_transport_write_data out bytes w =
     (case out of
        Taken n \<Rightarrow> ((True, of_nat (min n (length bytes)), False), w\<lparr>sent_bytes := sent_bytes w @ take n bytes\<rparr>)
      | Again \<Rightarrow> ((False, 0, False), w\<lparr>errno_again := True\<rparr>)
      | Reset \<Rightarrow> ((False, 0, True), w\<lparr>errno_again := False\<rparr>)
      | Failed \<Rightarrow> ((False, 0, False), w\<lparr>errno_again := False\<rparr>))"

text \<open>A descriptor of -1 fails without a call, and leaves \<open>errno\<close> as it was.\<close>

definition fsm_xprt_proto_channel_write_msg_to_dp ::
  "trnsprt_env \<Rightarrow> send_outcome \<Rightarrow> out_msg \<Rightarrow> u16 \<Rightarrow> writer \<Rightarrow> ((bool \<times> u16) \<times> writer) option" where
  "fsm_xprt_proto_channel_write_msg_to_dp env out msg len_already_sent w =
     (if trnsprt_fd (w_channel w) = -1 then Some ((False, 0), w)
      else case tcp_transport_write_data out (drop (unat len_already_sent) (om_bytes msg)) w of
        ((ok, len_sent, peer_closed_conn), w) \<Rightarrow>
          if ok then Some ((True, len_sent), w\<lparr>tx_bytes := tx_bytes w + ucast len_sent\<rparr>)
          else let channel = w_channel w in
            map_option (\<lambda>channel. ((False, len_sent), w\<lparr>w_channel := channel\<rparr>))
              (if peer_closed_conn
               then Option.bind (dispatch_fail env (channel\<lparr>fsm_event := DP_DETACH_EVENT\<rparr>))
                      (\<lambda>channel. dispatch_fail env (channel\<lparr>fsm_event := CLOSE_EVENT\<rparr>))
               else dispatch_fail env (channel\<lparr>fsm_event := WRITE_FAIL_EVENT\<rparr>)))"

section \<open>Sending one message\<close>

definition of_check_pkt_mbuf_and_free :: "out_msg \<Rightarrow> writer \<Rightarrow> writer" where
  "of_check_pkt_mbuf_and_free msg w = w\<lparr>freed := om_id msg # freed w\<rparr>"

text \<open>
  When the descriptor cannot be modified, the message and the list node are freed, and the node stays
  on the list.  The allocation of the node does not fail.
\<close>

definition of_add_2_epoll_4_wr_event ::
  "trnsprt_env \<Rightarrow> out_msg \<Rightarrow> bool \<Rightarrow> u16 \<Rightarrow> writer \<Rightarrow> writer" where
  "of_add_2_epoll_4_wr_event env msg is_new_msg len_sent_currently w =
     (let node = \<lparr>length_sent = len_sent_currently, sb_msg = msg, sb_valid = epoll_wr_enabled w \<or> epoll_ok env\<rparr>;
          w = (if is_new_msg then w\<lparr>send_msg_list := send_msg_list w @ [node]\<rparr> else w)
      in if epoll_wr_enabled w then w
         else if epoll_ok env then w\<lparr>epoll_wr_enabled := True\<rparr>
         else of_check_pkt_mbuf_and_free msg w)"

text \<open>The second part of the result is the length that was sent, if it is set.\<close>

definition cntlr_tnsprt_try_2_send_msg_on_line ::
  "trnsprt_env \<Rightarrow> send_outcome \<Rightarrow> out_msg \<Rightarrow> bool \<Rightarrow> u16 \<Rightarrow> writer \<Rightarrow> ((bool \<times> u16 option) \<times> writer) option" where
  "cntlr_tnsprt_try_2_send_msg_on_line env out msg is_new_msg msg_offset w =
     Option.bind (fsm_xprt_proto_channel_write_msg_to_dp env out msg msg_offset w) (\<lambda>((ok, len_sent), w).
       if \<not> ok \<and> \<not> errno_again w then Some ((False, None), of_check_pkt_mbuf_and_free msg w)
       else if \<not> ok \<or> len_sent < om_len msg
       then Some ((True, Some len_sent), of_add_2_epoll_4_wr_event env msg is_new_msg len_sent w)
       else Some ((True, Some len_sent), of_check_pkt_mbuf_and_free msg w))"

definition cntlr_tnsprt_send_msg_to_dp_channel ::
  "trnsprt_env \<Rightarrow> send_outcome \<Rightarrow> out_msg \<Rightarrow> bool \<Rightarrow> u16 \<Rightarrow> writer \<Rightarrow> (bool \<times> writer) option" where
  "cntlr_tnsprt_send_msg_to_dp_channel env out msg is_new_msg msg_offset w =
     (if send_msg_list w \<noteq> [] then Some (True, of_add_2_epoll_4_wr_event env msg is_new_msg msg_offset w)
      else map_option (\<lambda>((ok, _), w). (ok, w))
             (cntlr_tnsprt_try_2_send_msg_on_line env out msg is_new_msg msg_offset w))"

section \<open>Sending what waits\<close>

text \<open>
  The list is walked from its head; a node is removed when the loop goes on to the next one.  \<open>i\<close> numbers
  the calls of \<open>send\<close>, \<open>len\<close> is the variable \<open>len_sent_currently\<close>, which keeps its value between rounds.
  The length of the message is read after the message may have been released.
\<close>

fun send_waiting ::
  "trnsprt_env \<Rightarrow> (nat \<Rightarrow> send_outcome) \<Rightarrow> nat \<Rightarrow> u16 option \<Rightarrow> cntlr_send_msg_buf list \<Rightarrow> writer \<Rightarrow> writer option" where
  "send_waiting env outs i len [] w = Some w"
| "send_waiting env outs i len (b # bs) w =
     (if \<not> sb_valid b then None
      else Option.bind (cntlr_tnsprt_try_2_send_msg_on_line env (outs i) (sb_msg b) False (length_sent b) w)
        (\<lambda>((ok, l), w).
          let len = (if l = None then len else l);
              w = (if om_id (sb_msg b) \<in> set (freed w)
                   then w\<lparr>freed_reads := om_id (sb_msg b) # freed_reads w\<rparr> else w)
          in case len of
               None \<Rightarrow> None
             | Some n \<Rightarrow>
                 let b = b\<lparr>length_sent := length_sent b + n\<rparr>
                 in if om_len (sb_msg b) = 0 \<or> n \<noteq> 0 \<and> om_len (sb_msg b) = length_sent b
                    then send_waiting env outs (Suc i) len bs (w\<lparr>send_msg_list := bs\<rparr>)
                    else Some (w\<lparr>send_msg_list := b # bs\<rparr>)))"

definition of_send_all_msgs_waiting_on_chn_to_dp ::
  "trnsprt_env \<Rightarrow> (nat \<Rightarrow> send_outcome) \<Rightarrow> writer \<Rightarrow> writer option" where
  "of_send_all_msgs_waiting_on_chn_to_dp env outs w =
     map_option (\<lambda>w. if send_msg_list w = [] then w\<lparr>epoll_wr_enabled := False\<rparr> else w)
       (send_waiting env outs 0 None (send_msg_list w) w)"

text \<open>The end of a channel: what still waits is released.\<close>

definition cntlr_trnsprt_conn_free_rcu :: "writer \<Rightarrow> writer" where
  "cntlr_trnsprt_conn_free_rcu w =
     (fold (\<lambda>b. of_check_pkt_mbuf_and_free (sb_msg b)) (send_msg_list w) w)\<lparr>send_msg_list := []\<rparr>"

section \<open>The order of the bytes\<close>

definition waiting_bytes :: "cntlr_send_msg_buf \<Rightarrow> u8 list" where
  "waiting_bytes b = drop (unat (length_sent b)) (om_bytes (sb_msg b))"

definition pending :: "writer \<Rightarrow> u8 list" where
  "pending w = concat (map waiting_bytes (send_msg_list w))"

definition proper_msg :: "out_msg \<Rightarrow> bool" where
  "proper_msg m \<longleftrightarrow> om_bytes m \<noteq> [] \<and> length (om_bytes m) < 65536"

definition node_ok :: "cntlr_send_msg_buf \<Rightarrow> bool" where
  "node_ok b \<longleftrightarrow> sb_valid b \<and> proper_msg (sb_msg b) \<and> unat (length_sent b) < length (om_bytes (sb_msg b))"

text \<open>Open, and bound or waiting for the handshake; the descriptor is polled for writing while something waits.\<close>

definition writer_open :: "writer \<Rightarrow> bool" where
  "writer_open w \<longleftrightarrow> trnsprt_fd (w_channel w) \<noteq> -1 \<and> fsm_state (w_channel w) \<noteq> INIT"

definition writer_ok :: "writer \<Rightarrow> bool" where
  "writer_ok w \<longleftrightarrow> writer_open w \<and> (\<forall>b \<in> set (send_msg_list w). node_ok b)
     \<and> (epoll_wr_enabled w \<longleftrightarrow> send_msg_list w \<noteq> [])"

text \<open>What a call of \<open>send\<close> takes; the socket does not break.\<close>

fun calm :: "send_outcome \<Rightarrow> bool" where
  "calm (Taken n) = True" | "calm Again = True" | "calm _ = False"

fun taken :: "send_outcome \<Rightarrow> nat" where
  "taken (Taken n) = n" | "taken _ = 0"

datatype write_op = Send out_msg send_outcome | Writable "nat \<Rightarrow> send_outcome"

definition exec_write :: "trnsprt_env \<Rightarrow> write_op \<Rightarrow> writer \<Rightarrow> writer option" where
  "exec_write env x w =
     (case x of
        Send m out \<Rightarrow> map_option snd (cntlr_tnsprt_send_msg_to_dp_channel env out m True 0 w)
      | Writable outs \<Rightarrow> of_send_all_msgs_waiting_on_chn_to_dp env outs w)"

fun write_run :: "trnsprt_env \<Rightarrow> write_op list \<Rightarrow> writer \<Rightarrow> writer option" where
  "write_run env [] w = Some w"
| "write_run env (x # xs) w = Option.bind (exec_write env x w) (write_run env xs)"

fun calm_op :: "write_op \<Rightarrow> bool" where
  "calm_op (Send m out) \<longleftrightarrow> calm out \<and> proper_msg m"
| "calm_op (Writable outs) \<longleftrightarrow> (\<forall>i. calm (outs i))"

fun sent_msgs :: "write_op list \<Rightarrow> out_msg list" where
  "sent_msgs [] = []"
| "sent_msgs (Send m out # xs) = m # sent_msgs xs"
| "sent_msgs (Writable outs # xs) = sent_msgs xs"

lemma om_len_unat: "proper_msg m \<Longrightarrow> unat (om_len m) = length (om_bytes m)"
  by (simp add: proper_msg_def om_len_def)

lemma write_failed_event: "fsm_state c \<noteq> INIT \<Longrightarrow>
    dispatch_fail env (c\<lparr>fsm_event := WRITE_FAIL_EVENT\<rparr>) = Some (c\<lparr>fsm_event := WRITE_FAIL_EVENT\<rparr>)"
  by (cases "fsm_state c") (auto simp: dispatch_fail_def)

text \<open>What a call on an open channel leaves as it was.\<close>

definition same_list :: "writer \<Rightarrow> writer \<Rightarrow> bool" where
  "same_list w w' \<longleftrightarrow> send_msg_list w' = send_msg_list w \<and> epoll_wr_enabled w' = epoll_wr_enabled w
     \<and> freed w' = freed w \<and> freed_reads w' = freed_reads w \<and> writer_open w'"

lemma write_calm:
  assumes "calm out" and "writer_open w" and "length (om_bytes m) < 65536"
  obtains ok n w' where "fsm_xprt_proto_channel_write_msg_to_dp env out m off w = Some ((ok, n), w')"
    and "unat n = min (taken out) (length (drop (unat off) (om_bytes m)))"
    and "sent_bytes w' = sent_bytes w @ take (taken out) (drop (unat off) (om_bytes m))"
    and "ok \<or> errno_again w'" and "same_list w w'" and "ok \<or> n = 0"
  using assms
  by (cases out) (fastforce simp: fsm_xprt_proto_channel_write_msg_to_dp_def tcp_transport_write_data_def
      writer_open_def write_failed_event same_list_def)+

text \<open>One message, its first part sent before or not; it is released when this call sends all of it.\<close>

lemma try_calm:
  assumes "epoll_ok env" and "calm out" and "writer_open w" and "proper_msg m"
    and "unat off < length (om_bytes m)" and "off = 0 \<or> epoll_wr_enabled w"
  obtains n w' where "cntlr_tnsprt_try_2_send_msg_on_line env out m new off w = Some ((True, Some n), w')"
    and "unat n = min (taken out) (length (om_bytes m) - unat off)"
    and "sent_bytes w' = sent_bytes w @ take (taken out) (drop (unat off) (om_bytes m))"
    and "writer_open w'" and "freed_reads w' = freed_reads w"
    and "if off = 0 \<and> length (om_bytes m) \<le> taken out
         then freed w' = om_id m # freed w \<and> send_msg_list w' = send_msg_list w \<and> epoll_wr_enabled w' = epoll_wr_enabled w
         else freed w' = freed w \<and> epoll_wr_enabled w'
           \<and> send_msg_list w' = send_msg_list w @ (if new then [\<lparr>length_sent = n, sb_msg = m, sb_valid = True\<rparr>] else [])"
proof -
  have "length (om_bytes m) < 65536" using assms(4) by (simp add: proper_msg_def)
  then obtain ok n w1 where w1: "fsm_xprt_proto_channel_write_msg_to_dp env out m off w = Some ((ok, n), w1)"
    and n: "unat n = min (taken out) (length (om_bytes m) - unat off)"
    and s: "sent_bytes w1 = sent_bytes w @ take (taken out) (drop (unat off) (om_bytes m))"
    and ok: "ok \<or> errno_again w1" "ok \<or> n = 0" and same: "same_list w w1"
    using write_calm [OF assms(2,3)] by (metis length_drop)
  have len: "om_bytes m \<noteq> []" "unat (om_len m) = length (om_bytes m)"
    using assms(4) om_len_unat by (auto simp: proper_msg_def)
  have "off = 0 \<longleftrightarrow> unat off = 0" by (simp add: unat_eq_zero)
  then have whole: "n < om_len m \<longleftrightarrow> \<not> (off = 0 \<and> length (om_bytes m) \<le> taken out)"
    using assms(5) n len by (auto simp: word_less_nat_alt)
  let ?w = "if n < om_len m then of_add_2_epoll_4_wr_event env m new n w1
    else of_check_pkt_mbuf_and_free m w1"
  have bad: "\<not> ok \<Longrightarrow> n < om_len m" using ok(2) len by (auto simp: word_less_nat_alt)
  then have "(\<not> ok \<and> \<not> errno_again w1) = False" "(\<not> ok \<or> n < om_len m) = (n < om_len m)"
    using ok(1) by auto
  then have "cntlr_tnsprt_try_2_send_msg_on_line env out m new off w = Some ((True, Some n), ?w)"
    unfolding cntlr_tnsprt_try_2_send_msg_on_line_def w1 by simp
  then show thesis
    using that [of n ?w] n s same whole assms(1,6)
    by (cases "n < om_len m") (auto simp: of_add_2_epoll_4_wr_event_def
        of_check_pkt_mbuf_and_free_def same_list_def writer_open_def Let_def)
qed

text \<open>
  One round of the loop over what waits: the node goes or stays, with what is left of it in front; a
  node none of which had been sent releases its message when it goes.
\<close>

lemma round_calm:
  assumes "epoll_ok env" and "\<forall>i. calm (outs i)" and "writer_open w" and "epoll_wr_enabled w" and "node_ok b"
  obtains w' where "writer_open w'" and "epoll_wr_enabled w'"
    and "if length (waiting_bytes b) \<le> taken (outs i)
      then send_waiting env outs i len (b # bs) w
            = send_waiting env outs (Suc i) (Some (of_nat (length (waiting_bytes b)))) bs (w'\<lparr>send_msg_list := bs\<rparr>)
         \<and> sent_bytes w' = sent_bytes w @ waiting_bytes b
         \<and> (length_sent b = 0 \<longrightarrow> freed w' = om_id (sb_msg b) # freed w
              \<and> freed_reads w' = om_id (sb_msg b) # freed_reads w)
         \<and> (length_sent b \<noteq> 0 \<and> om_id (sb_msg b) \<notin> set (freed w) \<longrightarrow> freed w' = freed w \<and> freed_reads w' = freed_reads w)
      else \<exists>b'. send_waiting env outs i len (b # bs) w = Some (w'\<lparr>send_msg_list := b' # bs\<rparr>) \<and> node_ok b'
         \<and> sb_msg b' = sb_msg b \<and> sent_bytes w' @ waiting_bytes b' = sent_bytes w @ waiting_bytes b
         \<and> freed w' = freed w"
proof -
  let ?m = "sb_msg b" and ?k = "taken (outs i)"
  have b: "sb_valid b" "proper_msg ?m" "unat (length_sent b) < length (om_bytes ?m)"
    using assms(5) by (simp_all add: node_ok_def)
  obtain n w1 where t: "cntlr_tnsprt_try_2_send_msg_on_line env (outs i) ?m False (length_sent b) w
        = Some ((True, Some n), w1)"
    and n: "unat n = min ?k (length (om_bytes ?m) - unat (length_sent b))"
    and s: "sent_bytes w1 = sent_bytes w @ take ?k (waiting_bytes b)"
    and o: "writer_open w1" "freed_reads w1 = freed_reads w"
    and f: "if length_sent b = 0 \<and> length (om_bytes ?m) \<le> ?k
         then freed w1 = om_id ?m # freed w \<and> send_msg_list w1 = send_msg_list w \<and> epoll_wr_enabled w1 = epoll_wr_enabled w
         else freed w1 = freed w \<and> epoll_wr_enabled w1
           \<and> send_msg_list w1 = send_msg_list w @ (if False then [\<lparr>length_sent = n, sb_msg = ?m, sb_valid = True\<rparr>] else [])"
    using try_calm [OF assms(1) _ assms(3) b(2,3), of "outs i" False] assms(2,4)
    unfolding waiting_bytes_def by metis
  have len: "length (om_bytes ?m) < 65536" "om_len ?m \<noteq> 0" "length (waiting_bytes b) = length (om_bytes ?m) - unat (length_sent b)"
    using b(2) om_len_unat [OF b(2)] by (auto simp: proper_msg_def waiting_bytes_def)
  have sum: "unat (length_sent b + n) = unat (length_sent b) + unat n"
    using n b(3) len(1) by (intro unat_plus_simple [THEN iffD1] unat_add_lem [THEN iffD1]) simp
  let ?w = "if om_id ?m \<in> set (freed w1) then w1\<lparr>freed_reads := om_id ?m # freed_reads w1\<rparr> else w1"
  let ?b = "b\<lparr>length_sent := length_sent b + n\<rparr>"
  have gone: "n \<noteq> 0 \<and> om_len ?m = length_sent b + n \<longleftrightarrow> length (waiting_bytes b) \<le> ?k"
    using sum n b(3) len om_len_unat [OF b(2)] by (auto simp: word_unat_eq_iff)
  have step: "send_waiting env outs i len (b # bs) w
      = (if length (waiting_bytes b) \<le> ?k then send_waiting env outs (Suc i) (Some n) bs (?w\<lparr>send_msg_list := bs\<rparr>)
         else Some (?w\<lparr>send_msg_list := ?b # bs\<rparr>))"
    using b(1) t len(2) gone by (simp add: Let_def)
  show thesis
  proof (cases "length (waiting_bytes b) \<le> ?k")
    case True
    then have "n = of_nat (length (waiting_bytes b))" using n len(3) True by (metis min_def le_antisym nat_le_linear of_nat_unat ucast_id)
    moreover have "length_sent b \<noteq> 0 \<Longrightarrow> freed w1 = freed w" using f by (auto split: if_splits)
    moreover have "length_sent b = 0 \<Longrightarrow> freed w1 = om_id ?m # freed w" using f True len(3) by (auto split: if_splits)
    ultimately show thesis
      using that [of ?w] True step s o f assms(4)
      by (auto simp: writer_open_def split: if_splits)
  next
    case False
    have "node_ok ?b" "waiting_bytes ?b = drop ?k (waiting_bytes b)"
      using False sum n b len(3) by (auto simp: node_ok_def waiting_bytes_def add.commute)
    moreover have keep: "freed w1 = freed w" "epoll_wr_enabled w1" using f False len(3) assms(4) by (auto split: if_splits)
    moreover have "send_waiting env outs i len (b # bs) w = Some (?w\<lparr>send_msg_list := ?b # bs\<rparr>)"
      using False step by (simp del: send_waiting.simps)
    moreover have "sent_bytes ?w = sent_bytes w1" "freed ?w = freed w1" by simp_all
    ultimately have "\<exists>b'. send_waiting env outs i len (b # bs) w = Some (?w\<lparr>send_msg_list := b' # bs\<rparr>) \<and> node_ok b'
         \<and> sb_msg b' = sb_msg b \<and> sent_bytes ?w @ waiting_bytes b' = sent_bytes w @ waiting_bytes b
         \<and> freed ?w = freed w"
      using s by (intro exI [of _ ?b]) (simp del: send_waiting.simps)
    then show thesis
      using that [of ?w] False o(1) keep(2) by (simp add: writer_open_def del: send_waiting.simps)
  qed
qed

lemma waiting_calm:
  assumes "epoll_ok env" and "\<forall>i. calm (outs i)"
  shows "writer_open w \<Longrightarrow> epoll_wr_enabled w \<Longrightarrow> \<forall>b \<in> set bs. node_ok b \<Longrightarrow> send_msg_list w = bs \<Longrightarrow>
    \<exists>w'. send_waiting env outs i len bs w = Some w' \<and> writer_open w' \<and> epoll_wr_enabled w'
      \<and> (\<forall>b \<in> set (send_msg_list w'). node_ok b) \<and> sent_bytes w' @ pending w' = sent_bytes w @ pending w
      \<and> ((\<forall>i. 65535 \<le> taken (outs i)) \<longrightarrow> send_msg_list w' = [])"
proof (induction bs arbitrary: w i len)
  case Nil
  then show ?case by simp
next
  case (Cons b bs)
  obtain w1 where o: "writer_open w1" "epoll_wr_enabled w1" and r: "if length (waiting_bytes b) \<le> taken (outs i)
      then send_waiting env outs i len (b # bs) w
            = send_waiting env outs (Suc i) (Some (of_nat (length (waiting_bytes b)))) bs (w1\<lparr>send_msg_list := bs\<rparr>)
         \<and> sent_bytes w1 = sent_bytes w @ waiting_bytes b
         \<and> (length_sent b = 0 \<longrightarrow> freed w1 = om_id (sb_msg b) # freed w
              \<and> freed_reads w1 = om_id (sb_msg b) # freed_reads w)
         \<and> (length_sent b \<noteq> 0 \<and> om_id (sb_msg b) \<notin> set (freed w) \<longrightarrow> freed w1 = freed w \<and> freed_reads w1 = freed_reads w)
      else \<exists>b'. send_waiting env outs i len (b # bs) w = Some (w1\<lparr>send_msg_list := b' # bs\<rparr>) \<and> node_ok b'
         \<and> sb_msg b' = sb_msg b \<and> sent_bytes w1 @ waiting_bytes b' = sent_bytes w @ waiting_bytes b
         \<and> freed w1 = freed w"
    using round_calm [OF assms Cons.prems(1,2), of b i len bs] Cons.prems(3) by auto
  have short: "length (waiting_bytes b) \<le> 65535"
    using Cons.prems(3) by (auto simp: node_ok_def proper_msg_def waiting_bytes_def)
  show ?case
  proof (cases "length (waiting_bytes b) \<le> taken (outs i)")
    case True
    have "writer_open (w1\<lparr>send_msg_list := bs\<rparr>)" using o(1) by (simp add: writer_open_def)
    from Cons.IH [OF this, of "Suc i" "Some (of_nat (length (waiting_bytes b)))"] o(2) Cons.prems(3) True r
    show ?thesis by (simp add: pending_def Cons.prems(4))
  next
    case False
    then obtain b' where "send_waiting env outs i len (b # bs) w = Some (w1\<lparr>send_msg_list := b' # bs\<rparr>)"
      "node_ok b'" "sent_bytes w1 @ waiting_bytes b' = sent_bytes w @ waiting_bytes b"
      using r by auto
    moreover have "\<not> (\<forall>i. 65535 \<le> taken (outs i))" using False short by (meson le_trans)
    ultimately show ?thesis
      using Cons.prems(3) o by (simp add: pending_def Cons.prems(4) writer_open_def flip: append_assoc)
  qed
qed

lemma exec_calm:
  assumes "epoll_ok env" and "writer_ok w" and "calm_op x"
  obtains w' where "exec_write env x w = Some w'" and "writer_ok w'"
    and "sent_bytes w' @ pending w' = sent_bytes w @ pending w @ concat (map om_bytes (sent_msgs [x]))"
proof (cases x)
  case (Writable outs)
  show thesis
  proof (cases "send_msg_list w = []")
    case True
    then show thesis
      using that [of "w\<lparr>epoll_wr_enabled := False\<rparr>"] assms(2) Writable
      by (simp add: exec_write_def of_send_all_msgs_waiting_on_chn_to_dp_def pending_def writer_ok_def writer_open_def)
  next
    case False
    then obtain w1 where w1: "send_waiting env outs 0 None (send_msg_list w) w = Some w1" "writer_open w1"
      "epoll_wr_enabled w1" "\<forall>b \<in> set (send_msg_list w1). node_ok b"
      "sent_bytes w1 @ pending w1 = sent_bytes w @ pending w"
      using waiting_calm [OF assms(1), of outs w "send_msg_list w" 0 None] assms(2,3) Writable
      unfolding writer_ok_def by auto
    then show thesis
      using that [of "if send_msg_list w1 = [] then w1\<lparr>epoll_wr_enabled := False\<rparr> else w1"] Writable
      by (cases "send_msg_list w1 = []")
        (simp_all add: exec_write_def of_send_all_msgs_waiting_on_chn_to_dp_def pending_def writer_ok_def writer_open_def)
  qed
next
  case (Send m out)
  then have m: "proper_msg m" "calm out" "om_bytes m \<noteq> []" using assms(3) by (auto simp: proper_msg_def)
  show thesis
  proof (cases "send_msg_list w = []")
    case True
    have o: "writer_open w" "unat (0 :: u16) < length (om_bytes m)" using assms(2) m(3) by (auto simp: writer_ok_def)
    obtain n w1 where w1: "cntlr_tnsprt_try_2_send_msg_on_line env out m True 0 w = Some ((True, Some n), w1)"
      "unat n = min (taken out) (length (om_bytes m) - unat (0 :: u16))"
      "sent_bytes w1 = sent_bytes w @ take (taken out) (drop (unat (0 :: u16)) (om_bytes m))" "writer_open w1"
      and c: "if (0 :: u16) = 0 \<and> length (om_bytes m) \<le> taken out
         then freed w1 = om_id m # freed w \<and> send_msg_list w1 = send_msg_list w \<and> epoll_wr_enabled w1 = epoll_wr_enabled w
         else freed w1 = freed w \<and> epoll_wr_enabled w1
           \<and> send_msg_list w1 = send_msg_list w @ (if True then [\<lparr>length_sent = n, sb_msg = m, sb_valid = True\<rparr>] else [])"
      using try_calm [OF assms(1) m(2) o(1) m(1) o(2), of True] by metis
    have "exec_write env x w = Some w1"
      using True w1(1) Send by (simp add: exec_write_def cntlr_tnsprt_send_msg_to_dp_channel_def)
    then show thesis
      using that [of w1] True m assms(2) Send w1(2-4) c
      by (cases "length (om_bytes m) \<le> taken out")
        (auto simp: writer_ok_def pending_def node_ok_def waiting_bytes_def)
  next
    case False
    then show thesis
      using that [of "of_add_2_epoll_4_wr_event env m True 0 w"] m assms(1,2) Send
      by (auto simp: exec_write_def cntlr_tnsprt_send_msg_to_dp_channel_def writer_ok_def writer_open_def
          pending_def node_ok_def waiting_bytes_def of_add_2_epoll_4_wr_event_def Let_def)
  qed
qed

lemma run_calm:
  assumes "epoll_ok env"
  shows "writer_ok w \<Longrightarrow> \<forall>x \<in> set xs. calm_op x \<Longrightarrow> \<exists>w'. write_run env xs w = Some w' \<and> writer_ok w'
    \<and> sent_bytes w' @ pending w' = sent_bytes w @ pending w @ concat (map om_bytes (sent_msgs xs))"
proof (induction xs arbitrary: w)
  case Nil
  then show ?case by simp
next
  case (Cons x xs)
  obtain w1 where w1: "exec_write env x w = Some w1" "writer_ok w1"
    "sent_bytes w1 @ pending w1 = sent_bytes w @ pending w @ concat (map om_bytes (sent_msgs [x]))"
    using exec_calm [OF assms Cons.prems(1), of x] Cons.prems(2) by auto
  moreover have "sent_msgs (x # xs) = sent_msgs [x] @ sent_msgs xs" by (cases x) simp_all
  ultimately show ?case
    using Cons.IH [OF w1(2)] Cons.prems(2) by (auto simp flip: append_assoc)
qed

text \<open>
  C23: Whatever is sent over an open channel, however the socket cuts it up or refuses
  it for a while, and whenever it is writable: what the socket has taken followed by what waits is the
  messages in the order they were sent, and the descriptor is polled for writing while something waits.
\<close>

theorem stream_in_order:
  assumes "epoll_ok env" and "writer_open w" and "send_msg_list w = []" and "\<not> epoll_wr_enabled w"
    and "\<forall>x \<in> set xs. calm_op x"
  shows "\<exists>w'. write_run env xs w = Some w'
    \<and> sent_bytes w' @ pending w' = sent_bytes w @ concat (map om_bytes (sent_msgs xs))
    \<and> (epoll_wr_enabled w' \<longleftrightarrow> send_msg_list w' \<noteq> [])"
proof -
  have "writer_ok w" using assms(2-4) by (simp add: writer_ok_def)
  from run_calm [OF assms(1) this assms(5)] assms(3) show ?thesis
    by (auto simp: writer_ok_def pending_def)
qed

definition sample_channel :: cntlr_channel_info_t where
  "sample_channel = \<lparr>auxiliary_id = 0, trnsprt_fd = 7, state = HANDSHAKE_WITH_DP_DONE, fsm_state = BOUND_TO_DP,
     fsm_event = READ_EVENT, msg_state = WAITING_FOR_NEW_MSG, msg_hdr = [], hdr_len_read = 0, msg_len_read = 0,
     msg_buf = None, is_chn_added_to_dp = True, is_chn_added_2_hash_tbl = True, dp_handle = 1, datapath = True,
     recv_bytes = 0, drain_out_bytes = 0, sock = \<lparr>s_data = [], s_end = None, s_again = False\<rparr>,
     main_conn_present = True, invalid_states = 0, closes = 0, delivered = []\<rparr>"

definition sample_writer :: writer where
  "sample_writer = \<lparr>w_channel = sample_channel, send_msg_list = [], epoll_wr_enabled = False, tx_bytes = 0,
     errno_again = False, sent_bytes = [], freed = [], freed_reads = []\<rparr>"

definition sample_write_env :: trnsprt_env where
  "sample_write_env = \<lparr>be_host = False, alloc_message = (\<lambda>_ _. None), fd_dedicated = True, epoll_ok = True, close_ok = True\<rparr>"

definition sample_writes :: "write_op list" where
  "sample_writes = [Send \<lparr>om_id = 1, om_bytes = [4, 2, 0, 8]\<rparr> (Taken 3), Send \<lparr>om_id = 2, om_bytes = [4, 3]\<rparr> Again,
     Writable (\<lambda>i. if i = 0 then Taken 1 else Again)]"

lemma sample_write_ok [simp]:
  "epoll_ok sample_write_env" "writer_open sample_writer" "send_msg_list sample_writer = []"
  "\<not> epoll_wr_enabled sample_writer" "sent_bytes sample_writer = []" "freed sample_writer = []"
  "freed_reads sample_writer = []" "\<forall>x \<in> set sample_writes. calm_op x"
  "map om_bytes (sent_msgs sample_writes) = [[4, 2, 0, 8], [4, 3]]"
  by (simp_all add: sample_channel_def sample_writer_def sample_write_env_def sample_writes_def
      proper_msg_def writer_open_def)

lemma stream_in_order_witness:
  "\<exists>w'. write_run sample_write_env sample_writes sample_writer = Some w'
    \<and> sent_bytes w' @ pending w' = [4, 2, 0, 8, 4, 3]"
  using stream_in_order [of sample_write_env sample_writer sample_writes] by auto

text \<open>
  C35: After any such run, one event at which the socket takes all it is offered sends
  everything that waits: all bytes of all messages are out, and the descriptor is not polled for
  writing any more.
\<close>

theorem waiting_flushed:
  assumes "epoll_ok env" and "writer_open w" and "send_msg_list w = []" and "\<not> epoll_wr_enabled w"
    and "\<forall>x \<in> set xs. calm_op x" and "\<forall>i. calm (outs i) \<and> 65535 \<le> taken (outs i)"
  shows "\<exists>w' w''. write_run env xs w = Some w' \<and> of_send_all_msgs_waiting_on_chn_to_dp env outs w' = Some w''
    \<and> sent_bytes w'' = sent_bytes w @ concat (map om_bytes (sent_msgs xs))
    \<and> send_msg_list w'' = [] \<and> \<not> epoll_wr_enabled w''"
proof -
  have "writer_ok w" using assms(2-4) by (simp add: writer_ok_def)
  from run_calm [OF assms(1) this assms(5)] assms(3) obtain w' where
    w': "write_run env xs w = Some w'" "writer_ok w'"
    "sent_bytes w' @ pending w' = sent_bytes w @ concat (map om_bytes (sent_msgs xs))"
    by (auto simp: pending_def)
  show ?thesis
  proof (cases "send_msg_list w' = []")
    case True
    then show ?thesis
      using w' by (auto simp: of_send_all_msgs_waiting_on_chn_to_dp_def pending_def writer_ok_def)
  next
    case False
    then obtain w1 where "send_waiting env outs 0 None (send_msg_list w') w' = Some w1"
      "sent_bytes w1 @ pending w1 = sent_bytes w' @ pending w'" "send_msg_list w1 = []"
      using waiting_calm [OF assms(1), of outs w' "send_msg_list w'" 0 None] assms(6) w'(2)
      unfolding writer_ok_def by auto
    then show ?thesis
      using w' by (auto simp: of_send_all_msgs_waiting_on_chn_to_dp_def pending_def)
  qed
qed

lemma waiting_flushed_witness:
  "\<exists>w' w''. write_run sample_write_env sample_writes sample_writer = Some w'
    \<and> of_send_all_msgs_waiting_on_chn_to_dp sample_write_env (\<lambda>_. Taken 65535) w' = Some w''
    \<and> sent_bytes w'' = [4, 2, 0, 8, 4, 3]"
  using waiting_flushed [of sample_write_env sample_writer sample_writes "\<lambda>_. Taken 65535"] by auto

section \<open>The release of messages\<close>

lemma add_2_epoll_frees:
  "x \<noteq> om_id m \<Longrightarrow> x \<in> set (freed (of_add_2_epoll_4_wr_event env m new n w)) \<longleftrightarrow> x \<in> set (freed w)"
  "freed_reads (of_add_2_epoll_4_wr_event env m new n w) = freed_reads w"
  by (simp_all add: of_add_2_epoll_4_wr_event_def of_check_pkt_mbuf_and_free_def Let_def)

lemma write_frees:
  "fsm_xprt_proto_channel_write_msg_to_dp env out m off w = Some (r, w') \<Longrightarrow>
    freed w' = freed w \<and> freed_reads w' = freed_reads w"
  by (auto simp: fsm_xprt_proto_channel_write_msg_to_dp_def tcp_transport_write_data_def Let_def
      split: if_splits send_outcome.splits)

lemma try_frees:
  "cntlr_tnsprt_try_2_send_msg_on_line env out m new off w = Some (r, w') \<Longrightarrow>
    (x \<noteq> om_id m \<longrightarrow> (x \<in> set (freed w') \<longleftrightarrow> x \<in> set (freed w))) \<and> freed_reads w' = freed_reads w"
  by (auto simp: cntlr_tnsprt_try_2_send_msg_on_line_def bind_eq_Some_conv add_2_epoll_frees
      of_check_pkt_mbuf_and_free_def dest!: write_frees split: if_splits)

text \<open>The loop touches only the messages that wait.\<close>

lemma waiting_frees:
  "send_waiting env outs i len bs w = Some w' \<Longrightarrow> x \<notin> om_id ` sb_msg ` set bs \<Longrightarrow>
    (x \<in> set (freed w') \<longleftrightarrow> x \<in> set (freed w)) \<and> (x \<in> set (freed_reads w') \<longleftrightarrow> x \<in> set (freed_reads w))
    \<and> (send_msg_list w = bs \<longrightarrow> x \<notin> om_id ` sb_msg ` set (send_msg_list w'))"
proof (induction bs arbitrary: i len w)
  case Nil
  then show ?case by simp
next
  case (Cons b bs)
  then obtain ok l w1 where t: "cntlr_tnsprt_try_2_send_msg_on_line env (outs i) (sb_msg b) False (length_sent b) w
      = Some ((ok, l), w1)" by (auto simp: bind_eq_Some_conv split: if_splits)
  from try_frees [OF t, of x] Cons t show ?case
    by (fastforce simp: Let_def split: if_splits option.splits)
qed

text \<open>
  A message that waits and then goes out completely is released exactly when nothing
  of it had been sent before, and then it is still read behind its release; otherwise it is taken off
  the list without being released, and is lost.
\<close>

theorem waiting_release:
  assumes "epoll_ok env" and "writer_ok w" and "send_msg_list w = b # bs" and "\<forall>i. calm (outs i)"
    and "length (waiting_bytes b) \<le> taken (outs 0)" and "om_id (sb_msg b) \<notin> set (freed w) \<union> set (freed_reads w)"
    and "om_id (sb_msg b) \<notin> om_id ` sb_msg ` set bs"
  shows "\<exists>w'. of_send_all_msgs_waiting_on_chn_to_dp env outs w = Some w'
    \<and> om_id (sb_msg b) \<notin> om_id ` sb_msg ` set (send_msg_list w')
    \<and> (om_id (sb_msg b) \<in> set (freed w') \<longleftrightarrow> length_sent b = 0)
    \<and> (om_id (sb_msg b) \<in> set (freed_reads w') \<longleftrightarrow> length_sent b = 0)"
proof -
  let ?x = "om_id (sb_msg b)"
  have o: "writer_open w" "epoll_wr_enabled w" "node_ok b" "\<forall>b \<in> set bs. node_ok b"
    using assms(2,3) by (auto simp: writer_ok_def)
  obtain w1 where w1: "writer_open w1" "epoll_wr_enabled w1"
    "send_waiting env outs 0 None (b # bs) w = send_waiting env outs (Suc 0) (Some (of_nat (length (waiting_bytes b)))) bs
       (w1\<lparr>send_msg_list := bs\<rparr>)"
    "length_sent b = 0 \<longrightarrow> freed w1 = ?x # freed w \<and> freed_reads w1 = ?x # freed_reads w"
    "length_sent b \<noteq> 0 \<longrightarrow> freed w1 = freed w \<and> freed_reads w1 = freed_reads w"
    using round_calm [OF assms(1,4) o(1-3), of 0 None bs] assms(5,6) by auto
  have "writer_open (w1\<lparr>send_msg_list := bs\<rparr>)" using w1(1) by (simp add: writer_open_def)
  from waiting_calm [OF assms(1,4) this _ o(4), of "Suc 0" "Some (of_nat (length (waiting_bytes b)))"] w1(2)
  obtain w2 where w2: "send_waiting env outs (Suc 0) (Some (of_nat (length (waiting_bytes b)))) bs
       (w1\<lparr>send_msg_list := bs\<rparr>) = Some w2" by auto
  from waiting_frees [OF w2 assms(7)] w1(3-5) assms(3,6) w2 show ?thesis
    by (cases "length_sent b = 0")
      (auto simp: of_send_all_msgs_waiting_on_chn_to_dp_def simp del: send_waiting.simps)
qed

definition waiting_writer :: "u16 \<Rightarrow> writer" where
  "waiting_writer n = sample_writer\<lparr>epoll_wr_enabled := True,
     send_msg_list := [\<lparr>length_sent = n, sb_msg = \<lparr>om_id = 1, om_bytes = [4, 2, 0, 8]\<rparr>, sb_valid = True\<rparr>]\<rparr>"

lemma waiting_release_witness:
  "(\<exists>w'. of_send_all_msgs_waiting_on_chn_to_dp sample_write_env (\<lambda>_. Taken 9) (waiting_writer 0) = Some w'
     \<and> 1 \<in> set (freed w') \<and> 1 \<in> set (freed_reads w'))
   \<and> (\<exists>w'. of_send_all_msgs_waiting_on_chn_to_dp sample_write_env (\<lambda>_. Taken 9) (waiting_writer 3) = Some w'
     \<and> 1 \<notin> set (freed w') \<and> 1 \<notin> om_id ` sb_msg ` set (send_msg_list w'))"
proof -
  have "writer_ok (waiting_writer n)" if "unat n < 4" for n
    using that sample_write_ok(2) by (simp add: waiting_writer_def writer_ok_def node_ok_def proper_msg_def writer_open_def)
  from this [of 0] this [of 3] show ?thesis
    using waiting_release [of sample_write_env "waiting_writer 0" _ "[]" "\<lambda>_. Taken 9"]
      waiting_release [of sample_write_env "waiting_writer 3" _ "[]" "\<lambda>_. Taken 9"]
    by (fastforce simp: waiting_writer_def waiting_bytes_def)
qed

text \<open>A failure of the first message that waits leaves \<open>len_sent_currently\<close> without a value.\<close>

lemma waiting_failed:
  assumes "writer_open w" and "send_msg_list w = b # bs" and "sb_valid b" and "outs 0 = Failed"
  shows "of_send_all_msgs_waiting_on_chn_to_dp env outs w = None"
  using assms by (simp add: of_send_all_msgs_waiting_on_chn_to_dp_def cntlr_tnsprt_try_2_send_msg_on_line_def
      fsm_xprt_proto_channel_write_msg_to_dp_def tcp_transport_write_data_def writer_open_def write_failed_event)

text \<open>A failed message is released before the failure is returned; several callers release it again.\<close>

lemma failed_message_released:
  assumes "writer_open w" and "send_msg_list w = []"
  shows "\<exists>w'. cntlr_tnsprt_send_msg_to_dp_channel env Failed m True 0 w = Some (False, w')
    \<and> freed w' = om_id m # freed w"
  using assms by (simp add: cntlr_tnsprt_send_msg_to_dp_channel_def cntlr_tnsprt_try_2_send_msg_on_line_def
      fsm_xprt_proto_channel_write_msg_to_dp_def tcp_transport_write_data_def writer_open_def write_failed_event
      of_check_pkt_mbuf_and_free_def)

end
