(* ===== verification/Reply.thy ===== *)
theory Reply
  imports Instructions MatchFields MatchParse
begin

text \<open>
  Reading actions back from a reply of a datapath: \<open>of_group_frame_action_response\<close> and
  \<open>of_group_frame_action_setField_response\<close> of \<open>of_action.c\<close>.  The group, flow and object
  statistics handlers call them on the bytes of the received message.  An action is a fresh zeroed
  \<open>struct ofi_action\<close>; a pointer into the message is an address, and reading behind the message reads
  whatever memory holds there.  The host is little endian: a field that is not converted is read
  with its bytes reversed.
\<close>

section \<open>Fields of received structures\<close>

definition be16_at :: "memory \<Rightarrow> nat \<Rightarrow> u16" where "be16_at m a = of_be (read_bytes a 2 m)"
definition be32_at :: "memory \<Rightarrow> nat \<Rightarrow> u32" where "be32_at m a = of_be (read_bytes a 4 m)"
definition be64_at :: "memory \<Rightarrow> nat \<Rightarrow> u64" where "be64_at m a = of_be (read_bytes a 8 m)"
definition raw16_at :: "memory \<Rightarrow> nat \<Rightarrow> u16" where "raw16_at m a = of_be (rev (read_bytes a 2 m))"
definition raw32_at :: "memory \<Rightarrow> nat \<Rightarrow> u32" where "raw32_at m a = of_be (rev (read_bytes a 4 m))"
definition raw64_at :: "memory \<Rightarrow> nat \<Rightarrow> u64" where "raw64_at m a = of_be (rev (read_bytes a 8 m))"

text \<open>The members that hold a field's value, common to actions and match fields.\<close>

record reply_value =
  ui8_data :: u8
  ui16_data :: u16
  ui32_data :: u32
  ui64_data :: u64
  ui8_data_array :: "u8 list"

record ofi_action = reply_value +
  act_type :: u16
  act_sub_type :: u16
  act_port_no :: u32
  act_max_len :: u16
  act_ttl :: u8
  act_ether_type :: u16
  act_queue_id :: u32
  act_group_id :: u32
  act_vendorid :: u32
  act_setfield_type :: u8
  act_src_offset :: u16
  act_dst_offset :: u16
  act_oxm_src :: u32
  act_oxm_dst :: u32

definition calloc_action :: ofi_action where
  "calloc_action = \<lparr>ui8_data = 0, ui16_data = 0, ui32_data = 0, ui64_data = 0,
     ui8_data_array = replicate 6 0, act_type = 0, act_sub_type = 0, act_port_no = 0,
     act_max_len = 0, act_ttl = 0, act_ether_type = 0, act_queue_id = 0, act_group_id = 0,
     act_vendorid = 0, act_setfield_type = 0, act_src_offset = 0, act_dst_offset = 0,
     act_oxm_src = 0, act_oxm_dst = 0\<rparr>"

definition OFPAT_EXPERIMENTER :: u16 where "OFPAT_EXPERIMENTER = 0xffff"

section \<open>The value of a field\<close>

text \<open>
  The switch over the field number, the same in both readers: which member the bytes behind the
  OXM header are read into.  The IPv6 addresses, the neighbour discovery fields and the extension
  header have empty cases.
\<close>

definition read_oxm_value :: "memory \<Rightarrow> nat \<Rightarrow> u32 \<Rightarrow> 'a reply_value_scheme \<Rightarrow> 'a reply_value_scheme" where
  "read_oxm_value m msg field_type e =
     (if field_type \<in> {OFPXMT_OFB_IN_PORT, OFPXMT_OFB_IN_PHY_PORT, OFPXMT_OFB_IPV4_SRC,
           OFPXMT_OFB_IPV4_DST, OFPXMT_OFB_MPLS_LABEL, OFPXMT_OFB_ARP_SPA, OFPXMT_OFB_ARP_TPA,
           OFPXMT_OFB_IPV6_FLABEL}
      then e\<lparr>ui32_data := be32_at m (msg + OF_OXM_HDR_LEN)\<rparr>
      else if field_type \<in> {OFPXMT_OFB_METADATA, OFPXMT_OFB_TUNNEL_ID}
      then e\<lparr>ui64_data := be64_at m (msg + OF_OXM_HDR_LEN)\<rparr>
      else if field_type \<in> {OFPXMT_OFB_ETH_DST, OFPXMT_OFB_ETH_SRC, OFPXMT_OFB_ARP_SHA,
           OFPXMT_OFB_ARP_THA}
      then e\<lparr>ui8_data_array := read_bytes (msg + OF_OXM_HDR_LEN) 6 m\<rparr>
      else if field_type \<in> {OFPXMT_OFB_ETH_TYPE, OFPXMT_OFB_VLAN_VID, OFPXMT_OFB_TCP_SRC,
           OFPXMT_OFB_TCP_DST, OFPXMT_OFB_UDP_SRC, OFPXMT_OFB_UDP_DST, OFPXMT_OFB_SCTP_SRC,
           OFPXMT_OFB_SCTP_DST, OFPXMT_OFB_ARP_OP}
      then e\<lparr>ui16_data := be16_at m (msg + OF_OXM_HDR_LEN)\<rparr>
      else if field_type \<in> {OFPXMT_OFB_IP_PROTO, OFPXMT_OFB_ICMPV4_TYPE, OFPXMT_OFB_ICMPV4_CODE,
           OFPXMT_OFB_MPLS_TC, OFPXMT_OFB_MPLS_BOS, OFPXMT_OFB_PBB_ISID, OFPXMT_OFB_VLAN_PCP,
           OFPXMT_OFB_IP_DSCP, OFPXMT_OFB_IP_ECN, OFPXMT_OFB_ICMPV6_TYPE, OFPXMT_OFB_ICMPV6_CODE}
      then e\<lparr>ui8_data := m (msg + OF_OXM_HDR_LEN)\<rparr>
      else e)"

definition of_group_frame_action_setField_response ::
  "memory \<Rightarrow> nat \<Rightarrow> ofi_action \<Rightarrow> ofi_action" where
  "of_group_frame_action_setField_response m msg action_entry =
     (let field_type = drop_bit 1 (m (msg + 2)) in
      read_oxm_value m msg (ucast field_type) (action_entry\<lparr>act_setfield_type := field_type\<rparr>))"

section \<open>Experimenter actions\<close>

definition FSLXAT_DETACH_BIND_OBJ :: u16 where "FSLXAT_DETACH_BIND_OBJ = 2"
definition FSLXAT_SEND_APP_STATE_INFO :: u16 where "FSLXAT_SEND_APP_STATE_INFO = 8"
definition FSLXAT_BIND_OBJECT_APPLY_ACTIONS :: u16 where "FSLXAT_BIND_OBJECT_APPLY_ACTIONS = 9"
definition FSLXAT_SET_PHY_PORT_FIELD_CNTXT :: u16 where "FSLXAT_SET_PHY_PORT_FIELD_CNTXT = 11"
definition FSLXAT_SET_META_DATA_FIELD_CNTXT :: u16 where "FSLXAT_SET_META_DATA_FIELD_CNTXT = 12"
definition FSLXAT_SET_TUNNEL_ID_FIELD_CNTXT :: u16 where "FSLXAT_SET_TUNNEL_ID_FIELD_CNTXT = 13"
definition FSLXAT_ARP_RESPONSE :: u16 where "FSLXAT_ARP_RESPONSE = 15"
definition FSLXAT_WRITE_METADATA_FROM_PKT :: u16 where "FSLXAT_WRITE_METADATA_FROM_PKT = 16"
definition FSLXAT_START_TABLE :: u16 where "FSLXAT_START_TABLE = 19"
definition FSLXAT_IP_FRAGMENT :: u16 where "FSLXAT_IP_FRAGMENT = 21"
definition FSLXAT_SEND_ICMPV4_TIME_EXCEED :: u16 where "FSLXAT_SEND_ICMPV4_TIME_EXCEED = 22"
definition FSLXAT_SEND_ICMPV4_DEST_UNREACHABLE :: u16 where "FSLXAT_SEND_ICMPV4_DEST_UNREACHABLE = 23"
definition FSLXAT_WRITE_META_DATA :: u16 where "FSLXAT_WRITE_META_DATA = 30"
definition NXAST_REG_LOAD :: u16 where "NXAST_REG_LOAD = 900"
definition NXAST_COPY_FIELD :: u16 where "NXAST_COPY_FIELD = 901"
definition FSLX_ICMPV4_DR_EC_DFBIT_SET :: u8 where "FSLX_ICMPV4_DR_EC_DFBIT_SET = 4"

definition NXM_FIELD :: "u32 \<Rightarrow> u32" where "NXM_FIELD header = drop_bit 9 header AND 0x7f"

text \<open>
  The members of the action structures, none of them converted.  The other subtypes have empty cases.
  The eight byte integer takes six bytes of the MAC address.
\<close>

definition read_experimenter_body :: "memory \<Rightarrow> nat \<Rightarrow> u16 \<Rightarrow> ofi_action \<Rightarrow> ofi_action" where
  "read_experimenter_body m msg subtype e =
     (if subtype = FSLXAT_ARP_RESPONSE
      then e\<lparr>ui64_data := of_be (rev (read_bytes (msg + 10) 6 m))\<rparr>
      else if subtype = FSLXAT_IP_FRAGMENT then e\<lparr>ui32_data := raw32_at m (msg + 16)\<rparr>
      else if subtype = FSLXAT_SEND_ICMPV4_DEST_UNREACHABLE
      then (let e = e\<lparr>ui8_data := m (msg + 10)\<rparr> in
            if m (msg + 10) = FSLX_ICMPV4_DR_EC_DFBIT_SET
            then e\<lparr>ui16_data := raw16_at m (msg + 12)\<rparr> else e)
      else if subtype = FSLXAT_SEND_ICMPV4_TIME_EXCEED then e\<lparr>ui8_data := m (msg + 10)\<rparr>
      else if subtype = FSLXAT_SET_PHY_PORT_FIELD_CNTXT then e\<lparr>ui32_data := raw32_at m (msg + 12)\<rparr>
      else if subtype = FSLXAT_SET_META_DATA_FIELD_CNTXT then e\<lparr>ui64_data := raw64_at m (msg + 16)\<rparr>
      else if subtype = FSLXAT_SET_TUNNEL_ID_FIELD_CNTXT then e\<lparr>ui64_data := raw64_at m (msg + 16)\<rparr>
      else if subtype = FSLXAT_START_TABLE then e\<lparr>ui8_data := m (msg + 10)\<rparr>
      else if subtype = FSLXAT_WRITE_METADATA_FROM_PKT
      then e\<lparr>ui32_data := raw32_at m (msg + 12), ui64_data := raw64_at m (msg + 16)\<rparr>
      else if subtype = FSLXAT_WRITE_META_DATA then e\<lparr>ui64_data := raw64_at m (msg + 16)\<rparr>
      else if subtype = FSLXAT_DETACH_BIND_OBJ then e\<lparr>ui32_data := raw32_at m (msg + 12)\<rparr>
      else if subtype = FSLXAT_SEND_APP_STATE_INFO
      then e\<lparr>ui8_data := m (msg + 10), ui16_data := ucast (m (msg + 11)),
             ui64_data := raw64_at m (msg + 16)\<rparr>
      else if subtype = FSLXAT_BIND_OBJECT_APPLY_ACTIONS then e\<lparr>ui32_data := raw32_at m (msg + 12)\<rparr>
      else if subtype = NXAST_REG_LOAD
      then e\<lparr>ui8_data := ucast (raw16_at m (msg + 10) AND 0x3f) + 1,
             ui16_data := drop_bit 6 (raw16_at m (msg + 10)),
             ui32_data := NXM_FIELD (raw32_at m (msg + 12)), ui64_data := raw64_at m (msg + 16)\<rparr>
      else if subtype = NXAST_COPY_FIELD
      then e\<lparr>ui16_data := raw16_at m (msg + 10), act_src_offset := raw16_at m (msg + 12),
             act_dst_offset := raw16_at m (msg + 14), act_oxm_src := raw32_at m (msg + 16),
             act_oxm_dst := raw32_at m (msg + 20)\<rparr>
      else e)"

section \<open>One action\<close>

text \<open>
  Returns the entry and the advanced length.  The vendor, a 32 bit number, goes through the 16 bit
  conversion, and the subtype that selects the members is the unconverted one.
\<close>

definition of_group_frame_action_response :: "memory \<Rightarrow> nat \<Rightarrow> u32 \<Rightarrow> ofi_action \<times> u32" where
  "of_group_frame_action_response m msg len =
     (let ty = be16_at m msg;
          e = calloc_action\<lparr>act_type := ty\<rparr>
      in
      if ty = OFPAT_OUTPUT
      then (e\<lparr>act_port_no := be32_at m (msg + 4), act_max_len := be16_at m (msg + 8)\<rparr>, len + 16)
      else if ty = OFPAT_COPY_TTL_OUT then (e, len + 8)
      else if ty = OFPAT_COPY_TTL_IN then (e, len + 8)
      else if ty = OFPAT_SET_MPLS_TTL then (e\<lparr>act_ttl := m (msg + 4)\<rparr>, len + 8)
      else if ty = OFPAT_DEC_MPLS_TTL then (e, len + 8)
      else if ty = OFPAT_PUSH_VLAN then (e\<lparr>act_ether_type := be16_at m (msg + 4)\<rparr>, len + 8)
      else if ty = OFPAT_POP_VLAN then (e, len + 8)
      else if ty = OFPAT_PUSH_MPLS then (e\<lparr>act_ether_type := be16_at m (msg + 4)\<rparr>, len + 8)
      else if ty = OFPAT_POP_MPLS then (e\<lparr>act_ether_type := be16_at m (msg + 4)\<rparr>, len + 8)
      else if ty = OFPAT_SET_QUEUE then (e, len + 8)
      else if ty = OFPAT_GROUP then (e\<lparr>act_group_id := be32_at m (msg + 4)\<rparr>, len + 8)
      else if ty = OFPAT_SET_NW_TTL then (e\<lparr>act_ttl := m (msg + 4)\<rparr>, len + 8)
      else if ty = OFPAT_DEC_NW_TTL then (e, len + 8)
      else if ty = OFPAT_SET_FIELD
      then (of_group_frame_action_setField_response m (msg + 4) e, len + ucast (be16_at m (msg + 2)))
      else if ty = OFPAT_PUSH_PBB then (e\<lparr>act_ether_type := be16_at m (msg + 4)\<rparr>, len + 8)
      else if ty = OFPAT_POP_PBB then (e, len + 8)
      else if ty = OFPAT_EXPERIMENTER
      then (read_experimenter_body m msg (raw16_at m (msg + 8))
              (e\<lparr>act_vendorid := ucast (be16_at m (msg + 4)), act_sub_type := be16_at m (msg + 8)\<rparr>),
            len + ucast (be16_at m (msg + 2)))
      else (e, len + ucast (be16_at m (msg + 2))))"


section \<open>A sequence of elements\<close>

text \<open>
  The loops that read a list of elements have one form: a 32 bit count of the bytes that are left, a
  pointer, and a reader that allocates an entry and says how many bytes to move on.  The loop ends
  when the count is exactly 0; \<open>None\<close> is a loop that does not return.  \<open>Inl\<close> is a write behind the
  end of an entry, whose effect is not modelled.
\<close>

datatype overrun = Mask_overrun

partial_function (option) read_elements ::
  "(memory \<Rightarrow> nat \<Rightarrow> (overrun + 'e \<times> nat) option) \<Rightarrow> memory \<Rightarrow> nat \<Rightarrow> u32 \<Rightarrow>
     (overrun + 'e list \<times> nat) option" where
  "read_elements read m msg len =
     (if len = 0 then Some (Inr ([], msg))
      else Option.bind (read m msg) (\<lambda>r. case r of
             Inl x \<Rightarrow> Some (Inl x)
           | Inr (e, n) \<Rightarrow>
               Option.bind (read_elements read m (msg + n) (len - of_nat n)) (\<lambda>r'. case r' of
                   Inl x \<Rightarrow> Some (Inl x)
                 | Inr (es, msg') \<Rightarrow> Some (Inr (e # es, msg')))))"

text \<open>What the loops rely on: the reader reads back what an encoder wrote.\<close>

locale element_reader =
  fixes read :: "memory \<Rightarrow> nat \<Rightarrow> (overrun + 'e \<times> nat) option"
    and enc :: "'c \<Rightarrow> u8 list"
    and entry :: "'c \<Rightarrow> 'e"
    and ok :: "'c \<Rightarrow> bool"
  assumes read_enc: "ok c \<Longrightarrow> holds m p (enc c) \<Longrightarrow> read m p = Some (Inr (entry c, length (enc c)))"
    and enc_nonempty: "ok c \<Longrightarrow> 0 < length (enc c)"
begin

lemma read_all:
  assumes "\<forall>c \<in> set cs. ok c" and "holds m p (encoding enc cs)"
    and "length (encoding enc cs) < 4294967296"
  shows "read_elements read m p (of_nat (length (encoding enc cs)))
    = Some (Inr (map entry cs, p + length (encoding enc cs)))"
  using assms
proof (induction cs arbitrary: p)
  case Nil
  then show ?case by (simp add: read_elements.simps)
next
  case (Cons c cs)
  let ?n = "of_nat (length (encoding enc (c # cs))) :: u32"
  have "unat ?n = length (encoding enc (c # cs))"
    using Cons.prems(3) by (simp add: unat_of_nat take_bit_nat_eq_self del: encoding_simps)
  then have n: "?n \<noteq> 0" using enc_nonempty [of c] Cons.prems(1) by (auto simp del: of_nat_add)
  have "?n - of_nat (length (enc c)) = of_nat (length (encoding enc cs))" by simp
  moreover have "holds m p (enc c)" "holds m (p + length (enc c)) (encoding enc cs)"
    using Cons.prems(2) by (simp_all add: holds_append)
  ultimately show ?case
    using Cons.IH [of "p + length (enc c)"] Cons.prems n read_enc [of c m p]
    by (subst read_elements.simps) simp
qed

lemma read_ahead:
  assumes "\<forall>c \<in> set cs. ok c" and "holds m p (encoding enc cs)"
    and "length (encoding enc cs) + unat n < 4294967296"
    and "read_elements read m (p + length (encoding enc cs)) n = None"
  shows "read_elements read m p (of_nat (length (encoding enc cs)) + n) = None"
  using assms
proof (induction cs arbitrary: p)
  case (Cons c cs)
  let ?l = "length (encoding enc (c # cs))"
  have "unat (of_nat ?l + n) = ?l + unat n"
    using Cons.prems(3) by (metis of_nat_add of_nat_unat ucast_id unat_of_nat_u32)
  moreover define N where "N = of_nat ?l + n"
  ultimately have "N \<noteq> 0" using enc_nonempty [of c] Cons.prems(1) by auto
  moreover have "N - of_nat (length (enc c)) = of_nat (length (encoding enc cs)) + n"
    by (simp add: N_def)
  moreover have "read_elements read m (p + length (enc c)) (of_nat (length (encoding enc cs)) + n) = None"
    using Cons.IH [of "p + length (enc c)"] Cons.prems by (simp add: holds_append add.assoc)
  ultimately have "read_elements read m p N = None"
    using Cons.prems(1,2) read_enc [of c m p]
    by (subst read_elements.simps) (simp add: holds_append)
  then show ?case by (simp only: N_def)
qed simp

end

text \<open>An element that does not advance is read for ever.\<close>

lemma read_elements_stuck:
  assumes "read m p = Some (Inr (e, 0))" and "n \<noteq> 0"
  shows "read_elements read m p n = None"
proof (cases "read_elements read m p n")
  case (Some r)
  have "read m p = Some (Inr (e, 0)) \<longrightarrow> n = 0"
    by (rule read_elements.raw_induct [OF _ Some, where P = "\<lambda>read m p n r. read m p = Some (Inr (e, 0)) \<longrightarrow> n = 0"])
      (auto split: if_splits bind_splits)
  then show ?thesis using assms by simp
qed

section \<open>The value of a field in the entry\<close>

text \<open>The width of each field in OpenFlow 1.3.\<close>

definition oxm_width :: "nat \<Rightarrow> nat" where
  "oxm_width f = [4, 4, 8, 6, 6, 2, 2, 1, 1, 1, 1, 4, 4, 2, 2, 2, 2, 2, 2, 1,
                  1, 2, 4, 4, 6, 6, 16, 16, 4, 1, 1, 16, 6, 6, 4, 1, 1, 3, 8, 2] ! f"

text \<open>A value goes into the member of its width.\<close>

definition value_entry :: "u8 list \<Rightarrow> 'a reply_value_scheme \<Rightarrow> 'a reply_value_scheme" where
  "value_entry v e =
     (if length v = 1 then e\<lparr>ui8_data := hd v\<rparr>
      else if length v = 2 then e\<lparr>ui16_data := of_be v\<rparr>
      else if length v = 4 then e\<lparr>ui32_data := of_be v\<rparr>
      else if length v = 6 then e\<lparr>ui8_data_array := v\<rparr>
      else e\<lparr>ui64_data := of_be v\<rparr>)"

text \<open>
  The fields that the readers keep: not the IPv6 addresses, the three fields of neighbour discovery and
  the extension header, whose cases are empty, and not the I-SID, of which they take one byte.
\<close>

definition kept_field :: "nat \<Rightarrow> bool" where
  "kept_field f \<longleftrightarrow> f < 40 \<and> f \<notin> {26, 27, 31, 32, 33, 37, 39}"

lemma holds_first: "holds m p v \<Longrightarrow> 0 < length v \<Longrightarrow> m p = hd v"
  using holds_nth [of m p v p] by (simp add: hd_conv_nth)

lemma at_holds:
  assumes "holds m p v"
  shows "length v = 2 \<Longrightarrow> be16_at m p = of_be v" "length v = 4 \<Longrightarrow> be32_at m p = of_be v"
    "length v = 8 \<Longrightarrow> be64_at m p = of_be v"
  using assms by (auto simp: be16_at_def be32_at_def be64_at_def holds_def)

lemma below_40: "f < 40 \<longleftrightarrow> f \<in> set [0::nat, 1, 2, 3, 4, 5, 6, 7, 8, 9, 10, 11, 12, 13, 14, 15, 16, 17, 18, 19,
    20, 21, 22, 23, 24, 25, 26, 27, 28, 29, 30, 31, 32, 33, 34, 35, 36, 37, 38, 39]"
proof -
  have "[0..<40] = [0::nat, 1, 2, 3, 4, 5, 6, 7, 8, 9, 10, 11, 12, 13, 14, 15, 16, 17, 18, 19,
    20, 21, 22, 23, 24, 25, 26, 27, 28, 29, 30, 31, 32, 33, 34, 35, 36, 37, 38, 39]"
    by (simp add: upt_rec)
  then show ?thesis by (metis atLeastLessThan_iff set_upt zero_le)
qed

lemma read_oxm_value_kept:
  assumes "kept_field f" and "length v = oxm_width f" and "holds m (p + 4) v"
  shows "read_oxm_value m p (of_nat f) e = value_entry v e"
proof -
  have "f \<in> set [0, 1, 2, 3, 4, 5, 6, 7, 8, 9, 10, 11, 12, 13, 14, 15, 16, 17, 18, 19,
    20, 21, 22, 23, 24, 25, 26, 27, 28, 29, 30, 31, 32, 33, 34, 35, 36, 37, 38, 39]"
    using assms(1) unfolding kept_field_def below_40 by blast
  then show ?thesis
    using assms(1,2) at_holds [OF assms(3)] holds_first [OF assms(3)] assms(3)
    unfolding list.set
    by (elim insertE emptyE)
      (simp_all add: read_oxm_value_def value_entry_def kept_field_def oxm_width_def layout_simps OF_OXM_HDR_LEN_def
        holds_def)
qed

section \<open>Reading back the actions that are sent\<close>

text \<open>The entry of an action: its type, and its numbers in the members that are named after them.\<close>

primrec action_entry :: "action_call \<Rightarrow> ofi_action" where
  "action_entry (Output p n) = calloc_action\<lparr>act_type := 0, act_port_no := p,
     act_max_len := n\<rparr>"
| "action_entry (Group g) = calloc_action\<lparr>act_type := 22, act_group_id := g\<rparr>"
| "action_entry (Set_queue q) = calloc_action\<lparr>act_type := 21, act_queue_id := q\<rparr>"
| "action_entry (Set_mpls_ttl t) = calloc_action\<lparr>act_type := 15, act_ttl := t\<rparr>"
| "action_entry Dec_mpls_ttl = calloc_action\<lparr>act_type := 16\<rparr>"
| "action_entry (Set_ipv4_ttl t) = calloc_action\<lparr>act_type := 23, act_ttl := t\<rparr>"
| "action_entry Dec_ipv4_ttl = calloc_action\<lparr>act_type := 24\<rparr>"
| "action_entry (Push_pbb e) = calloc_action\<lparr>act_type := 26, act_ether_type := e\<rparr>"
| "action_entry Pop_pbb = calloc_action\<lparr>act_type := 27\<rparr>"
| "action_entry (Push_mpls e) = calloc_action\<lparr>act_type := 19, act_ether_type := e\<rparr>"
| "action_entry (Pop_mpls e) = calloc_action\<lparr>act_type := 20, act_ether_type := e\<rparr>"
| "action_entry (Push_vlan e) = calloc_action\<lparr>act_type := 17, act_ether_type := e\<rparr>"
| "action_entry Pop_vlan = calloc_action\<lparr>act_type := 18\<rparr>"
| "action_entry Copy_ttl_inward = calloc_action\<lparr>act_type := 12\<rparr>"
| "action_entry Copy_ttl_outward = calloc_action\<lparr>act_type := 11\<rparr>"
| "action_entry (Set_field c) = value_entry (snd (set_field_value c))
     (calloc_action\<lparr>act_type := 25, act_setfield_type := of_nat (fst (set_field_value c))\<rparr>)"

text \<open>
  The actions that are read in full: not the set-queue action, whose queue is not read, and only the set-field
  actions of fields that are kept.  The encoding stands for an output action with a length; of the length
  zero it makes 128.
\<close>

definition readable_action :: "action_call \<Rightarrow> bool" where
  "readable_action c = (case c of Set_field s \<Rightarrow> wf_set_field s \<and> kept_field (fst (set_field_value s))
     | Output p n \<Rightarrow> n \<noteq> 0 | Set_queue q \<Rightarrow> False | _ \<Rightarrow> True)"

lemma at_wire:
  assumes "holds m p (wire_bytes (Wire t b))"
  shows "be16_at m p = t" "be16_at m (p + 2) = of_nat (4 + length b)" "holds m (p + 4) b"
  using assms at_holds(1) [of m p "be16 t"] at_holds(1) [of m "p + 2" "be16 (of_nat (4 + length b))"]
  by (simp_all add: holds_append ac_simps del: of_nat_add)

lemma reads_back:
  "holds m p (be16 x @ ys) \<Longrightarrow> be16_at m p = x" "holds m p (be32 y @ ys) \<Longrightarrow> be32_at m p = y"
  "holds m p (be64 z @ ys) \<Longrightarrow> be64_at m p = z" "holds m p (be32 y) \<Longrightarrow> be32_at m p = y"
  "holds m p (b # ys) \<Longrightarrow> m p = b"
  using at_holds [of m p "be16 x"] at_holds [of m p "be32 y"] at_holds [of m p "be64 z"]
    holds_first [of m p "b # ys"]
  by (simp_all add: holds_append)

lemma set_field_width:
  "wf_set_field c \<Longrightarrow> fst (set_field_value c) < 40
     \<and> length (snd (set_field_value c)) = oxm_width (fst (set_field_value c))"
  by (cases c) (simp_all add: wf_set_field_def oxm_width_def)

lemma oxm_unmasked_at:
  assumes "holds m p (oxm_bytes (Oxm f v None) @ ys)" and "f < 128"
  shows "drop_bit 1 (m (p + 2)) = of_nat f" and "holds m (p + 4) v"
proof -
  have b: "oxm_bytes (Oxm f v None) = [0x80, 0, of_nat (2 * f), of_nat (length v)] @ v"
    by (simp add: oxm_header_bytes_def)
  then have "m (p + 2) = of_nat (2 * f)"
    using holds_nth [OF assms(1), of "p + 2"] by simp
  moreover have "unat (drop_bit 1 (of_nat (2 * f) :: u8)) = unat (of_nat f :: u8)"
    unfolding unat_drop_bit_eq using assms(2) by (simp add: drop_bit_eq_div del: of_nat_mult)
  ultimately show "drop_bit 1 (m (p + 2)) = of_nat f" by (metis unsigned_word_eqI)
  show "holds m (p + 4) v" using assms(1) unfolding b append_assoc holds_append [of m p "[_, _, _, _]"]
    by (simp add: holds_append numeral_eq_Suc)
qed

lemma ucast_of_nat_u8:
  assumes "n < 256"
  shows "ucast (of_nat n :: u8) = (of_nat n :: u32)"
proof -
  have "unat (ucast (of_nat n :: u8) :: u32) = unat (of_nat n :: u32)"
    using assms by (simp add: unsigned_ucast_eq unat_of_nat take_bit_nat_eq_self)
  then show ?thesis by (rule unsigned_word_eqI)
qed

lemma ucast_of_nat_u16:
  assumes "n < 65536"
  shows "ucast (of_nat n :: u16) = (of_nat n :: u32)"
proof -
  have "unat (ucast (of_nat n :: u16) :: u32) = unat (of_nat n :: u32)"
    using assms by (simp add: unsigned_ucast_eq unat_of_nat take_bit_nat_eq_self)
  then show ?thesis by (rule unsigned_word_eqI)
qed

lemma set_field_read:
  assumes "wf_set_field c" and "holds m p (action_enc (Set_field c))" and "kept_field (fst (set_field_value c))"
  shows "of_group_frame_action_response m p n
    = (action_entry (Set_field c), n + of_nat (length (action_enc (Set_field c))))"
proof -
  let ?f = "fst (set_field_value c)" and ?v = "snd (set_field_value c)"
  note w = at_wire [OF assms(2) [unfolded action_enc_def action_wire.simps]]
  have f: "?f < 40" "?f < 128" and v: "length ?v = oxm_width ?f"
    using set_field_width [OF assms(1)] by simp_all
  have len: "length (action_enc (Set_field c)) < 65536"
    using action_sizes(4) [of "Set_field c"] assms(1)
    by (simp add: wf_action_def action_enc_def)
  have ft: "ucast (of_nat ?f :: u8) = (of_nat ?f :: u32)" using ucast_of_nat_u8 [of ?f] f(2) by simp
  have at2: "be16_at m (p + 2) = of_nat (length (action_enc (Set_field c)))"
    using w(2) by (simp only: action_enc_def action_wire.simps length_wire_bytes wire_tlv.sel)
  have "of_group_frame_action_response m p n =
    (read_oxm_value m (p + 4) (of_nat ?f) (calloc_action\<lparr>act_type := 25, act_setfield_type := of_nat ?f\<rparr>),
     n + ucast (be16_at m (p + 2)))"
    using w(1) oxm_unmasked_at(1) [OF w(3) f(2)]
    by (simp add: of_group_frame_action_response_def of_group_frame_action_setField_response_def
        layout_simps Let_def ft)
  then show ?thesis
    unfolding at2 ucast_of_nat_u16 [OF len]
    using read_oxm_value_kept [OF assms(3) v oxm_unmasked_at(2) [OF w(3) f(2)],
        where e = "calloc_action\<lparr>act_type := 25, act_setfield_type := of_nat ?f\<rparr>"]
    by simp
qed

lemma action_read:
  assumes "readable_action c" and "holds m p (action_enc c)"
  shows "of_group_frame_action_response m p n = (action_entry c, n + of_nat (length (action_enc c)))"
proof (cases "\<exists>s. c = Set_field s")
  case True
  then show ?thesis using assms set_field_read by (auto simp: readable_action_def)
next
  case False
  obtain t b where tb: "action_wire c = Wire t b" by (cases "action_wire c")
  note w = at_wire [OF assms(2) [unfolded action_enc_def tb]]
  have b: "b = wire_body (action_wire c)" by (simp add: tb)
  have r: "be32_at m (p + 4) = y" if "b = be32 y" for y using w(3) that by (simp add: reads_back)
  have s: "be16_at m (p + 4) = x" if "b = be16 x @ ys" for x ys using w(3) that by (simp add: reads_back)
  have t: "m (p + 4) = x" if "b = x # ys" for x ys using w(3) that by (simp add: reads_back)
  show ?thesis
  proof (cases c)
    case (Output q k)
    have "holds m (p + 4) (be32 q @ be16 k @ replicate 6 0)"
      using w(3) tb Output assms(1) by (auto simp: readable_action_def)
    then have "be32_at m (p + 4) = q" "be16_at m (p + 8) = k"
      by (auto simp: holds_append at_holds ac_simps)
    then show ?thesis using w(1) tb [symmetric] Output
      by (simp add: of_group_frame_action_response_def layout_simps Let_def action_enc_def)
  qed (use False tb [symmetric] w(1) r s t assms(1) in \<open>simp_all add: of_group_frame_action_response_def
      layout_simps Let_def action_enc_def readable_action_def\<close>)
qed

lemma action_enc_short: "readable_action c \<Longrightarrow> length (action_enc c) < 65536"
  using set_field_value_bound [of "case c of Set_field s \<Rightarrow> s"]
    round_up_lt [of "length (snd (set_field_value (case c of Set_field s \<Rightarrow> s)))"]
  by (cases c) (simp_all add: action_enc_def readable_action_def)

text \<open>What the reader makes of a set-queue action: the queue is 0.\<close>

lemma queue_lost:
  assumes "holds m p (action_enc (Set_queue q))"
  shows "of_group_frame_action_response m p n = (calloc_action\<lparr>act_type := 21\<rparr>, n + 8)"
  using at_wire [OF assms [unfolded action_enc_def action_wire.simps]]
  by (simp add: of_group_frame_action_response_def layout_simps Let_def)

definition action_reader :: "memory \<Rightarrow> nat \<Rightarrow> (overrun + ofi_action \<times> nat) option" where
  "action_reader m msg = (let (e, n) = of_group_frame_action_response m msg 0 in Some (Inr (e, unat n)))"

interpretation ar: element_reader action_reader action_enc action_entry readable_action
proof
  fix c m p
  assume "readable_action c" and "holds m p (action_enc c)"
  moreover from this(1) have "length (action_enc c) < 4294967296"
    using action_enc_short [of c] by simp
  ultimately show "action_reader m p = Some (Inr (action_entry c, length (action_enc c)))"
    by (simp add: action_reader_def action_read unat_of_nat take_bit_nat_eq_self)
qed (simp add: action_enc_def)

end
