(* ===== verification/ReplyFlow.thy ===== *)
theory ReplyFlow
  imports Reply
begin

text \<open>
  Flow statistics replies (\<open>of_cntlr_msg.c\<close>): the readers of one match field
  (\<open>of_frame_match_field_response\<close>) and one instruction (\<open>of_frame_instruction_response\<close>), of the
  variable part of a flow entry (\<open>of_flow_stats_frame_respone\<close>) and of a bind object
  (\<open>of_bind_stats_frame_respone\<close>), and the handler \<open>of_handle_flow_entry_stats_response\<close> that walks
  over the entries of the message and calls the application back for each.
\<close>

section \<open>One match field\<close>

record ofi_match_field = reply_value +
  rm_match_class :: u16
  rm_field_type :: u8
  rm_field_len :: u8
  rm_is_mask_set :: u8
  rm_mask :: "u8 list"
  rm_mask_len :: u8

definition OFU_FLOW_MATCH_FIELD_LEN :: nat where "OFU_FLOW_MATCH_FIELD_LEN = 46"
definition OFPXMC_OPENFLOW_BASIC :: u16 where "OFPXMC_OPENFLOW_BASIC = 0x8000"
definition OFPXMC_EXPERIMENTER :: u16 where "OFPXMC_EXPERIMENTER = 0xffff"
definition OFPXMC_NXM_1 :: u16 where "OFPXMC_NXM_1 = 1"

definition calloc_match_field :: ofi_match_field where
  "calloc_match_field = \<lparr>ui8_data = 0, ui16_data = 0, ui32_data = 0, ui64_data = 0,
     ui8_data_array = replicate 6 0, rm_match_class = 0, rm_field_type = 0, rm_field_len = 0,
     rm_is_mask_set = 0, rm_mask = replicate OFU_FLOW_MATCH_FIELD_LEN 0, rm_mask_len = 0\<rparr>"

text \<open>
  The mask is the second half of the value; it is copied into an array of 46 bytes without a check
  of its length.
\<close>

definition of_frame_match_field_response ::
  "memory \<Rightarrow> nat \<Rightarrow> u32 \<Rightarrow> overrun + ofi_match_field \<times> u32" where
  "of_frame_match_field_response m msg len =
     (let match_class = be16_at m msg;
          field_type = drop_bit 1 (m (msg + 2));
          field_len = m (msg + 3);
          e = calloc_match_field\<lparr>rm_match_class := match_class, rm_field_type := field_type,
                rm_field_len := field_len\<rparr>;
          is_mask_set = m (msg + 2) AND 1 \<noteq> 0;
          e = (if match_class = OFPXMC_OPENFLOW_BASIC then read_oxm_value m msg (ucast field_type) e
               else if match_class = OFPXMC_EXPERIMENTER then e\<lparr>ui32_data := raw32_at m (msg + 4)\<rparr>
               else if match_class = OFPXMC_NXM_1 then e\<lparr>ui64_data := raw64_at m (msg + 4)\<rparr>
               else e);
          half = unat field_len div 2
      in if is_mask_set \<and> OFU_FLOW_MATCH_FIELD_LEN < half then Inl Mask_overrun
         else Inr (if is_mask_set
                   then e\<lparr>rm_mask := read_bytes (msg + OF_OXM_HDR_LEN + half) half m
                              @ drop half (rm_mask e),
                          rm_is_mask_set := 1, rm_mask_len := of_nat half\<rparr>
                   else e,
                   len + (ucast field_len + 4)))"

section \<open>One instruction\<close>

record ofi_instruction =
  ri_type :: u16
  ri_len :: u16
  ri_table_id :: u8
  ri_metadata :: u64
  ri_metadata_mask :: u64
  ri_vendorid :: u32
  ri_subtype :: u16
  ri_value1 :: u16
  ri_group_id :: u32
  ri_action_list :: "ofi_action list"

definition calloc_instruction :: ofi_instruction where
  "calloc_instruction = \<lparr>ri_type = 0, ri_len = 0, ri_table_id = 0, ri_metadata = 0,
     ri_metadata_mask = 0, ri_vendorid = 0, ri_subtype = 0, ri_value1 = 0, ri_group_id = 0,
     ri_action_list = []\<rparr>"

definition OFPIT_EXPERIMENTER :: u16 where "OFPIT_EXPERIMENTER = 0xffff"

definition FSLXIT_WAIT_TO_COMPLETE_PKT_OUTS :: u16 where "FSLXIT_WAIT_TO_COMPLETE_PKT_OUTS = 3"
definition FSLXIT_WRITE_PRIORITY_REGISTER :: u16 where "FSLXIT_WRITE_PRIORITY_REGISTER = 5"
definition FSLXIT_RE_LOOKUP :: u16 where "FSLXIT_RE_LOOKUP = 7"
definition FSLXIT_RE_INJECT_TO :: u16 where "FSLXIT_RE_INJECT_TO = 8"
definition FSLXIT_APPLY_GROUP :: u16 where "FSLXIT_APPLY_GROUP = 9"
definition FSLXIT_WRITE_GROUP :: u16 where "FSLXIT_WRITE_GROUP = 10"

text \<open>The experimenter instructions; the subtypes that are not named have empty cases.\<close>

definition read_fslx_instruction :: "memory \<Rightarrow> nat \<Rightarrow> ofi_instruction \<Rightarrow> ofi_instruction" where
  "read_fslx_instruction m msg e =
     (let subtype = raw16_at m (msg + 8);
          e = e\<lparr>ri_subtype := subtype, ri_vendorid := raw32_at m (msg + 4)\<rparr>
      in if subtype = FSLXIT_WAIT_TO_COMPLETE_PKT_OUTS then e\<lparr>ri_value1 := raw16_at m (msg + 10)\<rparr>
         else if subtype = FSLXIT_WRITE_PRIORITY_REGISTER then e\<lparr>ri_value1 := raw16_at m (msg + 10)\<rparr>
         else if subtype = FSLXIT_RE_LOOKUP then e\<lparr>ri_value1 := ucast (m (msg + 10))\<rparr>
         else if subtype = FSLXIT_RE_INJECT_TO
         then e\<lparr>ri_value1 := ucast (m (msg + 11)), ri_table_id := m (msg + 10)\<rparr>
         else if subtype = FSLXIT_APPLY_GROUP then e\<lparr>ri_group_id := raw32_at m (msg + 12)\<rparr>
         else if subtype = FSLXIT_WRITE_GROUP then e\<lparr>ri_group_id := raw32_at m (msg + 12)\<rparr>
         else e)"

text \<open>An unknown type adds nothing to the length.\<close>

definition of_frame_instruction_response :: "memory \<Rightarrow> nat \<Rightarrow> u32 \<Rightarrow> ofi_instruction \<times> u32" where
  "of_frame_instruction_response m msg len =
     (let ty = be16_at m msg;
          e = calloc_instruction\<lparr>ri_type := ty, ri_len := be16_at m (msg + 2)\<rparr>
      in
      if ty = OFPIT_GOTO_TABLE then (e\<lparr>ri_table_id := m (msg + 4)\<rparr>, len + 8)
      else if ty = OFPIT_WRITE_METADATA
      then (e\<lparr>ri_metadata := be64_at m (msg + 8), ri_metadata_mask := be64_at m (msg + 16)\<rparr>, len + 24)
      else if ty = OFPIT_WRITE_ACTIONS then (e, len + ucast (ri_len e))
      else if ty = OFPIT_APPLY_ACTIONS then (e\<lparr>ri_action_list := []\<rparr>, len + 8)
      else if ty = OFPIT_CLEAR_ACTIONS then (e, len + ucast (ri_len e))
      else if ty = OFPIT_METER then (e, len + 8)
      else if ty = OFPIT_EXPERIMENTER then (read_fslx_instruction m msg e, len + ucast (ri_len e))
      else (e, len))"

section \<open>The variable part of an entry\<close>

definition match_reader :: "memory \<Rightarrow> nat \<Rightarrow> (overrun + ofi_match_field \<times> nat) option" where
  "match_reader m msg =
     Some (case of_frame_match_field_response m msg 0 of Inl x \<Rightarrow> Inl x | Inr (e, n) \<Rightarrow> Inr (e, unat n))"

text \<open>
  One round of the instruction loop.  The actions of an apply-actions instruction are counted by its
  length less the header, in 32 bits; what they take is taken off the remaining length as well.
\<close>

definition instruction_reader :: "memory \<Rightarrow> nat \<Rightarrow> (overrun + ofi_instruction \<times> nat) option" where
  "instruction_reader m msg =
     (let (e, n) = of_frame_instruction_response m msg 0 in
      if ri_type e = OFPIT_APPLY_ACTIONS
      then Option.bind (read_elements action_reader m (msg + unat n) (ucast (ri_len e) - 8))
             (\<lambda>r. case r of
                 Inl x \<Rightarrow> Some (Inl x)
               | Inr (actions, msg') \<Rightarrow> Some (Inr (e\<lparr>ri_action_list := actions\<rparr>, msg' - msg)))
      else Some (Inr (e, unat n)))"

definition MATCHFILED_PADDING :: "u32 \<Rightarrow> u32" where
  "MATCHFILED_PADDING len =
     (if len mod 8 = 0 then len else if 8 < len then (8 - len mod 8) + len else 8)"

text \<open>The two lists of the entry, or a write out of bounds, or no return.\<close>

definition of_flow_stats_frame_respone ::
  "memory \<Rightarrow> nat \<Rightarrow> u32 \<Rightarrow> (overrun + ofi_match_field list \<times> ofi_instruction list) option" where
  "of_flow_stats_frame_respone m msg remaining_length =
     (let matchfield_len = ucast (be16_at m (msg + 2));
          matchfield_total_len = MATCHFILED_PADDING matchfield_len;
          matchfield_padding_len = matchfield_total_len - matchfield_len
      in Option.bind (read_elements match_reader m (msg + 4) (matchfield_len - 4)) (\<lambda>r. case r of
           Inl x \<Rightarrow> Some (Inl x)
         | Inr (match_fields, msg) \<Rightarrow>
             Option.bind (read_elements instruction_reader m (msg + unat matchfield_padding_len)
                            (remaining_length - matchfield_total_len)) (\<lambda>r. case r of
               Inl x \<Rightarrow> Some (Inl x)
             | Inr (instructions, _) \<Rightarrow> Some (Inr (match_fields, instructions)))))"

definition of_bind_stats_frame_respone ::
  "memory \<Rightarrow> nat \<Rightarrow> u32 \<Rightarrow> (overrun + ofi_instruction list) option" where
  "of_bind_stats_frame_respone m msg remaining_length =
     Option.bind (read_elements instruction_reader m msg remaining_length) (\<lambda>r. case r of
         Inl x \<Rightarrow> Some (Inl x)
       | Inr (instructions, _) \<Rightarrow> Some (Inr instructions))"

section \<open>Reading back match fields\<close>

definition readable_oxm :: "oxm \<Rightarrow> bool" where
  "readable_oxm t \<longleftrightarrow> wf_oxm t \<and> kept_field (oxm_field t)
     \<and> length (oxm_value t) = oxm_width (oxm_field t)"

definition match_entry :: "oxm \<Rightarrow> ofi_match_field" where
  "match_entry t =
     (let e = value_entry (oxm_value t)
                (calloc_match_field\<lparr>rm_match_class := OFPXMC_OPENFLOW_BASIC,
                   rm_field_type := of_nat (oxm_field t),
                   rm_field_len := of_nat (length (oxm_bytes t) - 4)\<rparr>)
      in case oxm_mask t of
           None \<Rightarrow> e
         | Some k \<Rightarrow> e\<lparr>rm_mask := k @ replicate (OFU_FLOW_MATCH_FIELD_LEN - length k) 0,
                        rm_is_mask_set := 1, rm_mask_len := of_nat (length k)\<rparr>)"

lemma oxm_width_bound: "f < 40 \<Longrightarrow> 0 < oxm_width f \<and> oxm_width f \<le> 16"
  unfolding below_40 by (auto simp: oxm_width_def)

text \<open>The four header bytes, the value and the mask, where they are read.\<close>

lemma oxm_at:
  assumes "holds m p (oxm_bytes t)" and "readable_oxm t"
  defines "n \<equiv> length (oxm_value t)" and "masked \<equiv> oxm_mask t \<noteq> None"
  shows "be16_at m p = 0x8000"
    and "drop_bit 1 (m (p + 2)) = of_nat (oxm_field t)"
    and "m (p + 2) AND 1 \<noteq> 0 \<longleftrightarrow> masked"
    and "m (p + 3) = of_nat (length (oxm_bytes t) - 4)"
    and "length (oxm_bytes t) = 4 + (if masked then 2 * n else n)"
    and "holds m (p + 4) (oxm_value t)"
    and "masked \<Longrightarrow> holds m (p + 4 + n) (the (oxm_mask t)) \<and> length (the (oxm_mask t)) = n"
proof -
  obtain f v k where t: "t = Oxm f v k" by (cases t)
  have f: "f < 40" "f < 128" and wf: "wf_oxm t" using assms(2) t by (simp_all add: readable_oxm_def kept_field_def)
  define x where "x = (of_nat (2 * f + (if masked then 1 else 0)) :: u8)"
  have ux: "unat x = 2 * f + (if masked then 1 else 0)" unfolding x_def using f by (subst unat_of_nat_u8) auto
  define tail where "tail = v @ (case k of None \<Rightarrow> [] | Some k \<Rightarrow> k)"
  have kl: "k = Some k' \<Longrightarrow> length k' = length v" for k' using wf t by simp
  have b: "oxm_bytes t = [0x80, 0, x, of_nat (length tail)] @ tail"
    by (cases k) (simp_all add: t tail_def x_def masked_def oxm_header_bytes_def)
  have h: "holds m p [0x80, 0, x, of_nat (length tail)]" "holds m (p + 4) tail"
    using assms(1) unfolding b holds_append by (simp_all add: numeral_eq_Suc)
  have at: "m p = 0x80" "m (p + 1) = 0" "m (p + 2) = x" "m (p + 3) = of_nat (length tail)"
    using holds_nth [OF h(1), of p] holds_nth [OF h(1), of "p + 1"] holds_nth [OF h(1), of "p + 2"]
      holds_nth [OF h(1), of "p + 3"] by (simp_all add: numeral_eq_Suc)
  show "be16_at m p = 0x8000"
    using at(1,2) by (simp add: be16_at_def read_bytes_def upt_rec of_be_def)
  have "unat (drop_bit 1 x) = f" unfolding unat_drop_bit_eq by (simp add: ux drop_bit_eq_div)
  then have "unat (drop_bit 1 x) = unat (of_nat f :: u8)" using f(2) by simp
  then show "drop_bit 1 (m (p + 2)) = of_nat (oxm_field t)" by (simp add: at(3) t unsigned_word_eqI)
  have "bit (unat x) 0 \<longleftrightarrow> bit x 0" by (simp add: bit_unsigned_iff)
  then have "odd x \<longleftrightarrow> masked" by (simp add: bit_0 ux split: if_splits)
  then show "m (p + 2) AND 1 \<noteq> 0 \<longleftrightarrow> masked" by (simp add: at(3) and_one_eq odd_iff_mod_2_eq_one)
  show "m (p + 3) = of_nat (length (oxm_bytes t) - 4)" by (simp add: at(4) b)
  show "length (oxm_bytes t) = 4 + (if masked then 2 * n else n)"
    using kl by (cases k) (simp_all add: b tail_def n_def t masked_def)
  show "holds m (p + 4) (oxm_value t)" using h(2) by (simp add: tail_def t holds_append)
  show "holds m (p + 4 + n) (the (oxm_mask t)) \<and> length (the (oxm_mask t)) = n" if masked
    using h(2) that kl by (cases k) (simp_all add: tail_def t masked_def n_def holds_append)
qed

lemma value_entry_more [simp]:
  "rm_mask (value_entry v e) = rm_mask e"
  by (simp add: value_entry_def)

lemma match_field_read:
  assumes "readable_oxm t" and "holds m p (oxm_bytes t)"
  shows "of_frame_match_field_response m p 0 = Inr (match_entry t, of_nat (length (oxm_bytes t)))"
proof -
  note at = oxm_at [OF assms(2,1)]
  let ?f = "oxm_field t" and ?v = "oxm_value t"
  have f: "?f < 40" "?f < 256" and v: "length ?v = oxm_width ?f" "length ?v \<le> 16"
    using assms(1) oxm_width_bound [of ?f] by (simp_all add: readable_oxm_def kept_field_def)
  have ft: "ucast (of_nat ?f :: u8) = (of_nat ?f :: u32)" using ucast_of_nat_u8 [OF f(2)] .
  have len: "unat (of_nat (length (oxm_bytes t) - 4) :: u8) = length (oxm_bytes t) - 4"
    "length (oxm_bytes t) - 4 < 256"
    using at(5) v(2) by (simp_all split: if_splits)
  have uc: "(ucast (of_nat (length (oxm_bytes t) - 4) :: u8) :: u32) + 4 = of_nat (length (oxm_bytes t))"
    unfolding ucast_of_nat_u8 [OF len(2)] using at(5) by (simp split: if_splits)
  let ?e = "calloc_match_field\<lparr>rm_match_class := OFPXMC_OPENFLOW_BASIC, rm_field_type := of_nat ?f,
    rm_field_len := of_nat (length (oxm_bytes t) - 4)\<rparr>"
  have k: "kept_field ?f" using assms(1) by (simp add: readable_oxm_def)
  have rd: "read_oxm_value m p (of_nat ?f) ?e = value_entry ?v ?e"
    by (rule read_oxm_value_kept [OF k v(1) at(6)])
  show ?thesis
  proof (cases "oxm_mask t")
    case None
    then show ?thesis using at(1-4) rd uc
      by (simp add: of_frame_match_field_response_def Let_def ft match_entry_def
          OFPXMC_OPENFLOW_BASIC_def)
  next
    case (Some k)
    have half: "unat (of_nat (length (oxm_bytes t) - 4) :: u8) div 2 = length ?v"
      unfolding len(1) using at(5) Some by simp
    have k: "read_bytes (p + 4 + length ?v) (length ?v) m = k" "length k = length ?v"
      using at(7) Some by (auto simp: holds_def)
    show ?thesis using at(1-4) rd uc Some v(2) k
      unfolding of_frame_match_field_response_def Let_def at(4) half OF_OXM_HDR_LEN_def k(1)
      by (simp add: ft match_entry_def OFPXMC_OPENFLOW_BASIC_def OFU_FLOW_MATCH_FIELD_LEN_def
          calloc_match_field_def)
  qed
qed

interpretation mr: element_reader match_reader oxm_bytes match_entry readable_oxm
proof
  fix t m p
  assume t: "readable_oxm t" "holds m p (oxm_bytes t)"
  have "length (oxm_bytes t) < 4294967296"
    using oxm_bytes_length [of t] t(1) by (simp add: readable_oxm_def)
  then show "match_reader m p = Some (Inr (match_entry t, length (oxm_bytes t)))"
    by (simp add: match_reader_def match_field_read [OF t] unat_of_nat take_bit_nat_eq_self)
next
  fix t :: oxm
  assume "readable_oxm t"
  then show "0 < length (oxm_bytes t)" using oxm_bytes_length [of t] by (auto simp: readable_oxm_def)
qed

section \<open>Reading back instructions\<close>

text \<open>
  What the application is to be told of an instruction.  The structure has no member for the number of a
  meter.
\<close>

definition read_instr :: "instr_call \<Rightarrow> ofi_instruction" where
  "read_instr c = calloc_instruction\<lparr>ri_type := wire_type (instr_wire c),
     ri_len := of_nat (length (instr_enc c))\<rparr>"

primrec instr_entry :: "instr_call \<Rightarrow> ofi_instruction" where
  "instr_entry (Goto_table t) = (read_instr (Goto_table t))\<lparr>ri_table_id := t\<rparr>"
| "instr_entry (Write_metadata v k) =
     (read_instr (Write_metadata v k))\<lparr>ri_metadata := v, ri_metadata_mask := k\<rparr>"
| "instr_entry (Apply_actions acts) =
     (read_instr (Apply_actions acts))\<lparr>ri_action_list := map action_entry acts\<rparr>"
| "instr_entry (Write_actions acts) =
     (read_instr (Write_actions acts))\<lparr>ri_action_list := map action_entry acts\<rparr>"
| "instr_entry Clear_actions = read_instr Clear_actions"
| "instr_entry (Meter n) = read_instr (Meter n)"

text \<open>The instructions that are read in full: no write-actions with actions, and no meter.\<close>

definition readable_instr :: "instr_call \<Rightarrow> bool" where
  "readable_instr c \<longleftrightarrow> length (instr_enc c) < 65536 \<and>
     (case c of Apply_actions acts \<Rightarrow> \<forall>a \<in> set acts. readable_action a
      | Write_actions acts \<Rightarrow> acts = [] | Meter n \<Rightarrow> False | _ \<Rightarrow> True)"

lemma plain_instruction_read:
  assumes "readable_instr c" and "holds m p (instr_enc c)" and "\<forall>acts. c \<noteq> Apply_actions acts"
  shows "of_frame_instruction_response m p 0 = (instr_entry c, of_nat (length (instr_enc c)))"
proof -
  obtain t b where tb: "instr_wire c = Wire t b" by (cases "instr_wire c")
  have e: "instr_enc c = wire_bytes (Wire t b)" by (simp add: instr_enc_def tb)
  note w = at_wire [OF assms(2) [unfolded e]]
  have len: "be16_at m (p + 2) = of_nat (length (instr_enc c))" using w(2) by (simp add: e)
  have uc: "ucast (of_nat (length (instr_enc c)) :: u16) = (of_nat (length (instr_enc c)) :: u32)"
    using assms(1) by (intro ucast_of_nat_u16) (simp add: readable_instr_def)
  note defs = of_frame_instruction_response_def read_instr_def layout_simps Let_def
  show ?thesis
  proof (cases c)
    case (Write_metadata v k)
    then have "holds m (p + 8) (be64 v)" "holds m (p + 16) (be64 k)"
      using w(3) tb by (auto simp: holds_append ac_simps)
    then have "be64_at m (p + 8) = v" "be64_at m (p + 16) = k" by (simp_all add: at_holds)
    then show ?thesis using w(1) len tb [symmetric] Write_metadata by (simp add: defs instr_enc_def)
  next
    case (Goto_table x)
    then have "m (p + 4) = x" using w(3) tb reads_back(5) by fastforce
    then show ?thesis using w(1) len tb [symmetric] Goto_table by (simp add: defs instr_enc_def)
  next
    case (Write_actions acts)
    then have "acts = []" using assms(1) by (simp add: readable_instr_def)
    then show ?thesis using Write_actions w(1) tb [symmetric] uc by (simp add: defs len calloc_instruction_def)
  next
    case (Meter k)
    then show ?thesis using assms(1) by (simp add: readable_instr_def)
  qed (use assms(3) w(1) tb [symmetric] uc in \<open>simp_all add: defs len\<close>)
qed

text \<open>What is told of the others: the actions of a write-actions instruction and the number of a meter are lost.\<close>

lemma instruction_lost:
  assumes "holds m p (instr_enc c)" and "c = Write_actions acts \<or> c = Meter k" and "length (instr_enc c) < 65536"
  shows "of_frame_instruction_response m p 0 = (read_instr c, of_nat (length (instr_enc c)))"
proof -
  obtain t b where tb: "instr_wire c = Wire t b" by (cases "instr_wire c")
  have e: "instr_enc c = wire_bytes (Wire t b)" by (simp add: instr_enc_def tb)
  note w = at_wire [OF assms(1) [unfolded e]]
  have len: "be16_at m (p + 2) = of_nat (length (instr_enc c))" using w(2) by (simp add: e)
  have uc: "ucast (of_nat (length (instr_enc c)) :: u16) = (of_nat (length (instr_enc c)) :: u32)"
    using assms(3) by (rule ucast_of_nat_u16)
  note defs = of_frame_instruction_response_def read_instr_def layout_simps Let_def
  from assms(2) show ?thesis
  proof
    assume "c = Write_actions acts"
    then show ?thesis using w(1) tb [symmetric] uc by (simp add: defs len)
  next
    assume "c = Meter k"
    then show ?thesis using w(1) tb [symmetric] uc by (simp add: defs len) (simp add: instr_enc_def)
  qed
qed

lemma apply_actions_read:
  assumes "readable_instr (Apply_actions acts)" and "holds m p (instr_enc (Apply_actions acts))"
  shows "instruction_reader m p
    = Some (Inr (instr_entry (Apply_actions acts), length (instr_enc (Apply_actions acts))))"
proof -
  let ?c = "Apply_actions acts" and ?as = "encoding action_enc acts"
  have e: "instr_enc ?c = wire_bytes (Wire 4 (replicate 4 0 @ ?as))" by (simp add: instr_enc_def)
  note w = at_wire [OF assms(2) [unfolded e]]
  have n: "length (instr_enc ?c) = 8 + length ?as" "length ?as < 4294967296" "8 + length ?as < 65536"
    using assms(1) by (simp_all add: e readable_instr_def)
  have len: "be16_at m (p + 2) = of_nat (8 + length ?as)" using w(2) by simp
  have "holds m (p + 8) ?as" using w(3) by (simp add: holds_append ac_simps)
  then have "read_elements action_reader m (p + 8) (of_nat (length ?as))
      = Some (Inr (map action_entry acts, p + 8 + length ?as))"
    using ar.read_all [of acts m "p + 8"] assms(1) n(2) by (simp add: readable_instr_def)
  moreover have "ucast (of_nat (8 + length ?as) :: u16) - 8 = (of_nat (length ?as) :: u32)"
    unfolding ucast_of_nat_u16 [OF n(3)] by simp
  ultimately show ?thesis
    using w(1) unfolding instruction_reader_def of_frame_instruction_response_def Let_def len
    by (simp add: layout_simps read_instr_def n(1) del: of_nat_add)
qed

lemma instruction_read:
  assumes "readable_instr c" and "holds m p (instr_enc c)"
  shows "instruction_reader m p = Some (Inr (instr_entry c, length (instr_enc c)))"
proof (cases "\<exists>acts. c = Apply_actions acts")
  case True
  then show ?thesis using apply_actions_read assms by blast
next
  case False
  then have "ri_type (instr_entry c) \<noteq> OFPIT_APPLY_ACTIONS"
    by (cases c) (simp_all add: read_instr_def layout_simps)
  moreover have "unat (of_nat (length (instr_enc c)) :: u32) = length (instr_enc c)"
    using assms(1) by (simp add: readable_instr_def unat_of_nat take_bit_nat_eq_self)
  ultimately show ?thesis
    using plain_instruction_read [OF assms] False by (simp add: instruction_reader_def)
qed

interpretation ir: element_reader instruction_reader instr_enc instr_entry readable_instr
  by unfold_locales (simp add: instruction_read, simp only: instr_enc_def length_wire_bytes)

section \<open>Reading back an entry\<close>

text \<open>The match structure of an entry: type, length, fields, padding.\<close>

definition match_bytes :: "oxm list \<Rightarrow> u8 list" where
  "match_bytes ts = be16 OFPMT_OXM @ be16 (of_nat (4 + length (encoding oxm_bytes ts)))
     @ encoding oxm_bytes ts @ replicate (ROUND_UP (4 + length (encoding oxm_bytes ts))) 0"

lemma length_match_bytes [simp]:
  "length (match_bytes ts) = 4 + length (encoding oxm_bytes ts)
     + ROUND_UP (4 + length (encoding oxm_bytes ts))"
  by (simp add: match_bytes_def)

lemma match_padding:
  assumes "4 \<le> n" and "n < 65536"
  shows "MATCHFILED_PADDING (of_nat n) = of_nat (n + ROUND_UP n)"
proof -
  have u: "unat (of_nat n :: u32) = n" using assms(2) by (simp add: unat_of_nat take_bit_nat_eq_self)
  have m: "unat (of_nat n mod 8 :: u32) = n mod 8" by (simp add: unat_mod u)
  then have z: "(of_nat n :: u32) mod 8 = 0 \<longleftrightarrow> n mod 8 = 0"
    by (metis unsigned_0 unsigned_word_eqI)
  have l: "8 < (of_nat n :: u32) \<longleftrightarrow> 8 < n" by (simp add: word_less_nat_alt u)
  have r: "(of_nat n :: u32) mod 8 = of_nat (n mod 8)" 
    by (rule unsigned_word_eqI [where ?'a = nat]) (simp add: m unat_of_nat take_bit_nat_eq_self)
  show ?thesis
  proof (cases "n mod 8 = 0")
    case True
    then show ?thesis using z round_up_0 [of n] by (simp add: MATCHFILED_PADDING_def dvd_eq_mod_eq_0)
  next
    case False
    have lt: "n mod 8 < 8" by simp
    have "(n + 7) div 8 = n div 8 + (n mod 8 + 7) div 8" by (simp add: div_add1_eq [of n 7 8])
    also have "(n mod 8 + 7) div 8 = 1" using False lt by (intro div_nat_eqI) simp_all
    finally have d: "ROUND_UP n = 8 - n mod 8"
      using div_mult_mod_eq [of n 8] unfolding ROUND_UP_def by linarith
    have "(of_nat (8 - k) :: u32) = 8 - of_nat k" if "k < 8" for k
      using that by (simp add: of_nat_diff)
    then have up: "(of_nat (ROUND_UP n) :: u32) = 8 - of_nat (n mod 8)"
      unfolding d using lt by blast
    show ?thesis
    proof (cases "8 < n")
      case True
      then show ?thesis using False z l by (simp add: MATCHFILED_PADDING_def r up)
    next
      case small: False
      then have "n + ROUND_UP n = 8" using False d by (cases "n = 8") auto
      then have "of_nat (n + ROUND_UP n) = (8 :: u32)" by simp
      then show ?thesis using False small z l by (simp add: MATCHFILED_PADDING_def)
    qed
  qed
qed

lemma match_bytes_at:
  assumes "holds m p (match_bytes ts @ ys)"
  defines "n \<equiv> 4 + length (encoding oxm_bytes ts)"
  shows "be16_at m (p + 2) = of_nat n" and "holds m (p + 4) (encoding oxm_bytes ts)"
    and "holds m (p + n + ROUND_UP n) ys"
proof -
  have "holds m (p + 2) (be16 (of_nat n))" "holds m (p + 4) (encoding oxm_bytes ts)"
    "holds m (p + n + ROUND_UP n) ys"
    using assms(1) by (simp_all add: match_bytes_def n_def holds_append ac_simps)
  then show "be16_at m (p + 2) = of_nat n" "holds m (p + 4) (encoding oxm_bytes ts)"
    "holds m (p + n + ROUND_UP n) ys"
    by (simp_all add: at_holds)
qed

lemma entry_read:
  assumes "\<forall>t \<in> set ts. readable_oxm t" and "\<forall>c \<in> set cs. readable_instr c"
    and "holds m p (match_bytes ts @ encoding instr_enc cs)"
    and "length (match_bytes ts @ encoding instr_enc cs) < 65536"
  shows "of_flow_stats_frame_respone m p (of_nat (length (match_bytes ts @ encoding instr_enc cs)))
    = Some (Inr (map match_entry ts, map instr_entry cs))"
proof -
  let ?ts = "encoding oxm_bytes ts" and ?cs = "encoding instr_enc cs"
  define n where "n = 4 + length ?ts"
  have small: "length ?ts < 65532" "length ?cs < 65536" and n: "4 \<le> n" "n < 65536"
    using assms(4) by (simp_all add: n_def)
  note at = match_bytes_at [OF assms(3), folded n_def]
  have ml: "ucast (be16_at m (p + 2)) = (of_nat n :: u32)"
    unfolding at(1) by (rule ucast_of_nat_u16 [OF n(2)])
  have total: "MATCHFILED_PADDING (of_nat n) = of_nat (n + ROUND_UP n)" by (rule match_padding [OF n])
  have pad: "unat (of_nat (n + ROUND_UP n) - of_nat n :: u32) = ROUND_UP n"
    using round_up_lt [of n] by (simp add: unat_of_nat take_bit_nat_eq_self)
  have "read_elements match_reader m (p + 4) (of_nat n - 4) = Some (Inr (map match_entry ts, p + n))"
    using mr.read_all [OF assms(1) at(2)] small(1) by (simp add: n_def add.assoc)
  moreover have "read_elements instruction_reader m (p + n + ROUND_UP n) (of_nat (length ?cs))
      = Some (Inr (map instr_entry cs, p + n + ROUND_UP n + length ?cs))"
    using ir.read_all [OF assms(2) at(3)] small(2) by simp
  moreover have "of_nat (length (match_bytes ts @ ?cs)) - of_nat (n + ROUND_UP n)
      = (of_nat (length ?cs) :: u32)"
    by (simp add: n_def)
  ultimately show ?thesis
    unfolding of_flow_stats_frame_respone_def ml Let_def total
    by (simp only: bind.bind_lunit sum.case prod.case pad option.inject)
qed

section \<open>The handler\<close>

record ofi_flow_entry_info =
  si_table_id :: u8
  si_priority :: u16
  si_alive_sec :: u32
  si_alive_nsec :: u32
  si_cookie :: u64
  si_Idle_timeout :: u16
  si_hard_timeout :: u16
  si_packet_count :: u64
  si_byte_count :: u64
  si_instruction_list :: "ofi_instruction list"
  si_match_field_list :: "ofi_match_field list"

datatype response_status = OF_RESPONSE_STATUS_SUCCESS | OF_RESPONSE_STATUS_ERROR

text \<open>The handles and the arguments of the transaction, passed on; 0 is the null pointer.\<close>

record reply_context =
  rc_domain_handle :: u64
  rc_datapath_handle :: u64
  rc_app_pvt_arg1 :: nat
  rc_app_pvt_arg2 :: nat

datatype flow_stats_cbk =
  Flow_stats_cbk (cbk_domain: u64) (cbk_datapath: u64) (cbk_table_id: u8) (cbk_arg1: nat) (cbk_arg2: nat)
    (cbk_status: response_status) (cbk_entry: "ofi_flow_entry_info option") (cbk_is_last: bool)

text \<open>How a handler ends: it returns, a loop in it does not, or it writes behind an entry.\<close>

datatype handler_end = Returned | Looping | Overran

definition sizeof_ofp_multipart_reply :: nat where "sizeof_ofp_multipart_reply = 16"
definition sizeof_ofp_flow_stats :: nat where "sizeof_ofp_flow_stats = 56"

definition OF_MULTIPART_RPLY_MSG_NO_OF_DESC :: "u16 \<Rightarrow> nat \<Rightarrow> u32" where
  "OF_MULTIPART_RPLY_MSG_NO_OF_DESC msg_length desc_size =
     ucast ((ucast msg_length - of_nat sizeof_ofp_multipart_reply :: u64) div of_nat desc_size)"

text \<open>The difference of two 16 bit counts is an \<open>int\<close>, compared as a \<open>size_t\<close>.\<close>

definition unread :: "u16 \<Rightarrow> u16 \<Rightarrow> u64" where
  "unread bytes_to_read bytes_read = of_int (int (unat bytes_to_read) - int (unat bytes_read))"

text \<open>The fixed part of the entry at \<open>e\<close>.\<close>

definition read_flow_stats :: "memory \<Rightarrow> nat \<Rightarrow> ofi_flow_entry_info" where
  "read_flow_stats m e =
     \<lparr>si_table_id = m (e + 2), si_priority = be16_at m (e + 12), si_alive_sec = be32_at m (e + 4),
      si_alive_nsec = be32_at m (e + 8), si_cookie = be64_at m (e + 24),
      si_Idle_timeout = be16_at m (e + 14), si_hard_timeout = be16_at m (e + 16),
      si_packet_count = be64_at m (e + 32), si_byte_count = be64_at m (e + 40),
      si_instruction_list = [], si_match_field_list = []\<rparr>"

text \<open>
  The loop of the handler, with the number of rounds left.  The result is the calls of the callback
  that have been made and how the loop ends.
\<close>

fun flow_stats_loop ::
  "nat \<Rightarrow> reply_context \<Rightarrow> memory \<Rightarrow> nat \<Rightarrow> u16 \<Rightarrow> u16 \<Rightarrow> u8 \<Rightarrow> flow_stats_cbk list \<times> handler_end" where
  "flow_stats_loop 0 c m data bytes_to_read bytes_read more_data = ([], Returned)"
| "flow_stats_loop (Suc k) c m data bytes_to_read bytes_read more_data =
     (if unread bytes_to_read bytes_read < of_nat sizeof_ofp_flow_stats then ([], Returned)
      else let
        e = data + unat bytes_read;
        bytes_read = bytes_read + 48;
        len = be16_at m e - 48
      in case (if len = 0 then Some (Inr ([], []))
               else of_flow_stats_frame_respone m (data + unat bytes_read) (ucast len)) of
           None \<Rightarrow> ([], Looping)
         | Some (Inl x) \<Rightarrow> ([], Overran)
         | Some (Inr (match_fields, instructions)) \<Rightarrow>
             let flow_stats = (read_flow_stats m e)\<lparr>si_match_field_list := match_fields,
                   si_instruction_list := instructions\<rparr>;
                 bytes_read = bytes_read + len;
                 is_last = more_data \<noteq> 1
                   \<and> unread bytes_to_read bytes_read \<le> of_nat sizeof_ofp_flow_stats;
                 (cbks, ending) = flow_stats_loop k c m data bytes_to_read bytes_read more_data
             in (Flow_stats_cbk (rc_domain_handle c) (rc_datapath_handle c) (m (e + 2))
                   (rc_app_pvt_arg1 c) (rc_app_pvt_arg2 c) OF_RESPONSE_STATUS_SUCCESS
                   (Some flow_stats) is_last # cbks, ending))"

definition of_handle_flow_entry_stats_response ::
  "reply_context \<Rightarrow> memory \<Rightarrow> nat \<Rightarrow> nat \<Rightarrow> u8 \<Rightarrow> flow_stats_cbk list \<times> handler_end" where
  "of_handle_flow_entry_stats_response c m start p_msg_hdr more_data =
     (let no_of_flowstats = OF_MULTIPART_RPLY_MSG_NO_OF_DESC (be16_at m (p_msg_hdr + 2)) sizeof_ofp_flow_stats
      in if no_of_flowstats = 0
         then ([Flow_stats_cbk (rc_domain_handle c) (rc_datapath_handle c) 0 0 0
                  OF_RESPONSE_STATUS_ERROR None True], Returned)
         else flow_stats_loop (unat no_of_flowstats) c m (start + sizeof_ofp_multipart_reply)
                (be16_at m (p_msg_hdr + 2) - of_nat sizeof_ofp_multipart_reply) 0 more_data)"

section \<open>A reply, as the datapath describes its flows\<close>

record flow_stat =
  fs_table :: u8
  fs_sec :: u32
  fs_nsec :: u32
  fs_priority :: u16
  fs_idle :: u16
  fs_hard :: u16
  fs_flags :: u16
  fs_cookie :: u64
  fs_packets :: u64
  fs_bytes :: u64
  fs_match :: "oxm list"
  fs_instrs :: "instr_call list"

definition flow_stat_body :: "flow_stat \<Rightarrow> u8 list" where
  "flow_stat_body f = match_bytes (fs_match f) @ encoding instr_enc (fs_instrs f)"

definition flow_stat_bytes :: "flow_stat \<Rightarrow> u8 list" where
  "flow_stat_bytes f =
     be16 (of_nat (48 + length (flow_stat_body f))) @ [fs_table f, 0] @ be32 (fs_sec f)
     @ be32 (fs_nsec f) @ be16 (fs_priority f) @ be16 (fs_idle f) @ be16 (fs_hard f)
     @ be16 (fs_flags f) @ replicate 4 0 @ be64 (fs_cookie f) @ be64 (fs_packets f)
     @ be64 (fs_bytes f) @ flow_stat_body f"

definition readable_flow_stat :: "flow_stat \<Rightarrow> bool" where
  "readable_flow_stat f \<longleftrightarrow> (\<forall>t \<in> set (fs_match f). readable_oxm t)
     \<and> (\<forall>c \<in> set (fs_instrs f). readable_instr c)"

definition flow_stat_info :: "flow_stat \<Rightarrow> ofi_flow_entry_info" where
  "flow_stat_info f =
     \<lparr>si_table_id = fs_table f, si_priority = fs_priority f, si_alive_sec = fs_sec f,
      si_alive_nsec = fs_nsec f, si_cookie = fs_cookie f, si_Idle_timeout = fs_idle f,
      si_hard_timeout = fs_hard f, si_packet_count = fs_packets f, si_byte_count = fs_bytes f,
      si_instruction_list = map instr_entry (fs_instrs f),
      si_match_field_list = map match_entry (fs_match f)\<rparr>"

text \<open>The callback for a flow: it succeeded, and has the flow; the flag is the last argument.\<close>

definition flow_event :: "reply_context \<Rightarrow> flow_stat \<Rightarrow> bool \<Rightarrow> flow_stats_cbk" where
  "flow_event c f flag =
     Flow_stats_cbk (rc_domain_handle c) (rc_datapath_handle c) (fs_table f) (rc_app_pvt_arg1 c)
       (rc_app_pvt_arg2 c) OF_RESPONSE_STATUS_SUCCESS (Some (flow_stat_info f)) flag"

text \<open>
  The callbacks the application gets: one for each flow, in order.  A flow is marked as the last one
  when the reply has no continuation and at most 56 bytes follow.
\<close>

fun flow_events :: "reply_context \<Rightarrow> u8 \<Rightarrow> flow_stat list \<Rightarrow> flow_stats_cbk list" where
  "flow_events c more_data [] = []"
| "flow_events c more_data (f # fs) =
     Flow_stats_cbk (rc_domain_handle c) (rc_datapath_handle c) (fs_table f) (rc_app_pvt_arg1 c)
       (rc_app_pvt_arg2 c) OF_RESPONSE_STATUS_SUCCESS (Some (flow_stat_info f))
       (more_data \<noteq> 1 \<and> length (encoding flow_stat_bytes fs) \<le> 56)
     # flow_events c more_data fs"

lemma flow_events_flags:
  "\<exists>flags. length flags = length fs \<and> flow_events c more_data fs = map2 (flow_event c) fs flags"
proof (induction fs)
  case (Cons f fs)
  then obtain flags where "length flags = length fs" "flow_events c more_data fs = map2 (flow_event c) fs flags"
    by blast
  then show ?case
    by (intro exI [of _ "(more_data \<noteq> 1 \<and> length (encoding flow_stat_bytes fs) \<le> 56) # flags"])
      (simp add: flow_event_def)
qed simp

lemma length_flow_stat [simp]: "length (flow_stat_bytes f) = 48 + length (flow_stat_body f)"
  by (simp add: flow_stat_bytes_def)

lemma flow_stat_body_length: "8 \<le> length (flow_stat_body f)"
proof -
  let ?n = "4 + length (encoding oxm_bytes (fs_match f))"
  have "8 dvd ?n + ROUND_UP ?n" by (rule round_up_dvd)
  then have "8 \<le> ?n + ROUND_UP ?n" by (rule dvd_imp_le) simp
  then show ?thesis by (simp add: flow_stat_body_def)
qed

lemma flow_stat_at:
  assumes "holds m e (flow_stat_bytes f)"
  shows "be16_at m e = of_nat (48 + length (flow_stat_body f))" and "m (e + 2) = fs_table f"
    and "read_flow_stats m e = (flow_stat_info f)\<lparr>si_instruction_list := [], si_match_field_list := []\<rparr>"
    and "holds m (e + 48) (flow_stat_body f)"
proof -
  have h: "holds m e (be16 (of_nat (48 + length (flow_stat_body f))))" "holds m (e + 2) [fs_table f, 0]"
    "holds m (e + 4) (be32 (fs_sec f))" "holds m (e + 8) (be32 (fs_nsec f))"
    "holds m (e + 12) (be16 (fs_priority f))" "holds m (e + 14) (be16 (fs_idle f))"
    "holds m (e + 16) (be16 (fs_hard f))" "holds m (e + 24) (be64 (fs_cookie f))"
    "holds m (e + 32) (be64 (fs_packets f))" "holds m (e + 40) (be64 (fs_bytes f))"
    "holds m (e + 48) (flow_stat_body f)"
    using assms unfolding flow_stat_bytes_def holds_append by (simp_all add: ac_simps)
  show "be16_at m e = of_nat (48 + length (flow_stat_body f))" "m (e + 2) = fs_table f"
    "holds m (e + 48) (flow_stat_body f)"
    using at_holds(1) [OF h(1)] holds_first [OF h(2)] h(11) by simp_all
  then show "read_flow_stats m e = (flow_stat_info f)\<lparr>si_instruction_list := [], si_match_field_list := []\<rparr>"
    using h by (simp add: read_flow_stats_def flow_stat_info_def at_holds)
qed

lemma unread_of_nat:
  assumes "r + n < 65536"
  shows "unread (of_nat (r + n)) (of_nat r) = of_nat n"
proof -
  have "unat (of_nat (r + n) :: u16) = r + n" "unat (of_nat r :: u16) = r"
    using assms by (simp_all del: of_nat_add)
  then have "unread (of_nat (r + n)) (of_nat r) = of_int (int n)" unfolding unread_def by simp
  then show ?thesis by simp
qed

lemma unread_compare:
  assumes "r + n < 65536"
  shows "unread (of_nat (r + n)) (of_nat r) < of_nat sizeof_ofp_flow_stats \<longleftrightarrow> n < 56"
    and "unread (of_nat (r + n)) (of_nat r) \<le> of_nat sizeof_ofp_flow_stats \<longleftrightarrow> n \<le> 56"
proof -
  have "unat (of_nat n :: u64) = n" "unat (of_nat sizeof_ofp_flow_stats :: u64) = 56"
    using assms by (simp_all add: unat_of_nat take_bit_nat_eq_self sizeof_ofp_flow_stats_def)
  then show "unread (of_nat (r + n)) (of_nat r) < of_nat sizeof_ofp_flow_stats \<longleftrightarrow> n < 56"
    "unread (of_nat (r + n)) (of_nat r) \<le> of_nat sizeof_ofp_flow_stats \<longleftrightarrow> n \<le> 56"
    unfolding unread_of_nat [OF assms] word_less_nat_alt word_le_nat_alt by simp_all
qed

lemma flow_stat_read:
  assumes "readable_flow_stat f" and "holds m e (flow_stat_bytes f)"
    and "length (flow_stat_bytes f) < 65536"
  shows "of_flow_stats_frame_respone m (e + 48) (ucast (be16_at m e - 48))
    = Some (Inr (si_match_field_list (flow_stat_info f), si_instruction_list (flow_stat_info f)))"
proof -
  note at = flow_stat_at [OF assms(2)]
  have "be16_at m e - 48 = of_nat (length (flow_stat_body f))" by (simp add: at(1))
  then have u: "ucast (be16_at m e - 48) = (of_nat (length (flow_stat_body f)) :: u32)"
    using assms(3) by (simp add: ucast_of_nat_u16)
  show ?thesis
    unfolding u using entry_read [of "fs_match f" "fs_instrs f" m "e + 48"] at(4) assms(1,3)
    by (simp add: flow_stat_body_def readable_flow_stat_def flow_stat_info_def)
qed

lemma loop_events:
  assumes "\<forall>f \<in> set fs. readable_flow_stat f"
    and "holds m (data + r) (encoding flow_stat_bytes fs)"
    and "r + length (encoding flow_stat_bytes fs) < 65536" and "length fs \<le> k"
  shows "flow_stats_loop k c m data (of_nat (r + length (encoding flow_stat_bytes fs))) (of_nat r) more_data
    = (flow_events c more_data fs, Returned)"
  using assms
proof (induction fs arbitrary: r k)
  case Nil
  then show ?case using unread_compare(1) [of r 0] by (cases k) simp_all
next
  case (Cons f fs)
  let ?n = "length (flow_stat_bytes f)" and ?rest = "encoding flow_stat_bytes fs"
  obtain j where k: "k = Suc j" "length fs \<le> j" using Cons.prems(4) by (cases k) simp_all
  have h: "holds m (data + r) (flow_stat_bytes f)" "holds m (data + (r + ?n)) ?rest"
    using Cons.prems(2) by (simp_all add: holds_append ac_simps)
  note at = flow_stat_at [OF h(1)]
  have small: "r + length (encoding flow_stat_bytes (f # fs)) < 65536" "r + ?n + length ?rest < 65536"
    using Cons.prems(3) by simp_all
  have ur: "unat (of_nat r :: u16) = r" "unat (of_nat r + 48 :: u16) = r + 48"
    using small(2) unat_of_nat_u16 [of "r + 48"] by simp_all
  have body: "be16_at m (data + r) - 48 = of_nat (length (flow_stat_body f))" by (simp add: at(1))
  have b: "be16_at m (data + r) - 48 \<noteq> 0"
    using flow_stat_body_length [of f] small(2)
    by (metis body length_flow_stat add_lessD1 add.commute unat_of_nat_u16 unsigned_0 not_numeral_le_zero trans_less_add1)
  have rb: "of_nat r + 48 + (be16_at m (data + r) - 48) = (of_nat (r + ?n) :: u16)"
    by (simp add: at(1))
  have rd: "of_flow_stats_frame_respone m (data + (r + 48)) (ucast (be16_at m (data + r) - 48))
      = Some (Inr (si_match_field_list (flow_stat_info f), si_instruction_list (flow_stat_info f)))"
    using flow_stat_read [OF _ h(1)] Cons.prems(1) small(2) by (simp add: add.assoc)
  have IH: "flow_stats_loop j c m data (of_nat (r + ?n + length ?rest)) (of_nat (r + ?n)) more_data
      = (flow_events c more_data fs, Returned)"
    using Cons.IH [OF _ h(2)] Cons.prems(1) small(2) k(2) by simp
  have e: "r + length (encoding flow_stat_bytes (f # fs)) = r + ?n + length ?rest" by simp
  have big: "\<not> unread (of_nat (r + ?n + length ?rest)) (of_nat r) < of_nat sizeof_ofp_flow_stats"
    using unread_compare(1) [of r "?n + length ?rest"] small(2) flow_stat_body_length [of f]
    by (simp add: add.assoc)
  have info: "(flow_stat_info f)\<lparr>si_instruction_list := [], si_match_field_list := [],
      si_match_field_list := si_match_field_list (flow_stat_info f),
      si_instruction_list := si_instruction_list (flow_stat_info f)\<rparr> = flow_stat_info f"
    by simp
  show ?case
    unfolding k(1) e flow_stats_loop.simps(2) Let_def ur rb
    using big b rd IH unread_compare(2) [OF small(2)]
    by (simp add: at(2,3) info)
qed

lemma flow_stats_length: "56 * length fs \<le> length (encoding flow_stat_bytes fs)"
proof (induction fs)
  case (Cons f fs)
  then show ?case using flow_stat_body_length [of f] by simp
qed simp

lemma no_of_descs:
  assumes "16 + n < 65536" and "0 < d" and "d < 65536"
  shows "unat (OF_MULTIPART_RPLY_MSG_NO_OF_DESC (of_nat (16 + n)) d) = n div d"
proof -
  have "unat (ucast (of_nat (16 + n) :: u16) :: u64) = 16 + n"
    using assms by (simp add: unsigned_ucast_eq unat_of_nat take_bit_nat_eq_self del: of_nat_add)
  then have "ucast (of_nat (16 + n) :: u16) = (of_nat (16 + n) :: u64)"
    using assms by (intro unsigned_word_eqI [where ?'a = nat])
      (simp add: unat_of_nat take_bit_nat_eq_self del: of_nat_add)
  then have "(ucast (of_nat (16 + n) :: u16) - of_nat sizeof_ofp_multipart_reply :: u64) = of_nat n"
    by (simp add: sizeof_ofp_multipart_reply_def)
  moreover have le: "n div d \<le> n" by (rule div_le_dividend)
  have "unat (of_nat n :: u64) = n" "unat (of_nat d :: u64) = d"
    using assms by (simp_all add: unat_of_nat take_bit_nat_eq_self)
  then have "unat ((of_nat n :: u64) div of_nat d) = n div d" by (simp add: unat_div)
  moreover have "n div d < 4294967296" using assms(1) by (intro le_less_trans [OF le]) simp
  ultimately show ?thesis
    by (simp add: OF_MULTIPART_RPLY_MSG_NO_OF_DESC_def unsigned_ucast_eq take_bit_nat_eq_self
        del: of_nat_add)
qed

lemma no_of_desc:
  "16 + n < 65536 \<Longrightarrow> unat (OF_MULTIPART_RPLY_MSG_NO_OF_DESC (of_nat (16 + n)) sizeof_ofp_flow_stats) = n div 56"
  using no_of_descs [of n 56] by (simp add: sizeof_ofp_flow_stats_def)

lemma flow_stats_reply:
  assumes "fs \<noteq> []" and "\<forall>f \<in> set fs. readable_flow_stat f"
    and "holds m (s + 16) (encoding flow_stat_bytes fs)"
    and "be16_at m (h + 2) = of_nat (16 + length (encoding flow_stat_bytes fs))"
    and "16 + length (encoding flow_stat_bytes fs) < 65536"
  shows "of_handle_flow_entry_stats_response c m s h more_data = (flow_events c more_data fs, Returned)"
proof -
  let ?n = "length (encoding flow_stat_bytes fs)"
  let ?k = "OF_MULTIPART_RPLY_MSG_NO_OF_DESC (of_nat (16 + ?n)) sizeof_ofp_flow_stats"
  have "length fs \<le> ?n div 56"
    using flow_stats_length [of fs] by (simp add: less_eq_div_iff_mult_less_eq mult.commute)
  then have k: "length fs \<le> unat ?k" using no_of_desc [OF assms(5)] by simp
  then have "?k \<noteq> 0" using assms(1) by (cases fs) auto
  moreover have "of_nat (16 + ?n) - of_nat sizeof_ofp_multipart_reply = (of_nat (0 + ?n) :: u16)"
    by (simp add: sizeof_ofp_multipart_reply_def)
  moreover have "flow_stats_loop (unat ?k) c m (s + 16) (of_nat (0 + ?n)) (of_nat 0) more_data
      = (flow_events c more_data fs, Returned)"
    using assms(2,3,5) k by (intro loop_events) simp_all
  ultimately show ?thesis
    unfolding of_handle_flow_entry_stats_response_def assms(4)
    by (simp add: Let_def sizeof_ofp_multipart_reply_def)
qed

text \<open>A reply in memory: the length in the header, and the body.\<close>

definition reply_memory :: "u8 list \<Rightarrow> memory" where
  "reply_memory body = write_bytes 1016 body (write_bytes 1002 (be16 (of_nat (16 + length body))) (\<lambda>_. 0))"

lemma reply_memory:
  "holds (reply_memory body) 1016 body" "be16_at (reply_memory body) 1002 = of_nat (16 + length body)"
  by (simp_all add: reply_memory_def be16_at_def read_write_disjoint read_write_at del: of_nat_add)

definition sample_context :: reply_context where
  "sample_context = \<lparr>rc_domain_handle = 1, rc_datapath_handle = 2, rc_app_pvt_arg1 = 3, rc_app_pvt_arg2 = 4\<rparr>"

definition sample_flow :: flow_stat where
  "sample_flow = \<lparr>fs_table = 1, fs_sec = 60, fs_nsec = 0, fs_priority = 7, fs_idle = 0, fs_hard = 30,
     fs_flags = 0, fs_cookie = 99, fs_packets = 5, fs_bytes = 320,
     fs_match = [Oxm 0 (be32 9) None, Oxm 11 (be32 10) (Some (be32 255))],
     fs_instrs = [Apply_actions [Group 3, Output 9 64], Goto_table 2]\<rparr>"

definition sample_drop :: flow_stat where
  "sample_drop = sample_flow\<lparr>fs_table := 2, fs_match := [], fs_instrs := []\<rparr>"

lemma sample_flows:
  "readable_flow_stat sample_flow" "readable_flow_stat sample_drop"
  "length (flow_stat_bytes sample_flow) = 112" "length (flow_stat_bytes sample_drop) = 56"
  by (simp_all add: sample_flow_def sample_drop_def readable_flow_stat_def readable_oxm_def
      kept_field_def oxm_width_def readable_instr_def readable_action_def instr_enc_def action_enc_def
      flow_stat_body_def ROUND_UP_def)

text \<open>
  C8: A flow statistics reply that describes any nonempty sequence of flows makes the
  handler call the application back once for each flow, in order, with its numbers, its match fields with
  their masks, and its instructions with their actions, and return.  This holds of flows that the readers
  keep (\<open>readable_flow_stat\<close>): their match fields and set-field actions are of the basic class at their
  widths, and not IPv6 addresses, fields of neighbour discovery, the extension header or an I-SID; they
  have no set-queue action, no write-actions instruction with actions and no meter, of which the readers lose
  the content (lemmas \<open>queue_lost\<close> and \<open>instruction_lost\<close>).  Nothing is claimed of the flag of the
  callback: the handler passes whether a flow is the last one, while the header documents it as
  \<open>more_entries\<close> (lemma \<open>last_flag_count\<close>).
\<close>

theorem flow_stats_delivered:
  assumes "fs \<noteq> []" and "\<forall>f \<in> set fs. readable_flow_stat f"
    and "holds m (s + 16) (encoding flow_stat_bytes fs)"
    and "be16_at m (h + 2) = of_nat (16 + length (encoding flow_stat_bytes fs))"
    and "16 + length (encoding flow_stat_bytes fs) < 65536"
  shows "\<exists>flags. length flags = length fs
    \<and> of_handle_flow_entry_stats_response c m s h more_data = (map2 (flow_event c) fs flags, Returned)"
  unfolding flow_stats_reply [OF assms] using flow_events_flags [of fs c more_data] by auto

lemma flow_stats_delivered_witness:
  "\<exists>x y. of_handle_flow_entry_stats_response sample_context (reply_memory (encoding flow_stat_bytes [sample_flow, sample_drop])) 1000 1000 0
   = ([Flow_stats_cbk 1 2 1 3 4 OF_RESPONSE_STATUS_SUCCESS (Some (flow_stat_info sample_flow)) x,
       Flow_stats_cbk 1 2 2 3 4 OF_RESPONSE_STATUS_SUCCESS (Some (flow_stat_info sample_drop)) y],
      Returned)"
proof -
  let ?fs = "[sample_flow, sample_drop]"
  have t: "fs_table sample_flow = 1" "fs_table sample_drop = 2"
    by (simp_all add: sample_flow_def sample_drop_def)
  obtain flags where "length flags = length ?fs"
    "of_handle_flow_entry_stats_response sample_context (reply_memory (encoding flow_stat_bytes ?fs)) 1000 1000 0
      = (map2 (flow_event sample_context) ?fs flags, Returned)"
    using flow_stats_delivered [of ?fs "reply_memory (encoding flow_stat_bytes ?fs)" 1000 1000
      sample_context 0]
      reply_memory [of "encoding flow_stat_bytes ?fs"] sample_flows
    by (auto simp del: length_flow_stat)
  moreover from this(1) obtain x y where "flags = [x, y]" by (auto simp: length_Suc_conv)
  ultimately show ?thesis using t by (simp add: flow_event_def sample_context_def)
qed

section \<open>What a reply can do to the handler\<close>

lemma last_flags:
  assumes "more_data \<noteq> 1" and "fs \<noteq> []"
  shows "length (filter cbk_is_last (flow_events c more_data fs))
    = (if 2 \<le> length fs \<and> length (flow_stat_bytes (last fs)) = 56 then 2 else 1)"
  using assms(2)
proof (induction fs rule: induct_list012)
  case (3 f g fs)
  have "length (encoding flow_stat_bytes (g # fs)) \<le> 56 \<longleftrightarrow> fs = [] \<and> length (flow_stat_bytes g) = 56"
    using flow_stat_body_length [of g] flow_stats_length [of fs] by (cases fs) auto
  moreover have "fs \<noteq> [] \<longleftrightarrow> Suc 0 \<le> length fs" by (cases fs) auto
  ultimately show ?case using 3(2) assms(1) by (auto simp del: length_flow_stat)
qed (use assms(1) in auto)

text \<open>
  In a complete reply, one callback is marked as the last, unless the last of
  several flows takes 56 bytes (an empty match and nothing else): then two are, and the application
  that releases its state with the first mark is called once more.
\<close>

theorem last_flag_count:
  assumes "fs \<noteq> []" and "\<forall>f \<in> set fs. readable_flow_stat f"
    and "holds m (s + 16) (encoding flow_stat_bytes fs)"
    and "be16_at m (h + 2) = of_nat (16 + length (encoding flow_stat_bytes fs))"
    and "16 + length (encoding flow_stat_bytes fs) < 65536" and "more_data \<noteq> 1"
  shows "length (filter cbk_is_last (fst (of_handle_flow_entry_stats_response c m s h more_data)))
    = (if 2 \<le> length fs \<and> length (flow_stat_bytes (last fs)) = 56 then 2 else 1)"
  by (simp add: flow_stats_reply [OF assms(1-5)] last_flags [OF assms(6,1)])

lemma last_flag_count_witness:
  "length (filter cbk_is_last (fst (of_handle_flow_entry_stats_response sample_context
     (reply_memory (encoding flow_stat_bytes [sample_flow, sample_drop])) 1000 1000 0))) = 2"
  using last_flag_count [of "[sample_flow, sample_drop]"
      "reply_memory (encoding flow_stat_bytes [sample_flow, sample_drop])" 1000 1000 0 sample_context]
    reply_memory [of "encoding flow_stat_bytes [sample_flow, sample_drop]"] sample_flows
  by (simp del: length_flow_stat)

text \<open>
  The reader of a match field writes outside the entry exactly when the field has
  a mask and a length of at least 94, twice the room for the mask and more.
\<close>

theorem mask_overrun:
  "of_frame_match_field_response m p n = Inl Mask_overrun \<longleftrightarrow> odd (m (p + 2)) \<and> 94 \<le> m (p + 3)"
proof -
  have "46 < unat (m (p + 3)) div 2 \<longleftrightarrow> 94 \<le> unat (m (p + 3))" by linarith
  moreover have "94 \<le> m (p + 3) \<longleftrightarrow> 94 \<le> unat (m (p + 3))" by (simp add: word_le_nat_alt)
  moreover have "m (p + 2) AND 1 \<noteq> 0 \<longleftrightarrow> odd (m (p + 2))" by (simp add: and_one_eq odd_iff_mod_2_eq_one)
  ultimately show ?thesis
    unfolding of_frame_match_field_response_def Let_def OFU_FLOW_MATCH_FIELD_LEN_def by simp
qed

definition known_instruction :: "u16 \<Rightarrow> bool" where
  "known_instruction ty \<longleftrightarrow> ty \<in> {OFPIT_GOTO_TABLE, OFPIT_WRITE_METADATA, OFPIT_WRITE_ACTIONS,
     OFPIT_APPLY_ACTIONS, OFPIT_CLEAR_ACTIONS, OFPIT_METER, OFPIT_EXPERIMENTER}"

lemma unknown_instruction_stuck:
  assumes "\<not> known_instruction (be16_at m p)"
  shows "\<exists>e. instruction_reader m p = Some (Inr (e, 0))"
  using assms by (simp add: known_instruction_def instruction_reader_def
      of_frame_instruction_response_def Let_def)

lemma unknown_instruction_body:
  assumes "\<forall>t \<in> set ts. readable_oxm t" and "\<forall>i \<in> set cs. readable_instr i"
    and "holds m p (match_bytes ts @ encoding instr_enc cs)"
    and "length (match_bytes ts @ encoding instr_enc cs) < len" and "len < 65536"
    and "\<not> known_instruction (be16_at m (p + length (match_bytes ts @ encoding instr_enc cs)))"
  shows "of_flow_stats_frame_respone m p (of_nat len) = None"
proof -
  let ?cs = "encoding instr_enc cs"
  define k where "k = 4 + length (encoding oxm_bytes ts)"
  define rest where "rest = len - length (match_bytes ts @ ?cs)"
  have k: "4 \<le> k" "k < 65536" "length (match_bytes ts) = k + ROUND_UP k"
    using assms(4,5) by (simp_all add: k_def)
  have len: "len = (k + ROUND_UP k) + (length ?cs + rest)" "0 < rest"
    using assms(4) k(3) by (simp_all add: rest_def)
  note at = match_bytes_at [OF assms(3), folded k_def]
  have ml: "ucast (be16_at m (p + 2)) = (of_nat k :: u32)"
    unfolding at(1) by (rule ucast_of_nat_u16 [OF k(2)])
  have pad: "unat (of_nat (k + ROUND_UP k) - of_nat k :: u32) = ROUND_UP k"
    using round_up_lt [of k] by (simp add: unat_of_nat take_bit_nat_eq_self)
  have fields: "read_elements match_reader m (p + 4) (of_nat k - 4) = Some (Inr (map match_entry ts, p + k))"
    using mr.read_all [OF assms(1) at(2)] k(2) by (simp add: k_def add.assoc)
  have "\<not> known_instruction (be16_at m (p + k + ROUND_UP k + length ?cs))"
    using assms(6) unfolding length_append k(3) by (simp add: add.assoc)
  then obtain e where "instruction_reader m (p + k + ROUND_UP k + length ?cs) = Some (Inr (e, 0))"
    using unknown_instruction_stuck by blast
  moreover have rest: "unat (of_nat rest :: u32) = rest"
    using len(1) assms(5) by (intro unat_of_nat_u32) simp
  ultimately have "read_elements instruction_reader m (p + k + ROUND_UP k) (of_nat (length ?cs) + of_nat rest) = None"
    using len assms(5) by (intro ir.read_ahead [OF assms(2) at(3)] read_elements_stuck) auto
  moreover have "of_nat len - of_nat (k + ROUND_UP k) = (of_nat (length ?cs) + of_nat rest :: u32)"
    by (simp add: len(1))
  ultimately show ?thesis
    unfolding of_flow_stats_frame_respone_def ml Let_def match_padding [OF k(1,2)]
    by (simp only: fields bind.bind_lunit bind.bind_lzero sum.case prod.case pad)
qed

text \<open>
  An instruction of a type the reader does not know, behind any
  readable instructions of the first flow of a reply, keeps the handler from ever returning: the
  application gets no callback, and the thread that reads the channel is lost.
\<close>

theorem unknown_instruction_hangs:
  assumes "\<forall>t \<in> set ts. readable_oxm t" and "\<forall>i \<in> set cs. readable_instr i"
    and "holds m (s + 64) (match_bytes ts @ encoding instr_enc cs)"
    and "be16_at m (s + 16) = of_nat (48 + len)" and "48 + len < 65536"
    and "length (match_bytes ts @ encoding instr_enc cs) < len"
    and "\<not> known_instruction (be16_at m (s + 64 + length (match_bytes ts @ encoding instr_enc cs)))"
    and "be16_at m (h + 2) = of_nat (16 + n)" and "16 + n < 65536" and "56 \<le> n"
  shows "of_handle_flow_entry_stats_response c m s h more_data = ([], Looping)"
proof -
  have "of_flow_stats_frame_respone m (s + 64) (of_nat len) = None"
    using assms(5) by (intro unknown_instruction_body [OF assms(1-3,6) _ assms(7)]) simp
  moreover have "be16_at m (s + 16) - 48 = of_nat len" by (simp add: assms(4))
  moreover have "ucast (of_nat len :: u16) = (of_nat len :: u32)"
    using assms(5) by (intro ucast_of_nat_u16) simp
  moreover have "unat (of_nat len :: u16) = len" using assms(5) by (intro unat_of_nat_u16) simp
  then have "of_nat len \<noteq> (0 :: u16)" using assms(6) by (metis less_nat_zero_code unsigned_0)
  ultimately have step: "of_flow_stats_frame_respone m (s + 64) (ucast (be16_at m (s + 16) - 48)) = None"
    "be16_at m (s + 16) - 48 \<noteq> 0"
    by simp_all
  have "\<not> unread (of_nat (0 + n)) (of_nat 0) < of_nat sizeof_ofp_flow_stats"
    using unread_compare(1) [of 0 n] assms(9,10) by simp
  then have loop: "flow_stats_loop (Suc k) c m (s + 16) (of_nat n) 0 more_data = ([], Looping)" for k
    using step by (simp add: Let_def add.commute [of 64])
  let ?no = "OF_MULTIPART_RPLY_MSG_NO_OF_DESC (of_nat (16 + n)) sizeof_ofp_flow_stats"
  have no: "unat ?no = Suc (n div 56 - 1)"
    using no_of_desc [OF assms(9)] assms(10) by (simp add: div_greater_zero_iff)
  then have "?no \<noteq> 0" by (metis nat.distinct(1) unsigned_0)
  moreover have "of_nat (16 + n) - of_nat sizeof_ofp_multipart_reply = (of_nat n :: u16)"
    by (simp add: sizeof_ofp_multipart_reply_def)
  ultimately show ?thesis
    unfolding of_handle_flow_entry_stats_response_def assms(8) Let_def no
    by (simp only: if_False sizeof_ofp_multipart_reply_def loop)
qed

lemma unknown_instruction_hangs_witness:
  "of_handle_flow_entry_stats_response sample_context
     (reply_memory (be16 64 @ replicate 46 0 @ match_bytes [] @ be16 9 @ be16 8 @ replicate 4 0)) 1000 1000 0
   = ([], Looping)"
proof -
  let ?b = "be16 64 @ replicate 46 0 @ match_bytes [] @ be16 9 @ be16 8 @ replicate 4 0"
  have len: "length ?b = 64" by (simp add: ROUND_UP_def)
  have "holds (reply_memory ?b) 1016 (be16 64)" "holds (reply_memory ?b) 1064 (match_bytes [])"
    "holds (reply_memory ?b) 1072 (be16 9)"
    using reply_memory(1) [of ?b] unfolding holds_append by (simp_all add: ROUND_UP_def)
  then show ?thesis
    using unknown_instruction_hangs [of "[]" "[]" "reply_memory ?b" 1000 16 1000 64 sample_context 0]
      reply_memory(2) [of ?b] len
    by (simp add: at_holds ROUND_UP_def known_instruction_def layout_simps OFPIT_EXPERIMENTER_def)
qed

end
