(* ===== verification/ReplyStats.thy ===== *)
theory ReplyStats
  imports ReplyFlow
begin

text \<open>
  The handlers of statistics replies whose descriptions have a fixed size (\<open>of_cntlr_msg.c\<close>): ports,
  port statistics, tables, aggregates and group features, and the single meter features.  They run over the
  descriptions the length of the message announces and call the application back for each.
\<close>

section \<open>The loop over descriptions of a fixed size\<close>

text \<open>
  A callback: the two handles in the places of domain and datapath, the number it is given (if its
  type has one), the arguments of the request, the status, the information and
  the last mark.
\<close>

datatype 'a reply_cbk =
  Reply_cbk (rep_domain: u64) (rep_datapath: u64) (rep_number: "u32 option") (rep_arg1: nat)
    (rep_arg2: nat) (rep_status: response_status) (rep_info: "'a option") (rep_last: "bool option")

text \<open>
  The callbacks for ports, tables and aggregates take their number as a \<open>uint8_t\<close>, and so get its low eight
  bits.
\<close>

definition as_uint8 :: "u32 \<Rightarrow> u32" where "as_uint8 n = ucast (ucast n :: u8)"

text \<open>
  The body of the loop gets the address of the description and the round number; the offset of the
  next description is a 16 bit number.
\<close>

fun counted_loop :: "nat \<Rightarrow> (nat \<Rightarrow> u32 \<Rightarrow> 'cb) \<Rightarrow> nat \<Rightarrow> nat \<Rightarrow> u16 \<Rightarrow> u32 \<Rightarrow> 'cb list" where
  "counted_loop 0 body desc_size data bytes_read no = []"
| "counted_loop (Suc k) body desc_size data bytes_read no =
     body (data + unat bytes_read) no
     # counted_loop k body desc_size data (bytes_read + of_nat desc_size) (no + 1)"

lemma no_of_nothing: "OF_MULTIPART_RPLY_MSG_NO_OF_DESC 16 d = 0"
  by (simp add: OF_MULTIPART_RPLY_MSG_NO_OF_DESC_def sizeof_ofp_multipart_reply_def)

text \<open>What the loop relies on: a description of this size that can be read back.\<close>

locale fixed_desc =
  fixes read :: "memory \<Rightarrow> nat \<Rightarrow> 'i"
    and enc :: "'i \<Rightarrow> u8 list"
    and ok :: "'i \<Rightarrow> bool"
    and desc_size :: nat
  assumes read_enc: "ok x \<Longrightarrow> holds m e (enc x) \<Longrightarrow> read m e = x"
    and enc_size: "ok x \<Longrightarrow> length (enc x) = desc_size"
begin

lemma encoding_size: "\<forall>x \<in> set xs. ok x \<Longrightarrow> length (encoding enc xs) = length xs * desc_size"
  by (induction xs) (simp_all add: enc_size)

lemma loop_all:
  assumes "\<forall>x \<in> set xs. ok x" and "holds m (data + r) (encoding enc xs)"
    and "r + length (encoding enc xs) < 65536"
  shows "counted_loop (length xs) (\<lambda>e no. f (read m e) no) desc_size data (of_nat r) no
    = map (\<lambda>(i, x). f x (no + of_nat i)) (enumerate 0 xs)"
  using assms
proof (induction xs arbitrary: r no)
  case (Cons x xs)
  have x: "holds m (data + r) (enc x)" "ok x" using Cons.prems(1,2) by (simp_all add: holds_append)
  have ur: "unat (of_nat r :: u16) = r" using Cons.prems(3) by simp
  have rest: "holds m (data + (r + desc_size)) (encoding enc xs)"
    using Cons.prems(2) enc_size [OF x(2)] by (simp add: holds_append add.assoc)
  have "counted_loop (length xs) (\<lambda>e no. f (read m e) no) desc_size data (of_nat (r + desc_size)) (no + 1)
      = map (\<lambda>(i, x). f x (no + 1 + of_nat i)) (enumerate 0 xs)"
    using Cons.IH [OF _ rest] Cons.prems(1,3) enc_size [OF x(2)] by simp
  moreover have "map (\<lambda>(i, x). f x (no + 1 + of_nat i)) (enumerate 0 xs)
      = map (\<lambda>(i, x). f x (no + of_nat i)) (enumerate 1 xs)"
    unfolding enumerate_Suc_eq [of 0 xs, folded One_nat_def] by (simp add: split_def add.assoc)
  ultimately show ?case
    using read_enc [OF x(2) x(1)] ur by simp
qed simp

lemma reply_all:
  assumes "\<forall>x \<in> set xs. ok x" and "holds m (s + 16) (encoding enc xs)"
    and "16 + length (encoding enc xs) < 65536" and "0 < desc_size"
  shows "counted_loop (unat (OF_MULTIPART_RPLY_MSG_NO_OF_DESC (of_nat (16 + length (encoding enc xs))) desc_size))
      (\<lambda>e no. f (read m e) no) desc_size (s + 16) 0 1
    = map (\<lambda>(i, x). f x (of_nat (Suc i))) (enumerate 0 xs)"
    and "OF_MULTIPART_RPLY_MSG_NO_OF_DESC (of_nat (16 + length (encoding enc xs))) desc_size = of_nat (length xs)"
proof -
  let ?n = "OF_MULTIPART_RPLY_MSG_NO_OF_DESC (of_nat (16 + length (encoding enc xs))) desc_size"
  have len: "length (encoding enc xs) = length xs * desc_size" using encoding_size [OF assms(1)] .
  have "unat ?n = length xs"
  proof (cases "xs = []")
    case True
    then show ?thesis using no_of_nothing [of desc_size] by simp
  next
    case False
    then have "desc_size \<le> length (encoding enc xs)" unfolding len by (cases xs) simp_all
    then have "desc_size < 65536" using assms(3) by linarith
    then show ?thesis using no_of_descs [OF assms(3,4)] assms(4) by (simp add: len)
  qed
  then show "?n = of_nat (length xs)" by (metis of_nat_unat ucast_id)
  show "counted_loop (unat ?n) (\<lambda>e no. f (read m e) no) desc_size (s + 16) 0 1
      = map (\<lambda>(i, x). f x (of_nat (Suc i))) (enumerate 0 xs)"
    unfolding \<open>unat ?n = length xs\<close> using loop_all [of xs m "s + 16" 0 f 1] assms(1-3)
    by (simp add: add.commute)
qed

end

section \<open>Tables, aggregates, port statistics, group features\<close>

record ofi_table_stats_info =
  tsi_table_id :: u8
  tsi_active_count :: u32
  tsi_lookup_count :: u64
  tsi_matched_count :: u64

definition read_table_stats :: "memory \<Rightarrow> nat \<Rightarrow> ofi_table_stats_info" where
  "read_table_stats m e =
     \<lparr>tsi_table_id = m e, tsi_active_count = be32_at m (e + 4), tsi_lookup_count = be64_at m (e + 8),
      tsi_matched_count = be64_at m (e + 16)\<rparr>"

definition of_handle_table_stats_response ::
  "reply_context \<Rightarrow> memory \<Rightarrow> nat \<Rightarrow> nat \<Rightarrow> u8 \<Rightarrow> ofi_table_stats_info reply_cbk list" where
  "of_handle_table_stats_response c m start p_msg_hdr more_data =
     (let no_of_tables = OF_MULTIPART_RPLY_MSG_NO_OF_DESC (be16_at m (p_msg_hdr + 2)) 24;
          cbks = counted_loop (unat no_of_tables) (\<lambda>e table_no.
              Reply_cbk (rc_domain_handle c) (rc_datapath_handle c) (Some (as_uint8 table_no))
                (rc_app_pvt_arg1 c) (rc_app_pvt_arg2 c) OF_RESPONSE_STATUS_SUCCESS
                (Some (read_table_stats m e)) (Some (more_data \<noteq> 1 \<and> table_no = no_of_tables)))
            24 (start + sizeof_ofp_multipart_reply) 0 1
      in if no_of_tables = 0
         then cbks @ [Reply_cbk (rc_domain_handle c) (rc_datapath_handle c) (Some 1) 0 0
                        OF_RESPONSE_STATUS_ERROR None (Some True)]
         else cbks)"

record ofi_aggregate_flow_stats =
  agg_packet_count :: u64
  agg_byte_count :: u64
  agg_flow_count :: u32

definition read_aggregate_stats :: "memory \<Rightarrow> nat \<Rightarrow> ofi_aggregate_flow_stats" where
  "read_aggregate_stats m e =
     \<lparr>agg_packet_count = be64_at m e, agg_byte_count = be64_at m (e + 8),
      agg_flow_count = be32_at m (e + 16)\<rparr>"

definition of_handle_aggregate_stats_response ::
  "reply_context \<Rightarrow> memory \<Rightarrow> nat \<Rightarrow> nat \<Rightarrow> u8 \<Rightarrow> ofi_aggregate_flow_stats reply_cbk list" where
  "of_handle_aggregate_stats_response c m start p_msg_hdr more_data =
     (let no_of_aggrstats = OF_MULTIPART_RPLY_MSG_NO_OF_DESC (be16_at m (p_msg_hdr + 2)) 24;
          cbks = counted_loop (unat no_of_aggrstats) (\<lambda>e aggrstats_no.
              Reply_cbk (rc_domain_handle c) (rc_datapath_handle c) (Some (as_uint8 aggrstats_no))
                (rc_app_pvt_arg1 c) (rc_app_pvt_arg2 c) OF_RESPONSE_STATUS_SUCCESS
                (Some (read_aggregate_stats m e)) (Some (more_data \<noteq> 1 \<and> aggrstats_no = no_of_aggrstats)))
            24 (start + sizeof_ofp_multipart_reply) 0 1
      in if no_of_aggrstats = 0
         then cbks @ [Reply_cbk (rc_domain_handle c) (rc_datapath_handle c) (Some 0) 0 0
                        OF_RESPONSE_STATUS_ERROR None (Some True)]
         else cbks)"

record ofi_port_stats_info =
  psi_port_no :: u32
  psi_rx_packets :: u64
  psi_tx_packets :: u64
  psi_rx_bytes :: u64
  psi_tx_bytes :: u64
  psi_rx_dropped :: u64
  psi_tx_dropped :: u64
  psi_rx_errors :: u64
  psi_tx_errors :: u64
  psi_rx_frame_err :: u64
  psi_rx_over_err :: u64
  psi_rx_crc_err :: u64
  psi_collisions :: u64
  psi_duration_sec :: u32
  psi_duration_nsec :: u32

definition read_port_stats :: "memory \<Rightarrow> nat \<Rightarrow> ofi_port_stats_info" where
  "read_port_stats m e =
     \<lparr>psi_port_no = be32_at m e,
      psi_rx_packets = be64_at m (e + 8),
      psi_tx_packets = be64_at m (e + 16),
      psi_rx_bytes = be64_at m (e + 24),
      psi_tx_bytes = be64_at m (e + 32),
      psi_rx_dropped = be64_at m (e + 40),
      psi_tx_dropped = be64_at m (e + 48),
      psi_rx_errors = be64_at m (e + 56),
      psi_tx_errors = be64_at m (e + 64),
      psi_rx_frame_err = be64_at m (e + 72),
      psi_rx_over_err = be64_at m (e + 80),
      psi_rx_crc_err = be64_at m (e + 88),
      psi_collisions = be64_at m (e + 96),
      psi_duration_sec = be32_at m (e + 104), psi_duration_nsec = be32_at m (e + 108)\<rparr>"

definition of_handle_port_stats_response ::
  "reply_context \<Rightarrow> memory \<Rightarrow> nat \<Rightarrow> nat \<Rightarrow> u8 \<Rightarrow> ofi_port_stats_info reply_cbk list" where
  "of_handle_port_stats_response c m start p_msg_hdr more_data =
     (let no_of_ports = OF_MULTIPART_RPLY_MSG_NO_OF_DESC (be16_at m (p_msg_hdr + 2)) 112;
          cbks = counted_loop (unat no_of_ports) (\<lambda>e port_no.
              Reply_cbk (rc_domain_handle c) (rc_datapath_handle c) (Some (as_uint8 port_no))
                (rc_app_pvt_arg1 c) (rc_app_pvt_arg2 c) OF_RESPONSE_STATUS_SUCCESS
                (Some (read_port_stats m e)) (Some (more_data \<noteq> 1 \<and> port_no = no_of_ports)))
            112 (start + sizeof_ofp_multipart_reply) 0 1
      in if no_of_ports = 0
         then cbks @ [Reply_cbk (rc_domain_handle c) (rc_datapath_handle c) (Some 1) 0 0
                        OF_RESPONSE_STATUS_ERROR None (Some True)]
         else cbks)"

record ofi_group_features_info =
  gf_types :: u32
  gf_capabilities :: u32
  gf_max_groups :: "u32 list"
  gf_actions :: "u32 list"

definition read_group_features :: "memory \<Rightarrow> nat \<Rightarrow> ofi_group_features_info" where
  "read_group_features m e =
     \<lparr>gf_types = be32_at m e, gf_capabilities = be32_at m (e + 4),
      gf_max_groups = map (\<lambda>i. be32_at m (e + 8 + 4 * i)) [0, 1, 2, 3],
      gf_actions = map (\<lambda>i. be32_at m (e + 24 + 4 * i)) [0, 1, 2, 3]\<rparr>"

text \<open>No failure is reported when there is no description, and no mark for the last one.\<close>

definition of_handle_group_features_response ::
  "reply_context \<Rightarrow> memory \<Rightarrow> nat \<Rightarrow> nat \<Rightarrow> u8 \<Rightarrow> ofi_group_features_info reply_cbk list" where
  "of_handle_group_features_response c m start p_msg_hdr more_data =
     (let no_of_groups = OF_MULTIPART_RPLY_MSG_NO_OF_DESC (be16_at m (p_msg_hdr + 2)) 40
      in counted_loop (unat no_of_groups) (\<lambda>e group_no.
           Reply_cbk (rc_domain_handle c) (rc_datapath_handle c) None
             (rc_app_pvt_arg1 c) (rc_app_pvt_arg2 c) OF_RESPONSE_STATUS_SUCCESS
             (Some (read_group_features m e)) None)
         40 (start + sizeof_ofp_multipart_reply) 0 1)"

record ofi_meter_features_info =
  mfi_max_meter :: u32
  mfi_band_types :: u32
  mfi_capabilities :: u32
  mfi_max_bands :: u8
  mfi_max_color :: u8

definition read_meter_features :: "memory \<Rightarrow> nat \<Rightarrow> ofi_meter_features_info" where
  "read_meter_features m e =
     \<lparr>mfi_max_meter = be32_at m e, mfi_band_types = be32_at m (e + 4),
      mfi_capabilities = be32_at m (e + 8), mfi_max_bands = m (e + 12), mfi_max_color = m (e + 13)\<rparr>"

text \<open>One description is read whatever the length of the message.\<close>

definition of_handle_meter_features_response ::
  "reply_context \<Rightarrow> memory \<Rightarrow> nat \<Rightarrow> nat \<Rightarrow> u8 \<Rightarrow> ofi_meter_features_info reply_cbk list" where
  "of_handle_meter_features_response c m start p_msg_hdr more_data =
     [Reply_cbk (rc_domain_handle c) (rc_datapath_handle c) None (rc_app_pvt_arg1 c)
        (rc_app_pvt_arg2 c) OF_RESPONSE_STATUS_SUCCESS
        (Some (read_meter_features m (start + sizeof_ofp_multipart_reply))) None]"

section \<open>Port descriptions\<close>

record ofl_port_desc_info =
  pd_port_no :: u32
  pd_hw_addr :: "u8 list"
  pd_name :: "u8 list"
  pd_config :: u32
  pd_state :: u32
  pd_curr :: u32
  pd_advertised :: u32
  pd_supported :: u32
  pd_peer :: u32
  pd_curr_speed :: u32
  pd_max_speed :: u32

text \<open>\<open>strncpy\<close> copies up to the first zero byte and fills with zeros.\<close>

definition strncpy_bytes :: "nat \<Rightarrow> u8 list \<Rightarrow> u8 list" where
  "strncpy_bytes n bs = (let t = takeWhile (\<lambda>b. b \<noteq> 0) (take n bs) in t @ replicate (n - length t) 0)"

definition read_port_desc :: "memory \<Rightarrow> nat \<Rightarrow> ofl_port_desc_info" where
  "read_port_desc m e =
     \<lparr>pd_port_no = be32_at m e, pd_hw_addr = read_bytes (e + 8) 6 m,
      pd_name = strncpy_bytes 16 (read_bytes (e + 16) 16 m), pd_config = be32_at m (e + 32),
      pd_state = be32_at m (e + 36), pd_curr = be32_at m (e + 40), pd_advertised = be32_at m (e + 44),
      pd_supported = be32_at m (e + 48), pd_peer = be32_at m (e + 52),
      pd_curr_speed = be32_at m (e + 56), pd_max_speed = be32_at m (e + 60)\<rparr>"

datatype port_event = Port_desc_cbk "ofl_port_desc_info reply_cbk" | Dp_ready_event

text \<open>
  The handler marks the last port of every message, and makes the datapath ready with it when the
  message came over the main connection.  There is one last round at most, so the flag it looks at is
  the one the handler starts with.
\<close>

definition of_handle_port_status_response ::
  "reply_context \<Rightarrow> memory \<Rightarrow> nat \<Rightarrow> nat \<Rightarrow> u32 \<Rightarrow> bool \<Rightarrow> port_event list \<times> bool" where
  "of_handle_port_status_response c m start p_msg_hdr auxiliary_id is_dp_ready =
     (let no_of_ports = OF_MULTIPART_RPLY_MSG_NO_OF_DESC (be16_at m (p_msg_hdr + 2)) 64;
          becomes_ready = auxiliary_id = OF_TRNSPRT_MAIN_CONN_ID \<and> \<not> is_dp_ready;
          events = concat (counted_loop (unat no_of_ports) (\<lambda>e port_no.
              let port_desc = read_port_desc m e;
                  is_last_port = (port_no = no_of_ports)
              in Port_desc_cbk (Reply_cbk (rc_domain_handle c) (rc_datapath_handle c)
                   (Some (as_uint8 (pd_port_no port_desc))) (rc_app_pvt_arg1 c) (rc_app_pvt_arg2 c)
                   OF_RESPONSE_STATUS_SUCCESS (Some port_desc) (Some is_last_port))
                 # (if is_last_port \<and> becomes_ready then [Dp_ready_event] else []))
            64 (start + sizeof_ofp_multipart_reply) 0 1)
      in (events, is_dp_ready \<or> (no_of_ports \<noteq> 0 \<and> becomes_ready)))"

section \<open>The descriptions, as the datapath encodes them\<close>

definition table_stats_bytes :: "ofi_table_stats_info \<Rightarrow> u8 list" where
  "table_stats_bytes t = [tsi_table_id t, 0, 0, 0] @ be32 (tsi_active_count t)
     @ be64 (tsi_lookup_count t) @ be64 (tsi_matched_count t)"

definition aggregate_stats_bytes :: "ofi_aggregate_flow_stats \<Rightarrow> u8 list" where
  "aggregate_stats_bytes a = be64 (agg_packet_count a) @ be64 (agg_byte_count a)
     @ be32 (agg_flow_count a) @ replicate 4 0"

definition port_stats_bytes :: "ofi_port_stats_info \<Rightarrow> u8 list" where
  "port_stats_bytes q = be32 (psi_port_no q) @ replicate 4 0
     @ be64 (psi_rx_packets q)
     @ be64 (psi_tx_packets q)
     @ be64 (psi_rx_bytes q)
     @ be64 (psi_tx_bytes q)
     @ be64 (psi_rx_dropped q)
     @ be64 (psi_tx_dropped q)
     @ be64 (psi_rx_errors q)
     @ be64 (psi_tx_errors q)
     @ be64 (psi_rx_frame_err q)
     @ be64 (psi_rx_over_err q)
     @ be64 (psi_rx_crc_err q)
     @ be64 (psi_collisions q)
     @ be32 (psi_duration_sec q) @ be32 (psi_duration_nsec q)"

definition group_features_bytes :: "ofi_group_features_info \<Rightarrow> u8 list" where
  "group_features_bytes g = be32 (gf_types g) @ be32 (gf_capabilities g)
     @ encoding be32 (gf_max_groups g) @ encoding be32 (gf_actions g)"

definition port_desc_bytes :: "ofl_port_desc_info \<Rightarrow> u8 list" where
  "port_desc_bytes q = be32 (pd_port_no q) @ replicate 4 0 @ pd_hw_addr q @ replicate 2 0 @ pd_name q
     @ be32 (pd_config q) @ be32 (pd_state q) @ be32 (pd_curr q) @ be32 (pd_advertised q)
     @ be32 (pd_supported q) @ be32 (pd_peer q) @ be32 (pd_curr_speed q) @ be32 (pd_max_speed q)"

text \<open>A name of 16 bytes in which only zeros follow the first zero, and an address of six.\<close>

definition proper_port :: "ofl_port_desc_info \<Rightarrow> bool" where
  "proper_port q \<longleftrightarrow> length (pd_hw_addr q) = 6 \<and> length (pd_name q) = 16
     \<and> strncpy_bytes 16 (pd_name q) = pd_name q"

definition four_groups :: "ofi_group_features_info \<Rightarrow> bool" where
  "four_groups g \<longleftrightarrow> length (gf_max_groups g) = 4 \<and> length (gf_actions g) = 4"

lemma length_4_obtain: "length xs = 4 \<Longrightarrow> \<exists>a b c d. xs = [a, b, c, d]"
  by (auto simp: numeral_eq_Suc length_Suc_conv)

interpretation tables: fixed_desc read_table_stats table_stats_bytes "\<lambda>_. True" 24
proof
  fix t m e
  assume "holds m e (table_stats_bytes t)"
  then have "holds m e [tsi_table_id t, 0, 0, 0]" "holds m (e + 4) (be32 (tsi_active_count t))"
    "holds m (e + 8) (be64 (tsi_lookup_count t))" "holds m (e + 16) (be64 (tsi_matched_count t))"
    unfolding table_stats_bytes_def holds_append by (simp_all add: numeral_eq_Suc)
  then show "read_table_stats m e = t"
    using reads_back(5) [of m e "tsi_table_id t"] by (simp add: read_table_stats_def at_holds)
qed (simp add: table_stats_bytes_def)

interpretation aggregates: fixed_desc read_aggregate_stats aggregate_stats_bytes "\<lambda>_. True" 24
proof
  fix a m e
  assume "holds m e (aggregate_stats_bytes a)"
  then have "holds m e (be64 (agg_packet_count a))" "holds m (e + 8) (be64 (agg_byte_count a))"
    "holds m (e + 16) (be32 (agg_flow_count a))"
    unfolding aggregate_stats_bytes_def holds_append by (simp_all add: ac_simps)
  then show "read_aggregate_stats m e = a" by (simp add: read_aggregate_stats_def at_holds)
qed (simp add: aggregate_stats_bytes_def)

interpretation port_statistics: fixed_desc read_port_stats port_stats_bytes "\<lambda>_. True" 112
proof
  fix q m e
  assume "holds m e (port_stats_bytes q)"
  then have "holds m e (be32 (psi_port_no q))"
    "holds m (e + 8) (be64 (psi_rx_packets q))"
    "holds m (e + 16) (be64 (psi_tx_packets q))"
    "holds m (e + 24) (be64 (psi_rx_bytes q))"
    "holds m (e + 32) (be64 (psi_tx_bytes q))"
    "holds m (e + 40) (be64 (psi_rx_dropped q))"
    "holds m (e + 48) (be64 (psi_tx_dropped q))"
    "holds m (e + 56) (be64 (psi_rx_errors q))"
    "holds m (e + 64) (be64 (psi_tx_errors q))"
    "holds m (e + 72) (be64 (psi_rx_frame_err q))"
    "holds m (e + 80) (be64 (psi_rx_over_err q))"
    "holds m (e + 88) (be64 (psi_rx_crc_err q))"
    "holds m (e + 96) (be64 (psi_collisions q))"
    "holds m (e + 104) (be32 (psi_duration_sec q))" "holds m (e + 108) (be32 (psi_duration_nsec q))"
    unfolding port_stats_bytes_def holds_append by (simp_all add: ac_simps)
  then show "read_port_stats m e = q" by (simp add: read_port_stats_def at_holds)
qed (simp add: port_stats_bytes_def)

interpretation group_features: fixed_desc read_group_features group_features_bytes four_groups 40
proof
  fix g m e
  assume "four_groups g" and h: "holds m e (group_features_bytes g)"
  then obtain a b c d w x y z where l: "gf_max_groups g = [a, b, c, d]" "gf_actions g = [w, x, y, z]"
    unfolding four_groups_def by (metis length_4_obtain)
  have "holds m e (be32 (gf_types g))" "holds m (e + 4) (be32 (gf_capabilities g))"
    "holds m (e + 8) (be32 a)" "holds m (12 + e) (be32 b)" "holds m (16 + e) (be32 c)"
    "holds m (20 + e) (be32 d)" "holds m (e + 24) (be32 w)" "holds m (28 + e) (be32 x)"
    "holds m (32 + e) (be32 y)" "holds m (36 + e) (be32 z)"
    using h unfolding group_features_bytes_def l holds_append by (simp_all add: holds_append ac_simps)
  then show "read_group_features m e = g"
    using l by (simp add: read_group_features_def at_holds)
next
  fix g
  assume "four_groups g"
  then show "length (group_features_bytes g) = 40"
    unfolding four_groups_def group_features_bytes_def by (simp add: encoding_def length_concat comp_def sum_list_triv)
qed

interpretation ports: fixed_desc read_port_desc port_desc_bytes proper_port 64
proof
  fix q m e
  assume q: "proper_port q" and "holds m e (port_desc_bytes q)"
  then have "holds m e (be32 (pd_port_no q))" "holds m (e + 8) (pd_hw_addr q)"
    "holds m (e + 16) (pd_name q)" "holds m (e + 32) (be32 (pd_config q))"
    "holds m (e + 36) (be32 (pd_state q))" "holds m (e + 40) (be32 (pd_curr q))"
    "holds m (e + 44) (be32 (pd_advertised q))" "holds m (e + 48) (be32 (pd_supported q))"
    "holds m (e + 52) (be32 (pd_peer q))" "holds m (e + 56) (be32 (pd_curr_speed q))"
    "holds m (e + 60) (be32 (pd_max_speed q))"
    unfolding port_desc_bytes_def holds_append proper_port_def by (simp_all add: ac_simps)
  moreover from this(2,3) have "read_bytes (e + 8) 6 m = pd_hw_addr q" "read_bytes (e + 16) 16 m = pd_name q"
    using q by (auto simp: holds_def proper_port_def)
  ultimately show "read_port_desc m e = q"
    using q by (simp add: read_port_desc_def proper_port_def at_holds)
qed (simp add: port_desc_bytes_def proper_port_def)

text \<open>The replies about tables and ports, from the facts of their descriptions.\<close>

lemma table_stats_delivered:
  assumes "holds m (s + 16) (encoding table_stats_bytes ts)" and "ts \<noteq> []"
    and "be16_at m (h + 2) = of_nat (16 + length (encoding table_stats_bytes ts))"
    and "16 + length (encoding table_stats_bytes ts) < 65536"
  shows "of_handle_table_stats_response c m s h more_data =
    map (\<lambda>(i, t). Reply_cbk (rc_domain_handle c) (rc_datapath_handle c) (Some (as_uint8 (of_nat (Suc i))))
           (rc_app_pvt_arg1 c) (rc_app_pvt_arg2 c) OF_RESPONSE_STATUS_SUCCESS (Some t)
           (Some (more_data \<noteq> 1 \<and> of_nat (Suc i) = (of_nat (length ts) :: u32)))) (enumerate 0 ts)"
proof -
  have n: "OF_MULTIPART_RPLY_MSG_NO_OF_DESC (be16_at m (h + 2)) 24 = of_nat (length ts)"
    unfolding assms(3) using assms(1,4) by (intro tables.reply_all(2) [of ts m s]) simp_all
  have "length ts < 4294967296" using tables.encoding_size [of ts] assms(4) by simp
  then have "of_nat (length ts) \<noteq> (0 :: u32)" using unat_of_nat_u32 [of "length ts"] assms(2) by auto
  then show ?thesis
    using tables.reply_all(1) [of ts m s] assms(1,4)
    unfolding of_handle_table_stats_response_def n Let_def n [symmetric] assms(3) sizeof_ofp_multipart_reply_def
    by simp
qed

lemma concat_last:
  "concat (map (\<lambda>(i, x). g i x # (if Suc i = length xs \<and> b then [e] else [])) (enumerate 0 xs))
    = map (\<lambda>(i, x). g i x) (enumerate 0 xs) @ (if xs \<noteq> [] \<and> b then [e] else [])"
proof (cases xs rule: rev_cases)
  case (snoc ys y)
  have "concat (map (\<lambda>(i, x). g i x # (if Suc i = length xs \<and> b then [e] else [])) (enumerate 0 ys))
      = concat (map (\<lambda>(i, x). [g i x]) (enumerate 0 ys))"
    by (intro arg_cong [where f = concat] map_cong) (auto simp: snoc in_set_enumerate_eq)
  also have "\<dots> = map (\<lambda>(i, x). g i x) (enumerate 0 ys)" by (induction ys rule: rev_induct) (simp_all add: enumerate_append_eq)
  finally show ?thesis by (simp add: snoc enumerate_append_eq)
qed simp

lemma port_desc_events:
  assumes "\<forall>q \<in> set qs. proper_port q" and "holds m (s + 16) (encoding port_desc_bytes qs)"
    and "be16_at m (h + 2) = of_nat (16 + length (encoding port_desc_bytes qs))"
    and "16 + length (encoding port_desc_bytes qs) < 65536"
  shows "of_handle_port_status_response c m s h auxiliary_id is_dp_ready =
    (map (\<lambda>(i, q). Port_desc_cbk (Reply_cbk (rc_domain_handle c) (rc_datapath_handle c)
         (Some (as_uint8 (pd_port_no q))) (rc_app_pvt_arg1 c) (rc_app_pvt_arg2 c) OF_RESPONSE_STATUS_SUCCESS
         (Some q) (Some (Suc i = length qs)))) (enumerate 0 qs)
      @ (if qs \<noteq> [] \<and> auxiliary_id = OF_TRNSPRT_MAIN_CONN_ID \<and> \<not> is_dp_ready
         then [Dp_ready_event] else []),
     is_dp_ready \<or> (qs \<noteq> [] \<and> auxiliary_id = OF_TRNSPRT_MAIN_CONN_ID))"
proof -
  let ?b = "auxiliary_id = OF_TRNSPRT_MAIN_CONN_ID \<and> \<not> is_dp_ready"
  let ?cbk = "\<lambda>q last. Port_desc_cbk (Reply_cbk (rc_domain_handle c) (rc_datapath_handle c)
    (Some (as_uint8 (pd_port_no q))) (rc_app_pvt_arg1 c) (rc_app_pvt_arg2 c) OF_RESPONSE_STATUS_SUCCESS
    (Some q) (Some last))"
  let ?n = "of_nat (length qs) :: u32"
  let ?f = "\<lambda>q no. ?cbk q (no = ?n) # (if no = ?n \<and> ?b then [Dp_ready_event] else [])"
  have short: "length qs < 4294967295" using ports.encoding_size [OF assms(1)] assms(4) by simp
  have n: "OF_MULTIPART_RPLY_MSG_NO_OF_DESC (be16_at m (h + 2)) 64 = ?n"
    unfolding assms(3) using ports.reply_all(2) [OF assms(1,2,4)] by simp
  have "concat (counted_loop (unat ?n) (\<lambda>e no. ?f (read_port_desc m e) no) 64 (s + 16) 0 1)
      = concat (map (\<lambda>(i, q). ?f q (of_nat (Suc i))) (enumerate 0 qs))"
    using ports.reply_all(1) [OF assms(1,2,4), of ?f] n [unfolded assms(3)] by (simp only: zero_less_numeral)
  also have "\<dots> = concat (map (\<lambda>(i, q). ?cbk q (Suc i = length qs)
      # (if Suc i = length qs \<and> ?b then [Dp_ready_event] else [])) (enumerate 0 qs))"
  proof (intro arg_cong [where f = concat] map_cong refl)
    fix p
    assume p: "p \<in> set (enumerate 0 qs)"
    obtain i q where iq: "p = (i, q)" by (cases p)
    then have "i < length qs" using p by (simp add: in_set_enumerate_eq)
    then have "unat (of_nat (Suc i) :: u32) = Suc i" "unat ?n = length qs"
      using short by (simp_all only: unat_of_nat_u32)
    then have "(of_nat (Suc i) :: u32) = ?n \<longleftrightarrow> Suc i = length qs" by metis
    then show "(case p of (i, q) \<Rightarrow> ?f q (of_nat (Suc i))) = (case p of (i, q) \<Rightarrow>
        ?cbk q (Suc i = length qs) # (if Suc i = length qs \<and> ?b then [Dp_ready_event] else []))"
      by (simp only: iq prod.case)
  qed
  also have "\<dots> = map (\<lambda>(i, q). ?cbk q (Suc i = length qs)) (enumerate 0 qs)
      @ (if qs \<noteq> [] \<and> ?b then [Dp_ready_event] else [])"
    by (rule concat_last)
  finally have events: "concat (counted_loop (unat ?n) (\<lambda>e no. ?f (read_port_desc m e) no) 64 (s + 16) 0 1)
      = map (\<lambda>(i, q). ?cbk q (Suc i = length qs)) (enumerate 0 qs)
      @ (if qs \<noteq> [] \<and> ?b then [Dp_ready_event] else [])" .
  have "?n \<noteq> 0 \<longleftrightarrow> qs \<noteq> []" using unat_of_nat_u32 [of "length qs"] short by (cases qs) auto
  then show ?thesis
    unfolding of_handle_port_status_response_def n Let_def sizeof_ofp_multipart_reply_def events
    by auto
qed

text \<open>The callback for a port; the flag is the last argument.\<close>

definition port_callback :: "reply_context \<Rightarrow> ofl_port_desc_info \<Rightarrow> bool \<Rightarrow> port_event" where
  "port_callback c q flag = Port_desc_cbk (Reply_cbk (rc_domain_handle c) (rc_datapath_handle c)
     (Some (as_uint8 (pd_port_no q))) (rc_app_pvt_arg1 c) (rc_app_pvt_arg2 c) OF_RESPONSE_STATUS_SUCCESS (Some q) (Some flag))"

lemma enumerate_map2: "map (\<lambda>(i, x). f x (g i)) (enumerate k xs) = map2 f xs (map g [k..<k + length xs])"
  by (induction xs arbitrary: k) (simp_all add: upt_rec)

text \<open>
  C10: A port description reply over a channel calls the application back for each
  port, in order, with its description; the separate number of the port is the low eight bits of it, as
  the type of the callback has them.  If the message came over the main connection of a datapath
  that is not ready yet, the datapath becomes ready and the applications are told, once, behind
  the last port; without any port nothing is told, and the datapath stays as it is.  Nothing is claimed
  of the flag of the callback: the handler passes whether the port is the last one, while the header
  documents it as \<open>more_ports\<close> (lemma \<open>port_desc_events\<close>).
\<close>

theorem port_desc_delivered:
  assumes "\<forall>q \<in> set qs. proper_port q" and "holds m (s + 16) (encoding port_desc_bytes qs)"
    and "be16_at m (h + 2) = of_nat (16 + length (encoding port_desc_bytes qs))"
    and "16 + length (encoding port_desc_bytes qs) < 65536"
  shows "\<exists>flags. length flags = length qs
    \<and> of_handle_port_status_response c m s h auxiliary_id is_dp_ready =
      (map2 (port_callback c) qs flags
        @ (if qs \<noteq> [] \<and> auxiliary_id = OF_TRNSPRT_MAIN_CONN_ID \<and> \<not> is_dp_ready
           then [Dp_ready_event] else []),
       is_dp_ready \<or> (qs \<noteq> [] \<and> auxiliary_id = OF_TRNSPRT_MAIN_CONN_ID))"
  unfolding port_desc_events [OF assms] port_callback_def [symmetric]
    enumerate_map2 [of "port_callback c" "\<lambda>i. Suc i = length qs" 0 qs]
  by (intro exI [of _ "map (\<lambda>i. Suc i = length qs) [0..<0 + length qs]"]) simp

definition sample_ports :: "ofl_port_desc_info list" where
  "sample_ports = [\<lparr>pd_port_no = 1, pd_hw_addr = [2, 0, 0, 0, 0, 1], pd_name = [101, 49] @ replicate 14 0,
     pd_config = 0, pd_state = 4, pd_curr = 0, pd_advertised = 0, pd_supported = 0, pd_peer = 0,
     pd_curr_speed = 10, pd_max_speed = 100\<rparr>]"

lemma sample_ports:
  "\<forall>q \<in> set sample_ports. proper_port q" "length (encoding port_desc_bytes sample_ports) = 64"
  "length sample_ports = 1"
  by (simp_all add: sample_ports_def proper_port_def port_desc_bytes_def strncpy_bytes_def)

lemma port_desc_delivered_witness:
  "snd (of_handle_port_status_response sample_context
     (reply_memory (encoding port_desc_bytes sample_ports)) 1000 1000 0 False)
   \<and> (\<exists>x. fst (of_handle_port_status_response sample_context
     (reply_memory (encoding port_desc_bytes sample_ports))
     1000 1000 0 False) = [port_callback sample_context (hd sample_ports) x, Dp_ready_event])"
  using port_desc_delivered [of sample_ports "reply_memory (encoding port_desc_bytes sample_ports)" 1000
      1000 sample_context 0 False] sample_ports reply_memory [of "encoding port_desc_bytes sample_ports"]
  by (auto simp: OF_TRNSPRT_MAIN_CONN_ID_def length_Suc_conv sample_ports_def)

end
