(* ===== verification/ReplyGroup.thy ===== *)
theory ReplyGroup
  imports ReplyStats
begin

text \<open>
  Replies about groups and meters: the readers of bucket properties, buckets and groups of
  \<open>groupapi.c\<close> and of meter bands of \<open>of_meter.c\<close>, and the handlers of \<open>of_cntlr_msg.c\<close> for group
  descriptions, group statistics, meter configurations and meter statistics, whose descriptions have
  a variable length.
\<close>

section \<open>The loop over descriptions of variable size\<close>

text \<open>
  The descriptions are read into one variable of the handler, the state \<open>st\<close>, which is not reset.
  The step gets the address of the description, the address behind its fixed part and the
  length of the rest; the length of a description is found at an offset of its fixed part.
\<close>

fun variable_loop ::
  "nat \<Rightarrow> nat \<Rightarrow> nat \<Rightarrow> memory \<Rightarrow> ('s \<Rightarrow> nat \<Rightarrow> nat \<Rightarrow> u16 \<Rightarrow> (overrun + 's) option) \<Rightarrow>
     ('s \<Rightarrow> bool \<Rightarrow> 'cb) \<Rightarrow> nat \<Rightarrow> u16 \<Rightarrow> u16 \<Rightarrow> 's \<Rightarrow> 'cb list \<times> handler_end" where
  "variable_loop 0 desc_size off m step cbk data bytes_to_read bytes_read st = ([], Returned)"
| "variable_loop (Suc k) desc_size off m step cbk data bytes_to_read bytes_read st =
     (if unread bytes_to_read bytes_read < of_nat desc_size then ([], Returned)
      else let
        e = data + unat bytes_read;
        bytes_read = bytes_read + of_nat desc_size;
        len = be16_at m (e + off) - of_nat desc_size
      in case step st e (data + unat bytes_read) len of
           None \<Rightarrow> ([], Looping)
         | Some (Inl x) \<Rightarrow> ([], Overran)
         | Some (Inr st) \<Rightarrow>
             let bytes_read = bytes_read + len;
                 is_last = unread bytes_to_read bytes_read \<le> of_nat desc_size;
                 (cbks, ending) = variable_loop k desc_size off m step cbk data bytes_to_read bytes_read st
             in (cbk st is_last # cbks, ending))"

text \<open>What the callbacks are for a sequence of descriptions.\<close>

fun variable_events ::
  "nat \<Rightarrow> ('c \<Rightarrow> u8 list) \<Rightarrow> ('s \<Rightarrow> 'c \<Rightarrow> 's) \<Rightarrow> ('s \<Rightarrow> bool \<Rightarrow> 'cb) \<Rightarrow> 's \<Rightarrow> 'c list \<Rightarrow> 'cb list" where
  "variable_events desc_size enc upd cbk st [] = []"
| "variable_events desc_size enc upd cbk st (x # xs) =
     cbk (upd st x) (length (encoding enc xs) \<le> desc_size)
     # variable_events desc_size enc upd cbk (upd st x) xs"

lemma unread_size:
  assumes "r + n < 65536" and "d < 65536"
  shows "unread (of_nat (r + n)) (of_nat r) < of_nat d \<longleftrightarrow> n < d"
    and "unread (of_nat (r + n)) (of_nat r) \<le> of_nat d \<longleftrightarrow> n \<le> d"
proof -
  have "unat (of_nat n :: u64) = n" "unat (of_nat d :: u64) = d"
    using assms by (simp_all add: unat_of_nat take_bit_nat_eq_self)
  then show "unread (of_nat (r + n)) (of_nat r) < of_nat d \<longleftrightarrow> n < d"
    "unread (of_nat (r + n)) (of_nat r) \<le> of_nat d \<longleftrightarrow> n \<le> d"
    unfolding unread_of_nat [OF assms(1)] word_less_nat_alt word_le_nat_alt by simp_all
qed

locale variable_desc =
  fixes desc_size off :: nat
    and step :: "memory \<Rightarrow> 's \<Rightarrow> nat \<Rightarrow> nat \<Rightarrow> u16 \<Rightarrow> (overrun + 's) option"
    and enc :: "'c \<Rightarrow> u8 list"
    and upd :: "'s \<Rightarrow> 'c \<Rightarrow> 's"
    and ok :: "'c \<Rightarrow> bool"
  assumes step_enc: "ok x \<Longrightarrow> holds m e (enc x) \<Longrightarrow> length (enc x) < 65536 \<Longrightarrow>
      step m st e (e + desc_size) (of_nat (length (enc x) - desc_size)) = Some (Inr (upd st x))"
    and length_at: "ok x \<Longrightarrow> holds m e (enc x) \<Longrightarrow> be16_at m (e + off) = of_nat (length (enc x))"
    and size_enc: "ok x \<Longrightarrow> desc_size \<le> length (enc x)"
    and size_pos: "0 < desc_size" and size_small: "desc_size < 65536"
begin

lemma encoding_size: "\<forall>x \<in> set xs. ok x \<Longrightarrow> desc_size * length xs \<le> length (encoding enc xs)"
proof (induction xs)
  case (Cons x xs)
  then show ?case using size_enc [of x] by simp
qed simp

lemma loop_all:
  assumes "\<forall>x \<in> set xs. ok x" and "holds m (data + r) (encoding enc xs)"
    and "r + length (encoding enc xs) < 65536" and "length xs \<le> k"
  shows "variable_loop k desc_size off m (step m) cbk data
      (of_nat (r + length (encoding enc xs))) (of_nat r) st
    = (variable_events desc_size enc upd cbk st xs, Returned)"
  using assms
proof (induction xs arbitrary: r k st)
  case Nil
  then show ?case using unread_size(1) [of r 0 desc_size] size_pos size_small by (cases k) simp_all
next
  case (Cons x xs)
  let ?n = "length (enc x)" and ?rest = "encoding enc xs"
  obtain j where k: "k = Suc j" "length xs \<le> j" using Cons.prems(4) by (cases k) simp_all
  have x: "ok x" and h: "holds m (data + r) (enc x)" "holds m (data + (r + ?n)) ?rest"
    using Cons.prems(1,2) by (simp_all add: holds_append ac_simps)
  have small: "r + ?n + length ?rest < 65536" using Cons.prems(3) by simp
  have d: "desc_size \<le> ?n" "desc_size < 65536" using size_enc [OF x] size_small by simp_all
  have ur: "unat (of_nat r :: u16) = r" "unat (of_nat r + of_nat desc_size :: u16) = r + desc_size"
    using small d unat_of_nat_u16 [of "r + desc_size"] by simp_all
  have body: "be16_at m (data + r + off) - of_nat desc_size = of_nat (?n - desc_size)"
    using length_at [OF x h(1)] d(1) by (simp add: of_nat_diff)
  have rb: "of_nat r + of_nat desc_size + of_nat (?n - desc_size) = (of_nat (r + ?n) :: u16)"
    using d(1) by (simp add: of_nat_diff)
  have st: "step m st (data + r) (data + (r + desc_size)) (of_nat (?n - desc_size)) = Some (Inr (upd st x))"
    using step_enc [OF x h(1)] small by (simp add: add.assoc)
  have IH: "variable_loop j desc_size off m (step m) cbk data (of_nat (r + ?n + length ?rest))
      (of_nat (r + ?n)) (upd st x) = (variable_events desc_size enc upd cbk (upd st x) xs, Returned)"
    using Cons.IH [OF _ h(2)] Cons.prems(1) small k(2) by simp
  have e: "r + length (encoding enc (x # xs)) = r + ?n + length ?rest" by simp
  have big: "\<not> unread (of_nat (r + ?n + length ?rest)) (of_nat r) < of_nat desc_size"
    using unread_size(1) [of r "?n + length ?rest" desc_size] small d by (simp add: add.assoc)
  show ?case
    unfolding k(1) e variable_loop.simps(2) Let_def ur body rb
    using big st IH unread_size(2) [OF small d(2)] by simp
qed

end

section \<open>Buckets\<close>

text \<open>
  The loops of a bucket count with a signed \<open>int\<close>: a count that falls below 0 ends them.
\<close>

partial_function (option) read_elements_int ::
  "(memory \<Rightarrow> nat \<Rightarrow> (overrun + 'e \<times> nat) option) \<Rightarrow> memory \<Rightarrow> nat \<Rightarrow> u32 \<Rightarrow>
     (overrun + 'e list \<times> nat) option" where
  "read_elements_int read m msg len =
     (if sint len \<le> 0 then Some (Inr ([], msg))
      else Option.bind (read m msg) (\<lambda>r. case r of
             Inl x \<Rightarrow> Some (Inl x)
           | Inr (e, n) \<Rightarrow>
               Option.bind (read_elements_int read m (msg + n) (len - of_nat n)) (\<lambda>r'. case r' of
                   Inl x \<Rightarrow> Some (Inl x)
                 | Inr (es, msg') \<Rightarrow> Some (Inr (e # es, msg')))))"


record ofi_bucket_prop =
  bp_weight :: u16
  bp_watch_port :: u32
  bp_watch_group :: u32

definition calloc_bucket_prop :: ofi_bucket_prop where
  "calloc_bucket_prop = \<lparr>bp_weight = 0, bp_watch_port = 0, bp_watch_group = 0\<rparr>"

text \<open>
  Both watch properties are stored as a watched group.  The weight is read through the structure of
  a watch property, and converted as a 16 bit number: its first two bytes.
\<close>

definition of_group_frame_bucket_prop_response :: "memory \<Rightarrow> nat \<Rightarrow> u32 \<Rightarrow> ofi_bucket_prop \<times> u32" where
  "of_group_frame_bucket_prop_response m msg len =
     (let prop_type = be16_at m msg in
      if prop_type = OFPGBPT_WATCH_PORT \<or> prop_type = OFPGBPT_WATCH_GROUP
      then (calloc_bucket_prop\<lparr>bp_watch_group := be32_at m (msg + 4)\<rparr>, len + 8)
      else if prop_type = OFPGBPT_WEIGHT
      then (calloc_bucket_prop\<lparr>bp_weight := be16_at m (msg + 4)\<rparr>, len + 8)
      else (calloc_bucket_prop, len + ucast (be16_at m (msg + 2))))"

definition bucket_prop_reader :: "memory \<Rightarrow> nat \<Rightarrow> (overrun + ofi_bucket_prop \<times> nat) option" where
  "bucket_prop_reader m msg =
     (let (e, n) = of_group_frame_bucket_prop_response m msg 0 in Some (Inr (e, unat n)))"

record ofi_bucket =
  bk_bucket_id :: u32
  bk_action_list :: "ofi_action list"
  bk_bucket_prop_list :: "ofi_bucket_prop list"

text \<open>Eight bytes of header, the actions, and the properties in what the length leaves.\<close>

definition of_group_frame_bucket_response :: "memory \<Rightarrow> nat \<Rightarrow> (overrun + ofi_bucket \<times> nat) option" where
  "of_group_frame_bucket_response m msg =
     (let total_actions_len = ucast (be16_at m (msg + 2)) :: u32;
          total_bucket_prop_len = ucast (be16_at m msg) - (8 + ucast (be16_at m (msg + 2)))
      in Option.bind (read_elements_int action_reader m (msg + 8) total_actions_len) (\<lambda>r. case r of
           Inl x \<Rightarrow> Some (Inl x)
         | Inr (actions, msg') \<Rightarrow>
             Option.bind (read_elements_int bucket_prop_reader m msg' total_bucket_prop_len) (\<lambda>r. case r of
               Inl x \<Rightarrow> Some (Inl x)
             | Inr (props, msg'') \<Rightarrow>
                 Some (Inr (\<lparr>bk_bucket_id = be32_at m (msg + 4), bk_action_list = actions,
                             bk_bucket_prop_list = props\<rparr>, msg'' - msg)))))"

definition of_group_frame_response :: "memory \<Rightarrow> nat \<Rightarrow> u32 \<Rightarrow> (overrun + ofi_bucket list) option" where
  "of_group_frame_response m msg msg_length =
     map_option (map_sum id fst) (read_elements of_group_frame_bucket_response m msg msg_length)"

section \<open>The handlers of groups\<close>

record ofi_group_desc_info =
  gd_group_id :: u32
  gd_group_type :: u8
  gd_bucket_list :: "ofi_bucket list"

text \<open>One round: the list of buckets is reset only when there is something behind the header.\<close>

definition group_desc_step ::
  "memory \<Rightarrow> ofi_group_desc_info \<Rightarrow> nat \<Rightarrow> nat \<Rightarrow> u16 \<Rightarrow> (overrun + ofi_group_desc_info) option" where
  "group_desc_step m group_desc e buf len =
     (let group_desc = group_desc\<lparr>gd_group_id := be32_at m (e + 4), gd_group_type := m (e + 2)\<rparr>
      in if len = 0 then Some (Inr group_desc)
         else map_option (map_sum id (\<lambda>bs. group_desc\<lparr>gd_bucket_list := bs\<rparr>))
                (of_group_frame_response m buf (ucast len)))"

text \<open>
  The variable of the handler has no initial value; \<open>garbage\<close> stands for what its memory holds.
  Whether more messages follow is not looked at, and the failure callback swaps the two handles.
\<close>

definition of_handle_group_desc_response ::
  "reply_context \<Rightarrow> memory \<Rightarrow> nat \<Rightarrow> nat \<Rightarrow> ofi_group_desc_info \<Rightarrow>
     ofi_group_desc_info reply_cbk list \<times> handler_end" where
  "of_handle_group_desc_response c m start p_msg_hdr garbage =
     (let no_of_groups = OF_MULTIPART_RPLY_MSG_NO_OF_DESC (be16_at m (p_msg_hdr + 2)) 8
      in if no_of_groups = 0
         then ([Reply_cbk (rc_datapath_handle c) (rc_domain_handle c) None 0 0
                  OF_RESPONSE_STATUS_ERROR None (Some True)], Returned)
         else variable_loop (unat no_of_groups) 8 0 m (group_desc_step m)
                (\<lambda>g is_last. Reply_cbk (rc_domain_handle c) (rc_datapath_handle c) None
                   (rc_app_pvt_arg1 c) (rc_app_pvt_arg2 c) OF_RESPONSE_STATUS_SUCCESS (Some g) (Some is_last))
                (start + sizeof_ofp_multipart_reply)
                (be16_at m (p_msg_hdr + 2) - of_nat sizeof_ofp_multipart_reply) 0 garbage)"

record ofi_group_stat =
  gs_group_id :: u32
  gs_ref_count :: u32
  gs_packet_count :: u64
  gs_byte_count :: u64
  gs_duration_sec :: u32
  gs_duration_nsec :: u32

definition group_stats_step ::
  "memory \<Rightarrow> ofi_group_stat \<Rightarrow> nat \<Rightarrow> nat \<Rightarrow> u16 \<Rightarrow> (overrun + ofi_group_stat) option" where
  "group_stats_step m group_stat e buf len =
     Some (Inr (group_stat\<lparr>gs_group_id := be32_at m (e + 4), gs_ref_count := be32_at m (e + 8),
       gs_duration_sec := be32_at m (e + 32), gs_duration_nsec := be32_at m (e + 36),
       gs_packet_count := be64_at m (e + 16), gs_byte_count := be64_at m (e + 24)\<rparr>))"

definition of_handle_group_stats_response ::
  "reply_context \<Rightarrow> memory \<Rightarrow> nat \<Rightarrow> nat \<Rightarrow> u8 \<Rightarrow> ofi_group_stat \<Rightarrow>
     ofi_group_stat reply_cbk list \<times> handler_end" where
  "of_handle_group_stats_response c m start p_msg_hdr more_data garbage =
     (let no_of_groups = OF_MULTIPART_RPLY_MSG_NO_OF_DESC (be16_at m (p_msg_hdr + 2)) 40
      in if no_of_groups = 0
         then ([Reply_cbk (rc_datapath_handle c) (rc_domain_handle c) (Some 0) 0 0
                  OF_RESPONSE_STATUS_ERROR None (Some True)], Returned)
         else variable_loop (unat no_of_groups) 40 0 m (group_stats_step m)
                (\<lambda>g is_last. Reply_cbk (rc_domain_handle c) (rc_datapath_handle c) (Some (gs_group_id g))
                   (rc_app_pvt_arg1 c) (rc_app_pvt_arg2 c) OF_RESPONSE_STATUS_SUCCESS (Some g)
                   (Some (more_data \<noteq> 1 \<and> is_last)))
                (start + sizeof_ofp_multipart_reply)
                (be16_at m (p_msg_hdr + 2) - of_nat sizeof_ofp_multipart_reply) 0 garbage)"

section \<open>Meters\<close>


record ofi_meter_band =
  mb_type :: u16
  mb_len :: u16
  mb_rate :: u32
  mb_burst_size :: u32
  mb_prec_level :: u8

text \<open>A band of any type is taken to be 16 bytes long.\<close>

definition of_meter_frame_band_response :: "memory \<Rightarrow> nat \<Rightarrow> u32 \<Rightarrow> ofi_meter_band \<times> u32" where
  "of_meter_frame_band_response m msg msg_length =
     (let ty = be16_at m msg;
          e = \<lparr>mb_type = ty, mb_len = 0, mb_rate = 0, mb_burst_size = 0, mb_prec_level = 0\<rparr>
      in (if ty = OFPMBT_DROP
          then e\<lparr>mb_len := be16_at m (msg + 2), mb_rate := be32_at m (msg + 4),
                 mb_burst_size := be32_at m (msg + 8)\<rparr>
          else if ty = OFPMBT_DSCP_REMARK
          then e\<lparr>mb_len := be16_at m (msg + 2), mb_rate := be32_at m (msg + 4),
                 mb_burst_size := be32_at m (msg + 8), mb_prec_level := m (msg + 12)\<rparr>
          else e,
          msg_length + 16))"

definition band_reader :: "memory \<Rightarrow> nat \<Rightarrow> (overrun + ofi_meter_band \<times> nat) option" where
  "band_reader m msg = (let (e, n) = of_meter_frame_band_response m msg 0 in Some (Inr (e, unat n)))"

definition of_meter_frame_response :: "memory \<Rightarrow> nat \<Rightarrow> u32 \<Rightarrow> (overrun + ofi_meter_band list) option" where
  "of_meter_frame_response m msg msg_length =
     map_option (map_sum id fst) (read_elements band_reader m msg msg_length)"

record ofi_meter_rec_info =
  mc_meter_id :: u32
  mc_flags :: u16
  mc_meter_band_list :: "ofi_meter_band list"

definition meter_config_step ::
  "memory \<Rightarrow> ofi_meter_rec_info \<Rightarrow> nat \<Rightarrow> nat \<Rightarrow> u16 \<Rightarrow> (overrun + ofi_meter_rec_info) option" where
  "meter_config_step m meter_config e buf len =
     (let meter_config = meter_config\<lparr>mc_meter_id := be32_at m (e + 4), mc_flags := be16_at m (e + 2)\<rparr>
      in if len = 0 then Some (Inr meter_config)
         else map_option (map_sum id (\<lambda>bs. meter_config\<lparr>mc_meter_band_list := bs\<rparr>))
                (of_meter_frame_response m buf (ucast len)))"

definition of_handle_meter_config_response ::
  "reply_context \<Rightarrow> memory \<Rightarrow> nat \<Rightarrow> nat \<Rightarrow> u8 \<Rightarrow> ofi_meter_rec_info \<Rightarrow>
     ofi_meter_rec_info reply_cbk list \<times> handler_end" where
  "of_handle_meter_config_response c m start p_msg_hdr more_data garbage =
     (let no_of_meters = OF_MULTIPART_RPLY_MSG_NO_OF_DESC (be16_at m (p_msg_hdr + 2)) 8
      in if no_of_meters = 0
         then ([Reply_cbk (rc_datapath_handle c) (rc_domain_handle c) None 0 0
                  OF_RESPONSE_STATUS_ERROR None (Some True)], Returned)
         else variable_loop (unat no_of_meters) 8 0 m (meter_config_step m)
                (\<lambda>g is_last. Reply_cbk (rc_domain_handle c) (rc_datapath_handle c) None
                   (rc_app_pvt_arg1 c) (rc_app_pvt_arg2 c) OF_RESPONSE_STATUS_SUCCESS (Some g)
                   (Some (more_data \<noteq> 1 \<and> is_last)))
                (start + sizeof_ofp_multipart_reply)
                (be16_at m (p_msg_hdr + 2) - of_nat sizeof_ofp_multipart_reply) 0 garbage)"

record ofi_meter_stats_info =
  ms_meter_id :: u32
  ms_flow_count :: u32
  ms_packet_in_count :: u64
  ms_byte_in_count :: u64
  ms_duration_sec :: u32
  ms_duration_nsec :: u32

definition meter_stats_step ::
  "memory \<Rightarrow> ofi_meter_stats_info \<Rightarrow> nat \<Rightarrow> nat \<Rightarrow> u16 \<Rightarrow> (overrun + ofi_meter_stats_info) option" where
  "meter_stats_step m meter_stats e buf len =
     Some (Inr (meter_stats\<lparr>ms_meter_id := be32_at m e, ms_flow_count := be32_at m (e + 12),
       ms_packet_in_count := be64_at m (e + 16), ms_byte_in_count := be64_at m (e + 24),
       ms_duration_sec := be32_at m (e + 32), ms_duration_nsec := be32_at m (e + 36)\<rparr>))"

text \<open>The number given to the callback is the number of meters.\<close>

definition of_handle_meter_stats_response ::
  "reply_context \<Rightarrow> memory \<Rightarrow> nat \<Rightarrow> nat \<Rightarrow> u8 \<Rightarrow> ofi_meter_stats_info \<Rightarrow>
     ofi_meter_stats_info reply_cbk list \<times> handler_end" where
  "of_handle_meter_stats_response c m start p_msg_hdr more_data garbage =
     (let no_of_meters = OF_MULTIPART_RPLY_MSG_NO_OF_DESC (be16_at m (p_msg_hdr + 2)) 40
      in if no_of_meters = 0
         then ([Reply_cbk (rc_datapath_handle c) (rc_domain_handle c) (Some 0) 0 0
                  OF_RESPONSE_STATUS_ERROR None (Some True)], Returned)
         else variable_loop (unat no_of_meters) 40 4 m (meter_stats_step m)
                (\<lambda>g is_last. Reply_cbk (rc_domain_handle c) (rc_datapath_handle c) (Some no_of_meters)
                   (rc_app_pvt_arg1 c) (rc_app_pvt_arg2 c) OF_RESPONSE_STATUS_SUCCESS (Some g)
                   (Some (more_data \<noteq> 1 \<and> is_last)))
                (start + sizeof_ofp_multipart_reply)
                (be16_at m (p_msg_hdr + 2) - of_nat sizeof_ofp_multipart_reply) 0 garbage)"

section \<open>Reading back buckets\<close>

lemma sint_of_nat_u32: "n < 2147483648 \<Longrightarrow> sint (of_nat n :: u32) = int n"
  by transfer (simp add: signed_take_bit_int_eq_self)

context element_reader
begin

lemma read_all_int:
  assumes "\<forall>c \<in> set cs. ok c" and "holds m p (encoding enc cs)"
    and "length (encoding enc cs) < 2147483648"
  shows "read_elements_int read m p (of_nat (length (encoding enc cs)))
    = Some (Inr (map entry cs, p + length (encoding enc cs)))"
  using assms
proof (induction cs arbitrary: p)
  case Nil
  then show ?case by (simp add: read_elements_int.simps)
next
  case (Cons c cs)
  define N where "N = (of_nat (length (encoding enc (c # cs))) :: u32)"
  have "sint N = int (length (encoding enc (c # cs)))"
    unfolding N_def by (rule sint_of_nat_u32) (rule Cons.prems(3))
  then have n: "\<not> sint N \<le> 0" using enc_nonempty [of c] Cons.prems(1) by (simp add: not_le add_pos_nonneg)
  have "N - of_nat (length (enc c)) = of_nat (length (encoding enc cs))" by (simp add: N_def)
  moreover have "holds m p (enc c)" "holds m (p + length (enc c)) (encoding enc cs)"
    using Cons.prems(2) by (simp_all add: holds_append)
  ultimately have "read_elements_int read m p N
      = Some (Inr (map entry (c # cs), p + length (encoding enc (c # cs))))"
    using Cons.IH [of "p + length (enc c)"] Cons.prems n read_enc [of c m p]
    by (subst read_elements_int.simps) simp
  then show ?case by (simp only: N_def)
qed

end

datatype bucket_prop = Weight u16 | Watch_port u32 | Watch_group u32

primrec prop_wire :: "bucket_prop \<Rightarrow> wire_tlv" where
  "prop_wire (Weight w) = Wire 0 (be16 w @ replicate 2 0)"
| "prop_wire (Watch_port q) = Wire 1 (be32 q)"
| "prop_wire (Watch_group g) = Wire 2 (be32 g)"

definition prop_enc :: "bucket_prop \<Rightarrow> u8 list" where "prop_enc q = wire_bytes (prop_wire q)"

primrec prop_entry :: "bucket_prop \<Rightarrow> ofi_bucket_prop" where
  "prop_entry (Weight w) = calloc_bucket_prop\<lparr>bp_weight := w\<rparr>"
| "prop_entry (Watch_port q) = calloc_bucket_prop\<lparr>bp_watch_port := q\<rparr>"
| "prop_entry (Watch_group g) = calloc_bucket_prop\<lparr>bp_watch_group := g\<rparr>"

lemma length_prop_enc [simp]: "length (prop_enc q) = 8"
  by (cases q) (simp_all add: prop_enc_def)

text \<open>The properties that are read in full: a watched port is stored as a watched group.\<close>

definition readable_prop :: "bucket_prop \<Rightarrow> bool" where
  "readable_prop q = (case q of Watch_port p \<Rightarrow> False | _ \<Rightarrow> True)"

lemma watch_port_misplaced:
  assumes "holds m p (prop_enc (Watch_port q))"
  shows "bucket_prop_reader m p = Some (Inr (calloc_bucket_prop\<lparr>bp_watch_group := q\<rparr>, 8))"
  using at_wire [OF assms [unfolded prop_enc_def prop_wire.simps]]
  by (simp add: bucket_prop_reader_def of_group_frame_bucket_prop_response_def at_holds
      OFPGBPT_WEIGHT_def OFPGBPT_WATCH_PORT_def OFPGBPT_WATCH_GROUP_def)

interpretation pr: element_reader bucket_prop_reader prop_enc prop_entry readable_prop
proof
  fix q m p
  assume ok: "readable_prop q" and h: "holds m p (prop_enc q)"
  obtain t b where tb: "prop_wire q = Wire t b" by (cases "prop_wire q")
  note w = at_wire [OF h [unfolded prop_enc_def tb]]
  have "be32_at m (p + 4) = y" if "b = be32 y" for y using w(3) that by (simp add: reads_back)
  moreover have "be16_at m (p + 4) = x" if "b = be16 x @ ys" for x ys using w(3) that by (simp add: reads_back)
  ultimately show "bucket_prop_reader m p = Some (Inr (prop_entry q, length (prop_enc q)))"
    using tb [symmetric] w(1) ok
    by (cases q) (simp_all add: readable_prop_def bucket_prop_reader_def of_group_frame_bucket_prop_response_def
        OFPGBPT_WEIGHT_def OFPGBPT_WATCH_PORT_def OFPGBPT_WATCH_GROUP_def)
qed simp

record group_bucket =
  gb_id :: u32
  gb_actions :: "action_call list"
  gb_props :: "bucket_prop list"

definition bucket_bytes :: "group_bucket \<Rightarrow> u8 list" where
  "bucket_bytes b =
     (let acts = encoding action_enc (gb_actions b); props = encoding prop_enc (gb_props b)
      in be16 (of_nat (8 + length acts + length props)) @ be16 (of_nat (length acts))
         @ be32 (gb_id b) @ acts @ props)"

definition bucket_entry :: "group_bucket \<Rightarrow> ofi_bucket" where
  "bucket_entry b = \<lparr>bk_bucket_id = gb_id b, bk_action_list = map action_entry (gb_actions b),
     bk_bucket_prop_list = map prop_entry (gb_props b)\<rparr>"

definition readable_bucket :: "group_bucket \<Rightarrow> bool" where
  "readable_bucket b \<longleftrightarrow> (\<forall>a \<in> set (gb_actions b). readable_action a) \<and> (\<forall>q \<in> set (gb_props b). readable_prop q)
     \<and> length (bucket_bytes b) < 65536"

lemma length_bucket_bytes [simp]:
  "length (bucket_bytes b) = 8 + length (encoding action_enc (gb_actions b)) + length (encoding prop_enc (gb_props b))"
  by (simp add: bucket_bytes_def Let_def)

interpretation br: element_reader of_group_frame_bucket_response bucket_bytes bucket_entry readable_bucket
proof
  fix b m p
  assume b: "readable_bucket b" and h: "holds m p (bucket_bytes b)"
  let ?acts = "encoding action_enc (gb_actions b)" and ?props = "encoding prop_enc (gb_props b)"
  have small: "8 + length ?acts + length ?props < 65536" using b by (simp add: readable_bucket_def)
  have at: "holds m p (be16 (of_nat (8 + length ?acts + length ?props)))"
    "holds m (p + 2) (be16 (of_nat (length ?acts)))" "holds m (p + 4) (be32 (gb_id b))"
    "holds m (p + 8) ?acts" "holds m (p + 8 + length ?acts) ?props"
    using h unfolding bucket_bytes_def Let_def holds_append by (simp_all add: ac_simps)
  have rd: "be16_at m p = of_nat (8 + length ?acts + length ?props)" "be16_at m (p + 2) = of_nat (length ?acts)"
    "be32_at m (p + 4) = gb_id b"
    using at(1-3) by (simp_all add: at_holds del: of_nat_add)
  have al: "ucast (of_nat (length ?acts) :: u16) = (of_nat (length ?acts) :: u32)"
    using small by (intro ucast_of_nat_u16) simp
  have pl: "ucast (of_nat (8 + length ?acts + length ?props) :: u16) - (8 + of_nat (length ?acts))
      = (of_nat (length ?props) :: u32)"
    unfolding ucast_of_nat_u16 [OF small] by simp
  have "read_elements_int action_reader m (p + 8) (of_nat (length ?acts))
      = Some (Inr (map action_entry (gb_actions b), p + 8 + length ?acts))"
    using ar.read_all_int [OF _ at(4)] b small by (simp add: readable_bucket_def)
  moreover have "read_elements_int bucket_prop_reader m (p + 8 + length ?acts) (of_nat (length ?props))
      = Some (Inr (map prop_entry (gb_props b), p + 8 + length ?acts + length ?props))"
    using pr.read_all_int [OF _ at(5)] b small by (simp add: readable_bucket_def)
  ultimately show "of_group_frame_bucket_response m p = Some (Inr (bucket_entry b, length (bucket_bytes b)))"
    unfolding of_group_frame_bucket_response_def rd Let_def al pl
    by (simp add: bucket_entry_def)
qed simp

section \<open>Reading back groups\<close>

record group_desc =
  gr_type :: u8
  gr_id :: u32
  gr_buckets :: "group_bucket list"

definition group_desc_bytes :: "group_desc \<Rightarrow> u8 list" where
  "group_desc_bytes g = be16 (of_nat (8 + length (encoding bucket_bytes (gr_buckets g)))) @ [gr_type g, 0]
     @ be32 (gr_id g) @ encoding bucket_bytes (gr_buckets g)"

definition readable_group :: "group_desc \<Rightarrow> bool" where
  "readable_group g \<longleftrightarrow> (\<forall>b \<in> set (gr_buckets g). readable_bucket b)"

text \<open>What the variable of the handler holds after a group: an empty group leaves the buckets.\<close>

definition group_desc_upd :: "ofi_group_desc_info \<Rightarrow> group_desc \<Rightarrow> ofi_group_desc_info" where
  "group_desc_upd st g = \<lparr>gd_group_id = gr_id g, gd_group_type = gr_type g,
     gd_bucket_list = (if gr_buckets g = [] then gd_bucket_list st else map bucket_entry (gr_buckets g))\<rparr>"

lemma length_group_desc [simp]:
  "length (group_desc_bytes g) = 8 + length (encoding bucket_bytes (gr_buckets g))"
  by (simp add: group_desc_bytes_def)

lemma no_buckets: "length (encoding bucket_bytes bs) = 0 \<longleftrightarrow> bs = []"
  by (cases bs) simp_all

lemma group_desc_at:
  assumes "holds m e (group_desc_bytes g)"
  shows "be16_at m e = of_nat (length (group_desc_bytes g))" and "m (e + 2) = gr_type g"
    and "be32_at m (e + 4) = gr_id g" and "holds m (e + 8) (encoding bucket_bytes (gr_buckets g))"
proof -
  have h: "holds m e (be16 (of_nat (8 + length (encoding bucket_bytes (gr_buckets g)))))"
    "holds m (e + 2) [gr_type g, 0]" "holds m (e + 4) (be32 (gr_id g))"
    "holds m (e + 8) (encoding bucket_bytes (gr_buckets g))"
    using assms unfolding group_desc_bytes_def holds_append by (simp_all add: ac_simps)
  show "be16_at m e = of_nat (length (group_desc_bytes g))" "m (e + 2) = gr_type g"
    "be32_at m (e + 4) = gr_id g" "holds m (e + 8) (encoding bucket_bytes (gr_buckets g))"
    using at_holds(1) [OF h(1)] holds_first [OF h(2)] at_holds(2) [OF h(3)] h(4) by simp_all
qed

lemma of_nat_eq_0_u16: "unat (of_nat n :: u16) = n \<Longrightarrow> of_nat n = (0 :: u16) \<longleftrightarrow> n = 0"
  by (cases "n = 0") auto

interpretation groups: variable_desc 8 0 group_desc_step group_desc_bytes group_desc_upd readable_group
proof
  fix g m e st
  assume g: "readable_group g" and h: "holds m e (group_desc_bytes g)" and small: "length (group_desc_bytes g) < 65536"
  let ?bs = "encoding bucket_bytes (gr_buckets g)"
  note at = group_desc_at [OF h]
  have uc: "ucast (of_nat (length ?bs) :: u16) = (of_nat (length ?bs) :: u32)"
    using small by (intro ucast_of_nat_u16) simp
  have "unat (of_nat (length ?bs) :: u16) = length ?bs" using small by (intro unat_of_nat_u16) simp
  then have "of_nat (length ?bs) = (0 :: u16) \<longleftrightarrow> length ?bs = 0" by (rule of_nat_eq_0_u16)
  then have z: "of_nat (length ?bs) = (0 :: u16) \<longleftrightarrow> gr_buckets g = []" by (simp only: no_buckets)
  have "read_elements of_group_frame_bucket_response m (e + 8) (of_nat (length ?bs))
      = Some (Inr (map bucket_entry (gr_buckets g), e + 8 + length ?bs))"
    using br.read_all [OF _ at(4)] g small by (simp add: readable_group_def)
  then show "group_desc_step m st e (e + 8) (of_nat (length (group_desc_bytes g) - 8)) = Some (Inr (group_desc_upd st g))"
    using at(2,3) z by (simp add: group_desc_step_def Let_def of_group_frame_response_def uc group_desc_upd_def)
next
  fix g m e
  assume "holds m e (group_desc_bytes g)"
  then show "be16_at m (e + 0) = of_nat (length (group_desc_bytes g))" using group_desc_at(1) by simp
qed simp_all

definition group_callback :: "reply_context \<Rightarrow> ofi_group_desc_info \<Rightarrow> bool \<Rightarrow> ofi_group_desc_info reply_cbk" where
  "group_callback c g is_last = Reply_cbk (rc_domain_handle c) (rc_datapath_handle c) None
     (rc_app_pvt_arg1 c) (rc_app_pvt_arg2 c) OF_RESPONSE_STATUS_SUCCESS (Some g) (Some is_last)"

lemma group_desc_reply:
  assumes "gs \<noteq> []" and "\<forall>g \<in> set gs. readable_group g"
    and "holds m (s + 16) (encoding group_desc_bytes gs)"
    and "be16_at m (h + 2) = of_nat (16 + length (encoding group_desc_bytes gs))"
    and "16 + length (encoding group_desc_bytes gs) < 65536"
  shows "of_handle_group_desc_response c m s h garbage
    = (variable_events 8 group_desc_bytes group_desc_upd (group_callback c) garbage gs, Returned)"
proof -
  let ?n = "length (encoding group_desc_bytes gs)"
  let ?k = "OF_MULTIPART_RPLY_MSG_NO_OF_DESC (of_nat (16 + ?n)) 8"
  have "length gs \<le> ?n div 8" using groups.encoding_size [OF assms(2)] by simp
  then have k: "length gs \<le> unat ?k" using no_of_descs [OF assms(5), of 8] by simp
  then have "?k \<noteq> 0" using assms(1) by (cases gs) auto
  moreover have "of_nat (16 + ?n) - of_nat sizeof_ofp_multipart_reply = (of_nat (0 + ?n) :: u16)"
    by (simp add: sizeof_ofp_multipart_reply_def)
  moreover have "variable_loop (unat ?k) 8 0 m (group_desc_step m) (group_callback c) (s + 16)
      (of_nat (0 + ?n)) (of_nat 0) garbage
    = (variable_events 8 group_desc_bytes group_desc_upd (group_callback c) garbage gs, Returned)"
    using assms(2,3,5) k by (intro groups.loop_all) simp_all
  ultimately show ?thesis
    unfolding of_handle_group_desc_response_def assms(4) group_callback_def [abs_def]
    by (simp add: Let_def sizeof_ofp_multipart_reply_def)
qed

lemma variable_events_nth:
  "i < length xs \<Longrightarrow> variable_events d enc upd cbk st xs ! i
     = cbk (foldl upd st (take (Suc i) xs)) (length (encoding enc (drop (Suc i) xs)) \<le> d)"
  by (induction xs arbitrary: i st) (auto simp: nth_Cons' gr0_conv_Suc)

lemma length_variable_events [simp]: "length (variable_events d enc upd cbk st xs) = length xs"
  by (induction xs arbitrary: st) simp_all

text \<open>
  C9: A group description reply that describes any nonempty sequence of groups
  makes the handler call back once for each, in order, and return; for a group that has buckets, with
  its number and type and with its buckets, their actions and their properties.  This holds of buckets
  that the readers keep (\<open>readable_bucket\<close>): no set-queue action, no set-field action of a field that is
  not kept, and no watched port, which is stored as a watched group (lemma \<open>watch_port_misplaced\<close>).  A group
  without buckets is reported with those of the group before it (lemma \<open>stale_buckets\<close>), and nothing is
  claimed of the flag of the callback, which the header documents as \<open>more_groups\<close> while the handler
  passes whether the group is the last one.
\<close>

theorem group_desc_delivered:
  assumes "\<forall>g \<in> set gs. readable_group g"
    and "holds m (s + 16) (encoding group_desc_bytes gs)"
    and "be16_at m (h + 2) = of_nat (16 + length (encoding group_desc_bytes gs))"
    and "16 + length (encoding group_desc_bytes gs) < 65536"
    and "i < length gs" and "gr_buckets (gs ! i) \<noteq> []"
  shows "snd (of_handle_group_desc_response c m s h garbage) = Returned
    \<and> length (fst (of_handle_group_desc_response c m s h garbage)) = length gs
    \<and> rep_info (fst (of_handle_group_desc_response c m s h garbage) ! i)
      = Some \<lparr>gd_group_id = gr_id (gs ! i), gd_group_type = gr_type (gs ! i),
              gd_bucket_list = map bucket_entry (gr_buckets (gs ! i))\<rparr>"
proof -
  have "gs \<noteq> []" using assms(5) by auto
  then show ?thesis
    using assms(5,6) group_desc_reply [OF _ assms(1-4), of c garbage]
    by (simp add: variable_events_nth take_Suc_conv_app_nth group_callback_def group_desc_upd_def)
qed

text \<open>
  A group without buckets is reported with the buckets of the group in front of it,
  although the callback says that it succeeded.
\<close>

theorem stale_buckets:
  assumes "\<forall>g \<in> set gs. readable_group g"
    and "holds m (s + 16) (encoding group_desc_bytes gs)"
    and "be16_at m (h + 2) = of_nat (16 + length (encoding group_desc_bytes gs))"
    and "16 + length (encoding group_desc_bytes gs) < 65536"
    and "Suc i < length gs" and "gr_buckets (gs ! i) \<noteq> []" and "gr_buckets (gs ! Suc i) = []"
  shows "\<exists>g. rep_info (fst (of_handle_group_desc_response c m s h garbage) ! Suc i) = Some g
    \<and> gd_group_id g = gr_id (gs ! Suc i)
    \<and> gd_bucket_list g = map bucket_entry (gr_buckets (gs ! i)) \<and> gd_bucket_list g \<noteq> []"
proof -
  have "gs \<noteq> []" using assms(5) by auto
  then show ?thesis
    using assms(5-7) group_desc_reply [OF _ assms(1-4), of c garbage]
    by (simp add: variable_events_nth take_Suc_conv_app_nth group_callback_def group_desc_upd_def)
qed

definition empty_group :: ofi_group_desc_info where
  "empty_group = \<lparr>gd_group_id = 0, gd_group_type = 0, gd_bucket_list = []\<rparr>"

definition sample_groups :: "group_desc list" where
  "sample_groups = [\<lparr>gr_type = 1, gr_id = 5, gr_buckets =
       [\<lparr>gb_id = 1, gb_actions = [Output 7 64], gb_props = [Weight 10, Watch_group 7]\<rparr>]\<rparr>,
     \<lparr>gr_type = 0, gr_id = 6, gr_buckets = []\<rparr>]"

lemma sample_groups:
  "\<forall>g \<in> set sample_groups. readable_group g" "length (encoding group_desc_bytes sample_groups) = 56"
  "length sample_groups = 2"
  by (simp_all add: sample_groups_def readable_group_def readable_bucket_def readable_action_def readable_prop_def action_enc_def)

lemma group_desc_delivered_witness:
  "rep_info (fst (of_handle_group_desc_response sample_context
     (reply_memory (encoding group_desc_bytes sample_groups)) 1000 1000 empty_group) ! 0)
   = Some \<lparr>gd_group_id = 5, gd_group_type = 1, gd_bucket_list =
       [\<lparr>bk_bucket_id = 1, bk_action_list = [calloc_action\<lparr>act_port_no := 7, act_max_len := 64\<rparr>],
         bk_bucket_prop_list = [calloc_bucket_prop\<lparr>bp_weight := 10\<rparr>, calloc_bucket_prop\<lparr>bp_watch_group := 7\<rparr>]\<rparr>]\<rparr>"
  using group_desc_delivered [of sample_groups "reply_memory (encoding group_desc_bytes sample_groups)" 1000
      1000 0 sample_context empty_group] sample_groups reply_memory [of "encoding group_desc_bytes sample_groups"]
  by (simp add: sample_groups_def bucket_entry_def calloc_action_def)

lemma stale_buckets_witness:
  "\<exists>g. rep_info (fst (of_handle_group_desc_response sample_context
     (reply_memory (encoding group_desc_bytes sample_groups)) 1000 1000 empty_group) ! 1) = Some g
   \<and> gd_group_id g = 6 \<and> gd_bucket_list g \<noteq> []"
  using stale_buckets [of sample_groups "reply_memory (encoding group_desc_bytes sample_groups)" 1000
      1000 0 sample_context empty_group] sample_groups reply_memory [of "encoding group_desc_bytes sample_groups"]
  by (auto simp: sample_groups_def)

section \<open>Reading back meters\<close>

datatype meter_band = Drop_band u32 u32 | Dscp_remark_band u32 u32 u8

primrec band_wire :: "meter_band \<Rightarrow> wire_tlv" where
  "band_wire (Drop_band r b) = Wire 1 (be32 r @ be32 b @ replicate 4 0)"
| "band_wire (Dscp_remark_band r b l) = Wire 2 (be32 r @ be32 b @ l # replicate 3 0)"

definition band_enc :: "meter_band \<Rightarrow> u8 list" where "band_enc b = wire_bytes (band_wire b)"

primrec band_entry :: "meter_band \<Rightarrow> ofi_meter_band" where
  "band_entry (Drop_band r b) =
     \<lparr>mb_type = 1, mb_len = 16, mb_rate = r, mb_burst_size = b, mb_prec_level = 0\<rparr>"
| "band_entry (Dscp_remark_band r b l) =
     \<lparr>mb_type = 2, mb_len = 16, mb_rate = r, mb_burst_size = b, mb_prec_level = l\<rparr>"

lemma length_band_enc [simp]: "length (band_enc b) = 16"
  by (cases b) (simp_all add: band_enc_def)

interpretation bands: element_reader band_reader band_enc band_entry "\<lambda>_. True"
proof
  fix b m p
  assume h: "holds m p (band_enc b)"
  show "band_reader m p = Some (Inr (band_entry b, length (band_enc b)))"
  proof (cases b)
    case (Drop_band r u)
    note w = at_wire [OF h [unfolded band_enc_def Drop_band band_wire.simps]]
    have "holds m (p + 4) (be32 r)" "holds m (p + 8) (be32 u)"
      using w(3) by (simp_all add: holds_append ac_simps)
    then show ?thesis using w(1,2) Drop_band
      by (simp add: band_reader_def of_meter_frame_band_response_def OFPMBT_DROP_def at_holds)
  next
    case (Dscp_remark_band r u l)
    note w = at_wire [OF h [unfolded band_enc_def Dscp_remark_band band_wire.simps]]
    have "holds m (p + 4) (be32 r)" "holds m (p + 8) (be32 u)" "holds m (p + 12) (l # replicate 3 0)"
      using w(3) by (simp_all add: holds_append ac_simps)
    then show ?thesis using w(1,2) Dscp_remark_band reads_back(5) [of m "p + 12" l]
      by (simp add: band_reader_def of_meter_frame_band_response_def OFPMBT_DROP_def
          OFPMBT_DSCP_REMARK_def at_holds)
  qed
qed simp

record meter_config =
  me_id :: u32
  me_flags :: u16
  me_bands :: "meter_band list"

definition meter_config_bytes :: "meter_config \<Rightarrow> u8 list" where
  "meter_config_bytes q = be16 (of_nat (8 + length (encoding band_enc (me_bands q)))) @ be16 (me_flags q)
     @ be32 (me_id q) @ encoding band_enc (me_bands q)"

definition meter_config_upd :: "ofi_meter_rec_info \<Rightarrow> meter_config \<Rightarrow> ofi_meter_rec_info" where
  "meter_config_upd st q = \<lparr>mc_meter_id = me_id q, mc_flags = me_flags q,
     mc_meter_band_list = (if me_bands q = [] then mc_meter_band_list st else map band_entry (me_bands q))\<rparr>"

lemma length_meter_config [simp]:
  "length (meter_config_bytes q) = 8 + length (encoding band_enc (me_bands q))"
  by (simp add: meter_config_bytes_def)

lemma no_bands: "length (encoding band_enc bs) = 0 \<longleftrightarrow> bs = []"
  using length_band_enc [of "hd bs"] by (cases bs) (auto simp del: length_band_enc)

lemma meter_config_at:
  assumes "holds m e (meter_config_bytes q)"
  shows "be16_at m e = of_nat (length (meter_config_bytes q))" and "be16_at m (e + 2) = me_flags q"
    and "be32_at m (e + 4) = me_id q" and "holds m (e + 8) (encoding band_enc (me_bands q))"
proof -
  have h: "holds m e (be16 (of_nat (8 + length (encoding band_enc (me_bands q)))))"
    "holds m (e + 2) (be16 (me_flags q))" "holds m (e + 4) (be32 (me_id q))"
    "holds m (e + 8) (encoding band_enc (me_bands q))"
    using assms unfolding meter_config_bytes_def holds_append by (simp_all add: ac_simps)
  show "be16_at m e = of_nat (length (meter_config_bytes q))" "be16_at m (e + 2) = me_flags q"
    "be32_at m (e + 4) = me_id q" "holds m (e + 8) (encoding band_enc (me_bands q))"
    using at_holds(1) [OF h(1)] at_holds(1) [OF h(2)] at_holds(2) [OF h(3)] h(4) by simp_all
qed

interpretation meters: variable_desc 8 0 meter_config_step meter_config_bytes meter_config_upd "\<lambda>_. True"
proof
  fix q m e st
  assume h: "holds m e (meter_config_bytes q)" and small: "length (meter_config_bytes q) < 65536"
  let ?bs = "encoding band_enc (me_bands q)"
  note at = meter_config_at [OF h]
  have uc: "ucast (of_nat (length ?bs) :: u16) = (of_nat (length ?bs) :: u32)"
    using small by (intro ucast_of_nat_u16) simp
  have "unat (of_nat (length ?bs) :: u16) = length ?bs" using small by (intro unat_of_nat_u16) simp
  then have "of_nat (length ?bs) = (0 :: u16) \<longleftrightarrow> length ?bs = 0" by (rule of_nat_eq_0_u16)
  then have z: "of_nat (length ?bs) = (0 :: u16) \<longleftrightarrow> me_bands q = []" by (simp only: no_bands)
  have "read_elements band_reader m (e + 8) (of_nat (length ?bs))
      = Some (Inr (map band_entry (me_bands q), e + 8 + length ?bs))"
    using bands.read_all [OF _ at(4)] small by simp
  then show "meter_config_step m st e (e + 8) (of_nat (length (meter_config_bytes q) - 8))
      = Some (Inr (meter_config_upd st q))"
    using at(2,3) z by (simp add: meter_config_step_def Let_def of_meter_frame_response_def uc meter_config_upd_def)
next
  fix q m e
  assume "holds m e (meter_config_bytes q)"
  then show "be16_at m (e + 0) = of_nat (length (meter_config_bytes q))" using meter_config_at(1) by simp
qed simp_all

definition group_stat_bytes :: "ofi_group_stat \<Rightarrow> u8 list \<Rightarrow> u8 list" where
  "group_stat_bytes g counters = be16 (of_nat (40 + length counters)) @ replicate 2 0 @ be32 (gs_group_id g)
     @ be32 (gs_ref_count g) @ replicate 4 0 @ be64 (gs_packet_count g) @ be64 (gs_byte_count g)
     @ be32 (gs_duration_sec g) @ be32 (gs_duration_nsec g) @ counters"

text \<open>The counters of the buckets are passed over.\<close>

interpretation group_statistics: variable_desc 40 0 group_stats_step "\<lambda>(g, k). group_stat_bytes g k"
  "\<lambda>st (g, k). g" "\<lambda>_. True"
proof
  fix x :: "ofi_group_stat \<times> u8 list" and m e st
  assume h: "holds m e (case x of (g, k) \<Rightarrow> group_stat_bytes g k)"
  obtain g k where x: "x = (g, k)" by (cases x)
  have a: "holds m e (be16 (of_nat (40 + length k)))" "holds m (e + 4) (be32 (gs_group_id g))"
    "holds m (e + 8) (be32 (gs_ref_count g))" "holds m (e + 16) (be64 (gs_packet_count g))"
    "holds m (e + 24) (be64 (gs_byte_count g))" "holds m (e + 32) (be32 (gs_duration_sec g))"
    "holds m (e + 36) (be32 (gs_duration_nsec g))"
    using h unfolding x prod.case group_stat_bytes_def holds_append by (simp_all add: ac_simps)
  then show "group_stats_step m st e (e + 40) (of_nat (length (case x of (g, k) \<Rightarrow> group_stat_bytes g k) - 40))
      = Some (Inr (case x of (g, k) \<Rightarrow> g))"
    by (simp add: x group_stats_step_def at_holds)
  show "be16_at m (e + 0) = of_nat (length (case x of (g, k) \<Rightarrow> group_stat_bytes g k))"
    using at_holds(1) [OF a(1)] by (simp add: x group_stat_bytes_def)
qed (auto simp: group_stat_bytes_def)

end
