(* ===== verification/GroupMod.thy ===== *)
theory GroupMod
  imports ReplyGroup FlowSend
begin

text \<open>
  Requests that create and change groups: the routines of \<open>of_msg_utils.c\<close> that append buckets and their
  properties, the group messages of \<open>of_cntlr_2_sw_msgapi.c\<close>, and the functions of \<open>groupapi.c\<close> that build
  and send them.  A bucket is closed when the next one is appended, or at the end; \<open>ptr2\<close> and \<open>length2\<close> are
  those of the buckets, \<open>ptr3\<close> and \<open>length3\<close> those of the actions in the current one, \<open>ptr1\<close> and \<open>length1\<close>
  those of its properties.
\<close>

section \<open>Buckets\<close>

definition ofu_start_appending_buckets_to_group :: "of_msg \<Rightarrow> of_msg" where
  "ofu_start_appending_buckets_to_group msg = msg\<lparr>ptr2 := start_of_data msg + sizeof_ofp_group_mod, length2 := 0\<rparr>"

text \<open>The lengths of the bucket that was appended last, and how many bytes of padding it takes.\<close>

definition close_bucket :: "of_msg \<Rightarrow> u16 \<times> of_msg" where
  "close_bucket msg =
     (let bucket = ptr2 msg + unat (length2 msg) - (unat (length3 msg) + OFU_GROUP_ACTION_BUCKET_LEN);
          bucket_len = of_nat OFU_GROUP_ACTION_BUCKET_LEN + length3 msg + length1 msg;
          roundup_bytes = of_nat (ROUND_UP (unat bucket_len));
          msg = memset_0 (bucket + unat bucket_len) (unat roundup_bytes) msg;
          msg = st16 bucket (bucket_len + roundup_bytes) msg;
          msg = st16 (bucket + 2) (length3 msg) msg
      in (roundup_bytes, msg))"

definition open_bucket :: "u32 \<Rightarrow> of_msg \<Rightarrow> msg_utilities \<times> of_msg" where
  "open_bucket bucket_id msg =
     (if no_room (pos2 msg + OFU_GROUP_ACTION_BUCKET_LEN) msg then (OFU_NO_ROOM_IN_BUFFER, msg)
      else let msg = st32 (pos2 msg + unat (length1 msg) + 4) bucket_id msg
           in (OFU_APPEND_BUCKET_SUCCESS, advance2 OFU_GROUP_ACTION_BUCKET_LEN msg))"

definition ofu_append_bucket_to_group_type_all :: "u32 \<Rightarrow> of_msg \<Rightarrow> msg_utilities \<times> of_msg" where
  "ofu_append_bucket_to_group_type_all bucket_id msg =
     (let msg = (if length2 msg > 0
                 then let (roundup_bytes, msg) = close_bucket msg
                      in msg\<lparr>length2 := length2 msg + (roundup_bytes + length1 msg)\<rparr>
                 else msg)
      in open_bucket bucket_id msg)"

definition ofu_append_bucket_to_group_type_select :: "u32 \<Rightarrow> of_msg \<Rightarrow> msg_utilities \<times> of_msg" where
  "ofu_append_bucket_to_group_type_select bucket_id msg =
     (let msg = (if length2 msg > 0
                 then let (roundup_bytes, msg) = close_bucket msg
                      in msg\<lparr>length2 := length2 msg + (roundup_bytes + length1 msg)\<rparr>
                 else msg)
      in open_bucket bucket_id msg)"

definition ofu_append_bucket_to_group_type_indirect :: "u32 \<Rightarrow> of_msg \<Rightarrow> msg_utilities \<times> of_msg" where
  "ofu_append_bucket_to_group_type_indirect bucket_id msg =
     (let msg = (if length2 msg > 0
                 then let (roundup_bytes, msg) = close_bucket msg
                      in msg\<lparr>length2 := length2 msg + (roundup_bytes + length1 msg)\<rparr>
                 else msg)
      in open_bucket bucket_id msg)"

text \<open>Here the length of the properties is added twice.\<close>

definition ofu_append_bucket_to_group_type_fast_failover :: "u32 \<Rightarrow> of_msg \<Rightarrow> msg_utilities \<times> of_msg" where
  "ofu_append_bucket_to_group_type_fast_failover bucket_id msg =
     (let msg = (if length2 msg > 0
                 then let (roundup_bytes, msg) = close_bucket msg;
                          msg = msg\<lparr>length2 := length2 msg + length1 msg\<rparr>
                      in msg\<lparr>length2 := length2 msg + (roundup_bytes + length1 msg)\<rparr>
                 else msg)
      in open_bucket bucket_id msg)"

text \<open>The padding of the last bucket is counted in the result, but not in \<open>data_len\<close>.\<close>

definition ofu_end_appending_buckets_to_group :: "of_msg \<Rightarrow> u16 \<times> of_msg" where
  "ofu_end_appending_buckets_to_group msg =
     (let (roundup_bytes, msg) = close_bucket msg
      in (length2 msg + roundup_bytes + length1 msg, msg))"

section \<open>Properties of buckets\<close>

definition ofu_start_attach_bucket_properties :: "of_msg \<Rightarrow> of_msg" where
  "ofu_start_attach_bucket_properties msg = msg\<lparr>ptr1 := ptr2 msg + unat (length2 msg), length1 := 0\<rparr>"

definition ofu_attach_weight_prop_to_bucket :: "u16 \<Rightarrow> of_msg \<Rightarrow> msg_utilities \<times> of_msg" where
  "ofu_attach_weight_prop_to_bucket weight msg =
     (if no_room (pos1 msg + OFU_GROUP_BUCKET_PROP_WEIGHT_LEN) msg then (OFU_NO_ROOM_IN_BUFFER, msg)
      else let
        weight_prop = pos1 msg;
        msg = st16 weight_prop OFPGBPT_WEIGHT msg;
        msg = st16 (weight_prop + 2) (of_nat OFU_GROUP_BUCKET_PROP_WEIGHT_LEN) msg;
        msg = st16 (weight_prop + 4) weight msg
      in (OFU_APPEND_BUCKET_SUCCESS, advance1 OFU_GROUP_BUCKET_PROP_WEIGHT_LEN msg))"

definition ofu_attach_watch_port_prop_to_bucket :: "u32 \<Rightarrow> of_msg \<Rightarrow> msg_utilities \<times> of_msg" where
  "ofu_attach_watch_port_prop_to_bucket watch_port msg =
     (if no_room (pos1 msg + OFU_GROUP_BUCKET_PROP_WATCH_LEN) msg then (OFU_NO_ROOM_IN_BUFFER, msg)
      else let
        watch_prop = pos1 msg;
        msg = st16 watch_prop OFPGBPT_WATCH_PORT msg;
        msg = st16 (watch_prop + 2) (of_nat OFU_GROUP_BUCKET_PROP_WATCH_LEN) msg;
        msg = st32 (watch_prop + 4) watch_port msg
      in (OFU_APPEND_BUCKET_SUCCESS, advance1 OFU_GROUP_BUCKET_PROP_WATCH_LEN msg))"

definition ofu_attach_watch_group_prop_to_bucket :: "u32 \<Rightarrow> of_msg \<Rightarrow> msg_utilities \<times> of_msg" where
  "ofu_attach_watch_group_prop_to_bucket watch_group msg =
     (if no_room (pos1 msg + OFU_GROUP_BUCKET_PROP_WATCH_LEN) msg then (OFU_NO_ROOM_IN_BUFFER, msg)
      else let
        watch_prop = pos1 msg;
        msg = st16 watch_prop OFPGBPT_WATCH_GROUP msg;
        msg = st16 (watch_prop + 2) (of_nat OFU_GROUP_BUCKET_PROP_WATCH_LEN) msg;
        msg = st32 (watch_prop + 4) watch_group msg
      in (OFU_APPEND_BUCKET_SUCCESS, advance1 OFU_GROUP_BUCKET_PROP_WATCH_LEN msg))"

definition ofu_end_attach_bucket_properties :: "of_msg \<Rightarrow> u16 \<times> of_msg" where
  "ofu_end_attach_bucket_properties msg = (length1 msg, msg\<lparr>data_len := data_len msg + length1 msg\<rparr>)"

section \<open>The action of a bucket\<close>

text \<open>
  An action of a group is a \<open>struct ofi_action\<close>; the routine for set-field actions is that of flows and
  takes a \<open>struct ofi_flow_action\<close>.  Behind the list node, the members of the second structure lie over
  those of the first as follows (little-endian host, 64 bit integers aligned to eight bytes); \<open>gap\<close> is
  the padding in front of \<open>ui64_data\<close> and \<open>behind\<close> what the IPv6 address is read from.
\<close>

definition as_flow_action :: "u32 \<Rightarrow> u8 list \<Rightarrow> ofi_action \<Rightarrow> ofi_flow_action" where
  "as_flow_action gap behind a =
     \<lparr>fa_action_id = act_type a, fa_action_type = ucast (act_sub_type a), fa_port_no = act_port_no a,
      fa_ttl = act_ttl a, fa_ether_type = act_ether_type a, fa_queue_id = act_queue_id a,
      fa_group_id = act_group_id a,
      fa_setfield_type = ucast (act_vendorid a), fa_ui8_data = ucast (drop_bit 8 (act_vendorid a)),
      fa_ui16_data = ucast (drop_bit 16 (act_vendorid a)),
      fa_ui32_data = ucast (act_setfield_type a) OR push_bit 8 (ucast (ui8_data a)) OR push_bit 16 (ucast (ui16_data a)),
      fa_ui64_data = ucast (ui32_data a) OR push_bit 32 (ucast gap),
      fa_ui8_data_array = take 6 (rev (be64 (ui64_data a))), fa_ipv6_addr = behind\<rparr>"

text \<open>
  \<open>None\<close> stands for every status that is no result code of the utilities.  The actions of the extension
  are not compiled in: the flag for them is commented out in \<open>rules.mk\<close>.
\<close>

definition push_group_action :: "u32 \<Rightarrow> u8 list \<Rightarrow> ofi_action \<Rightarrow> msg_utilities option \<times> of_msg \<Rightarrow> msg_utilities option \<times> of_msg" where
  "push_group_action gap behind a r =
     (let (status, msg) = r; ty = act_type a; push = checked OFU_ACTION_PUSH_SUCCESS in
      if ty = OFPAT_OUTPUT then push (ofu_push_output_action (act_port_no a) (act_max_len a) msg) else
      if ty = OFPAT_COPY_TTL_OUT then push (ofu_push_copy_ttl_outward_action msg) else
      if ty = OFPAT_COPY_TTL_IN then push (ofu_push_copy_ttl_inward_action msg) else
      if ty = OFPAT_SET_MPLS_TTL then push (ofu_push_set_mpls_ttl_action (act_ttl a) msg) else
      if ty = OFPAT_DEC_MPLS_TTL then push (ofu_push_dec_mpls_ttl_action msg) else
      if ty = OFPAT_PUSH_VLAN then push (ofu_push_push_vlan_header_action (act_ether_type a) msg) else
      if ty = OFPAT_POP_VLAN then push (ofu_push_pop_vlan_header_action msg) else
      if ty = OFPAT_PUSH_MPLS then push (ofu_push_push_mpls_header_action (act_ether_type a) msg) else
      if ty = OFPAT_POP_MPLS then push (ofu_push_pop_mpls_header_action (act_ether_type a) msg) else
      if ty = OFPAT_SET_QUEUE then push (ofu_push_set_queue_action (act_queue_id a) msg) else
      if ty = OFPAT_GROUP then push (ofu_push_group_action (act_group_id a) msg) else
      if ty = OFPAT_SET_NW_TTL then push (ofu_push_set_ipv4_ttl_action (act_ttl a) msg) else
      if ty = OFPAT_DEC_NW_TTL then push (ofu_push_dec_ipv4_ttl_action msg) else
      if ty = OFPAT_SET_FIELD then
        (case of_flow_set_action_setfield (as_flow_action gap behind a) msg of
           (status, msg) \<Rightarrow> (if status \<noteq> Some OFU_ACTION_PUSH_SUCCESS then None else status, msg)) else
      if ty = OFPAT_PUSH_PBB then push (ofu_push_push_pbb_header_action (act_ether_type a) msg) else
      if ty = OFPAT_POP_PBB then push (ofu_push_pop_pbb_header_action msg) else
      if ty = OFPAT_EXPERIMENTER then (None, msg) else
      (status, msg))"

section \<open>A bucket with its action and property\<close>

definition OFPGT_ALL :: u8 where "OFPGT_ALL = 0"
definition OFPGT_SELECT :: u8 where "OFPGT_SELECT = 1"
definition OFPGT_INDIRECT :: u8 where "OFPGT_INDIRECT = 2"
definition OFPGT_FF :: u8 where "OFPGT_FF = 3"

text \<open>
  A select group passes the weight where the number of the bucket is expected.  Select and fast failover
  groups read the property without a check; the outer \<open>None\<close> is that use of a null pointer.
\<close>

definition append_group_bucket ::
  "u8 \<Rightarrow> u32 \<Rightarrow> ofi_bucket_prop option \<Rightarrow> of_msg \<Rightarrow> (msg_utilities option \<times> of_msg) option" where
  "append_group_bucket group_type bucket_id bucket_prop msg =
     (if group_type = OFPGT_ALL then Some (apfst Some (ofu_append_bucket_to_group_type_all bucket_id msg)) else
      if group_type = OFPGT_SELECT then
        map_option (\<lambda>p. if bp_weight p = 0 then (None, msg)
                         else apfst Some (ofu_append_bucket_to_group_type_select (ucast (bp_weight p)) msg)) bucket_prop else
      if group_type = OFPGT_INDIRECT then Some (apfst Some (ofu_append_bucket_to_group_type_indirect bucket_id msg)) else
      if group_type = OFPGT_FF then
        map_option (\<lambda>p. if bp_watch_port p = 0 \<and> bp_watch_group p = 0 then (None, msg)
                         else apfst Some (ofu_append_bucket_to_group_type_fast_failover bucket_id msg)) bucket_prop else
      Some (None, msg))"

text \<open>At most one property is attached.  Without one, the status is that of the call before.\<close>

definition attach_bucket_prop :: "ofi_bucket_prop \<Rightarrow> msg_utilities option \<times> of_msg \<Rightarrow> msg_utilities option \<times> of_msg" where
  "attach_bucket_prop p r =
     (let (status, msg) = r; msg = ofu_start_attach_bucket_properties msg in
      if bp_weight p > 0 then apfst Some (ofu_attach_weight_prop_to_bucket (bp_weight p) msg) else
      if bp_watch_port p > 0 then apfst Some (ofu_attach_watch_port_prop_to_bucket (bp_watch_port p) msg) else
      if bp_watch_group p > 0 then apfst Some (ofu_attach_watch_group_prop_to_bucket (bp_watch_group p) msg) else
      (status, msg))"

text \<open>The result is the length of the buckets, or \<open>Inl\<close> for a failure.\<close>

definition of_frame_actions_and_buckets ::
  "u32 \<Rightarrow> u8 list \<Rightarrow> u8 \<Rightarrow> u32 option \<Rightarrow> ofi_bucket_prop option \<Rightarrow> ofi_action option \<Rightarrow> of_msg
    \<Rightarrow> ((unit + u16) \<times> of_msg) option" where
  "of_frame_actions_and_buckets gap behind group_type bucket bucket_prop action msg =
     (let msg = ofu_start_appending_buckets_to_group msg in
      Option.bind (case bucket of None \<Rightarrow> Some (Some OFU_APPEND_BUCKET_SUCCESS, None, msg)
                   | Some bucket_id \<Rightarrow> map_option (\<lambda>(status, msg). (status, status, msg))
                       (append_group_bucket group_type bucket_id bucket_prop msg))
        (\<lambda>(appended, status, msg).
          if appended \<noteq> Some OFU_APPEND_BUCKET_SUCCESS then Some (Inl (), msg)
          else let
            msg = ofu_start_pushing_actions msg;
            (status, msg) = (case action of None \<Rightarrow> (status, msg) | Some a \<Rightarrow> push_group_action gap behind a (status, msg))
          in if action \<noteq> None \<and> status \<noteq> Some OFU_ACTION_PUSH_SUCCESS then Some (Inl (), msg)
          else let
            (length_of_actions, msg) = ofu_end_pushing_actions msg;
            msg = st16 (ptr2 msg) length_of_actions msg;
            (status, msg) = (case bucket_prop of None \<Rightarrow> (status, msg) | Some p \<Rightarrow> attach_bucket_prop p (status, msg))
          in if bucket_prop \<noteq> None \<and> status \<noteq> Some OFU_APPEND_BUCKET_SUCCESS then Some (Inl (), msg)
          else let
            msg = (if bucket_prop = None then msg else snd (ofu_end_attach_bucket_properties msg));
            (length_of_buckets, msg) = ofu_end_appending_buckets_to_group msg
          in Some (Inr length_of_buckets, msg)))"

section \<open>The group messages\<close>

definition OFPGC_ADD :: u16 where "OFPGC_ADD = 0"
definition OFPGC_MODIFY :: u16 where "OFPGC_MODIFY = 1"
definition OFPGC_DELETE :: u16 where "OFPGC_DELETE = 2"
definition OFPGC_INSERT_BUCKET :: u16 where "OFPGC_INSERT_BUCKET = 3"
definition OFPGC_REMOVE_BUCKET :: u16 where "OFPGC_REMOVE_BUCKET = 4"
definition OFPG_BUCKET_ALL :: u32 where "OFPG_BUCKET_ALL = 0xffffffff"

type_synonym msg_result = "bool \<times> nat option \<times> of_msg"

text \<open>The header of a message that is made of its first bytes, and the cursors behind what was built.\<close>

definition put_header :: "u8 \<Rightarrow> of_msg \<Rightarrow> of_msg" where
  "put_header ty msg =
     (let hdr = start_of_data msg; msg = st8 hdr OFP_VERSION msg; msg = st8 (hdr + 1) ty msg in st32 (hdr + 4) 0 msg)"

definition count_fixed_part :: "nat \<Rightarrow> of_msg \<Rightarrow> of_msg" where
  "count_fixed_part n msg =
     (let msg = msg\<lparr>data_len := data_len msg + of_nat n\<rparr>;
          p = start_of_data msg + unat (data_len msg)
      in msg\<lparr>utils_ptr := p, ptr1 := p, ptr2 := p, ptr3 := p, length1 := 0, length2 := 0, length3 := 0\<rparr>)"

definition to_main_channel :: "'d datapath_entry_scheme \<Rightarrow> of_msg \<Rightarrow> msg_result" where
  "to_main_channel datapath msg =
     (if is_main_conn_present datapath
      then case main_channel datapath of None \<Rightarrow> (False, None, msg) | Some conn_info \<Rightarrow> (True, Some conn_info, msg)
      else (False, None, msg))"

definition of_add_group :: "(u64 \<Rightarrow> flow_datapath option) \<Rightarrow> u64 \<Rightarrow> u32 \<Rightarrow> u8 \<Rightarrow> u16 \<Rightarrow> of_msg \<Rightarrow> msg_result" where
  "of_add_group get_datapath_byhandle datapath_handle group_id group_type bucket_list_len msg =
     (case get_datapath_byhandle datapath_handle of
        None \<Rightarrow> (False, None, msg)
      | Some datapath \<Rightarrow>
          let group_mod = start_of_data msg;
              msg = put_header OFPT_GROUP_MOD msg;
              msg = st16 (group_mod + 8) OFPGC_ADD msg;
              msg = st8 (group_mod + 10) group_type msg;
              msg = st32 (group_mod + 12) group_id msg;
              msg = st32 (group_mod + 20) OFPG_BUCKET_ALL msg;
              msg = st16 (group_mod + 16) bucket_list_len msg
          in to_main_channel datapath (count_fixed_part sizeof_ofp_group_mod msg))"

definition of_insert_bucket_to_group ::
  "(u64 \<Rightarrow> flow_datapath option) \<Rightarrow> u64 \<Rightarrow> u32 \<Rightarrow> u8 \<Rightarrow> u32 \<Rightarrow> u16 \<Rightarrow> of_msg \<Rightarrow> msg_result" where
  "of_insert_bucket_to_group get_datapath_byhandle datapath_handle group_id group_type command_bkt_id bucket_list_len msg =
     (case get_datapath_byhandle datapath_handle of
        None \<Rightarrow> (False, None, msg)
      | Some datapath \<Rightarrow>
          let group_mod = start_of_data msg;
              msg = put_header OFPT_GROUP_MOD msg;
              msg = st16 (group_mod + 8) OFPGC_INSERT_BUCKET msg;
              msg = st8 (group_mod + 10) group_type msg;
              msg = st32 (group_mod + 12) group_id msg;
              msg = st32 (group_mod + 20) command_bkt_id msg;
              msg = st16 (group_mod + 16) bucket_list_len msg
          in to_main_channel datapath (count_fixed_part sizeof_ofp_group_mod msg))"

definition of_modify_group :: "(u64 \<Rightarrow> flow_datapath option) \<Rightarrow> u64 \<Rightarrow> u32 \<Rightarrow> u8 \<Rightarrow> u16 \<Rightarrow> of_msg \<Rightarrow> msg_result" where
  "of_modify_group get_datapath_byhandle datapath_handle group_id group_type bucket_list_len msg =
     (case get_datapath_byhandle datapath_handle of
        None \<Rightarrow> (False, None, msg)
      | Some datapath \<Rightarrow>
          let group_mod = start_of_data msg;
              msg = put_header OFPT_GROUP_MOD msg;
              msg = st16 (group_mod + 8) OFPGC_MODIFY msg;
              msg = st8 (group_mod + 10) group_type msg;
              msg = st32 (group_mod + 12) group_id msg;
              msg = st32 (group_mod + 20) OFPG_BUCKET_ALL msg;
              msg = st16 (group_mod + 16) bucket_list_len msg
          in to_main_channel datapath (count_fixed_part sizeof_ofp_group_mod msg))"

definition of_delete_group :: "(u64 \<Rightarrow> flow_datapath option) \<Rightarrow> u64 \<Rightarrow> u32 \<Rightarrow> of_msg \<Rightarrow> msg_result" where
  "of_delete_group get_datapath_byhandle datapath_handle group_id msg =
     (case get_datapath_byhandle datapath_handle of
        None \<Rightarrow> (False, None, msg)
      | Some datapath \<Rightarrow>
          let group_mod = start_of_data msg;
              msg = put_header OFPT_GROUP_MOD msg;
              msg = st16 (group_mod + 8) OFPGC_DELETE msg;
              msg = st32 (group_mod + 20) OFPG_BUCKET_ALL msg;
              msg = st32 (group_mod + 12) group_id msg
          in to_main_channel datapath (count_fixed_part sizeof_ofp_group_mod msg))"

definition of_remove_bucket_from_group ::
  "(u64 \<Rightarrow> flow_datapath option) \<Rightarrow> u64 \<Rightarrow> u32 \<Rightarrow> u8 \<Rightarrow> u32 \<Rightarrow> of_msg \<Rightarrow> msg_result" where
  "of_remove_bucket_from_group get_datapath_byhandle datapath_handle group_id group_type command_bkt_id msg =
     (case get_datapath_byhandle datapath_handle of
        None \<Rightarrow> (False, None, msg)
      | Some datapath \<Rightarrow>
          let group_mod = start_of_data msg;
              msg = put_header OFPT_GROUP_MOD msg;
              msg = st16 (group_mod + 8) OFPGC_REMOVE_BUCKET msg;
              msg = st8 (group_mod + 10) group_type msg;
              msg = st32 (group_mod + 12) group_id msg;
              msg = st32 (group_mod + 20) command_bkt_id msg
          in to_main_channel datapath (count_fixed_part sizeof_ofp_group_mod msg))"

section \<open>Building and sending\<close>

record group_outcome =
  go_ok :: bool
  go_sent :: "(nat option \<times> of_msg) list"
  go_pool :: pool_state

text \<open>
  What the functions share: the environment, and the end, which releases the message of a failure, also
  when the transport has released it.
\<close>

record group_env =
  ge_get_mem_block :: "nat \<Rightarrow> (nat \<times> bool) option"
  ge_data_of :: "nat \<Rightarrow> nat"
  ge_cells :: memory
  ge_datapath :: "u64 \<Rightarrow> flow_datapath option"
  ge_deliver :: "nat option \<Rightarrow> of_msg \<Rightarrow> delivery"
  ge_gap :: u32
  ge_behind :: "u8 list"

definition group_failed :: "(nat option \<times> of_msg) list \<Rightarrow> nat \<Rightarrow> pool_state \<Rightarrow> group_outcome" where
  "group_failed sent blk st = \<lparr>go_ok = False, go_sent = sent, go_pool = of_msg_release blk st\<rparr>"

definition send_group_msg :: "group_env \<Rightarrow> u64 \<Rightarrow> nat \<Rightarrow> pool_state \<Rightarrow> msg_result \<Rightarrow> group_outcome" where
  "send_group_msg env datapath_handle blk st r =
     (let (ok, conn_info, msg) = r in
      if \<not> ok then group_failed [] blk st
      else let (taken, sent) = of_cntrlr_send_request_message (ge_datapath env) (ge_deliver env) datapath_handle conn_info msg
           in if taken = Accepted then \<lparr>go_ok = True, go_sent = sent, go_pool = st\<rparr>
              else group_failed sent blk (transport_release taken blk st))"

definition OFU_ADD_OR_MODIFY_OR_DELETE_GROUP_MESSAGE :: nat where
  "OFU_ADD_OR_MODIFY_OR_DELETE_GROUP_MESSAGE = sizeof_ofp_group_mod"

text \<open>The room for a group message with one bucket: for an output action and a weight.\<close>

definition group_msg_len :: u16 where
  "group_msg_len = of_nat (OFU_ADD_OR_MODIFY_OR_DELETE_GROUP_MESSAGE + OFU_GROUP_ACTION_BUCKET_LEN
     + OFU_OUTPUT_ACTION_LEN + OFU_GROUP_BUCKET_PROP_WEIGHT_LEN)"

definition with_group_msg ::
  "group_env \<Rightarrow> u16 \<Rightarrow> pool_state \<Rightarrow> (nat \<Rightarrow> pool_state \<Rightarrow> of_msg \<Rightarrow> group_outcome option) \<Rightarrow> group_outcome option" where
  "with_group_msg env msg_len st rest =
     (case ofu_alloc_message (ge_get_mem_block env) of_cntlr_msg_init OFPT_GROUP_MOD msg_len st of
        (None, st) \<Rightarrow> Some \<lparr>go_ok = False, go_sent = [], go_pool = st\<rparr>
      | (Some (blk, mk), st) \<Rightarrow> rest blk st (mk (ge_data_of env blk) (ge_cells env)))"

definition of_frame_and_send_add_group_info ::
  "group_env \<Rightarrow> u64 \<Rightarrow> u32 \<Rightarrow> u8 \<Rightarrow> u32 option \<Rightarrow> ofi_bucket_prop option \<Rightarrow> ofi_action option \<Rightarrow> pool_state
    \<Rightarrow> group_outcome option" where
  "of_frame_and_send_add_group_info env datapath_handle group_id group_type bucket bucket_prop action st =
     with_group_msg env group_msg_len st (\<lambda>blk st msg.
       Option.bind (if bucket \<noteq> None \<or> action \<noteq> None
                    then of_frame_actions_and_buckets (ge_gap env) (ge_behind env) group_type bucket bucket_prop action msg
                    else Some (Inr 0, msg))
         (\<lambda>(r, msg). Some (case r of
              Inl _ \<Rightarrow> group_failed [] blk st
            | Inr length_of_buckets \<Rightarrow> send_group_msg env datapath_handle blk st
                (of_add_group (ge_datapath env) datapath_handle group_id group_type length_of_buckets msg))))"

definition of_frame_and_send_mod_group_bucket_info ::
  "group_env \<Rightarrow> u64 \<Rightarrow> u32 \<Rightarrow> u8 \<Rightarrow> u32 option \<Rightarrow> ofi_bucket_prop option \<Rightarrow> ofi_action option \<Rightarrow> u32 \<Rightarrow> pool_state
    \<Rightarrow> group_outcome option" where
  "of_frame_and_send_mod_group_bucket_info env datapath_handle group_id group_type bucket bucket_prop action command_bkt_id st =
     with_group_msg env group_msg_len st (\<lambda>blk st msg.
       Option.bind (of_frame_actions_and_buckets (ge_gap env) (ge_behind env) group_type bucket bucket_prop action msg)
         (\<lambda>(r, msg). Some (case r of
              Inl _ \<Rightarrow> group_failed [] blk st
            | Inr length_of_buckets \<Rightarrow> send_group_msg env datapath_handle blk st
                (of_insert_bucket_to_group (ge_datapath env) datapath_handle group_id group_type command_bkt_id
                   length_of_buckets msg))))"

text \<open>Here the number of the bucket is also the place; without a bucket, it is read from a null pointer.\<close>

definition of_frame_and_send_add_action_info ::
  "group_env \<Rightarrow> u64 \<Rightarrow> u32 \<Rightarrow> u8 \<Rightarrow> u32 option \<Rightarrow> ofi_action option \<Rightarrow> pool_state \<Rightarrow> group_outcome option" where
  "of_frame_and_send_add_action_info env datapath_handle group_id group_type bucket action st =
     with_group_msg env group_msg_len st (\<lambda>blk st msg.
       Option.bind (of_frame_actions_and_buckets (ge_gap env) (ge_behind env) group_type bucket None action msg)
         (\<lambda>(r, msg). case r of
              Inl _ \<Rightarrow> Some (group_failed [] blk st)
            | Inr length_of_buckets \<Rightarrow> map_option (\<lambda>bucket_id. send_group_msg env datapath_handle blk st
                (of_insert_bucket_to_group (ge_datapath env) datapath_handle group_id group_type bucket_id
                   length_of_buckets msg)) bucket))"

definition of_frame_and_send_del_bucket_info ::
  "group_env \<Rightarrow> u64 \<Rightarrow> u32 \<Rightarrow> u8 \<Rightarrow> u32 \<Rightarrow> pool_state \<Rightarrow> group_outcome option" where
  "of_frame_and_send_del_bucket_info env datapath_handle group_id group_type command_bkt_id st =
     with_group_msg env (of_nat OFU_ADD_OR_MODIFY_OR_DELETE_GROUP_MESSAGE) st (\<lambda>blk st msg.
       Some (send_group_msg env datapath_handle blk st
         (of_remove_bucket_from_group (ge_datapath env) datapath_handle group_id group_type command_bkt_id msg)))"

definition of_frame_and_send_delete_group :: "group_env \<Rightarrow> u64 \<Rightarrow> u32 \<Rightarrow> pool_state \<Rightarrow> group_outcome option" where
  "of_frame_and_send_delete_group env datapath_handle group_id st =
     with_group_msg env (of_nat OFU_ADD_OR_MODIFY_OR_DELETE_GROUP_MESSAGE) st (\<lambda>blk st msg.
       Some (send_group_msg env datapath_handle blk st
         (of_delete_group (ge_datapath env) datapath_handle group_id msg)))"

section \<open>What an action stands for\<close>

definition plain_action :: "ofi_action \<Rightarrow> action_call option" where
  "plain_action a =
     (let ty = act_type a in
      if ty = OFPAT_OUTPUT then Some (Output (act_port_no a) (act_max_len a)) else
      if ty = OFPAT_COPY_TTL_OUT then Some Copy_ttl_outward else
      if ty = OFPAT_COPY_TTL_IN then Some Copy_ttl_inward else
      if ty = OFPAT_SET_MPLS_TTL then Some (Set_mpls_ttl (act_ttl a)) else
      if ty = OFPAT_DEC_MPLS_TTL then Some Dec_mpls_ttl else
      if ty = OFPAT_PUSH_VLAN then Some (Push_vlan (act_ether_type a)) else
      if ty = OFPAT_POP_VLAN then Some Pop_vlan else
      if ty = OFPAT_PUSH_MPLS then Some (Push_mpls (act_ether_type a)) else
      if ty = OFPAT_POP_MPLS then Some (Pop_mpls (act_ether_type a)) else
      if ty = OFPAT_SET_QUEUE then Some (Set_queue (act_queue_id a)) else
      if ty = OFPAT_GROUP then Some (Group (act_group_id a)) else
      if ty = OFPAT_SET_NW_TTL then Some (Set_ipv4_ttl (act_ttl a)) else
      if ty = OFPAT_DEC_NW_TTL then Some Dec_ipv4_ttl else
      if ty = OFPAT_PUSH_PBB then Some (Push_pbb (act_ether_type a)) else
      if ty = OFPAT_POP_PBB then Some Pop_pbb else None)"

text \<open>A set-field action is what the routine for the actions of flows reads in it.\<close>

definition group_action_call :: "u32 \<Rightarrow> u8 list \<Rightarrow> ofi_action \<Rightarrow> action_call option" where
  "group_action_call gap behind a =
     (let f = as_flow_action gap behind a in
      if act_type a = OFPAT_SET_FIELD then (if setfield_misread f then None else map_option Set_field (setfield_call f))
      else plain_action a)"

lemma switch_arm:
  "(if b then Some x else r) = Some c \<Longrightarrow> (x = c \<Longrightarrow> u = w) \<Longrightarrow> (r = Some c \<Longrightarrow> v = w) \<Longrightarrow> (if b then u else v) = w"
  by (simp split: if_splits)

lemma push_group_action_call:
  assumes "group_action_call gap behind a = Some c"
  shows "push_group_action gap behind a (status, msg) = checked OFU_ACTION_PUSH_SUCCESS (exec_action c msg)"
proof (cases "act_type a = OFPAT_SET_FIELD")
  case True
  then obtain s where "setfield_call (as_flow_action gap behind a) = Some s" "c = Set_field s"
    "\<not> setfield_misread (as_flow_action gap behind a)"
    using assms by (auto simp: group_action_call_def layout_simps Let_def split: if_splits)
  then show ?thesis
    using True by (auto simp: push_group_action_def layout_simps of_flow_set_action_setfield_call checked_def Let_def
        split: prod.splits)
next
  case False
  then show ?thesis
    using assms unfolding push_group_action_def group_action_call_def plain_action_def Let_def prod.case if_not_P [OF False]
    by - ((erule switch_arm, (clarsimp; fail))+, simp)
qed

text \<open>The one property that is attached.\<close>

definition attached_props :: "ofi_bucket_prop option \<Rightarrow> bucket_prop list" where
  "attached_props bucket_prop =
     (case bucket_prop of None \<Rightarrow> []
      | Some p \<Rightarrow> if bp_weight p > 0 then [Weight (bp_weight p)]
                  else if bp_watch_port p > 0 then [Watch_port (bp_watch_port p)]
                  else if bp_watch_group p > 0 then [Watch_group (bp_watch_group p)] else [])"

section \<open>The bucket in the message\<close>

text \<open>An empty group message, as it comes from the pool.\<close>

definition fresh_group_msg :: "of_msg \<Rightarrow> bool" where
  "fresh_group_msg msg \<longleftrightarrow> data_len msg = 0 \<and> ptr1 msg = 0 \<and> length1 msg = 0 \<and> ptr3 msg = 0 \<and> length3 msg = 0
     \<and> unat (buffer_len msg) = 56 \<and> zeros (start_of_data msg) 56 (mem msg)"

lemma bucket_opened:
  assumes "fresh_group_msg msg"
  defines "s \<equiv> start_of_data msg"
  shows "open_bucket bucket_id (ofu_start_appending_buckets_to_group msg) =
    (OFU_APPEND_BUCKET_SUCCESS, msg\<lparr>ptr2 := s + 24, length2 := 8, mem := write_bytes (s + 28) (be32 bucket_id) (mem msg)\<rparr>)"
  using assms by (simp add: open_bucket_def ofu_start_appending_buckets_to_group_def no_room_def pos2_def buf_end_def
      fresh_group_msg_def layout_simps msg_defs poke_def advance2_def) (cases msg, simp add: add.commute)

text \<open>An action in the bucket.\<close>

lemma action_pushed:
  fixes bucket_id :: u32
  assumes msg: "fresh_group_msg msg" and c: "wf_action c" and len: "length (action_enc c) \<le> 16"
  defines "s \<equiv> start_of_data msg"
    and "m3 \<equiv> msg\<lparr>ptr2 := start_of_data msg + 24, length2 := 8,
      mem := write_bytes (start_of_data msg + 28) (be32 bucket_id) (mem msg), ptr3 := start_of_data msg + 32, length3 := 0\<rparr>"
  obtains M where "exec_action c m3 = (OFU_ACTION_PUSH_SUCCESS, m3\<lparr>length3 := of_nat (length (action_enc c)), mem := M\<rparr>)"
    and "appended (s + 32) (s + 56) (action_enc c) (mem m3) M"
    and "zeros (s + 32 + length (action_enc c)) (24 - length (action_enc c)) M"
proof -
  have f: "pos3 m3 = s + 32" "buf_end m3 = s + 56" "pos1 m3 = 0" "start_of_data m3 = s"
    using msg by (simp_all add: m3_def pos3_def buf_end_def pos1_def fresh_group_msg_def s_def)
  have "zeros (s + 32) 24 (mem m3)"
    using msg zeros_sub [of s 56 "mem msg" "s + 32" 24]
    by (simp add: m3_def s_def fresh_group_msg_def zeros_write_disjoint)
  then have inv: "action_inv m3 m3" using f by (intro action_inv_refl) (simp_all add: m3_def)
  have ok: "action_ok c m3" using c len by (simp add: action_ok_def f)
  obtain m4 where m4: "action_step c m3 = (True, m4)" using action_step_accepts [OF inv ok] by simp
  have ex: "exec_action c m3 = (OFU_ACTION_PUSH_SUCCESS, m4)"
    using m4 exec_action_codes [of c m3] by (cases "exec_action c m3") (auto simp: action_step_def accepted_def)
  have inv4: "action_inv m3 m4" and pos4: "pos3 m4 = s + 32 + length (action_enc c)"
    and app: "appended (s + 32) (s + 56) (action_enc c) (mem m3) (mem m4)"
    using act.accepted_inv [OF inv ok m4] act.accepted_cursor [OF inv ok m4] act.accepted_cells [OF inv ok m4] f
    by simp_all
  have "length3 m4 = length3 m3 + of_nat (length (action_enc c))"
    using action_step_accepts [OF inv ok] m4 by simp
  then have l3: "length3 m4 = of_nat (length (action_enc c))" by (simp add: m3_def)
  have same: "m4 = m3\<lparr>length3 := length3 m4, mem := mem m4\<rparr>" using inv4 by (simp add: action_inv_def same_but3_def)
  then have "m4 = m3\<lparr>length3 := of_nat (length (action_enc c)), mem := mem m4\<rparr>" by (simp add: l3)
  moreover have "buf_end m4 = s + 56" using act.accepted_limit [OF inv ok m4] f by simp
  then have "zeros (s + 32 + length (action_enc c)) (24 - length (action_enc c)) (mem m4)"
    using inv4 pos4 by (simp add: action_inv_def)
  ultimately show thesis using that [of "mem m4"] ex app by simp
qed

text \<open>The number that the code gives the bucket, and what the type of the group asks of the property.\<close>

definition bucket_number :: "u8 \<Rightarrow> u32 \<Rightarrow> ofi_bucket_prop option \<Rightarrow> u32" where
  "bucket_number group_type bucket_id bucket_prop =
     (case bucket_prop of Some p \<Rightarrow> if group_type = OFPGT_SELECT then ucast (bp_weight p) else bucket_id | None \<Rightarrow> bucket_id)"

definition group_type_ok :: "u8 \<Rightarrow> ofi_bucket_prop option \<Rightarrow> bool" where
  "group_type_ok group_type bucket_prop \<longleftrightarrow> group_type = OFPGT_ALL \<or> group_type = OFPGT_INDIRECT
     \<or> group_type = OFPGT_SELECT \<and> (\<exists>p. bucket_prop = Some p \<and> bp_weight p \<noteq> 0)
     \<or> group_type = OFPGT_FF \<and> (\<exists>p. bucket_prop = Some p \<and> (bp_watch_port p \<noteq> 0 \<or> bp_watch_group p \<noteq> 0))"

lemmas OFPGT_defs = OFPGT_ALL_def OFPGT_SELECT_def OFPGT_INDIRECT_def OFPGT_FF_def

lemma append_fresh:
  assumes msg: "fresh_group_msg msg" and ok: "group_type_ok group_type bucket_prop"
  defines "s \<equiv> start_of_data msg"
  shows "append_group_bucket group_type bucket_id bucket_prop (ofu_start_appending_buckets_to_group msg) =
    Some (Some OFU_APPEND_BUCKET_SUCCESS, msg\<lparr>ptr2 := s + 24, length2 := 8,
      mem := write_bytes (s + 28) (be32 (bucket_number group_type bucket_id bucket_prop)) (mem msg)\<rparr>)"
proof -
  have l2: "\<not> length2 (ofu_start_appending_buckets_to_group msg) > 0"
    by (simp add: ofu_start_appending_buckets_to_group_def)
  have e: "open_bucket i (ofu_start_appending_buckets_to_group msg) = (OFU_APPEND_BUCKET_SUCCESS, msg\<lparr>ptr2 := s + 24,
      length2 := 8, mem := write_bytes (s + 28) (be32 i) (mem msg)\<rparr>)" for i
    unfolding s_def by (rule bucket_opened [OF msg])
  have e1: "ofu_append_bucket_to_group_type_all i (ofu_start_appending_buckets_to_group msg) =
      open_bucket i (ofu_start_appending_buckets_to_group msg)" for i
    unfolding ofu_append_bucket_to_group_type_all_def if_not_P [OF l2] Let_def ..
  have e2: "ofu_append_bucket_to_group_type_select i (ofu_start_appending_buckets_to_group msg) =
      open_bucket i (ofu_start_appending_buckets_to_group msg)" for i
    unfolding ofu_append_bucket_to_group_type_select_def if_not_P [OF l2] Let_def ..
  have e3: "ofu_append_bucket_to_group_type_indirect i (ofu_start_appending_buckets_to_group msg) =
      open_bucket i (ofu_start_appending_buckets_to_group msg)" for i
    unfolding ofu_append_bucket_to_group_type_indirect_def if_not_P [OF l2] Let_def ..
  have e4: "ofu_append_bucket_to_group_type_fast_failover i (ofu_start_appending_buckets_to_group msg) =
      open_bucket i (ofu_start_appending_buckets_to_group msg)" for i
    unfolding ofu_append_bucket_to_group_type_fast_failover_def if_not_P [OF l2] Let_def ..
  consider "group_type = OFPGT_ALL" | "group_type = OFPGT_INDIRECT"
    | p where "group_type = OFPGT_SELECT" "bucket_prop = Some p" "bp_weight p \<noteq> 0"
    | p where "group_type = OFPGT_FF" "bucket_prop = Some p" "\<not> (bp_watch_port p = 0 \<and> bp_watch_group p = 0)"
    using ok unfolding group_type_ok_def by blast
  then show ?thesis
  proof cases
    case 1
    then show ?thesis
      by (cases bucket_prop) (simp_all only: append_group_bucket_def bucket_number_def OFPGT_defs e1 e if_True if_False
          apfst_conv option.case zero_neq_one refl)
  next
    case 2
    then show ?thesis
      by (cases bucket_prop) (simp_all add: append_group_bucket_def bucket_number_def OFPGT_defs e3 e)
  next
    case 3
    then show ?thesis by (simp add: append_group_bucket_def bucket_number_def OFPGT_defs e2 e)
  next
    case 4
    then have "\<not> (bp_watch_port p = 0 \<and> bp_watch_group p = 0)" by simp
    then show ?thesis using 4(1,2) by (simp only: append_group_bucket_def bucket_number_def OFPGT_defs e4 e option.case
        option.map if_False) simp
  qed
qed

definition bucket_actions :: "u32 \<Rightarrow> u8 list \<Rightarrow> ofi_action option \<Rightarrow> action_call list" where
  "bucket_actions gap behind action =
     (case action of None \<Rightarrow> [] | Some a \<Rightarrow> (case group_action_call gap behind a of None \<Rightarrow> [] | Some c \<Rightarrow> [c]))"

definition sendable_action :: "u32 \<Rightarrow> u8 list \<Rightarrow> ofi_action \<Rightarrow> bool" where
  "sendable_action gap behind a \<longleftrightarrow>
     (\<exists>c. group_action_call gap behind a = Some c \<and> wf_action c \<and> length (action_enc c) \<le> 16)"

lemma action_stage:
  fixes i :: u32
  assumes msg: "fresh_group_msg msg" and ok: "\<forall>a. action = Some a \<longrightarrow> sendable_action gap behind a"
  defines "s \<equiv> start_of_data msg" and "E \<equiv> encoding action_enc (bucket_actions gap behind action)"
  defines "m3 \<equiv> msg\<lparr>ptr2 := start_of_data msg + 24, length2 := 8,
      mem := write_bytes (start_of_data msg + 28) (be32 i) (mem msg), ptr3 := start_of_data msg + 32, length3 := 0\<rparr>"
  obtains M st where "(case action of None \<Rightarrow> (Some OFU_APPEND_BUCKET_SUCCESS, m3)
      | Some a \<Rightarrow> push_group_action gap behind a (Some OFU_APPEND_BUCKET_SUCCESS, m3))
      = (st, m3\<lparr>length3 := of_nat (length E), mem := M\<rparr>)"
    and "st = Some (if action = None then OFU_APPEND_BUCKET_SUCCESS else OFU_ACTION_PUSH_SUCCESS)"
    and "appended (s + 32) (s + 56) E (mem m3) M" and "zeros (s + 32 + length E) (24 - length E) M"
    and "length E \<le> 16" and "8 dvd length E"
proof (cases action)
  case None
  have "zeros (s + 32) 24 (mem m3)"
    using msg zeros_sub [of s 56 "mem msg" "s + 32" 24]
    by (simp add: m3_def s_def fresh_group_msg_def zeros_write_disjoint)
  then show thesis using that [of _ "mem m3"] None by (simp add: E_def bucket_actions_def m3_def)
next
  case (Some a)
  then obtain c where c: "group_action_call gap behind a = Some c" "wf_action c" "length (action_enc c) \<le> 16"
    using ok by (auto simp: sendable_action_def)
  have E: "E = action_enc c" by (simp add: E_def bucket_actions_def Some c)
  obtain M where "exec_action c m3 = (OFU_ACTION_PUSH_SUCCESS, m3\<lparr>length3 := of_nat (length (action_enc c)), mem := M\<rparr>)"
    "appended (s + 32) (s + 56) (action_enc c) (mem m3) M" "zeros (s + 32 + length (action_enc c)) (24 - length (action_enc c)) M"
    using action_pushed [OF msg c(2,3), of i] unfolding m3_def s_def by metis
  moreover have "8 dvd length (action_enc c)" using action_encoding_parse(2) [of "[c]"] c(2) by simp
  ultimately show thesis
    using Some c push_group_action_call [OF c(1)]
    by (intro that [of "Some OFU_ACTION_PUSH_SUCCESS" M]) (simp_all add: E checked_def)
qed

text \<open>The property, and the lengths of the bucket.\<close>

lemma prop_attached:
  assumes "unat (buffer_len msg) = 56" "ptr2 msg = start_of_data msg + 24" "unat (length2 msg) \<le> 24"
    and "attached_props (Some p) \<noteq> []" and "zeros (ptr2 msg + unat (length2 msg)) 8 (mem msg)"
  shows "attach_bucket_prop p (st, msg) = (Some OFU_APPEND_BUCKET_SUCCESS,
    msg\<lparr>ptr1 := ptr2 msg + unat (length2 msg), length1 := 8,
      mem := write_bytes (ptr2 msg + unat (length2 msg)) (encoding prop_enc (attached_props (Some p))) (mem msg)\<rparr>)"
proof -
  let ?m = "ofu_start_attach_bucket_properties msg"
  have f: "pos1 ?m = ptr2 msg + unat (length2 msg)" "\<not> no_room (pos1 ?m + 8) ?m"
    "length1 ?m = 0" "ptr1 ?m = ptr2 msg + unat (length2 msg)" "mem ?m = mem msg" "buf_end ?m = buf_end msg"
    using assms(1-3)
    by (simp_all add: ofu_start_attach_bucket_properties_def no_room_def pos1_def buf_end_def)
  have fin: "?m\<lparr>mem := X, length1 := 8\<rparr> = msg\<lparr>ptr1 := ptr2 msg + unat (length2 msg), length1 := 8, mem := X\<rparr>" for X
    by (cases msg) (simp add: ofu_start_attach_bucket_properties_def)
  consider "bp_weight p > 0" | "bp_weight p = 0" "bp_watch_port p > 0"
    | "bp_weight p = 0" "bp_watch_port p = 0" "bp_watch_group p > 0"
    using assms(4) by (auto simp: attached_props_def word_gt_0 split: if_splits)
  then show ?thesis
  proof cases
    case 1
    have "write_bytes (ptr2 msg + unat (length2 msg)) (be16 0 @ be16 8 @ be16 (bp_weight p) @ replicate 2 0) (mem msg)
        = write_bytes (ptr2 msg + unat (length2 msg)) (be16 0 @ be16 8 @ be16 (bp_weight p)) (mem msg)"
      using write_bytes_gap [of _ "ptr2 msg + unat (length2 msg)" "be16 0 @ be16 8 @ be16 (bp_weight p)" 2 "mem msg" "[]", OF refl]
        zeros_sub [OF assms(5), of "ptr2 msg + unat (length2 msg) + 6" 2] by simp
    with 1 show ?thesis using f fin
      by (simp add: attach_bucket_prop_def attached_props_def prop_enc_def ofu_attach_weight_prop_to_bucket_def layout_simps
          Let_def msg_defs poke_def advance1_def write_bytes_append)
  next
    case 2
    then show ?thesis using f fin
      by (simp add: attach_bucket_prop_def attached_props_def prop_enc_def ofu_attach_watch_port_prop_to_bucket_def layout_simps
          Let_def msg_defs poke_def advance1_def write_bytes_append)
  next
    case 3
    then show ?thesis using f fin
      by (simp add: attach_bucket_prop_def attached_props_def prop_enc_def ofu_attach_watch_group_prop_to_bucket_def layout_simps
          Let_def msg_defs poke_def advance1_def write_bytes_append)
  qed
qed

definition props_fit :: "ofi_bucket_prop option \<Rightarrow> ofi_action option \<Rightarrow> bool" where
  "props_fit bucket_prop action \<longleftrightarrow> (bucket_prop = None \<or> attached_props bucket_prop \<noteq> [] \<or> action = None)"

lemma attached_props_length [simp]: "length (encoding prop_enc (attached_props bucket_prop)) \<le> 8"
  "8 dvd length (encoding prop_enc (attached_props bucket_prop))"
  by (simp_all add: attached_props_def split: option.splits)

lemma prop_stage:
  fixes status :: "msg_utilities option"
  assumes buf: "unat (buffer_len msg) = 56" "ptr2 msg = start_of_data msg + 24" "unat (length2 msg) \<le> 24" "length1 msg = 0"
    and z: "zeros (ptr2 msg + unat (length2 msg)) 8 (mem msg)"
    and fit: "props_fit bucket_prop action"
    and st: "status = Some (if action = None then OFU_APPEND_BUCKET_SUCCESS else OFU_ACTION_PUSH_SUCCESS)"
  defines "P \<equiv> encoding prop_enc (attached_props bucket_prop)"
  obtains st' q where
    "(case bucket_prop of None \<Rightarrow> (status, msg) | Some p \<Rightarrow> attach_bucket_prop p (status, msg))
      = (st', msg\<lparr>ptr1 := q, length1 := of_nat (length P), mem := write_bytes (ptr2 msg + unat (length2 msg)) P (mem msg)\<rparr>)"
    and "bucket_prop \<noteq> None \<longrightarrow> st' = Some OFU_APPEND_BUCKET_SUCCESS"
proof (cases "attached_props bucket_prop = []")
  case True
  show thesis
  proof (cases bucket_prop)
    case None
    then show thesis using True buf(4) that [of status "ptr1 msg"] by (simp add: P_def)
  next
    case (Some p)
    then show thesis using True st fit buf(4) that [of status "ptr2 msg + unat (length2 msg)"]
      by (auto simp: P_def props_fit_def attach_bucket_prop_def attached_props_def
          ofu_start_attach_bucket_properties_def split: if_splits)
  qed
next
  case False
  then obtain p where p: "bucket_prop = Some p" by (auto simp: attached_props_def split: option.splits)
  have one: "length P = 8" using False by (auto simp: P_def attached_props_def p split: if_splits)
  show thesis
    using prop_attached [OF buf(1-3) False [unfolded p] z, of status] one p
    by (intro that [of "Some OFU_APPEND_BUCKET_SUCCESS" "ptr2 msg + unat (length2 msg)"]) (simp_all add: P_def)
qed

text \<open>The bucket as the code frames it.\<close>

definition sent_bucket :: "group_env \<Rightarrow> u8 \<Rightarrow> u32 \<Rightarrow> ofi_bucket_prop option \<Rightarrow> ofi_action option \<Rightarrow> group_bucket" where
  "sent_bucket env group_type bucket_id bucket_prop action =
     \<lparr>gb_id = bucket_number group_type bucket_id bucket_prop,
      gb_actions = bucket_actions (ge_gap env) (ge_behind env) action, gb_props = attached_props bucket_prop\<rparr>"

lemma bucket_closed:
  assumes "ptr2 msg = s + 24" "unat (length2 msg) = 8 + n" "length3 msg = of_nat n" "length1 msg = of_nat k"
    and "n \<le> 16" "k \<le> 8" "8 dvd n" "8 dvd k"
  shows "ofu_end_appending_buckets_to_group msg =
    (of_nat (8 + n + k), msg\<lparr>mem := write_bytes (s + 26) (be16 (of_nat n)) (write_bytes (s + 24) (be16 (of_nat (8 + n + k))) (mem msg))\<rparr>)"
proof -
  have n: "unat (of_nat n :: u16) = n" "unat (of_nat (8 + n + k) :: u16) = 8 + n + k"
    using assms(5,6) by (simp_all del: of_nat_add)
  have l2: "length2 msg = of_nat (8 + n)" using assms(2) by (metis of_nat_unat ucast_id)
  have r: "ROUND_UP (8 + n + k) = 0" using assms(7,8) by (intro round_up_0) simp
  have len: "(8 + of_nat n + of_nat k :: u16) = of_nat (8 + n + k)" by simp
  have cb: "close_bucket msg =
    (0, msg\<lparr>mem := write_bytes (s + 26) (be16 (of_nat n)) (write_bytes (s + 24) (be16 (of_nat (8 + n + k))) (mem msg))\<rparr>)"
    unfolding close_bucket_def assms(1-4) n(1) layout_simps Let_def of_nat_numeral len n(2) r
    by (simp add: msg_defs poke_def assms(3) add.commute)
  show ?thesis by (simp add: ofu_end_appending_buckets_to_group_def cb l2 assms(4))
qed

lemma bucket_framed:
  fixes bucket_id :: u32
  assumes msg: "fresh_group_msg msg" and ty: "group_type_ok group_type bucket_prop"
    and act: "\<forall>a. action = Some a \<longrightarrow> sendable_action (ge_gap env) (ge_behind env) a"
    and fit: "props_fit bucket_prop action"
  defines "s \<equiv> start_of_data msg" and "b \<equiv> sent_bucket env group_type bucket_id bucket_prop action"
  obtains m where "of_frame_actions_and_buckets (ge_gap env) (ge_behind env) group_type (Some bucket_id) bucket_prop action msg
      = Some (Inr (of_nat (length (bucket_bytes b))), m)"
    and "data_len m = of_nat (length (bucket_bytes b))" and "start_of_data m = s"
    and "read_bytes (s + 24) (length (bucket_bytes b)) (mem m) = bucket_bytes b" and "zeros s 24 (mem m)"
    and "length (bucket_bytes b) \<le> 32"
proof -
  let ?E = "encoding action_enc (bucket_actions (ge_gap env) (ge_behind env) action)"
    and ?P = "encoding prop_enc (attached_props bucket_prop)"
    and ?i = "bucket_number group_type bucket_id bucket_prop"
  define m2 where "m2 = msg\<lparr>ptr2 := s + 24, length2 := 8, mem := write_bytes (s + 28) (be32 ?i) (mem msg)\<rparr>"
  define m3 where "m3 = m2\<lparr>ptr3 := s + 32, length3 := 0\<rparr>"
  have fresh: "ptr3 msg = 0" "data_len msg = 0" "unat (buffer_len msg) = 56" "length1 msg = 0" "zeros s 56 (mem msg)"
    using msg by (simp_all add: fresh_group_msg_def s_def)
  have m3: "ofu_start_pushing_actions m2 = m3"
    by (simp add: ofu_start_pushing_actions_def m2_def m3_def fresh Let_def add.commute)
  obtain M st where st: "(case action of None \<Rightarrow> (Some OFU_APPEND_BUCKET_SUCCESS, m3)
      | Some a \<Rightarrow> push_group_action (ge_gap env) (ge_behind env) a (Some OFU_APPEND_BUCKET_SUCCESS, m3))
      = (st, m3\<lparr>length3 := of_nat (length ?E), mem := M\<rparr>)"
    and st': "st = Some (if action = None then OFU_APPEND_BUCKET_SUCCESS else OFU_ACTION_PUSH_SUCCESS)"
    and app: "appended (s + 32) (s + 56) ?E (mem m3) M" and z: "zeros (s + 32 + length ?E) (24 - length ?E) M"
    and E: "length ?E \<le> 16" "8 dvd length ?E"
    unfolding m3_def m2_def s_def by (rule action_stage [OF msg act, of ?i])
  define m5 where "m5 = m3\<lparr>length3 := of_nat (length ?E), length2 := of_nat (8 + length ?E),
      data_len := of_nat (8 + length ?E), mem := write_bytes (s + 24) (be16 (of_nat (8 + length ?E))) M\<rparr>"
  have end_act: "ofu_end_pushing_actions (m3\<lparr>length3 := of_nat (length ?E), mem := M\<rparr>) =
      (of_nat (8 + length ?E), m3\<lparr>length3 := of_nat (length ?E), mem := M, length2 := of_nat (8 + length ?E),
        data_len := of_nat (8 + length ?E)\<rparr>)"
    by (simp add: ofu_end_pushing_actions_def m3_def m2_def fresh Let_def)
  have sel: "data_len m5 = of_nat (8 + length ?E)" "start_of_data m5 = s" "ptr2 m5 = s + 24"
    "length2 m5 = of_nat (8 + length ?E)" "length3 m5 = of_nat (length ?E)"
    "mem m5 = write_bytes (s + 24) (be16 (of_nat (8 + length ?E))) M" "unat (buffer_len m5) = 56" "length1 m5 = 0"
    by (simp_all add: m5_def m3_def m2_def s_def fresh)
  have l2: "unat (length2 m5) = 8 + length ?E" using E(1) sel(4) by (simp del: of_nat_add)
  have z5: "zeros (s + 32 + length ?E) 8 (mem m5)"
    unfolding sel(6) using E(1) zeros_sub [OF z, of "s + 32 + length ?E" 8] by (intro zeros_write_disjoint) simp_all
  obtain st2 q where pr: "(case bucket_prop of None \<Rightarrow> (st, m5) | Some p \<Rightarrow> attach_bucket_prop p (st, m5))
      = (st2, m5\<lparr>ptr1 := q, length1 := of_nat (length ?P), mem := write_bytes (s + 32 + length ?E) ?P (mem m5)\<rparr>)"
    and st2: "bucket_prop \<noteq> None \<longrightarrow> st2 = Some OFU_APPEND_BUCKET_SUCCESS"
    using prop_stage [of m5 bucket_prop action st] sel l2 z5 fit st' E(1) by (auto simp: add.assoc)
  define m6 where "m6 = m5\<lparr>ptr1 := q, length1 := of_nat (length ?P), data_len := of_nat (8 + length ?E + length ?P),
      mem := write_bytes (s + 32 + length ?E) ?P (mem m5)\<rparr>"
  have m5: "st16 (s + 24) (of_nat (8 + length ?E)) (m3\<lparr>length3 := of_nat (length ?E), mem := M,
      length2 := of_nat (8 + length ?E), data_len := of_nat (8 + length ?E)\<rparr>) = m5"
    by (simp add: msg_defs poke_def m5_def)
  have m6: "(if bucket_prop = None then msg' else snd (ofu_end_attach_bucket_properties msg')) = m6"
    if "msg' = m5\<lparr>ptr1 := q, length1 := of_nat (length ?P), mem := write_bytes (s + 32 + length ?E) ?P (mem m5)\<rparr>" for msg'
    using sel(1) that by (auto simp: ofu_end_attach_bucket_properties_def m6_def attached_props_def)
  define N where "N = write_bytes (s + 26) (be16 (of_nat (length ?E)))
    (write_bytes (s + 24) (be16 (of_nat (8 + length ?E + length ?P))) (mem m6))"
  have closed: "ofu_end_appending_buckets_to_group m6 = (of_nat (8 + length ?E + length ?P), m6\<lparr>mem := N\<rparr>)"
    unfolding N_def using sel l2 E by (intro bucket_closed) (simp_all add: m6_def)
  have ptr2: "ptr2 (m3\<lparr>length3 := of_nat (length ?E), mem := M, length2 := of_nat (8 + length ?E),
      data_len := of_nat (8 + length ?E)\<rparr>) = s + 24" by (simp add: m3_def m2_def)
  have ok: "(action \<noteq> None \<and> st \<noteq> Some OFU_ACTION_PUSH_SUCCESS) = False"
    "(bucket_prop \<noteq> None \<and> st2 \<noteq> Some OFU_APPEND_BUCKET_SUCCESS) = False" using st' st2 by auto
  have "of_frame_actions_and_buckets (ge_gap env) (ge_behind env) group_type (Some bucket_id) bucket_prop action msg
      = Some (Inr (of_nat (8 + length ?E + length ?P)), m6\<lparr>mem := N\<rparr>)"
    unfolding of_frame_actions_and_buckets_def Let_def option.case
      append_fresh [OF msg ty, of bucket_id, folded s_def, folded m2_def] option.map bind.bind_lunit prod.case m3 st ok
      if_False end_act ptr2 m5 pr m6 [OF refl] closed simp_thms ..
  moreover have g: "gb_actions b = bucket_actions (ge_gap env) (ge_behind env) action" "gb_props b = attached_props bucket_prop"
    by (simp_all add: b_def sent_bucket_def)
  moreover have N: "N = write_bytes (s + 26) (be16 (of_nat (length ?E))) (write_bytes (s + 24) (be16 (of_nat (8 + length ?E + length ?P)))
      (write_bytes (s + 32 + length ?E) ?P (write_bytes (s + 24) (be16 (of_nat (8 + length ?E))) M)))"
    by (simp add: N_def m6_def sel(6))
  have "holds N (s + 24) (bucket_bytes b)"
  proof -
    have "read_bytes (s + 28) 4 M = read_bytes (s + 28) 4 (mem m3)"
      using appended_frame [OF app] by (intro read_bytes_cong) simp
    then have i: "read_bytes (s + 28) 4 M = be32 ?i" by (simp add: m3_def m2_def read_write_same')
    note E' = appended_read [OF app]
    show ?thesis
      unfolding bucket_bytes_def Let_def holds_append
      by (simp add: b_def sent_bucket_def holds_def N read_write_disjoint read_write_same' i E' add.assoc)
  qed
  moreover have "zeros s 24 N"
  proof -
    have "zeros s 24 (mem m3)"
      using fresh(5) zeros_sub [of s 56 "mem msg" s 24] by (simp add: m3_def m2_def zeros_write_disjoint)
    then have "zeros s 24 M" using appended_frame [OF app] by (simp add: zeros_def)
    then show ?thesis by (simp add: N zeros_write_disjoint)
  qed
  moreover have "length (bucket_bytes b) \<le> 32"
    unfolding length_bucket_bytes g using E(1) attached_props_length(1) [of bucket_prop] by linarith
  ultimately show thesis
    using sel(2) by (intro that [of "m6\<lparr>mem := N\<rparr>"]) (simp_all add: m6_def holds_def g)
qed

section \<open>What is sent\<close>

lemma alloc_group_message:
  assumes "ofu_alloc_message get of_cntlr_msg_init ty group_msg_len st = (Some (blk, mk), st')"
  shows "start_of_data (mk data cells) = data" and "zeros data 56 cells \<Longrightarrow> fresh_group_msg (mk data cells)"
proof -
  have "group_msg_len = 56"
    by (simp add: group_msg_len_def OFU_ADD_OR_MODIFY_OR_DELETE_GROUP_MESSAGE_def layout_simps)
  moreover have "padded 56 = 56" by (simp add: padded_def ROUND_UP_def)
  ultimately have mk: "mk = init_msg ty 56"
    using assms by (auto simp: ofu_alloc_message_def Let_def split: if_splits prod.splits option.splits)
  show "start_of_data (mk data cells) = data" "zeros data 56 cells \<Longrightarrow> fresh_group_msg (mk data cells)"
    by (simp_all add: mk init_msg_def ROUND_UP_def fresh_group_msg_def)
qed

text \<open>The fixed part of a group message of \<open>n\<close> bytes, with the bytes of the buckets that follow.\<close>

definition group_mod_wire :: "u16 \<Rightarrow> u8 \<Rightarrow> u32 \<Rightarrow> u32 \<Rightarrow> nat \<Rightarrow> u8 list" where
  "group_mod_wire command group_type group_id command_bucket bucket_len =
     [4, 15] @ be16 (of_nat (24 + bucket_len)) @ be32 0 @ be16 command @ [group_type, 0] @ be32 group_id
     @ be16 (of_nat bucket_len) @ [0, 0] @ be32 command_bucket"

definition connected :: "(u64 \<Rightarrow> flow_datapath option) \<Rightarrow> u64 \<Rightarrow> nat \<Rightarrow> bool" where
  "connected get h ch \<longleftrightarrow> (\<exists>dp. get h = Some dp \<and> is_main_conn_present dp \<and> main_channel dp = Some ch)"

datatype group_request = Add_group | Insert_bucket u32 | Modify_group | Delete_group | Remove_bucket u32

text \<open>The routine of a request; for the last two there are no buckets.\<close>

primrec request_framed ::
  "group_request \<Rightarrow> (u64 \<Rightarrow> flow_datapath option) \<Rightarrow> u64 \<Rightarrow> u32 \<Rightarrow> u8 \<Rightarrow> u16 \<Rightarrow> of_msg \<Rightarrow> msg_result" where
  "request_framed Add_group get h group_id group_type n = of_add_group get h group_id group_type n"
| "request_framed (Insert_bucket at) get h group_id group_type n = of_insert_bucket_to_group get h group_id group_type at n"
| "request_framed Modify_group get h group_id group_type n = of_modify_group get h group_id group_type n"
| "request_framed Delete_group get h group_id group_type n = of_delete_group get h group_id"
| "request_framed (Remove_bucket at) get h group_id group_type n = of_remove_bucket_from_group get h group_id group_type at"

primrec request_wire :: "group_request \<Rightarrow> u32 \<Rightarrow> u8 \<Rightarrow> nat \<Rightarrow> u8 list" where
  "request_wire Add_group group_id group_type n = group_mod_wire OFPGC_ADD group_type group_id OFPG_BUCKET_ALL n"
| "request_wire (Insert_bucket at) group_id group_type n = group_mod_wire OFPGC_INSERT_BUCKET group_type group_id at n"
| "request_wire Modify_group group_id group_type n = group_mod_wire OFPGC_MODIFY group_type group_id OFPG_BUCKET_ALL n"
| "request_wire Delete_group group_id group_type n = group_mod_wire OFPGC_DELETE 0 group_id OFPG_BUCKET_ALL n"
| "request_wire (Remove_bucket at) group_id group_type n = group_mod_wire OFPGC_REMOVE_BUCKET group_type group_id at n"

definition without_buckets :: "group_request \<Rightarrow> bool" where
  "without_buckets q \<longleftrightarrow> (case q of Delete_group \<Rightarrow> True | Remove_bucket _ \<Rightarrow> True | _ \<Rightarrow> False)"

lemmas group_msg_defs = of_add_group_def of_insert_bucket_to_group_def of_modify_group_def of_delete_group_def
  of_remove_bucket_from_group_def put_header_def count_fixed_part_def to_main_channel_def

lemma request_on_channel:
  assumes conn: "connected get h ch" and z: "zeros (start_of_data msg) 24 (mem msg)"
    and n: "n \<le> 32" "data_len msg = of_nat n" "without_buckets q \<longrightarrow> n = 0"
  obtains m where "request_framed q get h group_id group_type (of_nat n) msg = (True, Some ch, m)"
    and "data_len m = of_nat (24 + n)" and "start_of_data m = start_of_data msg"
    and "read_bytes (start_of_data msg) 24 (mem (st16 (start_of_data m + 2) (data_len m) m)) = request_wire q group_id group_type n"
    and "\<And>k. read_bytes (start_of_data msg + 24) k (mem m) = read_bytes (start_of_data msg + 24) k (mem msg)"
proof -
  obtain dp where dp: "get h = Some dp" "is_main_conn_present dp" "main_channel dp = Some ch"
    using conn by (auto simp: connected_def)
  let ?s = "start_of_data msg"
  obtain m where m: "request_framed q get h group_id group_type (of_nat n) msg = (True, Some ch, m)"
    using dp by (cases q) (simp_all add: group_msg_defs Let_def)
  have f: "data_len m = of_nat (24 + n)" "start_of_data m = ?s"
    "\<And>k. read_bytes (?s + 24) k (mem m) = read_bytes (?s + 24) k (mem msg)"
    using m dp n(2) by (cases q; auto simp: group_msg_defs msg_defs poke_def layout_simps Let_def read_write_disjoint)+
  have z1: "mem msg x = 0" if "?s \<le> x" "x < ?s + 24" for x using z that by (simp add: zeros_def)
  have one: "read_bytes x (Suc 0) (mem msg) = [0]" if "x = ?s + 10 \<or> x = ?s + 11" for x
    using that z1 by (auto simp: read_bytes_def)
  have two: "read_bytes x 2 (mem msg) = [0, 0]" if "x = ?s + 16 \<or> x = ?s + 18" for x
    using that z1 by (auto simp: read_bytes_def numeral_2_eq_2)
  have "be16 0 = [0, 0]" by (simp add: be16_def)
  then have "read_bytes ?s (1 + (1 + (2 + (4 + (2 + (1 + (1 + (4 + (2 + (2 + 4)))))))))) (mem (st16 (?s + 2) (of_nat (24 + n)) m))
      = request_wire q group_id group_type n"
    unfolding read_bytes_split using m dp n(3)
    by (cases q) (auto simp: group_msg_defs msg_defs poke_def layout_simps Let_def read_write_disjoint read_write_at
        one two group_mod_wire_def without_buckets_def OFPT_GROUP_MOD_def)
  then show thesis using that [OF m f(1,2) _ f(3)] f(1,2) by simp
qed

text \<open>
  What comes of a framed message: it is taken, or refused and released; a message that the transport had
  released is released again.
\<close>

definition handed_over :: "group_env \<Rightarrow> nat \<Rightarrow> nat \<Rightarrow> pool_state \<Rightarrow> of_msg \<Rightarrow> group_outcome" where
  "handed_over env ch blk st m =
     (let taken = ge_deliver env (Some ch) m in
      if taken = Accepted then \<lparr>go_ok = True, go_sent = [(Some ch, m)], go_pool = st\<rparr>
      else group_failed [(Some ch, m)] blk (transport_release taken blk st))"

lemma request_sent:
  assumes conn: "connected (ge_datapath env) h ch" and z: "zeros (start_of_data msg) 24 (mem msg)"
    and n: "length bs \<le> 32" "data_len msg = of_nat (length bs)" "without_buckets q \<longrightarrow> bs = []"
    and bs: "read_bytes (start_of_data msg + 24) (length bs) (mem msg) = bs"
  obtains m where
    "send_group_msg env h blk st (request_framed q (ge_datapath env) h group_id group_type (of_nat (length bs)) msg)
      = handed_over env ch blk st m"
    and "data_len m = of_nat (24 + length bs)"
    and "read_bytes (start_of_data msg) (24 + length bs) (mem m) = request_wire q group_id group_type (length bs) @ bs"
proof -
  have "without_buckets q \<longrightarrow> length bs = 0" using n(3) by simp
  then obtain m where m: "request_framed q (ge_datapath env) h group_id group_type (of_nat (length bs)) msg = (True, Some ch, m)"
    "data_len m = of_nat (24 + length bs)" "start_of_data m = start_of_data msg"
    "read_bytes (start_of_data msg) 24 (mem (st16 (start_of_data m + 2) (data_len m) m)) = request_wire q group_id group_type (length bs)"
    "\<And>k. read_bytes (start_of_data msg + 24) k (mem m) = read_bytes (start_of_data msg + 24) k (mem msg)"
    using request_on_channel [OF conn z n(1,2)] by blast
  let ?m = "st16 (start_of_data m + 2) (data_len m) m"
  have "send_group_msg env h blk st (request_framed q (ge_datapath env) h group_id group_type (of_nat (length bs)) msg)
      = handed_over env ch blk st ?m"
    using conn by (auto simp: m(1) send_group_msg_def of_cntrlr_send_request_message_def handed_over_def connected_def Let_def)
  moreover have "data_len ?m = of_nat (24 + length bs)" using m(2) by (simp add: msg_defs poke_def)
  moreover have "read_bytes (start_of_data msg + 24) (length bs) (mem ?m) = bs"
    using m(5) bs by (simp add: msg_defs poke_def read_write_disjoint m(3))
  ultimately show thesis using that m(4) by (simp add: read_bytes_split)
qed

section \<open>What is to be sent\<close>

text \<open>
  The bucket an application asks for: its number, its action and its properties.  The requests for which
  the code sends it: not those for select groups, whose buckets get their weight for a number; none with a
  set-field action, which is read from another structure; none with more than one property, of which
  only the first is sent; and none of the actions that are excluded by \<open>wf_action\<close>.
\<close>

definition bucket_props :: "ofi_bucket_prop option \<Rightarrow> bucket_prop list" where
  "bucket_props bucket_prop =
     (case bucket_prop of None \<Rightarrow> []
      | Some p \<Rightarrow> (if bp_weight p = 0 then [] else [Weight (bp_weight p)])
          @ (if bp_watch_port p = 0 then [] else [Watch_port (bp_watch_port p)])
          @ (if bp_watch_group p = 0 then [] else [Watch_group (bp_watch_group p)]))"

definition intended_bucket :: "u32 \<Rightarrow> ofi_bucket_prop option \<Rightarrow> ofi_action option \<Rightarrow> group_bucket" where
  "intended_bucket bucket_id bucket_prop action =
     \<lparr>gb_id = bucket_id,
      gb_actions = (case action of None \<Rightarrow> [] | Some a \<Rightarrow> (case plain_action a of None \<Rightarrow> [] | Some c \<Rightarrow> [c])),
      gb_props = bucket_props bucket_prop\<rparr>"

definition simple_request :: "u8 \<Rightarrow> ofi_bucket_prop option \<Rightarrow> ofi_action option \<Rightarrow> bool" where
  "simple_request group_type bucket_prop action \<longleftrightarrow>
     group_type_ok group_type bucket_prop \<and> group_type \<noteq> OFPGT_SELECT
     \<and> (bucket_prop \<noteq> None \<longrightarrow> length (bucket_props bucket_prop) = 1)
     \<and> (case action of None \<Rightarrow> True | Some a \<Rightarrow> (case plain_action a of None \<Rightarrow> False | Some c \<Rightarrow> wf_action c))"

lemma plain_action_sendable:
  assumes "plain_action a = Some c" and "wf_action c"
  shows "group_action_call gap behind a = Some c \<and> length (action_enc c) \<le> 16"
proof -
  have "act_type a \<noteq> OFPAT_SET_FIELD" using assms(1) by (auto simp: plain_action_def layout_simps Let_def)
  moreover have "\<nexists>f. c = Set_field f" using assms(1) by (auto simp: plain_action_def Let_def split: if_splits)
  then have "length (action_enc c) \<le> 16" by (cases c) (simp_all add: action_enc_def)
  ultimately show ?thesis using assms(1) by (simp add: group_action_call_def Let_def)
qed

lemma one_prop:
  assumes "length (bucket_props (Some p)) = 1"
  shows "attached_props (Some p) = bucket_props (Some p)"
  using assms by (auto simp: bucket_props_def attached_props_def word_gt_0 split: if_splits)

lemma simple_request_sent:
  assumes "simple_request group_type bucket_prop action"
  shows "sent_bucket env group_type bucket_id bucket_prop action = intended_bucket bucket_id bucket_prop action"
    and "\<forall>a. action = Some a \<longrightarrow> sendable_action gap behind a" and "props_fit bucket_prop action"
    and "group_type_ok group_type bucket_prop"
proof -
  have act: "case action of None \<Rightarrow> True | Some a \<Rightarrow> (case plain_action a of None \<Rightarrow> False | Some c \<Rightarrow> wf_action c)"
    and ty: "group_type_ok group_type bucket_prop" "group_type \<noteq> OFPGT_SELECT"
    using assms by (simp_all add: simple_request_def)
  have props: "attached_props bucket_prop = bucket_props bucket_prop"
    using assms one_prop by (cases bucket_prop) (auto simp: simple_request_def attached_props_def bucket_props_def)
  have acts: "bucket_actions gap behind action
      = (case action of None \<Rightarrow> [] | Some a \<Rightarrow> (case plain_action a of None \<Rightarrow> [] | Some c \<Rightarrow> [c]))" for gap behind
    using act plain_action_sendable by (auto simp: bucket_actions_def split: option.splits)
  show "sent_bucket env group_type bucket_id bucket_prop action = intended_bucket bucket_id bucket_prop action"
    using ty(2) by (simp add: sent_bucket_def intended_bucket_def bucket_number_def props acts split: option.splits)
  show "\<forall>a. action = Some a \<longrightarrow> sendable_action gap behind a"
    using act plain_action_sendable by (auto simp: sendable_action_def split: option.splits)
  have "bucket_prop \<noteq> None \<longrightarrow> length (attached_props bucket_prop) = 1"
    using assms by (simp add: simple_request_def props)
  then show "props_fit bucket_prop action" by (auto simp: props_fit_def)
  show "group_type_ok group_type bucket_prop" by (rule ty(1))
qed

text \<open>
  C12. Adding a group with a bucket, and adding a bucket to a group, each hand exactly one message to
  the main channel of a connected datapath: the fixed part with the lengths of the message and of the
  buckets, and behind it the bucket that was asked for, with its number, its action and its property, and
  with all lengths right.  This holds of the requests of \<open>simple_request\<close>: for groups of the types all, indirect
  and fast failover, with at most one property (which a fast failover bucket needs, for what it watches), and
  without a set-field, set-queue, dec-mpls-ttl or copy-ttl-inwards action; the message comes from zeroed
  memory.  Select groups and set-field actions are sent wrongly (lemmas \<open>select_number\<close> and
  \<open>group_set_field_misread\<close>).
\<close>

theorem group_sent:
  fixes bucket_id :: u32
  assumes "ofu_alloc_message (ge_get_mem_block env) of_cntlr_msg_init OFPT_GROUP_MOD group_msg_len st = (Some (blk, mk), st')"
    and "zeros (ge_data_of env blk) 56 (ge_cells env)" and "connected (ge_datapath env) h ch"
    and "simple_request group_type bucket_prop action"
  defines "s \<equiv> ge_data_of env blk" and "b \<equiv> bucket_bytes (intended_bucket bucket_id bucket_prop action)"
  shows "(\<exists>m. of_frame_and_send_add_group_info env h group_id group_type (Some bucket_id) bucket_prop action st
        = Some (handed_over env ch blk st' m) \<and> data_len m = of_nat (24 + length b)
      \<and> read_bytes s (24 + length b) (mem m) = group_mod_wire OFPGC_ADD group_type group_id OFPG_BUCKET_ALL (length b) @ b)
    \<and> (\<exists>m. of_frame_and_send_mod_group_bucket_info env h group_id group_type (Some bucket_id) bucket_prop action place st
        = Some (handed_over env ch blk st' m) \<and> data_len m = of_nat (24 + length b)
      \<and> read_bytes s (24 + length b) (mem m) = group_mod_wire OFPGC_INSERT_BUCKET group_type group_id place (length b) @ b)"
proof -
  let ?msg = "mk s (ge_cells env)"
  note ok = simple_request_sent [OF assms(4)]
  have msg: "fresh_group_msg ?msg" "start_of_data ?msg = s"
    using alloc_group_message [OF assms(1)] assms(2) by (simp_all add: s_def)
  obtain m where fr: "of_frame_actions_and_buckets (ge_gap env) (ge_behind env) group_type (Some bucket_id) bucket_prop action ?msg
      = Some (Inr (of_nat (length b)), m)"
    and m: "data_len m = of_nat (length b)" "start_of_data m = s" "read_bytes (s + 24) (length b) (mem m) = b"
      "zeros s 24 (mem m)" "length b \<le> 32"
    using bucket_framed [OF msg(1) ok(4,2,3), of env bucket_id] unfolding b_def msg(2) ok(1) by metis
  have sent: "\<exists>m'. send_group_msg env h blk st' (request_framed q (ge_datapath env) h group_id group_type (of_nat (length b)) m)
      = handed_over env ch blk st' m' \<and> data_len m' = of_nat (24 + length b)
      \<and> read_bytes s (24 + length b) (mem m') = request_wire q group_id group_type (length b) @ b"
    if "\<not> without_buckets q" for q
    using request_sent [of env h ch m b q blk st' group_id group_type] assms(3) m that by blast
  show ?thesis
    using sent [of Add_group] sent [of "Insert_bucket place"] fr
    by (simp add: of_frame_and_send_add_group_info_def of_frame_and_send_mod_group_bucket_info_def with_group_msg_def
        assms(1) without_buckets_def flip: s_def)
qed

text \<open>A bucket of a select group is numbered by its weight.\<close>

lemma select_number:
  "gb_id (sent_bucket env OFPGT_SELECT bucket_id (Some p) action) = ucast (bp_weight p)"
  by (simp add: sent_bucket_def bucket_number_def)

definition sample_group_env :: group_env where
  "sample_group_env = \<lparr>ge_get_mem_block = sample_get, ge_data_of = \<lambda>_. 5000, ge_cells = \<lambda>_. 0,
     ge_datapath = sample_datapaths, ge_deliver = \<lambda>_ _. Accepted, ge_gap = 0, ge_behind = replicate 16 0\<rparr>"

definition sample_output :: ofi_action where
  "sample_output = calloc_action\<lparr>act_port_no := 3, act_max_len := 0xffff\<rparr>"

definition sample_weight :: ofi_bucket_prop where
  "sample_weight = calloc_bucket_prop\<lparr>bp_weight := 7\<rparr>"

definition sample_watch :: ofi_bucket_prop where
  "sample_watch = calloc_bucket_prop\<lparr>bp_watch_group := 7\<rparr>"

lemma sample_plain: "plain_action sample_output = Some (Output 3 0xffff)"
  by (simp add: plain_action_def sample_output_def calloc_action_def layout_simps Let_def)

lemma sample_group_ok:
  "connected (ge_datapath sample_group_env) 3 1" "simple_request OFPGT_FF (Some sample_watch) (Some sample_output)"
  by (simp_all add: connected_def sample_group_env_def sample_datapaths_def sample_datapath_def simple_request_def
      group_type_ok_def OFPGT_defs sample_watch_def calloc_bucket_prop_def bucket_props_def sample_plain wf_action_def)

lemma sample_intended:
  "intended_bucket i (Some sample_watch) (Some sample_output)
    = \<lparr>gb_id = i, gb_actions = [Output 3 0xffff], gb_props = [Watch_group 7]\<rparr>"
  by (simp add: intended_bucket_def sample_plain bucket_props_def sample_watch_def calloc_bucket_prop_def)

lemma sample_bucket:
  "bucket_bytes (intended_bucket 1 (Some sample_watch) (Some sample_output))
    = [0, 32, 0, 16, 0, 0, 0, 1, 0, 0, 0, 16, 0, 0, 0, 3, 255, 255, 0, 0, 0, 0, 0, 0, 0, 2, 0, 8, 0, 0, 0, 7]"
  unfolding sample_intended by code_simp

lemma group_sent_witness:
  "case of_frame_and_send_add_group_info sample_group_env 3 9 OFPGT_FF (Some 1) (Some sample_watch) (Some sample_output)
          sample_pool of
     None \<Rightarrow> False
   | Some r \<Rightarrow> go_ok r \<and> length (go_sent r) = 1 \<and> read_bytes 5000 56 (mem (snd (hd (go_sent r)))) =
       [4, 15, 0, 56, 0, 0, 0, 0, 0, 0, 3, 0, 0, 0, 0, 9, 0, 32, 0, 0, 255, 255, 255, 255,
        0, 32, 0, 16, 0, 0, 0, 1, 0, 0, 0, 16, 0, 0, 0, 3, 255, 255, 0, 0, 0, 0, 0, 0, 0, 2, 0, 8, 0, 0, 0, 7]"
proof -
  obtain mk st where al: "ofu_alloc_message (ge_get_mem_block sample_group_env) of_cntlr_msg_init OFPT_GROUP_MOD group_msg_len
      sample_pool = (Some (4, mk), st)"
    using sample_alloc [of group_msg_len OFPT_GROUP_MOD]
    by (auto simp: sample_group_env_def group_msg_len_def OFU_ADD_OR_MODIFY_OR_DELETE_GROUP_MESSAGE_def layout_simps)
  have z: "zeros (ge_data_of sample_group_env 4) 56 (ge_cells sample_group_env)" by (simp add: sample_group_env_def zeros_def)
  have len: "length (bucket_bytes (intended_bucket 1 (Some sample_watch) (Some sample_output))) = 32"
    unfolding sample_bucket by simp
  have env: "ge_data_of sample_group_env 4 = 5000" "ge_deliver sample_group_env c m = Accepted" for c m
    by (simp_all add: sample_group_env_def)
  obtain m where m: "of_frame_and_send_add_group_info sample_group_env 3 9 OFPGT_FF (Some 1) (Some sample_watch)
      (Some sample_output) sample_pool = Some (handed_over sample_group_env 1 4 st m)"
    "read_bytes 5000 (24 + 32) (mem m) = group_mod_wire OFPGC_ADD OFPGT_FF 9 OFPG_BUCKET_ALL 32
      @ bucket_bytes (intended_bucket 1 (Some sample_watch) (Some sample_output))"
    using group_sent [OF al z sample_group_ok, where place = 0 and group_id = 9 and bucket_id = 1]
    by (auto simp: len env simp del: length_bucket_bytes)
  have "group_mod_wire OFPGC_ADD OFPGT_FF 9 OFPG_BUCKET_ALL 32 =
      [4, 15, 0, 56, 0, 0, 0, 0, 0, 0, 3, 0, 0, 0, 0, 9, 0, 32, 0, 0, 255, 255, 255, 255]" by code_simp
  then show ?thesis
    unfolding m(1) option.case using m(2) unfolding sample_bucket by (simp add: handed_over_def env)
qed

text \<open>
  A bucket that is asked for and framed for a request is read back, with its number, its
  action and its property, by the routine that reads the buckets of a group description, at the place where it
  stands in the message and with its whole length.  This holds of the requests of \<open>simple_request\<close> whose bucket
  the reader keeps: no watched port, which it stores as a watched group (lemma \<open>watch_port_misplaced\<close>), and no
  output action with the length 0, for which 128 is sent.
\<close>

theorem bucket_read_back:
  fixes bucket_id :: u32
  assumes "fresh_group_msg msg" and "simple_request group_type bucket_prop action"
    and "readable_bucket (intended_bucket bucket_id bucket_prop action)"
  shows "\<exists>n m. of_frame_actions_and_buckets gap behind group_type (Some bucket_id) bucket_prop action msg = Some (Inr n, m)
    \<and> of_group_frame_bucket_response (mem m) (start_of_data msg + 24)
      = Some (Inr (bucket_entry (intended_bucket bucket_id bucket_prop action), unat n))"
proof -
  let ?b = "intended_bucket bucket_id bucket_prop action"
  define env where "env = \<lparr>ge_get_mem_block = \<lambda>_. None, ge_data_of = \<lambda>_. 0, ge_cells = \<lambda>_. 0,
    ge_datapath = \<lambda>_. None, ge_deliver = \<lambda>_ _. Refused, ge_gap = gap, ge_behind = behind\<rparr>"
  have env: "ge_gap env = gap" "ge_behind env = behind" by (simp_all add: env_def)
  note ok = simple_request_sent [OF assms(2)]
  obtain m where m: "of_frame_actions_and_buckets gap behind group_type (Some bucket_id) bucket_prop action msg
      = Some (Inr (of_nat (length (bucket_bytes ?b))), m)"
    and h: "holds (mem m) (start_of_data msg + 24) (bucket_bytes ?b)" and l: "length (bucket_bytes ?b) \<le> 32"
    using bucket_framed [OF assms(1) ok(4,2,3), of env bucket_id] unfolding ok(1) holds_def env by metis
  have "unat (of_nat (length (bucket_bytes ?b)) :: u16) = length (bucket_bytes ?b)" using l by (intro unat_of_nat_u16) simp
  then show ?thesis using m br.read_enc [OF assms(3) h] by simp
qed

definition sample_group_msg :: of_msg where
  "sample_group_msg = init_msg OFPT_GROUP_MOD 56 5000 (\<lambda>_. 0)"

lemma bucket_read_back_witness:
  "case of_frame_actions_and_buckets 0 (replicate 16 0) OFPGT_FF (Some 1) (Some sample_watch) (Some sample_output) sample_group_msg of
     Some (Inr n, m) \<Rightarrow> of_group_frame_bucket_response (mem m) 5024
       = Some (Inr (\<lparr>bk_bucket_id = 1, bk_action_list = [calloc_action\<lparr>act_port_no := 3, act_max_len := 0xffff\<rparr>],
           bk_bucket_prop_list = [calloc_bucket_prop\<lparr>bp_watch_group := 7\<rparr>]\<rparr>, unat n))
   | _ \<Rightarrow> False"
proof -
  have msg: "fresh_group_msg sample_group_msg" "start_of_data sample_group_msg = 5000"
    by (simp_all add: sample_group_msg_def init_msg_def fresh_group_msg_def zeros_def ROUND_UP_def)
  have ok: "readable_bucket (intended_bucket 1 (Some sample_watch) (Some sample_output))"
    by (simp add: sample_intended readable_bucket_def readable_action_def readable_prop_def action_enc_def)
  show ?thesis
    using bucket_read_back [OF msg(1) sample_group_ok(2) ok, of 0 "replicate 16 0"] unfolding sample_intended msg(2)
    by (auto simp: bucket_entry_def calloc_action_def)
qed

text \<open>
  C37. A bucket that does not go with the type of its group is refused and nothing is sent: a select
  group whose property has no weight, a fast failover group whose property watches nothing, and any bucket of an
  unknown type.  The block of the message goes back to its pool.  But a select or fast failover group without a
  property reads it through a null pointer.
\<close>

theorem group_refused:
  assumes "ofu_alloc_message (ge_get_mem_block env) of_cntlr_msg_init OFPT_GROUP_MOD group_msg_len st = (Some (blk, mk), st')"
    and "\<not> group_type_ok group_type bucket_prop"
  shows "of_frame_and_send_add_group_info env h group_id group_type (Some bucket_id) bucket_prop action st =
    (if bucket_prop = None \<and> (group_type = OFPGT_SELECT \<or> group_type = OFPGT_FF) then None
     else Some \<lparr>go_ok = False, go_sent = [], go_pool = of_msg_release blk st'\<rparr>)"
proof (cases "bucket_prop = None \<and> (group_type = OFPGT_SELECT \<or> group_type = OFPGT_FF)")
  case True
  then show ?thesis
    by (auto simp: of_frame_and_send_add_group_info_def with_group_msg_def assms(1) of_frame_actions_and_buckets_def
        append_group_bucket_def OFPGT_defs Let_def)
next
  case False
  have "append_group_bucket group_type bucket_id bucket_prop msg = Some (None, msg)" for msg
    using assms(2) False by (auto simp: append_group_bucket_def group_type_ok_def)
  then show ?thesis
    using False by (auto simp: of_frame_and_send_add_group_info_def with_group_msg_def assms(1)
        of_frame_actions_and_buckets_def group_failed_def Let_def)
qed

lemma group_refused_witness:
  "of_frame_and_send_add_group_info sample_group_env 3 9 OFPGT_FF (Some 1) (Some sample_weight) None sample_pool \<noteq> None
   \<and> of_frame_and_send_add_group_info sample_group_env 3 9 OFPGT_FF (Some 1) None None sample_pool = None"
proof -
  obtain mk st where al: "ofu_alloc_message (ge_get_mem_block sample_group_env) of_cntlr_msg_init OFPT_GROUP_MOD group_msg_len
      sample_pool = (Some (4, mk), st)"
    using sample_alloc [of group_msg_len OFPT_GROUP_MOD]
    by (auto simp: sample_group_env_def group_msg_len_def OFU_ADD_OR_MODIFY_OR_DELETE_GROUP_MESSAGE_def layout_simps)
  have "\<not> group_type_ok OFPGT_FF (Some sample_weight)" "\<not> group_type_ok OFPGT_FF None"
    by (simp_all add: group_type_ok_def OFPGT_defs sample_weight_def calloc_bucket_prop_def)
  then show ?thesis using group_refused [OF al] by simp
qed

text \<open>
  A set-field action of a group is handed to the routine for the actions of flows,
  which reads another structure: with no vendor in it, the action sets the input port, whatever field
  it is for, to a number made of that field and the bytes of its value.
\<close>

theorem group_set_field_misread:
  assumes "act_type a = OFPAT_SET_FIELD" and "act_vendorid a = 0"
  shows "push_group_action gap behind a (status, msg) = checked OFU_ACTION_PUSH_SUCCESS (exec_action (Set_field
    (SF_port (ucast (act_setfield_type a) OR push_bit 8 (ucast (ui8_data a)) OR push_bit 16 (ucast (ui16_data a))))) msg)"
proof (rule push_group_action_call)
  show "group_action_call gap behind a = Some (Set_field
    (SF_port (ucast (act_setfield_type a) OR push_bit 8 (ucast (ui8_data a)) OR push_bit 16 (ucast (ui16_data a)))))"
    using assms by (simp add: group_action_call_def setfield_call_def as_flow_action_def setfield_misread_def layout_simps Let_def)
qed

definition sample_vlan_action :: ofi_action where
  "sample_vlan_action = calloc_action\<lparr>act_type := OFPAT_SET_FIELD, act_setfield_type := 6, ui16_data := 5\<rparr>"

lemma group_set_field_misread_witness:
  "push_group_action 0 [] sample_vlan_action (None, sample_group_msg)
    = checked OFU_ACTION_PUSH_SUCCESS (exec_action (Set_field (SF_port 0x50006)) sample_group_msg)"
  using group_set_field_misread [of sample_vlan_action 0 "[]" None sample_group_msg]
  by (simp add: sample_vlan_action_def calloc_action_def)

end
