(* ===== verification/MeterMod.thy ===== *)
theory MeterMod
  imports GroupMod FlowTable
begin

text \<open>
  Meters: the table of the meters of a datapath with their bands, which the command line changes
  (\<open>of_meter.c\<close>), the routines that append bands to a message (\<open>of_msg_utils.c\<close>), the meter messages of
  \<open>of_cntlr_2_sw_msgapi.c\<close>, and the function that builds and sends them.  A table is a list of meters; what
  the list macros do to it is shown in \<open>OfList\<close>.
\<close>

section \<open>The meters of a datapath\<close>

record configured_band = ofi_meter_band +
  mb_band_id :: u32

record meter_entry =
  mt_meter_id :: u32
  mt_flags :: u16
  mt_band_list :: "configured_band list"

record meter_datapath = datapath_entry +
  meter_table :: "meter_entry list"

type_synonym meter_datapaths = "u64 \<Rightarrow> meter_datapath option"

abbreviation is_meter :: "u32 \<Rightarrow> meter_entry \<Rightarrow> bool" where
  "is_meter meter_id m \<equiv> mt_meter_id m = meter_id"

abbreviation is_band :: "u32 \<Rightarrow> configured_band \<Rightarrow> bool" where
  "is_band band_id b \<equiv> mb_band_id b = band_id"

text \<open>Every function looks up the datapath and changes its table, or fails and changes nothing.\<close>

definition on_meter_table ::
  "(meter_entry list \<Rightarrow> meter_entry list option) \<Rightarrow> u64 \<Rightarrow> meter_datapaths \<Rightarrow> of_status \<times> meter_datapaths" where
  "on_meter_table change datapath_handle dps =
     (case dps datapath_handle of
        None \<Rightarrow> (OF_FAILURE, dps)
      | Some dp \<Rightarrow>
          (case change (meter_table dp) of
             None \<Rightarrow> (OF_FAILURE, dps)
           | Some ms \<Rightarrow> (OF_SUCCESS, dps(datapath_handle := Some (dp\<lparr>meter_table := ms\<rparr>)))))"

definition change_first :: "('a \<Rightarrow> bool) \<Rightarrow> ('a \<Rightarrow> 'a) \<Rightarrow> 'a list \<Rightarrow> 'a list option" where
  "change_first P f xs = (if \<exists>x \<in> set xs. P x then Some (update_first P f xs) else None)"

definition of_register_meter :: "u64 \<Rightarrow> meter_entry option \<Rightarrow> meter_datapaths \<Rightarrow> of_status \<times> meter_datapaths" where
  "of_register_meter datapath_handle meter_entry dps =
     (case meter_entry of None \<Rightarrow> (OF_FAILURE, dps)
      | Some m \<Rightarrow> on_meter_table (\<lambda>ms. Some (ms @ [m\<lparr>mt_band_list := []\<rparr>])) datapath_handle dps)"

definition of_update_meter :: "u64 \<Rightarrow> meter_entry option \<Rightarrow> meter_datapaths \<Rightarrow> of_status \<times> meter_datapaths" where
  "of_update_meter datapath_handle meter_info dps =
     (case meter_info of None \<Rightarrow> (OF_FAILURE, dps)
      | Some info \<Rightarrow> on_meter_table
          (change_first (is_meter (mt_meter_id info)) (\<lambda>m. m\<lparr>mt_flags := mt_flags info\<rparr>)) datapath_handle dps)"

definition of_get_meter :: "u64 \<Rightarrow> u32 \<Rightarrow> meter_datapaths \<Rightarrow> meter_entry option" where
  "of_get_meter datapath_handle meter_id dps =
     Option.bind (dps datapath_handle) (\<lambda>dp. find (is_meter meter_id) (meter_table dp))"

definition of_register_band_to_meter ::
  "u64 \<Rightarrow> configured_band option \<Rightarrow> u32 \<Rightarrow> meter_datapaths \<Rightarrow> of_status \<times> meter_datapaths" where
  "of_register_band_to_meter datapath_handle band meter_id dps =
     (case band of None \<Rightarrow> (OF_FAILURE, dps)
      | Some b \<Rightarrow> on_meter_table
          (change_first (is_meter meter_id) (\<lambda>m. m\<lparr>mt_band_list := mt_band_list m @ [b]\<rparr>)) datapath_handle dps)"

definition copy_band :: "configured_band \<Rightarrow> configured_band \<Rightarrow> configured_band" where
  "copy_band info b = b\<lparr>mb_type := mb_type info, mb_rate := mb_rate info, mb_burst_size := mb_burst_size info,
     mb_prec_level := mb_prec_level info\<rparr>"

text \<open>The search for a band goes on in later meters of the same number.\<close>

definition has_band :: "u32 \<Rightarrow> u32 \<Rightarrow> meter_entry \<Rightarrow> bool" where
  "has_band meter_id band_id m \<longleftrightarrow> is_meter meter_id m \<and> (\<exists>b \<in> set (mt_band_list m). is_band band_id b)"

definition of_update_band_in_meter ::
  "u64 \<Rightarrow> configured_band option \<Rightarrow> u32 \<Rightarrow> meter_datapaths \<Rightarrow> of_status \<times> meter_datapaths" where
  "of_update_band_in_meter datapath_handle band_info meter_id dps =
     (case band_info of None \<Rightarrow> (OF_FAILURE, dps)
      | Some info \<Rightarrow> on_meter_table
          (change_first (has_band meter_id (mb_band_id info))
             (\<lambda>m. m\<lparr>mt_band_list := update_first (is_band (mb_band_id info)) (copy_band info) (mt_band_list m)\<rparr>))
          datapath_handle dps)"

definition of_unregister_meter :: "u64 \<Rightarrow> u32 \<Rightarrow> meter_datapaths \<Rightarrow> of_status \<times> meter_datapaths" where
  "of_unregister_meter datapath_handle meter_id =
     on_meter_table (\<lambda>ms. if \<exists>m \<in> set ms. is_meter meter_id m then Some (remove_first (is_meter meter_id) ms) else None)
       datapath_handle"

definition of_meter_unregister_band :: "u64 \<Rightarrow> u32 \<Rightarrow> u32 \<Rightarrow> meter_datapaths \<Rightarrow> of_status \<times> meter_datapaths" where
  "of_meter_unregister_band datapath_handle meter_id band_id =
     on_meter_table (change_first (has_band meter_id band_id)
       (\<lambda>m. m\<lparr>mt_band_list := remove_first (is_band band_id) (mt_band_list m)\<rparr>)) datapath_handle"

definition of_meter_unregister_bands :: "u64 \<Rightarrow> u32 \<Rightarrow> meter_datapaths \<Rightarrow> of_status \<times> meter_datapaths" where
  "of_meter_unregister_bands datapath_handle meter_id =
     on_meter_table (change_first (is_meter meter_id) (\<lambda>m. m\<lparr>mt_band_list := []\<rparr>)) datapath_handle"

section \<open>The table as a map\<close>

datatype meter_op =
    Register_Meter u64 meter_entry
  | Update_Meter u64 meter_entry
  | Register_Band u64 configured_band u32
  | Update_Band u64 configured_band u32
  | Unregister_Meter u64 u32
  | Unregister_Band u64 u32 u32
  | Unregister_Bands u64 u32

primrec meter_exec :: "meter_op \<Rightarrow> meter_datapaths \<Rightarrow> of_status \<times> meter_datapaths" where
  "meter_exec (Register_Meter h m) = of_register_meter h (Some m)"
| "meter_exec (Update_Meter h m) = of_update_meter h (Some m)"
| "meter_exec (Register_Band h b k) = of_register_band_to_meter h (Some b) k"
| "meter_exec (Update_Band h b k) = of_update_band_in_meter h (Some b) k"
| "meter_exec (Unregister_Meter h k) = of_unregister_meter h k"
| "meter_exec (Unregister_Band h k i) = of_meter_unregister_band h k i"
| "meter_exec (Unregister_Bands h k) = of_meter_unregister_bands h k"

text \<open>What an operation does to the map of one datapath; \<open>None\<close> is a failure.\<close>

definition change_at :: "u32 \<Rightarrow> (meter_entry \<Rightarrow> meter_entry option) \<Rightarrow> (u32 \<rightharpoonup> meter_entry) \<Rightarrow> (u32 \<rightharpoonup> meter_entry) option" where
  "change_at k f t = map_option (\<lambda>m. t(k \<mapsto> m)) (Option.bind (t k) f)"

definition change_bands :: "u32 \<Rightarrow> (configured_band list \<Rightarrow> configured_band list) \<Rightarrow> meter_entry \<Rightarrow> meter_entry option" where
  "change_bands i f m =
     (if \<exists>b \<in> set (mt_band_list m). is_band i b then Some (m\<lparr>mt_band_list := f (mt_band_list m)\<rparr>) else None)"

primrec op_datapath :: "meter_op \<Rightarrow> u64" where
  "op_datapath (Register_Meter h m) = h"
| "op_datapath (Update_Meter h m) = h"
| "op_datapath (Register_Band h b k) = h"
| "op_datapath (Update_Band h b k) = h"
| "op_datapath (Unregister_Meter h k) = h"
| "op_datapath (Unregister_Band h k i) = h"
| "op_datapath (Unregister_Bands h k) = h"

primrec meter_change :: "meter_op \<Rightarrow> (u32 \<rightharpoonup> meter_entry) \<Rightarrow> (u32 \<rightharpoonup> meter_entry) option" where
  "meter_change (Register_Meter h m) t = Some (t(mt_meter_id m \<mapsto> m\<lparr>mt_band_list := []\<rparr>))"
| "meter_change (Update_Meter h m) t = change_at (mt_meter_id m) (\<lambda>e. Some (e\<lparr>mt_flags := mt_flags m\<rparr>)) t"
| "meter_change (Register_Band h b k) t = change_at k (\<lambda>e. Some (e\<lparr>mt_band_list := mt_band_list e @ [b]\<rparr>)) t"
| "meter_change (Update_Band h b k) t =
     change_at k (change_bands (mb_band_id b) (update_first (is_band (mb_band_id b)) (copy_band b))) t"
| "meter_change (Unregister_Meter h k) t = map_option (\<lambda>_. t(k := None)) (t k)"
| "meter_change (Unregister_Band h k i) t = change_at k (change_bands i (remove_first (is_band i))) t"
| "meter_change (Unregister_Bands h k) t = change_at k (\<lambda>e. Some (e\<lparr>mt_band_list := []\<rparr>)) t"

type_synonym meter_store = "u64 \<rightharpoonup> (u32 \<rightharpoonup> meter_entry)"

definition meter_spec :: "meter_op \<Rightarrow> meter_store \<Rightarrow> of_status \<times> meter_store" where
  "meter_spec op s =
     (case s (op_datapath op) of None \<Rightarrow> (OF_FAILURE, s)
      | Some t \<Rightarrow> (case meter_change op t of None \<Rightarrow> (OF_FAILURE, s)
         | Some t' \<Rightarrow> (OF_SUCCESS, s(op_datapath op \<mapsto> t'))))"

text \<open>A meter is registered once; the functions do not look whether its number is taken.\<close>

primrec meter_op_ok :: "meter_op \<Rightarrow> meter_store \<Rightarrow> bool" where
  "meter_op_ok (Register_Meter h m) s \<longleftrightarrow> (case s h of None \<Rightarrow> True | Some t \<Rightarrow> t (mt_meter_id m) = None)"
| "meter_op_ok (Update_Meter h m) s \<longleftrightarrow> True"
| "meter_op_ok (Register_Band h b k) s \<longleftrightarrow> True"
| "meter_op_ok (Update_Band h b k) s \<longleftrightarrow> True"
| "meter_op_ok (Unregister_Meter h k) s \<longleftrightarrow> True"
| "meter_op_ok (Unregister_Band h k i) s \<longleftrightarrow> True"
| "meter_op_ok (Unregister_Bands h k) s \<longleftrightarrow> True"

definition meter_rel :: "meter_datapaths \<Rightarrow> meter_store \<Rightarrow> bool" where
  "meter_rel dps s \<longleftrightarrow> (\<forall>h dp. dps h = Some dp \<longrightarrow> distinct (map mt_meter_id (meter_table dp)))
     \<and> s = (\<lambda>h. map_option (\<lambda>dp k. find (is_meter k) (meter_table dp)) (dps h))"

primrec table_change :: "meter_op \<Rightarrow> meter_entry list \<Rightarrow> meter_entry list option" where
  "table_change (Register_Meter h m) ms = Some (ms @ [m\<lparr>mt_band_list := []\<rparr>])"
| "table_change (Update_Meter h m) ms = change_first (is_meter (mt_meter_id m)) (\<lambda>e. e\<lparr>mt_flags := mt_flags m\<rparr>) ms"
| "table_change (Register_Band h b k) ms = change_first (is_meter k) (\<lambda>e. e\<lparr>mt_band_list := mt_band_list e @ [b]\<rparr>) ms"
| "table_change (Update_Band h b k) ms = change_first (has_band k (mb_band_id b))
     (\<lambda>e. e\<lparr>mt_band_list := update_first (is_band (mb_band_id b)) (copy_band b) (mt_band_list e)\<rparr>) ms"
| "table_change (Unregister_Meter h k) ms =
     (if \<exists>m \<in> set ms. is_meter k m then Some (remove_first (is_meter k) ms) else None)"
| "table_change (Unregister_Band h k i) ms = change_first (has_band k i)
     (\<lambda>e. e\<lparr>mt_band_list := remove_first (is_band i) (mt_band_list e)\<rparr>) ms"
| "table_change (Unregister_Bands h k) ms = change_first (is_meter k) (\<lambda>e. e\<lparr>mt_band_list := []\<rparr>) ms"

lemma meter_exec_table: "meter_exec op = on_meter_table (table_change op) (op_datapath op)"
  by (cases op) (auto simp: fun_eq_iff of_register_meter_def of_update_meter_def of_register_band_to_meter_def
      of_update_band_in_meter_def of_unregister_meter_def of_meter_unregister_band_def of_meter_unregister_bands_def
      on_meter_table_def split: option.split)

abbreviation meter_map :: "meter_entry list \<Rightarrow> u32 \<rightharpoonup> meter_entry" where
  "meter_map ms k \<equiv> find (is_meter k) ms"

lemma meter_map_Some: "meter_map ms k = Some m \<Longrightarrow> mt_meter_id m = k \<and> m \<in> set ms"
  by (auto simp: find_Some_iff)

lemma meter_map_None: "meter_map ms k = None \<longleftrightarrow> (\<forall>m \<in> set ms. mt_meter_id m \<noteq> k)"
  by (auto simp: find_None_iff)

text \<open>With distinct numbers, the first meter that fits is the one with the number.\<close>

lemma change_first_map:
  assumes "distinct (map mt_meter_id ms)" and "\<And>m. mt_meter_id (f m) = mt_meter_id m"
  shows "case change_first (\<lambda>m. is_meter k m \<and> Q m) f ms of
      None \<Rightarrow> change_at k (\<lambda>m. if Q m then Some (f m) else None) (meter_map ms) = None
    | Some ms' \<Rightarrow> change_at k (\<lambda>m. if Q m then Some (f m) else None) (meter_map ms) = Some (meter_map ms')
        \<and> map mt_meter_id ms' = map mt_meter_id ms"
  using assms(1)
proof (induction ms)
  case (Cons m ms)
  show ?case
  proof (cases "is_meter k m")
    case True
    then have "\<forall>x \<in> set ms. \<not> is_meter k x" using distinct_key [of mt_meter_id m ms, OF Cons.prems] by simp
    then show ?thesis using True assms(2) by (auto simp: change_first_def change_at_def fun_eq_iff)
  next
    case False
    have "change_first (\<lambda>m. is_meter k m \<and> Q m) f (m # ms) = map_option ((#) m) (change_first (\<lambda>m. is_meter k m \<and> Q m) f ms)"
      using False by (auto simp: change_first_def)
    moreover have c: "meter_map (m # ms') = (meter_map ms')(mt_meter_id m \<mapsto> m)" for ms' by (auto simp: fun_eq_iff)
    moreover have "change_at k g (t(mt_meter_id m \<mapsto> m)) = map_option (\<lambda>t. t(mt_meter_id m \<mapsto> m)) (change_at k g t)" for g t
      using False by (auto simp: change_at_def option.map_comp o_def fun_upd_twist intro!: option.map_cong)
    ultimately show ?thesis
      using Cons by (cases "change_first (\<lambda>m. is_meter k m \<and> Q m) f ms") (simp_all del: find.simps)
  qed
qed (simp add: change_first_def change_at_def)

lemma remove_first_map:
  assumes "distinct (map mt_meter_id ms)"
  shows "meter_map (remove_first (is_meter k) ms) = (meter_map ms)(k := None)
    \<and> distinct (map mt_meter_id (remove_first (is_meter k) ms))"
  using assms
proof (induction ms)
  case (Cons m ms)
  have "\<forall>x \<in> set ms. \<not> is_meter (mt_meter_id m) x" using distinct_key [of mt_meter_id m ms, OF Cons.prems] by simp
  then have "meter_map ms (mt_meter_id m) = None" by (simp add: find_None_iff)
  moreover have "mt_meter_id m \<notin> mt_meter_id ` set (remove_first (is_meter k) ms)"
    using Cons.prems remove_first_set [of "is_meter k" ms] by auto
  ultimately show ?case using Cons by (auto simp: fun_eq_iff)
qed simp

lemma append_meter_map:
  assumes "meter_map ms (mt_meter_id m) = None" and "distinct (map mt_meter_id ms)"
  shows "meter_map (ms @ [m]) = (meter_map ms)(mt_meter_id m \<mapsto> m) \<and> distinct (map mt_meter_id (ms @ [m]))"
proof -
  have "find P (xs @ [x]) = (case find P xs of None \<Rightarrow> if P x then Some x else None | Some y \<Rightarrow> Some y)"
    for P :: "meter_entry \<Rightarrow> bool" and xs x by (induction xs) auto
  moreover have "mt_meter_id m \<notin> mt_meter_id ` set ms" using assms(1) by (auto simp: find_None_iff)
  ultimately show ?thesis using assms by (auto simp: fun_eq_iff split: option.split)
qed

lemma table_change_map:
  assumes "distinct (map mt_meter_id ms)" and "meter_op_ok op [op_datapath op \<mapsto> meter_map ms]"
  shows "case table_change op ms of None \<Rightarrow> meter_change op (meter_map ms) = None
    | Some ms' \<Rightarrow> meter_change op (meter_map ms) = Some (meter_map ms') \<and> distinct (map mt_meter_id ms')"
proof -
  note first = change_first_map [OF assms(1), of _ _ "\<lambda>_. True", simplified]
    and band = change_first_map [OF assms(1), of _ _ "\<lambda>m. \<exists>b \<in> set (mt_band_list m). is_band i b" for i]
  show ?thesis
  proof (cases op)
    case (Register_Meter h m)
    then show ?thesis using assms append_meter_map [where ms = ms and m = "m\<lparr>mt_band_list := []\<rparr>"] by simp
  next
    case (Unregister_Meter h k)
    then show ?thesis using remove_first_map [OF assms(1), of k] meter_map_None [where k = k and ms = ms] by (cases "meter_map ms k") auto
  next
    case (Update_Meter h m)
    then show ?thesis using first [of "\<lambda>e. e\<lparr>mt_flags := mt_flags m\<rparr>" "mt_meter_id m"] assms(1)
      by (auto split: option.splits)
  next
    case (Register_Band h b k)
    then show ?thesis using first [of "\<lambda>e. e\<lparr>mt_band_list := mt_band_list e @ [b]\<rparr>" k] assms(1)
      by (auto split: option.splits)
  next
    case (Unregister_Bands h k)
    then show ?thesis using first [of "\<lambda>e. e\<lparr>mt_band_list := []\<rparr>" k] assms(1) by (auto split: option.splits)
  next
    case (Update_Band h b k)
    then show ?thesis
      using band [of "\<lambda>e. e\<lparr>mt_band_list := update_first (is_band (mb_band_id b)) (copy_band b) (mt_band_list e)\<rparr>" k "mb_band_id b"]
        assms(1) by (auto simp: has_band_def [abs_def] change_bands_def [abs_def] split: option.splits)
  next
    case (Unregister_Band h k i)
    then show ?thesis
      using band [of "\<lambda>e. e\<lparr>mt_band_list := remove_first (is_band i) (mt_band_list e)\<rparr>" k i]
        assms(1) by (auto simp: has_band_def [abs_def] change_bands_def [abs_def] split: option.splits)
  qed
qed

lemma meter_step:
  assumes rel: "meter_rel dps s" and ok: "meter_op_ok op s"
  shows "fst (meter_exec op dps) = fst (meter_spec op s) \<and> meter_rel (snd (meter_exec op dps)) (snd (meter_spec op s))"
proof (cases "dps (op_datapath op)")
  case None
  then show ?thesis using rel by (simp add: meter_exec_table on_meter_table_def meter_spec_def meter_rel_def)
next
  case (Some dp)
  have d: "distinct (map mt_meter_id (meter_table dp))" and s: "s (op_datapath op) = Some (meter_map (meter_table dp))"
    using rel Some by (auto simp: meter_rel_def)
  have "meter_op_ok op [op_datapath op \<mapsto> meter_map (meter_table dp)]" using ok s by (cases op) simp_all
  note step = table_change_map [OF d this]
  show ?thesis
    using step rel Some s
    by (cases "table_change op (meter_table dp)")
      (auto simp: meter_exec_table on_meter_table_def meter_spec_def meter_rel_def)
qed

interpretation meters: simulation meter_exec meter_spec meter_op_ok meter_rel "\<lambda>r. r"
  by unfold_locales (rule meter_step)

text \<open>
  C13.  From any tables with distinct meter numbers on, every run of the operations on meters
  and bands returns the statuses and leaves the entries of one map from meter numbers to meters per datapath, and
  a meter is looked up in that map: registering starts a meter with no bands, the other operations change
  or remove the meter with the number and nothing else, and fail if there is none, if it does not have the band,
  or if the datapath is unknown.
\<close>

theorem meter_table_refines:
  assumes "meter_rel dps s" and "run_ok meter_spec meter_op_ok ops s"
  shows "fst (run meter_exec ops dps) = fst (run meter_spec ops s)
    \<and> meter_rel (snd (run meter_exec ops dps)) (snd (run meter_spec ops s))
    \<and> of_get_meter h k (snd (run meter_exec ops dps)) = Option.bind (snd (run meter_spec ops s) h) (\<lambda>t. t k)"
  using meters.run_refines [OF assms] by (auto simp: meter_rel_def of_get_meter_def split: bind_split)

definition sample_meters :: meter_datapaths where
  "sample_meters = [3 \<mapsto> \<lparr>is_main_conn_present = True, main_channel = Some 1, meter_table = []\<rparr>]"

definition sample_band :: "u32 \<Rightarrow> u32 \<Rightarrow> configured_band" where
  "sample_band i r = \<lparr>mb_type = OFPMBT_DROP, mb_len = 0, mb_rate = r, mb_burst_size = 2, mb_prec_level = 0, mb_band_id = i\<rparr>"

abbreviation new_meter :: "u32 \<Rightarrow> u16 \<Rightarrow> meter_entry" where
  "new_meter k f \<equiv> \<lparr>mt_meter_id = k, mt_flags = f, mt_band_list = []\<rparr>"

text \<open>
  Two meters, a band in each, one band changed; the other meter is removed, and a band is sought in it
  and in an unknown datapath.
\<close>

lemma meter_table_refines_witness:
  "let ops = [Register_Meter 3 (new_meter 7 1), Register_Meter 3 (new_meter 8 1), Register_Band 3 (sample_band 1 100) 7,
      Register_Band 3 (sample_band 1 200) 8, Update_Band 3 (sample_band 1 150) 7, Unregister_Meter 3 8,
      Unregister_Band 3 8 1, Unregister_Bands 4 7]
   in fst (run meter_exec ops sample_meters) = replicate 6 OF_SUCCESS @ [OF_FAILURE, OF_FAILURE]
    \<and> map_option mt_band_list (of_get_meter 3 7 (snd (run meter_exec ops sample_meters))) = Some [sample_band 1 150]"
proof -
  let ?ops = "[Register_Meter 3 (new_meter 7 1), Register_Meter 3 (new_meter 8 1), Register_Band 3 (sample_band 1 100) 7,
      Register_Band 3 (sample_band 1 200) 8, Update_Band 3 (sample_band 1 150) 7, Unregister_Meter 3 8,
      Unregister_Band 3 8 1, Unregister_Bands 4 7]"
  note ev = meter_spec_def sample_band_def change_at_def change_bands_def copy_band_def
  have rel: "meter_rel sample_meters [3 \<mapsto> Map.empty]" by (auto simp: meter_rel_def sample_meters_def fun_eq_iff)
  have "run_ok meter_spec meter_op_ok ?ops [3 \<mapsto> Map.empty]" by (simp add: ev)
  from meter_table_refines [OF rel this, of 3 7] show ?thesis by (simp add: ev eval_nat_numeral)
qed

section \<open>Bands in a message\<close>

definition ofu_start_appending_bands_to_meter :: "of_msg \<Rightarrow> of_msg" where
  "ofu_start_appending_bands_to_meter msg = msg\<lparr>ptr2 := ptr1 msg + unat (length1 msg), length2 := 0\<rparr>"

text \<open>The cursor moves to the band that is appended, and its length is that of this band.\<close>

definition ofu_append_band_to_meter_type_drop :: "u32 \<Rightarrow> u32 \<Rightarrow> of_msg \<Rightarrow> msg_utilities \<times> of_msg" where
  "ofu_append_band_to_meter_type_drop band_rate burst_value msg =
     (let msg = msg\<lparr>ptr2 := ptr2 msg + unat (length2 msg)\<rparr>;
          msg = msg\<lparr>length2 := 0\<rparr>;
          band = ptr2 msg;
          msg = st16 band OFPMBT_DROP msg;
          msg = st32 (band + 4) band_rate msg;
          msg = st32 (band + 8) burst_value msg;
          msg = st16 (band + 2) (of_nat OFU_METER_BAND_LEN) msg
      in (OFU_APPEND_BAND_SUCCESS, advance2 OFU_METER_BAND_LEN msg))"

definition ofu_append_band_to_meter_type_dscp_remark :: "u32 \<Rightarrow> u8 \<Rightarrow> u32 \<Rightarrow> of_msg \<Rightarrow> msg_utilities \<times> of_msg" where
  "ofu_append_band_to_meter_type_dscp_remark band_rate prec_level burst_value msg =
     (let msg = msg\<lparr>ptr2 := ptr2 msg + unat (length2 msg)\<rparr>;
          msg = msg\<lparr>length2 := 0\<rparr>;
          band = ptr2 msg;
          msg = st16 band OFPMBT_DSCP_REMARK msg;
          msg = st16 (band + 2) (of_nat OFU_METER_BAND_LEN) msg;
          msg = st8 (band + 12) prec_level msg;
          msg = st32 (band + 4) band_rate msg;
          msg = st32 (band + 8) burst_value msg
      in (OFU_APPEND_BAND_SUCCESS, advance2 OFU_METER_BAND_LEN msg))"

definition ofu_end_appending_bands_to_meter :: "of_msg \<Rightarrow> u16 \<times> of_msg" where
  "ofu_end_appending_bands_to_meter msg = (length1 msg + length2 msg, msg\<lparr>data_len := data_len msg + length2 msg\<rparr>)"

section \<open>The meter messages\<close>

definition OFPMC_ADD :: u16 where "OFPMC_ADD = 0"
definition OFPMC_MODIFY :: u16 where "OFPMC_MODIFY = 1"
definition OFPMC_DELETE :: u16 where "OFPMC_DELETE = 2"

text \<open>
  Without a main connection these functions succeed all the same, with a connection that is never set
  (\<open>None\<close>); the last two also release the message, which the last result tells.
\<close>

definition of_add_meter :: "meter_datapaths \<Rightarrow> u64 \<Rightarrow> u32 \<Rightarrow> u16 \<Rightarrow> of_msg \<Rightarrow> msg_result \<times> bool" where
  "of_add_meter get_datapath_byhandle datapath_handle meter_id meter_type msg =
     (case get_datapath_byhandle datapath_handle of
        None \<Rightarrow> ((False, None, msg), False)
      | Some datapath \<Rightarrow>
          let meter_mod = start_of_data msg;
              msg = put_header OFPT_METER_MOD msg;
              msg = st16 (meter_mod + 8) OFPMC_ADD msg;
              msg = st16 (meter_mod + 10) meter_type msg;
              msg = st32 (meter_mod + 12) meter_id msg;
              msg = count_fixed_part sizeof_ofp_meter_mod msg
          in if is_main_conn_present datapath
             then ((main_channel datapath \<noteq> None, main_channel datapath, msg), False)
             else ((True, None, msg), False))"

definition of_modify_meter :: "meter_datapaths \<Rightarrow> u64 \<Rightarrow> u32 \<Rightarrow> u16 \<Rightarrow> of_msg \<Rightarrow> msg_result \<times> bool" where
  "of_modify_meter get_datapath_byhandle datapath_handle meter_id meter_type msg =
     (case get_datapath_byhandle datapath_handle of
        None \<Rightarrow> ((False, None, msg), False)
      | Some datapath \<Rightarrow>
          let meter_mod = start_of_data msg;
              msg = put_header OFPT_METER_MOD msg;
              msg = st16 (meter_mod + 8) OFPMC_MODIFY msg;
              msg = st16 (meter_mod + 10) meter_type msg;
              msg = st32 (meter_mod + 12) meter_id msg;
              msg = count_fixed_part sizeof_ofp_meter_mod msg
          in if is_main_conn_present datapath
             then ((main_channel datapath \<noteq> None, main_channel datapath, msg), False)
             else ((True, None, msg), True))"

definition of_delete_meter :: "meter_datapaths \<Rightarrow> u64 \<Rightarrow> u32 \<Rightarrow> of_msg \<Rightarrow> msg_result \<times> bool" where
  "of_delete_meter get_datapath_byhandle datapath_handle meter_id msg =
     (case get_datapath_byhandle datapath_handle of
        None \<Rightarrow> ((False, None, msg), False)
      | Some datapath \<Rightarrow>
          let meter_mod = start_of_data msg;
              msg = put_header OFPT_METER_MOD msg;
              msg = st16 (meter_mod + 8) OFPMC_DELETE msg;
              msg = st32 (meter_mod + 12) meter_id msg;
              msg = count_fixed_part sizeof_ofp_meter_mod msg
          in if is_main_conn_present datapath
             then ((main_channel datapath \<noteq> None, main_channel datapath, msg), False)
             else ((True, None, msg), True))"

section \<open>Building and sending\<close>

text \<open>The codes a status takes; \<open>Meter_other\<close> is any other value, which an uninitialised status may have.\<close>

datatype meter_status =
    Meter_success
  | Meter_failure
  | OF_METER_RATE_REQUIRED
  | OF_METER_PREC_LEVEL_REQUIRED
  | Band_appended
  | Meter_other int

text \<open>The results of the routines that append are not looked at; the status is set for a refused band only.\<close>

definition append_band :: "configured_band \<Rightarrow> meter_status \<times> of_msg \<Rightarrow> meter_status \<times> of_msg" where
  "append_band b r =
     (let (status, msg) = r in
      if mb_type b = OFPMBT_DROP then
        (if mb_rate b = 0 then (OF_METER_RATE_REQUIRED, msg)
         else (status, snd (ofu_append_band_to_meter_type_drop (mb_rate b) (mb_burst_size b) msg)))
      else if mb_type b = OFPMBT_DSCP_REMARK then
        (if mb_rate b = 0 \<or> mb_prec_level b = 0 then (OF_METER_PREC_LEVEL_REQUIRED, msg)
         else (status, snd (ofu_append_band_to_meter_type_dscp_remark (mb_rate b) (mb_prec_level b) (mb_burst_size b) msg)))
      else (status, msg))"

text \<open>\<open>garbage\<close> is what the status holds before it is set.\<close>

definition of_meter_frame_message_request ::
  "meter_status \<Rightarrow> meter_entry \<Rightarrow> of_msg \<Rightarrow> meter_status \<times> of_msg" where
  "of_meter_frame_message_request garbage meter_entry msg =
     (let (status, msg) = fold append_band (mt_band_list meter_entry) (garbage, ofu_start_appending_bands_to_meter msg)
      in (status, snd (ofu_end_appending_bands_to_meter msg)))"

datatype meter_command = ADD_METER | ADD_METER_BAND | MOD_METER | DEL_METER

record meter_env =
  me_get_mem_block :: "nat \<Rightarrow> (nat \<times> bool) option"
  me_data_of :: "nat \<Rightarrow> nat"
  me_cells :: memory
  me_deliver :: "nat option \<Rightarrow> of_msg \<Rightarrow> delivery"
  me_garbage :: meter_status

record meter_outcome =
  mo_status :: meter_status
  mo_sent :: "(nat option \<times> of_msg) list"
  mo_pool :: pool_state

definition frame_command :: "meter_env \<Rightarrow> meter_command \<Rightarrow> meter_entry \<Rightarrow> meter_status \<times> of_msg \<Rightarrow> meter_status \<times> of_msg" where
  "frame_command env command m r =
     (let (status, msg) = r in
      if command = DEL_METER then (status, msg)
      else let (retval, msg) = of_meter_frame_message_request (me_garbage env) m msg
           in (if retval \<noteq> Band_appended then retval else status, msg))"

text \<open>
  \<open>None\<close> is the use of a null pointer: the failure to find the datapath or the meter is noted, but the
  meter is used.  The message of a failure is not released.
\<close>

definition of_meter_frame_and_send_message_request ::
  "meter_env \<Rightarrow> meter_datapaths \<Rightarrow> u64 \<Rightarrow> u32 \<Rightarrow> meter_command \<Rightarrow> pool_state \<Rightarrow> meter_outcome option" where
  "of_meter_frame_and_send_message_request env dps datapath_handle meter_id command st =
     (case ofu_alloc_message (me_get_mem_block env) of_cntlr_msg_init OFPT_METER_MOD 300 st of
        (None, st) \<Rightarrow> Some \<lparr>mo_status = Meter_failure, mo_sent = [], mo_pool = st\<rparr>
      | (Some (blk, mk), st) \<Rightarrow>
          let msg = mk (me_data_of env blk) (me_cells env);
              meter = of_get_meter datapath_handle meter_id dps
          in if command = ADD_METER_BAND then Some \<lparr>mo_status = Meter_failure, mo_sent = [], mo_pool = st\<rparr>
             else map_option (\<lambda>m.
               let ((ok, conn_info, msg), released) =
                     (case command of
                        MOD_METER \<Rightarrow> of_modify_meter dps datapath_handle (mt_meter_id m) (mt_flags m) msg
                      | DEL_METER \<Rightarrow> of_delete_meter dps datapath_handle (mt_meter_id m) msg
                      | _ \<Rightarrow> of_add_meter dps datapath_handle (mt_meter_id m) (mt_flags m) msg);
                   st = (if released then of_msg_release blk st else st);
                   (status, msg) = frame_command env command m (if ok then Meter_success else Meter_failure, msg)
               in if status \<noteq> Meter_success then \<lparr>mo_status = status, mo_sent = [], mo_pool = st\<rparr>
                  else let (taken, sent) =
                         of_cntrlr_send_request_message dps (me_deliver env) datapath_handle conn_info msg
                       in \<lparr>mo_status = (if taken = Accepted then Meter_success else Meter_failure), mo_sent = sent,
                           mo_pool = transport_release taken blk st\<rparr>)
               meter)"

section \<open>What is sent\<close>

text \<open>The band that is appended, if it is.\<close>

definition band_call :: "configured_band \<Rightarrow> meter_band option" where
  "band_call b =
     (if mb_type b = OFPMBT_DROP \<and> mb_rate b \<noteq> 0 then Some (Drop_band (mb_rate b) (mb_burst_size b))
      else if mb_type b = OFPMBT_DSCP_REMARK \<and> mb_rate b \<noteq> 0 \<and> mb_prec_level b \<noteq> 0
      then Some (Dscp_remark_band (mb_rate b) (mb_burst_size b) (mb_prec_level b)) else None)"

lemma write_read_bytes:
  assumes "\<And>x. x < a \<or> a + n \<le> x \<Longrightarrow> m' x = m x"
  shows "m' = write_bytes a (read_bytes a n m') m"
  using assms by (auto simp: write_bytes_def read_bytes_def fun_eq_iff)

lemma read_pads:
  assumes "zeros p 16 m"
  shows "read_bytes (p + 12) 4 m = replicate 4 0" "read_bytes (13 + p) 3 m = replicate 3 0"
  using read_zeros [OF zeros_sub [OF assms, of "p + 12" 4]] read_zeros [OF zeros_sub [OF assms, of "13 + p" 3]] by simp_all

lemma band_appended:
  assumes c: "band_call b = Some c" and z: "zeros (pos2 msg) 16 (mem msg)"
  shows "append_band b (status, msg) =
    (status, msg\<lparr>ptr2 := pos2 msg, length2 := 16, mem := write_bytes (pos2 msg) (band_enc c) (mem msg)\<rparr>)"
proof -
  let ?p = "pos2 msg"
  note pads = read_pads [OF z]
  let ?drop = "\<lambda>r u. write_bytes (?p + 2) (be16 16) (write_bytes (?p + 8) (be32 u) (write_bytes (?p + 4) (be32 r)
      (write_bytes ?p (be16 1) (mem msg))))"
  have d: "?drop r u = write_bytes ?p (band_enc (Drop_band r u)) (mem msg)" for r u
  proof -
    have "read_bytes ?p (2 + (2 + (4 + (4 + 4)))) (?drop r u) = band_enc (Drop_band r u)"
      unfolding read_bytes_split by (simp add: read_write_disjoint read_write_at pads band_enc_def add.assoc)
    moreover have "?drop r u = write_bytes ?p (read_bytes ?p 16 (?drop r u)) (mem msg)"
      by (rule write_read_bytes) (auto simp: write_bytes_outside)
    ultimately show ?thesis by simp
  qed
  let ?remark = "\<lambda>r u l. write_bytes (?p + 8) (be32 u) (write_bytes (?p + 4) (be32 r) (write_bytes (?p + 12) [l]
      (write_bytes (?p + 2) (be16 16) (write_bytes ?p (be16 2) (mem msg)))))"
  have q: "?remark r u l = write_bytes ?p (band_enc (Dscp_remark_band r u l)) (mem msg)" for r u l
  proof -
    have "read_bytes ?p (2 + (2 + (4 + (4 + (1 + 3))))) (?remark r u l) = band_enc (Dscp_remark_band r u l)"
      unfolding read_bytes_split by (simp add: read_write_disjoint read_write_at pads band_enc_def add.assoc)
    moreover have "?remark r u l = write_bytes ?p (read_bytes ?p 16 (?remark r u l)) (mem msg)"
      by (rule write_read_bytes) (auto simp: write_bytes_outside)
    ultimately show ?thesis by simp
  qed
  have p: "ptr2 msg + unat (length2 msg) = ?p" by (simp add: pos2_def)
  note defs = append_band_def ofu_append_band_to_meter_type_drop_def ofu_append_band_to_meter_type_dscp_remark_def
    layout_simps msg_defs poke_def advance2_def Let_def p
  consider "mb_type b = OFPMBT_DROP" "mb_rate b \<noteq> 0" "c = Drop_band (mb_rate b) (mb_burst_size b)"
    | "mb_type b = OFPMBT_DSCP_REMARK" "mb_rate b \<noteq> 0" "mb_prec_level b \<noteq> 0"
      "c = Dscp_remark_band (mb_rate b) (mb_burst_size b) (mb_prec_level b)"
    using c by (auto simp: band_call_def split: if_splits)
  then show ?thesis
  proof cases
    case 1
    then show ?thesis by (simp add: defs d)
  next
    case 2
    then show ?thesis by (simp add: defs q)
  qed
qed

lemma those_length: "those (map f xs) = Some ys \<Longrightarrow> length ys = length xs"
  by (induction xs arbitrary: ys) (auto split: option.splits)

lemma bands_appended:
  assumes "those (map band_call bs) = Some cs" and "zeros (pos2 msg) (16 * length bs) (mem msg)"
  shows "\<exists>p. fold append_band bs (status, msg) = (status, msg\<lparr>ptr2 := p, length2 := (if bs = [] then length2 msg else 16),
    mem := write_bytes (pos2 msg) (encoding band_enc cs) (mem msg)\<rparr>)"
  using assms
proof (induction bs arbitrary: msg cs)
  case Nil
  then show ?case by (intro exI [of _ "ptr2 msg"]) simp
next
  case (Cons b bs)
  then obtain c cs' where c: "band_call b = Some c" "those (map band_call bs) = Some cs'" "cs = c # cs'"
    by (auto split: option.splits)
  let ?m = "msg\<lparr>ptr2 := pos2 msg, length2 := 16, mem := write_bytes (pos2 msg) (band_enc c) (mem msg)\<rparr>"
  have "zeros (pos2 msg) 16 (mem msg)" using Cons.prems(2) by (auto intro: zeros_sub)
  note b = band_appended [OF c(1) this, of status]
  have p: "pos2 ?m = pos2 msg + 16" by (simp add: pos2_def)
  have "zeros (pos2 msg + 16) (16 * length bs) (mem msg)" using Cons.prems(2) by (rule zeros_sub) simp_all
  then have "zeros (pos2 ?m) (16 * length bs) (mem ?m)" unfolding p by (simp add: zeros_write_disjoint)
  from Cons.IH [OF c(2) this] obtain p' where "fold append_band bs (status, ?m) = (status,
      ?m\<lparr>ptr2 := p', length2 := (if bs = [] then length2 ?m else 16),
        mem := write_bytes (pos2 ?m) (encoding band_enc cs') (mem ?m)\<rparr>)" by blast
  then have "fold append_band (b # bs) (status, msg) = (status, msg\<lparr>ptr2 := p', length2 := 16,
      mem := write_bytes (pos2 msg) (encoding band_enc cs) (mem msg)\<rparr>)"
    by (simp add: b p write_bytes_append c(3))
  then show ?case by auto
qed

lemma meter_framed:
  assumes "those (map band_call (mt_band_list m)) = Some cs"
    and "zeros (ptr1 msg) (16 * length cs) (mem msg)" and "length1 msg = 0"
  obtains p where "of_meter_frame_message_request garbage m msg = (garbage, msg\<lparr>ptr2 := p,
      length2 := (if cs = [] then 0 else 16), mem := write_bytes (ptr1 msg) (encoding band_enc cs) (mem msg),
      data_len := data_len msg + (if cs = [] then 0 else 16)\<rparr>)"
proof -
  let ?m = "ofu_start_appending_bands_to_meter msg"
  have n: "length (mt_band_list m) = length cs" using those_length [OF assms(1)] by simp
  have f: "pos2 ?m = ptr1 msg" "mem ?m = mem msg" "length2 ?m = 0" "data_len ?m = data_len msg"
    by (simp_all add: ofu_start_appending_bands_to_meter_def pos2_def assms(3))
  have e: "(mt_band_list m = []) = (cs = [])" using n by auto
  obtain p where "fold append_band (mt_band_list m) (garbage, ?m) = (garbage, ?m\<lparr>ptr2 := p,
      length2 := (if cs = [] then 0 else 16), mem := write_bytes (ptr1 msg) (encoding band_enc cs) (mem msg)\<rparr>)"
    using bands_appended [OF assms(1), of ?m garbage] assms(2) unfolding f e n by auto
  then show thesis
    by (intro that [of p]) (simp add: of_meter_frame_message_request_def ofu_end_appending_bands_to_meter_def
        ofu_start_appending_bands_to_meter_def)
qed

text \<open>The fixed part of a meter message.\<close>

definition meter_wire :: "u16 \<Rightarrow> u16 \<Rightarrow> u32 \<Rightarrow> u16 \<Rightarrow> u8 list" where
  "meter_wire command flags meter_id n = [4, 29] @ be16 n @ be32 0 @ be16 command @ be16 flags @ be32 meter_id"

definition command_code :: "meter_command \<Rightarrow> u16 \<Rightarrow> bool" where
  "command_code command code \<longleftrightarrow> command = ADD_METER \<and> code = OFPMC_ADD \<or> command = MOD_METER \<and> code = OFPMC_MODIFY"

lemma meter_request_framed:
  assumes dp: "dps h = Some dp" "is_main_conn_present dp" "main_channel dp = Some ch"
    and d: "data_len msg = 0" and c: "command_code command code"
  defines "s \<equiv> start_of_data msg"
  obtains m where "(case command of MOD_METER \<Rightarrow> of_modify_meter dps h k flags msg
      | DEL_METER \<Rightarrow> of_delete_meter dps h k msg | _ \<Rightarrow> of_add_meter dps h k flags msg) = ((True, Some ch, m), False)"
    and "ptr1 m = s + 16" and "length1 m = 0" and "data_len m = 16" and "start_of_data m = s"
    and "\<And>x. s + 16 \<le> x \<Longrightarrow> mem m x = mem msg x"
    and "\<And>n. read_bytes s 16 (write_bytes (s + 2) (be16 n) (mem m)) = meter_wire code flags k n"
proof -
  let ?M = "write_bytes (s + 12) (be32 k) (write_bytes (s + 10) (be16 flags) (write_bytes (s + 8) (be16 code)
      (write_bytes (s + 4) (be32 0) (write_bytes (s + 1) [29] (write_bytes s [4] (mem msg))))))"
  let ?m = "msg\<lparr>mem := ?M, data_len := 16, utils_ptr := s + 16, ptr1 := s + 16, ptr2 := s + 16, ptr3 := s + 16,
      length1 := 0, length2 := 0, length3 := 0\<rparr>"
  have "(case command of MOD_METER \<Rightarrow> of_modify_meter dps h k flags msg
      | DEL_METER \<Rightarrow> of_delete_meter dps h k msg | _ \<Rightarrow> of_add_meter dps h k flags msg) = ((True, Some ch, ?m), False)"
    using c dp d by (auto simp: command_code_def of_add_meter_def of_modify_meter_def put_header_def count_fixed_part_def
        layout_simps msg_defs poke_def OFPT_METER_MOD_def Let_def s_def)
  moreover have "read_bytes s (1 + (1 + (2 + (4 + (2 + (2 + 4)))))) (write_bytes (s + 2) (be16 n) ?M) = meter_wire code flags k n" for n
    unfolding read_bytes_split by (simp add: read_write_disjoint read_write_at meter_wire_def add.assoc)
  ultimately show thesis by (intro that [of ?m]) (simp_all add: s_def write_bytes_outside)
qed

text \<open>
  C14. Adding or changing a meter of a connected datapath hands one message to its main channel, if
  the uninitialised status happens to hold a code of success.  All the bands are written behind the fixed part,
  without a look at the room in the buffer, but only one of them is counted: the message ends behind the
  first band, however many the meter has.
\<close>

theorem meter_sent:
  assumes al: "ofu_alloc_message (me_get_mem_block env) of_cntlr_msg_init OFPT_METER_MOD 300 st = (Some (blk, mk), st')"
    and "dps h = Some dp" and "is_main_conn_present dp" and "main_channel dp = Some ch"
    and m: "of_get_meter h k dps = Some m" and cs: "those (map band_call (mt_band_list m)) = Some cs"
    and z: "zeros (me_data_of env blk) (16 + 16 * length cs) (me_cells env)"
    and g: "me_garbage env = Meter_success \<or> me_garbage env = Band_appended" and c: "command_code command code"
  defines "s \<equiv> me_data_of env blk" and "n \<equiv> (if cs = [] then 16 else 32)"
  shows "\<exists>msg. of_meter_frame_and_send_message_request env dps h k command st = Some \<lparr>
        mo_status = (if me_deliver env (Some ch) msg = Accepted then Meter_success else Meter_failure),
        mo_sent = [(Some ch, msg)], mo_pool = transport_release (me_deliver env (Some ch) msg) blk st'\<rparr>
    \<and> data_len msg = n \<and> read_bytes s 16 (mem msg) = meter_wire code (mt_flags m) k n
    \<and> read_bytes (s + 16) (16 * length cs) (mem msg) = encoding band_enc cs"
proof -
  let ?msg = "mk s (me_cells env)"
  note al' = alloc_flow_message(3-5) [OF al, of s "me_cells env"]
  have k: "mt_meter_id m = k" using m by (auto simp: of_get_meter_def find_Some_iff split: bind_splits)
  obtain m1 where m1: "(case command of MOD_METER \<Rightarrow> of_modify_meter dps h k (mt_flags m) ?msg
      | DEL_METER \<Rightarrow> of_delete_meter dps h k ?msg | _ \<Rightarrow> of_add_meter dps h k (mt_flags m) ?msg) = ((True, Some ch, m1), False)"
    "ptr1 m1 = s + 16" "length1 m1 = 0" "data_len m1 = 16" "start_of_data m1 = s"
    "\<And>x. s + 16 \<le> x \<Longrightarrow> mem m1 x = me_cells env x"
    "\<And>n. read_bytes s 16 (write_bytes (s + 2) (be16 n) (mem m1)) = meter_wire code (mt_flags m) k n"
    using meter_request_framed [of dps h dp ch ?msg command code k "mt_flags m"] assms(2-4) al' c by metis
  have "zeros (ptr1 m1) (16 * length cs) (mem m1)"
    using zeros_sub [OF z, of "s + 16" "16 * length cs"] m1(2,6) by (simp add: s_def zeros_def)
  then obtain p where fr: "of_meter_frame_message_request (me_garbage env) m m1 = (me_garbage env, m1\<lparr>ptr2 := p,
      length2 := (if cs = [] then 0 else 16), mem := write_bytes (s + 16) (encoding band_enc cs) (mem m1),
      data_len := 16 + (if cs = [] then 0 else 16)\<rparr>)"
    using meter_framed [OF cs _ m1(3)] m1(2,4) by metis
  let ?M = "write_bytes (s + 2) (be16 n) (write_bytes (s + 16) (encoding band_enc cs) (mem m1))"
  have len: "length (encoding band_enc cs) = 16 * length cs" by (induction cs) simp_all
  have "read_bytes (s + 16) (16 * length cs) ?M = encoding band_enc cs"
    by (simp add: read_write_disjoint read_write_same' len)
  moreover have "read_bytes s 16 ?M = read_bytes s 16 (write_bytes (s + 2) (be16 n) (mem m1))"
    by (intro read_bytes_cong) (simp add: write_bytes_def)
  moreover have "command \<noteq> ADD_METER_BAND" "command \<noteq> DEL_METER" using c by (auto simp: command_code_def)
  moreover define m2 where "m2 = m1\<lparr>ptr2 := p, length2 := (if cs = [] then 0 else 16),
      mem := write_bytes (s + 16) (encoding band_enc cs) (mem m1), data_len := n\<rparr>"
  have m2: "start_of_data m2 = s" "data_len m2 = n" "mem (st16 (s + 2) n m2) = ?M" "data_len (st16 (s + 2) n m2) = n"
    using m1(5) by (simp_all add: m2_def msg_defs poke_def)
  have f: "frame_command env command m (Meter_success, m1) = (Meter_success, m2)"
    using g calculation(3,4) by (auto simp: frame_command_def fr n_def m2_def)
  ultimately show ?thesis
    unfolding of_meter_frame_and_send_message_request_def al prod.case option.case Let_def m option.map k s_def [symmetric] m1(1)
      if_True if_False f
    using assms(2) by (intro exI [of _ "st16 (s + 2) n m2"])
      (simp add: of_cntrlr_send_request_message_def m2 m1(7) Let_def)
qed

definition sample_meter_env :: "meter_status \<Rightarrow> meter_env" where
  "sample_meter_env garbage = \<lparr>me_get_mem_block = sample_get, me_data_of = \<lambda>_. 5000, me_cells = \<lambda>_. 0,
     me_deliver = \<lambda>_ _. Accepted, me_garbage = garbage\<rparr>"

definition sample_meter :: meter_entry where
  "sample_meter = \<lparr>mt_meter_id = 7, mt_flags = 1, mt_band_list = [sample_band 1 100, sample_band 2 200]\<rparr>"

definition sample_metered :: meter_datapaths where
  "sample_metered = [3 \<mapsto> \<lparr>is_main_conn_present = True, main_channel = Some 1, meter_table = [sample_meter]\<rparr>]"

lemma sample_meter_facts:
  "of_get_meter 3 7 sample_metered = Some sample_meter"
  "those (map band_call (mt_band_list sample_meter)) = Some [Drop_band 100 2, Drop_band 200 2]"
  by (simp_all add: of_get_meter_def sample_metered_def sample_meter_def sample_band_def band_call_def)

text \<open>Two bands, of which the message of 32 bytes has the first.\<close>

lemma meter_sent_witness:
  "case of_meter_frame_and_send_message_request (sample_meter_env Band_appended) sample_metered 3 7 ADD_METER sample_pool of
     None \<Rightarrow> False
   | Some r \<Rightarrow> mo_status r = Meter_success \<and> length (mo_sent r) = 1 \<and> data_len (snd (hd (mo_sent r))) = 32
       \<and> read_bytes 5000 16 (mem (snd (hd (mo_sent r)))) = [4, 29, 0, 32, 0, 0, 0, 0, 0, 0, 0, 1, 0, 0, 0, 7]"
proof -
  let ?env = "sample_meter_env Band_appended"
  obtain mk st where al: "ofu_alloc_message (me_get_mem_block ?env) of_cntlr_msg_init OFPT_METER_MOD 300 sample_pool
      = (Some (4, mk), st)"
    using sample_alloc [of 300 OFPT_METER_MOD] by (auto simp: sample_meter_env_def)
  have env: "me_data_of ?env x = 5000" "me_deliver ?env c msg = Accepted" for x c msg
    by (simp_all add: sample_meter_env_def)
  let ?dp = "\<lparr>is_main_conn_present = True, main_channel = Some 1, meter_table = [sample_meter]\<rparr>"
  have dp: "sample_metered 3 = Some ?dp" "is_main_conn_present ?dp" "main_channel ?dp = Some 1"
    by (simp_all add: sample_metered_def)
  have rest: "zeros (me_data_of ?env 4) (16 + 16 * length [Drop_band 100 2, Drop_band 200 2]) (me_cells ?env)"
    "me_garbage ?env = Meter_success \<or> me_garbage ?env = Band_appended" "command_code ADD_METER OFPMC_ADD"
    by (simp_all add: sample_meter_env_def zeros_def command_code_def)
  have wire: "meter_wire OFPMC_ADD (mt_flags sample_meter) 7 32 = [4, 29, 0, 32, 0, 0, 0, 0, 0, 0, 0, 1, 0, 0, 0, 7]"
    by (simp add: sample_meter_def) code_simp
  show ?thesis
    using meter_sent [OF al dp sample_meter_facts rest] by (auto simp: env wire)
qed

lemma frame_status:
  assumes "those (map band_call (mt_band_list m)) = Some cs"
  shows "fst (of_meter_frame_message_request garbage m msg) = garbage"
proof -
  have one: "fst (append_band b r) = fst r" if "band_call b = Some c" for b r c
    using that by (cases r) (auto simp: append_band_def band_call_def split: if_splits)
  have "those (map band_call bs) = Some cs \<Longrightarrow> fst (fold append_band bs r) = fst r" for bs cs r
  proof (induction bs arbitrary: cs r)
    case (Cons b bs)
    then obtain c cs' where "band_call b = Some c" "those (map band_call bs) = Some cs'" by (auto split: option.splits)
    then show ?case using Cons.IH [of cs' "append_band b r"] one [of b c r] by simp
  qed simp
  then show ?thesis
    using assms by (simp add: of_meter_frame_message_request_def split_beta)
qed

text \<open>
  The function that frames the bands of a meter sets its status for a refused band only.
  When every band is accepted, or there is none, adding the meter returns what the status happened to hold, nothing
  is sent and the block of the message is not given back -- unless that value is a code of success.
\<close>

theorem meter_status_unset:
  assumes "ofu_alloc_message (me_get_mem_block env) of_cntlr_msg_init OFPT_METER_MOD 300 st = (Some (blk, mk), st')"
    and "of_get_meter h k dps = Some m" and "those (map band_call (mt_band_list m)) = Some cs"
    and "me_garbage env \<noteq> Meter_success" and "me_garbage env \<noteq> Band_appended"
  shows "of_meter_frame_and_send_message_request env dps h k ADD_METER st
    = Some \<lparr>mo_status = me_garbage env, mo_sent = [], mo_pool = st'\<rparr>"
proof -
  let ?msg = "mk (me_data_of env blk) (me_cells env)"
  obtain ok conn msg where add: "of_add_meter dps h (mt_meter_id m) (mt_flags m) ?msg = ((ok, conn, msg), False)"
    using surj_pair by (cases "of_add_meter dps h (mt_meter_id m) (mt_flags m) ?msg")
      (auto simp: of_add_meter_def Let_def split: option.splits if_splits)
  have "fst (frame_command env ADD_METER m (x, msg)) = me_garbage env" for x
    using frame_status [OF assms(3), of "me_garbage env" msg] assms(5) by (auto simp: frame_command_def split_beta Let_def)
  then show ?thesis
    using assms(1,2,4) add by (simp add: of_meter_frame_and_send_message_request_def split_beta Let_def)
qed

lemma meter_status_unset_witness:
  "map_option mo_sent (of_meter_frame_and_send_message_request (sample_meter_env (Meter_other 5)) sample_metered 3 7 ADD_METER
     sample_pool) = Some []"
proof -
  let ?env = "sample_meter_env (Meter_other 5)"
  obtain mk st where al: "ofu_alloc_message (me_get_mem_block ?env) of_cntlr_msg_init OFPT_METER_MOD 300 sample_pool
      = (Some (4, mk), st)"
    using sample_alloc [of 300 OFPT_METER_MOD] by (auto simp: sample_meter_env_def)
  have "me_garbage ?env \<noteq> Meter_success" "me_garbage ?env \<noteq> Band_appended" by (simp_all add: sample_meter_env_def)
  then show ?thesis using meter_status_unset [OF al sample_meter_facts] by simp
qed

text \<open>
  A meter, or a datapath, that is not found is used through a null pointer; and deleting a meter of a datapath
  without a main connection releases the message and then sends it, over a connection that was never set.
\<close>

theorem meter_null:
  assumes "ofu_alloc_message (me_get_mem_block env) of_cntlr_msg_init OFPT_METER_MOD 300 st = (Some (blk, mk), st')"
    and "of_get_meter h k dps = None" and "command \<noteq> ADD_METER_BAND"
  shows "of_meter_frame_and_send_message_request env dps h k command st = None"
  using assms by (simp add: of_meter_frame_and_send_message_request_def Let_def)

theorem meter_released_sent:
  assumes "ofu_alloc_message (me_get_mem_block env) of_cntlr_msg_init OFPT_METER_MOD 300 st = (Some (blk, mk), st')"
    and "dps h = Some dp" and "\<not> is_main_conn_present dp" and "of_get_meter h k dps = Some m"
  shows "\<exists>msg. map_option (\<lambda>r. (mo_sent r, mo_pool r)) (of_meter_frame_and_send_message_request env dps h k DEL_METER st)
    = Some ([(None, msg)], transport_release (me_deliver env None msg) blk (of_msg_release blk st'))"
  using assms
  by (simp add: of_meter_frame_and_send_message_request_def of_delete_meter_def frame_command_def
      of_cntrlr_send_request_message_def Let_def)

end
