(* ===== verification/Xtn.thy ===== *)
theory Xtn
  imports MchashTable ReplyGroup
begin

text \<open>
  Transactions (\<open>coreapp/cntlr_xtn.c\<close>): a request gets a transaction number and leaves a record in a hash
  table, a reply finds the record by its number, and a timer reports the failure of requests that are
  not answered.  \<open>cntlr_send_msg_to_dp\<close> (\<open>trnsprt_core.c\<close>) records the requests that are answered, and
  \<open>of_process_multipart_replymsg\<close> (\<open>of_cntlr_msg.c\<close>) hands a multipart reply to the handler of its type.
  The host is little-endian.
\<close>

section \<open>The hash value\<close>

definition OF_DOBBS_MIX :: "u32 \<times> u32 \<times> u32 \<Rightarrow> u32 \<times> u32 \<times> u32" where
  "OF_DOBBS_MIX w =
     (let (a, b, c) = w;
          a = a - b; a = a - c; a = a XOR drop_bit 13 c;
          b = b - c; b = b - a; b = b XOR push_bit 8 a;
          c = c - a; c = c - b; c = c XOR drop_bit 13 b;
          a = a - b; a = a - c; a = a XOR drop_bit 12 c;
          b = b - c; b = b - a; b = b XOR push_bit 16 a;
          c = c - a; c = c - b; c = c XOR drop_bit 5 b;
          a = a - b; a = a - c; a = a XOR drop_bit 3 c;
          b = b - c; b = b - a; b = b XOR push_bit 10 a;
          c = c - a; c = c - b; c = c XOR drop_bit 15 b
      in (a, b, c))"

definition OF_TRANSACTION_TABLE_MAX_NO_OF_NODES :: nat where
  "OF_TRANSACTION_TABLE_MAX_NO_OF_NODES = 5000"

text \<open>
  The size is the text \<open>5000/5\<close>, which the macro puts behind \<open>%\<close> without parentheses.
\<close>

definition OF_DOBBS_WORDS3 :: "u32 \<Rightarrow> u32 \<Rightarrow> u32 \<Rightarrow> u32 \<Rightarrow> u32" where
  "OF_DOBBS_WORDS3 word_a word_b word_c initval =
     (let (_, _, temp_c) = OF_DOBBS_MIX (0x9e3779b9 + word_a, 0x9e3779b9 + word_b, initval + word_c)
      in temp_c mod of_nat OF_TRANSACTION_TABLE_MAX_NO_OF_NODES div 5)"

definition OF_TRANSACTION_TABLE_HASH :: "u32 \<Rightarrow> u32 \<Rightarrow> u32 \<times> u32 \<Rightarrow> nat" where
  "OF_TRANSACTION_TABLE_HASH init xid dp_id = unat (OF_DOBBS_WORDS3 xid (fst dp_id) (snd dp_id) init)"

section \<open>The records\<close>

definition OFPT_ECHO_REQUEST :: u8 where "OFPT_ECHO_REQUEST = 2"
definition OFPT_GET_CONFIG_REQUEST :: u8 where "OFPT_GET_CONFIG_REQUEST = 7"
definition OFPT_MULTIPART_REQUEST :: u8 where "OFPT_MULTIPART_REQUEST = 18"
definition OFPT_BARRIER_REQUEST :: u8 where "OFPT_BARRIER_REQUEST = 20"
definition OFPT_ROLE_REQUEST :: u8 where "OFPT_ROLE_REQUEST = 24"
definition OFPT_GET_ASYNC_REQUEST :: u8 where "OFPT_GET_ASYNC_REQUEST = 26"

text \<open>
  A record, its block's address apart.  A callback and the arguments of the application are numbers;
  \<open>timers\<close> are the records whose timer runs.
\<close>

record cntlr_transactn_rec =
  xr_xid :: u32
  xr_dp_handle :: u64
  xr_msg_type :: u8
  xr_msg_subtype :: u16
  xr_callback_fn :: nat
  xr_app_pvt_arg1 :: nat
  xr_app_pvt_arg2 :: nat
  rec_safe_ref :: "nat \<times> u32"

record xtn_state =
  cntlr_xtn_table :: table
  xtn_recs :: "nat \<Rightarrow> cntlr_transactn_rec"
  cntlr_xtn_seq_no_g :: u32
  timers :: "nat list"

record xtn_datapath =
  xd_handle :: u64
  xd_domain :: u64
  xd_id :: "u32 \<times> u32"

definition cntlr_xtn_table_init :: "(nat \<Rightarrow> table_link) \<Rightarrow> (nat \<Rightarrow> cntlr_transactn_rec) \<Rightarrow> xtn_state" where
  "cntlr_xtn_table_init L recs =
     \<lparr>cntlr_xtn_table = mchash_table_create (OF_TRANSACTION_TABLE_MAX_NO_OF_NODES div 5 + 1)
        OF_TRANSACTION_TABLE_MAX_NO_OF_NODES L,
      xtn_recs = recs, cntlr_xtn_seq_no_g = 0, timers = []\<rparr>"

definition next_xid :: "u32 \<Rightarrow> u32" where
  "next_xid n = (if n + 1 = 0 then 1 else n + 1)"

text \<open>
  The message is given by its type and, for a multipart request, by the address of its body type, read
  as it is.  The block of the record and the start of the timer may fail; what was obtained before a
  failure is kept.
\<close>

definition cntlr_record_xtn_details ::
  "u32 \<Rightarrow> nat option \<Rightarrow> bool \<Rightarrow> memory \<Rightarrow> nat \<Rightarrow> xtn_datapath \<Rightarrow> nat \<Rightarrow> nat \<Rightarrow> nat \<Rightarrow> xtn_state
    \<Rightarrow> (nat \<times> u32) option \<times> xtn_state" where
  "cntlr_record_xtn_details init block timer_ok m start datapath callback_fn app_arg1 app_arg2 s =
     (case block of
        None \<Rightarrow> (None, s)
      | Some transaction_rec \<Rightarrow>
          let xid = next_xid (cntlr_xtn_seq_no_g s);
              msg_type = m (start + 1);
              r = \<lparr>xr_xid = xid, xr_dp_handle = xd_handle datapath, xr_msg_type = msg_type,
                   xr_msg_subtype = (if msg_type = OFPT_MULTIPART_REQUEST then raw16_at m (start + 8) else 0),
                   xr_callback_fn = callback_fn, xr_app_pvt_arg1 = app_arg1, xr_app_pvt_arg2 = app_arg2,
                   rec_safe_ref = (0, 0)\<rparr>;
              s = s\<lparr>cntlr_xtn_seq_no_g := xid, xtn_recs := (xtn_recs s)(transaction_rec := r)\<rparr>
          in if \<not> timer_ok then (None, s)
             else let s = s\<lparr>timers := transaction_rec # timers s\<rparr>
                  in case MCHASH_APPEND_NODE (OF_TRANSACTION_TABLE_HASH init xid (xd_id datapath))
                            transaction_rec (cntlr_xtn_table s) of
                       (None, t) \<Rightarrow> (None, s\<lparr>cntlr_xtn_table := t\<rparr>)
                     | (Some ref, t) \<Rightarrow>
                         (Some ref, s\<lparr>cntlr_xtn_table := t,
                            xtn_recs := (xtn_recs s)(transaction_rec := r\<lparr>rec_safe_ref := ref\<rparr>)\<rparr>))"

text \<open>The identifier of the datapath selects the bucket; it is not compared with anything.\<close>

definition cntlr_get_xtn_details :: "u32 \<Rightarrow> u32 \<Rightarrow> u32 \<times> u32 \<Rightarrow> xtn_state \<Rightarrow> nat option" where
  "cntlr_get_xtn_details init xid dp_id s =
     find (\<lambda>transaction_rec. xr_xid (xtn_recs s transaction_rec) = xid)
       (MCHASH_BUCKET_SCAN (OF_TRANSACTION_TABLE_MAX_NO_OF_NODES + 1)
          (OF_TRANSACTION_TABLE_HASH init xid dp_id) (cntlr_xtn_table s))"

definition cntlr_del_xtn_with_rec :: "nat \<Rightarrow> xtn_state \<Rightarrow> bool \<times> xtn_state" where
  "cntlr_del_xtn_with_rec transaction_rec s =
     (let (is_del_status, t) = MCHASH_DELETE_NODE transaction_rec (cntlr_xtn_table s)
      in (is_del_status, s\<lparr>cntlr_xtn_table := t\<rparr>))"

definition cntlr_del_xtn_with_safe_ref :: "nat \<times> u32 \<Rightarrow> xtn_state \<Rightarrow> (bool \<times> xtn_state) option" where
  "cntlr_del_xtn_with_safe_ref ref s =
     map_option (\<lambda>(is_del_status, t). (is_del_status, s\<lparr>cntlr_xtn_table := t\<rparr>))
       (MCHASH_DELETE_NODE_BY_REF (fst ref) (snd ref) (cntlr_xtn_table s))"

text \<open>The deferred release of a deleted record stops its timer.\<close>

definition cntlr_free_xtn_node_rcu :: "nat \<Rightarrow> xtn_state \<Rightarrow> xtn_state" where
  "cntlr_free_xtn_node_rcu transaction_rec s = s\<lparr>timers := removeAll transaction_rec (timers s)\<rparr>"

section \<open>Requests that are not answered\<close>

definition OFPMP_DESC :: u16 where "OFPMP_DESC = 0"
definition OFPMP_FLOW :: u16 where "OFPMP_FLOW = 1"
definition OFPMP_AGGREGATE :: u16 where "OFPMP_AGGREGATE = 2"
definition OFPMP_TABLE :: u16 where "OFPMP_TABLE = 3"
definition OFPMP_PORT_STATS :: u16 where "OFPMP_PORT_STATS = 4"
definition OFPMP_QUEUE :: u16 where "OFPMP_QUEUE = 5"
definition OFPMP_GROUP :: u16 where "OFPMP_GROUP = 6"
definition OFPMP_GROUP_DESC :: u16 where "OFPMP_GROUP_DESC = 7"
definition OFPMP_GROUP_FEATURES :: u16 where "OFPMP_GROUP_FEATURES = 8"
definition OFPMP_METER :: u16 where "OFPMP_METER = 9"
definition OFPMP_METER_CONFIG :: u16 where "OFPMP_METER_CONFIG = 10"
definition OFPMP_METER_FEATURES :: u16 where "OFPMP_METER_FEATURES = 11"
definition OFPMP_TABLE_FEATURES :: u16 where "OFPMP_TABLE_FEATURES = 12"
definition OFPMP_PORT_DESC :: u16 where "OFPMP_PORT_DESC = 13"
definition OFPMP_EXPERIMENTER :: u16 where "OFPMP_EXPERIMENTER = 0xffff"

lemmas OFPMP_defs = OFPMP_DESC_def OFPMP_FLOW_def OFPMP_AGGREGATE_def OFPMP_TABLE_def OFPMP_PORT_STATS_def
  OFPMP_QUEUE_def OFPMP_GROUP_def OFPMP_GROUP_DESC_def OFPMP_GROUP_FEATURES_def OFPMP_METER_def
  OFPMP_METER_CONFIG_def OFPMP_METER_FEATURES_def OFPMP_TABLE_FEATURES_def OFPMP_PORT_DESC_def
  OFPMP_EXPERIMENTER_def

text \<open>
  The callback that is made, by the type of its function: the function, the handle in the place of the
  datapath, and the status.
\<close>

datatype failure_cbk = Failure_cbk (fail_type: u16) (fail_fn: nat) (fail_datapath: u64)

definition clean_multipart_req_msgs :: "cntlr_transactn_rec \<Rightarrow> failure_cbk option" where
  "clean_multipart_req_msgs p_xtn_rec =
     (let ty = xr_msg_subtype p_xtn_rec
      in if ty \<in> {OFPMP_PORT_DESC, OFPMP_PORT_STATS, OFPMP_TABLE, OFPMP_FLOW, OFPMP_AGGREGATE, OFPMP_GROUP_DESC,
                  OFPMP_GROUP, OFPMP_GROUP_FEATURES, OFPMP_TABLE_FEATURES, OFPMP_METER_CONFIG, OFPMP_METER,
                  OFPMP_METER_FEATURES}
         then Some (Failure_cbk ty (xr_callback_fn p_xtn_rec) (xr_dp_handle p_xtn_rec))
         else if ty = OFPMP_DESC then Some (Failure_cbk ty (xr_callback_fn p_xtn_rec) 0)
         else None)"

definition cntlr_xtn_recrod_cleanup_func :: "nat \<Rightarrow> xtn_state \<Rightarrow> failure_cbk option \<times> (bool \<times> xtn_state) option" where
  "cntlr_xtn_recrod_cleanup_func transaction_rec s =
     (let r = xtn_recs s transaction_rec
      in (if xr_msg_type r = OFPT_MULTIPART_REQUEST then clean_multipart_req_msgs r else None,
          cntlr_del_xtn_with_safe_ref (rec_safe_ref r) s))"

section \<open>Sending\<close>

text \<open>
  The types of messages that are answered are recorded, the others only get a number; \<open>sent_ok\<close> is what
  handing the message to the transport returns.  The result is the status and the number stamped on
  the message.
\<close>

definition is_rec_xtn :: "u8 \<Rightarrow> bool" where
  "is_rec_xtn ty \<longleftrightarrow> ty \<in> {OFPT_ECHO_REQUEST, OFPT_MULTIPART_REQUEST, OFPT_BARRIER_REQUEST, OFPT_GROUP_MOD,
     OFPT_METER_MOD, OFPT_GET_CONFIG_REQUEST, OFPT_ROLE_REQUEST, OFPT_GET_ASYNC_REQUEST}"

definition cntlr_send_msg_to_dp ::
  "u32 \<Rightarrow> nat option \<Rightarrow> bool \<Rightarrow> bool \<Rightarrow> memory \<Rightarrow> nat \<Rightarrow> xtn_datapath \<Rightarrow> nat \<Rightarrow> nat \<Rightarrow> nat \<Rightarrow> xtn_state
    \<Rightarrow> ((bool \<times> u32) \<times> xtn_state) option" where
  "cntlr_send_msg_to_dp init block timer_ok sent_ok m start datapath callback_fn clbk_arg1 clbk_arg2 s =
     (if is_rec_xtn (m (start + 1)) then
        case cntlr_record_xtn_details init block timer_ok m start datapath callback_fn clbk_arg1 clbk_arg2 s of
          (None, s) \<Rightarrow> Some ((False, cntlr_xtn_seq_no_g s), s)
        | (Some ref, s) \<Rightarrow>
            if sent_ok then Some ((True, cntlr_xtn_seq_no_g s), s)
            else map_option (\<lambda>(_, s). ((False, cntlr_xtn_seq_no_g s), s)) (cntlr_del_xtn_with_safe_ref ref s)
      else let s = s\<lparr>cntlr_xtn_seq_no_g := next_xid (cntlr_xtn_seq_no_g s)\<rparr>
           in Some ((sent_ok, cntlr_xtn_seq_no_g s), s))"

section \<open>Multipart replies\<close>

record ofi_switch_info =
  sw_mfr_desc :: "u8 list"
  sw_hw_desc :: "u8 list"
  sw_sw_desc :: "u8 list"
  sw_serial_num :: "u8 list"
  sw_dp_desc :: "u8 list"

definition DESC_STR_LEN :: nat where "DESC_STR_LEN = 256"
definition SERIAL_NUM_LEN :: nat where "SERIAL_NUM_LEN = 32"

text \<open>The callbacks by the handler that makes them; the handlers outside of the model only by their type.\<close>

datatype multipart_event =
    Flow_stats flow_stats_cbk
  | Aggregate_stats "ofi_aggregate_flow_stats reply_cbk"
  | Table_stats "ofi_table_stats_info reply_cbk"
  | Port_stats "ofi_port_stats_info reply_cbk"
  | Group_stats "ofi_group_stat reply_cbk"
  | Group_descs "ofi_group_desc_info reply_cbk"
  | Group_features "ofi_group_features_info reply_cbk"
  | Meter_stats "ofi_meter_stats_info reply_cbk"
  | Meter_configs "ofi_meter_rec_info reply_cbk"
  | Meter_features "ofi_meter_features_info reply_cbk"
  | Port_descs port_event
  | Switch_info u64 response_status "ofi_switch_info option"
  | Other_handler u16

text \<open>\<open>strcpy\<close> into an array of the size of the field writes behind it when the field has no zero byte.\<close>

definition strcpy_fits :: "nat \<Rightarrow> memory \<Rightarrow> nat \<Rightarrow> bool" where
  "strcpy_fits n m a \<longleftrightarrow> 0 \<in> set (read_bytes a n m)"

definition strcpy_bytes :: "nat \<Rightarrow> memory \<Rightarrow> nat \<Rightarrow> u8 list" where
  "strcpy_bytes n m a = takeWhile (\<lambda>b. b \<noteq> 0) (read_bytes a n m)"

definition of_switch_info_response ::
  "reply_context \<Rightarrow> memory \<Rightarrow> nat \<Rightarrow> nat \<Rightarrow> multipart_event list \<times> handler_end" where
  "of_switch_info_response c m start p_msg_hdr =
     (let bytes_to_read = be16_at m (p_msg_hdr + 2) - of_nat sizeof_ofp_multipart_reply;
          d = start + sizeof_ofp_multipart_reply;
          info = \<lparr>sw_mfr_desc = strcpy_bytes DESC_STR_LEN m d, sw_hw_desc = strcpy_bytes DESC_STR_LEN m (d + 256),
                  sw_sw_desc = strcpy_bytes DESC_STR_LEN m (d + 512),
                  sw_serial_num = strcpy_bytes SERIAL_NUM_LEN m (d + 768),
                  sw_dp_desc = strcpy_bytes DESC_STR_LEN m (d + 800)\<rparr>
      in if strcpy_fits DESC_STR_LEN m d \<and> strcpy_fits DESC_STR_LEN m (d + 256) \<and> strcpy_fits DESC_STR_LEN m (d + 512)
            \<and> strcpy_fits SERIAL_NUM_LEN m (d + 768) \<and> strcpy_fits DESC_STR_LEN m (d + 800)
         then ([if bytes_to_read = 1056 then Switch_info (rc_datapath_handle c) OF_RESPONSE_STATUS_SUCCESS (Some info)
                else Switch_info 0 OF_RESPONSE_STATUS_ERROR None], Returned)
         else ([], Overran))"

text \<open>The variables of the handlers that have no initial value.\<close>

record reply_garbage =
  g_group_desc :: ofi_group_desc_info
  g_group_stat :: ofi_group_stat
  g_meter_config :: ofi_meter_rec_info
  g_meter_stats :: ofi_meter_stats_info

text \<open>The channel: the number of the connection, and whether the datapath is ready.\<close>

record reply_channel =
  rp_auxiliary_id :: u32
  rp_is_dp_ready :: bool

definition multipart_handler ::
  "reply_context \<Rightarrow> reply_garbage \<Rightarrow> memory \<Rightarrow> nat \<Rightarrow> nat \<Rightarrow> u16 \<Rightarrow> u8 \<Rightarrow> reply_channel
    \<Rightarrow> (multipart_event list \<times> handler_end) \<times> reply_channel" where
  "multipart_handler c g m start p_msg_hdr ty more_data ch =
     (if ty = OFPMP_PORT_DESC then
        let (es, r) = of_handle_port_status_response c m start p_msg_hdr (rp_auxiliary_id ch) (rp_is_dp_ready ch)
        in ((map Port_descs es, Returned), ch\<lparr>rp_is_dp_ready := r\<rparr>)
      else
        (if ty = OFPMP_PORT_STATS then
           (map Port_stats (of_handle_port_stats_response c m start p_msg_hdr more_data), Returned)
         else if ty = OFPMP_TABLE then
           (map Table_stats (of_handle_table_stats_response c m start p_msg_hdr more_data), Returned)
         else if ty = OFPMP_FLOW then
           apfst (map Flow_stats) (of_handle_flow_entry_stats_response c m start p_msg_hdr more_data)
         else if ty = OFPMP_AGGREGATE then
           (map Aggregate_stats (of_handle_aggregate_stats_response c m start p_msg_hdr more_data), Returned)
         else if ty = OFPMP_GROUP_DESC then
           apfst (map Group_descs) (of_handle_group_desc_response c m start p_msg_hdr (g_group_desc g))
         else if ty = OFPMP_GROUP then
           apfst (map Group_stats) (of_handle_group_stats_response c m start p_msg_hdr more_data (g_group_stat g))
         else if ty = OFPMP_GROUP_FEATURES then
           (map Group_features (of_handle_group_features_response c m start p_msg_hdr more_data), Returned)
         else if ty = OFPMP_DESC then of_switch_info_response c m start p_msg_hdr
         else if ty = OFPMP_METER_CONFIG then
           apfst (map Meter_configs) (of_handle_meter_config_response c m start p_msg_hdr more_data (g_meter_config g))
         else if ty = OFPMP_METER then
           apfst (map Meter_stats) (of_handle_meter_stats_response c m start p_msg_hdr more_data (g_meter_stats g))
         else if ty = OFPMP_METER_FEATURES then
           (map Meter_features (of_handle_meter_features_response c m start p_msg_hdr more_data), Returned)
         else if ty = OFPMP_TABLE_FEATURES \<or> ty = OFPMP_EXPERIMENTER then ([Other_handler ty], Returned)
         else ([], Returned), ch))"

definition OFPMPF_REPLY_MORE :: u16 where "OFPMPF_REPLY_MORE = 1"

text \<open>
  The types that look at the flag.  A reply of any other type ends the transaction.
\<close>

definition has_handler :: "u16 \<Rightarrow> bool" where
  "has_handler ty \<longleftrightarrow> ty \<noteq> OFPMP_QUEUE \<and> (ty \<le> OFPMP_PORT_DESC \<or> ty = OFPMP_EXPERIMENTER)"

text \<open>
  The callbacks, the function they call, how the handler ended, and how many bytes behind the header are
  discarded, when the number is unknown.  \<open>complete\<close>: the rest of the message has been read.
\<close>

record multipart_outcome =
  mo_events :: "multipart_event list"
  mo_callback_fn :: nat
  mo_end :: handler_end
  mo_drained :: u64
  mo_channel :: reply_channel
  mo_state :: xtn_state

definition of_process_multipart_replymsg ::
  "u32 \<Rightarrow> xtn_datapath \<Rightarrow> reply_garbage \<Rightarrow> bool \<Rightarrow> memory \<Rightarrow> nat \<Rightarrow> nat \<Rightarrow> reply_channel \<Rightarrow> xtn_state
    \<Rightarrow> multipart_outcome" where
  "of_process_multipart_replymsg init datapath g complete m start p_msg_hdr ch s =
     (case cntlr_get_xtn_details init (be32_at m (p_msg_hdr + 4)) (xd_id datapath) s of
        None \<Rightarrow> \<lparr>mo_events = [], mo_callback_fn = 0, mo_end = Returned,
                 mo_drained = ucast (be16_at m (p_msg_hdr + 2)) - 8, mo_channel = ch, mo_state = s\<rparr>
      | Some p_xtn_rec \<Rightarrow>
          let r = xtn_recs s p_xtn_rec;
              ty = be16_at m (start + 8);
              more = (be16_at m (start + 10) = OFPMPF_REPLY_MORE);
              c = \<lparr>rc_domain_handle = xd_domain datapath, rc_datapath_handle = xd_handle datapath,
                   rc_app_pvt_arg1 = xr_app_pvt_arg1 r, rc_app_pvt_arg2 = xr_app_pvt_arg2 r\<rparr>;
              ((es, e), ch') = multipart_handler c g m start p_msg_hdr ty (if more then 1 else 0) ch
          in if \<not> complete
             then \<lparr>mo_events = [], mo_callback_fn = xr_callback_fn r, mo_end = Returned, mo_drained = 0,
                   mo_channel = ch, mo_state = s\<rparr>
             else \<lparr>mo_events = es, mo_callback_fn = xr_callback_fn r, mo_end = e, mo_drained = 0, mo_channel = ch',
                   mo_state = (if e \<noteq> Returned \<or> more \<and> has_handler ty then s
                               else snd (cntlr_del_xtn_with_rec p_xtn_rec s))\<rparr>)"

section \<open>Finding the record of a reply\<close>

datatype xtn_op =
    Record "nat option" bool memory nat xtn_datapath nat nat nat
  | Unrecorded
  | Remove nat

text \<open>What the layers above and the timers do with the table.\<close>

fun exec_xtn :: "u32 \<Rightarrow> xtn_op \<Rightarrow> xtn_state \<Rightarrow> (nat \<times> u32) option \<times> xtn_state" where
  "exec_xtn init (Record block timer_ok m start dp fn arg1 arg2) s =
     cntlr_record_xtn_details init block timer_ok m start dp fn arg1 arg2 s"
| "exec_xtn init Unrecorded s = (None, s\<lparr>cntlr_xtn_seq_no_g := next_xid (cntlr_xtn_seq_no_g s)\<rparr>)"
| "exec_xtn init (Remove a) s = (None, snd (cntlr_del_xtn_with_rec a s))"

definition live :: "xtn_state \<Rightarrow> nat list" where
  "live s = concat (map (\<lambda>k. MCHASH_BUCKET_SCAN (OF_TRANSACTION_TABLE_MAX_NO_OF_NODES + 1) k (cntlr_xtn_table s)) [0..<1001])"

text \<open>The pool does not give out a block that is in use.\<close>

fun xtn_valid :: "xtn_op \<Rightarrow> xtn_state \<Rightarrow> bool" where
  "xtn_valid (Record block timer_ok m start dp fn arg1 arg2) s \<longleftrightarrow> set_option block \<inter> set (live s) = {}"
| "xtn_valid _ s \<longleftrightarrow> True"

definition xtn_inv :: "xtn_state \<Rightarrow> nat list list \<Rightarrow> bool" where
  "xtn_inv s bs \<longleftrightarrow> lists_of OF_TRANSACTION_TABLE_MAX_NO_OF_NODES (cntlr_xtn_table s) bs \<and> length bs = 1001
     \<and> inj_on (\<lambda>a. xr_xid (xtn_recs s a)) (set (concat bs))
     \<and> (\<forall>a \<in> set (concat bs). xr_xid (xtn_recs s a) \<noteq> 0 \<and> xr_xid (xtn_recs s a) \<le> cntlr_xtn_seq_no_g s)"

lemma hash_bound: "OF_TRANSACTION_TABLE_HASH init xid dp < 1001"
proof -
  have "unat (w mod 5000 div 5 :: u32) < 1001" for w :: u32
    by (simp add: unat_div unat_mod)
  then show ?thesis
    by (simp add: OF_TRANSACTION_TABLE_HASH_def OF_DOBBS_WORDS3_def OF_TRANSACTION_TABLE_MAX_NO_OF_NODES_def
        split: prod.splits)
qed

lemma scan_inv:
  assumes "xtn_inv s bs" and "k < 1001"
  shows "MCHASH_BUCKET_SCAN (OF_TRANSACTION_TABLE_MAX_NO_OF_NODES + 1) k (cntlr_xtn_table s) = bs ! k"
  using assms scan_list bucket_length unfolding xtn_inv_def by (metis less_Suc_eq_le Suc_eq_plus1)

lemma live_inv: "xtn_inv s bs \<Longrightarrow> live s = concat bs"
  unfolding live_def using scan_inv by (metis (no_types, lifting) atLeastLessThan_iff map_cong map_nth set_upt xtn_inv_def)

lemma new_xtn_inv:
  assumes "\<And>x. lk_index (L x) < OF_TRANSACTION_TABLE_MAX_NO_OF_NODES"
  shows "xtn_inv (cntlr_xtn_table_init L recs) (replicate 1001 [])"
  using new_table [OF _ assms, of 1001] by (simp add: xtn_inv_def cntlr_xtn_table_init_def OF_TRANSACTION_TABLE_MAX_NO_OF_NODES_def)

lemma next_xid_step:
  assumes "n \<noteq> - 1"
  shows "next_xid n = n + 1" "n < next_xid n" "next_xid n \<noteq> 0"
proof -
  have "n + 1 \<noteq> 0" using assms by (metis add_eq_0_iff minus_minus)
  moreover from this have "unat (n + 1) = Suc (unat n)" by (metis add.commute unatSuc)
  ultimately show "next_xid n = n + 1" "n < next_xid n" "next_xid n \<noteq> 0"
    by (simp_all add: next_xid_def word_less_nat_alt)
qed

text \<open>A step of the table on the side: what becomes of the lists, the numbers and the other records.\<close>

lemma record_step:
  assumes inv: "xtn_inv s bs" and a: "a \<notin> set (concat bs)" and n: "cntlr_xtn_seq_no_g s \<noteq> - 1"
    and e: "cntlr_record_xtn_details init (Some a) timer_ok m start dp fn arg1 arg2 s = (r, s')"
  obtains bs' where "xtn_inv s' bs'" and "cntlr_xtn_seq_no_g s' = cntlr_xtn_seq_no_g s + 1"
    and "\<forall>b. b \<noteq> a \<longrightarrow> xtn_recs s' b = xtn_recs s b" and "xr_xid (xtn_recs s' a) = cntlr_xtn_seq_no_g s'"
    and "r \<noteq> None \<longrightarrow> xr_callback_fn (xtn_recs s' a) = fn \<and> xr_app_pvt_arg1 (xtn_recs s' a) = arg1
          \<and> xr_app_pvt_arg2 (xtn_recs s' a) = arg2"
    and "if r = None then bs' = bs
         else bs' = bs[OF_TRANSACTION_TABLE_HASH init (cntlr_xtn_seq_no_g s') (xd_id dp) :=
                bs ! OF_TRANSACTION_TABLE_HASH init (cntlr_xtn_seq_no_g s') (xd_id dp) @ [a]]"
proof -
  let ?x = "cntlr_xtn_seq_no_g s + 1" and ?k = "OF_TRANSACTION_TABLE_HASH init (cntlr_xtn_seq_no_g s + 1) (xd_id dp)"
  have x: "next_xid (cntlr_xtn_seq_no_g s) = ?x" "cntlr_xtn_seq_no_g s < ?x" "?x \<noteq> 0"
    using next_xid_step [OF n] by simp_all
  have k: "?k < length bs" using hash_bound inv by (simp add: xtn_inv_def)
  obtain q t where t: "MCHASH_APPEND_NODE ?k a (cntlr_xtn_table s) = (q, t)" by fastforce
  have "op_valid (Append ?k a) bs" using a k by simp
  from exec_refines [OF conjunct1 [OF inv [unfolded xtn_inv_def]] this]
  have l: "(q \<noteq> None) = fst (list_exec OF_TRANSACTION_TABLE_MAX_NO_OF_NODES (Append ?k a) bs)"
    "lists_of OF_TRANSACTION_TABLE_MAX_NO_OF_NODES t (snd (list_exec OF_TRANSACTION_TABLE_MAX_NO_OF_NODES (Append ?k a) bs))"
    by (simp_all add: t)
  have old: "\<forall>b \<in> set (concat bs). xr_xid (xtn_recs s b) \<noteq> 0 \<and> xr_xid (xtn_recs s b) < ?x"
    using inv x(2) by (auto simp: xtn_inv_def intro: le_less_trans)
  let ?bs = "if r = None then bs else bs[?k := bs ! ?k @ [a]]"
  have sets: "set (concat ?bs) \<subseteq> insert a (set (concat bs))"
    using set_concat_insert [of ?k bs "bs ! ?k" "[]" a] k by auto
  have s': "cntlr_xtn_seq_no_g s' = ?x" "\<forall>b. b \<noteq> a \<longrightarrow> xtn_recs s' b = xtn_recs s b" "xr_xid (xtn_recs s' a) = ?x"
    "r \<noteq> None \<longrightarrow> xr_callback_fn (xtn_recs s' a) = fn \<and> xr_app_pvt_arg1 (xtn_recs s' a) = arg1
      \<and> xr_app_pvt_arg2 (xtn_recs s' a) = arg2"
    and r: "timer_ok \<and> r = q \<and> cntlr_xtn_table s' = t \<or> \<not> timer_ok \<and> r = None \<and> cntlr_xtn_table s' = cntlr_xtn_table s"
    using e t by (auto simp: cntlr_record_xtn_details_def x(1) Let_def split: if_splits option.splits)
  have lists: "lists_of OF_TRANSACTION_TABLE_MAX_NO_OF_NODES (cntlr_xtn_table s') ?bs"
    using r l inv by (auto simp: xtn_inv_def list_add_def split: if_splits)
  have kept: "xtn_recs s' b = xtn_recs s b" if "b \<in> set (concat bs)" for b
    using that a s'(2) by metis
  have "inj_on (\<lambda>b. xr_xid (xtn_recs s' b)) (set (concat bs))"
    using inv inj_on_cong [of "set (concat bs)" "\<lambda>b. xr_xid (xtn_recs s' b)" "\<lambda>b. xr_xid (xtn_recs s b)"] kept
    by (simp add: xtn_inv_def del: set_concat)
  moreover have "?x \<notin> (\<lambda>b. xr_xid (xtn_recs s' b)) ` set (concat bs)"
    using old kept by (force simp del: set_concat)
  ultimately have "inj_on (\<lambda>b. xr_xid (xtn_recs s' b)) (insert a (set (concat bs)))"
    using s'(3) a by (simp add: inj_on_insert del: set_concat)
  moreover have "\<forall>b \<in> insert a (set (concat bs)). xr_xid (xtn_recs s' b) \<noteq> 0 \<and> xr_xid (xtn_recs s' b) \<le> ?x"
  proof
    fix b assume "b \<in> insert a (set (concat bs))"
    then consider "b = a" | "b \<in> set (concat bs)" by blast
    then show "xr_xid (xtn_recs s' b) \<noteq> 0 \<and> xr_xid (xtn_recs s' b) \<le> ?x"
    proof cases
      case 2
      then show ?thesis using old kept [OF 2] less_imp_le by metis
    qed (use s'(3) x(3) in simp)
  qed
  moreover have "length ?bs = 1001" using inv by (simp add: xtn_inv_def)
  moreover note lists
  ultimately have "xtn_inv s' ?bs"
    using subsetD [OF sets] inj_on_subset [OF _ sets, of "\<lambda>b. xr_xid (xtn_recs s' b)"] s'(1)
    unfolding xtn_inv_def by (metis (no_types, lifting))
  then show thesis using that [of ?bs] s' by simp
qed

lemma remove_step:
  assumes "xtn_inv s bs"
  shows "xtn_inv (snd (cntlr_del_xtn_with_rec a s)) (map (removeAll a) bs)"
    and "xtn_recs (snd (cntlr_del_xtn_with_rec a s)) = xtn_recs s"
    and "cntlr_xtn_seq_no_g (snd (cntlr_del_xtn_with_rec a s)) = cntlr_xtn_seq_no_g s"
proof -
  have "lists_of OF_TRANSACTION_TABLE_MAX_NO_OF_NODES (snd (MCHASH_DELETE_NODE a (cntlr_xtn_table s))) (map (removeAll a) bs)"
    using exec_refines [of OF_TRANSACTION_TABLE_MAX_NO_OF_NODES "cntlr_xtn_table s" bs "Delete a"] assms by (simp add: xtn_inv_def)
  moreover have "set (concat (map (removeAll a) bs)) \<subseteq> set (concat bs)" by auto
  ultimately show "xtn_inv (snd (cntlr_del_xtn_with_rec a s)) (map (removeAll a) bs)"
    using assms inj_on_subset [of "\<lambda>a. xr_xid (xtn_recs s a)" "set (concat bs)" "set (concat (map (removeAll a) bs))"]
    unfolding xtn_inv_def cntlr_del_xtn_with_rec_def by (simp add: Let_def split_beta subset_iff del: set_concat)
qed (simp_all add: cntlr_del_xtn_with_rec_def Let_def split_beta)

lemma find_unique: "a \<in> set xs \<Longrightarrow> P a \<Longrightarrow> (\<And>b. b \<in> set xs \<Longrightarrow> P b \<Longrightarrow> b = a) \<Longrightarrow> find P xs = Some a"
proof (induction xs)
  case (Cons x xs)
  show ?case
  proof (cases "P x")
    case True
    then have "x = a" using Cons.prems(3) by (meson list.set_intros(1))
    then show ?thesis using Cons.prems(2) by simp
  next
    case False
    then have "find P xs = Some a"
      using Cons.prems(1,2) by (intro Cons.IH Cons.prems(3)) auto
    then show ?thesis using False by simp
  qed
qed simp

lemma get_inv:
  assumes "xtn_inv s bs"
  shows "a \<in> set (bs ! OF_TRANSACTION_TABLE_HASH init x dp) \<Longrightarrow> xr_xid (xtn_recs s a) = x \<Longrightarrow>
      cntlr_get_xtn_details init x dp s = Some a"
    and "\<forall>b \<in> set (concat bs). xr_xid (xtn_recs s b) \<noteq> x \<Longrightarrow> cntlr_get_xtn_details init x dp s = None"
proof -
  let ?k = "OF_TRANSACTION_TABLE_HASH init x dp"
  have k: "?k < 1001" by (rule hash_bound)
  then have sub: "set (bs ! ?k) \<subseteq> set (concat bs)" using assms unfolding set_concat_nth by (auto simp: xtn_inv_def)
  note g = cntlr_get_xtn_details_def [of init x dp s, unfolded scan_inv [OF assms k]]
  show "cntlr_get_xtn_details init x dp s = Some a"
    if "a \<in> set (bs ! ?k)" "xr_xid (xtn_recs s a) = x"
    unfolding g using that sub assms by (intro find_unique) (auto simp: xtn_inv_def dest!: inj_onD)
  show "cntlr_get_xtn_details init x dp s = None" if "\<forall>b \<in> set (concat bs). xr_xid (xtn_recs s b) \<noteq> x"
    unfolding g using that sub by (auto simp: find_None_iff)
qed

text \<open>A record that is followed through a run: in its bucket, or gone, and its number is not used again.\<close>

definition followed :: "nat \<Rightarrow> u32 \<Rightarrow> nat \<Rightarrow> cntlr_transactn_rec \<Rightarrow> bool \<Rightarrow> xtn_state \<Rightarrow> nat list list \<Rightarrow> bool" where
  "followed a x k rc alive s bs \<longleftrightarrow> xtn_inv s bs \<and> k < 1001 \<and> xr_xid rc = x \<and> x \<le> cntlr_xtn_seq_no_g s
     \<and> (if alive then a \<in> set (bs ! k) \<and> xtn_recs s a = rc
        else \<forall>b \<in> set (concat bs). xr_xid (xtn_recs s b) \<noteq> x)"

lemma in_bucket: "xtn_inv s bs \<Longrightarrow> k < 1001 \<Longrightarrow> a \<in> set (bs ! k) \<Longrightarrow> a \<in> set (concat bs)"
  unfolding set_concat_nth by (auto simp: xtn_inv_def)

lemma followed_record:
  assumes f: "followed a x k rc alive s bs" and b: "b \<notin> set (concat bs)" and n: "cntlr_xtn_seq_no_g s \<noteq> - 1"
    and e: "cntlr_record_xtn_details init (Some b) timer_ok m start dp fn arg1 arg2 s = (r, s')"
  shows "\<exists>bs'. followed a x k rc alive s' bs' \<and> cntlr_xtn_seq_no_g s' = cntlr_xtn_seq_no_g s + 1"
proof -
  have inv: "xtn_inv s bs" and k: "k < 1001" and x: "xr_xid rc = x" "x \<le> cntlr_xtn_seq_no_g s"
    using f by (simp_all add: followed_def)
  obtain bs' j where s': "xtn_inv s' bs'" "cntlr_xtn_seq_no_g s' = cntlr_xtn_seq_no_g s + 1"
    "\<forall>c. c \<noteq> b \<longrightarrow> xtn_recs s' c = xtn_recs s c" "xr_xid (xtn_recs s' b) = cntlr_xtn_seq_no_g s'"
    and bs': "bs' = bs \<or> bs' = bs[j := bs ! j @ [b]]"
    using record_step [OF inv b n e] by metis
  have lt: "cntlr_xtn_seq_no_g s < cntlr_xtn_seq_no_g s'" using next_xid_step [OF n] s'(2) by simp
  then have x': "x < cntlr_xtn_seq_no_g s'" using x(2) by simp
  have sub: "set (concat bs') \<subseteq> insert b (set (concat bs))"
    using bs' set_concat_insert [of j bs "bs ! j" "[]" b] by (cases "j < length bs") (auto simp: list_update_beyond)
  have "a \<in> set (bs ! k) \<longrightarrow> a \<noteq> b" using b in_bucket [OF inv k] by blast
  then have "a \<in> set (bs ! k) \<longrightarrow> a \<in> set (bs' ! k) \<and> a \<noteq> b"
    using bs' k inv by (cases "j = k") (auto simp: xtn_inv_def)
  moreover have "xr_xid (xtn_recs s' c) \<noteq> x"
    if "\<forall>c \<in> set (concat bs). xr_xid (xtn_recs s c) \<noteq> x" "c \<in> set (concat bs')" for c
  proof (cases "c = b")
    case False
    then have "c \<in> set (concat bs)" using that(2) sub by blast
    then show ?thesis using that(1) s'(3) False by metis
  qed (use s'(4) x' in simp)
  ultimately have "followed a x k rc alive s' bs'"
    using f s' x' unfolding followed_def by (auto split: if_splits simp del: set_concat)
  then show ?thesis using s'(2) by blast
qed

lemma followed_remove:
  assumes f: "followed a x k rc alive s bs"
  shows "\<exists>bs'. followed a x k rc (alive \<and> b \<noteq> a) (snd (cntlr_del_xtn_with_rec b s)) bs'"
proof -
  let ?bs = "map (removeAll b) bs"
  have inv: "xtn_inv s bs" and k: "k < length bs" using f by (simp_all add: followed_def xtn_inv_def)
  note r = remove_step [OF inv, of b]
  have "\<forall>c \<in> set (concat ?bs). xr_xid (xtn_recs s c) \<noteq> x" if "alive" "b = a"
  proof
    fix c assume c: "c \<in> set (concat ?bs)"
    have "a \<in> set (concat bs)" "xr_xid (xtn_recs s a) = x" using f that in_bucket by (auto simp: followed_def)
    moreover have "c \<in> set (concat bs)" "c \<noteq> a" using c that by auto
    ultimately show "xr_xid (xtn_recs s c) \<noteq> x" using inv inj_onD unfolding xtn_inv_def by metis
  qed
  moreover have "\<forall>c \<in> set (concat ?bs). xr_xid (xtn_recs s c) \<noteq> x" if "\<not> alive"
    using that f by (auto simp: followed_def)
  ultimately have "followed a x k rc (alive \<and> b \<noteq> a) (snd (cntlr_del_xtn_with_rec b s)) ?bs"
    using f k r unfolding followed_def by (auto simp del: set_concat)
  then show ?thesis by blast
qed

lemma followed_op:
  assumes f: "followed a x k rc alive s bs" and v: "xtn_valid op s" and n: "unat (cntlr_xtn_seq_no_g s) + 1 < 2 ^ 32"
  shows "\<exists>bs'. followed a x k rc (alive \<and> op \<noteq> Remove a) (snd (exec_xtn init op s)) bs'
    \<and> unat (cntlr_xtn_seq_no_g (snd (exec_xtn init op s))) \<le> unat (cntlr_xtn_seq_no_g s) + 1"
proof -
  have n1: "cntlr_xtn_seq_no_g s \<noteq> - 1" using n unat_u32_max by auto
  have inv: "xtn_inv s bs" using f by (simp add: followed_def)
  show ?thesis
  proof (cases op)
    case (Record block timer_ok m start dp fn arg1 arg2)
    show ?thesis
    proof (cases block)
      case None
      then show ?thesis using f Record by (auto simp: cntlr_record_xtn_details_def)
    next
      case (Some b)
      then have "b \<notin> set (concat bs)" using v Record live_inv [OF inv] by (simp del: set_concat)
      from followed_record [OF f this n1, of init timer_ok m start dp fn arg1 arg2]
      show ?thesis using Record Some by (cases "exec_xtn init op s") (auto simp: unat_word_ariths)
    qed
  next
    case Unrecorded
    then have "snd (exec_xtn init op s) = s\<lparr>cntlr_xtn_seq_no_g := cntlr_xtn_seq_no_g s + 1\<rparr>"
      using next_xid_step(1) [OF n1] by simp
    moreover have "cntlr_xtn_seq_no_g s < cntlr_xtn_seq_no_g s + 1" using next_xid_step [OF n1] by simp
    then have "followed a x k rc alive (s\<lparr>cntlr_xtn_seq_no_g := cntlr_xtn_seq_no_g s + 1\<rparr>) bs"
      using f by (auto simp: followed_def xtn_inv_def intro: order.trans [OF _ less_imp_le] simp del: set_concat)
    ultimately show ?thesis using Unrecorded by (auto simp: unat_word_ariths)
  next
    case (Remove b)
    then show ?thesis using followed_remove [OF f, of b] remove_step(3) [OF inv, of b] by auto
  qed
qed

lemma followed_run:
  assumes "followed a x k rc alive s bs" and "run_ok (exec_xtn init) xtn_valid ops s"
    and "unat (cntlr_xtn_seq_no_g s) + length ops < 2 ^ 32"
  shows "\<exists>bs'. followed a x k rc (alive \<and> Remove a \<notin> set ops) (snd (run (exec_xtn init) ops s)) bs'
    \<and> unat (cntlr_xtn_seq_no_g (snd (run (exec_xtn init) ops s))) \<le> unat (cntlr_xtn_seq_no_g s) + length ops"
  using assms
proof (induction ops arbitrary: alive s bs)
  case Nil
  then show ?case by auto
next
  case (Cons op ops)
  obtain bs1 where f1: "followed a x k rc (alive \<and> op \<noteq> Remove a) (snd (exec_xtn init op s)) bs1"
    "unat (cntlr_xtn_seq_no_g (snd (exec_xtn init op s))) \<le> unat (cntlr_xtn_seq_no_g s) + 1"
    using followed_op [OF Cons.prems(1), of op init] Cons.prems(2,3) by auto
  then have "\<exists>bs'. followed a x k rc ((alive \<and> op \<noteq> Remove a) \<and> Remove a \<notin> set ops)
      (snd (run (exec_xtn init) ops (snd (exec_xtn init op s)))) bs'
    \<and> unat (cntlr_xtn_seq_no_g (snd (run (exec_xtn init) ops (snd (exec_xtn init op s)))))
      \<le> unat (cntlr_xtn_seq_no_g (snd (exec_xtn init op s))) + length ops"
    using Cons.prems(2,3) by (intro Cons.IH [OF f1(1)]) auto
  then obtain bs' where "followed a x k rc ((alive \<and> op \<noteq> Remove a) \<and> Remove a \<notin> set ops)
      (snd (run (exec_xtn init) ops (snd (exec_xtn init op s)))) bs'"
    "unat (cntlr_xtn_seq_no_g (snd (run (exec_xtn init) ops (snd (exec_xtn init op s)))))
      \<le> unat (cntlr_xtn_seq_no_g (snd (exec_xtn init op s))) + length ops" by blast
  moreover have "snd (run (exec_xtn init) (op # ops) s) = snd (run (exec_xtn init) ops (snd (exec_xtn init op s)))"
    by (simp add: Let_def split_beta)
  moreover have "((alive \<and> op \<noteq> Remove a) \<and> Remove a \<notin> set ops) = (alive \<and> Remove a \<notin> set (op # ops))"
    by auto
  ultimately show ?case using f1(2) by (intro exI [of _ bs']) simp
qed

lemma recorded_followed:
  assumes L: "\<And>y. lk_index (L y) < OF_TRANSACTION_TABLE_MAX_NO_OF_NODES"
    and ok: "run_ok (exec_xtn init) xtn_valid (ops @ Record (Some a) timer_ok m start dp fn arg1 arg2 # ops')
      (cntlr_xtn_table_init L recs)"
    and r1: "run (exec_xtn init) (ops @ [Record (Some a) timer_ok m start dp fn arg1 arg2]) (cntlr_xtn_table_init L recs)
      = (rs, s1)" and some: "last rs \<noteq> None"
    and r2: "snd (run (exec_xtn init) ops' s1) = s" and n: "length ops + length ops' < 2 ^ 32 - 2"
  obtains bs rc where "followed a (cntlr_xtn_seq_no_g s1) (OF_TRANSACTION_TABLE_HASH init (cntlr_xtn_seq_no_g s1) (xd_id dp))
      rc (Remove a \<notin> set ops') s bs"
    and "xr_callback_fn rc = fn" "xr_app_pvt_arg1 rc = arg1" "xr_app_pvt_arg2 rc = arg2" "xr_msg_type rc = m (start + 1)"
    and "xr_msg_subtype rc = (if m (start + 1) = OFPT_MULTIPART_REQUEST then raw16_at m (start + 8) else 0)"
proof -
  let ?op = "Record (Some a) timer_ok m start dp fn arg1 arg2" and ?fresh = "cntlr_xtn_table_init L recs"
  let ?x = "cntlr_xtn_seq_no_g s1" and ?k = "OF_TRANSACTION_TABLE_HASH init (cntlr_xtn_seq_no_g s1) (xd_id dp)"
  let ?s = "snd (run (exec_xtn init) ops ?fresh)"
  have new: "followed a 0 0 \<lparr>xr_xid = 0, xr_dp_handle = 0, xr_msg_type = 0, xr_msg_subtype = 0, xr_callback_fn = 0,
      xr_app_pvt_arg1 = 0, xr_app_pvt_arg2 = 0, rec_safe_ref = (0, 0)\<rparr> False ?fresh (replicate 1001 [])"
    using new_xtn_inv [of L recs, OF L] by (simp add: followed_def)
  have v: "run_ok (exec_xtn init) xtn_valid ops ?fresh" "xtn_valid ?op ?s" "run_ok (exec_xtn init) xtn_valid ops' (snd (exec_xtn init ?op ?s))"
    using ok by (simp_all add: run_ok_append)
  have s1: "snd (exec_xtn init ?op ?s) = s1" "fst (exec_xtn init ?op ?s) \<noteq> None"
    using r1 some by (auto simp: run_append Let_def split_beta)
  have n0: "unat (cntlr_xtn_seq_no_g ?fresh) = 0" by (simp add: cntlr_xtn_table_init_def)
  obtain bs where bs: "xtn_inv ?s bs" "unat (cntlr_xtn_seq_no_g ?s) \<le> length ops"
    using followed_run [OF new v(1)] n0 n by (auto simp: followed_def)
  then have nn: "cntlr_xtn_seq_no_g ?s \<noteq> - 1" using n unat_u32_max by auto
  have "a \<notin> set (concat bs)" using v(2) live_inv [OF bs(1)] by (simp del: set_concat)
  moreover obtain r where e: "cntlr_record_xtn_details init (Some a) timer_ok m start dp fn arg1 arg2 ?s = (Some r, s1)"
    using s1 by (cases "exec_xtn init ?op ?s") auto
  ultimately obtain bs1 where bs1: "xtn_inv s1 bs1" "?x = cntlr_xtn_seq_no_g ?s + 1" "xr_xid (xtn_recs s1 a) = ?x"
    "xr_callback_fn (xtn_recs s1 a) = fn" "xr_app_pvt_arg1 (xtn_recs s1 a) = arg1" "xr_app_pvt_arg2 (xtn_recs s1 a) = arg2"
    "bs1 = bs[?k := bs ! ?k @ [a]]"
    using record_step [OF bs(1) _ nn e] by (metis option.distinct(1))
  have ty: "xr_msg_type (xtn_recs s1 a) = m (start + 1)"
    "xr_msg_subtype (xtn_recs s1 a) = (if m (start + 1) = OFPT_MULTIPART_REQUEST then raw16_at m (start + 8) else 0)"
    using e by (auto simp: cntlr_record_xtn_details_def Let_def split: if_splits prod.splits option.splits)
  have k: "?k < 1001" by (rule hash_bound)
  then have "a \<in> set (bs1 ! ?k)" using bs1(7) bs(1) by (simp add: xtn_inv_def)
  then have f: "followed a ?x ?k (xtn_recs s1 a) True s1 bs1" using bs1(1,3) k by (simp add: followed_def)
  have "unat ?x = unat (cntlr_xtn_seq_no_g ?s) + 1" using next_xid_step [OF nn] bs1(2)
    by (metis Suc_eq_plus1 add.commute next_xid_def unatSuc)
  then obtain bs2 where "followed a ?x ?k (xtn_recs s1 a) (Remove a \<notin> set ops') s bs2"
    using followed_run [OF f, of init ops'] v(3) s1(1) r2 n bs(2) by auto
  then show thesis using that [of "xtn_recs s1 a" bs2] bs1(4-6) ty by simp
qed

lemma followed_get:
  assumes "followed a x (OF_TRANSACTION_TABLE_HASH init x dp) rc alive s bs"
  shows "cntlr_get_xtn_details init x dp s = (if alive then Some a else None)"
  using get_inv [of s bs] assms by (cases alive) (simp_all add: followed_def del: set_concat)

text \<open>
  C24: From an empty table on, and while numbers are not used again: a recorded request
  is found under the number stamped on its message, with the function and arguments it was recorded
  with, until its record is deleted, and never again afterwards, whatever else is recorded and deleted.
\<close>

theorem request_found:
  assumes "\<And>y. lk_index (L y) < OF_TRANSACTION_TABLE_MAX_NO_OF_NODES"
    and "run_ok (exec_xtn init) xtn_valid (ops @ Record (Some a) timer_ok m start dp fn arg1 arg2 # ops')
      (cntlr_xtn_table_init L recs)"
    and "run (exec_xtn init) (ops @ [Record (Some a) timer_ok m start dp fn arg1 arg2]) (cntlr_xtn_table_init L recs)
      = (rs, s1)" and "last rs \<noteq> None"
    and "snd (run (exec_xtn init) ops' s1) = s" and "length ops + length ops' < 2 ^ 32 - 2"
  shows "cntlr_get_xtn_details init (cntlr_xtn_seq_no_g s1) (xd_id dp) s = (if Remove a \<in> set ops' then None else Some a)
    \<and> (Remove a \<notin> set ops' \<longrightarrow> xr_callback_fn (xtn_recs s a) = fn \<and> xr_app_pvt_arg1 (xtn_recs s a) = arg1
         \<and> xr_app_pvt_arg2 (xtn_recs s a) = arg2)"
proof -
  obtain bs rc where f: "followed a (cntlr_xtn_seq_no_g s1)
      (OF_TRANSACTION_TABLE_HASH init (cntlr_xtn_seq_no_g s1) (xd_id dp)) rc (Remove a \<notin> set ops') s bs"
    and rc: "xr_callback_fn rc = fn" "xr_app_pvt_arg1 rc = arg1" "xr_app_pvt_arg2 rc = arg2"
    using recorded_followed [OF assms] by metis
  show ?thesis using followed_get [OF f] f rc by (auto simp: followed_def simp del: set_concat)
qed

lemma record_ok:
  assumes inv: "xtn_inv s bs" and a: "a \<notin> set (concat bs)"
    and room: "sum_list (map length bs) < OF_TRANSACTION_TABLE_MAX_NO_OF_NODES"
  shows "fst (cntlr_record_xtn_details init (Some a) True m start dp fn arg1 arg2 s) \<noteq> None"
proof -
  let ?k = "OF_TRANSACTION_TABLE_HASH init (next_xid (cntlr_xtn_seq_no_g s)) (xd_id dp)"
  have "op_valid (Append ?k a) bs" using a hash_bound inv by (simp add: xtn_inv_def)
  from exec_refines [OF conjunct1 [OF inv [unfolded xtn_inv_def]] this]
  have "fst (MCHASH_APPEND_NODE ?k a (cntlr_xtn_table s)) \<noteq> None" using room by (simp add: list_add_def)
  then show ?thesis by (auto simp: cntlr_record_xtn_details_def Let_def split: prod.splits option.splits)
qed

text \<open>The situation of the witnesses: the first request is recorded at 5.\<close>

definition sample_datapath :: xtn_datapath where
  "sample_datapath = \<lparr>xd_handle = 2, xd_domain = 1, xd_id = (0, 1)\<rparr>"

abbreviation sample_record :: "memory \<Rightarrow> xtn_op" where
  "sample_record m \<equiv> Record (Some 5) True m 0 sample_datapath 11 12 13"

abbreviation blank_recs :: "nat \<Rightarrow> cntlr_transactn_rec" where
  "blank_recs \<equiv> \<lambda>_. \<lparr>xr_xid = 0, xr_dp_handle = 0, xr_msg_type = 0, xr_msg_subtype = 0, xr_callback_fn = 0,
     xr_app_pvt_arg1 = 0, xr_app_pvt_arg2 = 0, rec_safe_ref = (0, 0)\<rparr>"

definition sample_request :: "memory \<Rightarrow> xtn_state" where
  "sample_request m = snd (exec_xtn 7 (sample_record m) (cntlr_xtn_table_init blank_links blank_recs))"

lemma sample_request:
  "run_ok (exec_xtn 7) xtn_valid ([] @ sample_record m # ops) (cntlr_xtn_table_init blank_links blank_recs)
    \<longleftrightarrow> run_ok (exec_xtn 7) xtn_valid ops (sample_request m)"
  "\<exists>rs. run (exec_xtn 7) ([] @ [sample_record m]) (cntlr_xtn_table_init blank_links blank_recs) = (rs, sample_request m)
    \<and> last rs \<noteq> None"
  "cntlr_xtn_seq_no_g (sample_request m) = 1"
proof -
  have inv: "xtn_inv (cntlr_xtn_table_init blank_links blank_recs) (replicate 1001 [])"
    by (rule new_xtn_inv) (simp add: OF_TRANSACTION_TABLE_MAX_NO_OF_NODES_def)
  have nodes: "set (concat (replicate 1001 ([] :: nat list))) = {}" "sum_list (map length (replicate 1001 ([] :: nat list))) = 0"
    by (simp_all add: sum_list_triv map_replicate)
  have zero: "cntlr_xtn_seq_no_g (cntlr_xtn_table_init blank_links blank_recs) = 0"
    by (simp add: cntlr_xtn_table_init_def)
  show "run_ok (exec_xtn 7) xtn_valid ([] @ sample_record m # ops) (cntlr_xtn_table_init blank_links blank_recs)
    \<longleftrightarrow> run_ok (exec_xtn 7) xtn_valid ops (sample_request m)"
    using nodes(1) live_inv [OF inv] by (simp add: sample_request_def del: set_concat exec_xtn.simps)
  have "fst (exec_xtn 7 (sample_record m) (cntlr_xtn_table_init blank_links blank_recs)) \<noteq> None"
    unfolding exec_xtn.simps
    by (rule record_ok [OF inv]) (simp_all only: nodes OF_TRANSACTION_TABLE_MAX_NO_OF_NODES_def, simp_all)
  then show "\<exists>rs. run (exec_xtn 7) ([] @ [sample_record m]) (cntlr_xtn_table_init blank_links blank_recs) = (rs, sample_request m)
    \<and> last rs \<noteq> None"
    by (simp add: sample_request_def Let_def split_beta del: exec_xtn.simps)
  show "cntlr_xtn_seq_no_g (sample_request m) = 1"
    by (cases "exec_xtn 7 (sample_record m) (cntlr_xtn_table_init blank_links blank_recs)")
      (rule record_step [OF inv, of 5], use nodes zero in \<open>auto simp: sample_request_def simp del: set_concat\<close>)
qed

lemma request_found_witness:
  "cntlr_get_xtn_details 7 1 (0, 1) (snd (run (exec_xtn 7) [Unrecorded] (sample_request (\<lambda>_. 0)))) = Some 5"
proof -
  obtain rs where r: "run (exec_xtn 7) ([] @ [sample_record (\<lambda>_. 0)]) (cntlr_xtn_table_init blank_links blank_recs)
      = (rs, sample_request (\<lambda>_. 0))" "last rs \<noteq> None"
    using sample_request(2) by blast
  have "run_ok (exec_xtn 7) xtn_valid ([] @ sample_record (\<lambda>_. 0) # [Unrecorded]) (cntlr_xtn_table_init blank_links blank_recs)"
    by (subst sample_request(1)) simp
  from request_found [OF _ this r refl] show ?thesis
    by (simp add: sample_request(3) OF_TRANSACTION_TABLE_MAX_NO_OF_NODES_def) (simp add: sample_datapath_def)
qed

lemma be16_of_be: "be16 (of_be [x, y] :: u16) = [x, y]"
  by (simp add: be16_def of_be_def bit_simps bit_eq_iff) (auto dest: bit_imp_le_length)

lemma raw16_swapped: "raw16_at m a = of_be (rev (be16 (be16_at m a)))"
  by (simp add: raw16_at_def be16_at_def read_bytes_def upt_rec be16_of_be)

lemma type_swapped:
  assumes "w \<le> OFPMP_PORT_DESC \<or> w = OFPMP_EXPERIMENTER"
  shows "of_be (rev (be16 w)) \<in> (if w = OFPMP_DESC then {OFPMP_DESC} else {n. OFPMP_PORT_DESC < n})"
proof -
  have all: "\<forall>n \<in> set [0..<14]. (of_be (rev (be16 (of_nat n))) :: u16)
      \<in> (if of_nat n = OFPMP_DESC then {OFPMP_DESC} else {n. OFPMP_PORT_DESC < n})"
    by (simp add: upt_rec OFPMP_defs be16_def of_be_def)
  have "?thesis" if "w \<le> 13"
  proof -
    have "unat w \<in> set [0..<14]" using that by (simp add: word_le_nat_alt)
    from bspec [OF all this] show ?thesis by (simp only: of_nat_unat ucast_id)
  qed
  then show ?thesis using assms by (auto simp: OFPMP_defs be16_def of_be_def)
qed

text \<open>
  C40: When a recorded multipart request is not answered in time, the application is
  told so only if the request asked for the description of the switch: the type of a request is kept in
  network byte order and compared with the constants of the host, so the requests of every other type
  of the protocol are dropped without a callback.
\<close>

theorem timeout_reports:
  assumes "\<And>y. lk_index (L y) < OF_TRANSACTION_TABLE_MAX_NO_OF_NODES"
    and "run_ok (exec_xtn init) xtn_valid (ops @ Record (Some a) timer_ok m start dp fn arg1 arg2 # ops')
      (cntlr_xtn_table_init L recs)"
    and "run (exec_xtn init) (ops @ [Record (Some a) timer_ok m start dp fn arg1 arg2]) (cntlr_xtn_table_init L recs)
      = (rs, s1)" and "last rs \<noteq> None"
    and "snd (run (exec_xtn init) ops' s1) = s" and "length ops + length ops' < 2 ^ 32 - 2"
    and "Remove a \<notin> set ops'" and "m (start + 1) = OFPT_MULTIPART_REQUEST"
    and "be16_at m (start + 8) \<le> OFPMP_PORT_DESC \<or> be16_at m (start + 8) = OFPMP_EXPERIMENTER"
  shows "fst (cntlr_xtn_recrod_cleanup_func a s)
    = (if be16_at m (start + 8) = OFPMP_DESC then Some (Failure_cbk OFPMP_DESC fn 0) else None)"
proof -
  obtain bs rc where f: "followed a (cntlr_xtn_seq_no_g s1)
      (OF_TRANSACTION_TABLE_HASH init (cntlr_xtn_seq_no_g s1) (xd_id dp)) rc (Remove a \<notin> set ops') s bs"
    and rc: "xr_callback_fn rc = fn" "xr_msg_type rc = m (start + 1)"
      "xr_msg_subtype rc = (if m (start + 1) = OFPT_MULTIPART_REQUEST then raw16_at m (start + 8) else 0)"
    using recorded_followed [OF assms(1-6)] by metis
  have a: "xtn_recs s a = rc" using f assms(7) by (simp add: followed_def)
  show ?thesis
    using type_swapped [OF assms(9)] rc assms(8)
    by (auto simp: cntlr_xtn_recrod_cleanup_func_def clean_multipart_req_msgs_def a Let_def raw16_swapped OFPMP_defs
        split: if_splits)
qed

lemma timeout_reports_witness:
  "fst (cntlr_xtn_recrod_cleanup_func 5 (sample_request ((\<lambda>_. 0)(1 := 18, 9 := 1)))) = None"
proof -
  let ?m = "(\<lambda>_. 0)(1 := 18, 9 := 1) :: memory"
  obtain rs where r: "run (exec_xtn 7) ([] @ [sample_record ?m]) (cntlr_xtn_table_init blank_links blank_recs)
      = (rs, sample_request ?m)" "last rs \<noteq> None"
    using sample_request(2) by blast
  have v: "run_ok (exec_xtn 7) xtn_valid ([] @ sample_record ?m # []) (cntlr_xtn_table_init blank_links blank_recs)"
    by (subst sample_request(1)) simp
  have ty: "be16_at ?m (0 + 8) = 1" by (simp add: be16_at_def of_be_def read_bytes_def upt_rec)
  have "fst (cntlr_xtn_recrod_cleanup_func 5 (sample_request ?m))
    = (if be16_at ?m (0 + 8) = OFPMP_DESC then Some (Failure_cbk OFPMP_DESC 11 0) else None)"
    by (rule timeout_reports [OF _ v r, of "sample_request ?m"])
      (simp_all only: ty, simp_all add: OFPMP_defs OFPT_MULTIPART_REQUEST_def OF_TRANSACTION_TABLE_MAX_NO_OF_NODES_def)
  then show ?thesis by (simp only: ty) (simp add: OFPMP_defs)
qed

section \<open>Replies of other datapaths\<close>

lemma bucket_unique:
  assumes "xtn_inv s bs" and "j < 1001" "k < 1001" and "a \<in> set (bs ! j)" "a \<in> set (bs ! k)"
  shows "j = k"
proof -
  obtain fq where "table_ok (cntlr_xtn_table s) bs fq" using assms(1) by (auto simp: xtn_inv_def lists_of_def)
  from table_okD(3) [OF this, of j a] table_okD(3) [OF this, of k a] show ?thesis
    using assms by (simp add: xtn_inv_def)
qed

text \<open>Two identifiers with the same hash value for the number 1.\<close>

lemma let_value: "v = n \<Longrightarrow> f n = r \<Longrightarrow> Let v f = r"
  by simp

lemma hash_value:
  "OF_DOBBS_MIX (0x9e3779b9 + x, 0x9e3779b9 + d1, init + d2) = (a, b, c) \<Longrightarrow>
    OF_TRANSACTION_TABLE_HASH init x (d1, d2) = unat (c mod 5000 div 5)"
  by (simp add: OF_TRANSACTION_TABLE_HASH_def OF_DOBBS_WORDS3_def OF_TRANSACTION_TABLE_MAX_NO_OF_NODES_def)

lemma hash_collision: "OF_TRANSACTION_TABLE_HASH 7 1 (0, 1) = 927" "OF_TRANSACTION_TABLE_HASH 7 1 (0, 493) = 927"
proof -
  have "OF_DOBBS_MIX (0x9e3779b9 + 1, 0x9e3779b9 + 0, 7 + 1) = (1865131681, 4293697308, 4280804635)"
    unfolding OF_DOBBS_MIX_def
    by (rule let_value, rule refl, unfold prod.case, (rule let_value, simp)+, simp)
  from hash_value [OF this] show "OF_TRANSACTION_TABLE_HASH 7 1 (0, 1) = 927" by simp
  have "OF_DOBBS_MIX (0x9e3779b9 + 1, 0x9e3779b9 + 0, 7 + 493) = (1819624533, 2439544817, 2018834639)"
    unfolding OF_DOBBS_MIX_def
    by (rule let_value, rule refl, unfold prod.case, (rule let_value, simp)+, simp)
  from hash_value [OF this] show "OF_TRANSACTION_TABLE_HASH 7 1 (0, 493) = 927" by simp
qed

text \<open>
  The record of a request is found for a reply from another datapath exactly when
  the hash of the number with that datapath's identifier is the same: the identifier chooses the bucket
  and is compared with nothing, so a switch whose identifier collides can answer, and end, a request that
  was sent to another one.
\<close>

theorem foreign_reply:
  assumes "\<And>y. lk_index (L y) < OF_TRANSACTION_TABLE_MAX_NO_OF_NODES"
    and "run_ok (exec_xtn init) xtn_valid (ops @ Record (Some a) timer_ok m start dp fn arg1 arg2 # ops')
      (cntlr_xtn_table_init L recs)"
    and "run (exec_xtn init) (ops @ [Record (Some a) timer_ok m start dp fn arg1 arg2]) (cntlr_xtn_table_init L recs)
      = (rs, s1)" and "last rs \<noteq> None"
    and "snd (run (exec_xtn init) ops' s1) = s" and "length ops + length ops' < 2 ^ 32 - 2"
  shows "cntlr_get_xtn_details init (cntlr_xtn_seq_no_g s1) other s
    = (if Remove a \<notin> set ops' \<and> OF_TRANSACTION_TABLE_HASH init (cntlr_xtn_seq_no_g s1) other
            = OF_TRANSACTION_TABLE_HASH init (cntlr_xtn_seq_no_g s1) (xd_id dp)
       then Some a else None)"
proof -
  let ?x = "cntlr_xtn_seq_no_g s1" and ?j = "OF_TRANSACTION_TABLE_HASH init (cntlr_xtn_seq_no_g s1) other"
  let ?k = "OF_TRANSACTION_TABLE_HASH init (cntlr_xtn_seq_no_g s1) (xd_id dp)"
  obtain bs rc where f: "followed a ?x ?k rc (Remove a \<notin> set ops') s bs"
    using recorded_followed [OF assms] by metis
  then have inv: "xtn_inv s bs" by (simp add: followed_def)
  consider "Remove a \<in> set ops'" | "Remove a \<notin> set ops'" "?j = ?k" | "Remove a \<notin> set ops'" "?j \<noteq> ?k" by blast
  then show ?thesis
  proof cases
    case 1
    then show ?thesis using get_inv(2) [OF inv] f by (simp add: followed_def del: set_concat)
  next
    case 2
    then show ?thesis using followed_get [of a ?x init other rc] f by simp
  next
    case 3
    have in_k: "a \<in> set (bs ! ?k)" "xr_xid (xtn_recs s a) = ?x" using f 3 by (simp_all add: followed_def)
    have "xr_xid (xtn_recs s b) \<noteq> ?x" if "b \<in> set (bs ! ?j)" for b
    proof
      assume "xr_xid (xtn_recs s b) = ?x"
      then have "b = a"
        using in_k in_bucket [OF inv hash_bound] that inv unfolding xtn_inv_def by (metis (no_types, lifting) inj_onD)
      then show False using bucket_unique [OF inv hash_bound hash_bound _ in_k(1)] that 3 by blast
    qed
    then show ?thesis
      using 3 unfolding cntlr_get_xtn_details_def scan_inv [OF inv hash_bound] by (auto simp: find_None_iff)
  qed
qed

lemma foreign_reply_witness:
  "cntlr_get_xtn_details 7 1 (0, 493) (sample_request (\<lambda>_. 0)) = Some 5"
proof -
  obtain rs where r: "run (exec_xtn 7) ([] @ [sample_record (\<lambda>_. 0)]) (cntlr_xtn_table_init blank_links blank_recs)
      = (rs, sample_request (\<lambda>_. 0))" "last rs \<noteq> None"
    using sample_request(2) by blast
  have v: "run_ok (exec_xtn 7) xtn_valid ([] @ sample_record (\<lambda>_. 0) # []) (cntlr_xtn_table_init blank_links blank_recs)"
    by (subst sample_request(1)) simp
  have h: "OF_TRANSACTION_TABLE_HASH 7 (cntlr_xtn_seq_no_g (sample_request (\<lambda>_. 0))) (0, 493)
      = OF_TRANSACTION_TABLE_HASH 7 (cntlr_xtn_seq_no_g (sample_request (\<lambda>_. 0))) (xd_id sample_datapath)"
    by (simp add: sample_request(3) sample_datapath_def hash_collision)
  have "cntlr_get_xtn_details 7 (cntlr_xtn_seq_no_g (sample_request (\<lambda>_. 0))) (0, 493) (sample_request (\<lambda>_. 0)) = Some 5"
    using foreign_reply [OF _ v r, of "sample_request (\<lambda>_. 0)" "(0, 493)"] h
    by (simp add: OF_TRANSACTION_TABLE_MAX_NO_OF_NODES_def)
  then show ?thesis by (simp add: sample_request(3))
qed

section \<open>A reply in several parts\<close>

text \<open>The parts of a reply as messages in memory, each with the place of its body and of its header.\<close>

fun handle_parts ::
  "u32 \<Rightarrow> xtn_datapath \<Rightarrow> reply_garbage \<Rightarrow> (memory \<times> nat \<times> nat) list \<Rightarrow> reply_channel \<Rightarrow> xtn_state
    \<Rightarrow> (nat \<times> multipart_event) list \<times> xtn_state" where
  "handle_parts init dp g [] ch s = ([], s)"
| "handle_parts init dp g ((m, start, h) # ps) ch s =
     (let p = of_process_multipart_replymsg init dp g True m start h ch s;
          (es, s') = handle_parts init dp g ps (mo_channel p) (mo_state p)
      in (map (Pair (mo_callback_fn p)) (mo_events p) @ es, s'))"

definition flow_part :: "u32 \<Rightarrow> u16 \<Rightarrow> memory \<times> nat \<times> nat \<Rightarrow> flow_stat list \<Rightarrow> bool" where
  "flow_part x flags p fs \<longleftrightarrow>
     (case p of (m, start, h) \<Rightarrow>
        fs \<noteq> [] \<and> (\<forall>f \<in> set fs. readable_flow_stat f) \<and> holds m (start + 16) (encoding flow_stat_bytes fs)
        \<and> be16_at m (h + 2) = of_nat (16 + length (encoding flow_stat_bytes fs))
        \<and> 16 + length (encoding flow_stat_bytes fs) < 65536
        \<and> be32_at m (h + 4) = x \<and> be16_at m (start + 8) = OFPMP_FLOW \<and> be16_at m (start + 10) = flags)"

text \<open>All parts but the last announce more.\<close>

fun flow_parts :: "u32 \<Rightarrow> (memory \<times> nat \<times> nat) list \<Rightarrow> flow_stat list list \<Rightarrow> bool" where
  "flow_parts x [p] [fs] = flow_part x 0 p fs"
| "flow_parts x (p # q # ps) (fs # fss) = (flow_part x OFPMPF_REPLY_MORE p fs \<and> flow_parts x (q # ps) fss)"
| "flow_parts x _ _ = False"

fun parts_events :: "reply_context \<Rightarrow> flow_stat list list \<Rightarrow> flow_stats_cbk list" where
  "parts_events c [] = []"
| "parts_events c [fs] = flow_events c 0 fs"
| "parts_events c (fs # fss) = flow_events c 1 fs @ parts_events c fss"

lemma parts_events_flags:
  "\<exists>flags. length flags = length (concat fss) \<and> parts_events c fss = map2 (flow_event c) (concat fss) flags"
proof (induction c fss rule: parts_events.induct)
  case (2 c fs)
  then show ?case using flow_events_flags [of fs c 0] by simp
next
  case (3 c fs fs' fss)
  obtain x y where "length x = length fs" "flow_events c 1 fs = map2 (flow_event c) fs x"
    "length y = length (concat (fs' # fss))" "parts_events c (fs' # fss) = map2 (flow_event c) (concat (fs' # fss)) y"
    using 3 flow_events_flags [of fs c 1] by blast
  then show ?case by (intro exI [of _ "x @ y"]) simp
qed simp

lemma part_handled:
  assumes p: "flow_part x flags (m, start, h) fs" and flags: "flags = 0 \<or> flags = OFPMPF_REPLY_MORE"
    and get: "cntlr_get_xtn_details init x (xd_id dp) s = Some a"
  shows "of_process_multipart_replymsg init dp g True m start h ch s =
    \<lparr>mo_events = map Flow_stats (flow_events
       \<lparr>rc_domain_handle = xd_domain dp, rc_datapath_handle = xd_handle dp,
        rc_app_pvt_arg1 = xr_app_pvt_arg1 (xtn_recs s a), rc_app_pvt_arg2 = xr_app_pvt_arg2 (xtn_recs s a)\<rparr>
       (if flags = 0 then 0 else 1) fs),
     mo_callback_fn = xr_callback_fn (xtn_recs s a), mo_end = Returned, mo_drained = 0, mo_channel = ch,
     mo_state = (if flags = 0 then snd (cntlr_del_xtn_with_rec a s) else s)\<rparr>"
proof -
  have f: "fs \<noteq> []" "\<forall>f \<in> set fs. readable_flow_stat f" "holds m (start + 16) (encoding flow_stat_bytes fs)"
    "be16_at m (h + 2) = of_nat (16 + length (encoding flow_stat_bytes fs))"
    "16 + length (encoding flow_stat_bytes fs) < 65536"
    and at: "be32_at m (h + 4) = x" "be16_at m (start + 8) = OFPMP_FLOW" "be16_at m (start + 10) = flags"
    using p by (simp_all add: flow_part_def)
  show ?thesis
    using flags by (auto simp: of_process_multipart_replymsg_def at get multipart_handler_def flow_stats_reply [OF f]
        has_handler_def OFPMP_defs OFPMPF_REPLY_MORE_def Let_def)
qed

lemma parts_handled:
  assumes "followed a x (OF_TRANSACTION_TABLE_HASH init x (xd_id dp)) rc True s bs" and "flow_parts x ps fss"
  shows "handle_parts init dp g ps ch s =
    (map (\<lambda>e. (xr_callback_fn rc, Flow_stats e)) (parts_events
       \<lparr>rc_domain_handle = xd_domain dp, rc_datapath_handle = xd_handle dp,
        rc_app_pvt_arg1 = xr_app_pvt_arg1 rc, rc_app_pvt_arg2 = xr_app_pvt_arg2 rc\<rparr> fss),
     snd (cntlr_del_xtn_with_rec a s))"
proof -
  have rc: "xtn_recs s a = rc" using assms(1) by (simp add: followed_def)
  have get: "cntlr_get_xtn_details init x (xd_id dp) s = Some a" using followed_get [OF assms(1)] by simp
  show ?thesis
    using assms(2) get
  proof (induction x ps fss arbitrary: ch rule: flow_parts.induct)
    case (1 x p fs)
    obtain m start h where p: "p = (m, start, h)" by (cases p)
    show ?case using part_handled [of x 0 m start h fs init dp s a g ch] 1 by (simp add: p rc Let_def)
  next
    case (2 x p q ps fs fss)
    obtain m start h where p: "p = (m, start, h)" by (cases p)
    have e: "parts_events c (fs # fss) = flow_events c 1 fs @ parts_events c fss" for c
      using 2(2) by (cases fss) simp_all
    have "OFPMPF_REPLY_MORE \<noteq> 0" by (simp add: OFPMPF_REPLY_MORE_def)
    then show ?case
      using part_handled [of x OFPMPF_REPLY_MORE m start h fs init dp s a g ch] 2 by (simp add: p rc e Let_def)
  qed simp_all
qed

text \<open>
  The answer to a recorded request for flow statistics may come in any number of
  messages, whatever else was recorded and deleted in between: the function given with the request is
  called with the arguments given with it, once for each flow of each part, in order, and after the last
  part, and not before, the record is gone.
\<close>

theorem replies_in_parts:
  assumes "\<And>y. lk_index (L y) < OF_TRANSACTION_TABLE_MAX_NO_OF_NODES"
    and "run_ok (exec_xtn init) xtn_valid (ops @ Record (Some a) timer_ok m start dp fn arg1 arg2 # ops')
      (cntlr_xtn_table_init L recs)"
    and "run (exec_xtn init) (ops @ [Record (Some a) timer_ok m start dp fn arg1 arg2]) (cntlr_xtn_table_init L recs)
      = (rs, s1)" and "last rs \<noteq> None"
    and "snd (run (exec_xtn init) ops' s1) = s" and "length ops + length ops' < 2 ^ 32 - 2"
    and "Remove a \<notin> set ops'" and "flow_parts (cntlr_xtn_seq_no_g s1) ps fss"
  shows "fst (handle_parts init dp g ps ch s) = map (\<lambda>e. (fn, Flow_stats e)) (parts_events
       \<lparr>rc_domain_handle = xd_domain dp, rc_datapath_handle = xd_handle dp, rc_app_pvt_arg1 = arg1, rc_app_pvt_arg2 = arg2\<rparr> fss)
    \<and> cntlr_get_xtn_details init (cntlr_xtn_seq_no_g s1) (xd_id dp) (snd (handle_parts init dp g ps ch s)) = None"
proof -
  obtain bs rc where f: "followed a (cntlr_xtn_seq_no_g s1)
      (OF_TRANSACTION_TABLE_HASH init (cntlr_xtn_seq_no_g s1) (xd_id dp)) rc True s bs"
    and rc: "xr_callback_fn rc = fn" "xr_app_pvt_arg1 rc = arg1" "xr_app_pvt_arg2 rc = arg2"
    using recorded_followed [OF assms(1-6)] assms(7) by metis
  obtain bs' where "followed a (cntlr_xtn_seq_no_g s1)
      (OF_TRANSACTION_TABLE_HASH init (cntlr_xtn_seq_no_g s1) (xd_id dp)) rc False (snd (cntlr_del_xtn_with_rec a s)) bs'"
    using followed_remove [OF f, of a] by auto
  from followed_get [OF this] parts_handled [OF f assms(8)] show ?thesis by (simp add: rc)
qed

definition sample_part :: "u16 \<Rightarrow> u8 list \<Rightarrow> memory" where
  "sample_part flags body = write_bytes 1004 (be32 1) (write_bytes 1008 (be16 OFPMP_FLOW) (write_bytes 1010 (be16 flags)
     (reply_memory body)))"

lemma sample_part:
  assumes "fs \<noteq> []" "\<forall>f \<in> set fs. readable_flow_stat f" "length (encoding flow_stat_bytes fs) < 65520"
  shows "flow_part 1 flags (sample_part flags (encoding flow_stat_bytes fs), 1000, 1000) fs"
  using assms reply_memory [of "encoding flow_stat_bytes fs"]
  by (simp add: flow_part_def sample_part_def be16_at_def be32_at_def read_write_disjoint read_write_at holds_def
      del: of_nat_add)

lemma replies_in_parts_witness:
  "\<forall>g ch. map fst (fst (handle_parts 7 sample_datapath g
     [(sample_part 1 (encoding flow_stat_bytes [sample_flow, sample_drop]), 1000, 1000),
      (sample_part 0 (encoding flow_stat_bytes [sample_drop]), 1000, 1000)] ch (sample_request (\<lambda>_. 0)))) = [11, 11, 11]"
proof (intro allI)
  fix g ch
  let ?ps = "[(sample_part 1 (encoding flow_stat_bytes [sample_flow, sample_drop]), 1000, 1000),
      (sample_part 0 (encoding flow_stat_bytes [sample_drop]), 1000, 1000)]"
  obtain rs where r: "run (exec_xtn 7) ([] @ [sample_record (\<lambda>_. 0)]) (cntlr_xtn_table_init blank_links blank_recs)
      = (rs, sample_request (\<lambda>_. 0))" "last rs \<noteq> None"
    using sample_request(2) by blast
  have v: "run_ok (exec_xtn 7) xtn_valid ([] @ sample_record (\<lambda>_. 0) # []) (cntlr_xtn_table_init blank_links blank_recs)"
    by (subst sample_request(1)) simp
  have "flow_parts (cntlr_xtn_seq_no_g (sample_request (\<lambda>_. 0))) ?ps [[sample_flow, sample_drop], [sample_drop]]"
    using sample_part [of "[sample_flow, sample_drop]" 1] sample_part [of "[sample_drop]" 0] sample_flows
    by (simp add: sample_request(3) OFPMPF_REPLY_MORE_def del: length_flow_stat)
  from replies_in_parts [OF _ v r _ _ _ this, of "sample_request (\<lambda>_. 0)" g ch]
  show "map fst (fst (handle_parts 7 sample_datapath g ?ps ch (sample_request (\<lambda>_. 0)))) = [11, 11, 11]"
    by (simp add: OF_TRANSACTION_TABLE_MAX_NO_OF_NODES_def del: handle_parts.simps)
qed

end
