(* ===== verification/Requests.thy ===== *)
theory Requests
  imports Xtn GroupMod
begin

text \<open>
  The requests of \<open>of_cntlr_2_sw_msgapi.c\<close> that a datapath answers: descriptions, statistics and features,
  configurations, the role, and barriers.  Each function looks up the datapath and its main channel, puts
  the request into the message it was given and sends it with a record of the function to be called
  (\<open>cntlr_send_msg_to_dp\<close>, theory \<open>Xtn\<close>).  What is proved of a request is its bytes, its record, and that
  the answer reaches the function.
\<close>

section \<open>Lengths\<close>

definition sizeof_ofp_header :: nat where [layout_simps]: "sizeof_ofp_header = 8"
definition sizeof_ofp_multipart_request :: nat where [layout_simps]: "sizeof_ofp_multipart_request = 16"
definition sizeof_ofp_flow_stats_request :: nat where [layout_simps]: "sizeof_ofp_flow_stats_request = 40"
definition sizeof_ofp_aggregate_stats_request :: nat where [layout_simps]: "sizeof_ofp_aggregate_stats_request = 40"
definition sizeof_ofp_port_stats_request :: nat where [layout_simps]: "sizeof_ofp_port_stats_request = 8"
definition sizeof_ofp_group_stats_request :: nat where [layout_simps]: "sizeof_ofp_group_stats_request = 8"
definition sizeof_ofp_role_request :: nat where [layout_simps]: "sizeof_ofp_role_request = 24"
definition sizeof_ofp_switch_config :: nat where [layout_simps]: "sizeof_ofp_switch_config = 12"
definition sizeof_fslx_multipart_request :: nat where [layout_simps]: "sizeof_fslx_multipart_request = 24"
definition sizeof_fslx_bind_obj_info_request :: nat where [layout_simps]: "sizeof_fslx_bind_obj_info_request = 8"

definition OFU_SWINFO_REQ_MESSAGE_LEN :: nat where [layout_simps]:
  "OFU_SWINFO_REQ_MESSAGE_LEN = sizeof_ofp_multipart_request"
definition OFU_GROUP_DESC_REQ_MESSAGE_LEN :: nat where [layout_simps]:
  "OFU_GROUP_DESC_REQ_MESSAGE_LEN = sizeof_ofp_multipart_request"
definition OFU_METER_CONFIG_REQ_MESSAGE_LEN :: nat where [layout_simps]:
  "OFU_METER_CONFIG_REQ_MESSAGE_LEN = sizeof_ofp_multipart_request"
definition OFU_METER_FEATURE_REQ_MESSAGE_LEN :: nat where [layout_simps]:
  "OFU_METER_FEATURE_REQ_MESSAGE_LEN = sizeof_ofp_multipart_request"
definition OFU_METER_STATS_REQ_MESSAGE_LEN :: nat where [layout_simps]:
  "OFU_METER_STATS_REQ_MESSAGE_LEN = sizeof_ofp_multipart_request"
definition OFU_GROUP_STATS_REQ_MESSAGE_LEN :: nat where [layout_simps]:
  "OFU_GROUP_STATS_REQ_MESSAGE_LEN = sizeof_ofp_multipart_request + sizeof_ofp_group_stats_request"
definition OFU_GROUP_FEATURES_REQ_MESSAGE_LEN :: nat where [layout_simps]:
  "OFU_GROUP_FEATURES_REQ_MESSAGE_LEN = sizeof_ofp_multipart_request"
definition OFU_PORT_DESCRIPTION_REQ_MESSAGE_LEN :: nat where [layout_simps]:
  "OFU_PORT_DESCRIPTION_REQ_MESSAGE_LEN = sizeof_ofp_multipart_request"
definition OFU_TABLE_STATISTICS_REQ_MESSAGE_LEN :: nat where [layout_simps]:
  "OFU_TABLE_STATISTICS_REQ_MESSAGE_LEN = sizeof_ofp_multipart_request"
definition OFU_INDIVIUAL_TABLE_STATS_REQ_MESSAGE_LEN :: nat where [layout_simps]:
  "OFU_INDIVIUAL_TABLE_STATS_REQ_MESSAGE_LEN = sizeof_ofp_multipart_request"
definition OFU_PORT_STATISTICS_REQ_MESSAGE_LEN :: nat where [layout_simps]:
  "OFU_PORT_STATISTICS_REQ_MESSAGE_LEN = sizeof_ofp_multipart_request + sizeof_ofp_port_stats_request"
definition OFU_INDIVIUAL_PORT_STATS_REQ_MESSAGE_LEN :: nat where [layout_simps]:
  "OFU_INDIVIUAL_PORT_STATS_REQ_MESSAGE_LEN = sizeof_ofp_multipart_request + sizeof_ofp_port_stats_request"
definition OFU_TABLE_FEATURES_REQ_MESSAGE_LEN :: nat where [layout_simps]:
  "OFU_TABLE_FEATURES_REQ_MESSAGE_LEN = sizeof_ofp_multipart_request"
definition OFU_INDIVIUAL_FLOW_ENTRY_STATS_REQ_MESSAGE_LEN :: nat where [layout_simps]:
  "OFU_INDIVIUAL_FLOW_ENTRY_STATS_REQ_MESSAGE_LEN = sizeof_ofp_multipart_request + sizeof_ofp_flow_stats_request"
definition OFU_AGGREGATE_FLOW_ENTRY_STATS_REQ_MESSAGE_LEN :: nat where [layout_simps]:
  "OFU_AGGREGATE_FLOW_ENTRY_STATS_REQ_MESSAGE_LEN = sizeof_ofp_multipart_request + sizeof_ofp_aggregate_stats_request"
definition OFU_INDIVIUAL_BIND_ENTRY_STATS_REQ_MESSAGE_LEN :: nat where [layout_simps]:
  "OFU_INDIVIUAL_BIND_ENTRY_STATS_REQ_MESSAGE_LEN = sizeof_fslx_multipart_request + sizeof_fslx_bind_obj_info_request"
definition OFU_ROLE_REQUEST_MESSAGE_LEN :: nat where [layout_simps]:
  "OFU_ROLE_REQUEST_MESSAGE_LEN = sizeof_ofp_role_request"
definition OFU_BARRIER_REQUEST_MESSAGE_LEN :: nat where [layout_simps]:
  "OFU_BARRIER_REQUEST_MESSAGE_LEN = sizeof_ofp_header"
definition OFU_SWITCH_CONFIG_GET_REQ_MESSAGE_LEN :: nat where [layout_simps]:
  "OFU_SWITCH_CONFIG_GET_REQ_MESSAGE_LEN = sizeof_ofp_header"
definition OFU_SWITCH_CONFIG_SET_REQ_MESSAGE_LEN :: nat where [layout_simps]:
  "OFU_SWITCH_CONFIG_SET_REQ_MESSAGE_LEN = sizeof_ofp_switch_config"
definition OFU_GET_ASYNC_CONFIG_MESSAGE_LEN :: nat where [layout_simps]:
  "OFU_GET_ASYNC_CONFIG_MESSAGE_LEN = sizeof_ofp_header"

definition OFPT_SET_CONFIG :: u8 where "OFPT_SET_CONFIG = 9"
definition FSLX_MP_BO_INFO :: u16 where "FSLX_MP_BO_INFO = 1"
definition OFPTT_ALL :: u8 where "OFPTT_ALL = 0xff"

section \<open>What the functions share\<close>

datatype request_status =
    Request_success
  | Request_failure
  | OF_MSG_BUF_SIZE_IS_IN_SUFFECIENT
  | Invalid_datapath_handle
  | CNTLR_CHN_CLOSED
  | CNTLR_SEND_MSG_TO_DP_ERROR

text \<open>The functions that the application gives with its requests; their addresses are in the environment.\<close>

datatype app_cbk =
    cntlr_handle_port_desc_msg
  | cntlr_handle_table_stats_msg
  | cntlr_handle_port_stats_msg
  | cntlr_handle_flow_stats_msg
  | cntlr_handle_bind_stats_msg
  | cntlr_handle_aggregate_stats_msg
  | cntlr_handle_table_feature_msg
  | of_controller_role_change_reply_fn
  | of_async_config_reply_cbk_fn
  | of_group_desc_reply_cbk_fn
  | of_group_stats_reply_cbk_fn
  | of_group_features_reply_cbk_fn
  | of_switch_info_reply_cbk_fn_after_feature_reply
  | of_meter_config_reply_cbk_fn
  | of_meter_features_reply_cbk_fn
  | of_meter_stats_reply_cbk_fn

record request_datapath =
  rd_main_conn_present :: bool
  rd_conn_table :: "nat option"
  rd_xtn :: xtn_datapath

text \<open>
  The environment: the datapaths, the hash seed, a block for the record, whether the timer starts and the
  transport takes the message, and if not, whether it has released it, as it does after a failed write
  (\<open>cntlr_tnsprt_try_2_send_msg_on_line\<close>); and for messages of the application the pools' memory and its
  functions.
\<close>

record send_env =
  se_datapath_byhandle :: "u64 \<Rightarrow> request_datapath option"
  se_init :: u32
  se_block :: "nat option"
  se_timer_ok :: bool
  se_sent_ok :: bool
  se_released :: bool
  se_get_mem_block :: "nat \<Rightarrow> (nat \<times> bool) option"
  se_data_of :: "nat \<Rightarrow> nat"
  se_cells :: memory
  se_address :: "app_cbk \<Rightarrow> nat"

record request_cbk =
  rk_callback_fn :: nat
  rk_arg1 :: nat
  rk_arg2 :: nat

text \<open>
  The message as the function leaves it, whether the transport took it, and whether the transport has
  released it without taking it.
\<close>

record request_outcome =
  ro_status :: request_status
  ro_msg :: of_msg
  ro_sent :: bool
  ro_released :: bool
  ro_state :: xtn_state

definition refused :: "request_status \<Rightarrow> of_msg \<Rightarrow> xtn_state \<Rightarrow> request_outcome option" where
  "refused status msg s = Some \<lparr>ro_status = status, ro_msg = msg, ro_sent = False, ro_released = False, ro_state = s\<rparr>"

definition with_datapath ::
  "send_env \<Rightarrow> u64 \<Rightarrow> of_msg \<Rightarrow> xtn_state \<Rightarrow> (request_datapath \<Rightarrow> request_outcome option) \<Rightarrow> request_outcome option" where
  "with_datapath env datapath_handle msg s rest =
     (case se_datapath_byhandle env datapath_handle of
        None \<Rightarrow> refused Invalid_datapath_handle msg s
      | Some datapath \<Rightarrow> rest datapath)"

definition CNTLR_GET_MAIN_CHANNEL_SAFE_REF ::
  "request_datapath \<Rightarrow> of_msg \<Rightarrow> xtn_state \<Rightarrow> request_outcome option \<Rightarrow> request_outcome option" where
  "CNTLR_GET_MAIN_CHANNEL_SAFE_REF datapath msg s rest =
     (if rd_conn_table datapath = None then refused Request_failure msg s else rest)"

definition over_main_channel ::
  "request_datapath \<Rightarrow> of_msg \<Rightarrow> xtn_state \<Rightarrow> request_outcome option \<Rightarrow> request_outcome option" where
  "over_main_channel datapath msg s rest =
     (if \<not> rd_main_conn_present datapath then refused CNTLR_CHN_CLOSED msg s
      else CNTLR_GET_MAIN_CHANNEL_SAFE_REF datapath msg s rest)"

text \<open>
  The number is stamped on the message unless there is no block for its record; the transport sees the
  message unless its record failed; \<open>None\<close> is a use of a null pointer.
\<close>

definition CNTLR_Q_2_BARRIERQ_IF_REQUIRED_OTHERWISE_SEND_2_DP ::
  "send_env \<Rightarrow> request_datapath \<Rightarrow> request_cbk \<Rightarrow> request_status \<Rightarrow> of_msg \<Rightarrow> xtn_state \<Rightarrow> request_outcome option" where
  "CNTLR_Q_2_BARRIERQ_IF_REQUIRED_OTHERWISE_SEND_2_DP env datapath cbk status msg s =
     (let recorded = is_rec_xtn (mem msg (start_of_data msg + 1));
          offered = (recorded \<longrightarrow> fst (cntlr_record_xtn_details (se_init env) (se_block env) (se_timer_ok env) (mem msg)
            (start_of_data msg) (rd_xtn datapath) (rk_callback_fn cbk) (rk_arg1 cbk) (rk_arg2 cbk) s) \<noteq> None)
      in
      map_option (\<lambda>((send_status, xid), s).
          \<lparr>ro_status = (if send_status then status else CNTLR_SEND_MSG_TO_DP_ERROR),
           ro_msg = (if recorded \<and> se_block env = None then msg else st32 (start_of_data msg + 4) xid msg),
           ro_sent = send_status, ro_released = (offered \<and> \<not> send_status \<and> se_released env), ro_state = s\<rparr>)
        (cntlr_send_msg_to_dp (se_init env) (se_block env) (se_timer_ok env) (se_sent_ok env) (mem msg) (start_of_data msg)
           (rd_xtn datapath) (rk_callback_fn cbk) (rk_arg1 cbk) (rk_arg2 cbk) s))"

text \<open>A buffer of another length is noted; most functions go on all the same.\<close>

definition length_status :: "nat \<Rightarrow> of_msg \<Rightarrow> request_status" where
  "length_status len msg = (if unat (buffer_len msg) \<noteq> len then OF_MSG_BUF_SIZE_IS_IN_SUFFECIENT else Request_success)"

definition room_status :: "nat \<Rightarrow> of_msg \<Rightarrow> request_status" where
  "room_status len msg = (if unat (buffer_len msg) < len then OF_MSG_BUF_SIZE_IS_IN_SUFFECIENT else Request_success)"

definition put_multipart_header :: "u16 \<Rightarrow> of_msg \<Rightarrow> of_msg" where
  "put_multipart_header ty msg = st16 (start_of_data msg + 8) ty (put_header OFPT_MULTIPART_REQUEST msg)"

definition put_length :: "of_msg \<Rightarrow> of_msg" where
  "put_length msg = st16 (start_of_data msg + 2) (data_len msg) msg"

definition add_length :: "nat \<Rightarrow> of_msg \<Rightarrow> of_msg" where
  "add_length n msg = put_length (msg\<lparr>data_len := data_len msg + of_nat n\<rparr>)"

definition set_length :: "nat \<Rightarrow> of_msg \<Rightarrow> of_msg" where
  "set_length n msg = put_length (msg\<lparr>data_len := of_nat n\<rparr>)"

text \<open>The functions that look at the channel before they touch the message.\<close>

definition send_request ::
  "(of_msg \<Rightarrow> request_status) \<Rightarrow> (of_msg \<Rightarrow> of_msg) \<Rightarrow> send_env \<Rightarrow> of_msg \<Rightarrow> u64 \<Rightarrow> request_cbk \<Rightarrow> xtn_state
    \<Rightarrow> request_outcome option" where
  "send_request check frame env msg datapath_handle cbk s =
     with_datapath env datapath_handle msg s (\<lambda>datapath.
       over_main_channel datapath msg s
         (CNTLR_Q_2_BARRIERQ_IF_REQUIRED_OTHERWISE_SEND_2_DP env datapath cbk (check msg) (frame msg) s))"

text \<open>The functions that fill the message first.\<close>

definition frame_and_send ::
  "(of_msg \<Rightarrow> request_status) \<Rightarrow> (of_msg \<Rightarrow> of_msg) \<Rightarrow> send_env \<Rightarrow> of_msg \<Rightarrow> u64 \<Rightarrow> request_cbk \<Rightarrow> xtn_state
    \<Rightarrow> request_outcome option" where
  "frame_and_send check frame env msg datapath_handle cbk s =
     with_datapath env datapath_handle msg s (\<lambda>datapath.
       over_main_channel datapath (frame msg) s
         (CNTLR_Q_2_BARRIERQ_IF_REQUIRED_OTHERWISE_SEND_2_DP env datapath cbk (check msg) (frame msg) s))"

section \<open>The requests\<close>

definition of_get_switch_config_msg ::
  "send_env \<Rightarrow> of_msg \<Rightarrow> u64 \<Rightarrow> request_cbk \<Rightarrow> xtn_state \<Rightarrow> request_outcome option" where
  "of_get_switch_config_msg env msg datapath_handle cbk s =
     (let status = room_status OFU_SWITCH_CONFIG_GET_REQ_MESSAGE_LEN msg in
      with_datapath env datapath_handle msg s (\<lambda>datapath.
        let msg = add_length OFU_SWITCH_CONFIG_GET_REQ_MESSAGE_LEN (put_header OFPT_GET_CONFIG_REQUEST msg)
        in CNTLR_GET_MAIN_CHANNEL_SAFE_REF datapath msg s
             (CNTLR_Q_2_BARRIERQ_IF_REQUIRED_OTHERWISE_SEND_2_DP env datapath cbk status msg s)))"

definition of_get_switch_info_through_channel ::
  "send_env \<Rightarrow> of_msg \<Rightarrow> u64 \<Rightarrow> request_cbk \<Rightarrow> xtn_state \<Rightarrow> request_outcome option" where
  "of_get_switch_info_through_channel =
     send_request (length_status OFU_SWINFO_REQ_MESSAGE_LEN)
       (add_length OFU_SWINFO_REQ_MESSAGE_LEN \<circ> put_multipart_header OFPMP_DESC)"

definition of_get_groups_description ::
  "send_env \<Rightarrow> of_msg \<Rightarrow> u64 \<Rightarrow> request_cbk \<Rightarrow> xtn_state \<Rightarrow> request_outcome option" where
  "of_get_groups_description =
     send_request (length_status OFU_GROUP_DESC_REQ_MESSAGE_LEN)
       (add_length OFU_GROUP_DESC_REQ_MESSAGE_LEN \<circ> put_multipart_header OFPMP_GROUP_DESC)"

definition of_get_meter_config ::
  "send_env \<Rightarrow> of_msg \<Rightarrow> u64 \<Rightarrow> request_cbk \<Rightarrow> xtn_state \<Rightarrow> request_outcome option" where
  "of_get_meter_config =
     send_request (length_status OFU_METER_CONFIG_REQ_MESSAGE_LEN)
       (add_length OFU_METER_CONFIG_REQ_MESSAGE_LEN \<circ> put_multipart_header OFPMP_METER_CONFIG)"

definition of_get_meter_features ::
  "send_env \<Rightarrow> of_msg \<Rightarrow> u64 \<Rightarrow> request_cbk \<Rightarrow> xtn_state \<Rightarrow> request_outcome option" where
  "of_get_meter_features =
     send_request (length_status OFU_METER_FEATURE_REQ_MESSAGE_LEN)
       (add_length OFU_METER_FEATURE_REQ_MESSAGE_LEN \<circ> put_multipart_header OFPMP_METER_FEATURES)"

text \<open>The meter is stored behind the 16 bytes that are counted.\<close>

definition of_get_meter_statistics ::
  "u32 \<Rightarrow> send_env \<Rightarrow> of_msg \<Rightarrow> u64 \<Rightarrow> request_cbk \<Rightarrow> xtn_state \<Rightarrow> request_outcome option" where
  "of_get_meter_statistics meter_id =
     send_request (length_status OFU_METER_STATS_REQ_MESSAGE_LEN)
       (\<lambda>msg. let body = start_of_data msg + 16; msg = put_multipart_header OFPMP_METER msg; msg = st32 body meter_id msg
              in add_length OFU_METER_STATS_REQ_MESSAGE_LEN msg)"

definition of_get_group_statistics ::
  "u32 \<Rightarrow> send_env \<Rightarrow> of_msg \<Rightarrow> u64 \<Rightarrow> request_cbk \<Rightarrow> xtn_state \<Rightarrow> request_outcome option" where
  "of_get_group_statistics group_id =
     send_request (length_status OFU_GROUP_STATS_REQ_MESSAGE_LEN)
       (\<lambda>msg. let body = start_of_data msg + 16; msg = put_multipart_header OFPMP_GROUP msg; msg = st32 body group_id msg
              in add_length OFU_GROUP_STATS_REQ_MESSAGE_LEN msg)"

definition of_get_groups_features ::
  "send_env \<Rightarrow> of_msg \<Rightarrow> u64 \<Rightarrow> request_cbk \<Rightarrow> xtn_state \<Rightarrow> request_outcome option" where
  "of_get_groups_features =
     send_request (length_status OFU_GROUP_FEATURES_REQ_MESSAGE_LEN)
       (add_length OFU_GROUP_FEATURES_REQ_MESSAGE_LEN \<circ> put_multipart_header OFPMP_GROUP_FEATURES)"

definition of_send_role_change_msg ::
  "u32 \<Rightarrow> u64 \<Rightarrow> send_env \<Rightarrow> of_msg \<Rightarrow> u64 \<Rightarrow> request_cbk \<Rightarrow> xtn_state \<Rightarrow> request_outcome option" where
  "of_send_role_change_msg new_role generation_id =
     frame_and_send (length_status OFU_ROLE_REQUEST_MESSAGE_LEN)
       (\<lambda>msg. let role_req_msg = start_of_data msg;
                  msg = put_header OFPT_ROLE_REQUEST msg;
                  msg = st32 (role_req_msg + 8) new_role msg;
                  msg = st64 (role_req_msg + 16) generation_id msg
              in set_length sizeof_ofp_role_request msg)"

definition of_get_port_description ::
  "send_env \<Rightarrow> of_msg \<Rightarrow> u64 \<Rightarrow> request_cbk \<Rightarrow> xtn_state \<Rightarrow> request_outcome option" where
  "of_get_port_description =
     frame_and_send (length_status OFU_PORT_DESCRIPTION_REQ_MESSAGE_LEN)
       (set_length sizeof_ofp_multipart_request \<circ> put_multipart_header OFPMP_PORT_DESC)"

definition of_get_table_statistics ::
  "send_env \<Rightarrow> of_msg \<Rightarrow> u64 \<Rightarrow> request_cbk \<Rightarrow> xtn_state \<Rightarrow> request_outcome option" where
  "of_get_table_statistics =
     send_request (length_status OFU_TABLE_STATISTICS_REQ_MESSAGE_LEN)
       (add_length OFU_INDIVIUAL_TABLE_STATS_REQ_MESSAGE_LEN \<circ> put_multipart_header OFPMP_TABLE)"

text \<open>The port is stored as it is; the host is little-endian.  Here another length ends the function.\<close>

definition of_get_port_statistics ::
  "u32 \<Rightarrow> send_env \<Rightarrow> of_msg \<Rightarrow> u64 \<Rightarrow> request_cbk \<Rightarrow> xtn_state \<Rightarrow> request_outcome option" where
  "of_get_port_statistics port_no env msg datapath_handle cbk s =
     (if unat (buffer_len msg) \<noteq> OFU_PORT_STATISTICS_REQ_MESSAGE_LEN then refused OF_MSG_BUF_SIZE_IS_IN_SUFFECIENT msg s
      else send_request (\<lambda>_. Request_success)
        (\<lambda>msg. let body = start_of_data msg + 16;
                   msg = put_multipart_header OFPMP_PORT_STATS msg;
                   msg = poke body (rev (be32 port_no)) msg
               in add_length OFU_INDIVIUAL_PORT_STATS_REQ_MESSAGE_LEN msg) env msg datapath_handle cbk s)"

text \<open>The arguments of the application are not passed on.\<close>

definition of_get_table_features ::
  "send_env \<Rightarrow> of_msg \<Rightarrow> u64 \<Rightarrow> request_cbk \<Rightarrow> xtn_state \<Rightarrow> request_outcome option" where
  "of_get_table_features env msg datapath_handle cbk s =
     (if unat (buffer_len msg) \<noteq> OFU_TABLE_FEATURES_REQ_MESSAGE_LEN then refused OF_MSG_BUF_SIZE_IS_IN_SUFFECIENT msg s
      else send_request (\<lambda>_. Request_success)
        (add_length OFU_TABLE_FEATURES_REQ_MESSAGE_LEN \<circ> put_multipart_header OFPMP_TABLE_FEATURES) env msg
        datapath_handle (cbk\<lparr>rk_arg1 := 0, rk_arg2 := 0\<rparr>) s)"

record flows_query =
  fq_table_id :: u8
  fq_out_port :: u32
  fq_out_group :: u32
  fq_cookie :: u64
  fq_cookie_mask :: u64

text \<open>
  The body of the two requests about flows, in the order of the code.  Both functions look at the channel
  again after filling the message; between the two looks nothing changes.
\<close>

definition put_flows_query :: "flows_query \<Rightarrow> of_msg \<Rightarrow> of_msg" where
  "put_flows_query q msg =
     (let body = start_of_data msg + 16;
          msg = st8 body (fq_table_id q) msg;
          msg = st32 (body + 4) (fq_out_port q) msg;
          msg = st32 (body + 8) (fq_out_group q) msg;
          msg = st64 (body + 16) (fq_cookie q) msg;
          msg = st64 (body + 24) (fq_cookie_mask q) msg;
          msg = st16 (body + 32) OFPMT_OXM msg
      in st16 (body + 34) (of_nat (sizeof_ofp_match - 4)) msg)"

definition of_get_flow_entries ::
  "flows_query \<Rightarrow> send_env \<Rightarrow> of_msg \<Rightarrow> u64 \<Rightarrow> request_cbk \<Rightarrow> xtn_state \<Rightarrow> request_outcome option" where
  "of_get_flow_entries q =
     send_request (length_status OFU_INDIVIUAL_FLOW_ENTRY_STATS_REQ_MESSAGE_LEN)
       (add_length OFU_INDIVIUAL_FLOW_ENTRY_STATS_REQ_MESSAGE_LEN \<circ> put_flows_query q \<circ> put_multipart_header OFPMP_FLOW)"

definition of_get_aggregate_flow_entries ::
  "flows_query \<Rightarrow> send_env \<Rightarrow> of_msg \<Rightarrow> u64 \<Rightarrow> request_cbk \<Rightarrow> xtn_state \<Rightarrow> request_outcome option" where
  "of_get_aggregate_flow_entries q =
     send_request (length_status OFU_AGGREGATE_FLOW_ENTRY_STATS_REQ_MESSAGE_LEN)
       (add_length OFU_AGGREGATE_FLOW_ENTRY_STATS_REQ_MESSAGE_LEN \<circ> put_flows_query q
         \<circ> put_multipart_header OFPMP_AGGREGATE)"

text \<open>
  The structure of the extension has the type behind an experimenter number that is not stored; the
  subtype and the object are \<open>uint32_t\<close> fields that get the result of \<open>htons\<close>.
\<close>

definition of_get_bind_entries ::
  "u8 \<Rightarrow> send_env \<Rightarrow> of_msg \<Rightarrow> u64 \<Rightarrow> request_cbk \<Rightarrow> xtn_state \<Rightarrow> request_outcome option" where
  "of_get_bind_entries bind_obj_id =
     send_request (length_status OFU_INDIVIUAL_BIND_ENTRY_STATS_REQ_MESSAGE_LEN)
       (\<lambda>msg. let bind_entry_req = start_of_data msg;
                  msg = put_header OFPT_MULTIPART_REQUEST msg;
                  msg = st16 (bind_entry_req + 16) OFPMP_EXPERIMENTER msg;
                  msg = poke (bind_entry_req + 12) (be16 FSLX_MP_BO_INFO @ [0, 0]) msg;
                  msg = poke (bind_entry_req + 24) (be16 (ucast bind_obj_id) @ [0, 0]) msg
              in add_length OFU_INDIVIUAL_BIND_ENTRY_STATS_REQ_MESSAGE_LEN msg)"

definition of_get_async_config_info ::
  "send_env \<Rightarrow> of_msg \<Rightarrow> u64 \<Rightarrow> request_cbk \<Rightarrow> xtn_state \<Rightarrow> request_outcome option" where
  "of_get_async_config_info =
     frame_and_send (room_status OFU_GET_ASYNC_CONFIG_MESSAGE_LEN)
       (add_length sizeof_ofp_header \<circ> put_header OFPT_GET_ASYNC_REQUEST)"


text \<open>
  Setting the configuration only fills the message, which the caller sends; the last result is the table
  of the connection it will take, if memory for that is found.  The flags and the length of packets are
  put into the message before.
\<close>

definition of_set_switch_config_msg ::
  "bool \<Rightarrow> send_env \<Rightarrow> of_msg \<Rightarrow> u64 \<Rightarrow> request_status \<times> of_msg \<times> nat option option" where
  "of_set_switch_config_msg calloc_ok env msg datapath_handle =
     (let status = room_status OFU_SWITCH_CONFIG_SET_REQ_MESSAGE_LEN msg in
      case se_datapath_byhandle env datapath_handle of
        None \<Rightarrow> (Invalid_datapath_handle, msg, None)
      | Some datapath \<Rightarrow>
          let msg = add_length sizeof_ofp_switch_config (put_header OFPT_SET_CONFIG msg)
          in if rd_main_conn_present datapath \<and> calloc_ok then (status, msg, Some (rd_conn_table datapath))
             else (Request_failure, msg, None))"

section \<open>Requests of the application\<close>

text \<open>The status, what was handed to the transport, the pools, and the table of requests.\<close>

record issued =
  is_status :: request_status
  is_sent :: "of_msg list"
  is_pool :: pool_state
  is_state :: xtn_state

definition sent_messages :: "request_outcome \<Rightarrow> of_msg list" where
  "sent_messages r = (if ro_sent r then [ro_msg r] else [])"

text \<open>What the transport does to the block of a message that it does not take.\<close>

definition after_transport :: "request_outcome \<Rightarrow> nat \<Rightarrow> pool_state \<Rightarrow> pool_state" where
  "after_transport r blk st = (if ro_released r then of_msg_release blk st else st)"

text \<open>
  A barrier whose message cannot be allocated is reported as sent, and the function does not give a
  message back that is not sent.
\<close>

definition of_send_barrier_request_msg ::
  "send_env \<Rightarrow> u64 \<Rightarrow> request_cbk \<Rightarrow> pool_state \<Rightarrow> xtn_state \<Rightarrow> issued option" where
  "of_send_barrier_request_msg env datapath_handle cbk st s =
     (case ofu_alloc_message (se_get_mem_block env) of_cntlr_msg_init OFPT_BARRIER_REQUEST
             (of_nat OFU_BARRIER_REQUEST_MESSAGE_LEN) st of
        (None, st) \<Rightarrow> Some \<lparr>is_status = Request_success, is_sent = [], is_pool = st, is_state = s\<rparr>
      | (Some (blk, mk), st) \<Rightarrow>
          map_option (\<lambda>r. \<lparr>is_status = ro_status r, is_sent = sent_messages r, is_pool = after_transport r blk st,
              is_state = ro_state r\<rparr>)
            (send_request (\<lambda>_. Request_success)
              (add_length OFU_BARRIER_REQUEST_MESSAGE_LEN \<circ> put_header OFPT_BARRIER_REQUEST) env
              (mk (se_data_of env blk) (se_cells env)) datapath_handle cbk s))"

text \<open>
  The functions of the core application allocate a message, make the request, and release the message
  unless the request succeeded, whether the transport has released it or not.
\<close>

definition with_message ::
  "send_env \<Rightarrow> u8 \<Rightarrow> nat \<Rightarrow> (of_msg \<Rightarrow> xtn_state \<Rightarrow> request_outcome option) \<Rightarrow> pool_state \<Rightarrow> xtn_state \<Rightarrow> issued option" where
  "with_message env ty len ask st s =
     (case ofu_alloc_message (se_get_mem_block env) of_cntlr_msg_init ty (of_nat len) st of
        (None, st) \<Rightarrow> Some \<lparr>is_status = Request_failure, is_sent = [], is_pool = st, is_state = s\<rparr>
      | (Some (blk, mk), st) \<Rightarrow>
          map_option (\<lambda>r.
              let st = after_transport r blk st in
              if ro_status r = Request_success
              then \<lparr>is_status = Request_success, is_sent = sent_messages r, is_pool = st, is_state = ro_state r\<rparr>
              else \<lparr>is_status = Request_failure, is_sent = sent_messages r, is_pool = of_msg_release blk st,
                    is_state = ro_state r\<rparr>)
            (ask (mk (se_data_of env blk) (se_cells env)) s))"

definition app_callback :: "send_env \<Rightarrow> app_cbk \<Rightarrow> request_cbk" where
  "app_callback env f = \<lparr>rk_callback_fn = se_address env f, rk_arg1 = 0, rk_arg2 = 0\<rparr>"

definition cntlr_send_port_desc_request :: "send_env \<Rightarrow> u64 \<Rightarrow> pool_state \<Rightarrow> xtn_state \<Rightarrow> issued option" where
  "cntlr_send_port_desc_request env datapath_handle =
     with_message env OFPT_MULTIPART_REQUEST OFU_PORT_DESCRIPTION_REQ_MESSAGE_LEN
       (\<lambda>msg. of_get_port_description env msg datapath_handle (app_callback env cntlr_handle_port_desc_msg))"

definition cntlr_send_table_stats_request :: "send_env \<Rightarrow> u64 \<Rightarrow> pool_state \<Rightarrow> xtn_state \<Rightarrow> issued option" where
  "cntlr_send_table_stats_request env datapath_handle =
     with_message env OFPT_MULTIPART_REQUEST OFU_TABLE_STATISTICS_REQ_MESSAGE_LEN
       (\<lambda>msg. of_get_table_statistics env msg datapath_handle (app_callback env cntlr_handle_table_stats_msg))"

definition cntlr_send_port_stats_request :: "send_env \<Rightarrow> u64 \<Rightarrow> pool_state \<Rightarrow> xtn_state \<Rightarrow> issued option" where
  "cntlr_send_port_stats_request env datapath_handle =
     with_message env OFPT_MULTIPART_REQUEST OFU_PORT_STATISTICS_REQ_MESSAGE_LEN
       (\<lambda>msg. of_get_port_statistics OFPP_ANY env msg datapath_handle (app_callback env cntlr_handle_port_stats_msg))"

definition all_flows :: flows_query where
  "all_flows = \<lparr>fq_table_id = OFPTT_ALL, fq_out_port = OFPP_ANY, fq_out_group = OFPG_ANY, fq_cookie = 0, fq_cookie_mask = 0\<rparr>"

definition cntlr_send_flow_stats_request :: "send_env \<Rightarrow> u64 \<Rightarrow> pool_state \<Rightarrow> xtn_state \<Rightarrow> issued option" where
  "cntlr_send_flow_stats_request env datapath_handle =
     with_message env OFPT_MULTIPART_REQUEST OFU_INDIVIUAL_FLOW_ENTRY_STATS_REQ_MESSAGE_LEN
       (\<lambda>msg. of_get_flow_entries all_flows env msg datapath_handle (app_callback env cntlr_handle_flow_stats_msg))"

definition cntlr_send_bind_stats_request :: "send_env \<Rightarrow> u64 \<Rightarrow> u32 \<Rightarrow> pool_state \<Rightarrow> xtn_state \<Rightarrow> issued option" where
  "cntlr_send_bind_stats_request env datapath_handle bind_obj_id =
     with_message env OFPT_MULTIPART_REQUEST OFU_INDIVIUAL_BIND_ENTRY_STATS_REQ_MESSAGE_LEN
       (\<lambda>msg. of_get_bind_entries (ucast bind_obj_id) env msg datapath_handle (app_callback env cntlr_handle_bind_stats_msg))"

definition cntlr_send_aggregate_stats_request :: "send_env \<Rightarrow> u64 \<Rightarrow> pool_state \<Rightarrow> xtn_state \<Rightarrow> issued option" where
  "cntlr_send_aggregate_stats_request env datapath_handle =
     with_message env OFPT_MULTIPART_REQUEST OFU_AGGREGATE_FLOW_ENTRY_STATS_REQ_MESSAGE_LEN
       (\<lambda>msg. of_get_aggregate_flow_entries all_flows env msg datapath_handle
          (app_callback env cntlr_handle_aggregate_stats_msg))"

definition cntlr_send_tablefeature_request :: "send_env \<Rightarrow> u64 \<Rightarrow> pool_state \<Rightarrow> xtn_state \<Rightarrow> issued option" where
  "cntlr_send_tablefeature_request env datapath_handle =
     with_message env OFPT_MULTIPART_REQUEST OFU_TABLE_FEATURES_REQ_MESSAGE_LEN
       (\<lambda>msg. of_get_table_features env msg datapath_handle (app_callback env cntlr_handle_table_feature_msg))"

text \<open>The generation of the role counts up with every request that has a message.\<close>

definition cntlr_send_role_req_request ::
  "send_env \<Rightarrow> u64 \<Rightarrow> u8 \<Rightarrow> u64 \<Rightarrow> pool_state \<Rightarrow> xtn_state \<Rightarrow> u64 \<times> issued option" where
  "cntlr_send_role_req_request env datapath_handle new_role generation_id st s =
     (if fst (ofu_alloc_message (se_get_mem_block env) of_cntlr_msg_init OFPT_ROLE_REQUEST
                (of_nat OFU_ROLE_REQUEST_MESSAGE_LEN) st) = None
      then generation_id else generation_id + 1,
      with_message env OFPT_ROLE_REQUEST OFU_ROLE_REQUEST_MESSAGE_LEN
        (\<lambda>msg. of_send_role_change_msg (ucast new_role) generation_id env msg datapath_handle
           (app_callback env of_controller_role_change_reply_fn)) st s)"

text \<open>The function that gets the configuration looks up the datapath itself, and the other one looks it up again.\<close>

definition cntlr_get_async_msg_cfg :: "send_env \<Rightarrow> u64 \<Rightarrow> pool_state \<Rightarrow> xtn_state \<Rightarrow> issued option" where
  "cntlr_get_async_msg_cfg env datapath_handle st s =
     (case se_datapath_byhandle env datapath_handle of
        None \<Rightarrow> Some \<lparr>is_status = Request_failure, is_sent = [], is_pool = st, is_state = s\<rparr>
      | Some datapath \<Rightarrow>
          with_message env OFPT_GET_ASYNC_REQUEST OFU_GET_ASYNC_CONFIG_MESSAGE_LEN
            (\<lambda>msg. of_get_async_config_info env msg datapath_handle (app_callback env of_async_config_reply_cbk_fn)) st s)"

definition cntlr_send_group_desc_request :: "send_env \<Rightarrow> u64 \<Rightarrow> pool_state \<Rightarrow> xtn_state \<Rightarrow> issued option" where
  "cntlr_send_group_desc_request env datapath_handle =
     with_message env OFPT_MULTIPART_REQUEST OFU_GROUP_DESC_REQ_MESSAGE_LEN
       (\<lambda>msg. of_get_groups_description env msg datapath_handle (app_callback env of_group_desc_reply_cbk_fn))"

definition cntlr_send_group_statistics_request :: "send_env \<Rightarrow> u64 \<Rightarrow> u32 \<Rightarrow> pool_state \<Rightarrow> xtn_state \<Rightarrow> issued option" where
  "cntlr_send_group_statistics_request env datapath_handle group_id =
     with_message env OFPT_MULTIPART_REQUEST OFU_GROUP_STATS_REQ_MESSAGE_LEN
       (\<lambda>msg. of_get_group_statistics group_id env msg datapath_handle (app_callback env of_group_stats_reply_cbk_fn))"

definition cntlr_send_group_features_request :: "send_env \<Rightarrow> u64 \<Rightarrow> pool_state \<Rightarrow> xtn_state \<Rightarrow> issued option" where
  "cntlr_send_group_features_request env datapath_handle =
     with_message env OFPT_MULTIPART_REQUEST OFU_GROUP_FEATURES_REQ_MESSAGE_LEN
       (\<lambda>msg. of_get_groups_features env msg datapath_handle (app_callback env of_group_features_reply_cbk_fn))"

definition cntlr_send_swinfo_desc_request_after_feature_reply ::
  "send_env \<Rightarrow> u64 \<Rightarrow> pool_state \<Rightarrow> xtn_state \<Rightarrow> issued option" where
  "cntlr_send_swinfo_desc_request_after_feature_reply env datapath_handle =
     with_message env OFPT_MULTIPART_REQUEST OFU_SWINFO_REQ_MESSAGE_LEN
       (\<lambda>msg. of_get_switch_info_through_channel env msg datapath_handle
          (app_callback env of_switch_info_reply_cbk_fn_after_feature_reply))"

definition cntlr_send_meter_config_request :: "send_env \<Rightarrow> u64 \<Rightarrow> pool_state \<Rightarrow> xtn_state \<Rightarrow> issued option" where
  "cntlr_send_meter_config_request env datapath_handle =
     with_message env OFPT_MULTIPART_REQUEST OFU_METER_CONFIG_REQ_MESSAGE_LEN
       (\<lambda>msg. of_get_meter_config env msg datapath_handle (app_callback env of_meter_config_reply_cbk_fn))"

definition cntlr_send_meter_features_request :: "send_env \<Rightarrow> u64 \<Rightarrow> pool_state \<Rightarrow> xtn_state \<Rightarrow> issued option" where
  "cntlr_send_meter_features_request env datapath_handle =
     with_message env OFPT_MULTIPART_REQUEST OFU_METER_FEATURE_REQ_MESSAGE_LEN
       (\<lambda>msg. of_get_meter_features env msg datapath_handle (app_callback env of_meter_features_reply_cbk_fn))"

definition cntlr_send_meter_statistics_request :: "send_env \<Rightarrow> u64 \<Rightarrow> u32 \<Rightarrow> pool_state \<Rightarrow> xtn_state \<Rightarrow> issued option" where
  "cntlr_send_meter_statistics_request env datapath_handle meter_id =
     with_message env OFPT_MULTIPART_REQUEST OFU_METER_STATS_REQ_MESSAGE_LEN
       (\<lambda>msg. of_get_meter_statistics meter_id env msg datapath_handle (app_callback env of_meter_stats_reply_cbk_fn))"


section \<open>What the datapath is asked\<close>

text \<open>
  The requests by what they ask, and their bytes behind the header.  All but two are those of
  \<open>openflow.h\<close>: a request for meter configurations has a body there, which this code never
  sends, and the port of a request for port statistics leaves in the order of the host
  (\<open>as_openflow\<close>, lemma \<open>port_reversed\<close>).
\<close>

datatype request =
    Ask_switch_config
  | Ask_switch_info
  | Ask_group_descs
  | Ask_meter_configs
  | Ask_meter_features
  | Ask_group_stats u32
  | Ask_group_features
  | Ask_role u32 u64
  | Ask_port_descs
  | Ask_table_stats
  | Ask_port_stats u32
  | Ask_table_features
  | Ask_flows flows_query
  | Ask_aggregate flows_query
  | Ask_async_config

fun ask :: "request \<Rightarrow> send_env \<Rightarrow> of_msg \<Rightarrow> u64 \<Rightarrow> request_cbk \<Rightarrow> xtn_state \<Rightarrow> request_outcome option" where
  "ask Ask_switch_config = of_get_switch_config_msg"
| "ask Ask_switch_info = of_get_switch_info_through_channel"
| "ask Ask_group_descs = of_get_groups_description"
| "ask Ask_meter_configs = of_get_meter_config"
| "ask Ask_meter_features = of_get_meter_features"
| "ask (Ask_group_stats group_id) = of_get_group_statistics group_id"
| "ask Ask_group_features = of_get_groups_features"
| "ask (Ask_role new_role generation_id) = of_send_role_change_msg new_role generation_id"
| "ask Ask_port_descs = of_get_port_description"
| "ask Ask_table_stats = of_get_table_statistics"
| "ask (Ask_port_stats port_no) = of_get_port_statistics port_no"
| "ask Ask_table_features = of_get_table_features"
| "ask (Ask_flows q) = of_get_flow_entries q"
| "ask (Ask_aggregate q) = of_get_aggregate_flow_entries q"
| "ask Ask_async_config = of_get_async_config_info"

fun as_openflow :: "request \<Rightarrow> bool" where
  "as_openflow (Ask_port_stats port_no) = False"
| "as_openflow Ask_meter_configs = False"
| "as_openflow _ = True"

definition multipart_body :: "u16 \<Rightarrow> u8 list \<Rightarrow> u8 list" where
  "multipart_body ty body = be16 ty @ replicate 6 0 @ body"

definition flows_body :: "flows_query \<Rightarrow> u8 list" where
  "flows_body q = [fq_table_id q, 0, 0, 0] @ be32 (fq_out_port q) @ be32 (fq_out_group q) @ [0, 0, 0, 0]
     @ be64 (fq_cookie q) @ be64 (fq_cookie_mask q) @ be16 1 @ be16 4 @ [0, 0, 0, 0]"

fun request_body :: "request \<Rightarrow> u8 list" where
  "request_body Ask_switch_config = []"
| "request_body Ask_switch_info = multipart_body OFPMP_DESC []"
| "request_body Ask_group_descs = multipart_body OFPMP_GROUP_DESC []"
| "request_body Ask_meter_configs = multipart_body OFPMP_METER_CONFIG []"
| "request_body Ask_meter_features = multipart_body OFPMP_METER_FEATURES []"
| "request_body (Ask_group_stats group_id) = multipart_body OFPMP_GROUP (be32 group_id @ [0, 0, 0, 0])"
| "request_body Ask_group_features = multipart_body OFPMP_GROUP_FEATURES []"
| "request_body (Ask_role new_role generation_id) = be32 new_role @ [0, 0, 0, 0] @ be64 generation_id"
| "request_body Ask_port_descs = multipart_body OFPMP_PORT_DESC []"
| "request_body Ask_table_stats = multipart_body OFPMP_TABLE []"
| "request_body (Ask_port_stats port_no) = multipart_body OFPMP_PORT_STATS (be32 port_no @ [0, 0, 0, 0])"
| "request_body Ask_table_features = multipart_body OFPMP_TABLE_FEATURES []"
| "request_body (Ask_flows q) = multipart_body OFPMP_FLOW (flows_body q)"
| "request_body (Ask_aggregate q) = multipart_body OFPMP_AGGREGATE (flows_body q)"
| "request_body Ask_async_config = []"

fun request_type :: "request \<Rightarrow> u8" where
  "request_type Ask_switch_config = OFPT_GET_CONFIG_REQUEST"
| "request_type (Ask_role new_role generation_id) = OFPT_ROLE_REQUEST"
| "request_type Ask_async_config = OFPT_GET_ASYNC_REQUEST"
| "request_type _ = OFPT_MULTIPART_REQUEST"

definition request_wire :: "request \<Rightarrow> u32 \<Rightarrow> u8 list" where
  "request_wire q xid = [4, request_type q] @ be16 (of_nat (8 + length (request_body q))) @ be32 xid @ request_body q"

text \<open>The message a function makes of the one it was given.\<close>

fun request_frame :: "request \<Rightarrow> of_msg \<Rightarrow> of_msg" where
  "request_frame Ask_switch_config = add_length 8 \<circ> put_header OFPT_GET_CONFIG_REQUEST"
| "request_frame Ask_switch_info = add_length 16 \<circ> put_multipart_header OFPMP_DESC"
| "request_frame Ask_group_descs = add_length 16 \<circ> put_multipart_header OFPMP_GROUP_DESC"
| "request_frame Ask_meter_configs = add_length 16 \<circ> put_multipart_header OFPMP_METER_CONFIG"
| "request_frame Ask_meter_features = add_length 16 \<circ> put_multipart_header OFPMP_METER_FEATURES"
| "request_frame (Ask_group_stats group_id) =
     (\<lambda>msg. add_length 24 (st32 (start_of_data msg + 16) group_id (put_multipart_header OFPMP_GROUP msg)))"
| "request_frame Ask_group_features = add_length 16 \<circ> put_multipart_header OFPMP_GROUP_FEATURES"
| "request_frame (Ask_role new_role generation_id) =
     (\<lambda>msg. set_length 24 (st64 (start_of_data msg + 16) generation_id
        (st32 (start_of_data msg + 8) new_role (put_header OFPT_ROLE_REQUEST msg))))"
| "request_frame Ask_port_descs = set_length 16 \<circ> put_multipart_header OFPMP_PORT_DESC"
| "request_frame Ask_table_stats = add_length 16 \<circ> put_multipart_header OFPMP_TABLE"
| "request_frame (Ask_port_stats port_no) =
     (\<lambda>msg. add_length 24 (poke (start_of_data msg + 16) (rev (be32 port_no)) (put_multipart_header OFPMP_PORT_STATS msg)))"
| "request_frame Ask_table_features = add_length 16 \<circ> put_multipart_header OFPMP_TABLE_FEATURES"
| "request_frame (Ask_flows q) = add_length 56 \<circ> put_flows_query q \<circ> put_multipart_header OFPMP_FLOW"
| "request_frame (Ask_aggregate q) = add_length 56 \<circ> put_flows_query q \<circ> put_multipart_header OFPMP_AGGREGATE"
| "request_frame Ask_async_config = add_length 8 \<circ> put_header OFPT_GET_ASYNC_REQUEST"

fun passed_on :: "request \<Rightarrow> request_cbk \<Rightarrow> request_cbk" where
  "passed_on Ask_table_features cbk = cbk\<lparr>rk_arg1 := 0, rk_arg2 := 0\<rparr>"
| "passed_on _ cbk = cbk"

lemmas request_defs = of_get_switch_config_msg_def of_get_switch_info_through_channel_def of_get_groups_description_def
  of_get_meter_config_def of_get_meter_features_def of_get_group_statistics_def of_get_groups_features_def
  of_send_role_change_msg_def of_get_port_description_def of_get_table_statistics_def of_get_port_statistics_def
  of_get_table_features_def of_get_flow_entries_def of_get_aggregate_flow_entries_def of_get_async_config_info_def

lemma length_request_body [simp]: "length (multipart_body ty body) = 8 + length body" "length (flows_body q) = 40"
  by (simp_all add: multipart_body_def flows_body_def)

lemma length_request_wire [simp]: "length (request_wire q xid) = 8 + length (request_body q)"
  by (simp add: request_wire_def)

lemma ask_sends:
  assumes "se_datapath_byhandle env h = Some datapath" "rd_main_conn_present datapath" "rd_conn_table datapath \<noteq> None"
    and "unat (buffer_len msg) = length (request_wire q 0)"
  shows "ask q env msg h cbk s
    = CNTLR_Q_2_BARRIERQ_IF_REQUIRED_OTHERWISE_SEND_2_DP env datapath (passed_on q cbk) Request_success (request_frame q msg) s"
proof -
  obtain t where t: "rd_conn_table datapath = Some t" using assms(3) by blast
  note unf = request_defs send_request_def frame_and_send_def with_datapath_def over_main_channel_def
    CNTLR_GET_MAIN_CHANNEL_SAFE_REF_def length_status_def room_status_def layout_simps Let_def comp_def
  show ?thesis using assms(1,2,4) t by (cases q) (simp_all add: unf)
qed

lemmas frame_defs = add_length_def set_length_def put_length_def put_multipart_header_def put_header_def put_flows_query_def
  Let_def

lemma frame_fields [simp]: "start_of_data (request_frame q msg) = start_of_data msg"
  by (cases q) (simp_all add: frame_defs msg_defs)

lemma frame_type: "mem (request_frame q msg) (start_of_data msg + 1) = request_type q"
  by (cases q) (simp_all add: frame_defs msg_defs poke_def write_bytes_outside write_bytes_def)


lemma replicate_3_4: "replicate 3 x = [x, x, x]" "replicate 4 x = [x, x, x, x]"
  by (simp_all add: numeral_eq_Suc)

lemma frame_bytes:
  assumes "zeros (start_of_data msg) (length (request_wire q 0)) (mem msg)" and "data_len msg = 0"
    and "as_openflow q"
  shows "read_bytes (start_of_data msg) (length (request_wire q 0)) (mem (st32 (start_of_data msg + 4) xid (request_frame q msg)))
    = request_wire q xid"
proof -
  let ?s = "start_of_data msg" and ?m = "mem (st32 (start_of_data msg + 4) xid (request_frame q msg))"
  have z: "read_bytes x n (mem msg) = replicate n 0" if "?s \<le> x" "x + n \<le> ?s + length (request_wire q 0)" for x n
    using that assms(1) by (intro read_zeros) (auto intro: zeros_sub)
  note unf = request_wire_def multipart_body_def flows_body_def layout_simps frame_defs msg_defs poke_def
    read_write_disjoint read_write_at assms(2) z replicate_3_4
  have "read_bytes ?s (1 + (1 + (2 + 4))) ?m = request_wire q xid" if "length (request_body q) = 0"
    using that unfolding read_bytes_split by (cases q) (simp_all add: unf)
  moreover have "read_bytes ?s (1 + (1 + (2 + (4 + (2 + 6))))) ?m = request_wire q xid"
    if "length (request_body q) = 8"
    using that unfolding read_bytes_split by (cases q) (simp_all add: unf)
  moreover have "read_bytes ?s (1 + (1 + (2 + (4 + (2 + (6 + (4 + 4))))))) ?m = request_wire q xid"
    if "q = Ask_group_stats g" for g
    using that unfolding read_bytes_split by (simp add: unf)
  moreover have "read_bytes ?s (1 + (1 + (2 + (4 + (4 + (4 + 8)))))) ?m = request_wire q xid"
    if "q = Ask_role r g" for r g
    using that unfolding read_bytes_split by (simp add: unf)
  moreover have "read_bytes ?s (1 + (1 + (2 + (4 + (2 + (6 + (1 + (3 + (4 + (4 + (4 + (8 + (8 + (2 + (2 + 4))))))))))))))) ?m
      = request_wire q xid" if "length (request_body q) = 48"
    using that unfolding read_bytes_split by (cases q) (simp_all add: unf)
  ultimately show ?thesis using assms(3) by (cases q) simp_all
qed


text \<open>A table of requests as it is after some operations, not too many for the numbers to start again.\<close>

definition xtn_reached :: "u32 \<Rightarrow> xtn_op list \<Rightarrow> (nat \<Rightarrow> table_link) \<Rightarrow> (nat \<Rightarrow> cntlr_transactn_rec) \<Rightarrow> xtn_state \<Rightarrow> bool" where
  "xtn_reached init ops L recs s \<longleftrightarrow> (\<forall>y. lk_index (L y) < OF_TRANSACTION_TABLE_MAX_NO_OF_NODES)
     \<and> run_ok (exec_xtn init) xtn_valid ops (cntlr_xtn_table_init L recs)
     \<and> s = snd (run (exec_xtn init) ops (cntlr_xtn_table_init L recs)) \<and> length ops < 2 ^ 31"

lemma reached_inv:
  assumes "xtn_reached init ops L recs s"
  obtains bs where "xtn_inv s bs" and "unat (cntlr_xtn_seq_no_g s) \<le> length ops"
proof -
  let ?rec = "\<lparr>xr_xid = 0, xr_dp_handle = 0, xr_msg_type = 0, xr_msg_subtype = 0, xr_callback_fn = 0,
      xr_app_pvt_arg1 = 0, xr_app_pvt_arg2 = 0, rec_safe_ref = (0, 0)\<rparr>"
  have "followed 0 0 0 ?rec False (cntlr_xtn_table_init L recs) (replicate 1001 [])"
    using new_xtn_inv [of L recs] assms by (simp add: followed_def xtn_reached_def)
  from followed_run [OF this, of init ops] assms show thesis
    by (auto simp: xtn_reached_def cntlr_xtn_table_init_def followed_def intro: that)
qed

text \<open>There is room for one more record, and the pool gives out a block for it.\<close>

definition can_record :: "send_env \<Rightarrow> nat \<Rightarrow> xtn_state \<Rightarrow> bool" where
  "can_record env a s \<longleftrightarrow> se_block env = Some a \<and> a \<notin> set (live s) \<and> length (live s) < OF_TRANSACTION_TABLE_MAX_NO_OF_NODES
     \<and> se_timer_ok env \<and> se_sent_ok env"

lemma recorded:
  assumes "xtn_reached init ops L recs s" and "can_record env a s"
  obtains ref s' where "cntlr_record_xtn_details init (Some a) True m start dp fn arg1 arg2 s = (Some ref, s')"
    and "xtn_reached init ops L recs s" "cntlr_xtn_seq_no_g s' = cntlr_xtn_seq_no_g s + 1"
proof -
  obtain bs where bs: "xtn_inv s bs" "unat (cntlr_xtn_seq_no_g s) \<le> length ops" using reached_inv [OF assms(1)] .
  have l: "live s = concat bs" by (rule live_inv [OF bs(1)])
  have a: "a \<notin> set (concat bs)" and room: "sum_list (map length bs) < OF_TRANSACTION_TABLE_MAX_NO_OF_NODES"
    using assms(2) l by (simp_all add: can_record_def length_concat del: set_concat)
  have n: "cntlr_xtn_seq_no_g s \<noteq> - 1" using bs(2) assms(1) unat_u32_max by (auto simp: xtn_reached_def)
  obtain ref s' where e: "cntlr_record_xtn_details init (Some a) True m start dp fn arg1 arg2 s = (Some ref, s')"
    using record_ok [OF bs(1) a room, of init m start dp fn arg1 arg2]
    by (cases "cntlr_record_xtn_details init (Some a) True m start dp fn arg1 arg2 s") auto
  show thesis using that [OF e assms(1)] record_step [OF bs(1) a n e] by blast
qed

text \<open>A request that was recorded, through whatever comes next.\<close>

lemma recorded_stays:
  assumes r: "xtn_reached init ops L recs s" and a: "a \<notin> set (live s)"
    and e: "cntlr_record_xtn_details init (Some a) True m start dp fn arg1 arg2 s = (Some ref, s')"
    and ops': "run_ok (exec_xtn init) xtn_valid ops' s'" "snd (run (exec_xtn init) ops' s') = s''" "length ops' < 2 ^ 31 - 2"
  obtains bs rc where "followed a (cntlr_xtn_seq_no_g s') (OF_TRANSACTION_TABLE_HASH init (cntlr_xtn_seq_no_g s') (xd_id dp))
      rc (Remove a \<notin> set ops') s'' bs"
    and "xr_callback_fn rc = fn" "xr_app_pvt_arg1 rc = arg1" "xr_app_pvt_arg2 rc = arg2"
proof -
  let ?op = "Record (Some a) True m start dp fn arg1 arg2" and ?fresh = "cntlr_xtn_table_init L recs"
  have s: "snd (run (exec_xtn init) ops ?fresh) = s" using r by (simp add: xtn_reached_def)
  have ok: "run_ok (exec_xtn init) xtn_valid (ops @ ?op # ops') ?fresh"
    using r s a e ops'(1) by (simp add: xtn_reached_def run_ok_append)
  obtain rs where run: "run (exec_xtn init) (ops @ [?op]) ?fresh = (rs, s')" "last rs \<noteq> None"
    using s e by (auto simp: run_append Let_def split_beta)
  show thesis
    using recorded_followed [OF _ ok run ops'(2)] r ops'(3) that by (auto simp: xtn_reached_def)
qed

lemma sent_recorded:
  assumes "is_rec_xtn (mem msg (start_of_data msg + 1))" and "can_record env a s"
    and "cntlr_record_xtn_details (se_init env) (Some a) True (mem msg) (start_of_data msg) (rd_xtn datapath)
      (rk_callback_fn cbk) (rk_arg1 cbk) (rk_arg2 cbk) s = (Some ref, s')"
  shows "CNTLR_Q_2_BARRIERQ_IF_REQUIRED_OTHERWISE_SEND_2_DP env datapath cbk status msg s =
    Some \<lparr>ro_status = status, ro_msg = st32 (start_of_data msg + 4) (cntlr_xtn_seq_no_g s') msg, ro_sent = True,
      ro_released = False, ro_state = s'\<rparr>"
  using assms
  by (simp add: CNTLR_Q_2_BARRIERQ_IF_REQUIRED_OTHERWISE_SEND_2_DP_def cntlr_send_msg_to_dp_def can_record_def Let_def)

lemma request_recorded: "is_rec_xtn (request_type q)"
  by (cases q) (simp_all add: is_rec_xtn_def)

lemma ask_recorded:
  assumes "se_datapath_byhandle env h = Some datapath" "rd_main_conn_present datapath" "rd_conn_table datapath \<noteq> None"
    and "unat (buffer_len msg) = length (request_wire q 0)" and "data_len msg = 0"
    and "zeros (start_of_data msg) (length (request_wire q 0)) (mem msg)"
    and "as_openflow q"
    and "xtn_reached (se_init env) ops L recs s" and "can_record env a s"
  obtains s' ref m where "ask q env msg h cbk s
      = Some \<lparr>ro_status = Request_success, ro_msg = m, ro_sent = True, ro_released = False, ro_state = s'\<rparr>"
    and "start_of_data m = start_of_data msg"
    and "read_bytes (start_of_data msg) (length (request_wire q 0)) (mem m) = request_wire q (cntlr_xtn_seq_no_g s')"
    and "cntlr_record_xtn_details (se_init env) (Some a) True (mem (request_frame q msg)) (start_of_data msg) (rd_xtn datapath)
      (rk_callback_fn (passed_on q cbk)) (rk_arg1 (passed_on q cbk)) (rk_arg2 (passed_on q cbk)) s = (Some ref, s')"
    and "cntlr_xtn_seq_no_g s' = cntlr_xtn_seq_no_g s + 1"
proof -
  let ?m = "request_frame q msg" and ?c = "passed_on q cbk"
  obtain ref s' where e: "cntlr_record_xtn_details (se_init env) (Some a) True (mem ?m) (start_of_data msg) (rd_xtn datapath)
      (rk_callback_fn ?c) (rk_arg1 ?c) (rk_arg2 ?c) s = (Some ref, s')" and x: "cntlr_xtn_seq_no_g s' = cntlr_xtn_seq_no_g s + 1"
    using recorded [OF assms(8,9)] by metis
  have "ask q env msg h cbk s = Some \<lparr>ro_status = Request_success,
      ro_msg = st32 (start_of_data msg + 4) (cntlr_xtn_seq_no_g s') ?m, ro_sent = True, ro_released = False, ro_state = s'\<rparr>"
    using ask_sends [OF assms(1-4)] sent_recorded [of ?m env a s datapath ?c ref s'] assms(9) e frame_type [of q msg]
      request_recorded [of q] by simp
  then show thesis
    using that e x frame_bytes [OF assms(6,5,7), of "cntlr_xtn_seq_no_g s'"] by (simp add: msg_defs)
qed

text \<open>
  C25: Each of thirteen requests to a connected datapath, in a new zeroed message of its
  length, is sent with the bytes that OpenFlow has for it and the next transaction number, and under that
  number its record is found, with the function it was made with; there has to be room for the record,
  its timer has to start and the transport to take the message.  Requests for port statistics and for
  meter configurations are excluded, since their bytes are not those of OpenFlow.
\<close>

theorem asked_and_found:
  assumes "se_datapath_byhandle env h = Some datapath" and "rd_main_conn_present datapath"
    and "rd_conn_table datapath \<noteq> None"
    and "unat (buffer_len msg) = length (request_wire q 0)" and "data_len msg = 0"
    and "zeros (start_of_data msg) (length (request_wire q 0)) (mem msg)"
    and "as_openflow q"
    and "xtn_reached (se_init env) ops L recs s" and "can_record env a s"
  shows "\<exists>r. ask q env msg h cbk s = Some r \<and> ro_status r = Request_success \<and> ro_sent r
    \<and> read_bytes (start_of_data msg) (length (request_wire q 0)) (mem (ro_msg r)) = request_wire q (cntlr_xtn_seq_no_g s + 1)
    \<and> cntlr_get_xtn_details (se_init env) (cntlr_xtn_seq_no_g s + 1) (xd_id (rd_xtn datapath)) (ro_state r) = Some a
    \<and> xr_callback_fn (xtn_recs (ro_state r) a) = rk_callback_fn cbk"
proof -
  let ?dp = "rd_xtn datapath" and ?c = "passed_on q cbk"
  obtain s' ref m where r: "ask q env msg h cbk s
      = Some \<lparr>ro_status = Request_success, ro_msg = m, ro_sent = True, ro_released = False, ro_state = s'\<rparr>"
    "read_bytes (start_of_data msg) (length (request_wire q 0)) (mem m) = request_wire q (cntlr_xtn_seq_no_g s')"
    and e: "cntlr_record_xtn_details (se_init env) (Some a) True (mem (request_frame q msg)) (start_of_data msg) ?dp
      (rk_callback_fn ?c) (rk_arg1 ?c) (rk_arg2 ?c) s = (Some ref, s')"
    and x: "cntlr_xtn_seq_no_g s' = cntlr_xtn_seq_no_g s + 1"
    using ask_recorded [OF assms] by metis
  obtain bs rc where f: "followed a (cntlr_xtn_seq_no_g s') (OF_TRANSACTION_TABLE_HASH (se_init env) (cntlr_xtn_seq_no_g s') (xd_id ?dp))
      rc True s' bs" and rc: "xr_callback_fn rc = rk_callback_fn ?c"
    by (rule recorded_stays [OF assms(8) _ e, of "[]" s']) (use assms(9) that in \<open>auto simp: can_record_def\<close>)
  have "xtn_recs s' a = rc" "rk_callback_fn ?c = rk_callback_fn cbk" using f by (cases q; simp add: followed_def)+
  then show ?thesis using r followed_get [OF f] x rc by simp
qed


section \<open>From the request to the answer\<close>

lemma alloc_request_message:
  assumes "ofu_alloc_message get of_cntlr_msg_init ty (of_nat n) st = (Some (blk, mk), st')" and "8 dvd n" and "n < 65536"
  shows "unat (buffer_len (mk data cells)) = n" and "data_len (mk data cells) = 0"
    and "start_of_data (mk data cells) = data" and "mem (mk data cells) = cells"
proof -
  have u: "unat (of_nat n :: u16) = n" using assms(3) by (simp add: unat_of_nat)
  have r: "ROUND_UP n = 0" using assms(2) by (rule round_up_0)
  have "padded (of_nat n) = of_nat n" by (simp add: padded_def u r)
  then have mk: "mk = init_msg ty (of_nat n)"
    using assms(1) by (auto simp: ofu_alloc_message_def Let_def split: if_splits prod.splits option.splits)
  show "unat (buffer_len (mk data cells)) = n" "data_len (mk data cells) = 0"
    "start_of_data (mk data cells) = data" "mem (mk data cells) = cells"
    by (simp_all add: mk init_msg_def u r)
qed

lemma length_wire_aligned: "8 dvd length (request_wire q 0)" "length (request_wire q 0) < 65536"
  by (cases q; simp)+

lemma with_message_sends:
  assumes dp: "se_datapath_byhandle env h = Some datapath" "rd_main_conn_present datapath" "rd_conn_table datapath \<noteq> None"
    and alloc: "ofu_alloc_message (se_get_mem_block env) of_cntlr_msg_init ty (of_nat (length (request_wire q 0))) st
      = (Some (blk, mk), st')"
    and z: "zeros (se_data_of env blk) (length (request_wire q 0)) (se_cells env)"
    and port: "as_openflow q"
    and s: "xtn_reached (se_init env) ops L recs s" "can_record env a s"
  obtains m s' frame ref where "with_message env ty (length (request_wire q 0)) (\<lambda>msg. ask q env msg h cbk) st s
      = Some \<lparr>is_status = Request_success, is_sent = [m], is_pool = st', is_state = s'\<rparr>"
    and "start_of_data m = se_data_of env blk"
    and "read_bytes (se_data_of env blk) (length (request_wire q 0)) (mem m) = request_wire q (cntlr_xtn_seq_no_g s')"
    and "cntlr_record_xtn_details (se_init env) (Some a) True frame (se_data_of env blk) (rd_xtn datapath)
      (rk_callback_fn cbk) (rk_arg1 (passed_on q cbk)) (rk_arg2 (passed_on q cbk)) s = (Some ref, s')"
    and "cntlr_xtn_seq_no_g s' = cntlr_xtn_seq_no_g s + 1"
proof -
  let ?msg = "mk (se_data_of env blk) (se_cells env)"
  note m = alloc_request_message [OF alloc length_wire_aligned, of "se_data_of env blk" "se_cells env"]
  have z': "zeros (start_of_data ?msg) (length (request_wire q 0)) (mem ?msg)" using z m by simp
  obtain s' ref m' where r: "ask q env ?msg h cbk s
      = Some \<lparr>ro_status = Request_success, ro_msg = m', ro_sent = True, ro_released = False, ro_state = s'\<rparr>"
    and m': "start_of_data m' = start_of_data ?msg"
      "read_bytes (start_of_data ?msg) (length (request_wire q 0)) (mem m') = request_wire q (cntlr_xtn_seq_no_g s')"
    and e: "cntlr_record_xtn_details (se_init env) (Some a) True (mem (request_frame q ?msg)) (start_of_data ?msg) (rd_xtn datapath)
      (rk_callback_fn (passed_on q cbk)) (rk_arg1 (passed_on q cbk)) (rk_arg2 (passed_on q cbk)) s = (Some ref, s')"
    and x: "cntlr_xtn_seq_no_g s' = cntlr_xtn_seq_no_g s + 1"
    using ask_recorded [OF dp m(1,2) z' port s] by metis
  have "rk_callback_fn (passed_on q cbk) = rk_callback_fn cbk" by (cases q) simp_all
  then show thesis
    using that [of m' s' _ ref] r m' alloc e x m(3) by (simp add: with_message_def sent_messages_def after_transport_def)
qed

text \<open>
  C26: When the application asks a connected datapath for its flows, and the message, the
  record and its timer are to be had and the transport takes the message, then the message that goes out is
  the request of OpenFlow for all flows.  When the answer comes in one or more messages, each of which
  describes at least one flow (\<open>flow_parts\<close>), whatever else was recorded and deleted in between, the function
  of the application is called once for each flow, in order, and the request is forgotten after the last
  message.  The flows are those that the readers keep, as for a single message (\<open>readable_flow_stat\<close>), and
  nothing is claimed of the flag for more entries.  An answer without flows, which the handler reports as
  an error (\<open>of_cntlr_msg.c\<close> 2322), is not covered.
\<close>

theorem flows_delivered:
  assumes "se_datapath_byhandle env h = Some datapath" and "rd_main_conn_present datapath"
    and "rd_conn_table datapath \<noteq> None"
    and "ofu_alloc_message (se_get_mem_block env) of_cntlr_msg_init OFPT_MULTIPART_REQUEST 56 st = (Some (blk, mk), st')"
    and "zeros (se_data_of env blk) 56 (se_cells env)"
    and "xtn_reached (se_init env) ops L recs s" and "can_record env a s"
    and "the (cntlr_send_flow_stats_request env h st s) = r"
    and "run_ok (exec_xtn (se_init env)) xtn_valid ops' (is_state r)" and "length ops' < 2 ^ 31 - 2" and "Remove a \<notin> set ops'"
    and "snd (run (exec_xtn (se_init env)) ops' (is_state r)) = s1" and "flow_parts (cntlr_xtn_seq_no_g s + 1) ps fss"
  shows "cntlr_send_flow_stats_request env h st s = Some r \<and> is_status r = Request_success
    \<and> (\<exists>m. is_sent r = [m]
         \<and> read_bytes (start_of_data m) 56 (mem m) = request_wire (Ask_flows all_flows) (cntlr_xtn_seq_no_g s + 1))
    \<and> (\<exists>flags. length flags = length (concat fss) \<and> fst (handle_parts (se_init env) (rd_xtn datapath) g ps ch s1)
      = map (\<lambda>e. (se_address env cntlr_handle_flow_stats_msg, Flow_stats e))
          (map2 (flow_event \<lparr>rc_domain_handle = xd_domain (rd_xtn datapath), rc_datapath_handle = xd_handle (rd_xtn datapath),
             rc_app_pvt_arg1 = 0, rc_app_pvt_arg2 = 0\<rparr>) (concat fss) flags))
    \<and> cntlr_get_xtn_details (se_init env) (cntlr_xtn_seq_no_g s + 1) (xd_id (rd_xtn datapath))
        (snd (handle_parts (se_init env) (rd_xtn datapath) g ps ch s1)) = None"
proof -
  let ?q = "Ask_flows all_flows" and ?cbk = "app_callback env cntlr_handle_flow_stats_msg"
  have len: "length (request_wire ?q 0) = 56" by simp
  have eq: "cntlr_send_flow_stats_request env h st s
      = with_message env OFPT_MULTIPART_REQUEST (length (request_wire ?q 0)) (\<lambda>msg. ask ?q env msg h ?cbk) st s"
    by (simp add: cntlr_send_flow_stats_request_def layout_simps)
  obtain m s' frame ref where w: "cntlr_send_flow_stats_request env h st s
      = Some \<lparr>is_status = Request_success, is_sent = [m], is_pool = st', is_state = s'\<rparr>"
    and m: "start_of_data m = se_data_of env blk"
      "read_bytes (se_data_of env blk) (length (request_wire ?q 0)) (mem m) = request_wire ?q (cntlr_xtn_seq_no_g s')"
    and e: "cntlr_record_xtn_details (se_init env) (Some a) True frame (se_data_of env blk) (rd_xtn datapath)
        (rk_callback_fn ?cbk) (rk_arg1 (passed_on ?q ?cbk)) (rk_arg2 (passed_on ?q ?cbk)) s = (Some ref, s')"
    and x: "cntlr_xtn_seq_no_g s' = cntlr_xtn_seq_no_g s + 1"
    unfolding eq
    by (rule with_message_sends [OF assms(1-3) _ _ _ assms(6,7), of OFPT_MULTIPART_REQUEST ?q st blk mk st'])
      (use assms(4,5) len that in auto)
  have rr: "r = \<lparr>is_status = Request_success, is_sent = [m], is_pool = st', is_state = s'\<rparr>" using w assms(8) by auto
  then have r: "is_state r = s'" by simp
  obtain bs rc where f: "followed a (cntlr_xtn_seq_no_g s') (OF_TRANSACTION_TABLE_HASH (se_init env) (cntlr_xtn_seq_no_g s') (xd_id (rd_xtn datapath)))
      rc True s1 bs" and rc: "xr_callback_fn rc = rk_callback_fn ?cbk" "xr_app_pvt_arg1 rc = 0" "xr_app_pvt_arg2 rc = 0"
    by (rule recorded_stays [OF assms(6) _ e, of ops' s1])
      (use assms(7,9-12) r that in \<open>auto simp: can_record_def app_callback_def\<close>)
  obtain bs' where "followed a (cntlr_xtn_seq_no_g s') (OF_TRANSACTION_TABLE_HASH (se_init env) (cntlr_xtn_seq_no_g s') (xd_id (rd_xtn datapath)))
      rc False (snd (cntlr_del_xtn_with_rec a s1)) bs'"
    using followed_remove [OF f, of a] by auto
  from followed_get [OF this] parts_handled [OF f, of ps fss g ch] assms(13) w m rc x len
       parts_events_flags [of fss "\<lparr>rc_domain_handle = xd_domain (rd_xtn datapath),
         rc_datapath_handle = xd_handle (rd_xtn datapath), rc_app_pvt_arg1 = 0, rc_app_pvt_arg2 = 0\<rparr>"]
  show ?thesis by (auto simp: app_callback_def rr)
qed


text \<open>The situation of the witnesses: the first request, to a connected datapath, recorded at 5.\<close>

definition sample_send_env :: send_env where
  "sample_send_env = \<lparr>se_datapath_byhandle = (\<lambda>h. if h = 2
       then Some \<lparr>rd_main_conn_present = True, rd_conn_table = Some 70, rd_xtn = Xtn.sample_datapath\<rparr> else None),
     se_init = 7, se_block = Some 5, se_timer_ok = True, se_sent_ok = True, se_released = False,
     se_get_mem_block = sample_get,
     se_data_of = (\<lambda>_. 1000), se_cells = (\<lambda>_. 0), se_address = (\<lambda>_. 11)\<rparr>"

definition fresh_table :: xtn_state where
  "fresh_table = cntlr_xtn_table_init blank_links blank_recs"

lemma fresh_table: "xtn_reached 7 [] blank_links blank_recs fresh_table" "cntlr_xtn_seq_no_g fresh_table = 0"
  "can_record sample_send_env 5 fresh_table"
proof -
  have inv: "xtn_inv fresh_table (replicate 1001 [])"
    unfolding fresh_table_def by (rule new_xtn_inv) (simp add: OF_TRANSACTION_TABLE_MAX_NO_OF_NODES_def)
  have "concat (replicate 1001 ([] :: nat list)) = []" by simp
  then have "live fresh_table = []" using live_inv [OF inv] by argo
  then show "can_record sample_send_env 5 fresh_table"
    by (simp add: can_record_def sample_send_env_def OF_TRANSACTION_TABLE_MAX_NO_OF_NODES_def)
  show "xtn_reached 7 [] blank_links blank_recs fresh_table" "cntlr_xtn_seq_no_g fresh_table = 0"
    by (simp_all add: xtn_reached_def fresh_table_def cntlr_xtn_table_init_def OF_TRANSACTION_TABLE_MAX_NO_OF_NODES_def)
qed

definition role_message :: of_msg where
  "role_message = init_msg OFPT_ROLE_REQUEST 24 1000 (\<lambda>_. 0)"

definition sample_request_datapath :: request_datapath where
  "sample_request_datapath = \<lparr>rd_main_conn_present = True, rd_conn_table = Some 70, rd_xtn = Xtn.sample_datapath\<rparr>"

lemma sample_send_env:
  "se_datapath_byhandle sample_send_env 2 = Some sample_request_datapath" "se_init sample_send_env = 7"
  "rd_main_conn_present sample_request_datapath" "rd_conn_table sample_request_datapath \<noteq> None"
  "rd_xtn sample_request_datapath = Xtn.sample_datapath" "se_address sample_send_env f = 11"
  "se_get_mem_block sample_send_env = sample_get" "se_data_of sample_send_env = (\<lambda>_. 1000)"
  "se_cells sample_send_env = (\<lambda>_. 0)"
  by (simp_all add: sample_send_env_def sample_request_datapath_def)

lemma zeros_blank: "zeros a n (\<lambda>_. 0)"
  by (simp add: zeros_def)

lemma asked_and_found_witness:
  "\<exists>r. of_send_role_change_msg 2 9 sample_send_env role_message 2 (app_callback sample_send_env of_controller_role_change_reply_fn)
      fresh_table = Some r
    \<and> read_bytes 1000 24 (mem (ro_msg r)) = [4, 24, 0, 24, 0, 0, 0, 1, 0, 0, 0, 2, 0, 0, 0, 0, 0, 0, 0, 0, 0, 0, 0, 9]"
proof -
  have m: "unat (buffer_len role_message) = length (request_wire (Ask_role 2 9) 0)" "data_len role_message = 0"
    "start_of_data role_message = 1000" "mem role_message = (\<lambda>_. 0)"
    by (simp_all add: role_message_def init_msg_def ROUND_UP_def)
  have w: "request_wire (Ask_role 2 9) 1 = [4, 24, 0, 24, 0, 0, 0, 1, 0, 0, 0, 2, 0, 0, 0, 0, 0, 0, 0, 0, 0, 0, 0, 9]"
    "length (request_wire (Ask_role 2 9) 0) = 24"
    by (simp_all add: request_wire_def OFPT_ROLE_REQUEST_def be16_def be32_def be64_def)
  obtain r where r: "ask (Ask_role 2 9) sample_send_env role_message 2
      (app_callback sample_send_env of_controller_role_change_reply_fn) fresh_table = Some r"
    "read_bytes 1000 (length (request_wire (Ask_role 2 9) 0)) (mem (ro_msg r)) = request_wire (Ask_role 2 9) 1"
    using asked_and_found [OF sample_send_env(1,3,4) m(1,2), of "[]" blank_links blank_recs fresh_table 5
        "app_callback sample_send_env of_controller_role_change_reply_fn"]
      m fresh_table sample_send_env(2) zeros_blank by auto
  then show ?thesis unfolding w by auto
qed

lemma flows_delivered_witness:
  "\<forall>g ch. \<exists>r. cntlr_send_flow_stats_request sample_send_env 2 sample_pool fresh_table = Some r
    \<and> map fst (fst (handle_parts 7 Xtn.sample_datapath g
        [(sample_part 1 (encoding flow_stat_bytes [sample_flow, sample_drop]), 1000, 1000),
         (sample_part 0 (encoding flow_stat_bytes [sample_drop]), 1000, 1000)] ch (is_state r))) = [11, 11, 11]"
proof (intro allI)
  fix g ch
  let ?ps = "[(sample_part 1 (encoding flow_stat_bytes [sample_flow, sample_drop]), 1000, 1000),
      (sample_part 0 (encoding flow_stat_bytes [sample_drop]), 1000, 1000)]"
  let ?r = "the (cntlr_send_flow_stats_request sample_send_env 2 sample_pool fresh_table)"
  obtain blk mk st' where al: "ofu_alloc_message (se_get_mem_block sample_send_env) of_cntlr_msg_init OFPT_MULTIPART_REQUEST 56
      sample_pool = (Some (blk, mk), st')"
    using sample_alloc [of 56 OFPT_MULTIPART_REQUEST] by (fastforce simp: sample_send_env)
  have parts: "flow_parts (cntlr_xtn_seq_no_g fresh_table + 1) ?ps [[sample_flow, sample_drop], [sample_drop]]"
    using sample_part [of "[sample_flow, sample_drop]" 1] sample_part [of "[sample_drop]" 0] sample_flows
    by (simp add: fresh_table OFPMPF_REPLY_MORE_def del: length_flow_stat)
  have z: "zeros (se_data_of sample_send_env blk) 56 (se_cells sample_send_env)" by (simp add: sample_send_env zeros_blank)
  have reach: "xtn_reached (se_init sample_send_env) [] blank_links blank_recs fresh_table"
    using fresh_table(1) by (simp add: sample_send_env)
  have run: "run_ok (exec_xtn (se_init sample_send_env)) xtn_valid [] s" "length ([] :: xtn_op list) < 2 ^ 31 - 2"
    "Remove 5 \<notin> set []" "snd (run (exec_xtn (se_init sample_send_env)) [] s) = s" for s
    by simp_all
  note f = flows_delivered [OF sample_send_env(1,3,4) al z reach fresh_table(3) refl run parts, of g ch,
      unfolded sample_send_env(2,5,6)]
  have sent: "cntlr_send_flow_stats_request sample_send_env 2 sample_pool fresh_table = Some ?r"
    by (rule conjunct1 [OF f])
  have "\<exists>flags. length flags = length (concat [[sample_flow, sample_drop], [sample_drop]])
      \<and> fst (handle_parts 7 Xtn.sample_datapath g ?ps ch (is_state ?r))
        = map (\<lambda>e. (11, Flow_stats e)) (map2 (flow_event \<lparr>rc_domain_handle = xd_domain Xtn.sample_datapath,
            rc_datapath_handle = xd_handle Xtn.sample_datapath, rc_app_pvt_arg1 = 0, rc_app_pvt_arg2 = 0\<rparr>)
            (concat [[sample_flow, sample_drop], [sample_drop]]) flags)"
    by (rule conjunct1 [OF conjunct2 [OF conjunct2 [OF conjunct2 [OF f]]]])
  then obtain flags :: "bool list" and c where d: "length flags = length (concat [[sample_flow, sample_drop], [sample_drop]])"
    "fst (handle_parts 7 Xtn.sample_datapath g ?ps ch (is_state ?r))
      = map (\<lambda>e. (11, Flow_stats e)) (map2 (flow_event c) (concat [[sample_flow, sample_drop], [sample_drop]]) flags)"
    by (elim exE conjE) (rule that)
  have three: "map fst (map (\<lambda>e. (11 :: nat, Flow_stats e)) zs) = replicate (length zs) 11" for zs
    by (simp add: comp_def map_replicate_const)
  have "map fst (fst (handle_parts 7 Xtn.sample_datapath g ?ps ch (is_state ?r))) = [11, 11, 11]"
    unfolding d(2) three using d(1) by simp
  with sent show "\<exists>r. cntlr_send_flow_stats_request sample_send_env 2 sample_pool fresh_table = Some r
    \<and> map fst (fst (handle_parts 7 Xtn.sample_datapath g ?ps ch (is_state r))) = [11, 11, 11]"
    by (intro exI [of _ ?r] conjI)
qed

section \<open>Requests that are not sent\<close>

lemma transport_outcome:
  "CNTLR_Q_2_BARRIERQ_IF_REQUIRED_OTHERWISE_SEND_2_DP env datapath cbk Request_success msg s = Some r
    \<Longrightarrow> (ro_status r = Request_success) = ro_sent r"
  by (auto simp: CNTLR_Q_2_BARRIERQ_IF_REQUIRED_OTHERWISE_SEND_2_DP_def Let_def split: if_splits)

text \<open>A request that ends without the transport has released nothing.\<close>

lemma transport_released:
  "CNTLR_Q_2_BARRIERQ_IF_REQUIRED_OTHERWISE_SEND_2_DP env datapath cbk status msg s = Some r
    \<Longrightarrow> ro_released r \<longrightarrow> se_released env"
  by (auto simp: CNTLR_Q_2_BARRIERQ_IF_REQUIRED_OTHERWISE_SEND_2_DP_def Let_def)

lemma ask_released:
  assumes "ask q env msg h cbk s = Some r"
  shows "ro_released r \<longrightarrow> se_released env"
proof -
  have r: "refused status msg s = Some r \<Longrightarrow> \<not> ro_released r" for status msg and s :: xtn_state
    by (auto simp: refused_def)
  show ?thesis
    using assms
    by (cases q) (auto simp: request_defs send_request_def frame_and_send_def with_datapath_def over_main_channel_def
      CNTLR_GET_MAIN_CHANNEL_SAFE_REF_def Let_def dest: transport_released r split: if_splits option.splits)
qed

lemma ask_outcome:
  assumes "unat (buffer_len msg) = length (request_wire q 0)" and "ask q env msg h cbk s = Some r"
  shows "(ro_status r = Request_success) = ro_sent r"
proof -
  note unf = request_defs send_request_def frame_and_send_def with_datapath_def over_main_channel_def
    CNTLR_GET_MAIN_CHANNEL_SAFE_REF_def length_status_def room_status_def layout_simps Let_def comp_def refused_def
  show ?thesis
  proof (cases "se_datapath_byhandle env h")
    case None
    then show ?thesis using assms by (cases q) (auto simp: unf)
  next
    case (Some datapath)
    show ?thesis
    proof (cases "rd_conn_table datapath = None \<or> \<not> rd_main_conn_present datapath \<and> q \<noteq> Ask_switch_config")
      case True
      then show ?thesis using assms Some by (cases q) (auto simp: unf split: if_splits)
    next
      case False
      have "ask q env msg h cbk s
          = CNTLR_Q_2_BARRIERQ_IF_REQUIRED_OTHERWISE_SEND_2_DP env datapath (passed_on q cbk) Request_success (request_frame q msg) s"
        using False assms(1) Some by (cases q) (auto simp: unf)
      then show ?thesis using transport_outcome assms(2) by metis
    qed
  qed
qed



section \<open>What goes wrong\<close>

text \<open>The identifier of the meter is written behind the message, which does not count it.\<close>

lemma transport_msg:
  "CNTLR_Q_2_BARRIERQ_IF_REQUIRED_OTHERWISE_SEND_2_DP env datapath cbk status msg s = Some r
    \<Longrightarrow> ro_msg r = msg \<or> (\<exists>x. ro_msg r = st32 (start_of_data msg + 4) x msg)"
  by (auto simp: CNTLR_Q_2_BARRIERQ_IF_REQUIRED_OTHERWISE_SEND_2_DP_def Let_def split: if_splits)

lemma send_request_msg:
  assumes "se_datapath_byhandle env h = Some datapath" and "rd_main_conn_present datapath" and "rd_conn_table datapath \<noteq> None"
    and "send_request check frame env msg h cbk s = Some r"
  shows "ro_msg r = frame msg \<or> (\<exists>x. ro_msg r = st32 (start_of_data (frame msg) + 4) x (frame msg))"
  using assms transport_msg
  by (simp add: send_request_def with_datapath_def over_main_channel_def CNTLR_GET_MAIN_CHANNEL_SAFE_REF_def split: if_splits)

lemma meter_behind_message:
  assumes "se_datapath_byhandle env h = Some datapath" and "rd_main_conn_present datapath" and "rd_conn_table datapath \<noteq> None"
    and "unat (buffer_len msg) = OFU_METER_STATS_REQ_MESSAGE_LEN" and "data_len msg = 0"
    and "of_get_meter_statistics meter_id env msg h cbk s = Some r"
  shows "read_bytes (buf_end msg) 4 (mem (ro_msg r)) = be32 meter_id \<and> data_len (ro_msg r) = 16"
proof -
  let ?frame = "add_length 16 (st32 (start_of_data msg + 16) meter_id (put_multipart_header OFPMP_METER msg))"
  have "ro_msg r = ?frame \<or> (\<exists>x. ro_msg r = st32 (start_of_data ?frame + 4) x ?frame)"
    using send_request_msg [OF assms(1-3) assms(6) [unfolded of_get_meter_statistics_def]] by (simp add: layout_simps Let_def)
  moreover have "start_of_data ?frame = start_of_data msg" "data_len ?frame = 16"
    "read_bytes (start_of_data msg + 16) 4 (mem ?frame) = be32 meter_id"
    using assms(5) by (simp_all add: frame_defs msg_defs poke_def read_write_disjoint read_write_at)
  ultimately show ?thesis
    using assms(4) by (auto simp: buf_end_def layout_simps msg_defs poke_def read_write_disjoint)
qed

text \<open>The request for bound objects asks for the description of the switch: its type stands where nobody reads it.\<close>

lemma bind_request_misread:
  assumes "se_datapath_byhandle env h = Some datapath" and "rd_main_conn_present datapath" and "rd_conn_table datapath \<noteq> None"
    and "zeros (start_of_data msg) 32 (mem msg)" and "of_get_bind_entries bind_obj_id env msg h cbk s = Some r"
  shows "be16_at (mem (ro_msg r)) (start_of_data msg + 8) = OFPMP_DESC"
proof -
  let ?s = "start_of_data msg"
  let ?frame = "add_length 32 (poke (?s + 24) (be16 (ucast bind_obj_id) @ [0, 0]) (poke (?s + 12) (be16 FSLX_MP_BO_INFO @ [0, 0])
    (st16 (?s + 16) OFPMP_EXPERIMENTER (put_header OFPT_MULTIPART_REQUEST msg))))"
  have z: "read_bytes (?s + 8) 2 (mem msg) = [0, 0]"
    using read_zeros [OF zeros_sub [OF assms(4)], of "?s + 8" 2] by (simp add: numeral_eq_Suc)
  have "ro_msg r = ?frame \<or> (\<exists>x. ro_msg r = st32 (start_of_data ?frame + 4) x ?frame)"
    using send_request_msg [OF assms(1-3) assms(5) [unfolded of_get_bind_entries_def]] by (simp add: layout_simps Let_def)
  moreover have "start_of_data ?frame = ?s" "read_bytes (?s + 8) 2 (mem ?frame) = [0, 0]"
    using z by (simp_all add: frame_defs msg_defs poke_def read_write_disjoint)
  ultimately have "read_bytes (?s + 8) 2 (mem (ro_msg r)) = [0, 0]"
    by (auto simp: msg_defs poke_def read_write_disjoint)
  then show ?thesis by (simp add: be16_at_def OFPMP_DESC_def of_be_def)
qed

text \<open>The port of a request for port statistics is stored with its bytes reversed.\<close>

lemma port_reversed:
  assumes "se_datapath_byhandle env h = Some datapath" and "rd_main_conn_present datapath" and "rd_conn_table datapath \<noteq> None"
    and "of_get_port_statistics port_no env msg h cbk s = Some r" and "ro_sent r"
  shows "read_bytes (start_of_data msg + 16) 4 (mem (ro_msg r)) = rev (be32 port_no)"
proof -
  let ?frame = "add_length 24 (poke (start_of_data msg + 16) (rev (be32 port_no)) (put_multipart_header OFPMP_PORT_STATS msg))"
  have s: "send_request (\<lambda>_. Request_success) (\<lambda>msg. add_length 24 (poke (start_of_data msg + 16) (rev (be32 port_no))
      (put_multipart_header OFPMP_PORT_STATS msg))) env msg h cbk s = Some r"
    using assms(4,5) by (auto simp: of_get_port_statistics_def layout_simps Let_def refused_def split: if_splits)
  have "ro_msg r = ?frame \<or> (\<exists>x. ro_msg r = st32 (start_of_data ?frame + 4) x ?frame)"
    using send_request_msg [OF assms(1-3) s] by simp
  moreover have "start_of_data ?frame = start_of_data msg"
    "read_bytes (start_of_data msg + 16) 4 (mem ?frame) = rev (be32 port_no)"
    by (simp_all add: frame_defs msg_defs poke_def read_write_disjoint read_write_at)
  ultimately show ?thesis by (auto simp: msg_defs poke_def read_write_disjoint)
qed

text \<open>
  A barrier for a datapath that is not there keeps its message, and one without a message counts as sent.
\<close>

lemma barrier_kept:
  assumes "se_datapath_byhandle env h = None"
    and "ofu_alloc_message (se_get_mem_block env) of_cntlr_msg_init OFPT_BARRIER_REQUEST 8 st = (Some (blk, mk), st')"
  shows "\<exists>r. of_send_barrier_request_msg env h cbk st s = Some r \<and> is_status r = Invalid_datapath_handle \<and> is_sent r = []
    \<and> ref_cnt (pvt_info (is_pool r) blk) = 1 \<and> returned (is_pool r) = returned st"
  using assms alloc_pool(1,2) [OF assms(2)]
  by (simp add: of_send_barrier_request_msg_def layout_simps send_request_def with_datapath_def refused_def
      sent_messages_def after_transport_def)

lemma barrier_unsent:
  assumes "ofu_alloc_message (se_get_mem_block env) of_cntlr_msg_init OFPT_BARRIER_REQUEST 8 st = (None, st')"
  shows "of_send_barrier_request_msg env h cbk st s
    = Some \<lparr>is_status = Request_success, is_sent = [], is_pool = st', is_state = s\<rparr>"
  using assms by (simp add: of_send_barrier_request_msg_def layout_simps)

end
