(* ===== verification/KeepAlive.thy ===== *)
theory KeepAlive
  imports Requests
begin

text \<open>
  The keep-alive of a main connection (\<open>trnsprt_msg.c\<close>, \<open>of_symmetric_msgapi.c\<close>, \<open>cntlr_app.c\<close>): a periodic
  timer sends an echo request, a second timer looks whether anything was received since, and closes the
  connection when echo requests stay unanswered.  The channel is a state machine that these functions
  and the arrival of messages change.
\<close>

section \<open>The echo request\<close>

text \<open>
  The function releases the message only when the status is the general failure, and then also after it
  was sent; a message that could not be written has been released by the transport.
  The last result is the number of echo requests of the channel, which is found by its reference.
\<close>

definition ofp_prepare_and_send_echo_request ::
  "send_env \<Rightarrow> u64 \<Rightarrow> bool \<Rightarrow> request_cbk \<Rightarrow> u32 option \<Rightarrow> pool_state \<Rightarrow> xtn_state \<Rightarrow> (issued \<times> u32 option) option" where
  "ofp_prepare_and_send_echo_request env datapath_handle echo_msg cbk uiKeepAliveCount st s =
     (if echo_msg then Some (\<lparr>is_status = Request_failure, is_sent = [], is_pool = st, is_state = s\<rparr>, uiKeepAliveCount)
      else case ofu_alloc_message (se_get_mem_block env) of_cntlr_msg_init OFPT_ECHO_REQUEST (of_nat sizeof_ofp_header) st of
          (None, st) \<Rightarrow> Some (\<lparr>is_status = Request_failure, is_sent = [], is_pool = st, is_state = s\<rparr>, uiKeepAliveCount)
        | (Some (blk, mk), st) \<Rightarrow>
            let msg = set_length sizeof_ofp_header (put_header OFPT_ECHO_REQUEST (mk (se_data_of env blk) (se_cells env)));
                released = of_msg_release blk st
            in case se_datapath_byhandle env datapath_handle of
                 None \<Rightarrow> Some (\<lparr>is_status = Invalid_datapath_handle, is_sent = [], is_pool = st, is_state = s\<rparr>, uiKeepAliveCount)
               | Some datapath \<Rightarrow>
                   if rd_conn_table datapath = None
                   then Some (\<lparr>is_status = Request_failure, is_sent = [], is_pool = released, is_state = s\<rparr>, uiKeepAliveCount)
                   else map_option (\<lambda>r.
                       let sent = sent_messages r; s = ro_state r in
                       if \<not> ro_sent r
                       then (\<lparr>is_status = CNTLR_SEND_MSG_TO_DP_ERROR, is_sent = sent, is_pool = after_transport r blk st, is_state = s\<rparr>,
                             uiKeepAliveCount)
                       else case uiKeepAliveCount of
                           None \<Rightarrow> (\<lparr>is_status = Request_failure, is_sent = sent, is_pool = released, is_state = s\<rparr>, None)
                         | Some count \<Rightarrow>
                             (\<lparr>is_status = Request_success, is_sent = sent, is_pool = st, is_state = s\<rparr>, Some (count + 1)))
                     (CNTLR_Q_2_BARRIERQ_IF_REQUIRED_OTHERWISE_SEND_2_DP env datapath cbk Request_success msg s))"

section \<open>The channel\<close>

definition OF_TRNSPRT_CHN_CONN_KEEP_ALIVE_NOT_READY :: u8 where "OF_TRNSPRT_CHN_CONN_KEEP_ALIVE_NOT_READY = 0"
definition OF_TRNSPRT_CHN_CONN_KEEP_ALIVE_MSG_READ_TO_SEND :: u8 where "OF_TRNSPRT_CHN_CONN_KEEP_ALIVE_MSG_READ_TO_SEND = 1"
definition OF_TRNSPRT_CHN_CONN_KEEP_ALIVE_MSG_SENT :: u8 where "OF_TRNSPRT_CHN_CONN_KEEP_ALIVE_MSG_SENT = 2"
definition OF_TRNSPRT_CHN_CONN_KEEP_ALIVE_MSG_RESP_RCVD :: u8 where "OF_TRNSPRT_CHN_CONN_KEEP_ALIVE_MSG_RESP_RCVD = 4"

lemmas keep_alive_states = OF_TRNSPRT_CHN_CONN_KEEP_ALIVE_NOT_READY_def OF_TRNSPRT_CHN_CONN_KEEP_ALIVE_MSG_READ_TO_SEND_def
  OF_TRNSPRT_CHN_CONN_KEEP_ALIVE_MSG_SENT_def OF_TRNSPRT_CHN_CONN_KEEP_ALIVE_MSG_RESP_RCVD_def

text \<open>How many of its response timers run, and whether its closing was requested.\<close>

record keep_alive =
  keep_alive_state :: u8
  uiKeepAliveCount :: u32
  keepalive_resptimers :: nat
  close_requested :: bool

definition started :: keep_alive where
  "started = \<lparr>keep_alive_state = OF_TRNSPRT_CHN_CONN_KEEP_ALIVE_MSG_READ_TO_SEND, uiKeepAliveCount = 0,
     keepalive_resptimers = 0, close_requested = False\<rparr>"

text \<open>The echo request succeeds exactly when it was counted; an unexpected state is only logged.\<close>

definition of_transprt_send_keep_alive_msg :: "bool \<Rightarrow> bool \<Rightarrow> keep_alive \<Rightarrow> keep_alive" where
  "of_transprt_send_keep_alive_msg echo_ok timer_ok channel =
     (if \<not> echo_ok then channel
      else let channel = channel\<lparr>uiKeepAliveCount := uiKeepAliveCount channel + 1,
                 keep_alive_state := OF_TRNSPRT_CHN_CONN_KEEP_ALIVE_MSG_SENT\<rparr>
           in if timer_ok then channel\<lparr>keepalive_resptimers := keepalive_resptimers channel + 1\<rparr> else channel)"

definition of_transprt_check_keepalive_response_msg :: "bool \<Rightarrow> keep_alive \<Rightarrow> keep_alive" where
  "of_transprt_check_keepalive_response_msg stop_ok channel =
     (let st = keep_alive_state channel;
          rcvd = (st AND OF_TRNSPRT_CHN_CONN_KEEP_ALIVE_MSG_RESP_RCVD \<noteq> 0)
      in if \<not> rcvd \<and> st AND OF_TRNSPRT_CHN_CONN_KEEP_ALIVE_MSG_SENT \<noteq> 0 \<and> uiKeepAliveCount channel > 4
         then channel\<lparr>close_requested := True\<rparr>
         else if \<not> stop_ok then channel
         else channel\<lparr>uiKeepAliveCount := (if rcvd then 0 else uiKeepAliveCount channel),
                keep_alive_state := OF_TRNSPRT_CHN_CONN_KEEP_ALIVE_MSG_READ_TO_SEND\<rparr>)"

text \<open>What the dispatch of a message of a known type, and the answer to an echo request, note.\<close>

definition note_message :: "keep_alive \<Rightarrow> keep_alive" where
  "note_message channel =
     (if keep_alive_state channel = OF_TRNSPRT_CHN_CONN_KEEP_ALIVE_MSG_SENT
      then channel\<lparr>keep_alive_state := keep_alive_state channel OR OF_TRNSPRT_CHN_CONN_KEEP_ALIVE_MSG_RESP_RCVD\<rparr>
      else channel)"

definition cntlr_echo_reply_clbk_fn :: "keep_alive \<Rightarrow> keep_alive" where
  "cntlr_echo_reply_clbk_fn channel =
     channel\<lparr>keep_alive_state := keep_alive_state channel OR OF_TRNSPRT_CHN_CONN_KEEP_ALIVE_MSG_RESP_RCVD\<rparr>"

section \<open>The state machine\<close>

datatype ka_event = Tick bool bool | Arrival | Echo_answer | Check bool

text \<open>
  The check needs a timer that runs.  When the closing is requested the timers are stopped and nothing is
  read any more, so that nothing changes the channel here.
\<close>

inductive ka_step :: "ka_event \<Rightarrow> keep_alive \<Rightarrow> keep_alive \<Rightarrow> bool" where
  tick: "\<not> close_requested c \<Longrightarrow> ka_step (Tick echo_ok timer_ok) c (of_transprt_send_keep_alive_msg echo_ok timer_ok c)"
| arrival: "\<not> close_requested c \<Longrightarrow> ka_step Arrival c (note_message c)"
| echo_answer: "\<not> close_requested c \<Longrightarrow> ka_step Echo_answer c (cntlr_echo_reply_clbk_fn c)"
| check: "\<not> close_requested c \<Longrightarrow> keepalive_resptimers c = Suc n \<Longrightarrow>
    ka_step (Check stop_ok) c (of_transprt_check_keepalive_response_msg stop_ok (c\<lparr>keepalive_resptimers := n\<rparr>))"
| closing: "close_requested c \<Longrightarrow> ka_step e c c"

inductive ka_run :: "keep_alive \<Rightarrow> ka_event list \<Rightarrow> keep_alive \<Rightarrow> bool" where
  start: "ka_run c [] c"
| step: "ka_run c es c' \<Longrightarrow> ka_step e c' c'' \<Longrightarrow> ka_run c (es @ [e]) c''"

inductive_cases ka_stepE: "ka_step e c c'"
inductive_simps ka_step_simps: "ka_step (Tick p q) c c'" "ka_step Arrival c c'" "ka_step Echo_answer c c'" "ka_step (Check p) c c'"
inductive_simps ka_run_Nil [simp]: "ka_run c [] c'"
inductive_simps ka_run_snoc: "ka_run c (es @ [e]) c'"

lemma ka_run_append: "ka_run c (es @ es') c'' \<longleftrightarrow> (\<exists>c'. ka_run c es c' \<and> ka_run c' es' c'')"
proof (induction es' arbitrary: c'' rule: rev_induct)
  case (snoc e es')
  then show ?case unfolding append_assoc [symmetric] ka_run_snoc by blast
qed simp

lemma ka_run_Cons: "ka_run c (e # es) c'' \<longleftrightarrow> (\<exists>c'. ka_step e c c' \<and> ka_run c' es c'')"
  using ka_run_append [of c "[e]" es c''] ka_run_snoc [of c "[]" e] by simp

section \<open>Closing needs five echo requests\<close>

fun echo_sent :: "ka_event \<Rightarrow> bool" where
  "echo_sent (Tick echo_ok timer_ok) = echo_ok"
| "echo_sent _ = False"

lemma count_step: "unat (n + 1 :: u32) \<le> Suc (unat n)"
  by (simp add: unat_word_ariths)

lemma closing_counted:
  assumes "ka_run started es c"
  shows "unat (uiKeepAliveCount c) \<le> length (filter echo_sent es) \<and> (close_requested c \<longrightarrow> 5 \<le> unat (uiKeepAliveCount c))"
  using assms
proof (induction "started" es c rule: ka_run.induct)
  case start
  then show ?case by (simp add: started_def)
next
  case (step es c' e c'')
  from step(3) show ?case
  proof cases
    case (tick echo_ok timer_ok)
    then show ?thesis using step(2) count_step [of "uiKeepAliveCount c'"]
      by (auto simp: of_transprt_send_keep_alive_msg_def Let_def)
  next
    case (check n stop_ok)
    have "5 \<le> unat (uiKeepAliveCount c')" if "4 < uiKeepAliveCount c'" using that by (simp add: word_less_nat_alt)
    then show ?thesis using step(2) check by (auto simp: of_transprt_check_keepalive_response_msg_def Let_def)
  qed (use step(2) in \<open>auto simp: note_message_def cntlr_echo_reply_clbk_fn_def\<close>)
qed

text \<open>
  In whatever order the timers run out and messages arrive, the keep-alive does not
  ask to close a connection before five echo requests have been sent on it.
\<close>

theorem closed_after_five:
  assumes "ka_run started es c" and "close_requested c"
  shows "5 \<le> length (filter echo_sent es)"
  using closing_counted [OF assms(1)] assms(2) by simp

section \<open>Rounds\<close>

text \<open>
  One period of the echo timer (60 s): the request and the timer for its answer (5 s) succeed or not,
  messages, and answers where \<open>True\<close>, arrive before that timer runs out, and after; its stop may fail.
\<close>

record round =
  rn_echo_ok :: bool
  rn_timer_ok :: bool
  rn_in_time :: "bool list"
  rn_stop_ok :: bool
  rn_later :: "bool list"

definition received :: "bool \<Rightarrow> ka_event" where
  "received answer = (if answer then Echo_answer else Arrival)"

definition round_events :: "round \<Rightarrow> ka_event list" where
  "round_events r = Tick (rn_echo_ok r) (rn_timer_ok r) # map received (rn_in_time r)
     @ (if rn_echo_ok r \<and> rn_timer_ok r then [Check (rn_stop_ok r)] else []) @ map received (rn_later r)"

text \<open>
  The connection is given up at a check with nothing received since its echo request, when at least five
  echo requests were sent since the last round that set the count back.  A round sets it back when its
  timer runs, something is received before it runs out, and its stop succeeds.  So what arrives later in
  the round does not count, nor does what arrives in a round whose timer was not started or not stopped.
\<close>

fun given_up :: "nat \<Rightarrow> round list \<Rightarrow> bool" where
  "given_up n [] = False"
| "given_up n (r # rs) =
     (let n' = (if rn_echo_ok r then n + 1 else n);
          chk = (rn_echo_ok r \<and> rn_timer_ok r)
      in if chk \<and> rn_in_time r = [] \<and> 5 \<le> n' then True
         else given_up (if chk \<and> rn_in_time r \<noteq> [] \<and> rn_stop_ok r then 0 else n') rs)"

lemma received_step_ex: "\<exists>c'. ka_step (received b) c c'"
  by (cases "close_requested c") (auto simp: received_def ka_step_simps)

lemma received_run_ex: "\<exists>c'. ka_run c (map received bs) c'"
proof (induction bs arbitrary: c)
  case (Cons b bs)
  then show ?case using received_step_ex [of b c] unfolding list.map ka_run_Cons by blast
qed (auto intro: start)

lemma ka_step_unique: "ka_step e c c' \<Longrightarrow> ka_step e c c'' \<Longrightarrow> c' = c''"
  by (auto elim!: ka_stepE)

lemma ka_run_unique: "ka_run c es c' \<Longrightarrow> ka_run c es c'' \<Longrightarrow> c' = c''"
proof (induction es arbitrary: c' c'' rule: rev_induct)
  case (snoc e es)
  then show ?case unfolding ka_run_snoc using ka_step_unique by metis
qed simp

text \<open>Receiving only changes the state, and from a sent echo request on it is noted.\<close>

lemma received_run:
  assumes "ka_run c (map received bs) c'"
  shows "c' = c\<lparr>keep_alive_state := keep_alive_state c'\<rparr>"
    and "keep_alive_state c = 2 \<Longrightarrow> \<not> close_requested c \<Longrightarrow> keep_alive_state c' = (if bs = [] then 2 else 6)"
proof -
  have "c' = c\<lparr>keep_alive_state := keep_alive_state c'\<rparr>
    \<and> (keep_alive_state c = 2 \<longrightarrow> \<not> close_requested c \<longrightarrow> keep_alive_state c' = (if bs = [] then 2 else 6))"
    using assms
  proof (induction bs arbitrary: c' rule: rev_induct)
    case (snoc b bs)
    obtain d where d: "ka_run c (map received bs) d" "ka_step (received b) d c'"
      using snoc.prems by (auto simp: ka_run_snoc)
    have "c' = d\<lparr>keep_alive_state := keep_alive_state c'\<rparr>"
      using d(2) by (auto simp: received_def note_message_def cntlr_echo_reply_clbk_fn_def elim!: ka_stepE split: if_splits)
    moreover have "keep_alive_state c' = 6" if "keep_alive_state d = 2 \<or> keep_alive_state d = 6" "\<not> close_requested d"
      using d(2) that by (auto simp: received_def note_message_def cntlr_echo_reply_clbk_fn_def keep_alive_states
          elim!: ka_stepE split: if_splits)
    ultimately show ?case using snoc.IH [OF d(1)] by (metis (no_types, lifting) keep_alive.select_convs(4)
        keep_alive.update_convs(1) keep_alive.surjective snoc_eq_iff_butlast)
  qed simp
  then show "c' = c\<lparr>keep_alive_state := keep_alive_state c'\<rparr>"
    and "keep_alive_state c = 2 \<Longrightarrow> \<not> close_requested c \<Longrightarrow> keep_alive_state c' = (if bs = [] then 2 else 6)" by blast+
qed


lemma received_kept:
  assumes "ka_run c (map received bs) c'"
  shows "close_requested c' = close_requested c" "keepalive_resptimers c' = keepalive_resptimers c"
    "uiKeepAliveCount c' = uiKeepAliveCount c"
  using received_run(1) [OF assms] by (cases c; cases c'; simp)+

lemma closing_run: "close_requested c \<Longrightarrow> ka_run c es c' \<longleftrightarrow> c' = c"
proof (induction es arbitrary: c')
  case (Cons e es)
  have "ka_step e c d \<longleftrightarrow> d = c" for d using Cons.prems by (auto elim: ka_stepE intro: closing)
  then show ?case using Cons by (auto simp: ka_run_Cons)
qed auto

lemma round_run:
  fixes r :: round
  assumes op: "\<not> close_requested c" and t: "keepalive_resptimers c = 0" and n: "Suc (unat (uiKeepAliveCount c)) < 2 ^ 32"
  defines "n' \<equiv> if rn_echo_ok r then unat (uiKeepAliveCount c) + 1 else unat (uiKeepAliveCount c)"
  defines "chk \<equiv> rn_echo_ok r \<and> rn_timer_ok r"
  obtains c' where "ka_run c (round_events r) c'"
    and "close_requested c' = (chk \<and> rn_in_time r = [] \<and> 5 \<le> n')"
    and "\<not> close_requested c' \<Longrightarrow> keepalive_resptimers c' = 0
      \<and> unat (uiKeepAliveCount c') = (if chk \<and> rn_in_time r \<noteq> [] \<and> rn_stop_ok r then 0 else n')"
proof -
  let ?c1 = "of_transprt_send_keep_alive_msg (rn_echo_ok r) (rn_timer_ok r) c"
  have u: "unat (uiKeepAliveCount c + 1) = unat (uiKeepAliveCount c) + 1"
    using n by (simp add: unat_word_ariths)
  obtain c2 where c2: "ka_run ?c1 (map received (rn_in_time r)) c2" using received_run_ex by blast
  note r2 = received_kept [OF c2] received_run(2) [OF c2]
  have c1: "\<not> close_requested ?c1" "unat (uiKeepAliveCount ?c1) = n'"
    "keepalive_resptimers ?c1 = (if chk then 1 else 0)" "chk \<Longrightarrow> keep_alive_state ?c1 = 2"
    using op t u by (simp_all add: of_transprt_send_keep_alive_msg_def Let_def n'_def chk_def keep_alive_states)
  show thesis
  proof (cases chk)
    case True
    define d where "d = of_transprt_check_keepalive_response_msg (rn_stop_ok r) (c2\<lparr>keepalive_resptimers := 0\<rparr>)"
    have "ka_step (Check (rn_stop_ok r)) c2 d" using check [of c2 0] r2 c1 True by (simp add: d_def)
    moreover obtain c3 where c3: "ka_run d (map received (rn_later r)) c3" using received_run_ex by blast
    ultimately have "ka_run c (round_events r) c3"
      using c2 tick [OF op] True unfolding round_events_def chk_def by (auto simp: ka_run_Cons ka_run_append)
    moreover have "(4 < uiKeepAliveCount c2) = (5 \<le> n')" using r2(3) c1(2) by (auto simp: word_less_nat_alt)
    then have "close_requested d = (rn_in_time r = [] \<and> 5 \<le> n')"
      "keepalive_resptimers d = 0" "rn_in_time r = [] \<Longrightarrow> uiKeepAliveCount d = uiKeepAliveCount c2"
      "rn_in_time r \<noteq> [] \<Longrightarrow> uiKeepAliveCount d = (if rn_stop_ok r then 0 else uiKeepAliveCount c2)"
      using r2 c1 True by (simp_all add: d_def of_transprt_check_keepalive_response_msg_def keep_alive_states Let_def)
    ultimately show thesis
      by (intro that [of c3]) (use received_kept [OF c3] r2(1-3) c1(1,2) True in \<open>cases "rn_in_time r = []"; auto\<close>)+
  next
    case False
    obtain c3 where c3: "ka_run c2 (map received (rn_later r)) c3" using received_run_ex by blast
    then have "ka_run c (round_events r) c3"
      using c2 tick [OF op] False unfolding round_events_def chk_def by (auto simp: ka_run_Cons ka_run_append)
    then show thesis
      by (intro that [of c3]) (use received_kept [OF c3] r2(1-3) c1 False in auto)
  qed
qed

lemma rounds_run:
  assumes "\<not> close_requested c" and "keepalive_resptimers c = 0" and "unat (uiKeepAliveCount c) + length rs < 2 ^ 32"
  shows "\<exists>c'. ka_run c (concat (map round_events rs)) c' \<and> close_requested c' = given_up (unat (uiKeepAliveCount c)) rs"
  using assms
proof (induction rs arbitrary: c)
  case (Cons r rs)
  obtain d where d: "ka_run c (round_events r) d" and cl: "close_requested d = (rn_echo_ok r \<and> rn_timer_ok r \<and> rn_in_time r = []
      \<and> 5 \<le> (if rn_echo_ok r then unat (uiKeepAliveCount c) + 1 else unat (uiKeepAliveCount c)))"
    and op: "\<not> close_requested d \<Longrightarrow> keepalive_resptimers d = 0 \<and> unat (uiKeepAliveCount d)
      = (if rn_echo_ok r \<and> rn_timer_ok r \<and> rn_in_time r \<noteq> [] \<and> rn_stop_ok r then 0
         else if rn_echo_ok r then unat (uiKeepAliveCount c) + 1 else unat (uiKeepAliveCount c))"
    using round_run [OF Cons.prems(1,2), of r] Cons.prems(3) by (simp add: conj_assoc) blast
  show ?case
  proof (cases "close_requested d")
    case True
    then show ?thesis using d cl closing_run [OF True] by (auto simp: ka_run_append Let_def)
  next
    case False
    have "unat (uiKeepAliveCount d) + length rs < 2 ^ 32" using op [OF False] Cons.prems(3) by (auto split: if_splits)
    from Cons.IH [OF False conjunct1 [OF op [OF False]] this] obtain c' where "ka_run d (concat (map round_events rs)) c'"
      "close_requested c' = given_up (unat (uiKeepAliveCount d)) rs" by blast
    then show ?thesis using d cl False op [OF False] by (auto simp: ka_run_append Let_def split: if_splits)
  qed
qed (auto intro: start)

text \<open>
  C33: Over any periods of the echo timer, with requests, timers and their stopping that
  fail or not and messages that arrive before the response timer runs out, after it, or never, the closing
  of the connection is asked for exactly when some response timer runs out with nothing received since its
  echo request, and five or more echo requests were sent since the last round that set the count back
  (\<open>given_up\<close>).  Messages behind the response timer do not set it back, so that a datapath that always
  answers late is given up (lemma \<open>late_answers_given_up\<close>); nor do messages of a round whose response timer
  could not be started or stopped; a round whose request cannot be sent does not count.
\<close>

theorem keep_alive_rounds:
  assumes "length rs < 2 ^ 32"
  shows "\<exists>c. (\<forall>c'. ka_run started (concat (map round_events rs)) c' \<longleftrightarrow> c' = c) \<and> close_requested c = given_up 0 rs"
proof -
  have z: "unat (uiKeepAliveCount started) = 0" "\<not> close_requested started" "keepalive_resptimers started = 0"
    by (simp_all add: started_def)
  then obtain c where "ka_run started (concat (map round_events rs)) c" "close_requested c = given_up 0 rs"
    using rounds_run [of started rs] assms by auto
  then show ?thesis using ka_run_unique by blast
qed

definition silent :: round where
  "silent = \<lparr>rn_echo_ok = True, rn_timer_ok = True, rn_in_time = [], rn_stop_ok = True, rn_later = []\<rparr>"

definition late :: round where
  "late = silent\<lparr>rn_later := [False, True]\<rparr>"

lemma keep_alive_rounds_witness:
  "\<exists>c. ka_run started (concat (map round_events [silent, silent\<lparr>rn_in_time := [False]\<rparr>, silent, silent, silent, silent])) c
    \<and> \<not> close_requested c"
proof -
  let ?rs = "[silent, silent\<lparr>rn_in_time := [False]\<rparr>, silent, silent, silent, silent]"
  have "\<not> given_up 0 ?rs" by (simp add: silent_def)
  moreover obtain c where "\<forall>c'. ka_run started (concat (map round_events ?rs)) c' \<longleftrightarrow> c' = c" "close_requested c = given_up 0 ?rs"
    using keep_alive_rounds [of ?rs] by auto
  ultimately show ?thesis by blast
qed

text \<open>A datapath that answers every echo request, but each after the check, is given up at the fifth.\<close>

lemma late_answers_given_up:
  "\<exists>c. ka_run started (concat (map round_events (replicate 5 late))) c \<and> close_requested c"
proof -
  have "given_up 0 (replicate 5 late)" by (simp add: late_def silent_def numeral_eq_Suc)
  moreover have "unat (uiKeepAliveCount started) = 0" "\<not> close_requested started" "keepalive_resptimers started = 0"
    by (simp_all add: started_def)
  ultimately show ?thesis using rounds_run [of started "replicate 5 late"] by auto
qed

text \<open>A connection whose echo requests cannot be sent is never given up.\<close>

lemma unsent_never_given_up: "\<forall>r \<in> set rs. \<not> rn_echo_ok r \<Longrightarrow> \<not> given_up n rs"
  by (induction rs arbitrary: n) (simp_all add: Let_def)

lemma closed_after_five_witness:
  "5 \<le> length (filter echo_sent (concat (map round_events (replicate 5 silent))))"
proof -
  have "given_up 0 (replicate 5 silent)" by (simp add: silent_def numeral_eq_Suc)
  moreover have "unat (uiKeepAliveCount started) = 0" "\<not> close_requested started" "keepalive_resptimers started = 0"
    by (simp_all add: started_def)
  ultimately obtain c where "ka_run started (concat (map round_events (replicate 5 silent))) c" "close_requested c"
    using rounds_run [of started "replicate 5 silent"] by auto
  then show ?thesis by (rule closed_after_five)
qed

end
