(* ===== verification/Commands.thy ===== *)
theory Commands
  imports Requests
begin

text \<open>
  The messages of \<open>of_cntlr_2_sw_msgapi.c\<close> that are not answered: which asynchronous messages a datapath
  is to send, changes of a port, the commands that change and delete flow entries, and packets to be sent
  out.
\<close>

section \<open>Asynchronous messages\<close>

definition OFPT_SET_ASYNC :: u8 where "OFPT_SET_ASYNC = 28"
definition sizeof_ofp_async_config :: nat where [layout_simps]: "sizeof_ofp_async_config = 32"
definition OFU_SET_ASYNC_CONFIG_MESSAGE_LEN :: nat where [layout_simps]:
  "OFU_SET_ASYNC_CONFIG_MESSAGE_LEN = sizeof_ofp_async_config"

text \<open>The six masks are kept in the byte order of the host until the message is sent.\<close>

definition st32_host :: "nat \<Rightarrow> u32 \<Rightarrow> of_msg \<Rightarrow> of_msg" where [msg_defs]:
  "st32_host a v = poke a (rev (be32 v))"

definition ld32_host :: "nat \<Rightarrow> of_msg \<Rightarrow> u32" where
  "ld32_host a msg = of_be (rev (read_bytes a 4 (mem msg)))"

definition set_reason :: "nat \<Rightarrow> u8 \<Rightarrow> nat \<Rightarrow> of_msg \<Rightarrow> of_msg" where
  "set_reason at flag reason msg =
     (if flag = 1 then st32_host (start_of_data msg + at) (push_bit reason 1) msg else msg)"

definition add_reason :: "nat \<Rightarrow> u8 \<Rightarrow> nat \<Rightarrow> of_msg \<Rightarrow> of_msg" where
  "add_reason at flag reason msg =
     (if flag = 1
      then st32_host (start_of_data msg + at) (ld32_host (start_of_data msg + at) msg OR push_bit reason 1) msg
      else msg)"

definition OFPR_NO_MATCH :: nat where [layout_simps]: "OFPR_NO_MATCH = 0"
definition OFPR_ACTION :: nat where [layout_simps]: "OFPR_ACTION = 1"
definition OFPR_INVALID_TTL :: nat where [layout_simps]: "OFPR_INVALID_TTL = 2"
definition OFPPR_ADD :: nat where [layout_simps]: "OFPPR_ADD = 0"
definition OFPPR_DELETE :: nat where [layout_simps]: "OFPPR_DELETE = 1"
definition OFPPR_MODIFY :: nat where [layout_simps]: "OFPPR_MODIFY = 2"
definition OFPRR_IDLE_TIMEOUT :: nat where [layout_simps]: "OFPRR_IDLE_TIMEOUT = 0"
definition OFPRR_HARD_TIMEOUT :: nat where [layout_simps]: "OFPRR_HARD_TIMEOUT = 1"
definition OFPRR_DELETE :: nat where [layout_simps]: "OFPRR_DELETE = 2"
definition OFPRR_GROUP_DELETE :: nat where [layout_simps]: "OFPRR_GROUP_DELETE = 3"

text \<open>Only the first of the routines clears its mask.\<close>

definition ofu_set_packetin_async_msg_flags_in_master_or_equal_role ::
  "u8 \<Rightarrow> u8 \<Rightarrow> u8 \<Rightarrow> of_msg option \<Rightarrow> of_status \<times> of_msg option" where
  "ofu_set_packetin_async_msg_flags_in_master_or_equal_role no_match_flow action invalid_ttl m =
     (case m of None \<Rightarrow> (OF_FAILURE, None)
      | Some msg \<Rightarrow>
          let msg = st32_host (start_of_data msg + 8) 0 msg;
              msg = set_reason 8 no_match_flow OFPR_NO_MATCH msg;
              msg = add_reason 8 action OFPR_ACTION msg
          in (OF_SUCCESS, Some (add_reason 8 invalid_ttl OFPR_INVALID_TTL msg)))"

definition ofu_set_packetin_async_msg_flags_in_slave_role :: "u8 \<Rightarrow> u8 \<Rightarrow> u8 \<Rightarrow> of_msg \<Rightarrow> of_msg" where
  "ofu_set_packetin_async_msg_flags_in_slave_role no_match_flow action invalid_ttl msg =
     (let msg = set_reason 12 no_match_flow OFPR_NO_MATCH msg;
          msg = add_reason 12 action OFPR_ACTION msg
      in add_reason 12 invalid_ttl OFPR_INVALID_TTL msg)"

definition ofu_set_port_mod_async_msg_flags_in_master_or_equal_role :: "u8 \<Rightarrow> u8 \<Rightarrow> u8 \<Rightarrow> of_msg \<Rightarrow> of_msg" where
  "ofu_set_port_mod_async_msg_flags_in_master_or_equal_role add_port modify_port delete_port msg =
     (let msg = set_reason 16 add_port OFPPR_ADD msg;
          msg = add_reason 16 modify_port OFPPR_MODIFY msg
      in add_reason 16 delete_port OFPPR_DELETE msg)"

definition ofu_set_port_mod_async_msg_flags_in_slave_role :: "u8 \<Rightarrow> u8 \<Rightarrow> u8 \<Rightarrow> of_msg \<Rightarrow> of_msg" where
  "ofu_set_port_mod_async_msg_flags_in_slave_role add_port modify_port delete_port msg =
     (let msg = set_reason 20 add_port OFPPR_ADD msg;
          msg = add_reason 20 modify_port OFPPR_MODIFY msg
      in add_reason 20 delete_port OFPPR_DELETE msg)"

definition ofu_set_flow_remove_async_msg_flags_in_master_or_equal_role ::
  "u8 \<Rightarrow> u8 \<Rightarrow> u8 \<Rightarrow> u8 \<Rightarrow> of_msg \<Rightarrow> of_msg" where
  "ofu_set_flow_remove_async_msg_flags_in_master_or_equal_role idle_timeout hard_timeout delete_command group_delete msg =
     (let msg = set_reason 24 idle_timeout OFPRR_IDLE_TIMEOUT msg;
          msg = add_reason 24 hard_timeout OFPRR_HARD_TIMEOUT msg;
          msg = add_reason 24 delete_command OFPRR_DELETE msg
      in add_reason 24 group_delete OFPRR_GROUP_DELETE msg)"

definition ofu_set_flow_remove_async_msg_flags_in_slave_role :: "u8 \<Rightarrow> u8 \<Rightarrow> u8 \<Rightarrow> u8 \<Rightarrow> of_msg \<Rightarrow> of_msg" where
  "ofu_set_flow_remove_async_msg_flags_in_slave_role idle_timeout hard_timeout delete_command group_delete msg =
     (let msg = set_reason 28 idle_timeout OFPRR_IDLE_TIMEOUT msg;
          msg = add_reason 28 hard_timeout OFPRR_HARD_TIMEOUT msg;
          msg = add_reason 28 delete_command OFPRR_DELETE msg
      in add_reason 28 group_delete OFPRR_GROUP_DELETE msg)"

definition htonl_mask :: "nat \<Rightarrow> of_msg \<Rightarrow> of_msg" where
  "htonl_mask a msg = st32 a (ld32_host a msg) msg"

definition of_set_async_configuration ::
  "send_env \<Rightarrow> of_msg \<Rightarrow> u64 \<Rightarrow> request_cbk \<Rightarrow> xtn_state \<Rightarrow> request_outcome option" where
  "of_set_async_configuration env msg datapath_handle clbk_command_args =
     frame_and_send (room_status OFU_SET_ASYNC_CONFIG_MESSAGE_LEN)
       (\<lambda>msg. let c = start_of_data msg;
                  msg = add_length sizeof_ofp_async_config (put_header OFPT_SET_ASYNC msg)
              in fold htonl_mask [c + 8, c + 12, c + 16, c + 20, c + 24, c + 28] msg)
       env msg datapath_handle (clbk_command_args\<lparr>rk_callback_fn := 0\<rparr>)"

text \<open>A slave sends nothing.\<close>

definition cntlr_set_async_msg_cfg :: "(u64 \<Rightarrow> bool) \<Rightarrow> send_env \<Rightarrow> u64 \<Rightarrow> pool_state \<Rightarrow> xtn_state \<Rightarrow> issued option" where
  "cntlr_set_async_msg_cfg is_slave env datapath_handle st s =
     (if se_datapath_byhandle env datapath_handle = None \<or> is_slave datapath_handle
      then Some \<lparr>is_status = Request_success, is_sent = [], is_pool = st, is_state = s\<rparr>
      else with_message env OFPT_SET_ASYNC OFU_SET_ASYNC_CONFIG_MESSAGE_LEN
        (\<lambda>msg s. case snd (ofu_set_packetin_async_msg_flags_in_master_or_equal_role 1 1 0 (Some msg)) of
             None \<Rightarrow> None
           | Some msg \<Rightarrow> of_set_async_configuration env msg datapath_handle
               \<lparr>rk_callback_fn = 0, rk_arg1 = 0, rk_arg2 = 0\<rparr> s) st s)"

section \<open>Changing a port\<close>

definition OFPT_PORT_MOD :: u8 where "OFPT_PORT_MOD = 16"
definition sizeof_ofp_port_mod :: nat where [layout_simps]: "sizeof_ofp_port_mod = 40"
definition OFU_PORT_STATUS_MODIFACTION_MESSAGE_LEN :: nat where [layout_simps]:
  "OFU_PORT_STATUS_MODIFACTION_MESSAGE_LEN = sizeof_ofp_port_mod"

record port_mod_info =
  pm_port_no :: u32
  pm_hw_addr :: "u8 list"
  pm_config :: u32
  pm_mask :: u32
  pm_advertise :: u32

definition OFP_ETH_ALEN :: nat where [layout_simps]: "OFP_ETH_ALEN = 6"

definition of_set_portmod_config ::
  "port_mod_info \<Rightarrow> send_env \<Rightarrow> of_msg \<Rightarrow> u64 \<Rightarrow> request_cbk \<Rightarrow> xtn_state \<Rightarrow> request_outcome option" where
  "of_set_portmod_config port_info env msg datapath_handle clbk_command_args =
     frame_and_send (room_status OFU_PORT_STATUS_MODIFACTION_MESSAGE_LEN)
       (\<lambda>msg. let port_mod = start_of_data msg;
                  msg = memcpy (port_mod + 16) (pm_hw_addr port_info) OFP_ETH_ALEN msg;
                  msg = st32 (port_mod + 8) (pm_port_no port_info) msg;
                  msg = st32 (port_mod + 24) (pm_config port_info) msg;
                  msg = st32 (port_mod + 28) (pm_mask port_info) msg;
                  msg = st32 (port_mod + 32) (pm_advertise port_info) msg;
                  msg = put_header OFPT_PORT_MOD msg
              in add_length OFU_PORT_STATUS_MODIFACTION_MESSAGE_LEN msg)
       env msg datapath_handle (clbk_command_args\<lparr>rk_callback_fn := 0\<rparr>)"

definition cntlr_send_portmod_request :: "send_env \<Rightarrow> u64 \<Rightarrow> port_mod_info \<Rightarrow> pool_state \<Rightarrow> xtn_state \<Rightarrow> issued option" where
  "cntlr_send_portmod_request env datapath_handle port_info =
     with_message env OFPT_PORT_MOD OFU_PORT_STATUS_MODIFACTION_MESSAGE_LEN
       (\<lambda>msg. of_set_portmod_config port_info env msg datapath_handle \<lparr>rk_callback_fn = 0, rk_arg1 = 0, rk_arg2 = 0\<rparr>)"

section \<open>The other commands for flow entries\<close>

definition OFPFC_MODIFY :: u8 where [layout_simps]: "OFPFC_MODIFY = 1"
definition OFPFC_MODIFY_STRICT :: u8 where [layout_simps]: "OFPFC_MODIFY_STRICT = 2"
definition OFPFC_DELETE :: u8 where [layout_simps]: "OFPFC_DELETE = 3"
definition OFPFC_DELETE_STRICT :: u8 where [layout_simps]: "OFPFC_DELETE_STRICT = 4"

definition fill_flow_command ::
  "(u64 \<Rightarrow> 'd datapath_entry_scheme option) \<Rightarrow> u64 \<Rightarrow> (of_msg \<Rightarrow> of_msg) \<Rightarrow> of_msg \<Rightarrow> flow_status \<times> nat option \<times> of_msg" where
  "fill_flow_command get_datapath_byhandle datapath_handle fill msg =
     (case get_datapath_byhandle datapath_handle of
        None \<Rightarrow> (DPRM_INVALID_DATAPATH_HANDLE, None, msg)
      | Some datapath \<Rightarrow>
          let msg = fill msg;
              msg = msg\<lparr>data_len := data_len msg + of_nat (OFU_ADD_OR_MODIFY_OR_DELETE_FLOW_ENTRY_MESSAGE_LEN - 4),
                        utils_ptr := start_of_data msg + 48\<rparr>
          in case to_main_channel datapath msg of
               (True, conn_info, msg) \<Rightarrow> (OFU_ADD_FLOW_ENTRY_TO_TABLE_SUCCESS, conn_info, msg)
             | (False, conn_info, msg) \<Rightarrow> (FLOW_OF_FAILURE, conn_info, msg))"

text \<open>The success codes of the four functions, which have names of their own, are the one of adding here.\<close>

definition of_modify_flow_entries_of_table ::
  "(u64 \<Rightarrow> 'd datapath_entry_scheme option) \<Rightarrow> u64 \<Rightarrow> u8 \<Rightarrow> u16 \<Rightarrow> u64 \<Rightarrow> u64 \<Rightarrow> of_msg \<Rightarrow> flow_status \<times> nat option \<times> of_msg" where
  "of_modify_flow_entries_of_table get_datapath_byhandle datapath_handle table_id flags cookie cookie_mask =
     fill_flow_command get_datapath_byhandle datapath_handle
       (\<lambda>msg. let flow_mod = start_of_data msg;
                  msg = put_header OFPT_FLOW_MOD msg;
                  msg = st64 (flow_mod + 8) cookie msg;
                  msg = st64 (flow_mod + 16) cookie_mask msg;
                  msg = st8 (flow_mod + 24) table_id msg;
                  msg = st16 (flow_mod + 44) flags msg;
                  msg = st8 (flow_mod + 25) OFPFC_MODIFY msg;
                  msg = st32 (flow_mod + 36) OFPP_ANY msg
              in st32 (flow_mod + 40) OFPG_ANY msg)"

definition of_create_modify_flow_entries_msg_of_table_with_strict_match ::
  "(u64 \<Rightarrow> 'd datapath_entry_scheme option) \<Rightarrow> u64 \<Rightarrow> u8 \<Rightarrow> u16 \<Rightarrow> u16 \<Rightarrow> u64 \<Rightarrow> u64 \<Rightarrow> of_msg
    \<Rightarrow> flow_status \<times> nat option \<times> of_msg" where
  "of_create_modify_flow_entries_msg_of_table_with_strict_match get_datapath_byhandle datapath_handle table_id priority flags
       cookie cookie_mask =
     fill_flow_command get_datapath_byhandle datapath_handle
       (\<lambda>msg. let flow_mod = start_of_data msg;
                  msg = put_header OFPT_FLOW_MOD msg;
                  msg = st64 (flow_mod + 8) cookie msg;
                  msg = st64 (flow_mod + 16) cookie_mask msg;
                  msg = st8 (flow_mod + 24) table_id msg;
                  msg = st16 (flow_mod + 30) priority msg;
                  msg = st16 (flow_mod + 44) flags msg;
                  msg = st8 (flow_mod + 25) OFPFC_MODIFY_STRICT msg;
                  msg = st32 (flow_mod + 36) 0 msg
              in st32 (flow_mod + 40) 0 msg)"

definition of_create_delete_flow_entries_msg_of_table ::
  "(u64 \<Rightarrow> 'd datapath_entry_scheme option) \<Rightarrow> u64 \<Rightarrow> u8 \<Rightarrow> u16 \<Rightarrow> u64 \<Rightarrow> u64 \<Rightarrow> u32 \<Rightarrow> u32 \<Rightarrow> of_msg
    \<Rightarrow> flow_status \<times> nat option \<times> of_msg" where
  "of_create_delete_flow_entries_msg_of_table get_datapath_byhandle datapath_handle table_id flags cookie cookie_mask
       out_port out_group =
     fill_flow_command get_datapath_byhandle datapath_handle
       (\<lambda>msg. let flow_mod = start_of_data msg;
                  msg = put_header OFPT_FLOW_MOD msg;
                  msg = st64 (flow_mod + 8) cookie msg;
                  msg = st64 (flow_mod + 16) cookie_mask msg;
                  msg = st8 (flow_mod + 24) table_id msg;
                  msg = st16 (flow_mod + 44) flags msg;
                  msg = st8 (flow_mod + 25) OFPFC_DELETE msg;
                  msg = st32 (flow_mod + 36) out_port msg
              in st32 (flow_mod + 40) out_group msg)"

definition of_create_delete_flow_entries_msg_of_table_with_strict_match ::
  "(u64 \<Rightarrow> 'd datapath_entry_scheme option) \<Rightarrow> u64 \<Rightarrow> u8 \<Rightarrow> u16 \<Rightarrow> u16 \<Rightarrow> u64 \<Rightarrow> u64 \<Rightarrow> u32 \<Rightarrow> u32 \<Rightarrow> of_msg
    \<Rightarrow> flow_status \<times> nat option \<times> of_msg" where
  "of_create_delete_flow_entries_msg_of_table_with_strict_match get_datapath_byhandle datapath_handle table_id priority flags
       cookie cookie_mask out_port out_group =
     fill_flow_command get_datapath_byhandle datapath_handle
       (\<lambda>msg. let flow_mod = start_of_data msg;
                  msg = put_header OFPT_FLOW_MOD msg;
                  msg = st64 (flow_mod + 8) cookie msg;
                  msg = st64 (flow_mod + 16) cookie_mask msg;
                  msg = st8 (flow_mod + 24) table_id msg;
                  msg = st16 (flow_mod + 30) priority msg;
                  msg = st16 (flow_mod + 44) flags msg;
                  msg = st8 (flow_mod + 25) OFPFC_DELETE_STRICT msg;
                  msg = st32 (flow_mod + 36) out_port msg
              in st32 (flow_mod + 40) out_group msg)"

section \<open>Packets to be sent out\<close>

definition OFPT_PACKET_OUT :: u8 where "OFPT_PACKET_OUT = 13"
definition sizeof_ofp_packet_out :: nat where [layout_simps]: "sizeof_ofp_packet_out = 24"
definition OFU_PACKET_OUT_MESSAGE_LEN :: nat where [layout_simps]: "OFU_PACKET_OUT_MESSAGE_LEN = sizeof_ofp_packet_out"

text \<open>The number of the main channel, and the auxiliary channel messages go to, if there are any.\<close>

record pktout_datapath = datapath_entry +
  main_auxiliary_id :: u8
  aux_channel :: "nat option"

text \<open>
  \<open>conn_info\<close> is what the variable holds before; for a channel other than the main one it keeps that.  The
  identifier of the buffer is stored in network byte order in a reply only.
\<close>

definition of_frame_pktout_msg ::
  "(u64 \<Rightarrow> pktout_datapath option) \<Rightarrow> nat option \<Rightarrow> u64 \<Rightarrow> bool \<Rightarrow> u32 \<Rightarrow> u8 \<Rightarrow> of_msg
    \<Rightarrow> request_status \<times> nat option \<times> of_msg" where
  "of_frame_pktout_msg get_datapath_byhandle conn_info datapath_handle reply_pkt buffer_id channel_no msg =
     (case get_datapath_byhandle datapath_handle of
        None \<Rightarrow> (Invalid_datapath_handle, None, msg)
      | Some datapath \<Rightarrow>
          let pkt_out_msg = start_of_data msg;
              msg = put_header OFPT_PACKET_OUT msg;
              msg = msg\<lparr>data_len := data_len msg + of_nat OFU_PACKET_OUT_MESSAGE_LEN\<rparr>;
              msg = msg\<lparr>utils_ptr := pkt_out_msg + 16\<rparr>;
              msg = msg\<lparr>ptr1 := utils_ptr msg, ptr2 := utils_ptr msg, ptr3 := utils_ptr msg\<rparr>;
              msg = msg\<lparr>length1 := 0, length2 := 0, length3 := 0\<rparr>
          in if reply_pkt then
               let msg = st32 (pkt_out_msg + 8) buffer_id msg in
               (case (if main_auxiliary_id datapath = channel_no then main_channel datapath else conn_info) of
                  None \<Rightarrow> (CNTLR_CHN_CLOSED, None, msg)
                | Some c \<Rightarrow> (Request_success, Some c, msg))
             else
               let msg = poke (pkt_out_msg + 8) (rev (be32 buffer_id)) msg;
                   msg = st16 (pkt_out_msg + 18) 0 msg
               in if \<not> is_main_conn_present datapath then (CNTLR_CHN_CLOSED, None, msg)
                  else (case (if aux_channel datapath = None then main_channel datapath else aux_channel datapath) of
                          None \<Rightarrow> (Request_failure, None, msg)
                        | Some c \<Rightarrow> (Request_success, Some c, msg)))"

definition of_add_data_to_pkt_and_send_to_dp ::
  "(u64 \<Rightarrow> pktout_datapath option) \<Rightarrow> (nat option \<Rightarrow> of_msg \<Rightarrow> delivery) \<Rightarrow> u64 \<Rightarrow> nat option \<Rightarrow> u8 list \<Rightarrow> of_msg
    \<Rightarrow> delivery \<times> (nat option \<times> of_msg) list" where
  "of_add_data_to_pkt_and_send_to_dp get_datapath_byhandle deliver datapath_handle conn_info data msg =
     (let msg = (if length data > 0
                 then (memcpy (start_of_data msg + unat (data_len msg)) data (length data) msg)
                        \<lparr>data_len := data_len msg + of_nat (length data)\<rparr>
                 else msg)
      in of_cntrlr_send_request_message get_datapath_byhandle deliver datapath_handle conn_info msg)"

text \<open>
  How an application sends a packet to one port (\<open>cntlr_sm_arp_app.c\<close>): it frames the message, closes an
  empty match, pushes the action, stores the length of the actions and adds the packet.
\<close>

definition send_packet ::
  "(u64 \<Rightarrow> pktout_datapath option) \<Rightarrow> (nat option \<Rightarrow> of_msg \<Rightarrow> delivery) \<Rightarrow> u64 \<Rightarrow> u32 \<Rightarrow> u16 \<Rightarrow> u8 list \<Rightarrow> of_msg
    \<Rightarrow> delivery \<times> (nat option \<times> of_msg) list" where
  "send_packet get_datapath_byhandle deliver datapath_handle in_port max_len data msg =
     (let (rc, conn_info, msg) = of_frame_pktout_msg get_datapath_byhandle None datapath_handle False OFP_NO_BUFFER 0 msg in
      if rc \<noteq> Request_success then (Refused, [])
      else let msg = ofu_start_setting_match_field_values msg;
               (match_len, msg) = ofu_end_setting_match_field_values msg;
               msg = ofu_start_pushing_actions msg;
               (rc, msg) = ofu_push_output_action in_port max_len msg
           in if rc \<noteq> OFU_ACTION_PUSH_SUCCESS then (Refused, [])
              else let (action_len, msg) = ofu_end_pushing_actions msg;
                       msg = st16 (start_of_data msg + 12) action_len msg
                   in of_add_data_to_pkt_and_send_to_dp get_datapath_byhandle deliver datapath_handle conn_info data msg)"


section \<open>The masks that are sent\<close>

datatype async_call =
    Packetin_master u8 u8 u8
  | Packetin_slave u8 u8 u8
  | Port_master u8 u8 u8
  | Port_slave u8 u8 u8
  | Removed_master u8 u8 u8 u8
  | Removed_slave u8 u8 u8 u8

fun exec_async :: "async_call \<Rightarrow> of_msg \<Rightarrow> of_msg" where
  "exec_async (Packetin_master a b c) msg =
     the (snd (ofu_set_packetin_async_msg_flags_in_master_or_equal_role a b c (Some msg)))"
| "exec_async (Packetin_slave a b c) msg = ofu_set_packetin_async_msg_flags_in_slave_role a b c msg"
| "exec_async (Port_master a b c) msg = ofu_set_port_mod_async_msg_flags_in_master_or_equal_role a b c msg"
| "exec_async (Port_slave a b c) msg = ofu_set_port_mod_async_msg_flags_in_slave_role a b c msg"
| "exec_async (Removed_master a b c d) msg = ofu_set_flow_remove_async_msg_flags_in_master_or_equal_role a b c d msg"
| "exec_async (Removed_slave a b c d) msg = ofu_set_flow_remove_async_msg_flags_in_slave_role a b c d msg"

text \<open>What the calls do to the six masks: the reasons of a call replace or join those of its mask.\<close>

definition reason_bit :: "u8 \<Rightarrow> nat \<Rightarrow> u32" where
  "reason_bit flag reason = (if flag = 1 then push_bit reason 1 else 0)"

definition join_mask :: "nat \<Rightarrow> u8 \<Rightarrow> nat \<Rightarrow> u32 \<Rightarrow> u32 list \<Rightarrow> u32 list" where
  "join_mask k flag reason others ms = ms[k := (if flag = 1 then push_bit reason 1 else ms ! k) OR others]"

fun step_async :: "async_call \<Rightarrow> u32 list \<Rightarrow> u32 list" where
  "step_async (Packetin_master a b c) ms = ms[0 := reason_bit a 0 OR reason_bit b 1 OR reason_bit c 2]"
| "step_async (Packetin_slave a b c) ms = join_mask 1 a 0 (reason_bit b 1 OR reason_bit c 2) ms"
| "step_async (Port_master a b c) ms = join_mask 2 a 0 (reason_bit b 2 OR reason_bit c 1) ms"
| "step_async (Port_slave a b c) ms = join_mask 3 a 0 (reason_bit b 2 OR reason_bit c 1) ms"
| "step_async (Removed_master a b c d) ms = join_mask 4 a 0 (reason_bit b 1 OR reason_bit c 2 OR reason_bit d 3) ms"
| "step_async (Removed_slave a b c d) ms = join_mask 5 a 0 (reason_bit b 1 OR reason_bit c 2 OR reason_bit d 3) ms"

definition async_masks :: "of_msg \<Rightarrow> u32 list" where
  "async_masks msg = map (\<lambda>k. ld32_host (start_of_data msg + k) msg) [8, 12, 16, 20, 24, 28]"

lemma ld32_st32_host [simp]:
  "ld32_host a (st32_host a v msg) = v"
  "a + 4 \<le> b \<or> b + 4 \<le> a \<Longrightarrow> ld32_host b (st32_host a v msg) = ld32_host b msg"
  by (auto simp: ld32_host_def msg_defs poke_def read_write_at read_write_disjoint)

lemma host_fields [simp]:
  "start_of_data (st32_host a v msg) = start_of_data msg" "data_len (st32_host a v msg) = data_len msg"
  "buffer_len (st32_host a v msg) = buffer_len msg"
  "start_of_data (set_reason k f r msg) = start_of_data msg" "data_len (set_reason k f r msg) = data_len msg"
  "buffer_len (set_reason k f r msg) = buffer_len msg"
  "start_of_data (add_reason k f r msg) = start_of_data msg" "data_len (add_reason k f r msg) = data_len msg"
  "buffer_len (add_reason k f r msg) = buffer_len msg"
  by (simp_all add: msg_defs set_reason_def add_reason_def)

lemma ld32_set_reason:
  "ld32_host (start_of_data msg + k) (set_reason k f r msg) = (if f = 1 then push_bit r 1 else ld32_host (start_of_data msg + k) msg)"
  "k + 4 \<le> j \<or> j + 4 \<le> k \<Longrightarrow> ld32_host (start_of_data msg + j) (set_reason k f r msg) = ld32_host (start_of_data msg + j) msg"
  by (auto simp: set_reason_def)

lemma ld32_add_reason:
  "ld32_host (start_of_data msg + k) (add_reason k f r msg) = ld32_host (start_of_data msg + k) msg OR reason_bit f r"
  "k + 4 \<le> j \<or> j + 4 \<le> k \<Longrightarrow> ld32_host (start_of_data msg + j) (add_reason k f r msg) = ld32_host (start_of_data msg + j) msg"
  by (auto simp: add_reason_def reason_bit_def)

lemmas async_defs = ofu_set_packetin_async_msg_flags_in_master_or_equal_role_def ofu_set_packetin_async_msg_flags_in_slave_role_def
  ofu_set_port_mod_async_msg_flags_in_master_or_equal_role_def ofu_set_port_mod_async_msg_flags_in_slave_role_def
  ofu_set_flow_remove_async_msg_flags_in_master_or_equal_role_def ofu_set_flow_remove_async_msg_flags_in_slave_role_def

lemma exec_async_fields [simp]:
  "start_of_data (exec_async c msg) = start_of_data msg" "data_len (exec_async c msg) = data_len msg"
  "buffer_len (exec_async c msg) = buffer_len msg"
  by (cases c; simp add: async_defs Let_def)+

lemma exec_async_masks: "async_masks (exec_async c msg) = step_async c (async_masks msg)"
proof -
  have ld: "ld32_host (start_of_data msg + j) (add_reason k f r m) = (if k = j then ld32_host (start_of_data msg + k) m OR reason_bit f r
      else ld32_host (start_of_data msg + j) m)" if "start_of_data m = start_of_data msg" "k = j \<or> k + 4 \<le> j \<or> j + 4 \<le> k" for m j k f r
    using ld32_add_reason(1) [of m k f r] ld32_add_reason(2) [of k j m f r] that by auto
  have st: "ld32_host (start_of_data msg + j) (set_reason k f r m) = (if k = j then (if f = 1 then push_bit r 1
      else ld32_host (start_of_data msg + k) m) else ld32_host (start_of_data msg + j) m)"
    if "start_of_data m = start_of_data msg" "k = j \<or> k + 4 \<le> j \<or> j + 4 \<le> k" for m j k f r
    using ld32_set_reason(1) [of m k f r] ld32_set_reason(2) [of k j m f r] that by auto
  show ?thesis
    by (cases c) (simp_all add: async_masks_def async_defs join_mask_def ld st layout_simps Let_def reason_bit_def
        or.assoc)
qed


lemma fold_async_fields [simp]:
  "start_of_data (fold exec_async calls msg) = start_of_data msg" "data_len (fold exec_async calls msg) = data_len msg"
  "buffer_len (fold exec_async calls msg) = buffer_len msg"
  by (induction calls arbitrary: msg) simp_all

lemma fold_async_masks: "async_masks (fold exec_async calls msg) = fold step_async calls (async_masks msg)"
  by (induction calls arbitrary: msg) (simp_all add: exec_async_masks)

lemma read_htonl_masks:
  assumes "start_of_data m = c"
  shows "read_bytes (c + 8) 24 (mem (fold htonl_mask [c + 8, c + 12, c + 16, c + 20, c + 24, c + 28] m)) = concat (map be32 (async_masks m))"
    and "x < c + 8 \<Longrightarrow> mem (fold htonl_mask [c + 8, c + 12, c + 16, c + 20, c + 24, c + 28] m) x = mem m x"
    and "start_of_data (fold htonl_mask [c + 8, c + 12, c + 16, c + 20, c + 24, c + 28] m) = c"
proof -
  let ?m = "mem (fold htonl_mask [c + 8, c + 12, c + 16, c + 20, c + 24, c + 28] m)"
  have "read_bytes (c + 8) (4 + (4 + (4 + (4 + (4 + 4))))) ?m = concat (map be32 (async_masks m))"
    unfolding read_bytes_split using assms
    by (simp add: htonl_mask_def async_masks_def ld32_host_def msg_defs poke_def read_write_disjoint read_write_at)
  then show "read_bytes (c + 8) 24 ?m = concat (map be32 (async_masks m))" by simp
  show "x < c + 8 \<Longrightarrow> ?m x = mem m x" by (simp add: htonl_mask_def msg_defs poke_def write_bytes_outside)
  show "start_of_data (fold htonl_mask [c + 8, c + 12, c + 16, c + 20, c + 24, c + 28] m) = c"
    using assms by (simp add: htonl_mask_def msg_defs)
qed

text \<open>A message of a type that is not answered only takes a number.\<close>

lemma sent_unrecorded:
  assumes "\<not> is_rec_xtn (mem msg (start_of_data msg + 1))" and "se_sent_ok env"
  shows "CNTLR_Q_2_BARRIERQ_IF_REQUIRED_OTHERWISE_SEND_2_DP env datapath cbk status msg s =
    Some \<lparr>ro_status = status, ro_msg = st32 (start_of_data msg + 4) (next_xid (cntlr_xtn_seq_no_g s)) msg, ro_sent = True,
      ro_released = False, ro_state = s\<lparr>cntlr_xtn_seq_no_g := next_xid (cntlr_xtn_seq_no_g s)\<rparr>\<rparr>"
  using assms
  by (simp add: CNTLR_Q_2_BARRIERQ_IF_REQUIRED_OTHERWISE_SEND_2_DP_def cntlr_send_msg_to_dp_def Let_def)

lemma frame_and_send_connected:
  assumes "se_datapath_byhandle env h = Some datapath" and "rd_main_conn_present datapath" and "rd_conn_table datapath \<noteq> None"
  shows "frame_and_send check frame env msg h cbk s
    = CNTLR_Q_2_BARRIERQ_IF_REQUIRED_OTHERWISE_SEND_2_DP env datapath cbk (check msg) (frame msg) s"
  using assms by (auto simp: frame_and_send_def with_datapath_def over_main_channel_def CNTLR_GET_MAIN_CHANNEL_SAFE_REF_def)

text \<open>A call that switches everything off for a slave changes nothing.\<close>

lemma async_call_kept: "async_masks (exec_async (Packetin_slave 0 0 0) msg) = async_masks msg"
  unfolding exec_async_masks by (simp add: join_mask_def reason_bit_def)

text \<open>The mask a call chooses, with its place among the six.\<close>

fun async_mask :: "async_call \<Rightarrow> nat \<times> u32" where
  "async_mask (Packetin_master a b c) = (0, reason_bit a 0 OR reason_bit b 1 OR reason_bit c 2)"
| "async_mask (Packetin_slave a b c) = (1, reason_bit a 0 OR reason_bit b 1 OR reason_bit c 2)"
| "async_mask (Port_master a b c) = (2, reason_bit a 0 OR reason_bit b 2 OR reason_bit c 1)"
| "async_mask (Port_slave a b c) = (3, reason_bit a 0 OR reason_bit b 2 OR reason_bit c 1)"
| "async_mask (Removed_master a b c d) = (4, reason_bit a 0 OR reason_bit b 1 OR reason_bit c 2 OR reason_bit d 3)"
| "async_mask (Removed_slave a b c d) = (5, reason_bit a 0 OR reason_bit b 1 OR reason_bit c 2 OR reason_bit d 3)"

definition chosen_masks :: "async_call list \<Rightarrow> u32 list" where
  "chosen_masks calls = map (\<lambda>k. case map_of (map async_mask calls) k of None \<Rightarrow> 0 | Some v \<Rightarrow> v) [0..<6]"

lemma step_async_fresh:
  assumes "ms ! fst (async_mask c) = 0"
  shows "step_async c ms = ms[fst (async_mask c) := snd (async_mask c)]"
  using assms by (cases c) (simp_all add: join_mask_def reason_bit_def or.assoc)

lemma fold_async_fresh:
  assumes "length ms = 6" and "\<forall>c \<in> set calls. ms ! fst (async_mask c) = 0" and "distinct (map (fst \<circ> async_mask) calls)"
  shows "fold step_async calls ms
    = map (\<lambda>k. case map_of (map async_mask calls) k of None \<Rightarrow> ms ! k | Some v \<Rightarrow> v) [0..<6]"
  using assms
proof (induction calls arbitrary: ms)
  case Nil
  then show ?case by (simp add: list_eq_iff_nth_eq)
next
  case (Cons c calls)
  let ?k = "fst (async_mask c)" and ?v = "snd (async_mask c)"
  have k: "?k < 6" by (cases c) simp_all
  have new: "?k \<notin> fst ` set (map async_mask calls)" using Cons.prems(3) by (simp add: image_image comp_def)
  have "\<forall>c' \<in> set calls. ms[?k := ?v] ! fst (async_mask c') = 0"
  proof
    fix c' assume c: "c' \<in> set calls"
    then have "fst (async_mask c') \<noteq> ?k" using new by (metis image_eqI list.set_map)
    then show "ms[?k := ?v] ! fst (async_mask c') = 0" using Cons.prems(2) c by simp
  qed
  then have "fold step_async calls (ms[?k := ?v])
      = map (\<lambda>k. case map_of (map async_mask calls) k of None \<Rightarrow> ms[?k := ?v] ! k | Some v \<Rightarrow> v) [0..<6]"
    using Cons.prems by (intro Cons.IH) simp_all
  moreover have "map_of (map async_mask calls) ?k = None" using new by (simp add: map_of_eq_None_iff)
  ultimately show ?case
    using Cons.prems(1,2) k
    by (cases "async_mask c") (auto simp: step_async_fresh nth_list_update split: option.splits)
qed

lemma fold_async_chosen:
  assumes "distinct (map (fst \<circ> async_mask) calls)"
  shows "fold step_async calls (replicate 6 0) = chosen_masks calls"
proof -
  have "\<forall>c \<in> set calls. replicate 6 (0 :: u32) ! fst (async_mask c) = 0"
  proof
    fix c show "replicate 6 (0 :: u32) ! fst (async_mask c) = 0" by (cases c) simp_all
  qed
  moreover have "replicate 6 (0 :: u32) ! k = 0" if "k \<in> set [0..<6]" for k using that by simp
  ultimately show ?thesis using fold_async_fresh [OF _ _ assms, of "replicate 6 0"]
    unfolding chosen_masks_def by (simp cong: map_cong option.case_cong)
qed

text \<open>
  C28: When each of the six functions that choose the reasons for asynchronous messages is
  called at most once on a new, zeroed message, the configuration that goes to a connected datapath, when the
  transport takes it, holds the six masks in network byte order: exactly the reasons whose flags were TRUE in
  the calls, and nothing where no call was made.  A second call of a function is not covered: all but
  one of the functions keep the earlier mask when their first flag is FALSE, against their comments
  (lemma \<open>async_call_kept\<close>).
\<close>

theorem async_config_sent:
  assumes "se_datapath_byhandle env h = Some datapath" and "rd_main_conn_present datapath"
    and "rd_conn_table datapath \<noteq> None" and "se_sent_ok env"
    and "32 \<le> unat (buffer_len msg)" and "data_len msg = 0" and "zeros (start_of_data msg) 32 (mem msg)"
    and "distinct (map (fst \<circ> async_mask) calls)"
  shows "\<exists>r. of_set_async_configuration env (fold exec_async calls msg) h cbk s = Some r
    \<and> ro_status r = Request_success \<and> ro_sent r
    \<and> read_bytes (start_of_data msg) 32 (mem (ro_msg r))
      = [4, 28, 0, 32] @ be32 (next_xid (cntlr_xtn_seq_no_g s)) @ concat (map be32 (chosen_masks calls))"
proof -
  let ?c = "start_of_data msg" and ?n = "fold exec_async calls msg" and ?x = "next_xid (cntlr_xtn_seq_no_g s)"
  let ?h = "add_length 32 (put_header OFPT_SET_ASYNC ?n)"
  define F where "F = fold htonl_mask [?c + 8, ?c + 12, ?c + 16, ?c + 20, ?c + 24, ?c + 28] ?h"
  have h: "start_of_data ?h = ?c" by (simp add: frame_defs msg_defs)
  note f = read_htonl_masks [OF h, folded F_def]
  have "read_bytes ?c (1 + (1 + 2)) (mem ?h) = [4, 28, 0, 32]"
    unfolding read_bytes_split using assms(6)
    by (simp add: frame_defs msg_defs poke_def read_write_disjoint read_write_at OFPT_SET_ASYNC_def OFP_VERSION_def be16_def)
  then have low: "read_bytes ?c 4 (mem F) = [4, 28, 0, 32]"
    using f(2) read_bytes_cong [of ?c 4 "mem F" "mem ?h"] by simp
  then have "mem F (?c + 1) = 28" by (simp add: read_bytes_def upt_rec)
  then have ty: "\<not> is_rec_xtn (mem F (start_of_data F + 1))"
    using f(3) by (simp add: is_rec_xtn_def OFPT_ECHO_REQUEST_def OFPT_MULTIPART_REQUEST_def OFPT_BARRIER_REQUEST_def OFPT_GROUP_MOD_def
        OFPT_METER_MOD_def OFPT_GET_CONFIG_REQUEST_def OFPT_ROLE_REQUEST_def OFPT_GET_ASYNC_REQUEST_def)
  have z: "async_masks msg = replicate 6 0"
    using assms(7) by (simp add: async_masks_def ld32_host_def read_zeros zeros_sub numeral_eq_Suc of_be_def)
  have "async_masks ?h = async_masks ?n"
    by (simp add: async_masks_def ld32_host_def frame_defs msg_defs poke_def read_write_disjoint)
  then have m: "async_masks ?h = chosen_masks calls"
    by (simp add: fold_async_masks z fold_async_chosen [OF assms(8)])
  have "read_bytes ?c (4 + (4 + 24)) (mem (st32 (?c + 4) ?x F))
      = [4, 28, 0, 32] @ be32 ?x @ concat (map be32 (chosen_masks calls))"
    unfolding read_bytes_split using low f(1) m
    by (simp add: msg_defs poke_def read_write_disjoint read_write_at add.commute [of 8])
  moreover have "of_set_async_configuration env ?n h cbk s
      = CNTLR_Q_2_BARRIERQ_IF_REQUIRED_OTHERWISE_SEND_2_DP env datapath (cbk\<lparr>rk_callback_fn := 0\<rparr>) Request_success F s"
    using assms(5) by (simp add: of_set_async_configuration_def frame_and_send_connected [OF assms(1-3)] layout_simps Let_def
        room_status_def F_def)
  ultimately show ?thesis using sent_unrecorded [OF ty assms(4)] f(3) by simp
qed

lemma async_config_sent_witness:
  "\<exists>r. of_set_async_configuration sample_send_env
        (fold exec_async [Packetin_master 1 1 0, Removed_master 1 0 1 0] (init_msg 28 32 1000 (\<lambda>_. 0))) 2
        \<lparr>rk_callback_fn = 0, rk_arg1 = 0, rk_arg2 = 0\<rparr> fresh_table = Some r
     \<and> read_bytes 1000 32 (mem (ro_msg r)) = [4, 28, 0, 32] @ be32 (next_xid (cntlr_xtn_seq_no_g fresh_table))
         @ concat (map be32 [3, 0, 0, 0, 5, 0])"
proof -
  let ?calls = "[Packetin_master 1 1 0, Removed_master 1 0 1 0]"
  have w: "chosen_masks ?calls = [3, 0, 0, 0, 5, 0]"
    by (simp add: chosen_masks_def reason_bit_def upt_rec numeral_eq_Suc)
  show ?thesis
    using async_config_sent [of sample_send_env 2 _ "init_msg 28 32 1000 (\<lambda>_. 0)" ?calls "\<lparr>rk_callback_fn = 0, rk_arg1 = 0, rk_arg2 = 0\<rparr>" fresh_table]
    unfolding w by (auto simp: sample_send_env_def init_msg_def zeros_def ROUND_UP_def)
qed

section \<open>The packet that is sent\<close>

lemma frame_pktout:
  assumes "get_datapath_byhandle h = Some datapath" and "is_main_conn_present datapath"
    and "(if aux_channel datapath = None then main_channel datapath else aux_channel datapath) = Some c"
    and "of_frame_pktout_msg get_datapath_byhandle g h False buffer_id n msg = (rc, conn_info, m)"
  shows "rc = Request_success \<and> conn_info = Some c \<and> utils_ptr m = start_of_data msg + 16 \<and> ptr2 m = utils_ptr m \<and> ptr3 m = utils_ptr m
    \<and> length1 m = 0 \<and> length2 m = 0 \<and> length3 m = 0 \<and> data_len m = data_len msg + 24 \<and> start_of_data m = start_of_data msg
    \<and> buffer_len m = buffer_len msg \<and> (\<forall>x \<ge> start_of_data msg + 24. mem m x = mem msg x)"
  using assms
  by (auto simp: of_frame_pktout_msg_def put_header_def msg_defs poke_def layout_simps Let_def write_bytes_outside)


text \<open>Closing an empty match and pushing one action into a message that has been framed.\<close>

lemma action_after_empty_match:
  assumes "utils_ptr m = s + 16" and "ptr2 m = ptr3 m" and "length1 m = 0" and "length2 m = 0"
    and "start_of_data m = s" and "44 \<le> unat (buffer_len m)"
    and "m1 = snd (ofu_end_setting_match_field_values (ofu_start_setting_match_field_values m))"
  shows "\<exists>m2. ofu_push_output_action port max_len (ofu_start_pushing_actions m1) = (OFU_ACTION_PUSH_SUCCESS, m2)
    \<and> fst (ofu_end_pushing_actions m2) = 16 \<and> data_len (snd (ofu_end_pushing_actions m2)) = data_len m + 20
    \<and> start_of_data m2 = s \<and> mem (snd (ofu_end_pushing_actions m2)) = mem m2
    \<and> read_bytes (s + 24) 8 (mem m2) = be16 0 @ be16 16 @ be32 port
    \<and> (\<forall>x \<ge> s + 40. mem m2 x = mem m x)"
proof -
  have m1: "ptr1 m1 = s + 20" "length1 m1 = 4" "ptr2 m1 = ptr2 m" "ptr3 m1 = ptr3 m" "length2 m1 = 0"
    "data_len m1 = data_len m + 4" "start_of_data m1 = s" "buffer_len m1 = buffer_len m"
    "\<forall>x \<ge> s + 24. mem m1 x = mem m x"
    unfolding assms(7) using assms(1-6)
    by (simp_all add: ofu_start_setting_match_field_values_def ofu_end_setting_match_field_values_def msg_defs layout_simps Let_def
        advance1_def ROUND_UP_def ld16_host_def poke_def read_write_same' be16_def of_be_def write_bytes_outside)
  let ?a = "ofu_start_pushing_actions m1"
  have a: "ptr3 ?a = s + 24" "length3 ?a = 0" "length2 ?a = 0" "ptr1 ?a = s + 20" "length1 ?a = 4" "data_len ?a = data_len m + 4"
    "start_of_data ?a = s" "buffer_len ?a = buffer_len m" "mem ?a = mem m1"
    using m1 assms(2) by (simp_all add: ofu_start_pushing_actions_def Let_def)
  obtain m2 where p: "ofu_push_output_action port max_len ?a = (OFU_ACTION_PUSH_SUCCESS, m2)"
    and m2: "length2 m2 = 0" "length3 m2 = 16" "data_len m2 = data_len m + 4" "start_of_data m2 = s"
      "mem m2 = mem (st16 (s + 32) (if max_len = 0 then 128 else max_len) (st32 (s + 28) port (st16 (s + 26) 16 (st16 (s + 24) 0 ?a))))"
    using a assms(6)
    by (simp add: ofu_push_output_action_def no_room_def pos1_def pos3_def buf_end_def layout_simps Let_def advance3_def msg_defs
        add.commute)
  have "read_bytes (s + 24) (2 + (2 + 4)) (mem m2) = be16 0 @ be16 16 @ be32 port"
    unfolding read_bytes_split m2(5) by (simp add: msg_defs poke_def read_write_disjoint read_write_at)
  moreover have "\<forall>x \<ge> s + 40. mem m2 x = mem m x"
    unfolding m2(5) using m1(9) a(9) by (simp add: msg_defs poke_def write_bytes_outside)
  ultimately show ?thesis using p m2 by (simp add: ofu_end_pushing_actions_def Let_def)
qed

text \<open>
  A packet for one port is sent four bytes late: the length of the fixed part already
  counts the eight bytes of an empty match, and closing the match counts four of them again.  Between the
  action, which ends at 40, and the packet, which starts at 44, the message has four bytes of what its
  memory held before, which the length of the actions does not count; a datapath takes them for the
  beginning of the packet.
\<close>

theorem packet_after_gap:
  assumes "get_datapath_byhandle h = Some datapath" and "is_main_conn_present datapath"
    and "(if aux_channel datapath = None then main_channel datapath else aux_channel datapath) = Some c"
    and "data_len msg = 0" and "44 + length data \<le> unat (buffer_len msg)" and "data \<noteq> []"
  shows "\<exists>m. send_packet get_datapath_byhandle deliver h port max_len data msg = (deliver (Some c) m, [(Some c, m)])
    \<and> data_len m = of_nat (44 + length data)
    \<and> read_bytes (start_of_data msg + 12) 2 (mem m) = be16 16
    \<and> read_bytes (start_of_data msg + 24) 8 (mem m) = be16 0 @ be16 16 @ be32 port
    \<and> read_bytes (start_of_data msg + 40) 4 (mem m) = read_bytes (start_of_data msg + 40) 4 (mem msg)
    \<and> read_bytes (start_of_data msg + 44) (length data) (mem m) = data"
proof -
  let ?s = "start_of_data msg" and ?g = get_datapath_byhandle
  obtain rc ci m0 where fr: "of_frame_pktout_msg ?g None h False OFP_NO_BUFFER 0 msg = (rc, ci, m0)"
    by (metis prod_cases3)
  note f = frame_pktout [where get_datapath_byhandle = ?g and h = h, OF assms(1,2,3) fr]
  then have e: "of_frame_pktout_msg ?g None h False OFP_NO_BUFFER 0 msg = (Request_success, Some c, m0)"
    and m0: "utils_ptr m0 = ?s + 16" "ptr2 m0 = ptr3 m0" "length1 m0 = 0" "length2 m0 = 0" "start_of_data m0 = ?s"
      "buffer_len m0 = buffer_len msg" "data_len m0 = 24" "\<forall>x \<ge> ?s + 24. mem m0 x = mem msg x"
    using f fr assms(4) by simp_all
  let ?m1 = "snd (ofu_end_setting_match_field_values (ofu_start_setting_match_field_values m0))"
  have "44 \<le> unat (buffer_len m0)" using assms(5) m0 by simp
  from action_after_empty_match [OF m0(1-5) this refl, of port max_len]
  obtain m2 where a: "ofu_push_output_action port max_len (ofu_start_pushing_actions ?m1) = (OFU_ACTION_PUSH_SUCCESS, m2)"
    and m2: "fst (ofu_end_pushing_actions m2) = 16" "data_len (snd (ofu_end_pushing_actions m2)) = 44" "start_of_data m2 = ?s"
      "mem (snd (ofu_end_pushing_actions m2)) = mem m2" "read_bytes (?s + 24) 8 (mem m2) = be16 0 @ be16 16 @ be32 port"
      "\<forall>x \<ge> ?s + 40. mem m2 x = mem m0 x"
    using m0(7) by auto
  define m3 where "m3 = snd (ofu_end_pushing_actions m2)"
  have m3: "ofu_end_pushing_actions m2 = (16, m3)" "start_of_data m3 = ?s"
    using m2(1,3) by (auto simp: m3_def ofu_end_pushing_actions_def Let_def prod_eq_iff)
  let ?m4 = "st16 (?s + 12) 16 m3"
  define m where "m = st16 (?s + 2) (of_nat (44 + length data)) ((memcpy (?s + 44) data (length data) ?m4)\<lparr>data_len := of_nat (44 + length data)\<rparr>)"
  have run: "send_packet ?g deliver h port max_len data msg = (deliver (Some c) m, [(Some c, m)])"
    using e a m3 m2(1,2) assms(1,6)
    by (simp add: send_packet_def of_add_data_to_pkt_and_send_to_dp_def of_cntrlr_send_request_message_def Let_def split_beta
        m_def msg_defs m3_def)
  have "read_bytes (?s + 40) 4 (mem m) = read_bytes (?s + 40) 4 (mem msg)"
    using m2(4,6) m0(8) by (intro read_bytes_cong) (simp add: m_def m3_def msg_defs poke_def write_bytes_outside)
  then show ?thesis
    using run m2(4,5) by (intro exI [of _ m]) (simp add: m_def m3_def msg_defs poke_def read_write_disjoint read_write_at)
qed

lemma packet_after_gap_witness:
  "let dp = \<lparr>is_main_conn_present = True, main_channel = Some 7, main_auxiliary_id = 0, aux_channel = None\<rparr>;
       msg = init_msg 13 64 1000 (\<lambda>_. 0xEE)
   in \<exists>m. send_packet (\<lambda>h. if h = 2 then Some dp else None) (\<lambda>_ _. Accepted) 2 5 0xFFFF [1, 2, 3] msg = (Accepted, [(Some 7, m)])
        \<and> read_bytes 1040 7 (mem m) = [0xEE, 0xEE, 0xEE, 0xEE, 1, 2, 3]"
proof -
  let ?dp = "\<lparr>is_main_conn_present = True, main_channel = Some 7, main_auxiliary_id = 0, aux_channel = None\<rparr>"
  let ?msg = "init_msg 13 64 1000 (\<lambda>_. 0xEE)" and ?g = "\<lambda>h. if h = 2 then Some ?dp else None"
  have "\<exists>m. send_packet ?g (\<lambda>_ _. Accepted) 2 5 0xFFFF [1, 2, 3] ?msg = (Accepted, [(Some 7, m)])
    \<and> data_len m = of_nat (44 + length [1, 2, 3 :: u8])
    \<and> read_bytes (start_of_data ?msg + 12) 2 (mem m) = be16 16
    \<and> read_bytes (start_of_data ?msg + 24) 8 (mem m) = be16 0 @ be16 16 @ be32 5
    \<and> read_bytes (start_of_data ?msg + 40) 4 (mem m) = read_bytes (start_of_data ?msg + 40) 4 (mem ?msg)
    \<and> read_bytes (start_of_data ?msg + 44) (length [1, 2, 3 :: u8]) (mem m) = [1, 2, 3]"
    by (rule packet_after_gap [where datapath = ?dp]) (simp_all add: init_msg_def ROUND_UP_def)
  then obtain m where run: "send_packet ?g (\<lambda>_ _. Accepted) 2 5 0xFFFF [1, 2, 3] ?msg = (Accepted, [(Some 7, m)])"
    and "read_bytes 1040 4 (mem m) = read_bytes 1040 4 (mem ?msg)" and "read_bytes 1044 (length [1, 2, 3 :: u8]) (mem m) = [1, 2, 3]"
    by (elim exE conjE) (simp add: init_msg_def)
  moreover from this have "read_bytes 1044 3 (mem m) = [1, 2, 3]" by (simp add: numeral_eq_Suc)
  ultimately have "read_bytes 1040 (4 + 3) (mem m) = [0xEE, 0xEE, 0xEE, 0xEE, 1, 2, 3]"
    unfolding read_bytes_split by (simp add: init_msg_def read_bytes_def numeral_eq_Suc)
  then show ?thesis using run by auto
qed

end
