(* ===== verification/Answers.thy ===== *)
theory Answers
  imports Requests
begin

text \<open>
  The replies of a datapath that are one message (\<open>of_cntlr_msg.c\<close>): role, asynchronous configuration,
  switch configuration, echo and barrier replies, and the errors that answer a request.  Each handler
  finds the record of its request by the transaction number, calls the function recorded there, and ends
  the transaction.
\<close>

section \<open>Replies\<close>

definition OFPT_ERROR :: u8 where "OFPT_ERROR = 1"
definition OFPT_ECHO_REPLY :: u8 where "OFPT_ECHO_REPLY = 3"
definition OFPT_GET_CONFIG_REPLY :: u8 where "OFPT_GET_CONFIG_REPLY = 8"
definition OFPT_BARRIER_REPLY :: u8 where "OFPT_BARRIER_REPLY = 21"
definition OFPT_ROLE_REPLY :: u8 where "OFPT_ROLE_REPLY = 25"
definition OFPT_GET_ASYNC_REPLY :: u8 where "OFPT_GET_ASYNC_REPLY = 27"

text \<open>What the reading of the rest of the message comes to; a complete message is in memory.\<close>

datatype message_read = Read_failure | Read_waiting | Read_complete

text \<open>The arguments all the functions have: the address of the function comes first.\<close>

record answer_args =
  aa_fn :: nat
  aa_domain :: u64
  aa_datapath :: u64
  aa_arg1 :: nat
  aa_arg2 :: nat
  aa_status :: response_status

text \<open>
  The configuration of asynchronous messages comes as the address that is passed for the message; the
  switch configuration as its flags and the length of packets.
\<close>

datatype answer_cbk =
    Role_is answer_args u32
  | Async_config_at answer_args nat
  | Switch_config_is answer_args u16 u16
  | Echo_answered answer_args
  | Barrier_passed answer_args

text \<open>
  The calls, whether the channel is set up for the next message, whether the message was freed, and the
  requests that are left.
\<close>

record answer_outcome =
  ao_calls :: "answer_cbk list"
  ao_next_message :: bool
  ao_freed :: bool
  ao_state :: xtn_state

definition unanswered :: "bool \<Rightarrow> xtn_state \<Rightarrow> answer_outcome" where
  "unanswered next_message s = \<lparr>ao_calls = [], ao_next_message = next_message, ao_freed = False, ao_state = s\<rparr>"

definition answered :: "answer_cbk list \<Rightarrow> bool \<Rightarrow> nat \<Rightarrow> xtn_state \<Rightarrow> answer_outcome" where
  "answered calls freed p_xtn_rec s =
     \<lparr>ao_calls = calls, ao_next_message = True, ao_freed = freed, ao_state = snd (cntlr_del_xtn_with_rec p_xtn_rec s)\<rparr>"

text \<open>The number is that of the header, which the channel keeps apart from the message.\<close>

definition xtn_of_header :: "u32 \<Rightarrow> xtn_datapath \<Rightarrow> memory \<Rightarrow> nat \<Rightarrow> xtn_state \<Rightarrow> nat option" where
  "xtn_of_header init datapath m p_msg_hdr s = cntlr_get_xtn_details init (be32_at m (p_msg_hdr + 4)) (xd_id datapath) s"

text \<open>
  A role reply that is not complete yet is given up, and one whose number is not known stays in the channel
  as a complete message.  The arguments of the application are not passed on.
\<close>

definition of_process_role_replymsg ::
  "u32 \<Rightarrow> message_read \<Rightarrow> xtn_datapath \<Rightarrow> memory \<Rightarrow> nat \<Rightarrow> nat \<Rightarrow> xtn_state \<Rightarrow> answer_outcome" where
  "of_process_role_replymsg init read datapath m start p_msg_hdr s =
     (if m (p_msg_hdr + 1) \<noteq> OFPT_ROLE_REPLY then unanswered False s
      else case read of
          Read_failure \<Rightarrow> unanswered False s
        | Read_waiting \<Rightarrow> unanswered True s
        | Read_complete \<Rightarrow>
            (case xtn_of_header init datapath m p_msg_hdr s of
               None \<Rightarrow> unanswered False s
             | Some p_xtn_rec \<Rightarrow>
                 let fn = xr_callback_fn (xtn_recs s p_xtn_rec)
                 in answered (if fn \<noteq> 0
                      then [Role_is \<lparr>aa_fn = fn, aa_domain = 0, aa_datapath = xd_handle datapath, aa_arg1 = 0,
                              aa_arg2 = 0, aa_status = OF_RESPONSE_STATUS_SUCCESS\<rparr> (be32_at m (start + 8))]
                      else []) False p_xtn_rec s))"

definition of_process_async_replymsg ::
  "u32 \<Rightarrow> message_read \<Rightarrow> xtn_datapath \<Rightarrow> memory \<Rightarrow> nat \<Rightarrow> nat \<Rightarrow> xtn_state \<Rightarrow> answer_outcome" where
  "of_process_async_replymsg init read datapath m start p_msg_hdr s =
     (if m (p_msg_hdr + 1) \<noteq> OFPT_GET_ASYNC_REPLY \<or> read \<noteq> Read_complete then unanswered False s
      else case xtn_of_header init datapath m p_msg_hdr s of
          None \<Rightarrow> unanswered False s
        | Some p_xtn_rec \<Rightarrow>
            let fn = xr_callback_fn (xtn_recs s p_xtn_rec)
            in answered (if fn \<noteq> 0
                 then [Async_config_at \<lparr>aa_fn = fn, aa_domain = 0, aa_datapath = xd_handle datapath, aa_arg1 = 0,
                         aa_arg2 = 0, aa_status = OF_RESPONSE_STATUS_SUCCESS\<rparr> start]
                 else []) False p_xtn_rec s)"

definition of_cfg_reply_handler ::
  "u32 \<Rightarrow> message_read \<Rightarrow> xtn_datapath \<Rightarrow> memory \<Rightarrow> nat \<Rightarrow> nat \<Rightarrow> xtn_state \<Rightarrow> answer_outcome" where
  "of_cfg_reply_handler init read datapath m start p_msg_hdr s =
     (if read \<noteq> Read_complete then unanswered False s
      else let miss_send_len = be16_at m (start + 10); flags = be16_at m (start + 8)
           in case xtn_of_header init datapath m p_msg_hdr s of
                None \<Rightarrow> unanswered True s
              | Some p_xtn_rec \<Rightarrow>
                  let r = xtn_recs s p_xtn_rec
                  in answered (if xr_callback_fn r \<noteq> 0
                       then [Switch_config_is \<lparr>aa_fn = xr_callback_fn r, aa_domain = xd_domain datapath,
                               aa_datapath = xd_handle datapath, aa_arg1 = xr_app_pvt_arg1 r, aa_arg2 = xr_app_pvt_arg2 r,
                               aa_status = OF_RESPONSE_STATUS_SUCCESS\<rparr> flags miss_send_len]
                       else []) False p_xtn_rec s)"

text \<open>The function for echo replies has no status; it is put as success here.\<close>

definition of_echo_reply_handler ::
  "u32 \<Rightarrow> message_read \<Rightarrow> xtn_datapath \<Rightarrow> memory \<Rightarrow> nat \<Rightarrow> nat \<Rightarrow> xtn_state \<Rightarrow> answer_outcome" where
  "of_echo_reply_handler init read datapath m start p_msg_hdr s =
     (if m (p_msg_hdr + 1) \<noteq> OFPT_ECHO_REPLY \<or> read \<noteq> Read_complete then unanswered False s
      else case xtn_of_header init datapath m p_msg_hdr s of
          None \<Rightarrow> unanswered True s
        | Some p_xtn_rec \<Rightarrow>
            let r = xtn_recs s p_xtn_rec
            in answered (if xr_callback_fn r \<noteq> 0
                 then [Echo_answered \<lparr>aa_fn = xr_callback_fn r, aa_domain = xd_domain datapath,
                         aa_datapath = xd_handle datapath, aa_arg1 = xr_app_pvt_arg1 r, aa_arg2 = xr_app_pvt_arg2 r,
                         aa_status = OF_RESPONSE_STATUS_SUCCESS\<rparr>]
                 else []) True p_xtn_rec s)"

section \<open>Barrier replies\<close>

text \<open>The messages that wait for a barrier, each with its datapath and the function of its request.\<close>

record barrier_state_msg_queue_node =
  bn_msg :: of_msg
  bn_datapath :: request_datapath
  bn_cbk :: request_cbk

record barrier_queue =
  msg_queue_in_barrier_state :: "barrier_state_msg_queue_node list"
  barrier_state :: bool

text \<open>
  The head of the queue is taken off after the body of the loop, so a message behind which the loop ends
  stays there.  The result: the status, the messages sent, the one that was freed, what is left.
\<close>

fun send_barrier_queue ::
  "send_env \<Rightarrow> barrier_state_msg_queue_node list \<Rightarrow> xtn_state
    \<Rightarrow> ((bool \<times> of_msg list \<times> of_msg option \<times> barrier_state_msg_queue_node list) \<times> xtn_state) option" where
  "send_barrier_queue env [] s = Some ((True, [], None, []), s)"
| "send_barrier_queue env (n # ns) s =
     (let ty = mem (bn_msg n) (start_of_data (bn_msg n) + 1) in
      case CNTLR_Q_2_BARRIERQ_IF_REQUIRED_OTHERWISE_SEND_2_DP env (bn_datapath n) (bn_cbk n) Request_success (bn_msg n) s of
        None \<Rightarrow> None
      | Some r \<Rightarrow>
          if \<not> ro_sent r then Some ((False, [], Some (bn_msg n), n # ns), ro_state r)
          else if ty = OFPT_BARRIER_REQUEST then Some ((True, [ro_msg r], None, n # ns), ro_state r)
          else map_option (\<lambda>((status, sent, freed, left), s). ((status, ro_msg r # sent, freed, left), s))
            (send_barrier_queue env ns (ro_state r)))"

text \<open>
  \<open>None\<close>: the record was not found, and the variable that should hold it is used; or there is no function.
  After a message that could not be sent the function is called a second time, with the failure.
\<close>

definition of_process_barrier_replymsg ::
  "send_env \<Rightarrow> xtn_datapath \<Rightarrow> memory \<Rightarrow> nat \<Rightarrow> barrier_queue \<Rightarrow> xtn_state
    \<Rightarrow> (answer_outcome \<times> of_msg list \<times> barrier_queue) option" where
  "of_process_barrier_replymsg env datapath m p_msg_hdr q s =
     (case xtn_of_header (se_init env) datapath m p_msg_hdr s of
        None \<Rightarrow> None
      | Some p_xtn_rec \<Rightarrow>
          (case send_barrier_queue env (msg_queue_in_barrier_state q) s of
             None \<Rightarrow> None
           | Some ((status, sent, freed, left), s) \<Rightarrow>
               let r = xtn_recs s p_xtn_rec;
                   args = \<lparr>aa_fn = xr_callback_fn r, aa_domain = xd_domain datapath, aa_datapath = xd_handle datapath,
                           aa_arg1 = xr_app_pvt_arg1 r, aa_arg2 = xr_app_pvt_arg2 r,
                           aa_status = OF_RESPONSE_STATUS_SUCCESS\<rparr>;
                   failed = args\<lparr>aa_arg1 := 0, aa_arg2 := 0, aa_status := OF_RESPONSE_STATUS_ERROR\<rparr>
               in if xr_callback_fn r = 0 then None
                  else Some (answered (Barrier_passed args # (if status then [] else [Barrier_passed failed])) False p_xtn_rec s,
                         sent, q\<lparr>msg_queue_in_barrier_state := left, barrier_state := barrier_state q \<and> left \<noteq> []\<rparr>)))"

section \<open>Errors\<close>

definition OFPET_EXPERIMENTER :: u16 where "OFPET_EXPERIMENTER = 0xffff"
definition FSLX_BIND_MOD :: u8 where "FSLX_BIND_MOD = 2"
definition FSLXBMFC_BIND_OBJ_EXISTS :: u16 where "FSLXBMFC_BIND_OBJ_EXISTS = 1"
definition FSLXBMFC_INVALID_BIND_OBJ :: u16 where "FSLXBMFC_INVALID_BIND_OBJ = 2"
definition FSLXBMFC_UNKNOWN_BIND_OBJ :: u16 where "FSLXBMFC_UNKNOWN_BIND_OBJ = 3"
definition FSLXBMFC_BAD_COMMAND :: u16 where "FSLXBMFC_BAD_COMMAND = 4"
definition FSLXBMFC_UNKNOWN_ERROR :: u16 where "FSLXBMFC_UNKNOWN_ERROR = 5"

text \<open>The number of the vendor is set for errors of experimenters only.\<close>

record ofl_error_msg =
  er_type :: u16
  er_code_or_exp_type :: u16
  er_vendor_id :: "u32 option"
  er_data :: nat
  er_length :: u32

text \<open>
  The call for a failed request: the type of the request, the function, and what it gets in the places of
  the domain and of the datapath.
\<close>

datatype error_cbk = Error_cbk (ec_type: u16) (ec_fn: nat) (ec_domain: u64) (ec_datapath: u64)

datatype error_event = DP_ERROR_MESSAGE ofl_error_msg | DP_BIND_MOD_ERROR_MSG_EVENT ofl_error_msg

text \<open>
  Four of the functions get the handles the wrong way round.  An error for a request of the extension is
  reported if the subtype, of which the low byte of the first half is left, is that of another message.
\<close>

definition multipart_error :: "xtn_datapath \<Rightarrow> memory \<Rightarrow> nat \<Rightarrow> nat \<Rightarrow> error_cbk list" where
  "multipart_error datapath m data fn =
     (let ty = be16_at m (data + 8);
          domain_handle = xd_domain datapath; datapath_handle = xd_handle datapath
      in if ty \<in> {OFPMP_PORT_DESC, OFPMP_GROUP_DESC, OFPMP_GROUP, OFPMP_GROUP_FEATURES}
         then [Error_cbk ty fn datapath_handle domain_handle]
         else if ty \<in> {OFPMP_PORT_STATS, OFPMP_TABLE, OFPMP_FLOW, OFPMP_AGGREGATE, OFPMP_TABLE_FEATURES, OFPMP_METER_CONFIG,
                       OFPMP_METER, OFPMP_METER_FEATURES}
         then [Error_cbk ty fn domain_handle datapath_handle]
         else if ty = OFPMP_DESC then [Error_cbk ty fn 0 0]
         else if ty = OFPMP_EXPERIMENTER \<and> m (data + 13) = FSLX_BIND_MOD
         then [Error_cbk ty fn domain_handle datapath_handle]
         else [])"

record error_outcome =
  eo_calls :: "error_cbk list"
  eo_events :: "error_event list"
  eo_next_message :: bool
  eo_state :: xtn_state

text \<open>
  \<open>None\<close>: a request without a function, or a message of another type, which the table of handlers rules out.
  The number of an error whose request is not known any more leaves the complete message in the channel.
\<close>

definition of_handle_error_msg_event ::
  "u32 \<Rightarrow> message_read \<Rightarrow> xtn_datapath \<Rightarrow> memory \<Rightarrow> nat \<Rightarrow> nat \<Rightarrow> xtn_state \<Rightarrow> error_outcome option" where
  "of_handle_error_msg_event init read datapath m start p_msg_hdr s =
     (if m (p_msg_hdr + 1) \<noteq> OFPT_ERROR then None
      else if read \<noteq> Read_complete
      then Some \<lparr>eo_calls = [], eo_events = [], eo_next_message = False, eo_state = s\<rparr>
      else let ty = be16_at m (start + 8); code = be16_at m (start + 10); len = ucast (be16_at m (start + 2)) :: u32 in
        if ty = OFPET_EXPERIMENTER
        then let error_msg = \<lparr>er_type = ty, er_code_or_exp_type = code, er_vendor_id = Some (be32_at m (start + 12)),
                              er_data = start + 16, er_length = len - 16\<rparr>
             in Some \<lparr>eo_calls = [],
                  eo_events = (if code \<in> {FSLXBMFC_BIND_OBJ_EXISTS, FSLXBMFC_INVALID_BIND_OBJ, FSLXBMFC_UNKNOWN_BIND_OBJ,
                                          FSLXBMFC_BAD_COMMAND, FSLXBMFC_UNKNOWN_ERROR}
                               then [DP_BIND_MOD_ERROR_MSG_EVENT error_msg] else []),
                  eo_next_message = True, eo_state = s\<rparr>
        else let data = start + 12; msg_type = m (data + 1);
                 error_msg = \<lparr>er_type = ty, er_code_or_exp_type = code, er_vendor_id = None, er_data = data,
                              er_length = len - 12\<rparr>
             in if msg_type \<notin> {OFPT_ECHO_REQUEST, OFPT_MULTIPART_REQUEST, OFPT_BARRIER_REQUEST, OFPT_GROUP_MOD,
                                OFPT_GET_CONFIG_REQUEST}
                then Some \<lparr>eo_calls = [], eo_events = [DP_ERROR_MESSAGE error_msg], eo_next_message = True, eo_state = s\<rparr>
                else case xtn_of_header init datapath m p_msg_hdr s of
                    None \<Rightarrow> Some \<lparr>eo_calls = [], eo_events = [], eo_next_message = False, eo_state = s\<rparr>
                  | Some p_xtn_rec \<Rightarrow>
                      let calls = (if msg_type = OFPT_MULTIPART_REQUEST
                                   then multipart_error datapath m data (xr_callback_fn (xtn_recs s p_xtn_rec)) else [])
                      in if calls \<noteq> [] \<and> xr_callback_fn (xtn_recs s p_xtn_rec) = 0 then None
                         else Some \<lparr>eo_calls = calls, eo_events = [DP_ERROR_MESSAGE error_msg], eo_next_message = True,
                                eo_state = snd (cntlr_del_xtn_with_rec p_xtn_rec s)\<rparr>)"

section \<open>The role of the controller\<close>

definition OFPCR_ROLE_SLAVE :: u32 where "OFPCR_ROLE_SLAVE = 3"

text \<open>The roles by the handles of the datapaths.\<close>

definition of_add_new_role_to_dp :: "(u64 \<Rightarrow> bool) \<Rightarrow> u64 \<Rightarrow> u32 \<Rightarrow> (u64 \<Rightarrow> u32) \<Rightarrow> u64 \<Rightarrow> u32" where
  "of_add_new_role_to_dp known datapath_handle controller_role roles =
     (if known datapath_handle then roles(datapath_handle := controller_role) else roles)"

definition role_change_reply ::
  "(u64 \<Rightarrow> bool) \<Rightarrow> answer_args \<Rightarrow> u32 \<Rightarrow> (u64 \<Rightarrow> u32) \<Rightarrow> u64 \<Rightarrow> u32" where
  "role_change_reply known args new_role roles =
     (if aa_status args = OF_RESPONSE_STATUS_SUCCESS
      then of_add_new_role_to_dp known (aa_datapath args) new_role roles else roles)"

section \<open>A message as it arrives\<close>

text \<open>Behind the header, of which the channel has a copy.\<close>

definition arrived :: "memory \<Rightarrow> nat \<Rightarrow> nat \<Rightarrow> u8 \<Rightarrow> u32 \<Rightarrow> u8 list \<Rightarrow> bool" where
  "arrived m start h ty x body \<longleftrightarrow>
     (let header = [4, ty] @ be16 (of_nat (8 + length body)) @ be32 x in holds m start (header @ body) \<and> holds m h header)"

lemma arrived_at:
  assumes "arrived m start h ty x body"
  shows "m (h + 1) = ty" and "be32_at m (h + 4) = x" and "be16_at m (start + 2) = of_nat (8 + length body)"
    and "holds m (start + 8) body"
proof -
  let ?l = "be16 (of_nat (8 + length body))"
  have h: "holds m h ([4] @ [ty] @ ?l @ be32 x)" and s: "holds m start ([4, ty] @ ?l @ be32 x @ body)"
    using assms by (simp_all add: arrived_def Let_def)
  have "holds m (h + 1) [ty]" "holds m (h + 4) (be32 x)" using h unfolding holds_append by (simp_all add: ac_simps)
  then show "m (h + 1) = ty" "be32_at m (h + 4) = x"
    using holds_first [of m "h + 1" "[ty]"] at_holds(2) [of m "h + 4" "be32 x"] by simp_all
  have "holds m (start + 2) ?l" "holds m (start + 8) body" using s unfolding holds_append by (simp_all add: ac_simps numeral_2_eq_2)
  then show "be16_at m (start + 2) = of_nat (8 + length body)" "holds m (start + 8) body"
    using at_holds(1) [of m "start + 2" ?l] by simp_all
qed

section \<open>Replies reach the function of their request\<close>

datatype reply = Config_reply u16 u16 | Role_reply u32 u64

fun replies_to :: "reply \<Rightarrow> request \<Rightarrow> bool" where
  "replies_to (Config_reply flags miss_send_len) q \<longleftrightarrow> q = Ask_switch_config"
| "replies_to (Role_reply role generation_id) q \<longleftrightarrow> (\<exists>r g. q = Ask_role r g)"

fun reply_type :: "reply \<Rightarrow> u8" where
  "reply_type (Config_reply flags miss_send_len) = 8"
| "reply_type (Role_reply role generation_id) = 25"

fun reply_body :: "reply \<Rightarrow> u8 list" where
  "reply_body (Config_reply flags miss_send_len) = be16 flags @ be16 miss_send_len"
| "reply_body (Role_reply role generation_id) = be32 role @ [0, 0, 0, 0] @ be64 generation_id"

fun reply_call :: "reply \<Rightarrow> xtn_datapath \<Rightarrow> request_cbk \<Rightarrow> answer_cbk" where
  "reply_call (Config_reply flags miss_send_len) dp cbk =
     Switch_config_is \<lparr>aa_fn = rk_callback_fn cbk, aa_domain = xd_domain dp, aa_datapath = xd_handle dp,
       aa_arg1 = rk_arg1 cbk, aa_arg2 = rk_arg2 cbk, aa_status = OF_RESPONSE_STATUS_SUCCESS\<rparr> flags miss_send_len"
| "reply_call (Role_reply role generation_id) dp cbk =
     Role_is \<lparr>aa_fn = rk_callback_fn cbk, aa_domain = 0, aa_datapath = xd_handle dp, aa_arg1 = 0, aa_arg2 = 0,
       aa_status = OF_RESPONSE_STATUS_SUCCESS\<rparr> role"

text \<open>The handler by the type of the message, as in the table of handlers.\<close>

definition handle_reply :: "u32 \<Rightarrow> xtn_datapath \<Rightarrow> memory \<Rightarrow> nat \<Rightarrow> nat \<Rightarrow> xtn_state \<Rightarrow> answer_outcome" where
  "handle_reply init dp m start h s =
     (let ty = m (h + 1)
      in if ty = OFPT_ECHO_REPLY then of_echo_reply_handler init Read_complete dp m start h s
         else if ty = OFPT_GET_CONFIG_REPLY then of_cfg_reply_handler init Read_complete dp m start h s
         else if ty = OFPT_ROLE_REPLY then of_process_role_replymsg init Read_complete dp m start h s
         else if ty = OFPT_GET_ASYNC_REPLY then of_process_async_replymsg init Read_complete dp m start h s
         else unanswered False s)"

lemmas reply_types = OFPT_ERROR_def OFPT_ECHO_REPLY_def OFPT_GET_CONFIG_REPLY_def OFPT_BARRIER_REPLY_def OFPT_ROLE_REPLY_def
  OFPT_GET_ASYNC_REPLY_def

lemma reply_handled:
  assumes w: "arrived m start h (reply_type w) x (reply_body w)"
    and get: "cntlr_get_xtn_details init x (xd_id dp) s = Some a"
    and rc: "xr_callback_fn (xtn_recs s a) = rk_callback_fn cbk" "xr_app_pvt_arg1 (xtn_recs s a) = rk_arg1 cbk"
      "xr_app_pvt_arg2 (xtn_recs s a) = rk_arg2 cbk" and fn: "rk_callback_fn cbk \<noteq> 0"
  shows "handle_reply init dp m start h s = answered [reply_call w dp cbk] False a s"
proof (cases w)
  case (Config_reply flags n)
  note at = arrived_at [OF w]
  have "holds m (start + 8) (be16 flags)" "holds m (start + 10) (be16 n)"
    using at(4) Config_reply by (simp_all add: holds_append ac_simps)
  then have "be16_at m (start + 8) = flags" "be16_at m (start + 10) = n" by (simp_all add: at_holds)
  then show ?thesis
    using Config_reply at(1,2) get rc fn
    by (simp add: handle_reply_def of_cfg_reply_handler_def xtn_of_header_def reply_types Let_def)
next
  case (Role_reply role g)
  note at = arrived_at [OF w]
  have "holds m (start + 8) (be32 role)" using at(4) Role_reply by (simp add: holds_append ac_simps)
  then have "be32_at m (start + 8) = role" by (simp add: at_holds)
  then show ?thesis
    using Role_reply at(1,2) get rc fn
    by (simp add: handle_reply_def of_process_role_replymsg_def xtn_of_header_def reply_types Let_def)
qed

text \<open>
  A request made of a connected datapath in a fresh message of its length, from a state of the table that
  requests and replies lead to; and what may happen to the table until its answer comes.
\<close>

definition asked ::
  "send_env \<Rightarrow> u64 \<Rightarrow> request_datapath \<Rightarrow> of_msg \<Rightarrow> request \<Rightarrow> request_cbk \<Rightarrow> nat \<Rightarrow> xtn_state \<Rightarrow> request_outcome \<Rightarrow> bool" where
  "asked env h datapath msg q cbk a s r \<longleftrightarrow>
     se_datapath_byhandle env h = Some datapath \<and> rd_main_conn_present datapath \<and> rd_conn_table datapath \<noteq> None
     \<and> unat (buffer_len msg) = length (request_wire q 0) \<and> data_len msg = 0
     \<and> zeros (start_of_data msg) (length (request_wire q 0)) (mem msg) \<and> as_openflow q
     \<and> (\<exists>ops L recs. xtn_reached (se_init env) ops L recs s) \<and> can_record env a s \<and> rk_callback_fn cbk \<noteq> 0
     \<and> ask q env msg h cbk s = Some r"

definition meanwhile :: "u32 \<Rightarrow> nat \<Rightarrow> xtn_state \<Rightarrow> xtn_state \<Rightarrow> bool" where
  "meanwhile init a s s' \<longleftrightarrow> (\<exists>ops. run_ok (exec_xtn init) xtn_valid ops s \<and> length ops < 2 ^ 31 - 2 \<and> Remove a \<notin> set ops
     \<and> snd (run (exec_xtn init) ops s) = s')"

lemma asked_followed:
  assumes "asked env h datapath msg q cbk a s r" and "meanwhile (se_init env) a (ro_state r) s1"
  defines "x \<equiv> cntlr_xtn_seq_no_g s + 1" and "dp \<equiv> rd_xtn datapath"
  shows "ro_sent r" and "read_bytes (start_of_data msg) (length (request_wire q 0)) (mem (ro_msg r)) = request_wire q x"
    and "cntlr_get_xtn_details (se_init env) x (xd_id dp) s1 = Some a"
    and "xr_callback_fn (xtn_recs s1 a) = rk_callback_fn cbk" "xr_app_pvt_arg1 (xtn_recs s1 a) = rk_arg1 (passed_on q cbk)"
      "xr_app_pvt_arg2 (xtn_recs s1 a) = rk_arg2 (passed_on q cbk)"
    and "cntlr_get_xtn_details (se_init env) x (xd_id dp) (snd (cntlr_del_xtn_with_rec a s1)) = None"
proof -
  let ?c = "passed_on q cbk"
  obtain ops L recs where s: "xtn_reached (se_init env) ops L recs s" using assms(1) by (auto simp: asked_def)
  have port: "as_openflow q" using assms(1) by (simp add: asked_def)
  note as = assms(1) [unfolded asked_def]
  obtain s' ref m' where w: "ask q env msg h cbk s
      = Some \<lparr>ro_status = Request_success, ro_msg = m', ro_sent = True, ro_released = False, ro_state = s'\<rparr>"
    "read_bytes (start_of_data msg) (length (request_wire q 0)) (mem m') = request_wire q (cntlr_xtn_seq_no_g s')"
    and e: "cntlr_record_xtn_details (se_init env) (Some a) True (mem (request_frame q msg)) (start_of_data msg) dp
      (rk_callback_fn ?c) (rk_arg1 ?c) (rk_arg2 ?c) s = (Some ref, s')" and x': "cntlr_xtn_seq_no_g s' = x"
    unfolding dp_def x_def by (rule ask_recorded [of env h datapath msg q _ _ _ s a cbk, OF _ _ _ _ _ _ port s]) (use as in auto)
  have r: "r = \<lparr>ro_status = Request_success, ro_msg = m', ro_sent = True, ro_released = False, ro_state = s'\<rparr>" using w(1) as by simp
  then show "ro_sent r" "read_bytes (start_of_data msg) (length (request_wire q 0)) (mem (ro_msg r)) = request_wire q x"
    using w(2) x' by simp_all
  obtain ops' where ops': "run_ok (exec_xtn (se_init env)) xtn_valid ops' s'" "length ops' < 2 ^ 31 - 2" "Remove a \<notin> set ops'"
    "snd (run (exec_xtn (se_init env)) ops' s') = s1"
    using assms(2) r by (auto simp: meanwhile_def)
  obtain bs rc where f: "followed a x (OF_TRANSACTION_TABLE_HASH (se_init env) x (xd_id dp)) rc True s1 bs"
    and rc: "xr_callback_fn rc = rk_callback_fn ?c" "xr_app_pvt_arg1 rc = rk_arg1 ?c" "xr_app_pvt_arg2 rc = rk_arg2 ?c"
    by (rule recorded_stays [OF s _ e ops'(1,4,2)]) (use as ops'(3) x' that in \<open>auto simp: can_record_def\<close>)
  have "rk_callback_fn ?c = rk_callback_fn cbk" "xtn_recs s1 a = rc" using f by (cases q; simp add: followed_def)+
  with rc show "xr_callback_fn (xtn_recs s1 a) = rk_callback_fn cbk" "xr_app_pvt_arg1 (xtn_recs s1 a) = rk_arg1 ?c"
    "xr_app_pvt_arg2 (xtn_recs s1 a) = rk_arg2 ?c" by simp_all
  show "cntlr_get_xtn_details (se_init env) x (xd_id dp) s1 = Some a" using followed_get [OF f] by simp
  obtain bs' where "followed a x (OF_TRANSACTION_TABLE_HASH (se_init env) x (xd_id dp)) rc False
      (snd (cntlr_del_xtn_with_rec a s1)) bs'"
    using followed_remove [OF f, of a] by auto
  from followed_get [OF this]
  show "cntlr_get_xtn_details (se_init env) x (xd_id dp) (snd (cntlr_del_xtn_with_rec a s1)) = None" by simp
qed

lemma reply_delivered:
  assumes "asked env h datapath msg q cbk a s r" and "meanwhile (se_init env) a (ro_state r) s1"
    and "replies_to w q" and "arrived m start p (reply_type w) (cntlr_xtn_seq_no_g s + 1) (reply_body w)"
    and "handle_reply (se_init env) (rd_xtn datapath) m start p s1 = out"
  shows "ro_sent r
    \<and> read_bytes (start_of_data msg) (length (request_wire q 0)) (mem (ro_msg r)) = request_wire q (cntlr_xtn_seq_no_g s + 1)
    \<and> ao_calls out = [reply_call w (rd_xtn datapath) cbk] \<and> ao_next_message out
    \<and> cntlr_get_xtn_details (se_init env) (cntlr_xtn_seq_no_g s + 1) (xd_id (rd_xtn datapath)) (ao_state out) = None"
proof -
  note f = asked_followed [OF assms(1,2)]
  have "passed_on q cbk = cbk" using assms(3) by (cases w) auto
  then have "out = answered [reply_call w (rd_xtn datapath) cbk] False a s1"
    using reply_handled [OF assms(4) f(3)] f(4-6) assms(1,5) by (simp add: asked_def)
  then show ?thesis using f by (simp add: answered_def)
qed

text \<open>
  C27: When a connected datapath is asked for its switch configuration, in a fresh message,
  and the request can be recorded and the transport takes it (\<open>asked\<close>), then the bytes of OpenFlow go out
  with a number.  When the reply with that number has arrived as a whole, whatever else was recorded and
  deleted in between, the function of the request is called once, with the handles of the domain and the
  datapath, the arguments given with the request, and the flags and the length that the datapath answered;
  the channel is ready for the next message, and the request is forgotten.
\<close>

theorem answer_delivered:
  assumes "asked env h datapath msg Ask_switch_config cbk a s r" and "meanwhile (se_init env) a (ro_state r) s1"
    and "arrived m start p OFPT_GET_CONFIG_REPLY (cntlr_xtn_seq_no_g s + 1) (be16 flags @ be16 miss_send_len)"
    and "handle_reply (se_init env) (rd_xtn datapath) m start p s1 = out"
  shows "ro_sent r
    \<and> read_bytes (start_of_data msg) 8 (mem (ro_msg r)) = [4, 7, 0, 8] @ be32 (cntlr_xtn_seq_no_g s + 1)
    \<and> ao_calls out = [Switch_config_is \<lparr>aa_fn = rk_callback_fn cbk, aa_domain = xd_domain (rd_xtn datapath),
        aa_datapath = xd_handle (rd_xtn datapath), aa_arg1 = rk_arg1 cbk, aa_arg2 = rk_arg2 cbk,
        aa_status = OF_RESPONSE_STATUS_SUCCESS\<rparr> flags miss_send_len]
    \<and> ao_next_message out
    \<and> cntlr_get_xtn_details (se_init env) (cntlr_xtn_seq_no_g s + 1) (xd_id (rd_xtn datapath)) (ao_state out) = None"
  using reply_delivered [OF assms(1,2) _ _ assms(4), of "Config_reply flags miss_send_len"] assms(3)
  by (simp add: reply_types request_wire_def OFPT_GET_CONFIG_REQUEST_def be16_def)

text \<open>
  A role reply calls the function of its request, too, but without the handle of the domain and without the
  arguments of the application.
\<close>

lemma role_answered:
  assumes "asked env h datapath msg (Ask_role r g) cbk a s out1" and "meanwhile (se_init env) a (ro_state out1) s1"
    and "arrived m start p OFPT_ROLE_REPLY (cntlr_xtn_seq_no_g s + 1) (reply_body (Role_reply role generation_id))"
    and "handle_reply (se_init env) (rd_xtn datapath) m start p s1 = out"
  shows "ao_calls out = [Role_is \<lparr>aa_fn = rk_callback_fn cbk, aa_domain = 0, aa_datapath = xd_handle (rd_xtn datapath),
      aa_arg1 = 0, aa_arg2 = 0, aa_status = OF_RESPONSE_STATUS_SUCCESS\<rparr> role]"
  using reply_delivered [OF assms(1,2) _ _ assms(4), of "Role_reply role generation_id"] assms(3)
  by (simp add: reply_types)

text \<open>The function for the role then records it for the datapath.\<close>

lemma role_recorded:
  "known (xd_handle dp) \<Longrightarrow> reply_call (Role_reply role g) dp cbk = Role_is args new_role
    \<Longrightarrow> role_change_reply known args new_role roles (xd_handle dp) = role"
  by (auto simp: role_change_reply_def of_add_new_role_to_dp_def)

text \<open>The situation of the witnesses: the message lies behind the copy of its header.\<close>

definition placed :: "u8 \<Rightarrow> u32 \<Rightarrow> u8 list \<Rightarrow> memory" where
  "placed ty x body = (let header = [4, ty] @ be16 (of_nat (8 + length body)) @ be32 x
     in write_bytes 500 (header @ body) (write_bytes 100 header (\<lambda>_. 0)))"

lemma arrived_placed: "arrived (placed ty x body) 500 100 ty x body"
proof -
  let ?header = "[4, ty] @ be16 (of_nat (8 + length body)) @ be32 x"
  have "holds (placed ty x body) 100 ?header"
    unfolding MatchParse.holds_def placed_def Let_def
    by (subst read_bytes_cong [where m' = "write_bytes 100 ?header (\<lambda>_. 0)"]) (simp_all add: write_bytes_outside read_write_same')
  then show ?thesis by (simp add: arrived_def placed_def Let_def)
qed

lemma asked_sample:
  assumes "unat (buffer_len (init_msg ty len 1000 (\<lambda>_. 0))) = length (request_wire q 0)" and "as_openflow q"
  obtains r where "asked sample_send_env 2 sample_request_datapath (init_msg ty len 1000 (\<lambda>_. 0)) q
      (app_callback sample_send_env f) 5 fresh_table r"
    and "ask q sample_send_env (init_msg ty len 1000 (\<lambda>_. 0)) 2 (app_callback sample_send_env f) fresh_table = Some r"
    and "meanwhile 7 5 (ro_state r) (ro_state r)"
proof -
  let ?m = "init_msg ty len 1000 (\<lambda>_. 0)"
  have m: "data_len ?m = 0" "start_of_data ?m = 1000" "mem ?m = (\<lambda>_. 0)" by (simp_all add: init_msg_def)
  have s: "xtn_reached (se_init sample_send_env) [] blank_links blank_recs fresh_table"
    using fresh_table(1) by (simp add: sample_send_env)
  obtain r where "ask q sample_send_env ?m 2 (app_callback sample_send_env f) fresh_table = Some r"
    by (rule ask_recorded [OF sample_send_env(1,3,4) assms(1) m(1) _ _ s fresh_table(3), of "app_callback sample_send_env f"])
      (use m assms(2) zeros_blank in auto)
  moreover from this have "asked sample_send_env 2 sample_request_datapath ?m q (app_callback sample_send_env f) 5 fresh_table r"
    using assms m s fresh_table(3) sample_send_env zeros_blank by (auto simp: asked_def app_callback_def)
  moreover have "meanwhile 7 5 (ro_state r) (ro_state r)"
    unfolding meanwhile_def by (rule exI [of _ "[]"]) simp
  ultimately show thesis using that by blast
qed

definition config_message :: of_msg where
  "config_message = init_msg OFPT_GET_CONFIG_REQUEST 8 1000 (\<lambda>_. 0)"

lemma answer_delivered_witness:
  "\<exists>r. of_get_switch_config_msg sample_send_env config_message 2
      (app_callback sample_send_env of_switch_info_reply_cbk_fn_after_feature_reply) fresh_table = Some r
    \<and> ao_calls (handle_reply 7 Xtn.sample_datapath (placed OFPT_GET_CONFIG_REPLY 1 (be16 3 @ be16 128)) 500 100 (ro_state r))
      = [Switch_config_is \<lparr>aa_fn = 11, aa_domain = 1, aa_datapath = 2, aa_arg1 = 0, aa_arg2 = 0,
          aa_status = OF_RESPONSE_STATUS_SUCCESS\<rparr> 3 128]"
proof -
  have "unat (buffer_len (init_msg OFPT_GET_CONFIG_REQUEST 8 1000 (\<lambda>_. 0))) = length (request_wire Ask_switch_config 0)"
    by (simp add: init_msg_def ROUND_UP_def)
  then obtain r where r: "asked sample_send_env 2 sample_request_datapath config_message Ask_switch_config
      (app_callback sample_send_env of_switch_info_reply_cbk_fn_after_feature_reply) 5 fresh_table r"
    "ask Ask_switch_config sample_send_env config_message 2
      (app_callback sample_send_env of_switch_info_reply_cbk_fn_after_feature_reply) fresh_table
      = Some r" "meanwhile 7 5 (ro_state r) (ro_state r)"
    unfolding config_message_def by (rule asked_sample) simp
  have "arrived (placed OFPT_GET_CONFIG_REPLY 1 (be16 3 @ be16 128)) 500 100 OFPT_GET_CONFIG_REPLY
      (cntlr_xtn_seq_no_g fresh_table + 1) (be16 3 @ be16 128)"
    unfolding fresh_table using arrived_placed [of OFPT_GET_CONFIG_REPLY 1] by simp
  from answer_delivered [OF r(1) _ this, of "ro_state r"] r
  show ?thesis by (simp add: sample_send_env app_callback_def Xtn.sample_datapath_def)
qed

section \<open>Errors reach the function of their request\<close>

definition multipart_type :: "request \<Rightarrow> u16" where
  "multipart_type q = of_be (take 2 (request_body q))"

text \<open>The calls as they are made: four types with the handles the wrong way round, one without them.\<close>

definition error_calls :: "request \<Rightarrow> xtn_datapath \<Rightarrow> nat \<Rightarrow> error_cbk list" where
  "error_calls q dp fn =
     (if request_type q \<noteq> OFPT_MULTIPART_REQUEST then []
      else [if q = Ask_switch_info then Error_cbk (multipart_type q) fn 0 0
            else if q \<in> {Ask_port_descs, Ask_group_descs, Ask_group_features} \<or> (\<exists>g. q = Ask_group_stats g)
            then Error_cbk (multipart_type q) fn (xd_handle dp) (xd_domain dp)
            else Error_cbk (multipart_type q) fn (xd_domain dp) (xd_handle dp)])"

lemma request_at:
  assumes "holds m a (request_wire q x)"
  shows "m (a + 1) = request_type q" and "request_type q = OFPT_MULTIPART_REQUEST \<Longrightarrow> be16_at m (a + 8) = multipart_type q"
proof -
  let ?l = "be16 (of_nat (8 + length (request_body q)))"
  have h: "holds m a ([4] @ [request_type q] @ ?l @ be32 x @ request_body q)" using assms by (simp add: request_wire_def)
  then have "holds m (a + 1) [request_type q]" unfolding holds_append by (simp add: ac_simps)
  then show "m (a + 1) = request_type q" using holds_first by fastforce
  have b: "holds m (a + 8) (request_body q)" using h unfolding holds_append by (simp add: ac_simps)
  assume "request_type q = OFPT_MULTIPART_REQUEST"
  then have "length (take 2 (request_body q)) = 2"
    by (cases q) (simp_all add: OFPT_MULTIPART_REQUEST_def OFPT_GET_CONFIG_REQUEST_def OFPT_GET_ASYNC_REQUEST_def OFPT_ROLE_REQUEST_def)
  moreover have "holds m (a + 8) (take 2 (request_body q) @ drop 2 (request_body q))" using b by simp
  then have "holds m (a + 8) (take 2 (request_body q))" by (simp only: holds_append)
  ultimately show "be16_at m (a + 8) = multipart_type q" by (simp add: at_holds multipart_type_def)
qed

lemma multipart_error_calls:
  assumes "holds m data (request_wire q x)" and "request_type q = OFPT_MULTIPART_REQUEST"
  shows "multipart_error dp m data fn = error_calls q dp fn"
proof -
  have ty: "be16_at m (data + 8) = multipart_type q" by (rule request_at(2) [OF assms])
  show ?thesis
    using assms(2) by (cases q) (simp_all add: multipart_error_def error_calls_def ty, simp_all add: multipart_type_def multipart_body_def
        OFPMP_defs OFPT_MULTIPART_REQUEST_def OFPT_GET_CONFIG_REQUEST_def OFPT_GET_ASYNC_REQUEST_def OFPT_ROLE_REQUEST_def Let_def)
qed



end
